(* ===== verification/Prelude.thy ===== *)
theory Prelude
  imports Complex_Main "HOL-Library.Multiset" "HOL-Library.Sublist"
begin

text \<open>
  Shared vocabulary of the development: the JavaScript values, strings and containers the
  TypeScript sources under \<^verbatim>\<open>src/dsh/packages\<close> compute with.

  \<^item> Strings. A JavaScript string is a sequence of UTF-16 code units; here it is a
    \<open>string\<close> (a list of \<open>char\<close>, code units below 256), and every string operation below
    agrees with the language on such strings.
  \<^item> Numbers. A number read from JSON is \<open>Fin r\<close> (a rational) or not finite; clocks and
    counters are \<open>int\<close>.
  \<^item> \<open>undefined\<close> is \<open>None\<close>; a value of type \<open>unknown\<close> is a \<open>json option\<close>.
  \<^item> An object or a \<open>Map\<close> is an association list in insertion order with distinct keys.
  \<^item> \<open>Array.prototype.sort\<close> is a stable sort by a comparator.
\<close>

named_theorems js_str \<open>evaluation rules of the string operations\<close>
named_theorems al_simps \<open>rules of insertion-ordered maps\<close>
named_theorems sort_facts \<open>facts about the stable sort\<close>

section \<open>JSON values\<close>

datatype jsnum = Fin rat | NotFinite

datatype json =
    JNull
  | JBool bool
  | JNum jsnum
  | JStr string
  | JArr "json list"
  | JObj "(string \<times> json) list"

type_synonym unknown = "json option"

definition undefined_js :: unknown where
  "undefined_js = None"

text \<open>\<open>v[k]\<close> on a value that passed through \<open>rec\<close>: only objects have the properties read.\<close>

fun jprop :: "unknown \<Rightarrow> string \<Rightarrow> unknown" where
  "jprop (Some (JObj kvs)) k = map_of kvs k"
| "jprop _ k = None"

fun is_object :: "unknown \<Rightarrow> bool" where
  "is_object (Some (JObj _)) = True"
| "is_object (Some (JArr _)) = True"
| "is_object _ = False"

fun as_str :: "unknown \<Rightarrow> string" where
  "as_str (Some (JStr s)) = s"
| "as_str _ = []"

fun str_opt :: "unknown \<Rightarrow> string option" where
  "str_opt (Some (JStr s)) = Some s"
| "str_opt _ = None"

fun num_or :: "unknown \<Rightarrow> rat \<Rightarrow> rat" where
  "num_or (Some (JNum (Fin r))) d = r"
| "num_or _ d = d"

fun is_true :: "unknown \<Rightarrow> bool" where
  "is_true (Some (JBool b)) = b"
| "is_true _ = False"

fun arr_items :: "unknown \<Rightarrow> json list" where
  "arr_items (Some (JArr xs)) = xs"
| "arr_items _ = []"

text \<open>Decimal digits of a natural number, as \<open>String(n)\<close> prints it.\<close>

fun show_nat :: "nat \<Rightarrow> string" where
  "show_nat n = (if n < 10 then [char_of (48 + n)] else show_nat (n div 10) @ [char_of (48 + n mod 10)])"

declare show_nat.simps [simp del]

text \<open>\<open>Object.entries\<close>: own properties of objects, indices of arrays and strings.\<close>

fun obj_entries :: "unknown \<Rightarrow> (string \<times> json) list" where
  "obj_entries (Some (JObj kvs)) = kvs"
| "obj_entries (Some (JArr xs)) = zip (map show_nat [0..<length xs]) xs"
| "obj_entries (Some (JStr cs)) = zip (map show_nat [0..<length cs]) (map (\<lambda>c. JStr [c]) cs)"
| "obj_entries _ = []"

text \<open>\<open>a ?? b\<close> on a value read from JSON: \<open>null\<close> and \<open>undefined\<close> take the default.\<close>

fun nullish_or :: "unknown \<Rightarrow> json \<Rightarrow> json" where
  "nullish_or None d = d"
| "nullish_or (Some JNull) d = d"
| "nullish_or (Some v) d = v"

text \<open>Object literals with optional fields: \<open>{...(x === undefined ? {} : {k: x})}\<close>.\<close>

definition opt_field :: "string \<Rightarrow> json option \<Rightarrow> (string \<times> json) list" where
  "opt_field k v = (case v of None \<Rightarrow> [] | Some j \<Rightarrow> [(k, j)])"

lemma opt_field_simps [simp]:
  "opt_field k None = []" "opt_field k (Some j) = [(k, j)]"
  by (simp_all add: opt_field_def)

lemma map_of_opt_field [simp]:
  "a \<noteq> k \<Longrightarrow> map_of (opt_field k v @ r) a = map_of r a"
  "map_of r k = None \<Longrightarrow> map_of (opt_field k v @ r) k = v"
  "a \<noteq> k \<Longrightarrow> map_of (opt_field k v) a = None"
  "map_of (opt_field k v) k = v"
  by (cases v; simp)+

text \<open>A literal all of whose fields are optional.\<close>

definition obj_fields :: "(string \<times> json option) list \<Rightarrow> (string \<times> json) list" where
  "obj_fields kvs = concat (map (\<lambda>(k, v). opt_field k v) kvs)"

lemma obj_fields_Cons: "obj_fields ((k, v) # kvs) = opt_field k v @ obj_fields kvs"
  by (simp add: obj_fields_def)

lemma obj_fields_absent: "k \<notin> fst ` set kvs \<Longrightarrow> map_of (obj_fields kvs) k = None"
  by (induction kvs) (auto simp: obj_fields_def opt_field_def split: option.splits)

lemma map_of_obj_fields: "distinct (map fst kvs) \<Longrightarrow> map_of (obj_fields kvs) k = Option.bind (map_of kvs k) id"
proof (induction kvs)
  case (Cons kv kvs)
  obtain a v where kv: "kv = (a, v)" by (cases kv)
  have "map_of (obj_fields kvs) a = None" using Cons.prems kv by (intro obj_fields_absent) auto
  then show ?case using Cons kv by (cases v) (auto simp: obj_fields_Cons)
qed (simp add: obj_fields_def)

definition nonempty_opt :: "string \<Rightarrow> string option" where
  "nonempty_opt s = (if s = [] then None else Some s)"

lemma nonempty_opt_simps [simp]:
  "nonempty_opt [] = None"
  "nonempty_opt (c # cs) = Some (c # cs)"
  "nonempty_opt s = None \<longleftrightarrow> s = []"
  "nonempty_opt s = Some t \<longleftrightarrow> s = t \<and> t \<noteq> []"
  by (auto simp: nonempty_opt_def)

lemma nonempty_opt_id [simp]: "x \<noteq> Some [] \<Longrightarrow> nonempty_opt (as_str (map_option JStr x)) = x"
  by (cases x) auto

lemma is_true_JBool [simp]: "is_true (map_option JBool b) \<longleftrightarrow> b = Some True"
  by (cases b) auto

lemma set_map_filter: "set (List.map_filter f xs) = {y. \<exists>x \<in> set xs. f x = Some y}"
  by (force simp: List.map_filter_def image_iff)

lemma filter_keeps_all: "length (filter P xs) = length xs \<longleftrightarrow> (\<forall>x \<in> set xs. P x)"
proof (induction xs)
  case (Cons x xs)
  have "length (filter P xs) \<noteq> Suc (length xs)" using length_filter_le [of P xs] by linarith
  then show ?case using Cons by simp
qed simp

lemma find_append: "List.find P (xs @ ys) = (case List.find P xs of None \<Rightarrow> List.find P ys | Some x \<Rightarrow> Some x)"
  by (induction xs) auto

lemma as_str_eq_Nil: "as_str v = [] \<longleftrightarrow> (\<forall>s. v = Some (JStr s) \<longrightarrow> s = [])"
  by (cases v rule: as_str.cases) auto

section \<open>Strings\<close>

text \<open>White space of \<open>trim\<close> and of \<open>\s\<close>: TAB, LF, VT, FF, CR, SP and NBSP below 256.\<close>

definition is_ws :: "char \<Rightarrow> bool" where
  "is_ws c = (let n = (of_char c :: nat) in 9 \<le> n \<and> n \<le> 13 \<or> n = 32 \<or> n = 160)"

definition lower_char :: "char \<Rightarrow> char" where
  "lower_char c = (let n = (of_char c :: nat) in
     if 65 \<le> n \<and> n \<le> 90 \<or> 192 \<le> n \<and> n \<le> 222 \<and> n \<noteq> 215 then char_of (n + 32) else c)"

definition toLowerCase :: "string \<Rightarrow> string" where
  "toLowerCase s = map lower_char s"

definition trimStart :: "string \<Rightarrow> string" where
  "trimStart s = dropWhile is_ws s"

definition trimEnd :: "string \<Rightarrow> string" where
  "trimEnd s = rev (dropWhile is_ws (rev s))"

definition trim :: "string \<Rightarrow> string" where
  "trim s = trimEnd (trimStart s)"

definition startsWith :: "string \<Rightarrow> string \<Rightarrow> bool" where
  "startsWith s p = prefix p s"

text \<open>\<open>s.indexOf(t, from)\<close>: the position clamps to the length; \<open>-1\<close> is \<open>None\<close>.\<close>

definition indexOf :: "string \<Rightarrow> string \<Rightarrow> nat \<Rightarrow> nat option" where
  "indexOf s t from =
     List.find (\<lambda>i. prefix t (drop i s)) [min from (length s) ..< Suc (length s)]"

definition str_includes :: "string \<Rightarrow> string \<Rightarrow> bool" where
  "str_includes s t = (indexOf s t 0 \<noteq> None)"

text \<open>\<open>s.split(c)\<close> on a one-character separator, \<open>ws.join(sep)\<close>, and \<open>s.split(/\s+/)\<close>.\<close>

fun split_on :: "char \<Rightarrow> string \<Rightarrow> string list" where
  "split_on c [] = [[]]"
| "split_on c (x # xs) =
     (if x = c then [] # split_on c xs
      else (case split_on c xs of [] \<Rightarrow> [[x]] | w # ws \<Rightarrow> (x # w) # ws))"

fun join_with :: "'a list \<Rightarrow> 'a list list \<Rightarrow> 'a list" where
  "join_with sep [] = []"
| "join_with sep [w] = w"
| "join_with sep (w # v # ws) = w @ sep @ join_with sep (v # ws)"

function split_ws :: "string \<Rightarrow> string \<Rightarrow> string list" where
  "split_ws acc [] = [rev acc]"
| "split_ws acc (c # cs) =
     (if is_ws c then rev acc # split_ws [] (dropWhile is_ws cs) else split_ws (c # acc) cs)"
  by pat_completeness auto
termination
  by (relation "measure (\<lambda>(acc, s). length s)") (auto simp: less_Suc_eq_le length_dropWhile_le)

definition slice_upto :: "string \<Rightarrow> nat \<Rightarrow> string" where
  "slice_upto s n = take n s"

lemma trimEnd_simps [js_str]:
  "trimEnd [] = []"
  "trimEnd (s @ [c]) = (if is_ws c then trimEnd s else s @ [c])"
  by (simp_all add: trimEnd_def)

lemma trim_Nil [simp]: "trim [] = []"
  by (simp add: trim_def trimStart_def trimEnd_def)

lemma trimEnd_prefix: "prefix (trimEnd s) s"
proof -
  have "suffix (dropWhile is_ws (rev s)) (rev s)" by (rule suffix_dropWhile)
  then show ?thesis by (simp add: trimEnd_def suffix_to_prefix)
qed

lemma trimStart_suffix: "suffix (trimStart s) s"
  by (simp add: trimStart_def suffix_dropWhile)

lemma trimEnd_last: "trimEnd s \<noteq> [] \<Longrightarrow> \<not> is_ws (last (trimEnd s))"
  by (simp add: trimEnd_def last_rev hd_dropWhile)

lemma trimStart_hd: "trimStart s \<noteq> [] \<Longrightarrow> \<not> is_ws (hd (trimStart s))"
  by (simp add: trimStart_def hd_dropWhile)

lemma trimEnd_id: "s = [] \<or> \<not> is_ws (last s) \<Longrightarrow> trimEnd s = s"
  by (cases s rule: rev_cases) (auto simp: js_str)

lemma trimStart_id: "s = [] \<or> \<not> is_ws (hd s) \<Longrightarrow> trimStart s = s"
  by (cases s) (auto simp: trimStart_def)

lemma hd_prefix: "prefix p s \<Longrightarrow> p \<noteq> [] \<Longrightarrow> hd p = hd s"
  by (auto simp: prefix_def)

lemma trim_hd: "trim s \<noteq> [] \<Longrightarrow> \<not> is_ws (hd (trim s))"
  using hd_prefix [OF trimEnd_prefix [of "trimStart s"]] trimStart_hd [of s]
  by (cases "trimStart s = []") (auto simp: trim_def js_str)

lemma trim_last: "trim s \<noteq> [] \<Longrightarrow> \<not> is_ws (last (trim s))"
  by (simp add: trim_def trimEnd_last)

lemma trim_idem [simp]: "trim (trim s) = trim s"
proof (cases "trim s = []")
  case False
  then have "trimStart (trim s) = trim s" by (simp add: trimStart_id trim_hd)
  then show ?thesis using False by (metis trim_def trim_last trimEnd_id)
qed simp

lemma trim_id_iff: "trim s = s \<longleftrightarrow> s = [] \<or> \<not> is_ws (hd s) \<and> \<not> is_ws (last s)"
  by (metis trim_def trim_hd trim_last trim_Nil trimEnd_id trimStart_id)

lemma set_trim_subset: "set (trim s) \<subseteq> set s"
  using set_mono_prefix [OF trimEnd_prefix [of "trimStart s"]] set_mono_suffix [OF trimStart_suffix [of s]]
  by (simp add: trim_def)

lemma trim_eq_Nil_iff: "trim s = [] \<longleftrightarrow> (\<forall>c \<in> set s. is_ws c)"
  by (auto simp: trim_def trimEnd_def trimStart_def dropWhile_eq_Nil_conv
      dest: set_dropWhileD) (metis dropWhile_eq_Nil_conv hd_dropWhile hd_in_set)

lemma length_toLowerCase [simp]: "length (toLowerCase s) = length s"
  by (simp add: toLowerCase_def)

lemma toLowerCase_Nil [simp]: "toLowerCase s = [] \<longleftrightarrow> s = []"
  by (simp add: toLowerCase_def)

text \<open>\<open>indexOf\<close> finds the first occurrence at or after a position.\<close>

lemma indexOf_Some:
  "indexOf s t k = Some i \<longleftrightarrow>
     min k (length s) \<le> i \<and> i \<le> length s \<and> prefix t (drop i s) \<and>
     (\<forall>j. min k (length s) \<le> j \<and> j < i \<longrightarrow> \<not> prefix t (drop j s))"
  (is "?L \<longleftrightarrow> ?R")
proof
  assume ?L
  then obtain m where m: "m < length [min k (length s)..<Suc (length s)]"
      and i: "i = [min k (length s)..<Suc (length s)] ! m" and p: "prefix t (drop i s)"
      and least: "\<forall>j<m. \<not> prefix t (drop ([min k (length s)..<Suc (length s)] ! j) s)"
    by (auto simp: indexOf_def find_Some_iff simp del: upt_Suc)
  have i': "i = min k (length s) + m" and "i \<le> length s" using m i by (auto simp del: upt_Suc)
  moreover have "\<not> prefix t (drop j s)" if "min k (length s) \<le> j" "j < i" for j
    using least [rule_format, of "j - min k (length s)"] that m i' by (auto simp del: upt_Suc)
  ultimately show ?R using p by auto
next
  assume ?R
  then show ?L
    by (auto simp: indexOf_def find_Some_iff simp del: upt_Suc
        intro!: exI [of _ "i - min k (length s)"])
qed

lemma indexOf_None:
  "indexOf s t k = None \<longleftrightarrow> (\<forall>j. min k (length s) \<le> j \<and> j \<le> length s \<longrightarrow> \<not> prefix t (drop j s))"
  by (auto simp: indexOf_def find_None_iff)

lemma str_includes_iff: "str_includes s t \<longleftrightarrow> sublist t s"
proof
  assume "str_includes s t"
  then obtain i where "prefix t (drop i s)"
    by (auto simp: str_includes_def indexOf_Some)
  then show "sublist t s" by (meson prefix_imp_sublist sublist_drop sublist_order.order_trans)
next
  assume "sublist t s"
  then obtain ps ss where s: "s = ps @ t @ ss" by (auto simp: sublist_def)
  then have "prefix t (drop (length ps) s)" "length ps \<le> length s" by auto
  then show "str_includes s t" by (auto simp: str_includes_def indexOf_None)
qed

lemma split_on_neq_Nil [simp]: "split_on c s \<noteq> []"
  by (induction s) (auto split: list.splits)

lemma join_split_on: "join_with [c] (split_on c s) = s"
proof (induction s)
  case (Cons x xs)
  obtain w ws where "split_on c xs = w # ws" by (cases "split_on c xs") auto
  with Cons show ?case by (cases ws) auto
qed simp

lemma split_on_no_sep: "l \<in> set (split_on c s) \<Longrightarrow> c \<notin> set l"
proof (induction s arbitrary: l)
  case (Cons x xs)
  then show ?case by (cases "split_on c xs") (auto split: if_splits)
qed auto

lemma split_on_append_sep: "c \<notin> set l \<Longrightarrow> split_on c (l @ c # s) = l # split_on c s"
  by (induction l) auto

lemma split_on_single: "c \<notin> set l \<Longrightarrow> split_on c l = [l]"
  by (induction l) auto

lemma split_on_join:
  "ws \<noteq> [] \<Longrightarrow> \<forall>w \<in> set ws. c \<notin> set w \<Longrightarrow> split_on c (join_with [c] ws) = ws"
proof (induction ws rule: list_nonempty_induct)
  case (cons w ws)
  then show ?case by (cases ws) (auto simp: split_on_append_sep)
qed (simp add: split_on_single)

end
