(* ===== verification/Js_Collections.thy ===== *)
theory Js_Collections
  imports Prelude
begin

text \<open>
  Insertion-ordered maps (objects and \<open>Map\<close>) as association lists, the stable
  \<open>Array.prototype.sort\<close>, and the interfaces the components are clients of: a keyed map,
  a comparator, and a codec between a store and the JSON value of its file.
\<close>

section \<open>Insertion-ordered maps\<close>

type_synonym ('k, 'v) al = "('k \<times> 'v) list"

abbreviation al_get :: "('k, 'v) al \<Rightarrow> 'k \<Rightarrow> 'v option" where
  "al_get \<equiv> map_of"

text \<open>Writing a key keeps its position when it is present and appends it otherwise.\<close>

fun al_set :: "'k \<Rightarrow> 'v \<Rightarrow> ('k, 'v) al \<Rightarrow> ('k, 'v) al" where
  "al_set k v [] = [(k, v)]"
| "al_set k v ((a, b) # m) = (if a = k then (a, v) # m else (a, b) # al_set k v m)"

definition al_del :: "'k \<Rightarrow> ('k, 'v) al \<Rightarrow> ('k, 'v) al" where
  "al_del k m = filter (\<lambda>e. fst e \<noteq> k) m"

definition al_wf :: "('k, 'v) al \<Rightarrow> bool" where
  "al_wf m = distinct (map fst m)"

lemma al_get_set [simp, al_simps]: "al_get (al_set k v m) = (al_get m)(k \<mapsto> v)"
  by (induction m) (auto simp: fun_eq_iff)

lemma al_get_del [simp, al_simps]: "al_get (al_del k m) = (al_get m)(k := None)"
  by (induction m) (auto simp: fun_eq_iff al_del_def)

lemma keys_al_set: "map fst (al_set k v m) = (if k \<in> fst ` set m then map fst m else map fst m @ [k])"
  by (induction m) (auto simp: rev_image_eqI)

lemma keys_al_del: "map fst (al_del k m) = filter (\<lambda>a. a \<noteq> k) (map fst m)"
  by (induction m) (auto simp: al_del_def)

lemma al_wf_Nil [simp, intro]: "al_wf []"
  by (simp add: al_wf_def)

lemma al_wf_Cons: "al_wf ((k, v) # m) \<longleftrightarrow> k \<notin> fst ` set m \<and> al_wf m"
  by (auto simp: al_wf_def)

lemma al_wf_set [simp, intro]: "al_wf m \<Longrightarrow> al_wf (al_set k v m)"
  by (auto simp: al_wf_def keys_al_set)

lemma al_wf_del [simp, intro]: "al_wf m \<Longrightarrow> al_wf (al_del k m)"
  by (auto simp: al_wf_def keys_al_del)

lemma al_mem_iff: "al_wf m \<Longrightarrow> (k, v) \<in> set m \<longleftrightarrow> al_get m k = Some v"
  by (simp add: al_wf_def)

lemma al_set_absent: "al_get m k = None \<Longrightarrow> al_set k v m = m @ [(k, v)]"
  by (induction m) (auto split: if_splits)

lemma al_del_absent: "al_get m k = None \<Longrightarrow> al_del k m = m"
  by (induction m) (auto simp: al_del_def split: if_splits)

lemma al_set_mem: "e \<in> set (al_set k v m) \<Longrightarrow> e = (k, v) \<or> e \<in> set m"
  by (induction m) (auto split: if_splits)

lemma al_del_mem: "e \<in> set (al_del k m) \<longleftrightarrow> e \<in> set m \<and> fst e \<noteq> k"
  by (simp add: al_del_def)

lemma al_set_other_mem:
  "a \<noteq> k \<Longrightarrow> (a, b) \<in> set (al_set k v m) \<longleftrightarrow> (a, b) \<in> set m"
  by (induction m) (auto split: if_splits)

lemma al_get_eq_None: "al_get m k = None \<longleftrightarrow> k \<notin> fst ` set m"
  by (simp add: map_of_eq_None_iff)

lemma al_set_neq_Nil [simp]: "al_set k v m \<noteq> []"
  by (cases m) (auto split: if_splits)

lemma al_get_rev: "al_wf m \<Longrightarrow> al_get (rev m) = al_get m"
  by (subst map_of_inject_set) (auto simp: al_wf_def rev_map [symmetric])

lemma al_get_map_values: "al_get (map (\<lambda>(k, v). (k, f v)) m) k = map_option f (al_get m k)"
  by (induction m) auto

lemma al_wf_map_values: "al_wf (map (\<lambda>(k, v). (k, f v)) m) = al_wf m"
  by (simp add: al_wf_def comp_def split_def)

text \<open>A keyed map, as every component that keys records by a string uses it.\<close>

locale keyed_map =
  fixes get :: "'m \<Rightarrow> 'k \<Rightarrow> 'v option"
    and put :: "'k \<Rightarrow> 'v \<Rightarrow> 'm \<Rightarrow> 'm"
    and del :: "'k \<Rightarrow> 'm \<Rightarrow> 'm"
    and wf :: "'m \<Rightarrow> bool"
  assumes get_put: "wf m \<Longrightarrow> get (put k v m) = (get m)(k \<mapsto> v)"
    and get_del: "wf m \<Longrightarrow> get (del k m) = (get m)(k := None)"
    and wf_put: "wf m \<Longrightarrow> wf (put k v m)"
    and wf_del: "wf m \<Longrightarrow> wf (del k m)"
begin

lemma put_overwrites: "wf m \<Longrightarrow> get (put k v (put k w m)) = get (put k v m)"
  by (simp add: get_put wf_put)

lemma put_commute: "wf m \<Longrightarrow> j \<noteq> k \<Longrightarrow> get (put j v (put k w m)) = get (put k w (put j v m))"
  by (simp add: get_put wf_put fun_upd_twist)

lemma del_put: "wf m \<Longrightarrow> get (del k (put k v m)) = get (del k m)"
  by (simp add: get_put get_del wf_put)

lemma frame: "wf m \<Longrightarrow> j \<noteq> k \<Longrightarrow> get (put k v m) j = get m j \<and> get (del k m) j = get m j"
  by (simp add: get_put get_del)

end

interpretation al: keyed_map al_get al_set al_del al_wf
  by unfold_locales auto

section \<open>The stable sort\<close>

fun insert_by :: "('a \<Rightarrow> 'a \<Rightarrow> int) \<Rightarrow> 'a \<Rightarrow> 'a list \<Rightarrow> 'a list" where
  "insert_by cmp x [] = [x]"
| "insert_by cmp x (y # ys) = (if cmp x y \<le> 0 then x # y # ys else y # insert_by cmp x ys)"

text \<open>
  The result of \<open>sort\<close> is determined by stability for a consistent comparator; inserting
  from the right puts the earlier of two equal elements first.
\<close>

fun js_sort :: "('a \<Rightarrow> 'a \<Rightarrow> int) \<Rightarrow> 'a list \<Rightarrow> 'a list" where
  "js_sort cmp [] = []"
| "js_sort cmp (x # xs) = insert_by cmp x (js_sort cmp xs)"

lemma mset_insert_by [simp]: "mset (insert_by cmp x xs) = add_mset x (mset xs)"
  by (induction xs) auto

lemma mset_js_sort [simp, sort_facts]: "mset (js_sort cmp xs) = mset xs"
  by (induction xs) auto

lemma set_js_sort [simp, sort_facts]: "set (js_sort cmp xs) = set xs"
  by (metis mset_js_sort set_mset_mset)

lemma set_insert_by [simp]: "set (insert_by cmp x xs) = insert x (set xs)"
  by (induction xs) auto

lemma length_js_sort [simp, sort_facts]: "length (js_sort cmp xs) = length xs"
  by (metis mset_js_sort size_mset)

lemma distinct_map_js_sort [simp, sort_facts]:
  "distinct (map f (js_sort cmp xs)) = distinct (map f xs)"
  by (metis mset_js_sort mset_map mset_eq_imp_distinct_iff)

locale comparator =
  fixes cmp :: "'a \<Rightarrow> 'a \<Rightarrow> int"
  assumes cmp_swap: "cmp x y > 0 \<Longrightarrow> cmp y x < 0"
    and cmp_le_trans: "cmp x y \<le> 0 \<Longrightarrow> cmp y z \<le> 0 \<Longrightarrow> cmp x z \<le> 0"
begin

lemma sorted_insert_by:
  "sorted_wrt (\<lambda>a b. cmp a b \<le> 0) xs \<Longrightarrow> sorted_wrt (\<lambda>a b. cmp a b \<le> 0) (insert_by cmp x xs)"
proof (induction xs)
  case (Cons y ys)
  show ?case
  proof (cases "cmp x y \<le> 0")
    case True
    with Cons.prems show ?thesis by (auto intro: cmp_le_trans)
  next
    case False
    then have "cmp y x \<le> 0" using cmp_swap [of x y] by simp
    with Cons False show ?thesis by auto
  qed
qed simp

lemma js_sort_sorted: "sorted_wrt (\<lambda>a b. cmp a b \<le> 0) (js_sort cmp xs)"
  by (induction xs) (auto intro: sorted_insert_by)

lemma js_sort_id: "sorted_wrt (\<lambda>a b. cmp a b \<le> 0) xs \<Longrightarrow> js_sort cmp xs = xs"
proof (induction xs)
  case (Cons x xs)
  then show ?case by (cases xs) auto
qed simp

lemma js_sort_idem: "js_sort cmp (js_sort cmp xs) = js_sort cmp xs"
  by (rule js_sort_id [OF js_sort_sorted])

text \<open>Sorting commutes with filtering: the elements of one kind end up as if sorted alone.\<close>

lemma insert_by_front: "\<forall>z \<in> set xs. cmp x z \<le> 0 \<Longrightarrow> insert_by cmp x xs = x # xs"
  by (cases xs) auto

lemma filter_insert_sorted:
  "sorted_wrt (\<lambda>a b. cmp a b \<le> 0) xs \<Longrightarrow>
   filter P (insert_by cmp x xs) = (if P x then insert_by cmp x (filter P xs) else filter P xs)"
proof (induction xs)
  case (Cons y ys)
  show ?case
  proof (cases "cmp x y \<le> 0")
    case True
    then have "\<forall>z \<in> set (filter P ys). cmp x z \<le> 0"
      using Cons.prems by (auto intro: cmp_le_trans)
    then show ?thesis using True by (simp add: insert_by_front)
  qed (use Cons in auto)
qed simp

lemma filter_js_sort: "filter P (js_sort cmp xs) = js_sort cmp (filter P xs)"
  by (induction xs) (auto simp: filter_insert_sorted js_sort_sorted)

text \<open>Stability: elements that compare equal to each other keep their order.\<close>

lemma filter_insert_by:
  assumes "\<And>a b. P a \<Longrightarrow> P b \<Longrightarrow> cmp a b \<le> 0"
  shows "filter P (insert_by cmp x xs) = (if P x then x # filter P xs else filter P xs)"
  using assms by (induction xs) auto

lemma js_sort_stable:
  assumes "\<And>a b. P a \<Longrightarrow> P b \<Longrightarrow> cmp a b \<le> 0"
  shows "filter P (js_sort cmp xs) = filter P xs"
  by (induction xs) (auto simp: filter_insert_by assms)

end

text \<open>
  \<open>localeCompare\<close> depends on the host's collation data, so it is a parameter wherever the
  code calls it; what the code relies on is that it orders strings consistently.
\<close>

locale collation = comparator localeCompare
  for localeCompare :: "string \<Rightarrow> string \<Rightarrow> int"

fun code_unit_compare :: "string \<Rightarrow> string \<Rightarrow> int" where
  "code_unit_compare [] [] = 0"
| "code_unit_compare [] (b # bs) = - 1"
| "code_unit_compare (a # as) [] = 1"
| "code_unit_compare (a # as) (b # bs) =
     (if of_char a < (of_char b :: nat) then - 1
      else if (of_char b :: nat) < of_char a then 1 else code_unit_compare as bs)"

lemma code_unit_compare_swap: "code_unit_compare x y > 0 \<Longrightarrow> code_unit_compare y x < 0"
  by (induction x y rule: code_unit_compare.induct) (auto split: if_splits)

lemma code_unit_compare_trans:
  "code_unit_compare x y \<le> 0 \<Longrightarrow> code_unit_compare y z \<le> 0 \<Longrightarrow> code_unit_compare x z \<le> 0"
proof (induction x y arbitrary: z rule: code_unit_compare.induct)
  case (1 z)
  then show ?case by (cases z) auto
next
  case (2 b bs z)
  then show ?case by (cases z) auto
next
  case (4 a as b bs z)
  show ?case
  proof (cases z)
    case (Cons c cs)
    let ?n = "\<lambda>x. of_char x :: nat"
    have ab: "?n a \<le> ?n b" and bc: "?n b \<le> ?n c"
      using "4.prems" Cons by (simp_all split: if_split_asm)
    show ?thesis
    proof (cases "?n a < ?n c")
      case True
      then show ?thesis using Cons by simp
    next
      case False
      then have eq: "?n a = ?n b" "?n b = ?n c" using ab bc by linarith+
      then have "code_unit_compare as bs \<le> 0" "code_unit_compare bs cs \<le> 0"
        using "4.prems" Cons by simp_all
      then have "code_unit_compare as cs \<le> 0" using "4.IH" [of cs] eq by simp
      then show ?thesis using Cons eq by simp
    qed
  qed (use 4 in simp)
qed auto

interpretation code_unit: collation code_unit_compare
  by unfold_locales (erule code_unit_compare_swap, erule (1) code_unit_compare_trans)

section \<open>Stores and their files\<close>

text \<open>
  A write-through store keeps \<open>data\<close> in memory and rewrites its JSON file on every change;
  \<open>load\<close> reads the file back. \<open>file = None\<close>: the file is missing or does not parse.
\<close>

locale json_codec =
  fixes encode :: "'d \<Rightarrow> json"
    and load_from :: "unknown \<Rightarrow> 'd"
    and wf :: "'d \<Rightarrow> bool"
  assumes load_encode: "wf d \<Longrightarrow> load_from (Some (encode d)) = d"
    and wf_load: "wf (load_from f)"
begin

lemma reload_after: "wf d \<Longrightarrow> load_from (Some (encode (load_from (Some (encode d))))) = d"
  by (simp add: load_encode)

lemma load_normal: "load_from (Some (encode (load_from f))) = load_from f"
  by (rule load_encode [OF wf_load])

lemma encode_inj: "wf d \<Longrightarrow> wf e \<Longrightarrow> encode d = encode e \<Longrightarrow> d = e"
  using load_encode by metis

end

end
