(* ===== verification/Policy.thy ===== *)
theory Policy
  imports Js_Collections
begin

text \<open>
  The reply policy of the alter, \<^verbatim>\<open>src/dsh/packages/dsh/src/policy.ts\<close>: reply tiers, the
  inbound router, the friend and the group send gate, the hourly window behind the rate cap,
  the mention grammar, the group wake rules and the mechanical group caps.
  Lemmas characterise every gate by the inputs that open it, show the mention scanner
  equivalent to its grammar, the caps equivalent to counting on the archive, and the
  sliding window a refinement of counting a full log.
\<close>

section \<open>Reply tiers and triggers\<close>

datatype ReplyTier = Notify | Draft | Auto

definition REPLY_TIERS :: "ReplyTier list" where
  "REPLY_TIERS = [Notify, Draft, Auto]"

definition DEFAULT_REPLY_TIER :: ReplyTier where
  "DEFAULT_REPLY_TIER = Draft"

definition DEFAULT_AUTO_REPLY_PER_HOUR :: int where
  "DEFAULT_AUTO_REPLY_PER_HOUR = 20"

definition tier_str :: "ReplyTier \<Rightarrow> string" where
  "tier_str t = (case t of Notify \<Rightarrow> ''notify'' | Draft \<Rightarrow> ''draft'' | Auto \<Rightarrow> ''auto'')"

definition isReplyTier :: "unknown \<Rightarrow> bool" where
  "isReplyTier v = (v = Some (JStr ''notify'') \<or> v = Some (JStr ''draft'') \<or> v = Some (JStr ''auto''))"

definition normalizeTier :: "unknown \<Rightarrow> ReplyTier \<Rightarrow> ReplyTier" where
  "normalizeTier v fallback =
     (if v = Some (JStr ''notify'') then Notify
      else if v = Some (JStr ''draft'') then Draft
      else if v = Some (JStr ''auto'') then Auto else fallback)"

datatype trigger_kind = TOwner | TInbound | TInboundAuto | TGroup | TUnknown

record TurnTrigger =
  trig_kind :: trigger_kind
  trig_fp :: "string option"
  trig_name :: "string option"
  trig_messageId :: "string option"
  trig_gid :: "string option"

definition UNKNOWN_TRIGGER :: TurnTrigger where
  "UNKNOWN_TRIGGER = \<lparr>trig_kind = TUnknown, trig_fp = None, trig_name = None,
     trig_messageId = None, trig_gid = None\<rparr>"

section \<open>Routing inbound mail\<close>

datatype route_action = Wake | Append

datatype route_reason = TierNotify | LoopGuardAuto | NotAFriend

record InboundRoute =
  route_action :: route_action
  route_reason :: "route_reason option"

record RouteInboundInput =
  ri_tier :: ReplyTier
  ri_auto :: bool
  ri_isFriend :: bool

definition routeInbound :: "RouteInboundInput \<Rightarrow> InboundRoute" where
  "routeInbound i =
     (if \<not> ri_isFriend i then \<lparr>route_action = Append, route_reason = Some NotAFriend\<rparr>
      else if ri_auto i then \<lparr>route_action = Append, route_reason = Some LoopGuardAuto\<rparr>
      else if ri_tier i = Notify then \<lparr>route_action = Append, route_reason = Some TierNotify\<rparr>
      else \<lparr>route_action = Wake, route_reason = None\<rparr>)"

section \<open>The friend send gate\<close>

text \<open>
  \<open>SendGateReason\<close> and \<open>GroupSendGateReason\<close> share their vocabulary in
  \<open>DraftReason\<close>; one datatype holds the union.
\<close>

datatype gate_reason =
    OwnerInitiated | AutoTier
  | DraftTier | NotifyTier | RateLimited | LoopGuard | UnknownTriggerReason | OtherFriend
  | GroupTrigger | AgentRounds | OtherGroup | AgentsMuted

datatype SendDecision = Allow bool gate_reason | QueueDraft gate_reason

record SendGateInput =
  sg_trigger :: TurnTrigger
  sg_target :: string
  sg_tier :: ReplyTier
  sg_autoSentInWindow :: int
  sg_limit :: int

definition sendGate :: "SendGateInput \<Rightarrow> SendDecision" where
  "sendGate i =
     (case trig_kind (sg_trigger i) of
        TOwner \<Rightarrow> Allow False OwnerInitiated
      | TInboundAuto \<Rightarrow> QueueDraft LoopGuard
      | TInbound \<Rightarrow>
          (if trig_fp (sg_trigger i) \<noteq> None \<and> trig_fp (sg_trigger i) \<noteq> Some (sg_target i)
           then QueueDraft OtherFriend
           else if sg_tier i = Auto then
             (if sg_limit i > 0 \<and> sg_autoSentInWindow i < sg_limit i
              then Allow True AutoTier else QueueDraft RateLimited)
           else QueueDraft (if sg_tier i = Draft then DraftTier else NotifyTier))
      | TGroup \<Rightarrow> QueueDraft GroupTrigger
      | TUnknown \<Rightarrow> QueueDraft UnknownTriggerReason)"

section \<open>The hourly window\<close>

definition HOUR_MS :: int where
  "HOUR_MS = 3600000"

record HourlyWindow =
  windowMs :: int
  hits :: "(string, int list) al"

definition new_window :: "int \<Rightarrow> HourlyWindow" where
  "new_window w = \<lparr>windowMs = w, hits = []\<rparr>"

definition opt_list :: "'a list option \<Rightarrow> 'a list" where
  "opt_list x = (case x of None \<Rightarrow> [] | Some l \<Rightarrow> l)"

definition hw_prune :: "HourlyWindow \<Rightarrow> string \<Rightarrow> int \<Rightarrow> int list \<times> HourlyWindow" where
  "hw_prune w key now =
     (let l = filter (\<lambda>ts. now - ts < windowMs w) (opt_list (al_get (hits w) key))
      in (l, w\<lparr>hits := (if l = [] then al_del key (hits w) else al_set key l (hits w))\<rparr>))"

definition hw_count :: "HourlyWindow \<Rightarrow> string \<Rightarrow> int \<Rightarrow> int \<times> HourlyWindow" where
  "hw_count w key now = (let (l, w') = hw_prune w key now in (int (length l), w'))"

definition hw_record :: "HourlyWindow \<Rightarrow> string \<Rightarrow> int \<Rightarrow> int \<times> HourlyWindow" where
  "hw_record w key now =
     (let (l, w') = hw_prune w key now; l' = l @ [now]
      in (int (length l'), w'\<lparr>hits := al_set key l' (hits w')\<rparr>))"

definition hw_retryAfter :: "HourlyWindow \<Rightarrow> string \<Rightarrow> int \<Rightarrow> int \<times> HourlyWindow" where
  "hw_retryAfter w key now =
     (let (l, w') = hw_prune w key now
      in (case l of [] \<Rightarrow> 0 | t # _ \<Rightarrow> max 0 (t + windowMs w - now), w'))"

section \<open>Mentions\<close>

datatype GroupAgentWake = WMention | WAlways | WNever

definition normalizeGroupWake :: "unknown \<Rightarrow> GroupAgentWake \<Rightarrow> GroupAgentWake" where
  "normalizeGroupWake v fallback =
     (if v = Some (JStr ''mention'') then WMention
      else if v = Some (JStr ''always'') then WAlways
      else if v = Some (JStr ''never'') then WNever else fallback)"

definition isAsciiWordChar :: "char option \<Rightarrow> bool" where
  "isAsciiWordChar ch =
     (case ch of None \<Rightarrow> False
      | Some c \<Rightarrow> (let n = (of_char c :: nat) in 97 \<le> n \<and> n \<le> 122 \<or> 48 \<le> n \<and> n \<le> 57 \<or> n = 95))"

definition char_at :: "string \<Rightarrow> nat \<Rightarrow> char option" where
  "char_at s i = (if i < length s then Some (s ! i) else None)"

text \<open>\<open>s[s.length - 1]\<close> is \<open>undefined\<close> on the empty string.\<close>

definition last_char :: "string \<Rightarrow> char option" where
  "last_char s = (if s = [] then None else Some (last s))"

text \<open>
  The \<open>for\<close> loop: the position of one occurrence, then the next one after it. The token
  starts with \<open>@\<close>, so an occurrence lies before the end of the body and the guard on
  \<open>i\<close> never cuts the loop short.
\<close>

function mention_scan :: "string \<Rightarrow> string \<Rightarrow> bool \<Rightarrow> nat option \<Rightarrow> bool" where
  "mention_scan body token needsBoundary None = False"
| "mention_scan body token needsBoundary (Some i) =
     (if \<not> needsBoundary \<or> \<not> isAsciiWordChar (char_at body (i + length token)) then True
      else if i < length body then mention_scan body token needsBoundary (indexOf body token (Suc i))
      else False)"
  by pat_completeness auto
termination
  by (relation "measure (\<lambda>(body, token, nb, pos). case pos of None \<Rightarrow> 0 | Some i \<Rightarrow> Suc (length body) - i)")
    (auto simp: indexOf_Some split: option.splits)

definition hasMentionToken :: "string \<Rightarrow> string \<Rightarrow> bool" where
  "hasMentionToken lowerBody lowerName =
     (let token = CHR ''@'' # lowerName; needsBoundary = isAsciiWordChar (last_char lowerName)
      in mention_scan lowerBody token needsBoundary (indexOf lowerBody token 0))"

definition mentionsMe :: "string \<Rightarrow> string \<Rightarrow> bool" where
  "mentionsMe body name =
     (let lower = toLowerCase body in
      if hasMentionToken lower ''all'' then True
      else (let n = toLowerCase (trim name) in if n = [] then False else hasMentionToken lower n))"

definition mentionsAgent :: "string \<Rightarrow> string \<Rightarrow> bool" where
  "mentionsAgent body name =
     (let n = toLowerCase (trim name)
      in if n = [] then False else hasMentionToken (toLowerCase body) n)"

section \<open>Group wake rules\<close>

datatype wake_reason =
  Self | WAgentsMuted | AlterDisabled | WakeNever | NotMentioned | VoiceDisabled | NotCommander

record GroupWakeRoute =
  gw_wake :: bool
  gw_reason :: "wake_reason option"

abbreviation woken :: GroupWakeRoute where
  "woken \<equiv> \<lparr>gw_wake = True, gw_reason = None\<rparr>"

abbreviation unwoken :: "wake_reason \<Rightarrow> GroupWakeRoute" where
  "unwoken r \<equiv> \<lparr>gw_wake = False, gw_reason = Some r\<rparr>"

datatype GroupAlterMode = MMention | MAlways

record GroupWakeInput =
  gwi_speakAgents :: bool
  gwi_enabled :: bool
  gwi_fromSelf :: bool
  gwi_wake :: GroupAgentWake
  gwi_myMode :: "GroupAlterMode option"
  gwi_mentioned :: bool

record AgentWakeInput =
  awi_speakAgents :: bool
  awi_enabled :: bool
  awi_fromSelf :: bool
  awi_wake :: GroupAgentWake
  awi_duty :: bool
  awi_mentioned :: bool
  awi_commander :: bool

definition wakeAgentForGroup :: "AgentWakeInput \<Rightarrow> GroupWakeRoute" where
  "wakeAgentForGroup i =
     (if awi_fromSelf i then unwoken Self
      else if \<not> awi_speakAgents i then unwoken WAgentsMuted
      else if \<not> awi_enabled i then unwoken VoiceDisabled
      else if \<not> awi_commander i then unwoken NotCommander
      else (let effective = (if awi_wake i = WAlways \<and> \<not> awi_duty i then WMention else awi_wake i)
            in case effective of
                 WNever \<Rightarrow> unwoken WakeNever
               | WAlways \<Rightarrow> woken
               | WMention \<Rightarrow> (if awi_mentioned i then woken else unwoken NotMentioned)))"

definition wakeForGroup :: "GroupWakeInput \<Rightarrow> GroupWakeRoute" where
  "wakeForGroup i =
     (if gwi_fromSelf i then unwoken Self
      else if \<not> gwi_speakAgents i then unwoken WAgentsMuted
      else if \<not> gwi_enabled i then unwoken AlterDisabled
      else (let mode = (case gwi_myMode i of None \<Rightarrow> MMention | Some m \<Rightarrow> m);
                effective = (if gwi_wake i = WAlways \<and> mode = MMention then WMention else gwi_wake i)
            in case effective of
                 WNever \<Rightarrow> unwoken WakeNever
               | WAlways \<Rightarrow> woken
               | WMention \<Rightarrow> (if gwi_mentioned i then woken else unwoken NotMentioned)))"

section \<open>The mechanical group caps\<close>

datatype dir = In | Out

record GroupCapEntry =
  cap_dir :: dir
  cap_ts :: int
  cap_auto :: bool
  cap_by :: "string option"

fun count_auto_loop :: "GroupCapEntry list \<Rightarrow> int \<Rightarrow> int \<Rightarrow> int \<Rightarrow> int" where
  "count_auto_loop [] now w n = n"
| "count_auto_loop (e # es) now w n =
     count_auto_loop es now w
       (if cap_dir e = Out \<and> cap_auto e \<and> cap_by e = Some ''alter'' \<and> now - cap_ts e < w \<and> now - cap_ts e \<ge> 0
        then n + 1 else n)"

definition countAutoInWindow :: "GroupCapEntry list \<Rightarrow> int \<Rightarrow> int \<Rightarrow> int" where
  "countAutoInWindow entries now w = count_auto_loop entries now w 0"

text \<open>The loop runs from the last entry down, so it walks the reversed list.\<close>

fun rounds_loop :: "GroupCapEntry list \<Rightarrow> int \<Rightarrow> int \<Rightarrow> bool" where
  "rounds_loop [] rounds streak = False"
| "rounds_loop (e # es) rounds streak =
     (if cap_by e \<noteq> Some ''alter'' then False
      else if streak + 1 \<ge> rounds then True
      else rounds_loop es rounds (streak + 1))"

definition agentRoundsExceeded :: "GroupCapEntry list \<Rightarrow> int \<Rightarrow> bool" where
  "agentRoundsExceeded entries rounds = (if rounds \<le> 0 then False else rounds_loop (rev entries) rounds 0)"

definition effectiveAgentTier :: "ReplyTier \<Rightarrow> bool \<Rightarrow> ReplyTier" where
  "effectiveAgentTier tier approval = (if \<not> approval \<and> tier = Draft then Auto else tier)"

section \<open>The group send gate\<close>

datatype GroupSendDecision = GAllow bool gate_reason | GDraft gate_reason | GRefuse gate_reason

record GroupSendGateInput =
  gg_trigger :: TurnTrigger
  gg_gid :: string
  gg_fromOwner :: bool
  gg_speakAgents :: bool
  gg_tier :: ReplyTier
  gg_autoSentInWindow :: int
  gg_autoPerHour :: int
  gg_roundsExceeded :: bool
  gg_mentioned :: bool

definition groupSendGate :: "GroupSendGateInput \<Rightarrow> GroupSendDecision" where
  "groupSendGate i =
     (if \<not> gg_speakAgents i then GRefuse AgentsMuted
      else case trig_kind (gg_trigger i) of
        TOwner \<Rightarrow> GAllow False OwnerInitiated
      | TGroup \<Rightarrow>
          (if trig_gid (gg_trigger i) \<noteq> Some (gg_gid i) then GDraft OtherGroup
           else if gg_fromOwner i then GAllow False OwnerInitiated
           else if gg_tier i = Notify then GRefuse NotifyTier
           else if gg_tier i = Draft then GDraft DraftTier
           else if gg_autoPerHour i \<le> 0 \<or> gg_autoSentInWindow i \<ge> gg_autoPerHour i then GDraft RateLimited
           else if gg_roundsExceeded i \<and> \<not> gg_mentioned i then GDraft AgentRounds
           else GAllow True AutoTier)
      | TInbound \<Rightarrow> GDraft OtherGroup
      | TInboundAuto \<Rightarrow> GDraft OtherGroup
      | TUnknown \<Rightarrow> GDraft UnknownTriggerReason)"

section \<open>Facts about the gates\<close>

lemma normalizeTier_valid: "isReplyTier v \<Longrightarrow> v = Some (JStr (tier_str (normalizeTier v d)))"
  by (auto simp: isReplyTier_def normalizeTier_def tier_str_def)

lemma normalizeTier_fallback: "\<not> isReplyTier v \<Longrightarrow> normalizeTier v d = d"
  by (auto simp: isReplyTier_def normalizeTier_def)

lemma normalizeTier_tier_str [simp]: "normalizeTier (Some (JStr (tier_str t))) d = t"
  by (cases t) (auto simp: normalizeTier_def tier_str_def)

lemma routeInbound_wake:
  "route_action (routeInbound i) = Wake \<longleftrightarrow> ri_isFriend i \<and> \<not> ri_auto i \<and> ri_tier i \<noteq> Notify"
  by (simp add: routeInbound_def)

lemma routeInbound_reason: "route_reason (routeInbound i) = None \<longleftrightarrow> route_action (routeInbound i) = Wake"
  by (simp add: routeInbound_def)

lemma sendGate_auto:
  "sendGate i = Allow True r \<longleftrightarrow>
     r = AutoTier \<and> trig_kind (sg_trigger i) = TInbound \<and> trig_fp (sg_trigger i) \<in> {None, Some (sg_target i)} \<and>
     sg_tier i = Auto \<and> sg_autoSentInWindow i < sg_limit i \<and> 0 < sg_limit i"
  by (auto simp: sendGate_def split: trigger_kind.splits)

lemma sendGate_direct:
  "sendGate i = Allow False r \<longleftrightarrow> r = OwnerInitiated \<and> trig_kind (sg_trigger i) = TOwner"
  by (auto simp: sendGate_def split: trigger_kind.splits)

lemma groupSendGate_auto:
  "groupSendGate i = GAllow True r \<longleftrightarrow>
     r = AutoTier \<and> gg_speakAgents i \<and> trig_kind (gg_trigger i) = TGroup \<and>
     trig_gid (gg_trigger i) = Some (gg_gid i) \<and> \<not> gg_fromOwner i \<and> gg_tier i = Auto \<and>
     0 < gg_autoPerHour i \<and> gg_autoSentInWindow i < gg_autoPerHour i \<and>
     (gg_roundsExceeded i \<longrightarrow> gg_mentioned i)"
  by (cases "gg_tier i") (auto simp: groupSendGate_def split: trigger_kind.splits)

lemma groupSendGate_direct:
  "groupSendGate i = GAllow False r \<longleftrightarrow>
     r = OwnerInitiated \<and> gg_speakAgents i \<and>
     (trig_kind (gg_trigger i) = TOwner \<or>
      trig_kind (gg_trigger i) = TGroup \<and> trig_gid (gg_trigger i) = Some (gg_gid i) \<and> gg_fromOwner i)"
  by (auto simp: groupSendGate_def split: trigger_kind.splits)

lemma groupSendGate_refuse:
  "groupSendGate i = GRefuse r \<longleftrightarrow>
     r = AgentsMuted \<and> \<not> gg_speakAgents i \<or>
     r = NotifyTier \<and> gg_speakAgents i \<and> trig_kind (gg_trigger i) = TGroup \<and>
       trig_gid (gg_trigger i) = Some (gg_gid i) \<and> \<not> gg_fromOwner i \<and> gg_tier i = Notify"
  by (auto simp: groupSendGate_def split: trigger_kind.splits)

lemma wakeForGroup_wake:
  "gw_wake (wakeForGroup i) \<longleftrightarrow>
     \<not> gwi_fromSelf i \<and> gwi_speakAgents i \<and> gwi_enabled i \<and> gwi_wake i \<noteq> WNever \<and>
     (gwi_mentioned i \<or> gwi_wake i = WAlways \<and> gwi_myMode i = Some MAlways)"
  by (cases "gwi_wake i"; cases "gwi_myMode i")
    (auto simp: wakeForGroup_def intro: GroupAlterMode.exhaust)

lemma wakeAgentForGroup_wake:
  "gw_wake (wakeAgentForGroup i) \<longleftrightarrow>
     \<not> awi_fromSelf i \<and> awi_speakAgents i \<and> awi_enabled i \<and> awi_commander i \<and> awi_wake i \<noteq> WNever \<and>
     (awi_mentioned i \<or> awi_wake i = WAlways \<and> awi_duty i)"
  by (cases "awi_wake i") (auto simp: wakeAgentForGroup_def)

section \<open>The caps count what the archive holds\<close>

definition is_my_auto_post :: "int \<Rightarrow> int \<Rightarrow> GroupCapEntry \<Rightarrow> bool" where
  "is_my_auto_post now w e =
     (cap_dir e = Out \<and> cap_auto e \<and> cap_by e = Some ''alter'' \<and> now - w < cap_ts e \<and> cap_ts e \<le> now)"

lemma count_auto_loop_eq:
  "count_auto_loop es now w n = n + int (length (filter (is_my_auto_post now w) es))"
  by (induction es arbitrary: n) (auto simp: is_my_auto_post_def)

lemma countAutoInWindow_eq:
  "countAutoInWindow es now w = int (length (filter (is_my_auto_post now w) es))"
  by (simp add: countAutoInWindow_def count_auto_loop_eq)

lemma rounds_loop_iff:
  assumes "streak < rounds"
  shows "rounds_loop es rounds streak \<longleftrightarrow>
    rounds \<le> streak + int (length es) \<and> list_all (\<lambda>e. cap_by e = Some ''alter'') (take (nat (rounds - streak)) es)"
  using assms
proof (induction es arbitrary: streak)
  case (Cons e es)
  have n: "nat (rounds - streak) = Suc (nat (rounds - (streak + 1)))" using Cons.prems by simp
  show ?case
  proof (cases "streak + 1 < rounds")
    case True
    then show ?thesis using Cons.IH [OF True] Cons.prems by (auto simp: n)
  next
    case False
    then show ?thesis using Cons.prems by (auto simp: n)
  qed
qed simp

lemma agentRoundsExceeded_iff:
  "agentRoundsExceeded es rounds \<longleftrightarrow>
     0 < rounds \<and> rounds \<le> int (length es) \<and>
     (\<forall>e \<in> set (drop (length es - nat rounds) es). cap_by e = Some ''alter'')"
proof (cases "0 < rounds")
  case True
  then have "agentRoundsExceeded es rounds \<longleftrightarrow>
      rounds \<le> int (length es) \<and> list_all (\<lambda>e. cap_by e = Some ''alter'') (take (nat rounds) (rev es))"
    using rounds_loop_iff [of 0 rounds "rev es"] by (simp add: agentRoundsExceeded_def)
  then show ?thesis using True by (simp add: take_rev list_all_iff)
qed (simp add: agentRoundsExceeded_def)

section \<open>The mention scanner decides its grammar\<close>

text \<open>
  The grammar: \<open>@\<close>, the name, and no ASCII word character right after it when the name
  itself ends in one.
\<close>

definition mention_occurs :: "string \<Rightarrow> string \<Rightarrow> bool" where
  "mention_occurs body nm =
     (\<exists>pre post. body = pre @ CHR ''@'' # nm @ post \<and>
        (isAsciiWordChar (last_char nm) \<longrightarrow> post = [] \<or> \<not> isAsciiWordChar (Some (hd post))))"

definition mention_ok_at :: "string \<Rightarrow> string \<Rightarrow> bool \<Rightarrow> nat \<Rightarrow> bool" where
  "mention_ok_at body token nb i =
     (prefix token (drop i body) \<and> (\<not> nb \<or> \<not> isAsciiWordChar (char_at body (i + length token))))"

lemma prefix_drop_lt: "prefix (x # xs) (drop i s) \<Longrightarrow> i < length s"
  by (rule ccontr) simp

lemma mention_scan_from:
  assumes "token \<noteq> []"
  shows "mention_scan body token nb (indexOf body token k) \<longleftrightarrow> (\<exists>i \<ge> k. mention_ok_at body token nb i)"
proof (induction "length body - k" arbitrary: k rule: less_induct)
  case less
  obtain x xs where token: "token = x # xs" using assms by (cases token) auto
  show ?case
  proof (cases "indexOf body token k")
    case None
    then have "\<not> mention_ok_at body token nb i" if "k \<le> i" for i
      using that prefix_drop_lt [of x xs i body] token
      by (auto simp: indexOf_None mention_ok_at_def)
    then show ?thesis using None by auto
  next
    case (Some i)
    then have pre: "prefix token (drop i body)" and low: "min k (length body) \<le> i"
      and least: "\<And>j. min k (length body) \<le> j \<Longrightarrow> j < i \<Longrightarrow> \<not> prefix token (drop j body)"
      by (auto simp: indexOf_Some)
    have lt: "i < length body" using pre prefix_drop_lt [of x xs i body] token by simp
    then have ki: "k \<le> i" using low by linarith
    have rest: "mention_scan body token nb (indexOf body token (Suc i)) \<longleftrightarrow>
        (\<exists>j \<ge> Suc i. mention_ok_at body token nb j)"
      by (rule less) (use lt ki in linarith)
    have split: "(\<exists>j \<ge> k. mention_ok_at body token nb j) \<longleftrightarrow>
        mention_ok_at body token nb i \<or> (\<exists>j \<ge> Suc i. mention_ok_at body token nb j)"
    proof -
      have "j = i \<or> Suc i \<le> j" if "k \<le> j" "mention_ok_at body token nb j" for j
        using least [of j] that by (fastforce simp: mention_ok_at_def)
      then show ?thesis using ki by (metis Suc_leD order_trans)
    qed
    show ?thesis using Some lt pre rest split by (auto simp: mention_ok_at_def)
  qed
qed

lemma mention_ok_at_occurs:
  "(\<exists>i. mention_ok_at body (CHR ''@'' # nm) (isAsciiWordChar (last_char nm)) i) \<longleftrightarrow> mention_occurs body nm"
    (is "?L \<longleftrightarrow> ?R")
proof
  assume ?L
  then obtain i where i: "mention_ok_at body (CHR ''@'' # nm) (isAsciiWordChar (last_char nm)) i" ..
  then obtain post where post: "drop i body = CHR ''@'' # nm @ post"
    by (auto simp: mention_ok_at_def prefix_def)
  then have lt: "i < length body" by (metis drop_all leI list.distinct(1))
  have body: "body = take i body @ CHR ''@'' # nm @ post"
    using post by (metis append_take_drop_id)
  have "char_at body (i + Suc (length nm)) = (if post = [] then None else Some (hd post))"
  proof -
    have len: "length (take i body) = i" using lt by simp
    have "char_at (take i body @ CHR ''@'' # nm @ post) (length (take i body) + Suc (length nm))
        = (if post = [] then None else Some (hd post))"
      by (auto simp: char_at_def nth_append hd_conv_nth)
    then show ?thesis using body len by simp
  qed
  then show ?R using i body unfolding mention_occurs_def mention_ok_at_def
    by (intro exI [of _ "take i body"] exI [of _ post]) (auto split: if_splits)
next
  assume ?R
  then obtain pre post where body: "body = pre @ CHR ''@'' # nm @ post"
    and b: "isAsciiWordChar (last_char nm) \<longrightarrow> post = [] \<or> \<not> isAsciiWordChar (Some (hd post))"
    by (auto simp: mention_occurs_def)
  have "char_at body (length pre + Suc (length nm)) = (if post = [] then None else Some (hd post))"
    using body by (auto simp: char_at_def nth_append hd_conv_nth)
  then have "mention_ok_at body (CHR ''@'' # nm) (isAsciiWordChar (last_char nm)) (length pre)"
    using b body by (auto simp: mention_ok_at_def isAsciiWordChar_def [of None])
  then show ?L ..
qed

lemma hasMentionToken_iff: "hasMentionToken body nm \<longleftrightarrow> mention_occurs body nm"
  using mention_scan_from [of "CHR ''@'' # nm" body _ 0] mention_ok_at_occurs [of body nm]
  by (simp add: hasMentionToken_def Let_def)

lemma mentionsAgent_iff:
  "mentionsAgent body name \<longleftrightarrow> trim name \<noteq> [] \<and> mention_occurs (toLowerCase body) (toLowerCase (trim name))"
  by (simp add: mentionsAgent_def hasMentionToken_iff Let_def)

lemma mentionsMe_iff:
  "mentionsMe body name \<longleftrightarrow> mention_occurs (toLowerCase body) ''all'' \<or> mentionsAgent body name"
  by (simp add: mentionsMe_def mentionsAgent_def hasMentionToken_iff Let_def)

section \<open>The sliding window refines counting a full log\<close>

text \<open>
  The specification keeps every recorded hit in a log of (key, time); \<open>log_times\<close> are the
  hits of one key and \<open>in_window\<close> counts those a window of length \<open>W\<close> ending now holds.
\<close>

definition log_times :: "('k \<times> int) list \<Rightarrow> 'k \<Rightarrow> int list" where
  "log_times hist k = map snd (filter (\<lambda>e. fst e = k) hist)"

definition in_window :: "int \<Rightarrow> int \<Rightarrow> int list \<Rightarrow> int" where
  "in_window W now ts = int (length (filter (\<lambda>t. now - W < t \<and> t \<le> now) ts))"

lemma log_times_snoc: "log_times (hist @ [(k, t)]) j = log_times hist j @ (if j = k then [t] else [])"
  by (auto simp: log_times_def)

text \<open>No window of length \<open>W\<close>, at any time and for any key, holds more than \<open>limit\<close> hits.\<close>

definition capped :: "int \<Rightarrow> int \<Rightarrow> ('k \<times> int) list \<Rightarrow> bool" where
  "capped W limit hist = (\<forall>k now. in_window W now (log_times hist k) \<le> limit)"

locale rate_window =
  fixes count :: "'s \<Rightarrow> 'k \<Rightarrow> int \<Rightarrow> int \<times> 's"
    and log_hit :: "'s \<Rightarrow> 'k \<Rightarrow> int \<Rightarrow> int \<times> 's"
    and rep :: "int \<Rightarrow> ('k \<times> int) list \<Rightarrow> 's \<Rightarrow> bool"
    and W :: int
  assumes count_spec: "rep c hist s \<Longrightarrow> c \<le> now \<Longrightarrow> rep now hist (snd (count s k now))"
    and count_val: "rep c hist s \<Longrightarrow> c \<le> now \<Longrightarrow> fst (count s k now) = in_window W now (log_times hist k)"
    and record_spec: "rep c hist s \<Longrightarrow> c \<le> now \<Longrightarrow> rep now (hist @ [(k, now)]) (snd (log_hit s k now))"
    and rep_past: "rep c hist s \<Longrightarrow> (k, t) \<in> set hist \<Longrightarrow> t \<le> c"
begin

lemma in_window_later:
  assumes "now \<le> \<tau>" "\<forall>t \<in> set ts. t \<le> now"
  shows "in_window W \<tau> ts \<le> in_window W now ts"
proof -
  have "length (filter (\<lambda>t. \<tau> - W < t \<and> t \<le> \<tau>) ts) \<le> length (filter (\<lambda>t. now - W < t \<and> t \<le> now) ts)"
    using assms
  proof (induction ts)
    case (Cons t ts)
    then show ?case by auto
  qed simp
  then show ?thesis by (simp add: in_window_def)
qed

lemma capped_snoc:
  assumes "rep c hist s" "c \<le> now" "capped W limit hist" "in_window W now (log_times hist k) < limit"
  shows "capped W limit (hist @ [(k, now)])"
  unfolding capped_def
proof (intro allI)
  fix j \<tau>
  have past: "\<forall>t \<in> set (log_times hist k). t \<le> now"
    using rep_past [OF assms(1)] assms(2) by (force simp: log_times_def)
  show "in_window W \<tau> (log_times (hist @ [(k, now)]) j) \<le> limit"
  proof (cases "j = k \<and> now \<le> \<tau>")
    case True
    then have "in_window W \<tau> (log_times hist k) < limit"
      using in_window_later [of now \<tau> "log_times hist k"] past assms(4) by linarith
    then show ?thesis using True by (auto simp: log_times_snoc in_window_def)
  next
    case False
    then have "in_window W \<tau> (log_times (hist @ [(k, now)]) j) = in_window W \<tau> (log_times hist j)"
      by (auto simp: log_times_snoc in_window_def)
    then show ?thesis using assms(3) by (simp add: capped_def)
  qed
qed

text \<open>Recording only where the count is below the limit keeps every window capped.\<close>

lemma guarded_record_capped:
  assumes "rep c hist s" "c \<le> now" "capped W limit hist" "fst (count s k now) < limit" "now \<le> later"
  shows "rep later (hist @ [(k, later)]) (snd (log_hit (snd (count s k now)) k later))"
    and "capped W limit (hist @ [(k, later)])"
proof -
  have r: "rep now hist (snd (count s k now))" by (rule count_spec [OF assms(1,2)])
  show "rep later (hist @ [(k, later)]) (snd (log_hit (snd (count s k now)) k later))"
    by (rule record_spec [OF r assms(5)])
  have past: "\<forall>t \<in> set (log_times hist k). t \<le> now"
    using rep_past [OF r] by (force simp: log_times_def)
  have "in_window W later (log_times hist k) < limit"
    using in_window_later [OF assms(5) past] count_val [OF assms(1,2), of k] assms(4) by linarith
  then show "capped W limit (hist @ [(k, later)])" by (rule capped_snoc [OF r assms(5,3)])
qed

end

definition hw_rep :: "int \<Rightarrow> (string \<times> int) list \<Rightarrow> HourlyWindow \<Rightarrow> bool" where
  "hw_rep c hist w \<longleftrightarrow>
     windowMs w = HOUR_MS \<and> (\<forall>(k, t) \<in> set hist. t \<le> c) \<and>
     (\<forall>k now. c \<le> now \<longrightarrow>
        filter (\<lambda>t. now - t < HOUR_MS) (opt_list (al_get (hits w) k)) =
        filter (\<lambda>t. now - t < HOUR_MS) (log_times hist k))"

lemma opt_list_simps [simp]: "opt_list None = []" "opt_list (Some l) = l"
  by (simp_all add: opt_list_def)

lemma hw_prune_list: "fst (hw_prune w k now) = filter (\<lambda>t. now - t < windowMs w) (opt_list (al_get (hits w) k))"
  by (simp add: hw_prune_def Let_def)

lemma hw_prune_hits:
  "opt_list (al_get (hits (snd (hw_prune w k now))) j) =
     (if j = k then fst (hw_prune w k now) else opt_list (al_get (hits w) j))"
  by (auto simp: hw_prune_def Let_def)

lemma hw_prune_windowMs [simp]: "windowMs (snd (hw_prune w k now)) = windowMs w"
  by (simp add: hw_prune_def Let_def)

lemma filter_window_idem:
  "c \<le> (now :: int) \<Longrightarrow> filter (\<lambda>t. now - t < W) (filter (\<lambda>t. c - t < W) ts) = filter (\<lambda>t. now - t < W) ts"
  by (induction ts) auto

lemma hw_prune_rep:
  assumes "hw_rep c hist w" "c \<le> now"
  shows "hw_rep now hist (snd (hw_prune w k now))"
  unfolding hw_rep_def
proof (intro conjI allI impI)
  show "windowMs (snd (hw_prune w k now)) = HOUR_MS" using assms by (simp add: hw_rep_def)
  show "\<forall>(k, t)\<in>set hist. t \<le> now" using assms by (fastforce simp: hw_rep_def)
next
  fix j \<tau> assume "now \<le> \<tau>"
  then show "filter (\<lambda>t. \<tau> - t < HOUR_MS) (opt_list (al_get (hits (snd (hw_prune w k now))) j)) =
      filter (\<lambda>t. \<tau> - t < HOUR_MS) (log_times hist j)"
    using assms
    by (auto simp: hw_prune_hits hw_prune_list hw_rep_def filter_window_idem simp del: filter_filter)
qed

lemma hw_prune_val:
  assumes "hw_rep c hist w" "c \<le> now"
  shows "int (length (fst (hw_prune w k now))) = in_window HOUR_MS now (log_times hist k)"
proof -
  have past: "\<forall>t \<in> set (log_times hist k). t \<le> now"
    using assms by (force simp: hw_rep_def log_times_def)
  have "fst (hw_prune w k now) = filter (\<lambda>t. now - t < HOUR_MS) (log_times hist k)"
    using assms by (simp add: hw_prune_list hw_rep_def)
  also have "\<dots> = filter (\<lambda>t. now - HOUR_MS < t \<and> t \<le> now) (log_times hist k)"
    using past by (intro filter_cong) auto
  finally show ?thesis by (simp add: in_window_def)
qed

lemma hw_record_rep:
  assumes "hw_rep c hist w" "c \<le> now"
  shows "hw_rep now (hist @ [(k, now)]) (snd (hw_record w k now))"
proof -
  obtain l w' where p: "hw_prune w k now = (l, w')" by fastforce
  have r: "hw_rep now hist w'" and l: "opt_list (al_get (hits w') k) = l"
    using hw_prune_rep [OF assms, of k] hw_prune_hits [of w k now k] p by simp_all
  show ?thesis
    using r l by (auto simp: hw_record_def p Let_def hw_rep_def log_times_snoc)
qed

lemma hw_rep_new: "hw_rep c [] (new_window HOUR_MS)"
  by (simp add: hw_rep_def new_window_def log_times_def)

interpretation hw: rate_window hw_count hw_record hw_rep HOUR_MS
proof (unfold_locales, goal_cases)
  case (1 c hist s now k)
  then show ?case using hw_prune_rep by (simp add: hw_count_def split_beta)
next
  case (2 c hist s now k)
  then show ?case using hw_prune_val by (simp add: hw_count_def split_beta)
next
  case (3 c hist s now k)
  then show ?case by (rule hw_record_rep)
next
  case (4 c hist s k t)
  then show ?case by (auto simp: hw_rep_def)
qed

end
