(* ===== verification/Drafts.thy ===== *)
theory Drafts
  imports Policy
begin

text \<open>
  The pending drafts of the alter, \<^verbatim>\<open>src/dsh/packages/dsh/src/drafts.ts\<close>: the record, its
  normalisation on load, and the write-through store (\<open>dsh-pending.json\<close>) with its
  operations. Lemmas: the store's operations against lookup by id and by friend, the counts,
  the uniqueness of ids, and the file round trip.
\<close>

section \<open>Records\<close>

record PendingDraft =
  d_id :: string
  d_fp :: string
  d_gid :: "string option"
  d_name :: string
  d_body :: string
  d_createdAt :: string
  d_reason :: string
  d_trigger :: "json option"
  d_sessionId :: "string option"
  d_agent :: "string option"

definition reason_str :: "gate_reason \<Rightarrow> string" where
  "reason_str r = (case r of
     OwnerInitiated \<Rightarrow> ''owner-initiated'' | AutoTier \<Rightarrow> ''auto-tier''
   | DraftTier \<Rightarrow> ''draft-tier'' | NotifyTier \<Rightarrow> ''notify-tier'' | RateLimited \<Rightarrow> ''rate-limited''
   | LoopGuard \<Rightarrow> ''loop-guard-auto'' | UnknownTriggerReason \<Rightarrow> ''unknown-trigger''
   | OtherFriend \<Rightarrow> ''other-friend'' | GroupTrigger \<Rightarrow> ''group-trigger'' | AgentRounds \<Rightarrow> ''agent-rounds''
   | OtherGroup \<Rightarrow> ''other-group'' | AgentsMuted \<Rightarrow> ''agents-muted'')"

definition str_default :: "string \<Rightarrow> string \<Rightarrow> string" where
  "str_default s d = (if s = [] then d else s)"

definition EPOCH_ISO :: string where
  "EPOCH_ISO = ''1970-01-01T00:00:00.000Z''"

definition object_opt :: "unknown \<Rightarrow> json option" where
  "object_opt v = (if is_object v then v else None)"

definition normalizeDraft :: "unknown \<Rightarrow> PendingDraft option" where
  "normalizeDraft v =
     (if \<not> is_object v then None
      else (let id = as_str (jprop v ''id''); fp = as_str (jprop v ''fp'') in
        if id = [] \<or> fp = [] then None
        else Some \<lparr>d_id = id, d_fp = fp,
          d_gid = nonempty_opt (as_str (jprop v ''gid'')),
          d_name = str_default (as_str (jprop v ''name'')) fp,
          d_body = as_str (jprop v ''body''),
          d_createdAt = str_default (as_str (jprop v ''createdAt'')) EPOCH_ISO,
          d_reason = str_default (as_str (jprop v ''reason'')) ''unknown-trigger'',
          d_trigger = object_opt (jprop v ''trigger''),
          d_sessionId = nonempty_opt (as_str (jprop v ''sessionId'')),
          d_agent = nonempty_opt (as_str (jprop v ''agent''))\<rparr>))"

definition draft_json :: "PendingDraft \<Rightarrow> json" where
  "draft_json d = JObj
     ([(''id'', JStr (d_id d)), (''fp'', JStr (d_fp d))] @
      opt_field ''gid'' (map_option JStr (d_gid d)) @
      [(''name'', JStr (d_name d)), (''body'', JStr (d_body d)),
       (''createdAt'', JStr (d_createdAt d)), (''reason'', JStr (d_reason d))] @
      opt_field ''trigger'' (d_trigger d) @
      opt_field ''sessionId'' (map_option JStr (d_sessionId d)) @
      opt_field ''agent'' (map_option JStr (d_agent d)))"

section \<open>The store\<close>

text \<open>
  \<open>data\<close>, \<open>loaded\<close> and the JSON value of the file. \<open>file = None\<close>: missing or unparsable.
  \<open>flush\<close> rewrites the file with the current data (a failed write is swallowed by the code
  and is not modelled).
\<close>

record DraftStore =
  ds_drafts :: "PendingDraft list"
  ds_loaded :: bool
  ds_file :: unknown

definition new_DraftStore :: "unknown \<Rightarrow> DraftStore" where
  "new_DraftStore file = \<lparr>ds_drafts = [], ds_loaded = False, ds_file = file\<rparr>"

definition drafts_json :: "PendingDraft list \<Rightarrow> json" where
  "drafts_json ds = JObj [(''drafts'', JArr (map draft_json ds))]"

definition drafts_of_file :: "unknown \<Rightarrow> PendingDraft list" where
  "drafts_of_file file = List.map_filter (\<lambda>j. normalizeDraft (Some j)) (arr_items (jprop file ''drafts''))"

definition ds_load :: "DraftStore \<Rightarrow> DraftStore" where
  "ds_load s = s\<lparr>ds_drafts := drafts_of_file (ds_file s), ds_loaded := True\<rparr>"

definition ds_flush :: "DraftStore \<Rightarrow> DraftStore" where
  "ds_flush s = s\<lparr>ds_file := Some (drafts_json (ds_drafts s))\<rparr>"

definition ds_list :: "DraftStore \<Rightarrow> string option \<Rightarrow> PendingDraft list" where
  "ds_list s fp = (case fp of None \<Rightarrow> ds_drafts s | Some f \<Rightarrow> filter (\<lambda>d. d_fp d = f) (ds_drafts s))"

definition ds_get :: "DraftStore \<Rightarrow> string \<Rightarrow> PendingDraft option" where
  "ds_get s i = List.find (\<lambda>d. d_id d = i) (ds_drafts s)"

definition ds_count :: "DraftStore \<Rightarrow> string option \<Rightarrow> nat" where
  "ds_count s fp = length (ds_list s fp)"

fun counts_loop :: "PendingDraft list \<Rightarrow> (string, nat) al \<Rightarrow> (string, nat) al" where
  "counts_loop [] out = out"
| "counts_loop (d # ds) out =
     counts_loop ds (al_set (d_fp d) ((case al_get out (d_fp d) of None \<Rightarrow> 0 | Some n \<Rightarrow> n) + 1) out)"

definition ds_counts :: "DraftStore \<Rightarrow> (string, nat) al" where
  "ds_counts s = counts_loop (ds_drafts s) []"

text \<open>The draft handed to \<open>add\<close>: \<open>id\<close> and \<open>createdAt\<close> may be absent.\<close>

record NewDraft =
  n_id :: "string option"
  n_createdAt :: "string option"
  n_draft :: PendingDraft

definition ds_add :: "string \<Rightarrow> string \<Rightarrow> NewDraft \<Rightarrow> DraftStore \<Rightarrow> PendingDraft \<times> DraftStore" where
  "ds_add uuid nowIso n s =
     (let d = (n_draft n)
          \<lparr>d_id := (case n_id n of None \<Rightarrow> ''draft-'' @ uuid | Some i \<Rightarrow> i),
           d_createdAt := (case n_createdAt n of None \<Rightarrow> nowIso | Some t \<Rightarrow> t)\<rparr>
      in (d, ds_flush (s\<lparr>ds_drafts := ds_drafts s @ [d]\<rparr>)))"

definition ds_remove :: "string \<Rightarrow> DraftStore \<Rightarrow> PendingDraft option \<times> DraftStore" where
  "ds_remove i s =
     (case ds_get s i of
        None \<Rightarrow> (None, s)
      | Some found \<Rightarrow> (Some found, ds_flush (s\<lparr>ds_drafts := filter (\<lambda>d. d_id d \<noteq> i) (ds_drafts s)\<rparr>)))"

definition ds_removeAll :: "string \<Rightarrow> DraftStore \<Rightarrow> nat \<times> DraftStore" where
  "ds_removeAll fp s =
     (let before = length (ds_drafts s);
          s' = s\<lparr>ds_drafts := filter (\<lambda>d. d_fp d \<noteq> fp) (ds_drafts s)\<rparr>;
          s'' = (if length (ds_drafts s') \<noteq> before then ds_flush s' else s')
      in (before - length (ds_drafts s'), s''))"

section \<open>Invariants\<close>

text \<open>What a draft is once it went through the file; \<open>ids_unique\<close> is what fresh ids give.\<close>

definition draft_wf :: "PendingDraft \<Rightarrow> bool" where
  "draft_wf d \<longleftrightarrow> d_id d \<noteq> [] \<and> d_fp d \<noteq> [] \<and> d_name d \<noteq> [] \<and> d_createdAt d \<noteq> [] \<and> d_reason d \<noteq> [] \<and>
     d_gid d \<noteq> Some [] \<and> d_sessionId d \<noteq> Some [] \<and> d_agent d \<noteq> Some [] \<and>
     (d_trigger d = None \<or> is_object (d_trigger d))"

definition drafts_wf :: "PendingDraft list \<Rightarrow> bool" where
  "drafts_wf ds = list_all draft_wf ds"

definition ids_unique :: "DraftStore \<Rightarrow> bool" where
  "ids_unique s = distinct (map d_id (ds_drafts s))"

text \<open>The file holds what is in memory: what every mutating operation re-establishes.\<close>

definition synced :: "DraftStore \<Rightarrow> bool" where
  "synced s = (ds_file s = Some (drafts_json (ds_drafts s)))"

lemma str_default_simps [simp]:
  "s \<noteq> [] \<Longrightarrow> str_default s d = s"
  "str_default s d = [] \<longleftrightarrow> s = [] \<and> d = []"
  by (auto simp: str_default_def)

lemma object_opt_simps [simp]:
  "is_object v \<Longrightarrow> object_opt v = v"
  "object_opt None = None"
  "object_opt v = None \<or> is_object (object_opt v)"
  by (auto simp: object_opt_def)

lemma jprop_draft_json [simp]:
  "jprop (Some (draft_json d)) ''id'' = Some (JStr (d_id d))"
  "jprop (Some (draft_json d)) ''fp'' = Some (JStr (d_fp d))"
  "jprop (Some (draft_json d)) ''gid'' = map_option JStr (d_gid d)"
  "jprop (Some (draft_json d)) ''name'' = Some (JStr (d_name d))"
  "jprop (Some (draft_json d)) ''body'' = Some (JStr (d_body d))"
  "jprop (Some (draft_json d)) ''createdAt'' = Some (JStr (d_createdAt d))"
  "jprop (Some (draft_json d)) ''reason'' = Some (JStr (d_reason d))"
  "jprop (Some (draft_json d)) ''trigger'' = d_trigger d"
  "jprop (Some (draft_json d)) ''sessionId'' = map_option JStr (d_sessionId d)"
  "jprop (Some (draft_json d)) ''agent'' = map_option JStr (d_agent d)"
  "is_object (Some (draft_json d))"
  by (simp_all add: draft_json_def del: map_of_append)

lemma normalize_draft_json:
  assumes "draft_wf d"
  shows "normalizeDraft (Some (draft_json d)) = Some d"
proof -
  have "object_opt (d_trigger d) = d_trigger d" using assms by (auto simp: draft_wf_def)
  then show ?thesis using assms by (simp add: normalizeDraft_def draft_wf_def)
qed

lemma normalizeDraft_wf: "normalizeDraft v = Some d \<Longrightarrow> draft_wf d"
  by (simp add: normalizeDraft_def Let_def split: if_split_asm)
    (clarsimp simp: draft_wf_def EPOCH_ISO_def)

interpretation draft_codec: json_codec drafts_json drafts_of_file drafts_wf
proof (unfold_locales, goal_cases)
  case (1 ds)
  then show ?case
    by (induction ds)
      (auto simp: drafts_of_file_def drafts_json_def drafts_wf_def List.map_filter_simps normalize_draft_json)
next
  case (2 f)
  then show ?case
    by (auto simp: drafts_of_file_def drafts_wf_def list_all_iff set_map_filter dest: normalizeDraft_wf)
qed

section \<open>Operations against lookup\<close>

named_theorems ds_simps \<open>field effects of the draft store operations\<close>

lemma ds_flush_simps [simp, ds_simps]:
  "ds_drafts (ds_flush s) = ds_drafts s" "ds_loaded (ds_flush s) = ds_loaded s"
  "synced (ds_flush s)"
  by (simp_all add: ds_flush_def synced_def)

lemma find_filter: "List.find P (filter Q xs) = List.find (\<lambda>x. Q x \<and> P x) xs"
  by (induction xs) auto

lemma ds_add_drafts [ds_simps]:
  "ds_drafts (snd (ds_add u t n s)) = ds_drafts s @ [fst (ds_add u t n s)]"
  "synced (snd (ds_add u t n s))"
  by (simp_all add: ds_add_def Let_def)

lemma ds_get_add:
  "ds_get s (d_id (fst (ds_add u t n s))) = None \<Longrightarrow>
   ds_get (snd (ds_add u t n s)) j =
     (if j = d_id (fst (ds_add u t n s)) then Some (fst (ds_add u t n s)) else ds_get s j)"
  by (auto simp: ds_get_def ds_simps find_append split: option.splits)

lemma ds_remove_result [ds_simps]: "fst (ds_remove i s) = ds_get s i"
  by (simp add: ds_remove_def split: option.splits)

lemma ds_remove_drafts [ds_simps]:
  "ds_drafts (snd (ds_remove i s)) = filter (\<lambda>d. d_id d \<noteq> i) (ds_drafts s)"
proof (cases "ds_get s i")
  case None
  then have "filter (\<lambda>d. d_id d \<noteq> i) (ds_drafts s) = ds_drafts s"
    by (auto simp: ds_get_def find_None_iff)
  then show ?thesis using None by (simp add: ds_remove_def)
qed (simp add: ds_remove_def)

lemma ds_get_remove: "ds_get (snd (ds_remove i s)) j = (if j = i then None else ds_get s j)"
  unfolding ds_get_def ds_simps find_filter
  by (cases "j = i") (auto simp: find_None_iff intro: arg_cong [where f = "\<lambda>P. List.find P (ds_drafts s)"])

lemma ds_removeAll_drafts [ds_simps]:
  "ds_drafts (snd (ds_removeAll fp s)) = filter (\<lambda>d. d_fp d \<noteq> fp) (ds_drafts s)"
  by (simp add: ds_removeAll_def Let_def)

lemma ds_removeAll_result: "fst (ds_removeAll fp s) = ds_count s (Some fp)"
proof -
  have "length (ds_drafts s) = length (filter (\<lambda>d. d_fp d = fp) (ds_drafts s)) +
      length (filter (\<lambda>d. d_fp d \<noteq> fp) (ds_drafts s))"
    by (simp add: sum_length_filter_compl)
  then show ?thesis by (simp add: ds_removeAll_def ds_count_def ds_list_def Let_def)
qed

lemma counts_loop_get:
  "al_get (counts_loop ds out) fp =
     (if (\<exists>d \<in> set ds. d_fp d = fp) \<or> al_get out fp \<noteq> None
      then Some ((case al_get out fp of None \<Rightarrow> 0 | Some n \<Rightarrow> n) + length (filter (\<lambda>d. d_fp d = fp) ds))
      else None)"
  by (induction ds arbitrary: out) (auto split: option.splits)

lemma ds_counts_get:
  "al_get (ds_counts s) fp = (if ds_count s (Some fp) = 0 then None else Some (ds_count s (Some fp)))"
  by (auto simp: ds_counts_def counts_loop_get ds_count_def ds_list_def filter_empty_conv)

lemma ids_unique_add:
  "ids_unique s \<Longrightarrow> ds_get s (d_id (fst (ds_add u t n s))) = None \<Longrightarrow> ids_unique (snd (ds_add u t n s))"
  by (auto simp: ids_unique_def ds_simps ds_get_def find_None_iff)

lemma ids_unique_remove: "ids_unique s \<Longrightarrow> ids_unique (snd (ds_remove i s)) \<and> ids_unique (snd (ds_removeAll fp s))"
  by (simp add: ids_unique_def ds_simps distinct_map_filter)

section \<open>Nothing is lost over a restart\<close>

text \<open>The file, when loaded, gives back the data in memory.\<close>

definition durable :: "DraftStore \<Rightarrow> bool" where
  "durable s = (drafts_wf (ds_drafts s) \<and> drafts_of_file (ds_file s) = ds_drafts s)"

lemma synced_durable: "synced s \<Longrightarrow> drafts_wf (ds_drafts s) \<Longrightarrow> durable s"
  using draft_codec.load_encode by (simp add: synced_def durable_def)

lemma durable_load: "durable (ds_load s)"
  using draft_codec.wf_load by (simp add: durable_def ds_load_def)

lemma durable_remove: "durable s \<Longrightarrow> durable (snd (ds_remove i s))"
proof (cases "ds_get s i")
  case (Some d)
  assume "durable s"
  then have "drafts_wf (ds_drafts (snd (ds_remove i s)))"
    by (simp add: durable_def drafts_wf_def ds_simps list_all_iff)
  then show ?thesis using Some by (intro synced_durable) (simp_all add: ds_remove_def)
qed (simp add: ds_remove_def)

lemma durable_removeAll: "durable s \<Longrightarrow> durable (snd (ds_removeAll fp s))"
proof (cases "length (filter (\<lambda>d. d_fp d \<noteq> fp) (ds_drafts s)) = length (ds_drafts s)")
  case True
  assume "durable s"
  moreover have "filter (\<lambda>d. d_fp d \<noteq> fp) (ds_drafts s) = ds_drafts s"
    using True by (metis length_filter_less filter_id_conv less_irrefl)
  ultimately show ?thesis using True by (simp add: ds_removeAll_def Let_def durable_def)
next
  case False
  assume "durable s"
  then have "drafts_wf (ds_drafts (snd (ds_removeAll fp s)))"
    by (simp add: durable_def drafts_wf_def ds_simps list_all_iff)
  then show ?thesis using False by (intro synced_durable) (simp_all add: ds_removeAll_def Let_def)
qed

text \<open>The life of the store: boot from any file, then operations and restarts in any order.\<close>

inductive draft_reach :: "DraftStore \<Rightarrow> bool" where
  boot: "draft_reach (ds_load (new_DraftStore f))"
| add: "draft_reach s \<Longrightarrow> draft_wf (fst (ds_add u t n s)) \<Longrightarrow> draft_reach (snd (ds_add u t n s))"
| remove: "draft_reach s \<Longrightarrow> draft_reach (snd (ds_remove i s))"
| removeAll: "draft_reach s \<Longrightarrow> draft_reach (snd (ds_removeAll fp s))"
| restart: "draft_reach s \<Longrightarrow> draft_reach (ds_load (new_DraftStore (ds_file s)))"

lemma draft_reach_durable: "draft_reach s \<Longrightarrow> durable s"
proof (induction rule: draft_reach.induct)
  case (add s u t n)
  then show ?case
    by (intro synced_durable) (simp_all add: ds_simps durable_def drafts_wf_def)
qed (auto intro: durable_load durable_remove durable_removeAll)


definition sample_draft :: PendingDraft where
  "sample_draft = \<lparr>d_id = ''draft-1'', d_fp = ''fpA'', d_gid = None, d_name = ''Ann'', d_body = ''hi'',
     d_createdAt = ''t'', d_reason = ''draft-tier'', d_trigger = None, d_sessionId = Some ''s1'', d_agent = None\<rparr>"

definition sample_store :: DraftStore where
  "sample_store = snd (ds_add ''1'' ''t'' \<lparr>n_id = None, n_createdAt = None, n_draft = sample_draft\<rparr>
     (ds_load (new_DraftStore None)))"

lemma sample_store_reach: "draft_reach sample_store"
  unfolding sample_store_def
  by (rule draft_reach.add [OF draft_reach.boot]) (simp add: draft_wf_def ds_add_def Let_def sample_draft_def)


text \<open>
  The draft store refines a finite map from ids to drafts: for a fresh id, \<open>add\<close> answers
  the stored record and updates the map at its id only; \<open>remove\<close> answers the draft the map held
  (nothing when the id is unknown) and clears that id only; \<open>removeAll\<close> answers how many drafts
  of the friend there were and leaves none of them; and the per-friend badge \<open>counts\<close> agrees
  with \<open>count\<close>. Ids stay unique throughout.
\<close>

theorem draft_store_map_refinement:
  assumes "ids_unique s" "ds_get s (d_id (fst (ds_add u t n s))) = None"
  shows "ds_get (snd (ds_add u t n s)) = (ds_get s)(d_id (fst (ds_add u t n s)) \<mapsto> fst (ds_add u t n s)) \<and>
    fst (ds_remove i s) = ds_get s i \<and> ds_get (snd (ds_remove i s)) = (ds_get s)(i := None) \<and>
    fst (ds_removeAll fp s) = ds_count s (Some fp) \<and> ds_count (snd (ds_removeAll fp s)) (Some fp) = 0 \<and>
    al_get (ds_counts s) fp = (if ds_count s (Some fp) = 0 then None else Some (ds_count s (Some fp))) \<and>
    ids_unique (snd (ds_add u t n s)) \<and> ids_unique (snd (ds_remove i s)) \<and> ids_unique (snd (ds_removeAll fp s))"
proof (intro conjI)
  show "ds_get (snd (ds_add u t n s)) = (ds_get s)(d_id (fst (ds_add u t n s)) \<mapsto> fst (ds_add u t n s))"
    using ds_get_add [OF assms(2)] by (auto simp: fun_eq_iff)
  show "ds_get (snd (ds_remove i s)) = (ds_get s)(i := None)"
    by (auto simp: ds_get_remove)
  show "ds_count (snd (ds_removeAll fp s)) (Some fp) = 0"
    by (simp add: ds_count_def ds_list_def ds_simps)
qed (simp_all add: ds_counts_get ds_remove_result ds_removeAll_result ids_unique_add ids_unique_remove assms)

theorem draft_store_map_refinement_witness:
  "ds_get (snd (ds_add ''2'' ''t'' \<lparr>n_id = None, n_createdAt = None, n_draft = sample_draft\<rparr> sample_store)) ''draft-2''
     = Some (sample_draft\<lparr>d_id := ''draft-2''\<rparr>)"
proof -
  let ?n = "\<lparr>n_id = None, n_createdAt = None, n_draft = sample_draft\<rparr>"
  have st: "ds_drafts sample_store = [sample_draft]"
    by (simp add: sample_store_def ds_add_def Let_def ds_load_def new_DraftStore_def drafts_of_file_def
        List.map_filter_simps) (simp add: sample_draft_def)
  have new: "fst (ds_add ''2'' ''t'' ?n sample_store) = sample_draft\<lparr>d_id := ''draft-2''\<rparr>"
    by (simp add: ds_add_def Let_def sample_draft_def)
  have h: "ids_unique sample_store"
    "ds_get sample_store (d_id (fst (ds_add ''2'' ''t'' ?n sample_store))) = None"
    unfolding new using st by (simp_all add: ids_unique_def ds_get_def) (simp add: sample_draft_def)
  show ?thesis using draft_store_map_refinement [OF h] new by simp
qed

end
