(* ===== verification/Friend_Settings.thy ===== *)
theory Friend_Settings
  imports Policy
begin

text \<open>
  Per-friend settings and the diplomacy protocol file,
  \<^verbatim>\<open>src/dsh/packages/dsh/src/friend-settings.ts\<close>: the reply tier and the do-not-disturb flag
  of each friend (\<open>dsh-friends.json\<close>) and the mtime-cached \<open>protocol.md\<close>. Lemmas: the
  effect of a patch on every field and every friend, what a restart keeps, and the
  coherence of the protocol cache.
\<close>

section \<open>The settings store\<close>

record FriendSettings =
  fs_tier :: "ReplyTier option"
  fs_muted :: "bool option"

definition no_settings :: FriendSettings where
  "no_settings = \<lparr>fs_tier = None, fs_muted = None\<rparr>"

record FriendSettingsStore =
  fss_friends :: "(string, FriendSettings) al"
  fss_loaded :: bool
  fss_file :: unknown

definition new_FriendSettingsStore :: "unknown \<Rightarrow> FriendSettingsStore" where
  "new_FriendSettingsStore file = \<lparr>fss_friends = [], fss_loaded = False, fss_file = file\<rparr>"

definition settings_of_json :: "json \<Rightarrow> FriendSettings" where
  "settings_of_json value =
     \<lparr>fs_tier = (case jprop (Some value) ''tier'' of None \<Rightarrow> None
                 | Some t \<Rightarrow> Some (normalizeTier (Some t) DEFAULT_REPLY_TIER)),
      fs_muted = (if is_true (jprop (Some value) ''muted'') then Some True else None)\<rparr>"

fun load_friends_loop :: "(string \<times> json) list \<Rightarrow> (string, FriendSettings) al \<Rightarrow> (string, FriendSettings) al" where
  "load_friends_loop [] friends = friends"
| "load_friends_loop ((fp, value) # rest) friends =
     load_friends_loop rest (al_set fp (settings_of_json value) friends)"

text \<open>A file whose root is \<open>null\<close> makes the property read throw; every other root has no friends.\<close>

definition friends_of_file :: "unknown \<Rightarrow> (string, FriendSettings) al" where
  "friends_of_file file =
     load_friends_loop (obj_entries (Some (nullish_or (jprop file ''friends'') (JObj [])))) []"

definition fss_load :: "FriendSettingsStore \<Rightarrow> FriendSettingsStore" where
  "fss_load s = s\<lparr>fss_friends := friends_of_file (fss_file s), fss_loaded := True\<rparr>"

definition settings_json :: "FriendSettings \<Rightarrow> json" where
  "settings_json v = JObj (opt_field ''tier'' (map_option (JStr \<circ> tier_str) (fs_tier v)) @
                           opt_field ''muted'' (map_option JBool (fs_muted v)))"

definition friends_json :: "(string, FriendSettings) al \<Rightarrow> json" where
  "friends_json m = JObj [(''friends'', JObj (map (\<lambda>(k, v). (k, settings_json v)) m))]"

definition fss_get :: "FriendSettingsStore \<Rightarrow> string \<Rightarrow> FriendSettings" where
  "fss_get s fp = (case al_get (fss_friends s) fp of None \<Rightarrow> no_settings | Some v \<Rightarrow> v)"

definition fss_tier :: "FriendSettingsStore \<Rightarrow> string \<Rightarrow> ReplyTier \<Rightarrow> ReplyTier" where
  "fss_tier s fp fallback =
     (case al_get (fss_friends s) fp of None \<Rightarrow> fallback
      | Some v \<Rightarrow> (case fs_tier v of None \<Rightarrow> fallback | Some t \<Rightarrow> t))"

definition fss_all :: "FriendSettingsStore \<Rightarrow> (string, FriendSettings) al" where
  "fss_all s = fss_friends s"

text \<open>A patch: the outer option says whether the key is in the object, the inner its value.\<close>

record FriendPatch =
  fp_tier :: "ReplyTier option option"
  fp_muted :: "bool option option"

definition fss_write :: "FriendSettingsStore \<Rightarrow> FriendSettingsStore" where
  "fss_write s = s\<lparr>fss_file := Some (friends_json (fss_friends s))\<rparr>"

definition spread_settings :: "FriendSettings \<Rightarrow> FriendSettings \<Rightarrow> FriendSettings" where
  "spread_settings base over =
     \<lparr>fs_tier = (case fs_tier over of None \<Rightarrow> fs_tier base | Some t \<Rightarrow> Some t),
      fs_muted = (case fs_muted over of None \<Rightarrow> fs_muted base | Some b \<Rightarrow> Some b)\<rparr>"

definition fss_set :: "string \<Rightarrow> FriendPatch \<Rightarrow> FriendSettingsStore \<Rightarrow> FriendSettings \<times> FriendSettingsStore" where
  "fss_set fp patch s =
     (let current = fss_get s fp;
          tier = (case fp_tier patch of None \<Rightarrow> fs_tier current | Some t \<Rightarrow> t);
          muted = (case fp_muted patch of None \<Rightarrow> fs_muted current | Some b \<Rightarrow> b);
          next = \<lparr>fs_tier = tier, fs_muted = muted\<rparr>;
          friends = (if next = no_settings then al_del fp (fss_friends s)
                     else al_set fp (spread_settings current next) (fss_friends s));
          s' = fss_write (s\<lparr>fss_friends := friends\<rparr>)
      in (fss_get s' fp, s'))"

definition fss_remove :: "string \<Rightarrow> FriendSettingsStore \<Rightarrow> FriendSettingsStore" where
  "fss_remove fp s =
     (if al_get (fss_friends s) fp = None then s
      else fss_write (s\<lparr>fss_friends := al_del fp (fss_friends s)\<rparr>))"

section \<open>The protocol file\<close>

record disk_file =
  df_mtimeMs :: int
  df_size :: int
  df_text :: string

record ProtocolFile =
  pf_cache :: "disk_file option"
  pf_disk :: "disk_file option"

definition pf_read :: "ProtocolFile \<Rightarrow> string \<times> ProtocolFile" where
  "pf_read p =
     (case pf_disk p of
        None \<Rightarrow> ([], p\<lparr>pf_cache := None\<rparr>)
      | Some f \<Rightarrow>
          (case pf_cache p of
             Some c \<Rightarrow> (if df_mtimeMs c = df_mtimeMs f \<and> df_size c = df_size f then (df_text c, p)
                       else (df_text f, p\<lparr>pf_cache := Some f\<rparr>))
           | None \<Rightarrow> (df_text f, p\<lparr>pf_cache := Some f\<rparr>)))"

definition pf_exists :: "ProtocolFile \<Rightarrow> bool" where
  "pf_exists p = (pf_disk p \<noteq> None)"

text \<open>The write replaces the file (new mtime and size from the file system) and drops the cache.\<close>

definition pf_write :: "int \<Rightarrow> int \<Rightarrow> string \<Rightarrow> ProtocolFile \<Rightarrow> ProtocolFile" where
  "pf_write mtime sz text p =
     p\<lparr>pf_disk := Some \<lparr>df_mtimeMs = mtime, df_size = sz, df_text = text\<rparr>, pf_cache := None\<rparr>"

section \<open>Lemmas\<close>

named_theorems fss_simps \<open>field effects of the friend settings operations\<close>

lemma fss_write_friends [simp, fss_simps]: "fss_friends (fss_write s) = fss_friends s"
  by (simp add: fss_write_def)

lemma fss_tier_get: "fss_tier s fp d = (case fs_tier (fss_get s fp) of None \<Rightarrow> d | Some t \<Rightarrow> t)"
  by (simp add: fss_tier_def fss_get_def no_settings_def split: option.splits)

lemma fss_get_set_other [fss_simps]: "j \<noteq> fp \<Longrightarrow> fss_get (snd (fss_set fp patch s)) j = fss_get s j"
  by (simp add: fss_set_def Let_def fss_get_def)

lemma fss_set_result: "fst (fss_set fp patch s) = fss_get (snd (fss_set fp patch s)) fp"
  by (simp add: fss_set_def Let_def)

definition patched :: "'a option option \<Rightarrow> 'a option \<Rightarrow> 'a option" where
  "patched p cur = (case p of None \<Rightarrow> cur | Some v \<Rightarrow> v)"

text \<open>
  A key of the patch whose value is \<open>undefined\<close> takes effect only when the other key ends up
  undefined too; otherwise the spread over the current record keeps the old value.
\<close>

lemma fss_get_set [fss_simps]:
  "fss_get (snd (fss_set fp patch s)) fp =
     (let cur = fss_get s fp; t = patched (fp_tier patch) (fs_tier cur); m = patched (fp_muted patch) (fs_muted cur)
      in if t = None \<and> m = None then no_settings
         else \<lparr>fs_tier = (if t = None then fs_tier cur else t), fs_muted = (if m = None then fs_muted cur else m)\<rparr>)"
  by (auto simp: fss_set_def Let_def fss_get_def [of "fss_write _"] patched_def no_settings_def spread_settings_def
      split: option.splits)

lemma fss_wf_set: "al_wf (fss_friends s) \<Longrightarrow> al_wf (fss_friends (snd (fss_set fp patch s)))"
  by (simp add: fss_set_def Let_def)

lemma fss_wf_remove: "al_wf (fss_friends s) \<Longrightarrow> al_wf (fss_friends (fss_remove fp s))"
  by (simp add: fss_remove_def)

lemma fss_get_remove: "fss_get (fss_remove fp s) j = (if j = fp then no_settings else fss_get s j)"
  by (simp add: fss_remove_def fss_get_def)

lemma load_friends_loop_get:
  "al_get (load_friends_loop kvs acc) k =
     (case al_get (rev kvs) k of None \<Rightarrow> al_get acc k | Some j \<Rightarrow> Some (settings_of_json j))"
  by (induction kvs acc rule: load_friends_loop.induct) (auto simp: map_add_def split: option.splits)

lemma load_friends_loop_wf: "al_wf acc \<Longrightarrow> al_wf (load_friends_loop kvs acc)"
  by (induction kvs acc rule: load_friends_loop.induct) auto

lemma settings_roundtrip:
  "settings_of_json (settings_json v) = v\<lparr>fs_muted := (if fs_muted v = Some True then Some True else None)\<rparr>"
proof -
  have "jprop (Some (settings_json v)) ''tier'' = map_option (JStr \<circ> tier_str) (fs_tier v)"
    "jprop (Some (settings_json v)) ''muted'' = map_option JBool (fs_muted v)"
    by (simp_all add: settings_json_def del: map_of_append)
  then show ?thesis
    by (cases v) (auto simp: settings_of_json_def split: option.splits)
qed

lemma friends_of_file_json:
  assumes "al_wf m"
  shows "al_get (friends_of_file (Some (friends_json m))) k =
    map_option (\<lambda>v. v\<lparr>fs_muted := (if fs_muted v = Some True then Some True else None)\<rparr>) (al_get m k)"
  using assms
  by (simp add: friends_of_file_def friends_json_def load_friends_loop_get settings_roundtrip
      al_get_rev al_wf_map_values al_get_map_values split: option.splits)

lemma pf_read_disk:
  assumes "\<And>c f. pf_cache p = Some c \<Longrightarrow> pf_disk p = Some f \<Longrightarrow>
      df_mtimeMs c = df_mtimeMs f \<Longrightarrow> df_size c = df_size f \<Longrightarrow> df_text c = df_text f"
  shows "fst (pf_read p) = (case pf_disk p of None \<Rightarrow> [] | Some f \<Rightarrow> df_text f)"
proof (cases "pf_disk p")
  case (Some f)
  show ?thesis
  proof (cases "pf_cache p")
    case (Some c)
    then show ?thesis using assms [of c f] \<open>pf_disk p = Some f\<close> by (simp add: pf_read_def)
  qed (simp add: pf_read_def Some)
qed (simp add: pf_read_def)

lemma pf_read_after_write: "fst (pf_read (pf_write mt sz text p)) = text"
  by (simp add: pf_read_def pf_write_def)

section \<open>Properties\<close>

definition muted_on :: "FriendSettingsStore \<Rightarrow> string \<Rightarrow> bool" where
  "muted_on s fp = (fs_muted (fss_get s fp) = Some True)"

inductive fss_reach :: "FriendSettingsStore \<Rightarrow> bool" where
  boot: "fss_reach (fss_load (new_FriendSettingsStore f))"
| set: "fss_reach s \<Longrightarrow> fss_reach (snd (fss_set fp patch s))"
| remove: "fss_reach s \<Longrightarrow> fss_reach (fss_remove fp s)"
| restart: "fss_reach s \<Longrightarrow> fss_reach (fss_load (new_FriendSettingsStore (fss_file s)))"

text \<open>Loading the file gives back every entry up to a stored \<open>muted: false\<close>.\<close>

definition file_agrees :: "FriendSettingsStore \<Rightarrow> bool" where
  "file_agrees s = (al_wf (fss_friends s) \<and> (\<forall>k.
     al_get (friends_of_file (fss_file s)) k =
       map_option (\<lambda>v. v\<lparr>fs_muted := (if fs_muted v = Some True then Some True else None)\<rparr>) (al_get (fss_friends s) k)))"

lemma file_agrees_write: "al_wf (fss_friends s) \<Longrightarrow> file_agrees (fss_write s)"
  by (simp add: file_agrees_def fss_write_def friends_of_file_json)

lemma settings_of_json_muted: "fs_muted (settings_of_json j) \<in> {None, Some True}"
  by (simp add: settings_of_json_def)

lemma file_agrees_load: "file_agrees (fss_load s)"
proof -
  have "v\<lparr>fs_muted := (if fs_muted v = Some True then Some True else None)\<rparr> = v"
    if "al_get (friends_of_file f) k = Some v" for f k v
  proof -
    have "fs_muted v \<in> {None, Some True}"
      using that settings_of_json_muted by (auto simp: friends_of_file_def load_friends_loop_get split: option.splits)
    then show ?thesis by (cases v) auto
  qed
  then have "map_option (\<lambda>v. v\<lparr>fs_muted := (if fs_muted v = Some True then Some True else None)\<rparr>)
      (al_get (friends_of_file f) k) = al_get (friends_of_file f) k" for f k
    by (cases "al_get (friends_of_file f) k") auto
  moreover have "al_wf (friends_of_file f)" for f
    by (simp add: friends_of_file_def load_friends_loop_wf)
  ultimately show ?thesis by (simp add: file_agrees_def fss_load_def)
qed

lemma fss_reach_agrees: "fss_reach s \<Longrightarrow> file_agrees s"
proof (induction rule: fss_reach.induct)
  case (set s fp patch)
  then have "al_wf (fss_friends s)" by (simp add: file_agrees_def)
  then show ?case by (auto simp: fss_set_def Let_def intro: file_agrees_write)
next
  case (remove s fp)
  then show ?case by (auto simp: fss_remove_def intro: file_agrees_write simp: file_agrees_def [of s])
qed (auto intro: file_agrees_load)

text \<open>
  A restart changes no friend's reply tier and no friend's do-not-disturb flag: in every
  state the settings store can reach from any file by patches, removals and restarts, the
  store reloaded from the file answers the same effective tier for every friend and default,
  and mutes the same friends.
\<close>

theorem friend_settings_survive_restart:
  assumes "fss_reach s"
  shows "fss_tier (fss_load (new_FriendSettingsStore (fss_file s))) fp d = fss_tier s fp d \<and>
    muted_on (fss_load (new_FriendSettingsStore (fss_file s))) fp = muted_on s fp"
  using fss_reach_agrees [OF assms]
  by (auto simp: file_agrees_def fss_tier_get muted_on_def fss_load_def new_FriendSettingsStore_def fss_get_def
      no_settings_def split: option.splits)

theorem friend_settings_survive_restart_witness:
  "let s = snd (fss_set ''fpA'' \<lparr>fp_tier = Some (Some Auto), fp_muted = None\<rparr> (fss_load (new_FriendSettingsStore None)))
   in fss_tier (fss_load (new_FriendSettingsStore (fss_file s))) ''fpA'' Draft = fss_tier s ''fpA'' Draft \<and> fss_tier s ''fpA'' Draft = Auto"
proof -
  let ?s = "snd (fss_set ''fpA'' \<lparr>fp_tier = Some (Some Auto), fp_muted = None\<rparr> (fss_load (new_FriendSettingsStore None)))"
  have "fss_tier ?s ''fpA'' Draft = Auto" by (simp add: fss_tier_get fss_get_set patched_def Let_def)
  moreover have "fss_reach ?s" by (rule fss_reach.set [OF fss_reach.boot])
  ultimately show ?thesis using friend_settings_survive_restart [of ?s "''fpA''" Draft] by (simp add: Let_def)
qed

text \<open>
  What \<open>set\<close> does to a friend's tier. Storing a tier makes it the effective one and leaves
  the mute flag; clearing it (an explicit \<open>tier: undefined\<close>) brings back the global default
  exactly when the friend has no tier stored or no mute flag stored: with a mute flag stored
  (on or off), the spread over the current record keeps the old tier. No other friend changes.
\<close>

theorem set_tier_effect:
  "fss_tier (snd (fss_set fp \<lparr>fp_tier = Some (Some t), fp_muted = None\<rparr> s)) fp d = t \<and>
   fs_muted (fss_get (snd (fss_set fp \<lparr>fp_tier = Some (Some t), fp_muted = None\<rparr> s)) fp) = fs_muted (fss_get s fp) \<and>
   (fs_tier (fss_get (snd (fss_set fp \<lparr>fp_tier = Some None, fp_muted = None\<rparr> s)) fp) = None \<longleftrightarrow>
      fs_tier (fss_get s fp) = None \<or> fs_muted (fss_get s fp) = None) \<and>
   (fs_muted (fss_get s fp) = Some b \<longrightarrow>
      fss_get (snd (fss_set fp \<lparr>fp_tier = Some None, fp_muted = None\<rparr> s)) fp = fss_get s fp) \<and>
   (j \<noteq> fp \<longrightarrow> fss_get (snd (fss_set fp patch s)) j = fss_get s j)"
  by (auto simp: fss_tier_get fss_simps patched_def Let_def no_settings_def)

theorem set_tier_effect_witness:
  "let s = snd (fss_set ''fpA'' \<lparr>fp_tier = Some (Some Auto), fp_muted = Some (Some True)\<rparr> (new_FriendSettingsStore None))
   in fss_get (snd (fss_set ''fpA'' \<lparr>fp_tier = Some None, fp_muted = None\<rparr> s)) ''fpA'' = fss_get s ''fpA'' \<and>
      fs_tier (fss_get s ''fpA'') = Some Auto \<and>
      fss_get (snd (fss_set ''fpA'' \<lparr>fp_tier = None, fp_muted = None\<rparr> s)) ''fpB'' = fss_get s ''fpB''"
proof -
  let ?s = "snd (fss_set ''fpA'' \<lparr>fp_tier = Some (Some Auto), fp_muted = Some (Some True)\<rparr> (new_FriendSettingsStore None))"
  have "fs_muted (fss_get ?s ''fpA'') = Some True" "fs_tier (fss_get ?s ''fpA'') = Some Auto"
    by (simp_all add: fss_get_set patched_def Let_def)
  then show ?thesis
    using set_tier_effect [of "''fpA''" Auto ?s Draft True "''fpB''" "\<lparr>fp_tier = None, fp_muted = None\<rparr>"]
    by (simp add: Let_def)
qed

end
