(* ===== verification/Group_Settings.thy ===== *)
theory Group_Settings
  imports Policy
begin

text \<open>
  Per-group client settings, \<^verbatim>\<open>src/dsh/packages/dsh/src/group-settings.ts\<close>: which voices of the
  seat participate in a group, who commands them, the duty slot and the mute flag
  (\<open>dsh-groups.json\<close>), with the fold of the older file shapes. Lemmas: the well-formedness
  invariant (the duty voice participates, commander lists are clean and bounded, no empty
  entry is kept), that loading and every patch establish it, and the file round trip.
\<close>

section \<open>Data\<close>

definition VOICE_ALTER :: string where
  "VOICE_ALTER = ''alter''"

definition COMMANDER_ANY :: string where
  "COMMANDER_ANY = ''*''"

text \<open>\<open>commanders\<close> is absent exactly when its list is empty, and so are \<open>voices\<close>.\<close>

record GroupVoiceSetting =
  gv_commanders :: "string list"

record GroupSettings =
  gs_voices :: "(string, GroupVoiceSetting) al"
  gs_duty :: "string option"
  gs_muted :: bool

type_synonym GroupSettingsMap = "(string, GroupSettings) al"

definition no_group_settings :: GroupSettings where
  "no_group_settings = \<lparr>gs_voices = [], gs_duty = None, gs_muted = False\<rparr>"

section \<open>Normalising the file\<close>

fun commanders_loop :: "json list \<Rightarrow> string list \<Rightarrow> string list" where
  "commanders_loop [] out = out"
| "commanders_loop (c # cs) out =
     (case str_opt (Some c) of
        None \<Rightarrow> commanders_loop cs out
      | Some s \<Rightarrow>
          (let v = trim s in
           if v = [] \<or> v \<in> set out then commanders_loop cs out
           else (let out' = out @ [v] in if length out' = 64 then out' else commanders_loop cs out')))"

definition normalizeCommanders :: "unknown \<Rightarrow> string list" where
  "normalizeCommanders raw = commanders_loop (arr_items raw) []"

fun voices_loop :: "(string \<times> json) list \<Rightarrow> (string, GroupVoiceSetting) al \<Rightarrow> (string, GroupVoiceSetting) al" where
  "voices_loop [] voices = voices"
| "voices_loop ((name, entry) # rest) voices =
     (if trim name = [] then voices_loop rest voices
      else if entry = JBool True then voices_loop rest (al_set name \<lparr>gv_commanders = []\<rparr> voices)
      else if is_object (Some entry) \<and> is_true (jprop (Some entry) ''on'') then
        voices_loop rest (al_set name \<lparr>gv_commanders = normalizeCommanders (jprop (Some entry) ''commanders'')\<rparr> voices)
      else voices_loop rest voices)"

definition entry_voices :: "unknown \<Rightarrow> (string, GroupVoiceSetting) al" where
  "entry_voices v =
     (let rawVoices = jprop v ''voices'';
          voices = (if is_object rawVoices then voices_loop (obj_entries rawVoices) [] else [])
      in if is_true (jprop v ''alter'') then al_set VOICE_ALTER \<lparr>gv_commanders = []\<rparr> voices else voices)"

definition entry_duty :: "unknown \<Rightarrow> (string, GroupVoiceSetting) al \<Rightarrow> string" where
  "entry_duty v voices =
     (let duty0 = as_str (jprop v ''duty'');
          duty1 = (if duty0 = [] \<and> jprop v ''mode'' = Some (JStr ''always'') \<and> al_get voices VOICE_ALTER \<noteq> None
                   then VOICE_ALTER else duty0)
      in if duty1 \<noteq> [] \<and> al_get voices duty1 = None then [] else duty1)"

definition normalizeEntry :: "unknown \<Rightarrow> GroupSettings option" where
  "normalizeEntry v =
     (if \<not> is_object v then None
      else
        (let voices = entry_voices v; duty = entry_duty v voices; muted = is_true (jprop v ''muted'')
         in if voices = [] \<and> \<not> muted then None
            else Some \<lparr>gs_voices = voices, gs_duty = nonempty_opt duty, gs_muted = muted\<rparr>))"

fun groups_loop :: "(string \<times> json) list \<Rightarrow> GroupSettingsMap \<Rightarrow> GroupSettingsMap" where
  "groups_loop [] m = m"
| "groups_loop ((gid, value) # rest) m =
     (case normalizeEntry (Some value) of None \<Rightarrow> groups_loop rest m | Some e \<Rightarrow> groups_loop rest (al_set gid e m))"

definition normalizeGroups :: "unknown \<Rightarrow> GroupSettingsMap" where
  "normalizeGroups raw = (if is_object raw then groups_loop (obj_entries raw) [] else [])"

text \<open>\<open>readGroupSettings\<close>: a missing or malformed file reads as the empty map.\<close>

definition readGroupSettings :: "unknown \<Rightarrow> GroupSettingsMap" where
  "readGroupSettings file = normalizeGroups file"

section \<open>The store\<close>

datatype duty_patch = DutyKeep | DutyNull | DutySet string

record voice_patch =
  vp_name :: string
  vp_on :: bool
  vp_commanders :: "string list option"

record GroupSettingsPatch =
  gp_alter :: "bool option"
  gp_mode :: "GroupAlterMode option"
  gp_voice :: "voice_patch option"
  gp_duty :: duty_patch
  gp_muted :: "bool option"

definition no_patch :: GroupSettingsPatch where
  "no_patch = \<lparr>gp_alter = None, gp_mode = None, gp_voice = None, gp_duty = DutyKeep, gp_muted = None\<rparr>"

record GroupSettingsStore =
  gss_data :: GroupSettingsMap
  gss_loaded :: bool
  gss_file :: unknown

definition new_GroupSettingsStore :: "unknown \<Rightarrow> GroupSettingsStore" where
  "new_GroupSettingsStore file = \<lparr>gss_data = [], gss_loaded = False, gss_file = file\<rparr>"

definition gss_load :: "GroupSettingsStore \<Rightarrow> GroupSettingsStore" where
  "gss_load s = s\<lparr>gss_data := normalizeGroups (gss_file s), gss_loaded := True\<rparr>"

definition gss_get :: "GroupSettingsStore \<Rightarrow> string \<Rightarrow> GroupSettings" where
  "gss_get s gid = (case al_get (gss_data s) gid of None \<Rightarrow> no_group_settings | Some e \<Rightarrow> e)"

definition voiceOn :: "GroupSettingsStore \<Rightarrow> string \<Rightarrow> string \<Rightarrow> bool" where
  "voiceOn s gid name = (al_get (gs_voices (gss_get s gid)) name \<noteq> None)"

definition commandersOf :: "GroupSettingsStore \<Rightarrow> string \<Rightarrow> string \<Rightarrow> string list" where
  "commandersOf s gid name =
     (case al_get (gs_voices (gss_get s gid)) name of None \<Rightarrow> [] | Some v \<Rightarrow> gv_commanders v)"

definition dutyOf :: "GroupSettingsStore \<Rightarrow> string \<Rightarrow> string option" where
  "dutyOf s gid = gs_duty (gss_get s gid)"

definition alterOn :: "GroupSettingsStore \<Rightarrow> string \<Rightarrow> bool" where
  "alterOn s gid = voiceOn s gid VOICE_ALTER"

definition modeOf :: "GroupSettingsStore \<Rightarrow> string \<Rightarrow> GroupAlterMode" where
  "modeOf s gid = (if dutyOf s gid = Some VOICE_ALTER then MAlways else MMention)"

type_synonym voice_state = "(string, GroupVoiceSetting) al \<times> string option"

fun switchVoice :: "string \<Rightarrow> bool \<Rightarrow> string list option \<Rightarrow> voice_state \<Rightarrow> voice_state" where
  "switchVoice name on commanders (voices, duty) =
     (if trim name = [] then (voices, duty)
      else if on then
        (let kept = (case commanders of
               None \<Rightarrow> (case al_get voices name of None \<Rightarrow> [] | Some v \<Rightarrow> gv_commanders v)
             | Some cs \<Rightarrow> normalizeCommanders (Some (JArr (map JStr cs))))
         in (al_set name \<lparr>gv_commanders = kept\<rparr> voices, duty))
      else (al_del name voices, if duty = Some name then None else duty))"

definition patch_alter :: "GroupSettingsPatch \<Rightarrow> voice_state \<Rightarrow> voice_state" where
  "patch_alter p vs = (case gp_alter p of None \<Rightarrow> vs | Some on \<Rightarrow> switchVoice VOICE_ALTER on None vs)"

definition patch_mode :: "GroupSettingsPatch \<Rightarrow> voice_state \<Rightarrow> voice_state" where
  "patch_mode p vs =
     (case gp_mode p of
        Some MAlways \<Rightarrow> (fst (switchVoice VOICE_ALTER True None vs), Some VOICE_ALTER)
      | Some MMention \<Rightarrow> (if snd vs = Some VOICE_ALTER then (fst vs, None) else vs)
      | None \<Rightarrow> vs)"

definition patch_voice :: "GroupSettingsPatch \<Rightarrow> voice_state \<Rightarrow> voice_state" where
  "patch_voice p vs =
     (case gp_voice p of None \<Rightarrow> vs | Some v \<Rightarrow> switchVoice (vp_name v) (vp_on v) (vp_commanders v) vs)"

definition patch_duty :: "GroupSettingsPatch \<Rightarrow> voice_state \<Rightarrow> voice_state" where
  "patch_duty p vs =
     (case gp_duty p of
        DutyNull \<Rightarrow> (fst vs, None)
      | DutySet d \<Rightarrow> (if trim d \<noteq> [] then (fst (switchVoice d True None vs), Some d) else vs)
      | DutyKeep \<Rightarrow> vs)"

text \<open>Duty implies participation, checked after all parts of the patch.\<close>

definition check_duty :: "voice_state \<Rightarrow> voice_state" where
  "check_duty vs =
     (case snd vs of None \<Rightarrow> vs | Some d \<Rightarrow> (if al_get (fst vs) d = None then (fst vs, None) else vs))"

definition patched_entry :: "GroupSettingsPatch \<Rightarrow> GroupSettings \<Rightarrow> GroupSettings" where
  "patched_entry p current =
     (let vs = check_duty (patch_duty p (patch_voice p (patch_mode p (patch_alter p
                 (gs_voices current, gs_duty current)))))
      in \<lparr>gs_voices = fst vs, gs_duty = snd vs,
          gs_muted = (case gp_muted p of None \<Rightarrow> gs_muted current | Some m \<Rightarrow> m)\<rparr>)"

definition voice_json :: "GroupVoiceSetting \<Rightarrow> json" where
  "voice_json v = JObj ((''on'', JBool True) #
     opt_field ''commanders'' (if gv_commanders v = [] then None else Some (JArr (map JStr (gv_commanders v)))))"

definition entry_json :: "GroupSettings \<Rightarrow> json" where
  "entry_json e = JObj
     (opt_field ''voices'' (if gs_voices e = [] then None
        else Some (JObj (map (\<lambda>(k, v). (k, voice_json v)) (gs_voices e)))) @
      opt_field ''duty'' (map_option JStr (gs_duty e)) @
      opt_field ''muted'' (if gs_muted e then Some (JBool True) else None))"

definition groups_json :: "GroupSettingsMap \<Rightarrow> json" where
  "groups_json m = JObj (map (\<lambda>(k, e). (k, entry_json e)) m)"

definition gss_write :: "GroupSettingsStore \<Rightarrow> GroupSettingsStore" where
  "gss_write s = s\<lparr>gss_file := Some (groups_json (gss_data s))\<rparr>"

definition gss_set :: "string \<Rightarrow> GroupSettingsPatch \<Rightarrow> GroupSettingsStore \<Rightarrow> GroupSettings \<times> GroupSettingsStore" where
  "gss_set gid p s =
     (let entry = patched_entry p (gss_get s gid);
          data = (if entry = no_group_settings then al_del gid (gss_data s) else al_set gid entry (gss_data s));
          s' = gss_write (s\<lparr>gss_data := data\<rparr>)
      in (gss_get s' gid, s'))"

definition gss_remove :: "string \<Rightarrow> GroupSettingsStore \<Rightarrow> GroupSettingsStore" where
  "gss_remove gid s =
     (if al_get (gss_data s) gid = None then s else gss_write (s\<lparr>gss_data := al_del gid (gss_data s)\<rparr>))"

section \<open>The invariant\<close>

definition commanders_ok :: "string list \<Rightarrow> bool" where
  "commanders_ok cs = (distinct cs \<and> length cs \<le> 64 \<and> (\<forall>c \<in> set cs. c \<noteq> [] \<and> trim c = c))"

definition voices_ok :: "(string, GroupVoiceSetting) al \<Rightarrow> bool" where
  "voices_ok vs = (al_wf vs \<and> (\<forall>(n, v) \<in> set vs. trim n \<noteq> [] \<and> commanders_ok (gv_commanders v)))"

definition duty_ok :: "voice_state \<Rightarrow> bool" where
  "duty_ok vs = (\<forall>d. snd vs = Some d \<longrightarrow> al_get (fst vs) d \<noteq> None)"

definition entry_ok :: "GroupSettings \<Rightarrow> bool" where
  "entry_ok e = (voices_ok (gs_voices e) \<and> duty_ok (gs_voices e, gs_duty e))"

definition groups_ok :: "GroupSettingsMap \<Rightarrow> bool" where
  "groups_ok m = (al_wf m \<and> (\<forall>(g, e) \<in> set m. entry_ok e \<and> e \<noteq> no_group_settings))"

lemma commanders_loop_ok:
  "commanders_ok out \<Longrightarrow> length out < 64 \<Longrightarrow> commanders_ok (commanders_loop cs out)"
proof (induction cs out rule: commanders_loop.induct)
  case (2 c cs out)
  show ?case
  proof (cases "str_opt (Some c)")
    case (Some s)
    let ?v = "trim s"
    show ?thesis
    proof (cases "?v = [] \<or> ?v \<in> set out")
      case True
      then show ?thesis using 2 Some by simp
    next
      case False
      then have "commanders_ok (out @ [?v])" using "2.prems" by (auto simp: commanders_ok_def)
      then show ?thesis using 2 Some False by (auto simp: Let_def)
    qed
  qed (use 2 in simp)
qed simp

lemma normalizeCommanders_ok: "commanders_ok (normalizeCommanders raw)"
  unfolding normalizeCommanders_def by (rule commanders_loop_ok) (simp_all add: commanders_ok_def)

lemma commanders_loop_id:
  "distinct (out @ cs) \<Longrightarrow> length (out @ cs) \<le> 64 \<Longrightarrow> \<forall>c \<in> set cs. c \<noteq> [] \<and> trim c = c \<Longrightarrow>
   length out < 64 \<Longrightarrow> commanders_loop (map JStr cs) out = out @ cs"
proof (induction cs arbitrary: out)
  case (Cons c cs)
  then show ?case using Cons.IH [of "out @ [c]"] by (cases "length out = 63") (auto simp: Let_def)
qed simp

lemma normalizeCommanders_id: "commanders_ok cs \<Longrightarrow> normalizeCommanders (Some (JArr (map JStr cs))) = cs"
  by (simp add: normalizeCommanders_def commanders_ok_def commanders_loop_id)

lemma voices_ok_set:
  "voices_ok vs \<Longrightarrow> trim n \<noteq> [] \<Longrightarrow> commanders_ok (gv_commanders v) \<Longrightarrow> voices_ok (al_set n v vs)"
  by (auto simp: voices_ok_def dest!: al_set_mem)

lemma voices_ok_del: "voices_ok vs \<Longrightarrow> voices_ok (al_del n vs)"
  by (auto simp: voices_ok_def al_del_mem)

lemma commanders_ok_Nil [simp]: "commanders_ok []"
  by (simp add: commanders_ok_def)

lemma voices_loop_ok: "voices_ok vs \<Longrightarrow> voices_ok (voices_loop kvs vs)"
  by (induction kvs vs rule: voices_loop.induct) (simp_all add: voices_ok_set normalizeCommanders_ok)

lemma voices_ok_Nil [simp]: "voices_ok []"
  by (simp add: voices_ok_def)

lemma trim_alter [simp]: "trim VOICE_ALTER = VOICE_ALTER"
  by (simp add: trim_id_iff VOICE_ALTER_def is_ws_def)

lemma VOICE_ALTER_nonempty [simp]: "VOICE_ALTER \<noteq> []"
  by (simp add: VOICE_ALTER_def)

lemma entry_voices_ok: "voices_ok (entry_voices v)"
  by (simp add: entry_voices_def Let_def voices_loop_ok voices_ok_set del: al_set.simps)

lemma entry_duty_ok: "entry_duty v vs = d \<Longrightarrow> d \<noteq> [] \<Longrightarrow> al_get vs d \<noteq> None"
  by (auto simp: entry_duty_def Let_def split: if_split_asm)

lemma normalizeEntry_ok:
  assumes "normalizeEntry v = Some e"
  shows "entry_ok e \<and> e \<noteq> no_group_settings"
proof -
  have e: "e = \<lparr>gs_voices = entry_voices v, gs_duty = nonempty_opt (entry_duty v (entry_voices v)),
      gs_muted = is_true (jprop v ''muted'')\<rparr>" and ne: "entry_voices v \<noteq> [] \<or> is_true (jprop v ''muted'')"
    using assms by (auto simp: normalizeEntry_def Let_def split: if_split_asm)
  have "duty_ok (gs_voices e, gs_duty e)"
    unfolding duty_ok_def using entry_duty_ok [OF refl, of v "entry_voices v"] by (auto simp: e)
  then show ?thesis
    using entry_voices_ok ne by (auto simp: e entry_ok_def no_group_settings_def)
qed

lemma groups_ok_set: "groups_ok m \<Longrightarrow> entry_ok e \<Longrightarrow> e \<noteq> no_group_settings \<Longrightarrow> groups_ok (al_set g e m)"
  by (auto simp: groups_ok_def dest!: al_set_mem)

lemma groups_ok_del: "groups_ok m \<Longrightarrow> groups_ok (al_del g m)"
  by (auto simp: groups_ok_def al_del_mem)

lemma groups_loop_ok: "groups_ok m \<Longrightarrow> groups_ok (groups_loop kvs m)"
  by (induction kvs m rule: groups_loop.induct)
    (auto simp: groups_ok_set normalizeEntry_ok split: option.splits)

lemma normalizeGroups_ok: "groups_ok (normalizeGroups raw)"
  by (auto simp: normalizeGroups_def groups_ok_def [of "[]"] intro: groups_loop_ok)

section \<open>Patches keep the invariant\<close>

lemma switchVoice_ok:
  "voices_ok (fst vs) \<Longrightarrow> voices_ok (fst (switchVoice n on cs vs))"
proof (cases vs)
  case (Pair voices duty)
  assume ok: "voices_ok (fst vs)"
  have "commanders_ok (case al_get voices n of None \<Rightarrow> [] | Some v \<Rightarrow> gv_commanders v)"
    using ok Pair by (auto simp: voices_ok_def split: option.splits dest!: map_of_SomeD)
  then show ?thesis
    using ok Pair by (auto simp: Let_def voices_ok_set voices_ok_del normalizeCommanders_ok split: option.splits)
qed

lemma patch_steps_ok:
  "voices_ok (fst vs) \<Longrightarrow> voices_ok (fst (patch_alter p vs))"
  "voices_ok (fst vs) \<Longrightarrow> voices_ok (fst (patch_mode p vs))"
  "voices_ok (fst vs) \<Longrightarrow> voices_ok (fst (patch_voice p vs))"
  "voices_ok (fst vs) \<Longrightarrow> voices_ok (fst (patch_duty p vs))"
  "voices_ok (fst vs) \<Longrightarrow> voices_ok (fst (check_duty vs))"
  by (auto simp: patch_alter_def patch_mode_def patch_voice_def patch_duty_def check_duty_def switchVoice_ok
      split: option.splits GroupAlterMode.splits duty_patch.splits)

lemma check_duty_ok: "duty_ok (check_duty vs)"
  by (auto simp: check_duty_def duty_ok_def split: option.splits)

lemma patched_entry_ok: "entry_ok e \<Longrightarrow> entry_ok (patched_entry p e)"
  using check_duty_ok by (simp add: entry_ok_def patched_entry_def Let_def patch_steps_ok)

lemma no_group_settings_ok [simp]: "entry_ok no_group_settings"
  by (simp add: entry_ok_def no_group_settings_def duty_ok_def)

lemma gss_get_ok: "groups_ok (gss_data s) \<Longrightarrow> entry_ok (gss_get s gid)"
  by (auto simp: gss_get_def groups_ok_def split: option.splits dest!: map_of_SomeD)

lemma gss_write_data [simp]: "gss_data (gss_write s) = gss_data s"
  by (simp add: gss_write_def)

lemma gss_set_ok: "groups_ok (gss_data s) \<Longrightarrow> groups_ok (gss_data (snd (gss_set gid p s)))"
  by (simp add: gss_set_def Let_def groups_ok_set groups_ok_del patched_entry_ok gss_get_ok)

lemma gss_remove_ok: "groups_ok (gss_data s) \<Longrightarrow> groups_ok (gss_data (gss_remove gid s))"
  by (simp add: gss_remove_def groups_ok_del)

lemma gss_get_set:
  "gss_get (snd (gss_set gid p s)) j = (if j = gid then patched_entry p (gss_get s gid) else gss_get s j)"
  by (simp add: gss_set_def Let_def gss_get_def)

section \<open>The file round trip\<close>

lemma voices_loop_json:
  "al_wf (acc @ vs) \<Longrightarrow> \<forall>(n, v) \<in> set vs. trim n \<noteq> [] \<and> commanders_ok (gv_commanders v) \<Longrightarrow>
   voices_loop (map (\<lambda>(k, v). (k, voice_json v)) vs) acc = acc @ vs"
proof (induction vs arbitrary: acc)
  case (Cons e vs)
  obtain n v where e: "e = (n, v)" by fastforce
  have abs: "al_get acc n = None" using Cons.prems e by (auto simp: al_wf_def al_get_eq_None)
  have cmd: "normalizeCommanders (jprop (Some (voice_json v)) ''commanders'') = gv_commanders v"
    using Cons.prems e by (auto simp: voice_json_def normalizeCommanders_id) (simp add: normalizeCommanders_def)
  have on: "jprop (Some (voice_json v)) ''on'' = Some (JBool True)" "is_object (Some (voice_json v))"
    "voice_json v \<noteq> JBool True"
    by (simp_all add: voice_json_def)
  have rv: "\<lparr>gv_commanders = gv_commanders v\<rparr> = v" by (cases v) simp
  show ?case
    using Cons.IH [of "acc @ [(n, v)]"] Cons.prems e abs cmd on by (simp add: al_set_absent rv)
qed simp

lemma entry_roundtrip:
  assumes "entry_ok e" "e \<noteq> no_group_settings"
  shows "normalizeEntry (Some (entry_json e)) = Some e"
proof -
  have p: "jprop (Some (entry_json e)) ''voices'' = (if gs_voices e = [] then None
        else Some (JObj (map (\<lambda>(k, v). (k, voice_json v)) (gs_voices e))))"
    "jprop (Some (entry_json e)) ''duty'' = map_option JStr (gs_duty e)"
    "jprop (Some (entry_json e)) ''muted'' = (if gs_muted e then Some (JBool True) else None)"
    "jprop (Some (entry_json e)) ''alter'' = None" "jprop (Some (entry_json e)) ''mode'' = None"
    "is_object (Some (entry_json e))"
    by (simp_all add: entry_json_def del: map_of_append)
  have v: "voices_loop (map (\<lambda>(k, v). (k, voice_json v)) (gs_voices e)) [] = gs_voices e"
    using assms(1) by (subst voices_loop_json) (auto simp: entry_ok_def voices_ok_def)
  have duty: "gs_duty e = None \<or> (\<exists>d. gs_duty e = Some d \<and> d \<noteq> [] \<and> al_get (gs_voices e) d \<noteq> None)"
    using assms(1) by (cases "gs_duty e") (auto simp: entry_ok_def duty_ok_def voices_ok_def dest!: map_of_SomeD)
  have ne: "gs_voices e \<noteq> [] \<or> gs_muted e"
    using assms(2) duty by (cases e) (auto simp: no_group_settings_def)
  have ev: "entry_voices (Some (entry_json e)) = gs_voices e"
    using p v by (simp add: entry_voices_def)
  have "nonempty_opt (entry_duty (Some (entry_json e)) (gs_voices e)) = gs_duty e"
    using p duty by (auto simp: entry_duty_def)
  then show ?thesis using p ev ne by (cases e) (auto simp: normalizeEntry_def)
qed

lemma groups_loop_json:
  "al_wf (acc @ m) \<Longrightarrow> \<forall>(g, e) \<in> set m. entry_ok e \<and> e \<noteq> no_group_settings \<Longrightarrow>
   groups_loop (map (\<lambda>(k, e). (k, entry_json e)) m) acc = acc @ m"
proof (induction m arbitrary: acc)
  case (Cons x m)
  obtain g e where x: "x = (g, e)" by fastforce
  have "al_get acc g = None" using Cons.prems x by (auto simp: al_wf_def al_get_eq_None)
  then show ?case
    using Cons.IH [of "acc @ [(g, e)]"] Cons.prems x by (simp add: al_set_absent entry_roundtrip)
qed simp

interpretation group_codec: json_codec groups_json normalizeGroups groups_ok
proof (unfold_locales, goal_cases)
  case (1 m)
  then show ?case
    using groups_loop_json [of "[]" m] by (simp add: normalizeGroups_def groups_json_def groups_ok_def)
next
  case (2 f)
  show ?case by (rule normalizeGroups_ok)
qed

section \<open>Properties\<close>

inductive gss_reach :: "GroupSettingsStore \<Rightarrow> bool" where
  boot: "gss_reach (gss_load (new_GroupSettingsStore f))"
| set: "gss_reach s \<Longrightarrow> gss_reach (snd (gss_set gid p s))"
| remove: "gss_reach s \<Longrightarrow> gss_reach (gss_remove gid s)"
| restart: "gss_reach s \<Longrightarrow> gss_reach (gss_load (new_GroupSettingsStore (gss_file s)))"

definition gss_inv :: "GroupSettingsStore \<Rightarrow> bool" where
  "gss_inv s = (groups_ok (gss_data s) \<and> normalizeGroups (gss_file s) = gss_data s)"

lemma gss_inv_write: "groups_ok (gss_data s) \<Longrightarrow> gss_inv (gss_write s)"
  using group_codec.load_encode by (simp add: gss_inv_def gss_write_def)

lemma gss_reach_inv: "gss_reach s \<Longrightarrow> gss_inv s"
proof (induction rule: gss_reach.induct)
  case (set s gid p)
  then show ?case
    using gss_set_ok [of s gid p] by (auto simp: gss_inv_def [of s] gss_set_def Let_def intro!: gss_inv_write)
next
  case (remove s gid)
  then show ?case
    by (auto simp: gss_remove_def gss_inv_def [of s] intro!: gss_inv_write groups_ok_del)
qed (simp_all add: gss_inv_def gss_load_def new_GroupSettingsStore_def normalizeGroups_ok)

text \<open>
  The group settings stay well formed and durable: in every state reachable from any file
  (of any older shape) by patches, removals and restarts, the duty voice of a group is one of its
  voices, no voice has a blank name, every commander list is duplicate-free, trimmed, without
  blanks and at most 64 long, no empty entry is stored, and reloading the file gives exactly the
  data in memory.
\<close>

theorem group_settings_invariant:
  assumes "gss_reach s"
  shows "groups_ok (gss_data s) \<and>
    gss_data (gss_load (new_GroupSettingsStore (gss_file s))) = gss_data s \<and>
    (\<forall>d. dutyOf s gid = Some d \<longrightarrow> voiceOn s gid d) \<and>
    length (commandersOf s gid name) \<le> 64 \<and> distinct (commandersOf s gid name)"
proof -
  have inv: "gss_inv s" by (rule gss_reach_inv [OF assms])
  then have ok: "entry_ok (gss_get s gid)" by (simp add: gss_inv_def gss_get_ok)
  then have "commanders_ok (commandersOf s gid name)"
    by (auto simp: commandersOf_def entry_ok_def voices_ok_def split: option.splits dest!: map_of_SomeD)
  then show ?thesis
    using inv ok
    by (simp add: gss_inv_def gss_load_def new_GroupSettingsStore_def commanders_ok_def entry_ok_def duty_ok_def
        dutyOf_def voiceOn_def)
qed

definition v1_file :: json where
  "v1_file = JObj [(''g1'', JObj [(''alter'', JBool True), (''mode'', JStr ''always'')])]"

theorem group_settings_invariant_witness:
  "let s = gss_load (new_GroupSettingsStore (Some v1_file))
   in dutyOf s ''g1'' = Some ''alter'' \<and> voiceOn s ''g1'' ''alter'' \<and>
      gss_data (gss_load (new_GroupSettingsStore (gss_file s))) = gss_data s"
proof -
  let ?s = "gss_load (new_GroupSettingsStore (Some v1_file))"
  have d: "dutyOf ?s ''g1'' = Some ''alter''"
    by (simp add: dutyOf_def gss_get_def gss_load_def new_GroupSettingsStore_def normalizeGroups_def v1_file_def
        normalizeEntry_def entry_voices_def entry_duty_def VOICE_ALTER_def)
  show ?thesis
    using group_settings_invariant [OF gss_reach.boot [of "Some v1_file"], of "''g1''" "''alter''"] d
    by (simp add: Let_def)
qed

lemma voiceOn_set:
  "voiceOn (snd (gss_set gid p s)) gid n \<longleftrightarrow> al_get (gs_voices (patched_entry p (gss_get s gid))) n \<noteq> None"
  "dutyOf (snd (gss_set gid p s)) gid = gs_duty (patched_entry p (gss_get s gid))"
  "commandersOf (snd (gss_set gid p s)) gid n =
     (case al_get (gs_voices (patched_entry p (gss_get s gid))) n of None \<Rightarrow> [] | Some v \<Rightarrow> gv_commanders v)"
  by (simp_all add: voiceOn_def dutyOf_def commandersOf_def gss_get_set)

lemmas patch_defs = patched_entry_def patch_alter_def patch_mode_def patch_voice_def patch_duty_def
  check_duty_def no_patch_def Let_def

text \<open>
  Patches do what their keys say. Setting a duty voice switches it on, keeps its commanders and
  gives it the slot; switching a voice off removes it, vacates the slot it held and leaves every
  other voice; the legacy keys agree with the new shape: \<open>alter\<close> sets \<open>alterOn\<close>,
  \<open>mode: always\<close> puts the alter on duty (switching it on) and \<open>mode: mention\<close> takes it off
  without switching it off. Other groups are never touched.
\<close>

theorem group_patch_effects:
  assumes "entry_ok (gss_get s gid)" "trim d \<noteq> []" "trim n \<noteq> []"
  shows "voiceOn (snd (gss_set gid (no_patch\<lparr>gp_duty := DutySet d\<rparr>) s)) gid d \<and>
    dutyOf (snd (gss_set gid (no_patch\<lparr>gp_duty := DutySet d\<rparr>) s)) gid = Some d \<and>
    commandersOf (snd (gss_set gid (no_patch\<lparr>gp_duty := DutySet d\<rparr>) s)) gid d = commandersOf s gid d \<and>
    (let off = snd (gss_set gid (no_patch\<lparr>gp_voice := Some \<lparr>vp_name = n, vp_on = False, vp_commanders = cs\<rparr>\<rparr>) s)
     in \<not> voiceOn off gid n \<and> dutyOf off gid \<noteq> Some n \<and>
        (m \<noteq> n \<longrightarrow> voiceOn off gid m = voiceOn s gid m \<and> commandersOf off gid m = commandersOf s gid m)) \<and>
    alterOn (snd (gss_set gid (no_patch\<lparr>gp_alter := Some on\<rparr>) s)) gid = on \<and>
    modeOf (snd (gss_set gid (no_patch\<lparr>gp_mode := Some md\<rparr>) s)) gid = md \<and>
    alterOn (snd (gss_set gid (no_patch\<lparr>gp_mode := Some md\<rparr>) s)) gid = (md = MAlways \<or> alterOn s gid) \<and>
    (j \<noteq> gid \<longrightarrow> gss_get (snd (gss_set gid p s)) j = gss_get s j)"
proof (intro conjI)
  have duty: "\<And>d. gs_duty (gss_get s gid) = Some d \<Longrightarrow> al_get (gs_voices (gss_get s gid)) d \<noteq> None"
    using assms(1) by (auto simp: entry_ok_def duty_ok_def)
  show "voiceOn (snd (gss_set gid (no_patch\<lparr>gp_duty := DutySet d\<rparr>) s)) gid d"
    "dutyOf (snd (gss_set gid (no_patch\<lparr>gp_duty := DutySet d\<rparr>) s)) gid = Some d"
    using assms(2) by (simp_all add: voiceOn_set patch_defs)
  show "commandersOf (snd (gss_set gid (no_patch\<lparr>gp_duty := DutySet d\<rparr>) s)) gid d = commandersOf s gid d"
    unfolding voiceOn_set using assms(2)
    by (auto simp: patch_defs commandersOf_def split: option.splits)
  show "let off = snd (gss_set gid (no_patch\<lparr>gp_voice := Some \<lparr>vp_name = n, vp_on = False, vp_commanders = cs\<rparr>\<rparr>) s)
     in \<not> voiceOn off gid n \<and> dutyOf off gid \<noteq> Some n \<and>
        (m \<noteq> n \<longrightarrow> voiceOn off gid m = voiceOn s gid m \<and> commandersOf off gid m = commandersOf s gid m)"
    unfolding Let_def voiceOn_set using assms(3)
    by (simp add: patch_defs voiceOn_def commandersOf_def split: option.splits)
  show "alterOn (snd (gss_set gid (no_patch\<lparr>gp_alter := Some on\<rparr>) s)) gid = on"
    by (auto simp: alterOn_def voiceOn_set patch_defs split: option.splits)
  show "modeOf (snd (gss_set gid (no_patch\<lparr>gp_mode := Some md\<rparr>) s)) gid = md"
    by (cases md) (auto simp: modeOf_def voiceOn_set patch_defs split: option.splits)
  show "alterOn (snd (gss_set gid (no_patch\<lparr>gp_mode := Some md\<rparr>) s)) gid = (md = MAlways \<or> alterOn s gid)"
    unfolding alterOn_def voiceOn_set
    by (cases md) (auto simp: patch_defs voiceOn_def split: option.splits)
  show "j \<noteq> gid \<longrightarrow> gss_get (snd (gss_set gid p s)) j = gss_get s j"
    by (simp add: gss_get_set)
qed

theorem group_patch_effects_witness:
  "let s = gss_load (new_GroupSettingsStore (Some v1_file));
       off = snd (gss_set ''g1'' (no_patch\<lparr>gp_voice := Some \<lparr>vp_name = ''alter'', vp_on = False, vp_commanders = None\<rparr>\<rparr>) s)
   in \<not> voiceOn off ''g1'' ''alter'' \<and> dutyOf off ''g1'' \<noteq> Some ''alter'' \<and>
      voiceOn (snd (gss_set ''g1'' (no_patch\<lparr>gp_duty := DutySet ''bot''\<rparr>) s)) ''g1'' ''bot''"
proof -
  let ?s = "gss_load (new_GroupSettingsStore (Some v1_file))"
  have "groups_ok (gss_data ?s)" by (simp add: gss_load_def normalizeGroups_ok)
  then have h: "entry_ok (gss_get ?s ''g1'')" by (rule gss_get_ok)
  have t: "trim ''bot'' \<noteq> []" "trim ''alter'' \<noteq> []"
    by (simp_all add: trim_eq_Nil_iff is_ws_def)
  show ?thesis using group_patch_effects [OF h t, where cs = None] by (simp add: Let_def)
qed

end
