(* ===== verification/Agent_Registry.thy ===== *)
theory Agent_Registry
  imports Policy
begin

text \<open>
  The registry of named seat agents, \<^verbatim>\<open>src/dsh/packages/dsh/src/agent-registry.ts\<close>:
  validation of names, normalisation of records, and the write-through store
  (\<open>dsh-agents.json\<close>). Lemmas: names are valid and unique up to case in every reachable
  state, the store implements a map keyed by lower-case names, valid names are mention
  tokens, and what a reload keeps.
\<close>

section \<open>Records\<close>

record SeatAgent =
  sa_name :: string
  sa_preset :: "string option"
  sa_cwd :: "string option"
  sa_prompt :: "string option"
  sa_approval :: bool

definition RESERVED :: "string list" where
  "RESERVED = [''all'', ''alter'', ''owner'', ''everyone'']"

definition middle_dot :: char where
  "middle_dot = CHR 0xB7"

definition is_control :: "char \<Rightarrow> bool" where
  "is_control c = (let n = (of_char c :: nat) in n \<le> 31 \<or> n = 127)"

datatype name_error =
  NameEmpty | NamePadded | NameTooLong | NameReserved string | NameSeparator | NameControl

definition agentNameError :: "string \<Rightarrow> name_error option" where
  "agentNameError name =
     (let n = trim name in
      if n = [] then Some NameEmpty
      else if n \<noteq> name then Some NamePadded
      else if length n > 32 then Some NameTooLong
      else if toLowerCase n \<in> set RESERVED then Some (NameReserved n)
      else if list_ex (\<lambda>c. is_ws c \<or> c = CHR ''@'' \<or> c = middle_dot) n then Some NameSeparator
      else if list_ex is_control n then Some NameControl
      else None)"

definition normalizeAgent :: "unknown \<Rightarrow> SeatAgent option" where
  "normalizeAgent v =
     (if \<not> is_object v then None
      else (let name = trim (as_str (jprop v ''name'')) in
        if name = [] \<or> agentNameError name \<noteq> None then None
        else (let prompt = trim (as_str (jprop v ''prompt'')) in
          Some \<lparr>sa_name = name,
            sa_preset = nonempty_opt (as_str (jprop v ''preset'')),
            sa_cwd = nonempty_opt (as_str (jprop v ''cwd'')),
            sa_prompt = (if prompt = [] then None else Some (slice_upto prompt 8000)),
            sa_approval = is_true (jprop v ''approval'')\<rparr>)))"

fun agents_loop :: "json list \<Rightarrow> string list \<Rightarrow> SeatAgent list \<Rightarrow> SeatAgent list" where
  "agents_loop [] seen out = out"
| "agents_loop (item # items) seen out =
     (case normalizeAgent (Some item) of
        None \<Rightarrow> agents_loop items seen out
      | Some a \<Rightarrow>
          (if toLowerCase (sa_name a) \<in> set seen then agents_loop items seen out
           else agents_loop items (toLowerCase (sa_name a) # seen) (out @ [a])))"

definition normalizeAgents :: "unknown \<Rightarrow> SeatAgent list" where
  "normalizeAgents raw = agents_loop (arr_items (jprop raw ''agents'')) [] []"

definition agent_json :: "SeatAgent \<Rightarrow> json" where
  "agent_json a = JObj
     ([(''name'', JStr (sa_name a))] @
      opt_field ''preset'' (map_option JStr (sa_preset a)) @
      opt_field ''cwd'' (map_option JStr (sa_cwd a)) @
      opt_field ''prompt'' (map_option JStr (sa_prompt a)) @
      opt_field ''approval'' (if sa_approval a then Some (JBool True) else None))"

section \<open>The store\<close>

record AgentRegistryStore =
  ar_agents :: "SeatAgent list"
  ar_loaded :: bool
  ar_file :: unknown

definition new_AgentRegistryStore :: "unknown \<Rightarrow> AgentRegistryStore" where
  "new_AgentRegistryStore file = \<lparr>ar_agents = [], ar_loaded = False, ar_file = file\<rparr>"

definition ar_load :: "AgentRegistryStore \<Rightarrow> AgentRegistryStore" where
  "ar_load s = s\<lparr>ar_agents := normalizeAgents (ar_file s), ar_loaded := True\<rparr>"

definition ar_list :: "AgentRegistryStore \<Rightarrow> SeatAgent list" where
  "ar_list s = ar_agents s"

definition ar_get :: "AgentRegistryStore \<Rightarrow> string \<Rightarrow> SeatAgent option" where
  "ar_get s name = (let key = toLowerCase (trim name)
     in List.find (\<lambda>a. toLowerCase (sa_name a) = key) (ar_agents s))"

definition agents_json :: "SeatAgent list \<Rightarrow> json" where
  "agents_json l = JObj [(''agents'', JArr (map agent_json l))]"

definition ar_persist :: "AgentRegistryStore \<Rightarrow> AgentRegistryStore" where
  "ar_persist s = s\<lparr>ar_file := Some (agents_json (ar_agents s))\<rparr>"

datatype agent_set_error = BadName name_error | InvalidRecord

fun put_agent :: "SeatAgent \<Rightarrow> SeatAgent list \<Rightarrow> SeatAgent list" where
  "put_agent r [] = [r]"
| "put_agent r (a # l) =
     (if toLowerCase (sa_name a) = toLowerCase (sa_name r) then r # l else a # put_agent r l)"

definition ar_set :: "SeatAgent \<Rightarrow> AgentRegistryStore \<Rightarrow> (agent_set_error + SeatAgent) \<times> AgentRegistryStore" where
  "ar_set input s =
     (case agentNameError (sa_name input) of
        Some e \<Rightarrow> (Inl (BadName e), s)
      | None \<Rightarrow>
          (case normalizeAgent (Some (agent_json input)) of
             None \<Rightarrow> (Inl InvalidRecord, s)
           | Some r \<Rightarrow> (Inr r, ar_persist (s\<lparr>ar_agents := put_agent r (ar_agents s)\<rparr>))))"

definition ar_remove :: "string \<Rightarrow> AgentRegistryStore \<Rightarrow> bool \<times> AgentRegistryStore" where
  "ar_remove name s =
     (let key = toLowerCase (trim name); before = length (ar_agents s);
          s' = s\<lparr>ar_agents := filter (\<lambda>a. toLowerCase (sa_name a) \<noteq> key) (ar_agents s)\<rparr>
      in if length (ar_agents s') = before then (False, s') else (True, ar_persist s'))"

section \<open>Lemmas\<close>

definition agent_key :: "SeatAgent \<Rightarrow> string" where
  "agent_key a = toLowerCase (sa_name a)"

definition agents_wf :: "SeatAgent list \<Rightarrow> bool" where
  "agents_wf l = (distinct (map agent_key l) \<and>
     list_all (\<lambda>a. agentNameError (sa_name a) = None \<and> sa_preset a \<noteq> Some [] \<and> sa_cwd a \<noteq> Some [] \<and>
        (case sa_prompt a of None \<Rightarrow> True | Some p \<Rightarrow> p \<noteq> [] \<and> length p \<le> 8000 \<and> \<not> is_ws (hd p))) l)"

text \<open>The registry read as a map from lower-case names.\<close>

definition agents_map :: "SeatAgent list \<Rightarrow> string \<Rightarrow> SeatAgent option" where
  "agents_map l = map_of (map (\<lambda>a. (agent_key a, a)) l)"

lemma agentNameError_None:
  "agentNameError name = None \<longleftrightarrow>
     name \<noteq> [] \<and> length name \<le> 32 \<and> toLowerCase name \<notin> set RESERVED \<and>
     (\<forall>c \<in> set name. \<not> is_ws c \<and> c \<noteq> CHR ''@'' \<and> c \<noteq> middle_dot \<and> \<not> is_control c)"
proof -
  have "trim name = name" if "\<forall>c \<in> set name. \<not> is_ws c"
    using that by (cases "name = []") (auto simp: trim_id_iff)
  then show ?thesis by (auto simp: agentNameError_def Let_def list_ex_iff)
qed

lemma agentNameError_trim: "agentNameError name = None \<Longrightarrow> trim name = name"
  by (auto simp: agentNameError_def Let_def split: if_splits)

lemma ar_get_map: "ar_get s name = agents_map (ar_agents s) (toLowerCase (trim name))"
proof -
  have "List.find (\<lambda>a. toLowerCase (sa_name a) = k) l = agents_map l k" for k l
    by (induction l) (auto simp: agents_map_def agent_key_def)
  then show ?thesis by (simp add: ar_get_def Let_def)
qed

lemma agents_map_put: "agents_map (put_agent r l) = (agents_map l)(agent_key r \<mapsto> r)"
  by (induction l) (auto simp: agents_map_def agent_key_def fun_eq_iff)

lemma keys_put_agent:
  "map agent_key (put_agent r l) =
     (if agent_key r \<in> agent_key ` set l then map agent_key l else map agent_key l @ [agent_key r])"
  by (induction l) (auto simp: agent_key_def)

lemma set_put_agent: "set (put_agent r l) \<subseteq> insert r (set l)"
  by (induction l) auto

lemma agents_map_filter:
  "agents_map (filter (\<lambda>a. toLowerCase (sa_name a) \<noteq> k) l) = (agents_map l)(k := None)"
  by (induction l) (auto simp: agents_map_def agent_key_def fun_eq_iff)

text \<open>\<open>put_agent\<close> is the code's \<open>findIndex\<close> followed by an update in place or a push.\<close>

lemma put_agent_absent: "agent_key r \<notin> agent_key ` set l \<Longrightarrow> put_agent r l = l @ [r]"
  by (induction l) (auto simp: agent_key_def)

definition clean_prompt :: "SeatAgent \<Rightarrow> SeatAgent" where
  "clean_prompt a = a\<lparr>sa_prompt := map_option trimEnd (sa_prompt a)\<rparr>"

lemma agent_json_props:
  "jprop (Some (agent_json a)) ''name'' = Some (JStr (sa_name a))"
  "jprop (Some (agent_json a)) ''preset'' = map_option JStr (sa_preset a)"
  "jprop (Some (agent_json a)) ''cwd'' = map_option JStr (sa_cwd a)"
  "jprop (Some (agent_json a)) ''prompt'' = map_option JStr (sa_prompt a)"
  "jprop (Some (agent_json a)) ''approval'' = (if sa_approval a then Some (JBool True) else None)"
  "is_object (Some (agent_json a))"
  by (simp_all add: agent_json_def del: map_of_append)

text \<open>What \<open>set\<close> stores for a valid name: blanks become absent, the brief is trimmed and cut.\<close>

definition stored_agent :: "SeatAgent \<Rightarrow> SeatAgent" where
  "stored_agent a =
     (let prompt = trim (case sa_prompt a of None \<Rightarrow> [] | Some p \<Rightarrow> p)
      in a\<lparr>sa_preset := (if sa_preset a = Some [] then None else sa_preset a),
           sa_cwd := (if sa_cwd a = Some [] then None else sa_cwd a),
           sa_prompt := (if prompt = [] then None else Some (take 8000 prompt))\<rparr>)"

lemma nonempty_case: "nonempty_opt (case x of None \<Rightarrow> [] | Some s \<Rightarrow> s) = (if x = Some [] then None else x)"
  by (cases x) auto

lemma as_str_map_option: "as_str (map_option JStr x) = (case x of None \<Rightarrow> [] | Some s \<Rightarrow> s)"
  by (cases x) auto

lemma is_true_if [simp]: "is_true (if b then Some (JBool True) else None) = b"
  by simp

lemma normalizeAgent_json:
  assumes "agentNameError (sa_name a) = None"
  shows "normalizeAgent (Some (agent_json a)) = Some (stored_agent a)"
  using assms agentNameError_trim [OF assms] agentNameError_None [of "sa_name a"]
  unfolding normalizeAgent_def agent_json_props stored_agent_def Let_def
  by (cases a) (simp add: agent_json_props nonempty_case as_str_map_option slice_upto_def)

lemma ar_set_ok: "agentNameError (sa_name a) = None \<Longrightarrow>
    ar_set a s = (Inr (stored_agent a), ar_persist (s\<lparr>ar_agents := put_agent (stored_agent a) (ar_agents s)\<rparr>))"
  by (simp add: ar_set_def normalizeAgent_json)

lemma stored_agent_name [simp]: "sa_name (stored_agent a) = sa_name a"
  by (simp add: stored_agent_def Let_def)

lemma agents_wf_put:
  assumes "agents_wf l" "agentNameError (sa_name a) = None"
  shows "agents_wf (put_agent (stored_agent a) l)"
proof -
  let ?ok = "\<lambda>a. agentNameError (sa_name a) = None \<and> sa_preset a \<noteq> Some [] \<and> sa_cwd a \<noteq> Some [] \<and>
        (case sa_prompt a of None \<Rightarrow> True | Some p \<Rightarrow> p \<noteq> [] \<and> length p \<le> 8000 \<and> \<not> is_ws (hd p))"
  have "\<not> is_ws (hd (take 8000 (trim p)))" if "trim p \<noteq> []" for p
    using that trim_hd [of p] by (cases "trim p") auto
  then have "?ok (stored_agent a)" using assms(2) by (simp add: stored_agent_def Let_def)
  moreover have "\<forall>b \<in> set l. ?ok b" using assms(1) unfolding agents_wf_def list_all_iff by blast
  ultimately have "\<forall>b \<in> set (put_agent (stored_agent a) l). ?ok b"
    using set_put_agent [of "stored_agent a" l] by blast
  moreover have "distinct (map agent_key (put_agent (stored_agent a) l))"
    using assms(1) by (simp add: keys_put_agent agents_wf_def)
  ultimately show ?thesis unfolding agents_wf_def list_all_iff by blast
qed

lemma normalizeAgent_wf:
  assumes "normalizeAgent v = Some a"
  shows "agents_wf [a]"
proof -
  let ?p = "trim (as_str (jprop v ''prompt''))"
  have "\<not> is_ws (hd (take 8000 ?p))" if "?p \<noteq> []"
    using that trim_hd [of "as_str (jprop v ''prompt'')"] by (cases ?p) auto
  then show ?thesis
    using assms by (auto simp: normalizeAgent_def agents_wf_def Let_def slice_upto_def nonempty_opt_def split: if_splits)
qed

lemma agents_wf_snoc:
  "agents_wf (l @ [a]) \<longleftrightarrow> agents_wf l \<and> agents_wf [a] \<and> agent_key a \<notin> agent_key ` set l"
  by (auto simp: agents_wf_def)

lemma agents_loop_wf:
  "agents_wf out \<Longrightarrow> agent_key ` set out \<subseteq> set seen \<Longrightarrow> agents_wf (agents_loop items seen out)"
proof (induction items seen out rule: agents_loop.induct)
  case (2 item items seen out)
  show ?case
  proof (cases "normalizeAgent (Some item)")
    case None
    then show ?thesis using 2 by simp
  next
    case (Some a)
    show ?thesis
    proof (cases "toLowerCase (sa_name a) \<in> set seen")
      case False
      then have "agents_wf (out @ [a])"
        using "2.prems" normalizeAgent_wf [OF Some] by (auto simp: agents_wf_snoc agent_key_def)
      then show ?thesis using "2.IH"(3) [OF Some False] "2.prems" Some False by (auto simp: agent_key_def)
    qed (use 2 Some in auto)
  qed
qed simp

lemma normalizeAgents_wf: "agents_wf (normalizeAgents raw)"
  unfolding normalizeAgents_def by (rule agents_loop_wf) (simp_all add: agents_wf_def)

lemma stored_agent_wf:
  assumes "agents_wf [a]"
  shows "stored_agent a = clean_prompt a"
proof -
  have t: "trim p = trimEnd p \<and> trimEnd p \<noteq> [] \<and> length (trimEnd p) \<le> 8000"
    if "p \<noteq> []" "\<not> is_ws (hd p)" "length p \<le> 8000" for p
  proof -
    have "prefix (trimEnd p) p" by (rule trimEnd_prefix)
    moreover have "trim p \<noteq> []" using that by (auto simp: trim_eq_Nil_iff)
    ultimately show ?thesis using that prefix_length_le [of "trimEnd p" p]
      by (simp add: trim_def trimStart_id)
  qed
  show ?thesis
    using assms t by (cases "sa_prompt a") (auto simp: agents_wf_def stored_agent_def clean_prompt_def)
qed

lemma agents_loop_json:
  assumes "agents_wf (out @ l)" "set seen = agent_key ` set out"
  shows "agents_loop (map agent_json l) seen out = out @ map clean_prompt l"
  using assms
proof (induction l arbitrary: seen out)
  case (Cons a l)
  have one: "agents_wf [a]" and key: "agent_key a \<notin> agent_key ` set out"
    using Cons.prems(1) by (auto simp: agents_wf_def)
  have norm: "normalizeAgent (Some (agent_json a)) = Some (clean_prompt a)"
    using one normalizeAgent_json [of a] stored_agent_wf [OF one] by (simp add: agents_wf_def)
  have nm: "sa_name (clean_prompt a) = sa_name a" by (simp add: clean_prompt_def)
  have wf1: "agents_wf [clean_prompt a]" using normalizeAgent_wf [OF norm] .
  have "agents_wf ((out @ [clean_prompt a]) @ l)"
    using Cons.prems(1) wf1 nm by (simp add: agents_wf_def agent_key_def)
  then show ?case
    using Cons.IH [of "out @ [clean_prompt a]" "agent_key a # seen"] Cons.prems(2) norm nm key
    by (simp add: agent_key_def)
qed simp

lemma normalizeAgents_json: "agents_wf l \<Longrightarrow> normalizeAgents (Some (agents_json l)) = map clean_prompt l"
  using agents_loop_json [of "[]" l "[]"] by (simp add: normalizeAgents_def agents_json_def)

section \<open>Properties\<close>

inductive ar_reach :: "AgentRegistryStore \<Rightarrow> bool" where
  boot: "ar_reach (ar_load (new_AgentRegistryStore f))"
| set: "ar_reach s \<Longrightarrow> ar_reach (snd (ar_set a s))"
| remove: "ar_reach s \<Longrightarrow> ar_reach (snd (ar_remove name s))"
| restart: "ar_reach s \<Longrightarrow> ar_reach (ar_load (new_AgentRegistryStore (ar_file s)))"

lemma agents_wf_filter: "agents_wf l \<Longrightarrow> agents_wf (filter P l)"
  by (auto simp: agents_wf_def list_all_iff distinct_map inj_on_def)

lemma ar_set_wf: "agents_wf (ar_agents s) \<Longrightarrow> agents_wf (ar_agents (snd (ar_set a s)))"
  by (cases "agentNameError (sa_name a)")
    (auto simp: ar_set_ok ar_persist_def agents_wf_put, simp add: ar_set_def)

lemma ar_reach_wf: "ar_reach s \<Longrightarrow> agents_wf (ar_agents s)"
  by (induction rule: ar_reach.induct)
    (auto simp: ar_load_def normalizeAgents_wf ar_set_wf ar_remove_def ar_persist_def Let_def agents_wf_filter)

text \<open>
  Seat names stay valid and unambiguous: in every registry reachable from any file by
  creating, updating and removing agents and by restarts, every name passes the name check,
  no two agents share a name up to case, and looking an agent up by its own name (in any
  case, with white space around it) finds exactly that agent.
\<close>

theorem seat_names_unique:
  assumes "ar_reach s" "a \<in> set (ar_agents s)" "toLowerCase (trim n) = toLowerCase (sa_name a)"
  shows "agentNameError (sa_name a) = None \<and> ar_get s n = Some a \<and>
    (\<forall>b \<in> set (ar_agents s). toLowerCase (sa_name b) = toLowerCase (sa_name a) \<longrightarrow> b = a)"
proof -
  have wf: "agents_wf (ar_agents s)" by (rule ar_reach_wf [OF assms(1)])
  then have d: "distinct (map agent_key (ar_agents s))" by (simp add: agents_wf_def)
  then have "agents_map (ar_agents s) (agent_key a) = Some a"
    using assms(2) by (simp add: agents_map_def comp_def map_of_eq_Some_iff)
  then show ?thesis
    using wf d assms(2,3)
    by (auto simp: ar_get_map agent_key_def agents_wf_def list_all_iff distinct_map inj_on_def)
qed

definition devbot :: SeatAgent where
  "devbot = \<lparr>sa_name = ''DevBot'', sa_preset = None, sa_cwd = None, sa_prompt = None, sa_approval = True\<rparr>"

lemma devbot_valid: "agentNameError (sa_name devbot) = None"
  by (simp add: agentNameError_None devbot_def RESERVED_def toLowerCase_def lower_char_def is_ws_def
      middle_dot_def is_control_def)

theorem seat_names_unique_witness:
  "let s = snd (ar_set devbot (ar_load (new_AgentRegistryStore None)))
   in devbot \<in> set (ar_agents s) \<and> ar_get s '' devBOT '' = Some devbot"
proof -
  let ?s = "snd (ar_set devbot (ar_load (new_AgentRegistryStore None)))"
  have r: "ar_reach ?s" by (rule ar_reach.set [OF ar_reach.boot])
  have m: "devbot \<in> set (ar_agents ?s)"
    by (simp add: ar_set_ok devbot_valid ar_persist_def ar_load_def new_AgentRegistryStore_def
        normalizeAgents_def) (simp add: devbot_def stored_agent_def)
  have n: "toLowerCase (trim '' devBOT '') = toLowerCase (sa_name devbot)"
    by code_simp
  show ?thesis using seat_names_unique [OF r m n] m by (simp add: Let_def)
qed

text \<open>
  The registry is a map from names up to case. Setting an agent with a valid name stores the
  normalised record under that name and touches no other; an invalid name is refused with its
  reason and changes nothing; removing a name deletes exactly that entry and answers whether
  it existed.
\<close>

theorem registry_map_refinement:
  assumes "agents_wf (ar_agents s)"
  shows "(\<forall>e. agentNameError (sa_name a) = Some e \<longrightarrow> ar_set a s = (Inl (BadName e), s)) \<and>
    (agentNameError (sa_name a) = None \<longrightarrow>
       fst (ar_set a s) = Inr (stored_agent a) \<and>
       ar_get (snd (ar_set a s)) n =
         (if toLowerCase (trim n) = toLowerCase (sa_name a) then Some (stored_agent a) else ar_get s n)) \<and>
    fst (ar_remove m s) = (ar_get s m \<noteq> None) \<and>
    ar_get (snd (ar_remove m s)) n = (if toLowerCase (trim n) = toLowerCase (trim m) then None else ar_get s n)"
proof (intro conjI)
  show "\<forall>e. agentNameError (sa_name a) = Some e \<longrightarrow> ar_set a s = (Inl (BadName e), s)"
    by (simp add: ar_set_def)
  show "agentNameError (sa_name a) = None \<longrightarrow>
       fst (ar_set a s) = Inr (stored_agent a) \<and>
       ar_get (snd (ar_set a s)) n =
         (if toLowerCase (trim n) = toLowerCase (sa_name a) then Some (stored_agent a) else ar_get s n)"
    by (auto simp: ar_set_ok ar_get_map ar_persist_def agents_map_put agent_key_def)
  let ?l = "filter (\<lambda>a. toLowerCase (sa_name a) \<noteq> toLowerCase (trim m)) (ar_agents s)"
  have "length ?l = length (ar_agents s) \<longleftrightarrow> (\<forall>x \<in> set (ar_agents s). agent_key x \<noteq> toLowerCase (trim m))"
    by (simp add: filter_keeps_all agent_key_def)
  also have "\<dots> \<longleftrightarrow> ar_get s m = None"
    by (force simp: ar_get_map agents_map_def map_of_eq_None_iff image_image)
  finally show "fst (ar_remove m s) = (ar_get s m \<noteq> None)"
    by (simp add: ar_remove_def Let_def)
  show "ar_get (snd (ar_remove m s)) n = (if toLowerCase (trim n) = toLowerCase (trim m) then None else ar_get s n)"
    by (simp add: ar_remove_def Let_def ar_get_map ar_persist_def agents_map_filter)
qed

theorem registry_map_refinement_witness:
  "let s = ar_load (new_AgentRegistryStore None)
   in ar_get (snd (ar_set devbot s)) ''DevBot'' = Some (stored_agent devbot) \<and>
      fst (ar_remove ''nobody'' s) = (ar_get s ''nobody'' \<noteq> None) \<and>
      ar_set (devbot\<lparr>sa_name := []\<rparr>) s = (Inl (BadName NameEmpty), s)"
proof -
  have wf: "agents_wf (ar_agents (ar_load (new_AgentRegistryStore None)))"
    by (simp add: ar_load_def normalizeAgents_wf)
  have t: "toLowerCase (trim ''DevBot'') = toLowerCase (sa_name devbot)"
    by (simp add: devbot_def trim_def trimStart_def trimEnd_def is_ws_def)
  have e: "agentNameError (sa_name (devbot\<lparr>sa_name := []\<rparr>)) = Some NameEmpty"
    by (simp add: agentNameError_def)
  show ?thesis
    using registry_map_refinement [OF wf, of devbot "''DevBot''" "''nobody''"]
      registry_map_refinement [OF wf, of "devbot\<lparr>sa_name := []\<rparr>" "''DevBot''" "''nobody''"]
      devbot_valid t e by (simp add: Let_def)
qed

text \<open>
  A restart keeps the roster: after a write, reloading the file gives the same agents in the
  same order with the same preset, directory and approval switch; the owner's brief loses at
  most white space at its end (where the 8000-character cut left some), and without such
  white space the reload is exact.
\<close>

theorem registry_reload:
  assumes "agents_wf (ar_agents s)"
  shows "ar_agents (ar_load (new_AgentRegistryStore (ar_file (ar_persist s)))) = map clean_prompt (ar_agents s) \<and>
    ((\<forall>a \<in> set (ar_agents s). \<forall>p. sa_prompt a = Some p \<longrightarrow> trimEnd p = p) \<longrightarrow>
       ar_agents (ar_load (new_AgentRegistryStore (ar_file (ar_persist s)))) = ar_agents s)"
proof -
  have r: "ar_agents (ar_load (new_AgentRegistryStore (ar_file (ar_persist s)))) = map clean_prompt (ar_agents s)"
    using assms by (simp add: ar_load_def new_AgentRegistryStore_def ar_persist_def normalizeAgents_json)
  have "clean_prompt a = a" if "\<forall>p. sa_prompt a = Some p \<longrightarrow> trimEnd p = p" for a
    using that by (cases a; cases "sa_prompt a") (auto simp: clean_prompt_def)
  then have "(\<forall>a \<in> set (ar_agents s). \<forall>p. sa_prompt a = Some p \<longrightarrow> trimEnd p = p) \<longrightarrow>
      map clean_prompt (ar_agents s) = ar_agents s"
    by (metis map_idI)
  then show ?thesis using r by simp
qed

theorem registry_reload_witness:
  "let s = snd (ar_set devbot (ar_load (new_AgentRegistryStore None)))
   in ar_agents (ar_load (new_AgentRegistryStore (ar_file (ar_persist s)))) = [devbot]"
proof -
  let ?s = "snd (ar_set devbot (ar_load (new_AgentRegistryStore None)))"
  have wf: "agents_wf (ar_agents ?s)" by (rule ar_reach_wf [OF ar_reach.set [OF ar_reach.boot]])
  have a: "ar_agents ?s = [devbot]"
    by (simp add: ar_set_ok devbot_valid ar_persist_def ar_load_def new_AgentRegistryStore_def
        normalizeAgents_def) (simp add: devbot_def stored_agent_def)
  show ?thesis using registry_reload [OF wf] a by (simp add: Let_def devbot_def clean_prompt_def)
qed

end
