(* ===== verification/Group_Contract.thy ===== *)
theory Group_Contract
  imports Policy
begin

text \<open>
  The group contract of \<^verbatim>\<open>src/dsh/packages/dsh/src/group-contract.ts\<close>: the paid-join
  marker carried as a line of the group rules, and the normalised governance view of a group
  profile. Lemmas: the marker round trip, its invisibility in displayed rules, and the bounds and
  defaults of the view.
\<close>

section \<open>The paid-join marker\<close>

definition DEFAULT_GROUP_AUTO_PER_HOUR :: int where
  "DEFAULT_GROUP_AUTO_PER_HOUR = 10"

definition DEFAULT_GROUP_AGENT_ROUNDS :: int where
  "DEFAULT_GROUP_AGENT_ROUNDS = 3"

definition newline :: char where
  "newline = CHR 0x0A"

definition PAID_JOIN_PREFIX :: string where
  "PAID_JOIN_PREFIX = ''#paid-join ''"

record PaidJoinInfo =
  pj_price :: string
  pj_addr :: string

text \<open>One line: \<open>None\<close> when it is no (complete) marker.\<close>

definition parse_marker :: "string \<Rightarrow> PaidJoinInfo option" where
  "parse_marker line =
     (let t = trim line in
      if startsWith t PAID_JOIN_PREFIX then
        (case split_ws [] (trim (drop (length PAID_JOIN_PREFIX) t)) of
           price # addr # _ \<Rightarrow>
             (if startsWith addr ''0x'' \<and> price \<noteq> [] then Some \<lparr>pj_price = price, pj_addr = addr\<rparr> else None)
         | _ \<Rightarrow> None)
      else None)"

fun first_marker :: "string list \<Rightarrow> PaidJoinInfo option" where
  "first_marker [] = None"
| "first_marker (l # ls) = (case parse_marker l of None \<Rightarrow> first_marker ls | Some i \<Rightarrow> Some i)"

definition paidJoinFromRules :: "string option \<Rightarrow> PaidJoinInfo option" where
  "paidJoinFromRules rules =
     (case rules of None \<Rightarrow> None
      | Some r \<Rightarrow> (if r = [] then None else first_marker (split_on newline r)))"

record paid_profile =
  pp_joinPrice :: "string option"
  pp_joinAddr :: "string option"
  pp_rules :: "string option"
  pp_join :: "string option"

definition paidJoinConfig :: "paid_profile option \<Rightarrow> PaidJoinInfo option" where
  "paidJoinConfig profile =
     (case profile of None \<Rightarrow> None
      | Some p \<Rightarrow>
          (case (pp_joinPrice p, pp_joinAddr p) of
             (Some price, Some addr) \<Rightarrow>
               (if pp_join p = Some ''paid'' \<and> startsWith addr ''0x''
                then Some \<lparr>pj_price = price, pj_addr = addr\<rparr> else paidJoinFromRules (pp_rules p))
           | _ \<Rightarrow> paidJoinFromRules (pp_rules p)))"

definition is_marker_line :: "string \<Rightarrow> bool" where
  "is_marker_line l = startsWith (trim l) PAID_JOIN_PREFIX"

definition rulesWithoutPaidJoin :: "string option \<Rightarrow> string" where
  "rulesWithoutPaidJoin rules =
     (case rules of None \<Rightarrow> []
      | Some r \<Rightarrow> (if r = [] then []
                  else trim (join_with [newline] (filter (\<lambda>l. \<not> is_marker_line l) (split_on newline r)))))"

definition rulesWithPaidJoin :: "string option \<Rightarrow> string \<Rightarrow> string \<Rightarrow> string" where
  "rulesWithPaidJoin rules price addr =
     (let base = rulesWithoutPaidJoin rules; marker = PAID_JOIN_PREFIX @ price @ '' '' @ addr
      in if base = [] then marker else marker @ [newline] @ base)"

section \<open>The profile view\<close>

datatype speak_who = SpeakAll | SpeakOwner | SpeakAdmins

datatype join_policy = JoinInvite | JoinApply | JoinOpen | JoinPaid

record GroupProfileView =
  gpv_speakHumans :: bool
  gpv_speakAgents :: bool
  gpv_speakWho :: speak_who
  gpv_agentWake :: GroupAgentWake
  gpv_agentTier :: ReplyTier
  gpv_autoPerHour :: int
  gpv_agentRounds :: int
  gpv_rules :: string
  gpv_admins :: "string list"
  gpv_room :: string
  gpv_join :: join_policy
  gpv_paidJoin :: "PaidJoinInfo option"

definition positive_floor :: "unknown \<Rightarrow> int \<Rightarrow> int" where
  "positive_floor v d =
     (case v of Some (JNum (Fin r)) \<Rightarrow> (if r > 0 then \<lfloor>r\<rfloor> else d) | _ \<Rightarrow> d)"

definition normalizeGroupProfile :: "unknown \<Rightarrow> GroupProfileView" where
  "normalizeGroupProfile p =
     (let who = jprop p ''speakWho''; perHour = jprop p ''autoPerHour''; rounds = jprop p ''agentRounds'';
          rules = as_str (jprop p ''rules''); paidJoin = paidJoinFromRules (Some rules);
          wireJoin = jprop p ''join'';
          join = (if paidJoin \<noteq> None then JoinPaid
                  else if wireJoin = Some (JStr ''invite'') then JoinInvite
                  else if wireJoin = Some (JStr ''apply'') then JoinApply
                  else if wireJoin = Some (JStr ''open'') then JoinOpen else JoinInvite)
      in \<lparr>gpv_speakHumans = (jprop p ''speakHumans'' \<noteq> Some (JBool False)),
          gpv_speakAgents = (jprop p ''speakAgents'' \<noteq> Some (JBool False)),
          gpv_speakWho = (if who = Some (JStr ''owner'') then SpeakOwner
                          else if who = Some (JStr ''admins'') then SpeakAdmins else SpeakAll),
          gpv_agentWake = normalizeGroupWake (jprop p ''agentWake'') WMention,
          gpv_agentTier = normalizeTier (jprop p ''agentTier'') Draft,
          gpv_autoPerHour = positive_floor perHour DEFAULT_GROUP_AUTO_PER_HOUR,
          gpv_agentRounds = positive_floor rounds DEFAULT_GROUP_AGENT_ROUNDS,
          gpv_rules = rules,
          gpv_admins = List.map_filter (\<lambda>j. str_opt (Some j)) (arr_items (jprop p ''admins'')),
          gpv_room = (if as_str (jprop p ''room'') = [] then ''chat'' else as_str (jprop p ''room'')),
          gpv_join = join,
          gpv_paidJoin = paidJoin\<rparr>)"

definition groupProfileOf :: "unknown \<Rightarrow> GroupProfileView" where
  "groupProfileOf g = normalizeGroupProfile (jprop g ''profile'')"

record GroupSendOptions =
  gso_by :: "string option"
  gso_auto :: "bool option"
  gso_agent :: "string option"

definition entryBy :: "unknown \<Rightarrow> string option" where
  "entryBy entry = nonempty_opt (as_str (jprop entry ''by''))"

section \<open>Lines and trimming\<close>

lemma newline_ws: "is_ws newline"
  by (simp add: newline_def is_ws_def)

lemma split_on_snoc:
  "split_on c (s @ [x]) =
     (if x = c then split_on c s @ [[]] else butlast (split_on c s) @ [last (split_on c s) @ [x]])"
proof (induction s)
  case (Cons y s)
  obtain w ws where w: "split_on c s = w # ws" by (cases "split_on c s") auto
  then show ?case using Cons by (cases ws) auto
qed simp

lemma trim_Cons_ws: "is_ws c \<Longrightarrow> trim (c # w) = trim w"
  by (simp add: trim_def trimStart_def)

lemma trim_snoc_ws:
  assumes "is_ws c"
  shows "trim (w @ [c]) = trim w"
proof (cases "\<forall>x \<in> set w. is_ws x")
  case True
  then show ?thesis using assms by (metis trim_eq_Nil_iff Un_iff set_append empty_set empty_iff list.set(2) insert_iff)
next
  case False
  then have "trimStart (w @ [c]) = trimStart w @ [c]"
    by (auto simp: trimStart_def dropWhile_append1)
  then show ?thesis using assms by (simp add: trim_def js_str)
qed

text \<open>Every line of a trimmed text trims to a trimmed line of the text.\<close>

lemma lines_trimStart:
  "l \<in> set (split_on newline (trimStart s)) \<Longrightarrow> \<exists>l' \<in> set (split_on newline s). trim l' = trim l"
proof (induction s)
  case (Cons c s)
  obtain w ws where w: "split_on newline s = w # ws" by (cases "split_on newline s") auto
  show ?case
  proof (cases "is_ws c")
    case True
    then have "l \<in> set (split_on newline (trimStart s))" using Cons.prems by (simp add: trimStart_def)
    then obtain l' where "l' \<in> set (split_on newline s)" "trim l' = trim l" using Cons.IH by blast
    then show ?thesis using w trim_Cons_ws [OF True] by auto
  next
    case False
    then show ?thesis using Cons.prems by (auto simp: trimStart_def)
  qed
qed (simp add: trimStart_def)

lemma lines_trimEnd:
  "l \<in> set (split_on newline (trimEnd s)) \<Longrightarrow> \<exists>l' \<in> set (split_on newline s). trim l' = trim l"
proof (induction s rule: rev_induct)
  case (snoc c s)
  show ?case
  proof (cases "is_ws c")
    case True
    then have "l \<in> set (split_on newline (trimEnd s))" using snoc.prems by (simp add: js_str)
    then obtain l' where l': "l' \<in> set (split_on newline s)" "trim l' = trim l" using snoc.IH by blast
    show ?thesis
    proof (cases "c = newline")
      case False
      have "split_on newline s = butlast (split_on newline s) @ [last (split_on newline s)]" by simp
      then have "l' \<in> set (butlast (split_on newline s)) \<or> l' = last (split_on newline s)"
        using l'(1) by (metis Un_iff empty_iff insert_iff list.set set_append)
      then show ?thesis using l'(2) False trim_snoc_ws [OF True] by (auto simp: split_on_snoc)
    qed (use l' in \<open>auto simp: split_on_snoc\<close>)
  next
    case False
    then show ?thesis using snoc.prems by (auto simp: js_str)
  qed
qed (simp add: js_str)

lemma lines_trim:
  "l \<in> set (split_on newline (trim s)) \<Longrightarrow> \<exists>l' \<in> set (split_on newline s). trim l' = trim l"
  unfolding trim_def [of s] using lines_trimEnd [of l "trimStart s"] lines_trimStart [of _ s] by metis

lemma split_join:
  assumes "ls \<noteq> []" "\<forall>l \<in> set ls. c \<notin> set l"
  shows "split_on c (join_with [c] ls) = ls"
  using assms
proof (induction "[c]" ls rule: join_with.induct)
  case (3 w v ws)
  then show ?case using split_on_append_sep [of c w] by simp
qed (auto simp: split_on_single)

lemma split_ws_none: "\<forall>c \<in> set s. \<not> is_ws c \<Longrightarrow> split_ws acc s = [rev acc @ s]"
  by (induction s arbitrary: acc) auto

lemma split_ws_word:
  "\<forall>c \<in> set w. \<not> is_ws c \<Longrightarrow> is_ws x \<Longrightarrow>
   split_ws acc (w @ x # s) = (rev acc @ w) # split_ws [] (dropWhile is_ws s)"
  by (induction w arbitrary: acc) auto

section \<open>The marker\<close>

definition word :: "string \<Rightarrow> bool" where
  "word w = (w \<noteq> [] \<and> (\<forall>c \<in> set w. \<not> is_ws c))"

lemma trim_word_ends: "word a \<Longrightarrow> word b \<Longrightarrow> trim (a @ m @ b) = a @ m @ b"
  by (cases a; cases b rule: rev_cases) (auto simp: trim_id_iff word_def)

lemma word_literals: "word ''#paid-join''"
  by (simp add: word_def is_ws_def)

lemma parse_marker_ok:
  assumes "word price" "word addr" "startsWith addr ''0x''"
  shows "parse_marker (PAID_JOIN_PREFIX @ price @ '' '' @ addr) = Some \<lparr>pj_price = price, pj_addr = addr\<rparr>"
proof -
  have p: "PAID_JOIN_PREFIX = ''#paid-join'' @ '' ''" by (simp add: PAID_JOIN_PREFIX_def)
  have t1: "trim (PAID_JOIN_PREFIX @ price @ '' '' @ addr) = PAID_JOIN_PREFIX @ price @ '' '' @ addr"
    using trim_word_ends [OF word_literals assms(2), of "'' '' @ price @ '' ''"] by (simp add: p)
  have t2: "trim (price @ '' '' @ addr) = price @ '' '' @ addr" by (rule trim_word_ends [OF assms(1,2)])
  have sp: "is_ws (CHR '' '')" by (simp add: is_ws_def)
  have hd: "dropWhile is_ws addr = addr" using assms(2) by (cases addr) (auto simp: word_def)
  have "split_ws [] (price @ '' '' @ addr) = [price, addr]"
    using split_ws_word [of price "CHR '' ''" "[]" addr] split_ws_none [of addr "[]"] assms(1,2) sp hd
    by (simp add: word_def)
  then show ?thesis
    using t1 t2 assms by (simp add: parse_marker_def Let_def startsWith_def word_def)
qed

lemma marker_line: "is_marker_line (PAID_JOIN_PREFIX @ price @ '' '' @ addr)" if "word addr"
proof -
  have p: "PAID_JOIN_PREFIX = ''#paid-join'' @ '' ''" by (simp add: PAID_JOIN_PREFIX_def)
  have "trim (PAID_JOIN_PREFIX @ price @ '' '' @ addr) = PAID_JOIN_PREFIX @ price @ '' '' @ addr"
    using trim_word_ends [OF word_literals that, of "'' '' @ price @ '' ''"] by (simp add: p)
  then show ?thesis by (simp add: is_marker_line_def startsWith_def)
qed

lemma parse_marker_line: "\<not> is_marker_line l \<Longrightarrow> parse_marker l = None"
  by (simp add: parse_marker_def is_marker_line_def Let_def)

lemma first_marker_None: "\<forall>l \<in> set ls. \<not> is_marker_line l \<Longrightarrow> first_marker ls = None"
  by (induction ls) (simp_all add: parse_marker_line)

lemma without_lines:
  "\<forall>l \<in> set (split_on newline (rulesWithoutPaidJoin rules)). \<not> is_marker_line l"
proof -
  have nil: "\<not> is_marker_line []" by (simp add: is_marker_line_def startsWith_def PAID_JOIN_PREFIX_def)
  have body: "\<not> is_marker_line l"
    if l: "l \<in> set (split_on newline (trim (join_with [newline] (filter (\<lambda>l. \<not> is_marker_line l) (split_on newline r)))))"
    for l r
  proof -
    let ?ls = "filter (\<lambda>l. \<not> is_marker_line l) (split_on newline r)"
    obtain l' where l': "l' \<in> set (split_on newline (join_with [newline] ?ls))" "trim l' = trim l"
      using lines_trim [OF l] by blast
    have "\<not> is_marker_line l'"
    proof (cases "?ls = []")
      case True
      then show ?thesis using l'(1) nil by simp
    next
      case False
      then have "split_on newline (join_with [newline] ?ls) = ?ls"
        using split_on_no_sep by (intro split_join) auto
      then show ?thesis using l'(1) by simp
    qed
    then show ?thesis using l'(2) by (simp add: is_marker_line_def)
  qed
  show ?thesis
  proof (cases "rules = None \<or> rules = Some []")
    case True
    then have "rulesWithoutPaidJoin rules = []" by (auto simp: rulesWithoutPaidJoin_def)
    then show ?thesis using nil by simp
  next
    case False
    then obtain r where "rules = Some r" "r \<noteq> []" by auto
    then have e: "rulesWithoutPaidJoin rules =
        trim (join_with [newline] (filter (\<lambda>l. \<not> is_marker_line l) (split_on newline r)))"
      by (simp add: rulesWithoutPaidJoin_def)
    show ?thesis unfolding e using body by blast
  qed
qed

lemma rulesWithPaidJoin_cong:
  "rulesWithoutPaidJoin r = rulesWithoutPaidJoin r' \<Longrightarrow> rulesWithPaidJoin r p a = rulesWithPaidJoin r' p a"
  by (simp add: rulesWithPaidJoin_def)

lemma without_idem: "rulesWithoutPaidJoin (Some (rulesWithoutPaidJoin rules)) = rulesWithoutPaidJoin rules"
proof -
  have "filter (\<lambda>l. \<not> is_marker_line l) (split_on newline (rulesWithoutPaidJoin rules))
      = split_on newline (rulesWithoutPaidJoin rules)"
    using without_lines by (simp add: filter_id_conv)
  moreover have "trim (rulesWithoutPaidJoin rules) = rulesWithoutPaidJoin rules"
    by (simp add: rulesWithoutPaidJoin_def split: option.split)
  ultimately show ?thesis
    by (simp add: rulesWithoutPaidJoin_def [of "Some (rulesWithoutPaidJoin rules)"] join_split_on)
qed

lemma with_lines:
  assumes "word price" "word addr"
  shows "split_on newline (rulesWithPaidJoin rules price addr) =
    (PAID_JOIN_PREFIX @ price @ '' '' @ addr) #
      (if rulesWithoutPaidJoin rules = [] then [] else split_on newline (rulesWithoutPaidJoin rules))"
proof -
  have n: "newline \<notin> set (PAID_JOIN_PREFIX @ price @ '' '' @ addr)"
    using assms newline_ws by (auto simp: word_def PAID_JOIN_PREFIX_def newline_def)
  show ?thesis
  proof (cases "rulesWithoutPaidJoin rules = []")
    case True
    then show ?thesis using split_on_single [OF n] by (simp add: rulesWithPaidJoin_def Let_def)
  next
    case False
    then show ?thesis
      using split_on_append_sep [OF n] by (simp add: rulesWithPaidJoin_def Let_def)
  qed
qed

section \<open>Properties\<close>

text \<open>
  The paid-join marker round trips. Writing a price and an address (words without white
  space, the address starting with \<open>0x\<close>) into any rules and reading them back gives that price
  and address; the rules shown to users are what they were; writing again replaces the marker
  instead of adding one.
\<close>

theorem paid_join_roundtrip:
  assumes "word price" "word addr" "startsWith addr ''0x''"
  shows "paidJoinFromRules (Some (rulesWithPaidJoin rules price addr)) = Some \<lparr>pj_price = price, pj_addr = addr\<rparr> \<and>
    rulesWithoutPaidJoin (Some (rulesWithPaidJoin rules price addr)) = rulesWithoutPaidJoin rules \<and>
    rulesWithPaidJoin (Some (rulesWithPaidJoin rules price addr)) price2 addr2 = rulesWithPaidJoin rules price2 addr2"
proof -
  have ne: "rulesWithPaidJoin rules price addr \<noteq> []"
    by (simp add: rulesWithPaidJoin_def Let_def PAID_JOIN_PREFIX_def)
  have 1: "paidJoinFromRules (Some (rulesWithPaidJoin rules price addr)) = Some \<lparr>pj_price = price, pj_addr = addr\<rparr>"
    using ne parse_marker_ok [OF assms] by (simp add: paidJoinFromRules_def with_lines [OF assms(1,2)])
  have "filter (\<lambda>l. \<not> is_marker_line l) (split_on newline (rulesWithPaidJoin rules price addr)) =
      (if rulesWithoutPaidJoin rules = [] then [] else split_on newline (rulesWithoutPaidJoin rules))"
    using marker_line [OF assms(2), of price] without_lines [of rules]
    by (simp add: with_lines [OF assms(1,2)] filter_id_conv)
  moreover have "trim (rulesWithoutPaidJoin rules) = rulesWithoutPaidJoin rules"
    by (simp add: rulesWithoutPaidJoin_def split: option.split)
  ultimately have 2: "rulesWithoutPaidJoin (Some (rulesWithPaidJoin rules price addr)) = rulesWithoutPaidJoin rules"
    using ne by (simp add: rulesWithoutPaidJoin_def [of "Some (rulesWithPaidJoin rules price addr)"] join_split_on)
  show ?thesis using 1 2 rulesWithPaidJoin_cong [OF 2] by simp
qed

theorem paid_join_roundtrip_witness:
  "paidJoinFromRules (Some (rulesWithPaidJoin (Some ''be kind'') ''5'' ''0xab'')) =
     Some \<lparr>pj_price = ''5'', pj_addr = ''0xab''\<rparr>"
proof -
  have "word ''5''" "word ''0xab''" "startsWith ''0xab'' ''0x''"
    by (simp_all add: word_def is_ws_def startsWith_def)
  from paid_join_roundtrip [OF this, of "Some ''be kind''"] show ?thesis by simp
qed

text \<open>
  Displayed rules never carry the marker: no line of \<open>rulesWithoutPaidJoin\<close> is a marker
  line, no price can be read back from it, and stripping is idempotent.
\<close>

theorem paid_join_hidden:
  "paidJoinFromRules (Some (rulesWithoutPaidJoin rules)) = None \<and>
   rulesWithoutPaidJoin (Some (rulesWithoutPaidJoin rules)) = rulesWithoutPaidJoin rules \<and>
   list_all (\<lambda>l. \<not> is_marker_line l) (split_on newline (rulesWithoutPaidJoin rules))"
  using first_marker_None [OF without_lines [of rules]] without_idem [of rules] without_lines [of rules]
  by (simp add: paidJoinFromRules_def list_all_iff)

lemma positive_floor_bounds: "0 \<le> d \<Longrightarrow> 0 \<le> positive_floor v d"
  by (auto simp: positive_floor_def split: option.split json.split jsnum.split)

text \<open>
  The governance view of a profile. A missing or malformed profile is the standard template
  (everybody and their agents may post, wake on mention, draft tier, 10 posts an hour, 3 rounds,
  invite only); the caps are never negative; the view says \<open>paid\<close> exactly when the rules
  carry a marker, and then carries its price and address; a native \<open>join: 'paid'\<close> on the
  wire without the marker is read as \<open>invite\<close>.
\<close>

theorem group_profile_view:
  "normalizeGroupProfile None =
     \<lparr>gpv_speakHumans = True, gpv_speakAgents = True, gpv_speakWho = SpeakAll, gpv_agentWake = WMention,
      gpv_agentTier = Draft, gpv_autoPerHour = 10, gpv_agentRounds = 3, gpv_rules = [], gpv_admins = [],
      gpv_room = ''chat'', gpv_join = JoinInvite, gpv_paidJoin = None\<rparr> \<and>
   0 \<le> gpv_autoPerHour (normalizeGroupProfile p) \<and> 0 \<le> gpv_agentRounds (normalizeGroupProfile p) \<and>
   (gpv_join (normalizeGroupProfile p) = JoinPaid) = (gpv_paidJoin (normalizeGroupProfile p) \<noteq> None) \<and>
   gpv_paidJoin (normalizeGroupProfile p) = paidJoinFromRules (str_opt (jprop p ''rules'')) \<and>
   gpv_join (normalizeGroupProfile (Some (JObj [(''join'', JStr ''paid''), (''joinPrice'', JStr pr), (''joinAddr'', JStr ad)])))
     = JoinInvite"
proof (intro conjI)
  have rules: "paidJoinFromRules (Some (as_str v)) = paidJoinFromRules (str_opt v)" for v
    by (cases v rule: as_str.cases) (auto simp: paidJoinFromRules_def)
  show "normalizeGroupProfile None =
     \<lparr>gpv_speakHumans = True, gpv_speakAgents = True, gpv_speakWho = SpeakAll, gpv_agentWake = WMention,
      gpv_agentTier = Draft, gpv_autoPerHour = 10, gpv_agentRounds = 3, gpv_rules = [], gpv_admins = [],
      gpv_room = ''chat'', gpv_join = JoinInvite, gpv_paidJoin = None\<rparr>"
    by (simp add: normalizeGroupProfile_def paidJoinFromRules_def normalizeGroupWake_def normalizeTier_def
        positive_floor_def DEFAULT_GROUP_AUTO_PER_HOUR_def DEFAULT_GROUP_AGENT_ROUNDS_def List.map_filter_def)
  show "0 \<le> gpv_autoPerHour (normalizeGroupProfile p)" "0 \<le> gpv_agentRounds (normalizeGroupProfile p)"
    by (simp_all add: normalizeGroupProfile_def Let_def positive_floor_bounds DEFAULT_GROUP_AUTO_PER_HOUR_def
        DEFAULT_GROUP_AGENT_ROUNDS_def)
  show "(gpv_join (normalizeGroupProfile p) = JoinPaid) = (gpv_paidJoin (normalizeGroupProfile p) \<noteq> None)"
    by (simp add: normalizeGroupProfile_def Let_def)
  show "gpv_paidJoin (normalizeGroupProfile p) = paidJoinFromRules (str_opt (jprop p ''rules''))"
    by (simp add: normalizeGroupProfile_def Let_def rules)
  show "gpv_join (normalizeGroupProfile (Some (JObj [(''join'', JStr ''paid''), (''joinPrice'', JStr pr), (''joinAddr'', JStr ad)])))
     = JoinInvite"
    by (simp add: normalizeGroupProfile_def Let_def paidJoinFromRules_def)
qed

end
