(* ===== verification/Json_Text.thy ===== *)
theory Json_Text
  imports Js_Collections
begin

text \<open>
  \<open>JSON.parse\<close> and \<open>JSON.stringify\<close>, which the stores, the tool results and the peer
  protocol go through. The parser follows the JSON grammar with a fuel that the length of the
  text always covers; a text with a code unit above 255 is outside the string model. Numbers are
  read exactly (no rounding to a double); the printer is used on whole numbers. The round trip
  \<open>JSON_parse (JSON_stringify v) = Some v\<close> holds for every value with whole numbers and
  distinct object keys.
\<close>

section \<open>The parser\<close>

abbreviation quote :: char where "quote \<equiv> CHR 0x22"
abbreviation backslash :: char where "backslash \<equiv> CHR 0x5C"

definition is_json_ws :: "char \<Rightarrow> bool" where
  "is_json_ws c = (let n = (of_char c :: nat) in n = 32 \<or> n = 9 \<or> n = 10 \<or> n = 13)"

definition skip_json_ws :: "string \<Rightarrow> string" where
  "skip_json_ws s = dropWhile is_json_ws s"

definition is_digit :: "char \<Rightarrow> bool" where
  "is_digit c = (let n = (of_char c :: nat) in 48 \<le> n \<and> n \<le> 57)"

definition digit_val :: "char \<Rightarrow> nat" where
  "digit_val c = of_char c - 48"

definition digits_val :: "string \<Rightarrow> nat" where
  "digits_val ds = foldl (\<lambda>a c. 10 * a + digit_val c) 0 ds"

definition hex_val :: "char \<Rightarrow> nat option" where
  "hex_val c = (let n = (of_char c :: nat) in
     if 48 \<le> n \<and> n \<le> 57 then Some (n - 48)
     else if 97 \<le> n \<and> n \<le> 102 then Some (n - 87)
     else if 65 \<le> n \<and> n \<le> 70 then Some (n - 55) else None)"

definition hex4 :: "char \<Rightarrow> char \<Rightarrow> char \<Rightarrow> char \<Rightarrow> nat option" where
  "hex4 a b c d = (case (hex_val a, hex_val b, hex_val c, hex_val d) of
     (Some w, Some x, Some y, Some z) \<Rightarrow> Some (((w * 16 + x) * 16 + y) * 16 + z) | _ \<Rightarrow> None)"

definition unescape :: "char \<Rightarrow> char option" where
  "unescape e = (let n = (of_char e :: nat) in
     if n = 34 \<or> n = 92 \<or> n = 47 then Some e
     else if n = 98 then Some (CHR 0x08) else if n = 102 then Some (CHR 0x0C)
     else if n = 110 then Some (CHR 0x0A) else if n = 114 then Some (CHR 0x0D)
     else if n = 116 then Some (CHR 0x09) else None)"

abbreviation prepend :: "'a \<Rightarrow> ('a list \<times> 'r) option \<Rightarrow> ('a list \<times> 'r) option" where
  "prepend x p \<equiv> map_option (\<lambda>(xs, r). (x # xs, r)) p"

text \<open>The rest of a string literal after its opening quote.\<close>

fun parse_str :: "string \<Rightarrow> (string \<times> string) option" where
  "parse_str [] = None"
| "parse_str (c # s) =
     (if c = quote then Some ([], s)
      else if c = backslash then
        (case s of
           [] \<Rightarrow> None
         | e # t \<Rightarrow>
             (if e = CHR ''u'' then
                (case t of
                   h1 # h2 # h3 # h4 # u \<Rightarrow>
                     (case hex4 h1 h2 h3 h4 of
                        Some n \<Rightarrow> (if n < 256 then prepend (char_of n) (parse_str u) else None)
                      | None \<Rightarrow> None)
                 | _ \<Rightarrow> None)
              else (case unescape e of None \<Rightarrow> None | Some ch \<Rightarrow> prepend ch (parse_str t))))
      else if of_char c < (32 :: nat) then None
      else prepend c (parse_str s))"

definition strip_minus :: "string \<Rightarrow> bool \<times> string" where
  "strip_minus s = (case s of [] \<Rightarrow> (False, []) | c # t \<Rightarrow> if c = CHR ''-'' then (True, t) else (False, s))"

text \<open>Fraction digits: \<open>None\<close> when a point has no digit after it.\<close>

definition parse_frac :: "string \<Rightarrow> (string \<times> string) option" where
  "parse_frac s = (case s of [] \<Rightarrow> Some ([], [])
     | c # t \<Rightarrow> (if c \<noteq> CHR ''.'' then Some ([], s)
                else if takeWhile is_digit t = [] then None
                else Some (takeWhile is_digit t, dropWhile is_digit t)))"

definition parse_exp :: "string \<Rightarrow> (int \<times> string) option" where
  "parse_exp s = (case s of [] \<Rightarrow> Some (0, [])
     | c # t \<Rightarrow> (if c \<noteq> CHR ''e'' \<and> c \<noteq> CHR ''E'' then Some (0, s)
                else (let neg = (t \<noteq> [] \<and> hd t = CHR ''-''); plus = (t \<noteq> [] \<and> hd t = CHR ''+'');
                          u = (if neg \<or> plus then tl t else t); ds = takeWhile is_digit u
                      in if ds = [] then None
                         else Some ((if neg then - 1 else 1) * int (digits_val ds), dropWhile is_digit u))))"

definition scale10 :: "rat \<Rightarrow> int \<Rightarrow> rat" where
  "scale10 r e = (if e \<ge> 0 then r * 10 ^ nat e else r / 10 ^ nat (- e))"

definition parse_num :: "string \<Rightarrow> (rat \<times> string) option" where
  "parse_num s =
     (let (neg, s1) = strip_minus s; ds = takeWhile is_digit s1; s2 = dropWhile is_digit s1 in
      if ds = [] \<or> hd ds = CHR ''0'' \<and> length ds > 1 then None
      else (case parse_frac s2 of None \<Rightarrow> None
        | Some (fs, s3) \<Rightarrow>
            (case parse_exp s3 of None \<Rightarrow> None
             | Some (e, s4) \<Rightarrow>
                 (let m = of_nat (digits_val (ds @ fs)) / 10 ^ length fs
                  in Some ((if neg then - 1 else 1) * scale10 m e, s4)))))"

definition parse_lit :: "string \<Rightarrow> string \<Rightarrow> json \<Rightarrow> (json \<times> string) option" where
  "parse_lit lit s v = (if prefix lit s then Some (v, drop (length lit) s) else None)"

fun parse_val :: "nat \<Rightarrow> string \<Rightarrow> (json \<times> string) option"
  and parse_arr :: "nat \<Rightarrow> string \<Rightarrow> (json list \<times> string) option"
  and parse_obj :: "nat \<Rightarrow> string \<Rightarrow> (string, json) al \<Rightarrow> ((string, json) al \<times> string) option" where
  "parse_val 0 s = None"
| "parse_val (Suc n) s =
     (case skip_json_ws s of
        [] \<Rightarrow> None
      | c # t \<Rightarrow>
          (if c = quote then map_option (\<lambda>(x, r). (JStr x, r)) (parse_str t)
           else if c = CHR ''['' then
             (if prefix '']'' (skip_json_ws t) then Some (JArr [], tl (skip_json_ws t))
              else map_option (\<lambda>(xs, r). (JArr xs, r)) (parse_arr n t))
           else if c = CHR ''{'' then
             (if prefix ''}'' (skip_json_ws t) then Some (JObj [], tl (skip_json_ws t))
              else map_option (\<lambda>(kvs, r). (JObj kvs, r)) (parse_obj n t []))
           else if c = CHR ''t'' then parse_lit ''true'' (c # t) (JBool True)
           else if c = CHR ''f'' then parse_lit ''false'' (c # t) (JBool False)
           else if c = CHR ''n'' then parse_lit ''null'' (c # t) JNull
           else map_option (\<lambda>(x, r). (JNum (Fin x), r)) (parse_num (c # t))))"
| "parse_arr 0 s = None"
| "parse_arr (Suc n) s =
     (case parse_val n s of
        None \<Rightarrow> None
      | Some (v, r) \<Rightarrow>
          (case skip_json_ws r of
             [] \<Rightarrow> None
           | c # u \<Rightarrow> (if c = CHR '','' then prepend v (parse_arr n u)
                      else if c = CHR '']'' then Some ([v], u) else None)))"
| "parse_obj 0 s acc = None"
| "parse_obj (Suc n) s acc =
     (case skip_json_ws s of
        [] \<Rightarrow> None
      | c # t \<Rightarrow>
          (if c \<noteq> quote then None
           else (case parse_str t of
              None \<Rightarrow> None
            | Some (k, r) \<Rightarrow>
                (if \<not> prefix '':'' (skip_json_ws r) then None
                 else (case parse_val n (tl (skip_json_ws r)) of
                    None \<Rightarrow> None
                  | Some (v, r2) \<Rightarrow>
                      (case skip_json_ws r2 of
                         [] \<Rightarrow> None
                       | d # w \<Rightarrow> (if d = CHR '','' then parse_obj n w (al_set k v acc)
                                  else if d = CHR ''}'' then Some (al_set k v acc, w) else None)))))))"

definition JSON_parse :: "string \<Rightarrow> unknown" where
  "JSON_parse s =
     (case parse_val (2 * length s + 2) s of
        Some (v, r) \<Rightarrow> (if skip_json_ws r = [] then Some v else None)
      | None \<Rightarrow> None)"

section \<open>The printer\<close>

definition hex_digit :: "nat \<Rightarrow> char" where
  "hex_digit n = (if n < 10 then char_of (48 + n) else char_of (87 + n))"

definition esc_char :: "char \<Rightarrow> string" where
  "esc_char c = (let n = (of_char c :: nat) in
     if n = 34 \<or> n = 92 then [backslash, c]
     else if n = 8 then [backslash, CHR ''b''] else if n = 12 then [backslash, CHR ''f'']
     else if n = 10 then [backslash, CHR ''n''] else if n = 13 then [backslash, CHR ''r'']
     else if n = 9 then [backslash, CHR ''t'']
     else if n < 32 then [backslash, CHR ''u'', CHR ''0'', CHR ''0'', hex_digit (n div 16), hex_digit (n mod 16)]
     else [c])"

definition show_str :: "string \<Rightarrow> string" where
  "show_str s = quote # concat (map esc_char s) @ [quote]"

definition show_int :: "int \<Rightarrow> string" where
  "show_int i = (if i < 0 then CHR ''-'' # show_nat (nat (- i)) else show_nat (nat i))"

fun JSON_stringify :: "json \<Rightarrow> string" where
  "JSON_stringify JNull = ''null''"
| "JSON_stringify (JBool b) = (if b then ''true'' else ''false'')"
| "JSON_stringify (JNum NotFinite) = ''null''"
| "JSON_stringify (JNum (Fin r)) = show_int \<lfloor>r\<rfloor>"
| "JSON_stringify (JStr s) = show_str s"
| "JSON_stringify (JArr xs) = CHR ''['' # join_with '','' (map JSON_stringify xs) @ '']''"
| "JSON_stringify (JObj kvs) =
     CHR ''{'' # join_with '','' (map (\<lambda>kv. show_str (fst kv) @ '':'' @ JSON_stringify (snd kv)) kvs) @ ''}''"

section \<open>The round trip\<close>

fun json_ok :: "json \<Rightarrow> bool" where
  "json_ok (JNum NotFinite) = False"
| "json_ok (JNum (Fin r)) = (r \<in> \<int>)"
| "json_ok (JArr xs) = list_all json_ok xs"
| "json_ok (JObj kvs) = (al_wf kvs \<and> list_all (\<lambda>kv. json_ok (snd kv)) kvs)"
| "json_ok _ = True"

lemma code_iff: "(of_char d :: nat) = n \<Longrightarrow> (of_char c :: nat) = n \<longleftrightarrow> c = d"
  by auto

lemma char_codes:
  "(of_char c :: nat) = 8 \<longleftrightarrow> c = CHR 0x08" "(of_char c :: nat) = 12 \<longleftrightarrow> c = CHR 0x0C"
  "(of_char c :: nat) = 10 \<longleftrightarrow> c = CHR 0x0A" "(of_char c :: nat) = 13 \<longleftrightarrow> c = CHR 0x0D"
  "(of_char c :: nat) = 9 \<longleftrightarrow> c = CHR 0x09" "(of_char c :: nat) = 34 \<longleftrightarrow> c = quote"
  "(of_char c :: nat) = 92 \<longleftrightarrow> c = backslash"
  by (rule code_iff, simp)+

lemma char_of_48: "char_of (48 :: nat) = CHR ''0''"
  using char_of_char [of "CHR ''0''", where ?'a = nat] by simp

lemma hex_val_digit: "k < 16 \<Longrightarrow> hex_val (hex_digit k) = Some k"
  by (auto simp: hex_val_def hex_digit_def of_char_of Let_def)

lemma hex4_code: "n < 32 \<Longrightarrow> hex4 (CHR ''0'') (CHR ''0'') (hex_digit (n div 16)) (hex_digit (n mod 16)) = Some n"
proof -
  assume n: "n < 32"
  have z: "hex_val (CHR ''0'') = Some 0" by (simp add: hex_val_def)
  have "n div 16 < 16" using n by simp
  then show ?thesis using z by (simp add: hex4_def hex_val_digit)
qed

lemma unescape_simps:
  "unescape quote = Some quote" "unescape backslash = Some backslash" "unescape (CHR ''b'') = Some (CHR 0x08)"
  "unescape (CHR ''f'') = Some (CHR 0x0C)" "unescape (CHR ''n'') = Some (CHR 0x0A)"
  "unescape (CHR ''r'') = Some (CHR 0x0D)" "unescape (CHR ''t'') = Some (CHR 0x09)"
  by (simp_all add: unescape_def)

lemma parse_esc_char: "parse_str (esc_char c @ s) = prepend c (parse_str s)"
proof -
  let ?n = "of_char c :: nat"
  consider (q) "c = quote" | (b) "c = backslash" | (b8) "c = CHR 0x08" | (b12) "c = CHR 0x0C" | (b10) "c = CHR 0x0A"
    | (b13) "c = CHR 0x0D" | (b9) "c = CHR 0x09"
    | (ctl) "?n < 32" "?n \<notin> {8, 12, 10, 13, 9}"
    | (plain) "32 \<le> ?n" "c \<noteq> quote" "c \<noteq> backslash"
    by (cases "?n < 32") (auto simp: char_codes)
  then show ?thesis
  proof cases
    case ctl
    then have "esc_char c = [backslash, CHR ''u'', CHR ''0'', CHR ''0'', hex_digit (?n div 16), hex_digit (?n mod 16)]"
      by (simp add: esc_char_def Let_def)
    moreover have "char_of ?n = c" by simp
    ultimately show ?thesis using hex4_code [OF ctl(1)] by simp
  next
    case plain
    then have "?n \<noteq> 34" "?n \<noteq> 92" by (simp_all add: char_codes)
    then show ?thesis using plain by (simp add: esc_char_def)
  qed (simp_all add: esc_char_def unescape_simps)
qed

lemma parse_show_str: "parse_str (concat (map esc_char s) @ quote # r) = Some (s, r)"
  by (induction s) (simp_all add: parse_esc_char)

lemma digit_char: "n < 10 \<Longrightarrow> is_digit (char_of (48 + n)) \<and> digit_val (char_of (48 + n)) = n"
  by (simp add: is_digit_def digit_val_def of_char_of Let_def)

lemma digits_val_snoc: "digits_val (ds @ [c]) = 10 * digits_val ds + digit_val c"
  by (simp add: digits_val_def)

lemma show_nat_digits:
  "digits_val (show_nat n) = n \<and> (\<forall>c \<in> set (show_nat n). is_digit c) \<and> show_nat n \<noteq> [] \<and>
   (hd (show_nat n) = CHR ''0'' \<longrightarrow> n = 0)"
proof (induction n rule: show_nat.induct)
  case (1 n)
  show ?case
  proof (cases "n < 10")
    case True
    then have "show_nat n = [char_of (48 + n)]" by (subst show_nat.simps) simp
    moreover have "char_of (48 + n) = CHR ''0'' \<longrightarrow> n = 0"
    proof
      assume e: "char_of (48 + n) = CHR ''0''"
      have "digit_val (CHR ''0'') = n" using digit_char [OF True] by (simp add: e)
      then show "n = 0" by (simp add: digit_val_def)
    qed
    ultimately show ?thesis using digit_char [OF True] by (simp add: digits_val_def)
  next
    case False
    then have s: "show_nat n = show_nat (n div 10) @ [char_of (48 + n mod 10)]" by (subst show_nat.simps) simp
    have d: "is_digit (char_of (48 + n mod 10))" "digit_val (char_of (48 + n mod 10)) = n mod 10"
      using digit_char [of "n mod 10"] by simp_all
    note ih = 1 [OF False]
    have "10 * (n div 10) + n mod 10 = n" by simp
    then show ?thesis using ih d s False by (auto simp: digits_val_snoc)
  qed
qed

lemma show_nat_0: "show_nat 0 = ''0''"
  by (subst show_nat.simps) (simp add: char_of_48)

definition ends_value :: "string \<Rightarrow> bool" where
  "ends_value r = (r = [] \<or> hd r \<in> {CHR '','', CHR '']'', CHR ''}''})"

lemma ends_value_facts:
  assumes "ends_value r"
  shows "takeWhile is_digit r = []" "dropWhile is_digit r = r" "parse_frac r = Some ([], r)" "parse_exp r = Some (0, r)"
  using assms by (cases r; auto simp: ends_value_def is_digit_def parse_frac_def parse_exp_def)+

lemma parse_show_nat:
  assumes "ends_value r"
  shows "parse_num (show_nat n @ r) = Some (of_nat n, r)"
    and "parse_num (CHR ''-'' # show_nat n @ r) = Some (- of_nat n, r)"
proof -
  have d: "\<forall>c \<in> set (show_nat n). is_digit c" "show_nat n \<noteq> []" "digits_val (show_nat n) = n"
    using show_nat_digits [of n] by auto
  have t: "takeWhile is_digit (show_nat n @ r) = show_nat n" "dropWhile is_digit (show_nat n @ r) = r"
    using d ends_value_facts [OF assms] by (simp_all add: takeWhile_append2 dropWhile_append2)
  have lead: "\<not> (hd (show_nat n) = CHR ''0'' \<and> length (show_nat n) > 1)"
    using show_nat_digits [of n] by (auto simp: show_nat_0)
  have h: "hd (show_nat n @ r) \<noteq> CHR ''-''"
    using d by (cases "show_nat n") (auto simp: is_digit_def)
  have sm: "strip_minus (show_nat n @ r) = (False, show_nat n @ r)"
    using h d(2) by (cases "show_nat n") (auto simp: strip_minus_def)
  show "parse_num (show_nat n @ r) = Some (of_nat n, r)"
    "parse_num (CHR ''-'' # show_nat n @ r) = Some (- of_nat n, r)"
    using sm t d lead ends_value_facts [OF assms]
    by (simp_all add: parse_num_def Let_def scale10_def strip_minus_def [of "CHR ''-'' # _"])
qed

lemma parse_show_int: "ends_value r \<Longrightarrow> parse_num (show_int i @ r) = Some (of_int i, r)"
  using parse_show_nat [of r "nat (- i)"] parse_show_nat [of r "nat i"]
  by (cases "i < 0") (simp_all add: show_int_def)

lemma join_Cons: "join_with sep (w # ws) = w @ (if ws = [] then [] else sep @ join_with sep ws)"
  by (cases ws) auto

lemma show_int_starts: "\<exists>c t. show_int i = c # t \<and> (c = CHR ''-'' \<or> is_digit c)"
  using show_nat_digits [of "nat i"] by (cases "show_nat (nat i)") (auto simp: show_int_def)

lemma number_start:
  "c = CHR ''-'' \<or> is_digit c \<Longrightarrow> \<not> is_json_ws c \<and> c \<notin> {CHR '']'', CHR ''}'', quote, CHR ''['', CHR ''{'', CHR ''t'', CHR ''f'', CHR ''n''}"
  by (auto simp: is_json_ws_def is_digit_def Let_def)

lemma JSON_stringify_starts:
  "\<exists>c t. JSON_stringify v = c # t \<and> \<not> is_json_ws c \<and> c \<noteq> CHR '']'' \<and> c \<noteq> CHR ''}''"
proof (cases v rule: JSON_stringify.cases)
  case (4 r)
  obtain c t where "show_int \<lfloor>r\<rfloor> = c # t" "c = CHR ''-'' \<or> is_digit c" using show_int_starts by blast
  then show ?thesis using 4 number_start [of c] by simp
qed (auto simp: is_json_ws_def show_str_def)

lemma skip_nonws: "\<not> is_json_ws c \<Longrightarrow> skip_json_ws (c # t) = c # t"
  by (simp add: skip_json_ws_def)

lemma skip_delims:
  "skip_json_ws (CHR '','' # t) = CHR '','' # t" "skip_json_ws (CHR '']'' # t) = CHR '']'' # t"
  "skip_json_ws (CHR ''}'' # t) = CHR ''}'' # t" "skip_json_ws (CHR '':'' # t) = CHR '':'' # t"
  "skip_json_ws (quote # t) = quote # t" "skip_json_ws (CHR ''['' # t) = CHR ''['' # t"
  "skip_json_ws (CHR ''{'' # t) = CHR ''{'' # t"
  by (simp_all add: skip_json_ws_def is_json_ws_def)

definition parses :: "json \<Rightarrow> bool" where
  "parses v = (\<forall>n r. 2 * length (JSON_stringify v) \<le> n \<longrightarrow> ends_value r \<longrightarrow>
     parse_val n (JSON_stringify v @ r) = Some (v, r))"

lemma parsesI:
  assumes "\<And>m r. 2 * length (JSON_stringify v) \<le> Suc m \<Longrightarrow> ends_value r \<Longrightarrow>
    parse_val (Suc m) (JSON_stringify v @ r) = Some (v, r)"
  shows "parses v"
  unfolding parses_def
proof (intro allI impI)
  fix n r assume n: "2 * length (JSON_stringify v) \<le> n" and r: "ends_value r"
  then obtain m where "n = Suc m" using JSON_stringify_starts [of v] by (cases n) auto
  then show "parse_val n (JSON_stringify v @ r) = Some (v, r)" using assms n r by simp
qed

lemma parse_arr_ok:
  assumes "\<forall>x \<in> set xs. parses x" "xs \<noteq> []" "2 * length (join_with '','' (map JSON_stringify xs)) < n"
  shows "parse_arr n (join_with '','' (map JSON_stringify xs) @ CHR '']'' # r) = Some (xs, r)"
  using assms
proof (induction xs arbitrary: n)
  case (Cons x xs)
  obtain m where n: "n = Suc m" using Cons.prems(3) by (cases n) auto
  show ?case
  proof (cases "xs = []")
    case True
    have "parse_val m (JSON_stringify x @ CHR '']'' # r) = Some (x, CHR '']'' # r)"
      using Cons.prems n True by (simp add: parses_def ends_value_def)
    then show ?thesis using n True by (simp add: skip_delims)
  next
    case False
    let ?rest = "join_with '','' (map JSON_stringify xs) @ CHR '']'' # r"
    have len: "2 * (length (JSON_stringify x) + Suc (length (join_with '','' (map JSON_stringify xs)))) \<le> m"
      using Cons.prems(3) n False by (simp add: join_Cons)
    have "parse_val m (JSON_stringify x @ CHR '','' # ?rest) = Some (x, CHR '','' # ?rest)"
      using Cons.prems(1) len by (simp add: parses_def ends_value_def)
    moreover have "parse_arr m ?rest = Some (xs, r)"
      using Cons.IH [of m] Cons.prems(1) False len by simp
    ultimately show ?thesis using n False by (simp add: skip_delims join_Cons)
  qed
qed simp

abbreviation show_pair :: "string \<times> json \<Rightarrow> string" where
  "show_pair kv \<equiv> show_str (fst kv) @ '':'' @ JSON_stringify (snd kv)"

lemma parse_obj_ok:
  assumes "\<forall>kv \<in> set kvs. parses (snd kv)" "kvs \<noteq> []" "al_wf (acc @ kvs)"
    "2 * length (join_with '','' (map show_pair kvs)) < n"
  shows "parse_obj n (join_with '','' (map show_pair kvs) @ CHR ''}'' # r) acc = Some (acc @ kvs, r)"
  using assms
proof (induction kvs arbitrary: n acc)
  case (Cons kv kvs)
  obtain k v where kv: "kv = (k, v)" by (cases kv)
  obtain m where n: "n = Suc m" using Cons.prems(4) by (cases n) auto
  have new: "al_set k v acc = acc @ [(k, v)]"
    using Cons.prems(3) kv by (intro al_set_absent) (auto simp: al_wf_def al_get_eq_None)
  have str: "parse_str (concat (map esc_char k) @ quote # u) = Some (k, u)" for u by (rule parse_show_str)
  show ?case
  proof (cases "kvs = []")
    case True
    have "parse_val m (JSON_stringify v @ CHR ''}'' # r) = Some (v, CHR ''}'' # r)"
      using Cons.prems n kv True by (simp add: parses_def ends_value_def)
    then show ?thesis using n kv True str new by (simp add: skip_delims show_str_def)
  next
    case False
    let ?rest = "join_with '','' (map show_pair kvs) @ CHR ''}'' # r"
    have len: "2 * (length (JSON_stringify v) + Suc (length (join_with '','' (map show_pair kvs)))) \<le> m"
      using Cons.prems(4) n kv False by (simp add: join_Cons)
    have v: "parse_val m (JSON_stringify v @ CHR '','' # ?rest) = Some (v, CHR '','' # ?rest)"
      using Cons.prems(1) len kv by (simp add: parses_def ends_value_def)
    have rest: "parse_obj m ?rest (acc @ [(k, v)]) = Some (acc @ kv # kvs, r)"
      using Cons.IH [of "acc @ [(k, v)]" m] Cons.prems(1,3) False len kv by simp
    have s: "join_with '','' (map show_pair (kv # kvs)) @ CHR ''}'' # r =
        quote # concat (map esc_char k) @ quote # CHR '':'' # JSON_stringify v @ CHR '','' # ?rest"
      using False kv by (simp add: join_Cons show_str_def)
    show ?thesis unfolding s n using v rest str new by (simp add: skip_delims)
  qed
qed simp

lemma json_ok_parses: "json_ok v \<Longrightarrow> parses v"
proof (induction v)
  case (JNum x)
  then obtain i where x: "x = Fin (of_int i)"
    by (cases x) (auto simp: Ints_def)
  show ?case unfolding parses_def
  proof (intro allI impI)
    fix n r assume n: "2 * length (JSON_stringify (JNum x)) \<le> n" and r: "ends_value r"
    obtain c t where c: "show_int i = c # t" "c = CHR ''-'' \<or> is_digit c" using show_int_starts by blast
    obtain m where m: "n = Suc m" using n c x by (cases n) auto
    have "skip_json_ws (show_int i @ r) = show_int i @ r"
      using c(1) number_start [OF c(2)] by (simp add: skip_nonws)
    then show "parse_val n (JSON_stringify (JNum x) @ r) = Some (JNum x, r)"
      using c(1) number_start [OF c(2)] m x parse_show_int [OF r, of i] by simp
  qed
next
  case (JArr xs)
  show ?case unfolding parses_def
  proof (intro allI impI)
    fix n r assume n: "2 * length (JSON_stringify (JArr xs)) \<le> n" and r: "ends_value r"
    obtain m where m: "n = Suc m" using n by (cases n) auto
    show "parse_val n (JSON_stringify (JArr xs) @ r) = Some (JArr xs, r)"
    proof (cases xs)
      case Nil
      then show ?thesis using m by (simp add: skip_delims)
    next
      case (Cons x ys)
      have p: "parse_arr m (join_with '','' (map JSON_stringify xs) @ CHR '']'' # r) = Some (xs, r)"
        using JArr n m Cons by (intro parse_arr_ok) (auto simp: list_all_iff)
      obtain c t where c: "JSON_stringify x = c # t" "\<not> is_json_ws c" "c \<noteq> CHR '']''"
        using JSON_stringify_starts [of x] by auto
      then have "\<not> prefix '']'' (skip_json_ws (join_with '','' (map JSON_stringify xs) @ CHR '']'' # r))"
        using Cons by (simp add: join_Cons skip_nonws)
      then show ?thesis using m p by (simp add: skip_delims)
    qed
  qed
next
  case (JObj kvs)
  show ?case unfolding parses_def
  proof (intro allI impI)
    fix n r assume n: "2 * length (JSON_stringify (JObj kvs)) \<le> n" and r: "ends_value r"
    obtain m where m: "n = Suc m" using n by (cases n) auto
    show "parse_val n (JSON_stringify (JObj kvs) @ r) = Some (JObj kvs, r)"
    proof (cases kvs)
      case Nil
      then show ?thesis using m by (simp add: skip_delims)
    next
      case (Cons x ys)
      have ih: "\<forall>kv \<in> set kvs. parses (snd kv)"
        using JObj by (auto simp: list_all_iff snds.simps)
      have p: "parse_obj m (join_with '','' (map show_pair kvs) @ CHR ''}'' # r) [] = Some (kvs, r)"
        using parse_obj_ok [OF ih, of "[]" m r] JObj.prems n m Cons by simp
      have "\<not> prefix ''}'' (skip_json_ws (join_with '','' (map show_pair kvs) @ CHR ''}'' # r))"
        using Cons by (simp add: join_Cons show_str_def skip_delims)
      then show ?thesis using m p by (simp add: skip_delims)
    qed
  qed
qed (rule parsesI, simp add: skip_json_ws_def is_json_ws_def parse_lit_def show_str_def parse_show_str)+

lemma JSON_parse_stringify:
  assumes "json_ok v"
  shows "JSON_parse (JSON_stringify v) = Some v"
proof -
  have "parse_val (2 * length (JSON_stringify v) + 2) (JSON_stringify v @ []) = Some (v, [])"
    using json_ok_parses [OF assms] unfolding parses_def ends_value_def
    by (metis le_add1 order_refl)
  then show ?thesis by (simp add: JSON_parse_def skip_json_ws_def del: parse_val.simps)
qed

end
