(* ===== verification/Alter_State.thy ===== *)
theory Alter_State
  imports Policy Json_Text
begin

text \<open>
  The folds over the alter session's event log,
  \<^verbatim>\<open>src/dsh/packages/dsh/src/alter-state.ts\<close> (with the source tags of \<open>events.ts\<close>): what
  woke the current turn, the latest state, and the transcript the page renders. Numbers of
  events are rationals; the string keys of transcript items are the datatype \<open>item_key\<close>, one
  constructor per format of the code (distinct formats and numbers print distinctly).
  Lemmas: only a message sent by the user gives an owner trigger and a known trigger is stable
  within its turn; transcript keys are unique; the working trace only adds items; the transcript
  reads back the revision instruction.
\<close>

section \<open>Events and messages\<close>

record EventLike =
  ev_type :: string
  ev_seq :: int
  ev_time :: rat
  ev_data :: unknown

definition SOULMIRROR_PLUGIN :: string where
  "SOULMIRROR_PLUGIN = ''soulmirror''"

definition RELAY_FORM :: string where
  "RELAY_FORM = ''relay''"

definition block_text :: "string \<Rightarrow> json \<Rightarrow> string" where
  "block_text ty block =
     (if jprop (Some block) ''type'' = Some (JStr ty) then as_str (jprop (Some block) ''text'') else [])"

definition lf :: char where
  "lf = CHR 0x0A"

definition textOf :: "unknown \<Rightarrow> string" where
  "textOf content = trim (join_with [lf] (filter (\<lambda>t. t \<noteq> []) (map (block_text ''text'') (arr_items content))))"

definition reasoningOf :: "unknown \<Rightarrow> string" where
  "reasoningOf content = trim (join_with [lf] (filter (\<lambda>t. t \<noteq> []) (map (block_text ''reasoning'') (arr_items content))))"

record RelayMeta =
  rm_fp :: string
  rm_id :: string
  rm_ts :: rat
  rm_name :: string
  rm_auto :: bool
  rm_type :: "string option"
  rm_gid :: "string option"
  rm_by :: "string option"
  rm_agent :: "string option"
  rm_note :: "string option"
  rm_draftId :: "string option"

definition relayMetaOf :: "unknown \<Rightarrow> RelayMeta option" where
  "relayMetaOf data =
     (let source = jprop data ''source'' in
      if jprop source ''kind'' \<noteq> Some (JStr ''plugin'') \<or> jprop source ''plugin'' \<noteq> Some (JStr SOULMIRROR_PLUGIN) \<or>
         jprop source ''form'' \<noteq> Some (JStr RELAY_FORM) then None
      else (let a2a = jprop source ''a2a'' in
        Some \<lparr>rm_fp = as_str (jprop a2a ''fp''), rm_id = as_str (jprop a2a ''id''), rm_ts = num_or (jprop a2a ''ts'') 0,
          rm_name = as_str (jprop source ''senderSessionId''), rm_auto = is_true (jprop a2a ''auto''),
          rm_type = str_opt (jprop a2a ''type''),
          rm_gid = nonempty_opt (as_str (jprop a2a ''gid'')),
          rm_by = nonempty_opt (as_str (jprop a2a ''by'')),
          rm_agent = nonempty_opt (as_str (jprop a2a ''agent'')),
          rm_note = str_opt (jprop a2a ''note''),
          rm_draftId = str_opt (jprop a2a ''draftId'')\<rparr>))"

datatype message_class = COwner | CInbound RelayMeta | CInboundAuto RelayMeta | CGroup RelayMeta | CNote RelayMeta | COther

text \<open>The class carries the relay block the callers read again with \<open>relayMetaOf(data)!\<close>.\<close>

definition classifyUserMessage :: "unknown \<Rightarrow> message_class" where
  "classifyUserMessage data =
     (if jprop (jprop data ''source'') ''kind'' = Some (JStr ''user'') then COwner
      else (case relayMetaOf data of
              None \<Rightarrow> COther
            | Some relay \<Rightarrow>
                (if rm_note relay \<noteq> None then CNote relay
                 else if rm_gid relay \<noteq> None then CGroup relay
                 else if rm_auto relay then CInboundAuto relay else CInbound relay)))"

section \<open>The trigger of the current turn\<close>

text \<open>The first loop runs backwards to the last \<open>turn/start\<close> and leaves the events after it.\<close>

fun since_start :: "EventLike list \<Rightarrow> EventLike list \<Rightarrow> EventLike list option" where
  "since_start [] after = None"
| "since_start (e # es) after = (if ev_type e = ''turn/start'' then Some after else since_start es (e # after))"

fun first_trigger :: "EventLike list \<Rightarrow> TurnTrigger" where
  "first_trigger [] = UNKNOWN_TRIGGER"
| "first_trigger (e # es) =
     (if ev_type e \<noteq> ''user/message'' then first_trigger es
      else (case classifyUserMessage (ev_data e) of
              COther \<Rightarrow> first_trigger es
            | CNote _ \<Rightarrow> first_trigger es
            | COwner \<Rightarrow> UNKNOWN_TRIGGER\<lparr>trig_kind := TOwner\<rparr>
            | CGroup r \<Rightarrow> \<lparr>trig_kind = TGroup, trig_fp = Some (rm_fp r), trig_name = Some (rm_name r),
                          trig_messageId = Some (rm_id r), trig_gid = rm_gid r\<rparr>
            | CInbound r \<Rightarrow> \<lparr>trig_kind = TInbound, trig_fp = Some (rm_fp r), trig_name = Some (rm_name r),
                            trig_messageId = Some (rm_id r), trig_gid = None\<rparr>
            | CInboundAuto r \<Rightarrow> \<lparr>trig_kind = TInboundAuto, trig_fp = Some (rm_fp r), trig_name = Some (rm_name r),
                            trig_messageId = Some (rm_id r), trig_gid = None\<rparr>))"

definition triggerOf :: "EventLike list \<Rightarrow> TurnTrigger" where
  "triggerOf events = (case since_start (rev events) [] of None \<Rightarrow> UNKNOWN_TRIGGER | Some after \<Rightarrow> first_trigger after)"

section \<open>Tool results\<close>

datatype SendOutcome = Sent | DraftQueued | Refused | SendFailed

record outcome_view =
  oc_outcome :: SendOutcome
  oc_gate :: "string option"
  oc_draftId :: "string option"
  oc_detail :: "string option"

definition str_or :: "string \<Rightarrow> string \<Rightarrow> string" where
  "str_or a b = (if a = [] then b else a)"

definition first_block :: "unknown \<Rightarrow> unknown" where
  "first_block content = (case arr_items content of [] \<Rightarrow> None | b # _ \<Rightarrow> Some b)"

definition result_json :: "unknown \<Rightarrow> unknown" where
  "result_json data = JSON_parse (textOf (jprop (first_block (jprop (jprop data ''message'') ''content'')) ''content''))"

definition outcomeOf :: "unknown \<Rightarrow> outcome_view" where
  "outcomeOf data =
     (let first = first_block (jprop (jprop data ''message'') ''content'');
          resultText = textOf (jprop first ''content'');
          parsed = JSON_parse resultText;
          errored = (jprop data ''error'' \<noteq> None \<or> is_true (jprop first ''isError''));
          gate = nonempty_opt (as_str (jprop parsed ''gate''));
          draftId = nonempty_opt (as_str (jprop parsed ''draftId''));
          reported = as_str (jprop parsed ''outcome'')
      in if errored then
           \<lparr>oc_outcome = SendFailed, oc_gate = gate, oc_draftId = None,
            oc_detail = nonempty_opt (str_or (as_str (jprop (jprop data ''error'') ''message''))
              (str_or (as_str (jprop parsed ''message'')) (slice_upto resultText 200)))\<rparr>
         else if is_true (jprop parsed ''ok'') \<and> reported = ''draft-queued'' then
           \<lparr>oc_outcome = DraftQueued, oc_gate = gate, oc_draftId = draftId, oc_detail = None\<rparr>
         else if is_true (jprop parsed ''ok'') then
           \<lparr>oc_outcome = Sent, oc_gate = gate, oc_draftId = None, oc_detail = None\<rparr>
         else \<lparr>oc_outcome = Refused, oc_gate = gate, oc_draftId = None,
               oc_detail = nonempty_opt (str_or (as_str (jprop parsed ''message'')) reported)\<rparr>)"

definition turnEndMessage :: "unknown \<Rightarrow> string option" where
  "turnEndMessage reason =
     (let cause = jprop reason ''reason'' in
      case str_opt cause of Some c \<Rightarrow> Some c
      | None \<Rightarrow> (case str_opt (jprop reason ''message'') of Some m \<Rightarrow> Some m
      | None \<Rightarrow> (case str_opt (jprop cause ''message'') of Some m \<Rightarrow> Some m
      | None \<Rightarrow> str_opt (jprop (jprop reason ''error'') ''message''))))"

section \<open>The latest state\<close>

record AlterNote =
  an_text :: string
  an_ts :: rat
  an_seq :: int
  an_turn :: rat

record AlterInstruction =
  ai_text :: string
  ai_ts :: rat
  ai_seq :: int

record AlterSend =
  as_body :: string
  as_fingerprint :: "string option"
  as_ts :: rat
  as_outcome :: "SendOutcome option"
  as_gate :: "string option"
  as_draftId :: "string option"
  as_detail :: "string option"

record AlterTurn =
  at_turn :: rat
  at_reason :: string
  at_failed :: bool
  at_ts :: rat
  at_message :: "string option"
  at_open :: bool

record latest_state =
  ls_instruction :: "AlterInstruction option"
  ls_note :: "AlterNote option"
  ls_sent :: "AlterSend option"
  ls_sendCallId :: "string option"
  ls_turn :: "AlterTurn option"

record AlterLatest =
  al_instruction :: "AlterInstruction option"
  al_note :: "AlterNote option"
  al_sent :: "AlterSend option"
  al_turn :: "AlterTurn option"
  al_trigger :: TurnTrigger
  al_seq :: int

definition EMPTY_LATEST :: AlterLatest where
  "EMPTY_LATEST = \<lparr>al_instruction = None, al_note = None, al_sent = None, al_turn = None,
     al_trigger = UNKNOWN_TRIGGER, al_seq = 0\<rparr>"

definition turn_no :: "AlterTurn option \<Rightarrow> rat" where
  "turn_no t = (case t of None \<Rightarrow> 0 | Some x \<Rightarrow> at_turn x)"

definition or_else :: "'a option \<Rightarrow> 'a option \<Rightarrow> 'a option" where
  "or_else a b = (case a of None \<Rightarrow> b | Some x \<Rightarrow> Some x)"

text \<open>\<open>{ ...sent, ...outcomeOf(data) }\<close>: absent keys keep the earlier value.\<close>

definition spread_outcome :: "outcome_view \<Rightarrow> AlterSend \<Rightarrow> AlterSend" where
  "spread_outcome o' s = s\<lparr>as_outcome := Some (oc_outcome o'), as_gate := or_else (oc_gate o') (as_gate s),
     as_draftId := or_else (oc_draftId o') (as_draftId s), as_detail := or_else (oc_detail o') (as_detail s)\<rparr>"

definition latest_step :: "EventLike \<Rightarrow> latest_state \<Rightarrow> latest_state" where
  "latest_step e s =
     (let data = ev_data e in
      if ev_type e = ''turn/start'' then
        s\<lparr>ls_turn := Some \<lparr>at_turn = num_or (jprop data ''turn'') 0, at_reason = ''open'', at_failed = False,
           at_ts = ev_time e, at_message = None, at_open = True\<rparr>\<rparr>
      else if ev_type e = ''turn/end'' then
        (let reason = jprop data ''reason''; kind = str_or (as_str (jprop reason ''kind'')) ''unknown''
         in s\<lparr>ls_turn := Some \<lparr>at_turn = num_or (jprop data ''turn'') (turn_no (ls_turn s)), at_reason = kind,
              at_failed = (kind \<noteq> ''completed''), at_ts = ev_time e, at_message = turnEndMessage reason,
              at_open = False\<rparr>\<rparr>)
      else if ev_type e = ''user/message'' then
        (if classifyUserMessage data \<noteq> COwner then s
         else (let text = textOf (jprop data ''content'')
               in if text \<noteq> [] then s\<lparr>ls_instruction := Some \<lparr>ai_text = text, ai_ts = ev_time e, ai_seq = ev_seq e\<rparr>\<rparr> else s))
      else if ev_type e = ''assistant/message'' then
        (let text = textOf (jprop (jprop data ''message'') ''content'')
         in if text \<noteq> [] then
              s\<lparr>ls_note := Some \<lparr>an_text = text, an_ts = ev_time e, an_seq = ev_seq e,
                 an_turn = num_or (jprop data ''turn'') (turn_no (ls_turn s))\<rparr>\<rparr> else s)
      else if ev_type e = ''tool/call'' then
        (if jprop data ''name'' \<noteq> Some (JStr ''soulmirror_send_message'') then s
         else (let args = JSON_parse (as_str (jprop data ''arguments''))
               in s\<lparr>ls_sendCallId := Some (as_str (jprop data ''callId'')),
                    ls_sent := Some \<lparr>as_body = as_str (jprop args ''body''),
                      as_fingerprint = nonempty_opt (as_str (jprop args ''fingerprint'')), as_ts = ev_time e,
                      as_outcome = None, as_gate = None, as_draftId = None, as_detail = None\<rparr>\<rparr>))
      else if ev_type e = ''tool/result'' then
        (case (ls_sent s, ls_sendCallId s) of
           (Some sent, Some callId) \<Rightarrow>
             (if as_str (jprop (jprop (jprop data ''message'') ''source'') ''callId'') \<noteq> callId then s
              else s\<lparr>ls_sent := Some (spread_outcome (outcomeOf data) sent)\<rparr>)
         | _ \<Rightarrow> s)
      else s)"

definition no_latest :: latest_state where
  "no_latest = \<lparr>ls_instruction = None, ls_note = None, ls_sent = None, ls_sendCallId = None, ls_turn = None\<rparr>"

definition next_seq :: "EventLike list \<Rightarrow> int" where
  "next_seq events = (if events = [] then 0 else ev_seq (last events) + 1)"

definition latestFromEvents :: "EventLike list \<Rightarrow> AlterLatest" where
  "latestFromEvents events =
     (let s = fold latest_step events no_latest
      in \<lparr>al_instruction = ls_instruction s, al_note = ls_note s, al_sent = ls_sent s, al_turn = ls_turn s,
          al_trigger = triggerOf events, al_seq = next_seq events\<rparr>)"

section \<open>The transcript\<close>

type_synonym phase = "rat \<times> rat"

datatype item_key =
    KOwner int | KAlter int | KIn int | KSend int | KNote int | KTurn int | KTool int
  | KThinkPhase phase | KThinkSeq int | KThinkPhaseSeq phase int

record revise_ref =
  rv_name :: string
  rv_fp :: string

record send_item =
  si_fp :: string
  si_body :: string
  si_outcome :: "SendOutcome option"
  si_gate :: "string option"
  si_draftId :: "string option"
  si_detail :: "string option"
  si_auto :: bool

datatype item_body =
    BOwner string "revise_ref option"
  | BAlter string rat
  | BInbound string string string string bool "string option" "string option"
  | BSend send_item
  | BNote string string string "string option"
  | BTurnFailed rat string "string option"
  | BThinking string "bool option"
  | BTool string string

record AlterChatItem =
  ci_key :: item_key
  ci_ts :: rat
  ci_body :: item_body

record AlterChat =
  ac_items :: "AlterChatItem list"
  ac_running :: bool
  ac_seq :: int

definition EMPTY_CHAT :: AlterChat where
  "EMPTY_CHAT = \<lparr>ac_items = [], ac_running = False, ac_seq = 0\<rparr>"

subsection \<open>The revision instruction\<close>

definition is_fp_char :: "char \<Rightarrow> bool" where
  "is_fp_char c = (let n = (of_char c :: nat) in
     65 \<le> n \<and> n \<le> 90 \<or> 97 \<le> n \<and> n \<le> 122 \<or> 48 \<le> n \<and> n \<le> 57 \<or> n = 95 \<or> n = 45)"

definition REVISE_HEAD :: string where "REVISE_HEAD = ''Revise your draft to ''"
definition REVISE_FP :: string where "REVISE_FP = '' (fingerprint ''"
definition REVISE_FEEDBACK :: string where "REVISE_FEEDBACK = ''My feedback: ''"
definition REVISE_SEND :: string where "REVISE_SEND = lf # ''Send the revised message''"

text \<open>
  \<open>REVISE_INSTRUCTION.exec\<close>: the name is the shortest non-empty run without line breaks after
  which the rest of the pattern matches; the two lazy gaps end at the first occurrence of what
  follows them (a later one would leave less text to match).
\<close>

definition revise_tail :: "string \<Rightarrow> (string \<times> string) option" where
  "revise_tail s =
     (if \<not> startsWith s REVISE_FP then None
      else (let u = drop (length REVISE_FP) s; fp = takeWhile is_fp_char u; v = dropWhile is_fp_char u in
        if fp = [] \<or> \<not> startsWith v '').'' then None
        else (let w = drop 2 v in
          case indexOf w REVISE_FEEDBACK 0 of
            None \<Rightarrow> None
          | Some i \<Rightarrow>
              (let z = drop (i + length REVISE_FEEDBACK) w in
               case indexOf z REVISE_SEND 0 of None \<Rightarrow> None | Some j \<Rightarrow> Some (fp, take j z)))))"

fun revise_name :: "string \<Rightarrow> string \<Rightarrow> (string \<times> string \<times> string) option" where
  "revise_name name [] = None"
| "revise_name name (c # s) =
     (if c = lf \<or> c = CHR 0x0D then None
      else (case revise_tail s of
              Some (fp, feedback) \<Rightarrow> Some (rev (c # name), fp, feedback)
            | None \<Rightarrow> revise_name (c # name) s))"

definition REVISE_INSTRUCTION :: "string \<Rightarrow> (string \<times> string \<times> string) option" where
  "REVISE_INSTRUCTION text =
     (if startsWith text REVISE_HEAD then revise_name [] (drop (length REVISE_HEAD) text) else None)"

definition bodyOfRelayText :: "string \<Rightarrow> string" where
  "bodyOfRelayText text = (case indexOf text [lf] 0 of None \<Rightarrow> text | Some i \<Rightarrow> drop (Suc i) text)"

definition NOTE_PREFIX :: string where
  "NOTE_PREFIX = ''[SoulMirror note]''"

definition strip_note :: "string \<Rightarrow> string" where
  "strip_note text = (if startsWith text NOTE_PREFIX then trimStart (drop (length NOTE_PREFIX) text) else text)"

subsection \<open>The fold\<close>

record chat_state =
  cs_items :: "AlterChatItem list"
  cs_send :: "(string, nat) al"
  cs_think :: "(phase, nat) al"
  cs_running :: bool
  cs_turn :: rat

definition new_chat :: chat_state where
  "new_chat = \<lparr>cs_items = [], cs_send = [], cs_think = [], cs_running = False, cs_turn = 0\<rparr>"

definition push :: "item_key \<Rightarrow> rat \<Rightarrow> item_body \<Rightarrow> chat_state \<Rightarrow> chat_state" where
  "push k ts b s = s\<lparr>cs_items := cs_items s @ [\<lparr>ci_key = k, ci_ts = ts, ci_body = b\<rparr>]\<rparr>"

definition set_body :: "nat \<Rightarrow> item_body \<Rightarrow> chat_state \<Rightarrow> chat_state" where
  "set_body i b s = s\<lparr>cs_items := (cs_items s)[i := (cs_items s ! i)\<lparr>ci_body := b\<rparr>]\<rparr>"

definition finalizeThinking :: "phase \<Rightarrow> string \<Rightarrow> chat_state \<Rightarrow> chat_state" where
  "finalizeThinking ph full s =
     (case al_get (cs_think s) ph of
        None \<Rightarrow> s
      | Some i \<Rightarrow> (case ci_body (cs_items s ! i) of
           BThinking t st \<Rightarrow> set_body i (BThinking (if full = [] then t else full) (Some False)) s
         | _ \<Rightarrow> s))"

definition appendThinking :: "phase \<Rightarrow> string \<Rightarrow> rat \<Rightarrow> chat_state \<Rightarrow> chat_state" where
  "appendThinking ph delta ts s =
     (case al_get (cs_think s) ph of
        None \<Rightarrow> (let s' = push (KThinkPhase ph) ts (BThinking delta (Some True)) s
                 in s'\<lparr>cs_think := al_set ph (length (cs_items s') - 1) (cs_think s')\<rparr>)
      | Some i \<Rightarrow> (case ci_body (cs_items s ! i) of
           BThinking t st \<Rightarrow> set_body i (BThinking (t @ delta) st) s
         | _ \<Rightarrow> s))"

definition stop_streaming :: "nat \<Rightarrow> chat_state \<Rightarrow> chat_state" where
  "stop_streaming i s =
     (case ci_body (cs_items s ! i) of
        BThinking t (Some True) \<Rightarrow> set_body i (BThinking t (Some False)) s
      | _ \<Rightarrow> s)"

definition phase_of :: "unknown \<Rightarrow> chat_state \<Rightarrow> phase" where
  "phase_of data s = (num_or (jprop data ''turn'') (cs_turn s), num_or (jprop data ''step'') 0)"

definition on_turn_end :: "EventLike \<Rightarrow> chat_state \<Rightarrow> chat_state" where
  "on_turn_end e s =
     (let s1 = fold stop_streaming (map snd (cs_think s)) (s\<lparr>cs_running := False\<rparr>);
          reason = jprop (ev_data e) ''reason''; kind = str_or (as_str (jprop reason ''kind'')) ''unknown''
      in if kind \<noteq> ''completed'' then
           push (KTurn (ev_seq e)) (ev_time e)
             (BTurnFailed (num_or (jprop (ev_data e) ''turn'') (cs_turn s1)) kind (turnEndMessage reason)) s1
         else s1)"

definition on_inbound :: "EventLike \<Rightarrow> RelayMeta \<Rightarrow> chat_state \<Rightarrow> chat_state" where
  "on_inbound e r s =
     push (KIn (ev_seq e)) (if rm_ts r > 0 then rm_ts r else ev_time e)
       (BInbound (rm_fp r) (rm_name r) (rm_id r) (bodyOfRelayText (textOf (jprop (ev_data e) ''content'')))
          (rm_auto r) (rm_type r) (rm_gid r)) s"

definition on_user_message :: "EventLike \<Rightarrow> chat_state \<Rightarrow> chat_state" where
  "on_user_message e s =
     (let text = textOf (jprop (ev_data e) ''content'') in
      case classifyUserMessage (ev_data e) of
        COwner \<Rightarrow>
          (if text = [] then s
           else (case REVISE_INSTRUCTION text of
                   None \<Rightarrow> push (KOwner (ev_seq e)) (ev_time e) (BOwner text None) s
                 | Some (nm, fp, feedback) \<Rightarrow>
                     push (KOwner (ev_seq e)) (ev_time e)
                       (BOwner (trim feedback) (Some \<lparr>rv_name = nm, rv_fp = fp\<rparr>)) s))
      | COther \<Rightarrow> s
      | CNote r \<Rightarrow>
          push (KNote (ev_seq e)) (ev_time e)
            (BNote (case rm_note r of None \<Rightarrow> [] | Some n \<Rightarrow> n) (rm_fp r) (strip_note text) (rm_draftId r)) s
      | CInbound r \<Rightarrow> on_inbound e r s
      | CInboundAuto r \<Rightarrow> on_inbound e r s
      | CGroup r \<Rightarrow> on_inbound e r s)"

definition note_thinking :: "item_key \<Rightarrow> rat \<Rightarrow> phase \<Rightarrow> string \<Rightarrow> chat_state \<Rightarrow> chat_state" where
  "note_thinking k ts ph full s =
     (if al_get (cs_think s) ph \<noteq> None then finalizeThinking ph full s
      else if full \<noteq> [] then push k ts (BThinking full None) s else s)"

definition on_assistant_message :: "bool \<Rightarrow> EventLike \<Rightarrow> chat_state \<Rightarrow> chat_state" where
  "on_assistant_message process e s =
     (let content = jprop (jprop (ev_data e) ''message'') ''content'';
          s1 = (if process then note_thinking (KThinkSeq (ev_seq e)) (ev_time e) (phase_of (ev_data e) s) (reasoningOf content) s else s);
          text = textOf content
      in if text \<noteq> [] then
           push (KAlter (ev_seq e)) (ev_time e) (BAlter text (num_or (jprop (ev_data e) ''turn'') (cs_turn s1))) s1
         else s1)"

definition on_chunk :: "EventLike \<Rightarrow> chat_state \<Rightarrow> chat_state" where
  "on_chunk e s =
     (let chunk = jprop (ev_data e) ''chunk''; ph = phase_of (ev_data e) s; ctype = as_str (jprop chunk ''type'')
      in if ctype = ''block-end'' \<and> as_str (jprop (jprop chunk ''block'') ''type'') = ''reasoning'' then
           note_thinking (KThinkPhaseSeq ph (ev_seq e)) (ev_time e) ph (as_str (jprop (jprop chunk ''block'') ''text'')) s
         else (let delta = (if ctype = ''reasoning-delta'' then
                       str_or (as_str (jprop chunk ''text'')) (str_or (as_str (jprop chunk ''textDelta'')) (as_str (jprop chunk ''delta'')))
                     else [])
               in if delta \<noteq> [] then appendThinking ph delta (ev_time e) s else s))"

definition on_reasoning_chunks :: "EventLike \<Rightarrow> chat_state \<Rightarrow> chat_state" where
  "on_reasoning_chunks e s =
     (let texts = List.map_filter (\<lambda>j. str_opt (Some j)) (arr_items (jprop (ev_data e) ''texts''))
      in if texts = [] then s else appendThinking (phase_of (ev_data e) s) (concat texts) (ev_time e) s)"

definition on_tool_call :: "bool \<Rightarrow> EventLike \<Rightarrow> chat_state \<Rightarrow> chat_state" where
  "on_tool_call process e s =
     (let data = ev_data e; toolName = as_str (jprop data ''name'') in
      if toolName \<noteq> ''soulmirror_send_message'' \<and> toolName \<noteq> ''soulmirror_send_group_message'' then
        (if process then push (KTool (ev_seq e)) (ev_time e) (BTool toolName (slice_upto (as_str (jprop data ''arguments'')) 200)) s else s)
      else (let args = JSON_parse (as_str (jprop data ''arguments'')); callId = as_str (jprop data ''callId'');
                s1 = push (KSend (ev_seq e)) (ev_time e)
                  (BSend \<lparr>si_fp = str_or (as_str (jprop args ''fingerprint'')) (as_str (jprop args ''gid'')),
                     si_body = as_str (jprop args ''body''), si_outcome = None, si_gate = None, si_draftId = None,
                     si_detail = None, si_auto = False\<rparr>) s
            in if callId \<noteq> [] then s1\<lparr>cs_send := al_set callId (length (cs_items s1) - 1) (cs_send s1)\<rparr> else s1))"

definition apply_outcome :: "unknown \<Rightarrow> send_item \<Rightarrow> send_item" where
  "apply_outcome data p =
     (let o' = outcomeOf data in
      p\<lparr>si_outcome := Some (oc_outcome o'), si_gate := or_else (oc_gate o') (si_gate p),
        si_draftId := or_else (oc_draftId o') (si_draftId p), si_detail := or_else (oc_detail o') (si_detail p),
        si_auto := is_true (jprop (result_json data) ''auto'')\<rparr>)"

definition on_tool_result :: "EventLike \<Rightarrow> chat_state \<Rightarrow> chat_state" where
  "on_tool_result e s =
     (let data = ev_data e; callId = as_str (jprop (jprop (jprop data ''message'') ''source'') ''callId'') in
      case al_get (cs_send s) callId of
        None \<Rightarrow> s
      | Some i \<Rightarrow> (case ci_body (cs_items s ! i) of
           BSend p \<Rightarrow> set_body i (BSend (apply_outcome data p)) s
         | _ \<Rightarrow> s))"

definition chat_step :: "bool \<Rightarrow> EventLike \<Rightarrow> chat_state \<Rightarrow> chat_state" where
  "chat_step process e s =
     (if ev_type e = ''turn/start'' then
        s\<lparr>cs_running := True, cs_turn := num_or (jprop (ev_data e) ''turn'') (cs_turn s)\<rparr>
      else if ev_type e = ''turn/end'' then on_turn_end e s
      else if ev_type e = ''user/message'' then on_user_message e s
      else if ev_type e = ''assistant/message'' then on_assistant_message process e s
      else if ev_type e = ''assistant/chunk'' then (if process then on_chunk e s else s)
      else if ev_type e = ''reasoning-chunks'' then (if process then on_reasoning_chunks e s else s)
      else if ev_type e = ''tool/call'' then on_tool_call process e s
      else if ev_type e = ''tool/result'' then on_tool_result e s
      else s)"

definition chatFromEvents :: "EventLike list \<Rightarrow> bool \<Rightarrow> AlterChat" where
  "chatFromEvents events process =
     (let s = fold (chat_step process) events new_chat
      in \<lparr>ac_items = cs_items s, ac_running = cs_running s, ac_seq = next_seq events\<rparr>)"

definition ALTER_EVENT_TYPES :: "string list" where
  "ALTER_EVENT_TYPES = [''turn/start'', ''turn/end'', ''user/message'', ''assistant/message'', ''tool/call'', ''tool/result'']"

section \<open>The trigger\<close>

definition owner_message :: "EventLike \<Rightarrow> bool" where
  "owner_message e = (ev_type e = ''user/message'' \<and> jprop (jprop (ev_data e) ''source'') ''kind'' = Some (JStr ''user''))"

text \<open>A message that can name a trigger: the owner's, or relayed mail that is not a note.\<close>

definition attributable :: "EventLike \<Rightarrow> bool" where
  "attributable e = (ev_type e = ''user/message'' \<and>
     (owner_message e \<or> (\<exists>r. relayMetaOf (ev_data e) = Some r \<and> rm_note r = None)))"

lemma classify_owner: "classifyUserMessage d = COwner \<longleftrightarrow> jprop (jprop d ''source'') ''kind'' = Some (JStr ''user'')"
  by (auto simp: classifyUserMessage_def split: option.splits)

lemma first_trigger_kind:
  "trig_kind (first_trigger es) = TUnknown \<longleftrightarrow> (\<forall>e \<in> set es. \<not> attributable e)"
proof (induction es)
  case (Cons e es)
  then show ?case
    by (auto simp: attributable_def owner_message_def classifyUserMessage_def split: option.splits if_splits)
qed (simp add: UNKNOWN_TRIGGER_def)

lemma first_trigger_append:
  "first_trigger (xs @ ys) = (if trig_kind (first_trigger xs) = TUnknown then first_trigger ys else first_trigger xs)"
  by (induction xs) (auto simp: UNKNOWN_TRIGGER_def split: message_class.split)

lemma since_start_after: "since_start es (xs @ ys) = map_option (\<lambda>l. l @ ys) (since_start es xs)"
proof (induction es arbitrary: xs)
  case (Cons e es)
  then show ?case using Cons.IH [of "e # xs"] by simp
qed simp

lemma since_start_snoc:
  "since_start (rev (evs @ [e])) [] =
     (if ev_type e = ''turn/start'' then Some [] else map_option (\<lambda>l. l @ [e]) (since_start (rev evs) []))"
  using since_start_after [of "rev evs" "[]" "[e]"] by simp

lemma since_start_Some:
  "since_start (rev evs) [] = Some l \<longleftrightarrow>
     (\<exists>pre st. evs = pre @ st # l \<and> ev_type st = ''turn/start'' \<and> (\<forall>e \<in> set l. ev_type e \<noteq> ''turn/start''))"
proof (induction evs arbitrary: l rule: rev_induct)
  case (snoc e evs)
  show ?case
  proof (cases "ev_type e = ''turn/start''")
    case True
    have "(\<exists>pre st. evs @ [e] = pre @ st # l \<and> ev_type st = ''turn/start'' \<and> (\<forall>e \<in> set l. ev_type e \<noteq> ''turn/start'')) \<longleftrightarrow> l = []"
      using True by (cases l rule: rev_cases) auto
    then show ?thesis using True by (auto simp: since_start_snoc)
  next
    case False
    have "since_start (rev (evs @ [e])) [] = Some l \<longleftrightarrow> (\<exists>l'. l = l' @ [e] \<and> since_start (rev evs) [] = Some l')"
      unfolding since_start_snoc using False by auto
    also have "\<dots> \<longleftrightarrow> (\<exists>pre st. evs @ [e] = pre @ st # l \<and> ev_type st = ''turn/start'' \<and> (\<forall>e \<in> set l. ev_type e \<noteq> ''turn/start''))"
      using False by (cases l rule: rev_cases) (auto simp: snoc.IH)
    finally show ?thesis .
  qed
qed simp

lemma triggerOf_snoc:
  assumes "trig_kind (triggerOf evs) \<noteq> TUnknown" "ev_type e \<noteq> ''turn/start''"
  shows "triggerOf (evs @ [e]) = triggerOf evs"
  using assms unfolding triggerOf_def since_start_snoc
  by (auto simp: first_trigger_append UNKNOWN_TRIGGER_def split: option.splits)

lemma triggerOf_append:
  assumes "trig_kind (triggerOf evs) \<noteq> TUnknown" "\<forall>e \<in> set later. ev_type e \<noteq> ''turn/start''"
  shows "triggerOf (evs @ later) = triggerOf evs"
  using assms
proof (induction later rule: rev_induct)
  case (snoc e later)
  then show ?case using triggerOf_snoc [of "evs @ later" e] by simp
qed simp

lemma first_in_Cons:
  "(\<exists>mid m post. e # es = mid @ m # post \<and> P m \<and> (\<forall>x \<in> set mid. \<not> A x)) \<longleftrightarrow>
     P e \<or> \<not> A e \<and> (\<exists>mid m post. es = mid @ m # post \<and> P m \<and> (\<forall>x \<in> set mid. \<not> A x))" (is "?L \<longleftrightarrow> ?R")
proof
  assume ?L
  then obtain mid m post where d: "e # es = mid @ m # post" "P m" "\<forall>x \<in> set mid. \<not> A x" by blast
  then show ?R by (cases mid) auto
next
  assume ?R
  then show ?L
  proof
    assume "P e"
    then show ?L by (intro exI [of _ "[]"]) auto
  next
    assume "\<not> A e \<and> (\<exists>mid m post. es = mid @ m # post \<and> P m \<and> (\<forall>x \<in> set mid. \<not> A x))"
    then obtain mid m post where "\<not> A e" "es = mid @ m # post" "P m" "\<forall>x \<in> set mid. \<not> A x" by blast
    then show ?L by (intro exI [of _ "e # mid"] exI [of _ m] exI [of _ post]) auto
  qed
qed

lemma first_trigger_Cons_owner:
  "trig_kind (first_trigger (e # es)) = TOwner \<longleftrightarrow>
     owner_message e \<or> \<not> attributable e \<and> trig_kind (first_trigger es) = TOwner"
proof (cases "ev_type e = ''user/message'' \<and> jprop (jprop (ev_data e) ''source'') ''kind'' \<noteq> Some (JStr ''user'')")
  case True
  then show ?thesis
    by (cases "relayMetaOf (ev_data e)") (simp_all add: attributable_def owner_message_def classifyUserMessage_def)
qed (auto simp: attributable_def owner_message_def classifyUserMessage_def)

lemma first_trigger_owner:
  "trig_kind (first_trigger es) = TOwner \<longleftrightarrow>
     (\<exists>mid m post. es = mid @ m # post \<and> owner_message m \<and> (\<forall>e \<in> set mid. \<not> attributable e))"
proof (induction es)
  case (Cons e es)
  then show ?case unfolding first_in_Cons first_trigger_Cons_owner by simp
qed (simp add: UNKNOWN_TRIGGER_def)

section \<open>The transcript\<close>

lemma set_body_items_len [simp]: "length (cs_items (set_body i b s)) = length (cs_items s)"
  by (simp add: set_body_def)

lemma keys_update: "map ci_key (xs[i := (xs ! i)\<lparr>ci_body := b\<rparr>]) = map ci_key xs"
  by (cases "i < length xs") (auto simp: list_eq_iff_nth_eq nth_list_update)

lemma keys_set_body [simp]: "map ci_key (cs_items (set_body i b s)) = map ci_key (cs_items s)"
  by (simp add: set_body_def keys_update)

lemma set_body_other [simp]:
  "cs_send (set_body i b s) = cs_send s" "cs_think (set_body i b s) = cs_think s"
  "cs_running (set_body i b s) = cs_running s" "cs_turn (set_body i b s) = cs_turn s"
  by (simp_all add: set_body_def)

lemma push_other [simp]:
  "cs_send (push k ts b s) = cs_send s" "cs_think (push k ts b s) = cs_think s"
  "cs_running (push k ts b s) = cs_running s" "cs_turn (push k ts b s) = cs_turn s"
  "cs_items (push k ts b s) = cs_items s @ [\<lparr>ci_key = k, ci_ts = ts, ci_body = b\<rparr>]"
  by (simp_all add: push_def)

lemma stop_streaming_other [simp]:
  "cs_send (stop_streaming i s) = cs_send s" "cs_think (stop_streaming i s) = cs_think s"
  "cs_running (stop_streaming i s) = cs_running s" "cs_turn (stop_streaming i s) = cs_turn s"
  "map ci_key (cs_items (stop_streaming i s)) = map ci_key (cs_items s)"
  by (auto simp: stop_streaming_def split: item_body.split option.split bool.split)

lemma fold_stop_other [simp]:
  "cs_send (fold stop_streaming is s) = cs_send s" "cs_think (fold stop_streaming is s) = cs_think s"
  "cs_running (fold stop_streaming is s) = cs_running s" "cs_turn (fold stop_streaming is s) = cs_turn s"
  "map ci_key (cs_items (fold stop_streaming is s)) = map ci_key (cs_items s)"
  by (induction "is" arbitrary: s) simp_all

lemma finalize_other [simp]:
  "cs_send (finalizeThinking ph t s) = cs_send s" "cs_think (finalizeThinking ph t s) = cs_think s"
  "cs_running (finalizeThinking ph t s) = cs_running s" "cs_turn (finalizeThinking ph t s) = cs_turn s"
  "map ci_key (cs_items (finalizeThinking ph t s)) = map ci_key (cs_items s)"
  by (auto simp: finalizeThinking_def split: item_body.split option.split)

text \<open>What every handler does to the running flag.\<close>

lemma note_thinking_running [simp]: "cs_running (note_thinking k ts ph t s) = cs_running s"
  by (simp add: note_thinking_def)

lemma appendThinking_running [simp]: "cs_running (appendThinking ph d ts s) = cs_running s"
  by (auto simp: appendThinking_def Let_def split: option.split item_body.split)

lemma handlers_running [simp]:
  "cs_running (on_turn_end e s) = False"
  "cs_running (on_user_message e s) = cs_running s"
  "cs_running (on_assistant_message p e s) = cs_running s"
  "cs_running (on_chunk e s) = cs_running s"
  "cs_running (on_reasoning_chunks e s) = cs_running s"
  "cs_running (on_tool_call p e s) = cs_running s"
  "cs_running (on_tool_result e s) = cs_running s"
  by (simp add: on_turn_end_def Let_def)
    (simp add: on_user_message_def on_inbound_def Let_def split: message_class.split option.split,
     simp add: on_assistant_message_def Let_def, simp add: on_chunk_def Let_def,
     simp add: on_reasoning_chunks_def Let_def, simp add: on_tool_call_def Let_def,
     simp add: on_tool_result_def Let_def split: option.split item_body.split)

lemma chat_step_running:
  "cs_running (chat_step p e s) =
     (if ev_type e = ''turn/start'' then True else if ev_type e = ''turn/end'' then False else cs_running s)"
  by (simp add: chat_step_def)

lemma latest_step_turn:
  "(case ls_turn (latest_step e s) of None \<Rightarrow> False | Some t \<Rightarrow> at_open t) =
     (if ev_type e = ''turn/start'' then True else if ev_type e = ''turn/end'' then False
      else (case ls_turn s of None \<Rightarrow> False | Some t \<Rightarrow> at_open t))"
  by (auto simp: latest_step_def Let_def split: option.split)

lemma running_agrees:
  "cs_running (fold (chat_step p) evs c) = (case ls_turn (fold latest_step evs l) of None \<Rightarrow> False | Some t \<Rightarrow> at_open t)"
  if "cs_running c = (case ls_turn l of None \<Rightarrow> False | Some t \<Rightarrow> at_open t)"
  using that by (induction evs arbitrary: c l) (simp_all add: chat_step_running latest_step_turn)

section \<open>Keys of the transcript\<close>

fun key_seq :: "item_key \<Rightarrow> int option" where
  "key_seq (KThinkPhase _) = None"
| "key_seq (KOwner n) = Some n" | "key_seq (KAlter n) = Some n" | "key_seq (KIn n) = Some n"
| "key_seq (KSend n) = Some n" | "key_seq (KNote n) = Some n" | "key_seq (KTurn n) = Some n"
| "key_seq (KTool n) = Some n" | "key_seq (KThinkSeq n) = Some n" | "key_seq (KThinkPhaseSeq _ n) = Some n"

definition state_keys :: "chat_state \<Rightarrow> item_key list" where
  "state_keys s = map ci_key (cs_items s)"

definition keys_inv :: "int \<Rightarrow> chat_state \<Rightarrow> bool" where
  "keys_inv b s = (distinct (state_keys s) \<and> (\<forall>k \<in> set (state_keys s). \<forall>n. key_seq k = Some n \<longrightarrow> n < b) \<and>
     (\<forall>ph. KThinkPhase ph \<in> set (state_keys s) \<longrightarrow> al_get (cs_think s) ph \<noteq> None))"

lemma keys_inv_mono: "keys_inv b s \<Longrightarrow> b \<le> c \<Longrightarrow> keys_inv c s"
  by (fastforce simp: keys_inv_def)

lemma keys_inv_cong:
  "map ci_key (cs_items t) = map ci_key (cs_items s) \<Longrightarrow> cs_think t = cs_think s \<Longrightarrow> keys_inv b t = keys_inv b s"
  by (simp add: keys_inv_def state_keys_def)

text \<open>Pushing an item whose key carries the sequence number of the current event.\<close>

lemma keys_inv_push:
  assumes "keys_inv b s" "key_seq k = Some n" "b \<le> n" "n < c"
  shows "keys_inv c (push k ts bd s)"
proof -
  have "k \<notin> set (state_keys s)" using assms by (fastforce simp: keys_inv_def)
  moreover have "k \<noteq> KThinkPhase ph" for ph using assms(2) by auto
  ultimately show ?thesis using assms by (fastforce simp: keys_inv_def state_keys_def)
qed

text \<open>\<open>pushes\<close> leaves room for one more item of the same event with another key.\<close>

definition fresh :: "item_key \<Rightarrow> chat_state \<Rightarrow> bool" where
  "fresh k s = (k \<notin> set (state_keys s))"

lemma keys_inv_push_fresh:
  assumes "keys_inv c s" "key_seq k = Some n" "n < c" "fresh k s"
  shows "keys_inv c (push k ts bd s)"
  using assms by (auto simp: keys_inv_def state_keys_def fresh_def)

lemma keys_inv_finalize: "keys_inv b (finalizeThinking ph t s) = keys_inv b s"
  by (rule keys_inv_cong) simp_all

lemma keys_inv_append:
  assumes "keys_inv b s"
  shows "keys_inv b (appendThinking ph d ts s)"
proof (cases "al_get (cs_think s) ph")
  case None
  then have "KThinkPhase ph \<notin> set (state_keys s)" using assms unfolding keys_inv_def by blast
  then show ?thesis using assms None by (auto simp: keys_inv_def state_keys_def appendThinking_def Let_def)
next
  case (Some i)
  have "map ci_key (cs_items (appendThinking ph d ts s)) = map ci_key (cs_items s)"
    "cs_think (appendThinking ph d ts s) = cs_think s"
    using Some by (auto simp: appendThinking_def split: item_body.split)
  then show ?thesis using assms keys_inv_cong by metis
qed

lemma keys_inv_note:
  assumes "keys_inv b s" "key_seq k = Some n" "b \<le> n" "n < c"
  shows "keys_inv c (note_thinking k ts ph t s)"
  using keys_inv_push [OF assms] keys_inv_mono [OF assms(1), of c] assms
  by (auto simp: note_thinking_def keys_inv_finalize)

lemma keys_inv_chat_step:
  assumes "keys_inv b s" "b \<le> ev_seq e"
  shows "keys_inv (ev_seq e + 1) (chat_step p e s)"
proof -
  let ?c = "ev_seq e + 1"
  have c: "keys_inv ?c s" using assms keys_inv_mono by simp
  have push: "keys_inv ?c (push k ts bd s)" if "key_seq k = Some (ev_seq e)" for k ts bd
    by (rule keys_inv_push [OF assms(1) that assms(2)]) simp
  have turn_end: "keys_inv ?c (on_turn_end e s)"
  proof -
    let ?s1 = "fold stop_streaming (map snd (cs_think s)) (s\<lparr>cs_running := False\<rparr>)"
    have s1: "keys_inv b ?s1" using assms(1) by (subst keys_inv_cong [of _ s]) simp_all
    show ?thesis
      using keys_inv_push [OF s1, of "KTurn (ev_seq e)" "ev_seq e" ?c] keys_inv_mono [OF s1, of ?c] assms(2)
      by (simp add: on_turn_end_def Let_def)
  qed
  have user: "keys_inv ?c (on_user_message e s)"
    using c push by (simp add: on_user_message_def on_inbound_def Let_def split: message_class.split option.split)
  have assistant: "keys_inv ?c (on_assistant_message p e s)"
  proof -
    define s1 where "s1 = (if p then note_thinking (KThinkSeq (ev_seq e)) (ev_time e) (phase_of (ev_data e) s)
        (reasoningOf (jprop (jprop (ev_data e) ''message'') ''content'')) s else s)"
    have i1: "keys_inv ?c s1"
      using c keys_inv_note [OF assms(1), of "KThinkSeq (ev_seq e)" "ev_seq e" ?c] assms(2) by (simp add: s1_def)
    have "KAlter (ev_seq e) \<notin> set (state_keys s)" using assms by (fastforce simp: keys_inv_def)
    then have "fresh (KAlter (ev_seq e)) s1"
      by (auto simp: s1_def note_thinking_def fresh_def state_keys_def simp flip: set_map)
    then show ?thesis
      using i1 keys_inv_push_fresh [OF i1, of "KAlter (ev_seq e)" "ev_seq e"]
      by (simp add: on_assistant_message_def Let_def flip: s1_def)
  qed
  have chunk: "keys_inv ?c (on_chunk e s)"
    using c keys_inv_append [OF c] keys_inv_note [OF assms(1), of _ "ev_seq e" ?c] assms(2)
    by (simp add: on_chunk_def Let_def)
  have chunks: "keys_inv ?c (on_reasoning_chunks e s)"
    using c keys_inv_append [OF c] by (simp add: on_reasoning_chunks_def Let_def)
  have call: "keys_inv ?c (on_tool_call p e s)"
  proof -
    have "keys_inv ?c (u\<lparr>cs_send := m\<rparr>) = keys_inv ?c u" for u m by (rule keys_inv_cong) simp_all
    then show ?thesis using c push by (simp add: on_tool_call_def Let_def)
  qed
  have result: "keys_inv ?c (on_tool_result e s)"
  proof -
    have "keys_inv ?c (set_body i bd s)" for i bd using c by (subst keys_inv_cong [of _ s]) simp_all
    then show ?thesis using c by (simp add: on_tool_result_def Let_def split: option.split item_body.split)
  qed
  have start: "keys_inv ?c (s\<lparr>cs_running := r, cs_turn := t\<rparr>)" for r t
    using c by (subst keys_inv_cong [of _ s]) simp_all
  show ?thesis using c start turn_end user assistant chunk chunks call result by (simp add: chat_step_def)
qed

lemma keys_inv_fold:
  "sorted_wrt (<) (map ev_seq evs) \<Longrightarrow> \<forall>e \<in> set evs. b \<le> ev_seq e \<Longrightarrow> keys_inv b s \<Longrightarrow>
   \<exists>c. keys_inv c (fold (chat_step p) evs s)"
proof (induction evs arbitrary: b s)
  case (Cons e evs)
  have "keys_inv (ev_seq e + 1) (chat_step p e s)" using Cons.prems by (intro keys_inv_chat_step) auto
  moreover have "\<forall>x \<in> set evs. ev_seq e + 1 \<le> ev_seq x" using Cons.prems by auto
  ultimately show ?case using Cons.IH [of "ev_seq e + 1" "chat_step p e s"] Cons.prems by simp
qed auto

section \<open>The working trace\<close>

definition visible :: "AlterChatItem \<Rightarrow> bool" where
  "visible it = (case ci_body it of BThinking _ _ \<Rightarrow> False | BTool _ _ \<Rightarrow> False | _ \<Rightarrow> True)"

definition thinking_item :: "AlterChatItem \<Rightarrow> bool" where
  "thinking_item it = (case ci_body it of BThinking _ _ \<Rightarrow> True | _ \<Rightarrow> False)"

lemma visible_body [simp]:
  "visible (it\<lparr>ci_body := b\<rparr>) = visible \<lparr>ci_key = k, ci_ts = t, ci_body = b\<rparr>"
  "thinking_item (it\<lparr>ci_body := b\<rparr>) = thinking_item \<lparr>ci_key = k, ci_ts = t, ci_body = b\<rparr>"
  by (simp_all add: visible_def thinking_item_def)

lemma visible_simps:
  "\<not> visible \<lparr>ci_key = k, ci_ts = t, ci_body = BThinking x y\<rparr>" "\<not> visible \<lparr>ci_key = k, ci_ts = t, ci_body = BTool u v\<rparr>"
  "thinking_item \<lparr>ci_key = k, ci_ts = t, ci_body = BThinking x y\<rparr>" "thinking_item it \<Longrightarrow> \<not> visible it"
  by (auto simp: visible_def thinking_item_def split: item_body.splits)

text \<open>Position in the filtered list of the element at a position of the full list.\<close>

definition rank :: "('a \<Rightarrow> bool) \<Rightarrow> 'a list \<Rightarrow> nat \<Rightarrow> nat" where
  "rank P xs i = length (filter P (take i xs))"

lemma rank_map: "rank P xs i = length (filter id (take i (map P xs)))"
  by (simp add: rank_def take_map filter_map comp_def)

lemma rank_nth:
  assumes "i < length xs" "P (xs ! i)"
  shows "filter P xs ! rank P xs i = xs ! i" "rank P xs i < length (filter P xs)"
proof -
  have "filter P xs = filter P (take i xs @ xs ! i # drop (Suc i) xs)"
    using id_take_nth_drop [OF assms(1)] by simp
  then have "filter P xs = filter P (take i xs) @ xs ! i # filter P (drop (Suc i) xs)" using assms(2) by simp
  then show "filter P xs ! rank P xs i = xs ! i" "rank P xs i < length (filter P xs)"
    by (simp_all add: rank_def)
qed

lemma filter_update:
  assumes "i < length xs"
  shows "P (xs ! i) \<Longrightarrow> P y \<Longrightarrow> filter P (xs[i := y]) = (filter P xs)[rank P xs i := y]"
    and "\<not> P (xs ! i) \<Longrightarrow> \<not> P y \<Longrightarrow> filter P (xs[i := y]) = filter P xs"
proof -
  have u: "xs[i := y] = take i xs @ y # drop (Suc i) xs" by (rule upd_conv_take_nth_drop [OF assms])
  have x: "filter P xs = filter P (take i xs) @ (if P (xs ! i) then [xs ! i] else []) @ filter P (drop (Suc i) xs)"
    by (subst id_take_nth_drop [OF assms]) simp
  show "P (xs ! i) \<Longrightarrow> P y \<Longrightarrow> filter P (xs[i := y]) = (filter P xs)[rank P xs i := y]"
    by (simp add: u x rank_def)
  show "\<not> P (xs ! i) \<Longrightarrow> \<not> P y \<Longrightarrow> filter P (xs[i := y]) = filter P xs" by (simp add: u x)
qed

lemma rank_update: "P y = P (xs ! i) \<Longrightarrow> rank P (xs[i := y]) = rank P xs"
proof -
  assume "P y = P (xs ! i)"
  then have "map P (xs[i := y]) = map P xs"
    by (cases "i < length xs") (simp_all add: map_update list_update_same_conv list_update_beyond)
  then show ?thesis by (simp add: fun_eq_iff rank_map)
qed

lemma rank_snoc: "i < length xs \<Longrightarrow> rank P (xs @ [y]) i = rank P xs i" "rank P (xs @ [y]) (length xs) = length (filter P xs)"
  by (simp_all add: rank_def)

text \<open>The transcript without the trace (left) and with it (right).\<close>

definition trace_sim :: "chat_state \<Rightarrow> chat_state \<Rightarrow> bool" where
  "trace_sim s p = (cs_items s = filter visible (cs_items p) \<and> cs_running s = cs_running p \<and> cs_turn s = cs_turn p \<and>
     cs_think s = [] \<and> (\<forall>c. al_get (cs_send s) c = map_option (rank visible (cs_items p)) (al_get (cs_send p) c)) \<and>
     (\<forall>(c, i) \<in> set (cs_send p). i < length (cs_items p) \<and> visible (cs_items p ! i)) \<and>
     (\<forall>(ph, i) \<in> set (cs_think p). i < length (cs_items p) \<and> thinking_item (cs_items p ! i)))"

lemma trace_sim_push_hidden:
  assumes "trace_sim s p" "\<not> visible \<lparr>ci_key = k, ci_ts = t, ci_body = b\<rparr>"
  shows "trace_sim s (push k t b p)"
proof -
  have idx: "i < length (cs_items p)" if "al_get (cs_send p) c = Some i" for c i
    using assms(1) map_of_SomeD [OF that] by (auto simp: trace_sim_def)
  have "map_option (rank visible (cs_items p @ [x])) (al_get (cs_send p) c) =
      map_option (rank visible (cs_items p)) (al_get (cs_send p) c)" for c x
    using idx [of c] by (cases "al_get (cs_send p) c") (simp_all add: rank_snoc)
  then show ?thesis using assms unfolding trace_sim_def by (auto simp: nth_append)
qed

lemma trace_sim_push_visible:
  assumes "trace_sim s p" "visible \<lparr>ci_key = k, ci_ts = t, ci_body = b\<rparr>"
  shows "trace_sim (push k t b s) (push k t b p)"
proof -
  have idx: "i < length (cs_items p)" if "al_get (cs_send p) c = Some i" for c i
    using assms(1) map_of_SomeD [OF that] by (auto simp: trace_sim_def)
  have "map_option (rank visible (cs_items p @ [x])) (al_get (cs_send p) c) =
      map_option (rank visible (cs_items p)) (al_get (cs_send p) c)" for c x
    using idx [of c] by (cases "al_get (cs_send p) c") (simp_all add: rank_snoc)
  then show ?thesis using assms unfolding trace_sim_def by (auto simp: nth_append)
qed

lemma trace_sim_set_hidden:
  assumes "trace_sim s p" "(ph, i) \<in> set (cs_think p)"
  shows "trace_sim s (set_body i (BThinking x y) p)"
proof -
  let ?it = "(cs_items p ! i)\<lparr>ci_body := BThinking x y\<rparr>"
  have i: "i < length (cs_items p)" "thinking_item (cs_items p ! i)" using assms by (auto simp: trace_sim_def)
  have h: "\<not> visible (cs_items p ! i)" "\<not> visible ?it" "thinking_item ?it"
    using i visible_simps by (auto simp: visible_def thinking_item_def)
  have nth: "visible ((cs_items p)[i := ?it] ! j) = visible (cs_items p ! j)"
    "thinking_item ((cs_items p)[i := ?it] ! j) = thinking_item (cs_items p ! j)" for j
    using i h by (cases "j = i"; simp)+
  show ?thesis
    using assms(1) i h nth rank_update [of visible ?it "cs_items p" i] filter_update(2) [OF i(1), of visible ?it]
    unfolding trace_sim_def set_body_def by simp
qed

lemma trace_sim_set_visible:
  assumes "trace_sim s p" "al_get (cs_send p) c = Some i" "ci_body (cs_items p ! i) = BSend q"
  shows "trace_sim (set_body (rank visible (cs_items p) i) (BSend q') s) (set_body i (BSend q') p)"
proof -
  let ?it = "(cs_items p ! i)\<lparr>ci_body := BSend q'\<rparr>"
  have i: "i < length (cs_items p)" using assms(1) map_of_SomeD [OF assms(2)] by (auto simp: trace_sim_def)
  have h: "visible (cs_items p ! i)" "visible ?it" "\<not> thinking_item (cs_items p ! i)" "\<not> thinking_item ?it"
    using assms(3) by (auto simp: visible_def thinking_item_def)
  have nth: "visible ((cs_items p)[i := ?it] ! j) = visible (cs_items p ! j)"
    "thinking_item ((cs_items p)[i := ?it] ! j) = thinking_item (cs_items p ! j)" for j
    using i h by (cases "j = i"; simp)+
  have item: "cs_items s ! rank visible (cs_items p) i = cs_items p ! i"
    using assms(1) rank_nth(1) [of i "cs_items p" visible, OF i h(1)] by (simp add: trace_sim_def)
  show ?thesis
    using assms(1) i h nth item rank_update [of visible ?it "cs_items p" i] filter_update(1) [OF i, of visible ?it]
    unfolding trace_sim_def set_body_def by simp
qed

lemma trace_sim_fields:
  "trace_sim s p \<Longrightarrow> trace_sim (s\<lparr>cs_running := r, cs_turn := t\<rparr>) (p\<lparr>cs_running := r, cs_turn := t\<rparr>)"
  "trace_sim s p \<Longrightarrow> trace_sim (s\<lparr>cs_running := r\<rparr>) (p\<lparr>cs_running := r\<rparr>)"
  by (simp_all add: trace_sim_def)

lemma trace_sim_stop:
  assumes "trace_sim s p" "set is \<subseteq> snd ` set (cs_think p)"
  shows "trace_sim s (fold stop_streaming is p)"
  using assms
proof (induction "is" arbitrary: p)
  case (Cons i "is")
  then obtain ph where ph: "(ph, i) \<in> set (cs_think p)" by auto
  have "trace_sim s (stop_streaming i p)"
    using trace_sim_set_hidden [OF Cons.prems(1) ph] Cons.prems(1)
    by (simp add: stop_streaming_def split: item_body.split option.split bool.split)
  then show ?case using Cons by simp
qed simp

lemma trace_sim_finalize: "trace_sim s p \<Longrightarrow> trace_sim s (finalizeThinking ph t p)"
  by (auto simp: finalizeThinking_def split: option.split item_body.split
      intro: trace_sim_set_hidden dest!: map_of_SomeD)

lemma trace_sim_append:
  assumes "trace_sim s p"
  shows "trace_sim s (appendThinking ph d ts p)"
proof (cases "al_get (cs_think p) ph")
  case None
  let ?p = "push (KThinkPhase ph) ts (BThinking d (Some True)) p"
  have sim: "trace_sim s ?p" by (rule trace_sim_push_hidden [OF assms]) (simp add: visible_simps)
  have new: "thinking_item (cs_items ?p ! length (cs_items p))" by (simp add: visible_simps)
  have "\<forall>(q, i) \<in> set (al_set ph (length (cs_items p)) (cs_think ?p)).
      i < length (cs_items ?p) \<and> thinking_item (cs_items ?p ! i)"
    using sim new by (auto simp: trace_sim_def dest!: al_set_mem)
  then show ?thesis using None sim by (simp add: appendThinking_def Let_def trace_sim_def)
next
  case (Some i)
  then show ?thesis
    using assms trace_sim_set_hidden [OF assms map_of_SomeD [OF Some]]
    by (simp add: appendThinking_def split: item_body.split)
qed

lemma trace_sim_note: "trace_sim s p \<Longrightarrow> trace_sim s (note_thinking k ts ph t p)"
  by (simp add: note_thinking_def trace_sim_finalize trace_sim_push_hidden visible_simps)

lemma trace_sim_turn: "trace_sim s p \<Longrightarrow> cs_turn p = cs_turn s"
  by (simp add: trace_sim_def)

lemma note_thinking_turn [simp]: "cs_turn (note_thinking k ts ph t s) = cs_turn s"
  by (simp add: note_thinking_def)

lemma trace_sim_send:
  assumes "trace_sim s p" "i < length (cs_items p)" "visible (cs_items p ! i)" "j = rank visible (cs_items p) i"
  shows "trace_sim (s\<lparr>cs_send := al_set c j (cs_send s)\<rparr>) (p\<lparr>cs_send := al_set c i (cs_send p)\<rparr>)"
proof -
  have "\<forall>(d, k) \<in> set (al_set c i (cs_send p)). k < length (cs_items p) \<and> visible (cs_items p ! k)"
    using assms by (auto simp: trace_sim_def dest!: al_set_mem)
  then show ?thesis using assms by (simp add: trace_sim_def)
qed

lemma trace_sim_call:
  assumes "trace_sim s p"
  shows "trace_sim (on_tool_call False e s) (on_tool_call True e p)"
proof -
  have vis: "visible \<lparr>ci_key = KSend q, ci_ts = t, ci_body = BSend x\<rparr>" for q t x by (simp add: visible_def)
  have sim: "trace_sim (push (KSend q) t (BSend x) s) (push (KSend q) t (BSend x) p)" for q t x
    by (rule trace_sim_push_visible [OF assms vis])
  have len: "length (filter visible (cs_items p)) = length (cs_items s)" using assms by (simp add: trace_sim_def)
  have upd: "trace_sim ((push (KSend q) t (BSend x) s)\<lparr>cs_send := al_set c (length (cs_items s)) (cs_send s)\<rparr>)
      ((push (KSend q) t (BSend x) p)\<lparr>cs_send := al_set c (length (cs_items p)) (cs_send p)\<rparr>)" for c q t x
    using trace_sim_send [OF sim [of q t x], of "length (cs_items p)" "length (cs_items s)" c] len
    by (simp add: rank_snoc vis)
  show ?thesis using sim upd trace_sim_push_hidden [OF assms] assms
    by (simp add: on_tool_call_def Let_def visible_simps)
qed

lemma trace_sim_result:
  assumes "trace_sim s p"
  shows "trace_sim (on_tool_result e s) (on_tool_result e p)"
proof -
  let ?c = "as_str (jprop (jprop (jprop (ev_data e) ''message'') ''source'') ''callId'')"
  show ?thesis
  proof (cases "al_get (cs_send p) ?c")
    case None
    then show ?thesis using assms by (simp add: on_tool_result_def Let_def trace_sim_def)
  next
    case (Some i)
    have i: "i < length (cs_items p)" "visible (cs_items p ! i)"
      using assms map_of_SomeD [OF Some] by (auto simp: trace_sim_def)
    have s: "al_get (cs_send s) ?c = Some (rank visible (cs_items p) i)"
      "cs_items s ! rank visible (cs_items p) i = cs_items p ! i"
      using assms Some rank_nth(1) [of i "cs_items p" visible, OF i] by (simp_all add: trace_sim_def)
    show ?thesis using assms Some s trace_sim_set_visible [OF assms Some]
      by (simp add: on_tool_result_def Let_def split: item_body.split)
  qed
qed

lemma trace_sim_step:
  assumes "trace_sim s p"
  shows "trace_sim (chat_step False e s) (chat_step True e p)"
proof -
  have vis: "trace_sim (push k t b s) (push k t b p)" if "visible \<lparr>ci_key = k, ci_ts = t, ci_body = b\<rparr>" for k t b
    by (rule trace_sim_push_visible [OF assms that])
  have turn_end: "trace_sim (on_turn_end e s) (on_turn_end e p)"
  proof -
    have "trace_sim (s\<lparr>cs_running := False\<rparr>) (fold stop_streaming (map snd (cs_think p)) (p\<lparr>cs_running := False\<rparr>))"
      by (rule trace_sim_stop [OF trace_sim_fields(2) [OF assms]]) simp
    moreover have "cs_think s = []" "cs_turn p = cs_turn s" using assms by (simp_all add: trace_sim_def)
    ultimately show ?thesis
      by (simp add: on_turn_end_def Let_def trace_sim_push_visible visible_def)
  qed
  have user: "trace_sim (on_user_message e s) (on_user_message e p)"
    using assms vis by (simp add: on_user_message_def on_inbound_def Let_def visible_def split: message_class.split option.split)
  have assistant: "trace_sim (on_assistant_message False e s) (on_assistant_message True e p)"
    using trace_sim_note [OF assms] trace_sim_turn [OF assms]
    by (simp add: on_assistant_message_def Let_def trace_sim_push_visible visible_def)
  have chunk: "trace_sim s (on_chunk e p)" "trace_sim s (on_reasoning_chunks e p)"
    using assms trace_sim_note [OF assms] trace_sim_append [OF assms]
    by (simp_all add: on_chunk_def on_reasoning_chunks_def Let_def)
  show ?thesis
    using assms turn_end user assistant chunk trace_sim_call [OF assms] trace_sim_result [OF assms]
      trace_sim_fields(1) [OF assms] trace_sim_turn [OF assms] by (simp add: chat_step_def)
qed

lemma trace_sim_fold:
  "trace_sim s p \<Longrightarrow> trace_sim (fold (chat_step False) evs s) (fold (chat_step True) evs p)"
  by (induction evs arbitrary: s p) (simp_all add: trace_sim_step)

section \<open>The revision instruction reads back\<close>

text \<open>The instruction \<open>decideDraft\<close> writes for a friend's draft sent back for revision.\<close>

definition revise_text :: "string \<Rightarrow> string \<Rightarrow> string \<Rightarrow> string \<Rightarrow> string" where
  "revise_text name fp body feedback =
     REVISE_HEAD @ name @ REVISE_FP @ fp @ ''). Your draft was: '' @ quote # body @ quote # ''. '' @ REVISE_FEEDBACK @
     feedback @ REVISE_SEND @ '' to '' @ name @ '' with soulmirror_send_message, then tell me what you sent.''"

lemma prefix_before:
  assumes "q \<notin> set t" "prefix t (drop j (a @ q # b))" "j \<le> length a"
  shows "prefix t (drop j a)"
proof -
  have "prefix t (drop j a @ q # b)" using assms(2,3) by simp
  then consider "prefix t (drop j a)" | us where "t = drop j a @ us" "prefix us (q # b)"
    by (auto simp: prefix_append)
  then show ?thesis
  proof cases
    case 2
    then have "us = []" using assms(1) by (cases us) auto
    then show ?thesis using 2 by simp
  qed
qed

lemma indexOf_first:
  assumes "\<And>j. j < length pre \<Longrightarrow> \<not> prefix t (drop j (pre @ t @ r))"
  shows "indexOf (pre @ t @ r) t 0 = Some (length pre)"
  using assms by (auto simp: indexOf_Some)

lemma prefix_drop_mem: "prefix (c # t) (drop j a) \<Longrightarrow> c \<in> set a"
  by (metis in_set_dropD list.set_intros(1) set_mono_prefix subsetD)

lemma prefix_drop_sublist: "prefix t (drop j a) \<Longrightarrow> sublist t a"
  by (meson prefix_imp_sublist sublist_drop sublist_order.order_trans)

lemma feedback_index:
  assumes "\<not> sublist REVISE_FEEDBACK body"
  shows "indexOf ('' Your draft was: '' @ quote # body @ quote # ''. '' @ REVISE_FEEDBACK @ r) REVISE_FEEDBACK 0
    = Some (length ('' Your draft was: '' @ quote # body @ quote # ''. ''))"
proof -
  let ?A = "'' Your draft was: ''" and ?F = REVISE_FEEDBACK
  have F: "?F = CHR ''M'' # ''y feedback: ''" by (simp add: REVISE_FEEDBACK_def)
  have q: "quote \<notin> set ?F" by (simp add: REVISE_FEEDBACK_def)
  have no: False if j: "j < length (?A @ quote # body @ quote # ''. '')"
    and p: "prefix ?F (drop j (?A @ quote # body @ quote # ''. '' @ ?F @ r))" for j
  proof (cases "j \<le> length ?A")
    case True
    then have "prefix ?F (drop j ?A)" using prefix_before [OF q p] by simp
    then have "CHR ''M'' \<in> set ?A" unfolding F by (rule prefix_drop_mem)
    then show False by simp
  next
    case False
    then have "Suc (length ?A) \<le> j" by simp
    then obtain k where k: "j = Suc (length ?A) + k" using le_Suc_ex by blast
    have p2: "prefix ?F (drop k (body @ quote # ''. '' @ ?F @ r))" using p k by (simp add: drop_append)
    show False
    proof (cases "k \<le> length body")
      case True
      then show False using prefix_before [OF q p2] assms prefix_drop_sublist by blast
    next
      case False
      then have "Suc (length body) \<le> k" by simp
      then obtain m where m: "k = Suc (length body) + m" using le_Suc_ex by blast
      have "m < 2" using j k m by simp
      then have "m = 0 \<or> m = 1" by auto
      then show False using p2 m by (auto simp: F)
    qed
  qed
  have "indexOf ((?A @ quote # body @ quote # ''. '') @ ?F @ r) ?F 0 = Some (length (?A @ quote # body @ quote # ''. ''))"
    by (rule indexOf_first) (use no in auto)
  then show ?thesis by simp
qed

lemma send_index:
  assumes "\<not> sublist REVISE_SEND feedback"
  shows "indexOf (feedback @ REVISE_SEND @ r) REVISE_SEND 0 = Some (length feedback)"
proof (rule indexOf_first)
  fix j assume j: "j < length feedback"
  let ?x = "drop j feedback"
  have x: "?x \<noteq> []" using j by simp
  have l: "lf \<notin> set (tl REVISE_SEND)" by (simp add: REVISE_SEND_def lf_def)
  show "\<not> prefix REVISE_SEND (drop j (feedback @ REVISE_SEND @ r))"
  proof
    assume "prefix REVISE_SEND (drop j (feedback @ REVISE_SEND @ r))"
    then have "prefix REVISE_SEND (?x @ REVISE_SEND @ r)" using j by simp
    then consider "prefix REVISE_SEND ?x" | us where "REVISE_SEND = ?x @ us" "prefix us (REVISE_SEND @ r)" "us \<noteq> []"
      by (metis append_Nil2 prefix_append prefix_order.order_refl)
    then show False
    proof cases
      case 1
      then show False using assms prefix_drop_sublist by blast
    next
      case 2
      have "hd us = lf" using hd_prefix [OF 2(2,3)] by (simp add: REVISE_SEND_def)
      moreover have "tl REVISE_SEND = tl ?x @ us" using 2(1) x by (metis tl_append2)
      ultimately have "lf \<in> set (tl REVISE_SEND)" using 2(3) hd_in_set [of us] by simp
      then show False using l by blast
    qed
  qed
qed

lemma revise_name_finds:
  assumes "name \<noteq> []" "CHR ''('' \<notin> set name" "lf \<notin> set name" "CHR 0x0D \<notin> set name"
    "revise_tail (REVISE_FP @ t) = Some (fp, fb)"
  shows "revise_name acc (name @ REVISE_FP @ t) = Some (rev acc @ name, fp, fb)"
  using assms
proof (induction name arbitrary: acc)
  case (Cons c n)
  show ?case
  proof (cases "n = []")
    case True
    then show ?thesis using Cons.prems by auto
  next
    case False
    have "\<not> startsWith (n @ REVISE_FP @ t) REVISE_FP"
    proof (cases n)
      case (Cons d m)
      then show ?thesis using \<open>CHR ''('' \<notin> set (c # n)\<close> by (cases m) (auto simp: startsWith_def REVISE_FP_def)
    qed (use False in simp)
    then have "revise_tail (n @ REVISE_FP @ t) = None" by (simp add: revise_tail_def)
    then show ?thesis using Cons False by auto
  qed
qed simp

lemma drop_both: "drop (length a + length b) (a @ b @ c) = c"
  by simp

lemma revise_reads_back:
  assumes name: "name \<noteq> []" "CHR ''('' \<notin> set name" "lf \<notin> set name" "CHR 0x0D \<notin> set name"
    and fp: "fp \<noteq> []" "\<forall>c \<in> set fp. is_fp_char c"
    and body: "\<not> sublist REVISE_FEEDBACK body" and fb: "\<not> sublist REVISE_SEND feedback"
  shows "REVISE_INSTRUCTION (revise_text name fp body feedback) = Some (name, fp, feedback)"
proof -
  let ?rest = "'' to '' @ name @ '' with soulmirror_send_message, then tell me what you sent.''"
  let ?mid = "'' Your draft was: '' @ quote # body @ quote # ''. ''"
  let ?w = "?mid @ REVISE_FEEDBACK @ feedback @ REVISE_SEND @ ?rest"
  have stop: "\<not> is_fp_char (CHR '')'')" by (simp add: is_fp_char_def)
  have tw: "takeWhile is_fp_char (fp @ '').'' @ ?w) = fp" "dropWhile is_fp_char (fp @ '').'' @ ?w) = '').'' @ ?w"
    using fp(2) stop by (simp_all add: takeWhile_append2 dropWhile_append2)
  have i1: "indexOf ?w REVISE_FEEDBACK 0 = Some (length ?mid)"
    using feedback_index [OF body, of "feedback @ REVISE_SEND @ ?rest"] by simp
  have d1: "drop (length ?mid + length REVISE_FEEDBACK) ?w = feedback @ REVISE_SEND @ ?rest"
    by (rule drop_both)
  have i2: "indexOf (feedback @ REVISE_SEND @ ?rest) REVISE_SEND 0 = Some (length feedback)" by (rule send_index [OF fb])
  have "revise_tail (REVISE_FP @ fp @ '').'' @ ?w) = Some (fp, feedback)"
    unfolding revise_tail_def using tw fp(1) i1 d1 i2 by (simp add: startsWith_def)
  then have "revise_name [] (name @ REVISE_FP @ fp @ '').'' @ ?w) = Some (name, fp, feedback)"
    using revise_name_finds [OF name, of "fp @ '').'' @ ?w" fp feedback "[]"] by simp
  moreover have "revise_text name fp body feedback = REVISE_HEAD @ name @ REVISE_FP @ fp @ '').'' @ ?w"
    by (simp add: revise_text_def)
  ultimately show ?thesis by (simp add: REVISE_INSTRUCTION_def startsWith_def)
qed

section \<open>Properties\<close>

text \<open>
  C11. Mail never speaks with the owner's voice. The turn's trigger is \<open>owner\<close> exactly when,
  after the last \<open>turn/start\<close>, the first attributable message is a \<open>user/message\<close> whose source
  is the user: relayed mail and the plugin's notes, whatever their content, never give it.
\<close>

theorem owner_trigger_authentic:
  "trig_kind (triggerOf evs) = TOwner \<longleftrightarrow>
     (\<exists>pre st mid m post. evs = pre @ st # mid @ m # post \<and> ev_type st = ''turn/start'' \<and>
        (\<forall>e \<in> set (mid @ m # post). ev_type e \<noteq> ''turn/start'') \<and> owner_message m \<and>
        (\<forall>e \<in> set mid. \<not> attributable e))"
proof -
  have "trig_kind (triggerOf evs) = TOwner \<longleftrightarrow>
      (\<exists>l. since_start (rev evs) [] = Some l \<and> trig_kind (first_trigger l) = TOwner)"
    by (auto simp: triggerOf_def UNKNOWN_TRIGGER_def split: option.splits)
  also have "\<dots> \<longleftrightarrow> (\<exists>pre st mid m post. evs = pre @ st # mid @ m # post \<and> ev_type st = ''turn/start'' \<and>
        (\<forall>e \<in> set (mid @ m # post). ev_type e \<noteq> ''turn/start'') \<and> owner_message m \<and>
        (\<forall>e \<in> set mid. \<not> attributable e))"
    unfolding since_start_Some first_trigger_owner by blast
  finally show ?thesis .
qed

definition mail_event :: "string \<Rightarrow> int \<Rightarrow> EventLike" where
  "mail_event fp q = \<lparr>ev_type = ''user/message'', ev_seq = q, ev_time = 0, ev_data = Some (JObj
     [(''source'', JObj [(''kind'', JStr ''plugin''), (''plugin'', JStr ''soulmirror''), (''form'', JStr ''relay''),
        (''a2a'', JObj [(''fp'', JStr fp)])])])\<rparr>"

definition owner_event :: "string \<Rightarrow> int \<Rightarrow> EventLike" where
  "owner_event text q = \<lparr>ev_type = ''user/message'', ev_seq = q, ev_time = 0, ev_data = Some (JObj
     [(''source'', JObj [(''kind'', JStr ''user'')]),
      (''content'', JArr [JObj [(''type'', JStr ''text''), (''text'', JStr text)]])])\<rparr>"

definition turn_event :: "int \<Rightarrow> EventLike" where
  "turn_event q = \<lparr>ev_type = ''turn/start'', ev_seq = q, ev_time = 0, ev_data = None\<rparr>"

lemma mail_event_trigger:
  "trig_kind (triggerOf [turn_event 0, mail_event ''fpA'' 1]) = TInbound"
  by (simp add: triggerOf_def turn_event_def mail_event_def classifyUserMessage_def relayMetaOf_def
      SOULMIRROR_PLUGIN_def RELAY_FORM_def)

theorem owner_trigger_authentic_witness:
  "trig_kind (triggerOf [turn_event 0, owner_event ''hi'' 1]) = TOwner \<and>
   trig_kind (triggerOf [turn_event 0, mail_event ''fpA'' 1, owner_event ''hi'' 2]) \<noteq> TOwner"
proof
  have "\<exists>pre st mid m post. [turn_event 0, owner_event ''hi'' 1] = pre @ st # mid @ m # post \<and> ev_type st = ''turn/start'' \<and>
        (\<forall>e \<in> set (mid @ m # post). ev_type e \<noteq> ''turn/start'') \<and> owner_message m \<and> (\<forall>e \<in> set mid. \<not> attributable e)"
    by (rule exI [of _ "[]"], rule exI [of _ "turn_event 0"], rule exI [of _ "[]"],
        rule exI [of _ "owner_event ''hi'' 1"], rule exI [of _ "[]"])
      (simp add: turn_event_def owner_event_def owner_message_def)
  then show "trig_kind (triggerOf [turn_event 0, owner_event ''hi'' 1]) = TOwner"
    by (simp only: owner_trigger_authentic)
  show "trig_kind (triggerOf [turn_event 0, mail_event ''fpA'' 1, owner_event ''hi'' 2]) \<noteq> TOwner"
    using triggerOf_snoc [of "[turn_event 0, mail_event ''fpA'' 1]" "owner_event ''hi'' 2"] mail_event_trigger
    by (simp add: owner_event_def)
qed

text \<open>
  A turn keeps its trigger: once the trigger of the running turn is known, no later event of
  the same turn (mail relayed meanwhile, notes, tool calls, even an owner message) changes it.
\<close>

theorem trigger_stable:
  assumes "trig_kind (triggerOf evs) \<noteq> TUnknown" "list_all (\<lambda>e. ev_type e \<noteq> ''turn/start'') later"
  shows "triggerOf (evs @ later) = triggerOf evs"
  using assms by (simp add: triggerOf_append list_all_iff)

theorem trigger_stable_witness:
  "triggerOf ([turn_event 0, mail_event ''fpA'' 1] @ [owner_event ''go'' 2]) = triggerOf [turn_event 0, mail_event ''fpA'' 1]"
  by (rule trigger_stable) (simp_all add: mail_event_trigger owner_event_def)

text \<open>
  Transcript keys are unique. For an event log with strictly increasing sequence numbers, no
  two items of the transcript (with or without the working trace) share a key, and the transcript
  says a turn is running exactly when the latest state says its turn is open.
\<close>

theorem transcript_keys_unique:
  assumes "sorted_wrt (<) (map ev_seq evs)"
  shows "distinct (map ci_key (ac_items (chatFromEvents evs process))) \<and>
    ac_running (chatFromEvents evs process) =
      (case al_turn (latestFromEvents evs) of None \<Rightarrow> False | Some t \<Rightarrow> at_open t)"
proof
  define b where "b = (case evs of [] \<Rightarrow> 0 | e # _ \<Rightarrow> ev_seq e)"
  have "\<forall>e \<in> set evs. b \<le> ev_seq e" using assms by (cases evs) (auto simp: b_def)
  moreover have "keys_inv b new_chat" by (simp add: keys_inv_def state_keys_def new_chat_def)
  ultimately obtain c where "keys_inv c (fold (chat_step process) evs new_chat)"
    using keys_inv_fold [OF assms] by blast
  then show "distinct (map ci_key (ac_items (chatFromEvents evs process)))"
    by (simp add: chatFromEvents_def Let_def keys_inv_def state_keys_def)
  show "ac_running (chatFromEvents evs process) = (case al_turn (latestFromEvents evs) of None \<Rightarrow> False | Some t \<Rightarrow> at_open t)"
    using running_agrees [of new_chat no_latest process evs]
    by (simp add: chatFromEvents_def latestFromEvents_def Let_def new_chat_def no_latest_def)
qed

theorem transcript_keys_unique_witness:
  "distinct (map ci_key (ac_items (chatFromEvents [turn_event 0, mail_event ''fpA'' 1, owner_event ''go'' 2] True)))"
  using transcript_keys_unique [of "[turn_event 0, mail_event ''fpA'' 1, owner_event ''go'' 2]" True]
  by (simp add: turn_event_def mail_event_def owner_event_def)

text \<open>
  The working trace only adds. Folding the same log with the trace switched on gives the same
  conversation with thinking and tool items in between: dropping those items from the traced
  transcript gives exactly the plain one, send outcomes included.
\<close>

theorem process_trace_conservative:
  "ac_items (chatFromEvents evs False) = filter visible (ac_items (chatFromEvents evs True)) \<and>
   ac_running (chatFromEvents evs False) = ac_running (chatFromEvents evs True) \<and>
   ac_seq (chatFromEvents evs False) = ac_seq (chatFromEvents evs True)"
proof -
  have "trace_sim new_chat new_chat" by (simp add: trace_sim_def new_chat_def)
  then have "trace_sim (fold (chat_step False) evs new_chat) (fold (chat_step True) evs new_chat)"
    by (rule trace_sim_fold)
  then show ?thesis by (simp add: chatFromEvents_def Let_def trace_sim_def)
qed

lemma longer_not_sublist: "length b < length a \<Longrightarrow> \<not> sublist a b"
  by (auto dest: sublist_length_le)

lemma textOf_single: "textOf (Some (JArr [JObj [(''type'', JStr ''text''), (''text'', JStr text)]])) = trim text"
  by (simp add: textOf_def block_text_def)

text \<open>
  "Let the alter revise" reads back. The instruction written when the owner sends a friend's
  draft back shows in the transcript as the owner's feedback addressed to that friend, with the
  friend's name and fingerprint, provided the name has no parenthesis and no line break, the
  fingerprint is made of fingerprint characters, the draft does not contain \<open>My feedback: \<close> and
  the feedback does not contain the closing line.
\<close>

theorem revise_instruction_roundtrip:
  assumes "name \<noteq> []" "CHR ''('' \<notin> set name" "lf \<notin> set name" "CHR 0x0D \<notin> set name"
    "fp \<noteq> []" "list_all is_fp_char fp" "\<not> sublist REVISE_FEEDBACK body" "\<not> sublist REVISE_SEND feedback"
  shows "ac_items (chatFromEvents [owner_event (revise_text name fp body feedback) q] process) =
    [\<lparr>ci_key = KOwner q, ci_ts = 0, ci_body = BOwner (trim feedback) (Some \<lparr>rv_name = name, rv_fp = fp\<rparr>)\<rparr>]"
proof -
  let ?t = "revise_text name fp body feedback"
  have r: "REVISE_INSTRUCTION ?t = Some (name, fp, feedback)"
    using assms by (intro revise_reads_back) (simp_all add: list_all_iff)
  have "trim ?t = ?t"
    by (simp add: trim_id_iff revise_text_def REVISE_HEAD_def is_ws_def)
  moreover have "?t \<noteq> []" by (simp add: revise_text_def REVISE_HEAD_def)
  ultimately show ?thesis
    using r by (simp add: chatFromEvents_def chat_step_def on_user_message_def owner_event_def
        classifyUserMessage_def textOf_single push_def new_chat_def)
qed

theorem revise_instruction_roundtrip_witness:
  "ac_items (chatFromEvents [owner_event (revise_text ''Bob'' ''fp-1'' ''hello'' ''shorter'') 7] False) =
    [\<lparr>ci_key = KOwner 7, ci_ts = 0, ci_body = BOwner (trim ''shorter'') (Some \<lparr>rv_name = ''Bob'', rv_fp = ''fp-1''\<rparr>)\<rparr>]"
  by (rule revise_instruction_roundtrip)
    (simp_all add: lf_def is_fp_char_def REVISE_FEEDBACK_def REVISE_SEND_def longer_not_sublist)

end
