(* ===== verification/Page_State.thy ===== *)
theory Page_State
  imports Js_Collections
begin

text \<open>
  The thread state of the page, \<^verbatim>\<open>src/dsh/packages/dsh/src/client/page-state.ts\<close>: folding
  archive pages, live frames and optimistic sends into one list of bubbles, and the selection
  rules. \<open>localeCompare\<close> (the host's collation) and \<open>dayKey\<close> (the host's time zone) are
  parameters. Lemmas: the merge keeps message ids and archive numbers unique, loses no message and
  is idempotent on an archive page; the outbound frame and the send receipt commute.
\<close>

section \<open>Entries\<close>

datatype entry_dir = DirIn | DirOut

record ThreadEntry =
  te_seq :: int
  te_dir :: entry_dir
  te_id :: string
  te_body :: string
  te_ts :: int
  te_from :: "string option"
  te_type :: "string option"
  te_auto :: bool
  te_by :: "string option"
  te_agent :: "string option"
  te_status :: "string option"
  te_artifactName :: "string option"
  te_clientId :: "string option"
  te_error :: "string option"

record ThreadState =
  ts_entries :: "ThreadEntry list"
  ts_window :: int
  ts_complete :: bool
  ts_loading :: bool
  ts_loaded :: bool
  ts_error :: "string option"

definition EMPTY_THREAD :: ThreadState where
  "EMPTY_THREAD = \<lparr>ts_entries = [], ts_window = 0, ts_complete = False, ts_loading = False, ts_loaded = False,
     ts_error = None\<rparr>"

definition PAGE_SIZE :: int where
  "PAGE_SIZE = 50"

record ApiEntry =
  ae_seq :: int
  ae_dir :: entry_dir
  ae_id :: string
  ae_body :: string
  ae_ts :: int
  ae_from :: "string option"
  ae_by :: "string option"
  ae_agent :: "string option"
  ae_type :: "string option"
  ae_auto :: bool
  ae_status :: "string option"
  ae_artifactName :: "string option"

definition entryFromApi :: "ApiEntry \<Rightarrow> ThreadEntry" where
  "entryFromApi e = \<lparr>te_seq = ae_seq e, te_dir = ae_dir e, te_id = ae_id e, te_body = ae_body e, te_ts = ae_ts e,
     te_from = ae_from e, te_type = ae_type e, te_auto = ae_auto e, te_by = ae_by e, te_agent = ae_agent e,
     te_status = ae_status e, te_artifactName = ae_artifactName e, te_clientId = None, te_error = None\<rparr>"

definition thread_cmp :: "(string \<Rightarrow> string \<Rightarrow> int) \<Rightarrow> ThreadEntry \<Rightarrow> ThreadEntry \<Rightarrow> int" where
  "thread_cmp localeCompare a b =
     (let pa = (if te_seq a > 0 then 0 else 1 :: int); pb = (if te_seq b > 0 then 0 else 1) in
      if pa \<noteq> pb then pa - pb
      else if pa = 0 \<and> te_seq a \<noteq> te_seq b then te_seq a - te_seq b
      else if te_ts a \<noteq> te_ts b then te_ts a - te_ts b
      else localeCompare (te_id a) (te_id b))"

definition sortThread :: "(string \<Rightarrow> string \<Rightarrow> int) \<Rightarrow> ThreadEntry list \<Rightarrow> ThreadEntry list" where
  "sortThread lc entries = js_sort (thread_cmp lc) entries"

section \<open>Merging\<close>

definition over :: "'a option \<Rightarrow> 'a option \<Rightarrow> 'a option" where
  "over new old = (case new of None \<Rightarrow> old | Some x \<Rightarrow> Some x)"

text \<open>\<open>{ ...previous, ...entry, ...(previous.clientId === undefined ? {} : { clientId }) }\<close>.\<close>

definition spread_entry :: "ThreadEntry \<Rightarrow> ThreadEntry \<Rightarrow> ThreadEntry" where
  "spread_entry previous e = \<lparr>te_seq = te_seq e, te_dir = te_dir e, te_id = te_id e, te_body = te_body e, te_ts = te_ts e,
     te_from = over (te_from e) (te_from previous), te_type = over (te_type e) (te_type previous),
     te_auto = (te_auto e \<or> te_auto previous), te_by = over (te_by e) (te_by previous),
     te_agent = over (te_agent e) (te_agent previous), te_status = over (te_status e) (te_status previous),
     te_artifactName = over (te_artifactName e) (te_artifactName previous),
     te_clientId = over (te_clientId previous) (te_clientId e), te_error = over (te_error e) (te_error previous)\<rparr>"

record merge_state =
  ms_bySeq :: "(int, nat) al"
  ms_byId :: "(string, nat) al"
  ms_next :: "ThreadEntry list"

definition index_entry :: "nat \<Rightarrow> ThreadEntry \<Rightarrow> merge_state \<Rightarrow> merge_state" where
  "index_entry i e m =
     m\<lparr>ms_bySeq := (if te_seq e > 0 then al_set (te_seq e) i (ms_bySeq m) else ms_bySeq m),
       ms_byId := al_set (te_id e) i (ms_byId m)\<rparr>"

definition index_all :: "ThreadEntry list \<Rightarrow> merge_state" where
  "index_all existing =
     fold (\<lambda>(i, e) m. index_entry i e m) (enumerate 0 existing) \<lparr>ms_bySeq = [], ms_byId = [], ms_next = existing\<rparr>"

definition merge_index :: "ThreadEntry \<Rightarrow> merge_state \<Rightarrow> nat option" where
  "merge_index e m =
     (case (if te_seq e > 0 then al_get (ms_bySeq m) (te_seq e) else None) of
        Some i \<Rightarrow> Some i
      | None \<Rightarrow> al_get (ms_byId m) (te_id e))"

definition merge_one :: "ThreadEntry \<Rightarrow> merge_state \<Rightarrow> merge_state" where
  "merge_one e m =
     (case merge_index e m of
        None \<Rightarrow> index_entry (length (ms_next m)) e (m\<lparr>ms_next := ms_next m @ [e]\<rparr>)
      | Some i \<Rightarrow>
          (let previous = ms_next m ! i; merged = spread_entry previous e;
               m1 = index_entry i merged (m\<lparr>ms_next := (ms_next m)[i := merged]\<rparr>)
           in if te_id previous \<noteq> te_id merged then m1\<lparr>ms_byId := al_del (te_id previous) (ms_byId m1)\<rparr> else m1))"

definition mergeEntries :: "(string \<Rightarrow> string \<Rightarrow> int) \<Rightarrow> ThreadEntry list \<Rightarrow> ThreadEntry list \<Rightarrow> ThreadEntry list" where
  "mergeEntries lc existing incoming = sortThread lc (ms_next (fold merge_one incoming (index_all existing)))"

section \<open>Folds\<close>

definition applyArchive :: "(string \<Rightarrow> string \<Rightarrow> int) \<Rightarrow> ThreadState \<Rightarrow> ApiEntry list \<Rightarrow> int \<Rightarrow> ThreadState" where
  "applyArchive lc st entries window =
     (let incoming = map entryFromApi entries
      in st\<lparr>ts_entries := mergeEntries lc (ts_entries st) incoming, ts_window := window,
            ts_complete := (int (length incoming) < window), ts_loading := False, ts_loaded := True, ts_error := None\<rparr>)"

record InboundFrame =
  if_id :: string
  if_from :: "string option"
  if_body :: string
  if_ts :: int
  if_seq :: "int option"
  if_type :: "string option"
  if_auto :: bool
  if_by :: "string option"
  if_agent :: "string option"
  if_artifactName :: "string option"

definition drop_empty :: "string option \<Rightarrow> string option" where
  "drop_empty x = (case x of None \<Rightarrow> None | Some s \<Rightarrow> if s = [] then None else Some s)"

definition inbound_entry :: "InboundFrame \<Rightarrow> ThreadEntry" where
  "inbound_entry f = \<lparr>te_seq = (case if_seq f of None \<Rightarrow> 0 | Some n \<Rightarrow> n), te_dir = DirIn, te_id = if_id f,
     te_body = if_body f, te_ts = if_ts f, te_from = drop_empty (if_from f), te_type = if_type f, te_auto = if_auto f,
     te_by = if_by f, te_agent = drop_empty (if_agent f), te_status = None, te_artifactName = if_artifactName f,
     te_clientId = None, te_error = None\<rparr>"

definition applyInbound :: "(string \<Rightarrow> string \<Rightarrow> int) \<Rightarrow> ThreadState \<Rightarrow> InboundFrame \<Rightarrow> ThreadState" where
  "applyInbound lc st f = st\<lparr>ts_entries := mergeEntries lc (ts_entries st) [inbound_entry f]\<rparr>"

definition applyOutbound :: "(string \<Rightarrow> string \<Rightarrow> int) \<Rightarrow> ThreadState \<Rightarrow> ApiEntry \<Rightarrow> ThreadState" where
  "applyOutbound lc st e = st\<lparr>ts_entries := mergeEntries lc (ts_entries st) [entryFromApi e]\<rparr>"

definition optimistic_entry :: "string \<Rightarrow> string \<Rightarrow> int \<Rightarrow> ThreadEntry" where
  "optimistic_entry clientId body ts = \<lparr>te_seq = 0, te_dir = DirOut, te_id = clientId, te_body = body, te_ts = ts,
     te_from = None, te_type = None, te_auto = False, te_by = None, te_agent = None, te_status = Some ''sending'',
     te_artifactName = None, te_clientId = Some clientId, te_error = None\<rparr>"

definition addOptimistic :: "ThreadState \<Rightarrow> string \<Rightarrow> string \<Rightarrow> int \<Rightarrow> ThreadState" where
  "addOptimistic st clientId body ts = st\<lparr>ts_entries := ts_entries st @ [optimistic_entry clientId body ts]\<rparr>"

fun findIndex :: "('a \<Rightarrow> bool) \<Rightarrow> 'a list \<Rightarrow> nat option" where
  "findIndex P [] = None"
| "findIndex P (x # xs) = (if P x then Some 0 else map_option Suc (findIndex P xs))"

definition keep_at :: "nat \<Rightarrow> ('a \<Rightarrow> bool) \<Rightarrow> 'a list \<Rightarrow> 'a list" where
  "keep_at index P xs = map snd (filter (\<lambda>(i, x). i = index \<or> P x) (enumerate 0 xs))"

definition reconcileSend :: "(string \<Rightarrow> string \<Rightarrow> int) \<Rightarrow> ThreadState \<Rightarrow> string \<Rightarrow> ApiEntry \<Rightarrow> ThreadState" where
  "reconcileSend lc st clientId e =
     (let archived = entryFromApi e in
      case findIndex (\<lambda>x. te_clientId x = Some clientId) (ts_entries st) of
        None \<Rightarrow> st\<lparr>ts_entries := mergeEntries lc (ts_entries st) [archived]\<rparr>
      | Some index \<Rightarrow>
          (let next = (ts_entries st)[index := archived\<lparr>te_clientId := Some clientId\<rparr>];
               deduped = keep_at index (\<lambda>x. \<not> (te_seq x > 0 \<and> te_seq x = te_seq archived) \<and> te_id x \<noteq> te_id archived) next
           in st\<lparr>ts_entries := sortThread lc deduped\<rparr>))"

definition failSend :: "ThreadState \<Rightarrow> string \<Rightarrow> string \<Rightarrow> ThreadState" where
  "failSend st clientId err =
     st\<lparr>ts_entries := map (\<lambda>e. if te_clientId e = Some clientId then e\<lparr>te_status := Some ''failed'', te_error := Some err\<rparr> else e)
        (ts_entries st)\<rparr>"

definition dropEntry :: "ThreadState \<Rightarrow> string \<Rightarrow> ThreadState" where
  "dropEntry st clientId = st\<lparr>ts_entries := filter (\<lambda>e. te_clientId e \<noteq> Some clientId) (ts_entries st)\<rparr>"

definition lastSeq :: "ThreadState \<Rightarrow> int" where
  "lastSeq st = fold (\<lambda>e m. if te_seq e > m then te_seq e else m) (ts_entries st) 0"

section \<open>Selection\<close>

definition ALTER_KEY :: string where "ALTER_KEY = ''alter''"
definition GROUP_PREFIX :: string where "GROUP_PREFIX = ''g:''"
definition AGENT_PREFIX :: string where "AGENT_PREFIX = ''a:''"

definition groupKey :: "string \<Rightarrow> string" where
  "groupKey gid = GROUP_PREFIX @ gid"

definition gidOf :: "string option \<Rightarrow> string option" where
  "gidOf selected = (case selected of None \<Rightarrow> None
     | Some s \<Rightarrow> if startsWith s GROUP_PREFIX then Some (drop (length GROUP_PREFIX) s) else None)"

definition agentKey :: "string \<Rightarrow> string" where
  "agentKey name = AGENT_PREFIX @ name"

definition agentOf :: "string option \<Rightarrow> string option" where
  "agentOf selected = (case selected of None \<Rightarrow> None
     | Some s \<Rightarrow> if startsWith s AGENT_PREFIX then Some (drop (length AGENT_PREFIX) s) else None)"

definition resolveSelection :: "string list \<Rightarrow> string list \<Rightarrow> string list \<Rightarrow> string option \<Rightarrow> string" where
  "resolveSelection friendFps groupGids agentNames selected =
     (case selected of
        None \<Rightarrow> ALTER_KEY
      | Some s \<Rightarrow>
          (if s = ALTER_KEY then ALTER_KEY
           else (case gidOf selected of
              Some gid \<Rightarrow> (if gid \<in> set groupGids then s else ALTER_KEY)
            | None \<Rightarrow> (case agentOf selected of
                Some a \<Rightarrow> (if a \<in> set agentNames then s else ALTER_KEY)
              | None \<Rightarrow> (if s \<in> set friendFps then s else ALTER_KEY)))))"

datatype SelectionKind = KindAlter | KindFriend | KindGroup | KindAgent

definition kindOf :: "string option \<Rightarrow> SelectionKind" where
  "kindOf selected =
     (if selected = None \<or> selected = Some ALTER_KEY then KindAlter
      else if gidOf selected \<noteq> None then KindGroup
      else if agentOf selected \<noteq> None then KindAgent else KindFriend)"

datatype PaneTab = TabChat | TabAnnounce | TabHome | TabMembers | TabAdmin | TabInfo | TabSettings | TabMemory

definition tabsFor :: "SelectionKind \<Rightarrow> bool \<Rightarrow> PaneTab list" where
  "tabsFor kind canAdmin = (case kind of
     KindAlter \<Rightarrow> [TabChat, TabHome, TabMemory, TabSettings]
   | KindFriend \<Rightarrow> [TabChat, TabHome, TabMemory]
   | KindGroup \<Rightarrow> (if canAdmin then [TabChat, TabAnnounce, TabHome, TabMemory, TabMembers, TabAdmin]
                   else [TabChat, TabAnnounce, TabHome, TabMemory, TabMembers])
   | KindAgent \<Rightarrow> [TabChat, TabMemory, TabInfo])"

definition DEFAULT_PANE_TAB :: PaneTab where
  "DEFAULT_PANE_TAB = TabChat"

section \<open>Day separators\<close>

datatype entry_key = KeyClient string | KeySeq int | KeyId string

definition entry_row_key :: "ThreadEntry \<Rightarrow> entry_key" where
  "entry_row_key e = (case te_clientId e of Some c \<Rightarrow> KeyClient c
     | None \<Rightarrow> if te_seq e > 0 then KeySeq (te_seq e) else KeyId (te_id e))"

datatype ThreadRow = DayRow string int | EntryRow entry_key ThreadEntry

fun day_rows :: "(int \<Rightarrow> string) \<Rightarrow> ThreadEntry list \<Rightarrow> string option \<Rightarrow> ThreadRow list" where
  "day_rows dayKey [] lastDay = []"
| "day_rows dayKey (e # es) lastDay =
     (let day = dayKey (te_ts e)
      in (if Some day \<noteq> lastDay then [DayRow day (te_ts e)] else []) @
         EntryRow (entry_row_key e) e # day_rows dayKey es (Some day))"

definition withDaySeparators :: "(int \<Rightarrow> string) \<Rightarrow> ThreadEntry list \<Rightarrow> ThreadRow list" where
  "withDaySeparators dayKey entries = day_rows dayKey entries None"

section \<open>Sorting\<close>

lemma set_sortThread [simp]: "set (sortThread lc es) = set es"
  by (simp add: sortThread_def)

lemma mset_sortThread [simp]: "mset (sortThread lc es) = mset es"
  by (simp add: sortThread_def)

lemma distinct_sortThread [simp]: "distinct (map f (sortThread lc es)) = distinct (map f es)"
  by (simp add: sortThread_def)

context collation
begin

lemma thread_cmp_swap: "thread_cmp localeCompare x y > 0 \<Longrightarrow> thread_cmp localeCompare y x < 0"
  using cmp_swap [of "te_id x" "te_id y"] by (auto simp: thread_cmp_def Let_def split: if_splits)

lemma thread_cmp_trans:
  "thread_cmp localeCompare x y \<le> 0 \<Longrightarrow> thread_cmp localeCompare y z \<le> 0 \<Longrightarrow> thread_cmp localeCompare x z \<le> 0"
  using cmp_le_trans [of "te_id x" "te_id y" "te_id z"] by (auto simp: thread_cmp_def Let_def split: if_splits)

end

sublocale collation < thread: comparator "thread_cmp localeCompare"
  by unfold_locales (erule thread_cmp_swap, erule (1) thread_cmp_trans)

context collation
begin

lemma sortThread_idem: "sortThread localeCompare (sortThread localeCompare es) = sortThread localeCompare es"
  unfolding sortThread_def by (rule thread.js_sort_idem)

end

section \<open>Merging by message id\<close>

fun put_entry :: "ThreadEntry \<Rightarrow> ThreadEntry list \<Rightarrow> ThreadEntry list" where
  "put_entry e [] = [e]"
| "put_entry e (x # xs) = (if te_id x = te_id e then spread_entry x e # xs else x # put_entry e xs)"

text \<open>
  An archive numbering: every copy of a message carries its archive line number or none, and a
  line number belongs to one message.
\<close>

definition numbering :: "(string \<Rightarrow> int) \<Rightarrow> bool" where
  "numbering A = (\<forall>x y. A x = A y \<longrightarrow> A x > 0 \<longrightarrow> x = y)"

definition numbered :: "(string \<Rightarrow> int) \<Rightarrow> ThreadEntry \<Rightarrow> bool" where
  "numbered A e = (te_seq e = 0 \<or> te_seq e = A (te_id e) \<and> te_seq e > 0)"

lemma over_simps [simp]: "over x x = x" "over (over x y) y = over x y" "over x (over x y) = over x y"
  by (auto simp: over_def split: option.split)

lemma spread_id [simp]: "te_id (spread_entry p e) = te_id e" "te_seq (spread_entry p e) = te_seq e"
  by (simp_all add: spread_entry_def)

lemma spread_self [simp]: "spread_entry e e = e"
  by (simp add: spread_entry_def)

lemma spread_twice [simp]: "spread_entry (spread_entry p e) e = spread_entry p e"
  by (auto simp: spread_entry_def)

lemma ids_put: "map te_id (put_entry e xs) = (if te_id e \<in> te_id ` set xs then map te_id xs else map te_id xs @ [te_id e])"
  by (induction xs) auto

lemma put_absent: "te_id e \<notin> te_id ` set xs \<Longrightarrow> put_entry e xs = xs @ [e]"
  by (induction xs) auto

lemma put_at:
  "distinct (map te_id xs) \<Longrightarrow> i < length xs \<Longrightarrow> te_id (xs ! i) = te_id e \<Longrightarrow>
   put_entry e xs = xs[i := spread_entry (xs ! i) e]"
proof (induction xs arbitrary: i)
  case (Cons x xs)
  show ?case
  proof (cases i)
    case (Suc j)
    then have "te_id x \<noteq> te_id e" using Cons.prems imageI [OF nth_mem [of j xs], of te_id] by auto
    then show ?thesis using Cons Suc by simp
  qed (use Cons in simp)
qed simp

lemma numbered_put: "list_all (numbered A) xs \<Longrightarrow> numbered A e \<Longrightarrow> list_all (numbered A) (put_entry e xs)"
  by (induction xs) (auto simp: numbered_def)

lemma distinct_put: "distinct (map te_id xs) \<Longrightarrow> distinct (map te_id (put_entry e xs))"
  by (auto simp: ids_put)

text \<open>What the two indexes say about the list built so far.\<close>

definition indexed :: "(string \<Rightarrow> int) \<Rightarrow> merge_state \<Rightarrow> bool" where
  "indexed A m = ((\<forall>q i. al_get (ms_bySeq m) q = Some i \<longrightarrow> i < length (ms_next m) \<and> q > 0 \<and> A (te_id (ms_next m ! i)) = q) \<and>
     (\<forall>x i. al_get (ms_byId m) x = Some i \<longleftrightarrow> i < length (ms_next m) \<and> te_id (ms_next m ! i) = x) \<and>
     list_all (numbered A) (ms_next m) \<and> distinct (map te_id (ms_next m)))"

lemma indexed_find:
  assumes "indexed A m" "numbering A" "numbered A e"
  shows "merge_index e m = (case al_get (ms_byId m) (te_id e) of None \<Rightarrow> None | Some i \<Rightarrow> Some i)"
proof (cases "if te_seq e > 0 then al_get (ms_bySeq m) (te_seq e) else None")
  case (Some i)
  then have q: "te_seq e > 0" "al_get (ms_bySeq m) (te_seq e) = Some i" by (auto split: if_splits)
  then have i: "i < length (ms_next m)" "A (te_id (ms_next m ! i)) = te_seq e"
    using assms(1) by (auto simp: indexed_def)
  have "A (te_id e) = te_seq e" using assms(3) q(1) by (auto simp: numbered_def)
  then have "te_id (ms_next m ! i) = te_id e" using assms(2) i q(1) by (auto simp: numbering_def)
  then have "al_get (ms_byId m) (te_id e) = Some i" using assms(1) i by (auto simp: indexed_def)
  then show ?thesis using Some by (simp add: merge_index_def)
qed (auto simp: merge_index_def split: option.split)

lemma indexed_append:
  assumes "indexed A m" "numbered A e" "te_id e \<notin> te_id ` set (ms_next m)"
  shows "indexed A (index_entry (length (ms_next m)) e (m\<lparr>ms_next := ms_next m @ [e]\<rparr>))"
proof -
  have "te_id (ms_next m ! i) \<noteq> te_id e" if "i < length (ms_next m)" for i
    using assms(3) imageI [OF nth_mem [OF that], of te_id] by auto
  then show ?thesis
    using assms by (auto simp: indexed_def index_entry_def nth_append numbered_def less_Suc_eq)
qed

lemma indexed_replace:
  assumes "indexed A m" "numbered A e" "i < length (ms_next m)" "te_id (ms_next m ! i) = te_id e"
  shows "indexed A (index_entry i (spread_entry (ms_next m ! i) e)
    (m\<lparr>ms_next := (ms_next m)[i := spread_entry (ms_next m ! i) e]\<rparr>))"
proof -
  let ?xs = "ms_next m" and ?e = "spread_entry (ms_next m ! i) e"
  have ids: "te_id (?xs[i := ?e] ! j) = te_id (?xs ! j)" for j
    using assms(3,4) by (cases "j = i") simp_all
  let ?m = "index_entry i ?e (m\<lparr>ms_next := ?xs[i := ?e]\<rparr>)"
  have f: "ms_next ?m = ?xs[i := ?e]" "ms_byId ?m = al_set (te_id e) i (ms_byId m)"
    "ms_bySeq ?m = (if te_seq e > 0 then al_set (te_seq e) i (ms_bySeq m) else ms_bySeq m)"
    by (simp_all add: index_entry_def)
  have byId: "al_get (al_set (te_id e) i (ms_byId m)) = al_get (ms_byId m)"
    using assms by (simp add: indexed_def map_upd_triv)
  have bySeq: "k < length ?xs \<and> q > 0 \<and> A (te_id (?xs ! k)) = q"
    if "al_get (if te_seq e > 0 then al_set (te_seq e) i (ms_bySeq m) else ms_bySeq m) q = Some k" for q k
  proof (cases "te_seq e > 0 \<and> q = te_seq e")
    case True
    then have "k = i" "A (te_id e) = q" using that assms(2) by (simp_all add: numbered_def)
    then show ?thesis using True assms(3,4) by simp
  next
    case False
    then have "al_get (ms_bySeq m) q = Some k" using that by (cases "te_seq e > 0") simp_all
    then show ?thesis using assms(1) unfolding indexed_def by blast
  qed
  show ?thesis
    unfolding indexed_def f byId ids length_list_update
  proof (intro conjI allI impI)
    show "list_all (numbered A) (?xs[i := ?e])"
      using assms by (auto simp: indexed_def list_all_length nth_list_update numbered_def [of A ?e] numbered_def [of A e])
    have "map te_id (?xs[i := ?e]) = map te_id ?xs"
      using assms(3,4) by (simp add: map_update list_update_same_conv)
    then show "distinct (map te_id (?xs[i := ?e]))" using assms(1) unfolding indexed_def by metis
    show "al_get (ms_byId m) x = Some j \<longleftrightarrow> j < length ?xs \<and> te_id (?xs ! j) = x" for x j
      using assms(1) unfolding indexed_def by blast
  qed (use bySeq in blast)+
qed

lemma merge_one_put:
  assumes "indexed A m" "numbering A" "numbered A e"
  shows "indexed A (merge_one e m) \<and> ms_next (merge_one e m) = put_entry e (ms_next m)"
proof (cases "al_get (ms_byId m) (te_id e)")
  case None
  then have new: "te_id e \<notin> te_id ` set (ms_next m)"
    using assms(1) by (auto simp: indexed_def in_set_conv_nth) (metis option.distinct(1))
  show ?thesis
    using indexed_append [OF assms(1,3) new] indexed_find [OF assms] None put_absent [OF new]
    by (simp add: merge_one_def index_entry_def)
next
  case (Some i)
  then have i: "i < length (ms_next m)" "te_id (ms_next m ! i) = te_id e"
    using assms(1) by (auto simp: indexed_def)
  have "distinct (map te_id (ms_next m))" using assms(1) by (simp add: indexed_def)
  then show ?thesis
    using indexed_replace [OF assms(1,3) i] indexed_find [OF assms] Some i put_at
    by (simp add: merge_one_def index_entry_def Let_def)
qed

lemma fold_merge_put:
  assumes "indexed A m" "numbering A" "list_all (numbered A) es"
  shows "indexed A (fold merge_one es m) \<and> ms_next (fold merge_one es m) = fold put_entry es (ms_next m)"
  using assms by (induction es arbitrary: m) (simp_all add: merge_one_put)

definition index_upto :: "nat \<Rightarrow> ThreadEntry list \<Rightarrow> merge_state" where
  "index_upto n es = fold (\<lambda>(i, e) m. index_entry i e m) (enumerate 0 (take n es)) \<lparr>ms_bySeq = [], ms_byId = [], ms_next = es\<rparr>"

lemma index_upto_Suc: "n < length es \<Longrightarrow> index_upto (Suc n) es = index_entry n (es ! n) (index_upto n es)"
  by (simp add: index_upto_def take_Suc_conv_app_nth enumerate_append_eq)

lemma index_upto_next [simp]: "ms_next (index_upto n es) = es"
proof -
  have "ms_next (fold (\<lambda>(i, e) m. index_entry i e m) xs m) = ms_next m" for xs m
    by (induction xs arbitrary: m) (auto simp: index_entry_def)
  then show ?thesis by (simp add: index_upto_def)
qed

lemma index_upto_seq:
  assumes "list_all (numbered A) es"
  shows "n \<le> length es \<Longrightarrow> al_get (ms_bySeq (index_upto n es)) q = Some i \<Longrightarrow> i < length es \<and> q > 0 \<and> A (te_id (es ! i)) = q"
proof (induction n)
  case (Suc n)
  then have "numbered A (es ! n)" using assms by (simp add: list_all_length)
  then show ?case
    using Suc by (auto simp: index_upto_Suc index_entry_def numbered_def split: if_splits)
qed (simp add: index_upto_def)

lemma index_upto_id:
  assumes "distinct (map te_id es)"
  shows "n \<le> length es \<Longrightarrow> al_get (ms_byId (index_upto n es)) x = Some i \<longleftrightarrow> i < n \<and> te_id (es ! i) = x"
proof (induction n)
  case (Suc n)
  have "te_id (es ! i) = te_id (es ! n) \<Longrightarrow> i < Suc n \<Longrightarrow> i = n"
    using nth_eq_iff_index_eq [OF assms, of i n] Suc.prems by simp
  then show ?case
    using Suc by (cases "x = te_id (es ! n)") (auto simp: index_upto_Suc index_entry_def less_Suc_eq)
qed (simp add: index_upto_def)

lemma index_all_indexed:
  assumes "list_all (numbered A) es" "distinct (map te_id es)"
  shows "indexed A (index_all es)"
proof -
  have "index_all es = index_upto (length es) es" by (simp add: index_all_def index_upto_def)
  then show ?thesis
    using index_upto_seq [OF assms(1), of "length es"] index_upto_id [OF assms(2), of "length es"] assms
    by (simp add: indexed_def)
qed

lemma mergeEntries_put:
  assumes "numbering A" "list_all (numbered A) existing" "distinct (map te_id existing)" "list_all (numbered A) incoming"
  shows "mergeEntries lc existing incoming = sortThread lc (fold put_entry incoming existing)"
    and "list_all (numbered A) (fold put_entry incoming existing)"
    and "distinct (map te_id (fold put_entry incoming existing))"
proof -
  have i: "indexed A (index_all existing)" by (rule index_all_indexed [OF assms(2,3)])
  have n: "ms_next (index_all existing) = existing"
    using index_upto_next [of "length existing" existing] by (simp add: index_all_def index_upto_def)
  note f = fold_merge_put [OF i assms(1,4)]
  show "mergeEntries lc existing incoming = sortThread lc (fold put_entry incoming existing)"
    using f n by (simp add: mergeEntries_def)
  show "list_all (numbered A) (fold put_entry incoming existing)" "distinct (map te_id (fold put_entry incoming existing))"
    using f unfolding n indexed_def by metis+
qed

lemma put_entry_mem:
  assumes "distinct (map te_id xs)" "x \<in> set (put_entry e xs)"
  shows "x \<in> set xs \<and> te_id x \<noteq> te_id e \<or> (\<exists>p \<in> set xs. te_id p = te_id e \<and> x = spread_entry p e) \<or> x = e"
  using assms
proof (induction xs)
  case (Cons a xs)
  show ?case
  proof (cases "te_id a = te_id e")
    case True
    then have "x = spread_entry a e \<or> x \<in> set xs" using Cons.prems by simp
    moreover have "te_id x \<noteq> te_id e" if "x \<in> set xs"
      using Cons.prems(1) True imageI [OF that, of te_id] by auto
    ultimately show ?thesis using True by auto
  next
    case False
    then show ?thesis using Cons by auto
  qed
qed simp

text \<open>Merging an entry into a list that already holds its merged form changes nothing.\<close>

lemma put_fixed:
  "(\<And>x. x \<in> set xs \<Longrightarrow> te_id x = te_id e \<Longrightarrow> spread_entry x e = x) \<Longrightarrow> te_id e \<in> te_id ` set xs \<Longrightarrow> put_entry e xs = xs"
  by (induction xs) auto

definition absorbed :: "ThreadEntry \<Rightarrow> ThreadEntry list \<Rightarrow> bool" where
  "absorbed e xs = (te_id e \<in> te_id ` set xs \<and> (\<forall>x \<in> set xs. te_id x = te_id e \<longrightarrow> spread_entry x e = x))"

lemma absorbed_put_same: "distinct (map te_id xs) \<Longrightarrow> absorbed e (put_entry e xs)"
proof -
  assume d: "distinct (map te_id xs)"
  have "te_id e \<in> set (map te_id (put_entry e xs))" by (auto simp: ids_put)
  moreover have "spread_entry x e = x" if "x \<in> set (put_entry e xs)" "te_id x = te_id e" for x
    using put_entry_mem [OF d that(1)] that(2) by auto
  ultimately show ?thesis by (simp add: absorbed_def)
qed

lemma absorbed_put_other:
  assumes "distinct (map te_id xs)" "absorbed e xs" "te_id e' \<noteq> te_id e"
  shows "absorbed e (put_entry e' xs)"
proof -
  have "te_id e \<in> set (map te_id (put_entry e' xs))" using assms by (auto simp: ids_put absorbed_def)
  moreover have "spread_entry x e = x" if "x \<in> set (put_entry e' xs)" "te_id x = te_id e" for x
    using put_entry_mem [OF assms(1) that(1)] that(2) assms(2,3) by (auto simp: absorbed_def)
  ultimately show ?thesis by (simp add: absorbed_def)
qed

lemma fold_put_absorbed:
  "distinct (map te_id xs) \<Longrightarrow> distinct (map te_id es) \<Longrightarrow> absorbed e xs \<Longrightarrow> te_id e \<notin> te_id ` set es \<Longrightarrow>
   absorbed e (fold put_entry es xs)"
proof (induction es arbitrary: xs)
  case (Cons a es)
  then show ?case using absorbed_put_other [of xs e a] distinct_put [of xs a] by auto
qed simp

lemma fold_put_all_absorbed:
  assumes "distinct (map te_id xs)" "distinct (map te_id es)" "e \<in> set es"
  shows "absorbed e (fold put_entry es xs)"
  using assms
proof (induction es arbitrary: xs)
  case (Cons a es)
  show ?case
  proof (cases "e = a")
    case True
    then show ?thesis using Cons.prems fold_put_absorbed [OF distinct_put, of xs es a a] absorbed_put_same by auto
  next
    case False
    then show ?thesis using Cons distinct_put [of xs a] by auto
  qed
qed simp

lemma fold_put_fixed: "(\<And>e. e \<in> set es \<Longrightarrow> absorbed e xs) \<Longrightarrow> fold put_entry es xs = xs"
  by (induction es) (auto simp: absorbed_def put_fixed)

lemma absorbed_cong: "set xs = set ys \<Longrightarrow> absorbed e xs = absorbed e ys"
  by (simp add: absorbed_def)

section \<open>The send receipt\<close>

lemma keep_at_out: "i < n \<or> n + length xs \<le> i \<Longrightarrow> map snd (filter (\<lambda>(k, x). k = i \<or> P x) (enumerate n xs)) = filter P xs"
  by (induction xs arbitrary: n) auto

lemma keep_at_split:
  assumes "i < length xs"
  shows "keep_at i P xs = filter P (take i xs) @ xs ! i # filter P (drop (Suc i) xs)"
proof -
  have "enumerate 0 xs = enumerate 0 (take i xs) @ (i, xs ! i) # enumerate (Suc i) (drop (Suc i) xs)"
    using assms by (subst id_take_nth_drop [OF assms]) (simp add: enumerate_append_eq)
  then show ?thesis
    using assms keep_at_out [of i 0 "take i xs" P] keep_at_out [of i "Suc i" "drop (Suc i) xs" P]
    by (simp add: keep_at_def)
qed

lemma keep_at_mset:
  assumes "i < length xs"
  shows "mset (keep_at i P (xs[i := y])) = add_mset y (filter_mset P (mset xs - {#xs ! i#}))"
proof -
  have "mset xs = mset (take i xs @ xs ! i # drop (Suc i) xs)" using id_take_nth_drop [OF assms] by simp
  then have "mset xs - {#xs ! i#} = mset (take i xs) + mset (drop (Suc i) xs)" by simp
  then show ?thesis using assms by (simp add: keep_at_split mset_filter)
qed

lemma findIndex_Some: "findIndex P xs = Some i \<Longrightarrow> i < length xs \<and> P (xs ! i)"
  by (induction xs arbitrary: i) (auto split: if_splits)

lemma findIndex_None: "findIndex P xs = None \<longleftrightarrow> (\<forall>x \<in> set xs. \<not> P x)"
  by (induction xs) auto

text \<open>Replacing the only bubble of a client id: the multiset of entries after the receipt.\<close>

lemma reconcile_mset:
  assumes "bubble \<in> set (ts_entries st)" "te_clientId bubble = Some c"
    "\<And>x. x \<in> set (ts_entries st) \<Longrightarrow> te_clientId x = Some c \<Longrightarrow> x = bubble"
  shows "mset (ts_entries (reconcileSend lc st c e)) =
    add_mset ((entryFromApi e)\<lparr>te_clientId := Some c\<rparr>)
      (filter_mset (\<lambda>x. \<not> (te_seq x > 0 \<and> te_seq x = ae_seq e) \<and> te_id x \<noteq> ae_id e) (mset (ts_entries st) - {#bubble#}))"
proof -
  have "findIndex (\<lambda>x. te_clientId x = Some c) (ts_entries st) \<noteq> None"
    unfolding findIndex_None using assms(1,2) by blast
  then obtain i where i: "findIndex (\<lambda>x. te_clientId x = Some c) (ts_entries st) = Some i" by blast
  note f = findIndex_Some [OF i]
  then have b: "ts_entries st ! i = bubble" using assms(3) by simp
  show ?thesis
    using i f b by (simp add: reconcileSend_def Let_def keep_at_mset entryFromApi_def)
qed

section \<open>Properties\<close>

lemma filter_mset_all: "(\<And>x. x \<in># M \<Longrightarrow> P x) \<Longrightarrow> filter_mset P M = M"
  by (induction M) auto

lemma fold_put_ids: "te_id ` set (fold put_entry es xs) = te_id ` set xs \<union> te_id ` set es"
proof (induction es arbitrary: xs)
  case (Cons e es)
  have "te_id ` set (put_entry e xs) = set (map te_id (put_entry e xs))" by simp
  also have "\<dots> = insert (te_id e) (te_id ` set xs)" unfolding ids_put by auto
  finally show ?case using Cons by auto
qed simp

lemma fold_put_clientId:
  "distinct (map te_id xs) \<Longrightarrow> x \<in> set xs \<Longrightarrow> te_clientId x = Some c \<Longrightarrow>
   \<exists>y \<in> set (fold put_entry es xs). te_id y = te_id x \<and> te_clientId y = Some c"
proof (induction es arbitrary: xs x)
  case (Cons e es)
  have "\<exists>y \<in> set (put_entry e xs). te_id y = te_id x \<and> te_clientId y = Some c"
    using Cons.prems(2,3)
  proof (induction xs)
    case (Cons a xs)
    then show ?case by (auto simp: spread_entry_def over_def)
  qed simp
  then obtain y where "y \<in> set (put_entry e xs)" "te_id y = te_id x" "te_clientId y = Some c" by blast
  then show ?case using Cons.IH [OF distinct_put [OF Cons.prems(1)], of y e] by simp
qed auto

text \<open>
  C24. Merging loses nothing and duplicates nothing. Where archive line numbers identify messages,
  merging incoming entries into a thread with distinct ids gives a thread with distinct ids and
  distinct line numbers that shows exactly the messages of both; a bubble that has a client id
  keeps it; and for distinct incoming ids every incoming entry shows with its own text and line
  number.
\<close>

theorem merge_no_loss_no_duplicate:
  assumes "numbering A" "list_all (numbered A) existing" "distinct (map te_id existing)" "list_all (numbered A) incoming"
  shows "distinct (map te_id (mergeEntries lc existing incoming)) \<and>
    (\<forall>x \<in> set (mergeEntries lc existing incoming). \<forall>y \<in> set (mergeEntries lc existing incoming).
       te_seq x = te_seq y \<longrightarrow> te_seq x > 0 \<longrightarrow> x = y) \<and>
    te_id ` set (mergeEntries lc existing incoming) = te_id ` set existing \<union> te_id ` set incoming \<and>
    (\<forall>x \<in> set existing. \<forall>c. te_clientId x = Some c \<longrightarrow>
       (\<exists>y \<in> set (mergeEntries lc existing incoming). te_id y = te_id x \<and> te_clientId y = Some c)) \<and>
    (distinct (map te_id incoming) \<longrightarrow>
       (\<forall>e \<in> set incoming. \<exists>y \<in> set (mergeEntries lc existing incoming).
          te_id y = te_id e \<and> te_body y = te_body e \<and> te_seq y = te_seq e))"
proof -
  note m = mergeEntries_put(1) [OF assms, of lc] mergeEntries_put(2,3) [OF assms]
  let ?r = "fold put_entry incoming existing"
  have seqs: "x = y" if "x \<in> set ?r" "y \<in> set ?r" "te_seq x = te_seq y" "te_seq x > 0" for x y
  proof -
    have "te_seq x = A (te_id x)" "te_seq y = A (te_id y)"
      using m(2) that by (auto simp: list_all_iff numbered_def)
    then have "te_id x = te_id y" using assms(1) that by (auto simp: numbering_def)
    then show ?thesis using m(3) that(1,2) by (simp add: distinct_map inj_on_def)
  qed
  have inc: "\<exists>y \<in> set ?r. te_id y = te_id e \<and> te_body y = te_body e \<and> te_seq y = te_seq e"
    if "distinct (map te_id incoming)" "e \<in> set incoming" for e
  proof -
    have "absorbed e ?r" by (rule fold_put_all_absorbed [OF assms(3) that])
    then obtain y where "y \<in> set ?r" "te_id y = te_id e" "spread_entry y e = y" by (auto simp: absorbed_def)
    then show ?thesis by (metis ThreadEntry.select_convs(4) spread_entry_def spread_id(2))
  qed
  show ?thesis unfolding m(1) distinct_sortThread set_sortThread
    using m(3) seqs fold_put_ids [of incoming existing] fold_put_clientId [OF assms(3), of _ _ incoming] inc by blast
qed

definition entry5 :: ThreadEntry where
  "entry5 = (optimistic_entry ''m1'' ''hi'' 100)\<lparr>te_seq := 5\<rparr>"

theorem merge_no_loss_no_duplicate_witness:
  "te_id ` set (mergeEntries code_unit_compare [optimistic_entry ''m1'' ''hi'' 100] [entry5]) = {''m1''}"
proof -
  let ?A = "\<lambda>x. if x = ''m1'' then 5 else 0 :: int"
  have "numbering ?A" "list_all (numbered ?A) [optimistic_entry ''m1'' ''hi'' 100]"
    "distinct (map te_id [optimistic_entry ''m1'' ''hi'' 100])" "list_all (numbered ?A) [entry5]"
    by (simp_all add: numbering_def numbered_def optimistic_entry_def entry5_def)
  from merge_no_loss_no_duplicate [OF this, of code_unit_compare]
  show ?thesis by (simp add: optimistic_entry_def entry5_def)
qed

text \<open>
  Refetching is harmless: folding the same archive page into a thread twice gives the same
  bubbles in the same order as folding it once, for every consistent collation of the host.
\<close>

theorem merge_idempotent:
  assumes "collation lc" "numbering A" "list_all (numbered A) existing" "distinct (map te_id existing)"
    "list_all (numbered A) incoming" "distinct (map te_id incoming)"
  shows "mergeEntries lc (mergeEntries lc existing incoming) incoming = mergeEntries lc existing incoming"
proof -
  note m = mergeEntries_put(1) [OF assms(2,3,4,5), of lc] mergeEntries_put(2,3) [OF assms(2,3,4,5)]
  let ?r = "fold put_entry incoming existing"
  have "list_all (numbered A) (sortThread lc ?r)" "distinct (map te_id (sortThread lc ?r))"
    using m(2,3) by (simp_all add: list_all_iff)
  then have 1: "mergeEntries lc (sortThread lc ?r) incoming = sortThread lc (fold put_entry incoming (sortThread lc ?r))"
    by (rule mergeEntries_put(1) [OF assms(2) _ _ assms(5)])
  have "absorbed e (sortThread lc ?r)" if "e \<in> set incoming" for e
    using fold_put_all_absorbed [OF assms(4,6) that] absorbed_cong [of "sortThread lc ?r" ?r e] by simp
  then have 2: "fold put_entry incoming (sortThread lc ?r) = sortThread lc ?r" by (rule fold_put_fixed)
  have "sortThread lc (sortThread lc ?r) = sortThread lc ?r"
    by (rule collation.sortThread_idem [OF assms(1)])
  then show ?thesis using m(1) 1 2 by simp
qed

theorem merge_idempotent_witness:
  "mergeEntries code_unit_compare (mergeEntries code_unit_compare [optimistic_entry ''m1'' ''hi'' 100] [entry5]) [entry5]
    = mergeEntries code_unit_compare [optimistic_entry ''m1'' ''hi'' 100] [entry5]"
proof -
  let ?A = "\<lambda>x. if x = ''m1'' then 5 else 0 :: int"
  show ?thesis
    by (rule merge_idempotent [of _ ?A])
      (simp_all add: numbering_def numbered_def optimistic_entry_def entry5_def code_unit.collation_axioms)
qed

text \<open>A newly archived entry displaces nothing but the bubble of its send.\<close>

lemma fresh_displaces_nothing:
  assumes "numbering A" "list_all (numbered A) (ts_entries st)" "numbered A (entryFromApi e)" "ae_id e \<notin> te_id ` set (ts_entries st)"
  shows "filter_mset (\<lambda>x. \<not> (te_seq x > 0 \<and> te_seq x = ae_seq e) \<and> te_id x \<noteq> ae_id e) (mset (ts_entries st) - {#bubble#}) =
    mset (ts_entries st) - {#bubble#}"
proof (rule filter_mset_all)
  fix x assume "x \<in># mset (ts_entries st) - {#bubble#}"
  then have x: "x \<in> set (ts_entries st)" by (auto dest: in_diffD)
  have "te_id x \<noteq> ae_id e" using assms(4) imageI [OF x, of te_id] by auto
  moreover have "numbered A x" using assms(2) x by (simp add: list_all_iff)
  ultimately show "\<not> (te_seq x > 0 \<and> te_seq x = ae_seq e) \<and> te_id x \<noteq> ae_id e"
    using assms(1,3) by (auto simp: numbered_def numbering_def entryFromApi_def)
qed

lemma receipt_effect:
  assumes "numbering A" "list_all (numbered A) (ts_entries st)" "distinct (map te_id (ts_entries st))"
    "numbered A (entryFromApi e)" "ae_id e \<notin> te_id ` set (ts_entries st)"
    "bubble \<in> set (ts_entries st)" "te_clientId bubble = Some c"
    "list_all (\<lambda>x. te_clientId x = Some c \<longrightarrow> x = bubble) (ts_entries st)"
  shows "mset (ts_entries (reconcileSend lc st c e)) = add_mset ((entryFromApi e)\<lparr>te_clientId := Some c\<rparr>) (mset (ts_entries st) - {#bubble#})"
proof -
  have "\<And>x. x \<in> set (ts_entries st) \<Longrightarrow> te_clientId x = Some c \<Longrightarrow> x = bubble" using assms(8) by (simp add: list_all_iff)
  from reconcile_mset [OF assms(6,7) this, of lc e] show ?thesis
    using fresh_displaces_nothing [OF assms(1,2,4,5)] by simp
qed

lemma receipt_then_frame:
  assumes "numbering A" "list_all (numbered A) (ts_entries st)" "distinct (map te_id (ts_entries st))"
    "numbered A (entryFromApi e)" "ae_id e \<notin> te_id ` set (ts_entries st)"
    "bubble \<in> set (ts_entries st)" "te_clientId bubble = Some c"
    "list_all (\<lambda>x. te_clientId x = Some c \<longrightarrow> x = bubble) (ts_entries st)"
  shows "mset (ts_entries (applyOutbound lc (reconcileSend lc st c e) e)) =
    add_mset ((entryFromApi e)\<lparr>te_clientId := Some c\<rparr>) (mset (ts_entries st) - {#bubble#})"
proof -
  let ?E = "mset (ts_entries st) - {#bubble#}" and ?a = "entryFromApi e" and ?R = "ts_entries (reconcileSend lc st c e)"
  let ?b = "?a\<lparr>te_clientId := Some c\<rparr>"
  have ids: "te_id ?a = ae_id e" "te_seq ?a = ae_seq e" "te_clientId ?a = None" by (simp_all add: entryFromApi_def)
  note r = receipt_effect [OF assms, of lc]
  have setR: "set ?R \<subseteq> insert ?b (set (ts_entries st))"
    using arg_cong [OF r, of set_mset] by (auto dest: in_diffD)
  have bR: "?b \<in> set ?R" using arg_cong [OF r, of set_mset] by simp
  have numR: "list_all (numbered A) ?R"
    using setR assms(2,4) by (auto simp: list_all_iff numbered_def ids)
  have "mset (map te_id ?R) = mset (ae_id e # map te_id (remove1 bubble (ts_entries st)))" using r ids by simp
  moreover have "distinct (ae_id e # map te_id (remove1 bubble (ts_entries st)))"
    using assms(3,5) by (auto simp: distinct_map inj_on_def dest: notin_set_remove1 intro: distinct_remove1)
  ultimately have dR: "distinct (map te_id ?R)" by (metis mset_eq_imp_distinct_iff)
  have "put_entry ?a ?R = ?R"
  proof (rule put_fixed)
    show "te_id ?a \<in> te_id ` set ?R" using imageI [OF bR, of te_id] by simp
    fix x assume x: "x \<in> set ?R" "te_id x = te_id ?a"
    then have "x \<notin> set (ts_entries st)" using assms(5) ids imageI [of x "set (ts_entries st)" te_id] by auto
    then have "x = ?b" using setR x(1) by blast
    then show "spread_entry x ?a = x" by (simp add: spread_entry_def over_def entryFromApi_def split: option.split)
  qed
  then show ?thesis using mergeEntries_put(1) [OF assms(1) numR dR, of "[?a]" lc] assms(4) r by (simp add: applyOutbound_def)
qed

lemma frame_then_receipt:
  assumes "numbering A" "list_all (numbered A) (ts_entries st)" "distinct (map te_id (ts_entries st))"
    "numbered A (entryFromApi e)" "ae_id e \<notin> te_id ` set (ts_entries st)"
    "bubble \<in> set (ts_entries st)" "te_clientId bubble = Some c"
    "list_all (\<lambda>x. te_clientId x = Some c \<longrightarrow> x = bubble) (ts_entries st)"
  shows "mset (ts_entries (reconcileSend lc (applyOutbound lc st e) c e)) =
    add_mset ((entryFromApi e)\<lparr>te_clientId := Some c\<rparr>) (mset (ts_entries st) - {#bubble#})"
proof -
  let ?E = "mset (ts_entries st) - {#bubble#}" and ?a = "entryFromApi e"
  have ids: "te_id ?a = ae_id e" "te_seq ?a = ae_seq e" "te_clientId ?a = None" by (simp_all add: entryFromApi_def)
  have out: "mset (ts_entries (applyOutbound lc st e)) = add_mset ?a (mset (ts_entries st))"
    using mergeEntries_put(1) [OF assms(1,2,3), of "[?a]" lc] assms(4) put_absent [of ?a "ts_entries st"] assms(5) ids
    by (simp add: applyOutbound_def)
  have set2: "set (ts_entries (applyOutbound lc st e)) = insert ?a (set (ts_entries st))"
    using arg_cong [OF out, of set_mset] by simp
  have b2: "bubble \<in> set (ts_entries (applyOutbound lc st e))" using set2 assms(6) by simp
  have u2: "x = bubble" if "x \<in> set (ts_entries (applyOutbound lc st e))" "te_clientId x = Some c" for x
    using that assms(8) ids unfolding set2 by (auto simp: list_all_iff)
  have "?a \<noteq> bubble" using assms(7) ids by auto
  then have "add_mset ?a (mset (ts_entries st)) - {#bubble#} = add_mset ?a ?E" by simp
  then show ?thesis
    using reconcile_mset [OF b2 assms(7) u2, of lc e] fresh_displaces_nothing [OF assms(1,2,4,5), of bubble] ids unfolding out by simp
qed


definition archived9 :: ApiEntry where
  "archived9 = \<lparr>ae_seq = 9, ae_dir = DirOut, ae_id = ''m9'', ae_body = ''hi'', ae_ts = 101, ae_from = None, ae_by = None,
     ae_agent = None, ae_type = None, ae_auto = False, ae_status = Some ''sent'', ae_artifactName = None\<rparr>"


end
