(* ===== verification/Inbox_State.thy ===== *)
theory Inbox_State
  imports Drafts Page_State
begin

text \<open>
  The inbox state of the page, \<^verbatim>\<open>src/dsh/packages/dsh/src/client/inbox-state.ts\<close>: the friend and
  group rows as folded from the last \<open>/state\<close> answer and the live frames since, the search
  filter of \<open>page-state.ts\<close>, and the row order. Lemmas: counters after any sequence of
  frames, the agreement of draft badges with the pending drafts, and the order of the rows.
\<close>

section \<open>Rows and frames\<close>

record ApiFriend =
  af_fp :: string
  af_name :: string
  af_remark :: "string option"
  af_cardName :: "string option"
  af_online :: "bool option"
  af_unread :: int
  af_count :: int
  af_lastTs :: "int option"
  af_lastBody :: "string option"
  af_typing :: "bool option"
  af_muted :: "bool option"
  af_protocol :: "string option"
  af_tier :: "ReplyTier option"
  af_tierExplicit :: bool
  af_drafts :: "nat option"

record ApiGroup =
  ag_gid :: string
  ag_name :: string
  ag_ownerFp :: string
  ag_mine :: bool
  ag_version :: int
  ag_members :: int
  ag_unread :: int
  ag_count :: int
  ag_lastTs :: "int option"
  ag_lastBody :: "string option"
  ag_muted :: "bool option"
  ag_profile :: "json option"

record ApiPending =
  ap_id :: string
  ap_fp :: string
  ap_name :: string
  ap_greeting :: string
  ap_createdAt :: "string option"

type_synonym ApiDraft = PendingDraft

text \<open>The message of a \<open>message\<close> or \<open>group_message\<close> frame; each kind leaves some of the optional fields out.\<close>

record frame_message =
  fm_id :: string
  fm_from :: string
  fm_name :: string
  fm_body :: string
  fm_ts :: int
  fm_seq :: "int option"
  fm_type :: "string option"
  fm_auto :: bool
  fm_by :: "string option"
  fm_agent :: "string option"
  fm_artifactName :: "string option"

datatype backend_state = BStarting | BReady | BRestarting | BStopped | BError

record ApiStatus =
  as_backend :: string
  as_state :: backend_state
  as_pid :: "int option"
  as_restarts :: int
  as_lastError :: "string option"
  as_relay :: "string option"
  as_home :: "string option"
  as_protocol :: "string option"
  as_version :: "string option"
  as_binary :: "string option"
  as_binarySource :: "string option"

text \<open>A session's status is \<open>idle\<close> or \<open>running\<close>; \<open>latest\<close> is kept as JSON, the stores do not read it.\<close>

datatype run_status = Idle | Running

record ApiAlterState =
  aa_sessionId :: string
  aa_status :: run_status
  aa_latest :: json

record agent_frame =
  gf_name :: string
  gf_sessionId :: "string option"
  gf_status :: run_status
  gf_seq :: "int option"
  gf_gids :: "string list option"

datatype memory_phase = Extracting | Extracted

record MemoryFrame =
  mf_phase :: memory_phase
  mf_count :: int
  mf_memories :: "(string \<times> string) list option"
  mf_clue :: "string option"

datatype NetworkEventFrame =
    FMessage frame_message
  | FOutbound string ApiEntry
  | FTyping string bool
  | FFriendRequest ApiPending
  | FFriendAccept ApiFriend
  | FPresence string bool
  | FStatus ApiStatus
  | FAlter ApiAlterState
  | FAgent agent_frame
  | FGroupTyping string string "string option" bool
  | FDraft bool ApiDraft
  | FGroupMessage string frame_message
  | FGroupUpdate string
  | FGroupOutbound string ApiEntry
  | FGroupApplication string
  | FMemory MemoryFrame

record InboxState =
  ib_friends :: "ApiFriend list"
  ib_groups :: "ApiGroup list"
  ib_pending :: "ApiPending list"
  ib_drafts :: "ApiDraft list"
  ib_alterSessionId :: "string option"
  ib_typing :: "(string, bool) al"
  ib_groupApps :: "(string, int) al"

record MailNotice =
  mn_id :: string
  mn_fp :: string
  mn_gid :: "string option"
  mn_name :: string
  mn_body :: string
  mn_ts :: int
  mn_sessionId :: "string option"

definition EMPTY_INBOX :: InboxState where
  "EMPTY_INBOX = \<lparr>ib_friends = [], ib_groups = [], ib_pending = [], ib_drafts = [], ib_alterSessionId = None,
     ib_typing = [], ib_groupApps = []\<rparr>"

section \<open>Reading\<close>

definition unreadTotal :: "ApiFriend list \<Rightarrow> int" where
  "unreadTotal friends =
     fold (\<lambda>f total. total + (if af_unread f > 0 \<and> af_muted f \<noteq> Some True then af_unread f else 0)) friends 0"

definition num0 :: "int option \<Rightarrow> int" where
  "num0 x = (case x of None \<Rightarrow> 0 | Some n \<Rightarrow> n)"

definition inbox_cmp :: "(string \<Rightarrow> string \<Rightarrow> int) \<Rightarrow> ApiFriend \<Rightarrow> ApiFriend \<Rightarrow> int" where
  "inbox_cmp localeCompare a b =
     (let ua = (if af_unread a > 0 then 1 else 0 :: int); ub = (if af_unread b > 0 then 1 else 0) in
      if ua \<noteq> ub then ub - ua
      else if num0 (af_lastTs a) \<noteq> num0 (af_lastTs b) then num0 (af_lastTs b) - num0 (af_lastTs a)
      else localeCompare (af_name a) (af_name b))"

definition sortInbox :: "(string \<Rightarrow> string \<Rightarrow> int) \<Rightarrow> ApiFriend list \<Rightarrow> ApiFriend list" where
  "sortInbox lc friends = js_sort (inbox_cmp lc) friends"

definition draftsFor :: "InboxState \<Rightarrow> string \<Rightarrow> ApiDraft list" where
  "draftsFor st fp = filter (\<lambda>d. d_fp d = fp) (ib_drafts st)"

definition includes_opt :: "string option \<Rightarrow> string \<Rightarrow> bool" where
  "includes_opt s q = (case s of None \<Rightarrow> False | Some x \<Rightarrow> str_includes (toLowerCase x) q)"

definition filterFriends :: "ApiFriend list \<Rightarrow> string \<Rightarrow> ApiFriend list" where
  "filterFriends friends query =
     (let q = toLowerCase (trim query) in
      if q = [] then friends
      else filter (\<lambda>f. str_includes (toLowerCase (af_name f)) q \<or> includes_opt (af_remark f) q \<or>
                       includes_opt (af_cardName f) q \<or> startsWith (toLowerCase (af_fp f)) q) friends)"

definition listRows :: "(string \<Rightarrow> string \<Rightarrow> int) \<Rightarrow> ApiFriend list \<Rightarrow> string \<Rightarrow> ApiFriend list" where
  "listRows lc friends query = filterFriends (sortInbox lc friends) query"

section \<open>Folding a state answer\<close>

text \<open>The slice of \<open>ApiState\<close> the page's stores read.\<close>

record ApiState =
  st_friends :: "ApiFriend list"
  st_groups :: "ApiGroup list option"
  st_pending :: "ApiPending list"
  st_drafts :: "ApiDraft list option"
  st_alterSessionId :: "string option"
  st_status :: ApiStatus

definition withoutDrafts :: "ApiFriend \<Rightarrow> ApiFriend" where
  "withoutDrafts f = f\<lparr>af_drafts := None\<rparr>"

definition count_by_fp :: "ApiDraft list \<Rightarrow> (string, nat) al" where
  "count_by_fp drafts = counts_loop drafts []"

definition with_count :: "(string, nat) al \<Rightarrow> ApiFriend \<Rightarrow> ApiFriend" where
  "with_count counts f = (case al_get counts (af_fp f) of None \<Rightarrow> withoutDrafts f | Some n \<Rightarrow> f\<lparr>af_drafts := Some n\<rparr>)"

definition with_presence :: "(string, bool option) al \<Rightarrow> ApiFriend \<Rightarrow> ApiFriend" where
  "with_presence known r =
     (if af_online r \<noteq> None then r
      else (case al_get known (af_fp r) of Some (Some was) \<Rightarrow> r\<lparr>af_online := Some was\<rparr> | _ \<Rightarrow> r))"

definition fromApiState :: "InboxState \<Rightarrow> ApiState \<Rightarrow> InboxState" where
  "fromApiState previous st =
     (let known = rev (map (\<lambda>f. (af_fp f, af_online f)) (ib_friends previous));
          drafts = (case st_drafts st of None \<Rightarrow> [] | Some d \<Rightarrow> d);
          counts = count_by_fp drafts
      in \<lparr>ib_friends = map (\<lambda>f. with_presence known (with_count counts f)) (st_friends st),
          ib_groups = (case st_groups st of None \<Rightarrow> [] | Some g \<Rightarrow> g),
          ib_pending = st_pending st, ib_drafts = drafts, ib_alterSessionId = st_alterSessionId st,
          ib_typing = ib_typing previous, ib_groupApps = ib_groupApps previous\<rparr>)"

section \<open>Folding frames\<close>

definition patchGroup :: "ApiGroup list \<Rightarrow> string \<Rightarrow> (ApiGroup \<Rightarrow> ApiGroup) \<Rightarrow> ApiGroup list" where
  "patchGroup groups gid patch = map (\<lambda>g. if ag_gid g = gid then patch g else g) groups"

definition patchFriend :: "ApiFriend list \<Rightarrow> string \<Rightarrow> (ApiFriend \<Rightarrow> ApiFriend) \<Rightarrow> ApiFriend list" where
  "patchFriend friends fp patch = map (\<lambda>f. if af_fp f = fp then patch f else f) friends"

text \<open>\<open>{ ...f, ...frame.friend }\<close>.\<close>

definition spread_friend :: "ApiFriend \<Rightarrow> ApiFriend \<Rightarrow> ApiFriend" where
  "spread_friend f n = \<lparr>af_fp = af_fp n, af_name = af_name n, af_remark = over (af_remark n) (af_remark f),
     af_cardName = over (af_cardName n) (af_cardName f), af_online = over (af_online n) (af_online f),
     af_unread = af_unread n, af_count = af_count n, af_lastTs = over (af_lastTs n) (af_lastTs f),
     af_lastBody = over (af_lastBody n) (af_lastBody f), af_typing = over (af_typing n) (af_typing f),
     af_muted = over (af_muted n) (af_muted f), af_protocol = over (af_protocol n) (af_protocol f),
     af_tier = over (af_tier n) (af_tier f), af_tierExplicit = (af_tierExplicit n \<or> af_tierExplicit f),
     af_drafts = over (af_drafts n) (af_drafts f)\<rparr>"

definition provisional :: "frame_message \<Rightarrow> ApiFriend" where
  "provisional m = \<lparr>af_fp = fm_from m, af_name = fm_name m, af_remark = None, af_cardName = None, af_online = None,
     af_unread = 1, af_count = 1, af_lastTs = Some (fm_ts m), af_lastBody = Some (fm_body m), af_typing = None,
     af_muted = None, af_protocol = None, af_tier = None, af_tierExplicit = False, af_drafts = None\<rparr>"

definition on_message :: "InboxState \<Rightarrow> frame_message \<Rightarrow> InboxState \<times> MailNotice option" where
  "on_message st m =
     (let known = list_ex (\<lambda>f. af_fp f = fm_from m) (ib_friends st);
          friends = (if known then patchFriend (ib_friends st) (fm_from m) (\<lambda>f. f\<lparr>af_unread := af_unread f + 1,
                        af_count := af_count f + 1, af_lastTs := Some (fm_ts m), af_lastBody := Some (fm_body m)\<rparr>)
                     else ib_friends st @ [provisional m]);
          name = (case List.find (\<lambda>f. af_fp f = fm_from m) (ib_friends st) of None \<Rightarrow> fm_name m | Some f \<Rightarrow> af_name f)
      in (st\<lparr>ib_friends := friends\<rparr>,
          Some \<lparr>mn_id = fm_id m, mn_fp = fm_from m, mn_gid = None, mn_name = name, mn_body = fm_body m,
             mn_ts = fm_ts m, mn_sessionId = ib_alterSessionId st\<rparr>))"

definition set_badge :: "nat \<Rightarrow> ApiFriend \<Rightarrow> ApiFriend" where
  "set_badge n f = (if n = 0 then withoutDrafts f else f\<lparr>af_drafts := Some n\<rparr>)"

definition drafts_after :: "ApiDraft list \<Rightarrow> bool \<Rightarrow> ApiDraft \<Rightarrow> ApiDraft list" where
  "drafts_after ds added draft =
     (let without = filter (\<lambda>d. d_id d \<noteq> d_id draft) ds in if added then without @ [draft] else without)"

definition on_draft :: "InboxState \<Rightarrow> bool \<Rightarrow> ApiDraft \<Rightarrow> InboxState" where
  "on_draft st added draft =
     (let drafts = drafts_after (ib_drafts st) added draft;
          n = length (filter (\<lambda>d. d_fp d = d_fp draft) drafts)
      in st\<lparr>ib_drafts := drafts,
            ib_friends := patchFriend (ib_friends st) (d_fp draft)
              (set_badge n)\<rparr>)"

definition middle_dot_sep :: string where
  "middle_dot_sep = [CHR '' '', CHR 0xB7, CHR '' '']"

definition applyFrame :: "InboxState \<Rightarrow> NetworkEventFrame \<Rightarrow> InboxState \<times> MailNotice option" where
  "applyFrame st frame =
     (case frame of
        FMessage m \<Rightarrow> on_message st m
      | FTyping fp on \<Rightarrow> (st\<lparr>ib_typing := al_set fp on (ib_typing st)\<rparr>, None)
      | FPresence fp online \<Rightarrow> (st\<lparr>ib_friends := patchFriend (ib_friends st) fp (\<lambda>f. f\<lparr>af_online := Some online\<rparr>)\<rparr>, None)
      | FFriendAccept friend \<Rightarrow>
          (let friends = (if list_ex (\<lambda>f. af_fp f = af_fp friend) (ib_friends st)
                          then patchFriend (ib_friends st) (af_fp friend) (\<lambda>f. spread_friend f friend)
                          else ib_friends st @ [friend])
           in (st\<lparr>ib_friends := friends, ib_pending := filter (\<lambda>p. ap_fp p \<noteq> af_fp friend) (ib_pending st)\<rparr>, None))
      | FFriendRequest r \<Rightarrow>
          (if list_ex (\<lambda>p. ap_id p = ap_id r) (ib_pending st) then st else st\<lparr>ib_pending := ib_pending st @ [r]\<rparr>, None)
      | FOutbound fp e \<Rightarrow>
          (st\<lparr>ib_friends := patchFriend (ib_friends st) fp (\<lambda>f.
             (let f' = f\<lparr>af_count := af_count f + 1\<rparr>
              in if ae_ts e \<ge> num0 (af_lastTs f) then f'\<lparr>af_lastTs := Some (ae_ts e), af_lastBody := Some (ae_body e)\<rparr> else f'))\<rparr>, None)
      | FDraft added draft \<Rightarrow> (on_draft st added draft, None)
      | FGroupMessage gid m \<Rightarrow>
          (let nxt = st\<lparr>ib_groups := patchGroup (ib_groups st) gid (\<lambda>g. g\<lparr>ag_unread := ag_unread g + 1,
                 ag_count := ag_count g + 1, ag_lastTs := Some (fm_ts m), ag_lastBody := Some (fm_body m)\<rparr>)\<rparr>
           in case List.find (\<lambda>g. ag_gid g = gid) (ib_groups st) of
                None \<Rightarrow> (nxt, None)
              | Some g \<Rightarrow> (nxt, Some \<lparr>mn_id = fm_id m, mn_fp = fm_from m, mn_gid = Some gid,
                   mn_name = fm_name m @ middle_dot_sep @ ag_name g, mn_body = fm_body m, mn_ts = fm_ts m,
                   mn_sessionId = ib_alterSessionId st\<rparr>))
      | FGroupOutbound gid e \<Rightarrow>
          (st\<lparr>ib_groups := patchGroup (ib_groups st) gid (\<lambda>g.
             (let g' = g\<lparr>ag_count := ag_count g + 1\<rparr>
              in if ae_ts e \<ge> num0 (ag_lastTs g) then g'\<lparr>ag_lastTs := Some (ae_ts e), ag_lastBody := Some (ae_body e)\<rparr> else g'))\<rparr>, None)
      | FGroupApplication gid \<Rightarrow>
          (st\<lparr>ib_groupApps := al_set gid ((case al_get (ib_groupApps st) gid of None \<Rightarrow> 0 | Some n \<Rightarrow> n) + 1) (ib_groupApps st)\<rparr>, None)
      | _ \<Rightarrow> (st, None))"

definition clearGroupApps :: "InboxState \<Rightarrow> string \<Rightarrow> InboxState" where
  "clearGroupApps st gid =
     (if al_get (ib_groupApps st) gid = None then st else st\<lparr>ib_groupApps := al_del gid (ib_groupApps st)\<rparr>)"

definition markReadGroupLocal :: "InboxState \<Rightarrow> string \<Rightarrow> InboxState" where
  "markReadGroupLocal st gid =
     (if \<not> list_ex (\<lambda>g. ag_gid g = gid \<and> ag_unread g > 0) (ib_groups st) then st
      else st\<lparr>ib_groups := patchGroup (ib_groups st) gid (\<lambda>g. g\<lparr>ag_unread := 0\<rparr>)\<rparr>)"

definition markReadLocal :: "InboxState \<Rightarrow> string \<Rightarrow> InboxState" where
  "markReadLocal st fp =
     (if \<not> list_ex (\<lambda>f. af_fp f = fp \<and> af_unread f > 0) (ib_friends st) then st
      else st\<lparr>ib_friends := patchFriend (ib_friends st) fp (\<lambda>f. f\<lparr>af_unread := 0\<rparr>)\<rparr>)"

definition shouldNotify :: "MailNotice \<Rightarrow> string option \<Rightarrow> bool" where
  "shouldNotify notice currentSessionId = (mn_sessionId notice = None \<or> mn_sessionId notice \<noteq> currentSessionId)"

section \<open>Order of the rows\<close>

context collation
begin

lemma inbox_cmp_swap: "inbox_cmp localeCompare x y > 0 \<Longrightarrow> inbox_cmp localeCompare y x < 0"
  using cmp_swap [of "af_name x" "af_name y"] by (auto simp: inbox_cmp_def Let_def split: if_splits)

lemma inbox_cmp_trans:
  "inbox_cmp localeCompare x y \<le> 0 \<Longrightarrow> inbox_cmp localeCompare y z \<le> 0 \<Longrightarrow> inbox_cmp localeCompare x z \<le> 0"
  using cmp_le_trans [of "af_name x" "af_name y" "af_name z"] by (auto simp: inbox_cmp_def Let_def split: if_splits)

end

sublocale collation < inbox: comparator "inbox_cmp localeCompare"
  by unfold_locales (erule inbox_cmp_swap, erule (1) inbox_cmp_trans)

context collation
begin

lemma sortInbox_sorted: "sorted_wrt (\<lambda>a b. inbox_cmp localeCompare a b \<le> 0) (sortInbox localeCompare fs)"
  unfolding sortInbox_def by (rule inbox.js_sort_sorted)

lemma listRows_sorted: "sorted_wrt (\<lambda>a b. inbox_cmp localeCompare a b \<le> 0) (listRows localeCompare fs q)"
  using sortInbox_sorted [of fs] by (simp add: listRows_def filterFriends_def Let_def sorted_wrt_filter)

end

lemma inbox_cmp_unread: "inbox_cmp lc a b \<le> 0 \<Longrightarrow> af_unread b > 0 \<Longrightarrow> af_unread a > 0"
  by (auto simp: inbox_cmp_def Let_def split: if_splits)

section \<open>Counters\<close>

definition row :: "InboxState \<Rightarrow> string \<Rightarrow> ApiFriend option" where
  "row st fp = List.find (\<lambda>f. af_fp f = fp) (ib_friends st)"

definition folded :: "NetworkEventFrame list \<Rightarrow> InboxState \<Rightarrow> InboxState" where
  "folded frames st = fold (\<lambda>fr s. fst (applyFrame s fr)) frames st"

definition mail_from :: "string \<Rightarrow> NetworkEventFrame \<Rightarrow> bool" where
  "mail_from fp fr = (case fr of FMessage m \<Rightarrow> fm_from m = fp | _ \<Rightarrow> False)"

definition sent_to :: "string \<Rightarrow> NetworkEventFrame \<Rightarrow> bool" where
  "sent_to fp fr = (case fr of FOutbound f e \<Rightarrow> f = fp | _ \<Rightarrow> False)"

definition accept_of :: "string \<Rightarrow> NetworkEventFrame \<Rightarrow> bool" where
  "accept_of fp fr = (case fr of FFriendAccept f \<Rightarrow> af_fp f = fp | _ \<Rightarrow> False)"

lemma find_patch:
  assumes "\<And>f. af_fp f = fp \<Longrightarrow> af_fp (g f) = fp"
  shows "List.find (\<lambda>f. af_fp f = x) (patchFriend fs fp g) =
    map_option (\<lambda>f. if af_fp f = fp then g f else f) (List.find (\<lambda>f. af_fp f = x) fs)"
  using assms by (induction fs) (auto simp: patchFriend_def)

lemma find_fp: "List.find (\<lambda>f. af_fp f = x) fs = Some f \<Longrightarrow> af_fp f = x"
  by (induction fs) (auto split: if_splits)

lemma find_snoc: "List.find P (xs @ [y]) = (case List.find P xs of Some x \<Rightarrow> Some x | None \<Rightarrow> if P y then Some y else None)"
  by (induction xs) auto

lemma list_ex_find: "list_ex P xs \<longleftrightarrow> List.find P xs \<noteq> None"
  by (induction xs) auto

lemma set_badge_other [simp]:
  "af_fp (set_badge n f) = af_fp f" "af_unread (set_badge n f) = af_unread f" "af_count (set_badge n f) = af_count f"
  "af_drafts (set_badge n f) = (if n = 0 then None else Some n)"
  by (simp_all add: set_badge_def withoutDrafts_def)

lemma spread_friend_fp [simp]: "af_fp (spread_friend f n) = af_fp n"
  by (simp add: spread_friend_def)

lemma row_step:
  assumes "row st fp = Some f" "\<not> accept_of fp fr"
  shows "\<exists>g. row (fst (applyFrame st fr)) fp = Some g \<and> af_fp g = fp \<and>
    af_unread g = af_unread f + (if mail_from fp fr then 1 else 0) \<and>
    af_count g = af_count f + (if mail_from fp fr \<or> sent_to fp fr then 1 else 0)"
proof -
  have fp: "af_fp f = fp" using assms(1) by (auto simp: row_def find_Some_iff)
  show ?thesis
  proof (cases fr)
    case (FMessage m)
    show ?thesis
    proof (cases "list_ex (\<lambda>f. af_fp f = fm_from m) (ib_friends st)")
      case True
      then show ?thesis using assms fp FMessage
        by (simp add: applyFrame_def on_message_def Let_def row_def find_patch mail_from_def sent_to_def)
    next
      case False
      then have "fm_from m \<noteq> fp" using assms(1) by (auto simp: list_ex_find row_def)
      then show ?thesis using assms fp FMessage False
        by (simp add: applyFrame_def on_message_def Let_def row_def find_snoc mail_from_def sent_to_def)
    qed
  next
    case (FFriendAccept n)
    then have "af_fp n \<noteq> fp" using assms(2) by (simp add: accept_of_def)
    then show ?thesis using assms fp FFriendAccept
      by (simp add: applyFrame_def Let_def row_def find_patch find_snoc mail_from_def sent_to_def)
  next
    case (FDraft added d)
    show ?thesis using assms fp FDraft
      by (simp add: applyFrame_def on_draft_def Let_def row_def find_patch mail_from_def sent_to_def)
  next
    case (FOutbound x e)
    then show ?thesis using assms fp
      by (simp add: applyFrame_def Let_def row_def find_patch mail_from_def sent_to_def)
  next
    case (FPresence x on)
    then show ?thesis using assms fp by (simp add: applyFrame_def row_def find_patch mail_from_def sent_to_def)
  next
    case (FGroupMessage gid m)
    then show ?thesis using assms fp
      by (simp add: applyFrame_def Let_def row_def mail_from_def sent_to_def split: option.split)
  qed (use assms fp in \<open>simp_all add: applyFrame_def row_def mail_from_def sent_to_def\<close>)
qed

lemma row_folded:
  assumes "row st fp = Some f" "list_all (\<lambda>fr. \<not> accept_of fp fr) frames"
  shows "\<exists>g. row (folded frames st) fp = Some g \<and>
    af_unread g = af_unread f + int (length (filter (mail_from fp) frames)) \<and>
    af_count g = af_count f + int (length (filter (\<lambda>fr. mail_from fp fr \<or> sent_to fp fr) frames))"
  using assms
proof (induction frames arbitrary: st f)
  case (Cons fr frames)
  obtain g where g: "row (fst (applyFrame st fr)) fp = Some g"
      "af_unread g = af_unread f + (if mail_from fp fr then 1 else 0)"
      "af_count g = af_count f + (if mail_from fp fr \<or> sent_to fp fr then 1 else 0)"
    using row_step [OF Cons.prems(1), of fr] Cons.prems(2) by auto
  then show ?case using Cons.IH [OF g(1)] Cons.prems(2) by (auto simp: folded_def)
qed (simp add: folded_def)

section \<open>Draft badges\<close>

definition badge_ok :: "ApiDraft list \<Rightarrow> ApiFriend \<Rightarrow> bool" where
  "badge_ok drafts f = (af_drafts f =
     (let n = length (filter (\<lambda>d. d_fp d = af_fp f) drafts) in if n = 0 then None else Some n))"

definition badges_ok :: "InboxState \<Rightarrow> bool" where
  "badges_ok st = list_all (badge_ok (ib_drafts st)) (ib_friends st)"

text \<open>
  A frame that brings a new row brings one without drafts of its own, for a friend without any; a
  draft's id belongs to one friend.
\<close>

definition frame_ok :: "InboxState \<Rightarrow> NetworkEventFrame \<Rightarrow> bool" where
  "frame_ok st fr = (case fr of
     FMessage m \<Rightarrow> row st (fm_from m) = None \<longrightarrow> draftsFor st (fm_from m) = []
   | FFriendAccept f \<Rightarrow> af_drafts f = None \<and> (row st (af_fp f) = None \<longrightarrow> draftsFor st (af_fp f) = [])
   | FDraft _ d \<Rightarrow> list_all (\<lambda>x. d_id x = d_id d \<longrightarrow> d_fp x = d_fp d) (ib_drafts st)
   | _ \<Rightarrow> True)"

lemma counts_by_filter:
  "al_get (counts_loop ds acc) k = (let n = length (filter (\<lambda>d. d_fp d = k) ds) in
     if n = 0 then al_get acc k else Some ((case al_get acc k of None \<Rightarrow> 0 | Some m \<Rightarrow> m) + n))"
proof (induction ds arbitrary: acc)
  case (Cons d ds)
  show ?case
    by (cases "d_fp d = k"; cases "al_get acc k") (simp_all add: Cons Let_def)
qed simp

lemma badges_patch:
  assumes "badges_ok st" "\<And>f. af_fp (g f) = af_fp f" "\<And>f. af_drafts (g f) = af_drafts f"
  shows "list_all (badge_ok (ib_drafts st)) (patchFriend (ib_friends st) fp g)"
  using assms by (auto simp: badges_ok_def patchFriend_def list_all_iff badge_ok_def)

lemma badge_online: "badge_ok ds r \<Longrightarrow> badge_ok ds (with_presence known r)"
  by (simp add: badge_ok_def with_presence_def split: option.split)

lemma badge_counts: "badge_ok ds (with_count (count_by_fp ds) f)"
  by (simp add: with_count_def count_by_fp_def counts_by_filter badge_ok_def withoutDrafts_def Let_def)

lemma badges_fromApiState: "badges_ok (fromApiState previous st)"
  by (simp add: badges_ok_def fromApiState_def Let_def list_all_iff badge_online [OF badge_counts])

lemma badges_step:
  assumes "badges_ok st" "frame_ok st fr"
  shows "badges_ok (fst (applyFrame st fr))"
proof (cases fr)
  case (FMessage m)
  have new: "badge_ok (ib_drafts st) (provisional m)" if "row st (fm_from m) = None"
    using assms(2) that FMessage by (simp add: frame_ok_def badge_ok_def provisional_def draftsFor_def)
  show ?thesis
    using assms(1) badges_patch [OF assms(1)] new FMessage
    by (auto simp: applyFrame_def on_message_def Let_def badges_ok_def list_ex_find row_def)
next
  case (FFriendAccept n)
  have new: "badge_ok (ib_drafts st) n" if "row st (af_fp n) = None"
    using assms(2) that FFriendAccept by (simp add: frame_ok_def badge_ok_def draftsFor_def)
  have "list_all (badge_ok (ib_drafts st)) (patchFriend (ib_friends st) (af_fp n) (\<lambda>f. spread_friend f n))"
    using assms FFriendAccept
    by (auto simp: badges_ok_def patchFriend_def list_all_iff badge_ok_def spread_friend_def over_def frame_ok_def)
  then show ?thesis using assms(1) new FFriendAccept
    by (auto simp: applyFrame_def Let_def badges_ok_def list_ex_find row_def)
next
  case (FDraft added d)
  let ?ds = "drafts_after (ib_drafts st) added d"
  have same: "filter (\<lambda>x. d_fp x = fp) ?ds = filter (\<lambda>x. d_fp x = fp) (ib_drafts st)" if "fp \<noteq> d_fp d" for fp
  proof -
    have "filter (\<lambda>x. d_fp x = fp) (filter (\<lambda>x. d_id x \<noteq> d_id d) (ib_drafts st)) = filter (\<lambda>x. d_fp x = fp) (ib_drafts st)"
      using assms(2) FDraft that by (auto simp: frame_ok_def list_all_iff intro!: filter_cong)
    then show ?thesis using that by (simp add: drafts_after_def Let_def)
  qed
  have keep: "badge_ok ?ds (if af_fp f = d_fp d then set_badge (length (filter (\<lambda>x. d_fp x = d_fp d) ?ds)) f else f)"
    if "badge_ok (ib_drafts st) f" for f
    using that same [of "af_fp f"] by (cases "af_fp f = d_fp d") (simp_all add: badge_ok_def Let_def)
  have "list_all (badge_ok ?ds) (patchFriend (ib_friends st) (d_fp d) (set_badge (length (filter (\<lambda>x. d_fp x = d_fp d) ?ds))))"
    unfolding patchFriend_def list.pred_map comp_def
    unfolding list_all_iff
    using assms(1) by (intro ballI keep) (simp add: badges_ok_def list_all_iff)
  then show ?thesis by (simp add: FDraft badges_ok_def applyFrame_def on_draft_def Let_def)
qed (use assms(1) badges_patch [OF assms(1)] in \<open>auto simp: applyFrame_def badges_ok_def Let_def split: option.split\<close>)

lemma badges_folded:
  assumes "badges_ok st" "\<And>n. n < length frames \<Longrightarrow> frame_ok (folded (take n frames) st) (frames ! n)"
  shows "badges_ok (folded frames st)"
  using assms
proof (induction frames rule: rev_induct)
  case (snoc fr frames)
  have "frame_ok (folded frames st) fr" using snoc.prems(2) [of "length frames"] by simp
  moreover have "badges_ok (folded frames st)"
  proof (rule snoc.IH [OF snoc.prems(1)])
    fix n assume n: "n < length frames"
    then show "frame_ok (folded (take n frames) st) (frames ! n)"
      using snoc.prems(2) [of n] by (simp add: nth_append)
  qed
  ultimately show ?case using badges_step by (simp add: folded_def)
qed (simp add: folded_def)

section \<open>Properties\<close>

text \<open>
  The inbox counts every frame exactly once. For a friend with a row, after any sequence of
  frames without an acceptance of that friend, the unread counter grew by the number of mails
  from that friend and the message counter by the mails from and the messages to that friend;
  reading the conversation sets the unread counter to zero and leaves every other row's.
\<close>

theorem inbox_counters_exact:
  assumes "row st fp = Some f" "list_all (\<lambda>fr. \<not> accept_of fp fr) frames"
  shows "(\<exists>g. row (folded frames st) fp = Some g \<and>
      af_unread g = af_unread f + int (length (filter (mail_from fp) frames)) \<and>
      af_count g = af_count f + int (length (filter (\<lambda>fr. mail_from fp fr \<or> sent_to fp fr) frames))) \<and>
    (0 \<le> af_unread f \<longrightarrow> map_option af_unread (row (markReadLocal st fp) fp) = Some 0) \<and>
    (j \<noteq> fp \<longrightarrow> row (markReadLocal st fp) j = row st j)"
proof (intro conjI impI)
  have fp: "af_fp f = fp" using assms(1) by (auto simp: row_def find_Some_iff)
  show "\<exists>g. row (folded frames st) fp = Some g \<and>
      af_unread g = af_unread f + int (length (filter (mail_from fp) frames)) \<and>
      af_count g = af_count f + int (length (filter (\<lambda>fr. mail_from fp fr \<or> sent_to fp fr) frames))"
    by (rule row_folded [OF assms])
  have mem: "f \<in> set (ib_friends st)" using assms(1) by (auto simp: row_def find_Some_iff)
  show "map_option af_unread (row (markReadLocal st fp) fp) = Some 0" if "0 \<le> af_unread f"
  proof (cases "list_ex (\<lambda>f. af_fp f = fp \<and> af_unread f > 0) (ib_friends st)")
    case True
    then show ?thesis using assms(1) fp by (simp add: markReadLocal_def row_def find_patch)
  next
    case False
    then have "\<not> af_unread f > 0" using mem fp by (auto simp: list_ex_iff)
    then show ?thesis using assms(1) that False by (simp add: markReadLocal_def)
  qed
  show "row (markReadLocal st fp) j = row st j" if "j \<noteq> fp"
  proof -
    have "map_option (\<lambda>f. if af_fp f = fp then f\<lparr>af_unread := 0\<rparr> else f) (List.find (\<lambda>f. af_fp f = j) (ib_friends st)) =
        List.find (\<lambda>f. af_fp f = j) (ib_friends st)"
      using that find_fp [of j "ib_friends st"] by (cases "List.find (\<lambda>f. af_fp f = j) (ib_friends st)") auto
    then show ?thesis by (simp add: markReadLocal_def row_def find_patch)
  qed
qed

definition mail_message :: "string \<Rightarrow> frame_message" where
  "mail_message fp = \<lparr>fm_id = ''m'', fm_from = fp, fm_name = ''Bob'', fm_body = ''hi'', fm_ts = 5, fm_seq = None, fm_type = None,
     fm_auto = False, fm_by = None, fm_agent = None, fm_artifactName = None\<rparr>"

definition mail :: "string \<Rightarrow> NetworkEventFrame" where
  "mail fp = FMessage (mail_message fp)"

definition one_friend :: InboxState where
  "one_friend = fst (applyFrame EMPTY_INBOX (mail ''fpA''))"

lemma one_friend_row:
  "row one_friend ''fpA'' = Some (provisional (mail_message ''fpA''))"
  by (simp add: one_friend_def applyFrame_def mail_def mail_message_def on_message_def EMPTY_INBOX_def row_def provisional_def)

theorem inbox_counters_exact_witness:
  "\<exists>g. row (folded [mail ''fpA'', mail ''fpB'', mail ''fpA''] one_friend) ''fpA'' = Some g \<and> af_unread g = 3"
  using inbox_counters_exact [OF one_friend_row, of "[mail ''fpA'', mail ''fpB'', mail ''fpA'']" "''fpB''"]
  by (auto simp: accept_of_def mail_def mail_message_def mail_from_def sent_to_def provisional_def)

definition ready_status :: ApiStatus where
  "ready_status = \<lparr>as_backend = ''fake'', as_state = BReady, as_pid = None, as_restarts = 0, as_lastError = None, as_relay = None,
     as_home = None, as_protocol = None, as_version = None, as_binary = None, as_binarySource = None\<rparr>"

text \<open>
  Draft badges agree with the pending drafts: a fresh \<open>/state\<close> answer always gives rows
  whose badge is the number of pending drafts to that friend (absent when there is none), and
  every frame keeps that, provided a row that appears by mail or acceptance belongs to a friend
  without pending drafts and a draft id stays with its friend.
\<close>

theorem draft_badges_agree:
  assumes "list_all (\<lambda>n. frame_ok (folded (take n frames) (fromApiState previous st)) (frames ! n)) [0..<length frames]"
  shows "badges_ok (folded frames (fromApiState previous st))"
  using assms by (intro badges_folded [OF badges_fromApiState]) (simp add: list_all_iff)

theorem draft_badges_agree_witness:
  "badges_ok (folded [FPresence ''fpA'' True] (fromApiState EMPTY_INBOX
     \<lparr>st_friends = [provisional (mail_message ''fpA'')],
      st_groups = None, st_pending = [], st_drafts = Some [sample_draft], st_alterSessionId = None, st_status = ready_status\<rparr>))"
  by (rule draft_badges_agree) (simp add: frame_ok_def)

text \<open>
  The order of the friend list: the rows shown for a query are friends of the list, ordered so
  that a friend with unread mail never stands below one without, and an empty query shows
  everybody, for every consistent collation.
\<close>

theorem friend_rows_ordered:
  assumes "collation lc"
  shows "sorted_wrt (\<lambda>a b. af_unread b > 0 \<longrightarrow> af_unread a > 0) (listRows lc friends q) \<and>
    set (listRows lc friends q) \<subseteq> set friends \<and>
    (trim q = [] \<longrightarrow> mset (listRows lc friends q) = mset friends)"
proof (intro conjI)
  show "sorted_wrt (\<lambda>a b. af_unread b > 0 \<longrightarrow> af_unread a > 0) (listRows lc friends q)"
    using collation.listRows_sorted [OF assms, of friends q]
    by (rule sorted_wrt_mono_rel [rotated]) (auto intro: inbox_cmp_unread)
qed (auto simp: listRows_def filterFriends_def sortInbox_def Let_def)

theorem friend_rows_ordered_witness:
  "mset (listRows code_unit_compare (ib_friends one_friend) []) = mset (ib_friends one_friend)"
  using friend_rows_ordered [OF code_unit.collation_axioms, of "ib_friends one_friend" "[]"] by simp

end
