(* ===== verification/Rooms.thy ===== *)
theory Rooms
  imports Alter_State Page_State
begin

text \<open>
  The group room: the timeline that merges a group's archive with the local work traces of the
  owner's agents, \<^verbatim>\<open>src/dsh/packages/dsh/src/client/rooms/timeline.ts\<close>, and the room helpers
  of \<^verbatim>\<open>client/group-room.ts\<close> (room key, role, speak gate). Lemmas: archive entries keep their
  order whatever the senders' clocks say, day separators, and the speak gate.
\<close>

section \<open>Timeline\<close>

definition RUN_GAP_MS :: rat where
  "RUN_GAP_MS = 5 * 60000"

datatype TimelineRow =
    TDay string rat
  | TEntry entry_key ThreadEntry bool
  | TWorkHead string item_key rat
  | TProcess string item_key rat AlterChatItem
  | TNote string item_key rat string
  | TWorkFailed string item_key rat string

datatype slot = SlotEntry ThreadEntry | SlotWork string AlterChatItem

record timed_slot =
  sl_ts :: rat
  sl_what :: slot

fun entry_slots :: "rat \<Rightarrow> ThreadEntry list \<Rightarrow> timed_slot list" where
  "entry_slots clamp [] = []"
| "entry_slots clamp (e # es) =
     (let c = max (of_int (te_ts e)) (clamp + 1) in \<lparr>sl_ts = c, sl_what = SlotEntry e\<rparr> # entry_slots c es)"

definition work_slots :: "(string, AlterChatItem list) al \<Rightarrow> timed_slot list" where
  "work_slots feeds = concat (map (\<lambda>(agent, items). map (\<lambda>it. \<lparr>sl_ts = ci_ts it, sl_what = SlotWork agent it\<rparr>) items) feeds)"

definition slot_cmp :: "timed_slot \<Rightarrow> timed_slot \<Rightarrow> int" where
  "slot_cmp a b = (if sl_ts a < sl_ts b then - 1 else if sl_ts b < sl_ts a then 1 else 0)"

definition merged_slots :: "ThreadEntry list \<Rightarrow> (string, AlterChatItem list) al \<Rightarrow> timed_slot list" where
  "merged_slots entries feeds = js_sort slot_cmp (entry_slots 0 entries @ work_slots feeds)"

record fold_state =
  fs_rows :: "TimelineRow list"
  fs_lastDay :: "string option"
  fs_runFrom :: "string option"
  fs_runTs :: rat

definition voice_key :: "string \<Rightarrow> string \<Rightarrow> string" where
  "voice_key who agent = ''voice:'' @ who @ '':'' @ agent"

definition opt_or :: "string option \<Rightarrow> string \<Rightarrow> string" where
  "opt_or x d = (case x of None \<Rightarrow> d | Some s \<Rightarrow> s)"

definition senderKey :: "ThreadEntry \<Rightarrow> string option" where
  "senderKey e =
     (if te_by e = Some ''alter''
      then Some (voice_key (if te_dir e = DirOut then ''me'' else opt_or (te_from e) []) (opt_or (te_agent e) ''alter''))
      else if te_dir e = DirOut then None else te_from e)"

definition open_day :: "(int \<Rightarrow> string) \<Rightarrow> rat \<Rightarrow> fold_state \<Rightarrow> fold_state" where
  "open_day dayKey ts s =
     (let day = dayKey \<lfloor>ts\<rfloor> in
      if Some day \<noteq> fs_lastDay s then
        s\<lparr>fs_rows := fs_rows s @ [TDay day ts], fs_lastDay := Some day, fs_runFrom := None\<rparr>
      else s)"

definition add_entry :: "rat \<Rightarrow> ThreadEntry \<Rightarrow> fold_state \<Rightarrow> fold_state" where
  "add_entry ts e s =
     (case senderKey e of
        None \<Rightarrow> s\<lparr>fs_rows := fs_rows s @ [TEntry (entry_row_key e) e False], fs_runFrom := None\<rparr>
      | Some k \<Rightarrow>
          s\<lparr>fs_rows := fs_rows s @ [TEntry (entry_row_key e) e (Some k \<noteq> fs_runFrom s \<or> ts - fs_runTs s > RUN_GAP_MS)],
            fs_runFrom := Some k, fs_runTs := ts\<rparr>)"

definition work_row :: "string \<Rightarrow> rat \<Rightarrow> AlterChatItem \<Rightarrow> TimelineRow option" where
  "work_row agent ts it =
     (case ci_body it of
        BThinking _ _ \<Rightarrow> Some (TProcess agent (ci_key it) ts it)
      | BTool _ _ \<Rightarrow> Some (TProcess agent (ci_key it) ts it)
      | BAlter text _ \<Rightarrow> (if trim text \<noteq> [] then Some (TNote agent (ci_key it) ts text) else None)
      | BTurnFailed _ reason message \<Rightarrow> Some (TWorkFailed agent (ci_key it) ts (opt_or message reason))
      | _ \<Rightarrow> None)"

definition add_work :: "rat \<Rightarrow> string \<Rightarrow> AlterChatItem \<Rightarrow> fold_state \<Rightarrow> fold_state" where
  "add_work ts agent it s =
     (case work_row agent ts it of
        None \<Rightarrow> s
      | Some r \<Rightarrow>
          (let wKey = voice_key ''me'' agent;
               head = (if Some wKey \<noteq> fs_runFrom s \<or> ts - fs_runTs s > RUN_GAP_MS then [TWorkHead agent (ci_key it) ts] else [])
           in s\<lparr>fs_rows := fs_rows s @ head @ [r], fs_runFrom := Some wKey, fs_runTs := ts\<rparr>))"

definition add_slot :: "(int \<Rightarrow> string) \<Rightarrow> timed_slot \<Rightarrow> fold_state \<Rightarrow> fold_state" where
  "add_slot dayKey sl s =
     (let s1 = open_day dayKey (sl_ts sl) s in
      case sl_what sl of
        SlotEntry e \<Rightarrow> add_entry (sl_ts sl) e s1
      | SlotWork agent it \<Rightarrow> add_work (sl_ts sl) agent it s1)"

definition buildTimeline :: "(int \<Rightarrow> string) \<Rightarrow> ThreadEntry list \<Rightarrow> (string, AlterChatItem list) al \<Rightarrow> TimelineRow list" where
  "buildTimeline dayKey entries feeds =
     fs_rows (fold (add_slot dayKey) (merged_slots entries feeds)
       \<lparr>fs_rows = [], fs_lastDay = None, fs_runFrom = None, fs_runTs = 0\<rparr>)"

section \<open>Room helpers\<close>

datatype GroupRole = RoleOwner | RoleAdmin | RoleMember

record ApiGroupProfile =
  gp_room :: "string option"
  gp_speakHumans :: bool
  gp_speakAgents :: bool
  gp_speakWho :: "string option"
  gp_admins :: "string list option"

definition DEFAULT_ROOM_KEY :: string where
  "DEFAULT_ROOM_KEY = ''chat''"

definition roomKeyOf :: "ApiGroupProfile option \<Rightarrow> string" where
  "roomKeyOf profile = (case profile of None \<Rightarrow> DEFAULT_ROOM_KEY
     | Some p \<Rightarrow> (case gp_room p of None \<Rightarrow> DEFAULT_ROOM_KEY | Some r \<Rightarrow> if r = [] then DEFAULT_ROOM_KEY else r))"

definition canSpeakAs :: "ApiGroupProfile option \<Rightarrow> GroupRole \<Rightarrow> string \<Rightarrow> bool" where
  "canSpeakAs profile role by =
     (case profile of None \<Rightarrow> True
      | Some p \<Rightarrow>
          (let who = opt_or (gp_speakWho p) ''all'' in
           if who = ''owner'' \<and> role \<noteq> RoleOwner then False
           else if who = ''admins'' \<and> role = RoleMember then False
           else if by = ''alter'' then gp_speakAgents p else gp_speakHumans p))"

definition roleOf :: "bool \<Rightarrow> ApiGroupProfile option \<Rightarrow> string option \<Rightarrow> GroupRole" where
  "roleOf mine profile myFp =
     (if mine then RoleOwner
      else (case (myFp, profile) of
              (Some fp, Some p) \<Rightarrow> (if fp \<in> set (case gp_admins p of None \<Rightarrow> [] | Some a \<Rightarrow> a) then RoleAdmin else RoleMember)
            | _ \<Rightarrow> RoleMember))"

section \<open>Lemmas\<close>

interpretation slots: comparator slot_cmp
  by unfold_locales (auto simp: slot_cmp_def split: if_splits)

definition is_entry_slot :: "timed_slot \<Rightarrow> bool" where
  "is_entry_slot sl = (case sl_what sl of SlotEntry _ \<Rightarrow> True | _ \<Rightarrow> False)"

lemma entry_slots_sorted: "sorted_wrt (\<lambda>a b. slot_cmp a b \<le> 0) (entry_slots clamp es) \<and> (\<forall>s \<in> set (entry_slots clamp es). clamp < sl_ts s)"
proof (induction es arbitrary: clamp)
  case (Cons e es)
  let ?c = "max (of_int (te_ts e)) (clamp + 1)"
  have "clamp < ?c" by simp
  then show ?case using Cons [of ?c] by (force simp: Let_def slot_cmp_def)
qed simp

lemma entry_slots_filter: "filter is_entry_slot (entry_slots clamp es) = entry_slots clamp es"
  by (induction es arbitrary: clamp) (auto simp: is_entry_slot_def Let_def)

lemma work_slots_filter: "filter is_entry_slot (work_slots feeds) = []"
  by (auto simp: work_slots_def is_entry_slot_def filter_empty_conv)

lemma merged_entries: "filter is_entry_slot (merged_slots entries feeds) = entry_slots 0 entries"
  unfolding merged_slots_def slots.filter_js_sort
  by (simp add: entry_slots_filter work_slots_filter slots.js_sort_id entry_slots_sorted)

definition row_entry :: "TimelineRow \<Rightarrow> ThreadEntry option" where
  "row_entry r = (case r of TEntry _ e _ \<Rightarrow> Some e | _ \<Rightarrow> None)"

definition slot_entry :: "timed_slot \<Rightarrow> ThreadEntry option" where
  "slot_entry sl = (case sl_what sl of SlotEntry e \<Rightarrow> Some e | _ \<Rightarrow> None)"

lemma work_row_entry: "work_row agent ts it = Some r \<Longrightarrow> row_entry r = None"
  by (auto simp: work_row_def row_entry_def split: item_body.splits if_splits)

lemma map_filter_append [simp]: "List.map_filter f (xs @ ys) = List.map_filter f xs @ List.map_filter f ys"
  by (simp add: List.map_filter_def)

lemma map_filter_Nil [simp]: "List.map_filter f [] = []"
  by (simp add: List.map_filter_def)

lemma map_filter_Cons: "List.map_filter f (x # xs) = (case f x of None \<Rightarrow> [] | Some y \<Rightarrow> [y]) @ List.map_filter f xs"
  by (auto simp: List.map_filter_def)

lemma add_slot_entries:
  "List.map_filter row_entry (fs_rows (add_slot dk sl s)) =
     List.map_filter row_entry (fs_rows s) @ (case slot_entry sl of None \<Rightarrow> [] | Some e \<Rightarrow> [e])"
proof -
  have day: "List.map_filter row_entry (fs_rows (open_day dk t s)) = List.map_filter row_entry (fs_rows s)" for t
    by (simp add: open_day_def Let_def map_filter_Cons row_entry_def)
  show ?thesis
  proof (cases "sl_what sl")
    case (SlotEntry e)
    then show ?thesis using day [of "sl_ts sl"]
      by (simp add: add_slot_def Let_def add_entry_def slot_entry_def map_filter_Cons row_entry_def split: option.split)
  next
    case (SlotWork agent it)
    show ?thesis
    proof (cases "work_row agent (sl_ts sl) it")
      case (Some r)
      then show ?thesis using day [of "sl_ts sl"] SlotWork work_row_entry [OF Some]
        by (simp add: add_slot_def Let_def add_work_def slot_entry_def map_filter_Cons)
          (simp add: row_entry_def)
    qed (use day SlotWork in \<open>simp add: add_slot_def Let_def add_work_def slot_entry_def\<close>)
  qed
qed

lemma fold_slots_entries:
  "List.map_filter row_entry (fs_rows (fold (add_slot dk) sls s)) =
     List.map_filter row_entry (fs_rows s) @ List.map_filter slot_entry sls"
  by (induction sls arbitrary: s) (simp_all add: add_slot_entries map_filter_Cons split: option.split)

lemma slot_entries_filter: "List.map_filter slot_entry sls = List.map_filter slot_entry (filter is_entry_slot sls)"
  by (induction sls) (auto simp: map_filter_Cons slot_entry_def is_entry_slot_def split: slot.split)

lemma slot_entries: "List.map_filter slot_entry (entry_slots clamp es) = es"
  by (induction es arbitrary: clamp) (auto simp: map_filter_Cons slot_entry_def Let_def)

text \<open>Day rows: the last one of the rows so far is the current day, and they never stand side by side.\<close>

definition is_day :: "TimelineRow \<Rightarrow> bool" where
  "is_day r = (case r of TDay _ _ \<Rightarrow> True | _ \<Rightarrow> False)"

lemma map_filter_row_entry_day: "is_day r \<Longrightarrow> row_entry r = None"
  by (auto simp: is_day_def row_entry_def split: TimelineRow.splits)

definition days_inv :: "fold_state \<Rightarrow> bool" where
  "days_inv s = ((fs_rows s = [] \<longleftrightarrow> fs_lastDay s = None) \<and> (fs_rows s \<noteq> [] \<longrightarrow> is_day (hd (fs_rows s))) \<and>
     (\<forall>d. fs_lastDay s = Some d \<longrightarrow> (\<exists>pre t post. fs_rows s = pre @ TDay d t # post \<and> list_all (\<lambda>r. \<not> is_day r) post)))"

lemma days_inv_open: "days_inv s \<Longrightarrow> days_inv (open_day dk ts s) \<and> fs_lastDay (open_day dk ts s) = Some (dk \<lfloor>ts\<rfloor>)"
proof -
  assume inv: "days_inv s"
  show ?thesis
  proof (cases "Some (dk \<lfloor>ts\<rfloor>) = fs_lastDay s")
    case True
    then show ?thesis using inv by (simp add: open_day_def Let_def)
  next
    case False
    have "\<exists>pre t post. fs_rows s @ [TDay (dk \<lfloor>ts\<rfloor>) ts] = pre @ TDay (dk \<lfloor>ts\<rfloor>) t # post \<and> list_all (\<lambda>r. \<not> is_day r) post"
      by (intro exI [of _ "fs_rows s"] exI [of _ ts] exI [of _ "[]"]) simp
    then show ?thesis using inv False
      by (cases "fs_rows s") (simp_all add: open_day_def Let_def days_inv_def is_day_def)
  qed
qed

lemma days_inv_add:
  assumes "days_inv s" "fs_lastDay s \<noteq> None" "list_all (\<lambda>r. \<not> is_day r) new"
  shows "days_inv (s\<lparr>fs_rows := fs_rows s @ new, fs_runFrom := rf, fs_runTs := rt\<rparr>)"
    and "days_inv (s\<lparr>fs_rows := fs_rows s @ new, fs_runFrom := rf\<rparr>)"
proof -
  obtain d where d: "fs_lastDay s = Some d" using assms(2) by blast
  then obtain pre t post where "fs_rows s = pre @ TDay d t # post" "list_all (\<lambda>r. \<not> is_day r) post"
    using assms(1) by (auto simp: days_inv_def)
  then have "\<exists>pre t post. fs_rows s @ new = pre @ TDay d t # post \<and> list_all (\<lambda>r. \<not> is_day r) post"
    using assms(3) by (intro exI [of _ pre] exI [of _ t] exI [of _ "post @ new"]) simp
  then show "days_inv (s\<lparr>fs_rows := fs_rows s @ new, fs_runFrom := rf, fs_runTs := rt\<rparr>)"
    "days_inv (s\<lparr>fs_rows := fs_rows s @ new, fs_runFrom := rf\<rparr>)"
    using assms(1) d by (simp_all add: days_inv_def)
qed

lemma work_row_not_day: "work_row agent ts it = Some r \<Longrightarrow> \<not> is_day r"
  by (auto simp: work_row_def is_day_def split: item_body.splits if_splits)

lemma days_inv_slot: "days_inv s \<Longrightarrow> days_inv (add_slot dk sl s)"
proof -
  assume inv: "days_inv s"
  let ?s = "open_day dk (sl_ts sl) s"
  have o: "days_inv ?s" "fs_lastDay ?s \<noteq> None" using days_inv_open [OF inv] by simp_all
  show ?thesis
  proof (cases "sl_what sl")
    case (SlotEntry e)
    then show ?thesis using days_inv_add [OF o]
      by (simp add: add_slot_def Let_def add_entry_def is_day_def split: option.split)
  next
    case (SlotWork agent it)
    then show ?thesis using days_inv_add [OF o] o(1) work_row_not_day [of agent "sl_ts sl" it]
      by (cases "work_row agent (sl_ts sl) it") (simp_all add: add_slot_def Let_def add_work_def is_day_def)
  qed
qed

lemma days_inv_fold: "days_inv s \<Longrightarrow> days_inv (fold (add_slot dk) sls s)"
  by (induction sls arbitrary: s) (simp_all add: days_inv_slot)

section \<open>Properties\<close>

text \<open>
  The room keeps the archive order. Whatever the senders' clocks say and however many work
  traces are interleaved, the archive entries appear in the timeline exactly once each and in
  archive order; and a timeline that is not empty opens with a day separator.
\<close>

theorem timeline_keeps_archive_order:
  "List.map_filter row_entry (buildTimeline dayKey entries feeds) = entries \<and>
   (buildTimeline dayKey entries feeds = [] \<or> is_day (hd (buildTimeline dayKey entries feeds)))"
proof
  show "List.map_filter row_entry (buildTimeline dayKey entries feeds) = entries"
    using slot_entries_filter [of "merged_slots entries feeds"]
    by (simp add: buildTimeline_def fold_slots_entries merged_entries slot_entries)
  have "days_inv (fold (add_slot dayKey) (merged_slots entries feeds)
      \<lparr>fs_rows = [], fs_lastDay = None, fs_runFrom = None, fs_runTs = 0\<rparr>)"
    by (rule days_inv_fold) (simp add: days_inv_def)
  then show "buildTimeline dayKey entries feeds = [] \<or> is_day (hd (buildTimeline dayKey entries feeds))"
    by (auto simp: buildTimeline_def days_inv_def)
qed

text \<open>
  The speak gate of a group, for every role and provenance: in an owner-only group only the
  owner posts, in an admins-only group members do not; beyond that a post composed by an alter
  needs agents to be allowed and a typed one needs humans to be; and a role higher up may always
  post what a lower one may.
\<close>

theorem speak_gate:
  "canSpeakAs (Some p) role by \<longleftrightarrow>
     (gp_speakWho p = Some ''owner'' \<longrightarrow> role = RoleOwner) \<and>
     (gp_speakWho p = Some ''admins'' \<longrightarrow> role \<noteq> RoleMember) \<and>
     (if by = ''alter'' then gp_speakAgents p else gp_speakHumans p)"
  by (cases "gp_speakWho p") (auto simp: canSpeakAs_def opt_or_def Let_def)

theorem speak_gate_witness:
  "canSpeakAs (Some \<lparr>gp_room = None, gp_speakHumans = True, gp_speakAgents = False, gp_speakWho = Some ''admins'', gp_admins = None\<rparr>)
     RoleAdmin ''owner''"
  by (subst speak_gate) simp

end
