(* ===== verification/Jsonrpc.thy ===== *)
theory Jsonrpc
  imports Json_Text
begin

text \<open>
  The line-delimited JSON-RPC endpoint, \<^verbatim>\<open>src/dsh/packages/dsh/src/network/jsonrpc.ts\<close>, as a state
  machine: the pending table, the id counter, the closed flag, and what it has done so far (lines
  written, promises settled, notifications and protocol errors handed out). Events are the
  calls and callbacks of the class; whether a write to the stream throws is part of the event.
  Lemmas: every request settles exactly once, responses reach the request they answer, nothing
  stays pending after close.
\<close>

section \<open>State\<close>

definition JSONRPC_CLOSED :: int where "JSONRPC_CLOSED = - 32099"
definition JSONRPC_TIMEOUT :: int where "JSONRPC_TIMEOUT = - 32098"

record JsonRpcError =
  je_message :: string
  je_code :: rat
  je_data :: unknown

datatype settlement = Resolved unknown | Rejected JsonRpcError

record Pending =
  pd_method :: string
  pd_timeoutMs :: int
  pd_signal :: bool

datatype protocol_fault = BadJson | NotAnObject | NoNumericId | UnknownId jsnum

record JsonRpcEndpoint =
  rp_pending :: "(int, Pending) al"
  rp_nextId :: int
  rp_closed :: bool
  rp_out :: "string list"
  rp_settled :: "(int \<times> settlement) list"
  rp_refused :: "(string \<times> JsonRpcError) list"
  rp_notifications :: "(string \<times> unknown) list"
  rp_protocolErrors :: "(protocol_fault \<times> string) list"
  rp_onClose :: "string option list"

definition new_endpoint :: JsonRpcEndpoint where
  "new_endpoint = \<lparr>rp_pending = [], rp_nextId = 1, rp_closed = False, rp_out = [], rp_settled = [], rp_refused = [],
     rp_notifications = [], rp_protocolErrors = [], rp_onClose = []\<rparr>"

definition rpc_error :: "string \<Rightarrow> int \<Rightarrow> JsonRpcError" where
  "rpc_error msg code = \<lparr>je_message = msg, je_code = of_int code, je_data = None\<rparr>"

section \<open>Operations\<close>

text \<open>\<open>entry.resolve\<close> / \<open>entry.reject\<close>: clear the timer, drop the entry, settle the promise.\<close>

definition settle :: "int \<Rightarrow> settlement \<Rightarrow> JsonRpcEndpoint \<Rightarrow> JsonRpcEndpoint" where
  "settle i r s =
     (if al_get (rp_pending s) i = None then s
      else s\<lparr>rp_pending := al_del i (rp_pending s), rp_settled := rp_settled s @ [(i, r)]\<rparr>)"

definition close_message :: "string option \<Rightarrow> string" where
  "close_message err = (case err of None \<Rightarrow> ''endpoint closed'' | Some m \<Rightarrow> ''endpoint closed: '' @ m)"

definition rpc_close :: "string option \<Rightarrow> JsonRpcEndpoint \<Rightarrow> JsonRpcEndpoint" where
  "rpc_close err s =
     (if rp_closed s then s
      else (let s1 = s\<lparr>rp_closed := True\<rparr>; reason = rpc_error (close_message err) JSONRPC_CLOSED;
                s2 = fold (\<lambda>i. settle i (Rejected reason)) (map fst (rp_pending s1)) s1
            in s2\<lparr>rp_pending := [], rp_onClose := rp_onClose s2 @ [err]\<rparr>))"

text \<open>\<open>fault\<close>: the message of the error \<open>output.write\<close> throws, if it does.\<close>

definition rpc_write :: "json \<Rightarrow> string option \<Rightarrow> JsonRpcEndpoint \<Rightarrow> bool \<times> JsonRpcEndpoint" where
  "rpc_write frame fault s =
     (if rp_closed s then (False, s)
      else (case fault of
              None \<Rightarrow> (True, s\<lparr>rp_out := rp_out s @ [JSON_stringify frame @ [CHR 0x0A]]\<rparr>)
            | Some m \<Rightarrow> (False, rpc_close (Some m) s)))"

definition request_frame :: "int \<Rightarrow> string \<Rightarrow> unknown \<Rightarrow> json" where
  "request_frame i method params =
     JObj ([(''jsonrpc'', JStr ''2.0''), (''id'', JNum (Fin (of_int i))), (''method'', JStr method)] @ opt_field ''params'' params)"

text \<open>\<open>signal\<close>: no abort signal, or whether the given one is already aborted.\<close>

definition rpc_request :: "string \<Rightarrow> unknown \<Rightarrow> int \<Rightarrow> bool option \<Rightarrow> string option \<Rightarrow> JsonRpcEndpoint \<Rightarrow> JsonRpcEndpoint" where
  "rpc_request method params timeoutMs signal fault s =
     (if rp_closed s then
        s\<lparr>rp_refused := rp_refused s @ [(method, rpc_error (method @ '': endpoint is closed'') JSONRPC_CLOSED)]\<rparr>
      else (let i = rp_nextId s;
                s1 = s\<lparr>rp_nextId := i + 1, rp_pending := al_set i \<lparr>pd_method = method, pd_timeoutMs = timeoutMs, pd_signal = signal \<noteq> None\<rparr> (rp_pending s)\<rparr>;
                s2 = (if signal = Some True then settle i (Rejected (rpc_error (method @ '': aborted'') JSONRPC_CLOSED)) s1 else s1);
                (ok, s3) = rpc_write (request_frame i method params) fault s2
            in if ok then s3 else settle i (Rejected (rpc_error (method @ '': endpoint is closed'') JSONRPC_CLOSED)) s3))"

definition rpc_notify :: "string \<Rightarrow> unknown \<Rightarrow> string option \<Rightarrow> JsonRpcEndpoint \<Rightarrow> JsonRpcEndpoint" where
  "rpc_notify method params fault s =
     snd (rpc_write (JObj ([(''jsonrpc'', JStr ''2.0''), (''method'', JStr method)] @ opt_field ''params'' params)) fault s)"

text \<open>The timer of a pending request fires (a settled one has its timer cleared).\<close>

definition rpc_timeout :: "int \<Rightarrow> JsonRpcEndpoint \<Rightarrow> JsonRpcEndpoint" where
  "rpc_timeout i s =
     (case al_get (rp_pending s) i of
        Some p \<Rightarrow> (if pd_timeoutMs p > 0
          then settle i (Rejected (rpc_error (pd_method p @ '': no response within '' @ show_nat (nat (pd_timeoutMs p)) @ '' ms'') JSONRPC_TIMEOUT)) s
          else s)
      | None \<Rightarrow> s)"

definition rpc_abort :: "int \<Rightarrow> JsonRpcEndpoint \<Rightarrow> JsonRpcEndpoint" where
  "rpc_abort i s =
     (case al_get (rp_pending s) i of
        Some p \<Rightarrow> (if pd_signal p then settle i (Rejected (rpc_error (pd_method p @ '': aborted'') JSONRPC_CLOSED)) s else s)
      | None \<Rightarrow> s)"

definition protocol_error :: "protocol_fault \<Rightarrow> string \<Rightarrow> JsonRpcEndpoint \<Rightarrow> JsonRpcEndpoint" where
  "protocol_error e line s = s\<lparr>rp_protocolErrors := rp_protocolErrors s @ [(e, line)]\<rparr>"

definition response_error :: "unknown \<Rightarrow> string \<Rightarrow> JsonRpcError" where
  "response_error e method =
     \<lparr>je_message = (case str_opt (jprop e ''message'') of Some m \<Rightarrow> m | None \<Rightarrow> method @ '' failed''),
      je_code = num_or (jprop e ''code'') (- 32603), je_data = jprop e ''data''\<rparr>"

text \<open>\<open>pending.get(f.id)\<close> for a numeric id: only a whole number can be a key.\<close>

fun pending_of :: "jsnum \<Rightarrow> JsonRpcEndpoint \<Rightarrow> (int \<times> Pending) option" where
  "pending_of (Fin r) s =
     (if of_int \<lfloor>r\<rfloor> = r then map_option (\<lambda>p. (\<lfloor>r\<rfloor>, p)) (al_get (rp_pending s) \<lfloor>r\<rfloor>) else None)"
| "pending_of NotFinite s = None"

fun num_opt :: "unknown \<Rightarrow> jsnum option" where
  "num_opt (Some (JNum n)) = Some n"
| "num_opt _ = None"

definition nullish :: "unknown \<Rightarrow> bool" where
  "nullish v \<longleftrightarrow> v = None \<or> v = Some JNull"

definition handleResponse :: "unknown \<Rightarrow> string \<Rightarrow> JsonRpcEndpoint \<Rightarrow> JsonRpcEndpoint" where
  "handleResponse f line s =
     (case num_opt (jprop f ''id'') of
        None \<Rightarrow> protocol_error NoNumericId line s
      | Some n \<Rightarrow>
          (case pending_of n s of
             None \<Rightarrow> protocol_error (UnknownId n) line s
           | Some (i, p) \<Rightarrow>
               (if \<not> nullish (jprop f ''error'') then settle i (Rejected (response_error (jprop f ''error'') (pd_method p))) s
                else settle i (Resolved (jprop f ''result'')) s)))"

definition handleFrame :: "unknown \<Rightarrow> string \<Rightarrow> JsonRpcEndpoint \<Rightarrow> JsonRpcEndpoint" where
  "handleFrame f line s =
     (if \<not> is_object f then protocol_error NotAnObject line s
      else (case str_opt (jprop f ''method'') of
         Some method \<Rightarrow>
           (if nullish (jprop f ''id'')
            then s\<lparr>rp_notifications := rp_notifications s @ [(method, jprop f ''params'')]\<rparr>
            else handleResponse f line s)
       | None \<Rightarrow> handleResponse f line s))"

definition handleLine :: "string \<Rightarrow> JsonRpcEndpoint \<Rightarrow> JsonRpcEndpoint" where
  "handleLine line s =
     (if trim line = [] then s
      else (case JSON_parse (trim line) of
              None \<Rightarrow> protocol_error BadJson line s
            | Some frame \<Rightarrow> handleFrame (Some frame) line s))"

text \<open>
  The endpoint is driven by calls of its owner and by stream, timer and signal callbacks; each
  runs to completion before the next.
\<close>

datatype rpc_event =
    CallRequest string unknown int "bool option" "string option"
  | CallNotify string unknown "string option"
  | CallClose "string option"
  | OnLine string
  | OnTimer int
  | OnAbort int

fun rpc_step :: "rpc_event \<Rightarrow> JsonRpcEndpoint \<Rightarrow> JsonRpcEndpoint" where
  "rpc_step (CallRequest m ps t sg w) s = rpc_request m ps t sg w s"
| "rpc_step (CallNotify m ps w) s = rpc_notify m ps w s"
| "rpc_step (CallClose e) s = rpc_close e s"
| "rpc_step (OnLine l) s = handleLine l s"
| "rpc_step (OnTimer i) s = rpc_timeout i s"
| "rpc_step (OnAbort i) s = rpc_abort i s"

definition rpc_run :: "rpc_event list \<Rightarrow> JsonRpcEndpoint" where
  "rpc_run evs = fold rpc_step evs new_endpoint"

section \<open>Every request settles once\<close>

definition rpc_inv :: "JsonRpcEndpoint \<Rightarrow> bool" where
  "rpc_inv s \<longleftrightarrow> 1 \<le> rp_nextId s \<and> distinct (map fst (rp_pending s) @ map fst (rp_settled s)) \<and>
     set (map fst (rp_pending s) @ map fst (rp_settled s)) = {1..<rp_nextId s}"

text \<open>What an operation that creates no request may do to the bookkeeping.\<close>

definition settles :: "JsonRpcEndpoint \<Rightarrow> JsonRpcEndpoint \<Rightarrow> bool" where
  "settles s t \<longleftrightarrow> rp_nextId t = rp_nextId s \<and> prefix (rp_settled s) (rp_settled t) \<and>
     mset (map fst (rp_pending t) @ map fst (rp_settled t)) = mset (map fst (rp_pending s) @ map fst (rp_settled s)) \<and>
     set (rp_pending t) \<subseteq> set (rp_pending s) \<and> (rp_closed s \<longrightarrow> rp_closed t)"

lemma settlesI:
  "rp_nextId t = rp_nextId s \<Longrightarrow> rp_settled t = rp_settled s \<Longrightarrow> rp_pending t = rp_pending s \<Longrightarrow> rp_closed t = rp_closed s \<Longrightarrow> settles s t"
  by (simp add: settles_def)

lemma settles_refl [simp]: "settles s s"
  by (simp add: settlesI)

lemma settles_trans: "settles s t \<Longrightarrow> settles t u \<Longrightarrow> settles s u"
  unfolding settles_def by (auto intro: prefix_order.order_trans)

lemma settles_inv:
  assumes "settles s t" "rpc_inv s" shows "rpc_inv t"
proof -
  have m: "mset (map fst (rp_pending t) @ map fst (rp_settled t)) = mset (map fst (rp_pending s) @ map fst (rp_settled s))"
    and n: "rp_nextId t = rp_nextId s"
    using assms(1) unfolding settles_def by simp_all
  from mset_eq_imp_distinct_iff [OF m] mset_eq_setD [OF m] n assms(2) show ?thesis
    unfolding rpc_inv_def by metis
qed

lemma al_del_split:
  "distinct (map fst m) \<Longrightarrow> al_get m i = Some p \<Longrightarrow> mset (map fst m) = add_mset i (mset (map fst (al_del i m)))"
proof -
  assume d: "distinct (map fst m)" and g: "al_get m i = Some p"
  have "i \<in> set (map fst m)" using g by (auto simp: map_of_eq_None_iff dest: map_of_SomeD intro: rev_image_eqI)
  then have "set (map fst m) = set (i # filter (\<lambda>a. a \<noteq> i) (map fst m))" by auto
  moreover have "distinct (i # filter (\<lambda>a. a \<noteq> i) (map fst m))" using d by simp
  ultimately show ?thesis using d by (metis keys_al_del mset.simps(2) set_eq_iff_mset_eq_distinct)
qed

lemma settle_settles:
  assumes "rpc_inv s" shows "settles s (settle i r s)"
proof (cases "al_get (rp_pending s) i")
  case (Some p)
  have "distinct (map fst (rp_pending s))" using assms by (simp add: rpc_inv_def)
  from al_del_split [OF this Some] Some show ?thesis
    by (auto simp: settle_def settles_def al_del_def)
qed (simp add: settle_def)

lemma settle_pending: "rp_pending (settle i r s) = al_del i (rp_pending s)"
  by (simp add: settle_def al_del_absent)

lemma settle_other [simp]:
  "rp_closed (settle i r s) = rp_closed s" "rp_nextId (settle i r s) = rp_nextId s"
  by (simp_all add: settle_def)

lemma fold_settle:
  "rpc_inv s \<Longrightarrow> settles s (fold (\<lambda>i. settle i r) is s) \<and>
     rp_pending (fold (\<lambda>i. settle i r) is s) = filter (\<lambda>e. fst e \<notin> set is) (rp_pending s)"
proof (induction "is" arbitrary: s)
  case (Cons i "is")
  have a: "settles s (settle i r s)" by (rule settle_settles [OF Cons.prems])
  note ih = Cons.IH [OF settles_inv [OF a Cons.prems]]
  have "settles s (fold (\<lambda>i. settle i r) (i # is) s)" using settles_trans [OF a conjunct1 [OF ih]] by simp
  moreover have "rp_pending (fold (\<lambda>i. settle i r) (i # is) s) = filter (\<lambda>e. fst e \<notin> set (i # is)) (rp_pending s)"
    using conjunct2 [OF ih] by (auto simp: settle_pending al_del_def intro: filter_cong)
  ultimately show ?case by (rule conjI)
qed simp

lemma rpc_close_ok:
  assumes "rpc_inv s"
  shows "settles s (rpc_close err s)" "rp_closed (rpc_close err s)"
    "\<not> rp_closed s \<Longrightarrow> rp_pending (rpc_close err s) = []"
proof -
  let ?s1 = "s\<lparr>rp_closed := True\<rparr>"
  let ?f = "fold (\<lambda>i. settle i (Rejected (rpc_error (close_message err) JSONRPC_CLOSED))) (map fst (rp_pending s)) ?s1"
  have i1: "rpc_inv ?s1" using assms by (simp add: rpc_inv_def)
  have st: "settles s ?s1" by (simp add: settles_def)
  note f = fold_settle [OF i1, of "Rejected (rpc_error (close_message err) JSONRPC_CLOSED)" "map fst (rp_pending s)"]
  have e: "rp_pending ?f = []" using conjunct2 [OF f] by (simp add: filter_empty_conv)
  have "rp_closed ?f" using conjunct1 [OF f] by (simp add: settles_def)
  moreover have "settles ?f (?f\<lparr>rp_pending := [], rp_onClose := x\<rparr>)" for x using e by (simp add: settles_def)
  ultimately show "settles s (rpc_close err s)" "rp_closed (rpc_close err s)"
    "\<not> rp_closed s \<Longrightarrow> rp_pending (rpc_close err s) = []"
    using settles_trans [OF st settles_trans [OF conjunct1 [OF f]]] by (auto simp: rpc_close_def Let_def)
qed

definition rpc_wf :: "JsonRpcEndpoint \<Rightarrow> bool" where
  "rpc_wf s \<longleftrightarrow> rpc_inv s \<and> (rp_closed s \<longrightarrow> rp_pending s = [])"

lemma rpc_wf_frame [simp]:
  "rpc_wf (s\<lparr>rp_refused := a\<rparr>) = rpc_wf s" "rpc_wf (s\<lparr>rp_notifications := b\<rparr>) = rpc_wf s"
  "rpc_wf (s\<lparr>rp_protocolErrors := c\<rparr>) = rpc_wf s" "settles s (s\<lparr>rp_refused := a\<rparr>)"
  "settles s (s\<lparr>rp_notifications := b\<rparr>)" "settles s (s\<lparr>rp_protocolErrors := c\<rparr>)"
  by (simp_all add: rpc_wf_def rpc_inv_def settles_def)

lemma settles_wf:
  "settles s t \<Longrightarrow> rpc_wf s \<Longrightarrow> rp_closed t = rp_closed s \<or> rp_pending t = [] \<Longrightarrow> rpc_wf t"
  using settles_inv [of s t] by (auto simp: rpc_wf_def settles_def)

lemma settle_wf: "rpc_wf s \<Longrightarrow> rpc_wf (settle i r s) \<and> settles s (settle i r s)"
  using settles_wf [OF settle_settles [of s i r]] settle_settles [of s i r] by (simp add: rpc_wf_def)

lemma rpc_close_wf: "rpc_wf s \<Longrightarrow> rpc_wf (rpc_close err s) \<and> settles s (rpc_close err s)"
  using rpc_close_ok [of s err] settles_wf [of s "rpc_close err s"] by (auto simp: rpc_wf_def)

lemma rpc_close_pending: "rpc_wf s \<Longrightarrow> rp_pending (rpc_close err s) = []"
  using rpc_close_wf [of s err] rpc_close_ok(2) [of s err] by (auto simp: rpc_wf_def)

lemma rpc_write_wf: "rpc_wf s \<Longrightarrow> rpc_wf (snd (rpc_write f w s)) \<and> settles s (snd (rpc_write f w s))"
  using rpc_close_wf [of s] by (auto simp: rpc_write_def rpc_wf_def rpc_inv_def settles_def split: option.splits)

text \<open>A request takes the next id; when it returns, that id is pending or already settled.\<close>

definition opened :: "string \<Rightarrow> int \<Rightarrow> bool \<Rightarrow> JsonRpcEndpoint \<Rightarrow> JsonRpcEndpoint" where
  "opened method timeoutMs sg s =
     s\<lparr>rp_nextId := rp_nextId s + 1,
       rp_pending := al_set (rp_nextId s) \<lparr>pd_method = method, pd_timeoutMs = timeoutMs, pd_signal = sg\<rparr> (rp_pending s)\<rparr>"

lemma fresh_id: "rpc_inv s \<Longrightarrow> al_get (rp_pending s) (rp_nextId s) = None"
  by (auto simp: rpc_inv_def al_get_eq_None)

lemma opened_wf:
  assumes "rpc_wf s" "\<not> rp_closed s"
  shows "rpc_wf (opened m t sg s)"
proof -
  have i: "rpc_inv s" using assms(1) by (simp add: rpc_wf_def)
  have b: "set (map fst (rp_pending s) @ map fst (rp_settled s)) = {1..<rp_nextId s}"
    and d: "distinct (map fst (rp_pending s) @ map fst (rp_settled s))" and n: "1 \<le> rp_nextId s"
    using i by (simp_all add: rpc_inv_def)
  have "rp_nextId s \<notin> set (map fst (rp_pending s) @ map fst (rp_settled s))" unfolding b by simp
  moreover have "insert (rp_nextId s) {1..<rp_nextId s} = {1..<rp_nextId s + 1}" using n by auto
  ultimately show ?thesis
    using b d n assms(2) by (auto simp: rpc_wf_def rpc_inv_def opened_def al_set_absent [OF fresh_id [OF i]])
qed

definition request_rest :: "string \<Rightarrow> unknown \<Rightarrow> bool option \<Rightarrow> string option \<Rightarrow> int \<Rightarrow> JsonRpcEndpoint \<Rightarrow> JsonRpcEndpoint" where
  "request_rest method params signal fault i s1 =
     (let s2 = (if signal = Some True then settle i (Rejected (rpc_error (method @ '': aborted'') JSONRPC_CLOSED)) s1 else s1);
          (ok, s3) = rpc_write (request_frame i method params) fault s2
      in if ok then s3 else settle i (Rejected (rpc_error (method @ '': endpoint is closed'') JSONRPC_CLOSED)) s3)"

lemma rpc_request_open:
  "\<not> rp_closed s \<Longrightarrow> rpc_request m ps t sg w s = request_rest m ps sg w (rp_nextId s) (opened m t (sg \<noteq> None) s)"
  by (simp add: rpc_request_def request_rest_def opened_def Let_def)

lemma request_rest_wf:
  assumes "rpc_wf s1" shows "rpc_wf (request_rest m ps sg w i s1) \<and> settles s1 (request_rest m ps sg w i s1)"
proof -
  define s2 where "s2 = (if sg = Some True then settle i (Rejected (rpc_error (m @ '': aborted'') JSONRPC_CLOSED)) s1 else s1)"
  have 2: "rpc_wf s2 \<and> settles s1 s2" using settle_wf [OF assms] assms by (simp add: s2_def)
  obtain ok s3 where w: "rpc_write (request_frame i m ps) w s2 = (ok, s3)" by (cases "rpc_write (request_frame i m ps) w s2")
  have 3: "rpc_wf s3 \<and> settles s2 s3" using rpc_write_wf [OF conjunct1 [OF 2], of "request_frame i m ps" w] w by simp
  define s4 where "s4 = (if ok then s3 else settle i (Rejected (rpc_error (m @ '': endpoint is closed'') JSONRPC_CLOSED)) s3)"
  have 4: "rpc_wf s4 \<and> settles s3 s4" using settle_wf [OF conjunct1 [OF 3]] 3 by (simp add: s4_def)
  have "request_rest m ps sg w i s1 = s4"
    unfolding request_rest_def s2_def [symmetric] Let_def w s4_def by simp
  then show ?thesis using 2 3 4 settles_trans by metis
qed

lemma rpc_request_wf: "rpc_wf s \<Longrightarrow> rpc_wf (rpc_request m ps t sg w s)"
proof (cases "rp_closed s")
  case True
  assume "rpc_wf s"
  then show ?thesis using True by (simp add: rpc_request_def)
next
  case False
  assume "rpc_wf s"
  from request_rest_wf [OF opened_wf [OF this False]] show ?thesis unfolding rpc_request_open [OF False] by blast
qed

lemma handleFrame_wf: "rpc_wf s \<Longrightarrow> rpc_wf (handleFrame f l s) \<and> settles s (handleFrame f l s)"
  using settle_wf [of s]
  by (auto simp: handleFrame_def handleResponse_def protocol_error_def split: option.splits prod.splits)

lemma handleLine_wf: "rpc_wf s \<Longrightarrow> rpc_wf (handleLine l s) \<and> settles s (handleLine l s)"
  using handleFrame_wf [of s] by (auto simp: handleLine_def protocol_error_def split: option.splits)

lemma rpc_timer_wf: "rpc_wf s \<Longrightarrow> rpc_wf (rpc_timeout i s) \<and> settles s (rpc_timeout i s)"
  using settle_wf [of s] by (auto simp: rpc_timeout_def split: option.splits)

lemma rpc_abort_wf: "rpc_wf s \<Longrightarrow> rpc_wf (rpc_abort i s) \<and> settles s (rpc_abort i s)"
  using settle_wf [of s] by (auto simp: rpc_abort_def split: option.splits)

lemma rpc_request_settled: "rpc_wf s \<Longrightarrow> prefix (rp_settled s) (rp_settled (rpc_request m ps t sg w s))"
proof (cases "rp_closed s")
  case False
  assume "rpc_wf s"
  from request_rest_wf [OF opened_wf [OF this False]] show ?thesis
    unfolding rpc_request_open [OF False] settles_def by (simp add: opened_def)
qed (simp add: rpc_request_def)

lemma rpc_step_wf: "rpc_wf s \<Longrightarrow> rpc_wf (rpc_step e s) \<and> prefix (rp_settled s) (rp_settled (rpc_step e s))"
  using rpc_request_wf rpc_request_settled rpc_write_wf rpc_close_wf handleLine_wf rpc_timer_wf rpc_abort_wf
  by (cases e) (auto simp: settles_def rpc_notify_def)

lemma rpc_fold_wf: "rpc_wf s \<Longrightarrow> rpc_wf (fold rpc_step evs s) \<and> prefix (rp_settled s) (rp_settled (fold rpc_step evs s))"
proof (induction evs arbitrary: s)
  case (Cons e evs)
  from rpc_step_wf [OF Cons.prems, of e] Cons.IH [of "rpc_step e s"] show ?case
    by (auto intro: prefix_order.order_trans)
qed simp

lemma rpc_run_wf: "rpc_wf (rpc_run evs)"
  using rpc_fold_wf [of new_endpoint evs] by (simp add: rpc_run_def new_endpoint_def rpc_wf_def rpc_inv_def)

lemma closed_step: "rpc_wf s \<Longrightarrow> rp_closed s \<Longrightarrow> rp_closed (rpc_step e s)"
  using rpc_write_wf rpc_close_wf handleLine_wf rpc_timer_wf rpc_abort_wf
  by (cases e) (auto simp: settles_def rpc_notify_def rpc_request_def)

lemma closed_fold: "rpc_wf s \<Longrightarrow> rp_closed s \<Longrightarrow> rp_closed (fold rpc_step evs s)"
  by (induction evs arbitrary: s) (auto simp: closed_step rpc_step_wf)

lemma rpc_closed_run: "rp_pending (rpc_run (evs @ [CallClose err] @ rest)) = []"
proof -
  have w: "rpc_wf (rpc_close err (rpc_run evs))" using rpc_close_wf [OF rpc_run_wf] by blast
  have "rp_closed (rpc_close err (rpc_run evs))"
    using rpc_close_ok(2) [of "rpc_run evs" err] rpc_run_wf [of evs] by (simp add: rpc_wf_def)
  from closed_fold [OF w this, of rest] have "rp_closed (rpc_run (evs @ [CallClose err] @ rest))" by (simp add: rpc_run_def)
  then show ?thesis using rpc_run_wf [of "evs @ [CallClose err] @ rest"] by (simp add: rpc_wf_def)
qed

text \<open>
  C23. A JSON-RPC request is settled exactly once. Whatever calls, lines, timers and signals the
  endpoint has seen: the ids handed out are the pending ones and the settled ones, no id is settled
  twice or settled while pending, a settlement is never taken back or changed by later events, and
  once the endpoint is closed nothing is pending, so no caller waits forever.
\<close>

theorem rpc_settles_once:
  "distinct (map fst (rp_pending (rpc_run evs)) @ map fst (rp_settled (rpc_run evs))) \<and>
   fst ` set (rp_pending (rpc_run evs)) \<union> fst ` set (rp_settled (rpc_run evs)) = {1..<rp_nextId (rpc_run evs)} \<and>
   prefix (rp_settled (rpc_run evs)) (rp_settled (rpc_run (evs @ rest))) \<and>
   rp_pending (rpc_run (evs @ [CallClose err] @ rest)) = []"
proof -
  have inv: "rpc_inv (rpc_run evs)" using rpc_run_wf by (simp add: rpc_wf_def)
  have pre: "prefix (rp_settled (rpc_run evs)) (rp_settled (rpc_run (evs @ rest)))"
    using rpc_fold_wf [OF rpc_run_wf, of rest evs] by (simp add: rpc_run_def)
  show ?thesis using inv pre rpc_closed_run [of evs err rest] by (simp add: rpc_inv_def)
qed

section \<open>Responses reach their requests\<close>

definition reply_line :: "int \<Rightarrow> string \<Rightarrow> json \<Rightarrow> string" where
  "reply_line i k v = JSON_stringify (JObj [(''jsonrpc'', JStr ''2.0''), (''id'', JNum (Fin (of_int i))), (k, v)])"

lemma trim_object: "trim (JSON_stringify (JObj kvs)) = JSON_stringify (JObj kvs)"
  by (simp add: trim_id_iff is_ws_def)

lemma reply_frame:
  assumes "json_ok v" "k \<notin> {''jsonrpc'', ''id'', ''method''}"
  shows "handleLine (reply_line i k v) s =
    handleResponse (Some (JObj [(''jsonrpc'', JStr ''2.0''), (''id'', JNum (Fin (of_int i))), (k, v)])) (reply_line i k v) s"
proof -
  let ?o = "JObj [(''jsonrpc'', JStr ''2.0''), (''id'', JNum (Fin (of_int i))), (k, v)]"
  have ok: "json_ok ?o" using assms by (auto simp: al_wf_def)
  have ne: "trim (reply_line i k v) = reply_line i k v" "reply_line i k v \<noteq> []"
    unfolding reply_line_def trim_object by simp_all
  have "JSON_parse (trim (reply_line i k v)) = Some ?o"
    unfolding ne using JSON_parse_stringify [OF ok] by (simp only: reply_line_def)
  moreover have "''method'' \<noteq> k" using assms(2) by auto
  ultimately show ?thesis using ne by (simp add: handleLine_def handleFrame_def)
qed

text \<open>
  Responses are correlated by id. When request \<open>i\<close> is pending, the line the peer writes to
  answer it, parsed from its text, resolves exactly that request with the value sent, or rejects it
  with the code and message of the error object; every other pending request stays. The same line
  for an id that is not pending (unknown, already answered, timed out) settles nothing and is
  reported as a protocol error.
\<close>

theorem rpc_response_correlated:
  assumes "al_get (rp_pending s) i = Some p" "json_ok v" "v \<noteq> JNull" "json_ok w" "al_get (rp_pending s) j = None"
  shows "rp_settled (handleLine (reply_line i ''result'' v) s) = rp_settled s @ [(i, Resolved (Some v))] \<and>
    rp_settled (handleLine (reply_line i ''error'' v) s) =
      rp_settled s @ [(i, Rejected \<lparr>je_message = (case jprop (Some v) ''message'' of Some (JStr m) \<Rightarrow> m | _ \<Rightarrow> pd_method p @ '' failed''),
        je_code = num_or (jprop (Some v) ''code'') (- 32603), je_data = jprop (Some v) ''data''\<rparr>)] \<and>
    rp_pending (handleLine (reply_line i ''result'' v) s) = filter (\<lambda>e. fst e \<noteq> i) (rp_pending s) \<and>
    handleLine (reply_line j ''result'' w) s =
      s\<lparr>rp_protocolErrors := rp_protocolErrors s @ [(UnknownId (Fin (of_int j)), reply_line j ''result'' w)]\<rparr>"
proof -
  have str: "(case jprop (Some v) ''message'' of Some (JStr m) \<Rightarrow> m | _ \<Rightarrow> d)
    = (case str_opt (jprop (Some v) ''message'') of Some m \<Rightarrow> m | None \<Rightarrow> d)" for d
    by (cases "jprop (Some v) ''message''" rule: str_opt.cases) auto
  have k: "''result'' \<notin> {''jsonrpc'', ''id'', ''method''}" "''error'' \<notin> {''jsonrpc'', ''id'', ''method''}" by simp_all
  note ok = reply_frame [OF assms(2) k(1), of i s] reply_frame [OF assms(2) k(2), of i s] reply_frame [OF assms(4) k(1), of j s]
  show ?thesis
    unfolding ok str using assms(1,3,5)
    by (simp add: handleResponse_def nullish_def settle_def protocol_error_def response_error_def al_del_def)
qed

theorem rpc_response_correlated_witness:
  "rp_settled (handleLine (reply_line 1 ''result'' (JBool True)) (rpc_run [CallRequest ''ping'' None 0 None None])) = [(1, Resolved (Some (JBool True)))]"
proof -
  let ?s = "rpc_run [CallRequest ''ping'' None 0 None None]"
  have a: "rp_pending ?s = [(1, \<lparr>pd_method = ''ping'', pd_timeoutMs = 0, pd_signal = False\<rparr>)]" "rp_settled ?s = []"
    by (simp_all add: rpc_run_def new_endpoint_def rpc_request_def rpc_write_def Let_def)
  then have "al_get (rp_pending ?s) 1 = Some \<lparr>pd_method = ''ping'', pd_timeoutMs = 0, pd_signal = False\<rparr>" "al_get (rp_pending ?s) 2 = None" by simp_all
  from rpc_response_correlated [OF this(1) _ _ _ this(2), of "JBool True" JNull] a show ?thesis by simp
qed

end
