(* ===== verification/Memory_Store.thy ===== *)
theory Memory_Store
  imports Json_Text
begin

text \<open>
  The alter's long-term memory, \<^verbatim>\<open>src/dsh/packages/dsh/src/memory/store.ts\<close> and
  \<^verbatim>\<open>src/dsh/packages/dsh/src/memory/extract.ts\<close>. The SQLite database is a record of the two tables
  the code creates (rows in rowid order) and the AUTOINCREMENT counter. What SQLite decides on
  its own is a parameter: the order in which a query visits rows with equal sort keys
  (\<open>plan\<close>) and the full-text rank of a row (\<open>bm25\<close>, \<open>None\<close> for a row that does not match).
  Lemmas: reads never leave the allowed scopes, the full-text table stays in step with the main
  table under every operation, adding is idempotent, the bigram segmentation finds every pair of
  adjacent Chinese characters, and the parser of the extraction answer inverts its printer.
\<close>

section \<open>Segmentation\<close>

text \<open>\<open>segment\<close> works on code points, which are naturals here (Chinese characters lie above 255).\<close>

definition is_cjk :: "nat \<Rightarrow> bool" where
  "is_cjk c \<longleftrightarrow> 0x4e00 \<le> c \<and> c \<le> 0x9fff"

definition is_alnum :: "nat \<Rightarrow> bool" where
  "is_alnum c \<longleftrightarrow> 97 \<le> c \<and> c \<le> 122 \<or> 65 \<le> c \<and> c \<le> 90 \<or> 48 \<le> c \<and> c \<le> 57"

definition lower_cp :: "nat \<Rightarrow> nat" where
  "lower_cp c = (if 65 \<le> c \<and> c \<le> 90 then c + 32 else c)"

definition flushCjk :: "nat list \<Rightarrow> nat list list" where
  "flushCjk run = (if length run = 1 then [run] else map (\<lambda>i. take 2 (drop i run)) [0..<length run - 1])"

definition flushWord :: "nat list \<Rightarrow> nat list list" where
  "flushWord run = (if run = [] then [] else [map lower_cp run])"

type_synonym seg_state = "nat list list \<times> nat list \<times> nat list"

fun seg_step :: "nat \<Rightarrow> seg_state \<Rightarrow> seg_state" where
  "seg_step ch (out, cjk, word) =
     (if is_cjk ch then (out @ flushWord word, cjk @ [ch], [])
      else if is_alnum ch then (out @ flushCjk cjk, [], word @ [ch])
      else (out @ flushWord word @ flushCjk cjk, [], []))"

fun seg_end :: "seg_state \<Rightarrow> nat list list" where
  "seg_end (out, cjk, word) = out @ flushWord word @ flushCjk cjk"

definition segment_tokens :: "nat list \<Rightarrow> nat list list" where
  "segment_tokens text = seg_end (fold seg_step text ([], [], []))"

definition segment :: "nat list \<Rightarrow> nat list" where
  "segment text = join_with [32] (segment_tokens text)"

definition code_points :: "string \<Rightarrow> nat list" where
  "code_points s = map of_char s"

section \<open>Scopes and rows\<close>

text \<open>The column is text: \<open>OtherKind\<close> is a kind outside the union type, which only an unchecked cast lets in.\<close>

datatype MemoryKind = Fact | Preference | Summary | Decision | Promise | OtherKind string

datatype MemoryScope = Global | AgentScope string | SharedFriend string | SharedGroup string

datatype origin = AutoOrigin | ManualOrigin

record NewMemory =
  nm_kind :: MemoryKind
  nm_content :: string
  nm_scope :: MemoryScope
  nm_sourceCh :: string
  nm_sourceRef :: "string option"
  nm_weight :: "rat option"
  nm_origin :: "origin option"

record MemoryRecord =
  mr_id :: int
  mr_uid :: string
  mr_kind :: MemoryKind
  mr_content :: string
  mr_scope :: MemoryScope
  mr_sourceCh :: string
  mr_sourceRef :: string
  mr_weight :: rat
  mr_origin :: origin
  mr_createdAt :: int
  mr_lastHitAt :: "int option"
  mr_hitCount :: int

record AllowScopes =
  al_global :: bool
  al_agent :: "string option"
  al_friend :: "string option"
  al_group :: "string option"

record memory_row =
  row_id :: int
  row_uid :: string
  row_kind :: MemoryKind
  row_content :: string
  row_scope_kind :: string
  row_scope_key :: "string option"
  row_source_ch :: string
  row_source_ref :: string
  row_weight :: rat
  row_origin :: string
  row_created_at :: int
  row_last_hit_at :: "int option"
  row_hit_count :: int

record MemoryStore =
  db_rows :: "memory_row list"
  db_fts :: "(string \<times> nat list) list"
  db_seq :: int

definition new_MemoryStore :: MemoryStore where
  "new_MemoryStore = \<lparr>db_rows = [], db_fts = [], db_seq = 0\<rparr>"

fun scopeKind :: "MemoryScope \<Rightarrow> string" where
  "scopeKind Global = ''global''"
| "scopeKind (AgentScope _) = ''agent''"
| "scopeKind (SharedFriend _) = ''shared-friend''"
| "scopeKind (SharedGroup _) = ''shared-group''"

fun scopeKey :: "MemoryScope \<Rightarrow> string option" where
  "scopeKey Global = None"
| "scopeKey (AgentScope n) = Some n"
| "scopeKey (SharedFriend f) = Some f"
| "scopeKey (SharedGroup g) = Some g"

definition key_or_empty :: "string option \<Rightarrow> string" where
  "key_or_empty k = (case k of None \<Rightarrow> [] | Some s \<Rightarrow> s)"

definition decodeScope :: "string \<Rightarrow> string option \<Rightarrow> MemoryScope" where
  "decodeScope kind key =
     (if kind = ''global'' then Global
      else if kind = ''agent'' then AgentScope (key_or_empty key)
      else if kind = ''shared-friend'' then SharedFriend (key_or_empty key)
      else if kind = ''shared-group'' then SharedGroup (key_or_empty key)
      else Global)"

fun origin_text :: "origin \<Rightarrow> string" where
  "origin_text AutoOrigin = ''auto''"
| "origin_text ManualOrigin = ''manual''"

definition rowToRecord :: "memory_row \<Rightarrow> MemoryRecord" where
  "rowToRecord r =
     \<lparr>mr_id = row_id r, mr_uid = row_uid r, mr_kind = row_kind r, mr_content = row_content r,
      mr_scope = decodeScope (row_scope_kind r) (row_scope_key r), mr_sourceCh = row_source_ch r,
      mr_sourceRef = row_source_ref r, mr_weight = row_weight r,
      mr_origin = (if row_origin r = ''manual'' then ManualOrigin else AutoOrigin),
      mr_createdAt = row_created_at r, mr_lastHitAt = row_last_hit_at r, mr_hitCount = row_hit_count r\<rparr>"

text \<open>The disjuncts of the WHERE fragment; a NULL key equals nothing. No disjunct is the fragment \<open>0\<close>.\<close>

definition scopeClause :: "AllowScopes \<Rightarrow> (memory_row \<Rightarrow> bool) list" where
  "scopeClause allow =
     (if al_global allow then [\<lambda>r. row_scope_kind r = ''global''] else []) @
     (case al_agent allow of None \<Rightarrow> [] | Some a \<Rightarrow> [\<lambda>r. row_scope_kind r = ''agent'' \<and> row_scope_key r = Some a]) @
     (case al_friend allow of None \<Rightarrow> [] | Some f \<Rightarrow> [\<lambda>r. row_scope_kind r = ''shared-friend'' \<and> row_scope_key r = Some f]) @
     (case al_group allow of None \<Rightarrow> [] | Some g \<Rightarrow> [\<lambda>r. row_scope_kind r = ''shared-group'' \<and> row_scope_key r = Some g])"

definition clause_holds :: "AllowScopes \<Rightarrow> memory_row \<Rightarrow> bool" where
  "clause_holds allow r = list_ex (\<lambda>c. c r) (scopeClause allow)"

section \<open>Operations\<close>

datatype memory_error = EmptyContent | UniqueUid

definition same_memory :: "MemoryScope \<Rightarrow> string \<Rightarrow> memory_row \<Rightarrow> bool" where
  "same_memory scope content r \<longleftrightarrow>
     row_scope_kind r = scopeKind scope \<and> row_scope_key r = scopeKey scope \<and> row_content r = content"

definition new_row :: "int \<Rightarrow> string \<Rightarrow> int \<Rightarrow> string \<Rightarrow> NewMemory \<Rightarrow> memory_row" where
  "new_row i uid now content input =
     \<lparr>row_id = i, row_uid = uid, row_kind = nm_kind input, row_content = content,
      row_scope_kind = scopeKind (nm_scope input), row_scope_key = scopeKey (nm_scope input),
      row_source_ch = nm_sourceCh input, row_source_ref = key_or_empty (nm_sourceRef input),
      row_weight = (case nm_weight input of None \<Rightarrow> 1 | Some w \<Rightarrow> w),
      row_origin = origin_text (case nm_origin input of None \<Rightarrow> AutoOrigin | Some g \<Rightarrow> g),
      row_created_at = now, row_last_hit_at = None, row_hit_count = 0\<rparr>"

text \<open>\<open>uid\<close> is what \<open>randomUUID()\<close> returns, \<open>now\<close> what \<open>Date.now()\<close> does.\<close>

definition mem_add :: "NewMemory \<Rightarrow> string \<Rightarrow> int \<Rightarrow> MemoryStore \<Rightarrow> memory_error + (MemoryRecord \<times> MemoryStore)" where
  "mem_add input uid now db =
     (let content = trim (nm_content input) in
      if content = [] then Inl EmptyContent
      else (case find (same_memory (nm_scope input) content) (db_rows db) of
         Some r \<Rightarrow> Inr (rowToRecord r, db)
       | None \<Rightarrow>
           (if uid \<in> row_uid ` set (db_rows db) then Inl UniqueUid
            else (let i = db_seq db + 1; r = new_row i uid now content input in
                  Inr (rowToRecord r,
                       \<lparr>db_rows = db_rows db @ [r], db_fts = db_fts db @ [(uid, segment (code_points content))], db_seq = i\<rparr>)))))"

definition touch_row :: "int \<Rightarrow> memory_row \<Rightarrow> memory_row" where
  "touch_row now r = r\<lparr>row_last_hit_at := Some now, row_hit_count := row_hit_count r + 1\<rparr>"

definition touchHit :: "int list \<Rightarrow> int \<Rightarrow> MemoryStore \<Rightarrow> MemoryStore" where
  "touchHit ids now db =
     db\<lparr>db_rows := fold (\<lambda>i. map (\<lambda>r. if row_id r = i then touch_row now r else r)) ids (db_rows db)\<rparr>"

text \<open>\<open>LIMIT k\<close>: a negative limit is none.\<close>

definition sql_limit :: "int \<Rightarrow> 'a list \<Rightarrow> 'a list" where
  "sql_limit k xs = (if k < 0 then xs else take (nat k) xs)"

definition cmp_rat :: "rat \<Rightarrow> rat \<Rightarrow> int" where
  "cmp_rat a b = (if a < b then - 1 else if a = b then 0 else 1)"

definition by_weight_newest :: "memory_row \<Rightarrow> memory_row \<Rightarrow> int" where
  "by_weight_newest a b =
     (if row_weight a = row_weight b then row_created_at b - row_created_at a else cmp_rat (row_weight b) (row_weight a))"

definition by_newest :: "memory_row \<Rightarrow> memory_row \<Rightarrow> int" where
  "by_newest a b = row_created_at b - row_created_at a"

definition rank_of :: "(string \<Rightarrow> rat option) \<Rightarrow> memory_row \<Rightarrow> rat" where
  "rank_of rank r = (case rank (row_uid r) of None \<Rightarrow> 0 | Some x \<Rightarrow> x)"

definition by_rank :: "(string \<Rightarrow> rat option) \<Rightarrow> memory_row \<Rightarrow> memory_row \<Rightarrow> int" where
  "by_rank rank a b =
     (if rank_of rank a = rank_of rank b then by_weight_newest a b else cmp_rat (rank_of rank a) (rank_of rank b))"

text \<open>
  \<open>bm25 fts q uid\<close>: the rank of the indexed row \<open>uid\<close> for the MATCH query \<open>q\<close> on the table
  \<open>fts\<close>, \<open>None\<close> when it does not match. \<open>plan\<close>: the order in which the engine visits the rows.
\<close>

type_synonym fts_rank = "(string \<times> nat list) list \<Rightarrow> nat list \<Rightarrow> string \<Rightarrow> rat option"

definition joined :: "MemoryStore \<Rightarrow> (string \<Rightarrow> rat option) \<Rightarrow> memory_row list" where
  "joined db rank = filter (\<lambda>r. row_uid r \<in> fst ` set (db_fts db) \<and> rank (row_uid r) \<noteq> None) (db_rows db)"

definition retrieve_rows :: "fts_rank \<Rightarrow> (memory_row list \<Rightarrow> memory_row list) \<Rightarrow> AllowScopes \<Rightarrow> string \<Rightarrow> int \<Rightarrow> MemoryStore \<Rightarrow> memory_row list" where
  "retrieve_rows bm25 plan allow query k db =
     (if scopeClause allow = [] then []
      else (let m = segment (code_points (trim query)) in
        if m = [] then sql_limit k (js_sort by_weight_newest (plan (filter (clause_holds allow) (db_rows db))))
        else (let rank = bm25 (db_fts db) m in
              sql_limit k (js_sort (by_rank rank) (plan (filter (clause_holds allow) (joined db rank)))))))"

definition retrieve :: "fts_rank \<Rightarrow> (memory_row list \<Rightarrow> memory_row list) \<Rightarrow> AllowScopes \<Rightarrow> string \<Rightarrow> int \<Rightarrow> int \<Rightarrow> MemoryStore
    \<Rightarrow> MemoryRecord list \<times> MemoryStore" where
  "retrieve bm25 plan allow query k now db =
     (let records = map rowToRecord (retrieve_rows bm25 plan allow query k db)
      in (records, if records = [] then db else touchHit (map mr_id records) now db))"

definition mem_list :: "(memory_row list \<Rightarrow> memory_row list) \<Rightarrow> AllowScopes \<Rightarrow> MemoryStore \<Rightarrow> MemoryRecord list" where
  "mem_list plan allow db =
     (if scopeClause allow = [] then []
      else map rowToRecord (js_sort by_newest (plan (filter (clause_holds allow) (db_rows db)))))"

definition mem_remove :: "string \<Rightarrow> MemoryStore \<Rightarrow> bool \<times> MemoryStore" where
  "mem_remove uid db =
     (let rows = filter (\<lambda>r. row_uid r \<noteq> uid) (db_rows db) in
      if length rows = length (db_rows db) then (False, db)
      else (True, db\<lparr>db_rows := rows, db_fts := al_del uid (db_fts db)\<rparr>))"

definition update_row :: "string \<Rightarrow> MemoryScope option \<Rightarrow> memory_row \<Rightarrow> memory_row" where
  "update_row content scope r =
     (case scope of
        None \<Rightarrow> r\<lparr>row_content := content\<rparr>
      | Some s \<Rightarrow> r\<lparr>row_content := content, row_scope_kind := scopeKind s, row_scope_key := scopeKey s\<rparr>)"

definition mem_get :: "string \<Rightarrow> MemoryStore \<Rightarrow> MemoryRecord option" where
  "mem_get uid db = map_option rowToRecord (find (\<lambda>r. row_uid r = uid) (db_rows db))"

definition mem_update :: "string \<Rightarrow> string \<Rightarrow> MemoryScope option \<Rightarrow> MemoryStore \<Rightarrow> memory_error + (MemoryRecord option \<times> MemoryStore)" where
  "mem_update uid content scope db =
     (let nxt = trim content in
      if nxt = [] then Inl EmptyContent
      else if uid \<notin> row_uid ` set (db_rows db) then Inr (None, db)
      else (let db' = db\<lparr>db_rows := map (\<lambda>r. if row_uid r = uid then update_row nxt scope r else r) (db_rows db),
                         db_fts := al_del uid (db_fts db) @ [(uid, segment (code_points nxt))]\<rparr>
            in Inr (mem_get uid db', db')))"

definition mem_count :: "(memory_row list \<Rightarrow> memory_row list) \<Rightarrow> AllowScopes \<Rightarrow> MemoryStore \<Rightarrow> nat" where
  "mem_count plan allow db = length (mem_list plan allow db)"

section \<open>Reads stay inside the allowed scopes\<close>

text \<open>The visibility the caller asks for, on the scopes themselves.\<close>

fun scope_allowed :: "AllowScopes \<Rightarrow> MemoryScope \<Rightarrow> bool" where
  "scope_allowed allow Global = al_global allow"
| "scope_allowed allow (AgentScope n) = (al_agent allow = Some n)"
| "scope_allowed allow (SharedFriend f) = (al_friend allow = Some f)"
| "scope_allowed allow (SharedGroup g) = (al_group allow = Some g)"

lemma clause_holds_iff:
  "clause_holds allow r \<longleftrightarrow>
     al_global allow \<and> row_scope_kind r = ''global'' \<or>
     row_scope_kind r = ''agent'' \<and> row_scope_key r \<noteq> None \<and> row_scope_key r = al_agent allow \<or>
     row_scope_kind r = ''shared-friend'' \<and> row_scope_key r \<noteq> None \<and> row_scope_key r = al_friend allow \<or>
     row_scope_kind r = ''shared-group'' \<and> row_scope_key r \<noteq> None \<and> row_scope_key r = al_group allow"
  by (auto simp: clause_holds_def scopeClause_def split: option.splits)

lemma decode_scope [simp]: "decodeScope (scopeKind s) (scopeKey s) = s"
  by (cases s) (simp_all add: decodeScope_def key_or_empty_def)

lemma clause_scope_allowed: "clause_holds allow r \<Longrightarrow> scope_allowed allow (mr_scope (rowToRecord r))"
  by (auto simp: clause_holds_iff rowToRecord_def decodeScope_def key_or_empty_def split: option.splits)

lemma scope_clause_holds:
  "row_scope_kind r = scopeKind s \<Longrightarrow> row_scope_key r = scopeKey s \<Longrightarrow> clause_holds allow r \<longleftrightarrow> scope_allowed allow s"
  by (cases s) (auto simp: clause_holds_iff)

lemma set_sql_limit: "set (sql_limit k xs) \<subseteq> set xs"
  by (auto simp: sql_limit_def dest: in_set_takeD)

definition is_plan :: "('a list \<Rightarrow> 'a list) \<Rightarrow> bool" where
  "is_plan plan \<longleftrightarrow> (\<forall>rs. mset (plan rs) = mset rs)"

lemma set_plan: "is_plan plan \<Longrightarrow> set (plan rs) = set rs"
  by (metis is_plan_def set_mset_mset)

lemma retrieve_rows_sub:
  "is_plan plan \<Longrightarrow> r \<in> set (retrieve_rows bm25 plan allow q k db) \<Longrightarrow> r \<in> set (db_rows db) \<and> clause_holds allow r"
  by (auto simp: retrieve_rows_def Let_def joined_def set_plan split: if_splits dest!: subsetD [OF set_sql_limit])

lemma mem_list_set:
  "is_plan plan \<Longrightarrow> set (mem_list plan allow db) = rowToRecord ` {r \<in> set (db_rows db). clause_holds allow r}"
  by (auto simp: mem_list_def set_plan clause_holds_def)

text \<open>
  Memory reads never cross scopes. Whatever is stored, whatever the query, limit and full-text
  ranking: every memory returned by \<open>retrieve\<close> and by \<open>list\<close> has a scope the caller allowed (its
  own agent, friend or group, or the global scope when asked for), it is a stored memory, and a
  caller that allows nothing reads nothing. Conversely \<open>list\<close> returns every stored memory of an
  allowed scope.
\<close>

theorem memory_scope_isolation:
  assumes "is_plan plan"
  shows "(\<forall>m \<in> set (fst (retrieve bm25 plan allow q k now db)). scope_allowed allow (mr_scope m) \<and> m \<in> rowToRecord ` set (db_rows db)) \<and>
    (\<forall>m \<in> set (mem_list plan allow db). scope_allowed allow (mr_scope m)) \<and>
    (\<forall>r \<in> set (db_rows db). \<forall>s. row_scope_kind r = scopeKind s \<and> row_scope_key r = scopeKey s \<and> scope_allowed allow s
       \<longrightarrow> rowToRecord r \<in> set (mem_list plan allow db)) \<and>
    retrieve bm25 plan \<lparr>al_global = False, al_agent = None, al_friend = None, al_group = None\<rparr> q k now db = ([], db)"
proof (intro conjI ballI allI impI)
  fix m assume "m \<in> set (fst (retrieve bm25 plan allow q k now db))"
  then obtain r where r: "r \<in> set (retrieve_rows bm25 plan allow q k db)" "m = rowToRecord r"
    by (auto simp: retrieve_def Let_def)
  from retrieve_rows_sub [OF assms r(1)] r(2)
  show "scope_allowed allow (mr_scope m)" "m \<in> rowToRecord ` set (db_rows db)"
    by (simp_all add: clause_scope_allowed)
next
  fix m assume "m \<in> set (mem_list plan allow db)"
  then show "scope_allowed allow (mr_scope m)"
    by (auto simp: mem_list_set [OF assms] clause_scope_allowed)
next
  fix r s assume "r \<in> set (db_rows db)" "row_scope_kind r = scopeKind s \<and> row_scope_key r = scopeKey s \<and> scope_allowed allow s"
  then show "rowToRecord r \<in> set (mem_list plan allow db)"
    by (auto simp: mem_list_set [OF assms] scope_clause_holds)
qed (simp add: retrieve_def retrieve_rows_def scopeClause_def)

definition sample_memory :: NewMemory where
  "sample_memory = \<lparr>nm_kind = Fact, nm_content = ''likes tea'', nm_scope = AgentScope ''ann'', nm_sourceCh = ''agent'',
     nm_sourceRef = None, nm_weight = None, nm_origin = None\<rparr>"

definition sample_db :: MemoryStore where
  "sample_db = (case mem_add sample_memory ''u1'' 5 new_MemoryStore of Inr (_, db) \<Rightarrow> db | Inl _ \<Rightarrow> new_MemoryStore)"

lemma sample_trim: "trim ''likes tea'' = ''likes tea''"
  by code_simp

lemma sample_db_rows: "db_rows sample_db = [new_row 1 ''u1'' 5 ''likes tea'' sample_memory]"
  by (simp add: sample_db_def mem_add_def new_MemoryStore_def sample_memory_def sample_trim Let_def)

theorem memory_scope_isolation_witness:
  "list_all (\<lambda>m. mr_scope m \<noteq> AgentScope ''ann'')
     (mem_list id \<lparr>al_global = True, al_agent = Some ''bob'', al_friend = None, al_group = None\<rparr> sample_db)"
proof -
  have "is_plan id" by (simp add: is_plan_def)
  from memory_scope_isolation [OF this, of "\<lambda>_ _ _. None" "\<lparr>al_global = True, al_agent = Some ''bob'', al_friend = None, al_group = None\<rparr>" "''tea''" 8 6 sample_db]
  show ?thesis by (auto simp: list_all_iff)
qed

section \<open>The tables stay in step\<close>

definition fts_row :: "memory_row \<Rightarrow> string \<times> nat list" where
  "fts_row r = (row_uid r, segment (code_points (row_content r)))"

definition mem_wf :: "MemoryStore \<Rightarrow> bool" where
  "mem_wf db \<longleftrightarrow> distinct (map row_uid (db_rows db)) \<and> distinct (map row_id (db_rows db)) \<and>
     (\<forall>r \<in> set (db_rows db). row_id r \<le> db_seq db) \<and>
     mset (db_fts db) = mset (map fts_row (db_rows db)) \<and>
     (\<forall>r \<in> set (db_rows db). row_content r \<noteq> [] \<and> trim (row_content r) = row_content r)"

lemma mem_wf_new: "mem_wf new_MemoryStore"
  by (simp add: mem_wf_def new_MemoryStore_def)

lemma mem_add_cases:
  assumes "mem_add input uid now db = Inr (m, db')"
  obtains (old) r where "find (same_memory (nm_scope input) (trim (nm_content input))) (db_rows db) = Some r" "m = rowToRecord r" "db' = db"
  | (new) r where "find (same_memory (nm_scope input) (trim (nm_content input))) (db_rows db) = None"
      "trim (nm_content input) \<noteq> []" "uid \<notin> row_uid ` set (db_rows db)"
      "r = new_row (db_seq db + 1) uid now (trim (nm_content input)) input" "m = rowToRecord r"
      "db' = \<lparr>db_rows = db_rows db @ [r], db_fts = db_fts db @ [fts_row r], db_seq = db_seq db + 1\<rparr>"
  using assms by (auto simp: mem_add_def Let_def new_row_def fts_row_def split: if_splits option.splits)

lemma new_row_simps [simp]:
  "row_uid (new_row i uid now c input) = uid" "row_id (new_row i uid now c input) = i"
  "row_content (new_row i uid now c input) = c" "row_scope_kind (new_row i uid now c input) = scopeKind (nm_scope input)"
  "row_scope_key (new_row i uid now c input) = scopeKey (nm_scope input)"
  by (simp_all add: new_row_def)

lemma mem_add_wf:
  assumes "mem_wf db" "mem_add input uid now db = Inr (m, db')" shows "mem_wf db'"
  using assms(2)
proof (cases rule: mem_add_cases)
  case (new r)
  have "db_seq db + 1 \<notin> row_id ` set (db_rows db)" using assms(1) by (force simp: mem_wf_def)
  then show ?thesis using new assms(1) by (auto simp: mem_wf_def)
qed (use assms(1) in simp)

lemma touch_row_simps [simp]:
  "row_uid (touch_row now r) = row_uid r" "row_id (touch_row now r) = row_id r"
  "row_content (touch_row now r) = row_content r" "fts_row (touch_row now r) = fts_row r"
  "row_scope_kind (touch_row now r) = row_scope_kind r" "row_scope_key (touch_row now r) = row_scope_key r"
  by (simp_all add: touch_row_def fts_row_def)

text \<open>A row map that keeps the key columns and the content keeps the tables in step.\<close>

lemma map_fold_keeps:
  assumes "\<And>i r. f (g i r) = f r"
  shows "map f (fold (\<lambda>i. map (g i)) ids rows) = map f rows"
proof (induction ids arbitrary: rows)
  case (Cons i ids)
  have "map f (map (g i) rows) = map f rows" by (simp add: assms)
  with Cons show ?case by simp
qed simp

lemma touchHit_keeps:
  assumes "\<And>r. f (touch_row now r) = f r"
  shows "map f (db_rows (touchHit ids now db)) = map f (db_rows db)"
  unfolding touchHit_def by (simp add: map_fold_keeps [of f "\<lambda>i r. if row_id r = i then touch_row now r else r"] assms)

lemma mem_wf_by_maps:
  assumes "mem_wf db" "map (\<lambda>r. (row_uid r, row_id r, row_content r)) (db_rows db') = map (\<lambda>r. (row_uid r, row_id r, row_content r)) (db_rows db)"
    "db_fts db' = db_fts db" "db_seq db' = db_seq db"
  shows "mem_wf db'"
proof -
  have k: "map (h \<circ> (\<lambda>r. (row_uid r, row_id r, row_content r))) (db_rows db') = map (h \<circ> (\<lambda>r. (row_uid r, row_id r, row_content r))) (db_rows db)"
    for h :: "_ \<Rightarrow> 'a"
    using arg_cong [OF assms(2), of "map h"] by (simp add: comp_def)
  have u: "map row_uid (db_rows db') = map row_uid (db_rows db)" using k [of fst] by (simp add: comp_def)
  have i: "map row_id (db_rows db') = map row_id (db_rows db)" using k [of "\<lambda>x. fst (snd x)"] by (simp add: comp_def)
  have c: "map row_content (db_rows db') = map row_content (db_rows db)" using k [of "\<lambda>x. snd (snd x)"] by (simp add: comp_def)
  have f: "map fts_row (db_rows db') = map fts_row (db_rows db)"
    using k [of "\<lambda>(u, i, c). (u, segment (code_points c))"] by (simp add: comp_def fts_row_def [abs_def])
  have "row_id ` set (db_rows db') = row_id ` set (db_rows db)" "row_content ` set (db_rows db') = row_content ` set (db_rows db)"
    using arg_cong [OF i, of set] arg_cong [OF c, of set] by simp_all
  then have "\<forall>r \<in> set (db_rows db'). row_id r \<le> db_seq db \<and> row_content r \<noteq> [] \<and> trim (row_content r) = row_content r"
    using assms(1) unfolding mem_wf_def by (metis (no_types, lifting) imageE imageI)
  then show ?thesis using assms(1) u i f by (simp add: mem_wf_def assms(3,4) del: mset_map)
qed

lemma touchHit_wf: "mem_wf db \<Longrightarrow> mem_wf (touchHit ids now db)"
  by (erule mem_wf_by_maps, simp add: touchHit_keeps, simp_all add: touchHit_def)

lemma retrieve_wf: "mem_wf db \<Longrightarrow> mem_wf (snd (retrieve bm25 plan allow q k now db))"
  by (simp add: retrieve_def Let_def touchHit_wf)

lemma fts_del:
  "mset fts = mset (map fts_row rows) \<Longrightarrow> mset (al_del u fts) = mset (map fts_row (filter (\<lambda>r. row_uid r \<noteq> u) rows))"
proof -
  assume a: "mset fts = mset (map fts_row rows)"
  have "mset (al_del u fts) = filter_mset (\<lambda>e. fst e \<noteq> u) (mset (map fts_row rows))" by (simp add: al_del_def a del: mset_map)
  also have "\<dots> = mset (filter (\<lambda>e. fst e \<noteq> u) (map fts_row rows))" by (simp only: mset_filter)
  finally show ?thesis by (simp add: filter_map comp_def fts_row_def del: mset_map)
qed

lemma mem_remove_wf: "mem_wf db \<Longrightarrow> mem_wf (snd (mem_remove u db))"
  by (auto simp: mem_remove_def mem_wf_def fts_del distinct_map_filter Let_def simp del: mset_map)

lemma update_row_simps [simp]:
  "row_uid (update_row c s r) = row_uid r" "row_id (update_row c s r) = row_id r" "row_content (update_row c s r) = c"
  by (simp_all add: update_row_def split: option.splits)

lemma map_one_row:
  assumes "distinct (map row_uid rows)" "r \<in> set rows" "row_uid r = u"
  shows "mset (map fts_row (map (\<lambda>r. if row_uid r = u then update_row c s r else r) rows)) =
    add_mset (u, segment (code_points c)) (mset (map fts_row (filter (\<lambda>r. row_uid r \<noteq> u) rows)))"
  using assms
proof (induction rows)
  case (Cons x xs)
  show ?case
  proof (cases "row_uid x = u")
    case True
    then have "\<forall>y \<in> set xs. row_uid y \<noteq> u" using Cons.prems(1) by (auto simp: image_iff)
    then have "filter (\<lambda>r. row_uid r \<noteq> u) xs = xs" "map (\<lambda>r. if row_uid r = u then update_row c s r else r) xs = xs"
      by (simp_all add: filter_id_conv map_idI)
    then show ?thesis using True by (simp add: fts_row_def)
  next
    case False
    then show ?thesis using Cons by auto
  qed
qed simp

lemma mem_update_wf:
  assumes "mem_wf db" "mem_update u c s db = Inr (m, db')" shows "mem_wf db'"
proof (cases "u \<in> row_uid ` set (db_rows db)")
  case True
  then obtain r where r: "r \<in> set (db_rows db)" "row_uid r = u" by auto
  let ?rows = "map (\<lambda>r. if row_uid r = u then update_row (trim c) s r else r) (db_rows db)"
  have c: "trim c \<noteq> []" and db': "db' = db\<lparr>db_rows := ?rows, db_fts := al_del u (db_fts db) @ [(u, segment (code_points (trim c)))]\<rparr>"
    using assms(2) True by (auto simp: mem_update_def Let_def split: if_splits)
  have d: "distinct (map row_uid (db_rows db))" and f: "mset (db_fts db) = mset (map fts_row (db_rows db))"
    using assms(1) by (simp_all add: mem_wf_def)
  have "mset (db_fts db') = mset (map fts_row ?rows)"
    unfolding map_one_row [OF d r] db' using fts_del [OF f] by simp
  moreover have "map row_uid ?rows = map row_uid (db_rows db)" "map row_id ?rows = map row_id (db_rows db)" by auto
  ultimately show ?thesis using assms(1) c by (auto simp: mem_wf_def db' simp del: mset_map map_map)
qed (use assms in \<open>auto simp: mem_update_def Let_def split: if_splits\<close>)

datatype memory_op =
    MAdd NewMemory string int
  | MRetrieve AllowScopes string int int
  | MRemove string
  | MUpdate string string "MemoryScope option"

text \<open>A call that throws leaves the database as it was.\<close>

fun mem_step :: "fts_rank \<Rightarrow> (memory_row list \<Rightarrow> memory_row list) \<Rightarrow> memory_op \<Rightarrow> MemoryStore \<Rightarrow> MemoryStore" where
  "mem_step bm25 plan (MAdd input uid now) db = (case mem_add input uid now db of Inr (_, db') \<Rightarrow> db' | Inl _ \<Rightarrow> db)"
| "mem_step bm25 plan (MRetrieve allow q k now) db = snd (retrieve bm25 plan allow q k now db)"
| "mem_step bm25 plan (MRemove u) db = snd (mem_remove u db)"
| "mem_step bm25 plan (MUpdate u c s) db = (case mem_update u c s db of Inr (_, db') \<Rightarrow> db' | Inl _ \<Rightarrow> db)"

lemma mem_step_wf: "mem_wf db \<Longrightarrow> mem_wf (mem_step bm25 plan e db)"
  by (cases e) (auto split: sum.splits prod.splits dest: mem_add_wf mem_update_wf intro: retrieve_wf mem_remove_wf)

definition mem_run :: "fts_rank \<Rightarrow> (memory_row list \<Rightarrow> memory_row list) \<Rightarrow> memory_op list \<Rightarrow> MemoryStore" where
  "mem_run bm25 plan ops = fold (mem_step bm25 plan) ops new_MemoryStore"

lemma mem_run_wf: "mem_wf (mem_run bm25 plan ops)"
proof -
  have "mem_wf db \<Longrightarrow> mem_wf (fold (mem_step bm25 plan) ops db)" for db
    by (induction ops arbitrary: db) (auto simp: mem_step_wf)
  then show ?thesis using mem_wf_new unfolding mem_run_def by blast
qed

text \<open>
  The two tables never diverge. After any sequence of adds, retrievals, removals and edits
  (failed ones included) the full-text table holds exactly one row per stored memory, with the
  segmentation of its current content; uids and row ids are unique, and every stored content is
  trimmed and not empty.
\<close>

theorem memory_index_in_sync:
  "mset (db_fts (mem_run bm25 plan ops)) =
     mset (map (\<lambda>r. (row_uid r, segment (code_points (row_content r)))) (db_rows (mem_run bm25 plan ops))) \<and>
   distinct (map row_uid (db_rows (mem_run bm25 plan ops))) \<and> distinct (map row_id (db_rows (mem_run bm25 plan ops))) \<and>
   list_all (\<lambda>r. row_content r \<noteq> [] \<and> trim (row_content r) = row_content r) (db_rows (mem_run bm25 plan ops))"
  using mem_run_wf [of bm25 plan ops] unfolding mem_wf_def list_all_iff fts_row_def [abs_def] by blast

section \<open>Adding and reading back\<close>

lemma find_uid:
  assumes "distinct (map row_uid rows)" "r \<in> set rows" shows "find (\<lambda>x. row_uid x = row_uid r) rows = Some r"
  using assms by (induction rows) (auto simp: rev_image_eqI)

lemma mem_add_again:
  assumes "mem_add input uid now db = Inr (m, db')"
  shows "mem_add input uid' now' db' = Inr (m, db')"
proof -
  have ne: "trim (nm_content input) \<noteq> []" using assms by (auto simp: mem_add_def Let_def split: if_splits)
  from assms show ?thesis
  proof (cases rule: mem_add_cases)
    case (new r)
    then have "find (same_memory (nm_scope input) (trim (nm_content input))) (db_rows db') = Some r"
      by (simp add: find_append same_memory_def)
    then show ?thesis using ne new by (simp add: mem_add_def Let_def)
  qed (use ne in \<open>simp add: mem_add_def Let_def\<close>)
qed

lemma mem_add_get:
  assumes "mem_wf db" "mem_add input uid now db = Inr (m, db')"
  shows "mem_get (mr_uid m) db' = Some m \<and> mr_scope m = nm_scope input \<and> mr_content m = trim (nm_content input)"
proof -
  have d: "distinct (map row_uid (db_rows db'))" using mem_add_wf [OF assms] by (simp add: mem_wf_def)
  have "\<exists>r \<in> set (db_rows db'). m = rowToRecord r \<and> same_memory (nm_scope input) (trim (nm_content input)) r"
    using assms(2)
  proof (cases rule: mem_add_cases)
    case (old r)
    then show ?thesis by (auto simp: find_Some_iff)
  next
    case (new r)
    then show ?thesis by (auto simp: same_memory_def)
  qed
  then obtain r where r: "r \<in> set (db_rows db')" "m = rowToRecord r" "same_memory (nm_scope input) (trim (nm_content input)) r" by blast
  have "mr_uid m = row_uid r" using r(2) by (simp add: rowToRecord_def)
  then show ?thesis using find_uid [OF d r(1)] r(2,3) by (simp add: mem_get_def same_memory_def rowToRecord_def)
qed

lemma find_uid_eq: "find (\<lambda>r. row_uid r = v) rows = Some r \<Longrightarrow> row_uid r = v"
  by (auto simp: find_Some_iff)

lemma mem_get_append:
  "mem_get u db = None \<Longrightarrow> db_rows db' = db_rows db @ [r] \<Longrightarrow> row_uid r = u \<Longrightarrow>
     (\<lambda>v. mem_get v db') = (\<lambda>v. mem_get v db)(u \<mapsto> rowToRecord r)"
  by (auto simp: mem_get_def find_append fun_eq_iff split: option.splits)

lemma mem_get_None: "mem_get u db = None \<longleftrightarrow> u \<notin> row_uid ` set (db_rows db)"
  by (auto simp: mem_get_def find_None_iff)

lemma mem_add_map:
  assumes "mem_wf db" "mem_add input uid now db = Inr (m, db')"
  shows "(\<lambda>v. mem_get v db') = (\<lambda>v. mem_get v db)(mr_uid m \<mapsto> m)"
  using assms(2)
proof (cases rule: mem_add_cases)
  case (old r)
  then show ?thesis using mem_add_get [OF assms] by auto
next
  case (new r)
  then have "mem_get uid db = None" by (simp add: mem_get_None)
  from mem_get_append [OF this, of db' r] new show ?thesis by (simp add: rowToRecord_def)
qed

lemma mem_remove_map:
  "fst (mem_remove u db) = (mem_get u db \<noteq> None) \<and> (\<lambda>v. mem_get v (snd (mem_remove u db))) = (\<lambda>v. mem_get v db)(u := None)"
proof -
  have l: "length (filter (\<lambda>r. row_uid r \<noteq> u) (db_rows db)) = length (db_rows db) \<longleftrightarrow> mem_get u db = None"
    by (auto simp: filter_keeps_all mem_get_None)
  have f: "find (\<lambda>r. row_uid r = v) (filter (\<lambda>r. row_uid r \<noteq> u) rows) = (if v = u then None else find (\<lambda>r. row_uid r = v) rows)" for v rows
    by (induction rows) auto
  show ?thesis
    unfolding mem_remove_def Let_def l by (auto simp: mem_get_def f fun_eq_iff)
qed

definition edited :: "string \<Rightarrow> MemoryScope option \<Rightarrow> MemoryRecord \<Rightarrow> MemoryRecord" where
  "edited content scope m =
     (case scope of None \<Rightarrow> m\<lparr>mr_content := content\<rparr> | Some s \<Rightarrow> m\<lparr>mr_content := content, mr_scope := s\<rparr>)"

lemma rowToRecord_update: "rowToRecord (update_row c s r) = edited c s (rowToRecord r)"
  by (cases s) (simp_all add: update_row_def edited_def rowToRecord_def)

lemma mem_update_map:
  assumes "trim c \<noteq> []"
  obtains db' where "mem_update u c s db = Inr (map_option (edited (trim c) s) (mem_get u db), db')"
    "(\<lambda>v. mem_get v db') = (\<lambda>v. mem_get v db)(u := map_option (edited (trim c) s) (mem_get u db))"
proof (cases "u \<in> row_uid ` set (db_rows db)")
  case False
  then have "mem_get u db = None" by (simp add: mem_get_None)
  then show ?thesis using that [of db] False assms by (auto simp: mem_update_def fun_eq_iff)
next
  case True
  let ?f = "\<lambda>r. if row_uid r = u then update_row (trim c) s r else r"
  let ?db = "db\<lparr>db_rows := map ?f (db_rows db), db_fts := al_del u (db_fts db) @ [(u, segment (code_points (trim c)))]\<rparr>"
  have f: "find (\<lambda>r. row_uid r = v) (map ?f rows) = map_option ?f (find (\<lambda>r. row_uid r = v) rows)" for v rows
    by (induction rows) auto
  have g: "mem_get v ?db = (if v = u then map_option (edited (trim c) s) (mem_get u db) else mem_get v db)" for v
  proof (cases "find (\<lambda>r. row_uid r = v) (db_rows db)")
    case (Some r)
    then show ?thesis using find_uid_eq [OF Some] by (auto simp: mem_get_def f rowToRecord_update)
  qed (auto simp: mem_get_def f)
  have "mem_update u c s db = Inr (mem_get u ?db, ?db)" using True assms by (simp add: mem_update_def Let_def)
  then show ?thesis using that [of ?db] g by (auto simp: fun_eq_iff)
qed

text \<open>
  The memory store is a map from uids to memories. On a well-formed database: adding stores
  the trimmed content in the given scope, can be read back by uid, leaves every other memory as it
  was, and adding the same content to the same scope again returns the first memory and changes
  nothing; removing deletes exactly that memory and reports whether it was there; editing replaces
  the content (and the scope when one is given) of exactly that memory and nothing for an unknown
  uid; blank content is refused.
\<close>

theorem memory_map_refinement:
  assumes "mem_wf db" "mem_add input uid now db = Inr (m, db1)" "trim c \<noteq> []"
  shows "(\<lambda>v. mem_get v db1) = (\<lambda>v. mem_get v db)(mr_uid m \<mapsto> m) \<and>
    mr_scope m = nm_scope input \<and> mr_content m = trim (nm_content input) \<and>
    mem_add input uid' now' db1 = Inr (m, db1) \<and>
    fst (mem_remove u db) = (mem_get u db \<noteq> None) \<and> (\<lambda>v. mem_get v (snd (mem_remove u db))) = (\<lambda>v. mem_get v db)(u := None) \<and>
    (\<exists>db2. mem_update u c s db = Inr (map_option (edited (trim c) s) (mem_get u db), db2) \<and>
       (\<lambda>v. mem_get v db2) = (\<lambda>v. mem_get v db)(u := map_option (edited (trim c) s) (mem_get u db))) \<and>
    mem_update u '' '' s db = Inl EmptyContent"
proof -
  obtain db2 where "mem_update u c s db = Inr (map_option (edited (trim c) s) (mem_get u db), db2)"
    "(\<lambda>v. mem_get v db2) = (\<lambda>v. mem_get v db)(u := map_option (edited (trim c) s) (mem_get u db))"
    by (rule mem_update_map [OF assms(3)])
  moreover have "mem_update u '' '' s db = Inl EmptyContent"
    by (simp add: mem_update_def trim_def trimStart_def trimEnd_def is_ws_def)
  ultimately show ?thesis
    using mem_add_map [OF assms(1,2)] mem_add_get [OF assms(1,2)] mem_add_again [OF assms(2)] mem_remove_map [of u db] by blast
qed

theorem memory_map_refinement_witness:
  "mem_add sample_memory ''u2'' 9 sample_db = Inr (rowToRecord (new_row 1 ''u1'' 5 ''likes tea'' sample_memory), sample_db)"
proof -
  have a: "mem_add sample_memory ''u1'' 5 new_MemoryStore = Inr (rowToRecord (new_row 1 ''u1'' 5 ''likes tea'' sample_memory), sample_db)"
    by (simp add: sample_db_def mem_add_def new_MemoryStore_def sample_memory_def sample_trim Let_def)
  from memory_map_refinement [OF mem_wf_new a, of "''likes tea''" "''u2''" 9 "[]" None] show ?thesis
    by (simp add: sample_trim)
qed

section \<open>Ranking and recall\<close>

lemma cmp_rat_simps: "cmp_rat a b \<le> 0 \<longleftrightarrow> a \<le> b" "0 < cmp_rat a b \<longleftrightarrow> b < a" "cmp_rat a b < 0 \<longleftrightarrow> a < b"
  by (auto simp: cmp_rat_def)

interpretation wn: comparator by_weight_newest
  by unfold_locales (auto simp: by_weight_newest_def cmp_rat_simps split: if_splits)

interpretation br: comparator "by_rank rank" for rank
proof
  fix x y z
  show "0 < by_rank rank x y \<Longrightarrow> by_rank rank y x < 0"
    using wn.cmp_swap by (auto simp: by_rank_def cmp_rat_simps split: if_splits)
  show "by_rank rank x y \<le> 0 \<Longrightarrow> by_rank rank y z \<le> 0 \<Longrightarrow> by_rank rank x z \<le> 0"
    using wn.cmp_le_trans by (auto simp: by_rank_def cmp_rat_simps split: if_splits)
qed

lemma sorted_wrt_sql_limit: "sorted_wrt R xs \<Longrightarrow> sorted_wrt R (sql_limit k xs)"
  by (simp add: sql_limit_def sorted_wrt_take)

text \<open>Every adjacent pair of characters of a Chinese run becomes a token.\<close>

lemma flushCjk_pair: "sublist [a, b] run \<Longrightarrow> [a, b] \<in> set (flushCjk run)"
proof -
  assume "sublist [a, b] run"
  then obtain ps ss where r: "run = ps @ [a, b] @ ss" by (auto simp: sublist_def)
  have "length ps \<in> set [0..<length run - 1]" using r by simp
  moreover have "[a, b] = take 2 (drop (length ps) run)" using r by simp
  ultimately have "[a, b] \<in> (\<lambda>i. take 2 (drop i run)) ` set [0..<length run - 1]" by (rule rev_image_eqI)
  then show ?thesis using r by (simp only: flushCjk_def set_map) simp
qed

definition seg_hit :: "nat list \<Rightarrow> seg_state \<Rightarrow> bool" where
  "seg_hit w s \<longleftrightarrow> w \<in> set (fst s) \<or> sublist w (fst (snd s))"

lemma seg_step_hit: "seg_hit [a, b] s \<Longrightarrow> seg_hit [a, b] (seg_step c s)"
  by (cases s) (auto simp: seg_hit_def flushCjk_pair intro: sublist_order.order_trans)

lemma seg_fold_hit: "seg_hit [a, b] s \<Longrightarrow> [a, b] \<in> set (seg_end (fold seg_step cs s))"
proof (induction cs arbitrary: s)
  case Nil
  then show ?case by (cases s) (auto simp: seg_hit_def flushCjk_pair)
qed (simp add: seg_step_hit)

lemma seg_two: "is_cjk a \<Longrightarrow> is_cjk b \<Longrightarrow> seg_hit [a, b] (seg_step b (seg_step a s))"
  by (cases s) (auto simp: seg_hit_def)

lemma segment_recall: "is_cjk a \<Longrightarrow> is_cjk b \<Longrightarrow> [a, b] \<in> set (segment_tokens (xs @ [a, b] @ ys))"
  unfolding segment_tokens_def by (simp add: seg_fold_hit seg_two)

definition clean_token :: "nat list \<Rightarrow> bool" where
  "clean_token w \<longleftrightarrow> w \<noteq> [] \<and> list_all (\<lambda>c. is_cjk c \<or> 97 \<le> c \<and> c \<le> 122 \<or> 48 \<le> c \<and> c \<le> 57) w"

lemma flushWord_clean: "list_all is_alnum run \<Longrightarrow> list_all clean_token (flushWord run)"
  by (auto simp: flushWord_def clean_token_def list_all_iff is_alnum_def lower_cp_def)

lemma flushCjk_clean: "list_all is_cjk run \<Longrightarrow> list_all clean_token (flushCjk run)"
  by (auto simp: flushCjk_def clean_token_def list_all_iff dest!: in_set_takeD in_set_dropD)

definition seg_ok :: "seg_state \<Rightarrow> bool" where
  "seg_ok s \<longleftrightarrow> list_all clean_token (fst s) \<and> list_all is_cjk (fst (snd s)) \<and> list_all is_alnum (snd (snd s))"

lemma seg_step_ok: "seg_ok s \<Longrightarrow> seg_ok (seg_step c s)"
  by (cases s) (simp add: seg_ok_def flushWord_clean flushCjk_clean)

lemma seg_fold_ok: "seg_ok s \<Longrightarrow> seg_ok (fold seg_step cs s)"
  by (induction cs arbitrary: s) (simp_all add: seg_step_ok)

lemma seg_end_clean: "seg_ok s \<Longrightarrow> list_all clean_token (seg_end s)"
  by (cases s) (simp add: seg_ok_def flushWord_clean flushCjk_clean)

lemma segment_clean: "list_all clean_token (segment_tokens cs)"
  unfolding segment_tokens_def by (rule seg_end_clean, rule seg_fold_ok) (simp add: seg_ok_def)

lemma join_Nil_iff: "list_all (\<lambda>w. w \<noteq> []) ws \<Longrightarrow> join_with sep ws = [] \<longleftrightarrow> ws = []"
  by (cases ws; cases "tl ws") auto

text \<open>
  Segmentation for the full-text index. Every pair of adjacent Chinese characters of a text is
  one of its tokens, and as a query it is the same single token, so a two-character word is found
  wherever it occurs. Every token is a non-empty run of Chinese characters, lower-case letters and
  digits, so no operator or quote of the MATCH syntax can come out of user text, and the query is
  empty exactly when there is no token.
\<close>

theorem segment_recall_safe:
  assumes "is_cjk a" "is_cjk b"
  shows "[a, b] \<in> set (segment_tokens (xs @ [a, b] @ ys)) \<and> segment [a, b] = [a, b] \<and>
    list_all (\<lambda>w. w \<noteq> [] \<and> list_all (\<lambda>c. is_cjk c \<or> 97 \<le> c \<and> c \<le> 122 \<or> 48 \<le> c \<and> c \<le> 57) w) (segment_tokens xs) \<and>
    (segment xs = [] \<longleftrightarrow> segment_tokens xs = [])"
proof -
  have "segment [a, b] = [a, b]"
    using assms by (simp add: segment_def segment_tokens_def flushWord_def flushCjk_def)
  moreover have "list_all (\<lambda>w. w \<noteq> []) (segment_tokens xs)"
    using segment_clean [of xs] by (simp add: list_all_iff clean_token_def)
  ultimately show ?thesis
    using segment_recall [OF assms] segment_clean [of xs] by (simp add: segment_def join_Nil_iff clean_token_def [abs_def])
qed

theorem segment_recall_safe_witness:
  "[0x7bee, 0x7403] \<in> set (segment_tokens ([0x6253] @ [0x7bee, 0x7403] @ [33]))"
  using segment_recall_safe [of "0x7bee" "0x7403" "[0x6253]" "[33]"] by (simp add: is_cjk_def)

lemma fold_touch:
  "distinct ids \<Longrightarrow> fold (\<lambda>i. map (\<lambda>r. if row_id r = i then touch_row now r else r)) ids rows =
     map (\<lambda>r. if row_id r \<in> set ids then touch_row now r else r) rows"
proof (induction ids arbitrary: rows)
  case (Cons i ids)
  then show ?case by (auto intro!: map_cong)
qed simp

lemma distinct_retrieve_rows:
  assumes "is_plan plan" "mem_wf db"
  shows "distinct (map row_id (retrieve_rows bm25 plan allow q k db))"
proof -
  have d: "distinct (map row_id (db_rows db))" using assms(2) by (simp add: mem_wf_def)
  have m: "distinct (map f (plan rs)) = distinct (map f rs)" for f :: "memory_row \<Rightarrow> int" and rs
    using assms(1) by (metis is_plan_def mset_map mset_eq_imp_distinct_iff)
  have t: "distinct (map f xs) \<Longrightarrow> distinct (map f (sql_limit k xs))" for f :: "memory_row \<Rightarrow> int" and xs
    by (simp add: sql_limit_def flip: take_map)
  show ?thesis
    unfolding retrieve_rows_def Let_def joined_def using d by (auto intro!: t simp: m distinct_map_filter)
qed

lemma retrieve_touch:
  assumes "is_plan plan" "mem_wf db" "fst (retrieve bm25 plan allow q k now db) = ms"
  shows "snd (retrieve bm25 plan allow q k now db) =
    db\<lparr>db_rows := map (\<lambda>r. if row_id r \<in> mr_id ` set ms then touch_row now r else r) (db_rows db)\<rparr>"
proof -
  let ?ids = "map row_id (retrieve_rows bm25 plan allow q k db)"
  have ms: "ms = map rowToRecord (retrieve_rows bm25 plan allow q k db)" using assms(3) by (simp add: retrieve_def Let_def)
  then have i: "map mr_id ms = ?ids" by (simp add: rowToRecord_def)
  then have i': "mr_id ` set ms = set ?ids" by (metis list.set_map)
  show ?thesis
  proof (cases "ms = []")
    case True
    then show ?thesis using ms by (simp add: retrieve_def Let_def)
  next
    case False
    note ft = fold_touch [OF distinct_retrieve_rows [OF assms(1,2), of bm25 allow q k], of now "db_rows db"]
    have "retrieve bm25 plan allow q k now db = (ms, touchHit (map mr_id ms) now db)"
      using False by (simp add: retrieve_def Let_def ms)
    then show ?thesis unfolding touchHit_def i i' ft by simp
  qed
qed

lemma retrieve_sorted:
  "sorted_wrt (\<lambda>a b. (if segment (code_points (trim q)) = [] then by_weight_newest a b
      else by_rank (bm25 (db_fts db) (segment (code_points (trim q)))) a b) \<le> 0) (retrieve_rows bm25 plan allow q k db)"
  by (simp add: retrieve_rows_def Let_def sorted_wrt_sql_limit wn.js_sort_sorted br.js_sort_sorted)

text \<open>
  Retrieval is bounded and ranked. A retrieval with limit \<open>k\<close> returns at most \<open>k\<close> memories;
  without keywords they come by weight and then newest first, with keywords by rank, weight and
  age; and a hit is counted: exactly the returned memories get their hit counter raised by one and
  their last-hit time set, nothing else in the store changes.
\<close>

theorem retrieve_bounded_ranked:
  assumes "is_plan plan" "mem_wf db" "0 \<le> k"
  shows "int (length (fst (retrieve bm25 plan allow q k now db))) \<le> k \<and>
    (\<exists>rows. fst (retrieve bm25 plan allow q k now db) = map rowToRecord rows \<and>
       sorted_wrt (\<lambda>a b. (if segment (code_points (trim q)) = [] then by_weight_newest a b
          else by_rank (bm25 (db_fts db) (segment (code_points (trim q)))) a b) \<le> 0) rows) \<and>
    snd (retrieve bm25 plan allow q k now db) =
      db\<lparr>db_rows := map (\<lambda>r. if row_id r \<in> mr_id ` set (fst (retrieve bm25 plan allow q k now db))
        then r\<lparr>row_last_hit_at := Some now, row_hit_count := row_hit_count r + 1\<rparr> else r) (db_rows db)\<rparr>"
proof -
  let ?rows = "retrieve_rows bm25 plan allow q k db"
  have f: "fst (retrieve bm25 plan allow q k now db) = map rowToRecord ?rows" by (simp add: retrieve_def Let_def)
  have "int (length ?rows) \<le> k" using assms(3) by (auto simp: retrieve_rows_def Let_def sql_limit_def)
  then have l: "int (length (fst (retrieve bm25 plan allow q k now db))) \<le> k" unfolding f by simp
  note t = retrieve_touch [OF assms(1,2) refl, of bm25 allow q k now, unfolded touch_row_def]
  show ?thesis
    by (intro conjI exI [of _ ?rows] l f t retrieve_sorted [of q bm25 db plan allow k])
qed

theorem retrieve_bounded_ranked_witness:
  "length (fst (retrieve (\<lambda>_ _ _. Some 0) id \<lparr>al_global = True, al_agent = Some ''ann'', al_friend = None, al_group = None\<rparr> ''tea'' 8 7 sample_db)) \<le> 8"
proof -
  have p: "is_plan id" by (simp add: is_plan_def)
  have w: "mem_wf sample_db"
    using mem_step_wf [OF mem_wf_new, of "\<lambda>_ _ _. None" id "MAdd sample_memory ''u1'' 5"]
    by (auto simp: sample_db_def mem_wf_new split: sum.splits prod.splits)
  from retrieve_bounded_ranked [OF p w, of 8 "\<lambda>_ _ _. Some 0" "\<lparr>al_global = True, al_agent = Some ''ann'', al_friend = None, al_group = None\<rparr>" "''tea''" 7]
  show ?thesis by simp
qed

section \<open>The extraction answer\<close>

fun kind_text :: "MemoryKind \<Rightarrow> string" where
  "kind_text Fact = ''fact''"
| "kind_text Preference = ''preference''"
| "kind_text Summary = ''summary''"
| "kind_text Decision = ''decision''"
| "kind_text Promise = ''promise''"
| "kind_text (OtherKind t) = t"

definition kinds :: "MemoryKind list" where
  "kinds = [Fact, Preference, Summary, Decision, Promise]"

definition kind_of :: "string \<Rightarrow> MemoryKind option" where
  "kind_of s = find (\<lambda>k. kind_text k = s) kinds"

abbreviation fence :: string where "fence \<equiv> ''```''"

text \<open>\<open>replace(/^```(?:json)?/i, '')\<close> and \<open>replace(/```$/i, '')\<close>.\<close>

definition strip_open_fence :: "string \<Rightarrow> string" where
  "strip_open_fence s =
     (if prefix fence s then (let t = drop 3 s in if toLowerCase (take 4 t) = ''json'' then drop 4 t else t) else s)"

definition strip_close_fence :: "string \<Rightarrow> string" where
  "strip_close_fence s = (if suffix fence s then take (length s - 3) s else s)"

definition clean_answer :: "string \<Rightarrow> string" where
  "clean_answer t = trim (strip_close_fence (strip_open_fence (trim t)))"

definition last_index :: "char \<Rightarrow> string \<Rightarrow> nat option" where
  "last_index c s = find (\<lambda>i. s ! i = c) (rev [0..<length s])"

text \<open>The object between the first and the last brace, when the whole answer does not parse.\<close>

definition parse_braces :: "string \<Rightarrow> unknown" where
  "parse_braces s =
     (case (indexOf s ''{'' 0, last_index (CHR ''}'') s) of
        (Some i, Some j) \<Rightarrow> (if i < j then JSON_parse (take (j + 1 - i) (drop i s)) else None)
      | _ \<Rightarrow> None)"

definition parse_answer :: "string \<Rightarrow> unknown" where
  "parse_answer s = (case JSON_parse s of Some v \<Rightarrow> Some v | None \<Rightarrow> parse_braces s)"

definition raw_memory :: "json \<Rightarrow> (MemoryKind \<times> string) option" where
  "raw_memory item =
     (case str_opt (jprop (Some item) ''content'') of
        None \<Rightarrow> None
      | Some content \<Rightarrow>
          (if trim content = [] then None
           else (case str_opt (jprop (Some item) ''kind'') of
                   None \<Rightarrow> None
                 | Some k \<Rightarrow> map_option (\<lambda>k. (k, trim content)) (kind_of k))))"

text \<open>The loop over the list; reading a property of a \<open>null\<close> item throws a TypeError (\<open>None\<close>).\<close>

fun parse_items :: "json list \<Rightarrow> (MemoryKind \<times> string) list option" where
  "parse_items [] = Some []"
| "parse_items (JNull # r) = None"
| "parse_items (item # r) =
     (case raw_memory item of
        None \<Rightarrow> parse_items r
      | Some m \<Rightarrow> map_option (\<lambda>ms. m # ms) (parse_items r))"

definition parseMemories :: "string \<Rightarrow> (MemoryKind \<times> string) list option" where
  "parseMemories t =
     (case jprop (parse_answer (clean_answer t)) ''memories'' of
        Some (JArr items) \<Rightarrow> parse_items items
      | _ \<Rightarrow> Some [])"

text \<open>One model call: \<open>llm scope prompt\<close> is the stream of chunks the language model answers with.\<close>

datatype StreamChunk = TextDelta string | Finish string | OtherChunk

definition numbered_lines :: "string list \<Rightarrow> string list" where
  "numbered_lines xs = map (\<lambda>(i, c). show_nat (i + 1) @ ''. '' @ c) (zip [0..<length xs] xs)"

definition extract_prompt :: "string \<Rightarrow> string list \<Rightarrow> string" where
  "extract_prompt smry existing =
     join_with [CHR 0x0A]
       [''CONVERSATION SUMMARY:'', if trim smry = [] then ''(empty)'' else trim smry, [],
        ''EXISTING MEMORIES (do not repeat these):'',
        if existing = [] then ''(none)'' else join_with [CHR 0x0A] (numbered_lines existing)]"

fun collect_text :: "string \<Rightarrow> StreamChunk list \<Rightarrow> string option" where
  "collect_text acc [] = Some acc"
| "collect_text acc (TextDelta t # cs) = collect_text (acc @ t) cs"
| "collect_text acc (Finish k # cs) = (if k \<noteq> ''stop'' \<and> k \<noteq> ''max-tokens'' then None else collect_text acc cs)"
| "collect_text acc (OtherChunk # cs) = collect_text acc cs"

fun source_channel :: "MemoryScope \<Rightarrow> string" where
  "source_channel Global = ''alter''"
| "source_channel (SharedGroup _) = ''group''"
| "source_channel _ = ''agent''"

definition extractMemories :: "(MemoryScope \<Rightarrow> string \<Rightarrow> StreamChunk list) \<Rightarrow> string \<Rightarrow> string list \<Rightarrow> MemoryScope \<Rightarrow> NewMemory list option" where
  "extractMemories llm smry existing scope =
     (case collect_text [] (llm scope (extract_prompt smry existing)) of
        None \<Rightarrow> Some []
      | Some t \<Rightarrow> map_option (map (\<lambda>(k, c).
          \<lparr>nm_kind = k, nm_content = c, nm_scope = scope, nm_sourceCh = source_channel scope, nm_sourceRef = None,
           nm_weight = Some 1, nm_origin = Some AutoOrigin\<rparr>)) (parseMemories t))"

definition memory_json :: "MemoryKind \<times> string \<Rightarrow> json" where
  "memory_json m = JObj [(''kind'', JStr (kind_text (fst m))), (''content'', JStr (snd m))]"

definition answer_json :: "(MemoryKind \<times> string) list \<Rightarrow> json" where
  "answer_json ms = JObj [(''memories'', JArr (map memory_json ms))]"

lemma kind_of_text [simp]: "k \<in> set kinds \<Longrightarrow> kind_of (kind_text k) = Some k"
  by (cases k) (simp_all add: kind_of_def kinds_def)

lemma kind_of_kinds: "kind_of s = Some k \<Longrightarrow> k \<in> set kinds"
  by (auto simp: kind_of_def find_Some_iff)

lemma answer_ok: "json_ok (answer_json ms)"
  by (auto simp: answer_json_def memory_json_def list_all_iff al_wf_def)

lemma parse_items_json:
  "list_all (\<lambda>m. fst m \<in> set kinds \<and> trim (snd m) = snd m \<and> snd m \<noteq> []) ms \<Longrightarrow> parse_items (map memory_json ms) = Some ms"
  by (induction ms) (auto simp: memory_json_def raw_memory_def)

lemma raw_memory_ok: "raw_memory item = Some (k, c) \<Longrightarrow> k \<in> set kinds \<and> c \<noteq> [] \<and> trim c = c"
  by (auto simp: raw_memory_def kind_of_kinds split: option.splits if_splits)

lemma parse_items_ok: "parse_items items = Some ms \<Longrightarrow> list_all (\<lambda>m. fst m \<in> set kinds \<and> trim (snd m) = snd m \<and> snd m \<noteq> []) ms"
  by (induction items arbitrary: ms rule: parse_items.induct)
    (fastforce split: option.splits dest: raw_memory_ok)+

lemma clean_fenced:
  assumes "s \<noteq> []" "\<not> is_ws (hd s)" "\<not> is_ws (last s)" "hd s \<notin> set ''`jJ''" "last s \<noteq> CHR ''`''"
  shows "clean_answer (''```json'' @ [CHR 0x0A] @ s @ [CHR 0x0A] @ fence) = s" "clean_answer s = s"
proof -
  have t: "trim s = s" using assms by (simp add: trim_id_iff)
  have nl: "trim ([CHR 0x0A] @ s @ [CHR 0x0A]) = s"
    using assms t by (simp add: trim_def trimStart_def trimEnd_def is_ws_def) (cases s; simp add: is_ws_def)+
  have w: "trim (''```json'' @ [CHR 0x0A] @ s @ [CHR 0x0A] @ fence) = ''```json'' @ [CHR 0x0A] @ s @ [CHR 0x0A] @ fence"
    by (simp add: trim_id_iff is_ws_def)
  show "clean_answer (''```json'' @ [CHR 0x0A] @ s @ [CHR 0x0A] @ fence) = s"
    unfolding clean_answer_def w using nl
    by (simp add: strip_open_fence_def strip_close_fence_def toLowerCase_def lower_char_def suffix_def)
  have "\<not> prefix fence s" using assms by (cases s) auto
  moreover have "\<not> suffix fence s" using assms by (auto simp: suffix_def)
  ultimately show "clean_answer s = s" unfolding clean_answer_def t strip_open_fence_def strip_close_fence_def by (simp add: t)
qed

lemma object_text: "\<exists>t. JSON_stringify (JObj kvs) = CHR ''{'' # t @ ''}''"
  by simp

lemma parse_answer_stringify: "parse_answer (JSON_stringify (answer_json ms)) = Some (answer_json ms)"
  using JSON_parse_stringify [OF answer_ok [of ms]] by (simp only: parse_answer_def option.case)

lemma clean_answer_json:
  "clean_answer (''```json'' @ [CHR 0x0A] @ JSON_stringify (answer_json ms) @ [CHR 0x0A] @ fence) = JSON_stringify (answer_json ms)"
  "clean_answer (JSON_stringify (answer_json ms)) = JSON_stringify (answer_json ms)"
proof -
  obtain t where t: "JSON_stringify (answer_json ms) = CHR ''{'' # t @ ''}''"
    unfolding answer_json_def using object_text by blast
  let ?s = "CHR ''{'' # t @ ''}''"
  have f: "?s \<noteq> []" "\<not> is_ws (hd ?s)" "\<not> is_ws (last ?s)" "hd ?s \<notin> set ''`jJ''" "last ?s \<noteq> CHR ''`''"
    by (simp_all add: is_ws_def)
  show "clean_answer (''```json'' @ [CHR 0x0A] @ JSON_stringify (answer_json ms) @ [CHR 0x0A] @ fence) = JSON_stringify (answer_json ms)"
    unfolding t by (rule clean_fenced(1) [OF f])
  show "clean_answer (JSON_stringify (answer_json ms)) = JSON_stringify (answer_json ms)"
    unfolding t by (rule clean_fenced(2) [OF f])
qed

text \<open>
  The extraction answer is read back exactly. A list of memories (of the five kinds, trimmed, not empty) printed
  as the JSON object the model is asked for is parsed to that list, bare or inside a
  \<open>json\<close> code fence; and whatever text the model answers with, a parsed memory has one of the
  five kinds and a trimmed, non-empty content, so the store accepts it. A \<open>null\<close> in the list makes
  the parser throw.
\<close>

theorem extraction_answer_roundtrip:
  assumes "list_all (\<lambda>m. fst m \<in> set kinds \<and> trim (snd m) = snd m \<and> snd m \<noteq> []) ms"
  shows "parseMemories (JSON_stringify (answer_json ms)) = Some ms \<and>
    parseMemories (''```json'' @ [CHR 0x0A] @ JSON_stringify (answer_json ms) @ [CHR 0x0A] @ ''```'') = Some ms \<and>
    (\<forall>t ns. parseMemories t = Some ns \<longrightarrow> list_all (\<lambda>m. fst m \<in> set kinds \<and> trim (snd m) = snd m \<and> snd m \<noteq> []) ns) \<and>
    parseMemories (JSON_stringify (JObj [(''memories'', JArr (map memory_json ms @ [JNull]))])) = None"
proof -
  have j: "jprop (Some (answer_json ms)) ''memories'' = Some (JArr (map memory_json ms))" by (simp add: answer_json_def)
  have ok: "list_all (\<lambda>m. fst m \<in> set kinds \<and> trim (snd m) = snd m \<and> snd m \<noteq> []) ns" if "parseMemories t = Some ns" for t ns
    using that parse_items_ok by (auto simp: parseMemories_def split: option.splits json.splits)
  let ?o = "JObj [(''memories'', JArr (map memory_json ms @ [JNull]))]"
  have jo: "json_ok ?o" using answer_ok [of ms] by (simp add: answer_json_def al_wf_def)
  obtain t where t: "JSON_stringify ?o = CHR ''{'' # t @ ''}''" using object_text by blast
  have "clean_answer (JSON_stringify ?o) = JSON_stringify ?o"
    unfolding t by (rule clean_fenced(2)) (simp_all add: is_ws_def)
  moreover have "parse_answer (JSON_stringify ?o) = Some ?o"
    using JSON_parse_stringify [OF jo] by (simp only: parse_answer_def option.case)
  moreover have "parse_items (map memory_json ms @ [JNull]) = None"
    using assms by (induction ms) (auto simp: memory_json_def raw_memory_def)
  ultimately have n: "parseMemories (JSON_stringify ?o) = None" unfolding parseMemories_def by simp
  show ?thesis
    using ok n unfolding parseMemories_def clean_answer_json parse_answer_stringify j
    by (simp add: parse_items_json [OF assms])
qed

theorem extraction_answer_roundtrip_witness:
  "parseMemories (JSON_stringify (answer_json [(Fact, ''likes tea'')])) = Some [(Fact, ''likes tea'')]"
  using extraction_answer_roundtrip [of "[(Fact, ''likes tea'')]"] sample_trim by (simp add: kinds_def)

end
