(* ===== verification/Network.thy ===== *)
theory Network
  imports Group_Contract Json_Text
begin

text \<open>
  The network interface and its in-memory backend:
  \<^verbatim>\<open>src/dsh/packages/dsh/src/network/types.ts\<close>, \<^verbatim>\<open>network/fake.ts\<close> and
  \<^verbatim>\<open>network/send.ts\<close>. \<open>NetworkClient\<close> is a record of the calls the plugin makes, over a backend
  state; the fake backend is one value of it, the peer process behind the other one is not part
  of the sources. Timers of the fake are pending deliveries in its state. Each call gets the
  clock and a fresh identifier from its environment.
  Lemmas: the laws a client of the archive relies on (locale \<open>archive_client\<close>), proved of the fake,
  and that \<open>sendAndArchive\<close> answers the archived entry.
\<close>

section \<open>Data\<close>

record Env =
  env_now :: int
  env_uuid :: string

record Identity =
  idn_fp :: string
  idn_name :: string
  idn_cardUri :: string
  idn_createdAt :: "string option"

record Friend =
  fr_fp :: string
  fr_name :: string
  fr_remark :: "string option"
  fr_cardName :: "string option"
  fr_protocol :: "string option"
  fr_online :: "bool option"
  fr_unread :: int
  fr_count :: int
  fr_lastTs :: "int option"
  fr_lastBody :: "string option"
  fr_typing :: "bool option"
  fr_addedAt :: "string option"

record PendingRequest =
  pq_id :: string
  pq_fp :: string
  pq_name :: string
  pq_greeting :: string
  pq_createdAt :: "string option"

record InboundMessage =
  im_id :: string
  im_from :: string
  im_name :: string
  im_body :: string
  im_ts :: int
  im_seq :: "int option"
  im_auto :: bool
  im_by :: "string option"
  im_agent :: "string option"
  im_type :: "string option"
  im_artifactPath :: "string option"
  im_artifactName :: "string option"

record ConversationEntry =
  ce_seq :: int
  ce_dir :: dir
  ce_id :: string
  ce_body :: string
  ce_ts :: int
  ce_from :: "string option"
  ce_type :: "string option"
  ce_auto :: bool
  ce_by :: "string option"
  ce_agent :: "string option"
  ce_status :: "string option"
  ce_artifactName :: "string option"

record GroupMember =
  gm_fp :: string
  gm_name :: string
  gm_agents :: "string list option"

record GroupPin =
  gpin_id :: string
  gpin_from :: string
  gpin_ts :: int
  gpin_body :: string

record JoinPaymentProof =
  jpp_message :: string
  jpp_pubkey :: string
  jpp_sig :: string

record JoinPayment =
  jp_tx_hash :: string
  jp_amount :: string
  jp_to :: string
  jp_payer :: "string option"
  jp_proof :: "JoinPaymentProof option"
  jp_note :: "string option"

record GroupApplication =
  gap_fp :: string
  gap_name :: string
  gap_note :: string
  gap_ts :: "int option"
  gap_payment :: "JoinPayment option"

text \<open>A governance profile is the object the wire carries; \<open>groupProfileOf\<close> reads it structurally.\<close>

type_synonym GroupProfile = "(string, json) al"

record GroupInfo =
  gi_gid :: string
  gi_name :: string
  gi_ownerFp :: string
  gi_mine :: bool
  gi_version :: int
  gi_members :: nat
  gi_unread :: int
  gi_count :: nat
  gi_lastTs :: "int option"
  gi_lastBody :: "string option"
  gi_profile :: "GroupProfile option"
  gi_memberList :: "GroupMember list"
  gi_pins :: "GroupPin list"
  gi_myRole :: string
  gi_applications :: "GroupApplication list option"

definition profileOf :: "GroupInfo \<Rightarrow> GroupProfileView" where
  "profileOf g = normalizeGroupProfile (map_option JObj (gi_profile g))"

record SendReceipt =
  sr_id :: string
  sr_seq :: "int option"
  sr_status :: string

record GroupCardView =
  gc_gid :: string
  gc_name :: string
  gc_join :: string
  gc_members :: nat
  gc_joinPrice :: "string option"
  gc_joinAddr :: "string option"
  gc_joinNote :: "string option"
  gc_rulesHead :: "string option"

record NetworkError =
  ne_message :: string
  ne_code :: int

definition noIdentity :: int where "noIdentity = - 32001"
definition notFriend :: int where "notFriend = - 32002"
definition identityExists :: int where "identityExists = - 32003"
definition notFound :: int where "notFound = - 32004"
definition badCard :: int where "badCard = - 32005"

definition net_error :: "string \<Rightarrow> int \<Rightarrow> NetworkError + 'a" where
  "net_error m c = Inl \<lparr>ne_message = m, ne_code = c\<rparr>"

type_synonym ('n, 'a) net_call = "'n \<Rightarrow> (NetworkError + 'a) \<times> 'n"

type_synonym CapabilityProfile = "(string, json) al"

text \<open>
  The calls of \<open>NetworkClient\<close> the sessions and tools plugins make. A directory hit is read for its
  \<open>usdc_address\<close> only; \<open>nc_peerTyping\<close> is the \<open>typing\<close> flag \<open>conversation\<close> answers with the entries.
\<close>

record 'n NetworkClient =
  nc_identity :: "'n \<Rightarrow> NetworkError + Identity option"
  nc_parseCard :: "string \<Rightarrow> 'n \<Rightarrow> NetworkError + (string \<times> string)"
  nc_friends_list :: "'n \<Rightarrow> NetworkError + Friend list"
  nc_friends_add :: "string \<Rightarrow> string option \<Rightarrow> ('n, Friend) net_call"
  nc_groups_list :: "'n \<Rightarrow> NetworkError + GroupInfo list"
  nc_groups_info :: "string \<Rightarrow> 'n \<Rightarrow> NetworkError + GroupInfo"
  nc_groups_send :: "Env \<Rightarrow> string \<Rightarrow> string \<Rightarrow> GroupSendOptions \<Rightarrow> ('n, SendReceipt) net_call"
  nc_groups_conversation :: "string \<Rightarrow> int option \<Rightarrow> int option \<Rightarrow> 'n \<Rightarrow> NetworkError + ConversationEntry list"
  nc_groups_setProfile :: "string \<Rightarrow> GroupProfile \<Rightarrow> ('n, unit) net_call"
  nc_groups_lookup :: "string \<Rightarrow> 'n \<Rightarrow> NetworkError + GroupCardView option"
  nc_groups_apply :: "Env \<Rightarrow> string \<Rightarrow> string \<Rightarrow> JoinPayment option \<Rightarrow> ('n, string) net_call"
  nc_directory_fetch :: "string \<Rightarrow> 'n \<Rightarrow> NetworkError + string option"
  nc_directory_publish :: "('n, unit) net_call"
  nc_profile_get :: "'n \<Rightarrow> NetworkError + CapabilityProfile option"
  nc_profile_save :: "CapabilityProfile \<Rightarrow> ('n, unit) net_call"
  nc_presence :: "string list \<Rightarrow> 'n \<Rightarrow> NetworkError + (string, bool) al"
  nc_send :: "Env \<Rightarrow> string \<Rightarrow> string \<Rightarrow> bool \<Rightarrow> ('n, SendReceipt) net_call"
  nc_conversation :: "string \<Rightarrow> int option \<Rightarrow> int option \<Rightarrow> 'n \<Rightarrow> NetworkError + ConversationEntry list"
  nc_peerTyping :: "string \<Rightarrow> 'n \<Rightarrow> bool"

section \<open>Sending with read-back\<close>

definition out_entry :: "int \<Rightarrow> string \<Rightarrow> string \<Rightarrow> int \<Rightarrow> string \<Rightarrow> bool \<Rightarrow> ConversationEntry" where
  "out_entry sq i body ts status auto =
     \<lparr>ce_seq = sq, ce_dir = Out, ce_id = i, ce_body = body, ce_ts = ts, ce_from = None, ce_type = None,
      ce_auto = auto, ce_by = None, ce_agent = None, ce_status = Some status, ce_artifactName = None\<rparr>"

text \<open>The read-back: the entry with the receipt's seq among what \<open>conversation\<close> answers, if any.\<close>

definition read_back :: "(int option \<Rightarrow> int option \<Rightarrow> NetworkError + ConversationEntry list) \<Rightarrow> int option \<Rightarrow> ConversationEntry option" where
  "read_back conversation sq =
     (case sq of
        None \<Rightarrow> None
      | Some q \<Rightarrow>
          (if q > 0 then
             (case conversation (Some (q - 1)) (Some 1) of
                Inr es \<Rightarrow> find (\<lambda>e. ce_seq e = q) es
              | Inl _ \<Rightarrow> None)
           else None))"

definition sendAndArchive :: "'n NetworkClient \<Rightarrow> Env \<Rightarrow> string \<Rightarrow> string \<Rightarrow> bool \<Rightarrow> ('n, ConversationEntry \<times> SendReceipt) net_call" where
  "sendAndArchive client env fp body auto n =
     (case nc_send client env fp body auto n of
        (Inl e, n') \<Rightarrow> (Inl e, n')
      | (Inr r, n') \<Rightarrow>
          (Inr (case read_back (\<lambda>s l. nc_conversation client fp s l n') (sr_seq r) of
                  Some e \<Rightarrow> e
                | None \<Rightarrow> out_entry (case sr_seq r of None \<Rightarrow> 0 | Some q \<Rightarrow> q) (sr_id r) body (env_now env) (sr_status r) auto, r), n'))"

section \<open>The in-memory backend\<close>

text \<open>What a pending timer of the fake will do.\<close>

datatype fake_timer =
    FakeDeliver string string bool
  | FakeAccept Friend
  | FakeGroupEcho string GroupMember string
  | FakeApplication string

datatype NetworkEvent =
    NMessage InboundMessage
  | NTyping string bool
  | NFriendRequest PendingRequest
  | NFriendAccept Friend
  | NPresence string bool
  | NStatus string
  | NGroupMessage string InboundMessage
  | NGroupTyping string string "string option" bool
  | NGroupUpdate string
  | NGroupApplication string GroupApplication

record FakeGroup =
  fg_name :: string
  fg_ownerFp :: string
  fg_version :: int
  fg_memberList :: "GroupMember list"
  fg_entries :: "ConversationEntry list"
  fg_unread :: int
  fg_profile :: GroupProfile
  fg_pins :: "GroupPin list"
  fg_applications :: "GroupApplication list"
  fg_applicationSeeded :: bool

record FakeNet =
  fn_friends :: "(string, Friend) al"
  fn_pending :: "(string, PendingRequest) al"
  fn_conversations :: "(string, ConversationEntry list) al"
  fn_identity :: "Identity option"
  fn_firstInboundFired :: bool
  fn_disposed :: bool
  fn_listening :: nat
  fn_groups :: "(string, FakeGroup) al"
  fn_pinSeq :: nat
  fn_timers :: "fake_timer list"
  fn_events :: "NetworkEvent list"

definition ME_FP :: string where "ME_FP = ''fp-me-0000aaaabbbbcccc''"
definition ALICE_FP :: string where "ALICE_FP = ''fp-alice-1f2e3d4c5b6a7988''"

definition plain_friend :: "string \<Rightarrow> string \<Rightarrow> string \<Rightarrow> string option \<Rightarrow> bool option \<Rightarrow> Friend" where
  "plain_friend fp name cname remark online =
     \<lparr>fr_fp = fp, fr_name = name, fr_remark = remark, fr_cardName = Some cname, fr_protocol = None, fr_online = online,
      fr_unread = 0, fr_count = 0, fr_lastTs = None, fr_lastBody = None, fr_typing = None, fr_addedAt = None\<rparr>"

definition FAKE_FRIENDS :: "Friend list" where
  "FAKE_FRIENDS =
     [plain_friend ALICE_FP ''college friend'' ''Alice'' (Some ''college friend'') (Some True),
      plain_friend ''fp-bob-9a8b7c6d5e4f3021'' ''Bob'' ''Bob'' None (Some False)]"

definition FAKE_PENDING :: "PendingRequest list" where
  "FAKE_PENDING = [\<lparr>pq_id = ''req-carol-1'', pq_fp = ''fp-carol-5566778899aabbcc'', pq_name = ''Carol'',
     pq_greeting = ''Hi, Alice gave me your card.'', pq_createdAt = None\<rparr>]"

definition createFake :: "bool \<Rightarrow> FakeNet" where
  "createFake hasNoIdentity =
     \<lparr>fn_friends = map (\<lambda>f. (fr_fp f, f)) FAKE_FRIENDS, fn_pending = map (\<lambda>p. (pq_id p, p)) FAKE_PENDING,
      fn_conversations = [],
      fn_identity = (if hasNoIdentity then None
        else Some \<lparr>idn_fp = ME_FP, idn_name = ''dsh tester'', idn_cardUri = ''soulmirror://card?v=1&pk=FAKE&xpk=FAKE&name=dsh%20tester'', idn_createdAt = None\<rparr>),
      fn_firstInboundFired = False, fn_disposed = False, fn_listening = 0, fn_groups = [], fn_pinSeq = 0,
      fn_timers = [], fn_events = []\<rparr>"

text \<open>An event reaches the listeners that are subscribed; without one it is dropped.\<close>

definition fake_emit :: "NetworkEvent \<Rightarrow> FakeNet \<Rightarrow> FakeNet" where
  "fake_emit ev n = (if fn_listening n = 0 then n else n\<lparr>fn_events := fn_events n @ [ev]\<rparr>)"

definition fake_later :: "fake_timer \<Rightarrow> FakeNet \<Rightarrow> FakeNet" where
  "fake_later t n = n\<lparr>fn_timers := fn_timers n @ [t]\<rparr>"

definition thread_of :: "FakeNet \<Rightarrow> string \<Rightarrow> ConversationEntry list" where
  "thread_of n peer = (case al_get (fn_conversations n) peer of None \<Rightarrow> [] | Some l \<Rightarrow> l)"

definition touch_friend :: "ConversationEntry \<Rightarrow> nat \<Rightarrow> Friend \<Rightarrow> Friend" where
  "touch_friend e cnt f =
     f\<lparr>fr_count := int cnt, fr_unread := (if ce_dir e = In then fr_unread f + 1 else fr_unread f),
       fr_lastTs := Some (ce_ts e), fr_lastBody := Some (ce_body e)\<rparr>"

definition fake_archive :: "string \<Rightarrow> ConversationEntry \<Rightarrow> FakeNet \<Rightarrow> ConversationEntry \<times> FakeNet" where
  "fake_archive peer entry n =
     (let full = entry\<lparr>ce_seq := int (length (thread_of n peer)) + 1\<rparr>; l = thread_of n peer @ [full];
          n1 = n\<lparr>fn_conversations := al_set peer l (fn_conversations n)\<rparr>
      in (full, case al_get (fn_friends n) peer of
                  None \<Rightarrow> n1
                | Some f \<Rightarrow> n1\<lparr>fn_friends := al_set peer (touch_friend full (length l) f) (fn_friends n)\<rparr>))"

definition in_entry :: "string \<Rightarrow> string \<Rightarrow> int \<Rightarrow> bool \<Rightarrow> ConversationEntry" where
  "in_entry i body ts auto =
     \<lparr>ce_seq = 0, ce_dir = In, ce_id = i, ce_body = body, ce_ts = ts, ce_from = None, ce_type = None,
      ce_auto = auto, ce_by = None, ce_agent = None, ce_status = None, ce_artifactName = None\<rparr>"

definition mid :: "Env \<Rightarrow> string" where
  "mid env = ''a2a-'' @ env_uuid env"

definition fake_deliver :: "Env \<Rightarrow> string \<Rightarrow> string \<Rightarrow> bool \<Rightarrow> FakeNet \<Rightarrow> FakeNet" where
  "fake_deliver env from body auto n =
     (if fn_disposed n then n
      else (let name = (case al_get (fn_friends n) from of None \<Rightarrow> from | Some f \<Rightarrow> fr_name f);
                (entry, n') = fake_archive from (in_entry (mid env) body (env_now env) auto) n
            in fake_emit (NMessage \<lparr>im_id = mid env, im_from = from, im_name = name, im_body = body, im_ts = env_now env,
                 im_seq = Some (ce_seq entry), im_auto = auto, im_by = None, im_agent = None, im_type = None,
                 im_artifactPath = None, im_artifactName = None\<rparr>) n'))"

text \<open>Fields of a profile object.\<close>

definition prof_on :: "GroupProfile \<Rightarrow> string \<Rightarrow> bool" where
  "prof_on p k = is_true (al_get p k)"

definition prof_str :: "GroupProfile \<Rightarrow> string \<Rightarrow> string \<Rightarrow> string" where
  "prof_str p k d = (case str_opt (al_get p k) of None \<Rightarrow> d | Some s \<Rightarrow> s)"

definition defaultProfile :: GroupProfile where
  "defaultProfile =
     [(''template'', JStr ''standard''), (''room'', JStr ''chat''), (''speakHumans'', JBool True), (''speakAgents'', JBool True),
      (''speakWho'', JStr ''all''), (''join'', JStr ''invite''), (''agentWake'', JStr ''mention''), (''agentTier'', JStr ''draft''),
      (''autoPerHour'', JNum (Fin 10)), (''agentRounds'', JNum (Fin 3))]"

text \<open>\<open>{ ...a, ...b }\<close>.\<close>

definition spread_profile :: "GroupProfile \<Rightarrow> GroupProfile \<Rightarrow> GroupProfile" where
  "spread_profile a b = fold (\<lambda>(k, v). al_set k v) b a"

definition myFp :: "FakeNet \<Rightarrow> string" where
  "myFp n = (case fn_identity n of None \<Rightarrow> ME_FP | Some i \<Rightarrow> idn_fp i)"

definition fake_roleOf :: "FakeNet \<Rightarrow> FakeGroup \<Rightarrow> string" where
  "fake_roleOf n g =
     (if fg_ownerFp g = myFp n then ''owner''
      else if JStr (myFp n) \<in> set (arr_items (al_get (fg_profile g) ''admins'')) then ''admin'' else ''member'')"

definition groupInfoOf :: "FakeNet \<Rightarrow> string \<Rightarrow> FakeGroup \<Rightarrow> GroupInfo" where
  "groupInfoOf n gid g =
     \<lparr>gi_gid = gid, gi_name = fg_name g, gi_ownerFp = fg_ownerFp g, gi_mine = (fg_ownerFp g = myFp n), gi_version = fg_version g,
      gi_members = length (fg_memberList g), gi_unread = fg_unread g, gi_count = length (fg_entries g),
      gi_lastTs = (if fg_entries g = [] then None else Some (ce_ts (last (fg_entries g)))),
      gi_lastBody = (if fg_entries g = [] then None else Some (ce_body (last (fg_entries g)))),
      gi_profile = Some (fg_profile g), gi_memberList = fg_memberList g, gi_pins = fg_pins g, gi_myRole = fake_roleOf n g,
      gi_applications = (if fake_roleOf n g = ''owner'' then Some (fg_applications g) else None)\<rparr>"

definition unknown_group :: "NetworkError + 'a" where
  "unknown_group = net_error ''unknown group'' notFound"

definition fake_groups_info :: "string \<Rightarrow> FakeNet \<Rightarrow> NetworkError + GroupInfo" where
  "fake_groups_info gid n = (case al_get (fn_groups n) gid of None \<Rightarrow> unknown_group | Some g \<Rightarrow> Inr (groupInfoOf n gid g))"

definition fake_groups_list :: "FakeNet \<Rightarrow> NetworkError + GroupInfo list" where
  "fake_groups_list n = Inr (map (\<lambda>(gid, g). groupInfoOf n gid g) (fn_groups n))"

definition set_group :: "string \<Rightarrow> FakeGroup \<Rightarrow> FakeNet \<Rightarrow> FakeNet" where
  "set_group gid g n = n\<lparr>fn_groups := al_set gid g (fn_groups n)\<rparr>"

definition seedApplication :: "string \<Rightarrow> FakeNet \<Rightarrow> FakeNet" where
  "seedApplication gid n =
     (case al_get (fn_groups n) gid of
        None \<Rightarrow> n
      | Some g \<Rightarrow>
          (if fg_applicationSeeded g \<or> fg_ownerFp g \<noteq> myFp n then n
           else (let join = prof_str (fg_profile g) ''join'' ''invite'' in
                 if join \<noteq> ''apply'' \<and> join \<noteq> ''open'' then n
                 else fake_later (FakeApplication gid) (set_group gid (g\<lparr>fg_applicationSeeded := True\<rparr>) n))))"

definition no_identity :: "NetworkError + 'a" where
  "no_identity = net_error ''no identity yet (identity.create first)'' noIdentity"

definition silent_profile :: "GroupProfile \<Rightarrow> bool" where
  "silent_profile p \<longleftrightarrow> \<not> prof_on p ''speakHumans'' \<and> \<not> prof_on p ''speakAgents''"

definition silent_error :: "NetworkError + 'a" where
  "silent_error = net_error ''at least one of speakHumans/speakAgents must be true'' (- 32602)"

definition new_group :: "FakeNet \<Rightarrow> Identity \<Rightarrow> string \<Rightarrow> string list \<Rightarrow> GroupProfile option \<Rightarrow> FakeGroup" where
  "new_group n me name members profile =
     \<lparr>fg_name = name, fg_ownerFp = idn_fp me, fg_version = 1,
      fg_memberList = \<lparr>gm_fp = idn_fp me, gm_name = idn_name me, gm_agents = None\<rparr> #
        map (\<lambda>m. \<lparr>gm_fp = m, gm_name = (case al_get (fn_friends n) m of None \<Rightarrow> m | Some f \<Rightarrow> fr_name f), gm_agents = None\<rparr>) members,
      fg_entries = [], fg_unread = 0,
      fg_profile = spread_profile defaultProfile (case profile of None \<Rightarrow> [] | Some p \<Rightarrow> p),
      fg_pins = [], fg_applications = [], fg_applicationSeeded = False\<rparr>"

definition fake_groups_create :: "Env \<Rightarrow> string \<Rightarrow> string list \<Rightarrow> GroupProfile option \<Rightarrow> (FakeNet, GroupInfo) net_call" where
  "fake_groups_create env name members profile n =
     (case fn_identity n of
        None \<Rightarrow> (no_identity, n)
      | Some me \<Rightarrow>
          (if (case profile of None \<Rightarrow> False | Some p \<Rightarrow> silent_profile p) then (silent_error, n)
           else (let gid = ''fake'' @ take 28 (filter (\<lambda>c. c \<noteq> CHR ''-'') (env_uuid env));
                     n' = seedApplication gid (set_group gid (new_group n me name members profile) n)
                 in (fake_groups_info gid n', n'))))"

text \<open>The sending node enforces the governance switches.\<close>

definition speak_error :: "FakeNet \<Rightarrow> FakeGroup \<Rightarrow> string \<Rightarrow> NetworkError option" where
  "speak_error n g by =
     (let who = prof_str (fg_profile g) ''speakWho'' ''all''; role = fake_roleOf n g; err = (\<lambda>m. Some \<lparr>ne_message = m, ne_code = - 32602\<rparr>) in
      if by = ''alter'' \<and> \<not> prof_on (fg_profile g) ''speakAgents'' then err ''agents do not speak in this group''
      else if by = ''owner'' \<and> \<not> prof_on (fg_profile g) ''speakHumans'' then err ''humans do not speak in this group (the alter does)''
      else if who = ''owner'' \<and> role \<noteq> ''owner'' then err ''only the owner speaks in this group''
      else if who = ''admins'' \<and> role = ''member'' then err ''only the owner and admins speak in this group''
      else None)"

definition group_entry :: "Env \<Rightarrow> FakeGroup \<Rightarrow> string \<Rightarrow> string \<Rightarrow> GroupSendOptions \<Rightarrow> ConversationEntry" where
  "group_entry env g body by opts =
     (out_entry (int (length (fg_entries g)) + 1) (mid env) body (env_now env) ''sent'' (gso_auto opts = Some True))
       \<lparr>ce_by := Some by,
        ce_agent := (if by = ''alter'' \<and> gso_agent opts \<noteq> Some [] then gso_agent opts else None)\<rparr>"

definition fake_groups_send :: "Env \<Rightarrow> string \<Rightarrow> string \<Rightarrow> GroupSendOptions \<Rightarrow> (FakeNet, SendReceipt) net_call" where
  "fake_groups_send env gid body opts n =
     (case al_get (fn_groups n) gid of
        None \<Rightarrow> (unknown_group, n)
      | Some g \<Rightarrow>
          (let by = (case gso_by opts of None \<Rightarrow> ''owner'' | Some b \<Rightarrow> b) in
           case speak_error n g by of
             Some e \<Rightarrow> (Inl e, n)
           | None \<Rightarrow>
               (let entry = group_entry env g body by opts;
                    n' = set_group gid (g\<lparr>fg_entries := fg_entries g @ [entry]\<rparr>) n
                in (Inr \<lparr>sr_id = mid env, sr_seq = Some (ce_seq entry), sr_status = ''sent''\<rparr>,
                    case find (\<lambda>m. Some (gm_fp m) \<noteq> map_option idn_fp (fn_identity n)) (fg_memberList g) of
                      None \<Rightarrow> n'
                    | Some other \<Rightarrow> fake_later (FakeGroupEcho gid other body) n'))))"

text \<open>\<open>since\<close> keeps the entries after a seq, \<open>limit\<close> the last \<open>n\<close> of those.\<close>

definition archive_page :: "int option \<Rightarrow> int option \<Rightarrow> ConversationEntry list \<Rightarrow> ConversationEntry list" where
  "archive_page since limit entries =
     (let es = (case since of None \<Rightarrow> entries | Some q \<Rightarrow> filter (\<lambda>e. ce_seq e > q) entries)
      in case limit of
           Some l \<Rightarrow> (if l > 0 \<and> int (length es) > l then drop (length es - nat l) es else es)
         | None \<Rightarrow> es)"

definition fake_groups_conversation :: "string \<Rightarrow> int option \<Rightarrow> int option \<Rightarrow> FakeNet \<Rightarrow> NetworkError + ConversationEntry list" where
  "fake_groups_conversation gid since limit n =
     (case al_get (fn_groups n) gid of None \<Rightarrow> unknown_group | Some g \<Rightarrow> Inr (archive_page since limit (fg_entries g)))"

definition fake_conversation :: "string \<Rightarrow> int option \<Rightarrow> int option \<Rightarrow> FakeNet \<Rightarrow> NetworkError + ConversationEntry list" where
  "fake_conversation target since limit n = Inr (archive_page since limit (thread_of n target))"

definition fake_send :: "Env \<Rightarrow> string \<Rightarrow> string \<Rightarrow> bool \<Rightarrow> (FakeNet, SendReceipt) net_call" where
  "fake_send env to body auto n =
     (if fn_identity n = None then (no_identity, n)
      else if al_get (fn_friends n) to = None then (net_error ''not a friend (friends.add first)'' notFriend, n)
      else (let (entry, n') = fake_archive to (out_entry 0 (mid env) body (env_now env) ''sent'' auto) n
            in (Inr \<lparr>sr_id = mid env, sr_seq = Some (ce_seq entry), sr_status = ''sent''\<rparr>,
                fake_later (FakeDeliver to (''(auto-reply) got it: '' @ [CHR 0x22] @ take 40 body @ [CHR 0x22]) True) n')))"

text \<open>Identity, cards and the friend list.\<close>

definition is_uri_char :: "char \<Rightarrow> bool" where
  "is_uri_char c = (let n = (of_char c :: nat) in
     48 \<le> n \<and> n \<le> 57 \<or> 65 \<le> n \<and> n \<le> 90 \<or> 97 \<le> n \<and> n \<le> 122 \<or> c \<in> set ''-_.!~*()'' \<or> n = 39)"

definition percent :: "nat \<Rightarrow> string" where
  "percent b = (let hex = (\<lambda>k. ''0123456789ABCDEF'' ! k) in [CHR ''%'', hex (b div 16), hex (b mod 16)])"

text \<open>Percent-encoding of the UTF-8 bytes of a code unit below 256.\<close>

definition encodeURIComponent :: "string \<Rightarrow> string" where
  "encodeURIComponent s = concat (map (\<lambda>c. let n = (of_char c :: nat) in
     if is_uri_char c then [c] else if n < 128 then percent n else percent (192 + n div 64) @ percent (128 + n mod 64)) s)"

definition fake_createIdentity :: "string \<Rightarrow> (FakeNet, Identity) net_call" where
  "fake_createIdentity name n =
     (if fn_identity n \<noteq> None then (net_error ''identity already exists'' identityExists, n)
      else (let i = \<lparr>idn_fp = ME_FP, idn_name = name,
                     idn_cardUri = ''soulmirror://card?v=1&pk=FAKE&xpk=FAKE&name='' @ encodeURIComponent name, idn_createdAt = None\<rparr>
            in (Inr i, n\<lparr>fn_identity := Some i\<rparr>)))"

definition slice_last :: "nat \<Rightarrow> string \<Rightarrow> string" where
  "slice_last k s = drop (length s - k) s"

definition is_alnum_char :: "char \<Rightarrow> bool" where
  "is_alnum_char c = (let n = (of_char c :: nat) in 48 \<le> n \<and> n \<le> 57 \<or> 65 \<le> n \<and> n \<le> 90 \<or> 97 \<le> n \<and> n \<le> 122)"

definition friendFromCard :: "string \<Rightarrow> string option \<Rightarrow> Friend" where
  "friendFromCard uri remark =
     (let tag = filter is_alnum_char (slice_last 8 uri); cname = ''card '' @ slice_last 4 uri
      in plain_friend (''fp-'' @ (if tag = [] then ''card'' else tag)) (case remark of None \<Rightarrow> cname | Some r \<Rightarrow> r) cname remark None)"

definition bad_card :: "NetworkError + 'a" where
  "bad_card = net_error ''invalid card link'' badCard"

definition fake_parseCard :: "string \<Rightarrow> FakeNet \<Rightarrow> NetworkError + (string \<times> string)" where
  "fake_parseCard uri n =
     (if \<not> startsWith uri ''soulmirror://card'' then bad_card
      else (let f = friendFromCard uri None in Inr (fr_fp f, case fr_cardName f of None \<Rightarrow> fr_name f | Some c \<Rightarrow> c)))"

definition fake_friends_list :: "FakeNet \<Rightarrow> NetworkError + Friend list" where
  "fake_friends_list n = Inr (map snd (fn_friends n))"

definition fake_friends_add :: "string \<Rightarrow> string option \<Rightarrow> (FakeNet, Friend) net_call" where
  "fake_friends_add uri remark n =
     (if fn_identity n = None then (no_identity, n)
      else if \<not> startsWith uri ''soulmirror://card'' then (bad_card, n)
      else (let f = friendFromCard uri remark
            in (Inr f, fake_later (FakeAccept f) (n\<lparr>fn_friends := al_set (fr_fp f) f (fn_friends n)\<rparr>))))"

definition fake_friends_accept :: "string \<Rightarrow> string option \<Rightarrow> (FakeNet, Friend) net_call" where
  "fake_friends_accept rid note n =
     (case al_get (fn_pending n) rid of
        None \<Rightarrow> (net_error ''no such pending request'' notFound, n)
      | Some q \<Rightarrow>
          (let f = plain_friend (pq_fp q) (case note of None \<Rightarrow> pq_name q | Some x \<Rightarrow> x) (pq_name q) note None
           in (Inr f, n\<lparr>fn_pending := al_del rid (fn_pending n), fn_friends := al_set (fr_fp f) f (fn_friends n)\<rparr>)))"

definition fake_friends_reject :: "string \<Rightarrow> (FakeNet, unit) net_call" where
  "fake_friends_reject rid n =
     (if al_get (fn_pending n) rid = None then (net_error ''no such pending request'' notFound, n)
      else (Inr (), n\<lparr>fn_pending := al_del rid (fn_pending n)\<rparr>))"

definition not_a_friend :: "NetworkError + 'a" where
  "not_a_friend = net_error ''not a friend'' notFriend"

definition patched_friend :: "string option \<Rightarrow> string option \<Rightarrow> Friend \<Rightarrow> Friend" where
  "patched_friend remark protocol f =
     (let f1 = (case remark of None \<Rightarrow> f | Some r \<Rightarrow> f\<lparr>fr_remark := Some r, fr_name := r\<rparr>)
      in f1\<lparr>fr_protocol := (case protocol of None \<Rightarrow> fr_protocol f | Some p \<Rightarrow> if trim p = [] then None else Some p)\<rparr>)"

definition fake_friends_set :: "string \<Rightarrow> string option \<Rightarrow> string option \<Rightarrow> (FakeNet, Friend) net_call" where
  "fake_friends_set i remark protocol n =
     (case al_get (fn_friends n) i of
        None \<Rightarrow> (not_a_friend, n)
      | Some f \<Rightarrow> (let g = patched_friend remark protocol f in (Inr g, n\<lparr>fn_friends := al_set i g (fn_friends n)\<rparr>)))"

definition fake_friends_remove :: "string \<Rightarrow> (FakeNet, unit) net_call" where
  "fake_friends_remove i n =
     (if al_get (fn_friends n) i = None then (not_a_friend, n) else (Inr (), n\<lparr>fn_friends := al_del i (fn_friends n)\<rparr>))"

definition fake_markRead :: "string \<Rightarrow> (FakeNet, unit) net_call" where
  "fake_markRead target n =
     (case al_get (fn_friends n) target of
        None \<Rightarrow> (not_a_friend, n)
      | Some f \<Rightarrow> (Inr (), n\<lparr>fn_friends := al_set target (f\<lparr>fr_unread := 0\<rparr>) (fn_friends n)\<rparr>))"

definition fake_subscribe :: "int \<Rightarrow> FakeNet \<Rightarrow> FakeNet" where
  "fake_subscribe delay n =
     (let n1 = n\<lparr>fn_listening := fn_listening n + 1, fn_firstInboundFired := True\<rparr>
      in if \<not> fn_firstInboundFired n \<and> delay \<ge> 0
         then fake_later (FakeDeliver ALICE_FP ''Hey, are you around? Hiking this weekend - bring your alter ego too!'' False) n1 else n1)"

definition fake_dispose :: "FakeNet \<Rightarrow> FakeNet" where
  "fake_dispose n = n\<lparr>fn_disposed := True, fn_listening := 0\<rparr>"

text \<open>Group administration: the owner edits, the owner and admins pin, each change announces itself.\<close>

definition with_group :: "string \<Rightarrow> (FakeGroup \<Rightarrow> (FakeNet, unit) net_call) \<Rightarrow> (FakeNet, unit) net_call" where
  "with_group gid f n = (case al_get (fn_groups n) gid of None \<Rightarrow> (unknown_group, n) | Some g \<Rightarrow> f g n)"

definition group_changed :: "string \<Rightarrow> FakeGroup \<Rightarrow> (FakeNet, unit) net_call" where
  "group_changed gid g n = (Inr (), fake_emit (NGroupUpdate gid) (set_group gid g n))"

definition fake_groups_markRead :: "string \<Rightarrow> (FakeNet, unit) net_call" where
  "fake_groups_markRead gid = with_group gid (\<lambda>g n. (Inr (), set_group gid (g\<lparr>fg_unread := 0\<rparr>) n))"

definition fake_groups_leave :: "string \<Rightarrow> (FakeNet, unit) net_call" where
  "fake_groups_leave gid =
     with_group gid (\<lambda>g n. (Inr (), fake_emit (NGroupUpdate gid) (n\<lparr>fn_groups := al_del gid (fn_groups n)\<rparr>)))"

definition fake_groups_kick :: "string \<Rightarrow> string \<Rightarrow> (FakeNet, unit) net_call" where
  "fake_groups_kick gid target =
     with_group gid (\<lambda>g. group_changed gid
       (g\<lparr>fg_memberList := filter (\<lambda>m. gm_fp m \<noteq> target) (fg_memberList g), fg_version := fg_version g + 1\<rparr>))"

definition fake_groups_setProfile :: "string \<Rightarrow> GroupProfile \<Rightarrow> (FakeNet, unit) net_call" where
  "fake_groups_setProfile gid profile =
     with_group gid (\<lambda>g n.
       if fake_roleOf n g \<noteq> ''owner'' then (net_error ''only the owner edits the group profile'' (- 32602), n)
       else if silent_profile profile then (silent_error, n)
       else (let (r, n') = group_changed gid (g\<lparr>fg_profile := profile, fg_version := fg_version g + 1\<rparr>) n
             in (r, seedApplication gid n')))"

definition fake_groups_pin :: "Env \<Rightarrow> string \<Rightarrow> string \<Rightarrow> (FakeNet, unit) net_call" where
  "fake_groups_pin env gid body =
     with_group gid (\<lambda>g n.
       if fake_roleOf n g = ''member'' then (net_error ''only the owner and admins pin in this group'' (- 32602), n)
       else (let k = fn_pinSeq n + 1;
                 pin = \<lparr>gpin_id = ''pin-'' @ show_nat k, gpin_from = myFp n, gpin_ts = env_now env, gpin_body = body\<rparr>
             in group_changed gid (g\<lparr>fg_pins := fg_pins g @ [pin]\<rparr>) (n\<lparr>fn_pinSeq := k\<rparr>)))"

definition fake_groups_unpin :: "string \<Rightarrow> string \<Rightarrow> (FakeNet, unit) net_call" where
  "fake_groups_unpin gid i =
     with_group gid (\<lambda>g. group_changed gid (g\<lparr>fg_pins := filter (\<lambda>p. gpin_id p \<noteq> i) (fg_pins g)\<rparr>))"

definition admit :: "GroupMember \<Rightarrow> FakeGroup \<Rightarrow> FakeGroup" where
  "admit m g = g\<lparr>fg_memberList := fg_memberList g @ [m], fg_version := fg_version g + 1\<rparr>"

definition fake_groups_approve :: "string \<Rightarrow> string \<Rightarrow> (FakeNet, unit) net_call" where
  "fake_groups_approve gid target =
     with_group gid (\<lambda>g n. case find (\<lambda>a. gap_fp a = target) (fg_applications g) of
        None \<Rightarrow> (net_error ''no such application'' notFound, n)
      | Some a \<Rightarrow> group_changed gid (admit \<lparr>gm_fp = gap_fp a, gm_name = gap_name a, gm_agents = None\<rparr>
          (g\<lparr>fg_applications := filter (\<lambda>a. gap_fp a \<noteq> target) (fg_applications g)\<rparr>)) n)"

definition fake_groups_applicationReject :: "string \<Rightarrow> string \<Rightarrow> (FakeNet, unit) net_call" where
  "fake_groups_applicationReject gid target =
     with_group gid (\<lambda>g. group_changed gid (g\<lparr>fg_applications := filter (\<lambda>a. gap_fp a \<noteq> target) (fg_applications g)\<rparr>))"

definition fake_groups_invite :: "string \<Rightarrow> string \<Rightarrow> (FakeNet, unit) net_call" where
  "fake_groups_invite gid target =
     with_group gid (\<lambda>g n. case al_get (fn_friends n) target of
        None \<Rightarrow> (not_a_friend, n)
      | Some f \<Rightarrow> (if target \<in> gm_fp ` set (fg_memberList g) then (Inr (), n)
                   else group_changed gid (admit \<lparr>gm_fp = fr_fp f, gm_name = fr_name f, gm_agents = None\<rparr> g) n))"

text \<open>A timer fires.\<close>

definition group_echo :: "Env \<Rightarrow> string \<Rightarrow> string \<Rightarrow> FakeGroup \<Rightarrow> GroupMember \<Rightarrow> FakeNet \<Rightarrow> FakeNet" where
  "group_echo env gid body g other n =
     (let by = (if prof_on (fg_profile g) ''speakAgents'' then ''alter'' else ''owner'');
          txt = ''(group echo) '' @ take 40 body;
          echo = (in_entry (mid env) txt (env_now env) False)\<lparr>ce_seq := int (length (fg_entries g)) + 1, ce_by := Some by\<rparr>
      in fake_emit (NGroupMessage gid \<lparr>im_id = mid env, im_from = gm_fp other, im_name = gm_name other, im_body = txt,
            im_ts = env_now env, im_seq = Some (ce_seq echo), im_auto = False, im_by = Some by, im_agent = None, im_type = None,
            im_artifactPath = None, im_artifactName = None\<rparr>)
           (set_group gid (g\<lparr>fg_entries := fg_entries g @ [echo], fg_unread := fg_unread g + 1\<rparr>) n))"

definition DAVE :: GroupApplication where
  "DAVE = \<lparr>gap_fp = ''fp-dave-77aa88bb99cc00dd'', gap_name = ''Dave'', gap_note = ''Saw your group card - can I join?'', gap_ts = None, gap_payment = None\<rparr>"

fun fake_fire :: "Env \<Rightarrow> fake_timer \<Rightarrow> FakeNet \<Rightarrow> FakeNet" where
  "fake_fire env (FakeDeliver from body auto) n = fake_deliver env from body auto n"
| "fake_fire env (FakeAccept f) n = (if fn_disposed n then n else fake_emit (NFriendAccept f) n)"
| "fake_fire env (FakeGroupEcho gid other body) n =
     (if fn_disposed n then n
      else case al_get (fn_groups n) gid of
        None \<Rightarrow> n
      | Some g \<Rightarrow> group_echo env gid body g other n)"
| "fake_fire env (FakeApplication gid) n =
     (if fn_disposed n then n
      else case al_get (fn_groups n) gid of
        None \<Rightarrow> n
      | Some g \<Rightarrow> fake_emit (NGroupApplication gid DAVE)
          (set_group gid (g\<lparr>fg_applications := fg_applications g @ [DAVE\<lparr>gap_ts := Some (env_now env)\<rparr>]\<rparr>) n))"

definition fake_tick :: "Env \<Rightarrow> FakeNet \<Rightarrow> FakeNet" where
  "fake_tick env n = (case fn_timers n of [] \<Rightarrow> n | t # ts \<Rightarrow> fake_fire env t (n\<lparr>fn_timers := ts\<rparr>))"

text \<open>
  \<open>new URLSearchParams(q).get(k)\<close>: the first pair with that name, \<open>+\<close> read as a space and
  percent-encoded UTF-8 of one code unit below 256 decoded.
\<close>

fun url_decode :: "string \<Rightarrow> string" where
  "url_decode (a # h1 # h2 # b # k1 # k2 # s) =
     (if a = CHR ''%'' then
        (case (hex_val h1, hex_val h2) of
           (Some x, Some y) \<Rightarrow>
             (if x * 16 + y < 128 then char_of (x * 16 + y) # url_decode (b # k1 # k2 # s)
              else case (b = CHR ''%'', hex_val k1, hex_val k2) of
                (True, Some u, Some v) \<Rightarrow> char_of ((x * 16 + y) mod 32 * 64 + (u * 16 + v) mod 64) # url_decode s
              | _ \<Rightarrow> a # url_decode (h1 # h2 # b # k1 # k2 # s))
         | _ \<Rightarrow> a # url_decode (h1 # h2 # b # k1 # k2 # s))
      else (if a = CHR ''+'' then CHR '' '' else a) # url_decode (h1 # h2 # b # k1 # k2 # s))"
| "url_decode (a # s) =
     (case s of
        h1 # h2 # t \<Rightarrow>
          (case (a = CHR ''%'', hex_val h1, hex_val h2) of
             (True, Some x, Some y) \<Rightarrow> char_of (x * 16 + y) # t
           | _ \<Rightarrow> (if a = CHR ''+'' then CHR '' '' else a) # url_decode s)
      | _ \<Rightarrow> (if a = CHR ''+'' then CHR '' '' else a) # url_decode s)"
| "url_decode [] = []"

definition url_pair :: "string \<Rightarrow> string \<times> string" where
  "url_pair w = (url_decode (takeWhile (\<lambda>c. c \<noteq> CHR ''='') w), url_decode (drop 1 (dropWhile (\<lambda>c. c \<noteq> CHR ''='') w)))"

definition search_get :: "string \<Rightarrow> string \<Rightarrow> string option" where
  "search_get q k = al_get (map url_pair (filter (\<lambda>w. w \<noteq> []) (split_on (CHR ''&'') q))) k"

text \<open>The fake owner approves at once: the group appears with me as a member.\<close>

definition joined_group :: "Identity \<Rightarrow> string \<Rightarrow> FakeGroup" where
  "joined_group me name =
     \<lparr>fg_name = name, fg_ownerFp = ''fp-owner-1122334455667788'', fg_version = 1,
      fg_memberList = [\<lparr>gm_fp = ''fp-owner-1122334455667788'', gm_name = ''Group owner'', gm_agents = None\<rparr>,
                       \<lparr>gm_fp = idn_fp me, gm_name = idn_name me, gm_agents = None\<rparr>],
      fg_entries = [], fg_unread = 0,
      fg_profile = spread_profile defaultProfile [(''join'', JStr ''apply''), (''public'', JBool True)],
      fg_pins = [], fg_applications = [], fg_applicationSeeded = True\<rparr>"

definition fake_groups_apply :: "Env \<Rightarrow> string \<Rightarrow> (FakeNet, string) net_call" where
  "fake_groups_apply env uri n =
     (case fn_identity n of
        None \<Rightarrow> (no_identity, n)
      | Some me \<Rightarrow>
          (if \<not> startsWith uri ''soulmirror://group?'' then (net_error ''not a group link'' badCard, n)
           else (let q = drop (length ''soulmirror://group?'') uri;
                     gid = (case search_get q ''gid'' of Some g \<Rightarrow> g | None \<Rightarrow> ''fake'' @ take 28 (filter (\<lambda>c. c \<noteq> CHR ''-'') (env_uuid env)));
                     name = (case search_get q ''name'' of Some x \<Rightarrow> x | None \<Rightarrow> ''joined group'')
                 in (Inr gid, fake_emit (NGroupUpdate gid) (set_group gid (joined_group me name) n)))))"

text \<open>The fake backend as a \<open>NetworkClient\<close>; it has no directory, and no public group cards.\<close>

definition fake_presence :: "string list \<Rightarrow> FakeNet \<Rightarrow> NetworkError + (string, bool) al" where
  "fake_presence fps n =
     Inr (map (\<lambda>f. (f, case al_get (fn_friends n) f of Some x \<Rightarrow> fr_online x = Some True | None \<Rightarrow> False)) fps)"

definition fake_client :: "FakeNet NetworkClient" where
  "fake_client =
     \<lparr>nc_identity = (\<lambda>n. Inr (fn_identity n)), nc_parseCard = fake_parseCard, nc_friends_list = fake_friends_list,
      nc_friends_add = fake_friends_add, nc_groups_list = fake_groups_list, nc_groups_info = fake_groups_info,
      nc_groups_send = fake_groups_send, nc_groups_conversation = fake_groups_conversation,
      nc_groups_setProfile = fake_groups_setProfile, nc_groups_lookup = (\<lambda>_ _. Inr None),
      nc_groups_apply = (\<lambda>env uri note payment. fake_groups_apply env uri), nc_directory_fetch = (\<lambda>_ _. Inr None),
      nc_directory_publish = (\<lambda>n. (Inr (), n)), nc_profile_get = (\<lambda>_. Inr None), nc_profile_save = (\<lambda>_ n. (Inr (), n)),
      nc_presence = fake_presence, nc_send = fake_send, nc_conversation = fake_conversation, nc_peerTyping = (\<lambda>_ _. False)\<rparr>"

section \<open>The archive\<close>

definition contiguous :: "ConversationEntry list \<Rightarrow> bool" where
  "contiguous es \<longleftrightarrow> map ce_seq es = map (\<lambda>i. int i + 1) [0..<length es]"

definition net_wf :: "FakeNet \<Rightarrow> bool" where
  "net_wf n \<longleftrightarrow> (\<forall>peer. contiguous (thread_of n peer)) \<and> (\<forall>gid g. al_get (fn_groups n) gid = Some g \<longrightarrow> contiguous (fg_entries g))"

lemma contiguous_Nil [simp]: "contiguous []"
  by (simp add: contiguous_def)

lemma contiguous_snoc: "contiguous es \<Longrightarrow> ce_seq e = int (length es) + 1 \<Longrightarrow> contiguous (es @ [e])"
  by (simp add: contiguous_def)

lemma contiguous_nth: "contiguous es \<Longrightarrow> i < length es \<Longrightarrow> ce_seq (es ! i) = int i + 1"
  unfolding contiguous_def by (metis (no_types, lifting) add_cancel_left_left length_map length_upt minus_nat.diff_0 nth_map nth_upt)

lemma contiguous_since:
  assumes "contiguous es" "0 \<le> q"
  shows "filter (\<lambda>e. ce_seq e > q) es = drop (nat q) es"
  using assms
proof (induction es rule: rev_induct)
  case (snoc e es)
  have c: "contiguous es" and e: "ce_seq e = int (length es) + 1"
    using snoc.prems(1) by (simp_all add: contiguous_def)
  have ih: "filter (\<lambda>e. ce_seq e > q) es = drop (nat q) es" by (rule snoc.IH [OF c snoc.prems(2)])
  show ?case
  proof (cases "nat q \<le> length es")
    case True
    then have "q < ce_seq e" using e by simp
    then show ?thesis using ih True by simp
  next
    case False
    then have "\<not> q < ce_seq e" using e by simp
    then show ?thesis using ih False by simp
  qed
qed simp

lemma page_last:
  assumes "contiguous (es @ [e])"
  shows "archive_page (Some (ce_seq e - 1)) (Some 1) (es @ [e]) = [e]"
proof -
  have q: "ce_seq e = int (length es) + 1" using assms by (simp add: contiguous_def)
  show ?thesis using contiguous_since [OF assms, of "ce_seq e - 1"] q by (simp add: archive_page_def)
qed

lemma fake_archive_simps:
  "thread_of (snd (fake_archive peer e n)) = (thread_of n)(peer := thread_of n peer @ [fst (fake_archive peer e n)])"
  "fn_groups (snd (fake_archive peer e n)) = fn_groups n"
  "ce_seq (fst (fake_archive peer e n)) = int (length (thread_of n peer)) + 1"
  "fst (fake_archive peer e n) = e\<lparr>ce_seq := int (length (thread_of n peer)) + 1\<rparr>"
  by (auto simp: fake_archive_def thread_of_def fun_eq_iff Let_def split: option.splits)

lemma thread_of_cong: "fn_conversations n' = fn_conversations n \<Longrightarrow> thread_of n' = thread_of n"
  by (simp add: thread_of_def fun_eq_iff)

lemma fake_frame [simp]:
  "fn_conversations (fake_emit ev n) = fn_conversations n" "fn_groups (fake_emit ev n) = fn_groups n"
  "fn_conversations (fake_later t n) = fn_conversations n" "fn_groups (fake_later t n) = fn_groups n"
  "fn_conversations (set_group gid g n) = fn_conversations n" "fn_groups (set_group gid g n) = al_set gid g (fn_groups n)"
  by (simp_all add: fake_emit_def fake_later_def set_group_def)

lemma net_wf_cong: "net_wf n \<Longrightarrow> fn_conversations n' = fn_conversations n \<Longrightarrow> fn_groups n' = fn_groups n \<Longrightarrow> net_wf n'"
  by (simp add: net_wf_def thread_of_cong [of n' n])

lemma net_wf_archive: "net_wf n \<Longrightarrow> net_wf (snd (fake_archive peer e n))"
  unfolding net_wf_def fake_archive_simps(1,2) by (auto simp: contiguous_snoc fake_archive_simps(3))

lemma net_wf_group: "net_wf n \<Longrightarrow> contiguous (fg_entries g) \<Longrightarrow> net_wf (set_group gid g n)"
  by (auto simp: net_wf_def thread_of_cong [of "set_group gid g n" n])

lemma net_wf_emit [simp]: "net_wf (fake_emit ev n) = net_wf n" "net_wf (fake_later t n) = net_wf n"
  by (simp_all add: net_wf_def thread_of_def)

lemma net_wf_entries: "net_wf n \<Longrightarrow> al_get (fn_groups n) gid = Some g \<Longrightarrow> contiguous (fg_entries g)"
  by (simp add: net_wf_def)

lemma net_wf_seed: "net_wf n \<Longrightarrow> net_wf (seedApplication gid n)"
  by (auto simp: seedApplication_def Let_def intro!: net_wf_group dest: net_wf_entries split: option.splits)

datatype fake_call =
    CSend Env string string bool
  | CTick Env
  | CSubscribe int
  | CDispose
  | CCreateIdentity string
  | CFriendsAdd string "string option"
  | CFriendsAccept string "string option"
  | CFriendsReject string
  | CFriendsSet string "string option" "string option"
  | CFriendsRemove string
  | CMarkRead string
  | CGroupsCreate Env string "string list" "GroupProfile option"
  | CGroupsSend Env string string GroupSendOptions
  | CGroupsMarkRead string
  | CGroupsLeave string
  | CGroupsKick string string
  | CGroupsSetProfile string GroupProfile
  | CGroupsPin Env string string
  | CGroupsUnpin string string
  | CGroupsApprove string string
  | CGroupsApplicationReject string string
  | CGroupsInvite string string
  | CGroupsApply Env string

fun fake_step :: "fake_call \<Rightarrow> FakeNet \<Rightarrow> FakeNet" where
  "fake_step (CSend env to body auto) n = snd (fake_send env to body auto n)"
| "fake_step (CTick env) n = fake_tick env n"
| "fake_step (CSubscribe d) n = fake_subscribe d n"
| "fake_step CDispose n = fake_dispose n"
| "fake_step (CCreateIdentity name) n = snd (fake_createIdentity name n)"
| "fake_step (CFriendsAdd uri r) n = snd (fake_friends_add uri r n)"
| "fake_step (CFriendsAccept i r) n = snd (fake_friends_accept i r n)"
| "fake_step (CFriendsReject i) n = snd (fake_friends_reject i n)"
| "fake_step (CFriendsSet i r p) n = snd (fake_friends_set i r p n)"
| "fake_step (CFriendsRemove i) n = snd (fake_friends_remove i n)"
| "fake_step (CMarkRead i) n = snd (fake_markRead i n)"
| "fake_step (CGroupsCreate env name ms p) n = snd (fake_groups_create env name ms p n)"
| "fake_step (CGroupsSend env gid body opts) n = snd (fake_groups_send env gid body opts n)"
| "fake_step (CGroupsMarkRead gid) n = snd (fake_groups_markRead gid n)"
| "fake_step (CGroupsLeave gid) n = snd (fake_groups_leave gid n)"
| "fake_step (CGroupsKick gid t) n = snd (fake_groups_kick gid t n)"
| "fake_step (CGroupsSetProfile gid p) n = snd (fake_groups_setProfile gid p n)"
| "fake_step (CGroupsPin env gid b) n = snd (fake_groups_pin env gid b n)"
| "fake_step (CGroupsUnpin gid i) n = snd (fake_groups_unpin gid i n)"
| "fake_step (CGroupsApprove gid t) n = snd (fake_groups_approve gid t n)"
| "fake_step (CGroupsApplicationReject gid t) n = snd (fake_groups_applicationReject gid t n)"
| "fake_step (CGroupsInvite gid t) n = snd (fake_groups_invite gid t n)"
| "fake_step (CGroupsApply env uri) n = snd (fake_groups_apply env uri n)"

definition fake_run :: "bool \<Rightarrow> fake_call list \<Rightarrow> FakeNet" where
  "fake_run hasNoIdentity calls = fold fake_step calls (createFake hasNoIdentity)"

lemma net_wf_with_group:
  "net_wf n \<Longrightarrow> (\<And>g. net_wf n \<Longrightarrow> al_get (fn_groups n) gid = Some g \<Longrightarrow> contiguous (fg_entries g) \<Longrightarrow> net_wf (snd (f g n))) \<Longrightarrow>
   net_wf (snd (with_group gid f n))"
  by (auto simp: with_group_def dest: net_wf_entries split: option.splits)

lemma net_wf_changed: "net_wf n \<Longrightarrow> contiguous (fg_entries g) \<Longrightarrow> net_wf (snd (group_changed gid g n))"
  by (simp add: group_changed_def net_wf_group)

lemma net_wf_deliver: "net_wf n \<Longrightarrow> net_wf (fake_deliver env from body auto n)"
  using net_wf_archive [of n "from" "in_entry (mid env) body (env_now env) auto"]
  by (simp add: fake_deliver_def Let_def split_def)

lemma net_wf_fire: "net_wf n \<Longrightarrow> net_wf (fake_fire env t n)"
proof (cases t)
  case (FakeGroupEcho gid other body)
  moreover assume "net_wf n"
  ultimately show ?thesis
    by (auto simp: group_echo_def Let_def intro!: net_wf_group contiguous_snoc dest: net_wf_entries split: option.splits)
next
  case (FakeApplication gid)
  moreover assume "net_wf n"
  ultimately show ?thesis by (auto intro!: net_wf_group dest: net_wf_entries split: option.splits)
qed (simp_all add: net_wf_deliver)

lemma net_wf_send: "net_wf n \<Longrightarrow> net_wf (snd (fake_send env to body auto n))"
  using net_wf_archive [of n to "out_entry 0 (mid env) body (env_now env) ''sent'' auto"]
  by (simp add: fake_send_def Let_def split_def)

lemma net_wf_groups_send: "net_wf n \<Longrightarrow> net_wf (snd (fake_groups_send env gid body opts n))"
  by (auto simp: fake_groups_send_def Let_def group_entry_def out_entry_def
      intro!: net_wf_group contiguous_snoc dest: net_wf_entries split: option.splits)

lemma net_wf_create: "net_wf n \<Longrightarrow> net_wf (snd (fake_groups_create env name ms p n))"
  by (auto simp: fake_groups_create_def Let_def new_group_def intro!: net_wf_seed net_wf_group split: option.splits)

lemma net_wf_setProfile: "net_wf n \<Longrightarrow> net_wf (snd (fake_groups_setProfile gid p n))"
  unfolding fake_groups_setProfile_def
  by (erule net_wf_with_group) (auto simp: group_changed_def Let_def intro!: net_wf_seed net_wf_group)

lemma net_wf_leave: "net_wf n \<Longrightarrow> net_wf (snd (fake_groups_leave gid n))"
  unfolding fake_groups_leave_def
  by (erule net_wf_with_group) (auto simp: net_wf_def thread_of_def)

lemma net_wf_pinSeq [simp]: "net_wf (n\<lparr>fn_pinSeq := k\<rparr>) = net_wf n"
  by (simp add: net_wf_def thread_of_def)

lemma net_wf_admin:
  "net_wf n \<Longrightarrow> net_wf (snd (fake_groups_kick gid t n))"
  "net_wf n \<Longrightarrow> net_wf (snd (fake_groups_unpin gid i n))"
  "net_wf n \<Longrightarrow> net_wf (snd (fake_groups_applicationReject gid t n))"
  "net_wf n \<Longrightarrow> net_wf (snd (fake_groups_markRead gid n))"
  unfolding fake_groups_kick_def fake_groups_unpin_def fake_groups_applicationReject_def fake_groups_markRead_def
  by (erule net_wf_with_group, simp add: net_wf_changed net_wf_group)+

lemma net_wf_admin':
  "net_wf n \<Longrightarrow> net_wf (snd (fake_groups_pin env gid b n))"
  "net_wf n \<Longrightarrow> net_wf (snd (fake_groups_approve gid t n))"
  "net_wf n \<Longrightarrow> net_wf (snd (fake_groups_invite gid t n))"
  unfolding fake_groups_pin_def fake_groups_approve_def fake_groups_invite_def
  by (erule net_wf_with_group, simp add: net_wf_changed Let_def admit_def split: option.splits)+

lemma net_wf_friends:
  assumes "net_wf n"
  shows "net_wf (snd (fake_createIdentity name n))" "net_wf (snd (fake_friends_add uri r n))"
    "net_wf (snd (fake_friends_accept i r n))" "net_wf (snd (fake_friends_reject i n))"
    "net_wf (snd (fake_friends_set i r p n))" "net_wf (snd (fake_friends_remove i n))" "net_wf (snd (fake_markRead i n))"
    "net_wf (fake_subscribe d n)" "net_wf (fake_dispose n)"
  unfolding fake_createIdentity_def fake_friends_add_def fake_friends_accept_def fake_friends_reject_def
    fake_friends_set_def fake_friends_remove_def fake_markRead_def fake_subscribe_def fake_dispose_def
  by (auto simp: Let_def assms intro!: net_wf_cong [OF assms] split: option.splits)

lemma net_wf_step: "net_wf n \<Longrightarrow> net_wf (fake_step c n)"
proof (cases c)
  case (CTick env)
  moreover assume w: "net_wf n"
  have "net_wf (n\<lparr>fn_timers := ts\<rparr>)" for ts by (rule net_wf_cong [OF w]) simp_all
  ultimately show ?thesis using w by (auto simp: fake_tick_def net_wf_fire split: list.splits)
next
  case (CGroupsApply env uri)
  moreover assume "net_wf n"
  ultimately show ?thesis
    by (auto simp: fake_groups_apply_def Let_def joined_group_def intro!: net_wf_group split: option.splits)
qed (simp_all add: net_wf_send net_wf_groups_send net_wf_create net_wf_setProfile net_wf_leave net_wf_admin net_wf_admin' net_wf_friends)

lemma net_wf_run: "net_wf (fake_run b calls)"
proof -
  have "net_wf n \<Longrightarrow> net_wf (fold fake_step calls n)" for n
    by (induction calls arbitrary: n) (auto simp: net_wf_step)
  moreover have "net_wf (createFake b)" by (simp add: net_wf_def createFake_def thread_of_def)
  ultimately show ?thesis by (simp add: fake_run_def)
qed

section \<open>The archive contract and its client\<close>

text \<open>
  What \<open>sendAndArchive\<close> relies on: a send that succeeds is archived as the newest entry of the
  conversation, under the seq of its receipt; a send that fails archives nothing.
\<close>

locale archive_client =
  fixes client :: "'n NetworkClient"
    and ok :: "'n \<Rightarrow> bool"
  assumes send_archives: "ok n \<Longrightarrow> nc_send client env to body auto n = (Inr r, n') \<Longrightarrow>
      \<exists>q e. sr_seq r = Some q \<and> 0 < q \<and> nc_conversation client to (Some (q - 1)) (Some 1) n' = Inr [e] \<and>
        ce_seq e = q \<and> ce_dir e = Out \<and> ce_id e = sr_id r \<and> ce_body e = body \<and> ce_auto e = auto"
    and send_keeps: "ok n \<Longrightarrow> nc_send client env to body auto n = (r', n') \<Longrightarrow> ok n'"
    and send_fails: "nc_send client env to body auto n = (Inl err, n') \<Longrightarrow> n' = n"
begin

lemma sendAndArchive_archived:
  assumes "ok n" "sendAndArchive client env to body auto n = (Inr (e, r), n')"
  shows "nc_send client env to body auto n = (Inr r, n') \<and> ok n' \<and> sr_seq r = Some (ce_seq e) \<and>
    nc_conversation client to (Some (ce_seq e - 1)) (Some 1) n' = Inr [e] \<and>
    ce_dir e = Out \<and> ce_id e = sr_id r \<and> ce_body e = body \<and> ce_auto e = auto"
proof -
  obtain res m where snd: "nc_send client env to body auto n = (res, m)" by (cases "nc_send client env to body auto n")
  show ?thesis
  proof (cases res)
    case (Inl err)
    then show ?thesis using assms(2) snd by (simp add: sendAndArchive_def)
  next
    case (Inr r')
    then have s: "nc_send client env to body auto n = (Inr r', m)" using snd by simp
    from send_archives [OF assms(1) s] obtain q d where
      d: "sr_seq r' = Some q" "0 < q" "nc_conversation client to (Some (q - 1)) (Some 1) m = Inr [d]"
        "ce_seq d = q" "ce_dir d = Out" "ce_id d = sr_id r'" "ce_body d = body" "ce_auto d = auto" by blast
    have "e = d" "r = r'" "n' = m"
      using assms(2) s d by (auto simp: sendAndArchive_def read_back_def)
    then show ?thesis using s d send_keeps [OF assms(1) s] by simp
  qed
qed

lemma sendAndArchive_error:
  assumes "sendAndArchive client env to body auto n = (Inl err, n')"
  shows "nc_send client env to body auto n = (Inl err, n') \<and> n' = n"
  using assms send_fails [of env to body auto n] by (auto simp: sendAndArchive_def split: sum.splits prod.splits)

end

lemma fake_send_ok:
  assumes "fake_send env to body auto n = (Inr r, n')"
  obtains e where "thread_of n' to = thread_of n to @ [e]" "sr_seq r = Some (ce_seq e)" "ce_seq e = int (length (thread_of n to)) + 1"
    "ce_dir e = Out" "ce_id e = sr_id r" "ce_body e = body" "ce_auto e = auto"
proof -
  let ?o = "out_entry 0 (mid env) body (env_now env) ''sent'' auto"
  have r: "r = \<lparr>sr_id = mid env, sr_seq = Some (ce_seq (fst (fake_archive to ?o n))), sr_status = ''sent''\<rparr>"
    and n': "thread_of n' to = thread_of (snd (fake_archive to ?o n)) to"
    using assms
    by (auto simp: fake_send_def no_identity_def net_error_def Let_def split_def thread_of_def split: if_splits)
  show thesis
    by (rule that [of "fst (fake_archive to ?o n)"])
      (simp_all add: r n' fake_archive_simps(1) fake_archive_simps(4) out_entry_def)
qed

lemma fake_send_archives:
  assumes "net_wf n" "fake_send env to body auto n = (Inr r, n')"
  shows "\<exists>q e. sr_seq r = Some q \<and> 0 < q \<and> fake_conversation to (Some (q - 1)) (Some 1) n' = Inr [e] \<and>
    ce_seq e = q \<and> ce_dir e = Out \<and> ce_id e = sr_id r \<and> ce_body e = body \<and> ce_auto e = auto"
proof -
  obtain e where e: "thread_of n' to = thread_of n to @ [e]" "sr_seq r = Some (ce_seq e)" "ce_seq e = int (length (thread_of n to)) + 1"
    "ce_dir e = Out" "ce_id e = sr_id r" "ce_body e = body" "ce_auto e = auto" by (rule fake_send_ok [OF assms(2)])
  have "contiguous (thread_of n to @ [e])" using assms(1) e(3) by (simp add: net_wf_def contiguous_snoc)
  from page_last [OF this] have "fake_conversation to (Some (ce_seq e - 1)) (Some 1) n' = Inr [e]"
    by (simp add: fake_conversation_def e(1))
  then show ?thesis using e by auto
qed

interpretation fk: archive_client fake_client net_wf
proof
  show "\<exists>q e. sr_seq r = Some q \<and> 0 < q \<and> nc_conversation fake_client to (Some (q - 1)) (Some 1) n' = Inr [e] \<and>
      ce_seq e = q \<and> ce_dir e = Out \<and> ce_id e = sr_id r \<and> ce_body e = body \<and> ce_auto e = auto"
    if "net_wf n" "nc_send fake_client env to body auto n = (Inr r, n')" for n env to body auto r n'
    using fake_send_archives [of n env to body auto r n'] that by (simp add: fake_client_def)
  show "net_wf n'" if "net_wf n" "nc_send fake_client env to body auto n = (r', n')" for n env to body auto r' n'
    using net_wf_send [of n env to body auto] that by (simp add: fake_client_def)
  show "n' = n" if "nc_send fake_client env to body auto n = (Inl err, n')" for env to body auto n err n'
    using that by (auto simp: fake_client_def fake_send_def Let_def split_def split: if_splits)
qed

lemma archived_thread:
  assumes "net_wf n" "sendAndArchive fake_client env to body auto n = (Inr (e, r), n')"
  shows "thread_of n' to = thread_of n to @ [e]"
proof -
  note a = fk.sendAndArchive_archived [OF assms]
  have s: "fake_send env to body auto n = (Inr r, n')" and q: "sr_seq r = Some (ce_seq e)"
    and c: "fake_conversation to (Some (ce_seq e - 1)) (Some 1) n' = Inr [e]"
    using a by (simp_all add: fake_client_def)
  obtain d where d: "thread_of n' to = thread_of n to @ [d]" "sr_seq r = Some (ce_seq d)" "ce_seq d = int (length (thread_of n to)) + 1"
    by (rule fake_send_ok [OF s])
  have "contiguous (thread_of n to @ [d])" using assms(1) d(3) by (simp add: net_wf_def contiguous_snoc)
  from page_last [OF this] c d q have "d = e" by (simp add: fake_conversation_def)
  then show ?thesis using d(1) by simp
qed

text \<open>
  Conversation archives are gapless and a send answers the entry it archived. Whatever calls the
  in-memory backend has served: every conversation and every group archive is numbered 1, 2, 3 and
  so on; reading since a seq returns exactly what came after it; and a send through
  \<open>sendAndArchive\<close> that succeeds appends exactly the entry it answers (outbound, with the body, the
  auto flag and the id and seq of the receipt), one that fails changes nothing.
\<close>

theorem send_answers_archived_entry:
  assumes "sendAndArchive fake_client env to body auto (fake_run b calls) = (res, n')"
  shows "contiguous (thread_of (fake_run b calls) peer) \<and>
    (\<forall>gid g. al_get (fn_groups (fake_run b calls)) gid = Some g \<longrightarrow> contiguous (fg_entries g)) \<and>
    (\<forall>q \<ge> 0. archive_page (Some q) None (thread_of (fake_run b calls) peer) = drop (nat q) (thread_of (fake_run b calls) peer)) \<and>
    (case res of
       Inr (e, r) \<Rightarrow> thread_of n' to = thread_of (fake_run b calls) to @ [e] \<and> ce_dir e = Out \<and> ce_body e = body \<and>
         ce_auto e = auto \<and> ce_id e = sr_id r \<and> sr_seq r = Some (ce_seq e)
     | Inl err \<Rightarrow> n' = fake_run b calls)"
proof -
  note w = net_wf_run [of b calls]
  have c: "contiguous (thread_of (fake_run b calls) peer)" using w by (simp add: net_wf_def)
  have r: "case res of
       Inr (e, r) \<Rightarrow> thread_of n' to = thread_of (fake_run b calls) to @ [e] \<and> ce_dir e = Out \<and> ce_body e = body \<and>
         ce_auto e = auto \<and> ce_id e = sr_id r \<and> sr_seq r = Some (ce_seq e)
     | Inl err \<Rightarrow> n' = fake_run b calls"
  proof (cases res)
    case (Inl err)
    then show ?thesis using fk.sendAndArchive_error assms by auto
  next
    case (Inr p)
    then obtain e r where "res = Inr (e, r)" by (cases p) auto
    then show ?thesis
      using archived_thread [OF w] fk.sendAndArchive_archived [OF w] assms by auto
  qed
  have "\<forall>gid g. al_get (fn_groups (fake_run b calls)) gid = Some g \<longrightarrow> contiguous (fg_entries g)"
    using w by (simp add: net_wf_def)
  moreover have "\<forall>q \<ge> 0. archive_page (Some q) None (thread_of (fake_run b calls) peer) = drop (nat q) (thread_of (fake_run b calls) peer)"
    by (simp add: archive_page_def contiguous_since [OF c])
  ultimately show ?thesis using c r by blast
qed

theorem send_answers_archived_entry_witness:
  "length (thread_of (snd (sendAndArchive fake_client \<lparr>env_now = 7, env_uuid = ''u''\<rparr> ALICE_FP ''hi'' False (fake_run False []))) ALICE_FP) = 1"
proof -
  let ?env = "\<lparr>env_now = 7, env_uuid = ''u''\<rparr>" and ?n = "fake_run False []"
  obtain res n' where s: "sendAndArchive fake_client ?env ALICE_FP ''hi'' False ?n = (res, n')"
    by (cases "sendAndArchive fake_client ?env ALICE_FP ''hi'' False ?n")
  have i: "fn_identity ?n \<noteq> None" "al_get (fn_friends ?n) ALICE_FP \<noteq> None" "thread_of ?n ALICE_FP = []"
    by (simp_all add: fake_run_def createFake_def FAKE_FRIENDS_def plain_friend_def thread_of_def)
  have "\<exists>r m. fake_send ?env ALICE_FP ''hi'' False ?n = (Inr r, m)"
    using i by (auto simp: fake_send_def Let_def split_def)
  then obtain e r where "res = Inr (e, r)" using s by (auto simp: sendAndArchive_def fake_client_def)
  then show ?thesis using send_answers_archived_entry [OF s, of ALICE_FP] s i(3) by simp
qed

end
