(* ===== verification/Session_Messages.thy ===== *)
theory Session_Messages
  imports Alter_State Network Drafts
begin

text \<open>
  The messages the sessions plugin writes into the alter's and the agents' logs
  (\<^verbatim>\<open>src/dsh/packages/dsh/src/sessions/index.ts\<close>, \<open>userMessageFor\<close>, \<open>groupMessageFor\<close>,
  \<open>ownerMessageFor\<close>, \<open>noteMessageFor\<close>), as the JSON data of a \<open>user/message\<close> event. Lemmas: the
  folds of \<open>alter-state.ts\<close> read each of them back as what it was written for, so a turn woken by a
  friend, a group, an automatic reply or the owner is attributed to exactly that.
\<close>

definition text_content :: "string \<Rightarrow> json" where
  "text_content t = JArr [JObj [(''type'', JStr ''text''), (''text'', JStr t)]]"

definition user_message :: "string \<Rightarrow> string \<Rightarrow> json \<Rightarrow> json" where
  "user_message uuid t source =
     JObj [(''id'', JStr uuid), (''role'', JStr ''user''), (''content'', text_content t), (''source'', source)]"

definition relay_source :: "string \<Rightarrow> (string \<times> json) list \<Rightarrow> json" where
  "relay_source sender a2a =
     JObj [(''kind'', JStr ''plugin''), (''plugin'', JStr SOULMIRROR_PLUGIN), (''form'', JStr RELAY_FORM),
           (''senderSessionId'', JStr sender), (''a2a'', JObj a2a)]"

definition auto_field :: "bool \<Rightarrow> (string \<times> json) list" where
  "auto_field auto = opt_field ''auto'' (if auto then Some (JBool True) else None)"

definition base_meta :: "InboundMessage \<Rightarrow> (string \<times> json) list" where
  "base_meta m = [(''id'', JStr (im_id m)), (''fp'', JStr (im_from m)), (''ts'', JNum (Fin (of_int (im_ts m))))]"

abbreviation dq :: string where "dq \<equiv> [CHR 0x22]"

definition attachment_text :: "InboundMessage \<Rightarrow> string" where
  "attachment_text m =
     (case im_artifactPath m of
        None \<Rightarrow> []
      | Some p \<Rightarrow> [lf] @ ''[attachment: '' @ (case im_artifactName m of None \<Rightarrow> ''file'' | Some a \<Rightarrow> a) @ '' at '' @ p @ '']'')"

definition userMessageFor :: "string \<Rightarrow> InboundMessage \<Rightarrow> string \<Rightarrow> json" where
  "userMessageFor uuid m displayName =
     user_message uuid
       (''[SoulMirror A2A inbound] from friend '' @ dq @ displayName @ dq @ '' (fingerprint '' @ im_from m @ '')'' @
        (if im_auto m then '' (peer auto-reply)'' else []) @ '':'' @ [lf] @ im_body m @ attachment_text m)
       (relay_source displayName (base_meta m @ auto_field (im_auto m) @ opt_field ''type'' (map_option JStr (im_type m))))"

definition present :: "string option \<Rightarrow> string option" where
  "present s = (if s = Some [] then None else s)"

definition voice_text :: "InboundMessage \<Rightarrow> string" where
  "voice_text m =
     (if im_by m = Some ''alter'' then
        (case present (im_agent m) of
           Some a \<Rightarrow> [CHR 0x27] @ ''s agent '' @ dq @ a @ dq
         | None \<Rightarrow> [CHR 0x27] @ ''s alter'')
      else [])"

definition groupMessageFor :: "string \<Rightarrow> InboundMessage \<Rightarrow> string \<Rightarrow> string \<Rightarrow> json" where
  "groupMessageFor uuid m gid groupName =
     user_message uuid
       (''[SoulMirror A2A inbound] group '' @ dq @ groupName @ dq @ '' (gid '' @ gid @ '') from '' @ dq @ im_name m @ dq @ voice_text m @
        '' (fingerprint '' @ im_from m @ '')'' @ (if im_auto m then '' (automatic post)'' else []) @ '':'' @ [lf] @ im_body m)
       (relay_source (im_name m @ '' in '' @ groupName)
         (base_meta m @ [(''gid'', JStr gid)] @ auto_field (im_auto m) @ opt_field ''by'' (map_option JStr (present (im_by m))) @
          opt_field ''agent'' (map_option JStr (present (im_agent m))) @ opt_field ''type'' (map_option JStr (im_type m))))"

definition ownerMessageFor :: "string \<Rightarrow> string \<Rightarrow> json" where
  "ownerMessageFor uuid t = user_message uuid t (JObj [(''kind'', JStr ''user'')])"

datatype A2ANoteKind = DraftApproved | DraftRejected | DraftRevise

definition note_str :: "A2ANoteKind \<Rightarrow> string" where
  "note_str k = (case k of DraftApproved \<Rightarrow> ''draft-approved'' | DraftRejected \<Rightarrow> ''draft-rejected'' | DraftRevise \<Rightarrow> ''draft-revise'')"

definition noteMessageFor :: "Env \<Rightarrow> A2ANoteKind \<Rightarrow> PendingDraft \<Rightarrow> string \<Rightarrow> json" where
  "noteMessageFor env note draft t =
     user_message (env_uuid env) (''[SoulMirror note] '' @ t)
       (relay_source ''SoulMirror''
         [(''id'', JStr (''note-'' @ env_uuid env)), (''fp'', JStr (d_fp draft)), (''ts'', JNum (Fin (of_int (env_now env)))),
          (''note'', JStr (note_str note)), (''draftId'', JStr (d_id draft))])"

section \<open>Reading the messages back\<close>

lemma source_of_message [simp]: "jprop (Some (user_message u t s)) ''source'' = Some s"
  by (simp add: user_message_def)

lemma content_of_message [simp]: "jprop (Some (user_message u t s)) ''content'' = Some (text_content t)"
  by (simp add: user_message_def)

lemma textOf_content [simp]: "textOf (Some (text_content t)) = trim t"
  by (cases "t = []") (simp_all add: textOf_def text_content_def block_text_def)

lemma relay_source_props [simp]:
  "jprop (Some (relay_source n a)) ''kind'' = Some (JStr ''plugin'')"
  "jprop (Some (relay_source n a)) ''plugin'' = Some (JStr SOULMIRROR_PLUGIN)"
  "jprop (Some (relay_source n a)) ''form'' = Some (JStr RELAY_FORM)"
  "jprop (Some (relay_source n a)) ''senderSessionId'' = Some (JStr n)"
  "jprop (Some (relay_source n a)) ''a2a'' = Some (JObj a)"
  by (simp_all add: relay_source_def)

lemma auto_field_lookup [simp]:
  "map_of (auto_field b @ r) ''auto'' = (if b then Some (JBool True) else map_of r ''auto'')"
  "k \<noteq> ''auto'' \<Longrightarrow> map_of (auto_field b @ r) k = map_of r k"
  by (simp_all add: auto_field_def)

lemma classify_owner_message [simp]: "classifyUserMessage (Some (ownerMessageFor u t)) = COwner"
  by (simp add: classifyUserMessage_def ownerMessageFor_def)

lemma relay_of_message:
  "relayMetaOf (Some (user_message u t (relay_source n a))) = Some
     \<lparr>rm_fp = as_str (map_of a ''fp''), rm_id = as_str (map_of a ''id''), rm_ts = num_or (map_of a ''ts'') 0, rm_name = n,
      rm_auto = is_true (map_of a ''auto''), rm_type = str_opt (map_of a ''type''),
      rm_gid = nonempty_opt (as_str (map_of a ''gid'')), rm_by = nonempty_opt (as_str (map_of a ''by'')),
      rm_agent = nonempty_opt (as_str (map_of a ''agent'')), rm_note = str_opt (map_of a ''note''),
      rm_draftId = str_opt (map_of a ''draftId'')\<rparr>"
  by (simp add: relayMetaOf_def Let_def)

lemma classify_relay:
  "classifyUserMessage (Some (user_message u t (relay_source n a))) =
     (case relayMetaOf (Some (user_message u t (relay_source n a))) of
        Some relay \<Rightarrow> (if rm_note relay \<noteq> None then CNote relay
                 else if rm_gid relay \<noteq> None then CGroup relay
                 else if rm_auto relay then CInboundAuto relay else CInbound relay)
      | None \<Rightarrow> COther)"
  by (simp add: classifyUserMessage_def relay_of_message)

lemma classify_mail:
  "\<exists>r. classifyUserMessage (Some (userMessageFor u m dn)) = (if im_auto m then CInboundAuto r else CInbound r) \<and>
     rm_fp r = im_from m \<and> rm_name r = dn \<and> rm_id r = im_id m"
  by (simp add: userMessageFor_def classify_relay relay_of_message base_meta_def del: map_of_append)

lemma classify_group:
  "gid \<noteq> [] \<Longrightarrow> \<exists>r. classifyUserMessage (Some (groupMessageFor u m gid g)) = CGroup r \<and>
     rm_fp r = im_from m \<and> rm_gid r = Some gid \<and> rm_id r = im_id m"
  by (simp add: groupMessageFor_def classify_relay relay_of_message base_meta_def del: map_of_append)

lemma classify_note: "\<exists>r. classifyUserMessage (Some (noteMessageFor env k d t)) = CNote r"
  by (auto simp: noteMessageFor_def classify_relay relay_of_message)

end
