(* ===== verification/Sessions.thy ===== *)
theory Sessions
  imports Session_Messages Friend_Settings Group_Settings Agent_Registry Memory_Store
begin

text \<open>
  The sessions plugin, \<^verbatim>\<open>src/dsh/packages/dsh/src/sessions/index.ts\<close>: one session for the alter, sessions
  per seat agent and group, routing of inbound mail and group messages into them, conversation
  receipts, drafts and their decision. The plugin's closure variables are the record
  \<open>SessionsState\<close>, what it does to the outside (messages put into a session, events for the page,
  signals to a group) is the list \<open>ss_out\<close>. The host (\<open>ctx.agents\<close>, \<open>ctx.sessions\<close>) is a parameter:
  which sessions are live, whether a resume or a creation succeeds, and the logs. Every handler runs
  to completion; log lines are left out.
\<close>

section \<open>State\<close>

record group_view =
  gv_name :: string
  gv_profile :: GroupProfileView

record receipt =
  rc_myAgent :: string
  rc_fp :: string
  rc_token :: string
  rc_ts :: int

record reply_watch =
  rw_gid :: string
  rw_groupName :: string
  rw_nudged :: bool

text \<open>A corrective message whose delivery is put off to after the running event (\<open>setTimeout\<close> 0).\<close>

record nudge =
  nu_sessionId :: string
  nu_gid :: string
  nu_groupName :: string
  nu_message :: json

datatype draft_decision_kind = WasApproved | WasRejected | WasRevise

datatype SessionsEvent =
    EOutbound string "string option" ConversationEntry
  | EDraftAdded PendingDraft
  | EDraftRemoved PendingDraft draft_decision_kind
  | EMemoryExtracting "string option"
  | EMemoryExtracted nat "(string \<times> string) list option"

datatype session_action =
    Followup string json
  | AppendMessage string json
  | Emit SessionsEvent
  | PublishAlter
  | PublishAgent string
  | SetTitle string string
  | HideSession string
  | GroupTyping string bool string
  | AnnounceVoices string "string list"

record SessionsState =
  ss_alterId :: "string option"
  ss_legacy :: "(string, string) al"
  ss_friendsByFp :: "(string, Friend) al"
  ss_groupsByGid :: "(string, group_view) al"
  ss_unreadByFp :: "(string, int) al"
  ss_agentSessionIds :: "(string, string) al"
  ss_agentGroupSessionIds :: "(string, (string, string) al) al"
  ss_groupWorkTyping :: "string list"
  ss_groupReplyWatch :: "(string, reply_watch) al"
  ss_nudges :: "nudge list"
  ss_awaitReply :: "(string, receipt list) al"
  ss_autoReplies :: HourlyWindow
  ss_ownerName :: string
  ss_myFp :: string
  ss_friendSettings :: FriendSettingsStore
  ss_drafts :: DraftStore
  ss_groupSettings :: GroupSettingsStore
  ss_agents :: AgentRegistryStore
  ss_memory :: MemoryStore
  ss_defaultTier :: ReplyTier
  ss_mapFile :: unknown
  ss_unreadInTitle :: bool
  ss_disposed :: bool
  ss_out :: "session_action list"

definition new_SessionsState :: "ReplyTier \<Rightarrow> bool \<Rightarrow> unknown \<Rightarrow> unknown \<Rightarrow> unknown \<Rightarrow> unknown \<Rightarrow> unknown \<Rightarrow> SessionsState" where
  "new_SessionsState tier inTitle friendsFile draftsFile groupsFile agentsFile mapFile =
     \<lparr>ss_alterId = None, ss_legacy = [], ss_friendsByFp = [], ss_groupsByGid = [], ss_unreadByFp = [], ss_agentSessionIds = [],
      ss_agentGroupSessionIds = [], ss_groupWorkTyping = [], ss_groupReplyWatch = [], ss_nudges = [], ss_awaitReply = [],
      ss_autoReplies = new_window HOUR_MS, ss_ownerName = [], ss_myFp = [],
      ss_friendSettings = new_FriendSettingsStore friendsFile, ss_drafts = new_DraftStore draftsFile,
      ss_groupSettings = new_GroupSettingsStore groupsFile, ss_agents = new_AgentRegistryStore agentsFile,
      ss_memory = new_MemoryStore, ss_defaultTier = tier, ss_mapFile = mapFile, ss_unreadInTitle = inTitle, ss_disposed = False,
      ss_out = []\<rparr>"

text \<open>The host's side of a session id: its live agent, its log, whether resume and create work.\<close>

record Host =
  ho_live :: "string \<Rightarrow> bool"
  ho_resume :: "string \<Rightarrow> bool"
  ho_race :: "string \<Rightarrow> bool"
  ho_create :: "string \<Rightarrow> bool"
  ho_sessionId :: "string \<Rightarrow> string option"
  ho_running :: "string \<Rightarrow> bool"
  ho_events :: "string \<Rightarrow> EventLike list option"

datatype session_error =
    HostFailed
  | DraftNotPending string
  | EmptyBody
  | EmptyFeedback
  | EmptyInstruction
  | NoSeatAgent string
  | IsOwnersName string
  | BadAgent agent_set_error
  | NetFailed NetworkError

definition act :: "session_action \<Rightarrow> SessionsState \<Rightarrow> SessionsState" where
  "act a s = s\<lparr>ss_out := ss_out s @ [a]\<rparr>"

section \<open>Names, tiers, unread\<close>

definition displayNameOf :: "Friend option \<Rightarrow> string \<Rightarrow> string" where
  "displayNameOf f fallback =
     (case f of None \<Rightarrow> fallback | Some x \<Rightarrow> (case fr_remark x of Some r \<Rightarrow> r | None \<Rightarrow> fr_name x))"

definition nameOf :: "SessionsState \<Rightarrow> string \<Rightarrow> string" where
  "nameOf s fp = displayNameOf (al_get (ss_friendsByFp s) fp) fp"

definition sess_unreadTotal :: "SessionsState \<Rightarrow> int" where
  "sess_unreadTotal s = sum_list (map snd (ss_unreadByFp s))"

definition ALTER_SESSION_TITLE :: string where
  "ALTER_SESSION_TITLE = ''My alter '' @ [CHR 0xB7] @ '' SoulMirror''"

definition renameSession :: "string \<Rightarrow> SessionsState \<Rightarrow> SessionsState" where
  "renameSession sid s =
     (let n = sess_unreadTotal s in
      act (SetTitle sid (if ss_unreadInTitle s \<and> n > 0 then ALTER_SESSION_TITLE @ '' ('' @ show_int n @ '')'' else ALTER_SESSION_TITLE)) s)"

definition sess_tierOf :: "SessionsState \<Rightarrow> string \<Rightarrow> ReplyTier" where
  "sess_tierOf s fp = fss_tier (ss_friendSettings s) fp (ss_defaultTier s)"

definition sess_triggerOf :: "Host \<Rightarrow> string \<Rightarrow> TurnTrigger" where
  "sess_triggerOf host sid = (case ho_events host sid of None \<Rightarrow> UNKNOWN_TRIGGER | Some evs \<Rightarrow> triggerOf evs)"

definition sess_unread :: "SessionsState \<Rightarrow> string \<Rightarrow> int" where
  "sess_unread s fp = (case al_get (ss_unreadByFp s) fp of None \<Rightarrow> 0 | Some n \<Rightarrow> n)"

section \<open>The session map file\<close>

definition str_map_json :: "(string, string) al \<Rightarrow> json" where
  "str_map_json m = JObj (map (\<lambda>(k, v). (k, JStr v)) m)"

definition session_map_json :: "SessionsState \<Rightarrow> json" where
  "session_map_json s =
     (let groupSessions = filter (\<lambda>(a, m). m \<noteq> []) (ss_agentGroupSessionIds s) in
      JObj (opt_field ''alterSessionId'' (map_option JStr (ss_alterId s)) @
            opt_field ''agentSessions'' (if ss_agentSessionIds s = [] then None else Some (str_map_json (ss_agentSessionIds s))) @
            opt_field ''agentGroupSessions'' (if groupSessions = [] then None
              else Some (JObj (map (\<lambda>(a, m). (a, str_map_json m)) groupSessions))) @
            opt_field ''legacyFriendSessions'' (if ss_legacy s = [] then None else Some (str_map_json (ss_legacy s)))))"

definition persistMap :: "SessionsState \<Rightarrow> SessionsState" where
  "persistMap s = s\<lparr>ss_mapFile := Some (session_map_json s)\<rparr>"

text \<open>Reading the file at start: only non-empty strings are session ids.\<close>

fun ids_loop :: "(string \<times> json) list \<Rightarrow> (string, string) al \<Rightarrow> (string, string) al" where
  "ids_loop [] out = out"
| "ids_loop ((k, JStr v) # kvs) out = ids_loop kvs (if v = [] then out else al_set k v out)"
| "ids_loop (_ # kvs) out = ids_loop kvs out"

fun group_ids_loop :: "(string \<times> json) list \<Rightarrow> (string, (string, string) al) al \<Rightarrow> (string, (string, string) al) al" where
  "group_ids_loop [] out = out"
| "group_ids_loop ((a, v) # kvs) out =
     (if \<not> is_object (Some v) then group_ids_loop kvs out
      else (let m = ids_loop (obj_entries (Some v)) [] in
            group_ids_loop kvs (if m = [] then out else al_set a m out)))"

definition legacy_of :: "unknown \<Rightarrow> (string, string) al" where
  "legacy_of raw =
     (let old = (if jprop raw ''legacyFriendSessions'' = None \<or> jprop raw ''legacyFriendSessions'' = Some JNull
                 then jprop raw ''sessions'' else jprop raw ''legacyFriendSessions'')
      in List.map_filter (\<lambda>(k, v). map_option (Pair k) (str_opt (Some v))) (obj_entries old))"

definition loadMap :: "SessionsState \<Rightarrow> SessionsState" where
  "loadMap s =
     (let raw = ss_mapFile s in
      if raw = None then s
      else s\<lparr>ss_alterId := (case str_opt (jprop raw ''alterSessionId'') of
                  Some a \<Rightarrow> (if a = [] then ss_alterId s else Some a) | None \<Rightarrow> ss_alterId s),
             ss_agentSessionIds := (if is_object (jprop raw ''agentSessions'')
                then ids_loop (obj_entries (jprop raw ''agentSessions'')) (ss_agentSessionIds s) else ss_agentSessionIds s),
             ss_agentGroupSessionIds := (if is_object (jprop raw ''agentGroupSessions'')
                then group_ids_loop (obj_entries (jprop raw ''agentGroupSessions'')) (ss_agentGroupSessionIds s)
                else ss_agentGroupSessionIds s),
             ss_legacy := (if legacy_of raw = [] then ss_legacy s else legacy_of raw)\<rparr>)"

section \<open>Creating and resuming sessions\<close>

definition create_alter :: "Host \<Rightarrow> Env \<Rightarrow> SessionsState \<Rightarrow> (session_error + string) \<times> SessionsState" where
  "create_alter host env s =
     (let sid = ''session-'' @ env_uuid env in
      if ho_create host sid then (Inr sid, renameSession sid (persistMap (s\<lparr>ss_alterId := Some sid\<rparr>)))
      else (Inl HostFailed, s))"

definition ensureAlterInner :: "Host \<Rightarrow> Env \<Rightarrow> SessionsState \<Rightarrow> (session_error + string) \<times> SessionsState" where
  "ensureAlterInner host env s =
     (case ss_alterId s of
        None \<Rightarrow> create_alter host env s
      | Some a \<Rightarrow>
          (if ho_live host a then (Inr a, s)
           else if ho_resume host a then (Inr a, renameSession a s)
           else if ho_race host a then (Inr a, s)
           else create_alter host env (s\<lparr>ss_alterId := None\<rparr>)))"

definition ensureAlter :: "Host \<Rightarrow> Env \<Rightarrow> SessionsState \<Rightarrow> (session_error + string) \<times> SessionsState" where
  "ensureAlter host env s =
     (case ensureAlterInner host env s of
        (Inr a, s') \<Rightarrow> (Inr a, case ss_alterId s' of None \<Rightarrow> s' | Some i \<Rightarrow> act (HideSession i) s')
      | (Inl e, s') \<Rightarrow> (Inl e, s'))"

type_synonym session_group = "(string \<times> string) option"

definition known_session :: "SeatAgent \<Rightarrow> session_group \<Rightarrow> SessionsState \<Rightarrow> string option" where
  "known_session seat g s =
     (case g of
        None \<Rightarrow> al_get (ss_agentSessionIds s) (sa_name seat)
      | Some (gid, _) \<Rightarrow> (case al_get (ss_agentGroupSessionIds s) (sa_name seat) of None \<Rightarrow> None | Some m \<Rightarrow> al_get m gid))"

definition remember_session :: "SeatAgent \<Rightarrow> session_group \<Rightarrow> string \<Rightarrow> SessionsState \<Rightarrow> SessionsState" where
  "remember_session seat g sid s =
     (case g of
        None \<Rightarrow> s\<lparr>ss_agentSessionIds := al_set (sa_name seat) sid (ss_agentSessionIds s)\<rparr>
      | Some (gid, _) \<Rightarrow>
          (let m = (case al_get (ss_agentGroupSessionIds s) (sa_name seat) of None \<Rightarrow> [] | Some m \<Rightarrow> m)
           in s\<lparr>ss_agentGroupSessionIds := al_set (sa_name seat) (al_set gid sid m) (ss_agentGroupSessionIds s)\<rparr>))"

definition forget_session :: "SeatAgent \<Rightarrow> session_group \<Rightarrow> SessionsState \<Rightarrow> SessionsState" where
  "forget_session seat g s =
     (case g of
        None \<Rightarrow> s\<lparr>ss_agentSessionIds := al_del (sa_name seat) (ss_agentSessionIds s)\<rparr>
      | Some (gid, _) \<Rightarrow>
          (case al_get (ss_agentGroupSessionIds s) (sa_name seat) of
             None \<Rightarrow> s
           | Some m \<Rightarrow> s\<lparr>ss_agentGroupSessionIds := al_set (sa_name seat) (al_del gid m) (ss_agentGroupSessionIds s)\<rparr>))"

definition agent_title :: "SeatAgent \<Rightarrow> session_group \<Rightarrow> string" where
  "agent_title seat g =
     sa_name seat @ '' '' @ [CHR 0xB7] @ '' '' @ (case g of None \<Rightarrow> ''SoulMirror'' | Some (_, name) \<Rightarrow> name)"

definition create_agent :: "Host \<Rightarrow> Env \<Rightarrow> SeatAgent \<Rightarrow> session_group \<Rightarrow> SessionsState \<Rightarrow> (session_error + string) \<times> SessionsState" where
  "create_agent host env seat g s =
     (let sid = ''session-'' @ env_uuid env in
      if ho_create host sid
      then (Inr sid, act (SetTitle sid (agent_title seat g)) (persistMap (remember_session seat g sid s)))
      else (Inl HostFailed, s))"

definition ensureAgentSession :: "Host \<Rightarrow> Env \<Rightarrow> SeatAgent \<Rightarrow> session_group \<Rightarrow> SessionsState \<Rightarrow> (session_error + string) \<times> SessionsState" where
  "ensureAgentSession host env seat g s =
     (case known_session seat g s of
        None \<Rightarrow> create_agent host env seat g s
      | Some k \<Rightarrow>
          (if ho_live host k then (Inr k, s)
           else if ho_resume host k then (Inr k, act (SetTitle k (agent_title seat g)) s)
           else if ho_race host k then (Inr k, s)
           else create_agent host env seat g (forget_session seat g s)))"

section \<open>Inbound mail\<close>

definition noteFriend :: "Friend \<Rightarrow> SessionsState \<Rightarrow> SessionsState" where
  "noteFriend f s = s\<lparr>ss_friendsByFp := al_set (fr_fp f) f (ss_friendsByFp s)\<rparr>"

text \<open>The cached friend, or the peer's list; \<open>Inl\<close> when the list cannot be read.\<close>

definition find_friend :: "'n NetworkClient \<Rightarrow> 'n \<Rightarrow> string \<Rightarrow> SessionsState \<Rightarrow> NetworkError + Friend option" where
  "find_friend client n fp s =
     (case al_get (ss_friendsByFp s) fp of
        Some f \<Rightarrow> Inr (Some f)
      | None \<Rightarrow> (case nc_friends_list client n of Inl e \<Rightarrow> Inl e | Inr fs \<Rightarrow> Inr (find (\<lambda>f. fr_fp f = fp) fs)))"

definition route_mail :: "Env \<Rightarrow> string \<Rightarrow> InboundMessage \<Rightarrow> Friend option \<Rightarrow> SessionsState \<Rightarrow> SessionsState" where
  "route_mail env sid m friend s =
     (let s1 = s\<lparr>ss_unreadByFp := al_set (im_from m) (sess_unread s (im_from m) + 1) (ss_unreadByFp s)\<rparr>;
          r = routeInbound \<lparr>ri_tier = sess_tierOf s1 (im_from m), ri_auto = im_auto m, ri_isFriend = (friend \<noteq> None)\<rparr>;
          msg = userMessageFor (env_uuid env) m (displayNameOf friend (im_name m));
          s2 = act (if route_action r = Wake then Followup sid msg else AppendMessage sid msg) s1
      in act PublishAlter (renameSession sid s2))"

text \<open>
  A handler draws the clock and a random identifier several times: \<open>envs i\<close> is its \<open>i\<close>-th draw.
\<close>

type_synonym draws = "nat \<Rightarrow> Env"

definition deliver :: "'n NetworkClient \<Rightarrow> 'n \<Rightarrow> Host \<Rightarrow> draws \<Rightarrow> InboundMessage \<Rightarrow> SessionsState \<Rightarrow> (session_error + unit) \<times> SessionsState" where
  "deliver client n host envs m s =
     (case find_friend client n (im_from m) s of
        Inl e \<Rightarrow> (Inl (NetFailed e), s)
      | Inr friend \<Rightarrow>
          (let s1 = (case friend of None \<Rightarrow> s | Some f \<Rightarrow> noteFriend f s) in
           case ensureAlter host (envs 0) s1 of
             (Inl e, s2) \<Rightarrow> (Inl e, s2)
           | (Inr sid, s2) \<Rightarrow> (Inr (), route_mail (envs 1) sid m friend s2)))"

section \<open>Groups\<close>

definition refreshOwner :: "'n NetworkClient \<Rightarrow> 'n \<Rightarrow> SessionsState \<Rightarrow> SessionsState" where
  "refreshOwner client n s =
     (case nc_identity client n of
        Inr (Some i) \<Rightarrow> s\<lparr>ss_ownerName := (if idn_name i \<noteq> [] then idn_name i else ss_ownerName s), ss_myFp := idn_fp i\<rparr>
      | _ \<Rightarrow> s)"

definition group_view_of :: "GroupInfo \<Rightarrow> group_view" where
  "group_view_of g = \<lparr>gv_name = gi_name g, gv_profile = profileOf g\<rparr>"

definition refreshGroups :: "'n NetworkClient \<Rightarrow> 'n \<Rightarrow> SessionsState \<Rightarrow> (session_error + unit) \<times> SessionsState" where
  "refreshGroups client n s =
     (case nc_groups_list client n of
        Inl e \<Rightarrow> (Inl (NetFailed e), s)
      | Inr gs \<Rightarrow> (Inr (), s\<lparr>ss_groupsByGid := fold (\<lambda>g. al_set (gi_gid g) (group_view_of g)) gs []\<rparr>))"

definition groupOf :: "'n NetworkClient \<Rightarrow> 'n \<Rightarrow> string \<Rightarrow> SessionsState \<Rightarrow> group_view option \<times> SessionsState" where
  "groupOf client n gid s =
     (case al_get (ss_groupsByGid s) gid of
        Some g \<Rightarrow> (Some g, s)
      | None \<Rightarrow>
          (case nc_groups_info client gid n of
             Inl _ \<Rightarrow> (None, s)
           | Inr info \<Rightarrow> (Some (group_view_of info), s\<lparr>ss_groupsByGid := al_set gid (group_view_of info) (ss_groupsByGid s)\<rparr>)))"

text \<open>Conversation receipts: who owes which of my agents an answer.\<close>

definition AWAIT_REPLY_MS :: int where "AWAIT_REPLY_MS = 30 * 60000"

definition fresh_receipts :: "int \<Rightarrow> string \<Rightarrow> SessionsState \<Rightarrow> receipt list" where
  "fresh_receipts now gid s =
     filter (\<lambda>w. now - rc_ts w < AWAIT_REPLY_MS) (case al_get (ss_awaitReply s) gid of None \<Rightarrow> [] | Some l \<Rightarrow> l)"

definition same_receipt :: "string \<Rightarrow> string \<Rightarrow> string \<Rightarrow> receipt \<Rightarrow> bool" where
  "same_receipt name fp token w \<longleftrightarrow> rc_myAgent w = name \<and> rc_fp w = fp \<and> toLowerCase (rc_token w) = toLowerCase token"

definition add_receipt :: "int \<Rightarrow> string \<Rightarrow> string \<times> string \<Rightarrow> receipt list \<Rightarrow> receipt list" where
  "add_receipt now name e l =
     (if list_ex (same_receipt name (fst e) (snd e)) l then l
      else l @ [\<lparr>rc_myAgent = name, rc_fp = fst e, rc_token = snd e, rc_ts = now\<rparr>])"

definition add_receipts :: "int \<Rightarrow> string \<Rightarrow> (string \<times> string) list \<Rightarrow> receipt list \<Rightarrow> receipt list" where
  "add_receipts now name es l = fold (add_receipt now name) es l"

definition noteAwaitReply :: "int \<Rightarrow> string \<Rightarrow> string \<Rightarrow> (string \<times> string) list \<Rightarrow> SessionsState \<Rightarrow> SessionsState" where
  "noteAwaitReply now gid name expects s =
     (if expects = [] then s
      else s\<lparr>ss_awaitReply := al_set gid (add_receipts now name expects (fresh_receipts now gid s)) (ss_awaitReply s)\<rparr>)"

definition answers_receipt :: "InboundMessage \<Rightarrow> receipt \<Rightarrow> bool" where
  "answers_receipt m w \<longleftrightarrow> rc_fp w = im_from m \<and>
     toLowerCase (rc_token w) \<in>
       set (map toLowerCase (filter (\<lambda>t. t \<noteq> []) [case im_agent m of None \<Rightarrow> [] | Some a \<Rightarrow> a, im_name m]))"

definition takeAwaitedRepliers :: "int \<Rightarrow> string \<Rightarrow> InboundMessage \<Rightarrow> SessionsState \<Rightarrow> string list \<times> SessionsState" where
  "takeAwaitedRepliers now gid m s =
     (if im_by m \<noteq> Some ''alter'' then ([], s)
      else (let l = fresh_receipts now gid s in
            (rev (remdups (rev (map rc_myAgent (filter (answers_receipt m) l)))),
             s\<lparr>ss_awaitReply := al_set gid (filter (\<lambda>w. \<not> answers_receipt m w) l) (ss_awaitReply s)\<rparr>)))"

definition work_key :: "string \<Rightarrow> string \<Rightarrow> string" where
  "work_key name gid = name @ ''|'' @ gid"

definition noteGroupWorkStart :: "SeatAgent \<Rightarrow> string \<Rightarrow> SessionsState \<Rightarrow> SessionsState" where
  "noteGroupWorkStart seat gid s =
     (if work_key (sa_name seat) gid \<in> set (ss_groupWorkTyping s) then s
      else act (GroupTyping gid True (sa_name seat))
             (s\<lparr>ss_groupWorkTyping := ss_groupWorkTyping s @ [work_key (sa_name seat) gid]\<rparr>))"

text \<open>Waking one seat agent with a group message; \<open>watch\<close> arms the reply check.\<close>

definition wake_worker :: "Host \<Rightarrow> draws \<Rightarrow> SeatAgent \<Rightarrow> string \<Rightarrow> string \<Rightarrow> InboundMessage \<Rightarrow> bool \<Rightarrow> SessionsState \<Rightarrow> (session_error + unit) \<times> SessionsState" where
  "wake_worker host envs seat gid groupName m watch s =
     (case ensureAgentSession host (envs 0) seat (Some (gid, groupName)) s of
        (Inl e, s1) \<Rightarrow> (Inl e, s1)
      | (Inr sid, s1) \<Rightarrow>
          (let s2 = act (Followup sid (groupMessageFor (env_uuid (envs 1)) m gid groupName)) s1;
               s3 = (if watch then s2\<lparr>ss_groupReplyWatch := al_set sid \<lparr>rw_gid = gid, rw_groupName = groupName, rw_nudged = False\<rparr> (ss_groupReplyWatch s2)\<rparr> else s2)
           in (Inr (), act (PublishAgent (sa_name seat)) (noteGroupWorkStart seat gid s3))))"

definition later_draws :: "draws \<Rightarrow> draws" where
  "later_draws envs = (\<lambda>i. envs (i + 2))"

definition seat_route :: "SessionsState \<Rightarrow> string \<Rightarrow> group_view \<Rightarrow> InboundMessage \<Rightarrow> SeatAgent \<Rightarrow> GroupWakeRoute" where
  "seat_route s gid g m seat =
     wakeAgentForGroup
       \<lparr>awi_speakAgents = gpv_speakAgents (gv_profile g), awi_enabled = voiceOn (ss_groupSettings s) gid (sa_name seat),
        awi_fromSelf = False, awi_wake = gpv_agentWake (gv_profile g), awi_duty = (dutyOf (ss_groupSettings s) gid = Some (sa_name seat)),
        awi_mentioned = mentionsAgent (im_body m) (sa_name seat),
        awi_commander = (\<exists>c \<in> set (commandersOf (ss_groupSettings s) gid (sa_name seat)). c = COMMANDER_ANY \<or> c = im_from m)\<rparr>"

definition awaited_wake :: "SessionsState \<Rightarrow> string \<Rightarrow> group_view \<Rightarrow> string list \<Rightarrow> SeatAgent \<Rightarrow> bool" where
  "awaited_wake s gid g awaited seat \<longleftrightarrow> sa_name seat \<in> set awaited \<and> voiceOn (ss_groupSettings s) gid (sa_name seat) \<and> gpv_speakAgents (gv_profile g)"

fun wake_seats :: "Host \<Rightarrow> draws \<Rightarrow> string \<Rightarrow> group_view \<Rightarrow> InboundMessage \<Rightarrow> string list \<Rightarrow> SeatAgent list \<Rightarrow> SessionsState \<Rightarrow> (session_error + unit) \<times> SessionsState" where
  "wake_seats host envs gid g m awaited [] s = (Inr (), s)"
| "wake_seats host envs gid g m awaited (seat # seats) s =
     (if awaited_wake s gid g awaited seat \<or> gw_wake (seat_route s gid g m seat) then
        (case wake_worker host envs seat gid (gv_name g) m (\<not> awaited_wake s gid g awaited seat) s of
           (Inl e, s') \<Rightarrow> (Inl e, s')
         | (Inr _, s') \<Rightarrow> wake_seats host (later_draws envs) gid g m awaited seats s')
      else wake_seats host (later_draws envs) gid g m awaited seats s)"

definition alter_route :: "SessionsState \<Rightarrow> string \<Rightarrow> group_view \<Rightarrow> InboundMessage \<Rightarrow> GroupWakeRoute" where
  "alter_route s gid g m =
     wakeForGroup
       \<lparr>gwi_speakAgents = gpv_speakAgents (gv_profile g), gwi_enabled = alterOn (ss_groupSettings s) gid, gwi_fromSelf = False,
        gwi_wake = gpv_agentWake (gv_profile g), gwi_myMode = Some (modeOf (ss_groupSettings s) gid),
        gwi_mentioned = mentionsMe (im_body m) (ss_ownerName s)\<rparr>"

definition wake_alter :: "Host \<Rightarrow> draws \<Rightarrow> string \<Rightarrow> group_view \<Rightarrow> InboundMessage \<Rightarrow> SessionsState \<Rightarrow> (session_error + unit) \<times> SessionsState" where
  "wake_alter host envs gid g m s =
     (if \<not> gw_wake (alter_route s gid g m) then (Inr (), s)
      else case ensureAlter host (envs 0) s of
             (Inl e, s1) \<Rightarrow> (Inl e, s1)
           | (Inr sid, s1) \<Rightarrow> (Inr (), act PublishAlter (act (Followup sid (groupMessageFor (env_uuid (envs 1)) m gid (gv_name g))) s1)))"

definition with_owner :: "'n NetworkClient \<Rightarrow> 'n \<Rightarrow> SessionsState \<Rightarrow> SessionsState" where
  "with_owner client n s = (if ss_myFp s = [] then refreshOwner client n s else s)"

definition deliverGroup :: "'n NetworkClient \<Rightarrow> 'n \<Rightarrow> Host \<Rightarrow> draws \<Rightarrow> string \<Rightarrow> InboundMessage \<Rightarrow> SessionsState \<Rightarrow> (session_error + unit) \<times> SessionsState" where
  "deliverGroup client n host envs gid m s =
     (let s0 = with_owner client n s in
      if im_from m = ss_myFp s0 then (Inr (), s0)
      else case groupOf client n gid s0 of
        (None, s1) \<Rightarrow> (Inr (), s1)
      | (Some g, s1) \<Rightarrow>
          (case wake_alter host envs gid g m s1 of
             (Inl e, s2) \<Rightarrow> (Inl e, s2)
           | (Inr _, s2) \<Rightarrow>
               (let (awaited, s3) = takeAwaitedRepliers (env_now (envs 1)) gid m s2
                in wake_seats host (later_draws envs) gid g m awaited (ar_list (ss_agents s3)) s3)))"

definition own_post :: "Env \<Rightarrow> string \<Rightarrow> SessionsState \<Rightarrow> InboundMessage" where
  "own_post env body s =
     \<lparr>im_id = ''own-'' @ env_uuid env, im_from = ss_myFp s, im_name = (if ss_ownerName s \<noteq> [] then ss_ownerName s else ''the owner''),
      im_body = body, im_ts = env_now env, im_seq = None, im_auto = False, im_by = None, im_agent = None, im_type = None,
      im_artifactPath = None, im_artifactName = None\<rparr>"

fun wake_named :: "Host \<Rightarrow> draws \<Rightarrow> string \<Rightarrow> group_view \<Rightarrow> string \<Rightarrow> SeatAgent list \<Rightarrow> SessionsState \<Rightarrow> (session_error + unit) \<times> SessionsState" where
  "wake_named host envs gid g body [] s = (Inr (), s)"
| "wake_named host envs gid g body (seat # seats) s =
     (if mentionsAgent body (sa_name seat) then
        (case wake_worker host (later_draws envs) seat gid (gv_name g) (own_post (envs 0) body s) True s of
           (Inl e, s') \<Rightarrow> (Inl e, s')
         | (Inr _, s') \<Rightarrow> wake_named host (later_draws (later_draws envs)) gid g body seats s')
      else wake_named host (later_draws (later_draws envs)) gid g body seats s)"

definition ownGroupPost :: "'n NetworkClient \<Rightarrow> 'n \<Rightarrow> Host \<Rightarrow> draws \<Rightarrow> string \<Rightarrow> string \<Rightarrow> SessionsState \<Rightarrow> (session_error + unit) \<times> SessionsState" where
  "ownGroupPost client n host envs gid body s =
     (let s0 = with_owner client n s in
      case groupOf client n gid s0 of
        (None, s1) \<Rightarrow> (Inr (), s1)
      | (Some g, s1) \<Rightarrow>
          (if \<not> gpv_speakAgents (gv_profile g) then (Inr (), s1)
           else wake_named host envs gid g body (ar_list (ss_agents s1)) s1))"

section \<open>Voices\<close>

datatype voice = AlterVoice | AgentVoice SeatAgent

definition voice_of_name :: "SessionsState \<Rightarrow> string \<Rightarrow> voice option" where
  "voice_of_name s name = map_option AgentVoice (ar_get (ss_agents s) name)"

definition session_names_of :: "SessionsState \<Rightarrow> (string \<times> string) list" where
  "session_names_of s =
     ss_agentSessionIds s @ concat (map (\<lambda>(name, byGid). map (\<lambda>(gid, i). (name, i)) byGid) (ss_agentGroupSessionIds s))"

text \<open>The names, in map order, with that session; the first one still registered is the voice.\<close>

definition session_names :: "SessionsState \<Rightarrow> string \<Rightarrow> string \<Rightarrow> string list" where
  "session_names s sid raw = map fst (filter (\<lambda>(name, i). i = sid \<or> i = raw) (session_names_of s))"

fun first_voice :: "SessionsState \<Rightarrow> string list \<Rightarrow> voice option" where
  "first_voice s [] = None"
| "first_voice s (name # names) = (case voice_of_name s name of Some v \<Rightarrow> Some v | None \<Rightarrow> first_voice s names)"

definition voiceOf :: "Host \<Rightarrow> string \<Rightarrow> SessionsState \<Rightarrow> voice option" where
  "voiceOf host raw s =
     (let sid = (case ho_sessionId host raw of None \<Rightarrow> raw | Some i \<Rightarrow> i) in
      if ss_alterId s \<noteq> None \<and> (Some sid = ss_alterId s \<or> Some raw = ss_alterId s) then Some AlterVoice
      else first_voice s (session_names s sid raw))"

definition announceVoices :: "string \<Rightarrow> SessionsState \<Rightarrow> SessionsState" where
  "announceVoices gid s =
     act (AnnounceVoices gid (map sa_name (filter (\<lambda>a. voiceOn (ss_groupSettings s) gid (sa_name a)) (ar_list (ss_agents s))))) s"

definition announceAllGroups :: "SessionsState \<Rightarrow> SessionsState" where
  "announceAllGroups s = fold announceVoices (map fst (ss_groupsByGid s)) s"

definition agentsInfo :: "Host \<Rightarrow> SessionsState \<Rightarrow> (string \<times> string option \<times> bool) list" where
  "agentsInfo host s =
     map (\<lambda>seat. let sid = al_get (ss_agentSessionIds s) (sa_name seat);
                     gids = (case al_get (ss_agentGroupSessionIds s) (sa_name seat) of None \<Rightarrow> [] | Some m \<Rightarrow> map snd m)
                 in (sa_name seat, sid, \<exists>i \<in> set (case sid of None \<Rightarrow> gids | Some i \<Rightarrow> i # gids). ho_running host i))
       (ar_list (ss_agents s))"

section \<open>A sample installation\<close>

text \<open>A fresh plugin, and a host on which every session can be created and the given logs are open.\<close>

definition fresh_sessions :: SessionsState where
  "fresh_sessions = new_SessionsState Draft True None None None None None"

definition open_host :: "(string \<Rightarrow> EventLike list option) \<Rightarrow> Host" where
  "open_host logs =
     \<lparr>ho_live = (\<lambda>i. logs i \<noteq> None), ho_resume = (\<lambda>_. False), ho_race = (\<lambda>_. False), ho_create = (\<lambda>_. True),
      ho_sessionId = (\<lambda>_. None), ho_running = (\<lambda>_. False), ho_events = logs\<rparr>"

definition sample_draws :: draws where
  "sample_draws i = \<lparr>env_now = 1000 + int i, env_uuid = ''u'' @ show_nat i\<rparr>"

section \<open>What a step puts into the sessions\<close>

text \<open>
  What a list of actions does to sessions: a message put into one, with whether its agent is woken
  by it, and the seat agents whose state is published.
\<close>

datatype observation = Put bool string json | Shown string

fun puts :: "session_action list \<Rightarrow> observation list" where
  "puts [] = []"
| "puts (Followup sid m # as) = Put True sid m # puts as"
| "puts (AppendMessage sid m # as) = Put False sid m # puts as"
| "puts (PublishAgent name # as) = Shown name # puts as"
| "puts (_ # as) = puts as"

lemma puts_append [simp]: "puts (xs @ ys) = puts xs @ puts ys"
  by (induction xs rule: puts.induct) auto

text \<open>What creating or resuming sessions does not touch.\<close>

definition outside_sessions :: "SessionsState \<Rightarrow> SessionsState" where
  "outside_sessions s =
     s\<lparr>ss_alterId := None, ss_agentSessionIds := [], ss_agentGroupSessionIds := [], ss_mapFile := None, ss_out := []\<rparr>"

definition adds :: "observation list \<Rightarrow> SessionsState \<Rightarrow> SessionsState \<Rightarrow> bool" where
  "adds ms s s' \<longleftrightarrow> (\<exists>xs. ss_out s' = ss_out s @ xs \<and> puts xs = ms)"

definition quietly :: "SessionsState \<Rightarrow> SessionsState \<Rightarrow> bool" where
  "quietly s s' \<longleftrightarrow> outside_sessions s' = outside_sessions s \<and> adds [] s s'"

lemma adds_refl [simp]: "adds [] s s"
  by (simp add: adds_def)

lemma adds_trans: "adds ms s s1 \<Longrightarrow> adds ks s1 s2 \<Longrightarrow> adds (ms @ ks) s s2"
  by (auto simp: adds_def)

lemma adds_act: "adds ms s s' \<Longrightarrow> adds (ms @ puts [a]) s (act a s')"
  by (auto simp: adds_def act_def)

lemma adds_out: "adds ms s s' \<Longrightarrow> ss_out s'' = ss_out s' \<Longrightarrow> adds ms s s''"
  by (simp add: adds_def)

lemma quietly_refl [simp]: "quietly s s"
  by (simp add: quietly_def)

lemma quietly_trans [trans]: "quietly s s1 \<Longrightarrow> quietly s1 s2 \<Longrightarrow> quietly s s2"
  using adds_trans [of "[]" s s1 "[]" s2] by (simp add: quietly_def)

lemma quietly_act: "quietly s s' \<Longrightarrow> puts [a] = [] \<Longrightarrow> quietly s (act a s')"
  using adds_act [of "[]" s s' a] by (simp add: quietly_def outside_sessions_def act_def)

lemma quietly_ids: "outside_sessions s' = outside_sessions s \<Longrightarrow> ss_out s' = ss_out s \<Longrightarrow> quietly s s'"
  by (simp add: quietly_def adds_def)

lemma quietly_rename: "quietly s s' \<Longrightarrow> quietly s (renameSession i s')"
  by (simp add: renameSession_def Let_def quietly_act)

lemma quietly_persist: "quietly s s' \<Longrightarrow> quietly s (persistMap s')"
  by (erule quietly_trans, rule quietly_ids) (simp_all add: persistMap_def outside_sessions_def)

lemma quietly_alter: "quietly s (s\<lparr>ss_alterId := a\<rparr>)"
  by (rule quietly_ids) (simp_all add: outside_sessions_def)

lemma create_alter_quietly: "create_alter host env s = (r, s') \<Longrightarrow> quietly s s'"
  by (auto simp: create_alter_def Let_def intro!: quietly_rename quietly_persist quietly_alter split: if_splits)

lemma ensureAlterInner_quietly: "ensureAlterInner host env s = (r, s') \<Longrightarrow> quietly s s'"
  by (auto simp: ensureAlterInner_def intro: quietly_rename quietly_trans [OF quietly_alter] dest: create_alter_quietly
      split: option.splits if_splits)

lemma ensureAlter_quietly: "ensureAlter host env s = (r, s') \<Longrightarrow> quietly s s'"
  by (auto simp: ensureAlter_def intro: quietly_act dest!: ensureAlterInner_quietly split: prod.splits sum.splits option.splits)

lemma remember_quietly: "quietly s (remember_session seat g sid s)"
  by (rule quietly_ids) (auto simp: remember_session_def outside_sessions_def Let_def split: option.splits)

lemma forget_quietly: "quietly s (forget_session seat g s)"
  by (rule quietly_ids) (auto simp: forget_session_def outside_sessions_def split: option.splits)

lemma create_agent_quietly: "create_agent host env seat g s = (r, s') \<Longrightarrow> quietly s s'"
  by (auto simp: create_agent_def Let_def intro!: quietly_act quietly_persist remember_quietly split: if_splits)

lemma ensureAgentSession_quietly: "ensureAgentSession host env seat g s = (r, s') \<Longrightarrow> quietly s s'"
  by (auto simp: ensureAgentSession_def intro: quietly_act quietly_trans [OF forget_quietly] dest: create_agent_quietly
      split: option.splits if_splits)

lemma create_alter_result: "create_alter host env s = (Inr sid, s') \<Longrightarrow> ss_alterId s' = Some sid"
  by (auto simp: create_alter_def Let_def renameSession_def act_def persistMap_def split: if_splits)

lemma ensureAlter_result:
  assumes "ensureAlter host env s = (Inr sid, s')"
  shows "ss_alterId s' = Some sid"
proof -
  obtain r s1 where i: "ensureAlterInner host env s = (r, s1)" by fastforce
  then have "r = Inr sid \<and> ss_alterId s' = ss_alterId s1"
    using assms by (auto simp: ensureAlter_def act_def split: sum.splits option.splits)
  moreover have "ss_alterId s1 = Some sid" if "r = Inr sid"
    using i that by (auto simp: ensureAlterInner_def renameSession_def act_def Let_def dest: create_alter_result split: option.splits if_splits)
  ultimately show ?thesis by simp
qed

lemma ensureAlter_total: "\<forall>i. ho_create host i \<Longrightarrow> \<exists>sid s'. ensureAlter host env s = (Inr sid, s')"
  by (auto simp: ensureAlter_def ensureAlterInner_def create_alter_def Let_def split: option.splits prod.splits sum.splits if_splits)

lemma quietly_fields:
  assumes "quietly s s'"
  shows "ss_unreadByFp s' = ss_unreadByFp s" "ss_friendSettings s' = ss_friendSettings s" "ss_groupSettings s' = ss_groupSettings s"
    "ss_agents s' = ss_agents s" "ss_drafts s' = ss_drafts s" "ss_autoReplies s' = ss_autoReplies s" "ss_awaitReply s' = ss_awaitReply s"
    "ss_friendsByFp s' = ss_friendsByFp s" "ss_groupsByGid s' = ss_groupsByGid s" "ss_defaultTier s' = ss_defaultTier s"
    "ss_myFp s' = ss_myFp s" "ss_ownerName s' = ss_ownerName s" "ss_groupReplyWatch s' = ss_groupReplyWatch s" "ss_nudges s' = ss_nudges s"
    "ss_memory s' = ss_memory s" "ss_groupWorkTyping s' = ss_groupWorkTyping s"
  using assms by (cases s; cases s'; simp add: quietly_def outside_sessions_def)+

section \<open>Mail\<close>

lemma route_mail_adds:
  "adds [Put (friend \<noteq> None \<and> \<not> im_auto m \<and> sess_tierOf s (im_from m) \<noteq> Notify) sid
          (userMessageFor (env_uuid env) m (displayNameOf friend (im_name m)))] s (route_mail env sid m friend s)"
  by (simp add: route_mail_def Let_def adds_def renameSession_def act_def routeInbound_def sess_tierOf_def)

lemma route_mail_fields:
  "ss_alterId (route_mail env sid m friend s) = ss_alterId s" "ss_drafts (route_mail env sid m friend s) = ss_drafts s"
  "sess_unread (route_mail env sid m friend s) fp = sess_unread s fp + (if fp = im_from m then 1 else 0)"
  by (simp_all add: route_mail_def Let_def renameSession_def act_def sess_unread_def)

lemma noteFriend_quiet:
  "adds [] s (case friend of None \<Rightarrow> s | Some f \<Rightarrow> noteFriend f s)"
  "sess_unread (case friend of None \<Rightarrow> s | Some f \<Rightarrow> noteFriend f s) = sess_unread s"
  "sess_tierOf (case friend of None \<Rightarrow> s | Some f \<Rightarrow> noteFriend f s) = sess_tierOf s"
  "ss_drafts (case friend of None \<Rightarrow> s | Some f \<Rightarrow> noteFriend f s) = ss_drafts s"
  by (auto simp: noteFriend_def adds_def sess_unread_def sess_tierOf_def fun_eq_iff split: option.splits)

lemma quietly_reads: "quietly s s' \<Longrightarrow> sess_unread s' = sess_unread s \<and> sess_tierOf s' = sess_tierOf s \<and> ss_drafts s' = ss_drafts s"
  by (simp add: quietly_fields sess_unread_def sess_tierOf_def fun_eq_iff)

text \<open>
  C9. Every mail reaches the alter exactly once and wakes it only when it may. Delivery succeeds
  whenever the friend is known or the friend list can be read and a session can be opened. It then
  puts exactly one message into a session, the alter's, carrying the mail; the alter is woken by it
  exactly when the sender is a friend, the mail is not flagged automatic, and the friend's tier is not
  \<open>notify\<close>; otherwise it is only added to the log. The sender's unread count grows by one and nobody
  else's. A delivery that fails puts no message anywhere and counts nothing.
\<close>

theorem mail_routing:
  assumes "deliver client n host envs m s = (res, s')"
  shows "((\<exists>friend. find_friend client n (im_from m) s = Inr friend) \<and> (\<forall>i. ho_create host i) \<longrightarrow> res = Inr ()) \<and>
    (res = Inr () \<longrightarrow> (\<exists>friend sid. find_friend client n (im_from m) s = Inr friend \<and> ss_alterId s' = Some sid \<and>
       adds [Put (friend \<noteq> None \<and> \<not> im_auto m \<and> sess_tierOf s (im_from m) \<noteq> Notify) sid
              (userMessageFor (env_uuid (envs 1)) m (displayNameOf friend (im_name m)))] s s' \<and>
       (\<forall>fp. sess_unread s' fp = sess_unread s fp + (if fp = im_from m then 1 else 0)) \<and> ss_drafts s' = ss_drafts s)) \<and>
    (res \<noteq> Inr () \<longrightarrow> adds [] s s' \<and> sess_unread s' = sess_unread s)"
proof (cases "find_friend client n (im_from m) s")
  case (Inl e)
  then show ?thesis using assms by (auto simp: deliver_def)
next
  case (Inr friend)
  define s1 where "s1 = (case friend of None \<Rightarrow> s | Some f \<Rightarrow> noteFriend f s)"
  obtain r s2 where e: "ensureAlter host (envs 0) s1 = (r, s2)" by fastforce
  have d: "(res, s') = (case r of Inl e \<Rightarrow> (Inl e, s2) | Inr sid \<Rightarrow> (Inr (), route_mail (envs 1) sid m friend s2))"
    using assms Inr e by (simp add: deliver_def s1_def [symmetric] split: sum.splits)
  have q: "quietly s1 s2" using e by (rule ensureAlter_quietly)
  have a: "adds [] s s2" using adds_trans [of "[]" s s1 "[]" s2] noteFriend_quiet(1) [of s friend] q by (simp add: s1_def quietly_def)
  have f: "sess_unread s2 = sess_unread s" "sess_tierOf s2 = sess_tierOf s" "ss_drafts s2 = ss_drafts s"
    using quietly_reads [OF q] noteFriend_quiet(2-4) [where s = s and friend = friend] by (simp_all add: s1_def)
  show ?thesis
  proof (cases r)
    case (Inl e')
    moreover have "\<not> (\<forall>i. ho_create host i)" using ensureAlter_total [of host "envs 0" s1] e Inl by auto
    ultimately show ?thesis using d a f by auto
  next
    case (Inr sid)
    have "ss_alterId s2 = Some sid" using ensureAlter_result e Inr by blast
    then show ?thesis using d Inr \<open>find_friend client n (im_from m) s = Inr friend\<close> f
        adds_trans [OF a route_mail_adds [of friend m s2 sid "envs 1"]] route_mail_fields by simp
  qed
qed

definition sample_mail :: InboundMessage where
  "sample_mail = \<lparr>im_id = ''a2a-7'', im_from = ALICE_FP, im_name = ''Alice'', im_body = ''hello'', im_ts = 5, im_seq = Some 1,
     im_auto = False, im_by = None, im_agent = None, im_type = None, im_artifactPath = None, im_artifactName = None\<rparr>"

theorem mail_routing_witness:
  "\<exists>s' msg. deliver fake_client (createFake False) (open_host (\<lambda>_. None)) sample_draws sample_mail fresh_sessions = (Inr (), s') \<and>
     adds [Put True ''session-u0'' msg] fresh_sessions s' \<and> sess_unread s' ALICE_FP = 1"
proof -
  let ?call = "deliver fake_client (createFake False) (open_host (\<lambda>_. None)) sample_draws sample_mail fresh_sessions"
  obtain res s' where c: "?call = (res, s')" by (cases ?call)
  have "fst ?call = Inr ()" "ss_alterId (snd ?call) = Some ''session-u0''" by code_simp+
  then have r: "res = Inr ()" "ss_alterId s' = Some ''session-u0''" using c by simp_all
  have k: "map_option fr_name (projr (find_friend fake_client (createFake False) (im_from sample_mail) fresh_sessions)) = Some ''college friend''"
    by code_simp
  have f: "\<not> im_auto sample_mail" "sess_tierOf fresh_sessions (im_from sample_mail) = Draft" "sess_unread fresh_sessions ALICE_FP = 0"
    "im_from sample_mail = ALICE_FP"
    by code_simp+
  obtain friend sid where p: "find_friend fake_client (createFake False) (im_from sample_mail) fresh_sessions = Inr friend" "ss_alterId s' = Some sid"
    "adds [Put (friend \<noteq> None \<and> \<not> im_auto sample_mail \<and> sess_tierOf fresh_sessions (im_from sample_mail) \<noteq> Notify) sid
       (userMessageFor (env_uuid (sample_draws 1)) sample_mail (displayNameOf friend (im_name sample_mail)))] fresh_sessions s'"
    "sess_unread s' (im_from sample_mail) = sess_unread fresh_sessions (im_from sample_mail) + 1"
    using mail_routing [OF c] r(1) by auto
  have "friend \<noteq> None" using k p(1) by auto
  then show ?thesis using c r p(2-4) f by auto
qed

section \<open>Group messages\<close>

text \<open>One seat agent woken: a message in one of its sessions, then its state is published.\<close>

definition wakes_seat :: "InboundMessage \<Rightarrow> string \<Rightarrow> string \<Rightarrow> SeatAgent \<Rightarrow> observation list \<Rightarrow> bool" where
  "wakes_seat m gid name seat os \<longleftrightarrow> (\<exists>sid u. os = [Put True sid (groupMessageFor u m gid name), Shown (sa_name seat)])"

fun wakes_seats :: "InboundMessage \<Rightarrow> string \<Rightarrow> string \<Rightarrow> SeatAgent list \<Rightarrow> observation list \<Rightarrow> bool" where
  "wakes_seats m gid name [] os \<longleftrightarrow> os = []"
| "wakes_seats m gid name (seat # seats) os \<longleftrightarrow>
     (\<exists>os1 os2. os = os1 @ os2 \<and> wakes_seat m gid name seat os1 \<and> wakes_seats m gid name seats os2)"

lemma noteGroupWorkStart_adds: "adds [] s (noteGroupWorkStart seat gid s)"
  by (simp add: noteGroupWorkStart_def adds_def act_def)

lemma noteGroupWorkStart_fields [simp]:
  "ss_groupSettings (noteGroupWorkStart seat gid s) = ss_groupSettings s" "ss_agents (noteGroupWorkStart seat gid s) = ss_agents s"
  by (simp_all add: noteGroupWorkStart_def act_def)

lemma wake_worker_adds:
  assumes "wake_worker host envs seat gid name m watch s = (res, s')"
  shows "ss_groupSettings s' = ss_groupSettings s \<and> ss_agents s' = ss_agents s \<and>
    (case res of Inl _ \<Rightarrow> adds [] s s' | Inr _ \<Rightarrow> (\<exists>os. adds os s s' \<and> wakes_seat m gid name seat os))"
proof -
  obtain r s1 where e: "ensureAgentSession host (envs 0) seat (Some (gid, name)) s = (r, s1)" by fastforce
  have q: "quietly s s1" using e by (rule ensureAgentSession_quietly)
  show ?thesis
  proof (cases r)
    case (Inl x)
    then have "res = Inl x" "s' = s1" using assms e by (simp_all add: wake_worker_def)
    then show ?thesis using quietly_fields [OF q] q by (simp add: quietly_def)
  next
    case (Inr sid)
    let ?msg = "groupMessageFor (env_uuid (envs 1)) m gid name"
    let ?s2 = "act (Followup sid ?msg) s1"
    define s3 where "s3 = (if watch then ?s2\<lparr>ss_groupReplyWatch := al_set sid \<lparr>rw_gid = gid, rw_groupName = name, rw_nudged = False\<rparr> (ss_groupReplyWatch ?s2)\<rparr> else ?s2)"
    have s': "s' = act (PublishAgent (sa_name seat)) (noteGroupWorkStart seat gid s3)" "res = Inr ()"
      using assms e Inr by (auto simp: wake_worker_def Let_def s3_def)
    have "adds [] s s1" using q by (simp add: quietly_def)
    then have "adds [Put True sid ?msg] s ?s2" using adds_act [of "[]" s s1 "Followup sid ?msg"] by simp
    then have "adds [Put True sid ?msg] s s3" by (rule adds_out) (simp add: s3_def)
    then have "adds ([Put True sid ?msg] @ []) s (noteGroupWorkStart seat gid s3)" using noteGroupWorkStart_adds by (rule adds_trans)
    then have "adds [Put True sid ?msg, Shown (sa_name seat)] s s'"
      using adds_act [of "[Put True sid ?msg]" s _ "PublishAgent (sa_name seat)"] by (simp add: s')
    moreover have "ss_groupSettings s' = ss_groupSettings s \<and> ss_agents s' = ss_agents s"
      by (simp add: s' s3_def act_def quietly_fields [OF q])
    ultimately show ?thesis by (auto simp: s' wakes_seat_def)
  qed
qed

definition seat_woken :: "SessionsState \<Rightarrow> string \<Rightarrow> group_view \<Rightarrow> InboundMessage \<Rightarrow> string list \<Rightarrow> SeatAgent \<Rightarrow> bool" where
  "seat_woken s gid g m awaited seat \<longleftrightarrow> awaited_wake s gid g awaited seat \<or> gw_wake (seat_route s gid g m seat)"

lemma seat_woken_cong: "ss_groupSettings s' = ss_groupSettings s \<Longrightarrow> seat_woken s' gid g m awaited = seat_woken s gid g m awaited"
  by (simp add: seat_woken_def awaited_wake_def seat_route_def fun_eq_iff)

lemma wake_seats_adds:
  "wake_seats host envs gid g m awaited seats s = (Inr (), s') \<Longrightarrow>
   \<exists>os. adds os s s' \<and> wakes_seats m gid (gv_name g) (filter (seat_woken s gid g m awaited) seats) os"
proof (induction host envs gid g m awaited seats s rule: wake_seats.induct)
  case (2 host envs gid g m awaited seat seats s)
  show ?case
  proof (cases "seat_woken s gid g m awaited seat")
    case True
    then obtain s1 where w: "wake_worker host envs seat gid (gv_name g) m (\<not> awaited_wake s gid g awaited seat) s = (Inr (), s1)"
      and rest: "wake_seats host (later_draws envs) gid g m awaited seats s1 = (Inr (), s')"
      using "2.prems" by (auto simp: seat_woken_def split: prod.splits sum.splits)
    have g: "ss_groupSettings s1 = ss_groupSettings s" using wake_worker_adds [OF w] by simp
    obtain os1 where "adds os1 s s1" "wakes_seat m gid (gv_name g) seat os1" using wake_worker_adds [OF w] by auto
    moreover obtain os2 where "adds os2 s1 s'" "wakes_seats m gid (gv_name g) (filter (seat_woken s gid g m awaited) seats) os2"
      using "2.IH"(1) [OF True [unfolded seat_woken_def] w [symmetric] refl rest] by (auto simp: seat_woken_cong [OF g])
    ultimately have "adds (os1 @ os2) s s'" "wakes_seats m gid (gv_name g) (filter (seat_woken s gid g m awaited) (seat # seats)) (os1 @ os2)"
      using True adds_trans by auto
    then show ?thesis by blast
  next
    case False
    then show ?thesis using "2.IH"(2) "2.prems" by (auto simp: seat_woken_def)
  qed
qed auto

lemma wakes_seats_muted: "\<not> gpv_speakAgents (gv_profile g) \<Longrightarrow> \<not> seat_woken s gid g m awaited seat"
  by (simp add: seat_woken_def awaited_wake_def seat_route_def wakeAgentForGroup_def)

lemma alter_route_muted: "\<not> gpv_speakAgents (gv_profile g) \<Longrightarrow> \<not> gw_wake (alter_route s gid g m)"
  by (simp add: alter_route_def wakeForGroup_def)

lemma wake_alter_adds:
  assumes "wake_alter host envs gid g m s = (Inr (), s')"
  shows "ss_groupSettings s' = ss_groupSettings s \<and> ss_agents s' = ss_agents s \<and> ss_awaitReply s' = ss_awaitReply s \<and>
    (if gw_wake (alter_route s gid g m)
     then \<exists>sid u. ss_alterId s' = Some sid \<and> adds [Put True sid (groupMessageFor u m gid (gv_name g))] s s'
     else s' = s)"
proof (cases "gw_wake (alter_route s gid g m)")
  case True
  obtain r s1 where e: "ensureAlter host (envs 0) s = (r, s1)" by fastforce
  then obtain sid where r: "r = Inr sid" using assms True by (cases r) (auto simp: wake_alter_def)
  let ?msg = "groupMessageFor (env_uuid (envs 1)) m gid (gv_name g)"
  have s': "s' = act PublishAlter (act (Followup sid ?msg) s1)" using assms True e r by (simp add: wake_alter_def)
  have q: "quietly s s1" using e by (rule ensureAlter_quietly)
  have "adds [Put True sid ?msg] s s'"
    using q adds_act [of "[]" s s1 "Followup sid ?msg"] adds_act [of "[Put True sid ?msg]" s _ PublishAlter] by (simp add: s' quietly_def)
  moreover have "ss_alterId s' = Some sid" using ensureAlter_result e r by (simp add: s' act_def)
  ultimately show ?thesis using True by (auto simp: s' act_def quietly_fields [OF q])
qed (use assms in \<open>simp add: wake_alter_def\<close>)

lemma takeAwaited_frame:
  assumes "takeAwaitedRepliers now gid m s = (awaited, s')"
  shows "ss_groupSettings s' = ss_groupSettings s \<and> ss_agents s' = ss_agents s \<and> ss_alterId s' = ss_alterId s \<and> ss_out s' = ss_out s"
  using assms by (auto simp: takeAwaitedRepliers_def Let_def split: if_splits)

lemma takeAwaited_cong: "ss_awaitReply s' = ss_awaitReply s \<Longrightarrow> fst (takeAwaitedRepliers now gid m s') = fst (takeAwaitedRepliers now gid m s)"
  by (simp add: takeAwaitedRepliers_def fresh_receipts_def Let_def)

lemma groupOf_frame:
  assumes "groupOf client n gid s = (g, s')"
  shows "ss_groupSettings s' = ss_groupSettings s \<and> ss_agents s' = ss_agents s \<and> ss_awaitReply s' = ss_awaitReply s \<and>
    ss_ownerName s' = ss_ownerName s \<and> ss_out s' = ss_out s"
  using assms by (auto simp: groupOf_def split: option.splits sum.splits)

lemma with_owner_frame:
  "ss_groupSettings (with_owner client n s) = ss_groupSettings s" "ss_agents (with_owner client n s) = ss_agents s"
  "ss_awaitReply (with_owner client n s) = ss_awaitReply s" "ss_out (with_owner client n s) = ss_out s"
  by (auto simp: with_owner_def refreshOwner_def split: sum.splits option.splits)


definition crew :: FakeNet where
  "crew = snd (fake_groups_create \<lparr>env_now = 0, env_uuid = ''g''\<rparr> ''crew'' [ALICE_FP] None (createFake False))"

definition crew_gid :: string where
  "crew_gid = fst (hd (fn_groups crew))"

definition crew_sessions :: SessionsState where
  "crew_sessions = fresh_sessions\<lparr>ss_groupSettings := snd (gss_set crew_gid (no_patch\<lparr>gp_alter := Some True\<rparr>) (ss_groupSettings fresh_sessions))\<rparr>"

definition crew_mail :: InboundMessage where
  "crew_mail = sample_mail\<lparr>im_body := ''@dsh tester hi''\<rparr>"


section \<open>Conversation receipts\<close>

lemma add_receipt_keeps: "w \<in> set l \<Longrightarrow> w \<in> set (add_receipt now name e l)"
  by (simp add: add_receipt_def)

lemma add_receipts_keeps: "w \<in> set l \<Longrightarrow> w \<in> set (add_receipts now name es l)"
  unfolding add_receipts_def by (induction es arbitrary: l) (auto intro: add_receipt_keeps)

lemma add_receipt_new: "w \<in> set (add_receipt now name e l) \<Longrightarrow> w \<in> set l \<or> rc_ts w = now"
  by (auto simp: add_receipt_def split: if_splits)

lemma add_receipts_new: "w \<in> set (add_receipts now name es l) \<Longrightarrow> w \<in> set l \<or> rc_ts w = now"
  unfolding add_receipts_def by (induction es arbitrary: l) (auto dest: add_receipt_new)

lemma add_receipt_mem: "\<exists>w \<in> set (add_receipt now name (fp, token) l). same_receipt name fp token w"
  by (auto simp: add_receipt_def list_ex_iff same_receipt_def)

lemma add_receipts_mem: "(fp, token) \<in> set es \<Longrightarrow> \<exists>w \<in> set (add_receipts now name es l). same_receipt name fp token w"
proof (induction es arbitrary: l)
  case (Cons e es)
  show ?case
  proof (cases "(fp, token) \<in> set es")
    case True
    then show ?thesis using Cons.IH [of "add_receipt now name e l"] by (simp add: add_receipts_def)
  next
    case False
    then obtain w where "w \<in> set (add_receipt now name e l)" "same_receipt name fp token w"
      using Cons.prems add_receipt_mem [of now name fp token l] by auto
    then show ?thesis using add_receipts_keeps [of w "add_receipt now name e l" now name es] by (auto simp: add_receipts_def)
  qed
qed simp

lemma fresh_after_note:
  "fresh_receipts now' gid (noteAwaitReply now gid name es s) =
     (if es = [] then fresh_receipts now' gid s
      else filter (\<lambda>w. now' - rc_ts w < AWAIT_REPLY_MS) (add_receipts now name es (fresh_receipts now gid s)))"
  by (simp add: noteAwaitReply_def fresh_receipts_def)

lemma fresh_after_take:
  "im_by m = Some ''alter'' \<Longrightarrow> fresh_receipts now' gid (snd (takeAwaitedRepliers now gid m s)) =
     filter (\<lambda>w. now' - rc_ts w < AWAIT_REPLY_MS) (filter (\<lambda>w. \<not> answers_receipt m w) (fresh_receipts now gid s))"
  by (simp add: takeAwaitedRepliers_def fresh_receipts_def Let_def)

lemma take_repliers:
  "set (fst (takeAwaitedRepliers now gid m s)) =
     (if im_by m = Some ''alter'' then rc_myAgent ` {w \<in> set (fresh_receipts now gid s). answers_receipt m w} else {})"
  by (auto simp: takeAwaitedRepliers_def Let_def)

text \<open>
  An answer finds the agent that asked, once. After an agent noted whom its post addressed, the
  addressee's next post by an alter or agent, under the name asked (in any case) and within half an
  hour, selects that agent; the receipt is consumed, so the same sender's further posts select nobody
  on its account, at any later time; after half an hour it selects nobody; and a post a human wrote
  neither selects nor consumes anything.
\<close>

theorem awaited_reply_once:
  assumes "(fp, token) \<in> set es" "list_all (\<lambda>w. \<not> same_receipt name fp token w) (fresh_receipts now gid s)" "im_from m = fp" "token \<noteq> []"
    "toLowerCase token = toLowerCase (im_name m) \<or> (\<exists>a. im_agent m = Some a \<and> toLowerCase token = toLowerCase a)"
  shows "(im_by m = Some ''alter'' \<longrightarrow>
      (t - now < AWAIT_REPLY_MS \<longrightarrow> name \<in> set (fst (takeAwaitedRepliers t gid m (noteAwaitReply now gid name es s)))) \<and>
      fst (takeAwaitedRepliers t' gid m (snd (takeAwaitedRepliers t gid m (noteAwaitReply now gid name es s)))) = []) \<and>
    (fresh_receipts now gid s = [] \<and> t - now \<ge> AWAIT_REPLY_MS \<longrightarrow> fst (takeAwaitedRepliers t gid m (noteAwaitReply now gid name es s)) = []) \<and>
    (im_by m \<noteq> Some ''alter'' \<longrightarrow> takeAwaitedRepliers t gid m s = ([], s))"
proof (intro conjI impI)
  let ?s = "noteAwaitReply now gid name es s"
  have ne: "es \<noteq> []" using assms(1) by auto
  { assume al: "im_by m = Some ''alter''" and "t - now < AWAIT_REPLY_MS"
    obtain w where w: "w \<in> set (add_receipts now name es (fresh_receipts now gid s))" "same_receipt name fp token w" "rc_ts w = now"
      using add_receipts_mem [OF assms(1), of now name "fresh_receipts now gid s"] assms(2) add_receipts_new
      by (fastforce simp: list_all_iff)
    have "answers_receipt m w"
      using w(2) assms(3,4,5) by (auto simp: answers_receipt_def same_receipt_def) (metis toLowerCase_Nil)+
    then have "w \<in> {w \<in> set (fresh_receipts t gid ?s). answers_receipt m w}"
      using w \<open>t - now < AWAIT_REPLY_MS\<close> ne by (simp add: fresh_after_note)
    then show "name \<in> set (fst (takeAwaitedRepliers t gid m ?s))"
      using al w(2) unfolding take_repliers by (force simp: same_receipt_def) }
  { assume al: "im_by m = Some ''alter''"
    have "set (fst (takeAwaitedRepliers t' gid m (snd (takeAwaitedRepliers t gid m ?s)))) = {}"
      unfolding take_repliers using al by (auto simp: fresh_after_take)
    then show "fst (takeAwaitedRepliers t' gid m (snd (takeAwaitedRepliers t gid m ?s))) = []" by simp }
  { assume e: "fresh_receipts now gid s = [] \<and> t - now \<ge> AWAIT_REPLY_MS"
    then have "fresh_receipts t gid ?s = []" using ne add_receipts_new by (fastforce simp: fresh_after_note filter_empty_conv)
    then show "fst (takeAwaitedRepliers t gid m ?s) = []" by (simp add: takeAwaitedRepliers_def Let_def) }
qed (simp add: takeAwaitedRepliers_def)

theorem awaited_reply_once_witness:
  "fst (takeAwaitedRepliers 60000 ''g1'' (sample_mail\<lparr>im_by := Some ''alter'', im_agent := Some ''Scout''\<rparr>)
     (noteAwaitReply 0 ''g1'' ''devbot'' [(ALICE_FP, ''scout'')] fresh_sessions)) \<noteq> []"
proof -
  let ?m = "sample_mail\<lparr>im_by := Some ''alter'', im_agent := Some ''Scout''\<rparr>"
  have a: "toLowerCase ''scout'' = toLowerCase ''Scout''" "im_from ?m = ALICE_FP" "im_by ?m = Some ''alter''" "im_agent ?m = Some ''Scout''"
    by code_simp+
  have "list_all (\<lambda>w. \<not> same_receipt ''devbot'' ALICE_FP ''scout'' w) (fresh_receipts 0 ''g1'' fresh_sessions)" "60000 - 0 < AWAIT_REPLY_MS"
    by code_simp+
  then have "''devbot'' \<in> set (fst (takeAwaitedRepliers 60000 ''g1'' ?m (noteAwaitReply 0 ''g1'' ''devbot'' [(ALICE_FP, ''scout'')] fresh_sessions)))"
    using awaited_reply_once [of ALICE_FP "''scout''" "[(ALICE_FP, ''scout'')]" "''devbot''" 0 "''g1''" fresh_sessions ?m 60000 60000] a by auto
  then show ?thesis by force
qed

text \<open>
  Asking again does not extend the half hour: a receipt that is still fresh keeps its first time stamp.
\<close>

lemma receipt_not_renewed:
  assumes "list_ex (same_receipt name fp token) (fresh_receipts now gid s)"
  shows "fresh_receipts t gid (noteAwaitReply now gid name [(fp, token)] s) = filter (\<lambda>w. t - rc_ts w < AWAIT_REPLY_MS) (fresh_receipts now gid s)"
  using assms by (simp add: fresh_after_note add_receipts_def add_receipt_def)

end
