(* ===== verification/Js_Date.thy ===== *)
theory Js_Date
  imports Json_Text
begin

text \<open>
  \<open>new Date(ms).toISOString()\<close>: the civil date of a number of milliseconds since 1970-01-01 in the
  proleptic Gregorian calendar. Drafts carry such a time stamp and the friend list of the tools
  shows one.
\<close>

definition pad :: "nat \<Rightarrow> int \<Rightarrow> string" where
  "pad w n = (let t = show_int n in replicate (w - length t) (CHR ''0'') @ t)"

text \<open>Year, month and day of a day number, counted in 400-year eras that start on a first of March.\<close>

definition civil :: "int \<Rightarrow> int \<times> int \<times> int" where
  "civil days =
     (let z = days + 719468; era = z div 146097; doe = z mod 146097;
          yoe = (doe - doe div 1460 + doe div 36524 - doe div 146096) div 365;
          doy = doe - (365 * yoe + yoe div 4 - yoe div 100);
          mp = (5 * doy + 2) div 153;
          month = (if mp < 10 then mp + 3 else mp - 9)
      in (yoe + era * 400 + (if month \<le> 2 then 1 else 0), month, doy - (153 * mp + 2) div 5 + 1))"

definition toISOString :: "int \<Rightarrow> string" where
  "toISOString ms =
     (let (y, m, d) = civil (ms div 86400000); t = ms mod 86400000;
          year = (if 0 \<le> y \<and> y \<le> 9999 then pad 4 y else (if y < 0 then ''-'' else ''+'') @ pad 6 \<bar>y\<bar>)
      in year @ ''-'' @ pad 2 m @ ''-'' @ pad 2 d @ ''T'' @ pad 2 (t div 3600000) @ '':'' @ pad 2 (t div 60000 mod 60) @ '':'' @
         pad 2 (t div 1000 mod 60) @ ''.'' @ pad 3 (t mod 1000) @ ''Z'')"

lemma toISOString_epoch: "toISOString 0 = ''1970-01-01T00:00:00.000Z''"
  by code_simp

lemma toISOString_leap_day: "toISOString 951868799999 = ''2000-02-29T23:59:59.999Z''"
  by code_simp

section \<open>Reading a time stamp\<close>

definition days_of :: "int \<Rightarrow> int \<Rightarrow> int \<Rightarrow> int" where
  "days_of y m d =
     (let y1 = (if m \<le> 2 then y - 1 else y); era = y1 div 400; yoe = y1 mod 400;
          doy = (153 * (if m > 2 then m - 3 else m + 9) + 2) div 5 + d - 1;
          doe = yoe * 365 + yoe div 4 - yoe div 100 + doy
      in era * 146097 + doe - 719468)"

definition month_days :: "int \<Rightarrow> int \<Rightarrow> int" where
  "month_days y m = days_of (if m = 12 then y + 1 else y) (if m = 12 then 1 else m + 1) 1 - days_of y m 1"

text \<open>A fixed number of digits, then the rest.\<close>

definition take_digits :: "nat \<Rightarrow> string \<Rightarrow> (int \<times> string) option" where
  "take_digits w s = (if length s \<ge> w \<and> list_all is_digit (take w s) then Some (int (digits_val (take w s)), drop w s) else None)"

definition take_lit :: "string \<Rightarrow> (int \<times> string) option \<Rightarrow> (int \<times> string) option" where
  "take_lit l r = (case r of Some (n, s) \<Rightarrow> (if prefix l s then Some (n, drop (length l) s) else None) | None \<Rightarrow> None)"

text \<open>The milliseconds of a fraction of any number of digits.\<close>

definition fraction_ms :: "string \<Rightarrow> (int \<times> string) option" where
  "fraction_ms s =
     (if prefix ''.'' s then
        (let ds = takeWhile is_digit (tl s) in
         if ds = [] then None else Some (int (digits_val (take 3 (ds @ ''00''))), dropWhile is_digit (tl s)))
      else Some (0, s))"

definition zone_minutes :: "string \<Rightarrow> int option" where
  "zone_minutes s =
     (if s = ''Z'' then Some 0
      else (case s of
              [] \<Rightarrow> None
            | c # t \<Rightarrow>
                (if c = CHR ''+'' \<or> c = CHR ''-'' then
                   (case take_lit '':'' (take_digits 2 t) of
                      None \<Rightarrow> None
                    | Some (h, r) \<Rightarrow>
                        (case take_digits 2 r of
                           Some (m, []) \<Rightarrow> (if h < 24 \<and> m < 60 then Some ((if c = CHR ''-'' then - 1 else 1) * (h * 60 + m)) else None)
                         | _ \<Rightarrow> None))
                 else None)))"

definition clock_ms :: "string \<Rightarrow> int option" where
  "clock_ms s =
     (case take_lit '':'' (take_digits 2 s) of None \<Rightarrow> None | Some (h, s1) \<Rightarrow>
      (case take_lit '':'' (take_digits 2 s1) of None \<Rightarrow> None | Some (mi, s2) \<Rightarrow>
       (case take_digits 2 s2 of None \<Rightarrow> None | Some (sec, s3) \<Rightarrow>
        (case fraction_ms s3 of None \<Rightarrow> None | Some (f, s4) \<Rightarrow>
         (case zone_minutes s4 of None \<Rightarrow> None | Some z \<Rightarrow>
          (if h < 24 \<and> mi < 60 \<and> sec < 60 then Some (((h * 60 + mi - z) * 60 + sec) * 1000 + f) else None))))))"

text \<open>
  \<open>Date.parse\<close> on the date-time form of RFC 3339, which the peer writes. What it makes of other strings
  is left to the implementation: the parameter \<open>other\<close>.
\<close>

definition Date_parse :: "(string \<Rightarrow> int option) \<Rightarrow> string \<Rightarrow> int option" where
  "Date_parse other s =
     (case take_lit ''-'' (take_digits 4 s) of None \<Rightarrow> other s | Some (y, s1) \<Rightarrow>
      (case take_lit ''-'' (take_digits 2 s1) of None \<Rightarrow> other s | Some (m, s2) \<Rightarrow>
       (case take_lit ''T'' (take_digits 2 s2) of None \<Rightarrow> other s | Some (d, s3) \<Rightarrow>
        (case clock_ms s3 of None \<Rightarrow> other s | Some t \<Rightarrow>
         (if 1 \<le> m \<and> m \<le> 12 \<and> 1 \<le> d \<and> d \<le> month_days y m then Some (days_of y m d * 86400000 + t) else other s)))))"

lemma Date_parse_samples:
  "Date_parse other ''1970-01-01T00:00:00.000Z'' = Some 0"
  "Date_parse other ''2000-02-29T23:59:59.999Z'' = Some 951868799999"
  "Date_parse other ''2000-03-01T01:29:59.999123456+01:30'' = Some 951868799999"
  by code_simp+

end
