(* ===== verification/Session_Control.thy ===== *)
theory Session_Control
  imports Sessions Js_Date
begin

text \<open>
  The owner's side of the sessions plugin (\<^verbatim>\<open>src/dsh/packages/dsh/src/sessions/index.ts\<close>): the seat
  agents, instructions, pending drafts and the decision on them, the settings calls of the service
  the plugin provides, the checks at the end of a turn, and the start of the plugin with its event
  dispatcher. Session handlers and state are those of theory \<open>Sessions\<close>.
\<close>

section \<open>Seat agents and instructions\<close>

definition setAgent :: "Host \<Rightarrow> Env \<Rightarrow> SeatAgent \<Rightarrow> SessionsState \<Rightarrow> (session_error + SeatAgent) \<times> SessionsState" where
  "setAgent host env input s =
     (let s0 = (if ar_loaded (ss_agents s) then s else s\<lparr>ss_agents := ar_load (ss_agents s)\<rparr>) in
      if ss_ownerName s0 \<noteq> [] \<and> toLowerCase (trim (sa_name input)) = toLowerCase (trim (ss_ownerName s0))
      then (Inl (IsOwnersName (sa_name input)), s0)
      else case ar_set input (ss_agents s0) of
             (Inl e, r) \<Rightarrow> (Inl (BadAgent e), s0\<lparr>ss_agents := r\<rparr>)
           | (Inr stored, r) \<Rightarrow>
               (let s1 = snd (ensureAgentSession host env stored None (s0\<lparr>ss_agents := r\<rparr>))
                in (Inr stored, act PublishAlter (announceAllGroups s1))))"

definition drop_names :: "string \<Rightarrow> (string, 'a) al \<Rightarrow> (string, 'a) al" where
  "drop_names key m = filter (\<lambda>(n, _). toLowerCase n \<noteq> key) m"

definition removeAgent :: "string \<Rightarrow> SessionsState \<Rightarrow> bool \<times> SessionsState" where
  "removeAgent name s =
     (let s0 = (if ar_loaded (ss_agents s) then s else s\<lparr>ss_agents := ar_load (ss_agents s)\<rparr>);
          (existed, r) = ar_remove name (ss_agents s0); s1 = s0\<lparr>ss_agents := r\<rparr>;
          key = toLowerCase (trim name)
      in if \<not> existed then (False, s1)
         else (True, act PublishAlter (announceAllGroups (persistMap
                (s1\<lparr>ss_agentSessionIds := drop_names key (ss_agentSessionIds s1),
                    ss_agentGroupSessionIds := drop_names key (ss_agentGroupSessionIds s1)\<rparr>)))))"

definition with_owner_name :: "'n NetworkClient \<Rightarrow> 'n \<Rightarrow> SessionsState \<Rightarrow> SessionsState" where
  "with_owner_name client n s = (if ss_ownerName s = [] then refreshOwner client n s else s)"

definition instructAgent :: "'n NetworkClient \<Rightarrow> 'n \<Rightarrow> Host \<Rightarrow> draws \<Rightarrow> string \<Rightarrow> string \<Rightarrow> SessionsState \<Rightarrow> (session_error + string \<times> string) \<times> SessionsState" where
  "instructAgent client n host envs name t s =
     (let body = trimEnd t in
      if body = [] then (Inl EmptyInstruction, s)
      else case ar_get (ss_agents s) name of
             None \<Rightarrow> (Inl (NoSeatAgent name), s)
           | Some seat \<Rightarrow>
               (case ensureAgentSession host (envs 0) seat None (with_owner_name client n s) of
                  (Inl e, s1) \<Rightarrow> (Inl e, s1)
                | (Inr sid, s1) \<Rightarrow>
                    (Inr (sid, env_uuid (envs 1)),
                     act (PublishAgent (sa_name seat)) (act (Followup sid (ownerMessageFor (env_uuid (envs 1)) body)) s1))))"

definition instruct :: "'n NetworkClient \<Rightarrow> 'n \<Rightarrow> Host \<Rightarrow> draws \<Rightarrow> string \<Rightarrow> SessionsState \<Rightarrow> (session_error + string \<times> string) \<times> SessionsState" where
  "instruct client n host envs t s =
     (let body = trimEnd t in
      if body = [] then (Inl EmptyInstruction, s)
      else case ensureAlter host (envs 0) (with_owner_name client n s) of
             (Inl e, s1) \<Rightarrow> (Inl e, s1)
           | (Inr sid, s1) \<Rightarrow>
               (Inr (sid, env_uuid (envs 1)), act PublishAlter (act (Followup sid (ownerMessageFor (env_uuid (envs 1)) body)) s1)))"

definition cut_items :: "int option \<Rightarrow> AlterChatItem list \<Rightarrow> AlterChatItem list" where
  "cut_items limit xs =
     (case limit of
        None \<Rightarrow> xs
      | Some l \<Rightarrow> (if 0 < l \<and> l < int (length xs) then drop (length xs - nat l) xs else xs))"

definition chat_of_session :: "Host \<Rightarrow> string \<Rightarrow> int option \<Rightarrow> AlterChat" where
  "chat_of_session host sid limit =
     (let c = (case ho_events host sid of None \<Rightarrow> EMPTY_CHAT | Some evs \<Rightarrow> chatFromEvents evs True)
      in c\<lparr>ac_items := cut_items limit (ac_items c)\<rparr>)"

definition agentHistory :: "Host \<Rightarrow> string \<Rightarrow> int option \<Rightarrow> string option \<Rightarrow> SessionsState \<Rightarrow> string option \<times> bool \<times> AlterChat" where
  "agentHistory host name limit gid s =
     (let sid = (case ar_get (ss_agents s) name of
                   None \<Rightarrow> None
                 | Some seat \<Rightarrow>
                     (case gid of
                        None \<Rightarrow> al_get (ss_agentSessionIds s) (sa_name seat)
                      | Some g \<Rightarrow> (case al_get (ss_agentGroupSessionIds s) (sa_name seat) of None \<Rightarrow> None | Some m \<Rightarrow> al_get m g)))
      in case sid of
           None \<Rightarrow> (None, False, EMPTY_CHAT)
         | Some i \<Rightarrow> (Some i, ho_running host i, chat_of_session host i limit))"

definition sess_history :: "Host \<Rightarrow> int option \<Rightarrow> SessionsState \<Rightarrow> string option \<times> bool \<times> AlterChat" where
  "sess_history host limit s =
     (case ss_alterId s of
        None \<Rightarrow> (None, False, EMPTY_CHAT)
      | Some a \<Rightarrow> (Some a, ho_running host a, chat_of_session host a limit))"

definition sess_latest :: "Host \<Rightarrow> SessionsState \<Rightarrow> (string \<times> bool \<times> AlterLatest) option" where
  "sess_latest host s =
     (case ss_alterId s of
        None \<Rightarrow> None
      | Some a \<Rightarrow> Some (a, ho_running host a, case ho_events host a of None \<Rightarrow> EMPTY_LATEST | Some evs \<Rightarrow> latestFromEvents evs))"

section \<open>Pending drafts\<close>

definition appendNote :: "Host \<Rightarrow> draws \<Rightarrow> A2ANoteKind \<Rightarrow> PendingDraft \<Rightarrow> string \<Rightarrow> SessionsState \<Rightarrow> SessionsState" where
  "appendNote host envs note draft t s =
     (case ensureAlter host (envs 0) s of
        (Inl _, s1) \<Rightarrow> s1
      | (Inr sid, s1) \<Rightarrow> act PublishAlter (act (AppendMessage sid (noteMessageFor (envs 1) note draft t)) s1))"

definition trigger_kind_str :: "trigger_kind \<Rightarrow> string" where
  "trigger_kind_str k = (case k of
     TOwner \<Rightarrow> ''owner'' | TInbound \<Rightarrow> ''inbound'' | TInboundAuto \<Rightarrow> ''inbound-auto'' | TGroup \<Rightarrow> ''group'' | TUnknown \<Rightarrow> ''unknown'')"

definition trigger_json :: "TurnTrigger \<Rightarrow> json" where
  "trigger_json t =
     JObj ([(''kind'', JStr (trigger_kind_str (trig_kind t)))] @ opt_field ''fp'' (map_option JStr (trig_fp t)) @
           opt_field ''name'' (map_option JStr (trig_name t)) @ opt_field ''messageId'' (map_option JStr (trig_messageId t)) @
           opt_field ''gid'' (map_option JStr (trig_gid t)))"

record draft_input =
  di_fp :: string
  di_gid :: "string option"
  di_name :: "string option"
  di_body :: string
  di_reason :: string
  di_trigger :: "TurnTrigger option"
  di_sessionId :: "string option"
  di_agent :: "string option"

definition draft_target_name :: "draft_input \<Rightarrow> SessionsState \<Rightarrow> string" where
  "draft_target_name i s =
     (case di_name i of
        Some nm \<Rightarrow> nm
      | None \<Rightarrow>
          (case di_gid i of
             None \<Rightarrow> nameOf s (di_fp i)
           | Some g \<Rightarrow> (case al_get (ss_groupsByGid s) g of Some v \<Rightarrow> gv_name v | None \<Rightarrow> g)))"

definition queueDraft :: "Env \<Rightarrow> draft_input \<Rightarrow> SessionsState \<Rightarrow> PendingDraft \<times> SessionsState" where
  "queueDraft env i s =
     (let (d, ds) = ds_add (env_uuid env) (toISOString (env_now env))
            \<lparr>n_id = None, n_createdAt = None,
             n_draft = \<lparr>d_id = [], d_fp = di_fp i, d_gid = di_gid i, d_name = draft_target_name i s, d_body = di_body i,
               d_createdAt = [], d_reason = di_reason i, d_trigger = map_option trigger_json (di_trigger i),
               d_sessionId = di_sessionId i, d_agent = di_agent i\<rparr>\<rparr> (ss_drafts s)
      in (d, act PublishAlter (act (Emit (EDraftAdded d)) (s\<lparr>ss_drafts := ds\<rparr>))))"

datatype decision = Approve "string option" | Reject | Revise string

definition draft_who :: "PendingDraft \<Rightarrow> string" where
  "draft_who d =
     (case d_gid d of
        None \<Rightarrow> d_name d @ '' ('' @ d_fp d @ '')''
      | Some g \<Rightarrow> ''group '' @ d_name d @ '' ('' @ g @ '')'')"

text \<open>Whom a group post addresses: the other members and their announced agents it mentions.\<close>

definition expected_repliers :: "string \<Rightarrow> string \<Rightarrow> GroupInfo \<Rightarrow> (string \<times> string) list" where
  "expected_repliers ownFp body info =
     concat (map (\<lambda>m.
       if ownFp \<noteq> [] \<and> gm_fp m = ownFp then []
       else map (\<lambda>t. (gm_fp m, t)) (filter (\<lambda>t. t \<noteq> [] \<and> mentionsAgent body t)
              (gm_name m # (case gm_agents m of None \<Rightarrow> [] | Some as \<Rightarrow> as)))) (gi_memberList info))"

definition note_repliers :: "'n NetworkClient \<Rightarrow> 'n \<Rightarrow> int \<Rightarrow> PendingDraft \<Rightarrow> string \<Rightarrow> string \<Rightarrow> SessionsState \<Rightarrow> SessionsState" where
  "note_repliers client n now d gid body s =
     (case d_agent d of
        None \<Rightarrow> s
      | Some a \<Rightarrow>
          (case nc_groups_info client gid n of
             Inl _ \<Rightarrow> s
           | Inr info \<Rightarrow> noteAwaitReply now gid a (expected_repliers (ss_myFp s) body info) s))"

definition approved_note :: "PendingDraft \<Rightarrow> string \<Rightarrow> string" where
  "approved_note d body =
     (let verb = (if d_gid d = None then ''sent'' else ''posted'') in
      if body \<noteq> d_body d
      then ''The owner edited your draft '' @ d_id d @ '' to '' @ draft_who d @ '' and '' @ verb @ '': '' @ dq @ body @ dq @
           '' (your draft was: '' @ dq @ d_body d @ dq @ '').''
      else ''The owner approved your draft '' @ d_id d @ '' to '' @ draft_who d @ ''; it was '' @ verb @ '' as written.'')"

definition finish_approve :: "Host \<Rightarrow> draws \<Rightarrow> PendingDraft \<Rightarrow> string \<Rightarrow> ConversationEntry \<Rightarrow> SessionsState \<Rightarrow> SessionsState" where
  "finish_approve host envs d body e s =
     appendNote host envs DraftApproved d (approved_note d body)
       (act (Emit (EDraftRemoved d WasApproved)) (act (Emit (EOutbound (d_fp d) (d_gid d) e)) s))"

definition remove_draft :: "string \<Rightarrow> SessionsState \<Rightarrow> SessionsState" where
  "remove_draft i s = s\<lparr>ss_drafts := snd (ds_remove i (ss_drafts s))\<rparr>"

definition group_options :: "bool \<Rightarrow> string option \<Rightarrow> GroupSendOptions" where
  "group_options auto agent = \<lparr>gso_by = Some ''alter'', gso_auto = (if auto then Some True else None), gso_agent = agent\<rparr>"

definition approve_group :: "'n NetworkClient \<Rightarrow> Host \<Rightarrow> draws \<Rightarrow> PendingDraft \<Rightarrow> string \<Rightarrow> string \<Rightarrow> SessionsState \<Rightarrow> 'n \<Rightarrow>
    ((session_error + PendingDraft \<times> ConversationEntry option) \<times> SessionsState) \<times> 'n" where
  "approve_group client host envs d gid body s n =
     (case nc_groups_send client (envs 0) gid body (group_options False (d_agent d)) n of
        (Inl e, n') \<Rightarrow> ((Inl (NetFailed e), s), n')
      | (Inr r, n') \<Rightarrow>
          (let e = (case read_back (\<lambda>since l. nc_groups_conversation client gid since l n') (sr_seq r) of
                      Some e \<Rightarrow> e
                    | None \<Rightarrow> out_entry (case sr_seq r of None \<Rightarrow> 0 | Some q \<Rightarrow> q) (sr_id r) body (env_now (envs 0)) (sr_status r) False);
               s1 = note_repliers client n' (env_now (envs 0)) d gid body (remove_draft (d_id d) s)
           in ((Inr (d, Some e), finish_approve host (later_draws envs) d body e s1), n')))"

definition approve_mail :: "'n NetworkClient \<Rightarrow> Host \<Rightarrow> draws \<Rightarrow> PendingDraft \<Rightarrow> string \<Rightarrow> SessionsState \<Rightarrow> 'n \<Rightarrow>
    ((session_error + PendingDraft \<times> ConversationEntry option) \<times> SessionsState) \<times> 'n" where
  "approve_mail client host envs d body s n =
     (case sendAndArchive client (envs 0) (d_fp d) body False n of
        (Inl e, n') \<Rightarrow> ((Inl (NetFailed e), s), n')
      | (Inr (e, r), n') \<Rightarrow> ((Inr (d, Some e), finish_approve host (later_draws envs) d body e (remove_draft (d_id d) s)), n'))"

definition revise_group_text :: "string \<Rightarrow> string \<Rightarrow> string \<Rightarrow> string \<Rightarrow> string" where
  "revise_group_text name gid body feedback =
     ''Revise your draft to group '' @ name @ '' (gid '' @ gid @ ''). Your draft was: '' @ dq @ body @ dq @ ''. My feedback: '' @ feedback @
     [lf] @ ''Post the revised message into the group with soulmirror_send_group_message, then tell me what you sent.''"

definition rejected_note :: "PendingDraft \<Rightarrow> string" where
  "rejected_note d =
     ''The owner rejected your draft '' @ d_id d @ '' to '' @ draft_who d @ ''; nothing was sent: '' @ dq @ d_body d @ dq @ ''.''"

definition revised_note :: "PendingDraft \<Rightarrow> string" where
  "revised_note d =
     ''The owner sent your draft '' @ d_id d @ '' to '' @ draft_who d @ '' back for revision; it was discarded: '' @ dq @ d_body d @ dq @ ''.''"

definition revise_instruction :: "PendingDraft \<Rightarrow> string \<Rightarrow> string" where
  "revise_instruction d feedback =
     (case d_gid d of
        None \<Rightarrow> revise_text (d_name d) (d_fp d) (d_body d) feedback
      | Some g \<Rightarrow> revise_group_text (d_name d) g (d_body d) feedback)"

definition discard :: "Host \<Rightarrow> draws \<Rightarrow> PendingDraft \<Rightarrow> draft_decision_kind \<Rightarrow> A2ANoteKind \<Rightarrow> string \<Rightarrow> SessionsState \<Rightarrow> SessionsState" where
  "discard host envs d kind note t s =
     appendNote host envs note d t (act (Emit (EDraftRemoved d kind)) (remove_draft (d_id d) s))"

definition decideDraft :: "'n NetworkClient \<Rightarrow> Host \<Rightarrow> draws \<Rightarrow> string \<Rightarrow> decision \<Rightarrow> SessionsState \<Rightarrow> 'n \<Rightarrow>
    ((session_error + PendingDraft \<times> ConversationEntry option) \<times> SessionsState) \<times> 'n" where
  "decideDraft client host envs i decision s n =
     (case ds_get (ss_drafts s) i of
        None \<Rightarrow> ((Inl (DraftNotPending i), s), n)
      | Some d \<Rightarrow>
          (case decision of
             Approve newBody \<Rightarrow>
               (let body = trimEnd (case newBody of None \<Rightarrow> d_body d | Some b \<Rightarrow> b) in
                if body = [] then ((Inl EmptyBody, s), n)
                else case d_gid d of
                       Some gid \<Rightarrow> approve_group client host envs d gid body s n
                     | None \<Rightarrow> approve_mail client host envs d body s n)
           | Reject \<Rightarrow> ((Inr (d, None), discard host envs d WasRejected DraftRejected (rejected_note d) s), n)
           | Revise fb \<Rightarrow>
               (let feedback = trimEnd fb in
                if feedback = [] then ((Inl EmptyFeedback, s), n)
                else case instruct client n host (later_draws envs) (revise_instruction d feedback)
                            (discard host envs d WasRevise DraftRevise (revised_note d) s) of
                       (Inl e, s2) \<Rightarrow> ((Inl e, s2), n)
                     | (Inr _, s2) \<Rightarrow> ((Inr (d, None), s2), n))))"

section \<open>Settings and memories\<close>

definition alter_open :: "Host \<Rightarrow> SessionsState \<Rightarrow> string option" where
  "alter_open host s = (case ss_alterId s of Some a \<Rightarrow> (if ho_events host a = None then None else Some a) | None \<Rightarrow> None)"

definition rename_alter :: "Host \<Rightarrow> SessionsState \<Rightarrow> SessionsState" where
  "rename_alter host s = (case alter_open host s of None \<Rightarrow> s | Some a \<Rightarrow> renameSession a s)"

definition sess_markRead :: "Host \<Rightarrow> string \<Rightarrow> SessionsState \<Rightarrow> SessionsState" where
  "sess_markRead host fp s =
     (if al_get (ss_unreadByFp s) fp = None then s
      else rename_alter host (s\<lparr>ss_unreadByFp := al_del fp (ss_unreadByFp s)\<rparr>))"

definition sess_setTier :: "string \<Rightarrow> ReplyTier option \<Rightarrow> SessionsState \<Rightarrow> ReplyTier \<times> SessionsState" where
  "sess_setTier fp tier s =
     (let s' = act PublishAlter (s\<lparr>ss_friendSettings := snd (fss_set fp \<lparr>fp_tier = Some tier, fp_muted = None\<rparr> (ss_friendSettings s))\<rparr>)
      in (sess_tierOf s' fp, s'))"

definition sess_setFriendMuted :: "string \<Rightarrow> bool \<Rightarrow> SessionsState \<Rightarrow> bool \<times> SessionsState" where
  "sess_setFriendMuted fp muted s =
     (muted, act PublishAlter (s\<lparr>ss_friendSettings := snd (fss_set fp \<lparr>fp_tier = None, fp_muted = Some (Some muted)\<rparr> (ss_friendSettings s))\<rparr>))"

definition sess_setGroupAlter :: "string \<Rightarrow> bool \<Rightarrow> SessionsState \<Rightarrow> bool \<times> SessionsState" where
  "sess_setGroupAlter gid isOn s =
     (let s' = act PublishAlter (s\<lparr>ss_groupSettings := snd (gss_set gid (no_patch\<lparr>gp_alter := Some isOn\<rparr>) (ss_groupSettings s))\<rparr>)
      in (alterOn (ss_groupSettings s') gid, s'))"

definition loaded_groups :: "SessionsState \<Rightarrow> GroupSettingsStore" where
  "loaded_groups s = (if gss_loaded (ss_groupSettings s) then ss_groupSettings s else gss_load (ss_groupSettings s))"

definition sess_setGroupVoices :: "string \<Rightarrow> GroupSettingsPatch \<Rightarrow> SessionsState \<Rightarrow> GroupSettings \<times> SessionsState" where
  "sess_setGroupVoices gid patch s =
     (let (stored, gs) = gss_set gid patch (loaded_groups s)
      in (stored, act PublishAlter (announceVoices gid (s\<lparr>ss_groupSettings := gs\<rparr>))))"

definition sess_setGroupMuted :: "string \<Rightarrow> bool \<Rightarrow> SessionsState \<Rightarrow> bool \<times> SessionsState" where
  "sess_setGroupMuted gid muted s =
     (muted, act PublishAlter (s\<lparr>ss_groupSettings := snd (gss_set gid (no_patch\<lparr>gp_muted := Some muted\<rparr>) (loaded_groups s))\<rparr>))"

definition face_noteFriend :: "Friend \<Rightarrow> SessionsState \<Rightarrow> SessionsState" where
  "face_noteFriend f s = act PublishAlter (noteFriend f s)"

fun cancelMemory :: "string list \<Rightarrow> SessionsState \<Rightarrow> nat \<times> SessionsState" where
  "cancelMemory [] s = (0, s)"
| "cancelMemory (i # is) s =
     (let (gone, db) = mem_remove i (ss_memory s); (k, s') = cancelMemory is (s\<lparr>ss_memory := db\<rparr>)
      in ((if gone then 1 else 0) + k, s'))"

definition store_memory :: "Env \<Rightarrow> NewMemory \<Rightarrow> SessionsState \<Rightarrow> (memory_error + MemoryRecord) \<times> SessionsState" where
  "store_memory env m s =
     (case mem_add m (env_uuid env) (env_now env) (ss_memory s) of
        Inl e \<Rightarrow> (Inl e, s)
      | Inr (r, db) \<Rightarrow> (Inr r, s\<lparr>ss_memory := db\<rparr>))"

definition memoryAdd :: "Env \<Rightarrow> NewMemory \<Rightarrow> SessionsState \<Rightarrow> (memory_error + MemoryRecord) \<times> SessionsState" where
  "memoryAdd env m = store_memory env (m\<lparr>nm_sourceCh := ''manual'', nm_origin := Some ManualOrigin\<rparr>)"

definition memoryUpdate :: "string \<Rightarrow> string \<Rightarrow> MemoryScope option \<Rightarrow> SessionsState \<Rightarrow> bool \<times> SessionsState" where
  "memoryUpdate uid content scope s =
     (case mem_update uid content scope (ss_memory s) of
        Inl _ \<Rightarrow> (False, s)
      | Inr (r, db) \<Rightarrow> (r \<noteq> None, s\<lparr>ss_memory := db\<rparr>))"

definition memoryRemove :: "string \<Rightarrow> SessionsState \<Rightarrow> bool \<times> SessionsState" where
  "memoryRemove uid s = (let (gone, db) = mem_remove uid (ss_memory s) in (gone, s\<lparr>ss_memory := db\<rparr>))"

definition remember_channel :: "MemoryScope \<Rightarrow> string" where
  "remember_channel scope = (case scope of Global \<Rightarrow> ''alter'' | SharedGroup _ \<Rightarrow> ''group'' | _ \<Rightarrow> ''agent'')"

definition memoryRemember :: "Env \<Rightarrow> NewMemory \<Rightarrow> SessionsState \<Rightarrow> (memory_error + MemoryRecord) \<times> SessionsState" where
  "memoryRemember env m = store_memory env (m\<lparr>nm_sourceCh := remember_channel (nm_scope m), nm_origin := Some AutoOrigin\<rparr>)"

section \<open>At the end of a turn\<close>

definition agentNameOfSession :: "string \<Rightarrow> SessionsState \<Rightarrow> string option" where
  "agentNameOfSession sid s = map_option fst (find (\<lambda>(name, i). i = sid) (session_names_of s))"

definition calls_tool :: "string \<Rightarrow> EventLike \<Rightarrow> bool" where
  "calls_tool tool e \<longleftrightarrow> ev_type e = ''tool/call'' \<and> jprop (ev_data e) ''name'' = Some (JStr tool)"

definition turnHadGroupSend :: "EventLike list \<Rightarrow> bool" where
  "turnHadGroupSend events =
     (case since_start (rev events) [] of
        None \<Rightarrow> True
      | Some turn \<Rightarrow> list_ex (calls_tool ''soulmirror_send_group_message'') turn)"

definition turnHadRemember :: "EventLike list \<Rightarrow> bool" where
  "turnHadRemember events =
     (case since_start (rev events) [] of
        None \<Rightarrow> False
      | Some turn \<Rightarrow> list_ex (calls_tool ''soulmirror_remember'') turn)"

definition unwatch :: "string \<Rightarrow> SessionsState \<Rightarrow> SessionsState" where
  "unwatch sid s = s\<lparr>ss_groupReplyWatch := al_del sid (ss_groupReplyWatch s)\<rparr>"

definition publish_session :: "string \<Rightarrow> SessionsState \<Rightarrow> SessionsState" where
  "publish_session sid s = (case agentNameOfSession sid s of None \<Rightarrow> s | Some name \<Rightarrow> act (PublishAgent name) s)"

text \<open>
  \<open>nudge_text gid\<close> is the wording of the corrective message. The reason's kind is compared after
  \<open>String(...)\<close>; only the string \<open>completed\<close> itself prints as \<open>completed\<close>, a one-element array of it apart.
\<close>

definition enforceGroupReply :: "Host \<Rightarrow> (string \<Rightarrow> string) \<Rightarrow> Env \<Rightarrow> string \<Rightarrow> unknown \<Rightarrow> SessionsState \<Rightarrow> SessionsState" where
  "enforceGroupReply host nudge_text env sid endData s =
     (case al_get (ss_groupReplyWatch s) sid of
        None \<Rightarrow> s
      | Some w \<Rightarrow>
          (if jprop (jprop endData ''reason'') ''kind'' \<noteq> Some (JStr ''completed'') then unwatch sid s
           else case ho_events host sid of
             None \<Rightarrow> unwatch sid s
           | Some events \<Rightarrow>
               (if turnHadGroupSend events then unwatch sid s
                else if rw_nudged w then unwatch sid s
                else publish_session sid
                  (s\<lparr>ss_groupReplyWatch := al_set sid (w\<lparr>rw_nudged := True\<rparr>) (ss_groupReplyWatch s),
                     ss_nudges := ss_nudges s @
                       [\<lparr>nu_sessionId = sid, nu_gid = rw_gid w, nu_groupName = rw_groupName w,
                         nu_message = ownerMessageFor (env_uuid env) (nudge_text (rw_gid w))\<rparr>]\<rparr>))))"

definition deliver_nudge :: "Host \<Rightarrow> Env \<Rightarrow> nudge \<Rightarrow> SessionsState \<Rightarrow> SessionsState" where
  "deliver_nudge host env u s =
     (if ss_disposed s then s
      else if ho_live host (nu_sessionId u) then act (Followup (nu_sessionId u) (nu_message u)) s
      else case agentNameOfSession (nu_sessionId u) s of
             None \<Rightarrow> s
           | Some name \<Rightarrow>
               (case ar_get (ss_agents s) name of
                  None \<Rightarrow> s
                | Some seat \<Rightarrow>
                    (case ensureAgentSession host env seat (Some (nu_gid u, nu_groupName u)) s of
                       (Inl _, s') \<Rightarrow> s'
                     | (Inr sid, s') \<Rightarrow> act (Followup sid (nu_message u)) s')))"

definition run_nudge :: "Host \<Rightarrow> Env \<Rightarrow> SessionsState \<Rightarrow> SessionsState" where
  "run_nudge host env s = (case ss_nudges s of [] \<Rightarrow> s | u # us \<Rightarrow> deliver_nudge host env u (s\<lparr>ss_nudges := us\<rparr>))"

text \<open>Memory extraction; \<open>llm\<close> is the model service, absent when no default model is configured.\<close>

fun store_memories :: "draws \<Rightarrow> NewMemory list \<Rightarrow> SessionsState \<Rightarrow> MemoryRecord list option \<times> SessionsState" where
  "store_memories envs [] s = (Some [], s)"
| "store_memories envs (m # ms) s =
     (case store_memory (envs 0) m s of
        (Inl _, s') \<Rightarrow> (None, s')
      | (Inr r, s') \<Rightarrow> (case store_memories (later_draws envs) ms s' of (rs, s'') \<Rightarrow> (map_option (Cons r) rs, s'')))"

definition one_line :: "string \<Rightarrow> string" where
  "one_line t = trim (map (\<lambda>c. if c = lf then CHR '' '' else c) t)"

definition runMemoryExtract :: "(MemoryScope \<Rightarrow> string \<Rightarrow> StreamChunk list) option \<Rightarrow> (memory_row list \<Rightarrow> memory_row list) \<Rightarrow> draws \<Rightarrow>
    MemoryScope \<Rightarrow> AllowScopes \<Rightarrow> string \<Rightarrow> SessionsState \<Rightarrow> SessionsState" where
  "runMemoryExtract llm plan envs scope allow smry s =
     (case llm of
        None \<Rightarrow> s
      | Some model \<Rightarrow>
          (if trim smry = [] then s
           else (let existing = map mr_content (mem_list plan allow (ss_memory s));
                     s1 = act (Emit (EMemoryExtracting (nonempty_opt (take 24 (one_line smry))))) s
                 in case extractMemories model smry existing scope of
                      None \<Rightarrow> act (Emit (EMemoryExtracted 0 None)) s1
                    | Some ms \<Rightarrow>
                        (case store_memories envs ms s1 of
                           (None, s2) \<Rightarrow> act (Emit (EMemoryExtracted 0 None)) s2
                         | (Some saved, s2) \<Rightarrow>
                             act (Emit (EMemoryExtracted (length saved) (Some (map (\<lambda>r. (mr_uid r, mr_content r)) saved)))) s2))))"

definition MEMORY_GROUP_WINDOW :: int where "MEMORY_GROUP_WINDOW = 50"

definition group_summary :: "ConversationEntry list \<Rightarrow> string" where
  "group_summary es =
     join_with [lf] (map (\<lambda>e. (case ce_from e of None \<Rightarrow> ''member'' | Some f \<Rightarrow> f) @ '': '' @ ce_body e) es)"

definition summarizeGroupMemories :: "'n NetworkClient \<Rightarrow> 'n \<Rightarrow> (MemoryScope \<Rightarrow> string \<Rightarrow> StreamChunk list) option \<Rightarrow>
    (memory_row list \<Rightarrow> memory_row list) \<Rightarrow> draws \<Rightarrow> string \<Rightarrow> SessionsState \<Rightarrow> SessionsState" where
  "summarizeGroupMemories client n llm plan envs gid s =
     (if ss_disposed s then s
      else case nc_groups_conversation client gid None (Some MEMORY_GROUP_WINDOW) n of
             Inl _ \<Rightarrow> s
           | Inr es \<Rightarrow> runMemoryExtract llm plan envs (SharedGroup gid)
               \<lparr>al_global = True, al_agent = None, al_friend = None, al_group = Some gid\<rparr> (group_summary es) s)"

section \<open>Live events\<close>

definition AGENT_EVENT_TYPES :: "string list" where
  "AGENT_EVENT_TYPES = ALTER_EVENT_TYPES @ [''assistant/chunk'', ''reasoning-chunks'']"

text \<open>\<open>ellipsis\<close> is the character that marks a cut clue.\<close>

definition owner_clue :: "string \<Rightarrow> unknown \<Rightarrow> string option" where
  "owner_clue ellipsis d =
     (let t = one_line (textOf (jprop d ''content'')) in nonempty_opt (if length t > 24 then take 24 t @ ellipsis else t))"

definition note_listening :: "string \<Rightarrow> EventLike \<Rightarrow> SessionsState \<Rightarrow> SessionsState" where
  "note_listening ellipsis e s =
     (if ev_type e = ''user/message'' \<and> classifyUserMessage (ev_data e) = COwner
      then act (Emit (EMemoryExtracting (owner_clue ellipsis (ev_data e)))) s else s)"

definition note_nothing_kept :: "EventLike list \<Rightarrow> EventLike \<Rightarrow> SessionsState \<Rightarrow> SessionsState" where
  "note_nothing_kept events e s =
     (if ev_type e = ''turn/end'' \<and> trig_kind (triggerOf events) = TOwner \<and> \<not> turnHadRemember events
      then act (Emit (EMemoryExtracted 0 None)) s else s)"

definition on_session_event :: "Host \<Rightarrow> (string \<Rightarrow> string) \<Rightarrow> string \<Rightarrow> Env \<Rightarrow> string \<Rightarrow> EventLike list \<Rightarrow> EventLike \<Rightarrow> SessionsState \<Rightarrow> SessionsState" where
  "on_session_event host nudge_text ellipsis env sid events e s =
     (if ss_disposed s then s
      else (let ours = (ss_alterId s = Some sid \<or> agentNameOfSession sid s \<noteq> None);
                s1 = (if ours then note_nothing_kept events e (note_listening ellipsis e s) else s)
            in if ss_alterId s1 = Some sid then (if ev_type e \<in> set ALTER_EVENT_TYPES then act PublishAlter s1 else s1)
               else if ev_type e \<notin> set AGENT_EVENT_TYPES then s1
               else (let s2 = publish_session sid s1
                     in if ev_type e = ''turn/end'' then enforceGroupReply host nudge_text env sid (ev_data e) s2 else s2)))"

definition agentGroupOfSession :: "string \<Rightarrow> SessionsState \<Rightarrow> (string \<times> string) option" where
  "agentGroupOfSession sid s =
     map_option (\<lambda>(name, gid, i). (name, gid))
       (find (\<lambda>(name, gid, i). i = sid)
         (concat (map (\<lambda>(name, byGid). map (\<lambda>(gid, i). (name, gid, i)) byGid) (ss_agentGroupSessionIds s))))"

definition work_done :: "string \<Rightarrow> SessionsState \<Rightarrow> SessionsState" where
  "work_done sid s =
     (case agentGroupOfSession sid s of
        None \<Rightarrow> s
      | Some (name, gid) \<Rightarrow>
          (if work_key name gid \<notin> set (ss_groupWorkTyping s) then s
           else (let s1 = s\<lparr>ss_groupWorkTyping := removeAll (work_key name gid) (ss_groupWorkTyping s)\<rparr>
                 in case ar_get (ss_agents s) name of
                      None \<Rightarrow> s1
                    | Some seat \<Rightarrow> act (GroupTyping gid False (sa_name seat)) s1)))"

definition on_agent_status :: "string \<Rightarrow> bool \<Rightarrow> SessionsState \<Rightarrow> SessionsState" where
  "on_agent_status sid running s =
     (if ss_disposed s then s
      else if ss_alterId s = Some sid then act PublishAlter s
      else (let s1 = publish_session sid s in if running then s1 else work_done sid s1))"

section \<open>Start and dispatch\<close>

definition note_friend_row :: "Friend \<Rightarrow> SessionsState \<Rightarrow> SessionsState" where
  "note_friend_row f s =
     (let s1 = noteFriend f s in
      if fr_unread f > 0 then s1\<lparr>ss_unreadByFp := al_set (fr_fp f) (fr_unread f) (ss_unreadByFp s1)\<rparr> else s1)"

definition bootstrapFriends :: "'n NetworkClient \<Rightarrow> 'n \<Rightarrow> Host \<Rightarrow> SessionsState \<Rightarrow> (session_error + unit) \<times> SessionsState" where
  "bootstrapFriends client n host s =
     (let s1 = snd (refreshGroups client n (refreshOwner client n s)) in
      case nc_friends_list client n of
        Inl e \<Rightarrow> (Inl (NetFailed e), s1)
      | Inr fs \<Rightarrow>
          (if ss_disposed s1 \<and> fs \<noteq> [] then (Inr (), s1)
           else (Inr (), announceAllGroups (rename_alter host (fold note_friend_row fs s1)))))"

definition dispatch :: "'n NetworkClient \<Rightarrow> 'n \<Rightarrow> Host \<Rightarrow> draws \<Rightarrow> NetworkEvent \<Rightarrow> SessionsState \<Rightarrow> SessionsState" where
  "dispatch client n host envs ev s =
     (if ss_disposed s then s
      else case ev of
        NMessage m \<Rightarrow> snd (deliver client n host envs m s)
      | NFriendAccept f \<Rightarrow> act PublishAlter (noteFriend f s)
      | NGroupMessage gid m \<Rightarrow> snd (deliverGroup client n host envs gid m s)
      | NGroupUpdate gid \<Rightarrow> snd (groupOf client n gid (s\<lparr>ss_groupsByGid := al_del gid (ss_groupsByGid s)\<rparr>))
      | NStatus st \<Rightarrow> (if st = ''ready'' then snd (bootstrapFriends client n host s) else s)
      | _ \<Rightarrow> s)"

definition load_stores :: "SessionsState \<Rightarrow> SessionsState" where
  "load_stores s =
     s\<lparr>ss_friendSettings := fss_load (ss_friendSettings s), ss_drafts := ds_load (ss_drafts s),
       ss_groupSettings := gss_load (ss_groupSettings s), ss_agents := ar_load (ss_agents s)\<rparr>"

fun ensure_agents :: "Host \<Rightarrow> draws \<Rightarrow> SeatAgent list \<Rightarrow> SessionsState \<Rightarrow> SessionsState" where
  "ensure_agents host envs [] s = s"
| "ensure_agents host envs (seat # seats) s =
     ensure_agents host (later_draws envs) seats (snd (ensureAgentSession host (envs 0) seat None s))"

definition sess_bootstrap :: "'n NetworkClient \<Rightarrow> 'n \<Rightarrow> Host \<Rightarrow> draws \<Rightarrow> SessionsState \<Rightarrow> SessionsState" where
  "sess_bootstrap client n host envs s =
     (let s1 = snd (bootstrapFriends client n host (loadMap (load_stores s))) in
      case ensureAlter host (envs 0) s1 of
        (Inl _, s2) \<Rightarrow> s2
      | (Inr _, s2) \<Rightarrow> persistMap (ensure_agents host (later_draws envs) (ar_list (ss_agents s2)) s2))"

definition sess_dispose :: "SessionsState \<Rightarrow> SessionsState" where
  "sess_dispose s = s\<lparr>ss_disposed := True\<rparr>"

section \<open>Deciding a draft\<close>

lemma appendNote_fields [simp]: "ss_drafts (appendNote host envs k d t s) = ss_drafts s"
proof -
  obtain r s1 where e: "ensureAlter host (envs 0) s = (r, s1)" by fastforce
  then show ?thesis using quietly_fields(5) [OF ensureAlter_quietly [OF e]]
    by (cases r) (auto simp: appendNote_def act_def)
qed

lemma instruct_drafts: "ss_drafts (snd (instruct client n host envs t s)) = ss_drafts s"
proof -
  obtain r s1 where e: "ensureAlter host (envs 0) (with_owner_name client n s) = (r, s1)" by fastforce
  have "ss_drafts (with_owner_name client n s) = ss_drafts s"
    by (auto simp: with_owner_name_def refreshOwner_def split: sum.splits option.splits)
  then show ?thesis using e quietly_fields(5) [OF ensureAlter_quietly [OF e]]
    by (cases r) (auto simp: instruct_def Let_def act_def)
qed

lemma finish_approve_drafts [simp]: "ss_drafts (finish_approve host envs d body e s) = ss_drafts s"
  by (simp add: finish_approve_def act_def)

lemma note_repliers_drafts [simp]: "ss_drafts (note_repliers client n now d gid body s) = ss_drafts s"
  by (auto simp: note_repliers_def noteAwaitReply_def split: option.splits sum.splits)

lemma discard_drafts [simp]: "ss_drafts (discard host envs d kind note t s) = ss_drafts (remove_draft (d_id d) s)"
  by (simp add: discard_def act_def)

lemma remove_draft_drafts: "ds_get (ss_drafts (remove_draft i s)) j = (if j = i then None else ds_get (ss_drafts s) j)"
  by (simp add: remove_draft_def ds_get_remove)

lemma ds_get_id: "ds_get s i = Some d \<Longrightarrow> d_id d = i"
  by (auto simp: ds_get_def find_Some_iff)

text \<open>The one call an approval makes.\<close>

definition approved_send :: "'n NetworkClient \<Rightarrow> Env \<Rightarrow> PendingDraft \<Rightarrow> string \<Rightarrow> 'n \<Rightarrow> bool \<times> 'n" where
  "approved_send client env d body n =
     (case d_gid d of
        Some gid \<Rightarrow> (let (r, n') = nc_groups_send client env gid body (group_options False (d_agent d)) n in (isl r, n'))
      | None \<Rightarrow> (let (r, n') = nc_send client env (d_fp d) body False n in (isl r, n')))"

lemma approve_effect:
  assumes "ds_get (ss_drafts s) i = Some d" "trimEnd (case b of None \<Rightarrow> d_body d | Some x \<Rightarrow> x) = body" "body \<noteq> []"
    "decideDraft client host envs i (Approve b) s n = ((res, s'), n')"
  shows "n' = snd (approved_send client (envs 0) d body n) \<and>
    (if fst (approved_send client (envs 0) d body n) then (\<exists>e. res = Inl (NetFailed e)) \<and> s' = s
     else (\<exists>e. res = Inr (d, Some e)) \<and> (\<forall>j. ds_get (ss_drafts s') j = (if j = i then None else ds_get (ss_drafts s) j)))"
proof (cases "d_gid d")
  case None
  obtain r n1 where r: "nc_send client (envs 0) (d_fp d) body False n = (r, n1)" by fastforce
  show ?thesis using assms None r ds_get_id [OF assms(1)]
    by (cases r) (auto simp: decideDraft_def approve_mail_def sendAndArchive_def approved_send_def remove_draft_drafts)
next
  case (Some gid)
  obtain r n1 where r: "nc_groups_send client (envs 0) gid body (group_options False (d_agent d)) n = (r, n1)" by fastforce
  show ?thesis using assms Some r ds_get_id [OF assms(1)]
    by (cases r) (auto simp: decideDraft_def approve_group_def approved_send_def remove_draft_drafts Let_def)
qed

text \<open>
  C10. A draft is decided once, and only an approval sends. Deciding an id that is not pending is an error
  and changes nothing. An approval, of the stored text or of the owner's edit with trailing white space
  cut, makes exactly one send, to the draft's friend or into its group and never with the automatic flag;
  when it fails the draft stays pending and nothing else changed, when it succeeds exactly this draft is
  gone. Rejecting or sending back for revision never touches the network and removes exactly this draft;
  an empty text or empty feedback is refused and changes nothing.
\<close>

theorem draft_decided_once:
  assumes "decideDraft client host envs i decision s n = ((res, s'), n')"
  shows "case ds_get (ss_drafts s) i of
      None \<Rightarrow> res = Inl (DraftNotPending i) \<and> s' = s \<and> n' = n
    | Some d \<Rightarrow>
        (case decision of
           Approve b \<Rightarrow>
             (let body = trimEnd (case b of None \<Rightarrow> d_body d | Some x \<Rightarrow> x) in
              if body = [] then res = Inl EmptyBody \<and> s' = s \<and> n' = n
              else n' = snd (approved_send client (envs 0) d body n) \<and>
                (if fst (approved_send client (envs 0) d body n) then (\<exists>e. res = Inl (NetFailed e)) \<and> s' = s
                 else (\<exists>e. res = Inr (d, Some e)) \<and> (\<forall>j. ds_get (ss_drafts s') j = (if j = i then None else ds_get (ss_drafts s) j))))
         | Reject \<Rightarrow> n' = n \<and> res = Inr (d, None) \<and> (\<forall>j. ds_get (ss_drafts s') j = (if j = i then None else ds_get (ss_drafts s) j))
         | Revise fb \<Rightarrow> n' = n \<and>
             (if trimEnd fb = [] then res = Inl EmptyFeedback \<and> s' = s
              else \<forall>j. ds_get (ss_drafts s') j = (if j = i then None else ds_get (ss_drafts s) j)))"
proof (cases "ds_get (ss_drafts s) i")
  case None
  then show ?thesis using assms by (auto simp: decideDraft_def)
next
  case (Some d)
  show ?thesis
  proof (cases decision)
    case (Approve b)
    let ?body = "trimEnd (case b of None \<Rightarrow> d_body d | Some x \<Rightarrow> x)"
    show ?thesis
    proof (cases "?body = []")
      case True
      then show ?thesis using assms Some Approve by (auto simp: decideDraft_def)
    next
      case False
      then show ?thesis using approve_effect [OF Some refl False, of client host envs n res s' n'] assms Some Approve by (simp add: Let_def)
    qed
  next
    case Reject
    then show ?thesis using assms Some ds_get_id [OF Some] by (auto simp: decideDraft_def remove_draft_drafts)
  next
    case (Revise fb)
    show ?thesis
    proof (cases "trimEnd fb = []")
      case True
      then show ?thesis using assms Some Revise by (auto simp: decideDraft_def)
    next
      case False
      let ?s1 = "discard host envs d WasRevise DraftRevise (revised_note d) s"
      have "ss_drafts s' = ss_drafts (remove_draft i s) \<and> n' = n"
        using assms Some Revise False instruct_drafts [of client n host "later_draws envs" "revise_instruction d (trimEnd fb)" ?s1] ds_get_id [OF Some]
        by (auto simp: decideDraft_def split: prod.splits sum.splits)
      then show ?thesis using Some Revise False remove_draft_drafts [of i s] by simp
    qed
  qed
qed

definition pending_sessions :: SessionsState where
  "pending_sessions =
     snd (queueDraft (sample_draws 9) \<lparr>di_fp = ALICE_FP, di_gid = None, di_name = None, di_body = ''see you'', di_reason = ''draft-tier'',
       di_trigger = None, di_sessionId = None, di_agent = None\<rparr> fresh_sessions)"

theorem draft_decided_once_witness:
  "\<exists>s'. decideDraft fake_client (open_host (\<lambda>_. None)) sample_draws ''draft-u9'' Reject pending_sessions (createFake False) =
     ((Inr (hd (ds_drafts (ss_drafts pending_sessions)), None), s'), createFake False) \<and> ds_get (ss_drafts s') ''draft-u9'' = None"
proof -
  let ?call = "decideDraft fake_client (open_host (\<lambda>_. None)) sample_draws ''draft-u9'' Reject pending_sessions (createFake False)"
  obtain res s' n' where c: "?call = ((res, s'), n')" by (metis prod.collapse)
  have "ds_get (ss_drafts pending_sessions) ''draft-u9'' = Some (hd (ds_drafts (ss_drafts pending_sessions)))" by code_simp
  then show ?thesis using draft_decided_once [OF c] c by simp
qed

section \<open>The reply check\<close>

definition armed :: "string \<Rightarrow> SessionsState \<Rightarrow> nat" where
  "armed sid s = (case al_get (ss_groupReplyWatch s) sid of None \<Rightarrow> 0 | Some w \<Rightarrow> (if rw_nudged w then 0 else 1))"

lemma publish_session_frame [simp]:
  "ss_nudges (publish_session sid s) = ss_nudges s" "ss_groupReplyWatch (publish_session sid s) = ss_groupReplyWatch s"
  by (simp_all add: publish_session_def act_def split: option.splits)

lemma enforce_step: "length (ss_nudges (enforceGroupReply host wording env sid d s)) + armed sid (enforceGroupReply host wording env sid d s) \<le> length (ss_nudges s) + armed sid s"
  by (auto simp: enforceGroupReply_def armed_def unwatch_def split: option.splits)

lemma enforce_nudge:
  assumes "ss_nudges (enforceGroupReply host wording env sid d s) \<noteq> ss_nudges s"
  shows "\<exists>w evs. al_get (ss_groupReplyWatch s) sid = Some w \<and> \<not> rw_nudged w \<and> ho_events host sid = Some evs \<and> \<not> turnHadGroupSend evs \<and>
    jprop (jprop d ''reason'') ''kind'' = Some (JStr ''completed'')"
  using assms by (auto simp: enforceGroupReply_def unwatch_def split: option.splits if_splits)

text \<open>
  A silent agent is reminded at most once per wake. Over any sequence of turn ends of a group
  session, without a new wake in between, at most one corrective message is queued, and none when no
  reply was being waited for or the reminder was already given; one is queued only at the end of a
  turn that completed without calling the group send tool.
\<close>

theorem one_nudge_per_wake:
  "length (ss_nudges (fold (\<lambda>(host, env, d). enforceGroupReply host wording env sid d) ends s)) \<le> length (ss_nudges s) + armed sid s \<and>
   (ss_nudges (enforceGroupReply host wording env sid d s) \<noteq> ss_nudges s \<longrightarrow>
      (\<exists>w evs. al_get (ss_groupReplyWatch s) sid = Some w \<and> \<not> rw_nudged w \<and> ho_events host sid = Some evs \<and> \<not> turnHadGroupSend evs \<and>
         jprop (jprop d ''reason'') ''kind'' = Some (JStr ''completed'')))"
proof -
  have "length (ss_nudges (fold (\<lambda>(host, env, d). enforceGroupReply host wording env sid d) ends s)) +
      armed sid (fold (\<lambda>(host, env, d). enforceGroupReply host wording env sid d) ends s) \<le> length (ss_nudges s) + armed sid s"
  proof (induction ends arbitrary: s)
    case (Cons e ends)
    obtain host env d where "e = (host, env, d)" by (cases e) auto
    then show ?case using Cons.IH [of "enforceGroupReply host wording env sid d s"] enforce_step [of host wording env sid d s] by simp
  qed simp
  then show ?thesis using enforce_nudge [of host wording env sid d s] by (meson add_leD1)
qed

theorem one_nudge_per_wake_witness:
  "ss_nudges (enforceGroupReply (open_host (\<lambda>_. Some [\<lparr>ev_type = ''turn/start'', ev_seq = 0, ev_time = 0, ev_data = None\<rparr>])) (\<lambda>g. g)
     (sample_draws 0) ''s1'' (Some (JObj [(''reason'', JObj [(''kind'', JStr ''completed'')])]))
     (fresh_sessions\<lparr>ss_groupReplyWatch := [(''s1'', \<lparr>rw_gid = ''g'', rw_groupName = ''crew'', rw_nudged = False\<rparr>)]\<rparr>)) \<noteq> [] \<and>
   \<not> turnHadGroupSend [\<lparr>ev_type = ''turn/start'', ev_seq = 0, ev_time = 0, ev_data = None\<rparr>]"
proof -
  let ?log = "[\<lparr>ev_type = ''turn/start'', ev_seq = 0, ev_time = 0, ev_data = None\<rparr>]"
  let ?s = "fresh_sessions\<lparr>ss_groupReplyWatch := [(''s1'', \<lparr>rw_gid = ''g'', rw_groupName = ''crew'', rw_nudged = False\<rparr>)]\<rparr>"
  have "length (ss_nudges (enforceGroupReply (open_host (\<lambda>_. Some ?log)) (\<lambda>g. g) (sample_draws 0) ''s1''
      (Some (JObj [(''reason'', JObj [(''kind'', JStr ''completed'')])])) ?s)) = 1" by code_simp
  moreover have "ss_nudges ?s = []" by code_simp
  ultimately show ?thesis
    using one_nudge_per_wake [of "\<lambda>g. g" "''s1''" "[]" ?s "open_host (\<lambda>_. Some ?log)" "sample_draws 0" "Some (JObj [(''reason'', JObj [(''kind'', JStr ''completed'')])])"]
    by (auto simp: open_host_def)
qed

end
