(* ===== verification/Session_Map.thy ===== *)
theory Session_Map
  imports Session_Control
begin

text \<open>
  Which session belongs to whom (\<^verbatim>\<open>src/dsh/packages/dsh/src/sessions/index.ts\<close>, \<open>persistMap\<close>, the
  reading of the map at start, \<open>ensureAlter\<close>, \<open>ensureAgentSession\<close>, \<open>removeAgent\<close>, \<open>voiceOf\<close>). The maps
  the plugin keeps implement one partial function from slots (the alter, an agent's direct chat, an
  agent in a group) to session ids; the lemmas state each operation on that function, and the
  properties follow: a restart finds every session again, no two slots share a session, and a
  session speaks with the voice of its slot.
\<close>

section \<open>Slots\<close>

datatype slot = AlterSlot | DirectSlot string | GroupSlot string string

fun slot_id :: "SessionsState \<Rightarrow> slot \<Rightarrow> string option" where
  "slot_id s AlterSlot = ss_alterId s"
| "slot_id s (DirectSlot name) = al_get (ss_agentSessionIds s) name"
| "slot_id s (GroupSlot name gid) =
     (case al_get (ss_agentGroupSessionIds s) name of None \<Rightarrow> None | Some m \<Rightarrow> al_get m gid)"

definition slot_of :: "SeatAgent \<Rightarrow> session_group \<Rightarrow> slot" where
  "slot_of seat g = (case g of None \<Rightarrow> DirectSlot (sa_name seat) | Some (gid, _) \<Rightarrow> GroupSlot (sa_name seat) gid)"

lemma known_session_slot: "known_session seat g s = slot_id s (slot_of seat g)"
  by (auto simp: known_session_def slot_of_def split: option.splits)

definition ids_ok :: "(string, string) al \<Rightarrow> bool" where
  "ids_ok m \<longleftrightarrow> al_wf m \<and> (\<forall>k v. al_get m k = Some v \<longrightarrow> v \<noteq> [])"

definition map_ok :: "SessionsState \<Rightarrow> bool" where
  "map_ok s \<longleftrightarrow> ids_ok (ss_agentSessionIds s) \<and> al_wf (ss_agentGroupSessionIds s) \<and>
     (\<forall>a m. al_get (ss_agentGroupSessionIds s) a = Some m \<longrightarrow> ids_ok m) \<and> ss_alterId s \<noteq> Some []"

lemma ids_ok_Nil [simp]: "ids_ok []"
  by (simp add: ids_ok_def)

lemma ids_ok_set: "ids_ok m \<Longrightarrow> v \<noteq> [] \<Longrightarrow> ids_ok (al_set k v m)"
  by (auto simp: ids_ok_def split: if_splits)

lemma ids_ok_del: "ids_ok m \<Longrightarrow> ids_ok (al_del k m)"
  by (auto simp: ids_ok_def split: if_splits)

lemma remember_slot:
  "slot_id (remember_session seat g sid s) = (slot_id s)(slot_of seat g \<mapsto> sid)"
proof
  fix x show "slot_id (remember_session seat g sid s) x = ((slot_id s)(slot_of seat g \<mapsto> sid)) x"
    by (cases x) (auto simp: remember_session_def slot_of_def Let_def split: option.splits)
qed

lemma forget_slot: "slot_id (forget_session seat g s) = (slot_id s)(slot_of seat g := None)"
proof
  fix x show "slot_id (forget_session seat g s) x = ((slot_id s)(slot_of seat g := None)) x"
    by (cases x) (auto simp: forget_session_def slot_of_def split: option.splits)
qed

lemma map_ok_remember: "map_ok s \<Longrightarrow> sid \<noteq> [] \<Longrightarrow> map_ok (remember_session seat g sid s)"
  by (auto simp: map_ok_def remember_session_def Let_def ids_ok_set split: option.splits)

lemma map_ok_forget: "map_ok s \<Longrightarrow> map_ok (forget_session seat g s)"
  by (auto simp: map_ok_def forget_session_def ids_ok_del split: option.splits)

lemma slot_frame:
  "slot_id (act a s) = slot_id s" "slot_id (renameSession i s) = slot_id s" "slot_id (persistMap s) = slot_id s"
  "slot_id (s\<lparr>ss_alterId := a'\<rparr>) = (slot_id s)(AlterSlot := a')"
proof (rule_tac [!] ext)
  fix x show "slot_id (act a s) x = slot_id s x" "slot_id (renameSession i s) x = slot_id s x" "slot_id (persistMap s) x = slot_id s x"
    "slot_id (s\<lparr>ss_alterId := a'\<rparr>) x = ((slot_id s)(AlterSlot := a')) x"
    by (cases x; simp add: act_def renameSession_def persistMap_def Let_def)+
qed

lemma map_ok_frame [simp]:
  "map_ok (act a s) = map_ok s" "map_ok (renameSession i s) = map_ok s" "map_ok (persistMap s) = map_ok s"
  by (simp_all add: map_ok_def act_def renameSession_def persistMap_def Let_def)

lemma map_ok_alter: "map_ok s \<Longrightarrow> a \<noteq> Some [] \<Longrightarrow> map_ok (s\<lparr>ss_alterId := a\<rparr>)"
  by (simp add: map_ok_def)

section \<open>Opening sessions, on slots\<close>

text \<open>The file on disk is the map in memory.\<close>

definition saved :: "SessionsState \<Rightarrow> bool" where
  "saved s \<longleftrightarrow> ss_mapFile s = Some (session_map_json s)"

lemma saved_frame [simp]: "saved (act a s) = saved s" "saved (renameSession i s) = saved s" "saved (persistMap s)"
  by (simp_all add: saved_def act_def renameSession_def persistMap_def session_map_json_def Let_def)

definition new_id :: "Env \<Rightarrow> string" where
  "new_id env = ''session-'' @ env_uuid env"

lemma new_id_neq [simp]: "new_id env \<noteq> []" "Some (new_id env) \<noteq> Some []"
  by (simp_all add: new_id_def)

text \<open>What opening a slot does: it answers the id of the slot, which is the old one or a new one.\<close>

definition opens :: "slot \<Rightarrow> Env \<Rightarrow> SessionsState \<Rightarrow> (session_error + string) \<times> SessionsState \<Rightarrow> bool" where
  "opens x env s out \<longleftrightarrow> (map_ok s \<longrightarrow> map_ok (snd out)) \<and>
     (case fst out of
        Inl _ \<Rightarrow> slot_id (snd out) = (slot_id s)(x := None) \<or> slot_id (snd out) = slot_id s
      | Inr sid \<Rightarrow> slot_id (snd out) = (slot_id s)(x \<mapsto> sid) \<and> (slot_id s x = Some sid \<or> sid = new_id env) \<and> (saved s \<longrightarrow> saved (snd out)))"

lemma create_agent_opens: "opens (slot_of seat g) env s (create_agent host env seat g s)"
  by (auto simp: opens_def create_agent_def Let_def slot_frame remember_slot new_id_def map_ok_remember)

lemma opens_forget: "opens x env (forget_session seat g s) out \<Longrightarrow> x = slot_of seat g \<Longrightarrow>
    (\<And>sid. fst out = Inr sid \<Longrightarrow> saved (snd out)) \<Longrightarrow> opens x env s out"
  by (auto simp: opens_def forget_slot map_ok_forget split: sum.splits)

lemma ensureAgentSession_opens: "opens (slot_of seat g) env s (ensureAgentSession host env seat g s)"
proof (cases "known_session seat g s")
  case None
  then show ?thesis using create_agent_opens by (simp add: ensureAgentSession_def)
next
  case (Some k)
  have idle: "(slot_id s)(slot_of seat g \<mapsto> k) = slot_id s" using Some by (auto simp: known_session_slot)
  have again: "opens (slot_of seat g) env s (create_agent host env seat g (forget_session seat g s))"
    by (rule opens_forget [OF create_agent_opens refl]) (auto simp: create_agent_def Let_def)
  show ?thesis using Some again idle
    by (auto simp: ensureAgentSession_def opens_def slot_frame known_session_slot)
qed

lemma create_alter_opens: "opens AlterSlot env s (create_alter host env s)"
  by (auto simp: opens_def create_alter_def Let_def slot_frame new_id_def map_ok_alter)

lemma ensureAlterInner_opens: "opens AlterSlot env s (ensureAlterInner host env s)"
proof (cases "ss_alterId s")
  case None
  then show ?thesis using create_alter_opens by (simp add: ensureAlterInner_def)
next
  case (Some a)
  have idle: "(slot_id s)(AlterSlot \<mapsto> a) = slot_id s" using Some by auto
  have again: "opens AlterSlot env s (create_alter host env (s\<lparr>ss_alterId := None\<rparr>))"
    by (auto simp: opens_def create_alter_def Let_def slot_frame new_id_def map_ok_alter)
  show ?thesis using Some again idle
    by (auto simp: ensureAlterInner_def opens_def slot_frame)
qed

lemma ensureAlter_opens: "opens AlterSlot env s (ensureAlter host env s)"
  using ensureAlterInner_opens [of env s host]
  by (auto simp: ensureAlter_def opens_def slot_frame split: prod.splits sum.splits option.splits)

section \<open>The file reads back\<close>

lemma ids_loop_json:
  "al_wf (acc @ m) \<Longrightarrow> (\<forall>(k, v) \<in> set m. v \<noteq> []) \<Longrightarrow> ids_loop (map (\<lambda>(k, v). (k, JStr v)) m) acc = acc @ m"
proof (induction m arbitrary: acc)
  case (Cons e m)
  obtain k v where e: "e = (k, v)" by fastforce
  have "al_get acc k = None" using Cons.prems(1) e by (auto simp: al_wf_def al_get_eq_None)
  then show ?case using Cons.IH [of "acc @ [(k, v)]"] Cons.prems e by (simp add: al_set_absent)
qed simp

lemma ids_ok_mem: "ids_ok m \<Longrightarrow> al_wf m \<and> (\<forall>(k, v) \<in> set m. v \<noteq> [])"
  unfolding ids_ok_def by (metis (mono_tags, lifting) al_mem_iff case_prodI2)

lemma str_map_props [simp]: "is_object (Some (str_map_json m))" "str_map_json m \<noteq> JNull" "obj_entries (Some (str_map_json m)) = map (\<lambda>(k, v). (k, JStr v)) m"
  by (simp_all add: str_map_json_def)

lemma ids_of_json: "ids_ok m \<Longrightarrow> ids_loop (obj_entries (Some (str_map_json m))) [] = m"
  using ids_loop_json [of "[]" m] ids_ok_mem [of m] by simp

lemma group_ids_loop_json:
  "al_wf (acc @ gs) \<Longrightarrow> (\<forall>(a, m) \<in> set gs. ids_ok m \<and> m \<noteq> []) \<Longrightarrow>
   group_ids_loop (map (\<lambda>(a, m). (a, str_map_json m)) gs) acc = acc @ gs"
proof (induction gs arbitrary: acc)
  case (Cons e gs)
  obtain a m where e: "e = (a, m)" by fastforce
  have "al_get acc a = None" using Cons.prems(1) e by (auto simp: al_wf_def al_get_eq_None)
  moreover have "ids_loop (map (\<lambda>(k, v). (k, JStr v)) m) [] = m" "m \<noteq> []" using Cons.prems(2) e ids_of_json [of m] by auto
  ultimately show ?case using Cons.IH [of "acc @ [(a, m)]"] Cons.prems e by (simp add: al_set_absent Let_def)
qed simp

lemma legacy_json: "List.map_filter (\<lambda>(k, v). map_option (Pair k) (str_opt (Some v))) (map (\<lambda>(k, v). (k, JStr v)) m) = m"
  by (induction m) (auto simp: List.map_filter_def)

lemma session_map_props:
  "jprop (Some (session_map_json s)) ''alterSessionId'' = map_option JStr (ss_alterId s)"
  "jprop (Some (session_map_json s)) ''agentSessions'' = (if ss_agentSessionIds s = [] then None else Some (str_map_json (ss_agentSessionIds s)))"
  "jprop (Some (session_map_json s)) ''agentGroupSessions'' =
     (let gs = filter (\<lambda>(a, m). m \<noteq> []) (ss_agentGroupSessionIds s) in if gs = [] then None else Some (JObj (map (\<lambda>(a, m). (a, str_map_json m)) gs)))"
  "jprop (Some (session_map_json s)) ''legacyFriendSessions'' = (if ss_legacy s = [] then None else Some (str_map_json (ss_legacy s)))"
  "jprop (Some (session_map_json s)) ''sessions'' = None"
  by (simp_all add: session_map_json_def Let_def del: map_of_append)

text \<open>A plugin started on the file: its maps are empty before the file is read.\<close>

definition restarted :: "SessionsState \<Rightarrow> SessionsState" where
  "restarted s =
     loadMap (s\<lparr>ss_alterId := None, ss_legacy := [], ss_agentSessionIds := [], ss_agentGroupSessionIds := []\<rparr>)"

lemma al_get_filter: "al_wf m \<Longrightarrow> al_get (filter (\<lambda>(k, v). P v) m) k = (case al_get m k of Some v \<Rightarrow> (if P v then Some v else None) | None \<Rightarrow> None)"
proof (induction m)
  case (Cons e m)
  obtain j v where e: "e = (j, v)" by fastforce
  have "al_get m j = None" if "j = k" using Cons.prems that by (simp add: e al_wf_Cons al_get_eq_None)
  then show ?case using Cons by (auto simp: e al_wf_Cons split: option.splits)
qed simp

lemma restarted_maps:
  assumes "map_ok s" "saved s"
  shows "ss_alterId (restarted s) = ss_alterId s" "ss_agentSessionIds (restarted s) = ss_agentSessionIds s"
    "ss_agentGroupSessionIds (restarted s) = filter (\<lambda>(a, m). m \<noteq> []) (ss_agentGroupSessionIds s)" "ss_legacy (restarted s) = ss_legacy s"
proof -
  let ?gs = "filter (\<lambda>(a, m). m \<noteq> []) (ss_agentGroupSessionIds s)"
  have disk: "ss_mapFile s = Some (session_map_json s)" using assms(2) by (simp add: saved_def)
  have wf: "al_wf ?gs" using assms(1) by (auto simp: map_ok_def al_wf_def intro: distinct_map_filter)
  have ok: "\<forall>(a, m) \<in> set ?gs. ids_ok m \<and> m \<noteq> []"
    using assms(1) by (auto simp: map_ok_def al_mem_iff)
  show "ss_alterId (restarted s) = ss_alterId s"
    using assms(1) by (cases "ss_alterId s") (auto simp: restarted_def loadMap_def Let_def disk session_map_props map_ok_def)
  show "ss_agentSessionIds (restarted s) = ss_agentSessionIds s"
    using assms(1) ids_of_json by (auto simp: restarted_def loadMap_def Let_def disk session_map_props map_ok_def simp del: str_map_props(3))
  show "ss_agentGroupSessionIds (restarted s) = ?gs"
    using group_ids_loop_json [of "[]" ?gs] wf ok by (simp add: restarted_def loadMap_def Let_def disk session_map_props)
  show "ss_legacy (restarted s) = ss_legacy s"
    by (simp add: restarted_def loadMap_def Let_def disk legacy_of_def session_map_props legacy_json)
qed

lemma restarted_slots:
  assumes "map_ok s" "saved s"
  shows "slot_id (restarted s) = slot_id s"
proof
  fix x show "slot_id (restarted s) x = slot_id s x"
    using assms al_get_filter [of "ss_agentGroupSessionIds s" "\<lambda>m. m \<noteq> []"]
    by (cases x) (auto simp: restarted_maps map_ok_def split: option.splits)
qed

section \<open>Reachable maps\<close>

text \<open>
  Any history of the plugin as far as its session map is concerned: opening sessions, removing an
  agent, restarting on the saved file, and steps that leave the maps and the file alone. Random
  identifiers are new: none of them names a session yet.
\<close>

definition same_map :: "SessionsState \<Rightarrow> SessionsState \<Rightarrow> bool" where
  "same_map s s' \<longleftrightarrow> ss_alterId s' = ss_alterId s \<and> ss_agentSessionIds s' = ss_agentSessionIds s \<and>
     ss_agentGroupSessionIds s' = ss_agentGroupSessionIds s \<and> ss_legacy s' = ss_legacy s \<and> ss_mapFile s' = ss_mapFile s"

definition unused :: "Env \<Rightarrow> SessionsState \<Rightarrow> bool" where
  "unused env s \<longleftrightarrow> (\<forall>x. slot_id s x \<noteq> Some (new_id env))"

inductive map_reach :: "SessionsState \<Rightarrow> bool" where
  start: "map_ok s \<Longrightarrow> (\<And>x. slot_id s x = None) \<Longrightarrow> map_reach s"
| other: "map_reach s \<Longrightarrow> same_map s s' \<Longrightarrow> map_reach s'"
| alter: "map_reach s \<Longrightarrow> unused env s \<Longrightarrow> ensureAlter host env s = (r, s') \<Longrightarrow> map_reach s'"
| seat: "map_reach s \<Longrightarrow> unused env s \<Longrightarrow> ensureAgentSession host env seat g s = (r, s') \<Longrightarrow> map_reach s'"
| remove: "map_reach s \<Longrightarrow> removeAgent name s = (r, s') \<Longrightarrow> map_reach s'"
| restart: "map_reach s \<Longrightarrow> saved s \<Longrightarrow> map_reach (restarted s)"

definition slots_inj :: "SessionsState \<Rightarrow> bool" where
  "slots_inj s \<longleftrightarrow> (\<forall>x y i. slot_id s x = Some i \<longrightarrow> slot_id s y = Some i \<longrightarrow> x = y)"

lemma same_map_slots:
  assumes "same_map s s'"
  shows "slot_id s' = slot_id s" "map_ok s' = map_ok s" "saved s' = saved s"
proof -
  show "slot_id s' = slot_id s"
  proof
    fix x show "slot_id s' x = slot_id s x" using assms by (cases x) (simp_all add: same_map_def)
  qed
  show "map_ok s' = map_ok s" using assms by (simp add: map_ok_def same_map_def)
  show "saved s' = saved s" using assms by (simp add: saved_def session_map_json_def same_map_def)
qed

lemma slots_inj_opens:
  assumes "opens x env s out" "slots_inj s" "unused env s"
  shows "slots_inj (snd out)"
  using assms by (cases "fst out") (auto simp: opens_def slots_inj_def unused_def split: if_splits)

lemma announceAll_frame: "same_map s (announceAllGroups s)"
proof -
  have "same_map s (fold announceVoices gids s)" for gids
  proof (induction gids rule: rev_induct)
    case (snoc g gids)
    then show ?case by (simp add: same_map_def announceVoices_def act_def)
  qed (simp add: same_map_def)
  then show ?thesis by (simp add: announceAllGroups_def)
qed

lemma al_get_drop: "al_get (drop_names key m) n = (if toLowerCase n = key then None else al_get m n)"
  by (induction m) (auto simp: drop_names_def)

lemma removeAgent_slots:
  assumes "removeAgent name s = (r, s')"
  shows "if r then \<forall>x. slot_id s' x = (case x of AlterSlot \<Rightarrow> slot_id s x
             | DirectSlot n \<Rightarrow> (if toLowerCase n = toLowerCase (trim name) then None else slot_id s x)
             | GroupSlot n gid \<Rightarrow> (if toLowerCase n = toLowerCase (trim name) then None else slot_id s x))
         else same_map s s'"
    and "map_ok s \<Longrightarrow> map_ok s'" "r \<Longrightarrow> saved s'"
proof -
  define s0 where "s0 = (if ar_loaded (ss_agents s) then s else s\<lparr>ss_agents := ar_load (ss_agents s)\<rparr>)"
  let ?key = "toLowerCase (trim name)"
  define s1 where "s1 = s0\<lparr>ss_agents := snd (ar_remove name (ss_agents s0))\<rparr>"
  define s2 where "s2 = s1\<lparr>ss_agentSessionIds := drop_names ?key (ss_agentSessionIds s1), ss_agentGroupSessionIds := drop_names ?key (ss_agentGroupSessionIds s1)\<rparr>"
  have r: "r = fst (ar_remove name (ss_agents s0))" and s': "s' = (if r then act PublishAlter (announceAllGroups (persistMap s2)) else s1)"
    using assms by (auto simp: removeAgent_def Let_def s0_def s1_def s2_def split: prod.splits if_splits)
  have same: "same_map s s1" by (simp add: same_map_def s1_def s0_def)
  note an = announceAll_frame [of "persistMap s2"]
  have sl: "slot_id s' = slot_id s2" "map_ok s' = map_ok s2" "saved s'" if r
    using that same_map_slots [OF an] by (simp_all add: s' slot_frame)
  have wfd: "al_wf m \<Longrightarrow> al_wf (drop_names key m)" for m :: "(string, 'x) al" and key
    by (auto simp: al_wf_def drop_names_def intro: distinct_map_filter)
  have "map_ok s2" if "map_ok s"
    using that same_map_slots(2) [OF same]
    by (auto simp: s2_def map_ok_def ids_ok_def al_get_drop wfd split: if_splits)
  then show "map_ok s \<Longrightarrow> map_ok s'" using sl(2) same_map_slots(2) [OF same] by (cases r) (auto simp: s')
  show "saved s'" if r using sl(3) that by simp
  show "if r then \<forall>x. slot_id s' x = (case x of AlterSlot \<Rightarrow> slot_id s x
             | DirectSlot n \<Rightarrow> (if toLowerCase n = ?key then None else slot_id s x)
             | GroupSlot n gid \<Rightarrow> (if toLowerCase n = ?key then None else slot_id s x))
         else same_map s s'"
    using sl(1) same same_map_slots(1) [OF same]
    by (auto simp: s' s2_def al_get_drop fun_eq_iff same_map_def split: slot.splits)
qed

lemma map_reach_ok: "map_reach s \<Longrightarrow> map_ok s \<and> slots_inj s"
proof (induction rule: map_reach.induct)
  case (start s)
  then show ?case by (simp add: slots_inj_def)
next
  case (other s s')
  then show ?case using same_map_slots [OF other.hyps(2)] by (simp add: slots_inj_def)
next
  case (alter s env host r s')
  then show ?case using ensureAlter_opens [of env s host] slots_inj_opens [OF ensureAlter_opens, of s env host]
    by (simp add: opens_def)
next
  case (seat s env host seat g r s')
  then show ?case using ensureAgentSession_opens [of seat g env s host] slots_inj_opens [OF ensureAgentSession_opens, of s env host seat g]
    by (simp add: opens_def)
next
  case (remove s name r s')
  have "slot_id s' x = Some i \<Longrightarrow> slot_id s x = Some i" for x i
    using removeAgent_slots(1) [OF remove.hyps(2)] same_map_slots(1) [of s s']
    by (auto split: if_splits slot.splits)
  then show ?case using remove removeAgent_slots(2) [OF remove.hyps(2)] by (auto simp: slots_inj_def)
next
  case (restart s)
  have wf: "al_wf (filter (\<lambda>(a, m). m \<noteq> []) (ss_agentGroupSessionIds s))"
    using restart.IH by (auto simp: map_ok_def al_wf_def intro: distinct_map_filter)
  have "map_ok (restarted s)"
    using restart restarted_maps [of s] wf al_get_filter [of "ss_agentGroupSessionIds s" "\<lambda>m. m \<noteq> []"]
    by (auto simp: map_ok_def split: option.splits if_splits)
  then show ?case using restart restarted_slots [of s] by (simp add: slots_inj_def)
qed

text \<open>
  C15. A restart finds every session again. In every reachable state whose map file is up to date,
  reading the file into an empty plugin gives back the alter's session, every seat agent's direct
  session and its session in every group, and the sessions kept from older versions. Opening a session
  successfully keeps the file up to date, and so does removing an agent.
\<close>

theorem session_map_survives_restart:
  assumes "map_reach s" "saved s"
  shows "ss_alterId (restarted s) = ss_alterId s \<and> known_session seat g (restarted s) = known_session seat g s \<and> ss_legacy (restarted s) = ss_legacy s \<and>
    (\<forall>sid s'. ensureAlter host env s = (Inr sid, s') \<longrightarrow> saved s') \<and>
    (\<forall>sid s'. ensureAgentSession host env seat g s = (Inr sid, s') \<longrightarrow> saved s') \<and>
    (\<forall>s'. removeAgent name s = (True, s') \<longrightarrow> saved s')"
  using restarted_slots [of s] restarted_maps(1,4) [of s] map_reach_ok [OF assms(1)] assms(2)
    ensureAlter_opens [of env s host] ensureAgentSession_opens [of seat g env s host] removeAgent_slots(3) [of name s]
  by (auto simp: known_session_slot opens_def)

section \<open>Voices\<close>

lemma group_pairs:
  "(name, i) \<in> set (concat (map (\<lambda>(name, byGid). map (\<lambda>(gid, i). (name, i)) byGid) gs)) \<longleftrightarrow> (\<exists>m gid. (name, m) \<in> set gs \<and> (gid, i) \<in> set m)"
  by force

lemma session_names_slot:
  assumes "map_ok s"
  shows "(name, i) \<in> set (session_names_of s) \<longleftrightarrow>
     slot_id s (DirectSlot name) = Some i \<or> (\<exists>gid. slot_id s (GroupSlot name gid) = Some i)"
proof -
  have g: "al_wf (ss_agentGroupSessionIds s)" and m: "al_get (ss_agentGroupSessionIds s) name = Some m \<Longrightarrow> al_wf m" for m
    using assms by (auto simp: map_ok_def ids_ok_def)
  have "(\<exists>m gid. (name, m) \<in> set (ss_agentGroupSessionIds s) \<and> (gid, i) \<in> set m) \<longleftrightarrow> (\<exists>gid. slot_id s (GroupSlot name gid) = Some i)"
    using m by (cases "al_get (ss_agentGroupSessionIds s) name") (auto simp: al_mem_iff [OF g] al_mem_iff)
  moreover have "al_wf (ss_agentSessionIds s)" using assms by (simp add: map_ok_def ids_ok_def)
  ultimately show ?thesis by (simp add: session_names_of_def group_pairs al_mem_iff del: set_concat)
qed

lemma first_voice_single: "set names = {name} \<Longrightarrow> first_voice s names = voice_of_name s name"
proof (induction names)
  case (Cons n names)
  then have "names = [] \<or> set names = {name}" by (cases names) auto
  then show ?case using Cons by (auto split: option.splits)
qed simp

fun slot_voice :: "SessionsState \<Rightarrow> slot \<Rightarrow> voice option" where
  "slot_voice s AlterSlot = Some AlterVoice"
| "slot_voice s (DirectSlot name) = voice_of_name s name"
| "slot_voice s (GroupSlot name gid) = voice_of_name s name"

lemma voiceOf_slot:
  assumes "map_ok s" "slots_inj s" "slot_id s x = Some sid" "ho_sessionId host sid \<in> {None, Some sid}"
  shows "voiceOf host sid s = slot_voice s x"
proof -
  have norm: "(case ho_sessionId host sid of None \<Rightarrow> sid | Some i \<Rightarrow> i) = sid" using assms(4) by auto
  have inj: "\<And>y. slot_id s y = Some sid \<Longrightarrow> y = x" using assms(2,3) unfolding slots_inj_def by blast
  let ?ns = "session_names s sid sid"
  have ns: "n \<in> set ?ns \<longleftrightarrow> slot_id s (DirectSlot n) = Some sid \<or> (\<exists>gid. slot_id s (GroupSlot n gid) = Some sid)" for n
    using session_names_slot [OF assms(1), of n sid] by (force simp: session_names_def)
  show ?thesis
  proof (cases x)
    case AlterSlot
    then show ?thesis using assms(3) by (simp add: voiceOf_def norm Let_def)
  next
    case (DirectSlot name)
    have "set ?ns = {name}" using ns inj assms(3) DirectSlot by (auto; metis slot.inject(1) slot.distinct(6))
    moreover have "ss_alterId s \<noteq> Some sid" using inj [of AlterSlot] DirectSlot by auto
    ultimately show ?thesis using DirectSlot by (auto simp: voiceOf_def norm Let_def first_voice_single)
  next
    case (GroupSlot name gid)
    have "set ?ns = {name}" using ns inj assms(3) GroupSlot by (auto; metis slot.inject(2) slot.distinct(5))
    moreover have "ss_alterId s \<noteq> Some sid" using inj [of AlterSlot] GroupSlot by auto
    ultimately show ?thesis using GroupSlot by (auto simp: voiceOf_def norm Let_def first_voice_single)
  qed
qed

text \<open>
  C14. A session speaks with one voice, its own. In every reachable state no two slots (the alter, an
  agent's direct chat, an agent in a group) share a session. The session opened for a seat agent, in a
  group or for the owner's direct chat, is attributed to that agent as it is registered, and the one
  opened for the alter to the alter; so a tool call made there is stamped with that voice. After an
  agent was removed it has no session left, under any spelling of its name.
\<close>

theorem voice_attribution:
  assumes "map_reach s" "unused env s" "\<And>i. ho_sessionId host i \<in> {None, Some i}"
  shows "slots_inj s \<and>
    (\<forall>sid s'. ensureAgentSession host env seat g s = (Inr sid, s') \<longrightarrow>
        voiceOf host sid s' = map_option AgentVoice (ar_get (ss_agents s) (sa_name seat))) \<and>
    (\<forall>sid s'. ensureAlter host env s = (Inr sid, s') \<longrightarrow> voiceOf host sid s' = Some AlterVoice) \<and>
    (\<forall>name s'. removeAgent name s = (True, s') \<and> toLowerCase (sa_name seat) = toLowerCase (trim name) \<longrightarrow> known_session seat g s' = None)"
proof (intro conjI allI impI)
  note ok = map_reach_ok [OF assms(1)]
  show "slots_inj s" using ok by simp
  { fix sid s' assume e: "ensureAgentSession host env seat g s = (Inr sid, s')"
    have o: "opens (slot_of seat g) env s (Inr sid, s')" using ensureAgentSession_opens [of seat g env s host] e by simp
    have a: "ss_agents s' = ss_agents s" using quietly_fields [OF ensureAgentSession_quietly [OF e]] by simp
    have "voiceOf host sid s' = slot_voice s' (slot_of seat g)"
      using o ok slots_inj_opens [OF o _ assms(2)] assms(3) by (intro voiceOf_slot) (auto simp: opens_def)
    then show "voiceOf host sid s' = map_option AgentVoice (ar_get (ss_agents s) (sa_name seat))"
      using a by (cases g) (auto simp: slot_of_def voice_of_name_def) }
  { fix sid s' assume e: "ensureAlter host env s = (Inr sid, s')"
    have o: "opens AlterSlot env s (Inr sid, s')" using ensureAlter_opens [of env s host] e by simp
    have "voiceOf host sid s' = slot_voice s' AlterSlot"
      using o ok slots_inj_opens [OF o _ assms(2)] assms(3) by (intro voiceOf_slot) (auto simp: opens_def)
    then show "voiceOf host sid s' = Some AlterVoice" by simp }
  { fix name s' assume e: "removeAgent name s = (True, s') \<and> toLowerCase (sa_name seat) = toLowerCase (trim name)"
    have "\<forall>x. slot_id s' x = (case x of AlterSlot \<Rightarrow> slot_id s x
        | DirectSlot n \<Rightarrow> (if toLowerCase n = toLowerCase (trim name) then None else slot_id s x)
        | GroupSlot n gid \<Rightarrow> (if toLowerCase n = toLowerCase (trim name) then None else slot_id s x))"
      using removeAgent_slots(1) [of name s True s'] e by simp
    from spec [OF this, of "slot_of seat g"] show "known_session seat g s' = None"
      using e unfolding known_session_slot by (cases g) (auto simp: slot_of_def) }
qed

lemma fresh_map_reach: "map_reach fresh_sessions"
proof (rule map_reach.start)
  show "map_ok fresh_sessions" by (simp add: map_ok_def fresh_sessions_def new_SessionsState_def)
  show "slot_id fresh_sessions x = None" for x by (cases x) (simp_all add: fresh_sessions_def new_SessionsState_def)
qed

lemma fresh_unused: "unused env fresh_sessions"
proof -
  have "slot_id fresh_sessions x = None" for x by (cases x) (simp_all add: fresh_sessions_def new_SessionsState_def)
  then show ?thesis by (simp add: unused_def)
qed

theorem voice_attribution_witness:
  "voiceOf (open_host (\<lambda>_. None)) ''session-u0'' (snd (ensureAlter (open_host (\<lambda>_. None)) (sample_draws 0) fresh_sessions)) = Some AlterVoice"
proof -
  let ?host = "open_host (\<lambda>_. None)"
  have h: "ho_sessionId ?host i \<in> {None, Some i}" for i by (simp add: open_host_def)
  have "fst (ensureAlter ?host (sample_draws 0) fresh_sessions) = Inr ''session-u0''" by code_simp
  then show ?thesis using voice_attribution [OF fresh_map_reach fresh_unused h] by (metis prod.collapse)
qed

definition devbot_seat :: SeatAgent where
  "devbot_seat = \<lparr>sa_name = ''devbot'', sa_preset = None, sa_cwd = None, sa_prompt = None, sa_approval = False\<rparr>"

theorem session_map_survives_restart_witness:
  "known_session devbot_seat (Some (''g1'', ''crew'')) (restarted (snd (ensureAgentSession (open_host (\<lambda>_. None)) (sample_draws 0) devbot_seat (Some (''g1'', ''crew'')) fresh_sessions)))
     = Some ''session-u0''"
proof -
  let ?host = "open_host (\<lambda>_. None)" and ?g = "Some (''g1'', ''crew'')"
  let ?call = "ensureAgentSession ?host (sample_draws 0) devbot_seat ?g fresh_sessions"
  obtain r s' where c: "?call = (r, s')" by (cases ?call)
  have reach: "map_reach s'" by (rule map_reach.seat [OF fresh_map_reach fresh_unused c])
  have "ss_mapFile (snd ?call) = Some (session_map_json (snd ?call))" "known_session devbot_seat ?g (snd ?call) = Some ''session-u0''" by code_simp+
  then show ?thesis using session_map_survives_restart [OF reach, of devbot_seat ?g] c by (simp add: saved_def)
qed

end
