(* ===== verification/Persona_Context.thy ===== *)
theory Persona_Context
  imports Session_Control
begin

text \<open>
  The prompt variables the sessions plugin registers for the alter and for a seat agent
  (\<^verbatim>\<open>src/dsh/packages/dsh/src/sessions/index.ts\<close>, \<open>installPersona\<close> and \<open>installAgentPersona\<close>): what a turn
  is told about who woke it, and which memories it is shown. The property is that the memories
  are confined to the conversation of the turn. The rosters are in \<open>Session_Host\<close>; the
  prompt's fixed text is left out.
\<close>

definition PERSONA_NONE :: string where "PERSONA_NONE = ''(none)''"

definition nonEmpty :: "string \<Rightarrow> string" where
  "nonEmpty t = (if trim t = [] then PERSONA_NONE else t)"

definition var_owner :: "SessionsState \<Rightarrow> string" where
  "var_owner s = nonEmpty (if ss_ownerName s \<noteq> [] then ss_ownerName s else ''the owner'')"

definition friend_slot :: "TurnTrigger \<Rightarrow> (string \<Rightarrow> string) \<Rightarrow> string" where
  "friend_slot t f = (case trig_fp t of Some fp \<Rightarrow> (if trig_kind t = TGroup then ''none'' else f fp) | None \<Rightarrow> ''none'')"

definition var_triggerFriend :: "Host \<Rightarrow> string \<Rightarrow> SessionsState \<Rightarrow> string" where
  "var_triggerFriend host sid s = friend_slot (sess_triggerOf host sid) (nameOf s)"

definition var_triggerFriendFp :: "Host \<Rightarrow> string \<Rightarrow> string" where
  "var_triggerFriendFp host sid = friend_slot (sess_triggerOf host sid) (\<lambda>fp. fp)"

definition var_triggerTier :: "Host \<Rightarrow> string \<Rightarrow> SessionsState \<Rightarrow> string" where
  "var_triggerTier host sid s = friend_slot (sess_triggerOf host sid) (\<lambda>fp. tier_str (sess_tierOf s fp))"

definition var_triggerProtocol :: "Host \<Rightarrow> string \<Rightarrow> SessionsState \<Rightarrow> string" where
  "var_triggerProtocol host sid s =
     friend_slot (sess_triggerOf host sid) (\<lambda>fp. nonEmpty (case al_get (ss_friendsByFp s) fp of
       None \<Rightarrow> [] | Some f \<Rightarrow> (case fr_protocol f of None \<Rightarrow> [] | Some p \<Rightarrow> p)))"

definition group_of_turn :: "TurnTrigger \<Rightarrow> string option" where
  "group_of_turn t = (if trig_kind t = TGroup then trig_gid t else None)"

definition var_triggerGroup :: "Host \<Rightarrow> string \<Rightarrow> SessionsState \<Rightarrow> string" where
  "var_triggerGroup host sid s =
     (case group_of_turn (sess_triggerOf host sid) of
        None \<Rightarrow> ''none''
      | Some g \<Rightarrow> (case al_get (ss_groupsByGid s) g of None \<Rightarrow> g | Some v \<Rightarrow> gv_name v))"

definition var_triggerGid :: "Host \<Rightarrow> string \<Rightarrow> string" where
  "var_triggerGid host sid = (case group_of_turn (sess_triggerOf host sid) of None \<Rightarrow> ''none'' | Some g \<Rightarrow> g)"

definition var_triggerGroupRules :: "Host \<Rightarrow> string \<Rightarrow> SessionsState \<Rightarrow> string" where
  "var_triggerGroupRules host sid s =
     (case group_of_turn (sess_triggerOf host sid) of
        None \<Rightarrow> PERSONA_NONE
      | Some g \<Rightarrow> nonEmpty (rulesWithoutPaidJoin (map_option (\<lambda>v. gpv_rules (gv_profile v)) (al_get (ss_groupsByGid s) g))))"

definition var_agentBrief :: "SeatAgent \<Rightarrow> SessionsState \<Rightarrow> string" where
  "var_agentBrief seat s =
     nonEmpty (case ar_get (ss_agents s) (sa_name seat) of
       None \<Rightarrow> [] | Some a \<Rightarrow> (case sa_prompt a of None \<Rightarrow> [] | Some p \<Rightarrow> p))"

text \<open>
  The memories of a turn: the alter's, and a seat agent's. \<open>bm25\<close>, \<open>plan\<close> are the engine's ranking
  and row order; reading counts as a hit, so the store changes.
\<close>

definition alter_scopes :: "TurnTrigger \<Rightarrow> AllowScopes" where
  "alter_scopes t =
     (case group_of_turn t of
        Some g \<Rightarrow> \<lparr>al_global = True, al_agent = None, al_friend = None, al_group = Some g\<rparr>
      | None \<Rightarrow> \<lparr>al_global = True, al_agent = None, al_friend = trig_fp t, al_group = None\<rparr>)"

definition group_name_or_empty :: "SessionsState \<Rightarrow> string \<Rightarrow> string" where
  "group_name_or_empty s g = (case al_get (ss_groupsByGid s) g of None \<Rightarrow> [] | Some v \<Rightarrow> gv_name v)"

definition alter_query :: "TurnTrigger \<Rightarrow> SessionsState \<Rightarrow> string" where
  "alter_query t s =
     (case group_of_turn t of
        Some g \<Rightarrow> group_name_or_empty s g
      | None \<Rightarrow> (if trig_fp t = None then [] else (case trig_name t of None \<Rightarrow> [] | Some nm \<Rightarrow> nm)))"

definition seat_scopes :: "SeatAgent \<Rightarrow> AllowScopes" where
  "seat_scopes seat = \<lparr>al_global = True, al_agent = Some (sa_name seat), al_friend = None, al_group = None\<rparr>"

definition seat_query :: "TurnTrigger \<Rightarrow> SessionsState \<Rightarrow> string" where
  "seat_query t s = (case group_of_turn t of None \<Rightarrow> [] | Some g \<Rightarrow> group_name_or_empty s g)"

definition memory_lines :: "MemoryRecord list \<Rightarrow> string" where
  "memory_lines rs =
     (if rs = [] then PERSONA_NONE
      else join_with [lf] (map (\<lambda>r. ''- ['' @ kind_text (mr_kind r) @ ''] '' @ mr_content r) rs))"

definition alter_memories :: "fts_rank \<Rightarrow> (memory_row list \<Rightarrow> memory_row list) \<Rightarrow> Host \<Rightarrow> int \<Rightarrow> string \<Rightarrow> SessionsState \<Rightarrow> MemoryRecord list \<times> MemoryStore" where
  "alter_memories bm25 plan host now sid s =
     (let t = sess_triggerOf host sid in retrieve bm25 plan (alter_scopes t) (alter_query t s) 8 now (ss_memory s))"

definition var_memory :: "fts_rank \<Rightarrow> (memory_row list \<Rightarrow> memory_row list) \<Rightarrow> Host \<Rightarrow> int \<Rightarrow> string \<Rightarrow> SessionsState \<Rightarrow> string \<times> SessionsState" where
  "var_memory bm25 plan host now sid s =
     (let (rs, db) = alter_memories bm25 plan host now sid s in (memory_lines rs, s\<lparr>ss_memory := db\<rparr>))"

definition agent_memories :: "fts_rank \<Rightarrow> (memory_row list \<Rightarrow> memory_row list) \<Rightarrow> Host \<Rightarrow> int \<Rightarrow> string \<Rightarrow> SeatAgent \<Rightarrow> SessionsState \<Rightarrow> MemoryRecord list \<times> MemoryStore" where
  "agent_memories bm25 plan host now sid seat s =
     retrieve bm25 plan (seat_scopes seat) (seat_query (sess_triggerOf host sid) s) 8 now (ss_memory s)"

definition var_agentMemory :: "fts_rank \<Rightarrow> (memory_row list \<Rightarrow> memory_row list) \<Rightarrow> Host \<Rightarrow> int \<Rightarrow> string \<Rightarrow> SeatAgent \<Rightarrow> SessionsState \<Rightarrow> string \<times> SessionsState" where
  "var_agentMemory bm25 plan host now sid seat s =
     (let (rs, db) = agent_memories bm25 plan host now sid seat s in (memory_lines rs, s\<lparr>ss_memory := db\<rparr>))"

section \<open>What a turn is shown\<close>

definition shown :: "MemoryScope \<Rightarrow> TurnTrigger \<Rightarrow> bool" where
  "shown scope t \<longleftrightarrow>
     (case scope of
        Global \<Rightarrow> True
      | AgentScope _ \<Rightarrow> False
      | SharedGroup g \<Rightarrow> trig_kind t = TGroup \<and> trig_gid t = Some g
      | SharedFriend f \<Rightarrow> trig_fp t = Some f \<and> (trig_kind t = TGroup \<longrightarrow> trig_gid t = None))"

lemma alter_scopes_shown: "scope_allowed (alter_scopes t) scope \<longleftrightarrow> shown scope t"
  by (cases scope) (auto simp: alter_scopes_def group_of_turn_def shown_def split: option.splits)

lemma retrieve_scopes:
  "is_plan plan \<Longrightarrow> m \<in> set (fst (retrieve bm25 plan allow q k now db)) \<Longrightarrow> scope_allowed allow (mr_scope m) \<and> m \<in> rowToRecord ` set (db_rows db)"
  using retrieve_rows_sub [of plan] by (fastforce simp: retrieve_def Let_def clause_scope_allowed)

text \<open>
  C16. Memories do not leak between conversations. Whatever is stored and however the engine ranks it,
  the memories put into the alter's prompt are stored ones that are global or belong to the conversation
  that woke the turn: in a turn woken by a group only that group's and no friend's, in a turn woken by a
  friend's mail only that friend's and no group's, in a turn started by the owner none but global ones;
  never a seat agent's. A seat agent is shown global memories and its own, and nothing of any friend,
  group or other agent.
\<close>

theorem memory_context_confined:
  assumes "is_plan plan"
  shows "(\<forall>m \<in> set (fst (alter_memories bm25 plan host now sid s)). shown (mr_scope m) (sess_triggerOf host sid) \<and> m \<in> rowToRecord ` set (db_rows (ss_memory s))) \<and>
    (\<forall>m \<in> set (fst (agent_memories bm25 plan host now sid seat s)). mr_scope m = Global \<or> mr_scope m = AgentScope (sa_name seat))"
proof (intro conjI ballI)
  fix m assume "m \<in> set (fst (alter_memories bm25 plan host now sid s))"
  then show "shown (mr_scope m) (sess_triggerOf host sid)" "m \<in> rowToRecord ` set (db_rows (ss_memory s))"
    using retrieve_scopes [OF assms] by (auto simp: alter_memories_def Let_def simp flip: alter_scopes_shown)
next
  fix m assume "m \<in> set (fst (agent_memories bm25 plan host now sid seat s))"
  then have "scope_allowed (seat_scopes seat) (mr_scope m)" using retrieve_scopes [OF assms] by (auto simp: agent_memories_def)
  then show "mr_scope m = Global \<or> mr_scope m = AgentScope (sa_name seat)" by (cases "mr_scope m") (auto simp: seat_scopes_def)
qed

definition one_memory :: SessionsState where
  "one_memory = fresh_sessions\<lparr>ss_memory := sample_db\<rparr>"

theorem memory_context_confined_witness:
  "db_rows (ss_memory one_memory) \<noteq> [] \<and> fst (alter_memories (\<lambda>_ _ _. None) (\<lambda>rs. rs) (open_host (\<lambda>_. None)) 5 ''s1'' one_memory) = []"
proof -
  have p: "is_plan (\<lambda>rs :: memory_row list. rs)" by (simp add: is_plan_def)
  have rows: "db_rows (ss_memory one_memory) = [new_row 1 ''u1'' 5 ''likes tea'' sample_memory]" by (simp add: one_memory_def sample_db_rows)
  have sc: "mr_scope (rowToRecord (new_row 1 ''u1'' 5 ''likes tea'' sample_memory)) = AgentScope ''ann''"
    by (simp add: rowToRecord_def new_row_def sample_memory_def decodeScope_def key_or_empty_def)
  have "m \<notin> set (fst (alter_memories (\<lambda>_ _ _. None) (\<lambda>rs. rs) (open_host (\<lambda>_. None)) 5 ''s1'' one_memory))" for m
  proof
    assume "m \<in> set (fst (alter_memories (\<lambda>_ _ _. None) (\<lambda>rs. rs) (open_host (\<lambda>_. None)) 5 ''s1'' one_memory))"
    then have "shown (mr_scope m) (sess_triggerOf (open_host (\<lambda>_. None)) ''s1'') \<and> m \<in> rowToRecord ` set (db_rows (ss_memory one_memory))"
      by (rule bspec [OF conjunct1 [OF memory_context_confined [OF p]]])
    then show False by (auto simp: rows sc shown_def)
  qed
  then have "set (fst (alter_memories (\<lambda>_ _ _. None) (\<lambda>rs. rs) (open_host (\<lambda>_. None)) 5 ''s1'' one_memory)) = {}"
    unfolding set_eq_iff by (metis empty_iff)
  then show ?thesis using rows by simp
qed

end
