(* ===== verification/Tools.thy ===== *)
theory Tools
  imports Session_Control
begin

text \<open>
  The tools the alter and the seat agents call, \<^verbatim>\<open>src/dsh/packages/dsh/src/tools/index.ts\<close> and
  \<^verbatim>\<open>tools/remember.ts\<close>. A tool runs in a session (\<open>exec\<close>, the calling agent's id, absent outside one)
  over the sessions service (\<open>face\<close>, absent when that plugin is not loaded) and the network state.
  The approval service, the payment gateway and the wording of texts outside Latin-1 are parameters.
  Properties: what may leave the machine, in which voice and how often, and what may move money.
\<close>

section \<open>Seams\<close>

datatype ApprovalOutcome = AllowedOnce | Rejected | Cancelled | Unavailable

text \<open>The approval service answers per tool and reason, or is absent.\<close>

type_synonym approval = "(string \<Rightarrow> ApprovalOutcome) option"

definition ask_approval :: "approval \<Rightarrow> string option \<Rightarrow> string \<Rightarrow> ApprovalOutcome" where
  "ask_approval approval exec toolName =
     (case approval of
        None \<Rightarrow> Unavailable
      | Some request \<Rightarrow> (if exec = None then Unavailable else request toolName))"

text \<open>\<open>PaygateClient.call(method, path, body)\<close>: one call of the payment gateway.\<close>

type_synonym 'n paygate = "(string \<Rightarrow> string \<Rightarrow> json option \<Rightarrow> ('n, json) net_call) option"

definition face_trigger :: "Host \<Rightarrow> string option \<Rightarrow> SessionsState option \<Rightarrow> TurnTrigger" where
  "face_trigger host exec face =
     (case (face, exec) of (Some s, Some sid) \<Rightarrow> sess_triggerOf host sid | _ \<Rightarrow> UNKNOWN_TRIGGER)"

definition face_voice :: "Host \<Rightarrow> string option \<Rightarrow> SessionsState option \<Rightarrow> voice option" where
  "face_voice host exec face = (case (face, exec) of (Some s, Some sid) \<Rightarrow> voiceOf host sid s | _ \<Rightarrow> None)"

fun voice_name :: "voice option \<Rightarrow> string option" where
  "voice_name (Some (AgentVoice seat)) = Some (sa_name seat)"
| "voice_name _ = None"

definition friendView :: "Friend \<Rightarrow> json" where
  "friendView f =
     JObj ([(''fingerprint'', JStr (fr_fp f)), (''name'', JStr (fr_name f))] @
           opt_field ''note'' (map_option JStr (fr_remark f)) @ opt_field ''card_name'' (map_option JStr (fr_cardName f)) @
           [(''online'', JBool (fr_online f = Some True)), (''unread'', JNum (Fin (of_int (fr_unread f)))),
            (''messages'', JNum (Fin (of_int (fr_count f))))] @
           opt_field ''last_at'' (map_option (\<lambda>t. JStr (toISOString t)) (fr_lastTs f)) @
           opt_field ''typing'' (if fr_typing f = Some True then Some (JBool True) else None))"

definition requireFriend :: "'n NetworkClient \<Rightarrow> string \<Rightarrow> 'n \<Rightarrow> NetworkError + Friend" where
  "requireFriend net fingerprint n =
     (case nc_friends_list net n of
        Inl e \<Rightarrow> Inl e
      | Inr fs \<Rightarrow>
          (case find (\<lambda>f. fr_fp f = fingerprint \<or> startsWith (fr_fp f) fingerprint) fs of
             None \<Rightarrow> Inl \<lparr>ne_message = fingerprint @ '' is not a friend'', ne_code = notFriend\<rparr>
           | Some f \<Rightarrow> Inr f))"

section \<open>Reading tools\<close>

definition with_presence :: "(string, bool) al \<Rightarrow> Friend \<Rightarrow> Friend" where
  "with_presence online f = (case al_get online (fr_fp f) of None \<Rightarrow> f | Some b \<Rightarrow> f\<lparr>fr_online := Some b\<rparr>)"

definition tool_friends :: "'n NetworkClient \<Rightarrow> bool \<Rightarrow> 'n \<Rightarrow> NetworkError + json list" where
  "tool_friends net online_only n =
     (case nc_friends_list net n of
        Inl e \<Rightarrow> Inl e
      | Inr fs \<Rightarrow>
          (let online = (case nc_presence net (map fr_fp fs) n of Inl _ \<Rightarrow> [] | Inr m \<Rightarrow> m)
           in Inr (map friendView (filter (\<lambda>f. \<not> online_only \<or> fr_online f = Some True) (map (with_presence online) fs)))))"

definition tool_card :: "'n NetworkClient \<Rightarrow> 'n \<Rightarrow> NetworkError + Identity" where
  "tool_card net n =
     (case nc_identity net n of
        Inl e \<Rightarrow> Inl e
      | Inr None \<Rightarrow> Inl \<lparr>ne_message = ''no SoulMirror identity yet'', ne_code = noIdentity\<rparr>
      | Inr (Some i) \<Rightarrow> Inr i)"

definition entry_row :: "ConversationEntry \<Rightarrow> json" where
  "entry_row e =
     JObj ([(''seq'', JNum (Fin (of_int (ce_seq e)))), (''dir'', JStr (if ce_dir e = In then ''in'' else ''out'')),
            (''at'', JStr (toISOString (ce_ts e))), (''body'', JStr (ce_body e))] @
           opt_field ''type'' (map_option JStr (ce_type e)) @ opt_field ''auto'' (if ce_auto e then Some (JBool True) else None) @
           opt_field ''status'' (map_option JStr (ce_status e)) @ opt_field ''attachment'' (map_option JStr (ce_artifactName e)))"

definition readConversation :: "'n NetworkClient \<Rightarrow> string \<Rightarrow> int option \<Rightarrow> int option \<Rightarrow> 'n \<Rightarrow> NetworkError + (json \<times> bool \<times> json list)" where
  "readConversation net fingerprint since limit n =
     (case requireFriend net fingerprint n of
        Inl e \<Rightarrow> Inl e
      | Inr f \<Rightarrow>
          (case nc_conversation net (fr_fp f) since (Some (case limit of None \<Rightarrow> 50 | Some l \<Rightarrow> l)) n of
             Inl e \<Rightarrow> Inl e
           | Inr es \<Rightarrow> Inr (friendView f, nc_peerTyping net (fr_fp f) n, map entry_row es)))"

datatype add_friend_result = FriendNotApproved ApprovalOutcome | FriendRequested Friend

definition addFriend :: "'n NetworkClient \<Rightarrow> approval \<Rightarrow> string option \<Rightarrow> string \<Rightarrow> string option \<Rightarrow> ('n, add_friend_result) net_call" where
  "addFriend net approval exec uri note n =
     (case nc_parseCard net uri n of
        Inl e \<Rightarrow> (Inl e, n)
      | Inr _ \<Rightarrow>
          (let outcome = ask_approval approval exec ''soulmirror_add_friend'' in
           if outcome \<noteq> AllowedOnce then (Inr (FriendNotApproved outcome), n)
           else case nc_friends_add net uri note n of
                  (Inl e, n') \<Rightarrow> (Inl e, n')
                | (Inr f, n') \<Rightarrow> (Inr (FriendRequested f), n')))"

section \<open>Sending to a friend\<close>

text \<open>
  \<open>limit\<close> is \<open>autoReplyPerHour\<close> of the live settings. Counting prunes the window, so the decision
  returns the service's state.
\<close>

definition decideSend :: "Host \<Rightarrow> int \<Rightarrow> int \<Rightarrow> string option \<Rightarrow> string \<Rightarrow> SessionsState option \<Rightarrow> (SendDecision \<times> TurnTrigger) \<times> SessionsState option" where
  "decideSend host now limit exec target face =
     (let trigger = face_trigger host exec face;
          tier = (case face of None \<Rightarrow> DEFAULT_REPLY_TIER | Some s \<Rightarrow> sess_tierOf s target);
          (k, face') = (case face of
             None \<Rightarrow> (0, None)
           | Some s \<Rightarrow> (let (c, w) = hw_count (ss_autoReplies s) target now in (c, Some (s\<lparr>ss_autoReplies := w\<rparr>))))
      in ((sendGate \<lparr>sg_trigger = trigger, sg_target = target, sg_tier = tier, sg_autoSentInWindow = k, sg_limit = limit\<rparr>, trigger), face'))"

datatype send_result =
    SRefused trigger_kind
  | SDrafted gate_reason string
  | SNotApproved ApprovalOutcome gate_reason
  | SApproved gate_reason SendReceipt
  | SSent gate_reason bool SendReceipt

definition private_refusal :: "Host \<Rightarrow> string option \<Rightarrow> SessionsState option \<Rightarrow> trigger_kind option" where
  "private_refusal host exec face =
     (case face_voice host exec face of
        Some (AgentVoice _) \<Rightarrow>
          (if trig_kind (face_trigger host exec face) \<noteq> TOwner then Some (trig_kind (face_trigger host exec face)) else None)
      | _ \<Rightarrow> None)"

definition draft_for :: "string \<Rightarrow> string option \<Rightarrow> string option \<Rightarrow> string \<Rightarrow> gate_reason \<Rightarrow> TurnTrigger \<Rightarrow> string option \<Rightarrow> string option \<Rightarrow> draft_input" where
  "draft_for fp gid name body reason trigger exec agent =
     \<lparr>di_fp = fp, di_gid = gid, di_name = name, di_body = body, di_reason = reason_str reason, di_trigger = Some trigger,
      di_sessionId = exec, di_agent = agent\<rparr>"

definition note_sent :: "int \<Rightarrow> string \<Rightarrow> bool \<Rightarrow> ConversationEntry \<Rightarrow> SessionsState \<Rightarrow> SessionsState" where
  "note_sent now fp auto e s =
     act (Emit (EOutbound fp None e)) (if auto then s\<lparr>ss_autoReplies := snd (hw_record (ss_autoReplies s) fp now)\<rparr> else s)"

type_synonym ('n, 'a) tool_call = "SessionsState option \<Rightarrow> 'n \<Rightarrow> (NetworkError + 'a) \<times> SessionsState option \<times> 'n"

definition send_unasked :: "'n NetworkClient \<Rightarrow> approval \<Rightarrow> Env \<Rightarrow> string option \<Rightarrow> string \<Rightarrow> string \<Rightarrow> gate_reason \<Rightarrow> ('n, send_result) net_call" where
  "send_unasked net approval env exec fp body reason n =
     (let outcome = ask_approval approval exec ''soulmirror_send_message'' in
      if outcome \<noteq> AllowedOnce then (Inr (SNotApproved outcome reason), n)
      else case sendAndArchive net env fp body False n of
             (Inl e, n') \<Rightarrow> (Inl e, n')
           | (Inr (e, r), n') \<Rightarrow> (Inr (SApproved reason r), n'))"

definition sendMessage :: "'n NetworkClient \<Rightarrow> Host \<Rightarrow> approval \<Rightarrow> int \<Rightarrow> draws \<Rightarrow> string option \<Rightarrow> string \<Rightarrow> string \<Rightarrow> ('n, send_result) tool_call" where
  "sendMessage net host approval limit envs exec fingerprint body face n =
     (case private_refusal host exec face of
        Some k \<Rightarrow> (Inr (SRefused k), face, n)
      | None \<Rightarrow>
          (case requireFriend net fingerprint n of
             Inl e \<Rightarrow> (Inl e, face, n)
           | Inr friend \<Rightarrow>
               (let fp = fr_fp friend; ((decision, trigger), face1) = decideSend host (env_now (envs 0)) limit exec fp face in
                case decision of
                  QueueDraft reason \<Rightarrow>
                    (case face1 of
                       Some s \<Rightarrow>
                         (let (d, s') = queueDraft (envs 1) (draft_for fp None None body reason trigger exec None) s
                          in (Inr (SDrafted reason (d_id d)), Some s', n))
                     | None \<Rightarrow> (let (r, n') = send_unasked net approval (envs 1) exec fp body reason n in (r, None, n')))
                | Allow auto reason \<Rightarrow>
                    (case sendAndArchive net (envs 0) fp body auto n of
                       (Inl e, n') \<Rightarrow> (Inl e, face1, n')
                     | (Inr (e, r), n') \<Rightarrow> (Inr (SSent reason auto r), map_option (note_sent (env_now (envs 1)) fp auto e) face1, n')))))"

section \<open>Posting to a group\<close>

definition cap_entry :: "ConversationEntry \<Rightarrow> GroupCapEntry" where
  "cap_entry e = \<lparr>cap_dir = ce_dir e, cap_ts = ce_ts e, cap_auto = ce_auto e, cap_by = present (ce_by e)\<rparr>"

definition asks_approval :: "voice option \<Rightarrow> bool" where
  "asks_approval v = (case v of Some (AgentVoice seat) \<Rightarrow> sa_approval seat | _ \<Rightarrow> False)"

definition own_fp :: "SessionsState option \<Rightarrow> string" where
  "own_fp face = (case face of None \<Rightarrow> [] | Some s \<Rightarrow> ss_myFp s)"

definition my_name :: "'n NetworkClient \<Rightarrow> 'n \<Rightarrow> string" where
  "my_name net n = (case nc_identity net n of Inr (Some i) \<Rightarrow> idn_name i | _ \<Rightarrow> [])"

definition group_archive :: "'n NetworkClient \<Rightarrow> string \<Rightarrow> 'n \<Rightarrow> ConversationEntry list" where
  "group_archive net gid n = (case nc_groups_conversation net gid None (Some 200) n of Inl _ \<Rightarrow> [] | Inr es \<Rightarrow> es)"

definition trigger_mentions :: "voice option \<Rightarrow> string \<Rightarrow> TurnTrigger \<Rightarrow> ConversationEntry list \<Rightarrow> bool" where
  "trigger_mentions v myName trigger entries =
     (case trig_messageId trigger of
        None \<Rightarrow> False
      | Some i \<Rightarrow>
          (case find (\<lambda>e. ce_id e = i) entries of
             None \<Rightarrow> False
           | Some e \<Rightarrow> (case voice_name v of Some a \<Rightarrow> mentionsAgent (ce_body e) a | None \<Rightarrow> mentionsMe (ce_body e) myName)))"

definition decideGroupSend :: "'n NetworkClient \<Rightarrow> Host \<Rightarrow> int \<Rightarrow> string option \<Rightarrow> GroupInfo \<Rightarrow> string \<Rightarrow> SessionsState option \<Rightarrow> 'n \<Rightarrow> GroupSendDecision \<times> TurnTrigger" where
  "decideGroupSend net host now exec info gid face n =
     (let profile = profileOf info; trigger = face_trigger host exec face; v = face_voice host exec face;
          entries = group_archive net gid n; caps = map cap_entry entries
      in (groupSendGate
            \<lparr>gg_trigger = trigger, gg_gid = gid,
             gg_fromOwner = (trig_kind trigger = TGroup \<and> own_fp face \<noteq> [] \<and> trig_fp trigger = Some (own_fp face)),
             gg_speakAgents = gpv_speakAgents profile, gg_tier = effectiveAgentTier (gpv_agentTier profile) (asks_approval v),
             gg_autoSentInWindow = countAutoInWindow caps now HOUR_MS, gg_autoPerHour = gpv_autoPerHour profile,
             gg_roundsExceeded = agentRoundsExceeded caps (gpv_agentRounds profile),
             gg_mentioned = trigger_mentions v (my_name net n) trigger entries\<rparr>, trigger))"

datatype group_result =
    GRefused gate_reason
  | GDrafted gate_reason string
  | GNotApproved ApprovalOutcome gate_reason
  | GApproved gate_reason SendReceipt
  | GSent gate_reason bool SendReceipt

definition post_entry :: "int \<Rightarrow> string \<Rightarrow> SendReceipt \<Rightarrow> bool \<Rightarrow> string option \<Rightarrow> ConversationEntry" where
  "post_entry now body r auto agent =
     (out_entry (case sr_seq r of None \<Rightarrow> 0 | Some q \<Rightarrow> q) (sr_id r) body now (sr_status r) auto)\<lparr>ce_agent := agent\<rparr>"

definition note_posted :: "int \<Rightarrow> GroupInfo \<Rightarrow> string \<Rightarrow> string \<Rightarrow> SendReceipt \<Rightarrow> bool \<Rightarrow> string option \<Rightarrow> SessionsState \<Rightarrow> SessionsState" where
  "note_posted now info gid body r auto agent s =
     (let s1 = act (Emit (EOutbound gid (Some gid) (post_entry now body r auto agent))) s in
      case agent of
        None \<Rightarrow> s1
      | Some a \<Rightarrow> noteAwaitReply now gid a (expected_repliers (ss_myFp s) body info) s1)"

definition post_unasked :: "'n NetworkClient \<Rightarrow> approval \<Rightarrow> Env \<Rightarrow> string option \<Rightarrow> string \<Rightarrow> string \<Rightarrow> gate_reason \<Rightarrow> ('n, group_result) net_call" where
  "post_unasked net approval env exec gid body reason n =
     (let outcome = ask_approval approval exec ''soulmirror_send_group_message'' in
      if outcome \<noteq> AllowedOnce then (Inr (GNotApproved outcome reason), n)
      else case nc_groups_send net env gid body (group_options False None) n of
             (Inl e, n') \<Rightarrow> (Inl e, n')
           | (Inr r, n') \<Rightarrow> (Inr (GApproved reason r), n'))"

definition sendGroup :: "'n NetworkClient \<Rightarrow> Host \<Rightarrow> approval \<Rightarrow> Env \<Rightarrow> string option \<Rightarrow> string \<Rightarrow> string \<Rightarrow> ('n, group_result) tool_call" where
  "sendGroup net host approval env exec gid body face n =
     (case nc_groups_info net gid n of
        Inl e \<Rightarrow> (Inl e, face, n)
      | Inr info \<Rightarrow>
          (let (decision, trigger) = decideGroupSend net host (env_now env) exec info gid face n;
               agentName = voice_name (face_voice host exec face)
           in case decision of
                GRefuse reason \<Rightarrow> (Inr (GRefused reason), face, n)
              | GDraft reason \<Rightarrow>
                  (case face of
                     Some s \<Rightarrow>
                       (let (d, s') = queueDraft env (draft_for gid (Some gid) (Some (gi_name info)) body reason trigger exec agentName) s
                        in (Inr (GDrafted reason (d_id d)), Some s', n))
                   | None \<Rightarrow> (let (r, n') = post_unasked net approval env exec gid body reason n in (r, None, n')))
              | GAllow auto reason \<Rightarrow>
                  (case nc_groups_send net env gid body (group_options auto agentName) n of
                     (Inl e, n') \<Rightarrow> (Inl e, face, n')
                   | (Inr r, n') \<Rightarrow> (Inr (GSent reason auto r), map_option (note_posted (env_now env) info gid body r auto agentName) face, n'))))"

section \<open>The private gate\<close>

definition counted :: "int \<Rightarrow> string \<Rightarrow> SessionsState \<Rightarrow> SessionsState" where
  "counted now fp s = s\<lparr>ss_autoReplies := snd (hw_count (ss_autoReplies s) fp now)\<rparr>"

lemma decideSend_simps [simp]:
  "snd (fst (decideSend host now limit exec target face)) = face_trigger host exec face"
  "snd (decideSend host now limit exec target face) =
     map_option (counted now target) face"
  by (cases face; simp add: decideSend_def counted_def Let_def split_def)+

lemma first_trigger_inbound: "trig_kind (first_trigger es) = TInbound \<Longrightarrow> trig_fp (first_trigger es) \<noteq> None"
  by (induction es rule: first_trigger.induct)
    (auto simp: UNKNOWN_TRIGGER_def split: message_class.splits if_splits)

lemma triggerOf_inbound: "trig_kind (triggerOf evs) = TInbound \<Longrightarrow> trig_fp (triggerOf evs) \<noteq> None"
  by (auto simp: triggerOf_def UNKNOWN_TRIGGER_def dest: first_trigger_inbound split: option.splits)

lemma face_trigger_inbound: "trig_kind (face_trigger host exec face) = TInbound \<Longrightarrow> trig_fp (face_trigger host exec face) \<noteq> None"
  by (auto simp: face_trigger_def sess_triggerOf_def UNKNOWN_TRIGGER_def dest: triggerOf_inbound split: option.splits prod.splits)

lemma face_trigger_None [simp]: "face_trigger host exec None = UNKNOWN_TRIGGER"
  by (simp add: face_trigger_def)

text \<open>When a call may send to a friend by itself: on the owner's word, or as a rate-limited reply to that very friend.\<close>

definition may_send :: "Host \<Rightarrow> int \<Rightarrow> int \<Rightarrow> string option \<Rightarrow> string \<Rightarrow> SessionsState \<Rightarrow> bool \<Rightarrow> bool" where
  "may_send host now limit exec fp s auto \<longleftrightarrow>
     (if auto then trig_kind (face_trigger host exec (Some s)) = TInbound \<and> trig_fp (face_trigger host exec (Some s)) = Some fp \<and>
                   sess_tierOf s fp = Auto \<and> fst (hw_count (ss_autoReplies s) fp now) < limit
      else trig_kind (face_trigger host exec (Some s)) = TOwner)"

lemma decideSend_allow:
  assumes "fst (fst (decideSend host now limit exec fp face)) = Allow auto r"
  shows "\<exists>s. face = Some s \<and> may_send host now limit exec fp s auto"
proof (cases face)
  case None
  then show ?thesis using assms by (simp add: decideSend_def Let_def sendGate_def UNKNOWN_TRIGGER_def)
next
  case (Some s)
  let ?i = "\<lparr>sg_trigger = face_trigger host exec face, sg_target = fp, sg_tier = sess_tierOf s fp,
    sg_autoSentInWindow = fst (hw_count (ss_autoReplies s) fp now), sg_limit = limit\<rparr>"
  have g: "sendGate ?i = Allow auto r" using assms Some by (simp add: decideSend_def Let_def split_def)
  show ?thesis
  proof (cases auto)
    case True
    then show ?thesis
      using g Some sendGate_auto [of ?i r] face_trigger_inbound [of host exec face] by (auto simp: may_send_def)
  next
    case False
    then show ?thesis using g Some sendGate_direct [of ?i r] by (simp add: may_send_def)
  qed
qed

lemma sendMessage_cases:
  assumes "sendMessage net host approval limit envs exec fpr body face n = (res, face', n')"
  obtains
    (refused) k where "private_refusal host exec face = Some k" "res = Inr (SRefused k)" "face' = face" "n' = n"
  | (no_friend) e where "private_refusal host exec face = None" "requireFriend net fpr n = Inl e" "res = Inl e" "face' = face" "n' = n"
  | (drafted) f s reason d s' where "private_refusal host exec face = None" "requireFriend net fpr n = Inr f" "face = Some s"
      "queueDraft (envs 1) (draft_for (fr_fp f) None None body reason (face_trigger host exec face) exec None)
         (counted (env_now (envs 0)) (fr_fp f) s) = (d, s')"
      "res = Inr (SDrafted reason (d_id d))" "face' = Some s'" "n' = n"
  | (asked) f reason where "requireFriend net fpr n = Inr f" "face = None" "face' = None"
      "send_unasked net approval (envs 1) exec (fr_fp f) body reason n = (res, n')"
  | (failed) f s auto e where "requireFriend net fpr n = Inr f" "face = Some s" "private_refusal host exec face = None"
      "may_send host (env_now (envs 0)) limit exec (fr_fp f) s auto"
      "sendAndArchive net (envs 0) (fr_fp f) body auto n = (Inl e, n')" "res = Inl e"
      "face' = Some (counted (env_now (envs 0)) (fr_fp f) s)"
  | (sent) f s auto reason e r where "requireFriend net fpr n = Inr f" "face = Some s" "private_refusal host exec face = None"
      "may_send host (env_now (envs 0)) limit exec (fr_fp f) s auto"
      "sendAndArchive net (envs 0) (fr_fp f) body auto n = (Inr (e, r), n')" "res = Inr (SSent reason auto r)"
      "face' = Some (note_sent (env_now (envs 1)) (fr_fp f) auto e (counted (env_now (envs 0)) (fr_fp f) s))"
proof (cases "private_refusal host exec face")
  case (Some k)
  show thesis by (rule refused [OF Some]) (use assms Some in \<open>auto simp: sendMessage_def\<close>)
next
  case None
  note pr = None
  show thesis
  proof (cases "requireFriend net fpr n")
    case (Inl e)
    show thesis by (rule no_friend [OF pr Inl]) (use assms pr Inl in \<open>auto simp: sendMessage_def\<close>)
  next
    case (Inr f)
    let ?D = "decideSend host (env_now (envs 0)) limit exec (fr_fp f) face"
    obtain dec where D: "?D = ((dec, face_trigger host exec face), map_option (counted (env_now (envs 0)) (fr_fp f)) face)"
      using decideSend_simps [of host "env_now (envs 0)" limit exec "fr_fp f" face]
      by (cases ?D) auto
    show thesis
    proof (cases dec)
      case (QueueDraft reason)
      show thesis
      proof (cases face)
        case None
        show thesis by (rule asked [OF Inr None])
          (use assms pr Inr D QueueDraft None in \<open>auto simp: sendMessage_def split: prod.splits\<close>)
      next
        case (Some s)
        obtain d s' where q: "queueDraft (envs 1) (draft_for (fr_fp f) None None body reason (face_trigger host exec face) exec None)
            (counted (env_now (envs 0)) (fr_fp f) s) = (d, s')" by fastforce
        show thesis by (rule drafted [OF pr Inr Some q]) (use assms pr Inr D QueueDraft Some q in \<open>auto simp: sendMessage_def\<close>)
      qed
    next
      case (Allow auto reason)
      then obtain s where s: "face = Some s" "may_send host (env_now (envs 0)) limit exec (fr_fp f) s auto"
        using decideSend_allow [of host "env_now (envs 0)" limit exec "fr_fp f" face auto reason] D by auto
      obtain o1 n1 where o1: "sendAndArchive net (envs 0) (fr_fp f) body auto n = (o1, n1)" by fastforce
      have out: "sendMessage net host approval limit envs exec fpr body face n =
          (case o1 of Inl e \<Rightarrow> (Inl e, Some (counted (env_now (envs 0)) (fr_fp f) s), n1)
           | Inr (e, r) \<Rightarrow> (Inr (SSent reason auto r),
               Some (note_sent (env_now (envs 1)) (fr_fp f) auto e (counted (env_now (envs 0)) (fr_fp f) s)), n1))"
        using pr Inr D Allow s(1) o1 by (simp add: sendMessage_def Let_def split: sum.splits)
      show thesis
      proof (cases o1)
        case (Inl e)
        then show thesis using failed [OF Inr s(1) pr s(2)] out o1 assms by simp
      next
        case (Inr x)
        then show thesis using sent [OF \<open>requireFriend net fpr n = Inr f\<close> s(1) pr s(2)] out o1 assms by (cases x) simp
      qed
    qed
  qed
qed



section \<open>The hourly limit\<close>

text \<open>
  Any history of the plugin as far as automatic replies are concerned: calls of the tool, on any
  host and network state and with any limit up to \<open>cap\<close>, and arbitrary other steps that leave the window
  alone. \<open>sent\<close> lists friend and time of the automatic replies that went out.
\<close>

inductive auto_history :: "'n NetworkClient \<Rightarrow> int \<Rightarrow> (string \<times> int) list \<Rightarrow> int \<Rightarrow> SessionsState \<Rightarrow> bool" for net :: "'n NetworkClient" and cap :: int where
  start: "ss_autoReplies s = new_window HOUR_MS \<Longrightarrow> auto_history net cap [] t s"
| other: "auto_history net cap sent t s \<Longrightarrow> t \<le> t' \<Longrightarrow> ss_autoReplies s' = ss_autoReplies s \<Longrightarrow> auto_history net cap sent t' s'"
| auto: "auto_history net cap sent t s \<Longrightarrow> t \<le> env_now (envs 0) \<Longrightarrow> env_now (envs 0) \<le> env_now (envs 1) \<Longrightarrow> limit \<le> cap \<Longrightarrow>
    requireFriend net fpr n = Inr f \<Longrightarrow>
    sendMessage net host approval limit envs exec fpr body (Some s) n = (Inr (SSent reason True r), Some s', n') \<Longrightarrow>
    auto_history net cap (sent @ [(fr_fp f, env_now (envs 1))]) (env_now (envs 1)) s'"
| call: "auto_history net cap sent t s \<Longrightarrow> t \<le> env_now (envs 0) \<Longrightarrow> env_now (envs 0) \<le> env_now (envs 1) \<Longrightarrow> limit \<le> cap \<Longrightarrow>
    sendMessage net host approval limit envs exec fpr body (Some s) n = (res, Some s', n') \<Longrightarrow>
    (\<nexists>reason r. res = Inr (SSent reason True r)) \<Longrightarrow> auto_history net cap sent (env_now (envs 1)) s'"

lemma hw_rep_mono: "hw_rep c sent w \<Longrightarrow> c \<le> c' \<Longrightarrow> hw_rep c' sent w"
  unfolding hw_rep_def by fastforce

lemma queueDraft_autoReplies [simp]: "ss_autoReplies (snd (queueDraft env i s)) = ss_autoReplies s"
  by (simp add: queueDraft_def Let_def split_def act_def)

lemma note_sent_autoReplies [simp]:
  "ss_autoReplies (note_sent now fp auto e s) = (if auto then snd (hw_record (ss_autoReplies s) fp now) else ss_autoReplies s)"
  by (simp add: note_sent_def act_def)

lemma counted_autoReplies [simp]: "ss_autoReplies (counted now fp s) = snd (hw_count (ss_autoReplies s) fp now)"
  by (simp add: counted_def)

lemma quiet_call_window:
  assumes "sendMessage net host approval limit envs exec fpr body (Some s) n = (res, Some s', n')" "\<nexists>reason r. res = Inr (SSent reason True r)"
  shows "ss_autoReplies s' = ss_autoReplies s \<or> (\<exists>fp. ss_autoReplies s' = snd (hw_count (ss_autoReplies s) fp (env_now (envs 0))))"
  using assms(1)
proof (cases rule: sendMessage_cases)
  case (drafted f s0 reason d s1)
  then have "ss_autoReplies s' = ss_autoReplies (counted (env_now (envs 0)) (fr_fp f) s)"
    using queueDraft_autoReplies [of "envs 1"] by (metis option.inject snd_conv)
  then show ?thesis by auto
qed (use assms(2) in auto)

lemma auto_history_capped:
  assumes "0 \<le> cap" "auto_history net cap sent t s"
  shows "hw_rep t sent (ss_autoReplies s) \<and> capped HOUR_MS cap sent"
  using assms(2)
proof induction
  case (start s t)
  then show ?case using assms(1) by (simp add: hw_rep_new capped_def in_window_def log_times_def)
next
  case (other sent t s t' s')
  then show ?case using hw_rep_mono by auto
next
  case (auto sent t s envs limit fpr n f host approval exec body reason r s' n')
  from auto.hyps(6) show ?case
  proof (cases rule: sendMessage_cases)
    case (sent f' s0 a rs e r')
    then have "fst (hw_count (ss_autoReplies s) (fr_fp f) (env_now (envs 0))) < cap"
      using auto.hyps(4,5) by (auto simp: may_send_def)
    then show ?thesis
      using hw.guarded_record_capped [of t _ "ss_autoReplies s" "env_now (envs 0)" cap "fr_fp f" "env_now (envs 1)"]
        auto.IH auto.hyps(2,3,5) sent by simp
  qed simp_all
next
  case (call sent t s envs limit host approval exec fpr body n res s' n')
  from quiet_call_window [OF call.hyps(5,6)] show ?case
    using call.IH call.hyps(2,3) hw.count_spec [of t sent "ss_autoReplies s" "env_now (envs 0)"]
    by (metis hw_rep_mono order_trans)
qed


definition auto_alice :: SessionsState where
  "auto_alice = snd (sess_setTier ALICE_FP (Some Auto) fresh_sessions)"

definition alice_mail :: InboundMessage where
  "alice_mail = \<lparr>im_id = ''a2a-1'', im_from = ALICE_FP, im_name = ''Alice'', im_body = ''hiking?'', im_ts = 900, im_seq = Some 1,
     im_auto = False, im_by = None, im_agent = None, im_type = None, im_artifactPath = None, im_artifactName = None\<rparr>"

definition mail_turn :: "InboundMessage \<Rightarrow> EventLike list" where
  "mail_turn m =
     [\<lparr>ev_type = ''turn/start'', ev_seq = 0, ev_time = 0, ev_data = None\<rparr>,
      \<lparr>ev_type = ''user/message'', ev_seq = 1, ev_time = 0, ev_data = Some (userMessageFor ''m'' m (im_name m))\<rparr>]"


section \<open>The group gate\<close>

text \<open>When a call may post into a group by itself.\<close>

definition from_owner :: "SessionsState option \<Rightarrow> TurnTrigger \<Rightarrow> bool" where
  "from_owner face t \<longleftrightarrow> trig_kind t = TGroup \<and> own_fp face \<noteq> [] \<and> trig_fp t = Some (own_fp face)"

definition may_post :: "'n NetworkClient \<Rightarrow> Host \<Rightarrow> int \<Rightarrow> string option \<Rightarrow> GroupInfo \<Rightarrow> string \<Rightarrow> SessionsState option \<Rightarrow> 'n \<Rightarrow> bool \<Rightarrow> bool" where
  "may_post net host now exec info gid face n auto \<longleftrightarrow>
     (let t = face_trigger host exec face; v = face_voice host exec face; p = profileOf info; es = group_archive net gid n in
      gpv_speakAgents p \<and>
      (if auto then trig_kind t = TGroup \<and> trig_gid t = Some gid \<and> \<not> from_owner face t \<and>
                    (gpv_agentTier p = Auto \<or> gpv_agentTier p = Draft \<and> \<not> asks_approval v) \<and>
                    int (length (filter (is_my_auto_post now HOUR_MS) (map cap_entry es))) < gpv_autoPerHour p \<and>
                    (agentRoundsExceeded (map cap_entry es) (gpv_agentRounds p) \<longrightarrow> trigger_mentions v (my_name net n) t es)
       else trig_kind t = TOwner \<or> trig_kind t = TGroup \<and> trig_gid t = Some gid \<and> from_owner face t))"

lemma effectiveAgentTier_Auto: "effectiveAgentTier tier b = Auto \<longleftrightarrow> tier = Auto \<or> tier = Draft \<and> \<not> b"
  by (auto simp: effectiveAgentTier_def)

lemma decideGroupSend_trigger [simp]: "snd (decideGroupSend net host now exec info gid face n) = face_trigger host exec face"
  by (simp add: decideGroupSend_def Let_def)

lemma decideGroupSend_allow:
  "fst (decideGroupSend net host now exec info gid face n) = GAllow auto r \<Longrightarrow> may_post net host now exec info gid face n auto"
  by (cases auto) (auto simp: decideGroupSend_def Let_def may_post_def from_owner_def groupSendGate_auto groupSendGate_direct
      effectiveAgentTier_Auto countAutoInWindow_eq)

lemma decideGroupSend_speaks:
  "fst (decideGroupSend net host now exec info gid face n) = GDraft r \<Longrightarrow> gpv_speakAgents (profileOf info)"
  by (auto simp: decideGroupSend_def Let_def groupSendGate_def split: if_splits)

lemma sendGroup_cases:
  assumes "sendGroup net host approval env exec gid body face n = (res, face', n')"
  obtains
    (no_group) e where "nc_groups_info net gid n = Inl e" "res = Inl e" "face' = face" "n' = n"
  | (refused) info reason where "nc_groups_info net gid n = Inr info" "res = Inr (GRefused reason)" "face' = face" "n' = n"
      "fst (decideGroupSend net host (env_now env) exec info gid face n) = GRefuse reason"
  | (drafted) info reason s d s' where "nc_groups_info net gid n = Inr info" "face = Some s" "gpv_speakAgents (profileOf info)"
      "queueDraft env (draft_for gid (Some gid) (Some (gi_name info)) body reason (face_trigger host exec face) exec
         (voice_name (face_voice host exec face))) s = (d, s')"
      "res = Inr (GDrafted reason (d_id d))" "face' = Some s'" "n' = n"
  | (asked) info reason where "nc_groups_info net gid n = Inr info" "face = None" "face' = None" "gpv_speakAgents (profileOf info)"
      "post_unasked net approval env exec gid body reason n = (res, n')"
  | (posted) info auto reason out where "nc_groups_info net gid n = Inr info"
      "may_post net host (env_now env) exec info gid face n auto"
      "nc_groups_send net env gid body (group_options auto (voice_name (face_voice host exec face))) n = (out, n')"
      "res = (case out of Inl e \<Rightarrow> Inl e | Inr r \<Rightarrow> Inr (GSent reason auto r))"
proof (cases "nc_groups_info net gid n")
  case (Inl e)
  show thesis by (rule no_group [OF Inl]) (use assms Inl in \<open>auto simp: sendGroup_def\<close>)
next
  case (Inr info)
  obtain dec where D: "decideGroupSend net host (env_now env) exec info gid face n = (dec, face_trigger host exec face)"
    using decideGroupSend_trigger [of net host "env_now env" exec info gid face n] by (metis prod.collapse)
  show thesis
  proof (cases dec)
    case (GRefuse reason)
    show thesis by (rule refused [OF Inr]) (use assms Inr D GRefuse in \<open>auto simp: sendGroup_def\<close>)
  next
    case (GDraft reason)
    have sp: "gpv_speakAgents (profileOf info)" using D GDraft decideGroupSend_speaks [of net host "env_now env" exec info gid face n reason] by simp
    show thesis
    proof (cases face)
      case None
      show thesis by (rule asked [OF Inr None])
        (use assms Inr D GDraft None sp in \<open>auto simp: sendGroup_def split: prod.splits\<close>)
    next
      case (Some s)
      obtain d s' where q: "queueDraft env (draft_for gid (Some gid) (Some (gi_name info)) body reason (face_trigger host exec face) exec
          (voice_name (face_voice host exec face))) s = (d, s')" by fastforce
      show thesis by (rule drafted [OF Inr Some sp q]) (use assms Inr D GDraft Some q in \<open>auto simp: sendGroup_def\<close>)
    qed
  next
    case (GAllow auto reason)
    have mp: "may_post net host (env_now env) exec info gid face n auto"
      using D GAllow decideGroupSend_allow [of net host "env_now env" exec info gid face n auto reason] by simp
    obtain out n1 where o1: "nc_groups_send net env gid body (group_options auto (voice_name (face_voice host exec face))) n = (out, n1)"
      by fastforce
    have "n1 = n' \<and> res = (case out of Inl e \<Rightarrow> Inl e | Inr r \<Rightarrow> Inr (GSent reason auto r))"
      using assms Inr D GAllow o1 by (auto simp: sendGroup_def split: sum.splits)
    then show thesis using posted [OF Inr mp, of out reason] o1 by simp
  qed
qed

text \<open>
  C8. Nothing is posted into a group against its rules. Whatever a session asks for: either the network
  is left as it was, or exactly one post went into that group, in a group whose profile lets agents
  speak, stamped as written by the alter and with the name of the seat agent that called, and that on
  one of three grounds: the turn was started by the owner, privately or by the owner's own post in that
  group; it answers that very group, in the \<open>auto\<close> tier or in the \<open>draft\<close> tier for a voice that needs no
  approval, with fewer automatic posts in the archive's last hour than the group allows and no run of
  agent posts beyond the group's rounds unless the message mentions the voice, and then it carries the
  automatic flag; or, without the sessions service, a human allowed this call. A held-back post is kept
  as a draft for that group with that text.
\<close>

theorem group_send_gate:
  assumes "sendGroup net host approval env exec gid body face n = (res, face', n')"
  shows "(n' = n \<or> (\<exists>info auto. nc_groups_info net gid n = Inr info \<and> gpv_speakAgents (profileOf info) \<and>
            n' = snd (nc_groups_send net env gid body (group_options auto (voice_name (face_voice host exec face))) n) \<and>
            (may_post net host (env_now env) exec info gid face n auto \<or>
             face = None \<and> \<not> auto \<and> ask_approval approval exec ''soulmirror_send_group_message'' = AllowedOnce))) \<and>
    (\<forall>reason i. res = Inr (GDrafted reason i) \<longrightarrow> n' = n \<and> (\<exists>s'. face' = Some s' \<and> ds_drafts (ss_drafts s') \<noteq> [] \<and>
        (let d = last (ds_drafts (ss_drafts s')) in
          d_id d = i \<and> d_gid d = Some gid \<and> d_body d = body \<and> d_agent d = voice_name (face_voice host exec face))))"
  using assms
proof (cases rule: sendGroup_cases)
  case (drafted info reason s d s')
  have d: "d = last (ds_drafts (ss_drafts s'))" "ds_drafts (ss_drafts s') \<noteq> []" "d_gid d = Some gid" "d_body d = body"
    "d_agent d = voice_name (face_voice host exec face)"
    using drafted(4) by (auto simp: queueDraft_def ds_add_def draft_for_def Let_def act_def split: prod.splits)
  show ?thesis using drafted d(2-) by (auto simp: Let_def simp flip: d(1))
next
  case (asked info reason)
  have v: "voice_name (face_voice host exec face) = None" using asked(2) by (simp add: face_voice_def)
  show ?thesis
  proof (cases "ask_approval approval exec ''soulmirror_send_group_message'' = AllowedOnce")
    case True
    then have "n' = snd (nc_groups_send net env gid body (group_options False (voice_name (face_voice host exec face))) n)"
      using asked(5) v by (auto simp: post_unasked_def Let_def split: prod.splits sum.splits)
    moreover have "res \<noteq> Inr (GDrafted rs i)" for rs i
      using asked(5) True by (auto simp: post_unasked_def Let_def split: prod.splits sum.splits)
    ultimately show ?thesis using asked(1-4) True by blast
  next
    case False
    then show ?thesis using asked(5) by (auto simp: post_unasked_def Let_def)
  qed
next
  case (posted info auto reason out)
  have "n' = snd (nc_groups_send net env gid body (group_options auto (voice_name (face_voice host exec face))) n)"
    using posted(3) by simp
  moreover have "gpv_speakAgents (profileOf info)" using posted(2) by (simp add: may_post_def Let_def)
  moreover have "res \<noteq> Inr (GDrafted rs i)" for rs i using posted(4) by (cases out) auto
  ultimately show ?thesis using posted(1,2) by blast
qed auto

theorem group_send_gate_witness:
  "snd (snd (sendGroup fake_client (open_host (\<lambda>_. Some (mail_turn alice_mail))) None (sample_draws 0) (Some ''s1'') crew_gid ''hello'' (Some fresh_sessions) crew)) = crew"
proof -
  let ?call = "sendGroup fake_client (open_host (\<lambda>_. Some (mail_turn alice_mail))) None (sample_draws 0) (Some ''s1'') crew_gid ''hello'' (Some fresh_sessions) crew"
  obtain res face' n' where c: "?call = (res, face', n')" by (cases ?call) auto
  have "fst ?call = Inr (GDrafted OtherGroup ''draft-u0'')" by code_simp
  then show ?thesis using group_send_gate [OF c] c by auto
qed

section \<open>The loop guard\<close>

lemma first_trigger_auto_mail:
  assumes "im_auto m"
  shows "trig_kind (first_trigger (\<lparr>ev_type = ''user/message'', ev_seq = sq, ev_time = tm, ev_data = Some (userMessageFor u m dn)\<rparr> # es)) = TInboundAuto"
  using classify_mail [of u m dn] assms by auto

lemma since_start_no_turn:
  "list_all (\<lambda>e. ev_type e \<noteq> ''turn/start'') es \<Longrightarrow> since_start (rev es @ e # r) acc =
     (if ev_type e = ''turn/start'' then Some (es @ acc) else since_start r (e # es @ acc))"
  by (induction es arbitrary: acc rule: rev_induct) auto

lemma triggerOf_turn:
  "ev_type b = ''turn/start'' \<Longrightarrow> list_all (\<lambda>e. ev_type e \<noteq> ''turn/start'') es \<Longrightarrow> triggerOf (evs @ b # es) = first_trigger es"
  using since_start_no_turn [of es b "rev evs" "[]"] by (simp add: triggerOf_def)

text \<open>
  C13. Two alters never answer each other without end. In a turn that was started by mail flagged as
  automatic, whatever happened in the session before and whatever the turn has done since, no call of
  the send tool reaches the network, to that friend or to any other: the text becomes a draft with the
  reason \<open>loop-guard-auto\<close>, for every tier and limit.
\<close>

theorem auto_mail_not_answered:
  assumes "im_auto m" "ho_events host sid = Some (evs @ b # mail # es)" "ev_type b = ''turn/start''"
    "mail = \<lparr>ev_type = ''user/message'', ev_seq = sq, ev_time = tm, ev_data = Some (userMessageFor u m dn)\<rparr>"
    "list_all (\<lambda>e. ev_type e \<noteq> ''turn/start'') es"
    "sendMessage net host approval limit envs (Some sid) fpr body (Some s) n = (res, face', n')"
  shows "n' = n \<and> (\<forall>x. res = Inr x \<longrightarrow> (\<exists>k. x = SRefused k) \<or> (\<exists>i. x = SDrafted LoopGuard i))"
proof -
  have t: "trig_kind (face_trigger host (Some sid) (Some s)) = TInboundAuto"
    using triggerOf_turn [of b "mail # es" evs] first_trigger_auto_mail [OF assms(1), of sq tm u dn es] assms(2-5)
    by (simp add: face_trigger_def sess_triggerOf_def)
  then have no: "\<not> may_send host now limit (Some sid) fp s auto" for now fp auto by (simp add: may_send_def)
  show ?thesis using assms(6)
  proof (cases rule: sendMessage_cases)
    case (drafted f s0 reason d s')
    have "fst (fst (decideSend host now limit (Some sid) fp (Some s))) = QueueDraft LoopGuard" for now fp
      using t by (simp add: decideSend_def Let_def split_def sendGate_def)
    then have "\<exists>i. res = Inr (SDrafted LoopGuard i)"
      using assms(6) drafted(1,2) by (auto simp: sendMessage_def Let_def split_def)
    then show ?thesis using drafted by auto
  qed (use no in auto)
qed

theorem auto_mail_not_answered_witness:
  "snd (snd (sendMessage fake_client (open_host (\<lambda>_. Some (mail_turn (alice_mail\<lparr>im_auto := True\<rparr>)))) None 9 sample_draws (Some ''s1'') ALICE_FP ''yes''
     (Some auto_alice) (createFake False))) = createFake False"
proof -
  let ?m = "alice_mail\<lparr>im_auto := True\<rparr>" and ?host = "open_host (\<lambda>_. Some (mail_turn (alice_mail\<lparr>im_auto := True\<rparr>)))"
  obtain res face' n' where c: "sendMessage fake_client ?host None 9 sample_draws (Some ''s1'') ALICE_FP ''yes'' (Some auto_alice) (createFake False) = (res, face', n')"
    by (metis prod_cases3)
  have "im_auto ?m" by simp
  moreover have "ho_events ?host ''s1'' = Some ([] @ hd (mail_turn ?m) # (mail_turn ?m ! 1) # [])" by (simp add: open_host_def mail_turn_def)
  moreover have "ev_type (hd (mail_turn ?m)) = ''turn/start''" by (simp add: mail_turn_def)
  moreover have "mail_turn ?m ! 1 = \<lparr>ev_type = ''user/message'', ev_seq = 1, ev_time = 0, ev_data = Some (userMessageFor ''m'' ?m (im_name ?m))\<rparr>"
    by (simp add: mail_turn_def)
  ultimately have "n' = createFake False" using auto_mail_not_answered [OF _ _ _ _ _ c] by (metis list.pred_inject(1))
  then show ?thesis using c by simp
qed

section \<open>The corrective message counts as the owner's\<close>

text \<open>
  The reminder of \<open>enforceGroupReply\<close> is written with \<open>ownerMessageFor\<close>. In the turn it starts the trigger
  is the owner, so the group's tier, hourly limit and rounds no longer apply to the post it asks for, and
  mail to any friend would go out too, although no owner spoke.
\<close>

lemma nudged_turn_is_owner:
  assumes "ss_nudges (enforceGroupReply host0 wording env sid d s) = ss_nudges s @ [u]"
    "ho_events host sid = Some (evs @ b # nudge # es)" "ev_type b = ''turn/start''"
    "nudge = \<lparr>ev_type = ''user/message'', ev_seq = sq, ev_time = tm, ev_data = Some (nu_message u)\<rparr>"
    "list_all (\<lambda>e. ev_type e \<noteq> ''turn/start'') es" "gpv_speakAgents (profileOf info)"
  shows "may_post net host now (Some sid) info gid (Some s') n False \<and> may_send host now limit (Some sid) fp s' False"
proof -
  have "\<exists>x y. nu_message u = ownerMessageFor x y"
    using assms(1) by (fastforce simp: enforceGroupReply_def unwatch_def split: option.splits if_splits)
  then have "trig_kind (first_trigger (nudge # es)) = TOwner" using assms(4) by auto
  then have "trig_kind (sess_triggerOf host sid) = TOwner"
    using triggerOf_turn [of b "nudge # es" evs] assms(2-5) by (simp add: sess_triggerOf_def)
  then show ?thesis using assms(6) by (simp add: may_post_def may_send_def face_trigger_def Let_def)
qed

text \<open>A fingerprint argument is matched as a prefix, so the empty one names the first friend.\<close>

lemma requireFriend_empty: "nc_friends_list net n = Inr (f # fs) \<Longrightarrow> requireFriend net [] n = Inr f"
  by (simp add: requireFriend_def startsWith_def)

end
