(* ===== verification/Payments.thy ===== *)
theory Payments
  imports Tools
begin

text \<open>
  The tools that reach the payment gateway (\<open>soulmirror_wallet\<close>, \<open>soulmirror_transfer\<close>,
  \<open>soulmirror_group\<close> of \<^verbatim>\<open>src/dsh/packages/dsh/src/tools/index.ts\<close>). The gateway is a parameter that
  answers a JSON value or an error; its calls thread the network state, so the order of calls
  is part of the model. \<open>texts\<close> gives the wording of the Chinese messages.
\<close>

definition gateway_missing :: NetworkError where
  "gateway_missing = \<lparr>ne_message = ''payment gateway unavailable (the fake backend does not run one)'', ne_code = - 32603\<rparr>"

definition obj_of :: "(string \<times> json) list \<Rightarrow> json option" where
  "obj_of kvs = Some (JObj kvs)"

section \<open>Wallet\<close>

text \<open>
  Publishing the address in the directory: saved into the profile and published; when publishing
  fails the profile is saved without it and published again. Every failure is swallowed.
\<close>

definition publish_again :: "'n NetworkClient \<Rightarrow> CapabilityProfile \<Rightarrow> 'n \<Rightarrow> 'n" where
  "publish_again net profile n =
     (case nc_profile_save net (al_del ''usdc_address'' profile) n of
        (Inl _, n') \<Rightarrow> n'
      | (Inr _, n') \<Rightarrow> snd (nc_directory_publish net n'))"

definition publish_address :: "'n NetworkClient \<Rightarrow> string \<Rightarrow> 'n \<Rightarrow> 'n" where
  "publish_address net addr n =
     (case nc_profile_get net n of
        Inl _ \<Rightarrow> n
      | Inr p \<Rightarrow>
          (let profile = (case p of None \<Rightarrow> [] | Some m \<Rightarrow> m) in
           if al_get profile ''usdc_address'' = Some (JStr addr) then n
           else case nc_profile_save net (al_set ''usdc_address'' (JStr addr) profile) n of
                  (Inl _, n1) \<Rightarrow> n1
                | (Inr _, n1) \<Rightarrow>
                    (case nc_directory_publish net n1 of
                       (Inr _, n2) \<Rightarrow> n2
                     | (Inl _, n2) \<Rightarrow> publish_again net profile n2)))"

datatype wallet_op = WalletGetOrCreate | WalletBalance | WalletStatus | WalletBind "string option" "string option"

definition trimmed :: "string option \<Rightarrow> string" where
  "trimmed x = (case x of None \<Rightarrow> [] | Some t \<Rightarrow> trim t)"

definition wallet_bind :: "'n NetworkClient \<Rightarrow> (string \<Rightarrow> string) \<Rightarrow> (string \<Rightarrow> string \<Rightarrow> json option \<Rightarrow> ('n, json) net_call) \<Rightarrow>
    string option \<Rightarrow> string option \<Rightarrow> ('n, json) net_call" where
  "wallet_bind net texts pay addressArg accountArg n =
     (let address = trimmed addressArg; account = trimmed accountArg in
      if address = [] \<and> account = [] then (Inl \<lparr>ne_message = texts ''bind-missing'', ne_code = - 32602\<rparr>, n)
      else if address \<noteq> [] \<and> account \<noteq> [] then (Inl \<lparr>ne_message = texts ''bind-both'', ne_code = - 32602\<rparr>, n)
      else case pay ''POST'' ''/v2/pay/wallet.bind''
                  (obj_of (if address \<noteq> [] then [(''address'', JStr address)] else [(''account_name'', JStr account)])) n of
             (Inl e, n') \<Rightarrow> (Inl e, n')
           | (Inr r, n') \<Rightarrow>
               (Inr r, case (jprop (Some r) ''address'', is_true (jprop (Some r) ''ok'')) of
                         (Some (JStr a), True) \<Rightarrow> publish_address net a n'
                       | _ \<Rightarrow> n'))"

definition tool_wallet :: "'n NetworkClient \<Rightarrow> (string \<Rightarrow> string) \<Rightarrow> 'n paygate \<Rightarrow> ('n \<Rightarrow> json) \<Rightarrow> wallet_op \<Rightarrow> ('n, json) net_call" where
  "tool_wallet net texts gateway payStatus wop n =
     (case gateway of
        None \<Rightarrow> (Inl gateway_missing, n)
      | Some pay \<Rightarrow>
          (case wop of
             WalletGetOrCreate \<Rightarrow>
               (case pay ''POST'' ''/v2/pay/wallet.create'' None n of
                  (Inl e, n') \<Rightarrow> (Inl e, n')
                | (Inr w, n') \<Rightarrow> (Inr w, case str_opt (jprop (Some w) ''address'') of None \<Rightarrow> n' | Some a \<Rightarrow> publish_address net a n'))
           | WalletBalance \<Rightarrow> pay ''GET'' ''/v2/pay/wallet'' None n
           | WalletStatus \<Rightarrow>
               (case pay ''GET'' ''/v2/pay/config'' None n of
                  (Inl e, n') \<Rightarrow> (Inl e, n')
                | (Inr c, n') \<Rightarrow> (Inr (JObj [(''gateway'', payStatus n'), (''config'', c)]), n'))
           | WalletBind a c \<Rightarrow> wallet_bind net texts pay a c n))"

section \<open>Transfer\<close>

datatype transfer_result =
    NoWalletPublished
  | TransferNotApproved ApprovalOutcome
  | Transferred "string option" string string string

definition transfer_body :: "string \<Rightarrow> string \<Rightarrow> string option \<Rightarrow> json option" where
  "transfer_body addr amount memo =
     obj_of ([(''to_address'', JStr addr), (''amount_usdc'', JStr amount)] @ opt_field ''memo'' (map_option JStr memo))"

definition resolve_address :: "'n NetworkClient \<Rightarrow> string \<Rightarrow> string option \<Rightarrow> 'n \<Rightarrow> NetworkError + string" where
  "resolve_address net toFp toAddress n =
     (if trimmed toAddress \<noteq> [] then Inr (trimmed toAddress)
      else case nc_directory_fetch net toFp n of
             Inl e \<Rightarrow> Inl e
           | Inr hit \<Rightarrow> Inr (case hit of None \<Rightarrow> [] | Some a \<Rightarrow> a))"

definition str_field :: "json \<Rightarrow> string \<Rightarrow> string \<Rightarrow> string" where
  "str_field j k d = (case str_opt (jprop (Some j) k) of None \<Rightarrow> d | Some v \<Rightarrow> v)"

definition pay_out :: "'n NetworkClient \<Rightarrow> (string \<Rightarrow> string \<Rightarrow> string) \<Rightarrow> 'n paygate \<Rightarrow> Env \<Rightarrow> string \<Rightarrow> string \<Rightarrow> string \<Rightarrow> string option \<Rightarrow> ('n, transfer_result) net_call" where
  "pay_out net notice gateway env toFp addr amount memo n =
     (case gateway of
        None \<Rightarrow> (Inl gateway_missing, n)
      | Some pay \<Rightarrow>
          (case pay ''POST'' ''/v2/pay/transfer'' (transfer_body addr amount memo) n of
             (Inl e, n') \<Rightarrow> (Inl e, n')
           | (Inr r, n') \<Rightarrow>
               (let tx = str_opt (jprop (Some r) ''tx_hash'')
                in (Inr (Transferred tx (str_field r ''amount'' amount) (str_field r ''to'' addr) (str_field r ''status'' ''processing'')),
                    case tx of None \<Rightarrow> n' | Some h \<Rightarrow> snd (nc_send net env toFp (notice amount h) True n')))))"

definition transfer :: "'n NetworkClient \<Rightarrow> Host \<Rightarrow> approval \<Rightarrow> (string \<Rightarrow> string \<Rightarrow> string) \<Rightarrow> 'n paygate \<Rightarrow> Env \<Rightarrow> string option \<Rightarrow>
    string \<Rightarrow> string option \<Rightarrow> string \<Rightarrow> string option \<Rightarrow> SessionsState option \<Rightarrow> ('n, transfer_result) net_call" where
  "transfer net host approval notice gateway env exec toFp toAddress amount memo face n =
     (case resolve_address net toFp toAddress n of
        Inl e \<Rightarrow> (Inl e, n)
      | Inr addr \<Rightarrow>
          (if addr = [] then (Inr NoWalletPublished, n)
           else if trig_kind (face_trigger host exec face) \<noteq> TOwner \<and> ask_approval approval exec ''soulmirror_transfer'' \<noteq> AllowedOnce
           then (Inr (TransferNotApproved (ask_approval approval exec ''soulmirror_transfer'')), n)
           else pay_out net notice gateway env toFp addr amount memo n))"

section \<open>Paid joining\<close>

datatype group_op =
    SetPrice "string option" "string option" "string option"
  | PaidJoin "string option" "string option" "string option"
  | JoinStatus "string option" "string option"

datatype group_tool_result =
    PriceSet string string string
  | NoReceivingAddress
  | NotPaid
  | NoPrice
  | PaymentFailed json
  | PaidAndApplied string string string
  | GroupNotFound
  | JoinInfo string string string "string option" "string option" nat

definition missing_arg :: "string option \<Rightarrow> bool" where
  "missing_arg x \<longleftrightarrow> x = None \<or> x = Some []"

definition default_profile :: GroupProfile where
  "default_profile = [(''speakHumans'', JBool True), (''speakAgents'', JBool True)]"

definition receiving_address :: "(string \<Rightarrow> string \<Rightarrow> json option \<Rightarrow> ('n, json) net_call) \<Rightarrow> string option \<Rightarrow> ('n, string) net_call" where
  "receiving_address pay address n =
     (if trimmed address \<noteq> [] then (Inr (trimmed address), n)
      else case pay ''GET'' ''/v2/pay/wallet'' None n of
             (Inl e, n') \<Rightarrow> (Inl e, n')
           | (Inr w, n') \<Rightarrow> (Inr (str_field w ''address'' []), n'))"

definition set_price :: "'n NetworkClient \<Rightarrow> (string \<Rightarrow> string \<Rightarrow> json option \<Rightarrow> ('n, json) net_call) \<Rightarrow> string \<Rightarrow> string \<Rightarrow> string option \<Rightarrow> ('n, group_tool_result) net_call" where
  "set_price net pay gid price address n =
     (case nc_groups_info net gid n of
        Inl e \<Rightarrow> (Inl e, n)
      | Inr info \<Rightarrow>
          (let current = (case gi_profile info of None \<Rightarrow> default_profile | Some p \<Rightarrow> p) in
           case receiving_address pay address n of
             (Inl e, n') \<Rightarrow> (Inl e, n')
           | (Inr addr, n') \<Rightarrow>
               (if addr = [] then (Inr NoReceivingAddress, n')
                else case nc_groups_setProfile net gid
                       (spread_profile current [(''join'', JStr ''paid''), (''joinPrice'', JStr price), (''joinAddr'', JStr addr)]) n' of
                       (Inl e, n'') \<Rightarrow> (Inl e, n'')
                     | (Inr _, n'') \<Rightarrow> (Inr (PriceSet gid price addr), n''))))"

text \<open>The published price and address: the native card fields, or the marker in the rules.\<close>

definition card_price :: "GroupCardView \<Rightarrow> (string \<times> string) option" where
  "card_price c =
     (if gc_join c = ''paid''
      then (case (gc_joinAddr c, gc_joinPrice c) of (Some a, Some p) \<Rightarrow> Some (a, p) | _ \<Rightarrow> None)
      else map_option (\<lambda>i. (pj_addr i, pj_price i)) (paidJoinFromRules (gc_rulesHead c)))"

definition join_proof :: "(string \<Rightarrow> string \<Rightarrow> json option \<Rightarrow> ('n, json) net_call) \<Rightarrow> string \<Rightarrow> 'n \<Rightarrow> JoinPaymentProof option \<times> 'n" where
  "join_proof pay tx n =
     (case pay ''POST'' ''/v2/pay/join.receipt'' (obj_of [(''tx_hash'', JStr tx)]) n of
        (Inl _, n') \<Rightarrow> (None, n')
      | (Inr r, n') \<Rightarrow>
          (case (str_opt (jprop (Some r) ''message''), str_opt (jprop (Some r) ''pubkey''), str_opt (jprop (Some r) ''sig'')) of
             (Some m, Some p, Some g) \<Rightarrow> (Some \<lparr>jpp_message = m, jpp_pubkey = p, jpp_sig = g\<rparr>, n')
           | _ \<Rightarrow> (None, n')))"

definition paid_join :: "'n NetworkClient \<Rightarrow> (string \<Rightarrow> string) \<Rightarrow> (string \<Rightarrow> string) \<Rightarrow> (string \<Rightarrow> string \<Rightarrow> json option \<Rightarrow> ('n, json) net_call) \<Rightarrow>
    Env \<Rightarrow> string \<Rightarrow> string option \<Rightarrow> ('n, group_tool_result) net_call" where
  "paid_join net texts paidNote pay env uri memo n =
     (case nc_groups_lookup net uri n of
        Inl e \<Rightarrow> (Inl e, n)
      | Inr None \<Rightarrow> (Inl \<lparr>ne_message = texts ''no-card'', ne_code = - 32004\<rparr>, n)
      | Inr (Some card') \<Rightarrow>
          (case card_price card' of
             None \<Rightarrow> (Inr NotPaid, n)
           | Some (addr, price) \<Rightarrow>
               (if price = [] then (Inr NoPrice, n)
                else case pay ''POST'' ''/v2/pay/transfer'' (transfer_body addr price memo) n of
                  (Inl e, n1) \<Rightarrow> (Inl e, n1)
                | (Inr tx, n1) \<Rightarrow>
                    (case str_opt (jprop (Some tx) ''tx_hash'') of
                       None \<Rightarrow> (Inr (PaymentFailed tx), n1)
                     | Some h \<Rightarrow>
                         (let (proof', n2) = join_proof pay h n1; amount = str_field tx ''amount'' price in
                          case nc_groups_apply net env uri (paidNote amount)
                                 (Some \<lparr>jp_tx_hash = h, jp_amount = amount, jp_to = addr, jp_payer = str_opt (jprop (Some tx) ''from''),
                                        jp_proof = proof', jp_note = None\<rparr>) n2 of
                            (Inl e, n3) \<Rightarrow> (Inl e, n3)
                          | (Inr _, n3) \<Rightarrow> (Inr (PaidAndApplied amount h addr), n3))))))"

definition join_status :: "'n NetworkClient \<Rightarrow> string option \<Rightarrow> string option \<Rightarrow> ('n, group_tool_result) net_call" where
  "join_status net gid uri n =
     (if \<not> missing_arg uri then
        (case nc_groups_lookup net (the uri) n of
           Inl e \<Rightarrow> (Inl e, n)
         | Inr None \<Rightarrow> (Inr GroupNotFound, n)
         | Inr (Some c) \<Rightarrow> (Inr (JoinInfo (gc_gid c) (gc_name c) (gc_join c) (gc_joinPrice c) (gc_joinAddr c) (gc_members c)), n))
      else if missing_arg gid then (Inl \<lparr>ne_message = ''uri or gid is required for join_status'', ne_code = - 32602\<rparr>, n)
      else case nc_groups_info net (the gid) n of
             Inl e \<Rightarrow> (Inl e, n)
           | Inr g \<Rightarrow>
               (let p = map_option JObj (gi_profile g);
                    paid = (if jprop p ''join'' = Some (JStr ''paid'')
                            then Some (str_opt (jprop p ''joinPrice''), str_opt (jprop p ''joinAddr''))
                            else map_option (\<lambda>i. (Some (pj_price i), Some (pj_addr i))) (paidJoinFromRules (str_opt (jprop p ''rules''))))
                in (Inr (JoinInfo (the gid) (gi_name g)
                     (case paid of None \<Rightarrow> (case str_opt (jprop p ''join'') of None \<Rightarrow> ''invite'' | Some j \<Rightarrow> j) | Some _ \<Rightarrow> ''paid'')
                     (case paid of None \<Rightarrow> None | Some (pr, _) \<Rightarrow> pr) (case paid of None \<Rightarrow> None | Some (_, ad) \<Rightarrow> ad) (gi_members g)), n)))"

definition tool_group :: "'n NetworkClient \<Rightarrow> (string \<Rightarrow> string) \<Rightarrow> (string \<Rightarrow> string) \<Rightarrow> 'n paygate \<Rightarrow> Env \<Rightarrow> group_op \<Rightarrow> ('n, group_tool_result) net_call" where
  "tool_group net texts paidNote gateway env gop n =
     (case gateway of
        None \<Rightarrow> (Inl gateway_missing, n)
      | Some pay \<Rightarrow>
          (case gop of
             SetPrice gid price address \<Rightarrow>
               (if missing_arg gid then (Inl \<lparr>ne_message = ''gid is required for set_price'', ne_code = - 32602\<rparr>, n)
                else if missing_arg price then (Inl \<lparr>ne_message = ''price is required, e.g. '' @ dq @ ''1.00'' @ dq, ne_code = - 32602\<rparr>, n)
                else set_price net pay (the gid) (the price) address n)
           | PaidJoin uri price memo \<Rightarrow>
               (if missing_arg uri then (Inl \<lparr>ne_message = ''uri is required for paid_join'', ne_code = - 32602\<rparr>, n)
                else paid_join net texts paidNote pay env (the uri) memo n)
           | JoinStatus gid uri \<Rightarrow> join_status net gid uri n))"

section \<open>Remembering\<close>

datatype remember_result = MemoryUnavailable | EmptyMemory | Remembered string string string

definition remember_scope :: "Host \<Rightarrow> string \<Rightarrow> SessionsState \<Rightarrow> MemoryScope" where
  "remember_scope host sid s =
     (case voiceOf host sid s of
        Some (AgentVoice seat) \<Rightarrow>
          (let t = sess_triggerOf host sid in
           case (trig_kind t = TGroup, trig_gid t) of (True, Some g) \<Rightarrow> SharedGroup g | _ \<Rightarrow> AgentScope (sa_name seat))
      | _ \<Rightarrow> Global)"

definition remember_kind :: "string option \<Rightarrow> MemoryKind" where
  "remember_kind k = (case k of None \<Rightarrow> Fact | Some t \<Rightarrow> (case kind_of t of None \<Rightarrow> Fact | Some kd \<Rightarrow> kd))"

definition tool_remember :: "Host \<Rightarrow> Env \<Rightarrow> string option \<Rightarrow> string \<Rightarrow> string option \<Rightarrow> SessionsState \<Rightarrow> (memory_error + remember_result) \<times> SessionsState" where
  "tool_remember host env exec contentArg kindArg s =
     (case exec of
        None \<Rightarrow> (Inr MemoryUnavailable, s)
      | Some sid \<Rightarrow>
          (let content = trim contentArg; scope = remember_scope host sid s in
           if content = [] then (Inr EmptyMemory, s)
           else case memoryRemember env \<lparr>nm_kind = remember_kind kindArg, nm_content = content, nm_scope = scope, nm_sourceCh = [],
                       nm_sourceRef = None, nm_weight = None, nm_origin = None\<rparr> s of
                  (Inl e, s') \<Rightarrow> (Inl e, s')
                | (Inr r, s') \<Rightarrow>
                    (Inr (Remembered (mr_uid r) (scopeKind scope) (mr_content r)),
                     act (Emit (EMemoryExtracted 1 (Some [(mr_uid r, mr_content r)]))) s')))"

section \<open>Money\<close>

text \<open>A gateway whose transfer endpoint answers and does something else.\<close>

definition other_transfers :: "(json option \<Rightarrow> ('n, json) net_call) \<Rightarrow> (string \<Rightarrow> string \<Rightarrow> json option \<Rightarrow> ('n, json) net_call) \<Rightarrow>
    string \<Rightarrow> string \<Rightarrow> json option \<Rightarrow> ('n, json) net_call" where
  "other_transfers t pay method path = (if path = ''/v2/pay/transfer'' then t else pay method path)"

lemma other_paths [simp]:
  "other_transfers t pay m ''/v2/pay/wallet'' = pay m ''/v2/pay/wallet''"
  "other_transfers t pay m ''/v2/pay/wallet.create'' = pay m ''/v2/pay/wallet.create''"
  "other_transfers t pay m ''/v2/pay/wallet.bind'' = pay m ''/v2/pay/wallet.bind''"
  "other_transfers t pay m ''/v2/pay/config'' = pay m ''/v2/pay/config''"
  by (simp_all add: other_transfers_def)

lemma wallet_no_transfer: "tool_wallet net texts (Some (other_transfers t pay)) st wop n = tool_wallet net texts (Some pay) st wop n"
  by (cases wop) (simp_all add: tool_wallet_def wallet_bind_def Let_def)

lemma receiving_no_transfer: "receiving_address (other_transfers t pay) = receiving_address pay"
  by (simp add: receiving_address_def fun_eq_iff)

lemma set_price_no_transfer: "set_price net (other_transfers t pay) = set_price net pay"
  by (intro ext) (simp only: set_price_def receiving_no_transfer)

lemma group_tool_no_transfer:
  "(\<forall>uri price memo. gop \<noteq> PaidJoin uri price memo) \<Longrightarrow>
   tool_group net texts note (Some (other_transfers t pay)) env gop n = tool_group net texts note (Some pay) env gop n"
  by (cases gop) (simp_all add: tool_group_def set_price_no_transfer)

lemma pay_out_transferred:
  assumes "pay_out net notice gateway env toFp addr amount memo n = (Inr x, n')"
  obtains pay r n1 where "gateway = Some pay" "pay ''POST'' ''/v2/pay/transfer'' (transfer_body addr amount memo) n = (Inr r, n1)"
    "x = Transferred (str_opt (jprop (Some r) ''tx_hash'')) (str_field r ''amount'' amount) (str_field r ''to'' addr) (str_field r ''status'' ''processing'')"
    "n' = (case str_opt (jprop (Some r) ''tx_hash'') of None \<Rightarrow> n1 | Some h \<Rightarrow> snd (nc_send net env toFp (notice amount h) True n1))"
  using assms that by (auto simp: pay_out_def Let_def split: option.splits prod.splits sum.splits)


text \<open>A gateway that answers every transfer, for the witness.\<close>

definition sample_gateway :: "FakeNet paygate" where
  "sample_gateway = Some (\<lambda>method path b n. (Inr (JObj [(''tx_hash'', JStr ''0xabc'')]), n\<lparr>fn_pinSeq := fn_pinSeq n + 1\<rparr>))"


text \<open>
  Paid joining is the exception: \<open>paid_join\<close> reads neither the trigger nor the approval service, so a
  priced card is paid in any turn.
\<close>

lemma paid_join_ungated:
  assumes "nc_groups_lookup net uri n = Inr (Some c)" "card_price c = Some (addr, price)" "price \<noteq> []"
    "pay ''POST'' ''/v2/pay/transfer'' (transfer_body addr price memo) n = (Inr r, n1)" "str_opt (jprop (Some r) ''tx_hash'') = None"
  shows "paid_join net texts note pay env uri memo n = (Inr (PaymentFailed r), n1)"
  using assms by (simp add: paid_join_def)

end
