(* ===== verification/Paygate.thy ===== *)
theory Paygate
  imports Js_Date Js_Collections
begin

text \<open>
  The client of the local payment gateway, \<^verbatim>\<open>src/dsh/packages/dsh/src/network/paygate.ts\<close>: how the binary is
  chosen, what environment the process gets, the life of the process (spawn, exit, error, restart,
  dispose), the wait until it answers, and a signed call. Processes are numbered in the order they were
  started; the file system, the processes' events, the clock, the signer and HTTP are parameters.
  Lemmas: the wait ends; without a restart the client knows every gateway that runs, so disposing stops it;
  and what a restart does to that.
\<close>

section \<open>Settings and status\<close>

record PaygateSettings =
  ps_paygateBinary :: string
  ps_paygatePort :: nat
  ps_paygateProxy :: string
  ps_cdpKeyId :: string
  ps_cdpKeySecret :: string
  ps_cdpWalletSecret :: string
  ps_cdpNetwork :: string

datatype gateway_state = GStopped | GStarting | GRunning | GError

record PaygateStatus =
  pgs_state :: gateway_state
  pgs_port :: nat
  pgs_cdpConfigured :: bool
  pgs_network :: string
  pgs_lastError :: "string option"

record PaygateError =
  pge_message :: string
  pge_code :: int

record gateway_process =
  gp_alive :: bool
  gp_signalled :: bool

record Paygate =
  pg_child :: "nat option"
  pg_procs :: "gateway_process list"
  pg_disposed :: bool
  pg_started :: bool
  pg_status :: PaygateStatus
  pg_pubCache :: "string option"

definition cdpConfigured :: "PaygateSettings \<Rightarrow> bool" where
  "cdpConfigured s \<longleftrightarrow> ps_cdpKeyId s \<noteq> [] \<and> ps_cdpKeySecret s \<noteq> [] \<and> ps_cdpWalletSecret s \<noteq> []"

definition createPaygateClient :: "PaygateSettings \<Rightarrow> Paygate" where
  "createPaygateClient s =
     \<lparr>pg_child = None, pg_procs = [], pg_disposed = False, pg_started = False,
      pg_status = \<lparr>pgs_state = GStopped, pgs_port = ps_paygatePort s, pgs_cdpConfigured = False, pgs_network = ps_cdpNetwork s, pgs_lastError = None\<rparr>,
      pg_pubCache = None\<rparr>"

definition envFor :: "string \<Rightarrow> string \<Rightarrow> PaygateSettings \<Rightarrow> (string, string) al" where
  "envFor payHome identityFile s =
     [(''PAYGATE_LISTEN'', ''127.0.0.1:'' @ show_nat (ps_paygatePort s)), (''PAYGATE_HOME'', payHome),
      (''PAYGATE_IDENTITY_FILE'', identityFile), (''CDP_NETWORK'', ps_cdpNetwork s)] @
     (if ps_paygateProxy s \<noteq> [] then [(''HTTP_PROXY'', ps_paygateProxy s), (''HTTPS_PROXY'', ps_paygateProxy s)] else []) @
     (if ps_cdpKeyId s \<noteq> [] \<and> ps_cdpKeySecret s \<noteq> [] \<and> ps_cdpWalletSecret s \<noteq> []
      then [(''CDP_API_KEY_ID'', ps_cdpKeyId s), (''CDP_API_KEY_SECRET'', ps_cdpKeySecret s), (''CDP_WALLET_SECRET'', ps_cdpWalletSecret s)]
      else [])"

section \<open>The binary\<close>

definition PAYGATE_TARGETS :: "string list" where
  "PAYGATE_TARGETS = [''darwin-arm64'', ''darwin-x64'', ''linux-arm64'', ''linux-x64'', ''win32-x64'']"

definition paygatePlatformPackageName :: "string \<Rightarrow> string \<Rightarrow> string option" where
  "paygatePlatformPackageName platform arch =
     (if platform @ ''-'' @ arch \<in> set PAYGATE_TARGETS
      then Some (''soulnet-paygate-'' @ (if platform = ''win32'' then ''windows'' else platform) @ ''-'' @ arch) else None)"

text \<open>\<open>pkgDir\<close>: the directory a package is installed in; \<open>beside\<close>: the three hand-dropped candidates.\<close>

definition resolvePaygateBinary :: "string \<Rightarrow> string \<Rightarrow> (string \<Rightarrow> string option) \<Rightarrow> (string \<Rightarrow> bool) \<Rightarrow> string list \<Rightarrow> string option" where
  "resolvePaygateBinary platform arch pkgDir existsFile beside =
     (let bin = (case paygatePlatformPackageName platform arch of
            None \<Rightarrow> None
          | Some pkg \<Rightarrow> map_option (\<lambda>d. d @ ''/bin/'' @ (if platform = ''win32'' then ''paygate.exe'' else ''paygate'')) (pkgDir pkg))
      in case bin of
           Some b \<Rightarrow> (if existsFile b then Some b else List.find existsFile beside)
         | None \<Rightarrow> List.find existsFile beside)"

definition gateway_binary :: "PaygateSettings \<Rightarrow> string option \<Rightarrow> string" where
  "gateway_binary s resolved =
     (if ps_paygateBinary s \<noteq> [] then ps_paygateBinary s else (case resolved of None \<Rightarrow> ''paygate'' | Some b \<Rightarrow> b))"

text \<open>\<open>readIdentityPub\<close> on the parsed identity file, if there is one and it parses.\<close>

definition readIdentityPub :: "unknown \<Rightarrow> string option" where
  "readIdentityPub f =
     (case jprop f ''ed_pub'' of Some (JStr k) \<Rightarrow> (if k = [] then None else Some k) | _ \<Rightarrow> None)"

section \<open>The process\<close>

definition set_status :: "(PaygateStatus \<Rightarrow> PaygateStatus) \<Rightarrow> Paygate \<Rightarrow> Paygate" where
  "set_status f p = p\<lparr>pg_status := f (pg_status p)\<rparr>"

definition starting :: "PaygateSettings \<Rightarrow> PaygateStatus" where
  "starting s = \<lparr>pgs_state = GStarting, pgs_port = ps_paygatePort s, pgs_cdpConfigured = cdpConfigured s, pgs_network = ps_cdpNetwork s, pgs_lastError = None\<rparr>"

text \<open>\<open>fault\<close>: the error \<open>spawn\<close> threw, if it did.\<close>

definition spawnGateway :: "PaygateSettings \<Rightarrow> string option \<Rightarrow> Paygate \<Rightarrow> Paygate" where
  "spawnGateway s fault p =
     (if pg_disposed p \<or> pg_child p \<noteq> None then p
      else (let p1 = p\<lparr>pg_status := starting s\<rparr> in
            case fault of
              Some e \<Rightarrow> set_status (\<lambda>st. st\<lparr>pgs_state := GError, pgs_lastError := Some e\<rparr>) (p1\<lparr>pg_child := None\<rparr>)
            | None \<Rightarrow> p1\<lparr>pg_child := Some (length (pg_procs p1)), pg_procs := pg_procs p1 @ [\<lparr>gp_alive = True, gp_signalled = False\<rparr>]\<rparr>))"

definition on_proc :: "nat \<Rightarrow> (gateway_process \<Rightarrow> gateway_process) \<Rightarrow> Paygate \<Rightarrow> Paygate" where
  "on_proc i f p = (if i < length (pg_procs p) then p\<lparr>pg_procs := (pg_procs p)[i := f (pg_procs p ! i)]\<rparr> else p)"

text \<open>The handlers close over \<open>child\<close>, whichever process it names when they run.\<close>

definition gateway_exit :: "nat \<Rightarrow> string \<Rightarrow> Paygate \<Rightarrow> Paygate" where
  "gateway_exit i code p =
     (let p1 = (on_proc i (\<lambda>g. g\<lparr>gp_alive := False\<rparr>) p)\<lparr>pg_child := None\<rparr> in
      if pg_disposed p1 then p1
      else set_status (\<lambda>st. st\<lparr>pgs_state := GStopped, pgs_lastError := Some (''paygate exited (code='' @ code @ '')'')\<rparr>) p1)"

definition gateway_failed :: "nat \<Rightarrow> string \<Rightarrow> Paygate \<Rightarrow> Paygate" where
  "gateway_failed i message p =
     (let p1 = (on_proc i (\<lambda>g. g\<lparr>gp_alive := False\<rparr>) p)\<lparr>pg_child := None\<rparr> in
      if pg_disposed p1 then p1 else set_status (\<lambda>st. st\<lparr>pgs_state := GError, pgs_lastError := Some message\<rparr>) p1)"

definition paygate_start :: "PaygateSettings \<Rightarrow> string option \<Rightarrow> Paygate \<Rightarrow> Paygate" where
  "paygate_start s fault p = (if pg_started p \<or> pg_disposed p then p else spawnGateway s fault (p\<lparr>pg_started := True\<rparr>))"

text \<open>\<open>proc.kill\<close> on a process that has not exited.\<close>

definition kill_child :: "Paygate \<Rightarrow> Paygate" where
  "kill_child p =
     (case pg_child p of
        None \<Rightarrow> p
      | Some i \<Rightarrow> (on_proc i (\<lambda>g. if gp_alive g then g\<lparr>gp_signalled := True\<rparr> else g) p)\<lparr>pg_child := None\<rparr>)"

definition paygate_restart :: "PaygateSettings \<Rightarrow> string option \<Rightarrow> Paygate \<Rightarrow> Paygate" where
  "paygate_restart s fault p =
     (if pg_disposed p then p else spawnGateway s fault ((kill_child p)\<lparr>pg_status := starting s\<rparr>))"

definition paygate_dispose :: "Paygate \<Rightarrow> Paygate" where
  "paygate_dispose p = kill_child (p\<lparr>pg_disposed := True\<rparr>)"

section \<open>Waiting and calling\<close>

text \<open>
  One turn of the polling loop: what happened to the client before it, what the health endpoint answered
  (the reported network and CDP flag, when it answered), and the time afterwards.
\<close>

record poll =
  po_before :: "Paygate \<Rightarrow> Paygate"
  po_health :: "(string option \<times> bool option) option"
  po_now :: int

definition now_running :: "PaygateSettings \<Rightarrow> string option \<times> bool option \<Rightarrow> PaygateStatus \<Rightarrow> PaygateStatus" where
  "now_running s h st =
     \<lparr>pgs_state = GRunning, pgs_port = pgs_port st, pgs_cdpConfigured = (case snd h of None \<Rightarrow> cdpConfigured s | Some b \<Rightarrow> b),
      pgs_network = (case fst h of None \<Rightarrow> pgs_network st | Some n \<Rightarrow> n), pgs_lastError = None\<rparr>"

definition pay_error :: "string \<Rightarrow> int \<Rightarrow> PaygateError" where
  "pay_error m c = \<lparr>pge_message = m, pge_code = c\<rparr>"

text \<open>\<open>None\<close>: the observed turns are over and the loop is still polling.\<close>

fun ready_loop :: "PaygateSettings \<Rightarrow> int \<Rightarrow> poll list \<Rightarrow> Paygate \<Rightarrow> (PaygateError + unit) option \<times> Paygate" where
  "ready_loop s deadline [] p = (None, p)"
| "ready_loop s deadline (o1 # os) p =
     (let p1 = po_before o1 p in
      if pg_disposed p1 then (Some (Inl (pay_error ''paygate disposed'' (- 32099))), p1)
      else if pgs_state (pg_status p1) = GError
      then (Some (Inl (pay_error (case pgs_lastError (pg_status p1) of None \<Rightarrow> ''paygate failed to start'' | Some e \<Rightarrow> e) (- 32099))), p1)
      else (case po_health o1 of
              Some h \<Rightarrow> (Some (Inr ()), set_status (now_running s h) p1)
            | None \<Rightarrow>
                (if po_now o1 \<ge> deadline then (Some (Inl (pay_error ''paygate not ready'' (- 32099))), p1)
                 else ready_loop s deadline os p1)))"

definition READY_TIMEOUT_MS :: int where "READY_TIMEOUT_MS = 10000"
definition POLL_MS :: int where "POLL_MS = 200"

definition paygate_ready :: "PaygateSettings \<Rightarrow> int \<Rightarrow> poll list \<Rightarrow> Paygate \<Rightarrow> (PaygateError + unit) option \<times> Paygate" where
  "paygate_ready s now os p = ready_loop s (now + READY_TIMEOUT_MS) os p"

record signed_request =
  sq_method :: string
  sq_path :: string
  sq_port :: nat
  sq_pub :: string
  sq_timestamp :: string
  sq_signature :: string
  sq_body :: unknown

text \<open>
  A call that found the gateway ready: \<open>identityFile\<close> is read when the key is not cached, \<open>sign\<close> asks the
  peer, \<open>http\<close> answers the status and the parsed document or fails.
\<close>

definition signed_call :: "unknown \<Rightarrow> (string \<Rightarrow> string \<Rightarrow> string \<Rightarrow> PaygateError + string) \<Rightarrow> (signed_request \<Rightarrow> PaygateError + int \<times> json) \<Rightarrow>
    int \<Rightarrow> string \<Rightarrow> string \<Rightarrow> unknown \<Rightarrow> Paygate \<Rightarrow> (PaygateError + json) \<times> Paygate" where
  "signed_call identityFile sign http now method path body p =
     (let ts = toISOString now; pub = (case pg_pubCache p of Some k \<Rightarrow> Some k | None \<Rightarrow> readIdentityPub identityFile); p1 = p\<lparr>pg_pubCache := pub\<rparr> in
      case pub of
        None \<Rightarrow> (Inl (pay_error ''no identity public key (identity.json missing)'' (- 32001)), p1)
      | Some k \<Rightarrow>
          (case sign method path ts of
             Inl e \<Rightarrow> (Inl e, p1)
           | Inr sig \<Rightarrow>
               (case http \<lparr>sq_method = method, sq_path = path, sq_port = pgs_port (pg_status p1), sq_pub = k, sq_timestamp = ts, sq_signature = sig, sq_body = body\<rparr> of
                  Inl e \<Rightarrow> (Inl e, p1)
                | Inr (status, d) \<Rightarrow>
                    (case jprop (Some d) ''error'' of
                       None \<Rightarrow> (Inr d, p1)
                     | Some e \<Rightarrow> (Inl (pay_error (as_str (Some e)) (case jprop (Some d) ''code'' of
                         Some (JNum (Fin r)) \<Rightarrow> \<lfloor>r\<rfloor> | _ \<Rightarrow> status)), p1)))))"

definition paygate_call :: "PaygateSettings \<Rightarrow> int \<Rightarrow> poll list \<Rightarrow> unknown \<Rightarrow> (string \<Rightarrow> string \<Rightarrow> string \<Rightarrow> PaygateError + string) \<Rightarrow>
    (signed_request \<Rightarrow> PaygateError + int \<times> json) \<Rightarrow> int \<Rightarrow> string \<Rightarrow> string \<Rightarrow> unknown \<Rightarrow> Paygate \<Rightarrow> (PaygateError + json) option \<times> Paygate" where
  "paygate_call s now os identityFile sign http later method path body p =
     (case paygate_ready s now os p of
        (None, p1) \<Rightarrow> (None, p1)
      | (Some (Inl e), p1) \<Rightarrow> (Some (Inl e), p1)
      | (Some (Inr _), p1) \<Rightarrow> (let (r, p2) = signed_call identityFile sign http later method path body p1 in (Some r, p2)))"

section \<open>The wait ends\<close>

text \<open>The loop sleeps between turns, so the clock moves on by at least that time.\<close>

definition paced :: "int \<Rightarrow> poll list \<Rightarrow> bool" where
  "paced now os \<longleftrightarrow> (\<forall>i < length os. now + int i * POLL_MS \<le> po_now (os ! i))"

lemma ready_loop_ends:
  "os \<noteq> [] \<Longrightarrow> deadline \<le> po_now (last os) \<Longrightarrow> fst (ready_loop s deadline os p) \<noteq> None"
proof (induction os arbitrary: p)
  case (Cons o1 os)
  show ?case
  proof (cases "os = []")
    case False
    then show ?thesis using Cons by (auto simp: Let_def split: option.splits)
  qed (use Cons.prems in \<open>auto simp: Let_def split: option.splits\<close>)
qed simp

lemma paced_last: "paced now os \<Longrightarrow> os \<noteq> [] \<Longrightarrow> now + (int (length os) - 1) * POLL_MS \<le> po_now (last os)"
  by (cases os rule: rev_cases) (auto simp: paced_def last_conv_nth of_nat_diff nth_append dest!: spec [of _ "length os - 1"])

text \<open>
  C21. A call to the gateway never waits for ever. However the gateway behaves, after fifty-one turns of the
  polling loop the wait has ended: the gateway answered, or it failed or the client was disposed, or the ten
  seconds are over; and a call that is let through is answered or fails. Nothing is signed and nothing is
  sent unless the gateway answered.
\<close>

theorem gateway_wait_ends:
  assumes "paced now os" "length os = 51"
  shows "(\<exists>r. fst (paygate_ready s now os p) = Some r) \<and>
    (\<exists>r. fst (paygate_call s now os identityFile sign http later method path body p) = Some r) \<and>
    (\<forall>e. fst (paygate_ready s now os p) = Some (Inl e) \<longrightarrow>
       paygate_call s now os identityFile sign http later method path body p = (Some (Inl e), snd (paygate_ready s now os p)))"
proof -
  have ne: "os \<noteq> []" using assms(2) by auto
  have "now + READY_TIMEOUT_MS \<le> po_now (last os)"
    using paced_last [OF assms(1) ne] assms(2) by (simp add: READY_TIMEOUT_MS_def POLL_MS_def)
  then have "fst (paygate_ready s now os p) \<noteq> None" unfolding paygate_ready_def by (rule ready_loop_ends [OF ne])
  then show ?thesis
    by (auto simp: paygate_call_def split_def Let_def split: option.splits sum.splits prod.splits)
qed

definition silent_gateway :: "poll list" where
  "silent_gateway = map (\<lambda>i. \<lparr>po_before = id, po_health = None, po_now = int i * 200\<rparr>) [0..<51]"

definition sample_paygate :: PaygateSettings where
  "sample_paygate = \<lparr>ps_paygateBinary = [], ps_paygatePort = 9001, ps_paygateProxy = [], ps_cdpKeyId = [], ps_cdpKeySecret = [],
     ps_cdpWalletSecret = [], ps_cdpNetwork = ''base-sepolia''\<rparr>"

theorem gateway_wait_ends_witness:
  "\<exists>r. fst (paygate_ready sample_paygate 0 silent_gateway (createPaygateClient sample_paygate)) = Some r"
proof -
  have "paced 0 silent_gateway" "length silent_gateway = 51" by (simp_all add: paced_def silent_gateway_def POLL_MS_def)
  from gateway_wait_ends [OF this] show ?thesis by (rule conjunct1)
qed

section \<open>Who knows the process\<close>

text \<open>The life of a client; an event of a process comes while it is alive.\<close>

inductive gateway_reach :: "bool \<Rightarrow> Paygate \<Rightarrow> bool" for restarts :: bool where
  create: "gateway_reach restarts (createPaygateClient s)"
| start: "gateway_reach restarts p \<Longrightarrow> gateway_reach restarts (paygate_start s fault p)"
| restart: "gateway_reach restarts p \<Longrightarrow> restarts \<Longrightarrow> gateway_reach restarts (paygate_restart s fault p)"
| exit: "gateway_reach restarts p \<Longrightarrow> i < length (pg_procs p) \<Longrightarrow> gp_alive (pg_procs p ! i) \<Longrightarrow> gateway_reach restarts (gateway_exit i code p)"
| failed: "gateway_reach restarts p \<Longrightarrow> i < length (pg_procs p) \<Longrightarrow> gp_alive (pg_procs p ! i) \<Longrightarrow> gateway_reach restarts (gateway_failed i message p)"
| dispose: "gateway_reach restarts p \<Longrightarrow> gateway_reach restarts (paygate_dispose p)"

definition known_gateway :: "Paygate \<Rightarrow> bool" where
  "known_gateway p \<longleftrightarrow> length (pg_procs p) \<le> (if pg_started p then 1 else 0) \<and>
     (\<forall>i < length (pg_procs p). gp_alive (pg_procs p ! i) \<longrightarrow> pg_child p = Some i \<or> gp_signalled (pg_procs p ! i)) \<and>
     (\<forall>i. pg_child p = Some i \<longrightarrow> i < length (pg_procs p) \<and> \<not> pg_disposed p)"

lemma set_status_fields [simp]:
  "pg_procs (set_status f p) = pg_procs p" "pg_child (set_status f p) = pg_child p" "pg_started (set_status f p) = pg_started p"
  "pg_disposed (set_status f p) = pg_disposed p"
  by (simp_all add: set_status_def)

lemma known_set_status [simp]: "known_gateway (set_status f p) = known_gateway p"
  by (simp add: known_gateway_def)

lemma known_gone:
  "known_gateway p \<Longrightarrow> i < length (pg_procs p) \<Longrightarrow>
     known_gateway ((on_proc i (\<lambda>g. g\<lparr>gp_alive := False\<rparr>) p)\<lparr>pg_child := None\<rparr>)"
  by (auto simp: known_gateway_def on_proc_def nth_list_update split: if_splits)

lemma known_dispose: "known_gateway p \<Longrightarrow> known_gateway (paygate_dispose p)"
  by (auto simp: known_gateway_def paygate_dispose_def kill_child_def on_proc_def nth_list_update split: option.splits if_splits)

lemma known_start: "known_gateway p \<Longrightarrow> known_gateway (paygate_start s fault p)"
  by (auto simp: paygate_start_def spawnGateway_def Let_def known_gateway_def split: option.splits if_splits)

lemma gateway_known: "gateway_reach False p \<Longrightarrow> known_gateway p"
proof (induction rule: gateway_reach.induct)
  case (create s)
  show ?case by (simp add: known_gateway_def createPaygateClient_def)
qed (auto simp: gateway_exit_def gateway_failed_def Let_def known_gone known_dispose known_start)

text \<open>Without restarts, disposing the client signals every gateway that is still alive.\<close>

lemma dispose_stops_gateway:
  assumes "gateway_reach False p" "i < length (pg_procs (paygate_dispose p))" "gp_alive (pg_procs (paygate_dispose p) ! i)"
  shows "gp_signalled (pg_procs (paygate_dispose p) ! i)"
proof -
  have k: "known_gateway (paygate_dispose p)" by (rule known_dispose [OF gateway_known [OF assms(1)]])
  have "pg_child (paygate_dispose p) = None" by (simp add: paygate_dispose_def kill_child_def split: option.splits)
  then show ?thesis using k assms(2,3) by (auto simp: known_gateway_def)
qed

text \<open>
  A restart starts the new process before the old one has exited. The exit handler of the old one then
  clears the reference to the new one: the client reports a stopped gateway, and neither a further restart
  nor disposing the client signals the process that runs.
\<close>

lemma restart_orphans_gateway:
  "let p = gateway_exit 0 ''0'' (paygate_restart sample_paygate None (paygate_start sample_paygate None (createPaygateClient sample_paygate)))
   in gateway_reach True p \<and> gp_alive (pg_procs p ! 1) \<and> pgs_state (pg_status p) = GStopped \<and>
      \<not> gp_signalled (pg_procs (paygate_dispose p) ! 1) \<and> \<not> gp_signalled (pg_procs (paygate_restart sample_paygate None p) ! 1)"
proof -
  let ?q = "paygate_restart sample_paygate None (paygate_start sample_paygate None (createPaygateClient sample_paygate))"
  have "gateway_reach True ?q" by (intro gateway_reach.restart gateway_reach.start gateway_reach.create) simp
  moreover have "0 < length (pg_procs ?q)" "gp_alive (pg_procs ?q ! 0)" by code_simp+
  ultimately have r: "gateway_reach True (gateway_exit 0 ''0'' ?q)" by (rule gateway_reach.exit)
  let ?p = "gateway_exit 0 ''0'' ?q"
  have "gp_alive (pg_procs ?p ! 1)" "pgs_state (pg_status ?p) = GStopped" "\<not> gp_signalled (pg_procs (paygate_dispose ?p) ! 1)"
    "\<not> gp_signalled (pg_procs (paygate_restart sample_paygate None ?p) ! 1)" by code_simp+
  with r show ?thesis by (simp add: Let_def)
qed

text \<open>The secrets reach the process together or not at all, and the gateway listens on the loopback only.\<close>

lemma gateway_environment:
  "al_get (envFor h f s) ''PAYGATE_LISTEN'' = Some (''127.0.0.1:'' @ show_nat (ps_paygatePort s)) \<and>
   al_get (envFor h f s) ''CDP_API_KEY_SECRET'' = (if cdpConfigured s then Some (ps_cdpKeySecret s) else None) \<and>
   al_get (envFor h f s) ''CDP_WALLET_SECRET'' = (if cdpConfigured s then Some (ps_cdpWalletSecret s) else None)"
  by (auto simp: envFor_def cdpConfigured_def)

end
