(* ===== verification/Js_Number.thy ===== *)
theory Js_Number
  imports Json_Text
begin

text \<open>
  \<open>Number(s)\<close> on strings, as the version comparison (\<^verbatim>\<open>src/dsh/packages/dsh/src/api/upgrade.ts\<close>) and the
  query parameters of the browser API use it: white space around the literal is ignored, the empty
  string is zero, decimal literals may have a sign, a fraction and an exponent, and there are three
  prefixed radices. \<open>NotFinite\<close> stands for \<open>NaN\<close> and the infinities. Values are exact rationals.
\<close>

definition radix_digits :: "nat \<Rightarrow> string \<Rightarrow> jsnum" where
  "radix_digits base ds =
     (if ds \<noteq> [] \<and> list_all (\<lambda>c. case hex_val c of None \<Rightarrow> False | Some d \<Rightarrow> d < base) ds
      then Fin (of_nat (foldl (\<lambda>a c. base * a + the (hex_val c)) 0 ds)) else NotFinite)"

definition strip_sign :: "string \<Rightarrow> bool \<times> string" where
  "strip_sign s = (case s of [] \<Rightarrow> (False, []) | c # t \<Rightarrow>
     if c = CHR ''-'' then (True, t) else if c = CHR ''+'' then (False, t) else (False, s))"

definition fraction_part :: "string \<Rightarrow> string \<times> string" where
  "fraction_part s = (case s of [] \<Rightarrow> ([], []) | c # t \<Rightarrow>
     if c = CHR ''.'' then (takeWhile is_digit t, dropWhile is_digit t) else ([], s))"

definition decimal_literal :: "string \<Rightarrow> jsnum" where
  "decimal_literal s =
     (let (neg, u) = strip_sign s; ip = takeWhile is_digit u; (fs, r) = fraction_part (dropWhile is_digit u)
      in if ip = [] \<and> fs = [] then NotFinite
         else (case parse_exp r of
                 Some (e, []) \<Rightarrow> Fin ((if neg then - 1 else 1) * scale10 (of_nat (digits_val (ip @ fs)) / 10 ^ length fs) e)
               | _ \<Rightarrow> NotFinite))"

definition js_Number :: "string \<Rightarrow> jsnum" where
  "js_Number s =
     (let t = trim s; p = take 2 t in
      if t = [] then Fin 0
      else if p = ''0x'' \<or> p = ''0X'' then radix_digits 16 (drop 2 t)
      else if p = ''0o'' \<or> p = ''0O'' then radix_digits 8 (drop 2 t)
      else if p = ''0b'' \<or> p = ''0B'' then radix_digits 2 (drop 2 t)
      else decimal_literal t)"

lemma digit_not_ws: "is_digit c \<Longrightarrow> \<not> is_ws c"
  by (auto simp: is_digit_def is_ws_def Let_def)

lemma digit_chars:
  "is_digit c \<Longrightarrow> c \<noteq> CHR ''x'' \<and> c \<noteq> CHR ''X'' \<and> c \<noteq> CHR ''o'' \<and> c \<noteq> CHR ''O'' \<and> c \<noteq> CHR ''b'' \<and> c \<noteq> CHR ''B'' \<and>
     c \<noteq> CHR ''-'' \<and> c \<noteq> CHR ''+'' \<and> c \<noteq> CHR ''.''"
  by (auto simp: is_digit_def Let_def)

text \<open>A string of digits is read as the number they denote.\<close>

lemma Number_digits:
  assumes "s \<noteq> []" "list_all is_digit s"
  shows "js_Number s = Fin (of_nat (digits_val s))"
proof -
  have t: "trim s = s" using assms by (auto simp: trim_id_iff list_all_iff digit_not_ws)
  have second: "s ! 1 \<notin> {CHR ''x'', CHR ''X'', CHR ''o'', CHR ''O'', CHR ''b'', CHR ''B''}" if "1 < length s"
    using assms(2) digit_chars [of "s ! 1"] nth_mem [OF that] by (auto simp: list_all_iff)
  have p: "take 2 s \<noteq> [a, b]" if "b \<in> {CHR ''x'', CHR ''X'', CHR ''o'', CHR ''O'', CHR ''b'', CHR ''B''}" for a b
  proof
    assume "take 2 s = [a, b]"
    then have "1 < length s" "s ! 1 = b" by (cases s; cases "tl s"; auto)+
    then show False using second that by simp
  qed
  have w: "takeWhile is_digit s = s" "dropWhile is_digit s = []" using assms(2) by (auto simp: list_all_iff)
  have sg: "strip_sign s = (False, s)"
    using assms digit_chars [of "hd s"] by (cases s) (auto simp: strip_sign_def)
  have "decimal_literal s = Fin (of_nat (digits_val s))"
    using assms(1) by (simp add: decimal_literal_def sg w fraction_part_def parse_exp_def scale10_def)
  then show ?thesis using assms(1) by (simp add: js_Number_def Let_def t p)
qed

end
