(* ===== verification/Upgrade.thy ===== *)
theory Upgrade
  imports Js_Number
begin

text \<open>
  The self-upgrade of the plugin, \<^verbatim>\<open>src/dsh/packages/dsh/src/api/upgrade.ts\<close>: the strict version
  grammar, version precedence, the search for the running version and for the profile directory, the
  registry query, and the installer run as a state machine over the module's one flag. A directory is
  the list of its path segments; the file system, the registry and the installer's process are
  parameters and events.
  Lemmas: the matcher accepts exactly the language of the regular expression; precedence is a total
  preorder on versions; whatever is requested, the installer is only ever started for this package, at
  a strict version, from an allowed registry; without a timeout one run is in flight at a time and is
  answered. Two lemmas record what goes wrong otherwise.
\<close>

section \<open>Versions\<close>

definition UPGRADE_PACKAGE :: string where "UPGRADE_PACKAGE = ''soulnet-dsh''"

definition UPGRADE_REGISTRIES :: "string list" where
  "UPGRADE_REGISTRIES = [''https://registry.npmjs.org'', ''https://registry.npmmirror.com'']"

definition OUTPUT_TAIL_LIMIT :: nat where "OUTPUT_TAIL_LIMIT = 8000"

definition ident_char :: "char \<Rightarrow> bool" where
  "ident_char c = (let n = (of_char c :: nat) in 48 \<le> n \<and> n \<le> 57 \<or> 65 \<le> n \<and> n \<le> 90 \<or> 97 \<le> n \<and> n \<le> 122 \<or> n = 45)"

definition semver_num :: "string \<Rightarrow> bool" where
  "semver_num s \<longleftrightarrow> s = ''0'' \<or> s \<noteq> [] \<and> hd s \<noteq> CHR ''0'' \<and> list_all is_digit s"

definition semver_ident :: "string \<Rightarrow> bool" where
  "semver_ident w \<longleftrightarrow> w \<noteq> [] \<and> list_all ident_char w"

definition core_ok :: "string list \<Rightarrow> bool" where
  "core_ok ps = (length ps = 3 \<and> list_all semver_num ps)"

definition isValidVersion :: "string \<Rightarrow> bool" where
  "isValidVersion v =
     (core_ok (split_on (CHR ''.'') (takeWhile (\<lambda>c. c \<noteq> CHR ''-'') v)) \<and>
      (case dropWhile (\<lambda>c. c \<noteq> CHR ''-'') v of
         [] \<Rightarrow> True
       | _ # pre \<Rightarrow> list_all semver_ident (split_on (CHR ''.'') pre)))"

text \<open>The language the regular expression \<open>SEMVER_RE\<close> denotes.\<close>

definition SEMVER_RE :: "string set" where
  "SEMVER_RE = {a @ ''.'' @ b @ ''.'' @ c @ p | a b c p.
     semver_num a \<and> semver_num b \<and> semver_num c \<and>
     (p = [] \<or> (\<exists>ids. ids \<noteq> [] \<and> list_all semver_ident ids \<and> p = ''-'' @ join_with ''.'' ids))}"

definition all_digits :: "string \<Rightarrow> bool" where
  "all_digits s \<longleftrightarrow> s \<noteq> [] \<and> list_all is_digit s"

fun num_sign :: "jsnum \<Rightarrow> jsnum \<Rightarrow> int" where
  "num_sign (Fin a) (Fin b) = (if a < b then - 1 else if a > b then 1 else 0)"
| "num_sign _ _ = 0"

definition compareIdentifier :: "string \<Rightarrow> string \<Rightarrow> int" where
  "compareIdentifier a b =
     (if all_digits a \<and> all_digits b then num_sign (js_Number a) (js_Number b)
      else if all_digits a then - 1
      else if all_digits b then 1
      else code_unit_compare a b)"

fun compare_ids :: "string list \<Rightarrow> string list \<Rightarrow> int" where
  "compare_ids [] [] = 0"
| "compare_ids [] (b # bs) = - 1"
| "compare_ids (a # as) [] = 1"
| "compare_ids (a # as) (b # bs) = (let d = compareIdentifier a b in if d \<noteq> 0 then d else compare_ids as bs)"

text \<open>\<open>(numsA[i] ?? 0) - (numsB[i] ?? 0)\<close>; \<open>None\<close> is a result that is not a finite number.\<close>

definition core_diff :: "jsnum list \<Rightarrow> jsnum list \<Rightarrow> nat \<Rightarrow> rat option" where
  "core_diff xs ys i =
     (case (if i < length xs then xs ! i else Fin 0, if i < length ys then ys ! i else Fin 0) of
        (Fin x, Fin y) \<Rightarrow> Some (x - y)
      | _ \<Rightarrow> None)"

fun first_diff :: "rat option list \<Rightarrow> rat option option" where
  "first_diff [] = None"
| "first_diff (d # ds) = (if d = Some 0 then first_diff ds else Some d)"

definition version_parts :: "string \<Rightarrow> string \<times> string option" where
  "version_parts v = (case take 2 (split_on (CHR ''-'') v) of
     c # p # _ \<Rightarrow> (c, Some p) | [c] \<Rightarrow> (c, None) | [] \<Rightarrow> ([], None))"

definition core_numbers :: "string \<Rightarrow> jsnum list" where
  "core_numbers c = map js_Number (split_on (CHR ''.'') c)"

fun compare_pre :: "string option \<Rightarrow> string option \<Rightarrow> int" where
  "compare_pre None None = 0"
| "compare_pre None (Some q) = 1"
| "compare_pre (Some p) None = - 1"
| "compare_pre (Some p) (Some q) = compare_ids (split_on (CHR ''.'') p) (split_on (CHR ''.'') q)"

definition compareVersions :: "string \<Rightarrow> string \<Rightarrow> rat option" where
  "compareVersions a b =
     (let (coreA, preA) = version_parts a; (coreB, preB) = version_parts b
      in case first_diff (map (core_diff (core_numbers coreA) (core_numbers coreB)) [0, 1, 2]) of
           Some d \<Rightarrow> d
         | None \<Rightarrow> Some (of_int (compare_pre preA preB)))"

section \<open>The installed package\<close>

type_synonym path = "string list"
type_synonym files = "path \<Rightarrow> string option"

record Manifest =
  mf_name :: "string option"
  mf_version :: "string option"
  mf_deps :: "string list"

definition object_keys :: "unknown \<Rightarrow> string list" where
  "object_keys v = map fst (obj_entries (Some (nullish_or v (JObj []))))"

definition readManifest :: "files \<Rightarrow> path \<Rightarrow> Manifest option" where
  "readManifest fs dir =
     (case fs (dir @ [''package.json'']) of
        None \<Rightarrow> None
      | Some t \<Rightarrow>
          (case JSON_parse t of
             None \<Rightarrow> None
           | Some JNull \<Rightarrow> None
           | Some j \<Rightarrow> Some \<lparr>mf_name = str_opt (jprop (Some j) ''name''), mf_version = str_opt (jprop (Some j) ''version''),
               mf_deps = object_keys (jprop (Some j) ''dependencies'') @ object_keys (jprop (Some j) ''devDependencies'')\<rparr>))"

fun own_version_loop :: "nat \<Rightarrow> files \<Rightarrow> path \<Rightarrow> string option" where
  "own_version_loop 0 fs dir = None"
| "own_version_loop (Suc k) fs dir =
     (case readManifest fs dir of
        Some m \<Rightarrow> (if mf_name m = Some UPGRADE_PACKAGE \<and> mf_version m \<noteq> None then mf_version m
                   else if dir = [] then None else own_version_loop k fs (butlast dir))
      | None \<Rightarrow> (if dir = [] then None else own_version_loop k fs (butlast dir)))"

definition ownVersion :: "files \<Rightarrow> path \<Rightarrow> string option" where
  "ownVersion fs startDir = own_version_loop 12 fs startDir"

definition isProfile :: "files \<Rightarrow> path \<Rightarrow> bool" where
  "isProfile fs dir = (case readManifest fs dir of None \<Rightarrow> False | Some m \<Rightarrow> UPGRADE_PACKAGE \<in> set (mf_deps m))"

text \<open>The loop keeps the last match on the way up, the outermost one.\<close>

fun profile_loop :: "nat \<Rightarrow> files \<Rightarrow> path \<Rightarrow> path option \<Rightarrow> path option" where
  "profile_loop 0 fs dir found = found"
| "profile_loop (Suc k) fs dir found =
     (let found' = (if dir \<noteq> [] \<and> last dir = ''node_modules'' \<and> isProfile fs (butlast dir) then Some (butlast dir) else found)
      in if dir = [] then found' else profile_loop k fs (butlast dir) found')"

definition resolveWebProfileDir :: "files \<Rightarrow> (string \<Rightarrow> path) \<Rightarrow> path \<Rightarrow> string option \<Rightarrow> path \<Rightarrow> path option" where
  "resolveWebProfileDir fs resolve startDir dshHome home =
     (case profile_loop 24 fs startDir None of
        Some d \<Rightarrow> Some d
      | None \<Rightarrow>
          (let base = (case dshHome of
                 Some h \<Rightarrow> (if trim h \<noteq> [] then resolve h else home @ [''.dsh''])
               | None \<Rightarrow> home @ [''.dsh'']);
               fallback = base @ [''profiles'', ''web'']
           in if isProfile fs fallback then Some fallback else None))"

section \<open>The registry query\<close>

text \<open>What one metadata request gives: a thrown error, or a status with the parsed document.\<close>

datatype fetched = FetchFailed string | FetchAnswer bool nat unknown

definition dist_latest :: "unknown \<Rightarrow> string option" where
  "dist_latest d = str_opt (jprop (jprop d ''dist-tags'') ''latest'')"

fun fetch_loop :: "(string \<Rightarrow> fetched) \<Rightarrow> string list \<Rightarrow> string list \<Rightarrow> string list + (string \<times> string)" where
  "fetch_loop fetch [] failures = Inl failures"
| "fetch_loop fetch (r # rs) failures =
     (case fetch (r @ ''/'' @ UPGRADE_PACKAGE) of
        FetchFailed e \<Rightarrow> fetch_loop fetch rs (failures @ [r @ '': '' @ e])
      | FetchAnswer ok status d \<Rightarrow>
          (if \<not> ok then fetch_loop fetch rs (failures @ [r @ '': HTTP '' @ show_nat status])
           else (case dist_latest d of
                   Some v \<Rightarrow> (if isValidVersion v then Inr (v, r)
                              else fetch_loop fetch rs (failures @ [r @ '': no valid dist-tags.latest'']))
                 | None \<Rightarrow> fetch_loop fetch rs (failures @ [r @ '': no valid dist-tags.latest'']))))"

definition fetchLatest :: "(string \<Rightarrow> fetched) \<Rightarrow> string list \<Rightarrow> string + (string \<times> string)" where
  "fetchLatest fetch registries =
     (case fetch_loop fetch registries [] of
        Inl fs \<Rightarrow> Inl (''could not reach any npm registry ('' @ join_with ''; '' fs @ '')'')
      | Inr r \<Rightarrow> Inr r)"

record UpgradeCheck =
  uc_current :: string
  uc_latest :: string
  uc_hasUpdate :: bool
  uc_registry :: string

definition checkUpgrade :: "files \<Rightarrow> path \<Rightarrow> (string \<Rightarrow> fetched) \<Rightarrow> string + UpgradeCheck" where
  "checkUpgrade fs startDir fetch =
     (case ownVersion fs startDir of
        None \<Rightarrow> Inl (''cannot determine the running '' @ UPGRADE_PACKAGE @ '' version'')
      | Some current \<Rightarrow>
          (case fetchLatest fetch UPGRADE_REGISTRIES of
             Inl e \<Rightarrow> Inl e
           | Inr (latest, registry) \<Rightarrow>
               Inr \<lparr>uc_current = current, uc_latest = latest,
                 uc_hasUpdate = (case compareVersions latest current of Some d \<Rightarrow> d > 0 | None \<Rightarrow> False), uc_registry = registry\<rparr>))"

section \<open>The installer run\<close>

record UpgradeRunResult =
  rr_ok :: bool
  rr_exitCode :: int
  rr_output :: string
  rr_version :: string
  rr_profileDir :: path

record upgrade_run =
  ur_version :: string
  ur_profileDir :: path
  ur_output :: string
  ur_child :: bool
  ur_timer :: bool
  ur_result :: "UpgradeRunResult option"

record pnpm_command =
  pc_program :: string
  pc_args :: "string list"
  pc_cwd :: path
  pc_registry :: "string option"

record upgrade_state =
  us_inflight :: bool
  us_runs :: "upgrade_run list"
  us_commands :: "pnpm_command list"

definition upgrade_idle :: upgrade_state where
  "upgrade_idle = \<lparr>us_inflight = False, us_runs = [], us_commands = []\<rparr>"

definition with_run :: "nat \<Rightarrow> (upgrade_run \<Rightarrow> upgrade_run) \<Rightarrow> upgrade_state \<Rightarrow> upgrade_state" where
  "with_run i f s = (if i < length (us_runs s) then s\<lparr>us_runs := (us_runs s)[i := f (us_runs s ! i)]\<rparr> else s)"

definition output_append :: "string \<Rightarrow> upgrade_run \<Rightarrow> upgrade_run" where
  "output_append chunk r = r\<lparr>ur_output := (let t = ur_output r @ chunk in drop (length t - OUTPUT_TAIL_LIMIT) t)\<rparr>"

text \<open>Resolving a promise a second time has no effect.\<close>

definition resolve_run :: "int \<Rightarrow> upgrade_run \<Rightarrow> upgrade_run" where
  "resolve_run code r =
     (if ur_result r \<noteq> None then r
      else r\<lparr>ur_result := Some \<lparr>rr_ok = (code = 0), rr_exitCode = code, rr_output = trim (ur_output r), rr_version = ur_version r,
        rr_profileDir = ur_profileDir r\<rparr>\<rparr>)"

definition upgrade_finish :: "nat \<Rightarrow> int \<Rightarrow> upgrade_state \<Rightarrow> upgrade_state" where
  "upgrade_finish i code s = (if \<not> us_inflight s then s else with_run i (resolve_run code) (s\<lparr>us_inflight := False\<rparr>))"

text \<open>The flag is set, the process started; the promise of the run is still open.\<close>

definition start_run :: "string \<Rightarrow> string option \<Rightarrow> path \<Rightarrow> bool \<Rightarrow> upgrade_state \<Rightarrow> upgrade_state" where
  "start_run version registry dir spawned s =
     s\<lparr>us_inflight := True,
       us_runs := us_runs s @ [\<lparr>ur_version = version, ur_profileDir = dir, ur_output = [], ur_child = spawned, ur_timer = spawned, ur_result = None\<rparr>],
       us_commands := us_commands s @
         [\<lparr>pc_program = ''pnpm'', pc_args = [''add'', UPGRADE_PACKAGE @ ''@'' @ version], pc_cwd = dir, pc_registry = registry\<rparr>]\<rparr>"

text \<open>
  \<open>profile\<close>: the directory given or found, if any; \<open>spawn_fault\<close>: the message of the error \<open>spawn\<close>
  threw, if it did. The messages of the rejections are shortened.
\<close>

definition runUpgrade :: "string \<Rightarrow> string option \<Rightarrow> path option \<Rightarrow> string option \<Rightarrow> upgrade_state \<Rightarrow> (string + nat) \<times> upgrade_state" where
  "runUpgrade version registry profile spawn_fault s =
     (if \<not> isValidVersion version then (Inl ''invalid version'', s)
      else if (case registry of None \<Rightarrow> False | Some r \<Rightarrow> r \<notin> set UPGRADE_REGISTRIES) then (Inl ''registry not in the allowed list'', s)
      else (case profile of
              None \<Rightarrow> (Inl ''cannot locate the dsh profile directory'', s)
            | Some dir \<Rightarrow>
                (if us_inflight s then (Inl ''an upgrade is already running'', s)
                 else (Inr (length (us_runs s)),
                       case spawn_fault of
                         None \<Rightarrow> start_run version registry dir True s
                       | Some m \<Rightarrow> (let i = length (us_runs s) in
                           upgrade_finish i 1 (with_run i (output_append m) (start_run version registry dir False s)))))))"

definition upgrade_data :: "nat \<Rightarrow> string \<Rightarrow> upgrade_state \<Rightarrow> upgrade_state" where
  "upgrade_data i chunk s = with_run i (output_append chunk) s"

definition upgrade_timeout :: "nat \<Rightarrow> string \<Rightarrow> upgrade_state \<Rightarrow> upgrade_state" where
  "upgrade_timeout i note s = upgrade_finish i 124 (with_run i (\<lambda>r. (output_append note r)\<lparr>ur_timer := False\<rparr>) s)"

definition upgrade_error :: "nat \<Rightarrow> bool \<Rightarrow> string \<Rightarrow> upgrade_state \<Rightarrow> upgrade_state" where
  "upgrade_error i enoent message s =
     upgrade_finish i (if enoent then 127 else 1)
       (with_run i (\<lambda>r. output_append (if enoent then ''pnpm not found on PATH'' else message) (r\<lparr>ur_timer := False, ur_child := False\<rparr>)) s)"

definition upgrade_close :: "nat \<Rightarrow> int option \<Rightarrow> upgrade_state \<Rightarrow> upgrade_state" where
  "upgrade_close i code s =
     upgrade_finish i (case code of None \<Rightarrow> 1 | Some c \<Rightarrow> c) (with_run i (\<lambda>r. r\<lparr>ur_timer := False, ur_child := False\<rparr>) s)"

section \<open>The version grammar\<close>

lemma semver_num_chars: "semver_num a \<Longrightarrow> list_all is_digit a"
  by (auto simp: semver_num_def is_digit_def Let_def)

lemma semver_num_clean: "semver_num a \<Longrightarrow> CHR ''.'' \<notin> set a \<and> CHR ''-'' \<notin> set a \<and> a \<noteq> []"
proof -
  assume a: "semver_num a"
  then have "c \<in> set a \<Longrightarrow> c \<noteq> CHR ''.'' \<and> c \<noteq> CHR ''-''" for c
    using semver_num_chars [OF a] digit_chars [of c] by (auto simp: list_all_iff)
  then show ?thesis using a by (auto simp: semver_num_def)
qed

lemma semver_ident_clean: "semver_ident w \<Longrightarrow> CHR ''.'' \<notin> set w"
  by (auto simp: semver_ident_def ident_char_def list_all_iff Let_def)

lemma takeWhile_core: "CHR ''-'' \<notin> set c \<Longrightarrow> takeWhile (\<lambda>x. x \<noteq> CHR ''-'') (c @ CHR ''-'' # p) = c"
  "CHR ''-'' \<notin> set c \<Longrightarrow> dropWhile (\<lambda>x. x \<noteq> CHR ''-'') (c @ CHR ''-'' # p) = CHR ''-'' # p"
  by (induction c) auto

lemma no_hyphen_core: "CHR ''-'' \<notin> set c \<Longrightarrow> takeWhile (\<lambda>x. x \<noteq> CHR ''-'') c = c"
  "CHR ''-'' \<notin> set c \<Longrightarrow> dropWhile (\<lambda>x. x \<noteq> CHR ''-'') c = []"
  by (induction c) auto

lemma core_ok_iff: "core_ok ps \<longleftrightarrow> (\<exists>a b c. ps = [a, b, c] \<and> semver_num a \<and> semver_num b \<and> semver_num c)"
  by (auto simp: core_ok_def length_Suc_conv numeral_3_eq_3)

lemma core_split:
  assumes "semver_num a" "semver_num b" "semver_num c"
  shows "split_on (CHR ''.'') (a @ ''.'' @ b @ ''.'' @ c) = [a, b, c]" "CHR ''-'' \<notin> set (a @ ''.'' @ b @ ''.'' @ c)"
  using assms by (simp_all add: split_on_append_sep split_on_single semver_num_clean)

lemma SEMVER_E:
  assumes "v \<in> SEMVER_RE"
  obtains a b c p where "v = (a @ ''.'' @ b @ ''.'' @ c) @ p" "semver_num a" "semver_num b" "semver_num c"
    "p = [] \<or> (\<exists>ids. ids \<noteq> [] \<and> list_all semver_ident ids \<and> p = ''-'' @ join_with ''.'' ids)"
  using assms unfolding SEMVER_RE_def append_assoc by blast

lemma version_language: "isValidVersion v \<longleftrightarrow> v \<in> SEMVER_RE"
proof
  let ?core = "takeWhile (\<lambda>c. c \<noteq> CHR ''-'') v" and ?rest = "dropWhile (\<lambda>c. c \<noteq> CHR ''-'') v"
  assume v: "isValidVersion v"
  then obtain a b c where n: "split_on (CHR ''.'') ?core = [a, b, c]" "semver_num a" "semver_num b" "semver_num c"
    by (auto simp: isValidVersion_def core_ok_iff)
  have core: "?core = a @ ''.'' @ b @ ''.'' @ c" using join_split_on [of "CHR ''.''" ?core] n(1) by simp
  have "?rest = [] \<or> (\<exists>ids. ids \<noteq> [] \<and> list_all semver_ident ids \<and> ?rest = ''-'' @ join_with ''.'' ids)"
  proof (cases ?rest)
    case (Cons h pre)
    have "h = CHR ''-''" using Cons by (metis (mono_tags, lifting) hd_dropWhile list.distinct(1) list.sel(1))
    moreover have "list_all semver_ident (split_on (CHR ''.'') pre)" using v Cons by (simp add: isValidVersion_def)
    ultimately show ?thesis using Cons join_split_on [of "CHR ''.''" pre] by (intro disjI2 exI [of _ "split_on (CHR ''.'') pre"]) simp
  qed simp
  moreover have "v = (a @ ''.'' @ b @ ''.'' @ c) @ ?rest" using core by (metis takeWhile_dropWhile_id)
  then have "v = a @ ''.'' @ b @ ''.'' @ c @ ?rest" by simp
  ultimately show "v \<in> SEMVER_RE" using n(2-4) unfolding SEMVER_RE_def by blast
next
  assume "v \<in> SEMVER_RE"
  then obtain a b c p where v: "v = (a @ ''.'' @ b @ ''.'' @ c) @ p" and n: "semver_num a" "semver_num b" "semver_num c"
    and p: "p = [] \<or> (\<exists>ids. ids \<noteq> [] \<and> list_all semver_ident ids \<and> p = ''-'' @ join_with ''.'' ids)"
    by (rule SEMVER_E)
  define k where "k = a @ ''.'' @ b @ ''.'' @ c"
  have k: "split_on (CHR ''.'') k = [a, b, c]" "CHR ''-'' \<notin> set k" using core_split [OF n] by (simp_all add: k_def)
  have ok: "core_ok [a, b, c]" using n by (simp add: core_ok_def)
  from p show "isValidVersion v"
  proof
    assume "p = []"
    then have "v = k" using v by (simp add: k_def)
    then show ?thesis by (simp only: isValidVersion_def no_hyphen_core [OF k(2)] k(1) ok list.case simp_thms)
  next
    assume "\<exists>ids. ids \<noteq> [] \<and> list_all semver_ident ids \<and> p = ''-'' @ join_with ''.'' ids"
    then obtain ids where i: "ids \<noteq> []" "list_all semver_ident ids" "p = CHR ''-'' # join_with ''.'' ids" by auto
    have "split_on (CHR ''.'') (join_with ''.'' ids) = ids"
      using i(1,2) semver_ident_clean by (intro split_on_join) (auto simp: list_all_iff)
    moreover have "v = k @ CHR ''-'' # join_with ''.'' ids" using v i(3) by (simp add: k_def)
    ultimately show ?thesis using i(2) takeWhile_core [OF k(2)] k(1) ok by (simp add: isValidVersion_def)
  qed
qed

definition version_char :: "char \<Rightarrow> bool" where
  "version_char c \<longleftrightarrow> ident_char c \<or> c = CHR ''.''"

lemma digit_ident: "is_digit c \<Longrightarrow> ident_char c"
  by (simp add: is_digit_def ident_char_def Let_def)

lemma join_chars: "list_all P sep \<Longrightarrow> list_all (list_all P) ws \<Longrightarrow> list_all P (join_with sep ws)"
  by (induction sep ws rule: join_with.induct) auto

text \<open>No accepted version has a blank, a quote or another character a shell would interpret.\<close>

lemma valid_version_chars: "isValidVersion v \<Longrightarrow> list_all version_char v"
proof -
  have num: "list_all version_char a" if "semver_num a" for a
    using semver_num_chars [OF that] by (auto simp: list_all_iff version_char_def digit_ident)
  have idn: "list_all version_char (join_with ''.'' ids)" if "list_all semver_ident ids" for ids
    using that by (intro join_chars) (auto simp: list_all_iff version_char_def semver_ident_def)
  assume "isValidVersion v"
  then show ?thesis using num idn unfolding version_language SEMVER_RE_def by (auto simp: version_char_def ident_char_def)
qed

section \<open>Version precedence\<close>

lemma code_unit_antisym: "code_unit_compare a b = - code_unit_compare b a"
  by (induction a b rule: code_unit_compare.induct) auto

lemma compareIdentifier_digits:
  "all_digits a \<Longrightarrow> all_digits b \<Longrightarrow>
     compareIdentifier a b = (if digits_val a < digits_val b then - 1 else if digits_val a > digits_val b then 1 else 0)"
  by (simp add: compareIdentifier_def all_digits_def Number_digits)

lemma compareIdentifier_other:
  "\<not> (all_digits a \<and> all_digits b) \<Longrightarrow>
     compareIdentifier a b = (if all_digits a then - 1 else if all_digits b then 1 else code_unit_compare a b)"
  by (auto simp: compareIdentifier_def)

lemma compareIdentifier_antisym: "compareIdentifier a b = - compareIdentifier b a"
proof (cases "all_digits a \<and> all_digits b")
  case True
  then show ?thesis by (simp add: compareIdentifier_digits)
next
  case False
  then show ?thesis using code_unit_antisym [of a b] by (auto simp: compareIdentifier_other)
qed

lemma compareIdentifier_trans:
  assumes "compareIdentifier a b \<le> 0" "compareIdentifier b c \<le> 0"
  shows "compareIdentifier a c \<le> 0"
proof (cases "all_digits a \<and> all_digits b \<and> all_digits c")
  case True
  then show ?thesis using assms by (simp add: compareIdentifier_digits split: if_splits)
next
  case False
  then show ?thesis using assms code_unit.cmp_le_trans [of a b c]
    by (cases "all_digits a"; cases "all_digits b"; cases "all_digits c") (auto simp: compareIdentifier_other)
qed

lemma compare_ids_antisym: "compare_ids as bs = - compare_ids bs as"
proof (induction as bs rule: compare_ids.induct)
  case (4 a as b bs)
  then show ?case using compareIdentifier_antisym [of a b] by (auto simp: Let_def)
qed auto

lemma compare_ids_Cons_le:
  "compare_ids (a # as) (b # bs) \<le> 0 \<longleftrightarrow> compareIdentifier a b < 0 \<or> compareIdentifier a b = 0 \<and> compare_ids as bs \<le> 0"
  by (auto simp: Let_def)

lemma compare_ids_trans: "compare_ids as bs \<le> 0 \<Longrightarrow> compare_ids bs cs \<le> 0 \<Longrightarrow> compare_ids as cs \<le> 0"
proof (induction as bs arbitrary: cs rule: compare_ids.induct)
  case (4 a as b bs cs)
  show ?case
  proof (cases cs)
    case (Cons c cs')
    have ab: "compareIdentifier a b \<le> 0" and bc: "compareIdentifier b c \<le> 0"
      using 4(2,3) Cons by (auto simp only: compare_ids_Cons_le)
    have ac: "compareIdentifier a c \<le> 0" by (rule compareIdentifier_trans [OF ab bc])
    show ?thesis
    proof (cases "compareIdentifier a c = 0")
      case True
      then have ca: "compareIdentifier c a \<le> 0" using compareIdentifier_antisym [of c a] by simp
      have "compareIdentifier b a \<le> 0" "compareIdentifier c b \<le> 0"
        using compareIdentifier_trans [OF bc ca] compareIdentifier_trans [OF ca ab] .
      then have z: "compareIdentifier a b = 0" "compareIdentifier b c = 0"
        using ab bc compareIdentifier_antisym [of a b] compareIdentifier_antisym [of b c] by simp_all
      then have "compare_ids as bs \<le> 0" "compare_ids bs cs' \<le> 0" using 4(2,3) Cons by (simp_all add: Let_def)
      then have "compare_ids as cs' \<le> 0" using "4.IH" [of "compareIdentifier a b" cs'] z by simp
      then show ?thesis using Cons True by (simp add: Let_def)
    qed (use ac Cons in \<open>simp add: Let_def\<close>)
  qed (use 4 in simp)
next
  case (2 b bs cs)
  then show ?case by (cases cs) auto
next
  case (1 cs)
  then show ?case by simp
qed simp

interpretation pre: comparator compare_ids
proof
  show "compare_ids y x < 0" if "compare_ids x y > 0" for x y using that compare_ids_antisym [of x y] by simp
qed (rule compare_ids_trans)

lemma compare_pre_antisym: "compare_pre p q = - compare_pre q p"
  by (cases p; cases q) (simp_all, rule compare_ids_antisym)

lemma compare_pre_trans: "compare_pre p q \<le> 0 \<Longrightarrow> compare_pre q r \<le> 0 \<Longrightarrow> compare_pre p r \<le> 0"
  by (cases p; cases q; cases r) (auto intro: pre.cmp_le_trans)

lemma hyphen_split: "CHR ''-'' \<notin> set c \<Longrightarrow> version_parts c = (c, None)"
  "CHR ''-'' \<notin> set c \<Longrightarrow> version_parts (c @ CHR ''-'' # p) = (c, Some (hd (split_on (CHR ''-'') p)))"
  by (simp_all add: version_parts_def split_on_single split_on_append_sep)
    (cases "split_on (CHR ''-'') p", simp_all)

lemma valid_parts:
  assumes "isValidVersion v"
  obtains x y z :: nat and p where "core_numbers (fst (version_parts v)) = [Fin (of_nat x), Fin (of_nat y), Fin (of_nat z)]"
    "snd (version_parts v) = p"
proof -
  obtain a b c p where v: "v = (a @ ''.'' @ b @ ''.'' @ c) @ p" and n: "semver_num a" "semver_num b" "semver_num c"
    and p: "p = [] \<or> (\<exists>q. p = CHR ''-'' # q)"
    using assms unfolding version_language by (rule SEMVER_E) auto
  note cs = core_split [OF n]
  have "fst (version_parts v) = a @ ''.'' @ b @ ''.'' @ c"
    using p v hyphen_split [OF cs(2)] by (auto simp del: append_assoc)
  moreover have "js_Number w = Fin (of_nat (digits_val w))" if "semver_num w" for w
    using that semver_num_chars semver_num_clean by (intro Number_digits) auto
  ultimately have "core_numbers (fst (version_parts v)) = [Fin (of_nat (digits_val a)), Fin (of_nat (digits_val b)), Fin (of_nat (digits_val c))]"
    using cs(1) n by (simp add: core_numbers_def)
  then show thesis by (rule that) simp
qed

lemma compare_parts:
  assumes "core_numbers (fst (version_parts a)) = [Fin x1, Fin x2, Fin x3]"
    "core_numbers (fst (version_parts b)) = [Fin y1, Fin y2, Fin y3]"
  shows "compareVersions a b = Some (if x1 \<noteq> y1 then x1 - y1 else if x2 \<noteq> y2 then x2 - y2 else if x3 \<noteq> y3 then x3 - y3
     else of_int (compare_pre (snd (version_parts a)) (snd (version_parts b))))"
  using assms by (simp add: compareVersions_def split_def core_diff_def Let_def)

text \<open>Precedence of valid versions is a total preorder, in which a release is above its prereleases.\<close>

lemma version_precedence:
  assumes "isValidVersion a" "isValidVersion b" "isValidVersion c"
  shows "(\<exists>d. compareVersions a b = Some d \<and> compareVersions b a = Some (- d)) \<and>
    (\<forall>d e. compareVersions a b = Some d \<and> compareVersions b c = Some e \<and> d \<le> 0 \<and> e \<le> 0 \<longrightarrow>
        (\<exists>f \<le> 0. compareVersions a c = Some f))"
proof -
  obtain x1 x2 x3 p where a: "core_numbers (fst (version_parts a)) = [Fin (of_nat x1), Fin (of_nat x2), Fin (of_nat x3)]" "snd (version_parts a) = p"
    by (rule valid_parts [OF assms(1)])
  obtain y1 y2 y3 q where b: "core_numbers (fst (version_parts b)) = [Fin (of_nat y1), Fin (of_nat y2), Fin (of_nat y3)]" "snd (version_parts b) = q"
    by (rule valid_parts [OF assms(2)])
  obtain z1 z2 z3 r where c: "core_numbers (fst (version_parts c)) = [Fin (of_nat z1), Fin (of_nat z2), Fin (of_nat z3)]" "snd (version_parts c) = r"
    by (rule valid_parts [OF assms(3)])
  note e = compare_parts [OF a(1) b(1)] compare_parts [OF b(1) a(1)] compare_parts [OF b(1) c(1)] compare_parts [OF a(1) c(1)]
  show ?thesis unfolding e a(2) b(2) c(2)
    using compare_pre_antisym [of p q] compare_pre_trans [of p q r] by (auto split: if_splits)
qed

lemma hyphenated_prerelease_ignored:
  "isValidVersion ''1.0.0-rc-1'' \<and> isValidVersion ''1.0.0-rc-2'' \<and> compareVersions ''1.0.0-rc-2'' ''1.0.0-rc-1'' = Some 0"
  by code_simp

section \<open>What the installer is started with\<close>

text \<open>
  The histories of the module: calls of \<open>runUpgrade\<close> and the events of the processes it started. In an
  \<open>orderly\<close> history no run is timed out and each process reports its end once.
\<close>

inductive upgrade_reach :: "bool \<Rightarrow> upgrade_state \<Rightarrow> bool" for orderly :: bool where
  idle: "upgrade_reach orderly upgrade_idle"
| run: "upgrade_reach orderly s \<Longrightarrow> runUpgrade version registry profile fault s = (res, s') \<Longrightarrow> upgrade_reach orderly s'"
| data: "upgrade_reach orderly s \<Longrightarrow> upgrade_reach orderly (upgrade_data i chunk s)"
| timeout: "upgrade_reach orderly s \<Longrightarrow> \<not> orderly \<Longrightarrow> i < length (us_runs s) \<Longrightarrow> ur_timer (us_runs s ! i) \<Longrightarrow>
    upgrade_reach orderly (upgrade_timeout i note s)"
| error: "upgrade_reach orderly s \<Longrightarrow> i < length (us_runs s) \<Longrightarrow> (orderly \<longrightarrow> ur_child (us_runs s ! i)) \<Longrightarrow>
    upgrade_reach orderly (upgrade_error i enoent message s)"
| close: "upgrade_reach orderly s \<Longrightarrow> i < length (us_runs s) \<Longrightarrow> (orderly \<longrightarrow> ur_child (us_runs s ! i)) \<Longrightarrow>
    upgrade_reach orderly (upgrade_close i code s)"

definition command_ok :: "pnpm_command \<Rightarrow> bool" where
  "command_ok c \<longleftrightarrow> pc_program c = ''pnpm'' \<and>
     (\<exists>v. isValidVersion v \<and> pc_args c = [''add'', UPGRADE_PACKAGE @ ''@'' @ v]) \<and>
     (case pc_registry c of None \<Rightarrow> True | Some r \<Rightarrow> r \<in> set UPGRADE_REGISTRIES)"

definition output_ok :: "upgrade_run \<Rightarrow> bool" where
  "output_ok r \<longleftrightarrow> length (ur_output r) \<le> OUTPUT_TAIL_LIMIT \<and>
     (case ur_result r of None \<Rightarrow> True | Some x \<Rightarrow> length (rr_output x) \<le> OUTPUT_TAIL_LIMIT)"

definition upgrade_ok :: "upgrade_state \<Rightarrow> bool" where
  "upgrade_ok s \<longleftrightarrow> list_all command_ok (us_commands s) \<and> list_all output_ok (us_runs s)"

lemma with_run_ok: "upgrade_ok s \<Longrightarrow> (\<And>r. output_ok r \<Longrightarrow> output_ok (f r)) \<Longrightarrow> upgrade_ok (with_run i f s)"
  by (auto simp: upgrade_ok_def with_run_def list_all_length nth_list_update)

lemma length_trim: "length (trim s) \<le> length s"
  using prefix_length_le [OF trimEnd_prefix [of "trimStart s"]] suffix_length_le [OF trimStart_suffix [of s]] by (simp add: trim_def)

lemma resolve_run_ok: "output_ok r \<Longrightarrow> output_ok (resolve_run code r)"
  using length_trim [of "ur_output r"] by (auto simp: output_ok_def resolve_run_def split: option.splits)

lemma output_append_ok: "output_ok r \<Longrightarrow> output_ok (output_append chunk r)"
  by (auto simp: output_ok_def output_append_def Let_def)

lemma flags_ok: "output_ok (r\<lparr>ur_timer := t\<rparr>) = output_ok r" "output_ok (r\<lparr>ur_timer := t, ur_child := c\<rparr>) = output_ok r"
  by (simp_all add: output_ok_def)

lemma upgrade_finish_ok: "upgrade_ok s \<Longrightarrow> upgrade_ok (upgrade_finish i code s)"
  unfolding upgrade_finish_def by (auto intro!: with_run_ok resolve_run_ok) (simp add: upgrade_ok_def)

lemma start_run_ok:
  assumes "upgrade_ok s" "isValidVersion version" "case registry of None \<Rightarrow> True | Some r \<Rightarrow> r \<in> set UPGRADE_REGISTRIES"
  shows "upgrade_ok (start_run version registry dir spawned s)"
  using assms by (simp add: upgrade_ok_def start_run_def command_ok_def output_ok_def)

lemma runUpgrade_cases:
  assumes "runUpgrade version registry profile fault s = (res, s')"
  obtains (refused) e where "res = Inl e" "s' = s"
  | (started) dir where "isValidVersion version" "case registry of None \<Rightarrow> True | Some r \<Rightarrow> r \<in> set UPGRADE_REGISTRIES"
      "\<not> us_inflight s" "fault = None" "res = Inr (length (us_runs s))" "s' = start_run version registry dir True s"
  | (failed) dir m where "isValidVersion version" "case registry of None \<Rightarrow> True | Some r \<Rightarrow> r \<in> set UPGRADE_REGISTRIES"
      "\<not> us_inflight s" "res = Inr (length (us_runs s))"
      "s' = upgrade_finish (length (us_runs s)) 1 (with_run (length (us_runs s)) (output_append m) (start_run version registry dir False s))"
proof (cases "\<not> isValidVersion version \<or> (case registry of None \<Rightarrow> False | Some r \<Rightarrow> r \<notin> set UPGRADE_REGISTRIES) \<or> profile = None \<or> us_inflight s")
  case True
  then have "\<exists>e. runUpgrade version registry profile fault s = (Inl e, s)" by (cases profile) (auto simp: runUpgrade_def)
  then show thesis using assms refused by auto
next
  case False
  then obtain dir where d: "profile = Some dir" by auto
  have r: "case registry of None \<Rightarrow> True | Some r \<Rightarrow> r \<in> set UPGRADE_REGISTRIES" using False by (auto split: option.splits)
  show thesis
  proof (cases fault)
    case None
    then show thesis using assms False d r by (intro started [where dir = dir]) (simp_all add: runUpgrade_def)
  next
    case (Some m)
    then show thesis using assms False d r by (intro failed [where dir = dir and m = m]) (simp_all add: runUpgrade_def Let_def)
  qed
qed

lemma runUpgrade_ok: "upgrade_ok s \<Longrightarrow> runUpgrade version registry profile fault s = (res, s') \<Longrightarrow> upgrade_ok s'"
  by (erule runUpgrade_cases) (auto intro!: upgrade_finish_ok with_run_ok output_append_ok start_run_ok)

lemma command_ok_args:
  "command_ok c \<Longrightarrow> \<exists>v. v \<in> SEMVER_RE \<and> list_all version_char v \<and> pc_args c = [''add'', ''soulnet-dsh@'' @ v]"
  using valid_version_chars by (auto simp: command_ok_def UPGRADE_PACKAGE_def version_language [symmetric])

lemma upgrade_reach_ok: "upgrade_reach orderly s \<Longrightarrow> upgrade_ok s"
proof (induction rule: upgrade_reach.induct)
  case idle
  show ?case by (simp add: upgrade_ok_def upgrade_idle_def)
next
  case (run s version registry profile fault res s')
  then show ?case using runUpgrade_ok by blast
qed (auto simp: upgrade_data_def upgrade_timeout_def upgrade_error_def upgrade_close_def flags_ok
    intro!: upgrade_finish_ok with_run_ok output_append_ok)

text \<open>
  Only this package, only at a strict version, from an allowed registry. Whatever is requested, in
  whatever order the processes report, every command the upgrade module ever started is
  \<open>pnpm add soulnet-dsh@v\<close> for a version \<open>v\<close> of the language of its regular expression, all of whose
  characters are letters, digits, dots and hyphens, with no registry or one of the two allowed ones; and
  the output kept of a run, and reported, never exceeds its limit.
\<close>

theorem upgrade_confined:
  assumes "upgrade_reach orderly s"
  shows "list_all (\<lambda>c. pc_program c = ''pnpm'' \<and>
      (\<exists>v. v \<in> SEMVER_RE \<and> list_all version_char v \<and> pc_args c = [''add'', ''soulnet-dsh@'' @ v]) \<and>
      (case pc_registry c of None \<Rightarrow> True | Some r \<Rightarrow> r \<in> set UPGRADE_REGISTRIES)) (us_commands s) \<and>
    list_all (\<lambda>r. length (ur_output r) \<le> 8000 \<and>
      (case ur_result r of None \<Rightarrow> True | Some x \<Rightarrow> length (rr_output x) \<le> 8000)) (us_runs s)"
proof -
  from upgrade_reach_ok [OF assms] have "list_all command_ok (us_commands s)" "list_all output_ok (us_runs s)" by (simp_all add: upgrade_ok_def)
  moreover have "command_ok c \<Longrightarrow> pc_program c = ''pnpm'' \<and> (case pc_registry c of None \<Rightarrow> True | Some r \<Rightarrow> r \<in> set UPGRADE_REGISTRIES)" for c
    by (simp add: command_ok_def)
  ultimately show ?thesis using command_ok_args
    by (intro conjI; elim list.pred_mono_strong) (blast, simp add: output_ok_def OUTPUT_TAIL_LIMIT_def split: option.splits)
qed

theorem upgrade_confined_witness:
  "us_commands (snd (runUpgrade ''1.2.3-rc.1'' None (Some [''p'']) None upgrade_idle)) \<noteq> [] \<and>
   list_all (\<lambda>r. length (ur_output r) \<le> 8000) (us_runs (snd (runUpgrade ''1.2.3-rc.1'' None (Some [''p'']) None upgrade_idle)))"
proof -
  let ?r = "runUpgrade ''1.2.3-rc.1'' None (Some [''p'']) None upgrade_idle"
  have "upgrade_reach True (snd ?r)" by (rule upgrade_reach.run [OF upgrade_reach.idle]) (simp add: prod_eq_iff)
  from upgrade_confined [OF this] have "list_all (\<lambda>r. length (ur_output r) \<le> 8000) (us_runs (snd ?r))"
    by (auto simp: list_all_iff)
  moreover have "us_commands (snd ?r) \<noteq> []" by code_simp
  ultimately show ?thesis by simp
qed

section \<open>One run at a time\<close>

definition flying :: "upgrade_state \<Rightarrow> nat option \<Rightarrow> bool" where
  "flying s k \<longleftrightarrow> (\<forall>j < length (us_runs s). ur_child (us_runs s ! j) = (k = Some j) \<and> (ur_result (us_runs s ! j) = None) = (k = Some j))"

text \<open>The flag says whether there is a run whose process lives and whose promise is open.\<close>

definition flight_ok :: "upgrade_state \<Rightarrow> bool" where
  "flight_ok s \<longleftrightarrow> (if us_inflight s then \<exists>i < length (us_runs s). flying s (Some i) else flying s None)"

lemma with_run_fields [simp]: "us_inflight (with_run i f s) = us_inflight s" "length (us_runs (with_run i f s)) = length (us_runs s)"
  by (simp_all add: with_run_def)

lemma with_run_nth: "j < length (us_runs s) \<Longrightarrow> us_runs (with_run i f s) ! j = (if i = j then f (us_runs s ! j) else us_runs s ! j)"
  by (simp add: with_run_def)

lemma append_fields [simp]: "ur_child (output_append c r) = ur_child r" "ur_result (output_append c r) = ur_result r"
  by (simp_all add: output_append_def)

lemma resolve_fields [simp]: "ur_child (resolve_run c r) = ur_child r" "ur_result (resolve_run c r) \<noteq> None"
    "\<exists>y. ur_result (resolve_run c r) = Some y"
  by (auto simp: resolve_run_def)

text \<open>The end of the process in flight answers its run and clears the flag.\<close>

lemma finish_flight:
  assumes "flight_ok s" "i < length (us_runs s)" "ur_child (us_runs s ! i)" "\<And>r. \<not> ur_child (f r)" "\<And>r. ur_result (f r) = ur_result r"
  shows "flight_ok (upgrade_finish i code (with_run i f s))"
proof -
  have fl: "us_inflight s" using assms(1-3) by (auto simp: flight_ok_def flying_def split: if_splits)
  then obtain k where k: "k < length (us_runs s)" "flying s (Some k)" using assms(1) by (auto simp: flight_ok_def)
  then have "k = i" using assms(2,3) by (auto simp: flying_def)
  then show ?thesis using k fl assms(4,5)
    by (auto simp: upgrade_finish_def flight_ok_def flying_def with_run_def nth_list_update)
qed

lemma append_flight: "flight_ok s \<Longrightarrow> flight_ok (with_run i (output_append c) s)"
  by (auto simp: flight_ok_def flying_def with_run_nth)

lemma start_flight: "flight_ok s \<Longrightarrow> \<not> us_inflight s \<Longrightarrow> flight_ok (start_run v r d True s)"
  by (auto simp: flight_ok_def flying_def start_run_def nth_append less_Suc_eq intro!: exI [of _ "length (us_runs s)"])

lemma failed_flight:
  "flight_ok s \<Longrightarrow> \<not> us_inflight s \<Longrightarrow>
     flight_ok (upgrade_finish (length (us_runs s)) c (with_run (length (us_runs s)) (output_append m) (start_run v r d False s)))"
  by (auto simp: flight_ok_def flying_def start_run_def nth_append less_Suc_eq upgrade_finish_def with_run_def nth_list_update)

lemma orderly_flight: "upgrade_reach True s \<Longrightarrow> flight_ok s"
proof (induction rule: upgrade_reach.induct)
  case (run s version registry profile fault res s')
  from run(2) show ?case by (rule runUpgrade_cases) (use run.IH in \<open>auto intro: start_flight failed_flight\<close>)
next
  case (error s i enoent message)
  then show ?case unfolding upgrade_error_def by (intro finish_flight) auto
next
  case (close s i code)
  then show ?case unfolding upgrade_close_def by (intro finish_flight) auto
next
  case (data s i chunk)
  then show ?case by (simp add: upgrade_data_def append_flight)
qed (simp_all add: flight_ok_def flying_def upgrade_idle_def)

text \<open>
  One upgrade at a time, and each is answered. As long as no run is timed out and each process reports its
  end once: at most one installer process is alive; it belongs to the only run that has no answer yet; a
  request is refused as already running exactly when there is one (given a valid version, an allowed registry
  and a profile); and the report of its end answers the run, with success exactly for exit code zero.
\<close>

theorem upgrade_single_flight:
  assumes "upgrade_reach True s" "i < length (us_runs s)" "j < length (us_runs s)" "isValidVersion version"
  shows "(ur_child (us_runs s ! i) \<and> ur_child (us_runs s ! j) \<longrightarrow> i = j) \<and>
    ur_child (us_runs s ! i) = (ur_result (us_runs s ! i) = None) \<and>
    (fst (runUpgrade version None (Some dir) fault s) = Inl ''an upgrade is already running'' \<longleftrightarrow>
       (\<exists>k < length (us_runs s). ur_child (us_runs s ! k))) \<and>
    (ur_child (us_runs s ! i) \<longrightarrow>
       (\<exists>r. ur_result (us_runs (upgrade_close i (Some code) s) ! i) = Some r \<and> rr_exitCode r = code \<and> rr_ok r = (code = 0)))"
proof -
  obtain k where k: "flying s k" "us_inflight s \<longleftrightarrow> k \<noteq> None" "\<And>m. k = Some m \<Longrightarrow> m < length (us_runs s)"
    using orderly_flight [OF assms(1)] by (cases "us_inflight s") (auto simp: flight_ok_def)
  then have "us_inflight s \<longleftrightarrow> (\<exists>m < length (us_runs s). ur_child (us_runs s ! m))" by (auto simp: flying_def)
  then have "fst (runUpgrade version None (Some dir) fault s) = Inl ''an upgrade is already running'' \<longleftrightarrow>
       (\<exists>k < length (us_runs s). ur_child (us_runs s ! k))" using assms(4) by (simp add: runUpgrade_def)
  moreover have "\<exists>r. ur_result (us_runs (upgrade_close i (Some code) s) ! i) = Some r \<and> rr_exitCode r = code \<and> rr_ok r = (code = 0)"
    if "ur_child (us_runs s ! i)"
    using that k assms(2) by (auto simp: flying_def upgrade_close_def upgrade_finish_def with_run_def resolve_run_def)
  moreover have "(ur_child (us_runs s ! i) \<and> ur_child (us_runs s ! j) \<longrightarrow> i = j) \<and> ur_child (us_runs s ! i) = (ur_result (us_runs s ! i) = None)"
    using k(1) assms(2,3) by (auto simp: flying_def)
  ultimately show ?thesis by blast
qed

theorem upgrade_single_flight_witness:
  "fst (runUpgrade ''2.0.0'' None (Some [''p'']) None (snd (runUpgrade ''1.2.3'' None (Some [''p'']) None upgrade_idle)))
     = Inl ''an upgrade is already running''"
proof -
  let ?s = "snd (runUpgrade ''1.2.3'' None (Some [''p'']) None upgrade_idle)"
  have r: "upgrade_reach True ?s" by (rule upgrade_reach.run [OF upgrade_reach.idle]) (simp add: prod_eq_iff)
  have l: "0 < length (us_runs ?s)" "ur_child (us_runs ?s ! 0)" "isValidVersion ''2.0.0''" by code_simp+
  show ?thesis using upgrade_single_flight [OF r l(1) l(1) l(3), of "[''p'']" None] l(1,2) by blast
qed

text \<open>
  After a timeout the flag is cleared while the old process is being killed. When it then reports its end
  during the next run, the flag is cleared again: a third run may start beside the second, and the end of
  the second finds the flag down and leaves its caller without an answer.
\<close>

definition overlapping_runs :: upgrade_state where
  "overlapping_runs =
     upgrade_close 0 None (snd (runUpgrade ''2.0.0'' None (Some [''p'']) None
       (upgrade_timeout 0 ''late'' (snd (runUpgrade ''1.0.0'' None (Some [''p'']) None upgrade_idle)))))"

lemma timed_out_run_breaks_next:
  "upgrade_reach False overlapping_runs \<and> ur_child (us_runs overlapping_runs ! 1) \<and>
   fst (runUpgrade ''3.0.0'' None (Some [''p'']) None overlapping_runs) = Inr 2 \<and>
   ur_result (us_runs (upgrade_close 1 (Some 0) overlapping_runs) ! 1) = None"
proof -
  let ?a = "snd (runUpgrade ''1.0.0'' None (Some [''p'']) None upgrade_idle)"
  let ?b = "upgrade_timeout 0 ''late'' ?a"
  let ?c = "snd (runUpgrade ''2.0.0'' None (Some [''p'']) None ?b)"
  have "upgrade_reach False ?a" by (rule upgrade_reach.run [OF upgrade_reach.idle]) (simp add: prod_eq_iff)
  moreover have "0 < length (us_runs ?a)" "ur_timer (us_runs ?a ! 0)" by code_simp+
  ultimately have "upgrade_reach False ?b" by (intro upgrade_reach.timeout) auto
  then have "upgrade_reach False ?c" by (rule upgrade_reach.run) (simp add: prod_eq_iff)
  moreover have "0 < length (us_runs ?c)" by code_simp
  ultimately have "upgrade_reach False overlapping_runs" unfolding overlapping_runs_def by (intro upgrade_reach.close) auto
  moreover have "ur_child (us_runs overlapping_runs ! 1)" by code_simp
  moreover have "fst (runUpgrade ''3.0.0'' None (Some [''p'']) None overlapping_runs) = Inr 2" by code_simp
  moreover have "ur_result (us_runs (upgrade_close 1 (Some 0) overlapping_runs) ! 1) = None" by code_simp
  ultimately show ?thesis by simp
qed

section \<open>What is found\<close>

lemma profile_loop_profile:
  "profile_loop k fs dir found = Some d \<Longrightarrow> found = Some d \<or> isProfile fs d"
  by (induction k fs dir found rule: profile_loop.induct) (auto simp: Let_def split: if_splits)

text \<open>The installer only ever runs in a directory whose manifest depends on this package.\<close>

lemma profile_dir_depends: "resolveWebProfileDir fs resolve startDir dshHome home = Some d \<Longrightarrow> isProfile fs d"
  by (auto simp: resolveWebProfileDir_def Let_def dest: profile_loop_profile split: option.splits if_splits)

lemma fetch_loop_valid: "fetch_loop fetch rs fs = Inr (v, r) \<Longrightarrow> isValidVersion v \<and> r \<in> set rs"
  by (induction fetch rs fs rule: fetch_loop.induct) (auto split: fetched.splits if_splits option.splits)

text \<open>An upgrade that is offered can be run: its version and its registry pass the checks of the run.\<close>

lemma offered_upgrade_runs:
  assumes "checkUpgrade fs start fetch = Inr c" "\<not> us_inflight s"
  shows "\<exists>i. fst (runUpgrade (uc_latest c) (Some (uc_registry c)) (Some dir) fault s) = Inr i"
  using assms fetch_loop_valid [of fetch UPGRADE_REGISTRIES "[]"]
  by (auto simp: checkUpgrade_def fetchLatest_def runUpgrade_def split: option.splits sum.splits)

section \<open>Results stay\<close>

text \<open>Whether some run ended well; once one did, no later step takes it back.\<close>

definition installed :: "upgrade_state \<Rightarrow> bool" where
  "installed s \<longleftrightarrow> (\<exists>r \<in> set (us_runs s). \<exists>y. ur_result r = Some y \<and> rr_ok y)"

lemma installed_nth: "i < length (us_runs s) \<Longrightarrow> ur_result (us_runs s ! i) = Some y \<Longrightarrow> rr_ok y \<Longrightarrow> installed s"
  unfolding installed_def using nth_mem by blast

lemma installed_with_run:
  assumes "installed s" "\<And>r y. ur_result r = Some y \<Longrightarrow> ur_result (f r) = Some y"
  shows "installed (with_run i f s)"
proof -
  obtain j y where j: "j < length (us_runs s)" "ur_result (us_runs s ! j) = Some y" "rr_ok y"
    using assms(1) by (auto simp: installed_def in_set_conv_nth)
  then show ?thesis using assms(2) by (intro installed_nth [of j _ y]) (auto simp: with_run_nth)
qed

lemma installed_finish: "installed s \<Longrightarrow> installed (upgrade_finish i c s)"
proof -
  assume a: "installed s"
  then have "installed (s\<lparr>us_inflight := False\<rparr>)" by (simp add: installed_def)
  then show ?thesis using a by (auto simp: upgrade_finish_def resolve_run_def intro!: installed_with_run)
qed

lemma installed_start: "installed s \<Longrightarrow> installed (start_run v r d b s)"
  by (auto simp: installed_def start_run_def)

lemma installed_run: "installed s \<Longrightarrow> runUpgrade v r p f s = (res, s') \<Longrightarrow> installed s'"
  by (erule runUpgrade_cases) (auto intro!: installed_finish installed_with_run installed_start)

lemma installed_events:
  "installed s \<Longrightarrow> installed (upgrade_data i chunk s)" "installed s \<Longrightarrow> installed (upgrade_timeout i note s)"
  "installed s \<Longrightarrow> installed (upgrade_error i enoent message s)" "installed s \<Longrightarrow> installed (upgrade_close i code s)"
  by (auto simp: upgrade_data_def upgrade_timeout_def upgrade_error_def upgrade_close_def intro!: installed_finish installed_with_run)

end
