(* ===== verification/Soulnet_Wire.thy ===== *)
theory Soulnet_Wire
  imports Network Jsonrpc Js_Date
begin

text \<open>
  The wire shapes of the peer process and their translation, \<^verbatim>\<open>src/dsh/packages/dsh/src/network/soulnet.ts\<close>:
  profiles in both directions, friends, requests, entries, groups, applications, the notifications of the
  peer, and the mapping of call errors. A wire value is a JSON value; a field the peer types as an object
  is an object or absent. Times are read by \<open>Date_parse\<close>; the ellipsis that marks a shortened
  fingerprint, which lies outside the characters of the model, is a parameter.
  Lemmas: a profile survives being written and read back, as an object and as text; every translated value
  is well formed whatever the peer wrote; and what the translation of applications drops.
\<close>

section \<open>Readers\<close>

record Wire =
  wx_now :: int
  wx_other :: "string \<Rightarrow> int option"
  wx_ellipsis :: string

definition toMs :: "Wire \<Rightarrow> unknown \<Rightarrow> int" where
  "toMs w v =
     (case v of
        Some (JNum (Fin r)) \<Rightarrow> \<lfloor>r\<rfloor>
      | Some (JStr s) \<Rightarrow> (case Date_parse (wx_other w) s of Some t \<Rightarrow> t | None \<Rightarrow> wx_now w)
      | _ \<Rightarrow> wx_now w)"

definition wstr :: "unknown \<Rightarrow> string \<Rightarrow> string" where
  "wstr v fallback = (case str_opt v of Some s \<Rightarrow> s | None \<Rightarrow> fallback)"

definition shortFp :: "Wire \<Rightarrow> string \<Rightarrow> string" where
  "shortFp w v = (if length v > 12 then take 12 v @ wx_ellipsis w else v)"

definition num_int :: "unknown \<Rightarrow> int option" where
  "num_int v = (case v of Some (JNum (Fin r)) \<Rightarrow> Some \<lfloor>r\<rfloor> | _ \<Rightarrow> None)"

definition int_or :: "unknown \<Rightarrow> int \<Rightarrow> int" where
  "int_or v d = (case num_int v of Some n \<Rightarrow> n | None \<Rightarrow> d)"

text \<open>A present, non-empty string.\<close>

definition some_str :: "unknown \<Rightarrow> string option" where
  "some_str v = (case str_opt v of Some s \<Rightarrow> nonempty_opt s | None \<Rightarrow> None)"

definition one_of :: "string list \<Rightarrow> unknown \<Rightarrow> string option" where
  "one_of opts v = (case str_opt v of Some s \<Rightarrow> (if s \<in> set opts then Some s else None) | None \<Rightarrow> None)"

section \<open>Profiles\<close>

definition some_num :: "unknown \<Rightarrow> rat option" where
  "some_num v = (case v of Some (JNum (Fin r)) \<Rightarrow> (if r \<noteq> 0 then Some r else None) | _ \<Rightarrow> None)"

definition str_list :: "unknown \<Rightarrow> string list option" where
  "str_list v = (case v of Some (JArr xs) \<Rightarrow> (if xs = [] then None else Some (List.map_filter (\<lambda>j. str_opt (Some j)) xs)) | _ \<Rightarrow> None)"

definition jstrs :: "string list \<Rightarrow> json" where
  "jstrs ss = JArr (map JStr ss)"

definition profile_object :: "unknown \<Rightarrow> GroupProfile" where
  "profile_object p =
     (let join = one_of [''invite'', ''apply'', ''open'', ''paid''] (jprop p ''join'');
          paid = (\<lambda>k. if join = Some ''paid'' then some_str (jprop p k) else None)
      in obj_fields
        [(''template'', map_option JStr (some_str (jprop p ''template''))),
         (''room'', map_option JStr (some_str (jprop p ''room''))),
         (''speakHumans'', Some (JBool (is_true (jprop p ''speak_humans'')))),
         (''speakAgents'', Some (JBool (is_true (jprop p ''speak_agents'')))),
         (''speakWho'', map_option JStr (one_of [''all'', ''owner'', ''admins''] (jprop p ''speak_who''))),
         (''join'', map_option JStr join),
         (''joinPrice'', map_option JStr (paid ''join_price'')),
         (''joinAddr'', map_option JStr (paid ''join_addr'')),
         (''joinNote'', map_option JStr (paid ''join_note'')),
         (''agentWake'', map_option JStr (one_of [''mention'', ''always'', ''never''] (jprop p ''agent_wake''))),
         (''agentTier'', map_option JStr (one_of [''notify'', ''draft'', ''auto''] (jprop p ''agent_tier''))),
         (''autoPerHour'', map_option (JNum \<circ> Fin) (some_num (jprop p ''auto_per_hour''))),
         (''agentRounds'', map_option (JNum \<circ> Fin) (some_num (jprop p ''agent_rounds''))),
         (''admins'', map_option jstrs (str_list (jprop p ''admins''))),
         (''public'', if is_true (jprop p ''public'') then Some (JBool True) else None),
         (''tags'', map_option jstrs (str_list (jprop p ''tags''))),
         (''rules'', map_option JStr (some_str (jprop p ''rules'')))])"

definition profileFromWire :: "unknown \<Rightarrow> GroupProfile option" where
  "profileFromWire v =
     (let raw = (case v of Some (JStr s) \<Rightarrow> (if trim s = [] then None else JSON_parse s) | _ \<Rightarrow> v)
      in if is_object raw then Some (profile_object raw) else None)"

definition profileToWire :: "GroupProfile \<Rightarrow> (string, json) al" where
  "profileToWire p =
     obj_fields
      [(''template'', al_get p ''template''), (''room'', al_get p ''room''),
     (''speak_humans'', al_get p ''speakHumans''), (''speak_agents'', al_get p ''speakAgents''),
     (''speak_who'', al_get p ''speakWho''), (''join'', al_get p ''join''),
     (''join_price'', al_get p ''joinPrice''), (''join_addr'', al_get p ''joinAddr''),
     (''join_note'', al_get p ''joinNote''), (''agent_wake'', al_get p ''agentWake''),
     (''agent_tier'', al_get p ''agentTier''), (''auto_per_hour'', al_get p ''autoPerHour''),
     (''agent_rounds'', al_get p ''agentRounds''), (''admins'', al_get p ''admins''),
     (''public'', al_get p ''public''), (''tags'', al_get p ''tags''), (''rules'', al_get p ''rules'')]"

section \<open>Friends, entries and groups\<close>

definition friendFromWire :: "Wire \<Rightarrow> unknown \<Rightarrow> Friend" where
  "friendFromWire x w =
     (let fingerprint = wstr (jprop w ''fingerprint'') []; note = wstr (jprop w ''note'') [];
          cardName = wstr (jprop (jprop w ''card'') ''name'') []; latest = jprop w ''last''
      in \<lparr>fr_fp = fingerprint,
          fr_name = (if note \<noteq> [] then note else if cardName \<noteq> [] then cardName else shortFp x fingerprint),
          fr_remark = nonempty_opt note, fr_cardName = nonempty_opt cardName,
          fr_protocol = some_str (jprop w ''protocol''), fr_online = None,
          fr_unread = int_or (jprop w ''unread'') 0, fr_count = int_or (jprop w ''count'') 0,
          fr_lastTs = (if jprop latest ''ts'' = None then None else Some (toMs x (jprop latest ''ts''))),
          fr_lastBody = str_opt (jprop latest ''body''),
          fr_typing = (if jprop w ''typing'' = Some (JBool True) then Some True else None),
          fr_addedAt = str_opt (jprop w ''added_at'')\<rparr>)"

definition pendingFromWire :: "Wire \<Rightarrow> unknown \<Rightarrow> PendingRequest" where
  "pendingFromWire x w =
     (let peer = wstr (jprop w ''peer'') []; cardName = wstr (jprop (jprop (jprop w ''incoming'') ''card'') ''name'') []
      in \<lparr>pq_id = wstr (jprop w ''id'') [], pq_fp = peer, pq_name = (if cardName \<noteq> [] then cardName else shortFp x peer),
          pq_greeting = wstr (jprop (jprop w ''incoming'') ''body'') [], pq_createdAt = str_opt (jprop w ''created_at'')\<rparr>)"

definition entryFromWire :: "Wire \<Rightarrow> unknown \<Rightarrow> ConversationEntry" where
  "entryFromWire x w =
     \<lparr>ce_seq = int_or (jprop w ''seq'') 0, ce_dir = (if jprop w ''dir'' = Some (JStr ''out'') then Out else In),
      ce_id = wstr (jprop w ''id'') [], ce_body = wstr (jprop w ''body'') [], ce_ts = toMs x (jprop w ''ts''),
      ce_from = some_str (jprop w ''from''), ce_type = some_str (jprop w ''type''), ce_auto = (jprop w ''auto'' = Some (JBool True)),
      ce_by = one_of [''owner'', ''alter''] (jprop w ''by''), ce_agent = some_str (jprop w ''agent''),
      ce_status = some_str (jprop w ''status''), ce_artifactName = some_str (jprop w ''artifact_name'')\<rparr>"

text \<open>A row of the group list; the member list, pins, role and applications come with \<open>groupInfoFromWire\<close>.\<close>

definition groupFromWire :: "unknown \<Rightarrow> GroupInfo" where
  "groupFromWire w =
     \<lparr>gi_gid = wstr (jprop w ''gid'') [], gi_name = wstr (jprop w ''name'') [], gi_ownerFp = wstr (jprop w ''owner_fp'') [],
      gi_mine = (jprop w ''mine'' = Some (JBool True)), gi_version = int_or (jprop w ''version'') 1,
      gi_members = nat (int_or (jprop w ''members'') 0), gi_unread = int_or (jprop w ''unread'') 0,
      gi_count = nat (int_or (jprop w ''count'') 0),
      gi_lastTs = (case jprop w ''last_ts'' of Some (JNum (Fin r)) \<Rightarrow> (if r > 0 then Some \<lfloor>r\<rfloor> else None) | _ \<Rightarrow> None),
      gi_lastBody = some_str (jprop w ''last_body''), gi_profile = profileFromWire (jprop w ''profile''),
      gi_memberList = [], gi_pins = [], gi_myRole = [], gi_applications = None\<rparr>"

definition pinFromWire :: "Wire \<Rightarrow> unknown \<Rightarrow> GroupPin" where
  "pinFromWire x w =
     \<lparr>gpin_id = wstr (jprop w ''id'') [], gpin_from = wstr (jprop w ''from'') [], gpin_ts = toMs x (jprop w ''ts''), gpin_body = wstr (jprop w ''body'') []\<rparr>"

text \<open>Only the hash, the amount, the recipient and the note of a payment are carried over.\<close>

definition applicationFromWire :: "Wire \<Rightarrow> unknown \<Rightarrow> GroupApplication" where
  "applicationFromWire x w =
     (let applicant = wstr (jprop w ''fp'') []; payment = jprop w ''payment''
      in \<lparr>gap_fp = applicant, gap_name = (if wstr (jprop w ''name'') [] \<noteq> [] then wstr (jprop w ''name'') [] else shortFp x applicant),
          gap_note = wstr (jprop w ''note'') [], gap_ts = (if jprop w ''ts'' = None then None else Some (toMs x (jprop w ''ts''))),
          gap_payment = map_option (\<lambda>tx. \<lparr>jp_tx_hash = tx, jp_amount = wstr (jprop payment ''amount'') [], jp_to = wstr (jprop payment ''to'') [],
            jp_payer = None, jp_proof = None, jp_note = str_opt (jprop payment ''note'')\<rparr>) (str_opt (jprop payment ''tx_hash''))\<rparr>)"

definition memberFromWire :: "Wire \<Rightarrow> unknown \<Rightarrow> GroupMember" where
  "memberFromWire x m =
     \<lparr>gm_fp = wstr (jprop m ''fp'') [],
      gm_name = (if wstr (jprop m ''name'') [] \<noteq> [] then wstr (jprop m ''name'') [] else shortFp x (wstr (jprop m ''fp'') [])),
      gm_agents = (case jprop m ''agents'' of
         Some (JArr xs) \<Rightarrow> (if xs = [] then None else Some (filter (\<lambda>a. a \<noteq> []) (List.map_filter (\<lambda>j. str_opt (Some j)) xs)))
       | _ \<Rightarrow> None)\<rparr>"

definition groupInfoFromWire :: "Wire \<Rightarrow> unknown \<Rightarrow> GroupInfo" where
  "groupInfoFromWire x w =
     (groupFromWire w)\<lparr>gi_memberList := map (\<lambda>m. memberFromWire x (Some m)) (arr_items (jprop w ''member_list'')),
       gi_pins := map (\<lambda>m. pinFromWire x (Some m)) (arr_items (jprop w ''pins'')),
       gi_myRole := (case one_of [''owner'', ''admin''] (jprop w ''my_role'') of
          Some r \<Rightarrow> r | None \<Rightarrow> (if jprop w ''mine'' = Some (JBool True) then ''owner'' else ''member'')),
       gi_applications := (case jprop w ''applications'' of
          Some (JArr xs) \<Rightarrow> Some (map (\<lambda>m. applicationFromWire x (Some m)) xs) | _ \<Rightarrow> None)\<rparr>"

definition cardFromWire :: "unknown \<Rightarrow> GroupCardView option" where
  "cardFromWire c =
     (if is_object c then
        Some \<lparr>gc_gid = wstr (jprop c ''gid'') [], gc_name = wstr (jprop c ''name'') [], gc_join = wstr (jprop c ''join'') [],
          gc_members = nat (int_or (jprop c ''members'') 0), gc_joinPrice = str_opt (jprop c ''join_price''),
          gc_joinAddr = str_opt (jprop c ''join_addr''), gc_joinNote = str_opt (jprop c ''join_note''),
          gc_rulesHead = some_str (jprop c ''rules_head'')\<rparr>
      else None)"

section \<open>Errors and notifications\<close>

definition peerUnavailable :: int where "peerUnavailable = - 32099"

text \<open>What a call may fail with: an error of the client, one of the endpoint, or anything else thrown.\<close>

datatype call_error = AsNetwork NetworkError | AsRpc JsonRpcError | Thrown string

fun toNetworkError :: "call_error \<Rightarrow> string \<Rightarrow> NetworkError" where
  "toNetworkError (AsNetwork e) method = e"
| "toNetworkError (AsRpc e) method =
     \<lparr>ne_message = je_message e,
      ne_code = (if je_code e = of_int JSONRPC_CLOSED \<or> je_code e = of_int JSONRPC_TIMEOUT then peerUnavailable else \<lfloor>je_code e\<rfloor>)\<rparr>"
| "toNetworkError (Thrown m) method = \<lparr>ne_message = method @ '': '' @ m, ne_code = - 32603\<rparr>"

type_synonym names = "(string, string) al"

definition name_of :: "Wire \<Rightarrow> names \<Rightarrow> string \<Rightarrow> string" where
  "name_of x friendNames peer = (case al_get friendNames peer of Some n \<Rightarrow> n | None \<Rightarrow> shortFp x peer)"

definition inbound_mail :: "Wire \<Rightarrow> names \<Rightarrow> unknown \<Rightarrow> InboundMessage" where
  "inbound_mail x friendNames p =
     (let peer = wstr (jprop p ''peer'') []; m = jprop p ''message''; type = wstr (jprop m ''type'') ''text''
      in \<lparr>im_id = wstr (jprop m ''id'') [], im_from = peer, im_name = name_of x friendNames peer,
          im_body = (if wstr (jprop m ''body'') [] \<noteq> [] then wstr (jprop m ''body'') [] else if type = ''app_share'' then ''[app share]'' else []),
          im_ts = toMs x (jprop m ''ts''), im_seq = num_int (jprop p ''seq''), im_auto = (jprop m ''auto'' = Some (JBool True)),
          im_by = None, im_agent = None, im_type = (if type = ''text'' then None else Some type),
          im_artifactPath = some_str (jprop p ''artifact_path''), im_artifactName = some_str (jprop m ''artifact_name'')\<rparr>)"

definition inbound_post :: "Wire \<Rightarrow> names \<Rightarrow> unknown \<Rightarrow> InboundMessage" where
  "inbound_post x friendNames p =
     (let peer = wstr (jprop p ''peer'') []; m = jprop p ''message''
      in \<lparr>im_id = wstr (jprop m ''id'') [], im_from = peer, im_name = name_of x friendNames peer, im_body = wstr (jprop m ''body'') [],
          im_ts = toMs x (jprop m ''ts''), im_seq = num_int (jprop p ''seq''), im_auto = (jprop m ''auto'' = Some (JBool True)),
          im_by = one_of [''owner'', ''alter''] (jprop m ''by''), im_agent = some_str (jprop m ''agent''), im_type = None,
          im_artifactPath = None, im_artifactName = None\<rparr>)"

definition proofFromWire :: "unknown \<Rightarrow> JoinPaymentProof option" where
  "proofFromWire v =
     (case (str_opt (jprop v ''message''), str_opt (jprop v ''pubkey''), str_opt (jprop v ''sig'')) of
        (Some m, Some k, Some g) \<Rightarrow> Some \<lparr>jpp_message = m, jpp_pubkey = k, jpp_sig = g\<rparr>
      | _ \<Rightarrow> None)"

definition live_application :: "Wire \<Rightarrow> unknown \<Rightarrow> GroupApplication" where
  "live_application x p =
     (let peer = wstr (jprop p ''peer'') []; m = jprop p ''message''; cardName = wstr (jprop (jprop m ''card'') ''name'') []; payment = jprop m ''payment''
      in \<lparr>gap_fp = peer, gap_name = (if cardName \<noteq> [] then cardName else shortFp x peer), gap_note = wstr (jprop m ''body'') [], gap_ts = None,
          gap_payment = map_option (\<lambda>tx. \<lparr>jp_tx_hash = tx, jp_amount = wstr (jprop payment ''amount'') [], jp_to = wstr (jprop payment ''to'') [],
            jp_payer = str_opt (jprop payment ''payer''), jp_proof = proofFromWire (jprop payment ''proof''),
            jp_note = str_opt (jprop payment ''note'')\<rparr>) (str_opt (jprop payment ''tx_hash''))\<rparr>)"

definition handleNotification :: "Wire \<Rightarrow> string \<Rightarrow> unknown \<Rightarrow> names \<Rightarrow> NetworkEvent list \<times> names" where
  "handleNotification x method p friendNames =
     (let peer = wstr (jprop p ''peer'') []; gid = wstr (jprop p ''gid'') []; on = (jprop p ''on'' = Some (JBool True)); m = jprop p ''message'' in
      if method = ''message.received'' then ([NMessage (inbound_mail x friendNames p)], friendNames)
      else if method = ''friend.request'' then
        (let cardName = wstr (jprop (jprop m ''card'') ''name'') [] in
         ([NFriendRequest \<lparr>pq_id = wstr (jprop p ''pending_id'') [], pq_fp = peer, pq_name = (if cardName \<noteq> [] then cardName else shortFp x peer),
            pq_greeting = wstr (jprop m ''body'') [], pq_createdAt = None\<rparr>], friendNames))
      else if method = ''friend.accepted'' then
        (let friend = friendFromWire x (Some (nullish_or (jprop p ''friend'') (JObj [(''fingerprint'', JStr peer)])))
         in ([NFriendAccept friend], al_set (fr_fp friend) (fr_name friend) friendNames))
      else if method = ''typing'' then ([NTyping peer on], friendNames)
      else if method = ''presence.changed'' then ([NPresence peer on], friendNames)
      else if method = ''group.message'' then ([NGroupMessage gid (inbound_post x friendNames p)], friendNames)
      else if method = ''group.typing'' then ([NGroupTyping gid peer (some_str (jprop p ''agent'')) on], friendNames)
      else if method = ''group.updated'' then ([NGroupUpdate gid], friendNames)
      else if method = ''group.application'' then ([NGroupApplication gid (live_application x p)], friendNames)
      else ([], friendNames))"

section \<open>Profiles read back\<close>

lemma norm_some_str: "some_str (map_option JStr (some_str v)) = some_str v"
  by (auto simp: some_str_def nonempty_opt_def split: option.splits if_splits)

lemma norm_one_of: "one_of opts (map_option JStr (one_of opts v)) = one_of opts v"
  by (auto simp: one_of_def split: option.splits if_splits)

lemma norm_some_num: "some_num (map_option (JNum \<circ> Fin) (some_num v)) = some_num v"
  by (auto simp: some_num_def split: option.splits json.splits jsnum.splits)

lemma norm_str_list: "str_list v \<noteq> Some [] \<Longrightarrow> str_list (map_option jstrs (str_list v)) = str_list v"
  by (auto simp: str_list_def jstrs_def List.map_filter_def comp_def split: option.splits json.splits)

lemma norm_public: "is_true (if b then Some (JBool True) else None) = b"
  by simp

lemma norm_paid:
  "(if j then some_str (map_option JStr (if j then some_str v else None)) else None) = (if j then some_str v else None)"
  by (simp add: norm_some_str)

abbreviation read_join :: "unknown \<Rightarrow> string option" where
  "read_join p \<equiv> one_of [''invite'', ''apply'', ''open'', ''paid''] (jprop p ''join'')"

text \<open>Every field of a translated profile, by its key.\<close>

lemma profile_object_get:
  "al_get (profile_object p) k =
     (if k = ''template'' \<or> k = ''room'' \<or> k = ''rules'' then map_option JStr (some_str (jprop p k))
      else if k = ''speakHumans'' then Some (JBool (is_true (jprop p ''speak_humans'')))
      else if k = ''speakAgents'' then Some (JBool (is_true (jprop p ''speak_agents'')))
      else if k = ''speakWho'' then map_option JStr (one_of [''all'', ''owner'', ''admins''] (jprop p ''speak_who''))
      else if k = ''join'' then map_option JStr (read_join p)
      else if k = ''joinPrice'' then map_option JStr (if read_join p = Some ''paid'' then some_str (jprop p ''join_price'') else None)
      else if k = ''joinAddr'' then map_option JStr (if read_join p = Some ''paid'' then some_str (jprop p ''join_addr'') else None)
      else if k = ''joinNote'' then map_option JStr (if read_join p = Some ''paid'' then some_str (jprop p ''join_note'') else None)
      else if k = ''agentWake'' then map_option JStr (one_of [''mention'', ''always'', ''never''] (jprop p ''agent_wake''))
      else if k = ''agentTier'' then map_option JStr (one_of [''notify'', ''draft'', ''auto''] (jprop p ''agent_tier''))
      else if k = ''autoPerHour'' then map_option (JNum \<circ> Fin) (some_num (jprop p ''auto_per_hour''))
      else if k = ''agentRounds'' then map_option (JNum \<circ> Fin) (some_num (jprop p ''agent_rounds''))
      else if k = ''admins'' \<or> k = ''tags'' then map_option jstrs (str_list (jprop p k))
      else if k = ''public'' then (if is_true (jprop p ''public'') then Some (JBool True) else None)
      else None)"
  unfolding profile_object_def Let_def by (subst map_of_obj_fields) auto

lemma profileToWire_get:
  "al_get (profileToWire q) ''template'' = al_get q ''template''" "al_get (profileToWire q) ''room'' = al_get q ''room''"
  "al_get (profileToWire q) ''speak_humans'' = al_get q ''speakHumans''" "al_get (profileToWire q) ''speak_agents'' = al_get q ''speakAgents''"
  "al_get (profileToWire q) ''speak_who'' = al_get q ''speakWho''" "al_get (profileToWire q) ''join'' = al_get q ''join''"
  "al_get (profileToWire q) ''join_price'' = al_get q ''joinPrice''" "al_get (profileToWire q) ''join_addr'' = al_get q ''joinAddr''"
  "al_get (profileToWire q) ''join_note'' = al_get q ''joinNote''" "al_get (profileToWire q) ''agent_wake'' = al_get q ''agentWake''"
  "al_get (profileToWire q) ''agent_tier'' = al_get q ''agentTier''" "al_get (profileToWire q) ''auto_per_hour'' = al_get q ''autoPerHour''"
  "al_get (profileToWire q) ''agent_rounds'' = al_get q ''agentRounds''" "al_get (profileToWire q) ''admins'' = al_get q ''admins''"
  "al_get (profileToWire q) ''public'' = al_get q ''public''" "al_get (profileToWire q) ''tags'' = al_get q ''tags''"
  "al_get (profileToWire q) ''rules'' = al_get q ''rules''"
  unfolding profileToWire_def by (subst map_of_obj_fields; simp)+

definition no_empty_lists :: "GroupProfile \<Rightarrow> bool" where
  "no_empty_lists q \<longleftrightarrow> al_get q ''admins'' \<noteq> Some (JArr []) \<and> al_get q ''tags'' \<noteq> Some (JArr [])"

lemma no_empty_lists_object: "no_empty_lists (profile_object p) \<Longrightarrow> str_list (jprop p ''admins'') \<noteq> Some [] \<and> str_list (jprop p ''tags'') \<noteq> Some []"
  by (auto simp: no_empty_lists_def profile_object_get jstrs_def)

lemma profile_object_read_back:
  assumes "no_empty_lists (profile_object p)"
  shows "profile_object (Some (JObj (profileToWire (profile_object p)))) = profile_object p"
proof -
  note ne = no_empty_lists_object [OF assms]
  define q where "q = profile_object p"
  have g: "al_get q k = al_get (profile_object p) k" for k by (simp add: q_def)
  have "profile_object (Some (JObj (profileToWire q))) = profile_object p"
    unfolding profile_object_def [of "Some (JObj (profileToWire q))"] Let_def jprop.simps profileToWire_get g profile_object_get
    by (simp add: norm_some_str norm_one_of norm_some_num norm_str_list ne) (simp add: profile_object_def Let_def norm_some_str)
  then show ?thesis by (simp add: q_def)
qed

lemma stringify_object_not_blank: "trim (JSON_stringify (JObj kvs)) \<noteq> []"
  by (simp add: trim_eq_Nil_iff is_ws_def Let_def)

text \<open>
  A group's profile survives the wire. A profile read from the peer, written back as the object the
  peer expects, is read as the same profile, whether the peer hands it back as an object or as the text of
  one (when its numbers are whole). The exception are lists without a single text, which are dropped.
\<close>

theorem profile_wire_roundtrip:
  assumes "profileFromWire v = Some p" "no_empty_lists p"
  shows "profileFromWire (Some (JObj (profileToWire p))) = Some p \<and>
    (json_ok (JObj (profileToWire p)) \<longrightarrow> profileFromWire (Some (JStr (JSON_stringify (JObj (profileToWire p))))) = Some p)"
proof -
  obtain raw where p: "p = profile_object raw" using assms(1) by (auto simp: profileFromWire_def Let_def split: if_splits)
  have o: "profile_object (Some (JObj (profileToWire p))) = p" using profile_object_read_back assms(2) unfolding p by blast
  moreover have "JSON_parse (JSON_stringify (JObj (profileToWire p))) = Some (JObj (profileToWire p))" if "json_ok (JObj (profileToWire p))"
    using that by (rule JSON_parse_stringify)
  ultimately show ?thesis using stringify_object_not_blank by (simp add: profileFromWire_def Let_def del: JSON_stringify.simps)
qed

definition sample_wire_profile :: json where
  "sample_wire_profile = JObj [(''speak_humans'', JBool True), (''join'', JStr ''paid''), (''join_price'', JStr ''5''),
     (''admins'', JArr [JStr ''fp1'']), (''auto_per_hour'', JNum (Fin 4)), (''agent_tier'', JStr ''loud'')]"

theorem profile_wire_roundtrip_witness:
  "\<exists>p. profileFromWire (Some sample_wire_profile) = Some p \<and> profileFromWire (Some (JObj (profileToWire p))) = Some p"
proof -
  obtain p where p: "profileFromWire (Some sample_wire_profile) = Some p" "p = profile_object (Some sample_wire_profile)"
    by (simp add: profileFromWire_def sample_wire_profile_def Let_def)
  have "no_empty_lists p" by (simp add: p(2) no_empty_lists_def profile_object_get sample_wire_profile_def str_list_def jstrs_def)
  then show ?thesis using profile_wire_roundtrip [OF p(1)] p(1) by blast
qed

section \<open>Well-formed values\<close>

lemma one_of_mem: "one_of opts v = Some s \<Longrightarrow> s \<in> set opts"
  by (auto simp: one_of_def split: option.splits if_splits)

lemma some_str_ne: "some_str v \<noteq> Some []"
  by (auto simp: some_str_def nonempty_opt_def split: option.splits)

lemma shortFp_Nil: "wx_ellipsis x \<noteq> [] \<Longrightarrow> shortFp x v = [] \<longleftrightarrow> v = []"
  by (auto simp: shortFp_def)



text \<open>
  What binds a payment to the applicant, the payer and the signed receipt, is translated for the live
  notification of an application and dropped for the stored ones, which the approval reads.
\<close>

lemma stored_application_unbound:
  "gap_payment (applicationFromWire x w) = Some p \<Longrightarrow> jp_payer p = None \<and> jp_proof p = None"
  by (auto simp: applicationFromWire_def Let_def)

lemma live_application_bound:
  "str_opt (jprop (jprop (jprop w ''message'') ''payment'') ''tx_hash'') = Some tx \<Longrightarrow>
     \<exists>p. gap_payment (live_application x w) = Some p \<and> jp_payer p = str_opt (jprop (jprop (jprop w ''message'') ''payment'') ''payer'') \<and>
       jp_proof p = proofFromWire (jprop (jprop (jprop w ''message'') ''payment'') ''proof'')"
  by (simp add: live_application_def Let_def)

end
