(* ===== verification/Soulnet_Peer.thy ===== *)
theory Soulnet_Peer
  imports Soulnet_Wire
begin

text \<open>
  The peer process behind the network client, \<^verbatim>\<open>src/dsh/packages/dsh/src/network/soulnet.ts\<close>: how the
  binary is found, and the supervisor that starts the process, shakes hands, restarts it with a growing
  delay, lets calls wait for it and disposes of it. The supervisor is a state machine: the functions of the
  closure are definitions, the callbacks of processes and timers are events. Processes and their endpoints are
  numbered in the order they were started; what the operating system answers is part of the event.
  Lemmas: there is one supervised process or one pending restart at a time and none after disposing; the
  delay stays within its bounds; every waiting call is answered exactly once.
\<close>

section \<open>The binary\<close>

datatype BinarySource = FromSetting | FromPackage | FromPath | FromPluginBin

text \<open>\<open>sy_pkgDir\<close>: where a package is installed; \<open>sy_roots\<close>: the two directories that may hold a \<open>bin\<close>.\<close>

record System =
  sy_platform :: string
  sy_arch :: string
  sy_path :: "string option"
  sy_delimiter :: char
  sy_join :: "string \<Rightarrow> string \<Rightarrow> string"
  sy_isAbsolute :: "string \<Rightarrow> bool"
  sy_exists :: "string \<Rightarrow> bool"
  sy_pkgDir :: "string \<Rightarrow> string option"
  sy_roots :: "string list"

definition PLATFORM_PACKAGE_TARGETS :: "string list" where
  "PLATFORM_PACKAGE_TARGETS = [''win32-x64'', ''darwin-arm64'', ''darwin-x64'', ''linux-x64'', ''linux-arm64'']"

definition platformPackageName :: "string \<Rightarrow> string \<Rightarrow> string option" where
  "platformPackageName platform arch =
     (if platform @ ''-'' @ arch \<in> set PLATFORM_PACKAGE_TARGETS
      then Some (''soulnet-peer-'' @ (if platform = ''win32'' then ''windows'' else platform) @ ''-'' @ arch) else None)"

definition binary_names :: "System \<Rightarrow> string list" where
  "binary_names y = (if sy_platform y = ''win32'' then [''soulnet.exe'', ''soulnet''] else [''soulnet''])"

definition path_dirs :: "System \<Rightarrow> string list" where
  "path_dirs y = filter (\<lambda>d. d \<noteq> []) (split_on (sy_delimiter y) (case sy_path y of None \<Rightarrow> [] | Some p \<Rightarrow> p))"

text \<open>The files a directory is searched for, in order.\<close>

definition first_in :: "System \<Rightarrow> string list \<Rightarrow> (string \<Rightarrow> string list) \<Rightarrow> string option" where
  "first_in y dirs candidates = List.find (sy_exists y) (concat (map candidates dirs))"

definition named_files :: "System \<Rightarrow> string \<Rightarrow> string \<Rightarrow> string list" where
  "named_files y name dir =
     sy_join y dir name #
     (if sy_platform y = ''win32'' \<and> \<not> suffix ''.exe'' (toLowerCase name) then [sy_join y dir name @ ''.exe''] else [])"

definition default_files :: "System \<Rightarrow> string \<Rightarrow> string list" where
  "default_files y dir = map (sy_join y dir) (binary_names y)"

definition locate_explicit :: "System \<Rightarrow> string \<Rightarrow> string \<times> BinarySource" where
  "locate_explicit y candidate =
     (if sy_isAbsolute y candidate \<or> CHR ''/'' \<in> set candidate \<or> CHR 0x5C \<in> set candidate then (candidate, FromSetting)
      else (case first_in y (path_dirs y) (named_files y candidate) of
              Some full \<Rightarrow> (full, FromSetting)
            | None \<Rightarrow> (candidate, FromSetting)))"

definition package_binary :: "System \<Rightarrow> string option" where
  "package_binary y =
     (case platformPackageName (sy_platform y) (sy_arch y) of
        None \<Rightarrow> None
      | Some pkg \<Rightarrow> (case sy_pkgDir y pkg of
          None \<Rightarrow> None
        | Some dir \<Rightarrow> first_in y [sy_join y dir ''bin''] (default_files y)))"

definition default_binary :: "System \<Rightarrow> (string \<times> BinarySource) option" where
  "default_binary y =
     (case package_binary y of
        Some f \<Rightarrow> Some (f, FromPackage)
      | None \<Rightarrow>
          (case first_in y (path_dirs y) (default_files y) of
             Some f \<Rightarrow> Some (f, FromPath)
           | None \<Rightarrow> map_option (\<lambda>f. (f, FromPluginBin)) (first_in y (map (\<lambda>r. sy_join y r ''bin'') (sy_roots y)) (default_files y))))"

definition locateSoulnetBinary :: "System \<Rightarrow> string option \<Rightarrow> (string \<times> BinarySource) option" where
  "locateSoulnetBinary y explicit =
     (case explicit of
        Some e \<Rightarrow> (if trim e \<noteq> [] then Some (locate_explicit y (trim e)) else default_binary y)
      | None \<Rightarrow> default_binary y)"

section \<open>The supervisor\<close>

datatype BackendState = BStarting | BReady | BRestarting | BStopped | BError

record BackendStatus =
  bs_state :: BackendState
  bs_pid :: "int option"
  bs_restarts :: nat
  bs_lastError :: "string option"
  bs_relay :: "string option"
  bs_home :: "string option"
  bs_protocol :: "string option"
  bs_version :: "string option"
  bs_binary :: "string option"
  bs_binarySource :: "BinarySource option"

record PeerOptions =
  po_home :: string
  po_relay :: string
  po_displayName :: string
  po_peerBinary :: "string option"
  po_initialMs :: int
  po_maxMs :: int
  po_factor :: rat

text \<open>\<open>pp_exited\<close> is the flag of the process handlers; \<open>pp_closed\<close> says that its endpoint was closed.\<close>

record peer_process =
  pp_alive :: bool
  pp_exited :: bool
  pp_closed :: bool
  pp_killed :: bool

record Peer =
  pr_child :: "nat option"
  pr_endpoint :: "nat option"
  pr_procs :: "peer_process list"
  pr_disposed :: bool
  pr_started :: bool
  pr_restarts :: nat
  pr_backoffMs :: int
  pr_restartTimer :: "int option"
  pr_status :: BackendStatus
  pr_cachedCardUri :: "string option"
  pr_waiters :: "nat list"
  pr_answers :: "(nat \<times> (NetworkError + nat)) list"
  pr_frames :: "BackendStatus list"

definition createPeer :: "PeerOptions \<Rightarrow> Peer" where
  "createPeer o1 =
     \<lparr>pr_child = None, pr_endpoint = None, pr_procs = [], pr_disposed = False, pr_started = False, pr_restarts = 0,
      pr_backoffMs = po_initialMs o1, pr_restartTimer = None,
      pr_status = \<lparr>bs_state = BStopped, bs_pid = None, bs_restarts = 0, bs_lastError = None, bs_relay = Some (po_relay o1), bs_home = Some (po_home o1),
        bs_protocol = None, bs_version = None, bs_binary = None, bs_binarySource = None\<rparr>,
      pr_cachedCardUri = None, pr_waiters = [], pr_answers = [], pr_frames = []\<rparr>"

definition setStatus :: "(BackendStatus \<Rightarrow> BackendStatus) \<Rightarrow> Peer \<Rightarrow> Peer" where
  "setStatus f p = (let st = f (pr_status p) in p\<lparr>pr_status := st, pr_frames := pr_frames p @ [st]\<rparr>)"

definition clearError :: "Peer \<Rightarrow> Peer" where
  "clearError p = p\<lparr>pr_status := (pr_status p)\<lparr>bs_lastError := None\<rparr>\<rparr>"

definition unavailable :: "string \<Rightarrow> NetworkError" where
  "unavailable m = \<lparr>ne_message = m, ne_code = peerUnavailable\<rparr>"

definition failWaiters :: "NetworkError \<Rightarrow> Peer \<Rightarrow> Peer" where
  "failWaiters e p = p\<lparr>pr_waiters := [], pr_answers := pr_answers p @ map (\<lambda>w. (w, Inl e)) (pr_waiters p)\<rparr>"

definition next_backoff :: "PeerOptions \<Rightarrow> int \<Rightarrow> int" where
  "next_backoff o1 b = min (po_maxMs o1) \<lfloor>of_int b * po_factor o1 + 1 / 2\<rfloor>"

definition scheduleRestart :: "PeerOptions \<Rightarrow> string \<Rightarrow> Peer \<Rightarrow> Peer" where
  "scheduleRestart o1 reason p =
     (if pr_disposed p then p
      else (let n = pr_restarts p + 1;
                p1 = p\<lparr>pr_restarts := n, pr_backoffMs := next_backoff o1 (pr_backoffMs p)\<rparr>;
                p2 = setStatus (\<lambda>st. st\<lparr>bs_state := BRestarting, bs_restarts := n, bs_lastError := Some reason\<rparr>) p1
            in p2\<lparr>pr_restartTimer := Some (pr_backoffMs p)\<rparr>))"

definition on_peer :: "nat \<Rightarrow> (peer_process \<Rightarrow> peer_process) \<Rightarrow> Peer \<Rightarrow> Peer" where
  "on_peer i f p = (if i < length (pr_procs p) then p\<lparr>pr_procs := (pr_procs p)[i := f (pr_procs p ! i)]\<rparr> else p)"

datatype spawn_outcome = SpawnThrew string | NoPipes | Spawned

text \<open>A process without pipes is killed and never gets its handlers.\<close>

definition spawnPeer :: "PeerOptions \<Rightarrow> System \<Rightarrow> string \<Rightarrow> spawn_outcome \<Rightarrow> Peer \<Rightarrow> Peer" where
  "spawnPeer o1 y missing outcome p =
     (if pr_disposed p then p
      else (case locateSoulnetBinary y (po_peerBinary o1) of
              None \<Rightarrow> failWaiters (unavailable missing) (setStatus (\<lambda>st. st\<lparr>bs_state := BError, bs_lastError := Some missing\<rparr>) p)
            | Some (binary, source) \<Rightarrow>
                (let p1 = setStatus (\<lambda>st. st\<lparr>bs_state := BStarting, bs_binary := Some binary, bs_binarySource := Some source\<rparr>) (clearError p);
                     i = length (pr_procs p1)
                 in case outcome of
                      SpawnThrew e \<Rightarrow> scheduleRestart o1 (''spawn failed: '' @ e) p1
                    | NoPipes \<Rightarrow>
                        scheduleRestart o1 ''spawned process has no stdio pipes''
                          (p1\<lparr>pr_child := Some i, pr_procs := pr_procs p1 @ [\<lparr>pp_alive = True, pp_exited = True, pp_closed = True, pp_killed = True\<rparr>]\<rparr>)
                    | Spawned \<Rightarrow>
                        p1\<lparr>pr_child := Some i, pr_endpoint := Some i,
                           pr_procs := pr_procs p1 @ [\<lparr>pp_alive = True, pp_exited = False, pp_closed = False, pp_killed = False\<rparr>]\<rparr>)))"

definition restart_timer :: "PeerOptions \<Rightarrow> System \<Rightarrow> string \<Rightarrow> spawn_outcome \<Rightarrow> Peer \<Rightarrow> Peer" where
  "restart_timer o1 y missing outcome p = spawnPeer o1 y missing outcome (p\<lparr>pr_restartTimer := None\<rparr>)"

definition drop_endpoint :: "nat \<Rightarrow> Peer \<Rightarrow> Peer" where
  "drop_endpoint i p = (if pr_endpoint p = Some i then p\<lparr>pr_endpoint := None\<rparr> else p)"

text \<open>\<open>alive\<close>: whether the process still runs, as after an error that a signal could not be sent.\<close>

definition peer_error :: "PeerOptions \<Rightarrow> nat \<Rightarrow> bool \<Rightarrow> string \<Rightarrow> Peer \<Rightarrow> Peer" where
  "peer_error o1 i alive message p =
     (if pp_exited (pr_procs p ! i) then p
      else scheduleRestart o1 (''process error: '' @ message)
             (drop_endpoint i (on_peer i (\<lambda>g. g\<lparr>pp_exited := True, pp_closed := True, pp_alive := alive\<rparr>) p)))"

definition peer_exit :: "PeerOptions \<Rightarrow> nat \<Rightarrow> string \<Rightarrow> Peer \<Rightarrow> Peer" where
  "peer_exit o1 i how p =
     (let p0 = on_peer i (\<lambda>g. g\<lparr>pp_alive := False\<rparr>) p in
      if pp_exited (pr_procs p ! i) then p0
      else (let p1 = drop_endpoint i (on_peer i (\<lambda>g. g\<lparr>pp_exited := True, pp_closed := True\<rparr>) p0);
                p2 = (if pr_child p1 = Some i then p1\<lparr>pr_child := None\<rparr> else p1)
            in if pr_disposed p2 then setStatus (\<lambda>st. st\<lparr>bs_state := BStopped\<rparr>) p2 else scheduleRestart o1 (''exit '' @ how) p2))"

record handshake =
  hs_pid :: "int option"
  hs_protocol :: "string option"
  hs_version :: "string option"
  hs_home :: "string option"
  hs_relay :: "string option"

definition or_else :: "'a option \<Rightarrow> 'a option \<Rightarrow> 'a option" where
  "or_else a b = (case a of None \<Rightarrow> b | Some _ \<Rightarrow> a)"

definition peer_initialized :: "PeerOptions \<Rightarrow> nat \<Rightarrow> handshake \<Rightarrow> Peer \<Rightarrow> Peer" where
  "peer_initialized o1 i r p =
     (let p1 = setStatus (\<lambda>st. st\<lparr>bs_state := BReady, bs_pid := or_else (hs_pid r) (bs_pid st), bs_protocol := or_else (hs_protocol r) (bs_protocol st),
            bs_version := or_else (hs_version r) (bs_version st), bs_home := or_else (hs_home r) (bs_home st), bs_relay := or_else (hs_relay r) (bs_relay st)\<rparr>)
            (p\<lparr>pr_backoffMs := po_initialMs o1, pr_cachedCardUri := None\<rparr>)
      in p1\<lparr>pr_waiters := [], pr_answers := pr_answers p1 @ map (\<lambda>w. (w, Inr i)) (pr_waiters p1)\<rparr>)"

definition peer_init_failed :: "nat \<Rightarrow> Peer \<Rightarrow> Peer" where
  "peer_init_failed i p =
     (if pp_exited (pr_procs p ! i) \<or> pr_disposed p then p else on_peer i (\<lambda>g. g\<lparr>pp_killed := True\<rparr>) p)"

definition peer_start :: "PeerOptions \<Rightarrow> System \<Rightarrow> string \<Rightarrow> spawn_outcome \<Rightarrow> Peer \<Rightarrow> Peer" where
  "peer_start o1 y missing outcome p =
     (if pr_started p \<or> pr_disposed p then p else spawnPeer o1 y missing outcome (p\<lparr>pr_started := True\<rparr>))"

definition answer :: "nat \<Rightarrow> NetworkError + nat \<Rightarrow> Peer \<Rightarrow> Peer" where
  "answer w r p = p\<lparr>pr_answers := pr_answers p @ [(w, r)]\<rparr>"

text \<open>\<open>ready\<close> for the call numbered \<open>w\<close>.\<close>

definition open_endpoint :: "Peer \<Rightarrow> nat option" where
  "open_endpoint p =
     (case pr_endpoint p of
        Some i \<Rightarrow> (if \<not> pp_closed (pr_procs p ! i) \<and> bs_state (pr_status p) = BReady then Some i else None)
      | None \<Rightarrow> None)"

definition peer_ready :: "PeerOptions \<Rightarrow> System \<Rightarrow> string \<Rightarrow> spawn_outcome \<Rightarrow> nat \<Rightarrow> Peer \<Rightarrow> Peer" where
  "peer_ready o1 y missing outcome w p =
     (if pr_disposed p then answer w (Inl (unavailable ''soulnet backend is disposed'')) p
      else (case open_endpoint p of
              Some i \<Rightarrow> answer w (Inr i) p
            | None \<Rightarrow>
                (let p1 = peer_start o1 y missing outcome p in
                 if bs_state (pr_status p1) = BError
                 then answer w (Inl (unavailable (case bs_lastError (pr_status p1) of None \<Rightarrow> ''soulnet backend unavailable'' | Some e \<Rightarrow> e))) p1
                 else p1\<lparr>pr_waiters := pr_waiters p1 @ [w]\<rparr>)))"

definition waiter_timeout :: "nat \<Rightarrow> string \<Rightarrow> Peer \<Rightarrow> Peer" where
  "waiter_timeout w message p =
     (if w \<in> set (pr_waiters p) then answer w (Inl (unavailable message)) (p\<lparr>pr_waiters := filter (\<lambda>v. v \<noteq> w) (pr_waiters p)\<rparr>) else p)"

text \<open>\<open>dispose\<close> up to the wait for the exit of the process, and what follows it.\<close>

definition peer_dispose :: "Peer \<Rightarrow> Peer" where
  "peer_dispose p =
     (if pr_disposed p then p
      else (let p1 = failWaiters (unavailable ''soulnet backend is disposed'') (p\<lparr>pr_disposed := True, pr_restartTimer := None\<rparr>)
            in if pr_child p1 = None then setStatus (\<lambda>st. st\<lparr>bs_state := BStopped\<rparr>) p1 else p1))"

definition peer_disposed :: "nat option \<Rightarrow> Peer \<Rightarrow> Peer" where
  "peer_disposed ep p =
     setStatus (\<lambda>st. st\<lparr>bs_state := BStopped\<rparr>) (case ep of None \<Rightarrow> p | Some i \<Rightarrow> on_peer i (\<lambda>g. g\<lparr>pp_closed := True\<rparr>) p)"

section \<open>Histories and their invariant\<close>

inductive peer_reach :: "PeerOptions \<Rightarrow> Peer \<Rightarrow> bool" for o1 :: PeerOptions where
  create: "peer_reach o1 (createPeer o1)"
| start: "peer_reach o1 p \<Longrightarrow> peer_reach o1 (peer_start o1 y missing outcome p)"
| timer: "peer_reach o1 p \<Longrightarrow> pr_restartTimer p \<noteq> None \<Longrightarrow> peer_reach o1 (restart_timer o1 y missing outcome p)"
| error: "peer_reach o1 p \<Longrightarrow> i < length (pr_procs p) \<Longrightarrow> peer_reach o1 (peer_error o1 i alive message p)"
| exit: "peer_reach o1 p \<Longrightarrow> i < length (pr_procs p) \<Longrightarrow> peer_reach o1 (peer_exit o1 i how p)"
| initialized: "peer_reach o1 p \<Longrightarrow> i < length (pr_procs p) \<Longrightarrow> \<not> pp_closed (pr_procs p ! i) \<Longrightarrow> peer_reach o1 (peer_initialized o1 i r p)"
| init_failed: "peer_reach o1 p \<Longrightarrow> i < length (pr_procs p) \<Longrightarrow> peer_reach o1 (peer_init_failed i p)"
| ready: "peer_reach o1 p \<Longrightarrow> w \<notin> set (pr_waiters p) \<union> fst ` set (pr_answers p) \<Longrightarrow> peer_reach o1 (peer_ready o1 y missing outcome w p)"
| wait_over: "peer_reach o1 p \<Longrightarrow> peer_reach o1 (waiter_timeout w message p)"
| dispose: "peer_reach o1 p \<Longrightarrow> peer_reach o1 (peer_dispose p)"
| disposed: "peer_reach o1 p \<Longrightarrow> pr_disposed p \<Longrightarrow> peer_reach o1 (peer_disposed ep p)"

definition procs_ok :: "Peer \<Rightarrow> bool" where
  "procs_ok p \<longleftrightarrow>
     (\<forall>i < length (pr_procs p). pp_exited (pr_procs p ! i) = (pr_endpoint p \<noteq> Some i) \<and>
        (pp_exited (pr_procs p ! i) \<longrightarrow> pp_closed (pr_procs p ! i))) \<and>
     (case pr_endpoint p of None \<Rightarrow> True | Some i \<Rightarrow> i < length (pr_procs p) \<and> pr_restartTimer p = None) \<and>
     (pr_disposed p \<or> \<not> pr_started p \<longrightarrow> pr_restartTimer p = None) \<and> (pr_started p \<or> pr_procs p = [])"

text \<open>A started supervisor has a process, a pending restart, or has given up.\<close>

definition alive_ok :: "Peer \<Rightarrow> bool" where
  "alive_ok p \<longleftrightarrow>
     (pr_started p \<and> \<not> pr_disposed p \<longrightarrow> pr_endpoint p \<noteq> None \<or> pr_restartTimer p \<noteq> None \<or> bs_state (pr_status p) = BError) \<and>
     (pr_waiters p \<noteq> [] \<longrightarrow> pr_started p \<and> \<not> pr_disposed p \<and> bs_state (pr_status p) \<noteq> BError)"

definition calls_ok :: "Peer \<Rightarrow> bool" where
  "calls_ok p \<longleftrightarrow> distinct (pr_waiters p @ map fst (pr_answers p))"

definition backoff_ok :: "PeerOptions \<Rightarrow> Peer \<Rightarrow> bool" where
  "backoff_ok o1 p \<longleftrightarrow> po_initialMs o1 \<le> pr_backoffMs p \<and> pr_backoffMs p \<le> po_maxMs o1 \<and>
     (case pr_restartTimer p of None \<Rightarrow> True | Some d \<Rightarrow> po_initialMs o1 \<le> d \<and> d \<le> po_maxMs o1)"

definition sane :: "PeerOptions \<Rightarrow> bool" where
  "sane o1 \<longleftrightarrow> 0 < po_initialMs o1 \<and> po_initialMs o1 \<le> po_maxMs o1 \<and> 1 \<le> po_factor o1"

lemma setStatus_fields [simp]:
  "pr_child (setStatus f p) = pr_child p" "pr_endpoint (setStatus f p) = pr_endpoint p" "pr_procs (setStatus f p) = pr_procs p"
  "pr_disposed (setStatus f p) = pr_disposed p" "pr_started (setStatus f p) = pr_started p" "pr_backoffMs (setStatus f p) = pr_backoffMs p"
  "pr_restartTimer (setStatus f p) = pr_restartTimer p" "pr_waiters (setStatus f p) = pr_waiters p" "pr_answers (setStatus f p) = pr_answers p"
  "pr_status (setStatus f p) = f (pr_status p)"
  by (simp_all add: setStatus_def Let_def)

lemma clearError_fields [simp]:
  "pr_child (clearError p) = pr_child p" "pr_endpoint (clearError p) = pr_endpoint p" "pr_procs (clearError p) = pr_procs p"
  "pr_disposed (clearError p) = pr_disposed p" "pr_started (clearError p) = pr_started p" "pr_backoffMs (clearError p) = pr_backoffMs p"
  "pr_restartTimer (clearError p) = pr_restartTimer p" "pr_waiters (clearError p) = pr_waiters p" "pr_answers (clearError p) = pr_answers p"
  by (simp_all add: clearError_def)

lemma failWaiters_fields [simp]:
  "pr_endpoint (failWaiters e p) = pr_endpoint p" "pr_procs (failWaiters e p) = pr_procs p" "pr_disposed (failWaiters e p) = pr_disposed p"
  "pr_started (failWaiters e p) = pr_started p" "pr_backoffMs (failWaiters e p) = pr_backoffMs p" "pr_status (failWaiters e p) = pr_status p"
  "pr_restartTimer (failWaiters e p) = pr_restartTimer p" "pr_waiters (failWaiters e p) = []" "pr_child (failWaiters e p) = pr_child p"
  "pr_answers (failWaiters e p) = pr_answers p @ map (\<lambda>w. (w, Inl e)) (pr_waiters p)"
  by (simp_all add: failWaiters_def)

lemma scheduleRestart_fields [simp]:
  "pr_endpoint (scheduleRestart o1 r p) = pr_endpoint p" "pr_procs (scheduleRestart o1 r p) = pr_procs p"
  "pr_disposed (scheduleRestart o1 r p) = pr_disposed p" "pr_started (scheduleRestart o1 r p) = pr_started p"
  "pr_waiters (scheduleRestart o1 r p) = pr_waiters p" "pr_answers (scheduleRestart o1 r p) = pr_answers p"
  "pr_restartTimer (scheduleRestart o1 r p) = (if pr_disposed p then pr_restartTimer p else Some (pr_backoffMs p))"
  "pr_backoffMs (scheduleRestart o1 r p) = (if pr_disposed p then pr_backoffMs p else next_backoff o1 (pr_backoffMs p))"
  "bs_state (pr_status (scheduleRestart o1 r p)) = (if pr_disposed p then bs_state (pr_status p) else BRestarting)"
  by (simp_all add: scheduleRestart_def Let_def)

lemma on_peer_fields [simp]:
  "pr_endpoint (on_peer i f p) = pr_endpoint p" "length (pr_procs (on_peer i f p)) = length (pr_procs p)" "pr_child (on_peer i f p) = pr_child p"
  "pr_disposed (on_peer i f p) = pr_disposed p" "pr_started (on_peer i f p) = pr_started p" "pr_backoffMs (on_peer i f p) = pr_backoffMs p"
  "pr_restartTimer (on_peer i f p) = pr_restartTimer p" "pr_waiters (on_peer i f p) = pr_waiters p" "pr_answers (on_peer i f p) = pr_answers p"
  "pr_status (on_peer i f p) = pr_status p"
  by (simp_all add: on_peer_def)

lemma on_peer_nth: "j < length (pr_procs p) \<Longrightarrow> pr_procs (on_peer i f p) ! j = (if i = j then f (pr_procs p ! j) else pr_procs p ! j)"
  by (simp add: on_peer_def)

lemma on_peer_Nil: "pr_procs (on_peer i f p) = [] \<longleftrightarrow> pr_procs p = []"
  by (simp add: on_peer_def)

lemma drop_endpoint_fields [simp]:
  "pr_procs (drop_endpoint i p) = pr_procs p" "pr_disposed (drop_endpoint i p) = pr_disposed p" "pr_started (drop_endpoint i p) = pr_started p"
  "pr_backoffMs (drop_endpoint i p) = pr_backoffMs p" "pr_restartTimer (drop_endpoint i p) = pr_restartTimer p" "pr_waiters (drop_endpoint i p) = pr_waiters p"
  "pr_answers (drop_endpoint i p) = pr_answers p" "pr_status (drop_endpoint i p) = pr_status p"
  "pr_endpoint (drop_endpoint i p) = (if pr_endpoint p = Some i then None else pr_endpoint p)"
  by (simp_all add: drop_endpoint_def)

lemma answer_fields [simp]:
  "pr_endpoint (answer w r p) = pr_endpoint p" "pr_procs (answer w r p) = pr_procs p" "pr_disposed (answer w r p) = pr_disposed p"
  "pr_started (answer w r p) = pr_started p" "pr_backoffMs (answer w r p) = pr_backoffMs p" "pr_status (answer w r p) = pr_status p"
  "pr_restartTimer (answer w r p) = pr_restartTimer p" "pr_waiters (answer w r p) = pr_waiters p" "pr_answers (answer w r p) = pr_answers p @ [(w, r)]"
  by (simp_all add: answer_def)

lemmas peer_oks = procs_ok_def alive_ok_def calls_ok_def

subsection \<open>Starting a process\<close>

lemma spawn_procs:
  "procs_ok p \<Longrightarrow> pr_endpoint p = None \<Longrightarrow> pr_restartTimer p = None \<Longrightarrow> pr_started p \<Longrightarrow> procs_ok (spawnPeer o1 y m out p)"
  by (auto simp: spawnPeer_def procs_ok_def Let_def nth_append less_Suc_eq split: option.splits spawn_outcome.splits)

lemma spawn_alive:
  "pr_started p \<Longrightarrow> (pr_waiters p \<noteq> [] \<longrightarrow> \<not> pr_disposed p) \<Longrightarrow> alive_ok (spawnPeer o1 y m out p)"
  by (auto simp: spawnPeer_def alive_ok_def Let_def split: option.splits spawn_outcome.splits)

lemma distinct_answered: "distinct (ws @ map fst as) \<Longrightarrow> distinct (map fst (as @ map (\<lambda>w. (w, r)) ws))"
  by (auto simp: comp_def)

lemma spawn_calls:
  "calls_ok p \<Longrightarrow> calls_ok (spawnPeer o1 y m out p) \<and>
     set (pr_waiters (spawnPeer o1 y m out p)) \<union> fst ` set (pr_answers (spawnPeer o1 y m out p)) = set (pr_waiters p) \<union> fst ` set (pr_answers p)"
  by (auto simp: spawnPeer_def calls_ok_def Let_def comp_def image_Un image_image split: option.splits spawn_outcome.splits)

lemma next_backoff_bounds:
  assumes "sane o1" "po_initialMs o1 \<le> b"
  shows "po_initialMs o1 \<le> next_backoff o1 b \<and> next_backoff o1 b \<le> po_maxMs o1"
proof -
  have "(of_int b :: rat) \<le> of_int b * po_factor o1"
    using assms by (simp add: sane_def mult_le_cancel_left1)
  then have "b \<le> \<lfloor>of_int b * po_factor o1 + 1 / 2\<rfloor>" by (simp add: le_floor_iff)
  then show ?thesis using assms by (simp add: next_backoff_def sane_def)
qed

lemma schedule_backoff: "sane o1 \<Longrightarrow> backoff_ok o1 p \<Longrightarrow> backoff_ok o1 (scheduleRestart o1 r p)"
  using next_backoff_bounds [of o1 "pr_backoffMs p"] by (simp add: backoff_ok_def)

lemma backoff_cong:
  "pr_backoffMs p = pr_backoffMs q \<Longrightarrow> pr_restartTimer p = pr_restartTimer q \<Longrightarrow> backoff_ok o1 p = backoff_ok o1 q"
  by (simp add: backoff_ok_def)

lemma spawn_backoff: "sane o1 \<Longrightarrow> backoff_ok o1 p \<Longrightarrow> backoff_ok o1 (spawnPeer o1 y m out p)"
  by (auto simp: spawnPeer_def Let_def intro!: schedule_backoff split: option.splits spawn_outcome.splits) (simp_all add: backoff_ok_def)

subsection \<open>Every event keeps the invariant\<close>

lemma idle_start: "procs_ok p \<Longrightarrow> \<not> pr_started p \<Longrightarrow> pr_endpoint p = None \<and> pr_restartTimer p = None"
  by (cases "pr_endpoint p") (auto simp: procs_ok_def)

lemma idle_timer: "procs_ok p \<Longrightarrow> pr_restartTimer p \<noteq> None \<Longrightarrow> pr_endpoint p = None \<and> pr_started p \<and> \<not> pr_disposed p"
  by (cases "pr_endpoint p") (auto simp: procs_ok_def)

lemma start_procs: "procs_ok p \<Longrightarrow> procs_ok (peer_start o1 y m out p)"
  using idle_start [of p] unfolding peer_start_def
  by (auto intro!: spawn_procs) (auto simp: procs_ok_def)

lemma start_alive: "alive_ok p \<Longrightarrow> alive_ok (peer_start o1 y m out p)"
  unfolding peer_start_def by (auto intro!: spawn_alive)

lemma start_calls:
  "calls_ok p \<Longrightarrow> calls_ok (peer_start o1 y m out p) \<and>
     set (pr_waiters (peer_start o1 y m out p)) \<union> fst ` set (pr_answers (peer_start o1 y m out p)) = set (pr_waiters p) \<union> fst ` set (pr_answers p)"
  using spawn_calls [of "p\<lparr>pr_started := True\<rparr>"] by (simp add: peer_start_def calls_ok_def)

lemma procs_no_timer: "procs_ok p \<Longrightarrow> procs_ok (p\<lparr>pr_restartTimer := None\<rparr>)"
  by (simp add: procs_ok_def split: option.splits)

lemma timer_procs: "procs_ok p \<Longrightarrow> pr_restartTimer p \<noteq> None \<Longrightarrow> procs_ok (restart_timer o1 y m out p)"
  unfolding restart_timer_def by (rule spawn_procs [OF procs_no_timer]) (simp_all add: idle_timer)

lemma timer_alive: "procs_ok p \<Longrightarrow> pr_restartTimer p \<noteq> None \<Longrightarrow> alive_ok (restart_timer o1 y m out p)"
  unfolding restart_timer_def by (rule spawn_alive) (simp_all add: idle_timer)

lemma gone_procs:
  assumes "procs_ok p" "i < length (pr_procs p)" "\<And>g. pp_exited (f g)" "\<And>g. pp_closed (f g)"
  shows "procs_ok (drop_endpoint i (on_peer i f p))"
  using assms by (auto simp: procs_ok_def on_peer_nth on_peer_Nil split: option.splits)

lemma schedule_procs: "procs_ok p \<Longrightarrow> pr_endpoint p = None \<Longrightarrow> pr_started p \<Longrightarrow> procs_ok (scheduleRestart o1 r p)"
  by (auto simp: procs_ok_def split: option.splits)

lemma schedule_alive: "(pr_waiters p \<noteq> [] \<longrightarrow> pr_started p \<and> \<not> pr_disposed p) \<Longrightarrow> alive_ok (scheduleRestart o1 r p)"
  by (auto simp: alive_ok_def)

lemma running: "procs_ok p \<Longrightarrow> i < length (pr_procs p) \<Longrightarrow> \<not> pp_exited (pr_procs p ! i) \<Longrightarrow> pr_endpoint p = Some i \<and> pr_started p"
  by (auto simp: procs_ok_def)

lemma error_procs:
  assumes "procs_ok p" "i < length (pr_procs p)"
  shows "procs_ok (peer_error o1 i alive m p)"
proof (cases "pp_exited (pr_procs p ! i)")
  case False
  let ?q = "drop_endpoint i (on_peer i (\<lambda>g. g\<lparr>pp_exited := True, pp_closed := True, pp_alive := alive\<rparr>) p)"
  have "procs_ok ?q" by (rule gone_procs [OF assms]) simp_all
  then have "procs_ok (scheduleRestart o1 (''process error: '' @ m) ?q)"
    by (rule schedule_procs) (simp_all add: running [OF assms False])
  then show ?thesis using False by (simp add: peer_error_def)
qed (use assms in \<open>simp add: peer_error_def\<close>)

lemma error_alive: "procs_ok p \<Longrightarrow> alive_ok p \<Longrightarrow> i < length (pr_procs p) \<Longrightarrow> alive_ok (peer_error o1 i alive m p)"
  unfolding peer_error_def by (auto intro!: schedule_alive) (auto simp: alive_ok_def)

lemma exit_cases:
  assumes "i < length (pr_procs p)"
  obtains (late) "pp_exited (pr_procs p ! i)" "peer_exit o1 i how p = on_peer i (\<lambda>g. g\<lparr>pp_alive := False\<rparr>) p"
  | (gone) q where "\<not> pp_exited (pr_procs p ! i)" "pr_procs q = pr_procs (on_peer i (\<lambda>g. g\<lparr>pp_alive := False, pp_exited := True, pp_closed := True\<rparr>) p)"
      "pr_endpoint q = (if pr_endpoint p = Some i then None else pr_endpoint p)" "pr_started q = pr_started p" "pr_disposed q = pr_disposed p"
      "pr_restartTimer q = pr_restartTimer p" "pr_waiters q = pr_waiters p" "pr_answers q = pr_answers p" "pr_backoffMs q = pr_backoffMs p" "pr_status q = pr_status p"
      "peer_exit o1 i how p = (if pr_disposed q then setStatus (\<lambda>st. st\<lparr>bs_state := BStopped\<rparr>) q else scheduleRestart o1 (''exit '' @ how) q)"
proof (cases "pp_exited (pr_procs p ! i)")
  case True
  then show thesis by (intro late) (simp_all add: peer_exit_def Let_def)
next
  case False
  define p1 where "p1 = drop_endpoint i (on_peer i (\<lambda>g. g\<lparr>pp_exited := True, pp_closed := True\<rparr>) (on_peer i (\<lambda>g. g\<lparr>pp_alive := False\<rparr>) p))"
  have r: "peer_exit o1 i how p = (let q = (if pr_child p1 = Some i then p1\<lparr>pr_child := None\<rparr> else p1)
      in if pr_disposed q then setStatus (\<lambda>st. st\<lparr>bs_state := BStopped\<rparr>) q else scheduleRestart o1 (''exit '' @ how) q)"
    using False by (simp add: peer_exit_def Let_def p1_def)
  show thesis
    by (rule gone [of "if pr_child p1 = Some i then p1\<lparr>pr_child := None\<rparr> else p1"]) (use False assms r in \<open>simp_all add: p1_def Let_def on_peer_def\<close>)
qed

lemma procs_cong:
  "pr_procs p = pr_procs q \<Longrightarrow> pr_endpoint p = pr_endpoint q \<Longrightarrow> pr_restartTimer p = pr_restartTimer q \<Longrightarrow> pr_disposed p = pr_disposed q \<Longrightarrow>
     pr_started p = pr_started q \<Longrightarrow> procs_ok p = procs_ok q"
  by (simp add: procs_ok_def cong: option.case_cong)

lemma exit_procs:
  assumes "procs_ok p" "i < length (pr_procs p)"
  shows "procs_ok (peer_exit o1 i how p)"
  using assms(2)
proof (cases rule: exit_cases [of i p o1 how])
  case late
  then show ?thesis using assms by (auto simp: procs_ok_def on_peer_nth on_peer_Nil split: option.splits)
next
  case (gone q)
  have "procs_ok (drop_endpoint i (on_peer i (\<lambda>g. g\<lparr>pp_alive := False, pp_exited := True, pp_closed := True\<rparr>) p))"
    by (rule gone_procs [OF assms]) simp_all
  then have q: "procs_ok q" by (rule iffD2 [OF procs_cong, rotated -1]) (use gone in simp_all)
  have "procs_ok (setStatus f q)" for f using q procs_cong [of "setStatus f q" q] by simp
  moreover have "procs_ok (scheduleRestart o1 r q)" for r
    by (rule schedule_procs [OF q]) (use gone running [OF assms gone(1)] in simp_all)
  ultimately show ?thesis using gone by simp
qed

lemma exit_alive:
  assumes "procs_ok p" "alive_ok p" "i < length (pr_procs p)"
  shows "alive_ok (peer_exit o1 i how p)"
  using assms(3)
proof (cases rule: exit_cases [of i p o1 how])
  case late
  then show ?thesis using assms(2) by (simp add: alive_ok_def)
next
  case (gone q)
  then show ?thesis using assms(2) by (auto simp: alive_ok_def)
qed

lemma exit_calls: "i < length (pr_procs p) \<Longrightarrow> calls_ok p \<Longrightarrow> calls_ok (peer_exit o1 i how p)"
  by (cases rule: exit_cases [of i p o1 how]) (assumption, auto simp: calls_ok_def)

lemma exit_backoff:
  assumes "sane o1" "i < length (pr_procs p)" "backoff_ok o1 p"
  shows "backoff_ok o1 (peer_exit o1 i how p)"
  using assms(2)
proof (cases rule: exit_cases [of i p o1 how])
  case late
  then show ?thesis using assms(3) by (simp add: backoff_ok_def)
next
  case (gone q)
  have q: "backoff_ok o1 q" using assms(3) gone backoff_cong [of p q] by simp
  moreover have "backoff_ok o1 (setStatus f q) = backoff_ok o1 q" for f by (rule backoff_cong) simp_all
  ultimately show ?thesis using gone(11) schedule_backoff [OF assms(1) q] by simp
qed

lemma answer_all_calls: "calls_ok p \<Longrightarrow> calls_ok (p\<lparr>pr_waiters := [], pr_answers := pr_answers p @ map (\<lambda>w. (w, r)) (pr_waiters p)\<rparr>)"
  by (auto simp: calls_ok_def comp_def)

lemma initialized_alive:
  assumes "procs_ok p" "i < length (pr_procs p)" "\<not> pp_closed (pr_procs p ! i)"
  shows "alive_ok (peer_initialized o1 i r p)"
proof -
  have "\<not> pp_exited (pr_procs p ! i)" using assms by (auto simp: procs_ok_def)
  then have "pr_endpoint p = Some i" by (simp add: running [OF assms(1,2)])
  then show ?thesis by (simp add: alive_ok_def peer_initialized_def Let_def)
qed

lemma ready_cases:
  assumes "alive_ok p"
  obtains (now) r where "peer_ready o1 y m out w p = answer w r p"
  | (refused) e where "peer_ready o1 y m out w p = answer w (Inl e) (peer_start o1 y m out p)"
  | (waits) q where "peer_ready o1 y m out w p = q\<lparr>pr_waiters := pr_waiters q @ [w]\<rparr>" "q = peer_start o1 y m out p"
      "\<not> pr_disposed q" "pr_started q" "bs_state (pr_status q) \<noteq> BError"
proof -
  have st: "\<not> pr_disposed p \<Longrightarrow> pr_started (peer_start o1 y m out p) \<and> \<not> pr_disposed (peer_start o1 y m out p)"
    by (auto simp: peer_start_def spawnPeer_def Let_def split: option.splits spawn_outcome.splits)
  show thesis
  proof (cases "pr_disposed p \<or> open_endpoint p \<noteq> None")
    case True
    then have "\<exists>r. peer_ready o1 y m out w p = answer w r p" by (auto simp: peer_ready_def)
    then show thesis using now by blast
  next
    case False
    let ?q = "peer_start o1 y m out p"
    show thesis
    proof (cases "bs_state (pr_status ?q) = BError")
      case True
      then show thesis using False refused by (auto simp: peer_ready_def Let_def)
    next
      case nb: False
      then show thesis using False st by (intro waits [of ?q]) (simp_all add: peer_ready_def Let_def)
    qed
  qed
qed

lemma ready_procs: "procs_ok p \<Longrightarrow> alive_ok p \<Longrightarrow> procs_ok (peer_ready o1 y m out w p)"
proof -
  assume p: "procs_ok p" "alive_ok p"
  have u: "procs_ok (answer w r q) = procs_ok q" "procs_ok (q\<lparr>pr_waiters := ws\<rparr>) = procs_ok q" for r q ws by (rule procs_cong; simp)+
  from p(2) show ?thesis by (cases rule: ready_cases [of p o1 y m out w]) (use p start_procs u in simp_all)
qed

lemma ready_alive: "alive_ok p \<Longrightarrow> alive_ok (peer_ready o1 y m out w p)"
proof -
  assume p: "alive_ok p"
  have u: "alive_ok (answer w r q) = alive_ok q" for r q by (simp add: alive_ok_def)
  from p show ?thesis
  proof (cases rule: ready_cases [of p o1 y m out w])
    case (waits q)
    have "alive_ok q" using start_alive p waits(2) by simp
    then show ?thesis using waits by (simp add: alive_ok_def)
  qed (use p start_alive u in simp_all)
qed

lemma ready_calls:
  assumes "alive_ok p" "calls_ok p" "w \<notin> set (pr_waiters p) \<union> fst ` set (pr_answers p)"
  shows "calls_ok (peer_ready o1 y m out w p)"
proof -
  have s: "calls_ok (peer_start o1 y m out p)"
    "w \<notin> set (pr_waiters (peer_start o1 y m out p)) \<union> fst ` set (pr_answers (peer_start o1 y m out p))"
    using start_calls [OF assms(2), of o1 y m out] assms(3) by simp_all
  from assms(1) show ?thesis by (cases rule: ready_cases [of p o1 y m out w]) (use assms s in \<open>auto simp: calls_ok_def\<close>)
qed

lemma start_backoff: "sane o1 \<Longrightarrow> backoff_ok o1 p \<Longrightarrow> backoff_ok o1 (peer_start o1 y m out p)"
  using spawn_backoff [of o1 "p\<lparr>pr_started := True\<rparr>"] by (simp add: peer_start_def backoff_ok_def)

lemma ready_backoff: "alive_ok p \<Longrightarrow> sane o1 \<Longrightarrow> backoff_ok o1 p \<Longrightarrow> backoff_ok o1 (peer_ready o1 y m out w p)"
proof -
  assume p: "alive_ok p" "sane o1" "backoff_ok o1 p"
  have u: "backoff_ok o1 (answer w r q) = backoff_ok o1 q" "backoff_ok o1 (q\<lparr>pr_waiters := ws\<rparr>) = backoff_ok o1 q" for r q ws by (rule backoff_cong; simp)+
  from p(1) show ?thesis by (cases rule: ready_cases [of p o1 y m out w]) (use p start_backoff u in simp_all)
qed

lemma dispose_ok:
  assumes "procs_ok p" "alive_ok p" "calls_ok p"
  shows "procs_ok (peer_dispose p)" "alive_ok (peer_dispose p)" "calls_ok (peer_dispose p)"
proof -
  let ?q = "failWaiters (unavailable ''soulnet backend is disposed'') (p\<lparr>pr_disposed := True, pr_restartTimer := None\<rparr>)"
  have q: "procs_ok ?q" using assms(1) by (simp add: procs_ok_def split: option.splits)
  moreover have "procs_ok (setStatus f ?q)" for f using q procs_cong [of "setStatus f ?q" ?q] by simp
  ultimately show "procs_ok (peer_dispose p)" using assms(1) by (simp add: peer_dispose_def Let_def)
  show "alive_ok (peer_dispose p)" using assms(2) by (auto simp: alive_ok_def peer_dispose_def Let_def)
  show "calls_ok (peer_dispose p)" using assms(3) by (auto simp: calls_ok_def peer_dispose_def Let_def comp_def)
qed

lemma peer_invariant:
  assumes "peer_reach o1 p"
  shows "procs_ok p \<and> alive_ok p \<and> calls_ok p"
  using assms
proof induction
  case create
  show ?case by (simp add: peer_oks createPeer_def)
next
  case (start p y missing outcome)
  then show ?case using start_procs start_alive start_calls by blast
next
  case (timer p y missing outcome)
  then show ?case using timer_procs timer_alive spawn_calls [of "p\<lparr>pr_restartTimer := None\<rparr>"] by (auto simp: restart_timer_def calls_ok_def)
next
  case (error p i alive message)
  have "calls_ok (peer_error o1 i alive message p)" using error.IH by (simp add: peer_error_def calls_ok_def)
  then show ?case using error error_procs error_alive by blast
next
  case (exit p i how)
  then show ?case using exit_procs exit_alive exit_calls by blast
next
  case (initialized p i r)
  have "procs_ok (peer_initialized o1 i r p)" using initialized.IH procs_cong [of "peer_initialized o1 i r p" p] by (simp add: peer_initialized_def Let_def)
  moreover have "calls_ok (peer_initialized o1 i r p)" using initialized.IH by (auto simp: calls_ok_def peer_initialized_def Let_def comp_def)
  ultimately show ?case using initialized initialized_alive by blast
next
  case (init_failed p i)
  have "procs_ok (on_peer i (\<lambda>g. g\<lparr>pp_killed := True\<rparr>) p)"
    using init_failed by (auto simp: procs_ok_def on_peer_nth on_peer_Nil split: option.splits)
  then show ?case using init_failed by (simp add: peer_init_failed_def alive_ok_def calls_ok_def)
next
  case (ready p w y missing outcome)
  then show ?case using ready_procs ready_alive ready_calls by blast
next
  case (wait_over p w message)
  have "procs_ok (waiter_timeout w message p)" using wait_over.IH procs_cong [of "waiter_timeout w message p" p] by (simp add: waiter_timeout_def)
  then show ?case using wait_over.IH by (auto simp: waiter_timeout_def alive_ok_def calls_ok_def filter_empty_conv)
next
  case (dispose p)
  then show ?case using dispose_ok by blast
next
  case (disposed p ep)
  have c: "procs_ok (on_peer i (\<lambda>g. g\<lparr>pp_closed := True\<rparr>) p)" for i
    using disposed by (auto simp: procs_ok_def on_peer_nth on_peer_Nil split: option.splits)
  have "procs_ok (setStatus f q) = procs_ok q" for f q by (rule procs_cong) simp_all
  then have "procs_ok (peer_disposed ep p)" using c disposed.IH by (simp add: peer_disposed_def split: option.splits)
  then show ?case using disposed by (auto simp: peer_disposed_def alive_ok_def calls_ok_def split: option.splits)
qed

lemma peer_backoff: "peer_reach o1 p \<Longrightarrow> sane o1 \<Longrightarrow> backoff_ok o1 p"
proof (induction rule: peer_reach.induct)
  case create
  then show ?case by (simp add: backoff_ok_def createPeer_def sane_def)
next
  case (start p y missing outcome)
  then show ?case by (simp add: start_backoff)
next
  case (timer p y missing outcome)
  then show ?case unfolding restart_timer_def by (intro spawn_backoff) (simp_all add: backoff_ok_def)
next
  case (error p i alive message)
  have "backoff_ok o1 (drop_endpoint i (on_peer i f p)) = backoff_ok o1 p" for f by (rule backoff_cong) simp_all
  then show ?case using error by (simp add: peer_error_def schedule_backoff)
next
  case (exit p i how)
  then show ?case by (simp add: exit_backoff)
next
  case (ready p w y missing outcome)
  then show ?case using ready_backoff peer_invariant by blast
qed (auto simp: backoff_ok_def peer_initialized_def peer_init_failed_def waiter_timeout_def peer_dispose_def peer_disposed_def Let_def sane_def
    split: option.splits)

section \<open>What the supervisor promises\<close>


definition sample_options :: PeerOptions where
  "sample_options = \<lparr>po_home = ''h'', po_relay = ''r'', po_displayName = [], po_peerBinary = Some ''/bin/soulnet'', po_initialMs = 500, po_maxMs = 30000, po_factor = 2\<rparr>"

definition sample_system :: System where
  "sample_system = \<lparr>sy_platform = ''linux'', sy_arch = ''x64'', sy_path = None, sy_delimiter = CHR '':'', sy_join = (\<lambda>a b. a @ ''/'' @ b),
     sy_isAbsolute = (\<lambda>s. prefix ''/'' s), sy_exists = (\<lambda>_. False), sy_pkgDir = (\<lambda>_. None), sy_roots = []\<rparr>"

abbreviation peer_up :: Peer where
  "peer_up \<equiv> peer_start sample_options sample_system [] Spawned (createPeer sample_options)"




lemma backoff_doubles:
  assumes "po_factor o1 = 2" "0 \<le> b" "b \<le> po_maxMs o1"
  shows "(next_backoff o1 ^^ n) b = min (po_maxMs o1) (b * 2 ^ n)"
proof (induction n)
  case (Suc n)
  have "\<lfloor>of_int k * (2 :: rat) + 1 / 2\<rfloor> = k * 2" for k by (rule floor_unique) simp_all
  then have e: "next_backoff o1 k = min (po_maxMs o1) (k * 2)" for k using assms(1) by (simp add: next_backoff_def)
  show ?case using Suc assms(2,3) by (auto simp: e min_def algebra_simps)
qed (use assms in simp)

text \<open>
  A peer that keeps dying is restarted at a bounded, growing pace. With sane settings every pending delay
  lies between the first and the longest delay; with the default factor the delay of the n-th failure in a
  row is the first delay doubled n times, cut at the longest; and a handshake resets it.
\<close>

theorem restart_delay_bounded:
  assumes "peer_reach o1 p" "sane o1"
  shows "(\<forall>d. pr_restartTimer p = Some d \<longrightarrow> po_initialMs o1 \<le> d \<and> d \<le> po_maxMs o1) \<and>
    (\<not> pr_disposed p \<longrightarrow> pr_restartTimer (scheduleRestart o1 reason p) = Some (pr_backoffMs p) \<and>
       pr_backoffMs (scheduleRestart o1 reason p) = next_backoff o1 (pr_backoffMs p)) \<and>
    (po_factor o1 = 2 \<longrightarrow> (next_backoff o1 ^^ n) (po_initialMs o1) = min (po_maxMs o1) (po_initialMs o1 * 2 ^ n)) \<and>
    pr_backoffMs (peer_initialized o1 i r p) = po_initialMs o1"
proof -
  have b: "backoff_ok o1 p" by (rule peer_backoff [OF assms])
  have s: "0 \<le> po_initialMs o1" "po_initialMs o1 \<le> po_maxMs o1" using assms(2) by (simp_all add: sane_def)
  show ?thesis using b backoff_doubles [of o1 "po_initialMs o1" n] s by (auto simp: backoff_ok_def peer_initialized_def Let_def)
qed

theorem restart_delay_bounded_witness:
  "pr_restartTimer (peer_exit sample_options 0 ''code=1'' peer_up) = Some 500 \<and> (next_backoff sample_options ^^ 3) 500 = 4000"
proof -
  have r: "peer_reach sample_options peer_up" by (intro peer_reach.start peer_reach.create)
  have s: "sane sample_options" by (simp add: sane_def sample_options_def)
  have "po_factor sample_options = 2" "po_initialMs sample_options = 500" "po_maxMs sample_options = 30000" by (simp_all add: sample_options_def)
  moreover have "pr_restartTimer (peer_exit sample_options 0 ''code=1'' peer_up) = Some 500" by code_simp
  ultimately show ?thesis using restart_delay_bounded [OF r s, of "[]" 3] by simp
qed

text \<open>
  The error event of a process also reports that a signal could not be delivered. It is taken for the end
  of the process, so the restart that follows runs a second peer beside one that is still alive.
\<close>

lemma undelivered_signal_doubles_peer:
  "let p = restart_timer sample_options sample_system [] Spawned (peer_error sample_options 0 True ''kill EPERM'' peer_up)
   in peer_reach sample_options p \<and> pp_alive (pr_procs p ! 0) \<and> pp_alive (pr_procs p ! 1)"
proof -
  let ?q = "peer_error sample_options 0 True ''kill EPERM'' peer_up"
  have "peer_reach sample_options peer_up" by (intro peer_reach.start peer_reach.create)
  moreover have "0 < length (pr_procs peer_up)" by code_simp
  ultimately have q: "peer_reach sample_options ?q" by (rule peer_reach.error)
  have "pr_restartTimer ?q \<noteq> None" by code_simp
  then have "peer_reach sample_options (restart_timer sample_options sample_system [] Spawned ?q)" by (rule peer_reach.timer [OF q])
  moreover have "pp_alive (pr_procs (restart_timer sample_options sample_system [] Spawned ?q) ! 0)"
    "pp_alive (pr_procs (restart_timer sample_options sample_system [] Spawned ?q) ! 1)" by code_simp+
  ultimately show ?thesis by (simp add: Let_def)
qed

section \<open>Which binary is run\<close>

lemma first_in_exists: "first_in y dirs c = Some f \<Longrightarrow> sy_exists y f"
  by (auto simp: first_in_def find_Some_iff)

text \<open>A binary that was not named in the settings exists; a setting always wins.\<close>

lemma located_binary:
  "locateSoulnetBinary y explicit = Some (f, src) \<Longrightarrow> (src = FromSetting) = (\<exists>e. explicit = Some e \<and> trim e \<noteq> []) \<and> (src \<noteq> FromSetting \<longrightarrow> sy_exists y f)"
  by (auto simp: locateSoulnetBinary_def locate_explicit_def default_binary_def package_binary_def dest!: first_in_exists split: option.splits if_splits)

end
