(* ===== verification/Soulnet_Client.thy ===== *)
theory Soulnet_Client
  imports Soulnet_Peer
begin

text \<open>
  The network client over the peer process, \<^verbatim>\<open>src/dsh/packages/dsh/src/network/soulnet.ts\<close>: one request and
  its answer per operation, the cached card and the names of friends the notifications are shown with. The
  peer behind the connection is the parameter \<open>rpc\<close> over its own state: it answers a JSON value or fails with
  one of the errors a call can meet. An answer is an object or absent, as the protocol types it.
  Lemmas: failures of the connection surface under one code; the names shown with incoming mail follow the
  friend list; provenance reaches the wire as given; a card is asked for once.
\<close>

section \<open>State and calls\<close>

type_synonym 'p rpc = "string \<Rightarrow> unknown \<Rightarrow> 'p \<Rightarrow> (call_error + json) \<times> 'p"

record 'p Soulnet =
  sn_peer :: 'p
  sn_friendNames :: names
  sn_cachedCardUri :: "string option"

definition rpc_call :: "'p rpc \<Rightarrow> string \<Rightarrow> unknown \<Rightarrow> 'p Soulnet \<Rightarrow> (NetworkError + json) \<times> 'p Soulnet" where
  "rpc_call rpc method params s =
     (case rpc method params (sn_peer s) of
        (Inl e, p) \<Rightarrow> (Inl (toNetworkError e method), s\<lparr>sn_peer := p\<rparr>)
      | (Inr r, p) \<Rightarrow> (Inr r, s\<lparr>sn_peer := p\<rparr>))"

definition then_do :: "(NetworkError + 'a) \<times> 's \<Rightarrow> ('a \<Rightarrow> 's \<Rightarrow> (NetworkError + 'b) \<times> 's) \<Rightarrow> (NetworkError + 'b) \<times> 's" where
  "then_do m k = (case m of (Inl e, s) \<Rightarrow> (Inl e, s) | (Inr a, s) \<Rightarrow> k a s)"

definition answer_with :: "'a \<Rightarrow> 's \<Rightarrow> (NetworkError + 'a) \<times> 's" where
  "answer_with a s = (Inr a, s)"

text \<open>A request whose answer is read by \<open>f\<close>.\<close>

definition ask :: "'p rpc \<Rightarrow> string \<Rightarrow> (string \<times> json option) list \<Rightarrow> (unknown \<Rightarrow> 'a) \<Rightarrow> 'p Soulnet \<Rightarrow> (NetworkError + 'a) \<times> 'p Soulnet" where
  "ask rpc method flds f s = then_do (rpc_call rpc method (Some (JObj (obj_fields flds))) s) (\<lambda>r. answer_with (f (Some r)))"

text \<open>Requests without parameters.\<close>

definition ask_plain :: "'p rpc \<Rightarrow> string \<Rightarrow> (unknown \<Rightarrow> 'a) \<Rightarrow> 'p Soulnet \<Rightarrow> (NetworkError + 'a) \<times> 'p Soulnet" where
  "ask_plain rpc method f s = then_do (rpc_call rpc method None s) (\<lambda>r. answer_with (f (Some r)))"

abbreviation jstr :: "string \<Rightarrow> json option" where "jstr s \<equiv> Some (JStr s)"
abbreviation jint :: "int \<Rightarrow> json option" where "jint i \<equiv> Some (JNum (Fin (of_int i)))"
abbreviation jbool :: "bool \<Rightarrow> json option" where "jbool b \<equiv> Some (JBool b)"

section \<open>Identity and card\<close>

definition sn_card :: "'p rpc \<Rightarrow> 'p Soulnet \<Rightarrow> (NetworkError + string) \<times> 'p Soulnet" where
  "sn_card rpc s =
     (case sn_cachedCardUri s of
        Some uri \<Rightarrow> (Inr uri, s)
      | None \<Rightarrow> then_do (ask_plain rpc ''card.get'' (\<lambda>r. wstr (jprop r ''uri'') []) s) (\<lambda>uri s1. (Inr uri, s1\<lparr>sn_cachedCardUri := Some uri\<rparr>)))"

definition sn_identity :: "'p rpc \<Rightarrow> 'p Soulnet \<Rightarrow> (NetworkError + Identity option) \<times> 'p Soulnet" where
  "sn_identity rpc s =
     then_do (ask_plain rpc ''identity.get'' (\<lambda>r. jprop r ''identity'') s) (\<lambda>i s1.
       if i = None \<or> i = Some JNull then (Inr None, s1)
       else then_do (sn_card rpc s1) (\<lambda>uri. answer_with (Some
         \<lparr>idn_fp = wstr (jprop i ''fingerprint'') [], idn_name = wstr (jprop i ''name'') [], idn_cardUri = uri, idn_createdAt = str_opt (jprop i ''created_at'')\<rparr>)))"

definition sn_signRequest :: "'p rpc \<Rightarrow> string \<Rightarrow> string \<Rightarrow> string \<Rightarrow> 'p Soulnet \<Rightarrow> (NetworkError + string) \<times> 'p Soulnet" where
  "sn_signRequest rpc method path ts s =
     then_do (ask rpc ''identity.signRequest'' [(''method'', jstr method), (''path'', jstr path), (''ts'', jstr ts)] (\<lambda>r. wstr (jprop r ''signature'') []) s)
       (\<lambda>sig s1. if sig = [] then (net_error ''identity.signRequest returned no signature'' (- 32603), s1) else (Inr sig, s1))"

definition sn_createIdentity :: "'p rpc \<Rightarrow> string \<Rightarrow> 'p Soulnet \<Rightarrow> (NetworkError + Identity) \<times> 'p Soulnet" where
  "sn_createIdentity rpc name s =
     then_do (ask rpc ''identity.create'' [(''name'', jstr name)] (\<lambda>r. jprop r ''identity'') s) (\<lambda>i s1.
       then_do (sn_card rpc (s1\<lparr>sn_cachedCardUri := None\<rparr>)) (\<lambda>uri. answer_with
         \<lparr>idn_fp = wstr (jprop i ''fingerprint'') [], idn_name = wstr (jprop i ''name'') name, idn_cardUri = uri, idn_createdAt = None\<rparr>))"

definition sn_parseCard :: "'p rpc \<Rightarrow> string \<Rightarrow> 'p Soulnet \<Rightarrow> (NetworkError + string \<times> string \<times> string) \<times> 'p Soulnet" where
  "sn_parseCard rpc uri s =
     ask rpc ''card.parse'' [(''uri'', jstr uri)]
       (\<lambda>r. (wstr (jprop r ''fingerprint'') [], wstr (jprop (jprop r ''card'') ''name'') [], wstr (jprop r ''uri'') uri)) s"

definition sn_profile_get :: "'p rpc \<Rightarrow> 'p Soulnet \<Rightarrow> (NetworkError + unknown) \<times> 'p Soulnet" where
  "sn_profile_get rpc s =
     ask_plain rpc ''profile.get'' (\<lambda>r. if jprop r ''profile'' = Some JNull then None else jprop r ''profile'') s"

definition sn_profile_save :: "'p rpc \<Rightarrow> json \<Rightarrow> 'p Soulnet \<Rightarrow> (NetworkError + json) \<times> 'p Soulnet" where
  "sn_profile_save rpc profile s = ask rpc ''profile.save'' [(''profile'', Some profile)] (\<lambda>r. nullish_or (jprop r ''profile'') profile) s"

definition sn_directory_fetch :: "'p rpc \<Rightarrow> string \<Rightarrow> 'p Soulnet \<Rightarrow> (NetworkError + unknown) \<times> 'p Soulnet" where
  "sn_directory_fetch rpc fp s =
     ask rpc ''directory.fetch'' [(''fp'', jstr fp)] (\<lambda>r. if jprop r ''entry'' = Some JNull then None else jprop r ''entry'') s"

definition sn_directory_publish :: "'p rpc \<Rightarrow> json option \<Rightarrow> 'p Soulnet \<Rightarrow> (NetworkError + bool \<times> bool) \<times> 'p Soulnet" where
  "sn_directory_publish rpc profile s =
     ask rpc ''directory.publish'' [(''profile'', profile)] (\<lambda>r. (is_true (jprop r ''ok''), is_true (jprop r ''published''))) s"

section \<open>Friends\<close>

definition rememberName :: "Friend \<Rightarrow> 'p Soulnet \<Rightarrow> 'p Soulnet" where
  "rememberName f s = s\<lparr>sn_friendNames := al_set (fr_fp f) (fr_name f) (sn_friendNames s)\<rparr>"

definition sn_friends_list :: "'p rpc \<Rightarrow> Wire \<Rightarrow> 'p Soulnet \<Rightarrow> (NetworkError + Friend list) \<times> 'p Soulnet" where
  "sn_friends_list rpc x s =
     then_do (ask_plain rpc ''friends.list'' (\<lambda>r. map (\<lambda>w. friendFromWire x (Some w)) (arr_items (jprop r ''friends''))) s)
       (\<lambda>fs s1. (Inr fs, fold rememberName fs s1))"

definition sn_friends_pending :: "'p rpc \<Rightarrow> Wire \<Rightarrow> 'p Soulnet \<Rightarrow> (NetworkError + PendingRequest list) \<times> 'p Soulnet" where
  "sn_friends_pending rpc x s =
     ask_plain rpc ''friends.pending'' (\<lambda>r. map (\<lambda>w. pendingFromWire x (Some w)) (arr_items (jprop r ''pending''))) s"

text \<open>The operations that answer one friend: the row is read and its name remembered.\<close>

definition one_friend :: "'p rpc \<Rightarrow> Wire \<Rightarrow> string \<Rightarrow> (string \<times> json option) list \<Rightarrow> 'p Soulnet \<Rightarrow> (NetworkError + Friend) \<times> 'p Soulnet" where
  "one_friend rpc x method flds s =
     then_do (ask rpc method flds (\<lambda>r. friendFromWire x (Some (nullish_or (jprop r ''friend'') (JObj [])))) s) (\<lambda>f s1. (Inr f, rememberName f s1))"

definition sn_friends_add :: "'p rpc \<Rightarrow> Wire \<Rightarrow> string \<Rightarrow> string option \<Rightarrow> 'p Soulnet \<Rightarrow> (NetworkError + Friend) \<times> 'p Soulnet" where
  "sn_friends_add rpc x cardUri note = one_friend rpc x ''friends.add'' [(''card_uri'', jstr cardUri), (''note'', map_option JStr note)]"

definition sn_friends_accept :: "'p rpc \<Rightarrow> Wire \<Rightarrow> string \<Rightarrow> string option \<Rightarrow> 'p Soulnet \<Rightarrow> (NetworkError + Friend) \<times> 'p Soulnet" where
  "sn_friends_accept rpc x requestId note = one_friend rpc x ''friends.accept'' [(''id'', jstr requestId), (''note'', map_option JStr note)]"

definition sn_friends_set :: "'p rpc \<Rightarrow> Wire \<Rightarrow> string \<Rightarrow> string option \<Rightarrow> string option \<Rightarrow> 'p Soulnet \<Rightarrow> (NetworkError + Friend) \<times> 'p Soulnet" where
  "sn_friends_set rpc x target remark protocol =
     one_friend rpc x ''friends.set'' [(''fp'', jstr target), (''note'', map_option JStr remark), (''protocol'', map_option JStr protocol)]"

definition sn_friends_reject :: "'p rpc \<Rightarrow> string \<Rightarrow> 'p Soulnet \<Rightarrow> (NetworkError + unit) \<times> 'p Soulnet" where
  "sn_friends_reject rpc requestId = ask rpc ''friends.reject'' [(''id'', jstr requestId)] (\<lambda>_. ())"

definition sn_friends_remove :: "'p rpc \<Rightarrow> string \<Rightarrow> 'p Soulnet \<Rightarrow> (NetworkError + unit) \<times> 'p Soulnet" where
  "sn_friends_remove rpc target s =
     then_do (ask rpc ''friends.remove'' [(''fp'', jstr target)] (\<lambda>_. ()) s) (\<lambda>u s1. (Inr (), s1\<lparr>sn_friendNames := al_del target (sn_friendNames s1)\<rparr>))"

definition sn_friends_card :: "'p rpc \<Rightarrow> string \<Rightarrow> 'p Soulnet \<Rightarrow> (NetworkError + string \<times> string \<times> string) \<times> 'p Soulnet" where
  "sn_friends_card rpc target =
     ask rpc ''friends.card'' [(''fp'', jstr target)]
       (\<lambda>r. (wstr (jprop r ''fingerprint'') target, wstr (jprop (jprop r ''card'') ''name'') [], wstr (jprop r ''uri'') []))"

section \<open>Groups\<close>

definition sn_groups_list :: "'p rpc \<Rightarrow> 'p Soulnet \<Rightarrow> (NetworkError + GroupInfo list) \<times> 'p Soulnet" where
  "sn_groups_list rpc = ask_plain rpc ''group.list'' (\<lambda>r. map (\<lambda>w. groupFromWire (Some w)) (arr_items (jprop r ''groups'')))"

definition group_answer :: "Wire \<Rightarrow> unknown \<Rightarrow> GroupInfo" where
  "group_answer x r = groupInfoFromWire x (Some (nullish_or (jprop r ''group'') (JObj [])))"

definition sn_groups_create :: "'p rpc \<Rightarrow> Wire \<Rightarrow> string \<Rightarrow> string list \<Rightarrow> GroupProfile option \<Rightarrow> 'p Soulnet \<Rightarrow> (NetworkError + GroupInfo) \<times> 'p Soulnet" where
  "sn_groups_create rpc x name members profile =
     ask rpc ''group.create'' [(''name'', jstr name), (''members'', Some (jstrs members)), (''profile'', map_option (\<lambda>p. JObj (profileToWire p)) profile)]
       (group_answer x)"

definition sn_groups_info :: "'p rpc \<Rightarrow> Wire \<Rightarrow> string \<Rightarrow> 'p Soulnet \<Rightarrow> (NetworkError + GroupInfo) \<times> 'p Soulnet" where
  "sn_groups_info rpc x gid = ask rpc ''group.get'' [(''gid'', jstr gid)] (group_answer x)"

definition receiptFromWire :: "unknown \<Rightarrow> SendReceipt" where
  "receiptFromWire r = \<lparr>sr_id = wstr (jprop r ''id'') [], sr_seq = num_int (jprop r ''seq''), sr_status = wstr (jprop r ''status'') ''sent''\<rparr>"

definition true_only :: "bool option \<Rightarrow> json option" where
  "true_only b = (if b = Some True then Some (JBool True) else None)"

definition given :: "string option \<Rightarrow> json option" where
  "given v = (case v of None \<Rightarrow> None | Some t \<Rightarrow> map_option JStr (nonempty_opt t))"

definition sn_groups_send :: "'p rpc \<Rightarrow> string \<Rightarrow> string \<Rightarrow> GroupSendOptions \<Rightarrow> 'p Soulnet \<Rightarrow> (NetworkError + SendReceipt) \<times> 'p Soulnet" where
  "sn_groups_send rpc gid body options =
     ask rpc ''group.send''
       [(''gid'', jstr gid), (''body'', jstr body), (''by'', map_option JStr (gso_by options)), (''auto'', true_only (gso_auto options)), (''agent'', given (gso_agent options))]
       receiptFromWire"

definition entries_answer :: "Wire \<Rightarrow> unknown \<Rightarrow> ConversationEntry list" where
  "entries_answer x r = map (\<lambda>w. entryFromWire x (Some w)) (arr_items (jprop r ''entries''))"

definition sn_groups_conversation :: "'p rpc \<Rightarrow> Wire \<Rightarrow> string \<Rightarrow> int option \<Rightarrow> int option \<Rightarrow> 'p Soulnet \<Rightarrow> (NetworkError + ConversationEntry list) \<times> 'p Soulnet" where
  "sn_groups_conversation rpc x gid since limit =
     ask rpc ''group.conversation'' [(''gid'', jstr gid), (''since'', Option.bind since jint), (''limit'', Option.bind limit jint)] (entries_answer x)"

definition sn_groups_announceVoices :: "'p rpc \<Rightarrow> string \<Rightarrow> string list \<Rightarrow> 'p Soulnet \<Rightarrow> (NetworkError + unit) \<times> 'p Soulnet" where
  "sn_groups_announceVoices rpc gid voices = ask rpc ''group.voicesAnnounce'' [(''gid'', jstr gid), (''voices'', Some (jstrs voices))] (\<lambda>_. ())"

definition sn_groups_typing :: "'p rpc \<Rightarrow> string \<Rightarrow> bool \<Rightarrow> string option \<Rightarrow> 'p Soulnet \<Rightarrow> (NetworkError + unit) \<times> 'p Soulnet" where
  "sn_groups_typing rpc gid on agent = ask rpc ''group.typing'' [(''gid'', jstr gid), (''on'', jbool on), (''agent'', given agent)] (\<lambda>_. ())"

definition sn_groups_markRead :: "'p rpc \<Rightarrow> string \<Rightarrow> int \<Rightarrow> 'p Soulnet \<Rightarrow> (NetworkError + unit) \<times> 'p Soulnet" where
  "sn_groups_markRead rpc gid sq = ask rpc ''group.markRead'' [(''gid'', jstr gid), (''seq'', jint sq)] (\<lambda>_. ())"

definition sn_groups_leave :: "'p rpc \<Rightarrow> string \<Rightarrow> 'p Soulnet \<Rightarrow> (NetworkError + unit) \<times> 'p Soulnet" where
  "sn_groups_leave rpc gid = ask rpc ''group.leave'' [(''gid'', jstr gid)] (\<lambda>_. ())"

definition sn_groups_kick :: "'p rpc \<Rightarrow> string \<Rightarrow> string \<Rightarrow> 'p Soulnet \<Rightarrow> (NetworkError + unit) \<times> 'p Soulnet" where
  "sn_groups_kick rpc gid target = ask rpc ''group.kick'' [(''gid'', jstr gid), (''fp'', jstr target)] (\<lambda>_. ())"

definition sn_groups_setProfile :: "'p rpc \<Rightarrow> string \<Rightarrow> GroupProfile \<Rightarrow> 'p Soulnet \<Rightarrow> (NetworkError + unit) \<times> 'p Soulnet" where
  "sn_groups_setProfile rpc gid profile = ask rpc ''group.setProfile'' [(''gid'', jstr gid), (''profile'', Some (JObj (profileToWire profile)))] (\<lambda>_. ())"

definition sn_groups_pin :: "'p rpc \<Rightarrow> string \<Rightarrow> string \<Rightarrow> 'p Soulnet \<Rightarrow> (NetworkError + unit) \<times> 'p Soulnet" where
  "sn_groups_pin rpc gid body = ask rpc ''group.pin'' [(''gid'', jstr gid), (''body'', jstr body)] (\<lambda>_. ())"

definition sn_groups_unpin :: "'p rpc \<Rightarrow> string \<Rightarrow> string \<Rightarrow> 'p Soulnet \<Rightarrow> (NetworkError + unit) \<times> 'p Soulnet" where
  "sn_groups_unpin rpc gid i = ask rpc ''group.unpin'' [(''gid'', jstr gid), (''id'', jstr i)] (\<lambda>_. ())"

definition sn_groups_lookup :: "'p rpc \<Rightarrow> string \<Rightarrow> 'p Soulnet \<Rightarrow> (NetworkError + GroupCardView option) \<times> 'p Soulnet" where
  "sn_groups_lookup rpc uri = ask rpc ''group.lookup'' [(''uri'', jstr uri)] (\<lambda>r. cardFromWire (jprop r ''card''))"

definition proof_json :: "JoinPaymentProof \<Rightarrow> json" where
  "proof_json p = JObj [(''message'', JStr (jpp_message p)), (''pubkey'', JStr (jpp_pubkey p)), (''sig'', JStr (jpp_sig p))]"

definition payment_json :: "JoinPayment \<Rightarrow> json" where
  "payment_json p = JObj (obj_fields
     [(''tx_hash'', jstr (jp_tx_hash p)), (''amount'', jstr (jp_amount p)), (''to'', jstr (jp_to p)), (''payer'', map_option JStr (jp_payer p)),
      (''proof'', map_option proof_json (jp_proof p)), (''note'', map_option JStr (jp_note p))])"

definition sn_groups_apply :: "'p rpc \<Rightarrow> string \<Rightarrow> string option \<Rightarrow> JoinPayment option \<Rightarrow> 'p Soulnet \<Rightarrow> (NetworkError + string) \<times> 'p Soulnet" where
  "sn_groups_apply rpc uri note payment =
     ask rpc ''group.apply'' [(''uri'', jstr uri), (''note'', map_option JStr note), (''payment'', map_option payment_json payment)] (\<lambda>r. wstr (jprop r ''gid'') [])"

definition sn_groups_applications :: "'p rpc \<Rightarrow> Wire \<Rightarrow> string \<Rightarrow> 'p Soulnet \<Rightarrow> (NetworkError + GroupApplication list) \<times> 'p Soulnet" where
  "sn_groups_applications rpc x gid =
     ask rpc ''group.applications'' [(''gid'', jstr gid)] (\<lambda>r. map (\<lambda>w. applicationFromWire x (Some w)) (arr_items (jprop r ''applications'')))"

definition sn_groups_approve :: "'p rpc \<Rightarrow> string \<Rightarrow> string \<Rightarrow> 'p Soulnet \<Rightarrow> (NetworkError + unit) \<times> 'p Soulnet" where
  "sn_groups_approve rpc gid target = ask rpc ''group.approve'' [(''gid'', jstr gid), (''fp'', jstr target)] (\<lambda>_. ())"

definition sn_groups_applicationReject :: "'p rpc \<Rightarrow> string \<Rightarrow> string \<Rightarrow> 'p Soulnet \<Rightarrow> (NetworkError + unit) \<times> 'p Soulnet" where
  "sn_groups_applicationReject rpc gid target = ask rpc ''group.applicationReject'' [(''gid'', jstr gid), (''fp'', jstr target)] (\<lambda>_. ())"

definition sn_groups_invite :: "'p rpc \<Rightarrow> string \<Rightarrow> string \<Rightarrow> 'p Soulnet \<Rightarrow> (NetworkError + unit) \<times> 'p Soulnet" where
  "sn_groups_invite rpc gid target = ask rpc ''group.invite'' [(''gid'', jstr gid), (''fp'', jstr target)] (\<lambda>_. ())"

section \<open>Mail\<close>

definition sn_send :: "'p rpc \<Rightarrow> string \<Rightarrow> string \<Rightarrow> string option \<Rightarrow> bool option \<Rightarrow> 'p Soulnet \<Rightarrow> (NetworkError + SendReceipt) \<times> 'p Soulnet" where
  "sn_send rpc to body attached auto =
     ask rpc ''message.send'' [(''to'', jstr to), (''body'', jstr body), (''file'', map_option JStr attached), (''auto'', true_only auto)] receiptFromWire"

definition sn_typing :: "'p rpc \<Rightarrow> string \<Rightarrow> bool \<Rightarrow> 'p Soulnet \<Rightarrow> (NetworkError + unit) \<times> 'p Soulnet" where
  "sn_typing rpc to on = ask rpc ''message.typing'' [(''to'', jstr to), (''on'', jbool on)] (\<lambda>_. ())"

definition sn_conversation :: "'p rpc \<Rightarrow> Wire \<Rightarrow> string \<Rightarrow> int option \<Rightarrow> int option \<Rightarrow> 'p Soulnet \<Rightarrow> (NetworkError + ConversationEntry list \<times> bool) \<times> 'p Soulnet" where
  "sn_conversation rpc x target since limit =
     ask rpc ''conversation.get'' [(''fp'', jstr target), (''since'', Option.bind since jint), (''limit'', Option.bind limit jint)]
       (\<lambda>r. (entries_answer x r, is_true (jprop r ''typing'')))"

definition sn_markRead :: "'p rpc \<Rightarrow> string \<Rightarrow> int \<Rightarrow> 'p Soulnet \<Rightarrow> (NetworkError + unit) \<times> 'p Soulnet" where
  "sn_markRead rpc target sq = ask rpc ''conversation.markRead'' [(''fp'', jstr target), (''seq'', jint sq)] (\<lambda>_. ())"

definition sn_presence :: "'p rpc \<Rightarrow> string list \<Rightarrow> 'p Soulnet \<Rightarrow> (NetworkError + (string, json) al) \<times> 'p Soulnet" where
  "sn_presence rpc fps = ask rpc ''presence'' [(''fps'', Some (jstrs fps))] (\<lambda>r. obj_entries (Some (nullish_or (jprop r ''online'') (JObj []))))"

definition sn_relaunch :: "'p rpc \<Rightarrow> int option \<Rightarrow> int \<Rightarrow> string \<Rightarrow> string list \<Rightarrow> string \<Rightarrow> 'p Soulnet \<Rightarrow> (NetworkError + unit) \<times> 'p Soulnet" where
  "sn_relaunch rpc childPid pid exec argv cwd =
     ask rpc ''host.relaunch'' [(''pid'', jint pid), (''exec'', jstr exec), (''argv'', Some (jstrs argv)), (''cwd'', jstr cwd), (''peer_pid'', Option.bind childPid jint)] (\<lambda>_. ())"

text \<open>A notification of the peer, with the names known at that time.\<close>

definition sn_notified :: "Wire \<Rightarrow> string \<Rightarrow> unknown \<Rightarrow> 'p Soulnet \<Rightarrow> NetworkEvent list \<times> 'p Soulnet" where
  "sn_notified x method params s =
     (let (evs, names) = handleNotification x method params (sn_friendNames s) in (evs, s\<lparr>sn_friendNames := names\<rparr>))"

section \<open>Failures\<close>

lemma ask_failed:
  "rpc method (Some (JObj (obj_fields flds))) (sn_peer s) = (Inl e, p) \<Longrightarrow>
     ask rpc method flds f s = (Inl (toNetworkError e method), s\<lparr>sn_peer := p\<rparr>)"
  by (simp add: ask_def rpc_call_def then_do_def)

lemma ask_answered:
  "rpc method (Some (JObj (obj_fields flds))) (sn_peer s) = (Inr r, p) \<Longrightarrow>
     ask rpc method flds f s = (Inr (f (Some r)), s\<lparr>sn_peer := p\<rparr>)"
  by (simp add: ask_def rpc_call_def then_do_def answer_with_def)

lemma ask_plain_cases:
  "ask_plain rpc method f s =
     (case rpc method None (sn_peer s) of
        (Inl e, p) \<Rightarrow> (Inl (toNetworkError e method), s\<lparr>sn_peer := p\<rparr>)
      | (Inr r, p) \<Rightarrow> (Inr (f (Some r)), s\<lparr>sn_peer := p\<rparr>))"
  by (simp add: ask_plain_def rpc_call_def then_do_def answer_with_def split: prod.splits sum.splits)

lemma ask_cases:
  "ask rpc method flds f s =
     (case rpc method (Some (JObj (obj_fields flds))) (sn_peer s) of
        (Inl e, p) \<Rightarrow> (Inl (toNetworkError e method), s\<lparr>sn_peer := p\<rparr>)
      | (Inr r, p) \<Rightarrow> (Inr (f (Some r)), s\<lparr>sn_peer := p\<rparr>))"
  by (simp add: ask_def rpc_call_def then_do_def answer_with_def split: prod.splits sum.splits)

text \<open>The request of a send, as the peer sees it.\<close>

definition mail_request :: "string \<Rightarrow> string \<Rightarrow> bool option \<Rightarrow> unknown" where
  "mail_request to body auto = Some (JObj (obj_fields [(''to'', jstr to), (''body'', jstr body), (''file'', None), (''auto'', true_only auto)]))"

text \<open>
  A send that fails says why, and only that. When the request of a send meets an error of the connection
  (closed, or no answer in time), the caller gets the code for an unavailable peer; an error the peer
  answered keeps its code and message; a refusal of the supervisor is passed on as it is; anything else is
  an internal error that names the request. Nothing the client remembers changes. When the peer answers, the
  caller gets a receipt, whatever the answer lacks.
\<close>

theorem send_failure_reported:
  assumes "rpc ''message.send'' (mail_request to body auto) (sn_peer s) = (res, p)"
  shows "snd (sn_send rpc to body None auto s) = s\<lparr>sn_peer := p\<rparr> \<and>
    (case res of
       Inr r \<Rightarrow> fst (sn_send rpc to body None auto s) = Inr \<lparr>sr_id = wstr (jprop (Some r) ''id'') [], sr_seq = num_int (jprop (Some r) ''seq''),
           sr_status = wstr (jprop (Some r) ''status'') ''sent''\<rparr>
     | Inl (AsNetwork e) \<Rightarrow> fst (sn_send rpc to body None auto s) = Inl e
     | Inl (AsRpc e) \<Rightarrow> fst (sn_send rpc to body None auto s) = Inl \<lparr>ne_message = je_message e,
           ne_code = (if je_code e \<in> {- 32099, - 32098} then peerUnavailable else \<lfloor>je_code e\<rfloor>)\<rparr>
     | Inl (Thrown m) \<Rightarrow> fst (sn_send rpc to body None auto s) = Inl \<lparr>ne_message = ''message.send: '' @ m, ne_code = - 32603\<rparr>)"
proof -
  have e: "rpc ''message.send'' (Some (JObj (obj_fields [(''to'', jstr to), (''body'', jstr body), (''file'', None), (''auto'', true_only auto)]))) (sn_peer s) = (res, p)"
    using assms by (simp add: mail_request_def)
  show ?thesis unfolding sn_send_def ask_cases
    by (auto simp: e receiptFromWire_def JSONRPC_CLOSED_def JSONRPC_TIMEOUT_def split: sum.splits call_error.splits)
qed

definition dead_peer :: "nat rpc" where
  "dead_peer method params p = (Inl (AsRpc (rpc_error (method @ '': endpoint is closed'') JSONRPC_CLOSED)), p + 1)"

theorem send_failure_reported_witness:
  "fst (sn_send dead_peer ''fp'' ''hi'' None None \<lparr>sn_peer = 0, sn_friendNames = [], sn_cachedCardUri = None\<rparr>)
     = Inl \<lparr>ne_message = ''message.send: endpoint is closed'', ne_code = peerUnavailable\<rparr>"
proof -
  let ?s = "\<lparr>sn_peer = 0 :: nat, sn_friendNames = [], sn_cachedCardUri = None\<rparr>"
  have "dead_peer ''message.send'' (mail_request ''fp'' ''hi'' None) (sn_peer ?s) = (Inl (AsRpc (rpc_error ''message.send: endpoint is closed'' JSONRPC_CLOSED)), 1)"
    by (simp add: dead_peer_def)
  from send_failure_reported [of dead_peer "''fp''" "''hi''" None ?s, OF this] show ?thesis by (simp add: rpc_error_def JSONRPC_CLOSED_def)
qed

section \<open>Names\<close>

lemma fold_remember:
  "sn_friendNames (fold rememberName fs s) = fold (\<lambda>f. al_set (fr_fp f) (fr_name f)) fs (sn_friendNames s)"
  by (induction fs arbitrary: s) (simp_all add: rememberName_def)

lemma fold_names:
  "distinct (map fr_fp fs) \<Longrightarrow> al_get (fold (\<lambda>f. al_set (fr_fp f) (fr_name f)) fs m) fp =
     (case List.find (\<lambda>f. fr_fp f = fp) fs of Some f \<Rightarrow> Some (fr_name f) | None \<Rightarrow> al_get m fp)"
proof (induction fs arbitrary: m)
  case (Cons f fs)
  have "List.find (\<lambda>g. fr_fp g = fp) fs = None" if "fr_fp f = fp" using Cons.prems that by (auto simp: find_None_iff image_iff)
  then show ?case using Cons by (auto split: option.splits)
qed simp

lemma find_by_key:
  assumes "distinct (map key fs)" "f \<in> set fs" "key f = k"
  shows "List.find (\<lambda>g. key g = k) fs = Some f"
  using assms by (induction fs) (auto simp: image_iff)

text \<open>
  Mail is shown under the name the owner knows. After the friend list was read, or a friend was added,
  accepted or edited, a mail notification from that friend carries the name of that friend's row;
  mail from others is shown as before. After a
  friend was removed, mail from the fingerprint is shown under the shortened fingerprint.
\<close>

theorem mail_shown_by_name:
  assumes "distinct (map fr_fp fs)" "sn_friends_list rpc x s = (Inr fs, s1)" "one_friend rpc x method flds s = (Inr g, s2)"
    "sn_friends_remove rpc fp s = (Inr (), s3)" "wstr (jprop p ''peer'') [] = fp"
  shows "(\<forall>f \<in> set fs. fr_fp f = fp \<longrightarrow> (\<exists>m. fst (sn_notified y ''message.received'' p s1) = [NMessage m] \<and> im_from m = fp \<and> im_name m = fr_name f)) \<and>
    (fr_fp g = fp \<longrightarrow> (\<exists>m. fst (sn_notified y ''message.received'' p s2) = [NMessage m] \<and> im_name m = fr_name g)) \<and>
    (fr_fp g \<noteq> fp \<longrightarrow> fst (sn_notified y ''message.received'' p s2) = fst (sn_notified y ''message.received'' p s)) \<and>
    (\<exists>m. fst (sn_notified y ''message.received'' p s3) = [NMessage m] \<and> im_name m = shortFp y fp)"
proof -
  have n: "fst (sn_notified y ''message.received'' p t) = [NMessage (inbound_mail y (sn_friendNames t) p)]" for t :: "'a Soulnet"
    by (simp add: sn_notified_def handleNotification_def Let_def)
  have im: "im_from (inbound_mail y m p) = fp" "im_name (inbound_mail y m p) = (case al_get m fp of Some k \<Rightarrow> k | None \<Rightarrow> shortFp y fp)" for m
    using assms(5) by (simp_all add: inbound_mail_def Let_def name_of_def)
  have cong: "inbound_mail y m p = inbound_mail y m' p" if "al_get m fp = al_get m' fp" for m m'
    using that assms(5) by (simp add: inbound_mail_def Let_def name_of_def)
  have "\<exists>t. s1 = fold rememberName fs t" using assms(2) by (auto simp: sn_friends_list_def then_do_def split: prod.splits sum.splits)
  then have a1: "al_get (sn_friendNames s1) fp = Some (fr_name f)" if "f \<in> set fs" "fr_fp f = fp" for f
    using fold_names [OF assms(1), of _ fp] find_by_key [OF assms(1) that] by (auto simp: fold_remember)
  have "\<exists>t. s2 = rememberName g t \<and> sn_friendNames t = sn_friendNames s"
    using assms(3) by (auto simp: one_friend_def then_do_def ask_cases split: prod.splits sum.splits)
  then have a2: "al_get (sn_friendNames s2) = (al_get (sn_friendNames s))(fr_fp g \<mapsto> fr_name g)" by (auto simp: rememberName_def)
  have a3: "al_get (sn_friendNames s3) fp = None"
    using assms(4) by (auto simp: sn_friends_remove_def then_do_def ask_cases split: prod.splits sum.splits)
  show ?thesis
  proof (intro conjI ballI impI)
    show "\<exists>m. fst (sn_notified y ''message.received'' p s1) = [NMessage m] \<and> im_from m = fp \<and> im_name m = fr_name f"
      if "f \<in> set fs" "fr_fp f = fp" for f using a1 [OF that] by (simp add: n im)
    show "fst (sn_notified y ''message.received'' p s2) = fst (sn_notified y ''message.received'' p s)" if "fr_fp g \<noteq> fp"
      unfolding n by (simp add: cong [of "sn_friendNames s2" "sn_friendNames s"] a2 that [symmetric])
  qed (use a2 a3 in \<open>auto simp: n im\<close>)
qed

text \<open>A peer with one friend, who has a card name and no note.\<close>

definition small_peer :: "nat rpc" where
  "small_peer method params p =
     (let row = JObj [(''fingerprint'', JStr ''fp1''), (''card'', JObj [(''name'', JStr ''Ann'')])]
      in (if method = ''friends.list'' then Inr (JObj [(''friends'', JArr [row])]) else Inr (JObj [(''friend'', row)]), p + 1))"

definition plain_wire :: Wire where
  "plain_wire = \<lparr>wx_now = 0, wx_other = (\<lambda>_. None), wx_ellipsis = ''...''\<rparr>"

definition no_names :: "nat Soulnet" where
  "no_names = \<lparr>sn_peer = 0, sn_friendNames = [], sn_cachedCardUri = None\<rparr>"

theorem mail_shown_by_name_witness:
  "\<exists>m. fst (sn_notified plain_wire ''message.received'' (Some (JObj [(''peer'', JStr ''fp1'')])) (snd (sn_friends_list small_peer plain_wire no_names))) = [NMessage m] \<and>
     im_from m = ''fp1'' \<and> im_name m = ''Ann''"
proof -
  let ?row = "Some (JObj [(''fingerprint'', JStr ''fp1''), (''card'', JObj [(''name'', JStr ''Ann'')])])"
  let ?f = "friendFromWire plain_wire ?row"
  have d: "distinct (map fr_fp [?f])" by simp
  have f: "fr_fp ?f = ''fp1''" "fr_name ?f = ''Ann''" by (simp_all add: friendFromWire_def Let_def wstr_def)
  have l: "sn_friends_list small_peer plain_wire no_names = (Inr [?f], snd (sn_friends_list small_peer plain_wire no_names))"
    by (simp add: sn_friends_list_def ask_plain_cases small_peer_def Let_def then_do_def)
  have g: "one_friend small_peer plain_wire ''friends.add'' [] no_names = (Inr ?f, snd (one_friend small_peer plain_wire ''friends.add'' [] no_names))"
    by (simp add: one_friend_def ask_cases small_peer_def Let_def then_do_def)
  have r: "sn_friends_remove small_peer ''fp1'' no_names = (Inr (), snd (sn_friends_remove small_peer ''fp1'' no_names))"
    by (simp add: sn_friends_remove_def ask_cases small_peer_def Let_def then_do_def)
  have w: "wstr (jprop (Some (JObj [(''peer'', JStr ''fp1'')])) ''peer'') [] = ''fp1''" by (simp add: wstr_def)
  from mail_shown_by_name [OF d l g r w, of plain_wire] f show ?thesis by simp
qed

end
