(* ===== verification/Api_Core.thy ===== *)
theory Api_Core
  imports Payments Upgrade Soulnet_Client
begin

text \<open>
  The browser-facing HTTP API, \<^verbatim>\<open>src/dsh/packages/dsh/src/api/index.ts\<close>, first part: how a request body is
  read, how an answer is built, the SSE clients, the state of the page and the routes about the identity,
  friends, mail, the alter, seat agents, drafts and memories. The group routes, the upgrade routes and the
  dispatch are in the theory \<open>Http_Api\<close>. The network client is the parameter \<open>ax_client\<close>, the payment
  gateway \<open>ax_paygate\<close>; the sessions service is its model. Log lines are left out; an answer is the
  typed value that is printed as its JSON body. A fractional \<open>since\<close>, \<open>limit\<close> or \<open>seq\<close> is rounded down.
  Lemmas: which parts of the state each route may touch.
\<close>

section \<open>Errors and answers\<close>

text \<open>What a handler throws: a network error, or another error with its name and message.\<close>

datatype api_error = ENet NetworkError | EJs string string

definition error_message :: "api_error \<Rightarrow> string" where
  "error_message e = (case e of ENet n \<Rightarrow> ne_message n | EJs _ m \<Rightarrow> m)"

definition error_string :: "api_error \<Rightarrow> string" where
  "error_string e = (case e of ENet n \<Rightarrow> ''NetworkError: '' @ ne_message n | EJs name m \<Rightarrow> name @ '': '' @ m)"

fun name_message :: "name_error \<Rightarrow> string" where
  "name_message NameEmpty = ''name must not be empty''"
| "name_message NamePadded = ''name must not start or end with whitespace''"
| "name_message NameTooLong = ''name must be at most 32 characters''"
| "name_message (NameReserved n) = dq @ n @ dq @ '' is reserved''"
| "name_message NameSeparator = ''name must not contain whitespace, '' @ dq @ ''@'' @ dq @ '' or '' @ dq @ [middle_dot] @ dq"
| "name_message NameControl = ''name must not contain control characters''"

text \<open>\<open>broken\<close> is the message of a session the host cannot open.\<close>

fun session_failure :: "string \<Rightarrow> session_error \<Rightarrow> api_error" where
  "session_failure broken HostFailed = EJs ''Error'' broken"
| "session_failure broken (DraftNotPending i) = EJs ''Error'' (''draft '' @ i @ '' is not pending'')"
| "session_failure broken EmptyBody = EJs ''Error'' ''body must not be empty''"
| "session_failure broken EmptyFeedback = EJs ''Error'' ''feedback must not be empty''"
| "session_failure broken EmptyInstruction = EJs ''Error'' ''instruction must not be empty''"
| "session_failure broken (NoSeatAgent n) = EJs ''Error'' (''no seat agent named '' @ dq @ n @ dq)"
| "session_failure broken (IsOwnersName n) = EJs ''Error'' (dq @ n @ dq @ '' is the owner'' @ [CHR 0x27] @ ''s name'')"
| "session_failure broken (BadAgent (BadName e)) = EJs ''Error'' (name_message e)"
| "session_failure broken (BadAgent InvalidRecord) = EJs ''Error'' ''invalid agent record''"
| "session_failure broken (NetFailed e) = ENet e"

fun memory_failure :: "memory_error \<Rightarrow> string" where
  "memory_failure EmptyContent = ''memory content must not be empty''"
| "memory_failure UniqueUid = ''UNIQUE constraint failed: memories.uid''"

text \<open>The friend row and the state of the page, as the browser gets them.\<close>

record FriendRow =
  fw_friend :: Friend
  fw_tier :: ReplyTier
  fw_tierExplicit :: bool
  fw_drafts :: nat
  fw_muted :: bool

record ApiState =
  as_backend :: string
  as_status :: BackendStatus
  as_home :: string
  as_settingsNamespace :: string
  as_identity :: "Identity option"
  as_friends :: "FriendRow list"
  as_pending :: "PendingRequest list"
  as_groups :: "(GroupInfo \<times> bool) list"
  as_drafts :: "PendingDraft list"
  as_agents :: "((string \<times> string option \<times> bool) \<times> SeatAgent option) list"
  as_sessionId :: "string option"
  as_running :: bool
  as_defaultTier :: ReplyTier
  as_autoReplyPerHour :: int
  as_directSend :: bool
  as_protocolExists :: bool
  as_legacyFriendSessions :: "(string, string) al"
  as_error :: "string option"

text \<open>One constructor per shape of answer.\<close>

datatype api_body =
    BErr int string
  | BOk
  | BState ApiState
  | BWallet bool unknown "string option"
  | BIdentity Identity
  | BCard "string \<times> string \<times> string"
  | BFriend Friend
  | BFriendRow FriendRow
  | BConversation "ConversationEntry list" "bool option"
  | BSent ConversationEntry SendReceipt
  | BOnline "(string, bool) al"
  | BInstructed "string \<times> string" "(string \<times> bool \<times> AlterLatest) option"
  | BAgentInstructed "string \<times> string"
  | BLatest "(string \<times> bool \<times> AlterLatest) option"
  | BHistory "string option \<times> bool \<times> AlterChat"
  | BDrafts "PendingDraft list"
  | BDecided PendingDraft "ConversationEntry option"
  | BAgents "(string \<times> string option \<times> bool) list" "SeatAgent list"
  | BAgent SeatAgent
  | BAgentRemoved bool
  | BRemoved nat
  | BMemories "MemoryRecord list"
  | BMemory MemoryRecord
  | BOkFlag bool
  | BGroup GroupInfo
  | BGroupSent SendReceipt "ConversationEntry option"
  | BGroupCard "GroupCardView option"
  | BPaid string string string
  | BApplied string
  | BApplications "GroupApplication list"
  | BGroupSettings bool GroupSettings
  | BUpgradeCheck UpgradeCheck
  | BUpgradeRun UpgradeRunResult bool
  | BProtocol string "bool option"

record api_response =
  rs_status :: nat
  rs_body :: api_body

definition ok :: "api_body \<Rightarrow> api_response" where
  "ok b = \<lparr>rs_status = 200, rs_body = b\<rparr>"

definition refusal :: "nat \<Rightarrow> int \<Rightarrow> string \<Rightarrow> api_response" where
  "refusal status code m = \<lparr>rs_status = status, rs_body = BErr code m\<rparr>"

definition bad :: "string \<Rightarrow> api_response" where
  "bad m = refusal 400 (- 32602) m"

definition not_mounted :: api_response where
  "not_mounted = refusal 503 (- 32603) ''sessions plugin not mounted''"

definition errorBody :: "api_error \<Rightarrow> api_body" where
  "errorBody e = (case e of ENet n \<Rightarrow> BErr (ne_code n) (ne_message n) | EJs _ m \<Rightarrow> BErr (- 32603) m)"

section \<open>Reading a request\<close>

definition text_of :: "unknown \<Rightarrow> string option" where
  "text_of v = (case v of Some (JStr s) \<Rightarrow> nonempty_opt (trim s) | _ \<Rightarrow> None)"

definition num :: "unknown \<Rightarrow> rat option" where
  "num v =
     (case v of
        Some (JNum (Fin r)) \<Rightarrow> Some r
      | Some (JStr s) \<Rightarrow> (if trim s = [] then None else case js_Number s of Fin r \<Rightarrow> Some r | NotFinite \<Rightarrow> None)
      | _ \<Rightarrow> None)"

definition int_num :: "unknown \<Rightarrow> int option" where
  "int_num v = map_option floor (num v)"

definition seq_of :: "unknown \<Rightarrow> int" where
  "seq_of v = (case v of Some (JNum (Fin r)) \<Rightarrow> \<lfloor>r\<rfloor> | _ \<Rightarrow> 0)"

text \<open>A text to be sent: cut at the end only.\<close>

definition message_of :: "unknown \<Rightarrow> string" where
  "message_of v = (case v of Some (JStr s) \<Rightarrow> trimEnd s | _ \<Rightarrow> [])"

definition memoryScope :: "unknown \<Rightarrow> MemoryScope option" where
  "memoryScope v =
     (if \<not> is_object v then None
      else case text_of (jprop v ''kind'') of
             None \<Rightarrow> None
           | Some kd \<Rightarrow>
               (if kd = ''global'' then Some Global
                else if kd = ''agent'' then map_option AgentScope (text_of (jprop v ''name''))
                else if kd = ''shared-friend'' then map_option SharedFriend (text_of (jprop v ''fp''))
                else if kd = ''shared-group'' then map_option SharedGroup (text_of (jprop v ''gid''))
                else None))"

definition fpList :: "unknown \<Rightarrow> string list" where
  "fpList v =
     (case v of
        Some (JArr xs) \<Rightarrow> concat (map (\<lambda>x. case x of JStr s \<Rightarrow> (if s = [] then [] else [s]) | _ \<Rightarrow> []) xs)
      | Some (JStr s) \<Rightarrow> filter (\<lambda>w. w \<noteq> []) (map trim (split_on (CHR '','') s))
      | _ \<Rightarrow> [])"

text \<open>
  The body of a POST, from its chunks. An array is an object for this check and has none of the
  properties that are read. \<open>bad_json\<close> is the message of the parser.
\<close>

definition BODY_LIMIT :: nat where "BODY_LIMIT = 256 * 1024"

fun read_chunks :: "nat \<Rightarrow> string list \<Rightarrow> string \<Rightarrow> string option" where
  "read_chunks limit [] acc = Some acc"
| "read_chunks limit (c # cs) acc = (if length (acc @ c) > limit then None else read_chunks limit cs (acc @ c))"

definition readJson :: "string \<Rightarrow> string list \<Rightarrow> api_error + unknown" where
  "readJson bad_json chunks =
     (case read_chunks BODY_LIMIT chunks [] of
        None \<Rightarrow> Inl (EJs ''Error'' ''request body too large'')
      | Some t \<Rightarrow>
          (if chunks = [] then Inr (Some (JObj []))
           else case JSON_parse t of
                  None \<Rightarrow> Inl (EJs ''SyntaxError'' bad_json)
                | Some j \<Rightarrow> Inr (Some (case j of JObj _ \<Rightarrow> j | JArr _ \<Rightarrow> j | _ \<Rightarrow> JObj []))))"

section \<open>The state of the handler\<close>

text \<open>The calls of the network client beyond those of \<open>NetworkClient\<close>.\<close>

record 'n ApiClient =
  cl_net :: "'n NetworkClient"
  cl_status :: "'n \<Rightarrow> BackendStatus"
  cl_createIdentity :: "string \<Rightarrow> ('n, Identity) net_call"
  cl_parseCard :: "string \<Rightarrow> 'n \<Rightarrow> NetworkError + (string \<times> string \<times> string)"
  cl_friends_pending :: "'n \<Rightarrow> NetworkError + PendingRequest list"
  cl_friends_accept :: "string \<Rightarrow> string option \<Rightarrow> ('n, Friend) net_call"
  cl_friends_reject :: "string \<Rightarrow> ('n, unit) net_call"
  cl_friends_set :: "string \<Rightarrow> string option \<Rightarrow> string option \<Rightarrow> ('n, Friend) net_call"
  cl_friends_card :: "string \<Rightarrow> 'n \<Rightarrow> NetworkError + (string \<times> string \<times> string)"
  cl_markRead :: "string \<Rightarrow> int \<Rightarrow> ('n, unit) net_call"
  cl_typing :: "string \<Rightarrow> bool \<Rightarrow> ('n, unit) net_call"
  cl_groups_create :: "string \<Rightarrow> string list \<Rightarrow> GroupProfile option \<Rightarrow> ('n, GroupInfo) net_call"
  cl_groups_markRead :: "string \<Rightarrow> int \<Rightarrow> ('n, unit) net_call"
  cl_groups_leave :: "string \<Rightarrow> ('n, unit) net_call"
  cl_groups_kick :: "string \<Rightarrow> string \<Rightarrow> ('n, unit) net_call"
  cl_groups_pin :: "string \<Rightarrow> string \<Rightarrow> ('n, unit) net_call"
  cl_groups_unpin :: "string \<Rightarrow> string \<Rightarrow> ('n, unit) net_call"
  cl_groups_apply :: "string \<Rightarrow> string option \<Rightarrow> JoinPayment option \<Rightarrow> ('n, string) net_call"
  cl_groups_applications :: "string \<Rightarrow> 'n \<Rightarrow> NetworkError + GroupApplication list"
  cl_groups_approve :: "string \<Rightarrow> string \<Rightarrow> ('n, unit) net_call"
  cl_groups_applicationReject :: "string \<Rightarrow> string \<Rightarrow> ('n, unit) net_call"
  cl_groups_invite :: "string \<Rightarrow> string \<Rightarrow> ('n, unit) net_call"
  cl_relaunch :: "('n, unit) net_call option"

type_synonym 'n gateway = "string \<Rightarrow> string \<Rightarrow> json option \<Rightarrow> 'n \<Rightarrow> (api_error + json) \<times> 'n"

text \<open>
  What a request finds around the handler: the options of \<open>createApiHandler\<close>, the host, the clock and
  random draws, the texts outside Latin-1 (\<open>ax_texts\<close>) and messages of the engine (\<open>ax_broken\<close>,
  \<open>ax_badJson\<close>, \<open>ax_stringify\<close>), the model service, the file system's answers for the protocol file and
  the upgrade module.
\<close>

record 'n ApiOptions =
  ax_client :: "'n ApiClient"
  ax_backend :: string
  ax_home :: string
  ax_settingsNamespace :: string
  ax_defaultTier :: ReplyTier
  ax_autoReplyPerHour :: int
  ax_directSend :: bool
  ax_paygate :: "'n gateway option"
  ax_host :: Host
  ax_draws :: draws
  ax_texts :: "string \<Rightarrow> string"
  ax_broken :: string
  ax_badJson :: string
  ax_stringify :: "json \<Rightarrow> string"
  ax_llm :: "(MemoryScope \<Rightarrow> string \<Rightarrow> StreamChunk list) option"
  ax_plan :: "memory_row list \<Rightarrow> memory_row list"
  ax_mtime :: int
  ax_bytes :: "string \<Rightarrow> int"
  ax_check :: "string + UpgradeCheck"
  ax_profileDir :: "path option"
  ax_spawnFault :: "string option"

datatype ApiFrame =
    FNetwork NetworkEvent
  | FSessions SessionsEvent
  | FGroupOutbound string ConversationEntry
  | FStatus BackendStatus

text \<open>An SSE client: whether its connection still takes writes, and what was written to it.\<close>

record SseClient =
  sc_id :: nat
  sc_open :: bool
  sc_frames :: "ApiFrame list"
  sc_ended :: bool

record 'n Api =
  a_net :: 'n
  a_sessions :: "SessionsState option"
  a_groupSettings :: GroupSettingsStore
  a_protocol :: ProtocolFile
  a_upgrade :: upgrade_state
  a_sse :: "SseClient list"
  a_subscribed :: bool
  a_exitArmed :: bool

abbreviation ax_net :: "'n ApiOptions \<Rightarrow> 'n NetworkClient" where
  "ax_net x \<equiv> cl_net (ax_client x)"

definition write_frame :: "ApiFrame \<Rightarrow> SseClient \<Rightarrow> SseClient" where
  "write_frame f c = c\<lparr>sc_frames := sc_frames c @ [f]\<rparr>"

text \<open>A client whose write throws is dropped.\<close>

definition api_broadcast :: "ApiFrame \<Rightarrow> 'n Api \<Rightarrow> 'n Api" where
  "api_broadcast f a = a\<lparr>a_sse := map (write_frame f) (filter sc_open (a_sse a))\<rparr>"

section \<open>Steps of a handler\<close>

type_synonym ('n, 'a) api = "'n Api \<Rightarrow> (api_error + 'a) \<times> 'n Api"

definition reply :: "'a \<Rightarrow> ('n, 'a) api" where
  "reply v a = (Inr v, a)"

definition fail :: "api_error \<Rightarrow> ('n, 'a) api" where
  "fail e a = (Inl e, a)"

definition bind_api :: "('n, 'a) api \<Rightarrow> ('a \<Rightarrow> ('n, 'b) api) \<Rightarrow> ('n, 'b) api" where
  "bind_api m k a = (case m a of (Inl e, a1) \<Rightarrow> (Inl e, a1) | (Inr v, a1) \<Rightarrow> k v a1)"

definition attempt :: "('n, 'a) api \<Rightarrow> ('n, api_error + 'a) api" where
  "attempt m a = (case m a of (r, a1) \<Rightarrow> (Inr r, a1))"

definition net_do :: "('n, 'a) net_call \<Rightarrow> ('n, 'a) api" where
  "net_do call a =
     (case call (a_net a) of
        (Inl e, n) \<Rightarrow> (Inl (ENet e), a\<lparr>a_net := n\<rparr>)
      | (Inr v, n) \<Rightarrow> (Inr v, a\<lparr>a_net := n\<rparr>))"

definition net_read :: "('n \<Rightarrow> NetworkError + 'a) \<Rightarrow> ('n, 'a) api" where
  "net_read call a = (case call (a_net a) of Inl e \<Rightarrow> (Inl (ENet e), a) | Inr v \<Rightarrow> (Inr v, a))"

definition pay_do :: "'n gateway \<Rightarrow> string \<Rightarrow> string \<Rightarrow> json option \<Rightarrow> ('n, json) api" where
  "pay_do pg method path body a = (case pg method path body (a_net a) of (r, n) \<Rightarrow> (r, a\<lparr>a_net := n\<rparr>))"

definition get_sessions :: "('n, SessionsState option) api" where
  "get_sessions a = (Inr (a_sessions a), a)"

definition broadcast_do :: "ApiFrame \<Rightarrow> ('n, unit) api" where
  "broadcast_do f a = (Inr (), api_broadcast f a)"

text \<open>A call of the sessions service; without the service it has no effect and no answer.\<close>

definition sess_do :: "(SessionsState \<Rightarrow> 'a \<times> SessionsState) \<Rightarrow> ('n, 'a option) api" where
  "sess_do f a =
     (case a_sessions a of
        None \<Rightarrow> (Inr None, a)
      | Some s \<Rightarrow> (case f s of (v, s1) \<Rightarrow> (Inr (Some v), a\<lparr>a_sessions := Some s1\<rparr>)))"

text \<open>A call that also sends through the network client, or fails.\<close>

definition sess_net_do :: "string \<Rightarrow> (SessionsState \<Rightarrow> 'n \<Rightarrow> ((session_error + 'a) \<times> SessionsState) \<times> 'n) \<Rightarrow> SessionsState \<Rightarrow> ('n, 'a) api" where
  "sess_net_do broken f s a =
     (case f s (a_net a) of
        ((Inl e, s1), n) \<Rightarrow> (Inl (session_failure broken e), a\<lparr>a_sessions := Some s1, a_net := n\<rparr>)
      | ((Inr v, s1), n) \<Rightarrow> (Inr v, a\<lparr>a_sessions := Some s1, a_net := n\<rparr>))"

definition sess_call :: "string \<Rightarrow> (SessionsState \<Rightarrow> (session_error + 'a) \<times> SessionsState) \<Rightarrow> SessionsState \<Rightarrow> ('n, 'a) api" where
  "sess_call broken f = sess_net_do broken (\<lambda>s n. (f s, n))"

text \<open>The recurring early returns: a missing field is answered with 400, a missing service with 503.\<close>

definition required :: "'a option \<Rightarrow> string \<Rightarrow> ('a \<Rightarrow> ('n, api_response) api) \<Rightarrow> ('n, api_response) api" where
  "required v m k = (case v of None \<Rightarrow> reply (bad m) | Some t \<Rightarrow> k t)"

definition with_sessions :: "(SessionsState \<Rightarrow> ('n, api_response) api) \<Rightarrow> ('n, api_response) api" where
  "with_sessions k a = (case a_sessions a of None \<Rightarrow> (Inr not_mounted, a) | Some s \<Rightarrow> k s a)"

definition done_ok :: "unit \<Rightarrow> ('n, api_response) api" where
  "done_ok u = reply (ok BOk)"

section \<open>The page's state\<close>

definition friendRow :: "'n ApiOptions \<Rightarrow> SessionsState option \<Rightarrow> Friend \<Rightarrow> FriendRow" where
  "friendRow x sessions f =
     (case sessions of
        None \<Rightarrow> \<lparr>fw_friend = f, fw_tier = ax_defaultTier x, fw_tierExplicit = False, fw_drafts = 0, fw_muted = False\<rparr>
      | Some s \<Rightarrow>
          (let own = fss_get (ss_friendSettings s) (fr_fp f)
           in \<lparr>fw_friend = f, fw_tier = sess_tierOf s (fr_fp f), fw_tierExplicit = (fs_tier own \<noteq> None),
               fw_drafts = ds_count (ss_drafts s) (Some (fr_fp f)), fw_muted = (fs_muted own = Some True)\<rparr>))"

text \<open>Identity, friends, pending requests and groups, and the error that interrupted reading them.\<close>

type_synonym page_network = "Identity option \<times> FriendRow list \<times> PendingRequest list \<times> (GroupInfo \<times> bool) list \<times> string option"

definition group_muted :: "SessionsState option \<Rightarrow> string \<Rightarrow> bool" where
  "group_muted sessions gid = (case sessions of None \<Rightarrow> False | Some s \<Rightarrow> gs_muted (gss_get (ss_groupSettings s) gid))"

definition page_friends :: "'n ApiOptions \<Rightarrow> SessionsState option \<Rightarrow> 'n \<Rightarrow> Identity \<Rightarrow> page_network" where
  "page_friends x sessions n i =
     (case nc_friends_list (ax_net x) n of
        Inl e \<Rightarrow> (Some i, [], [], [], Some (ne_message e))
      | Inr fs \<Rightarrow>
          (case cl_friends_pending (ax_client x) n of
             Inl e \<Rightarrow> (Some i, [], [], [], Some (ne_message e))
           | Inr ps \<Rightarrow>
               (let gs = (case nc_groups_list (ax_net x) n of Inl _ \<Rightarrow> [] | Inr g \<Rightarrow> g);
                    online = (if fs = [] then [] else case nc_presence (ax_net x) (map fr_fp fs) n of Inl _ \<Rightarrow> [] | Inr m \<Rightarrow> m)
                in (Some i, map (\<lambda>f. friendRow x sessions (with_presence online f)) fs, ps,
                    map (\<lambda>g. (g, group_muted sessions (gi_gid g))) gs, None))))"

definition page_network :: "'n ApiOptions \<Rightarrow> SessionsState option \<Rightarrow> 'n \<Rightarrow> page_network" where
  "page_network x sessions n =
     (case nc_identity (ax_net x) n of
        Inl e \<Rightarrow> (None, [], [], [], Some (ne_message e))
      | Inr None \<Rightarrow> (None, [], [], [], None)
      | Inr (Some i) \<Rightarrow> page_friends x sessions n i)"

definition page_agents :: "'n ApiOptions \<Rightarrow> SessionsState option \<Rightarrow> ((string \<times> string option \<times> bool) \<times> SeatAgent option) list" where
  "page_agents x sessions =
     (case sessions of
        None \<Rightarrow> []
      | Some s \<Rightarrow> map (\<lambda>info. (info, List.find (\<lambda>a. sa_name a = fst info) (ar_list (ss_agents s)))) (agentsInfo (ax_host x) s))"

definition api_state :: "'n ApiOptions \<Rightarrow> 'n Api \<Rightarrow> ApiState" where
  "api_state x a =
     (let sessions = a_sessions a; (i, fs, ps, gs, err) = page_network x sessions (a_net a);
          latest = Option.bind sessions (sess_latest (ax_host x))
      in \<lparr>as_backend = ax_backend x, as_status = cl_status (ax_client x) (a_net a), as_home = ax_home x,
          as_settingsNamespace = ax_settingsNamespace x, as_identity = i, as_friends = fs, as_pending = ps, as_groups = gs,
          as_drafts = (case sessions of None \<Rightarrow> [] | Some s \<Rightarrow> ds_list (ss_drafts s) None), as_agents = page_agents x sessions,
          as_sessionId = Option.bind sessions ss_alterId,
          as_running = (case latest of None \<Rightarrow> False | Some (_, r, _) \<Rightarrow> r),
          as_defaultTier = ax_defaultTier x, as_autoReplyPerHour = ax_autoReplyPerHour x, as_directSend = ax_directSend x,
          as_protocolExists = pf_exists (a_protocol a),
          as_legacyFriendSessions = (case sessions of None \<Rightarrow> [] | Some s \<Rightarrow> ss_legacy s), as_error = err\<rparr>)"

definition route_state :: "'n ApiOptions \<Rightarrow> ('n, api_response) api" where
  "route_state x a = (Inr (ok (BState (api_state x a))), a)"

section \<open>Identity, friends and mail\<close>

definition route_wallet :: "'n ApiOptions \<Rightarrow> ('n, api_response) api" where
  "route_wallet x =
     (case ax_paygate x of
        None \<Rightarrow> reply (ok (BWallet False None None))
      | Some pg \<Rightarrow> bind_api (attempt (pay_do pg ''GET'' ''/v2/pay/wallet'' None)) (\<lambda>r. case r of
            Inl e \<Rightarrow> reply (ok (BWallet True None (Some (error_string e))))
          | Inr w \<Rightarrow> reply (ok (BWallet True
              (Some (JObj (obj_fields (map (\<lambda>k. (k, jprop (Some w) k)) [''address'', ''network'', ''balance_usdc'', ''balance_eth''])))) None))))"

definition route_identity_create :: "'n ApiOptions \<Rightarrow> unknown \<Rightarrow> ('n, api_response) api" where
  "route_identity_create x body =
     required (text_of (jprop body ''name'')) ''name must not be empty'' (\<lambda>name.
       bind_api (net_do (cl_createIdentity (ax_client x) name)) (\<lambda>i. reply (ok (BIdentity i))))"

definition route_card_parse :: "'n ApiOptions \<Rightarrow> unknown \<Rightarrow> ('n, api_response) api" where
  "route_card_parse x body =
     required (text_of (jprop body ''uri'')) ''uri must not be empty'' (\<lambda>uri.
       bind_api (net_read (cl_parseCard (ax_client x) uri)) (\<lambda>c. reply (ok (BCard c))))"

definition route_friends_add :: "'n ApiOptions \<Rightarrow> unknown \<Rightarrow> ('n, api_response) api" where
  "route_friends_add x body =
     required (text_of (jprop body ''card_uri'')) ''card_uri must not be empty'' (\<lambda>uri.
       bind_api (net_do (nc_friends_add (ax_net x) uri (text_of (jprop body ''note'')))) (\<lambda>f. reply (ok (BFriend f))))"

definition note_friend :: "Friend \<Rightarrow> ('n, unit option) api" where
  "note_friend f = sess_do (\<lambda>s. ((), face_noteFriend f s))"

definition reply_row :: "'n ApiOptions \<Rightarrow> Friend \<Rightarrow> ('n, api_response) api" where
  "reply_row x f = bind_api get_sessions (\<lambda>s. reply (ok (BFriendRow (friendRow x s f))))"

definition route_friends_accept :: "'n ApiOptions \<Rightarrow> unknown \<Rightarrow> ('n, api_response) api" where
  "route_friends_accept x body =
     required (text_of (jprop body ''id'')) ''id must not be empty'' (\<lambda>i.
       bind_api (net_do (cl_friends_accept (ax_client x) i (text_of (jprop body ''note'')))) (\<lambda>f.
         bind_api (note_friend f) (\<lambda>_. reply_row x f)))"

definition route_friends_reject :: "'n ApiOptions \<Rightarrow> unknown \<Rightarrow> ('n, api_response) api" where
  "route_friends_reject x body =
     required (text_of (jprop body ''id'')) ''id must not be empty'' (\<lambda>i. bind_api (net_do (cl_friends_reject (ax_client x) i)) done_ok)"

definition tier_ok :: "unknown \<Rightarrow> bool" where
  "tier_ok v \<longleftrightarrow> v = None \<or> v = Some JNull \<or> v = Some (JStr []) \<or> isReplyTier v"

definition set_remark :: "'n ApiOptions \<Rightarrow> string \<Rightarrow> string option \<Rightarrow> string option \<Rightarrow> Friend \<Rightarrow> ('n, Friend) api" where
  "set_remark x fp note protocol f =
     (if note = None \<and> protocol = None then reply f
      else bind_api (net_do (cl_friends_set (ax_client x) fp note protocol)) (\<lambda>f1. bind_api (note_friend f1) (\<lambda>_. reply f1)))"

definition set_tier :: "'n ApiOptions \<Rightarrow> string \<Rightarrow> unknown \<Rightarrow> ('n, unit) api" where
  "set_tier x fp v =
     (if v = None then reply ()
      else bind_api (sess_do (sess_setTier fp (if isReplyTier v then Some (normalizeTier v (ax_defaultTier x)) else None))) (\<lambda>_. reply ()))"

definition set_muted :: "string \<Rightarrow> unknown \<Rightarrow> ('n, unit) api" where
  "set_muted fp v =
     (case v of
        Some (JBool b) \<Rightarrow> bind_api (sess_do (sess_setFriendMuted fp b)) (\<lambda>_. reply ())
      | _ \<Rightarrow> reply ())"

definition route_friends_set :: "'n ApiOptions \<Rightarrow> unknown \<Rightarrow> ('n, api_response) api" where
  "route_friends_set x body =
     required (text_of (jprop body ''fp'')) ''fp must not be empty'' (\<lambda>fp.
       if \<not> tier_ok (jprop body ''tier'') then reply (bad ''tier must be notify | draft | auto (empty = default)'')
       else bind_api (net_read (nc_friends_list (ax_net x))) (\<lambda>fs.
         case List.find (\<lambda>f. fr_fp f = fp) fs of
           None \<Rightarrow> reply (refusal 404 (- 32002) ''not a friend'')
         | Some f \<Rightarrow>
             bind_api (set_remark x fp (text_of (jprop body ''note'')) (str_opt (jprop body ''protocol'')) f) (\<lambda>f1.
             bind_api (set_tier x fp (jprop body ''tier'')) (\<lambda>_.
             bind_api (set_muted fp (jprop body ''muted'')) (\<lambda>_. reply_row x f1)))))"

definition route_friends_card :: "'n ApiOptions \<Rightarrow> unknown \<Rightarrow> ('n, api_response) api" where
  "route_friends_card x body =
     required (text_of (jprop body ''fp'')) ''fp must not be empty'' (\<lambda>fp.
       bind_api (net_read (cl_friends_card (ax_client x) fp)) (\<lambda>c. reply (ok (BCard c))))"

definition route_markRead :: "'n ApiOptions \<Rightarrow> unknown \<Rightarrow> ('n, api_response) api" where
  "route_markRead x body =
     required (text_of (jprop body ''fp'')) ''fp required'' (\<lambda>fp.
       bind_api (net_do (cl_markRead (ax_client x) fp (seq_of (jprop body ''seq'')))) (\<lambda>_.
         bind_api (sess_do (\<lambda>s. ((), sess_markRead (ax_host x) fp s))) (\<lambda>_. reply (ok BOk))))"

definition route_conversation :: "'n ApiOptions \<Rightarrow> unknown \<Rightarrow> ('n, api_response) api" where
  "route_conversation x body =
     required (text_of (jprop body ''fp'')) ''fp must not be empty'' (\<lambda>fp a.
       bind_api (net_read (nc_conversation (ax_net x) fp (int_num (jprop body ''since'')) (int_num (jprop body ''limit''))))
         (\<lambda>es. reply (ok (BConversation es (Some (nc_peerTyping (ax_net x) fp (a_net a)))))) a)"

definition sendDirect :: "'n ApiOptions \<Rightarrow> string \<Rightarrow> string \<Rightarrow> ('n, ConversationEntry \<times> SendReceipt) api" where
  "sendDirect x fp body =
     bind_api (net_do (sendAndArchive (ax_net x) (ax_draws x 0) fp body False)) (\<lambda>r.
       bind_api (broadcast_do (FSessions (EOutbound fp None (fst r)))) (\<lambda>_. reply r))"

definition route_message_send :: "'n ApiOptions \<Rightarrow> unknown \<Rightarrow> ('n, api_response) api" where
  "route_message_send x body =
     required (text_of (jprop body ''fp'')) ''fp must not be empty'' (\<lambda>fp.
       if message_of (jprop body ''body'') = [] then reply (bad ''body must not be empty'')
       else bind_api (sendDirect x fp (message_of (jprop body ''body''))) (\<lambda>(e, r). reply (ok (BSent e r))))"

definition typing_on :: "unknown \<Rightarrow> bool" where
  "typing_on v \<longleftrightarrow> v \<noteq> Some (JBool False) \<and> v \<noteq> Some (JStr ''false'') \<and> v \<noteq> Some (JNum (Fin 0))"

definition route_typing :: "'n ApiOptions \<Rightarrow> unknown \<Rightarrow> ('n, api_response) api" where
  "route_typing x body =
     required (text_of (jprop body ''fp'')) ''fp must not be empty'' (\<lambda>fp.
       bind_api (net_do (cl_typing (ax_client x) fp (typing_on (jprop body ''on'')))) done_ok)"

definition route_presence :: "'n ApiOptions \<Rightarrow> unknown \<Rightarrow> ('n, api_response) api" where
  "route_presence x body =
     bind_api (net_read (nc_presence (ax_net x) (fpList (jprop body ''fps'')))) (\<lambda>m. reply (ok (BOnline m)))"

section \<open>The alter, seat agents and drafts\<close>

definition instruct_call :: "'n ApiOptions \<Rightarrow> string \<Rightarrow> SessionsState \<Rightarrow> ('n, string \<times> string) api" where
  "instruct_call x t s = sess_net_do (ax_broken x) (\<lambda>s n. (instruct (ax_net x) n (ax_host x) (ax_draws x) t s, n)) s"

definition latest_of :: "'n ApiOptions \<Rightarrow> 'n Api \<Rightarrow> (string \<times> bool \<times> AlterLatest) option" where
  "latest_of x a = Option.bind (a_sessions a) (sess_latest (ax_host x))"

definition route_alter_instruct :: "'n ApiOptions \<Rightarrow> unknown \<Rightarrow> ('n, api_response) api" where
  "route_alter_instruct x body =
     (if message_of (jprop body ''text'') = [] then reply (bad ''text must not be empty'')
      else with_sessions (\<lambda>s. bind_api (instruct_call x (message_of (jprop body ''text'')) s)
        (\<lambda>r a. (Inr (ok (BInstructed r (latest_of x a))), a))))"

definition route_session_latest :: "'n ApiOptions \<Rightarrow> ('n, api_response) api" where
  "route_session_latest x a = (Inr (ok (BLatest (latest_of x a))), a)"

definition route_session_history :: "'n ApiOptions \<Rightarrow> unknown \<Rightarrow> ('n, api_response) api" where
  "route_session_history x body =
     bind_api get_sessions (\<lambda>sessions. reply (ok (BHistory (case sessions of
       None \<Rightarrow> (None, False, EMPTY_CHAT) | Some s \<Rightarrow> sess_history (ax_host x) (int_num (jprop body ''limit'')) s))))"

text \<open>A failed call is answered with 400 and its message.\<close>

definition or_bad :: "('n, 'a) api \<Rightarrow> ('a \<Rightarrow> api_body) \<Rightarrow> ('n, api_response) api" where
  "or_bad m f = bind_api (attempt m) (\<lambda>r. case r of Inl e \<Rightarrow> reply (bad (error_message e)) | Inr v \<Rightarrow> reply (ok (f v)))"

definition route_agent_instruct :: "'n ApiOptions \<Rightarrow> unknown \<Rightarrow> ('n, api_response) api" where
  "route_agent_instruct x body =
     required (text_of (jprop body ''name'')) ''name must not be empty'' (\<lambda>name.
       if message_of (jprop body ''text'') = [] then reply (bad ''text must not be empty'')
       else with_sessions (\<lambda>s. or_bad (sess_net_do (ax_broken x) (\<lambda>s n.
          (instructAgent (ax_net x) n (ax_host x) (ax_draws x) name (message_of (jprop body ''text'')) s, n)) s) BAgentInstructed))"

definition route_agent_history :: "'n ApiOptions \<Rightarrow> unknown \<Rightarrow> ('n, api_response) api" where
  "route_agent_history x body =
     required (text_of (jprop body ''name'')) ''name must not be empty'' (\<lambda>name.
       bind_api get_sessions (\<lambda>sessions. reply (ok (BHistory (case sessions of
         None \<Rightarrow> (None, False, EMPTY_CHAT)
       | Some s \<Rightarrow> agentHistory (ax_host x) name (int_num (jprop body ''limit'')) (text_of (jprop body ''gid'')) s)))))"

definition route_drafts_list :: "unknown \<Rightarrow> ('n, api_response) api" where
  "route_drafts_list body =
     bind_api get_sessions (\<lambda>sessions. reply (ok (BDrafts (case sessions of
       None \<Rightarrow> [] | Some s \<Rightarrow> ds_list (ss_drafts s) (text_of (jprop body ''fp''))))))"

definition decide_call :: "'n ApiOptions \<Rightarrow> string \<Rightarrow> decision \<Rightarrow> SessionsState \<Rightarrow> ('n, api_response) api" where
  "decide_call x i d s =
     bind_api (sess_net_do (ax_broken x) (\<lambda>s n. decideDraft (ax_net x) (ax_host x) (ax_draws x) i d s n) s)
       (\<lambda>(dr, e). reply (ok (BDecided dr e)))"

definition route_drafts_decide :: "'n ApiOptions \<Rightarrow> unknown \<Rightarrow> ('n, api_response) api" where
  "route_drafts_decide x body =
     required (text_of (jprop body ''id'')) ''id must not be empty'' (\<lambda>i. with_sessions (\<lambda>s.
       let action = text_of (jprop body ''action'') in
       if action = Some ''approve'' then decide_call x i (Approve (str_opt (jprop body ''body''))) s
       else if action = Some ''reject'' then decide_call x i Reject s
       else if action = Some ''revise''
       then required (text_of (jprop body ''feedback'')) ''feedback must not be empty'' (\<lambda>fb. decide_call x i (Revise fb) s)
       else reply (bad ''action must be approve | reject | revise'')))"

definition route_agents_list :: "'n ApiOptions \<Rightarrow> ('n, api_response) api" where
  "route_agents_list x =
     bind_api get_sessions (\<lambda>sessions. reply (ok (case sessions of
       None \<Rightarrow> BAgents [] [] | Some s \<Rightarrow> BAgents (agentsInfo (ax_host x) s) (ar_list (ss_agents s)))))"

definition flag_on :: "unknown \<Rightarrow> bool" where
  "flag_on v \<longleftrightarrow> v = Some (JBool True) \<or> v = Some (JStr ''true'')"

definition agent_input :: "string \<Rightarrow> unknown \<Rightarrow> SeatAgent" where
  "agent_input name body =
     \<lparr>sa_name = name, sa_preset = text_of (jprop body ''preset''), sa_cwd = text_of (jprop body ''cwd''),
      sa_prompt = text_of (jprop body ''prompt''), sa_approval = flag_on (jprop body ''approval'')\<rparr>"

definition route_agents_set :: "'n ApiOptions \<Rightarrow> unknown \<Rightarrow> ('n, api_response) api" where
  "route_agents_set x body =
     with_sessions (\<lambda>s. required (text_of (jprop body ''name'')) ''name must not be empty'' (\<lambda>name.
       or_bad (sess_call (ax_broken x) (setAgent (ax_host x) (ax_draws x 0) (agent_input name body)) s) BAgent))"

definition route_agents_remove :: "unknown \<Rightarrow> ('n, api_response) api" where
  "route_agents_remove body =
     with_sessions (\<lambda>s. required (text_of (jprop body ''name'')) ''name must not be empty'' (\<lambda>name.
       bind_api (sess_do (removeAgent name)) (\<lambda>r. reply (ok (BAgentRemoved (r = Some True))))))"

section \<open>Memories and the protocol\<close>

definition id_list :: "unknown \<Rightarrow> string list" where
  "id_list v = (case v of Some (JArr xs) \<Rightarrow> concat (map (\<lambda>x. case x of JStr s \<Rightarrow> [s] | _ \<Rightarrow> []) xs) | _ \<Rightarrow> [])"

definition route_memory_cancel :: "unknown \<Rightarrow> ('n, api_response) api" where
  "route_memory_cancel body =
     with_sessions (\<lambda>s. if id_list (jprop body ''ids'') = [] then reply (bad ''ids must name at least one memory'')
       else bind_api (sess_do (cancelMemory (id_list (jprop body ''ids'')))) (\<lambda>k. reply (ok (BRemoved (case k of None \<Rightarrow> 0 | Some n \<Rightarrow> n)))))"

definition given_key :: "unknown \<Rightarrow> string option" where
  "given_key v = (case v of Some (JStr s) \<Rightarrow> nonempty_opt s | _ \<Rightarrow> None)"

definition allow_of :: "unknown \<Rightarrow> AllowScopes" where
  "allow_of body = \<lparr>al_global = is_true (jprop body ''global''), al_agent = given_key (jprop body ''agent''),
     al_friend = given_key (jprop body ''friend''), al_group = given_key (jprop body ''group'')\<rparr>"

definition route_memory_list :: "'n ApiOptions \<Rightarrow> unknown \<Rightarrow> ('n, api_response) api" where
  "route_memory_list x body = with_sessions (\<lambda>s. reply (ok (BMemories (mem_list (ax_plan x) (allow_of body) (ss_memory s)))))"

text \<open>The kind is taken from the wire as it is.\<close>

definition any_kind :: "string option \<Rightarrow> MemoryKind" where
  "any_kind k = (case k of None \<Rightarrow> Fact | Some t \<Rightarrow> (case kind_of t of None \<Rightarrow> OtherKind t | Some kd \<Rightarrow> kd))"

definition scope_message :: string where
  "scope_message = ''scope must be global | agent | shared-friend | shared-group''"

definition route_memory_add :: "'n ApiOptions \<Rightarrow> unknown \<Rightarrow> ('n, api_response) api" where
  "route_memory_add x body =
     with_sessions (\<lambda>s. required (text_of (jprop body ''content'')) ''content must not be empty'' (\<lambda>content.
       required (memoryScope (jprop body ''scope'')) scope_message (\<lambda>scope a.
         case memoryAdd (ax_draws x 0)
                \<lparr>nm_kind = any_kind (text_of (jprop body ''kind'')), nm_content = content, nm_scope = scope, nm_sourceCh = [],
                  nm_sourceRef = None, nm_weight = None, nm_origin = None\<rparr> s of
           (Inl e, s1) \<Rightarrow> (Inr (bad (memory_failure e)), a\<lparr>a_sessions := Some s1\<rparr>)
         | (Inr r, s1) \<Rightarrow> (Inr (ok (BMemory r)), a\<lparr>a_sessions := Some s1\<rparr>))))"

definition update_memory :: "string \<Rightarrow> string \<Rightarrow> MemoryScope option \<Rightarrow> ('n, api_response) api" where
  "update_memory uid content scope = bind_api (sess_do (memoryUpdate uid content scope)) (\<lambda>r. reply (ok (BOkFlag (r = Some True))))"

definition route_memory_update :: "unknown \<Rightarrow> ('n, api_response) api" where
  "route_memory_update body =
     with_sessions (\<lambda>s. required (text_of (jprop body ''uid'')) ''uid and content required'' (\<lambda>uid.
       required (text_of (jprop body ''content'')) ''uid and content required'' (\<lambda>content.
         if jprop body ''scope'' = None then update_memory uid content None
         else required (memoryScope (jprop body ''scope'')) scope_message (\<lambda>scope. update_memory uid content (Some scope)))))"

definition route_memory_remove :: "unknown \<Rightarrow> ('n, api_response) api" where
  "route_memory_remove body =
     with_sessions (\<lambda>s. required (text_of (jprop body ''uid'')) ''uid required'' (\<lambda>uid.
       bind_api (sess_do (memoryRemove uid)) (\<lambda>r. reply (ok (BOkFlag (r = Some True))))))"

definition route_memory_summarize :: "'n ApiOptions \<Rightarrow> unknown \<Rightarrow> ('n, api_response) api" where
  "route_memory_summarize x body =
     with_sessions (\<lambda>s. required (text_of (jprop body ''gid'')) ''gid required'' (\<lambda>gid a.
       (Inr (ok BOk), a\<lparr>a_sessions := Some (summarizeGroupMemories (ax_net x) (a_net a) (ax_llm x) (ax_plan x) (ax_draws x) gid s)\<rparr>)))"

definition route_protocol_get :: "('n, api_response) api" where
  "route_protocol_get a =
     (case pf_read (a_protocol a) of (t, p) \<Rightarrow> (Inr (ok (BProtocol t (Some (pf_exists p)))), a\<lparr>a_protocol := p\<rparr>))"

definition route_protocol_set :: "'n ApiOptions \<Rightarrow> unknown \<Rightarrow> ('n, api_response) api" where
  "route_protocol_set x body =
     required (str_opt (jprop body ''text'')) ''text must be a string'' (\<lambda>t a.
       case pf_read (pf_write (ax_mtime x) (ax_bytes x t) t (a_protocol a)) of
         (r, p) \<Rightarrow> (Inr (ok (BProtocol r None)), a\<lparr>a_protocol := p\<rparr>))"

text \<open>A kind outside the union type reaches the store.\<close>

lemma memory_kind_unchecked: "any_kind (Some ''mood'') = OtherKind ''mood''"
  by code_simp

end
