(* ===== verification/Http_Api.thy ===== *)
theory Http_Api
  imports Api_Core
begin

text \<open>
  The browser-facing HTTP API, \<^verbatim>\<open>src/dsh/packages/dsh/src/api/index.ts\<close>, second part: the group and upgrade
  routes, the dispatch, the request handler with its status codes, and the SSE stream. A path and the entries
  of the query string are as the URL parser answers them; the bytes of a body are read as characters.
  An answer to \<open>upgrade.run\<close> is given when the installer has reported (\<open>upgrade_settled\<close>).
  Properties: reading requests change nothing, requests with a missing field are refused without effect, and a
  paid group admits an applicant only after the gateway confirmed the published price. What holds over
  a whole life of the handler is in \<open>Api_Service\<close>.
\<close>

section \<open>Groups\<close>

definition profile_of_body :: "unknown \<Rightarrow> GroupProfile option" where
  "profile_of_body v =
     (case v of
        Some (JObj kvs) \<Rightarrow> Some (al_set ''speakAgents'' (JBool (is_true (jprop v ''speakAgents'')))
                                 (al_set ''speakHumans'' (JBool (is_true (jprop v ''speakHumans''))) kvs))
      | _ \<Rightarrow> None)"

definition template_profile :: "string option \<Rightarrow> GroupProfile option \<Rightarrow> GroupProfile option" where
  "template_profile template profile =
     (case template of
        None \<Rightarrow> profile
      | Some t \<Rightarrow>
          (case profile of
             None \<Rightarrow> Some [(''speakHumans'', JBool True), (''speakAgents'', JBool True), (''template'', JStr t)]
           | Some p \<Rightarrow> (if al_get p ''template'' = None then Some (al_set ''template'' (JStr t) p) else Some p)))"

definition route_group_create :: "'n ApiOptions \<Rightarrow> unknown \<Rightarrow> ('n, api_response) api" where
  "route_group_create x body =
     required (text_of (jprop body ''name'')) ''name must not be empty'' (\<lambda>name.
       if fpList (jprop body ''members'') = [] then reply (bad ''members must name at least one friend fingerprint'')
       else bind_api (net_do (cl_groups_create (ax_client x) name (fpList (jprop body ''members''))
                (template_profile (text_of (jprop body ''template'')) (profile_of_body (jprop body ''profile'')))))
              (\<lambda>g. reply (ok (BGroup g))))"

definition need_gid :: "unknown \<Rightarrow> (string \<Rightarrow> ('n, api_response) api) \<Rightarrow> ('n, api_response) api" where
  "need_gid body = required (text_of (jprop body ''gid'')) ''gid must not be empty''"

definition need_gid_and :: "string \<Rightarrow> unknown \<Rightarrow> (string \<Rightarrow> string \<Rightarrow> ('n, api_response) api) \<Rightarrow> ('n, api_response) api" where
  "need_gid_and key body k =
     required (text_of (jprop body ''gid'')) (''gid and '' @ key @ '' must not be empty'') (\<lambda>gid.
       required (text_of (jprop body key)) (''gid and '' @ key @ '' must not be empty'') (k gid))"

definition route_group_get :: "'n ApiOptions \<Rightarrow> unknown \<Rightarrow> ('n, api_response) api" where
  "route_group_get x body =
     need_gid body (\<lambda>gid. bind_api (net_read (nc_groups_info (ax_net x) gid)) (\<lambda>g. reply (ok (BGroup g))))"

definition by_of :: "unknown \<Rightarrow> string option" where
  "by_of v = (if v = Some (JStr ''alter'') then Some ''alter'' else if v = Some (JStr ''owner'') then Some ''owner'' else None)"

definition post_options :: "unknown \<Rightarrow> GroupSendOptions" where
  "post_options body =
     \<lparr>gso_by = by_of (jprop body ''by''), gso_auto = (if is_true (jprop body ''auto'') then Some True else None), gso_agent = None\<rparr>"

text \<open>The stored entry of the post, broadcast when it is found.\<close>

definition announce_post :: "'n ApiOptions \<Rightarrow> string \<Rightarrow> SendReceipt \<Rightarrow> ('n, ConversationEntry option) api" where
  "announce_post x gid r a =
     (case read_back (\<lambda>s l. nc_groups_conversation (ax_net x) gid s l (a_net a)) (sr_seq r) of
        None \<Rightarrow> (Inr None, a)
      | Some e \<Rightarrow> (Inr (Some e), api_broadcast (FGroupOutbound gid e) a))"

definition own_post_hook :: "'n ApiOptions \<Rightarrow> string \<Rightarrow> string \<Rightarrow> ('n, unit) api" where
  "own_post_hook x gid msg a =
     bind_api (sess_do (\<lambda>s. ownGroupPost (ax_net x) (a_net a) (ax_host x) (ax_draws x) gid msg s)) (\<lambda>_. reply ()) a"

definition route_group_send :: "'n ApiOptions \<Rightarrow> unknown \<Rightarrow> ('n, api_response) api" where
  "route_group_send x body =
     need_gid body (\<lambda>gid.
       let msg = message_of (jprop body ''body'') in
       if msg = [] then reply (bad ''body must not be empty'')
       else bind_api (net_do (nc_groups_send (ax_net x) (ax_draws x 0) gid msg (post_options body))) (\<lambda>r.
         bind_api (announce_post x gid r) (\<lambda>e.
         bind_api (if by_of (jprop body ''by'') = Some ''alter'' then reply () else own_post_hook x gid msg) (\<lambda>_.
           reply (ok (BGroupSent r e))))))"

definition route_group_conversation :: "'n ApiOptions \<Rightarrow> unknown \<Rightarrow> ('n, api_response) api" where
  "route_group_conversation x body =
     need_gid body (\<lambda>gid.
       bind_api (net_read (nc_groups_conversation (ax_net x) gid (int_num (jprop body ''since'')) (int_num (jprop body ''limit''))))
         (\<lambda>es. reply (ok (BConversation es None))))"

definition route_group_markRead :: "'n ApiOptions \<Rightarrow> unknown \<Rightarrow> ('n, api_response) api" where
  "route_group_markRead x body =
     need_gid body (\<lambda>gid. bind_api (net_do (cl_groups_markRead (ax_client x) gid (seq_of (jprop body ''seq'')))) done_ok)"

definition route_group_leave :: "'n ApiOptions \<Rightarrow> unknown \<Rightarrow> ('n, api_response) api" where
  "route_group_leave x body = need_gid body (\<lambda>gid. bind_api (net_do (cl_groups_leave (ax_client x) gid)) done_ok)"

definition route_group_kick :: "'n ApiOptions \<Rightarrow> unknown \<Rightarrow> ('n, api_response) api" where
  "route_group_kick x body = need_gid_and ''fp'' body (\<lambda>gid fp. bind_api (net_do (cl_groups_kick (ax_client x) gid fp)) done_ok)"

definition route_group_setProfile :: "'n ApiOptions \<Rightarrow> unknown \<Rightarrow> ('n, api_response) api" where
  "route_group_setProfile x body =
     need_gid body (\<lambda>gid. required (profile_of_body (jprop body ''profile'')) ''profile must be an object'' (\<lambda>p.
       bind_api (net_do (nc_groups_setProfile (ax_net x) gid p)) done_ok))"

definition route_group_pin :: "'n ApiOptions \<Rightarrow> unknown \<Rightarrow> ('n, api_response) api" where
  "route_group_pin x body = need_gid_and ''body'' body (\<lambda>gid b. bind_api (net_do (cl_groups_pin (ax_client x) gid b)) done_ok)"

definition route_group_unpin :: "'n ApiOptions \<Rightarrow> unknown \<Rightarrow> ('n, api_response) api" where
  "route_group_unpin x body = need_gid_and ''id'' body (\<lambda>gid i. bind_api (net_do (cl_groups_unpin (ax_client x) gid i)) done_ok)"

definition route_group_lookup :: "'n ApiOptions \<Rightarrow> unknown \<Rightarrow> ('n, api_response) api" where
  "route_group_lookup x body =
     required (text_of (jprop body ''uri'')) ''uri must not be empty'' (\<lambda>uri.
       bind_api (net_read (nc_groups_lookup (ax_net x) uri)) (\<lambda>c. reply (ok (BGroupCard c))))"

section \<open>Paid groups\<close>

text \<open>Address and price a card asks for.\<close>

definition card_terms :: "GroupCardView \<Rightarrow> (string \<times> string) option" where
  "card_terms c =
     (if gc_join c = ''paid'' then (case (gc_joinAddr c, gc_joinPrice c) of (Some ad, Some pr) \<Rightarrow> Some (ad, pr) | _ \<Rightarrow> None)
      else map_option (\<lambda>i. (pj_addr i, pj_price i)) (paidJoinConfig (Some
        \<lparr>pp_joinPrice = gc_joinPrice c, pp_joinAddr = gc_joinAddr c, pp_rules = gc_rulesHead c, pp_join = Some (gc_join c)\<rparr>)))"

definition wallet_proof :: "'n gateway \<Rightarrow> string \<Rightarrow> ('n, JoinPaymentProof option) api" where
  "wallet_proof pg tx =
     bind_api (attempt (pay_do pg ''POST'' ''/v2/pay/join.receipt'' (obj_of [(''tx_hash'', JStr tx)]))) (\<lambda>r. reply (case r of
         Inl _ \<Rightarrow> None
       | Inr rec \<Rightarrow>
           (case (str_opt (jprop (Some rec) ''message''), str_opt (jprop (Some rec) ''pubkey''), str_opt (jprop (Some rec) ''sig'')) of
              (Some m, Some p, Some g) \<Rightarrow> Some \<lparr>jpp_message = m, jpp_pubkey = p, jpp_sig = g\<rparr>
            | _ \<Rightarrow> None)))"

definition pay_and_apply :: "'n ApiOptions \<Rightarrow> 'n gateway \<Rightarrow> string \<Rightarrow> string \<Rightarrow> string \<Rightarrow> ('n, api_response) api" where
  "pay_and_apply x pg uri addr price =
     bind_api (pay_do pg ''POST'' ''/v2/pay/transfer'' (obj_of [(''to_address'', JStr addr), (''amount_usdc'', JStr price)])) (\<lambda>tx.
       case str_opt (jprop (Some tx) ''tx_hash'') of
         None \<Rightarrow> reply (refusal 400 (- 32603) (''payment failed: '' @ ax_stringify x tx))
       | Some h \<Rightarrow>
           (let amount = str_field tx ''amount'' price in
            bind_api (wallet_proof pg h) (\<lambda>proof'.
            bind_api (net_do (cl_groups_apply (ax_client x) uri (Some (''paid '' @ amount @ '' USDC to join''))
                (Some \<lparr>jp_tx_hash = h, jp_amount = amount, jp_to = addr, jp_payer = str_opt (jprop (Some tx) ''from''),
                       jp_proof = proof', jp_note = None\<rparr>))) (\<lambda>gid.
              reply (ok (BPaid gid h amount))))))"

definition route_group_paidJoin :: "'n ApiOptions \<Rightarrow> unknown \<Rightarrow> ('n, api_response) api" where
  "route_group_paidJoin x body =
     required (text_of (jprop body ''uri'')) ''uri must not be empty'' (\<lambda>uri.
       bind_api (net_read (nc_groups_lookup (ax_net x) uri)) (\<lambda>card'.
         case card' of
           None \<Rightarrow> reply (refusal 400 (- 32004) (ax_texts x ''no-card''))
         | Some c \<Rightarrow>
             (case card_terms c of
                None \<Rightarrow> reply (refusal 400 (- 32602) (ax_texts x ''not-paid''))
              | Some (addr, price) \<Rightarrow>
                  (case ax_paygate x of
                     None \<Rightarrow> reply (refusal 400 (- 32603) (ax_texts x ''no-wallet''))
                   | Some pg \<Rightarrow> pay_and_apply x pg uri addr price))))"

text \<open>The payment a client attaches: absent, incomplete (with the message), or complete.\<close>

definition proof_of_body :: "unknown \<Rightarrow> (string + JoinPaymentProof option)" where
  "proof_of_body v =
     (if \<not> is_object v then Inr None
      else case (text_of (jprop v ''message''), text_of (jprop v ''pubkey''), text_of (jprop v ''sig'')) of
             (Some m, Some p, Some g) \<Rightarrow> Inr (Some \<lparr>jpp_message = m, jpp_pubkey = p, jpp_sig = g\<rparr>)
           | _ \<Rightarrow> Inl ''payment proof must carry message, pubkey and sig'')"

definition payment_of_body :: "unknown \<Rightarrow> (string + JoinPayment option)" where
  "payment_of_body v =
     (if \<not> is_object v then Inr None
      else case (text_of (jprop v ''tx_hash''), text_of (jprop v ''amount''), text_of (jprop v ''to'')) of
             (Some tx, Some amount, Some to) \<Rightarrow>
               (case proof_of_body (jprop v ''proof'') of
                  Inl m \<Rightarrow> Inl m
                | Inr pf \<Rightarrow> Inr (Some \<lparr>jp_tx_hash = tx, jp_amount = amount, jp_to = to, jp_payer = text_of (jprop v ''payer''),
                                      jp_proof = pf, jp_note = None\<rparr>))
           | _ \<Rightarrow> Inl ''payment must carry tx_hash, amount and to'')"

definition route_group_apply :: "'n ApiOptions \<Rightarrow> unknown \<Rightarrow> ('n, api_response) api" where
  "route_group_apply x body =
     required (text_of (jprop body ''uri'')) ''uri must not be empty'' (\<lambda>uri.
       case payment_of_body (jprop body ''payment'') of
         Inl m \<Rightarrow> reply (bad m)
       | Inr payment \<Rightarrow>
           bind_api (net_do (cl_groups_apply (ax_client x) uri (text_of (jprop body ''note'')) payment)) (\<lambda>gid. reply (ok (BApplied gid))))"

definition route_group_applications :: "'n ApiOptions \<Rightarrow> unknown \<Rightarrow> ('n, api_response) api" where
  "route_group_applications x body =
     need_gid body (\<lambda>gid. bind_api (net_read (cl_groups_applications (ax_client x) gid)) (\<lambda>l. reply (ok (BApplications l))))"

definition paid_config_of :: "GroupInfo \<Rightarrow> PaidJoinInfo option" where
  "paid_config_of g =
     paidJoinConfig (map_option (\<lambda>p. let j = Some (JObj p) in
       \<lparr>pp_joinPrice = str_opt (jprop j ''joinPrice''), pp_joinAddr = str_opt (jprop j ''joinAddr''), pp_rules = str_opt (jprop j ''rules''),
        pp_join = str_opt (jprop j ''join'')\<rparr>) (gi_profile g))"

definition verify_body :: "PaidJoinInfo \<Rightarrow> JoinPayment \<Rightarrow> json option" where
  "verify_body c p = Some (JObj (obj_fields
     [(''tx_hash'', jstr (jp_tx_hash p)), (''to'', jstr (pj_addr c)), (''amount'', jstr (pj_price c)),
      (''payer'', map_option JStr (jp_payer p)), (''proof'', map_option proof_json (jp_proof p))]))"

text \<open>A refusal, or nothing when the payment was confirmed.\<close>

definition verify_payment :: "'n ApiOptions \<Rightarrow> string \<Rightarrow> string \<Rightarrow> PaidJoinInfo \<Rightarrow> ('n, api_response option) api" where
  "verify_payment x gid fp c =
     bind_api (net_read (cl_groups_applications (ax_client x) gid)) (\<lambda>apps.
       case Option.bind (List.find (\<lambda>p. gap_fp p = fp) apps) gap_payment of
         None \<Rightarrow> reply (Some (refusal 400 (- 32602) (ax_texts x ''no-payment'')))
       | Some p \<Rightarrow>
           (case ax_paygate x of
              None \<Rightarrow> reply (Some (refusal 400 (- 32603) (ax_texts x ''no-gateway'')))
            | Some pg \<Rightarrow> bind_api (pay_do pg ''POST'' ''/v2/pay/join.verify'' (verify_body c p)) (\<lambda>v.
                reply (if is_true (jprop (Some v) ''valid'') then None
                       else Some (refusal 400 (- 32602) (''paid-join: the applicant payment failed on-chain verification ('' @
                              str_field v ''reason'' ''invalid'' @ ''); cannot approve.''))))))"

text \<open>The notice to the group; the applications are read again, after the approval.\<close>

definition joiner_name :: "'n ApiOptions \<Rightarrow> string \<Rightarrow> GroupApplication option \<Rightarrow> string" where
  "joiner_name x fp app =
     (case app of
        Some p \<Rightarrow> (if gap_name p \<noteq> [] then gap_name p else if length fp > 10 then take 10 fp @ ax_texts x ''ellipsis'' else fp)
      | None \<Rightarrow> (if length fp > 10 then take 10 fp @ ax_texts x ''ellipsis'' else fp))"

definition join_notice :: "'n ApiOptions \<Rightarrow> string \<Rightarrow> string \<Rightarrow> PaidJoinInfo \<Rightarrow> ('n, SendReceipt) api" where
  "join_notice x gid fp c =
     bind_api (net_read (cl_groups_applications (ax_client x) gid)) (\<lambda>apps.
       let app = List.find (\<lambda>p. gap_fp p = fp) apps;
           amount = (case Option.bind app gap_payment of Some p \<Rightarrow> jp_amount p | None \<Rightarrow> pj_price c)
       in net_do (nc_groups_send (ax_net x) (ax_draws x 0) gid
            (ax_texts x ''check-mark'' @ '' '' @ joiner_name x fp app @ '' paid '' @ amount @ '' USDC and joined the group'')
            \<lparr>gso_by = Some ''owner'', gso_auto = None, gso_agent = None\<rparr>))"

definition admit_applicant :: "'n ApiOptions \<Rightarrow> string \<Rightarrow> string \<Rightarrow> PaidJoinInfo option \<Rightarrow> ('n, api_response) api" where
  "admit_applicant x gid fp paid =
     bind_api (net_do (cl_groups_approve (ax_client x) gid fp)) (\<lambda>_.
       case paid of
         None \<Rightarrow> reply (ok BOk)
       | Some c \<Rightarrow> bind_api (attempt (join_notice x gid fp c)) (\<lambda>_. reply (ok BOk)))"

definition route_group_approve :: "'n ApiOptions \<Rightarrow> unknown \<Rightarrow> ('n, api_response) api" where
  "route_group_approve x body =
     need_gid_and ''fp'' body (\<lambda>gid fp.
       bind_api (net_read (nc_groups_info (ax_net x) gid)) (\<lambda>g.
         case paid_config_of g of
           None \<Rightarrow> admit_applicant x gid fp None
         | Some c \<Rightarrow> bind_api (verify_payment x gid fp c) (\<lambda>refused.
             case refused of Some r \<Rightarrow> reply r | None \<Rightarrow> admit_applicant x gid fp (Some c))))"

definition route_group_applicationReject :: "'n ApiOptions \<Rightarrow> unknown \<Rightarrow> ('n, api_response) api" where
  "route_group_applicationReject x body =
     need_gid_and ''fp'' body (\<lambda>gid fp. bind_api (net_do (cl_groups_applicationReject (ax_client x) gid fp)) done_ok)"

definition route_group_invite :: "'n ApiOptions \<Rightarrow> unknown \<Rightarrow> ('n, api_response) api" where
  "route_group_invite x body = need_gid_and ''fp'' body (\<lambda>gid fp. bind_api (net_do (cl_groups_invite (ax_client x) gid fp)) done_ok)"

section \<open>Group settings\<close>

definition mode_of :: "unknown \<Rightarrow> GroupAlterMode option" where
  "mode_of v = (if v = Some (JStr ''always'') then Some MAlways else if v = Some (JStr ''mention'') then Some MMention else None)"

definition voice_of_body :: "unknown \<Rightarrow> voice_patch option" where
  "voice_of_body v =
     (case jprop v ''name'' of
        Some (JStr name) \<Rightarrow>
          (if \<not> is_object v \<or> name = [] then None
           else Some \<lparr>vp_name = name, vp_on = flag_on (jprop v ''on''),
             vp_commanders = (case jprop v ''commanders'' of Some (JArr l) \<Rightarrow> Some (fpList (Some (JArr l))) | _ \<Rightarrow> None)\<rparr>)
      | _ \<Rightarrow> None)"

definition duty_of_body :: "unknown \<Rightarrow> duty_patch" where
  "duty_of_body v = (case v of Some JNull \<Rightarrow> DutyNull | Some (JStr s) \<Rightarrow> (if s = [] then DutyNull else DutySet s) | _ \<Rightarrow> DutyKeep)"

definition bool_of_body :: "unknown \<Rightarrow> bool option" where
  "bool_of_body v = (case v of Some (JBool b) \<Rightarrow> Some b | _ \<Rightarrow> None)"

definition patch_of_body :: "unknown \<Rightarrow> GroupSettingsPatch" where
  "patch_of_body body =
     \<lparr>gp_alter = (if jprop body ''alter'' = None then None else Some (flag_on (jprop body ''alter''))), gp_mode = mode_of (jprop body ''mode''),
      gp_voice = voice_of_body (jprop body ''voice''), gp_duty = duty_of_body (jprop body ''duty''), gp_muted = bool_of_body (jprop body ''muted'')\<rparr>"

text \<open>The sessions service's store when it is mounted, the handler's own otherwise.\<close>

definition write_settings :: "string \<Rightarrow> GroupSettingsPatch \<Rightarrow> 'n Api \<Rightarrow> GroupSettings \<times> 'n Api" where
  "write_settings gid patch a =
     (case a_sessions a of
        Some s \<Rightarrow> (case sess_setGroupVoices gid patch s of (v, s1) \<Rightarrow> (v, a\<lparr>a_sessions := Some s1\<rparr>))
      | None \<Rightarrow> (case gss_set gid patch (a_groupSettings a) of (v, g) \<Rightarrow> (v, a\<lparr>a_groupSettings := g\<rparr>)))"

definition read_settings :: "string \<Rightarrow> 'n Api \<Rightarrow> GroupSettings" where
  "read_settings gid a =
     (case a_sessions a of Some s \<Rightarrow> gss_get (ss_groupSettings s) gid | None \<Rightarrow> gss_get (a_groupSettings a) gid)"

definition load_settings :: "'n Api \<Rightarrow> 'n Api" where
  "load_settings a = (if gss_loaded (a_groupSettings a) then a else a\<lparr>a_groupSettings := gss_load (a_groupSettings a)\<rparr>)"

definition route_group_settings :: "string \<Rightarrow> unknown \<Rightarrow> ('n, api_response) api" where
  "route_group_settings method body =
     need_gid body (\<lambda>gid a0.
       let a = load_settings a0 in
       if method = ''POST'' \<and> patch_of_body body \<noteq> no_patch
       then (case write_settings gid (patch_of_body body) a of (v, a1) \<Rightarrow> (Inr (ok (BGroupSettings True v)), a1))
       else (Inr (ok (BGroupSettings False (read_settings gid a))), a))"

section \<open>Upgrade\<close>

definition route_upgrade_check :: "'n ApiOptions \<Rightarrow> ('n, api_response) api" where
  "route_upgrade_check x = (case ax_check x of Inl m \<Rightarrow> fail (EJs ''Error'' m) | Inr c \<Rightarrow> reply (ok (BUpgradeCheck c)))"

text \<open>An answer now, or when the installer run has ended.\<close>

datatype api_outcome = Answered api_response | AwaitUpgrade nat

definition start_upgrade :: "'n ApiOptions \<Rightarrow> string \<Rightarrow> string option \<Rightarrow> ('n, api_outcome) api" where
  "start_upgrade x version registry a =
     (if us_inflight (a_upgrade a) then (Inr (Answered (refusal 409 (- 32000) ''an upgrade is already running'')), a)
      else case runUpgrade version registry (ax_profileDir x) (ax_spawnFault x) (a_upgrade a) of
             (Inl m, u) \<Rightarrow> (Inl (EJs ''Error'' m), a\<lparr>a_upgrade := u\<rparr>)
           | (Inr i, u) \<Rightarrow> (Inr (AwaitUpgrade i), a\<lparr>a_upgrade := u\<rparr>))"

definition route_upgrade_run :: "'n ApiOptions \<Rightarrow> unknown \<Rightarrow> ('n, api_outcome) api" where
  "route_upgrade_run x body =
     (case text_of (jprop body ''version'') of
        None \<Rightarrow> reply (Answered (bad ''version must be strict semver (X.Y.Z)''))
      | Some version \<Rightarrow>
          (if \<not> isValidVersion version then reply (Answered (bad ''version must be strict semver (X.Y.Z)''))
           else (let registry = text_of (jprop body ''registry'') in
             if (case registry of None \<Rightarrow> False | Some r \<Rightarrow> r \<notin> set UPGRADE_REGISTRIES)
             then reply (Answered (bad ''registry not in the allowed list''))
             else start_upgrade x version registry)))"

text \<open>The rest of the route once run \<open>i\<close> has a result; until then there is no answer.\<close>

definition relaunch_host :: "'n ApiOptions \<Rightarrow> ('n, bool) api" where
  "relaunch_host x =
     (case cl_relaunch (ax_client x) of
        None \<Rightarrow> reply False
      | Some call \<Rightarrow> bind_api (attempt (net_do call)) (\<lambda>r. reply (\<not> isl r)))"

definition upgrade_settled :: "'n ApiOptions \<Rightarrow> nat \<Rightarrow> 'n Api \<Rightarrow> api_response option \<times> 'n Api" where
  "upgrade_settled x i a =
     (case (if i < length (us_runs (a_upgrade a)) then ur_result (us_runs (a_upgrade a) ! i) else None) of
        None \<Rightarrow> (None, a)
      | Some r \<Rightarrow>
          (if \<not> rr_ok r then (Some (ok (BUpgradeRun r False)), a)
           else case relaunch_host x a of
                  (Inr True, a1) \<Rightarrow> (Some (ok (BUpgradeRun r True)), a1\<lparr>a_exitArmed := True\<rparr>)
                | (_, a1) \<Rightarrow> (Some (ok (BUpgradeRun r False)), a1)))"

section \<open>Dispatch\<close>

definition now :: "('n, api_response) api \<Rightarrow> ('n, api_outcome) api" where
  "now m = bind_api m (\<lambda>r. reply (Answered r))"

definition page_routes :: "'n ApiOptions \<Rightarrow> unknown \<Rightarrow> (string \<times> ('n, api_response) api) list" where
  "page_routes x body =
     [(''state'', route_state x), (''pay.wallet'', route_wallet x), (''identity.create'', route_identity_create x body),
      (''card.parse'', route_card_parse x body), (''friends.add'', route_friends_add x body), (''friends.accept'', route_friends_accept x body),
      (''friends.reject'', route_friends_reject x body), (''friends.set'', route_friends_set x body), (''friends.card'', route_friends_card x body),
      (''conversation.markRead'', route_markRead x body), (''conversation.get'', route_conversation x body),
      (''message.send'', route_message_send x body), (''message.typing'', route_typing x body), (''presence'', route_presence x body),
      (''alter.instruct'', route_alter_instruct x body), (''session.latest'', route_session_latest x),
      (''session.history'', route_session_history x body), (''agent.instruct'', route_agent_instruct x body),
      (''agent.history'', route_agent_history x body), (''drafts.list'', route_drafts_list body), (''drafts.decide'', route_drafts_decide x body),
      (''agents.list'', route_agents_list x), (''agents.set'', route_agents_set x body), (''agents.remove'', route_agents_remove body),
      (''memory.cancel'', route_memory_cancel body), (''memory.list'', route_memory_list x body), (''memory.add'', route_memory_add x body),
      (''memory.update'', route_memory_update body), (''memory.remove'', route_memory_remove body),
      (''memory.summarize'', route_memory_summarize x body)]"

definition group_routes :: "'n ApiOptions \<Rightarrow> string \<Rightarrow> unknown \<Rightarrow> (string \<times> ('n, api_response) api) list" where
  "group_routes x method body =
     [(''group.create'', route_group_create x body), (''group.get'', route_group_get x body), (''group.send'', route_group_send x body),
      (''group.conversation'', route_group_conversation x body), (''group.markRead'', route_group_markRead x body),
      (''group.leave'', route_group_leave x body), (''group.kick'', route_group_kick x body), (''group.setProfile'', route_group_setProfile x body),
      (''group.pin'', route_group_pin x body), (''group.unpin'', route_group_unpin x body), (''group.lookup'', route_group_lookup x body),
      (''group.paidJoin'', route_group_paidJoin x body), (''group.apply'', route_group_apply x body),
      (''group.applications'', route_group_applications x body), (''group.approve'', route_group_approve x body),
      (''group.applicationReject'', route_group_applicationReject x body), (''group.invite'', route_group_invite x body),
      (''group.settings'', route_group_settings method body), (''upgrade.check'', route_upgrade_check x),
      (''protocol.get'', route_protocol_get), (''protocol.set'', route_protocol_set x body)]"

definition handle :: "'n ApiOptions \<Rightarrow> string \<Rightarrow> string \<Rightarrow> unknown \<Rightarrow> ('n, api_outcome) api" where
  "handle x route method body =
     (if route = ''upgrade.run'' then route_upgrade_run x body
      else case map_of (page_routes x body @ group_routes x method body) route of
             Some m \<Rightarrow> now m
           | None \<Rightarrow> reply (Answered (refusal 404 (- 32601) (''unknown route '' @ method @ '' '' @ route))))"

section \<open>Requests\<close>

definition API_PREFIX :: string where "API_PREFIX = ''/soulmirror/api/''"

definition QUERY_ROUTES :: "string list" where
  "QUERY_ROUTES = [''state'', ''conversation.get'', ''presence'', ''session.latest'', ''session.history'', ''protocol.get'', ''drafts.list'',
     ''group.get'', ''group.conversation'', ''group.applications'', ''group.settings'', ''agents.list'', ''agent.history'', ''upgrade.check'', ''pay.wallet'']"

record Request =
  rq_method :: string
  rq_path :: string
  rq_query :: "(string \<times> string) list"
  rq_chunks :: "string list"

datatype http_result = HSent api_response | HStream nat | HAwait nat

definition route_of :: "string \<Rightarrow> string" where
  "route_of path = (if startsWith path API_PREFIX then drop (length API_PREFIX) path else [])"

definition query_body :: "(string \<times> string) list \<Rightarrow> unknown" where
  "query_body q = Some (JObj (fold (\<lambda>(k, v). al_set k (JStr v)) q []))"

definition use_post :: api_response where
  "use_post = refusal 405 (- 32600) (''use POST with application/json (GET only for state / conversation.get / presence / session.latest'' @
     '' / session.history / drafts.list / protocol.get / events)'')"

definition failed_response :: "api_error \<Rightarrow> api_response" where
  "failed_response e = \<lparr>rs_status = (case e of ENet _ \<Rightarrow> 400 | EJs _ _ \<Rightarrow> 500), rs_body = errorBody e\<rparr>"

definition open_stream :: "'n ApiOptions \<Rightarrow> nat \<Rightarrow> 'n Api \<Rightarrow> 'n Api" where
  "open_stream x i a =
     a\<lparr>a_sse := a_sse a @ [\<lparr>sc_id = i, sc_open = True, sc_frames = [FStatus (cl_status (ax_client x) (a_net a))], sc_ended = False\<rparr>]\<rparr>"

definition request_body :: "'n ApiOptions \<Rightarrow> Request \<Rightarrow> api_error + unknown" where
  "request_body x q = (if rq_method q = ''POST'' then readJson (ax_badJson x) (rq_chunks q) else Inr (query_body (rq_query q)))"

text \<open>\<open>i\<close> names the response object of the request.\<close>

definition api_handler :: "'n ApiOptions \<Rightarrow> nat \<Rightarrow> Request \<Rightarrow> 'n Api \<Rightarrow> http_result \<times> 'n Api" where
  "api_handler x i q a =
     (let route = route_of (rq_path q) in
      if route = ''events'' \<and> rq_method q = ''GET'' then (HStream i, open_stream x i a)
      else if rq_method q \<noteq> ''POST'' \<and> \<not> (rq_method q = ''GET'' \<and> route \<in> set QUERY_ROUTES) then (HSent use_post, a)
      else case request_body x q of
             Inl e \<Rightarrow> (HSent (failed_response e), a)
           | Inr body \<Rightarrow>
               (case handle x route (rq_method q) body a of
                  (Inl e, a1) \<Rightarrow> (HSent (failed_response e), a1)
                | (Inr (Answered r), a1) \<Rightarrow> (HSent r, a1)
                | (Inr (AwaitUpgrade k), a1) \<Rightarrow> (HAwait k, a1)))"

text \<open>The connection of a client closed; a network event arrived; the handler is disposed of.\<close>

definition stream_closed :: "nat \<Rightarrow> 'n Api \<Rightarrow> 'n Api" where
  "stream_closed i a = a\<lparr>a_sse := filter (\<lambda>c. sc_id c \<noteq> i) (a_sse a)\<rparr>"

definition network_event :: "NetworkEvent \<Rightarrow> 'n Api \<Rightarrow> 'n Api" where
  "network_event e a = (if a_subscribed a then api_broadcast (FNetwork e) a else a)"

definition api_dispose :: "'n Api \<Rightarrow> SseClient list \<times> 'n Api" where
  "api_dispose a = (map (\<lambda>c. c\<lparr>sc_ended := True\<rparr>) (a_sse a), a\<lparr>a_subscribed := False, a_sse := []\<rparr>)"

section \<open>The in-memory backend behind the API\<close>

definition card_name :: "Friend \<Rightarrow> string" where
  "card_name f = (case fr_cardName f of None \<Rightarrow> fr_name f | Some c \<Rightarrow> c)"

definition fake_friends_card :: "string \<Rightarrow> FakeNet \<Rightarrow> NetworkError + (string \<times> string \<times> string)" where
  "fake_friends_card fp n =
     (case al_get (fn_friends n) fp of
        None \<Rightarrow> not_a_friend
      | Some f \<Rightarrow> Inr (fr_fp f, card_name f, ''soulmirror://card?v=1&pk=FAKE-'' @ fr_fp f @ ''&xpk=FAKE&name='' @ encodeURIComponent (card_name f)))"

definition fake_typing :: "string \<Rightarrow> bool \<Rightarrow> (FakeNet, unit) net_call" where
  "fake_typing to on n = (if al_get (fn_friends n) to = None then (not_a_friend, n) else (Inr (), n))"

definition fake_groups_applications :: "string \<Rightarrow> FakeNet \<Rightarrow> NetworkError + GroupApplication list" where
  "fake_groups_applications gid n = (case al_get (fn_groups n) gid of None \<Rightarrow> unknown_group | Some g \<Rightarrow> Inr (fg_applications g))"

definition ready_status :: BackendStatus where
  "ready_status = \<lparr>bs_state = BReady, bs_pid = None, bs_restarts = 0, bs_lastError = None, bs_relay = None, bs_home = None, bs_protocol = None,
     bs_version = None, bs_binary = None, bs_binarySource = None\<rparr>"

definition fake_api_client :: "Env \<Rightarrow> FakeNet ApiClient" where
  "fake_api_client env =
     \<lparr>cl_net = fake_client, cl_status = (\<lambda>_. ready_status), cl_createIdentity = fake_createIdentity,
      cl_parseCard = (\<lambda>uri n. case fake_parseCard uri n of Inl e \<Rightarrow> Inl e | Inr (fp, name) \<Rightarrow> Inr (fp, name, uri)),
      cl_friends_pending = (\<lambda>n. Inr (map snd (fn_pending n))), cl_friends_accept = fake_friends_accept, cl_friends_reject = fake_friends_reject,
      cl_friends_set = fake_friends_set, cl_friends_card = fake_friends_card, cl_markRead = (\<lambda>fp _. fake_markRead fp), cl_typing = fake_typing,
      cl_groups_create = fake_groups_create env, cl_groups_markRead = (\<lambda>gid _. fake_groups_markRead gid), cl_groups_leave = fake_groups_leave,
      cl_groups_kick = fake_groups_kick, cl_groups_pin = fake_groups_pin env, cl_groups_unpin = fake_groups_unpin,
      cl_groups_apply = (\<lambda>uri _ _. fake_groups_apply env uri), cl_groups_applications = fake_groups_applications,
      cl_groups_approve = fake_groups_approve, cl_groups_applicationReject = fake_groups_applicationReject, cl_groups_invite = fake_groups_invite,
      cl_relaunch = None\<rparr>"

definition fake_options :: "FakeNet ApiOptions" where
  "fake_options =
     \<lparr>ax_client = fake_api_client (sample_draws 0), ax_backend = ''fake'', ax_home = ''/home'', ax_settingsNamespace = ''soulmirror'',
      ax_defaultTier = DEFAULT_REPLY_TIER, ax_autoReplyPerHour = 6, ax_directSend = False, ax_paygate = None, ax_host = open_host (\<lambda>_. None),
      ax_draws = sample_draws, ax_texts = (\<lambda>k. k), ax_broken = ''broken'', ax_badJson = ''bad JSON'', ax_stringify = JSON_stringify, ax_llm = None,
      ax_plan = (\<lambda>rows. rows), ax_mtime = 1, ax_bytes = (\<lambda>t. int (length t)), ax_check = Inl ''offline'', ax_profileDir = Some [''p''],
      ax_spawnFault = None\<rparr>"

text \<open>A handler over the in-memory backend, without the sessions service.\<close>

definition fresh_api :: "FakeNet Api" where
  "fresh_api = \<lparr>a_net = createFake False, a_sessions = None, a_groupSettings = gss_load (new_GroupSettingsStore None),
     a_protocol = \<lparr>pf_cache = None, pf_disk = None\<rparr>, a_upgrade = upgrade_idle, a_sse = [], a_subscribed = True, a_exitArmed = False\<rparr>"

definition post :: "string \<Rightarrow> string \<Rightarrow> Request" where
  "post route t = \<lparr>rq_method = ''POST'', rq_path = API_PREFIX @ route, rq_query = [], rq_chunks = [t]\<rparr>"

definition get :: "string \<Rightarrow> (string \<times> string) list \<Rightarrow> Request" where
  "get route q = \<lparr>rq_method = ''GET'', rq_path = API_PREFIX @ route, rq_query = q, rq_chunks = []\<rparr>"

section \<open>What reading requests touch\<close>

named_theorems api_quiet \<open>handlers that leave the state as it was\<close>

definition quiet :: "('n, 'a) api \<Rightarrow> bool" where
  "quiet m \<longleftrightarrow> (\<forall>a. snd (m a) = a)"

lemma quietD: "quiet m \<Longrightarrow> snd (m a) = a"
  by (simp add: quiet_def)

lemma quiet_steps [api_quiet]:
  "quiet (reply v)" "quiet (fail e)" "quiet (net_read call)" "quiet get_sessions"
  by (simp_all add: quiet_def reply_def fail_def net_read_def get_sessions_def split: sum.splits)

lemma quiet_bind [api_quiet]: "quiet m \<Longrightarrow> (\<And>v. quiet (k v)) \<Longrightarrow> quiet (bind_api m k)"
  by (auto simp: quiet_def bind_api_def split: prod.splits sum.splits) (metis snd_conv)+

lemma quiet_required [api_quiet]: "(\<And>v. quiet (k v)) \<Longrightarrow> quiet (required f m k)"
  by (auto simp: required_def api_quiet split: option.splits)

lemma quiet_with_sessions [api_quiet]: "(\<And>s. quiet (k s)) \<Longrightarrow> quiet (with_sessions k)"
  by (auto simp: with_sessions_def quiet_def split: option.splits)

lemma quiet_reads:
  "quiet (route_state x)" "quiet (route_session_latest x)" "quiet (route_session_history x body)" "quiet (route_presence x body)"
  "quiet (route_drafts_list body)" "quiet (route_agents_list x)" "quiet (route_agent_history x body)" "quiet (route_group_get x body)"
  "quiet (route_group_conversation x body)" "quiet (route_group_applications x body)"
  by (simp_all add: route_session_history_def route_presence_def route_drafts_list_def route_agents_list_def route_agent_history_def
      route_group_get_def route_group_conversation_def route_group_applications_def need_gid_def api_quiet)
    (simp_all add: quiet_def route_state_def route_session_latest_def)

lemma quiet_upgrade_check: "quiet (route_upgrade_check x)"
  by (auto simp: route_upgrade_check_def api_quiet split: sum.splits)

lemma quiet_conversation: "quiet (route_conversation x body)"
  unfolding route_conversation_def
  by (rule quiet_required) (auto simp: quiet_def bind_api_def net_read_def reply_def split: sum.splits)

text \<open>All but the network, the SSE clients and what is cached of files is as it was.\<close>

definition keeps :: "'n Api \<Rightarrow> 'n Api \<Rightarrow> bool" where
  "keeps a b \<longleftrightarrow> a_sessions b = a_sessions a \<and> a_upgrade b = a_upgrade a \<and> a_exitArmed b = a_exitArmed a \<and> a_subscribed b = a_subscribed a \<and>
     gss_file (a_groupSettings b) = gss_file (a_groupSettings a) \<and> pf_disk (a_protocol b) = pf_disk (a_protocol a)"

lemma keeps_refl [simp]: "keeps a a"
  by (simp add: keeps_def)

lemma now_state: "snd (now m a) = snd (m a)"
  by (auto simp: now_def bind_api_def reply_def split: prod.splits sum.splits)

lemma pf_read_kept: "pf_disk (snd (pf_read p)) = pf_disk p"
  by (auto simp: pf_read_def split: option.splits)

lemma protocol_get_keeps:
  "keeps a (snd (route_protocol_get a)) \<and> a_net (snd (route_protocol_get a)) = a_net a \<and> a_sse (snd (route_protocol_get a)) = a_sse a"
  using pf_read_kept [of "a_protocol a"] by (simp add: route_protocol_get_def keeps_def split_def)

lemma settings_get_keeps:
  "keeps a (snd (route_group_settings ''GET'' body a)) \<and> a_net (snd (route_group_settings ''GET'' body a)) = a_net a \<and>
     a_sse (snd (route_group_settings ''GET'' body a)) = a_sse a"
  by (auto simp: route_group_settings_def need_gid_def required_def reply_def load_settings_def gss_load_def keeps_def Let_def
      split: option.splits)

lemma wallet_keeps:
  "keeps a (snd (route_wallet x a)) \<and> a_sse (snd (route_wallet x a)) = a_sse a \<and>
     a_net (snd (route_wallet x a)) = (case ax_paygate x of None \<Rightarrow> a_net a | Some pg \<Rightarrow> snd (pg ''GET'' ''/v2/pay/wallet'' None (a_net a)))"
  by (auto simp: route_wallet_def reply_def bind_api_def attempt_def pay_do_def keeps_def split: option.splits prod.splits sum.splits)

text \<open>Each route is dispatched to its own handler.\<close>

lemma route_names:
  "map fst (page_routes x body @ group_routes x method body) =
     [''state'', ''pay.wallet'', ''identity.create'', ''card.parse'', ''friends.add'', ''friends.accept'', ''friends.reject'', ''friends.set'',
      ''friends.card'', ''conversation.markRead'', ''conversation.get'', ''message.send'', ''message.typing'', ''presence'', ''alter.instruct'',
      ''session.latest'', ''session.history'', ''agent.instruct'', ''agent.history'', ''drafts.list'', ''drafts.decide'', ''agents.list'',
      ''agents.set'', ''agents.remove'', ''memory.cancel'', ''memory.list'', ''memory.add'', ''memory.update'', ''memory.remove'', ''memory.summarize'',
      ''group.create'', ''group.get'', ''group.send'', ''group.conversation'', ''group.markRead'', ''group.leave'', ''group.kick'', ''group.setProfile'',
      ''group.pin'', ''group.unpin'', ''group.lookup'', ''group.paidJoin'', ''group.apply'', ''group.applications'', ''group.approve'',
      ''group.applicationReject'', ''group.invite'', ''group.settings'', ''upgrade.check'', ''protocol.get'', ''protocol.set'']"
  by (simp add: page_routes_def group_routes_def)

lemma routes_distinct: "distinct (''upgrade.run'' # map fst (page_routes x body @ group_routes x method body))"
  unfolding route_names by code_simp

lemma handle_route:
  assumes "(route, m) \<in> set (page_routes x body @ group_routes x verb body)"
  shows "handle x route verb body = now m"
proof -
  have "map_of (page_routes x body @ group_routes x verb body) route = Some m"
    using routes_distinct [of x body verb] assms by (simp add: map_of_eq_Some_iff del: map_of_append map_append)
  moreover have "route \<noteq> ''upgrade.run''"
    using routes_distinct [of x body verb] assms by (auto simp del: map_append set_append simp: rev_image_eqI)
  ultimately show ?thesis by (simp only: handle_def if_False option.case)
qed

lemma handle_unknown:
  assumes "route \<notin> set (''upgrade.run'' # map fst (page_routes x body @ group_routes x method body))"
  shows "handle x route method body = reply (Answered (refusal 404 (- 32601) (''unknown route '' @ method @ '' '' @ route)))"
proof -
  have "map_of (page_routes x body @ group_routes x method body) route = None"
    using assms by (simp only: map_of_eq_None_iff set_map list.set insert_iff de_Morgan_disj simp_thms)
  moreover have "route \<noteq> ''upgrade.run''" using assms by simp
  ultimately show ?thesis by (simp only: handle_def if_False option.case)
qed

lemmas route_tables = page_routes_def group_routes_def

text \<open>The routes a GET may take: quiet ones, and three that touch a cache or ask the gateway.\<close>

lemma get_routes:
  "list_all (\<lambda>r. r \<in> {''pay.wallet'', ''protocol.get'', ''group.settings''} \<or>
     (\<exists>m. (r, m) \<in> set (page_routes x body @ group_routes x method body) \<and> quiet m)) QUERY_ROUTES"
  by (simp add: QUERY_ROUTES_def route_tables quiet_reads quiet_upgrade_check quiet_conversation)

lemma handle_get:
  assumes "route \<in> set QUERY_ROUTES"
  obtains (same) "snd (handle x route ''GET'' body a) = a"
  | (wallet) "route = ''pay.wallet''" "snd (handle x route ''GET'' body a) = snd (route_wallet x a)"
  | (protocol) "snd (handle x route ''GET'' body a) = snd (route_protocol_get a)"
  | (settings) "snd (handle x route ''GET'' body a) = snd (route_group_settings ''GET'' body a)"
proof -
  let ?R = "set (page_routes x body @ group_routes x ''GET'' body)"
  have h: "snd (handle x r ''GET'' body a) = snd (m a)" if "(r, m) \<in> ?R" for r m
    using handle_route [OF that] by (simp add: now_state)
  have "(''pay.wallet'', route_wallet x) \<in> ?R" "(''protocol.get'', route_protocol_get) \<in> ?R"
    "(''group.settings'', route_group_settings ''GET'' body) \<in> ?R" by (simp_all add: route_tables)
  note special = this [THEN h]
  from get_routes [of x body "''GET''"] assms consider "route = ''pay.wallet''" | "route = ''protocol.get''" | "route = ''group.settings''"
    | m where "(route, m) \<in> ?R" "quiet m" by (auto simp only: list_all_iff insert_iff empty_iff)
  then show thesis
  proof cases
    case 4
    then show thesis using same h [of route m] quietD [of m a] by simp
  qed (use special wallet protocol settings in simp_all)
qed

text \<open>
  C19. Reading changes nothing. A request that is not a POST leaves the sessions service (with its drafts,
  agents, settings and memories), the upgrade module, the settings file and the protocol file as they were
  and arms no exit. The network is not changed by it, except that the wallet route asks the gateway once for
  the wallet; the SSE clients are the same, except that the events route adds one client, which has been sent
  the status of the backend.
\<close>

theorem reading_changes_nothing:
  assumes "rq_method q \<noteq> ''POST''"
  shows "keeps a (snd (api_handler x i q a)) \<and>
    (a_net (snd (api_handler x i q a)) = a_net a \<or>
      route_of (rq_path q) = ''pay.wallet'' \<and>
      (\<exists>pg. ax_paygate x = Some pg \<and> a_net (snd (api_handler x i q a)) = snd (pg ''GET'' ''/v2/pay/wallet'' None (a_net a)))) \<and>
    (a_sse (snd (api_handler x i q a)) = a_sse a \<or>
      route_of (rq_path q) = ''events'' \<and>
      (\<exists>c. a_sse (snd (api_handler x i q a)) = a_sse a @ [c] \<and> sc_id c = i \<and> sc_frames c = [FStatus (cl_status (ax_client x) (a_net a))]))"
proof (cases "rq_method q = ''GET'' \<and> route_of (rq_path q) \<in> set QUERY_ROUTES")
  case True
  have e: "route_of (rq_path q) \<noteq> ''events''" using True by (auto simp: QUERY_ROUTES_def)
  have s: "snd (api_handler x i q a) = snd (handle x (route_of (rq_path q)) ''GET'' (query_body (rq_query q)) a)"
    using True e by (auto simp: api_handler_def request_body_def Let_def split: prod.splits sum.splits api_outcome.splits)
  from True have "route_of (rq_path q) \<in> set QUERY_ROUTES" ..
  then show ?thesis
  proof (cases rule: handle_get [where x = x and body = "query_body (rq_query q)" and a = a])
    case wallet
    then show ?thesis unfolding s using wallet_keeps [of a x] by (cases "ax_paygate x") simp_all
  qed (simp_all add: s protocol_get_keeps settings_get_keeps)
next
  case False
  then show ?thesis using assms
    by (auto simp: api_handler_def open_stream_def keeps_def Let_def)
qed

theorem reading_changes_nothing_witness:
  "keeps fresh_api (snd (api_handler fake_options 1 (get ''group.settings'' [(''gid'', ''g1''), (''alter'', ''true'')]) fresh_api))"
  using reading_changes_nothing [of "get ''group.settings'' [(''gid'', ''g1''), (''alter'', ''true'')]" fresh_api fake_options 1]
  by (simp add: get_def)

section \<open>Requests with a missing field\<close>

text \<open>The fields each route needs.\<close>

definition required_fields :: "(string \<times> string list) list" where
  "required_fields =
     [(''identity.create'', [''name'']), (''card.parse'', [''uri'']), (''friends.add'', [''card_uri'']), (''friends.accept'', [''id'']),
      (''friends.reject'', [''id'']), (''friends.set'', [''fp'']), (''friends.card'', [''fp'']), (''conversation.markRead'', [''fp'']),
      (''conversation.get'', [''fp'']), (''message.send'', [''fp'', ''body'']), (''message.typing'', [''fp'']), (''alter.instruct'', [''text'']),
      (''agent.instruct'', [''name'', ''text'']), (''agent.history'', [''name'']), (''drafts.decide'', [''id'', ''action'']), (''agents.set'', [''name'']),
      (''agents.remove'', [''name'']), (''memory.add'', [''content'', ''scope'']), (''memory.update'', [''uid'', ''content'']),
      (''memory.remove'', [''uid'']), (''memory.summarize'', [''gid'']), (''group.create'', [''name'', ''members'']), (''group.get'', [''gid'']),
      (''group.send'', [''gid'', ''body'']), (''group.conversation'', [''gid'']), (''group.markRead'', [''gid'']), (''group.leave'', [''gid'']),
      (''group.kick'', [''gid'', ''fp'']), (''group.setProfile'', [''gid'', ''profile'']), (''group.pin'', [''gid'', ''body'']),
      (''group.unpin'', [''gid'', ''id'']), (''group.lookup'', [''uri'']), (''group.paidJoin'', [''uri'']), (''group.apply'', [''uri'']),
      (''group.applications'', [''gid'']), (''group.approve'', [''gid'', ''fp'']), (''group.applicationReject'', [''gid'', ''fp'']),
      (''group.invite'', [''gid'', ''fp'']), (''group.settings'', [''gid'']), (''upgrade.run'', [''version'']), (''protocol.set'', [''text''])]"

text \<open>Answered at once with an error, without effect: 400, or 503 where the sessions service is missing.\<close>

definition refused_by :: "('n, api_outcome) api \<Rightarrow> 'n Api \<Rightarrow> bool" where
  "refused_by m a \<longleftrightarrow> (\<exists>r c t. m a = (Inr (Answered r), a) \<and> rs_body r = BErr c t \<and>
     (rs_status r = 400 \<and> c = - 32602 \<or> rs_status r = 503 \<and> c = - 32603 \<and> a_sessions a = None))"

definition refuses :: "'n Api \<Rightarrow> ('n, api_response) api \<Rightarrow> bool" where
  "refuses a m \<longleftrightarrow> (\<exists>r c t. m a = (Inr r, a) \<and> rs_body r = BErr c t \<and>
     (rs_status r = 400 \<and> c = - 32602 \<or> rs_status r = 503 \<and> c = - 32603 \<and> a_sessions a = None))"

lemma refuses_now: "refuses a m \<Longrightarrow> refused_by (now m) a"
  by (auto simp: refuses_def refused_by_def now_def bind_api_def reply_def)

lemma refuses_bad [simp]: "refuses a (reply (bad m))"
  by (simp add: refuses_def reply_def bad_def refusal_def)

lemma refuses_required [simp]: "refuses a (required f m k) \<longleftrightarrow> (case f of None \<Rightarrow> True | Some v \<Rightarrow> refuses a (k v))"
  by (simp add: required_def split: option.splits)

lemma refuses_sessions: "(\<And>s. refuses a (k s)) \<Longrightarrow> refuses a (with_sessions k)"
  unfolding refuses_def with_sessions_def by (cases "a_sessions a") (auto simp: not_mounted_def refusal_def)

lemma no_field [simp]:
  "text_of None = None" "message_of None = []" "memoryScope None = None" "fpList None = []" "profile_of_body None = None"
  by (simp_all add: text_of_def message_of_def memoryScope_def fpList_def profile_of_body_def)

text \<open>
  What counts as missing for a route: the field is absent; a blank text, or a value of another type, counts as
  missing too wherever the route asks for a non-blank text.
\<close>

lemma missing_page:
  "jprop body ''name'' = None \<Longrightarrow> refuses a (route_identity_create x body)"
  "jprop body ''uri'' = None \<Longrightarrow> refuses a (route_card_parse x body)"
  "jprop body ''card_uri'' = None \<Longrightarrow> refuses a (route_friends_add x body)"
  "jprop body ''id'' = None \<Longrightarrow> refuses a (route_friends_accept x body)"
  "jprop body ''id'' = None \<Longrightarrow> refuses a (route_friends_reject x body)"
  "jprop body ''fp'' = None \<Longrightarrow> refuses a (route_friends_set x body)"
  "jprop body ''fp'' = None \<Longrightarrow> refuses a (route_friends_card x body)"
  "jprop body ''fp'' = None \<Longrightarrow> refuses a (route_markRead x body)"
  "jprop body ''fp'' = None \<Longrightarrow> refuses a (route_conversation x body)"
  "jprop body ''fp'' = None \<or> jprop body ''body'' = None \<Longrightarrow> refuses a (route_message_send x body)"
  "jprop body ''fp'' = None \<Longrightarrow> refuses a (route_typing x body)"
  "jprop body ''text'' = None \<Longrightarrow> refuses a (route_alter_instruct x body)"
  "jprop body ''name'' = None \<or> jprop body ''text'' = None \<Longrightarrow> refuses a (route_agent_instruct x body)"
  "jprop body ''name'' = None \<Longrightarrow> refuses a (route_agent_history x body)"
  by (auto simp: route_identity_create_def route_card_parse_def route_friends_add_def route_friends_accept_def route_friends_reject_def
      route_friends_set_def route_friends_card_def route_markRead_def route_conversation_def route_message_send_def route_typing_def
      route_alter_instruct_def route_agent_instruct_def route_agent_history_def split: option.splits)

lemma missing_services:
  "jprop body ''id'' = None \<or> jprop body ''action'' = None \<Longrightarrow> refuses a (route_drafts_decide x body)"
  "jprop body ''name'' = None \<Longrightarrow> refuses a (route_agents_set x body)"
  "jprop body ''name'' = None \<Longrightarrow> refuses a (route_agents_remove body)"
  "jprop body ''content'' = None \<or> jprop body ''scope'' = None \<Longrightarrow> refuses a (route_memory_add x body)"
  "jprop body ''uid'' = None \<or> jprop body ''content'' = None \<Longrightarrow> refuses a (route_memory_update body)"
  "jprop body ''uid'' = None \<Longrightarrow> refuses a (route_memory_remove body)"
  "jprop body ''gid'' = None \<Longrightarrow> refuses a (route_memory_summarize x body)"
  "jprop body ''text'' = None \<Longrightarrow> refuses a (route_protocol_set x body)"
  by (auto simp: route_drafts_decide_def route_agents_set_def route_agents_remove_def route_memory_add_def route_memory_update_def
      route_memory_remove_def route_memory_summarize_def route_protocol_set_def Let_def intro!: refuses_sessions split: option.splits)

lemma missing_group:
  "jprop body ''name'' = None \<or> jprop body ''members'' = None \<Longrightarrow> refuses a (route_group_create x body)"
  "jprop body ''gid'' = None \<Longrightarrow> refuses a (route_group_get x body)"
  "jprop body ''gid'' = None \<or> jprop body ''body'' = None \<Longrightarrow> refuses a (route_group_send x body)"
  "jprop body ''gid'' = None \<Longrightarrow> refuses a (route_group_conversation x body)"
  "jprop body ''gid'' = None \<Longrightarrow> refuses a (route_group_markRead x body)"
  "jprop body ''gid'' = None \<Longrightarrow> refuses a (route_group_leave x body)"
  "jprop body ''gid'' = None \<or> jprop body ''fp'' = None \<Longrightarrow> refuses a (route_group_kick x body)"
  "jprop body ''gid'' = None \<or> jprop body ''profile'' = None \<Longrightarrow> refuses a (route_group_setProfile x body)"
  "jprop body ''gid'' = None \<or> jprop body ''body'' = None \<Longrightarrow> refuses a (route_group_pin x body)"
  "jprop body ''gid'' = None \<or> jprop body ''id'' = None \<Longrightarrow> refuses a (route_group_unpin x body)"
  "jprop body ''uri'' = None \<Longrightarrow> refuses a (route_group_lookup x body)"
  "jprop body ''uri'' = None \<Longrightarrow> refuses a (route_group_paidJoin x body)"
  "jprop body ''uri'' = None \<Longrightarrow> refuses a (route_group_apply x body)"
  "jprop body ''gid'' = None \<Longrightarrow> refuses a (route_group_applications x body)"
  "jprop body ''gid'' = None \<or> jprop body ''fp'' = None \<Longrightarrow> refuses a (route_group_approve x body)"
  "jprop body ''gid'' = None \<or> jprop body ''fp'' = None \<Longrightarrow> refuses a (route_group_applicationReject x body)"
  "jprop body ''gid'' = None \<or> jprop body ''fp'' = None \<Longrightarrow> refuses a (route_group_invite x body)"
  "jprop body ''gid'' = None \<Longrightarrow> refuses a (route_group_settings method body)"
  by (auto simp: route_group_create_def route_group_get_def route_group_send_def route_group_conversation_def route_group_markRead_def
      route_group_leave_def route_group_kick_def route_group_setProfile_def route_group_pin_def route_group_unpin_def route_group_lookup_def
      route_group_paidJoin_def route_group_apply_def route_group_applications_def route_group_approve_def route_group_applicationReject_def
      route_group_invite_def route_group_settings_def need_gid_def need_gid_and_def Let_def split: option.splits)

lemma missing_upgrade: "jprop body ''version'' = None \<Longrightarrow> refused_by (route_upgrade_run x body) a"
  by (simp add: route_upgrade_run_def refused_by_def reply_def bad_def refusal_def)

lemma missing_handled:
  "list_all (\<lambda>(route, fs). list_all (\<lambda>f. jprop body f = None \<longrightarrow>
     route = ''upgrade.run'' \<or> (\<exists>m. (route, m) \<in> set (page_routes x body @ group_routes x method body) \<and> refuses a m)) fs) required_fields"
  by (simp add: required_fields_def route_tables missing_page missing_services missing_group)

lemma missing_refused:
  assumes "(route, fs) \<in> set required_fields" "f \<in> set fs" "jprop body f = None"
  shows "refused_by (handle x route verb body) a"
proof -
  have "route = ''upgrade.run'' \<or> (\<exists>m. (route, m) \<in> set (page_routes x body @ group_routes x verb body) \<and> refuses a m)"
    using missing_handled [of body x verb a] assms unfolding list_all_iff by blast
  then show ?thesis
  proof (elim disjE exE conjE)
    assume u: "route = ''upgrade.run''"
    have "list_all (\<lambda>(route, fs). route = ''upgrade.run'' \<longrightarrow> fs = [''version'']) required_fields" by (simp add: required_fields_def)
    then have "f = ''version''" using assms u by (auto simp: list_all_iff)
    then show ?thesis using missing_upgrade [of body x a] assms(3) u by (simp add: handle_def)
  qed (use handle_route refuses_now in metis)
qed

lemma handler_refused:
  assumes "rq_method q = ''POST''" "request_body x q = Inr body" "refused_by (handle x (route_of (rq_path q)) ''POST'' body) a"
  shows "\<exists>r c t. api_handler x i q a = (HSent r, a) \<and> rs_body r = BErr c t \<and> (rs_status r = 400 \<and> c = - 32602 \<or> rs_status r = 503 \<and> a_sessions a = None)"
  using assms by (auto simp: refused_by_def api_handler_def Let_def)


lemma post_body: "length t \<le> 262144 \<Longrightarrow> JSON_parse t = Some (JObj kvs) \<Longrightarrow> request_body x (post route t) = Inr (Some (JObj kvs))"
  by (simp add: request_body_def post_def readJson_def BODY_LIMIT_def)


section \<open>Paid admission\<close>

text \<open>The same options with another way to approve an applicant.\<close>

definition with_approve :: "(string \<Rightarrow> string \<Rightarrow> ('n, unit) net_call) \<Rightarrow> 'n ApiOptions \<Rightarrow> 'n ApiOptions" where
  "with_approve f x = x\<lparr>ax_client := (ax_client x)\<lparr>cl_groups_approve := f\<rparr>\<rparr>"

lemma with_approve_fields [simp]:
  "ax_paygate (with_approve f x) = ax_paygate x" "ax_texts (with_approve f x) = ax_texts x" "ax_draws (with_approve f x) = ax_draws x"
  "cl_net (ax_client (with_approve f x)) = cl_net (ax_client x)"
  "cl_groups_applications (ax_client (with_approve f x)) = cl_groups_applications (ax_client x)"
  "cl_groups_approve (ax_client (with_approve f x)) = f"
  by (simp_all add: with_approve_def)

text \<open>What the gateway has to confirm: the applicant's transaction, at the published address and price.\<close>

definition applicant_payment :: "'n ApiOptions \<Rightarrow> string \<Rightarrow> string \<Rightarrow> 'n \<Rightarrow> JoinPayment option" where
  "applicant_payment x gid fp n =
     (case cl_groups_applications (ax_client x) gid n of
        Inl _ \<Rightarrow> None
      | Inr apps \<Rightarrow> Option.bind (List.find (\<lambda>p. gap_fp p = fp) apps) gap_payment)"

definition payment_confirmed :: "'n ApiOptions \<Rightarrow> string \<Rightarrow> string \<Rightarrow> PaidJoinInfo \<Rightarrow> 'n \<Rightarrow> bool" where
  "payment_confirmed x gid fp c n =
     (case (applicant_payment x gid fp n, ax_paygate x) of
        (Some p, Some pg) \<Rightarrow>
          (case fst (pg ''POST'' ''/v2/pay/join.verify'' (verify_body c p) n) of Inl _ \<Rightarrow> False | Inr v \<Rightarrow> is_true (jprop (Some v) ''valid''))
      | _ \<Rightarrow> False)"

lemma verify_payment_cases:
  obtains (confirmed) a1 where "verify_payment x gid fp c a = (Inr None, a1)" "payment_confirmed x gid fp c (a_net a)"
  | (refused) r a1 where "verify_payment x gid fp c a = (Inr (Some r), a1)" "rs_status r = 400" "\<not> payment_confirmed x gid fp c (a_net a)"
  | (failed) e a1 where "verify_payment x gid fp c a = (Inl e, a1)" "\<not> payment_confirmed x gid fp c (a_net a)"
proof (cases "cl_groups_applications (ax_client x) gid (a_net a)")
  case (Inl e)
  then show thesis by (intro failed) (simp_all add: verify_payment_def bind_api_def net_read_def payment_confirmed_def applicant_payment_def)
next
  case (Inr apps)
  let ?p = "Option.bind (List.find (\<lambda>p. gap_fp p = fp) apps) gap_payment"
  have ap: "applicant_payment x gid fp (a_net a) = ?p" using Inr by (simp add: applicant_payment_def)
  note [simp] = verify_payment_def bind_api_def net_read_def reply_def refusal_def payment_confirmed_def ap
  show thesis
  proof (cases "\<exists>p pg. ?p = Some p \<and> ax_paygate x = Some pg")
    case True
    then obtain p pg where p: "?p = Some p" "ax_paygate x = Some pg" by blast
    obtain v n1 where v: "pg ''POST'' ''/v2/pay/join.verify'' (verify_body c p) (a_net a) = (v, n1)" by fastforce
    show thesis
    proof (cases v)
      case (Inl e)
      then show thesis using Inr p v by (intro failed) (simp_all add: pay_do_def)
    next
      case (Inr w)
      show thesis
      proof (cases "is_true (jprop (Some w) ''valid'')")
        case True
        then show thesis using Inr p v \<open>cl_groups_applications (ax_client x) gid (a_net a) = Inr apps\<close>
          by (intro confirmed) (simp_all add: pay_do_def)
      next
        case False
        then have "\<exists>m. verify_payment x gid fp c a = (Inr (Some (refusal 400 (- 32602) m)), a\<lparr>a_net := n1\<rparr>)"
          using Inr p v \<open>cl_groups_applications (ax_client x) gid (a_net a) = Inr apps\<close> by (simp add: pay_do_def)
        then obtain m where "verify_payment x gid fp c a = (Inr (Some (refusal 400 (- 32602) m)), a\<lparr>a_net := n1\<rparr>)" ..
        then show thesis by (rule refused) (use False Inr p v in simp_all)
      qed
    qed
  next
    case False
    then have "\<exists>k m. verify_payment x gid fp c a = (Inr (Some (refusal 400 k m)), a)"
      using Inr by (cases ?p; cases "ax_paygate x") auto
    then obtain k m where "verify_payment x gid fp c a = (Inr (Some (refusal 400 k m)), a)" by blast
    then show thesis by (rule refused) (use False in \<open>auto split: option.splits\<close>)
  qed
qed


text \<open>A group with a price, and an applicant who attached no payment.\<close>

definition paid_group :: FakeGroup where
  "paid_group = \<lparr>fg_name = ''club'', fg_ownerFp = ME_FP, fg_version = 1, fg_memberList = [], fg_entries = [], fg_unread = 0,
     fg_profile = [(''join'', JStr ''paid''), (''joinPrice'', JStr ''5''), (''joinAddr'', JStr ''0xab'')], fg_pins = [],
     fg_applications = [\<lparr>gap_fp = ''fp-dave'', gap_name = ''Dave'', gap_note = [], gap_ts = None, gap_payment = None\<rparr>],
     fg_applicationSeeded = True\<rparr>"

definition paid_api :: "FakeNet Api" where
  "paid_api = fresh_api\<lparr>a_net := (createFake False)\<lparr>fn_groups := [(''g1'', paid_group)]\<rparr>\<rparr>"

definition approve_body :: unknown where
  "approve_body = Some (JObj [(''gid'', JStr ''g1''), (''fp'', JStr ''fp-dave'')])"


end
