(* ===== verification/Api_Service.thy ===== *)
theory Api_Service
  imports Http_Api
begin

text \<open>
  The HTTP API over a whole life of the handler: requests, the events of the network and of the installer
  processes, answers to finished upgrades, clients that come and go. The first group of lemmas shows which
  routes touch the upgrade module (one) and the exit timer (none); the properties follow for every reachable
  state. The in-memory backend is the client of the examples.
\<close>

section \<open>What the routes leave alone\<close>

named_theorems api_outside \<open>handlers that leave the upgrade module and the exit timer alone\<close>

definition outer :: "'n Api \<Rightarrow> upgrade_state \<times> bool" where
  "outer a = (a_upgrade a, a_exitArmed a)"

definition outside :: "('n, 'a) api \<Rightarrow> bool" where
  "outside m \<longleftrightarrow> (\<forall>a. outer (snd (m a)) = outer a)"

lemma outsideD: "outside m \<Longrightarrow> outer (snd (m a)) = outer a"
  by (simp add: outside_def)

lemma outer_update [simp]:
  "outer (a\<lparr>a_net := n\<rparr>) = outer a" "outer (a\<lparr>a_sessions := s\<rparr>) = outer a" "outer (a\<lparr>a_groupSettings := g\<rparr>) = outer a"
  "outer (a\<lparr>a_protocol := p\<rparr>) = outer a" "outer (a\<lparr>a_sse := l\<rparr>) = outer a" "outer (a\<lparr>a_subscribed := b\<rparr>) = outer a"
  by (simp_all add: outer_def)

lemma outside_steps [api_outside]:
  "outside (reply v)" "outside (fail e)" "outside (net_read rd)" "outside get_sessions" "outside (net_do call)"
  "outside (pay_do pg method path body)" "outside (sess_do f)" "outside (sess_net_do broken g s)" "outside (broadcast_do fr)"
  by (simp_all add: outside_def reply_def fail_def net_read_def get_sessions_def net_do_def pay_do_def sess_do_def sess_net_do_def
      broadcast_do_def api_broadcast_def split: sum.splits prod.splits option.splits)

lemma outside_bind [api_outside]: "outside m \<Longrightarrow> (\<And>v. outside (k v)) \<Longrightarrow> outside (bind_api m k)"
  by (auto simp: outside_def bind_api_def split: prod.splits sum.splits) (metis snd_conv)+

lemma outside_attempt [api_outside]: "outside m \<Longrightarrow> outside (attempt m)"
  by (auto simp: outside_def attempt_def split: prod.splits) (metis snd_conv)

lemma outside_required [api_outside]: "(\<And>v. outside (k v)) \<Longrightarrow> outside (required f m k)"
  by (auto simp: required_def api_outside split: option.splits)

lemma outside_sessions [api_outside]: "(\<And>s. outside (k s)) \<Longrightarrow> outside (with_sessions k)"
  by (auto simp: with_sessions_def outside_def split: option.splits)

lemma outside_if [api_outside]: "outside m \<Longrightarrow> outside n \<Longrightarrow> outside (if b then m else n)"
  by simp

lemma outside_option [api_outside]: "outside m \<Longrightarrow> (\<And>v. outside (k v)) \<Longrightarrow> outside (case o1 of None \<Rightarrow> m | Some v \<Rightarrow> k v)"
  by (cases o1) simp_all

lemma outside_sum [api_outside]: "(\<And>v. outside (m v)) \<Longrightarrow> (\<And>v. outside (k v)) \<Longrightarrow> outside (case s of Inl v \<Rightarrow> m v | Inr v \<Rightarrow> k v)"
  by (cases s) simp_all

lemma outside_pair [api_outside]: "(\<And>v w. outside (k v w)) \<Longrightarrow> outside (case p of (v, w) \<Rightarrow> k v w)"
  by (cases p) simp_all

lemma outside_quiet: "quiet m \<Longrightarrow> outside m"
  by (simp add: quiet_def outside_def)

lemmas outside_reads = quiet_reads [THEN outside_quiet] quiet_upgrade_check [THEN outside_quiet] quiet_conversation [THEN outside_quiet]

lemma outside_parts [api_outside]:
  "outside (note_friend f)" "outside (reply_row x f)" "outside (done_ok u)" "outside (set_remark x fp note protocol f)"
  "outside (set_tier x fp v)" "outside (sendDirect x fp t)" "outside (instruct_call x t s)" "outside (decide_call x i d s)"
  "outside (update_memory uid c sc)" "outside m \<Longrightarrow> outside (or_bad m f')" "outside (wallet_proof pg tx)"
  by (auto simp: note_friend_def reply_row_def done_ok_def set_remark_def set_tier_def sendDirect_def instruct_call_def
      decide_call_def update_memory_def or_bad_def wallet_proof_def intro!: api_outside)

lemma outside_muted [api_outside]: "outside (set_muted fp v)"
  by (auto simp: set_muted_def intro!: api_outside split: option.splits json.splits)

lemma outside_page_1:
  "outside (route_wallet x)" "outside (route_identity_create x body)" "outside (route_card_parse x body)" "outside (route_friends_add x body)"
  "outside (route_friends_accept x body)" "outside (route_friends_reject x body)" "outside (route_friends_set x body)"
  "outside (route_friends_card x body)" "outside (route_markRead x body)" "outside (route_message_send x body)" "outside (route_typing x body)"
  by (auto simp: route_wallet_def route_identity_create_def route_card_parse_def route_friends_add_def route_friends_accept_def
      route_friends_reject_def route_friends_set_def route_friends_card_def route_markRead_def route_message_send_def route_typing_def
      intro!: api_outside)

lemma outside_latest: "outside (\<lambda>a. (Inr (ok (BInstructed r (latest_of x a))), a))"
  by (simp add: outside_def)

lemma outside_page_2:
  "outside (route_alter_instruct x body)" "outside (route_agent_instruct x body)" "outside (route_drafts_decide x body)"
  "outside (route_agents_set x body)" "outside (route_agents_remove body)" "outside (route_memory_cancel body)" "outside (route_memory_list x body)"
  "outside (route_memory_update body)" "outside (route_memory_remove body)"
  by (auto simp: route_alter_instruct_def route_agent_instruct_def route_drafts_decide_def route_agents_set_def route_agents_remove_def
      route_memory_cancel_def route_memory_list_def route_memory_update_def route_memory_remove_def sess_call_def Let_def
      intro!: api_outside outside_latest)

lemma outside_memory: "outside (route_memory_add x body)" "outside (route_memory_summarize x body)"
  unfolding route_memory_add_def route_memory_summarize_def
  by (auto intro!: outside_sessions outside_required) (auto simp: outside_def split: prod.splits sum.splits)

lemma outside_files: "outside route_protocol_get" "outside (route_protocol_set x body)" "outside (route_group_settings method body)"
  unfolding route_protocol_set_def route_group_settings_def need_gid_def
  by (auto intro!: outside_required)
    (auto simp: outside_def route_protocol_get_def load_settings_def write_settings_def Let_def split: prod.splits option.splits)

lemma outside_post: "outside (announce_post x gid r)" "outside (own_post_hook x gid msg)"
proof -
  show "outside (announce_post x gid r)" by (auto simp: outside_def announce_post_def api_broadcast_def split: option.splits)
  have "outer (snd (own_post_hook x gid msg a)) = outer a" for a
    unfolding own_post_hook_def by (rule outsideD) (intro api_outside)
  then show "outside (own_post_hook x gid msg)" by (simp add: outside_def)
qed

lemma outside_group_1:
  "outside (route_group_create x body)" "outside (route_group_send x body)" "outside (route_group_markRead x body)" "outside (route_group_leave x body)"
  "outside (route_group_kick x body)" "outside (route_group_setProfile x body)" "outside (route_group_pin x body)" "outside (route_group_unpin x body)"
  "outside (route_group_lookup x body)" "outside (route_group_apply x body)" "outside (route_group_applicationReject x body)"
  "outside (route_group_invite x body)"
  by (auto simp: route_group_create_def route_group_send_def route_group_markRead_def route_group_leave_def route_group_kick_def
      route_group_setProfile_def route_group_pin_def route_group_unpin_def route_group_lookup_def route_group_apply_def
      route_group_applicationReject_def route_group_invite_def need_gid_def need_gid_and_def Let_def intro!: api_outside outside_post)

lemma outside_paid: "outside (route_group_paidJoin x body)" "outside (route_group_approve x body)"
  by (auto simp: route_group_paidJoin_def pay_and_apply_def route_group_approve_def verify_payment_def admit_applicant_def join_notice_def
      need_gid_and_def Let_def intro!: api_outside)

lemma routes_outside: "list_all (\<lambda>(r, m). outside m) (page_routes x body @ group_routes x verb body)"
  by (simp add: route_tables outside_reads outside_page_1 outside_page_2 outside_memory outside_files outside_group_1 outside_paid)

lemma outside_handle: "route \<noteq> ''upgrade.run'' \<Longrightarrow> outside (handle x route verb body)"
proof (cases "map_of (page_routes x body @ group_routes x verb body) route")
  case (Some m)
  then have "outside m" using routes_outside [of x body verb] map_of_SomeD [OF Some] by (auto simp: list_all_iff)
  moreover assume "route \<noteq> ''upgrade.run''"
  ultimately show ?thesis using Some by (simp add: handle_def now_def api_outside del: map_of_append)
next
  case None
  moreover assume "route \<noteq> ''upgrade.run''"
  ultimately show ?thesis by (simp add: handle_def api_outside del: map_of_append)
qed

section \<open>The life of the handler\<close>

text \<open>
  A handler starts with no upgrade, no exit and no client. Requests arrive, possibly under other settings and
  services each time; runs of the installer report; finished runs are answered; events are broadcast; clients
  close; the sessions service and the network change by themselves.
\<close>

inductive api_reach :: "'n Api \<Rightarrow> bool" where
  start: "a_upgrade a = upgrade_idle \<Longrightarrow> \<not> a_exitArmed a \<Longrightarrow> api_reach a"
| request: "api_reach a \<Longrightarrow> api_reach (snd (api_handler x i q a))"
| settled: "api_reach a \<Longrightarrow> api_reach (snd (upgrade_settled x k a))"
| data: "api_reach a \<Longrightarrow> api_reach (a\<lparr>a_upgrade := upgrade_data k chunk (a_upgrade a)\<rparr>)"
| timeout: "api_reach a \<Longrightarrow> k < length (us_runs (a_upgrade a)) \<Longrightarrow> ur_timer (us_runs (a_upgrade a) ! k) \<Longrightarrow>
    api_reach (a\<lparr>a_upgrade := upgrade_timeout k note (a_upgrade a)\<rparr>)"
| error: "api_reach a \<Longrightarrow> k < length (us_runs (a_upgrade a)) \<Longrightarrow> api_reach (a\<lparr>a_upgrade := upgrade_error k enoent message (a_upgrade a)\<rparr>)"
| close: "api_reach a \<Longrightarrow> k < length (us_runs (a_upgrade a)) \<Longrightarrow> api_reach (a\<lparr>a_upgrade := upgrade_close k code (a_upgrade a)\<rparr>)"
| event: "api_reach a \<Longrightarrow> api_reach (api_broadcast f a)"
| closed: "api_reach a \<Longrightarrow> api_reach (stream_closed i a)"
| dispose: "api_reach a \<Longrightarrow> api_reach (snd (api_dispose a))"
| around: "api_reach a \<Longrightarrow> api_reach (a\<lparr>a_net := n, a_sessions := s\<rparr>)"

text \<open>What a request does to the upgrade module is what \<open>runUpgrade\<close> does, or nothing.\<close>

lemma handle_upgrade:
  "a_exitArmed (snd (handle x route verb body a)) = a_exitArmed a \<and>
   (a_upgrade (snd (handle x route verb body a)) = a_upgrade a \<or>
     (\<exists>v r. a_upgrade (snd (handle x route verb body a)) = snd (runUpgrade v r (ax_profileDir x) (ax_spawnFault x) (a_upgrade a))))"
proof (cases "route = ''upgrade.run''")
  case False
  then show ?thesis using outsideD [OF outside_handle, of route x verb body a] by (simp add: outer_def)
next
  case True
  have "a_exitArmed (snd (start_upgrade x v r a)) = a_exitArmed a \<and>
     a_upgrade (snd (start_upgrade x v r a)) \<in> {a_upgrade a, snd (runUpgrade v r (ax_profileDir x) (ax_spawnFault x) (a_upgrade a))}" for v r
    by (auto simp: start_upgrade_def split: prod.splits sum.splits)
  then show ?thesis using True
    by (simp add: handle_def route_upgrade_run_def reply_def Let_def split: option.splits) metis
qed

lemma handler_state:
  obtains (same) "snd (api_handler x i q a) = a"
  | (stream) "snd (api_handler x i q a) = open_stream x i a"
  | (handled) body where "snd (api_handler x i q a) = snd (handle x (route_of (rq_path q)) (rq_method q) body a)"
proof -
  have p: "snd (case p of (Inl e, a1) \<Rightarrow> (HSent (failed_response e), a1) | (Inr (Answered r), a1) \<Rightarrow> (HSent r, a1)
      | (Inr (AwaitUpgrade k), a1) \<Rightarrow> (HAwait k, a1)) = snd p" for p :: "(api_error + api_outcome) \<times> 'a Api"
    by (auto split: prod.splits sum.splits api_outcome.splits)
  show thesis
  proof (cases "request_body x q")
    case (Inl e)
    then show thesis using same stream by (cases "route_of (rq_path q) = ''events'' \<and> rq_method q = ''GET''") (auto simp: api_handler_def Let_def)
  next
    case (Inr body)
    then have "snd (api_handler x i q a) \<in> {a, open_stream x i a, snd (handle x (route_of (rq_path q)) (rq_method q) body a)}"
      by (simp add: api_handler_def Let_def p)
    then show thesis using same stream handled by blast
  qed
qed

lemma handler_upgrade:
  "a_exitArmed (snd (api_handler x i q a)) = a_exitArmed a \<and>
   (a_upgrade (snd (api_handler x i q a)) = a_upgrade a \<or>
     (\<exists>v r. a_upgrade (snd (api_handler x i q a)) = snd (runUpgrade v r (ax_profileDir x) (ax_spawnFault x) (a_upgrade a))))"
proof (cases rule: handler_state [of x i q a])
  case (handled body)
  then show ?thesis using handle_upgrade [of x "route_of (rq_path q)" "rq_method q" body a] by simp
qed (simp_all add: open_stream_def)

lemma settled_upgrade:
  "a_upgrade (snd (upgrade_settled x k a)) = a_upgrade a \<and>
   (a_exitArmed (snd (upgrade_settled x k a)) = a_exitArmed a \<or> installed (a_upgrade a))"
proof -
  have o: "outside (relaunch_host x)" by (auto simp: relaunch_host_def intro!: api_outside)
  show ?thesis using outsideD [OF o, of a] installed_nth [of k "a_upgrade a"]
    by (auto simp: upgrade_settled_def outer_def split: option.splits prod.splits sum.splits bool.splits if_splits)
qed

lemma api_reach_upgrade: "api_reach a \<Longrightarrow> upgrade_reach False (a_upgrade a) \<and> (a_exitArmed a \<longrightarrow> installed (a_upgrade a))"
proof (induction rule: api_reach.induct)
  case (start a)
  then show ?case by (simp add: upgrade_reach.idle)
next
  case (request a x i q)
  have run: "upgrade_reach False (snd (runUpgrade v r d f (a_upgrade a)))" "installed (a_upgrade a) \<Longrightarrow> installed (snd (runUpgrade v r d f (a_upgrade a)))" for v r d f
    using request upgrade_reach.run [of False "a_upgrade a" v r d f] installed_run [of "a_upgrade a" v r d f] by (metis prod.collapse)+
  show ?case using handler_upgrade [of x i q a] request.IH run by metis
next
  case (settled a x k)
  then show ?case using settled_upgrade [of x k a] by auto
qed (auto simp: api_broadcast_def stream_closed_def api_dispose_def intro: upgrade_reach.data upgrade_reach.timeout upgrade_reach.error
    upgrade_reach.close installed_events)

text \<open>
  C7. The host exits for an installed upgrade only. In whatever order requests, reports of installer processes
  and other events arrive: the exit timer is armed only if some installer run has ended with success; and every
  command that was started adds the package at a valid version, from an allowed registry if one is named,
  whatever the bodies of the requests said.
\<close>

theorem exit_needs_install:
  assumes "api_reach a"
  shows "(a_exitArmed a \<longrightarrow> (\<exists>r \<in> set (us_runs (a_upgrade a)). \<exists>y. ur_result r = Some y \<and> rr_ok y)) \<and>
    list_all (\<lambda>c. pc_program c = ''pnpm'' \<and> (\<exists>v. isValidVersion v \<and> pc_args c = [''add'', UPGRADE_PACKAGE @ ''@'' @ v]) \<and>
      (case pc_registry c of None \<Rightarrow> True | Some r \<Rightarrow> r \<in> set UPGRADE_REGISTRIES)) (us_commands (a_upgrade a))"
proof -
  have r: "upgrade_reach False (a_upgrade a)" "a_exitArmed a \<longrightarrow> installed (a_upgrade a)" using api_reach_upgrade [OF assms] by simp_all
  have "list_all command_ok (us_commands (a_upgrade a))" using upgrade_reach_ok [OF r(1)] by (simp add: upgrade_ok_def)
  then show ?thesis using r(2) by (auto simp: installed_def command_ok_def list_all_iff)
qed

definition version_body :: string where
  "version_body = JSON_stringify (JObj [(''version'', JStr ''1.2.3'')])"

theorem exit_needs_install_witness:
  "(let a = snd (api_handler fake_options 1 (post ''upgrade.run'' version_body) fresh_api)
    in us_commands (a_upgrade a) \<noteq> [] \<and> list_all (\<lambda>c. pc_program c = ''pnpm'') (us_commands (a_upgrade a)))"
proof -
  let ?q = "post ''upgrade.run'' version_body"
  let ?a = "snd (api_handler fake_options 1 ?q fresh_api)"
  have "api_reach fresh_api" by (rule api_reach.start) (simp_all add: fresh_api_def)
  then have "api_reach ?a" by (rule api_reach.request)
  from exit_needs_install [OF this] have "list_all (\<lambda>c. pc_program c = ''pnpm'') (us_commands (a_upgrade ?a))" by (auto simp: list_all_iff)
  moreover have "us_commands (a_upgrade ?a) \<noteq> []"
  proof -
    have p: "JSON_parse version_body = Some (JObj [(''version'', JStr ''1.2.3'')])" by code_simp
    have l: "length version_body = 19" by code_simp
    have b: "request_body fake_options ?q = Inr (Some (JObj [(''version'', JStr ''1.2.3'')]))" by (rule post_body [OF _ p]) (simp add: l)
    have r: "route_of (rq_path ?q) = ''upgrade.run''" "isValidVersion ''1.2.3''" "text_of (Some (JStr ''1.2.3'')) = Some ''1.2.3''" by code_simp+
    have m: "rq_method ?q = ''POST''" by (simp add: post_def)
    have f: "\<not> us_inflight (a_upgrade fresh_api)" "ax_profileDir fake_options = Some [''p'']" "ax_spawnFault fake_options = None"
      by (simp_all add: fresh_api_def fake_options_def upgrade_idle_def)
    show ?thesis using r(2,3) f
      by (simp add: api_handler_def Let_def b r(1) m handle_def route_upgrade_run_def start_upgrade_def runUpgrade_def start_run_def)
  qed
  ultimately show ?thesis by (simp add: Let_def)
qed

section \<open>The stream\<close>

definition send_all :: "ApiFrame list \<Rightarrow> 'n Api \<Rightarrow> 'n Api" where
  "send_all fs a = fold api_broadcast fs a"

lemma send_all_clients:
  "a_sse (send_all fs a) = (if fs = [] then a_sse a else map (\<lambda>c. c\<lparr>sc_frames := sc_frames c @ fs\<rparr>) (filter sc_open (a_sse a)))"
proof (induction fs arbitrary: a)
  case (Cons f fs)
  have "filter sc_open (map (write_frame f) l) = map (write_frame f) (filter sc_open l)" for l
    by (induction l) (simp_all add: write_frame_def)
  then show ?case using Cons [of "api_broadcast f a"] by (auto simp: send_all_def api_broadcast_def write_frame_def)
qed (simp add: send_all_def)

text \<open>
  Every listening page sees every event, once and in order. A client that opens the event stream has been
  sent the status of the backend; after any sequence of frames it has been sent exactly these frames, in this
  order, after the status, as long as its connection takes writes; the clients that were there before got
  the frames appended too, and a client whose connection broke is dropped. After the handler was disposed of,
  nobody is sent anything.
\<close>

theorem stream_in_order:
  assumes "rq_method q = ''GET''" "route_of (rq_path q) = ''events''" "fs \<noteq> []"
  shows "fst (api_handler x i q a) = HStream i \<and>
    a_sse (send_all fs (snd (api_handler x i q a))) =
      map (\<lambda>c. c\<lparr>sc_frames := sc_frames c @ fs\<rparr>) (filter sc_open (a_sse a)) @
      [\<lparr>sc_id = i, sc_open = True, sc_frames = FStatus (cl_status (ax_client x) (a_net a)) # fs, sc_ended = False\<rparr>] \<and>
    a_sse (send_all fs (stream_closed i (snd (api_handler x i q a)))) =
      map (\<lambda>c. c\<lparr>sc_frames := sc_frames c @ fs\<rparr>) (filter (\<lambda>c. sc_open c \<and> sc_id c \<noteq> i) (a_sse a)) \<and>
    a_sse (send_all fs (snd (api_dispose a))) = []"
proof -
  have h: "api_handler x i q a = (HStream i, open_stream x i a)" using assms by (simp add: api_handler_def Let_def)
  have c: "filter (\<lambda>c. sc_open c \<and> sc_id c \<noteq> i) l = filter sc_open (filter (\<lambda>c. sc_id c \<noteq> i) l)" for l by (simp add: filter_filter) metis
  show ?thesis unfolding h using assms(3) by (simp add: send_all_clients open_stream_def stream_closed_def api_dispose_def c)
qed

theorem stream_in_order_witness:
  "a_sse (send_all [FNetwork (NPresence ''fp'' True), FNetwork (NPresence ''fp'' False)] (snd (api_handler fake_options 7 (get ''events'' []) fresh_api))) =
     [\<lparr>sc_id = 7, sc_open = True, sc_frames = [FStatus ready_status, FNetwork (NPresence ''fp'' True), FNetwork (NPresence ''fp'' False)], sc_ended = False\<rparr>]"
proof -
  have q: "rq_method (get ''events'' []) = ''GET''" "route_of (rq_path (get ''events'' [])) = ''events''" by code_simp+
  show ?thesis using stream_in_order [OF q, of "[FNetwork (NPresence ''fp'' True), FNetwork (NPresence ''fp'' False)]" fake_options 7 fresh_api]
    by (simp add: fresh_api_def fake_options_def fake_api_client_def)
qed

section \<open>Group settings\<close>

lemma handle_settings: "handle x ''group.settings'' method body = now (route_group_settings method body)"
  by (rule handle_route) (simp add: route_tables)

lemma write_read_settings: "write_settings gid patch a = (v, a1) \<Longrightarrow> read_settings gid a1 = v"
  by (auto simp: write_settings_def read_settings_def sess_setGroupVoices_def gss_set_def announceVoices_def act_def Let_def
      split: option.splits prod.splits)

lemma write_other_settings:
  "write_settings gid patch a = (v, a1) \<Longrightarrow> h \<noteq> gid \<Longrightarrow> gss_loaded (a_groupSettings a) \<Longrightarrow>
     (case a_sessions a of None \<Rightarrow> True | Some s \<Rightarrow> gss_loaded (ss_groupSettings s)) \<Longrightarrow> read_settings h a1 = read_settings h a"
  by (auto simp: write_settings_def read_settings_def sess_setGroupVoices_def loaded_groups_def gss_set_def gss_get_def gss_write_def
      announceVoices_def act_def Let_def split: option.splits prod.splits if_splits)

lemma write_loaded: "write_settings gid patch a = (v, a1) \<Longrightarrow> gss_loaded (a_groupSettings a1) = gss_loaded (a_groupSettings a)"
  by (auto simp: write_settings_def gss_set_def gss_write_def Let_def split: option.splits prod.splits)

lemma write_mounted: "write_settings gid patch a = (v, a1) \<Longrightarrow> a_sessions a \<noteq> None \<Longrightarrow> a_groupSettings a1 = a_groupSettings a"
  by (auto simp: write_settings_def split: option.splits prod.splits)

text \<open>
  A page reads back what it saved. A POST of group settings that changes something answers the stored
  settings, and a following GET for the same group answers the same; the settings of other groups are as
  before (once the stores were loaded). While the sessions service is mounted its store is the only one that
  is written: the handler's own store keeps its data and its file.
\<close>

theorem settings_read_back:
  assumes "text_of (jprop body ''gid'') = Some gid" "text_of (jprop body' ''gid'') = Some gid" "patch_of_body body \<noteq> no_patch"
    "gss_loaded (a_groupSettings a)"
  shows "\<exists>v a1. handle x ''group.settings'' ''POST'' body a = (Inr (Answered (ok (BGroupSettings True v))), a1) \<and>
    fst (handle x' ''group.settings'' ''GET'' body' a1) = Inr (Answered (ok (BGroupSettings False v))) \<and>
    (a_sessions a \<noteq> None \<longrightarrow> a_groupSettings a1 = a_groupSettings a) \<and>
    ((case a_sessions a of None \<Rightarrow> True | Some s \<Rightarrow> gss_loaded (ss_groupSettings s)) \<longrightarrow>
      (\<forall>h. h \<noteq> gid \<longrightarrow> read_settings h a1 = read_settings h a))"
proof -
  obtain v a1 where w: "write_settings gid (patch_of_body body) a = (v, a1)" by fastforce
  have "handle x ''group.settings'' ''POST'' body a = (Inr (Answered (ok (BGroupSettings True v))), a1)"
    using assms w by (simp add: handle_settings now_def bind_api_def reply_def route_group_settings_def need_gid_def required_def load_settings_def Let_def)
  moreover have "fst (handle x' ''group.settings'' ''GET'' body' a1) = Inr (Answered (ok (BGroupSettings False v)))"
    using assms write_loaded [OF w] write_read_settings [OF w]
    by (simp add: handle_settings now_def bind_api_def reply_def route_group_settings_def need_gid_def required_def load_settings_def Let_def)
  ultimately show ?thesis using write_mounted [OF w] write_other_settings [OF w] assms(4) by blast
qed

theorem settings_read_back_witness:
  "\<exists>v a1. handle fake_options ''group.settings'' ''POST'' (Some (JObj [(''gid'', JStr ''g1''), (''muted'', JBool True)])) fresh_api
      = (Inr (Answered (ok (BGroupSettings True v))), a1) \<and>
    fst (handle fake_options ''group.settings'' ''GET'' (query_body [(''gid'', ''g1'')]) a1) = Inr (Answered (ok (BGroupSettings False v)))"
proof -
  let ?b = "Some (JObj [(''gid'', JStr ''g1''), (''muted'', JBool True)])"
  have t: "text_of (jprop ?b ''gid'') = Some ''g1''" "text_of (jprop (query_body [(''gid'', ''g1'')]) ''gid'') = Some ''g1''"
    "patch_of_body ?b \<noteq> no_patch" "gss_loaded (a_groupSettings fresh_api)" by code_simp+
  from settings_read_back [OF t, of fake_options fake_options] show ?thesis by blast
qed

section \<open>The notice after a paid approval\<close>

text \<open>
  What both backends promise of an approval: the application is gone afterwards. The notice is composed
  from the applications read after the approval.
\<close>

locale admission =
  fixes x :: "'n ApiOptions"
  assumes approved_gone: "cl_groups_approve (ax_client x) gid fp n = (Inr (), n') \<Longrightarrow> cl_groups_applications (ax_client x) gid n' = Inr apps \<Longrightarrow>
    List.find (\<lambda>p. gap_fp p = fp) apps = None"
begin

lemma notice_nameless:
  assumes "cl_groups_approve (ax_client x) gid fp (a_net a) = (Inr (), n')" "cl_groups_applications (ax_client x) gid n' = Inr apps"
  shows "join_notice x gid fp c (a\<lparr>a_net := n'\<rparr>) =
    net_do (nc_groups_send (ax_net x) (ax_draws x 0) gid
      (ax_texts x ''check-mark'' @ '' '' @ (if length fp > 10 then take 10 fp @ ax_texts x ''ellipsis'' else fp) @ '' paid '' @ pj_price c @
       '' USDC and joined the group'') \<lparr>gso_by = Some ''owner'', gso_auto = None, gso_agent = None\<rparr>) (a\<lparr>a_net := n'\<rparr>)"
  using assms(2) approved_gone [OF assms] by (simp add: join_notice_def bind_api_def net_read_def joiner_name_def Let_def)

end

lemma find_filtered: "List.find (\<lambda>p. f p = k) (filter (\<lambda>p. f p \<noteq> k) l) = None"
  by (induction l) simp_all

lemma fake_approved_gone:
  "fake_groups_approve gid fp n = (Inr (), n') \<Longrightarrow> fake_groups_applications gid n' = Inr apps \<Longrightarrow> List.find (\<lambda>p. gap_fp p = fp) apps = None"
  by (auto simp: fake_groups_approve_def with_group_def group_changed_def set_group_def fake_emit_def fake_groups_applications_def admit_def
      find_filtered unknown_group_def net_error_def split: option.splits if_splits)

interpretation fkadm: admission "x\<lparr>ax_client := fake_api_client env\<rparr>" for x env
  by unfold_locales (auto simp: fake_api_client_def dest: fake_approved_gone)

text \<open>With the in-memory backend the notice of a paid approval never shows the applicant's name or payment.\<close>

lemma fake_notice_nameless:
  assumes "fake_groups_approve gid fp (a_net a) = (Inr (), n')" "fake_groups_applications gid n' = Inr apps"
  shows "join_notice (x\<lparr>ax_client := fake_api_client env\<rparr>) gid fp c (a\<lparr>a_net := n'\<rparr>) =
    net_do (nc_groups_send fake_client (ax_draws x 0) gid
      (ax_texts x ''check-mark'' @ '' '' @ (if length fp > 10 then take 10 fp @ ax_texts x ''ellipsis'' else fp) @ '' paid '' @ pj_price c @
       '' USDC and joined the group'') \<lparr>gso_by = Some ''owner'', gso_auto = None, gso_agent = None\<rparr>) (a\<lparr>a_net := n'\<rparr>)"
  using fkadm.notice_nameless [of env x gid fp a n' apps c] assms by (simp add: fake_api_client_def)

section \<open>Stored applications and the identity binding\<close>

text \<open>
  Over the peer, the applications of a group are read by \<open>applicationFromWire\<close>, which leaves payer and
  wallet receipt out; the verification request of an approval then carries the transaction, the published
  address and the price only.
\<close>

lemma stored_approval_unbound:
  assumes "fst (sn_groups_applications rpc w gid s) = Inr apps" "List.find (\<lambda>p. gap_fp p = fp) apps = Some app" "gap_payment app = Some p"
  shows "verify_body c p = Some (JObj [(''tx_hash'', JStr (jp_tx_hash p)), (''to'', JStr (pj_addr c)), (''amount'', JStr (pj_price c))])"
proof -
  obtain r where "apps = map (\<lambda>v. applicationFromWire w (Some v)) (arr_items (jprop r ''applications''))"
    using assms(1) by (auto simp: sn_groups_applications_def ask_cases split: prod.splits sum.splits)
  then obtain v where "app = applicationFromWire w (Some v)" using assms(2) by (auto simp: find_Some_iff)
  then have "jp_payer p = None \<and> jp_proof p = None" using assms(3) stored_application_unbound by metis
  then show ?thesis by (simp add: verify_body_def obj_fields_def)
qed

end
