(* ===== verification/Network_Store.thy ===== *)
theory Network_Store
  imports Inbox_State
begin

text \<open>
  The page's network store, class \<open>NetworkStore\<close> of \<^verbatim>\<open>src/dsh/packages/dsh/src/client/api.ts\<close>: the last known state
  of the network, the event stream with its reconnects and its release in hidden tabs, the debounced refetch of
  \<open>/state\<close> and the folding of frames. Asynchronous operations are split where the code awaits: a fetch is
  started by one operation and answered by another; timers are flags that fire as events. An
  \<open>EventSource\<close> is numbered; \<open>ns_streams\<close> are the streams the browser holds open. Calls of registered
  listeners and the requests that are not awaited are recorded in \<open>ns_log\<close>; the re-rendering of components
  is left out.
  Lemmas: at most one stream and one fetch at a time, a stream exactly while somebody listens in a visible tab,
  one notice per mail, and the two races that remain.
\<close>

section \<open>State\<close>

datatype net_log =
    LFrame NetworkEventFrame
  | LMail MailNotice
  | LMemory MemoryFrame
  | LReconnect
  | LMarkRead string
  | LGroupMarkRead string

record NetworkStore =
  ns_state :: "ApiState option"
  ns_loading :: bool
  ns_error :: "string option"
  ns_typing :: "(string, bool) al"
  ns_status :: "ApiStatus option"
  ns_revision :: nat
  ns_inbox :: InboxState
  ns_listeners :: "nat list"
  ns_source :: "nat option"
  ns_everConnected :: bool
  ns_refreshTimer :: bool
  ns_hiddenTimer :: bool
  ns_inflight :: bool
  ns_hidden :: bool
  ns_nextStream :: nat
  ns_streams :: "nat list"
  ns_fetches :: nat
  ns_log :: "net_log list"

definition new_NetworkStore :: "bool \<Rightarrow> NetworkStore" where
  "new_NetworkStore hidden = \<lparr>ns_state = None, ns_loading = False, ns_error = None, ns_typing = [], ns_status = None, ns_revision = 0,
     ns_inbox = EMPTY_INBOX, ns_listeners = [], ns_source = None, ns_everConnected = False, ns_refreshTimer = False,
     ns_hiddenTimer = False, ns_inflight = False, ns_hidden = hidden, ns_nextStream = 0, ns_streams = [], ns_fetches = 0, ns_log = []\<rparr>"

definition log_net :: "net_log list \<Rightarrow> NetworkStore \<Rightarrow> NetworkStore" where
  "log_net ls s = s\<lparr>ns_log := ns_log s @ ls\<rparr>"

section \<open>Refetching\<close>

definition refresh :: "NetworkStore \<Rightarrow> NetworkStore" where
  "refresh s = (if ns_inflight s then s else s\<lparr>ns_loading := True, ns_inflight := True, ns_fetches := ns_fetches s + 1\<rparr>)"

text \<open>The answer of \<open>api.state()\<close>, and the \<open>finally\<close> that clears \<open>inflight\<close>.\<close>

definition refresh_answer :: "string + ApiState \<Rightarrow> NetworkStore \<Rightarrow> NetworkStore" where
  "refresh_answer r s =
     (let t = (case r of
                 Inr st \<Rightarrow> s\<lparr>ns_state := Some st, ns_loading := False, ns_error := None, ns_status := Some (st_status st),
                             ns_inbox := fromApiState (ns_inbox s) st\<rparr>
               | Inl e \<Rightarrow> s\<lparr>ns_loading := False, ns_error := Some e\<rparr>)
      in t\<lparr>ns_inflight := False, ns_fetches := ns_fetches s - 1\<rparr>)"

definition scheduleRefresh :: "NetworkStore \<Rightarrow> NetworkStore" where
  "scheduleRefresh s = s\<lparr>ns_refreshTimer := True\<rparr>"

definition refresh_fires :: "NetworkStore \<Rightarrow> NetworkStore" where
  "refresh_fires s = (if ns_refreshTimer s then refresh (s\<lparr>ns_refreshTimer := False\<rparr>) else s)"

section \<open>The event stream\<close>

definition connect :: "NetworkStore \<Rightarrow> NetworkStore" where
  "connect s =
     (if ns_source s \<noteq> None then s
      else s\<lparr>ns_source := Some (ns_nextStream s), ns_nextStream := ns_nextStream s + 1,
             ns_streams := ns_streams s @ [ns_nextStream s]\<rparr>)"

definition close_source :: "NetworkStore \<Rightarrow> NetworkStore" where
  "close_source s =
     (case ns_source s of
        None \<Rightarrow> s
      | Some i \<Rightarrow> s\<lparr>ns_source := None, ns_streams := filter (\<lambda>j. j \<noteq> i) (ns_streams s)\<rparr>)"

definition disconnect :: "NetworkStore \<Rightarrow> NetworkStore" where
  "disconnect s = (close_source s)\<lparr>ns_refreshTimer := False\<rparr>"

text \<open>The \<open>visibilitychange\<close> event, with the new value of \<open>document.hidden\<close>.\<close>

definition onVisibility :: "bool \<Rightarrow> NetworkStore \<Rightarrow> NetworkStore" where
  "onVisibility hidden s0 =
     (let s = s0\<lparr>ns_hidden := hidden\<rparr> in
      if hidden then (if ns_source s = None \<or> ns_hiddenTimer s then s else s\<lparr>ns_hiddenTimer := True\<rparr>)
      else (let t = s\<lparr>ns_hiddenTimer := False\<rparr>
            in if ns_listeners t \<noteq> [] \<and> ns_source t = None then scheduleRefresh (connect t) else t))"

definition hidden_fires :: "NetworkStore \<Rightarrow> NetworkStore" where
  "hidden_fires s =
     (if \<not> ns_hiddenTimer s then s
      else (let t = s\<lparr>ns_hiddenTimer := False\<rparr> in if ns_hidden t then close_source t else t))"

definition net_subscribe :: "nat \<Rightarrow> NetworkStore \<Rightarrow> NetworkStore" where
  "net_subscribe l s0 =
     (let s = s0\<lparr>ns_listeners := List.insert l (ns_listeners s0)\<rparr>;
          t = (if length (ns_listeners s) = 1 then connect s else s)
      in if ns_state t = None \<and> \<not> ns_loading t then refresh t else t)"

definition net_unsubscribe :: "nat \<Rightarrow> NetworkStore \<Rightarrow> NetworkStore" where
  "net_unsubscribe l s0 =
     (let s = s0\<lparr>ns_listeners := filter (\<lambda>k. k \<noteq> l) (ns_listeners s0)\<rparr>
      in if ns_listeners s = [] then disconnect s else s)"

text \<open>The stream's \<open>open\<close> event: registered reconnect listeners are called from the second one on.\<close>

definition stream_opened :: "NetworkStore \<Rightarrow> NetworkStore" where
  "stream_opened s = (if ns_everConnected s then log_net [LReconnect] s else s)\<lparr>ns_everConnected := True\<rparr>"

definition stream_error :: "NetworkStore \<Rightarrow> NetworkStore" where
  "stream_error s = scheduleRefresh s"

text \<open>One event of the stream; \<open>None\<close>: its data is not JSON.\<close>

definition handle_frame :: "NetworkEventFrame option \<Rightarrow> NetworkStore \<Rightarrow> NetworkStore" where
  "handle_frame data s0 =
     (case data of
        None \<Rightarrow> s0
      | Some frame \<Rightarrow>
          (let revision = ns_revision s0 + 1; folded = applyFrame (ns_inbox s0) frame; s = log_net [LFrame frame] s0 in
           case frame of
             FTyping fp on \<Rightarrow> s\<lparr>ns_typing := al_set fp on (ns_typing s), ns_revision := revision, ns_inbox := fst folded\<rparr>
           | FStatus st \<Rightarrow>
               (let t = s\<lparr>ns_status := Some st, ns_revision := revision\<rparr> in if as_state st = BReady then scheduleRefresh t else t)
           | FOutbound fp e \<Rightarrow> s\<lparr>ns_revision := revision, ns_inbox := fst folded\<rparr>
           | FDraft added d \<Rightarrow> s\<lparr>ns_revision := revision, ns_inbox := fst folded\<rparr>
           | FMemory m \<Rightarrow> log_net [LMemory m] s
           | FAlter a \<Rightarrow> s\<lparr>ns_revision := revision\<rparr>
           | FAgent a \<Rightarrow> scheduleRefresh (s\<lparr>ns_revision := revision\<rparr>)
           | FGroupTyping g f a on \<Rightarrow> s
           | _ \<Rightarrow>
               (let t = s\<lparr>ns_revision := revision, ns_inbox := fst folded\<rparr>;
                    u = (case snd folded of None \<Rightarrow> t | Some notice \<Rightarrow> log_net [LMail notice] t)
                in scheduleRefresh u)))"

section \<open>Local folds\<close>

definition applyPresence :: "(string \<times> bool) list \<Rightarrow> NetworkStore \<Rightarrow> NetworkStore" where
  "applyPresence online s =
     s\<lparr>ns_inbox := fold (\<lambda>(fp, on) inbox. fst (applyFrame inbox (FPresence fp on))) online (ns_inbox s)\<rparr>"

definition net_applyOutbound :: "string \<Rightarrow> ApiEntry \<Rightarrow> NetworkStore \<Rightarrow> NetworkStore" where
  "net_applyOutbound fp e s = s\<lparr>ns_inbox := fst (applyFrame (ns_inbox s) (FOutbound fp e))\<rparr>"

definition net_markRead :: "string \<Rightarrow> NetworkStore \<Rightarrow> NetworkStore" where
  "net_markRead fp s = log_net [LMarkRead fp] (s\<lparr>ns_inbox := markReadLocal (ns_inbox s) fp\<rparr>)"

definition net_markReadGroup :: "string \<Rightarrow> NetworkStore \<Rightarrow> NetworkStore" where
  "net_markReadGroup gid s = log_net [LGroupMarkRead gid] (s\<lparr>ns_inbox := markReadGroupLocal (ns_inbox s) gid\<rparr>)"

definition net_clearGroupApps :: "string \<Rightarrow> NetworkStore \<Rightarrow> NetworkStore" where
  "net_clearGroupApps gid s = s\<lparr>ns_inbox := clearGroupApps (ns_inbox s) gid\<rparr>"

section \<open>Histories\<close>

datatype net_event =
    Subscribe nat | Unsubscribe nat | Visibility bool | HiddenTimer | RefreshTimer | Refresh
  | StateAnswer "string + ApiState" | StreamOpen | StreamError | StreamData "NetworkEventFrame option"
  | Presence "(string \<times> bool) list" | OutboundSent string ApiEntry | MarkRead string | MarkReadGroup string | ClearApps string

text \<open>An answer needs a fetch in flight, and events of a stream need an open one.\<close>

fun net_step :: "net_event \<Rightarrow> NetworkStore \<Rightarrow> NetworkStore" where
  "net_step (Subscribe l) s = net_subscribe l s"
| "net_step (Unsubscribe l) s = net_unsubscribe l s"
| "net_step (Visibility h) s = onVisibility h s"
| "net_step HiddenTimer s = hidden_fires s"
| "net_step RefreshTimer s = refresh_fires s"
| "net_step Refresh s = refresh s"
| "net_step (StateAnswer r) s = (if ns_inflight s then refresh_answer r s else s)"
| "net_step StreamOpen s = (if ns_source s = None then s else stream_opened s)"
| "net_step StreamError s = (if ns_source s = None then s else stream_error s)"
| "net_step (StreamData d) s = (if ns_source s = None then s else handle_frame d s)"
| "net_step (Presence online) s = applyPresence online s"
| "net_step (OutboundSent fp e) s = net_applyOutbound fp e s"
| "net_step (MarkRead fp) s = net_markRead fp s"
| "net_step (MarkReadGroup gid) s = net_markReadGroup gid s"
| "net_step (ClearApps gid) s = net_clearGroupApps gid s"

definition net_run :: "net_event list \<Rightarrow> NetworkStore \<Rightarrow> NetworkStore" where
  "net_run es s = fold net_step es s"

section \<open>One stream, one fetch\<close>

definition net_inv :: "NetworkStore \<Rightarrow> bool" where
  "net_inv s \<longleftrightarrow>
     ns_streams s = (case ns_source s of None \<Rightarrow> [] | Some i \<Rightarrow> [i]) \<and>
     ns_loading s = ns_inflight s \<and> ns_fetches s = (if ns_inflight s then 1 else 0) \<and>
     (ns_listeners s = [] \<longrightarrow> ns_source s = None \<and> \<not> ns_refreshTimer s) \<and>
     (ns_listeners s \<noteq> [] \<and> \<not> ns_hidden s \<longrightarrow> ns_source s \<noteq> None) \<and>
     (ns_hiddenTimer s \<longrightarrow> ns_hidden s)"

named_theorems net_ops \<open>the operations of the network store\<close>

lemmas net_op_defs [net_ops] =
  refresh_def refresh_answer_def scheduleRefresh_def refresh_fires_def connect_def close_source_def disconnect_def onVisibility_def
  hidden_fires_def net_subscribe_def net_unsubscribe_def stream_opened_def stream_error_def log_net_def applyPresence_def
  net_applyOutbound_def net_markRead_def net_markReadGroup_def net_clearGroupApps_def

lemma net_inv_new: "net_inv (new_NetworkStore h)"
  by (simp add: net_inv_def new_NetworkStore_def)

text \<open>What folds of frames leave alone.\<close>

definition lifecycle :: "NetworkStore \<Rightarrow> NetworkStore" where
  "lifecycle s = s\<lparr>ns_state := None, ns_error := None, ns_typing := [], ns_status := None, ns_revision := 0, ns_inbox := EMPTY_INBOX,
     ns_log := [], ns_refreshTimer := False\<rparr>"

lemma net_inv_lifecycle:
  assumes "net_inv s" "lifecycle t = lifecycle s" "ns_refreshTimer t = ns_refreshTimer s \<or> ns_source s \<noteq> None"
  shows "net_inv t"
proof -
  from arg_cong [OF assms(2), of ns_streams] arg_cong [OF assms(2), of ns_source] arg_cong [OF assms(2), of ns_loading]
    arg_cong [OF assms(2), of ns_inflight] arg_cong [OF assms(2), of ns_fetches] arg_cong [OF assms(2), of ns_listeners]
    arg_cong [OF assms(2), of ns_hidden] arg_cong [OF assms(2), of ns_hiddenTimer]
  have "ns_streams t = ns_streams s" "ns_source t = ns_source s" "ns_loading t = ns_loading s" "ns_inflight t = ns_inflight s"
    "ns_fetches t = ns_fetches s" "ns_listeners t = ns_listeners s" "ns_hidden t = ns_hidden s" "ns_hiddenTimer t = ns_hiddenTimer s"
    by (simp_all add: lifecycle_def)
  then show ?thesis using assms(1,3) by (auto simp: net_inv_def)
qed

lemma lifecycle_frame: "lifecycle (handle_frame d s) = lifecycle s"
  by (simp add: handle_frame_def lifecycle_def net_ops Let_def split: option.split NetworkEventFrame.split)

lemma net_inv_connect: "net_inv s \<Longrightarrow> xs \<noteq> [] \<Longrightarrow> net_inv (connect (s\<lparr>ns_listeners := xs\<rparr>))"
  by (auto simp: net_inv_def connect_def split: option.splits)

lemma net_inv_refresh: "net_inv s \<Longrightarrow> net_inv (refresh s)"
  by (auto simp: net_inv_def refresh_def)

lemma net_inv_subscribe:
  assumes "net_inv s"
  shows "net_inv (net_subscribe l s)"
proof -
  let ?xs = "List.insert l (ns_listeners s)"
  have ne: "?xs \<noteq> []" by (auto simp: List.insert_def)
  have "net_inv (s\<lparr>ns_listeners := ?xs\<rparr>)" if "length ?xs \<noteq> 1"
  proof -
    have "ns_listeners s \<noteq> []" using that by (auto simp: List.insert_def)
    then show ?thesis using assms ne by (auto simp: net_inv_def)
  qed
  then show ?thesis using net_inv_connect [OF assms ne] by (auto simp: net_subscribe_def Let_def intro: net_inv_refresh)
qed

lemma net_inv_step:
  assumes "net_inv s"
  shows "net_inv (net_step e s)"
proof (cases e)
  case (StreamData d)
  then show ?thesis using assms by (auto intro: net_inv_lifecycle lifecycle_frame)
next
  case (Subscribe l)
  then show ?thesis using net_inv_subscribe [OF assms] by simp
qed (use assms in \<open>auto simp: net_inv_def net_ops Let_def split: option.splits sum.splits if_splits\<close>)

lemma net_inv_run: "net_inv s \<Longrightarrow> net_inv (net_run es s)"
  by (induction es arbitrary: s) (simp_all add: net_run_def net_inv_step)

text \<open>
  C31. The page holds at most one event stream and one \<open>/state\<close> request at a time, in every history of
  subscriptions, tab switches, timers, answers and stream events: the open stream is the one the store knows,
  \<open>loading\<close> is shown exactly while a request is out, without subscribers there is neither a stream nor a pending
  refetch, and a visible tab with a subscriber has its stream.
\<close>

theorem one_stream_one_fetch:
  "let s = net_run es (new_NetworkStore hidden) in
     set (ns_streams s) = set_option (ns_source s) \<and> length (ns_streams s) \<le> 1 \<and>
     ns_fetches s \<le> 1 \<and> (ns_loading s \<longleftrightarrow> ns_fetches s = 1) \<and>
     (ns_listeners s = [] \<longrightarrow> ns_streams s = [] \<and> \<not> ns_refreshTimer s) \<and>
     (ns_listeners s \<noteq> [] \<and> \<not> ns_hidden s \<longrightarrow> ns_streams s \<noteq> [])"
  using net_inv_run [OF net_inv_new, of es hidden] by (auto simp: net_inv_def Let_def split: option.splits)

theorem one_stream_one_fetch_witness:
  "ns_streams (net_run [Subscribe 1, StreamOpen, Visibility True, HiddenTimer, Visibility False] (new_NetworkStore False)) \<noteq> []"
proof -
  have "ns_listeners (net_run [Subscribe 1, StreamOpen, Visibility True, HiddenTimer, Visibility False] (new_NetworkStore False)) \<noteq> [] \<and>
    \<not> ns_hidden (net_run [Subscribe 1, StreamOpen, Visibility True, HiddenTimer, Visibility False] (new_NetworkStore False))"
    by (simp add: net_run_def net_ops new_NetworkStore_def)
  then show ?thesis
    using one_stream_one_fetch [of "[Subscribe 1, StreamOpen, Visibility True, HiddenTimer, Visibility False]" False] by (simp add: Let_def)
qed

section \<open>Frames\<close>

definition list_frame :: "NetworkEventFrame \<Rightarrow> bool" where
  "list_frame f = (case f of FMessage _ \<Rightarrow> True | FFriendRequest _ \<Rightarrow> True | FFriendAccept _ \<Rightarrow> True | FPresence _ _ \<Rightarrow> True
     | FGroupMessage _ _ \<Rightarrow> True | FGroupUpdate _ \<Rightarrow> True | FGroupOutbound _ _ \<Rightarrow> True | FGroupApplication _ \<Rightarrow> True
     | FAgent _ \<Rightarrow> True | _ \<Rightarrow> False)"

definition notices :: "InboxState \<Rightarrow> NetworkEventFrame \<Rightarrow> net_log list" where
  "notices inbox f = (case f of FMemory m \<Rightarrow> [LMemory m] | _ \<Rightarrow> map LMail (case snd (applyFrame inbox f) of None \<Rightarrow> [] | Some n \<Rightarrow> [n]))"

lemma frame_log: "ns_log (handle_frame (Some f) s) = ns_log s @ LFrame f # notices (ns_inbox s) f"
  by (simp add: handle_frame_def net_ops notices_def Let_def applyFrame_def split: NetworkEventFrame.split option.split)

lemma frame_inbox: "ns_inbox (handle_frame (Some f) s) = fst (applyFrame (ns_inbox s) f)"
  by (simp add: handle_frame_def net_ops Let_def applyFrame_def split: NetworkEventFrame.split option.split)

lemma frame_schedules: "list_frame f \<Longrightarrow> ns_refreshTimer (handle_frame (Some f) s)"
  by (simp add: handle_frame_def net_ops Let_def list_frame_def split: NetworkEventFrame.splits option.split)

text \<open>A scheduled refetch stays scheduled until its timer fires or the last subscriber leaves.\<close>

fun ends_timer :: "net_event \<Rightarrow> bool" where
  "ends_timer RefreshTimer = True"
| "ends_timer (Unsubscribe _) = True"
| "ends_timer _ = False"

lemma timer_stays: "ns_refreshTimer s \<Longrightarrow> \<not> ends_timer e \<Longrightarrow> ns_refreshTimer (net_step e s)"
  by (cases e)
    (simp_all add: handle_frame_def net_ops Let_def split: option.split sum.split NetworkEventFrame.split)

lemma timer_stays_run: "ns_refreshTimer s \<Longrightarrow> list_all (\<lambda>e. \<not> ends_timer e) es \<Longrightarrow> ns_refreshTimer (net_run es s)"
  by (induction es arbitrary: s) (simp_all add: net_run_def timer_stays)

lemma net_run_append: "net_run (xs @ ys) s = net_run ys (net_run xs s)"
  by (simp add: net_run_def)

text \<open>
  A frame is handled once and then confirmed: each frame of an open stream is passed to the frame listeners
  exactly once and folded into the inbox, followed by exactly the notices it calls for; and after a frame that
  changes a list, whatever happens until the debounce timer fires, a request for \<open>/state\<close> is started at that moment,
  unless the last subscriber has left or an older request is still out.
\<close>

theorem frame_folded_then_refetched:
  assumes "ns_source s \<noteq> None"
  shows "ns_log (net_step (StreamData (Some f)) s) = ns_log s @ LFrame f # notices (ns_inbox s) f \<and>
    ns_inbox (net_step (StreamData (Some f)) s) = fst (applyFrame (ns_inbox s) f) \<and>
    (list_frame f \<and> list_all (\<lambda>e. \<not> ends_timer e) es \<and> \<not> ns_inflight (net_run (StreamData (Some f) # es) s) \<longrightarrow>
       ns_inflight (net_run (StreamData (Some f) # es @ [RefreshTimer]) s) \<and>
       ns_fetches (net_run (StreamData (Some f) # es @ [RefreshTimer]) s) = ns_fetches (net_run (StreamData (Some f) # es) s) + 1)"
proof (intro conjI impI)
  obtain i where i: "ns_source s = Some i" using assms by blast
  show "ns_log (net_step (StreamData (Some f)) s) = ns_log s @ LFrame f # notices (ns_inbox s) f"
    by (simp add: i frame_log)
  show "ns_inbox (net_step (StreamData (Some f)) s) = fst (applyFrame (ns_inbox s) f)"
    by (simp add: i frame_inbox)
  let ?t = "net_run (StreamData (Some f) # es) s"
  assume h: "list_frame f \<and> list_all (\<lambda>e. \<not> ends_timer e) es \<and> \<not> ns_inflight ?t"
  have "ns_refreshTimer (net_step (StreamData (Some f)) s)" using h by (simp add: i frame_schedules)
  then have "ns_refreshTimer ?t" using h timer_stays_run [of "net_step (StreamData (Some f)) s" es] by (simp add: net_run_def)
  moreover have "net_run (StreamData (Some f) # es @ [RefreshTimer]) s = net_step RefreshTimer ?t"
    using net_run_append [of "StreamData (Some f) # es" "[RefreshTimer]" s] by (simp add: net_run_def)
  ultimately show "ns_inflight (net_run (StreamData (Some f) # es @ [RefreshTimer]) s)"
    "ns_fetches (net_run (StreamData (Some f) # es @ [RefreshTimer]) s) = ns_fetches ?t + 1"
    using h by (simp_all add: refresh_fires_def refresh_def)
qed

definition idle_page :: NetworkStore where
  "idle_page = net_run [Subscribe 1, StreamOpen, StateAnswer (Inl ''busy'')] (new_NetworkStore False)"

theorem frame_folded_then_refetched_witness:
  "ns_inflight (net_run (StreamData (Some (mail ''fpA'')) # [Visibility True] @ [RefreshTimer]) idle_page)"
proof -
  have "ns_source idle_page \<noteq> None" "list_frame (mail ''fpA'')" "list_all (\<lambda>e. \<not> ends_timer e) [Visibility True]"
    "\<not> ns_inflight (net_run (StreamData (Some (mail ''fpA'')) # [Visibility True]) idle_page)"
    by (simp_all add: idle_page_def net_run_def net_ops new_NetworkStore_def list_frame_def mail_def handle_frame_def Let_def split: option.split)
  then show ?thesis using frame_folded_then_refetched [of idle_page "mail ''fpA''" "[Visibility True]"] by simp
qed

section \<open>Races\<close>

definition empty_state :: ApiState where
  "empty_state = \<lparr>st_friends = [], st_groups = None, st_pending = [], st_drafts = None, st_alterSessionId = None, st_status = ready_status\<rparr>"

text \<open>
  A refetch that comes due while an older request is out is dropped, not repeated: the answer of the older request,
  made before the mail, overwrites the row the frame had added, and nothing is scheduled any more.
\<close>

lemma refetch_dropped:
  "let s = net_run [Subscribe 1, StreamOpen, StreamData (Some (mail ''fpA'')), RefreshTimer, StateAnswer (Inr empty_state)] (new_NetworkStore False) in
     row (ns_inbox (net_run [Subscribe 1, StreamOpen, StreamData (Some (mail ''fpA''))] (new_NetworkStore False))) ''fpA'' \<noteq> None \<and>
     row (ns_inbox s) ''fpA'' = None \<and> \<not> ns_refreshTimer s \<and> \<not> ns_inflight s"
  by (simp add: net_run_def net_ops new_NetworkStore_def handle_frame_def mail_def applyFrame_def on_message_def EMPTY_INBOX_def
      row_def provisional_def mail_message_def fromApiState_def empty_state_def Let_def)

text \<open>A page that is opened in a hidden tab takes a stream and does not give it back until it has been seen.\<close>

lemma hidden_page_keeps_stream:
  assumes "list_all (\<lambda>e. case e of Visibility _ \<Rightarrow> False | Unsubscribe _ \<Rightarrow> False | _ \<Rightarrow> True) es"
  shows "ns_streams (net_run (Subscribe 1 # es) (new_NetworkStore True)) = [0]"
proof -
  have "ns_streams (net_run es s) = [0]" if "ns_source s = Some 0 \<and> ns_streams s = [0] \<and> \<not> ns_hiddenTimer s \<and> ns_listeners s \<noteq> []" for s
    using that assms
  proof (induction es arbitrary: s)
    case (Cons e es)
    have "ns_source (net_step e s) = Some 0 \<and> ns_streams (net_step e s) = [0] \<and> \<not> ns_hiddenTimer (net_step e s) \<and> ns_listeners (net_step e s) \<noteq> []"
      using Cons.prems by (cases e)
        (auto simp: handle_frame_def net_ops Let_def List.insert_def split: option.split sum.split NetworkEventFrame.split)
    then show ?case using Cons by (simp add: net_run_def)
  qed (simp add: net_run_def)
  then show ?thesis by (simp add: net_run_def net_ops new_NetworkStore_def)
qed

end
