(* ===== verification/Page_Store.thy ===== *)
theory Page_Store
  imports Network_Store Rooms
begin

text \<open>
  The page's own store, \<^verbatim>\<open>src/dsh/packages/dsh/src/client/page-store.ts\<close>: what is open and selected, the cached threads,
  the alter's transcript, sends, draft decisions, typing signals and the navigation state kept in the browser's
  storage. The network store it talks to is the field \<open>pp_net\<close>. Asynchronous methods are split at their \<open>await\<close>:
  the part before it leaves an element of \<open>pp_calls\<close>, the part after it runs when that call is answered, in any
  order. Timers are flags that fire as events. \<open>pp_log\<close> records the requests that are not awaited, and how sends
  and decisions ended. The collation is the parameter \<open>lc\<close>.
  Lemmas: requests exclude each other where the code says so, every flag of a pending operation is taken back
  by its answer, the navigation survives a reload, typing signals are taken back, and no bubble keeps sending.
\<close>

section \<open>State\<close>

record AlterView =
  av_sessionId :: "string option"
  av_status :: run_status
  av_chat :: AlterChat
  av_loading :: bool
  av_loaded :: bool
  av_instructing :: bool
  av_error :: "string option"

definition EMPTY_ALTER :: AlterView where
  "EMPTY_ALTER = \<lparr>av_sessionId = None, av_status = Idle, av_chat = EMPTY_CHAT, av_loading = False, av_loaded = False,
     av_instructing = False, av_error = None\<rparr>"

datatype Col2Tab = TabMessages | TabContacts

record navigation =
  nv_open :: bool
  nv_selected :: "string option"
  nv_col2Tab :: Col2Tab
  nv_paneTab :: PaneTab

record ApiHistory =
  hi_sessionId :: "string option"
  hi_status :: run_status
  hi_chat :: AlterChat

datatype owner_decision = DecideApprove "string option" | DecideReject | DecideRevise string

datatype warm_target = WarmFriend string | WarmGroup string

text \<open>What waits for an answer of the host.\<close>

datatype page_call =
    WHistory
  | WInstruct string
  | WDecide string owner_decision
  | WLoad string int
  | WSend string string string
  | WSendGroup string string string string

datatype page_log = is_LTyping: LTyping string bool | LSettled string bool | LDecided string bool

record PageStore =
  pp_nav :: navigation
  pp_threads :: "(string, ThreadState) al"
  pp_alter :: AlterView
  pp_deciding :: "string list"
  pp_typingSentAt :: "(string, int) al"
  pp_typingIdle :: "string list"
  pp_historyTimer :: bool
  pp_historyAgain :: bool
  pp_persistTimer :: bool
  pp_seq :: nat
  pp_inflightThreads :: "string list"
  pp_warm :: "(string \<times> warm_target list) list"
  pp_storage :: "string option"
  pp_calls :: "page_call list"
  pp_net :: NetworkStore
  pp_log :: "page_log list"

definition TYPING_RESEND_MS :: int where "TYPING_RESEND_MS = 4000"

section \<open>The stored navigation\<close>

definition PANE_TABS :: "(string \<times> PaneTab) list" where
  "PANE_TABS = [(''chat'', TabChat), (''announce'', TabAnnounce), (''home'', TabHome), (''members'', TabMembers),
     (''admin'', TabAdmin), (''info'', TabInfo), (''memory'', TabMemory), (''settings'', TabSettings)]"

definition COL2_TABS :: "(string \<times> Col2Tab) list" where
  "COL2_TABS = [(''messages'', TabMessages), (''contacts'', TabContacts)]"

fun pane_name :: "PaneTab \<Rightarrow> string" where
  "pane_name TabChat = ''chat''"
| "pane_name TabAnnounce = ''announce''"
| "pane_name TabHome = ''home''"
| "pane_name TabMembers = ''members''"
| "pane_name TabAdmin = ''admin''"
| "pane_name TabInfo = ''info''"
| "pane_name TabMemory = ''memory''"
| "pane_name TabSettings = ''settings''"

fun col2_name :: "Col2Tab \<Rightarrow> string" where
  "col2_name TabMessages = ''messages''"
| "col2_name TabContacts = ''contacts''"

definition clampPaneTab :: "unknown \<Rightarrow> string option \<Rightarrow> PaneTab" where
  "clampPaneTab tab selected =
     (case Option.bind (str_opt tab) (map_of PANE_TABS) of
        None \<Rightarrow> DEFAULT_PANE_TAB
      | Some t \<Rightarrow> if t \<in> set (tabsFor (kindOf selected) False) then t else DEFAULT_PANE_TAB)"

definition nav_fallback :: navigation where
  "nav_fallback = \<lparr>nv_open = False, nv_selected = None, nv_col2Tab = TabMessages, nv_paneTab = DEFAULT_PANE_TAB\<rparr>"

text \<open>A text that is not JSON, and the value \<open>null\<close>, end in the \<open>catch\<close>.\<close>

definition loadPersistedPage :: "string option \<Rightarrow> navigation" where
  "loadPersistedPage storage =
     (case storage of
        None \<Rightarrow> nav_fallback
      | Some raw \<Rightarrow>
          (case JSON_parse raw of
             None \<Rightarrow> nav_fallback
           | Some JNull \<Rightarrow> nav_fallback
           | Some v \<Rightarrow>
               (let p = Some v; selected = str_opt (jprop p ''selected'')
                in \<lparr>nv_open = (jprop p ''open'' = Some (JBool True)), nv_selected = selected,
                    nv_col2Tab = (case Option.bind (str_opt (jprop p ''col2Tab'')) (map_of COL2_TABS) of None \<Rightarrow> TabMessages | Some t \<Rightarrow> t),
                    nv_paneTab = clampPaneTab (jprop p ''paneTab'') selected\<rparr>)))"

definition persist :: "PageStore \<Rightarrow> PageStore" where
  "persist s =
     s\<lparr>pp_storage := Some (JSON_stringify (JObj (obj_fields
        [(''open'', Some (JBool (nv_open (pp_nav s)))), (''selected'', map_option JStr (nv_selected (pp_nav s))),
         (''col2Tab'', Some (JStr (col2_name (nv_col2Tab (pp_nav s))))), (''paneTab'', Some (JStr (pane_name (nv_paneTab (pp_nav s)))))])))\<rparr>"

text \<open>The debounce timer of the write; \<open>ok\<close>: the browser took it.\<close>

definition persist_fires :: "bool \<Rightarrow> PageStore \<Rightarrow> PageStore" where
  "persist_fires ok s =
     (if \<not> pp_persistTimer s then s else (let t = s\<lparr>pp_persistTimer := False\<rparr> in if ok then persist t else t))"

definition new_PageStore :: "string option \<Rightarrow> bool \<Rightarrow> PageStore" where
  "new_PageStore storage hidden = \<lparr>pp_nav = loadPersistedPage storage, pp_threads = [], pp_alter = EMPTY_ALTER, pp_deciding = [],
     pp_typingSentAt = [], pp_typingIdle = [], pp_historyTimer = False, pp_historyAgain = False, pp_persistTimer = False, pp_seq = 0,
     pp_inflightThreads = [], pp_warm = [], pp_storage = storage, pp_calls = [], pp_net = new_NetworkStore hidden, pp_log = []\<rparr>"

text \<open>Every \<open>set\<close> restarts the write timer.\<close>

definition set_nav :: "(navigation \<Rightarrow> navigation) \<Rightarrow> PageStore \<Rightarrow> PageStore" where
  "set_nav f s = s\<lparr>pp_nav := f (pp_nav s), pp_persistTimer := True\<rparr>"

definition setThread :: "string \<Rightarrow> ThreadState \<Rightarrow> PageStore \<Rightarrow> PageStore" where
  "setThread key t s = s\<lparr>pp_threads := al_set key t (pp_threads s), pp_persistTimer := True\<rparr>"

definition setAlter :: "(AlterView \<Rightarrow> AlterView) \<Rightarrow> PageStore \<Rightarrow> PageStore" where
  "setAlter f s = s\<lparr>pp_alter := f (pp_alter s), pp_persistTimer := True\<rparr>"

definition set_deciding :: "(string list \<Rightarrow> string list) \<Rightarrow> PageStore \<Rightarrow> PageStore" where
  "set_deciding f s = s\<lparr>pp_deciding := f (pp_deciding s), pp_persistTimer := True\<rparr>"

definition thread :: "string \<Rightarrow> PageStore \<Rightarrow> ThreadState" where
  "thread key s = (case al_get (pp_threads s) key of None \<Rightarrow> EMPTY_THREAD | Some t \<Rightarrow> t)"

definition call :: "page_call \<Rightarrow> PageStore \<Rightarrow> PageStore" where
  "call c s = s\<lparr>pp_calls := pp_calls s @ [c]\<rparr>"

definition log_page :: "page_log \<Rightarrow> PageStore \<Rightarrow> PageStore" where
  "log_page l s = s\<lparr>pp_log := pp_log s @ [l]\<rparr>"

definition on_net :: "(NetworkStore \<Rightarrow> NetworkStore) \<Rightarrow> PageStore \<Rightarrow> PageStore" where
  "on_net f s = s\<lparr>pp_net := f (pp_net s)\<rparr>"

section \<open>The transcript of the alter\<close>

definition loadAlter :: "PageStore \<Rightarrow> PageStore" where
  "loadAlter s =
     (if av_loading (pp_alter s) then s\<lparr>pp_historyAgain := True\<rparr>
      else call WHistory (setAlter (\<lambda>a. a\<lparr>av_loading := True\<rparr>) s))"

definition loadAlter_answer :: "string + ApiHistory \<Rightarrow> PageStore \<Rightarrow> PageStore" where
  "loadAlter_answer r s =
     (let t = (case r of
                 Inr h \<Rightarrow> setAlter (\<lambda>a. a\<lparr>av_sessionId := hi_sessionId h, av_status := hi_status h, av_chat := hi_chat h,
                            av_loading := False, av_loaded := True, av_error := None\<rparr>) s
               | Inl e \<Rightarrow> setAlter (\<lambda>a. a\<lparr>av_loading := False, av_loaded := True, av_error := Some e\<rparr>) s)
      in if pp_historyAgain t then loadAlter (t\<lparr>pp_historyAgain := False\<rparr>) else t)"

definition scheduleHistory :: "PageStore \<Rightarrow> PageStore" where
  "scheduleHistory s = s\<lparr>pp_historyTimer := True\<rparr>"

definition history_fires :: "PageStore \<Rightarrow> PageStore" where
  "history_fires s = (if pp_historyTimer s then loadAlter (s\<lparr>pp_historyTimer := False\<rparr>) else s)"

definition instruct :: "string \<Rightarrow> PageStore \<Rightarrow> PageStore" where
  "instruct text s =
     (let body = trimEnd text in
      if body = [] then s
      else call (WInstruct body) (setAlter (\<lambda>a. a\<lparr>av_error := None, av_instructing := True\<rparr>) s))"

definition instruct_answer :: "string + unit \<Rightarrow> PageStore \<Rightarrow> PageStore" where
  "instruct_answer r s =
     (case r of
        Inr _ \<Rightarrow> scheduleHistory (setAlter (\<lambda>a. a\<lparr>av_instructing := False, av_loaded := True\<rparr>) s)
      | Inl e \<Rightarrow> setAlter (\<lambda>a. a\<lparr>av_instructing := False, av_error := Some e\<rparr>) s)"

section \<open>Drafts\<close>

definition decideDraft :: "string \<Rightarrow> owner_decision \<Rightarrow> PageStore \<Rightarrow> PageStore" where
  "decideDraft i d s =
     (if i \<in> set (pp_deciding s) then s else call (WDecide i d) (set_deciding (\<lambda>ds. ds @ [i]) s))"

definition decided_entry :: "(string \<Rightarrow> string \<Rightarrow> int) \<Rightarrow> string \<Rightarrow> ApiEntry \<Rightarrow> PageStore \<Rightarrow> PageStore" where
  "decided_entry lc fp e s =
     on_net (net_applyOutbound fp e)
       (case al_get (pp_threads s) fp of None \<Rightarrow> s | Some t \<Rightarrow> setThread fp (applyOutbound lc t e) s)"

definition decideDraft_answer ::
  "(string \<Rightarrow> string \<Rightarrow> int) \<Rightarrow> string \<Rightarrow> string + (PendingDraft \<times> ApiEntry option) \<Rightarrow> PageStore \<Rightarrow> PageStore" where
  "decideDraft_answer lc i r s =
     (let t = (case r of
                 Inr (draft, entry) \<Rightarrow>
                   log_page (LDecided i True) (on_net refresh (scheduleHistory
                     (case entry of None \<Rightarrow> s | Some e \<Rightarrow> decided_entry lc (d_fp draft) e s)))
               | Inl e \<Rightarrow> log_page (LDecided i False) (setAlter (\<lambda>a. a\<lparr>av_error := Some e\<rparr>) s))
      in set_deciding (filter (\<lambda>d. d \<noteq> i)) t)"

section \<open>Threads\<close>

definition begin_load :: "string \<Rightarrow> int option \<Rightarrow> PageStore \<Rightarrow> PageStore" where
  "begin_load key window s =
     (if key \<in> set (pp_inflightThreads s) then s
      else (let current = thread key s;
                n = (case window of Some w \<Rightarrow> w | None \<Rightarrow> if ts_window current > 0 then ts_window current else PAGE_SIZE);
                t = s\<lparr>pp_inflightThreads := pp_inflightThreads s @ [key]\<rparr>
            in call (WLoad key n) (setThread key (current\<lparr>ts_loading := True\<rparr>) t)))"

text \<open>\<open>load\<close> asks for the conversation of a friend, \<open>loadGroup\<close> for that of a group, under the group's key.\<close>

definition load :: "string \<Rightarrow> int option \<Rightarrow> PageStore \<Rightarrow> PageStore" where
  "load fp window s = begin_load fp window s"

definition loadGroup :: "string \<Rightarrow> int option \<Rightarrow> PageStore \<Rightarrow> PageStore" where
  "loadGroup gid window s = begin_load (groupKey gid) window s"

definition older_window :: "ThreadState \<Rightarrow> int" where
  "older_window t = (if ts_window t > 0 then ts_window t else PAGE_SIZE) + PAGE_SIZE"

definition loadOlder :: "string \<Rightarrow> PageStore \<Rightarrow> PageStore" where
  "loadOlder fp s =
     (let t = thread fp s in if ts_complete t \<or> ts_loading t then s else load fp (Some (older_window t)) s)"

definition groupThread :: "string \<Rightarrow> PageStore \<Rightarrow> ThreadState" where
  "groupThread gid s = thread (groupKey gid) s"

definition loadOlderGroup :: "string \<Rightarrow> PageStore \<Rightarrow> PageStore" where
  "loadOlderGroup gid s =
     (let t = groupThread gid s in if ts_complete t \<or> ts_loading t then s else loadGroup gid (Some (older_window t)) s)"

definition prefetchFriend :: "string \<Rightarrow> PageStore \<Rightarrow> PageStore" where
  "prefetchFriend fp s = (if ts_loaded (thread fp s) \<or> fp \<in> set (pp_inflightThreads s) then s else load fp None s)"

definition prefetchGroup :: "string \<Rightarrow> PageStore \<Rightarrow> PageStore" where
  "prefetchGroup gid s =
     (if ts_loaded (groupThread gid s) \<or> groupKey gid \<in> set (pp_inflightThreads s) then s else loadGroup gid None s)"

fun target_key :: "warm_target \<Rightarrow> string" where
  "target_key (WarmFriend fp) = fp"
| "target_key (WarmGroup gid) = groupKey gid"

fun prefetch :: "warm_target \<Rightarrow> PageStore \<Rightarrow> PageStore" where
  "prefetch (WarmFriend fp) s = prefetchFriend fp s"
| "prefetch (WarmGroup gid) s = prefetchGroup gid s"

text \<open>The loop of \<open>warm\<close>: it goes on until a prefetch is really out, and waits for that one.\<close>

fun warm :: "warm_target list \<Rightarrow> PageStore \<Rightarrow> PageStore" where
  "warm [] s = s"
| "warm (t # ts) s =
     (let k = target_key t in
      if ts_loaded (thread k s) \<or> k \<in> set (pp_inflightThreads s) then warm ts s
      else (let u = prefetch t s in u\<lparr>pp_warm := pp_warm u @ [(k, ts)]\<rparr>))"

definition go_on :: "string \<Rightarrow> PageStore \<Rightarrow> PageStore" where
  "go_on key s =
     fold (\<lambda>(k, ts) u. if k = key then warm ts u else u) (pp_warm s) (s\<lparr>pp_warm := filter (\<lambda>(k, ts). k \<noteq> key) (pp_warm s)\<rparr>)"

definition load_answer :: "(string \<Rightarrow> string \<Rightarrow> int) \<Rightarrow> string \<Rightarrow> int \<Rightarrow> string + ApiEntry list \<Rightarrow> PageStore \<Rightarrow> PageStore" where
  "load_answer lc key window r s =
     (let t = (case r of
                 Inr entries \<Rightarrow> setThread key (applyArchive lc (thread key s) entries window) s
               | Inl e \<Rightarrow> setThread key ((thread key s)\<lparr>ts_loading := False, ts_loaded := True, ts_error := Some e\<rparr>) s)
      in go_on key (t\<lparr>pp_inflightThreads := filter (\<lambda>k. k \<noteq> key) (pp_inflightThreads t)\<rparr>))"

text \<open>The stream came back after a gap.\<close>

definition refetch_one :: "string \<times> ThreadState \<Rightarrow> PageStore \<Rightarrow> PageStore" where
  "refetch_one kt s =
     (if \<not> ts_loaded (snd kt) then s
      else (case gidOf (Some (fst kt)) of
              Some gid \<Rightarrow> loadGroup gid None s
            | None \<Rightarrow> if agentOf (Some (fst kt)) = None then load (fst kt) None s else s))"

definition refetchLoadedThreads :: "PageStore \<Rightarrow> PageStore" where
  "refetchLoadedThreads s = fold refetch_one (pp_threads s) s"

section \<open>Navigation\<close>

definition prime :: "string \<Rightarrow> PageStore \<Rightarrow> PageStore" where
  "prime selection s =
     (if selection = ALTER_KEY then (if av_loaded (pp_alter s) then s else loadAlter s)
      else (case gidOf (Some selection) of
              Some gid \<Rightarrow> loadGroup gid None s
            | None \<Rightarrow> if agentOf (Some selection) \<noteq> None then s else load selection None s))"

definition open_page :: "string option \<Rightarrow> PageStore \<Rightarrow> PageStore" where
  "open_page selection s =
     (let selected = (case selection of Some x \<Rightarrow> x | None \<Rightarrow> (case nv_selected (pp_nav s) of Some x \<Rightarrow> x | None \<Rightarrow> ALTER_KEY))
      in prime selected (set_nav (\<lambda>n. n\<lparr>nv_open := True, nv_selected := Some selected\<rparr>) s))"

definition close_page :: "PageStore \<Rightarrow> PageStore" where
  "close_page s = (if nv_open (pp_nav s) then set_nav (\<lambda>n. n\<lparr>nv_open := False\<rparr>) s else s)"

definition toggle :: "PageStore \<Rightarrow> PageStore" where
  "toggle s = (if nv_open (pp_nav s) then close_page s else open_page None s)"

definition select :: "string \<Rightarrow> PageStore \<Rightarrow> PageStore" where
  "select selection s =
     (if nv_selected (pp_nav s) = Some selection then s
      else prime selection (set_nav (\<lambda>n. n\<lparr>nv_selected := Some selection, nv_paneTab := DEFAULT_PANE_TAB\<rparr>) s))"

definition setCol2Tab :: "Col2Tab \<Rightarrow> PageStore \<Rightarrow> PageStore" where
  "setCol2Tab tab s = (if tab = nv_col2Tab (pp_nav s) then s else set_nav (\<lambda>n. n\<lparr>nv_col2Tab := tab\<rparr>) s)"

definition setPaneTab :: "PaneTab \<Rightarrow> PageStore \<Rightarrow> PageStore" where
  "setPaneTab tab s = (if tab = nv_paneTab (pp_nav s) then s else set_nav (\<lambda>n. n\<lparr>nv_paneTab := tab\<rparr>) s)"

section \<open>Sending\<close>

text \<open>The clock is read twice in a row by the code, for the id and for the time of the bubble; here it is read once.\<close>

definition digit36 :: "nat \<Rightarrow> char" where
  "digit36 d = (if d < 10 then char_of (48 + d) else char_of (87 + d))"

fun show36 :: "nat \<Rightarrow> string" where
  "show36 n = (if n < 36 then [digit36 n] else show36 (n div 36) @ [digit36 (n mod 36)])"

declare show36.simps [simp del]

definition client_id :: "int \<Rightarrow> nat \<Rightarrow> string" where
  "client_id now seq = ''local-'' @ show36 (nat now) @ ''-'' @ show_nat seq"

definition optimistic :: "int \<Rightarrow> string \<Rightarrow> string \<Rightarrow> PageStore \<Rightarrow> PageStore" where
  "optimistic now key text s0 =
     (let s = s0\<lparr>pp_seq := pp_seq s0 + 1\<rparr> in setThread key (addOptimistic (thread key s) (client_id now (pp_seq s)) text now) s)"

definition stopTyping :: "string \<Rightarrow> PageStore \<Rightarrow> PageStore" where
  "stopTyping fp s =
     (let t = s\<lparr>pp_typingIdle := filter (\<lambda>k. k \<noteq> fp) (pp_typingIdle s)\<rparr>
      in if al_get (pp_typingSentAt t) fp = None then t
         else log_page (LTyping fp False) (t\<lparr>pp_typingSentAt := al_del fp (pp_typingSentAt t)\<rparr>))"

definition noteTyping :: "int \<Rightarrow> string \<Rightarrow> PageStore \<Rightarrow> PageStore" where
  "noteTyping now fp s =
     (let last = (case al_get (pp_typingSentAt s) fp of None \<Rightarrow> 0 | Some x \<Rightarrow> x);
          t = (if now - last > TYPING_RESEND_MS
               then log_page (LTyping fp True) (s\<lparr>pp_typingSentAt := al_set fp now (pp_typingSentAt s)\<rparr>) else s)
      in t\<lparr>pp_typingIdle := List.insert fp (pp_typingIdle t)\<rparr>)"

definition idle_fires :: "string \<Rightarrow> PageStore \<Rightarrow> PageStore" where
  "idle_fires fp s = (if fp \<in> set (pp_typingIdle s) then stopTyping fp s else s)"

definition send :: "int \<Rightarrow> string \<Rightarrow> string \<Rightarrow> PageStore \<Rightarrow> PageStore" where
  "send now fp body s =
     (let text = trimEnd body in
      if text = [] then s
      else call (WSend fp (client_id now (pp_seq s + 1)) text) (stopTyping fp (optimistic now fp text s)))"

definition send_answer :: "(string \<Rightarrow> string \<Rightarrow> int) \<Rightarrow> string \<Rightarrow> string \<Rightarrow> string + ApiEntry \<Rightarrow> PageStore \<Rightarrow> PageStore" where
  "send_answer lc fp clientId r s =
     (case r of
        Inr e \<Rightarrow> log_page (LSettled clientId True)
                  (on_net (net_applyOutbound fp e) (setThread fp (reconcileSend lc (thread fp s) clientId e) s))
      | Inl m \<Rightarrow> log_page (LSettled clientId False) (setThread fp (failSend (thread fp s) clientId m) s))"

definition sendGroup :: "int \<Rightarrow> string \<Rightarrow> string \<Rightarrow> string option \<Rightarrow> PageStore \<Rightarrow> PageStore" where
  "sendGroup now gid body sentBy s =
     (let text = trimEnd body in
      if text = [] then s
      else call (WSendGroup (groupKey gid) (client_id now (pp_seq s + 1)) text (case sentBy of None \<Rightarrow> ''owner'' | Some b \<Rightarrow> b))
        (optimistic now (groupKey gid) text s))"

definition sendGroup_answer ::
  "(string \<Rightarrow> string \<Rightarrow> int) \<Rightarrow> string \<Rightarrow> string \<Rightarrow> string + ApiEntry option \<Rightarrow> PageStore \<Rightarrow> PageStore" where
  "sendGroup_answer lc key clientId r s =
     (case r of
        Inr None \<Rightarrow> log_page (LSettled clientId False) (setThread key (failSend (thread key s) clientId ''not archived'') s)
      | Inr (Some e) \<Rightarrow> log_page (LSettled clientId (ae_status e \<noteq> Some ''error''))
                         (on_net refresh (setThread key (reconcileSend lc (thread key s) clientId e) s))
      | Inl m \<Rightarrow> log_page (LSettled clientId False) (setThread key (failSend (thread key s) clientId m) s))"

definition discard :: "string \<Rightarrow> string \<Rightarrow> PageStore \<Rightarrow> string option \<times> PageStore" where
  "discard key clientId s =
     (map_option te_body (List.find (\<lambda>e. te_clientId e = Some clientId) (ts_entries (thread key s))),
      setThread key (dropEntry (thread key s) clientId) s)"

section \<open>Frames\<close>

definition inbound_of :: "frame_message \<Rightarrow> InboundFrame" where
  "inbound_of m = \<lparr>if_id = fm_id m, if_from = Some (fm_from m), if_body = fm_body m, if_ts = fm_ts m, if_seq = fm_seq m,
     if_type = fm_type m, if_auto = fm_auto m, if_by = fm_by m, if_agent = fm_agent m, if_artifactName = fm_artifactName m\<rparr>"

definition fold_thread :: "string \<Rightarrow> (ThreadState \<Rightarrow> ThreadState) \<Rightarrow> PageStore \<Rightarrow> PageStore" where
  "fold_thread key f s = (case al_get (pp_threads s) key of None \<Rightarrow> s | Some t \<Rightarrow> setThread key (f t) s)"

definition history_if_loaded :: "PageStore \<Rightarrow> PageStore" where
  "history_if_loaded s = (if av_loaded (pp_alter s) then scheduleHistory s else s)"

definition onFrame :: "(string \<Rightarrow> string \<Rightarrow> int) \<Rightarrow> NetworkEventFrame \<Rightarrow> PageStore \<Rightarrow> PageStore" where
  "onFrame lc frame s =
     (case frame of
        FMessage m \<Rightarrow> history_if_loaded (fold_thread (fm_from m) (\<lambda>t. applyInbound lc t (inbound_of m)) s)
      | FOutbound fp e \<Rightarrow> fold_thread fp (\<lambda>t. applyOutbound lc t e) s
      | FAlter st \<Rightarrow>
          (let t = setAlter (\<lambda>a. a\<lparr>av_sessionId := Some (aa_sessionId st), av_status := aa_status st\<rparr>) s
           in if av_loaded (pp_alter t) \<or> nv_open (pp_nav t) then scheduleHistory t else t)
      | FDraft _ _ \<Rightarrow> history_if_loaded s
      | FGroupMessage gid m \<Rightarrow> fold_thread (groupKey gid) (\<lambda>t. applyInbound lc t (inbound_of m)) s
      | FGroupOutbound gid e \<Rightarrow> fold_thread (groupKey gid) (\<lambda>t. applyOutbound lc t e) s
      | _ \<Rightarrow> s)"

section \<open>Histories\<close>

datatype page_event =
    PLoadAlter | PHistoryTimer | PInstruct string | PDecide string owner_decision
  | POpen "string option" | PClose | PToggle | PSelect string | PCol2 Col2Tab | PPane PaneTab
  | PLoad string "int option" | PLoadOlder string | PLoadGroup string "int option" | PLoadOlderGroup string | PWarm "warm_target list"
  | PSend int string string | PSendGroup int string string "string option" | PDiscard string string
  | PTyping int string | PStopTyping string | PIdle string | PPersist bool
  | AHistory "string + ApiHistory" | AInstruct string "string + unit"
  | ADecide string owner_decision "string + (PendingDraft \<times> ApiEntry option)"
  | ALoad string int "string + ApiEntry list" | ASend string string string "string + ApiEntry"
  | ASendGroup string string string string "string + ApiEntry option"
  | PNet net_event

text \<open>An answer is taken when its call is out.\<close>

definition answered :: "page_call \<Rightarrow> (PageStore \<Rightarrow> PageStore) \<Rightarrow> PageStore \<Rightarrow> PageStore" where
  "answered c k s = (if c \<in> set (pp_calls s) then k (s\<lparr>pp_calls := remove1 c (pp_calls s)\<rparr>) else s)"

text \<open>The page store listens to the frames and reconnects of the network store.\<close>

definition page_listener :: "(string \<Rightarrow> string \<Rightarrow> int) \<Rightarrow> net_event \<Rightarrow> PageStore \<Rightarrow> PageStore" where
  "page_listener lc e s =
     (if ns_source (pp_net s) = None then s
      else (case e of
              StreamData (Some f) \<Rightarrow> onFrame lc f s
            | StreamOpen \<Rightarrow> if ns_everConnected (pp_net s) then refetchLoadedThreads s else s
            | _ \<Rightarrow> s))"

fun page_step :: "(string \<Rightarrow> string \<Rightarrow> int) \<Rightarrow> page_event \<Rightarrow> PageStore \<Rightarrow> PageStore" where
  "page_step lc PLoadAlter s = loadAlter s"
| "page_step lc PHistoryTimer s = history_fires s"
| "page_step lc (PInstruct t) s = instruct t s"
| "page_step lc (PDecide i d) s = decideDraft i d s"
| "page_step lc (POpen sel) s = open_page sel s"
| "page_step lc PClose s = close_page s"
| "page_step lc PToggle s = toggle s"
| "page_step lc (PSelect k) s = select k s"
| "page_step lc (PCol2 t) s = setCol2Tab t s"
| "page_step lc (PPane t) s = setPaneTab t s"
| "page_step lc (PLoad fp w) s = load fp w s"
| "page_step lc (PLoadOlder fp) s = loadOlder fp s"
| "page_step lc (PLoadGroup gid w) s = loadGroup gid w s"
| "page_step lc (PLoadOlderGroup gid) s = loadOlderGroup gid s"
| "page_step lc (PWarm ts) s = warm ts s"
| "page_step lc (PSend now fp body) s = send now fp body s"
| "page_step lc (PSendGroup now gid body b) s = sendGroup now gid body b s"
| "page_step lc (PDiscard key cid) s = snd (discard key cid s)"
| "page_step lc (PTyping now fp) s = noteTyping now fp s"
| "page_step lc (PStopTyping fp) s = stopTyping fp s"
| "page_step lc (PIdle fp) s = idle_fires fp s"
| "page_step lc (PPersist ok) s = persist_fires ok s"
| "page_step lc (AHistory r) s = answered WHistory (loadAlter_answer r) s"
| "page_step lc (AInstruct t r) s = answered (WInstruct t) (instruct_answer r) s"
| "page_step lc (ADecide i d r) s = answered (WDecide i d) (decideDraft_answer lc i r) s"
| "page_step lc (ALoad key n r) s = answered (WLoad key n) (load_answer lc key n r) s"
| "page_step lc (ASend fp cid t r) s = answered (WSend fp cid t) (send_answer lc fp cid r) s"
| "page_step lc (ASendGroup key cid t b r) s = answered (WSendGroup key cid t b) (sendGroup_answer lc key cid r) s"
| "page_step lc (PNet e) s = on_net (net_step e) (page_listener lc e s)"

definition page_run :: "(string \<Rightarrow> string \<Rightarrow> int) \<Rightarrow> page_event list \<Rightarrow> PageStore \<Rightarrow> PageStore" where
  "page_run lc es s = fold (page_step lc) es s"

section \<open>Pending operations\<close>

fun load_key :: "page_call \<Rightarrow> string option" where
  "load_key (WLoad k n) = Some k" | "load_key _ = None"

fun decide_id :: "page_call \<Rightarrow> string option" where
  "decide_id (WDecide i d) = Some i" | "decide_id _ = None"

fun history_call :: "page_call \<Rightarrow> unit option" where
  "history_call WHistory = Some ()" | "history_call _ = None"

abbreviation waiting :: "(page_call \<Rightarrow> 'a option) \<Rightarrow> PageStore \<Rightarrow> 'a list" where
  "waiting f s \<equiv> List.map_filter f (pp_calls s)"

lemma map_filter_remove1_None: "f c = None \<Longrightarrow> List.map_filter f (remove1 c xs) = List.map_filter f xs"
  by (induction xs) (auto simp: map_filter_Cons split: option.split)

lemma map_filter_mem: "c \<in> set xs \<Longrightarrow> f c = Some k \<Longrightarrow> k \<in> set (List.map_filter f xs)"
  by (auto simp: set_map_filter)

lemma map_filter_remove1_Some:
  "distinct (List.map_filter f xs) \<Longrightarrow> c \<in> set xs \<Longrightarrow> f c = Some k \<Longrightarrow>
     List.map_filter f (remove1 c xs) = filter (\<lambda>j. j \<noteq> k) (List.map_filter f xs)"
proof (induction xs)
  case (Cons x xs)
  show ?case
  proof (cases "x = c")
    case True
    then have "k \<notin> set (List.map_filter f xs)" using Cons.prems by (simp add: map_filter_Cons)
    then have "filter (\<lambda>j. j \<noteq> k) (List.map_filter f xs) = List.map_filter f xs" by (metis (mono_tags, lifting) filter_True)
    then show ?thesis using True Cons.prems by (simp add: map_filter_Cons)
  next
    case False
    then have "c \<in> set xs" using Cons.prems by simp
    moreover have "f x \<noteq> Some k" using Cons.prems False map_filter_mem [of c xs f k] by (auto simp: map_filter_Cons split: option.splits)
    moreover have "distinct (List.map_filter f xs)" using Cons.prems by (simp add: map_filter_Cons split: option.splits)
    ultimately show ?thesis using Cons False by (auto simp: map_filter_Cons split: option.splits)
  qed
qed simp

definition page_inv :: "PageStore \<Rightarrow> bool" where
  "page_inv s \<longleftrightarrow>
     waiting load_key s = pp_inflightThreads s \<and> distinct (pp_inflightThreads s) \<and>
     (\<forall>k. ts_loading (thread k s) \<longleftrightarrow> k \<in> set (pp_inflightThreads s)) \<and>
     waiting decide_id s = pp_deciding s \<and> distinct (pp_deciding s) \<and>
     waiting history_call s = (if av_loading (pp_alter s) then [()] else []) \<and>
     (pp_historyAgain s \<longrightarrow> av_loading (pp_alter s))"

named_theorems page_ops \<open>the elementary steps of the page store\<close>

lemma thread_setThread [simp]: "thread k (setThread key t s) = (if k = key then t else thread k s)"
  by (simp add: thread_def setThread_def)

lemma thread_upd [simp]:
  "thread k (s\<lparr>pp_inflightThreads := a\<rparr>) = thread k s" "thread k (s\<lparr>pp_calls := b\<rparr>) = thread k s"
  "thread k (s\<lparr>pp_warm := c\<rparr>) = thread k s" "thread k (s\<lparr>pp_historyAgain := d\<rparr>) = thread k s"
  "thread k (s\<lparr>pp_historyTimer := e\<rparr>) = thread k s" "thread k (s\<lparr>pp_seq := g\<rparr>) = thread k s"
  "thread k (s\<lparr>pp_typingIdle := h\<rparr>) = thread k s" "thread k (s\<lparr>pp_typingSentAt := i\<rparr>) = thread k s"
  "thread k (s\<lparr>pp_persistTimer := j\<rparr>) = thread k s" "thread k (s\<lparr>pp_storage := l\<rparr>) = thread k s"
  "thread k (s\<lparr>pp_log := m\<rparr>) = thread k s" "thread k (s\<lparr>pp_net := n\<rparr>) = thread k s" "thread k (s\<lparr>pp_alter := q\<rparr>) = thread k s"
  "thread k (s\<lparr>pp_deciding := r\<rparr>) = thread k s" "thread k (s\<lparr>pp_nav := v\<rparr>) = thread k s"
  by (simp_all add: thread_def)

lemma thread_prims [simp]:
  "thread k (call c s) = thread k s" "thread k (set_nav f s) = thread k s" "thread k (setAlter g s) = thread k s"
  "thread k (set_deciding h s) = thread k s" "thread k (log_page l s) = thread k s" "thread k (on_net n s) = thread k s"
  "thread k (scheduleHistory s) = thread k s"
  by (simp_all add: call_def set_nav_def setAlter_def set_deciding_def log_page_def on_net_def scheduleHistory_def)

text \<open>What the invariant depends on, and the operations that leave it alone.\<close>

definition core :: "PageStore \<Rightarrow> page_call list \<times> string list \<times> (string \<Rightarrow> bool) \<times> string list \<times> bool \<times> bool" where
  "core s = (pp_calls s, pp_inflightThreads s, (\<lambda>k. ts_loading (thread k s)), pp_deciding s, av_loading (pp_alter s), pp_historyAgain s)"

lemma page_inv_core: "core t = core s \<Longrightarrow> page_inv t = page_inv s"
  by (simp add: core_def page_inv_def fun_eq_iff)

lemma core_prims [simp]:
  "core (set_nav f s) = core s" "core (log_page l s) = core s" "core (on_net n s) = core s" "core (scheduleHistory s) = core s"
  "core (s\<lparr>pp_typingIdle := h\<rparr>) = core s" "core (s\<lparr>pp_typingSentAt := i\<rparr>) = core s" "core (s\<lparr>pp_seq := g\<rparr>) = core s"
  "core (s\<lparr>pp_persistTimer := j\<rparr>) = core s" "core (s\<lparr>pp_warm := c\<rparr>) = core s" "core (s\<lparr>pp_historyTimer := e\<rparr>) = core s"
  "core (persist s) = core s"
  by (simp_all add: core_def set_nav_def log_page_def on_net_def scheduleHistory_def persist_def)

lemma core_setThread: "ts_loading t = ts_loading (thread key s) \<Longrightarrow> core (setThread key t s) = core s"
  by (simp add: core_def fun_eq_iff) (simp add: setThread_def)

lemma core_setAlter: "(\<And>a. av_loading (f a) = av_loading a) \<Longrightarrow> core (setAlter f s) = core s"
  by (simp add: core_def) (simp add: setAlter_def)

lemma thread_folds_loading [simp]:
  "ts_loading (applyInbound lc t f) = ts_loading t" "ts_loading (applyOutbound lc t e) = ts_loading t"
  "ts_loading (addOptimistic t c b n) = ts_loading t" "ts_loading (reconcileSend lc t c e) = ts_loading t"
  "ts_loading (failSend t c m) = ts_loading t" "ts_loading (dropEntry t c) = ts_loading t" "\<not> ts_loading (applyArchive lc t es w)"
  by (simp_all add: applyInbound_def applyOutbound_def addOptimistic_def reconcileSend_def failSend_def dropEntry_def applyArchive_def Let_def
      split: option.split)

lemma core_fold_thread: "(\<And>t. ts_loading (f t) = ts_loading t) \<Longrightarrow> core (fold_thread key f s) = core s"
  by (simp add: fold_thread_def core_setThread thread_def split: option.split)

lemma core_ops [simp]:
  "core (onFrame lc f s) = core s" "core (stopTyping fp s) = core s" "core (noteTyping now fp s) = core s" "core (idle_fires fp s) = core s"
  "core (persist_fires ok s) = core s" "core (close_page s) = core s" "core (setCol2Tab c2 s) = core s" "core (setPaneTab pt s) = core s"
  "core (snd (discard key cid s)) = core s" "core (optimistic now key text s) = core s" "core (send_answer lc fp cid r s) = core s"
  "core (sendGroup_answer lc key cid q s) = core s" "core (instruct_answer u s) = core s" "core (decided_entry lc fp e s) = core s"
  by (simp_all add: onFrame_def history_if_loaded_def core_fold_thread core_setAlter stopTyping_def noteTyping_def idle_fires_def
      persist_fires_def close_page_def setCol2Tab_def setPaneTab_def discard_def optimistic_def send_answer_def sendGroup_answer_def
      instruct_answer_def core_setThread decided_entry_def thread_def Let_def split: NetworkEventFrame.split option.split sum.split)

lemma page_inv_call:
  "load_key c = None \<Longrightarrow> decide_id c = None \<Longrightarrow> history_call c = None \<Longrightarrow> page_inv (call c s) = page_inv s"
  "load_key c = None \<Longrightarrow> decide_id c = None \<Longrightarrow> history_call c = None \<Longrightarrow> page_inv (s\<lparr>pp_calls := remove1 c (pp_calls s)\<rparr>) = page_inv s"
  by (simp_all add: page_inv_def call_def map_filter_remove1_None thread_def map_filter_Cons)

lemma page_inv_loadAlter: "page_inv s \<Longrightarrow> page_inv (loadAlter s)"
  by (auto simp: page_inv_def loadAlter_def call_def setAlter_def thread_def map_filter_Cons)

lemma page_inv_begin_load: "page_inv s \<Longrightarrow> page_inv (begin_load key w s)"
  by (simp add: page_inv_def begin_load_def Let_def) (auto simp: call_def setThread_def map_filter_Cons)

lemmas page_inv_loads [simp] =
  page_inv_begin_load [folded load_def] page_inv_begin_load [of _ "groupKey gid" for gid, folded loadGroup_def] page_inv_loadAlter

lemma page_inv_warm_upd [simp]: "page_inv (s\<lparr>pp_warm := w\<rparr>) = page_inv s"
  by (rule page_inv_core) simp

lemma page_inv_prefetch: "page_inv s \<Longrightarrow> page_inv (prefetch t s)"
  by (cases t) (simp_all add: prefetchFriend_def prefetchGroup_def)

lemma page_inv_warm: "page_inv s \<Longrightarrow> page_inv (warm ts s)"
proof (induction ts arbitrary: s)
  case (Cons t ts)
  then show ?case using page_inv_prefetch [of s t] by (auto simp: Let_def)
qed simp

lemma page_inv_go_on: "page_inv s \<Longrightarrow> page_inv (go_on key s)"
proof -
  have "page_inv u \<Longrightarrow> page_inv (fold (\<lambda>(k, ts) u. if k = key then warm ts u else u) ws u)" for ws u
    by (induction ws arbitrary: u) (auto simp: page_inv_warm)
  then show "page_inv s \<Longrightarrow> ?thesis" by (simp add: go_on_def)
qed

lemma page_inv_load_answer:
  assumes "page_inv s" "WLoad key n \<in> set (pp_calls s)"
  shows "page_inv (load_answer lc key n r (s\<lparr>pp_calls := remove1 (WLoad key n) (pp_calls s)\<rparr>))"
proof -
  let ?u = "s\<lparr>pp_calls := remove1 (WLoad key n) (pp_calls s)\<rparr>"
  have *: "page_inv ((setThread key t ?u)\<lparr>pp_inflightThreads := filter (\<lambda>k. k \<noteq> key) (pp_inflightThreads s)\<rparr>)" if "\<not> ts_loading t" for t
    using assms that unfolding page_inv_def
    by (auto simp: map_filter_remove1_Some [where k = key] map_filter_remove1_None) (simp_all add: setThread_def map_filter_remove1_Some [where k = key] map_filter_remove1_None)
  have inflight: "pp_inflightThreads (setThread key t ?u) = pp_inflightThreads s" for t by (simp add: setThread_def)
  show ?thesis unfolding load_answer_def Let_def
    by (rule page_inv_go_on) (cases r; simp add: inflight *)
qed

lemma page_inv_history_answer:
  assumes "page_inv s" "WHistory \<in> set (pp_calls s)"
  shows "page_inv (loadAlter_answer r (s\<lparr>pp_calls := remove1 WHistory (pp_calls s)\<rparr>))"
proof -
  let ?u = "s\<lparr>pp_calls := remove1 WHistory (pp_calls s)\<rparr>"
  have d: "distinct (waiting history_call s)" using assms(1) by (simp add: page_inv_def)
  have l: "av_loading (pp_alter s)" using assms map_filter_mem [of WHistory "pp_calls s" history_call "()"] by (auto simp: page_inv_def split: if_splits)
  have "waiting history_call ?u = []" using map_filter_remove1_Some [OF d assms(2)] by simp
  then have *: "page_inv (t\<lparr>pp_historyAgain := False\<rparr>)" if "\<exists>f. t = setAlter f ?u \<and> (\<forall>a. \<not> av_loading (f a))" for t
    using assms(1) that by (auto simp: page_inv_def map_filter_remove1_None) (simp_all add: setAlter_def map_filter_remove1_None)
  have **: "page_inv t" if "\<exists>f. t = setAlter f ?u \<and> (\<forall>a. \<not> av_loading (f a))" "\<not> pp_historyAgain t" for t
  proof -
    have "t\<lparr>pp_historyAgain := False\<rparr> = t" using that(2) by simp
    then show ?thesis using * [OF that(1)] by simp
  qed
  show ?thesis
    by (cases r) (auto simp: loadAlter_answer_def Let_def simp del: thread_prims intro!: * ** page_inv_loadAlter)
qed

lemma page_inv_decide_answer:
  assumes "page_inv s" "WDecide i d \<in> set (pp_calls s)"
  shows "page_inv (decideDraft_answer lc i r (s\<lparr>pp_calls := remove1 (WDecide i d) (pp_calls s)\<rparr>))"
proof -
  let ?u = "s\<lparr>pp_calls := remove1 (WDecide i d) (pp_calls s)\<rparr>"
  have d: "distinct (waiting decide_id s)" using assms(1) by (simp add: page_inv_def)
  have e: "waiting decide_id ?u = filter (\<lambda>j. j \<noteq> i) (waiting decide_id s)" using map_filter_remove1_Some [OF d assms(2)] by simp
  have *: "page_inv (set_deciding (filter (\<lambda>j. j \<noteq> i)) t)" if "core t = core ?u" for t
  proof -
    have "core (set_deciding (filter (\<lambda>j. j \<noteq> i)) t) = core (set_deciding (filter (\<lambda>j. j \<noteq> i)) ?u)"
      using that by (simp add: core_def) (simp add: set_deciding_def)
    moreover have "page_inv (set_deciding (filter (\<lambda>j. j \<noteq> i)) ?u)"
      using assms(1) e by (simp add: set_deciding_def page_inv_def map_filter_remove1_None thread_def)
    ultimately show ?thesis using page_inv_core by blast
  qed
  show ?thesis unfolding decideDraft_answer_def Let_def
    by (rule *) (simp add: core_setAlter split: sum.split prod.split option.split)
qed

lemma page_inv_refetch: "page_inv s \<Longrightarrow> page_inv (refetchLoadedThreads s)"
proof -
  have "page_inv u \<Longrightarrow> page_inv (fold refetch_one kts u)" for kts u
    by (induction kts arbitrary: u) (auto simp: refetch_one_def split: option.split)
  then show "page_inv s \<Longrightarrow> ?thesis" by (simp add: refetchLoadedThreads_def)
qed

lemma page_inv_nav [simp]: "page_inv (set_nav f s) = page_inv s"
  by (rule page_inv_core) simp

lemma page_inv_prime: "page_inv s \<Longrightarrow> page_inv (prime k s)"
  by (simp add: prime_def split: option.split)

lemma page_inv_open: "page_inv s \<Longrightarrow> page_inv (open_page sel s)"
  by (simp add: open_page_def page_inv_prime Let_def)

lemma page_inv_decide: "page_inv s \<Longrightarrow> page_inv (decideDraft i d s)"
  by (simp add: decideDraft_def page_inv_def) (auto simp: call_def set_deciding_def map_filter_Cons)

lemma page_inv_keep: "page_inv s \<Longrightarrow> core t = core s \<Longrightarrow> page_inv t"
  using page_inv_core by blast

text \<open>A call that none of the flags speaks of, answered by a step that leaves them alone.\<close>

lemma page_inv_answered:
  assumes "page_inv s" "load_key c = None" "decide_id c = None" "history_call c = None" "\<And>u. core (k u) = core u"
  shows "page_inv (answered c k s)"
  using assms page_inv_keep [of "s\<lparr>pp_calls := remove1 c (pp_calls s)\<rparr>" "k (s\<lparr>pp_calls := remove1 c (pp_calls s)\<rparr>)"]
  by (simp add: answered_def page_inv_call(2))

lemma page_inv_listener: "page_inv s \<Longrightarrow> page_inv (page_listener lc e s)"
  by (auto simp: page_listener_def page_inv_refetch intro: page_inv_keep split: net_event.split option.split)

lemma page_inv_step:
  assumes "page_inv s"
  shows "page_inv (page_step lc e s)"
proof (cases e)
  case (AHistory r)
  then show ?thesis using assms page_inv_history_answer by (simp add: answered_def)
next
  case (ADecide i d r)
  then show ?thesis using assms page_inv_decide_answer by (simp add: answered_def)
next
  case (ALoad key n r)
  then show ?thesis using assms page_inv_load_answer by (simp add: answered_def)
next
  case (PHistoryTimer)
  then show ?thesis using assms page_inv_loadAlter [OF page_inv_keep [OF assms core_prims(10)]] by (simp add: history_fires_def)
next
  case (PInstruct t)
  then show ?thesis using page_inv_keep [OF assms core_setAlter] assms by (simp add: instruct_def page_inv_call Let_def)
next
  case (PSend now fp body)
  then show ?thesis using page_inv_keep [OF assms, of "stopTyping fp (optimistic now fp (trimEnd body) s)"] assms by (simp add: send_def page_inv_call Let_def)
next
  case (PSendGroup now gid body b)
  then show ?thesis using page_inv_keep [OF assms, of "optimistic now (groupKey gid) (trimEnd body) s"] assms by (simp add: sendGroup_def page_inv_call Let_def)
next
  case (PNet e)
  then show ?thesis using page_inv_keep [OF page_inv_listener [OF assms], of "on_net (net_step e) (page_listener lc e s)"] by simp
qed (use assms in \<open>auto simp: page_inv_open page_inv_decide select_def page_inv_prime toggle_def loadOlder_def loadOlderGroup_def Let_def page_inv_warm
      intro: page_inv_keep page_inv_answered\<close>)

lemma page_inv_new: "page_inv (new_PageStore storage hidden)"
  by (simp add: page_inv_def new_PageStore_def thread_def EMPTY_THREAD_def EMPTY_ALTER_def)

lemma page_inv_run: "page_inv s \<Longrightarrow> page_inv (page_run lc es s)"
  by (induction es arbitrary: s) (simp_all add: page_run_def page_inv_step)

text \<open>
  C32. Requests of the page exclude each other, in every history of clicks, timers, frames and answers in any order: a
  thread has at most one archive request out and is shown as loading exactly while it has one; a draft has at most one
  decision out, and is shown as being decided exactly then; at most one transcript request is out, exactly while the
  alter is shown as loading; and a refetch of the transcript asked for meanwhile is made as soon as the running one ends.
\<close>

theorem page_requests_exclusive:
  "let s = page_run lc es (new_PageStore storage hidden) in
     distinct (waiting load_key s) \<and> (\<forall>k. ts_loading (thread k s) \<longleftrightarrow> k \<in> set (waiting load_key s)) \<and>
     distinct (waiting decide_id s) \<and> set (pp_deciding s) = set (waiting decide_id s) \<and>
     length (waiting history_call s) \<le> 1 \<and> (av_loading (pp_alter s) \<longleftrightarrow> waiting history_call s \<noteq> []) \<and>
     (pp_historyAgain s \<longrightarrow> waiting history_call (page_step lc (AHistory r) s) = [()])"
proof -
  let ?s = "page_run lc es (new_PageStore storage hidden)"
  have inv: "page_inv ?s" by (intro page_inv_run page_inv_new)
  have "waiting history_call (page_step lc (AHistory r) ?s) = [()]" if again: "pp_historyAgain ?s"
  proof -
    have "waiting history_call ?s = [()]" using inv again by (simp add: page_inv_def)
    then have "() \<in> set (waiting history_call ?s)" by simp
    then obtain c where c: "c \<in> set (pp_calls ?s)" "history_call c = Some ()" unfolding set_map_filter by blast
    have "c = WHistory" by (cases c) (use c(2) in simp_all)
    then have "page_step lc (AHistory r) ?s = loadAlter_answer r (?s\<lparr>pp_calls := remove1 WHistory (pp_calls ?s)\<rparr>)"
      using c(1) by (simp add: answered_def)
    moreover have "page_inv (page_step lc (AHistory r) ?s)" by (rule page_inv_step [OF inv])
    moreover have "av_loading (pp_alter (loadAlter_answer r (?s\<lparr>pp_calls := remove1 WHistory (pp_calls ?s)\<rparr>)))"
      using again by (cases r) (auto simp: loadAlter_answer_def setAlter_def loadAlter_def call_def)
    ultimately show ?thesis by (simp add: page_inv_def)
  qed
  then show ?thesis using inv by (auto simp: page_inv_def Let_def)
qed

theorem page_requests_exclusive_witness:
  "waiting history_call (page_step code_unit_compare (AHistory (Inl ''busy''))
     (page_run code_unit_compare [PLoadAlter, PLoadAlter] (new_PageStore None False))) = [()]"
proof -
  have "pp_historyAgain (page_run code_unit_compare [PLoadAlter, PLoadAlter] (new_PageStore None False))"
    by (simp add: page_run_def loadAlter_def new_PageStore_def EMPTY_ALTER_def setAlter_def call_def)
  then show ?thesis
    using page_requests_exclusive [of code_unit_compare "[PLoadAlter, PLoadAlter]" None False "Inl ''busy''"] by (simp add: Let_def)
qed

section \<open>Elementary steps\<close>

text \<open>Everything but typing signals and the write of the navigation is made of these updates.\<close>

inductive prims :: "PageStore \<Rightarrow> PageStore \<Rightarrow> bool" for s where
  same: "prims s s"
| nav: "prims s t \<Longrightarrow> prims s (set_nav f t)"
| thread: "prims s t \<Longrightarrow> prims s (setThread k x t)"
| alter: "prims s t \<Longrightarrow> prims s (setAlter g t)"
| deciding: "prims s t \<Longrightarrow> prims s (set_deciding d t)"
| called: "prims s t \<Longrightarrow> prims s (call c t)"
| calls: "prims s t \<Longrightarrow> prims s (t\<lparr>pp_calls := cs\<rparr>)"
| inflight: "prims s t \<Longrightarrow> prims s (t\<lparr>pp_inflightThreads := ks\<rparr>)"
| warming: "prims s t \<Longrightarrow> prims s (t\<lparr>pp_warm := ws\<rparr>)"
| again: "prims s t \<Longrightarrow> prims s (t\<lparr>pp_historyAgain := b\<rparr>)"
| timer: "prims s t \<Longrightarrow> prims s (t\<lparr>pp_historyTimer := b\<rparr>)"
| count: "prims s t \<Longrightarrow> prims s (t\<lparr>pp_seq := n\<rparr>)"
| net: "prims s t \<Longrightarrow> prims s (on_net h t)"
| log: "prims s t \<Longrightarrow> \<not> is_LTyping l \<Longrightarrow> prims s (log_page l t)"

named_theorems prim_ops \<open>operations made of elementary steps\<close>

declare prims.intros [prim_ops]

lemma prims_loads [prim_ops]:
  "prims s t \<Longrightarrow> prims s (scheduleHistory t)" "prims s t \<Longrightarrow> prims s (loadAlter t)" "prims s t \<Longrightarrow> prims s (begin_load k w t)"
  "prims s t \<Longrightarrow> prims s (load k w t)" "prims s t \<Longrightarrow> prims s (loadGroup g w t)"
  by (simp_all add: scheduleHistory_def loadAlter_def begin_load_def load_def loadGroup_def Let_def prim_ops)

lemma prims_warm [prim_ops]: "prims s t \<Longrightarrow> prims s (warm ts t)"
proof (induction ts arbitrary: t)
  case (Cons x ts)
  have "prims s (prefetch x t)" using Cons.prems by (cases x) (simp_all add: prefetchFriend_def prefetchGroup_def prim_ops)
  then show ?case using Cons by (auto simp: Let_def intro: prim_ops)
qed simp

lemma prims_fold: "(\<And>x t. prims s t \<Longrightarrow> prims s (f x t)) \<Longrightarrow> prims s t \<Longrightarrow> prims s (fold f xs t)"
  by (induction xs arbitrary: t) auto

lemma prims_folds [prim_ops]:
  "prims s t \<Longrightarrow> prims s (go_on key t)" "prims s t \<Longrightarrow> prims s (refetchLoadedThreads t)"
  by (auto simp: go_on_def refetchLoadedThreads_def refetch_one_def intro!: prims_fold prim_ops split: option.split)

lemma prims_fold_thread [prim_ops]: "prims s t \<Longrightarrow> prims s (fold_thread k f t)"
  by (simp add: fold_thread_def prim_ops split: option.split)

lemma prims_pages [prim_ops]:
  "prims s t \<Longrightarrow> prims s (prime k t)" "prims s t \<Longrightarrow> prims s (close_page t)" "prims s t \<Longrightarrow> prims s (optimistic now k x t)"
  "prims s t \<Longrightarrow> prims s (decided_entry lc fp e t)" "prims s t \<Longrightarrow> prims s (history_if_loaded t)"
  by (simp_all add: prime_def close_page_def optimistic_def decided_entry_def history_if_loaded_def Let_def prim_ops split: option.split)

lemma prims_open [prim_ops]: "prims s t \<Longrightarrow> prims s (open_page sel t)"
  by (simp add: open_page_def Let_def prim_ops)

lemma prims_frame [prim_ops]: "prims s t \<Longrightarrow> prims s (onFrame lc f t)"
  by (simp add: onFrame_def Let_def prim_ops split: NetworkEventFrame.split)

fun typing_event :: "page_event \<Rightarrow> bool" where
  "typing_event (PSend now fp body) = True"
| "typing_event (PTyping now fp) = True"
| "typing_event (PStopTyping fp) = True"
| "typing_event (PIdle fp) = True"
| "typing_event _ = False"

fun persist_event :: "page_event \<Rightarrow> bool" where
  "persist_event (PPersist ok) = True"
| "persist_event _ = False"

lemma prims_answered: "(\<And>t. prims s t \<Longrightarrow> prims s (k t)) \<Longrightarrow> prims s (answered c k s)"
  by (simp add: answered_def prim_ops)

lemma prims_answers [prim_ops]:
  "prims s t \<Longrightarrow> prims s (loadAlter_answer r1 t)" "prims s t \<Longrightarrow> prims s (instruct_answer r2 t)"
  "prims s t \<Longrightarrow> prims s (decideDraft_answer lc i r3 t)" "prims s t \<Longrightarrow> prims s (load_answer lc key n r4 t)"
  "prims s t \<Longrightarrow> prims s (send_answer lc key cid r5 t)" "prims s t \<Longrightarrow> prims s (sendGroup_answer lc key cid r6 t)"
  by (simp_all add: loadAlter_answer_def instruct_answer_def decideDraft_answer_def load_answer_def send_answer_def sendGroup_answer_def
      Let_def prim_ops split: sum.split option.split prod.split)

lemma prims_step:
  assumes "\<not> typing_event e" "\<not> persist_event e"
  shows "prims s (page_step lc e s)"
proof (cases e)
  case (PNet n)
  then show ?thesis by (simp add: page_listener_def prim_ops split: net_event.split option.split)
qed (use assms in \<open>simp_all add: history_fires_def instruct_def decideDraft_def toggle_def select_def setCol2Tab_def setPaneTab_def
      loadOlder_def loadOlderGroup_def sendGroup_def discard_def Let_def prim_ops prims_answered\<close>)

lemma prims_send: "prims (stopTyping fp (optimistic now fp (trimEnd body) s)) (page_step lc (PSend now fp body) s) \<or> page_step lc (PSend now fp body) s = s"
  by (simp add: send_def Let_def prim_ops)

section \<open>Typing signals\<close>

text \<open>What the friend was told last.\<close>

definition signalled :: "string \<Rightarrow> page_log list \<Rightarrow> bool" where
  "signalled fp ls = fold (\<lambda>l b. case l of LTyping f on \<Rightarrow> if f = fp then on else b | _ \<Rightarrow> b) ls False"

lemma signalled_snoc: "signalled fp (ls @ [l]) = (case l of LTyping f on \<Rightarrow> if f = fp then on else signalled fp ls | _ \<Rightarrow> signalled fp ls)"
  by (simp add: signalled_def split: page_log.split)

definition typing_inv :: "PageStore \<Rightarrow> bool" where
  "typing_inv s \<longleftrightarrow> (\<forall>fp. (signalled fp (pp_log s) \<longleftrightarrow> al_get (pp_typingSentAt s) fp \<noteq> None) \<and>
     (al_get (pp_typingSentAt s) fp \<noteq> None \<longrightarrow> fp \<in> set (pp_typingIdle s)))"

lemma typing_inv_prims: "prims s t \<Longrightarrow> typing_inv s \<Longrightarrow> typing_inv t"
proof (induction rule: prims.induct)
  case (log t l)
  then show ?case by (cases l) (simp_all add: typing_inv_def log_page_def signalled_snoc)
qed (simp_all add: typing_inv_def set_nav_def setThread_def setAlter_def set_deciding_def call_def on_net_def)

lemma typing_inv_stop: "typing_inv s \<Longrightarrow> typing_inv (stopTyping fp s)"
  by (auto simp: typing_inv_def stopTyping_def log_page_def signalled_snoc Let_def)

lemma typing_inv_persist: "typing_inv s \<Longrightarrow> typing_inv (persist_fires ok s)"
  by (simp add: typing_inv_def persist_fires_def persist_def Let_def)

lemma typing_inv_note: "typing_inv s \<Longrightarrow> typing_inv (noteTyping now fp s)"
  by (auto simp: typing_inv_def noteTyping_def log_page_def signalled_snoc Let_def)

lemma typing_inv_step:
  assumes "typing_inv s"
  shows "typing_inv (page_step lc e s)"
proof -
  consider "\<not> typing_event e" "\<not> persist_event e" | ok where "e = PPersist ok" | now fp body where "e = PSend now fp body"
    | now fp where "e = PTyping now fp" | fp where "e = PStopTyping fp" | fp where "e = PIdle fp"
    by (cases e) auto
  then show ?thesis
  proof cases
    case (3 now fp body)
    have "typing_inv (stopTyping fp (optimistic now fp (trimEnd body) s))"
      by (intro typing_inv_stop typing_inv_prims [OF _ assms] prim_ops)
    then show ?thesis using prims_send [of fp now body s lc] assms typing_inv_prims 3 by metis
  next
    case 1
    then show ?thesis using typing_inv_prims [OF prims_step assms] by blast
  qed (use assms in \<open>simp_all add: typing_inv_stop typing_inv_note typing_inv_persist idle_fires_def\<close>)
qed

lemma typing_inv_run: "typing_inv s \<Longrightarrow> typing_inv (page_run lc es s)"
  by (induction es arbitrary: s) (simp_all add: page_run_def typing_inv_step)

text \<open>
  A typing signal is always taken back: in every history, as long as a friend was told last that the owner is typing,
  the idle timer is running, and when it fires the friend is told that the owner has stopped. While the owner goes on
  typing, the signal is not repeated within four seconds.
\<close>

theorem typing_taken_back:
  "let s = page_run lc es (new_PageStore storage hidden) in
     signalled fp (pp_log s) \<longrightarrow>
       fp \<in> set (pp_typingIdle s) \<and>
       pp_log (page_step lc (PIdle fp) s) = pp_log s @ [LTyping fp False] \<and>
       (\<exists>t. al_get (pp_typingSentAt s) fp = Some t \<and>
          (\<forall>now. now - t \<le> TYPING_RESEND_MS \<longrightarrow> pp_log (page_step lc (PTyping now fp) s) = pp_log s))"
proof -
  have "typing_inv (new_PageStore storage hidden)" by (simp add: typing_inv_def new_PageStore_def signalled_def)
  then have "typing_inv (page_run lc es (new_PageStore storage hidden))" by (rule typing_inv_run)
  then show ?thesis
    by (auto simp: typing_inv_def Let_def idle_fires_def stopTyping_def noteTyping_def log_page_def)
qed

theorem typing_taken_back_witness:
  "pp_log (page_step code_unit_compare (PIdle ''fpA'') (page_run code_unit_compare [PTyping 9000 ''fpA''] (new_PageStore None False))) =
     [LTyping ''fpA'' True, LTyping ''fpA'' False]"
proof -
  have l: "pp_log (page_run code_unit_compare [PTyping 9000 ''fpA''] (new_PageStore None False)) = [LTyping ''fpA'' True]"
    by (simp add: page_run_def noteTyping_def new_PageStore_def log_page_def TYPING_RESEND_MS_def Let_def)
  then have "signalled ''fpA'' (pp_log (page_run code_unit_compare [PTyping 9000 ''fpA''] (new_PageStore None False)))"
    by (simp add: signalled_def)
  then show ?thesis
    using typing_taken_back [of code_unit_compare "[PTyping 9000 ''fpA'']" None False "''fpA''"] l by (simp add: Let_def)
qed

section \<open>The navigation survives a reload\<close>

definition clamped :: "navigation \<Rightarrow> navigation" where
  "clamped n = n\<lparr>nv_paneTab := (if nv_paneTab n \<in> set (tabsFor (kindOf (nv_selected n)) False) then nv_paneTab n else DEFAULT_PANE_TAB)\<rparr>"

lemma tab_names: "map_of PANE_TABS (pane_name t) = Some t" "map_of COL2_TABS (col2_name c) = Some c"
  by (cases t; simp add: PANE_TABS_def) (cases c; simp add: COL2_TABS_def)

lemma persisted_read_back: "loadPersistedPage (pp_storage (persist s)) = clamped (pp_nav s)"
proof -
  let ?v = "JObj (obj_fields [(''open'', Some (JBool (nv_open (pp_nav s)))), (''selected'', map_option JStr (nv_selected (pp_nav s))),
    (''col2Tab'', Some (JStr (col2_name (nv_col2Tab (pp_nav s))))), (''paneTab'', Some (JStr (pane_name (nv_paneTab (pp_nav s)))))])"
  have "JSON_parse (JSON_stringify ?v) = Some ?v"
    by (rule JSON_parse_stringify) (auto simp: obj_fields_def opt_field_def al_wf_def split: option.split)
  moreover have "str_opt (map_option JStr x) = x" for x by (cases x) simp_all
  ultimately show ?thesis
    by (simp add: loadPersistedPage_def persist_def map_of_obj_fields clampPaneTab_def clamped_def tab_names Let_def)
qed

lemma clamped_loaded: "clamped (loadPersistedPage st) = loadPersistedPage st"
  by (simp add: loadPersistedPage_def clamped_def clampPaneTab_def nav_fallback_def DEFAULT_PANE_TAB_def tabsFor_def Let_def
      split: option.split json.split SelectionKind.split)

definition nav_inv :: "PageStore \<Rightarrow> bool" where
  "nav_inv s \<longleftrightarrow> pp_persistTimer s \<or> loadPersistedPage (pp_storage s) = clamped (pp_nav s)"

lemma nav_inv_prims: "prims s t \<Longrightarrow> nav_inv s \<Longrightarrow> nav_inv t"
  by (induction rule: prims.induct)
    (simp_all add: nav_inv_def set_nav_def setThread_def setAlter_def set_deciding_def call_def on_net_def log_page_def)

lemma nav_inv_typing: "nav_inv (stopTyping fp s) = nav_inv s" "nav_inv (noteTyping now fp s) = nav_inv s"
  by (simp_all add: nav_inv_def stopTyping_def noteTyping_def log_page_def Let_def)

lemma nav_inv_step:
  assumes "nav_inv s" "e \<noteq> PPersist False"
  shows "nav_inv (page_step lc e s)"
proof -
  consider "\<not> typing_event e" "\<not> persist_event e" | "e = PPersist True" | now fp body where "e = PSend now fp body"
    | now fp where "e = PTyping now fp" | fp where "e = PStopTyping fp" | fp where "e = PIdle fp"
    using assms(2) by (cases e) auto
  then show ?thesis
  proof cases
    case (3 now fp body)
    have "nav_inv (stopTyping fp (optimistic now fp (trimEnd body) s))"
      unfolding nav_inv_typing by (intro nav_inv_prims [OF _ assms(1)] prim_ops)
    then show ?thesis using prims_send [of fp now body s lc] assms nav_inv_prims 3 by metis
  next
    case 1
    then show ?thesis using nav_inv_prims [OF prims_step assms(1)] by blast
  next
    case 2
    then show ?thesis using persisted_read_back [of "s\<lparr>pp_persistTimer := False\<rparr>"] assms(1)
      by (cases "pp_persistTimer s") (simp_all add: persist_fires_def nav_inv_def persist_def Let_def del: JSON_stringify.simps)
  qed (use assms in \<open>simp_all add: nav_inv_typing idle_fires_def\<close>)
qed

text \<open>
  The navigation survives a reload: in every history in which the browser's storage takes the writes, once no write is
  pending, a page that is opened anew has the same open state, selection and list, and the same panel, except that a
  panel the selection does not offer to everybody is replaced by the chat; and what a reload gives is offered by the
  selection, whatever is in the storage.
\<close>

theorem navigation_survives_reload:
  "(let s = page_run lc es (new_PageStore storage hidden); n = pp_nav s; n' = pp_nav (new_PageStore (pp_storage s) h) in
      list_all (\<lambda>e. e \<noteq> PPersist False) es \<and> \<not> pp_persistTimer s \<longrightarrow>
        nv_open n' = nv_open n \<and> nv_selected n' = nv_selected n \<and> nv_col2Tab n' = nv_col2Tab n \<and>
        nv_paneTab n' = (if nv_paneTab n \<in> set (tabsFor (kindOf (nv_selected n)) False) then nv_paneTab n else TabChat)) \<and>
   nv_paneTab (pp_nav (new_PageStore storage hidden)) \<in> set (tabsFor (kindOf (nv_selected (pp_nav (new_PageStore storage hidden)))) False)"
proof (intro conjI)
  have "nav_inv (new_PageStore storage hidden)" by (simp add: nav_inv_def new_PageStore_def clamped_loaded)
  then have *: "list_all (\<lambda>e. e \<noteq> PPersist False) es \<Longrightarrow> nav_inv (page_run lc es (new_PageStore storage hidden))"
    by (induction es arbitrary: rule: rev_induct) (simp_all add: page_run_def nav_inv_step)
  show "let s = page_run lc es (new_PageStore storage hidden); n = pp_nav s; n' = pp_nav (new_PageStore (pp_storage s) h) in
      list_all (\<lambda>e. e \<noteq> PPersist False) es \<and> \<not> pp_persistTimer s \<longrightarrow>
        nv_open n' = nv_open n \<and> nv_selected n' = nv_selected n \<and> nv_col2Tab n' = nv_col2Tab n \<and>
        nv_paneTab n' = (if nv_paneTab n \<in> set (tabsFor (kindOf (nv_selected n)) False) then nv_paneTab n else TabChat)"
    using * by (auto simp: nav_inv_def Let_def new_PageStore_def clamped_def DEFAULT_PANE_TAB_def)
  have "nv_paneTab (clamped (loadPersistedPage storage)) \<in> set (tabsFor (kindOf (nv_selected (loadPersistedPage storage))) False)"
    by (simp add: clamped_def DEFAULT_PANE_TAB_def tabsFor_def split: SelectionKind.split)
  then show "nv_paneTab (pp_nav (new_PageStore storage hidden)) \<in> set (tabsFor (kindOf (nv_selected (pp_nav (new_PageStore storage hidden)))) False)"
    by (simp add: clamped_loaded new_PageStore_def)
qed

theorem navigation_survives_reload_witness:
  "nv_selected (pp_nav (new_PageStore (pp_storage (page_run code_unit_compare [PSelect ''g:7'', PPane TabAdmin, PPersist True] (new_PageStore None False))) False))
     = Some ''g:7''"
proof -
  let ?s = "page_run code_unit_compare [PSelect ''g:7'', PPane TabAdmin, PPersist True] (new_PageStore None False)"
  have "\<not> pp_persistTimer ?s" by (simp add: page_run_def persist_fires_def persist_def Let_def)
  moreover have "nv_selected (pp_nav ?s) = Some ''g:7''"
    by (simp add: page_run_def persist_fires_def persist_def select_def setPaneTab_def set_nav_def prime_def loadGroup_def begin_load_def
        gidOf_def ALTER_KEY_def GROUP_PREFIX_def startsWith_def setThread_def call_def new_PageStore_def loadPersistedPage_def nav_fallback_def Let_def)
  ultimately show ?thesis
    using navigation_survives_reload [of code_unit_compare "[PSelect ''g:7'', PPane TabAdmin, PPersist True]" None False False] by (simp add: Let_def)
qed

section \<open>Bubbles and their sends\<close>

text \<open>The client ids in a thread, and those of the bubbles shown as being sent.\<close>

definition cids :: "ThreadEntry list \<Rightarrow> string list" where
  "cids es = List.map_filter te_clientId es"

definition sending :: "ThreadEntry list \<Rightarrow> string option set" where
  "sending es = te_clientId ` {e \<in> set es. te_status e = Some ''sending''}"

definition foreign :: "ThreadEntry \<Rightarrow> bool" where
  "foreign e \<longleftrightarrow> te_clientId e = None \<and> te_status e \<noteq> Some ''sending''"

lemma cids_simps [simp]: "cids [] = []" "cids (xs @ ys) = cids xs @ cids ys"
  "cids (e # es) = (case te_clientId e of None \<Rightarrow> [] | Some c \<Rightarrow> [c]) @ cids es"
  by (simp_all add: cids_def map_filter_Cons split: option.split)

lemma set_cids: "set (cids es) = {c. \<exists>e \<in> set es. te_clientId e = Some c}"
  by (auto simp: cids_def set_map_filter)

lemma mset_cids: "mset (cids es) = image_mset the (filter_mset (\<lambda>x. x \<noteq> None) (image_mset te_clientId (mset es)))"
  by (induction es) (auto split: option.split)

lemma cids_sort: "mset (cids (sortThread lc es)) = mset (cids es)" "sending (sortThread lc es) = sending es"
  by (simp_all add: mset_cids sending_def)

lemma cids_update: "i < length es \<Longrightarrow> te_clientId e = te_clientId (es ! i) \<Longrightarrow> cids (es[i := e]) = cids es"
proof (induction es arbitrary: i)
  case (Cons x es)
  then show ?case by (cases i) auto
qed simp

lemma merge_one_cids:
  assumes "foreign e"
  shows "cids (ms_next (merge_one e m)) = cids (ms_next m) \<and> sending (ms_next (merge_one e m)) \<subseteq> sending (ms_next m)"
proof (cases "merge_index e m")
  case None
  then show ?thesis using assms by (auto simp: merge_one_def foreign_def index_entry_def sending_def)
next
  case (Some i)
  let ?x = "spread_entry (ms_next m ! i) e"
  have n: "ms_next (merge_one e m) = (ms_next m)[i := ?x]" using Some by (simp add: merge_one_def index_entry_def Let_def)
  show ?thesis
  proof (cases "i < length (ms_next m)")
    case True
    have c: "te_clientId ?x = te_clientId (ms_next m ! i)" using assms by (simp add: spread_entry_def foreign_def over_def split: option.split)
    have "te_status (ms_next m ! i) = Some ''sending''" if "te_status ?x = Some ''sending''"
      using that assms by (simp add: spread_entry_def foreign_def over_def split: option.splits)
    then have "sending ((ms_next m)[i := ?x]) \<subseteq> sending (ms_next m)"
      using c True set_update_subset_insert [of "ms_next m" i ?x] by (fastforce simp: sending_def)
    then show ?thesis using n cids_update [OF True c] by simp
  qed (simp add: n list_update_beyond)
qed

lemma index_all_next: "ms_next (index_all es) = es"
proof -
  have "ms_next (fold (\<lambda>(i, e). index_entry i e) xs m) = ms_next m" for xs m
    by (induction xs arbitrary: m) (auto simp: index_entry_def)
  then show ?thesis by (simp add: index_all_def)
qed

lemma merge_cids:
  assumes "list_all foreign xs"
  shows "mset (cids (mergeEntries lc es xs)) = mset (cids es) \<and> sending (mergeEntries lc es xs) \<subseteq> sending es"
proof -
  have "cids (ms_next (fold merge_one xs m)) = cids (ms_next m) \<and> sending (ms_next (fold merge_one xs m)) \<subseteq> sending (ms_next m)" for m
    using assms
  proof (induction xs arbitrary: m)
    case (Cons x xs)
    then show ?case using merge_one_cids [of x m] by fastforce
  qed simp
  from this [of "index_all es"] show ?thesis by (simp add: mergeEntries_def cids_sort index_all_next)
qed

definition clean :: "ApiEntry \<Rightarrow> bool" where
  "clean e \<longleftrightarrow> ae_status e \<noteq> Some ''sending''"

lemma foreign_api [simp]: "foreign (entryFromApi e) \<longleftrightarrow> clean e"
  by (simp add: foreign_def entryFromApi_def clean_def)

lemma foreign_inbound [simp]: "foreign (inbound_entry f)"
  by (simp add: foreign_def inbound_entry_def)

text \<open>A fold of a thread that adds no client id and starts no bubble.\<close>

definition tame :: "ThreadState \<Rightarrow> ThreadState \<Rightarrow> bool" where
  "tame t u \<longleftrightarrow> mset (cids (ts_entries u)) = mset (cids (ts_entries t)) \<and> sending (ts_entries u) \<subseteq> sending (ts_entries t)"

lemma tame_folds:
  "tame t (applyInbound lc t f)"
  "clean e \<Longrightarrow> tame t (applyOutbound lc t e)"
  "list_all clean es \<Longrightarrow> tame t (applyArchive lc t es w)"
  "tame t (t\<lparr>ts_loading := a, ts_loaded := b, ts_error := c\<rparr>)" "tame t (t\<lparr>ts_loading := a\<rparr>)"
  using merge_cids [of "[inbound_entry f]" lc "ts_entries t"] merge_cids [of "[entryFromApi e]" lc "ts_entries t"]
    merge_cids [of "map entryFromApi es" lc "ts_entries t"]
  by (simp_all add: tame_def applyInbound_def applyOutbound_def applyArchive_def list.pred_map comp_def Let_def)

lemma tame_cids:
  assumes "tame t u"
  shows "distinct (cids (ts_entries u)) = distinct (cids (ts_entries t)) \<and> set (cids (ts_entries u)) = set (cids (ts_entries t))"
  using assms mset_eq_imp_distinct_iff [of "cids (ts_entries u)" "cids (ts_entries t)"] mset_eq_setD [of "cids (ts_entries u)" "cids (ts_entries t)"]
  by (simp add: tame_def)

text \<open>The end of a send: its id is no longer among the bubbles being sent.\<close>

definition ends_send :: "string \<Rightarrow> ThreadState \<Rightarrow> ThreadState \<Rightarrow> bool" where
  "ends_send c t u \<longleftrightarrow> (distinct (cids (ts_entries t)) \<longrightarrow> distinct (cids (ts_entries u)) \<and> set (cids (ts_entries u)) \<subseteq> set (cids (ts_entries t)) \<and>
     sending (ts_entries u) \<subseteq> sending (ts_entries t) - {Some c})"

lemma ends_fail: "ends_send c t (failSend t c m)"
proof -
  have "cids (map (\<lambda>e. if te_clientId e = Some c then e\<lparr>te_status := Some ''failed'', te_error := Some m\<rparr> else e) es) = cids es" for es
    by (induction es) auto
  then show ?thesis by (auto simp: ends_send_def failSend_def sending_def)
qed

lemma cids_filter: "distinct (cids es) \<Longrightarrow> distinct (cids (filter P es)) \<and> set (cids (filter P es)) \<subseteq> set (cids es)"
  by (induction es) (auto simp: set_cids split: option.splits)

lemma ends_drop: "ends_send c t (dropEntry t c)"
  using cids_filter [of "ts_entries t" "\<lambda>e. te_clientId e \<noteq> Some c"] by (auto simp: ends_send_def dropEntry_def sending_def)

lemma findIndex_nth: "findIndex P xs = Some i \<Longrightarrow> i < length xs \<and> P (xs ! i)"
  by (induction xs arbitrary: i) (auto split: if_splits)

lemma findIndex_none: "findIndex P xs = None \<longleftrightarrow> (\<forall>x \<in> set xs. \<not> P x)"
  by (induction xs) auto

text \<open>With distinct ids, the bubble of a send is the only entry with its id.\<close>

lemma cid_unique:
  "distinct (cids es) \<Longrightarrow> i < length es \<Longrightarrow> j < length es \<Longrightarrow> te_clientId (es ! i) = Some c \<Longrightarrow> te_clientId (es ! j) = Some c \<Longrightarrow> i = j"
proof (induction es arbitrary: i j)
  case (Cons e es)
  have "c \<in> set (cids es)" if "k < length es" "te_clientId (es ! k) = Some c" for k
    using that nth_mem by (fastforce simp: set_cids)
  then show ?case using Cons by (cases i; cases j) auto
qed simp

lemma keep_at_mem: "x \<in> set (keep_at i P xs) \<Longrightarrow> \<exists>j < length xs. x = xs ! j \<and> (j = i \<or> P x)"
  by (auto simp: keep_at_def in_set_enumerate_eq)

lemma keep_at_cids: "distinct (cids xs) \<Longrightarrow> distinct (cids (keep_at i P xs)) \<and> set (cids (keep_at i P xs)) \<subseteq> set (cids xs)"
proof -
  have "distinct (cids xs) \<longrightarrow> distinct (cids (map snd (filter Q (enumerate n xs)))) \<and> set (cids (map snd (filter Q (enumerate n xs)))) \<subseteq> set (cids xs)" for Q n
    by (induction xs arbitrary: n) (auto split: option.splits)
  then show "distinct (cids xs) \<Longrightarrow> ?thesis" by (simp add: keep_at_def)
qed

lemma ends_reconcile:
  assumes "clean e"
  shows "ends_send c t (reconcileSend lc t c e)"
proof (cases "findIndex (\<lambda>x. te_clientId x = Some c) (ts_entries t)")
  case None
  then have "Some c \<notin> sending (ts_entries t)" by (auto simp: findIndex_none sending_def)
  moreover have "reconcileSend lc t c e = applyOutbound lc t e" using None by (simp add: reconcileSend_def applyOutbound_def Let_def)
  then have u: "tame t (reconcileSend lc t c e)" using tame_folds(2) [OF assms, of t lc] by simp
  ultimately show ?thesis using tame_cids [OF u] u unfolding ends_send_def tame_def by blast
next
  case (Some i)
  let ?es = "ts_entries t" and ?a = "(entryFromApi e)\<lparr>te_clientId := Some c\<rparr>"
  define P where "P = (\<lambda>x :: ThreadEntry. \<not> (te_seq x > 0 \<and> te_seq x = te_seq (entryFromApi e)) \<and> te_id x \<noteq> te_id (entryFromApi e))"
  have i: "i < length ?es" "te_clientId (?es ! i) = Some c" using findIndex_nth [OF Some] by auto
  have r: "ts_entries (reconcileSend lc t c e) = sortThread lc (keep_at i P (?es[i := ?a]))"
    using Some by (simp add: reconcileSend_def P_def Let_def)
  have cids: "cids (?es[i := ?a]) = cids ?es" using cids_update [OF i(1), of ?a] i(2) by simp
  have *: "te_clientId x \<noteq> Some c \<and> x \<in> set ?es" if "distinct (cids ?es)" "x \<in> set (keep_at i P (?es[i := ?a]))" "te_status x = Some ''sending''" for x
  proof -
    from keep_at_mem [OF that(2)] obtain j where j: "j < length ?es" "x = ?es[i := ?a] ! j" by auto
    then have "j \<noteq> i" using that(3) assms i(1) by (auto simp: entryFromApi_def clean_def)
    then show ?thesis using j cid_unique [OF that(1) i(1) j(1) i(2)] by auto
  qed
  have "sending (keep_at i P (?es[i := ?a])) \<subseteq> sending ?es - {Some c}" if "distinct (cids ?es)"
  proof
    fix y assume "y \<in> sending (keep_at i P (?es[i := ?a]))"
    then obtain x where x: "x \<in> set (keep_at i P (?es[i := ?a]))" "te_status x = Some ''sending''" "y = te_clientId x"
      unfolding sending_def by blast
    show "y \<in> sending ?es - {Some c}" using * [OF that x(1,2)] x(2,3) by (simp add: sending_def)
  qed
  moreover have "distinct (cids (sortThread lc xs)) = distinct (cids xs) \<and> set (cids (sortThread lc xs)) = set (cids xs)" for xs
    by (metis cids_sort(1) mset_eq_imp_distinct_iff mset_eq_setD)
  ultimately show ?thesis using keep_at_cids [of "?es[i := ?a]" i P] by (simp add: ends_send_def r cids cids_sort(2))
qed

lemma client_id_inj: "client_id t n = client_id u m \<Longrightarrow> n = m"
proof -
  have "takeWhile (\<lambda>c. c \<noteq> CHR ''-'') (rev (client_id t n)) = rev (show_nat n)" for t n
  proof -
    have "\<forall>c \<in> set (rev (show_nat n)). c \<noteq> CHR ''-''" using show_nat_digits [of n] by (auto simp: is_digit_def)
    then show ?thesis by (simp add: client_id_def takeWhile_append)
  qed
  moreover assume "client_id t n = client_id u m"
  ultimately have "show_nat n = show_nat m" by (metis rev_is_rev_conv)
  then show "n = m" using show_nat_digits [of n] show_nat_digits [of m] by metis
qed

fun send_ref :: "page_call \<Rightarrow> (string \<times> string) option" where
  "send_ref (WSend k c t) = Some (k, c)" | "send_ref (WSendGroup k c t b) = Some (k, c)" | "send_ref _ = None"

fun settled_id :: "page_log \<Rightarrow> string option" where
  "settled_id (LSettled c b) = Some c" | "settled_id _ = None"

abbreviation settled :: "PageStore \<Rightarrow> string list" where
  "settled s \<equiv> List.map_filter settled_id (pp_log s)"

definition issued :: "PageStore \<Rightarrow> string \<Rightarrow> bool" where
  "issued s c \<longleftrightarrow> (\<exists>t n. c = client_id t n \<and> n \<le> pp_seq s)"

definition send_inv :: "PageStore \<Rightarrow> bool" where
  "send_inv s \<longleftrightarrow>
     (\<forall>k. distinct (cids (ts_entries (thread k s))) \<and> (\<forall>c \<in> set (cids (ts_entries (thread k s))). issued s c) \<and>
        (\<forall>x \<in> sending (ts_entries (thread k s)). \<exists>c. x = Some c \<and> (k, c) \<in> set (waiting send_ref s))) \<and>
     distinct (settled s @ map snd (waiting send_ref s)) \<and> (\<forall>c \<in> set (settled s @ map snd (waiting send_ref s)). issued s c)"

definition calm :: "PageStore \<Rightarrow> PageStore \<Rightarrow> bool" where
  "calm s t \<longleftrightarrow> (\<forall>k. tame (thread k s) (thread k t)) \<and> waiting send_ref t = waiting send_ref s \<and> settled t = settled s \<and> pp_seq t = pp_seq s"

lemma send_inv_calm: "send_inv s \<Longrightarrow> calm s t \<Longrightarrow> send_inv t"
proof -
  assume s: "send_inv s" and t: "calm s t"
  have "tame (thread k s) (thread k t)" for k using t by (simp add: calm_def)
  note this [THEN tame_cids] and this [unfolded tame_def, THEN conjunct2]
  then show "send_inv t" using s t unfolding send_inv_def calm_def issued_def by (simp add: subset_iff)
qed

lemma tame_refl [simp]: "tame t t"
  by (simp add: tame_def)

lemma tame_trans: "tame t u \<Longrightarrow> tame u v \<Longrightarrow> tame t v"
  by (auto simp: tame_def)

lemma calm_refl [simp]: "calm s s"
  by (simp add: calm_def)

named_theorems calm_ops \<open>operations that start and end no send\<close>

lemma calm_prims [calm_ops]:
  "calm s t \<Longrightarrow> calm s (set_nav f t)" "calm s t \<Longrightarrow> calm s (setAlter g t)" "calm s t \<Longrightarrow> calm s (set_deciding d t)"
  "calm s t \<Longrightarrow> calm s (t\<lparr>pp_inflightThreads := ks\<rparr>)" "calm s t \<Longrightarrow> calm s (t\<lparr>pp_warm := ws\<rparr>)" "calm s t \<Longrightarrow> calm s (t\<lparr>pp_historyAgain := b\<rparr>)"
  "calm s t \<Longrightarrow> calm s (t\<lparr>pp_historyTimer := b\<rparr>)" "calm s t \<Longrightarrow> calm s (on_net h t)" "calm s t \<Longrightarrow> settled_id l = None \<Longrightarrow> calm s (log_page l t)"
  "calm s t \<Longrightarrow> send_ref c = None \<Longrightarrow> calm s (call c t)" "calm s t \<Longrightarrow> send_ref c = None \<Longrightarrow> calm s (t\<lparr>pp_calls := remove1 c (pp_calls t)\<rparr>)"
  "calm s t \<Longrightarrow> calm s (t\<lparr>pp_typingIdle := h2\<rparr>)" "calm s t \<Longrightarrow> calm s (t\<lparr>pp_typingSentAt := i\<rparr>)"
  "calm s t \<Longrightarrow> calm s (t\<lparr>pp_persistTimer := j\<rparr>)" "calm s t \<Longrightarrow> calm s (t\<lparr>pp_storage := l2\<rparr>)"
  by (simp_all add: calm_def) (simp_all add: set_nav_def setAlter_def set_deciding_def on_net_def log_page_def call_def map_filter_Cons
      map_filter_remove1_None)

lemma calm_setThread [calm_ops]: "calm s t \<Longrightarrow> tame (thread k t) x \<Longrightarrow> calm s (setThread k x t)"
  by (auto simp: calm_def intro: tame_trans) (simp_all add: setThread_def)

lemma calm_loads [calm_ops]:
  "calm s t \<Longrightarrow> calm s (scheduleHistory t)" "calm s t \<Longrightarrow> calm s (loadAlter t)" "calm s t \<Longrightarrow> calm s (begin_load k w t)"
  "calm s t \<Longrightarrow> calm s (load k w t)" "calm s t \<Longrightarrow> calm s (loadGroup g w t)"
  by (simp_all add: scheduleHistory_def loadAlter_def begin_load_def load_def loadGroup_def Let_def calm_ops tame_folds)

lemma calm_warm [calm_ops]: "calm s t \<Longrightarrow> calm s (warm ts t)"
proof (induction ts arbitrary: t)
  case (Cons x ts)
  have "calm s (prefetch x t)" using Cons.prems by (cases x) (simp_all add: prefetchFriend_def prefetchGroup_def calm_ops)
  then show ?case using Cons by (auto simp: Let_def intro: calm_ops)
qed simp

lemma calm_fold: "(\<And>x t. calm s t \<Longrightarrow> calm s (f x t)) \<Longrightarrow> calm s t \<Longrightarrow> calm s (fold f xs t)"
  by (induction xs arbitrary: t) auto

lemma calm_folds [calm_ops]:
  "calm s t \<Longrightarrow> calm s (go_on key t)" "calm s t \<Longrightarrow> calm s (refetchLoadedThreads t)"
  by (auto simp: go_on_def refetchLoadedThreads_def refetch_one_def intro!: calm_fold calm_ops split: option.split)

lemma calm_fold_thread [calm_ops]: "calm s t \<Longrightarrow> (\<And>x. tame x (f x)) \<Longrightarrow> calm s (fold_thread k f t)"
  by (auto simp: fold_thread_def thread_def intro: calm_ops split: option.split)

lemma decided_entry_fold: "decided_entry lc fp e s = on_net (net_applyOutbound fp e) (fold_thread fp (\<lambda>t. applyOutbound lc t e) s)"
  by (simp add: decided_entry_def fold_thread_def split: option.split)

lemma calm_pages [calm_ops]:
  "calm s t \<Longrightarrow> calm s (prime k t)" "calm s t \<Longrightarrow> calm s (close_page t)" "calm s t \<Longrightarrow> clean e \<Longrightarrow> calm s (decided_entry lc fp e t)"
  "calm s t \<Longrightarrow> calm s (history_if_loaded t)" "calm s t \<Longrightarrow> calm s (stopTyping fp t)" "calm s t \<Longrightarrow> calm s (noteTyping now fp t)"
  by (simp_all add: prime_def close_page_def decided_entry_fold history_if_loaded_def stopTyping_def noteTyping_def Let_def
      calm_ops tame_folds split: option.split)

lemma calm_open [calm_ops]: "calm s t \<Longrightarrow> calm s (open_page sel t)"
  by (simp add: open_page_def Let_def calm_ops)

definition clean_frame :: "NetworkEventFrame \<Rightarrow> bool" where
  "clean_frame f = (case f of FOutbound _ e \<Rightarrow> clean e | FGroupOutbound _ e \<Rightarrow> clean e | _ \<Rightarrow> True)"

lemma calm_frame [calm_ops]: "calm s t \<Longrightarrow> clean_frame f \<Longrightarrow> calm s (onFrame lc f t)"
  by (simp add: onFrame_def clean_frame_def Let_def calm_ops tame_folds split: NetworkEventFrame.splits)

fun clean_event :: "page_event \<Rightarrow> bool" where
  "clean_event (ADecide i d (Inr (x, Some e))) = clean e"
| "clean_event (ALoad k n (Inr es)) = list_all clean es"
| "clean_event (ASend k c t (Inr e)) = clean e"
| "clean_event (ASendGroup k c t b (Inr (Some e))) = clean e"
| "clean_event (PNet (StreamData (Some f))) = clean_frame f"
| "clean_event _ = True"

fun send_event :: "page_event \<Rightarrow> bool" where
  "send_event (PSend now fp body) = True"
| "send_event (PSendGroup now gid body b) = True"
| "send_event (PDiscard k c) = True"
| "send_event (ASend k c t r) = True"
| "send_event (ASendGroup k c t b r) = True"
| "send_event _ = False"

lemma calm_answered: "send_ref c = None \<Longrightarrow> (\<And>t. calm s t \<Longrightarrow> calm s (k t)) \<Longrightarrow> calm s (answered c k s)"
  by (simp add: answered_def calm_ops)

lemma calm_answers:
  "calm s t \<Longrightarrow> calm s (loadAlter_answer r1 t)" "calm s t \<Longrightarrow> calm s (instruct_answer r2 t)"
  "calm s t \<Longrightarrow> clean_event (ADecide i d r3) \<Longrightarrow> calm s (decideDraft_answer lc i r3 t)"
  "calm s t \<Longrightarrow> clean_event (ALoad key n r4) \<Longrightarrow> calm s (load_answer lc key n r4 t)"
  by (auto simp: loadAlter_answer_def instruct_answer_def decideDraft_answer_def load_answer_def Let_def
      intro!: calm_ops tame_folds split: sum.split option.split)

lemma calm_step:
  assumes "\<not> send_event e" "clean_event e"
  shows "calm s (page_step lc e s)"
proof (cases e)
  case (PNet n)
  show ?thesis
  proof (cases n)
    case (StreamData d)
    then show ?thesis using PNet assms by (cases d) (auto simp: page_listener_def intro!: calm_ops)
  qed (use PNet in \<open>auto simp: page_listener_def intro!: calm_ops\<close>)
qed (use assms in \<open>auto simp: history_fires_def instruct_def decideDraft_def toggle_def select_def setCol2Tab_def setPaneTab_def
      loadOlder_def loadOlderGroup_def idle_fires_def persist_fires_def persist_def Let_def intro!: calm_ops calm_answered calm_answers\<close>)

lemma optimistic_fields: "te_clientId (optimistic_entry c b n) = Some c" "te_status (optimistic_entry c b n) = Some ''sending''"
  by (simp_all add: optimistic_entry_def)

lemma sending_append: "sending (xs @ ys) = sending xs \<union> sending ys"
  by (auto simp: sending_def)

lemma sending_optimistic: "sending [optimistic_entry c b n] = {Some c}"
  by (auto simp: sending_def optimistic_fields)

lemmas optimistic_facts = optimistic_fields sending_append sending_optimistic

lemma send_invD:
  assumes "send_inv s"
  shows "distinct (cids (ts_entries (thread k s)))" "c \<in> set (cids (ts_entries (thread k s))) \<Longrightarrow> issued s c"
    "x \<in> sending (ts_entries (thread k s)) \<Longrightarrow> \<exists>c. x = Some c \<and> (k, c) \<in> set (waiting send_ref s)"
    "distinct (settled s @ map snd (waiting send_ref s))" "c \<in> set (settled s @ map snd (waiting send_ref s)) \<Longrightarrow> issued s c"
  using assms unfolding send_inv_def by blast+

lemma send_inv_begin:
  assumes "send_inv s" "send_ref w = Some (key, client_id now (pp_seq s + 1))"
  shows "send_inv (call w (optimistic now key text s))"
proof -
  let ?c = "client_id now (pp_seq s + 1)" and ?t = "call w (optimistic now key text s)"
  have fresh: "\<not> issued s ?c"
    unfolding issued_def by (metis client_id_inj Suc_eq_plus1 not_less_eq_eq le_refl)
  have th: "ts_entries (thread k ?t) = (if k = key then ts_entries (thread key s) @ [optimistic_entry ?c text now] else ts_entries (thread k s))" for k
    by (simp add: optimistic_def addOptimistic_def Let_def)
  have w: "waiting send_ref ?t = waiting send_ref s @ [(key, ?c)]" "settled ?t = settled s" "pp_seq ?t = pp_seq s + 1"
    using assms(2) by (simp_all add: optimistic_def call_def setThread_def map_filter_Cons Let_def)
  have i: "issued ?t c" if "issued s c \<or> c = ?c" for c
    using that unfolding issued_def w(3) by (metis le_SucI Suc_eq_plus1 le_refl)
  note s = send_invD [OF assms(1)]
  have c: "distinct (cids (ts_entries (thread k ?t)))" "set (cids (ts_entries (thread k ?t))) \<subseteq> set (cids (ts_entries (thread k s))) \<union> {?c}" for k
    using s(1) [of k] s(2) [of _ k] fresh unfolding th by (auto simp: optimistic_facts)
  have x: "\<exists>c. x = Some c \<and> (k, c) \<in> set (waiting send_ref ?t)" if "x \<in> sending (ts_entries (thread k ?t))" for x k
    using that s(3) [of x k] unfolding th w by (auto simp: optimistic_facts split: if_splits)
  have d: "distinct (settled ?t @ map snd (waiting send_ref ?t))" using s(4,5) fresh unfolding w by auto
  show ?thesis unfolding send_inv_def
  proof (intro conjI allI ballI)
    show "issued ?t c" if "c \<in> set (cids (ts_entries (thread k ?t)))" for k c using that c(2) [of k] s(2) [of c k] i [of c] by blast
    show "issued ?t c" if "c \<in> set (settled ?t @ map snd (waiting send_ref ?t))" for c
      using that s(5) [of c] i [of c] unfolding w by (simp, blast)
  qed (use c d x in blast)+
qed

lemma send_inv_end:
  assumes "send_inv s" "w \<in> set (pp_calls s)" "send_ref w = Some (key, c)" "ends_send c (thread key s) x"
    "\<And>k. thread k t = (if k = key then x else thread k s)" "pp_calls t = remove1 w (pp_calls s)" "settled t = settled s @ [c]" "pp_seq t = pp_seq s"
  shows "send_inv t"
proof -
  let ?W = "waiting send_ref s"
  have d: "distinct (map snd ?W)" "distinct ?W" using assms(1) by (auto simp: send_inv_def distinct_map)
  have in_W: "(key, c) \<in> set ?W" using map_filter_mem [OF assms(2), of send_ref] assms(3) by simp
  have W: "waiting send_ref t = filter (\<lambda>j. j \<noteq> (key, c)) ?W"
    unfolding assms(6) by (rule map_filter_remove1_Some [where k = "(key, c)", OF d(2) assms(2,3)])
  have gone: "c \<notin> snd ` set (waiting send_ref t)"
    using d(1) in_W unfolding W by (fastforce simp: distinct_map inj_on_def)
  have iss: "issued t = issued s" unfolding issued_def assms(8) ..
  have th: "distinct (cids (ts_entries (thread k t))) \<and> set (cids (ts_entries (thread k t))) \<subseteq> set (cids (ts_entries (thread k s))) \<and>
      (\<forall>y \<in> sending (ts_entries (thread k t)). \<exists>c. y = Some c \<and> (k, c) \<in> set (waiting send_ref t))" for k
  proof (cases "k = key")
    case True
    then show ?thesis using assms(4) send_invD(1) [OF assms(1), of key] send_invD(3) [OF assms(1), of _ key] unfolding assms(5) W ends_send_def by (simp add: subset_iff) blast
  next
    case False
    then show ?thesis using send_invD(1) [OF assms(1), of k] send_invD(3) [OF assms(1), of _ k] unfolding assms(5) W by auto
  qed
  have "distinct (map snd (waiting send_ref t))" unfolding W by (rule distinct_map_filter [OF d(1)])
  moreover have "snd ` set (waiting send_ref t) \<subseteq> snd ` set ?W" unfolding W by auto
  moreover have "c \<in> snd ` set ?W" using in_W by force
  ultimately have st: "distinct (settled t @ map snd (waiting send_ref t))" "set (settled t @ map snd (waiting send_ref t)) \<subseteq> set (settled s @ map snd ?W)"
    using send_invD(4) [OF assms(1)] gone unfolding assms(7) by auto
  show ?thesis unfolding send_inv_def iss
  proof (intro conjI allI ballI)
    show "issued s a" if "a \<in> set (cids (ts_entries (thread k t)))" for k a using that th [of k] send_invD(2) [OF assms(1)] by blast
    show "issued s a" if "a \<in> set (settled t @ map snd (waiting send_ref t))" for a using that st(2) send_invD(5) [OF assms(1)] by blast
  qed (use th st in blast)+
qed

lemma stopTyping_call: "call w (stopTyping fp s) = stopTyping fp (call w s)"
  by (simp add: call_def stopTyping_def log_page_def Let_def)

lemma send_inv_discard:
  assumes "send_inv s"
  shows "send_inv (snd (discard key c s))"
proof -
  let ?t = "snd (discard key c s)"
  have t: "thread k ?t = (if k = key then dropEntry (thread key s) c else thread k s)" for k by (simp add: discard_def)
  have same: "waiting send_ref ?t = waiting send_ref s" "settled ?t = settled s" "issued ?t = issued s"
    by (simp_all add: discard_def setThread_def issued_def [abs_def])
  have th: "distinct (cids (ts_entries (thread k ?t))) \<and> set (cids (ts_entries (thread k ?t))) \<subseteq> set (cids (ts_entries (thread k s))) \<and>
      sending (ts_entries (thread k ?t)) \<subseteq> sending (ts_entries (thread k s))" for k
    using ends_drop [of c "thread key s"] send_invD(1) [OF assms, of k] unfolding t ends_send_def by auto
  note s = send_invD [OF assms]
  show ?thesis unfolding send_inv_def same
  proof (intro conjI allI ballI)
    show "issued s a" if "a \<in> set (cids (ts_entries (thread k ?t)))" for k a using that th [of k] s(2) by blast
    show "\<exists>c. x = Some c \<and> (k, c) \<in> set (waiting send_ref s)" if "x \<in> sending (ts_entries (thread k ?t))" for k x using that th [of k] s(3) by blast
  qed (use th s in blast)+
qed

lemma send_inv_settled:
  assumes "send_inv s" "w \<in> set (pp_calls s)" "send_ref w = Some (key, c)" "ends_send c (thread key s) x"
  shows "send_inv (log_page (LSettled c b) (on_net f (setThread key x (s\<lparr>pp_calls := remove1 w (pp_calls s)\<rparr>))))"
    "send_inv (log_page (LSettled c b) (setThread key x (s\<lparr>pp_calls := remove1 w (pp_calls s)\<rparr>)))"
  by (rule send_inv_end [OF assms]; simp add: log_page_def on_net_def setThread_def thread_def map_filter_Cons)+

lemma send_inv_answers:
  assumes "send_inv s"
  shows "clean_event (ASend key c t r) \<Longrightarrow> send_inv (page_step lc (ASend key c t r) s)"
    "clean_event (ASendGroup key c t b q) \<Longrightarrow> send_inv (page_step lc (ASendGroup key c t b q) s)"
  using assms send_inv_settled [OF assms _ _ ends_fail, of "WSend key c t" key c] send_inv_settled [OF assms _ _ ends_reconcile, of "WSend key c t" key c]
    send_inv_settled [OF assms _ _ ends_fail, of "WSendGroup key c t b" key c] send_inv_settled [OF assms _ _ ends_reconcile, of "WSendGroup key c t b" key c]
  by (auto simp: answered_def send_answer_def sendGroup_answer_def split: sum.split option.split)

lemma send_inv_step:
  assumes "send_inv s" "clean_event e"
  shows "send_inv (page_step lc e s)"
proof (cases "send_event e")
  case False
  then show ?thesis using send_inv_calm [OF assms(1) calm_step [OF False assms(2)]] by simp
next
  case True
  then consider now fp body where "e = PSend now fp body" | now gid body b where "e = PSendGroup now gid body b" | k c where "e = PDiscard k c"
    | k c t r where "e = ASend k c t r" | k c t b r where "e = ASendGroup k c t b r" by (cases e) auto
  then show ?thesis
  proof cases
    case (1 now fp body)
    have "send_inv (stopTyping fp (call (WSend fp (client_id now (pp_seq s + 1)) (trimEnd body)) (optimistic now fp (trimEnd body) s)))"
      by (rule send_inv_calm [OF send_inv_begin [OF assms(1)] calm_pages(5) [OF calm_refl]]) simp
    then show ?thesis using 1 assms(1) by (simp add: send_def stopTyping_call Let_def)
  next
    case (2 now gid body b)
    then show ?thesis using send_inv_begin [OF assms(1), of "WSendGroup (groupKey gid) (client_id now (pp_seq s + 1)) (trimEnd body) (case b of None \<Rightarrow> ''owner'' | Some b \<Rightarrow> b)"
        "groupKey gid" now "trimEnd body"] assms(1) by (simp add: sendGroup_def Let_def)
  next
    case (3 k c)
    then show ?thesis using send_inv_discard [OF assms(1)] by simp
  next
    case (4 k c t r)
    then show ?thesis using send_inv_answers(1) [OF assms(1)] assms(2) by simp
  next
    case (5 k c t b r)
    then show ?thesis using send_inv_answers(2) [OF assms(1)] assms(2) by simp
  qed
qed

lemma send_inv_run: "send_inv s \<Longrightarrow> list_all clean_event es \<Longrightarrow> send_inv (page_run lc es s)"
  by (induction es arbitrary: s) (simp_all add: page_run_def send_inv_step)

text \<open>
  C33. No bubble keeps sending: in every history in which the host never reports an entry as \<open>sending\<close>, a bubble shown as
  being sent belongs to a send whose answer is still out; every send has an id of its own and shows at most one
  bubble; and it is settled at most once, and never while it is still out.
\<close>

theorem no_bubble_keeps_sending:
  assumes "list_all clean_event es"
  shows "let s = page_run lc es (new_PageStore storage hidden) in
     (\<forall>k e. e \<in> set (ts_entries (thread k s)) \<and> te_status e = Some ''sending'' \<longrightarrow>
        (\<exists>c. te_clientId e = Some c \<and> (k, c) \<in> set (waiting send_ref s))) \<and>
     (\<forall>k. distinct (List.map_filter te_clientId (ts_entries (thread k s)))) \<and>
     distinct (settled s @ map snd (waiting send_ref s))"
proof -
  have "send_inv (new_PageStore storage hidden)"
    by (simp add: send_inv_def new_PageStore_def thread_def EMPTY_THREAD_def sending_def)
  then have "send_inv (page_run lc es (new_PageStore storage hidden))" using assms by (rule send_inv_run)
  note s = send_invD [OF this]
  show ?thesis unfolding Let_def
  proof (intro conjI allI impI)
    fix k e assume e: "e \<in> set (ts_entries (thread k (page_run lc es (new_PageStore storage hidden)))) \<and> te_status e = Some ''sending''"
    then have "te_clientId e \<in> sending (ts_entries (thread k (page_run lc es (new_PageStore storage hidden))))" by (auto simp: sending_def)
    then show "\<exists>c. te_clientId e = Some c \<and> (k, c) \<in> set (waiting send_ref (page_run lc es (new_PageStore storage hidden)))" by (rule s(3))
  qed (use s(1,4) in \<open>auto simp: cids_def\<close>)
qed

theorem no_bubble_keeps_sending_witness:
  "let s = page_run code_unit_compare [PSend 5 ''fpA'' ''hi'', ASend ''fpA'' (client_id 5 1) ''hi'' (Inl ''down'')] (new_PageStore None False) in
     settled s = [client_id 5 1] \<and> (\<forall>e \<in> set (ts_entries (thread ''fpA'' s)). te_status e \<noteq> Some ''sending'')"
proof -
  let ?es = "[PSend 5 ''fpA'' ''hi'', ASend ''fpA'' (client_id 5 1) ''hi'' (Inl ''down'')]"
  let ?s = "page_run code_unit_compare ?es (new_PageStore None False)"
  have "list_all clean_event ?es" by simp
  note this [THEN no_bubble_keeps_sending, of code_unit_compare None False, unfolded Let_def]
  moreover have t: "trimEnd ''hi'' = ''hi''" by (simp add: trimEnd_def is_ws_def)
  moreover have "pp_calls ?s = []" "settled ?s = [client_id 5 1]"
    by (simp_all add: page_run_def send_def optimistic_def stopTyping_def answered_def send_answer_def log_page_def setThread_def call_def
        new_PageStore_def t Let_def map_filter_Cons)
  ultimately show ?thesis by (auto simp: Let_def)
qed

end
