(* ===== verification/Api_Client.thy ===== *)
theory Api_Client
  imports Http_Api
begin

text \<open>
  The page's side of the HTTP API, \<open>call\<close> and the object \<open>api\<close> of \<^verbatim>\<open>src/dsh/packages/dsh/src/client/api.ts\<close>: how an answer
  is read, when a call times out, and the request every method makes. What the browser's \<open>fetch\<close> does is an
  argument; \<open>String(v)\<close> of a value that is not a string is the parameter \<open>String_of\<close>. Errors that are not an
  \<open>ApiError\<close> are passed on as they are.
  Lemmas: every request reaches a route of the host (\<open>Http_Api\<close>) with the body as written and all fields the
  host insists on; refusals of the host are reported under their own code and message; two answers of the host
  that the page misreads; and the calls that never end.
\<close>

section \<open>Reading an answer\<close>

record ApiError =
  ce_message :: string
  ce_code :: json
  ce_httpStatus :: nat

datatype page_error = ApiFailure ApiError | OtherError string

definition CALL_TIMEOUT_MS :: nat where "CALL_TIMEOUT_MS = 30000"

definition api_failure :: "string \<Rightarrow> json \<Rightarrow> nat \<Rightarrow> page_error" where
  "api_failure m code st = ApiFailure \<lparr>ce_message = m, ce_code = code, ce_httpStatus = st\<rparr>"

abbreviation int_json :: "int \<Rightarrow> json" where
  "int_json i \<equiv> JNum (Fin (of_int i))"

text \<open>\<open>fetch\<close> is aborted by the timer, fails, or answers; reading the body may fail too.\<close>

datatype fetch_outcome = Aborted | FetchFailed string | BodyFailed string | Responded nat string

definition response_ok :: "nat \<Rightarrow> bool" where
  "response_ok st \<longleftrightarrow> 200 \<le> st \<and> st < 300"

definition error_text :: "(json \<Rightarrow> string) \<Rightarrow> string \<Rightarrow> nat \<Rightarrow> unknown \<Rightarrow> string" where
  "error_text String_of route st err =
     (case jprop err ''message'' of
        None \<Rightarrow> route @ '' failed ('' @ show_nat st @ '')''
      | Some JNull \<Rightarrow> route @ '' failed ('' @ show_nat st @ '')''
      | Some (JStr m) \<Rightarrow> m
      | Some v \<Rightarrow> String_of v)"

definition read_answer :: "(json \<Rightarrow> string) \<Rightarrow> string \<Rightarrow> nat \<Rightarrow> string \<Rightarrow> page_error + json" where
  "read_answer String_of route st text =
     (case (if text = [] then Some (JObj []) else JSON_parse text) of
        None \<Rightarrow> Inl (api_failure (''bad response from '' @ route @ '': '' @ take 120 text) (int_json (- 32603)) st)
      | Some JNull \<Rightarrow> Inl (OtherError ''Cannot read properties of null (reading 'error')'')
      | Some parsed \<Rightarrow>
          (let err = jprop (Some parsed) ''error'' in
           if \<not> response_ok st \<or> err \<noteq> None
           then Inl (api_failure (error_text String_of route st err) (nullish_or (jprop err ''code'') (int_json (- 32603))) st)
           else Inr parsed))"

definition call_result :: "(json \<Rightarrow> string) \<Rightarrow> string \<Rightarrow> nat \<Rightarrow> fetch_outcome \<Rightarrow> page_error + json" where
  "call_result String_of route timeoutMs oc =
     (case oc of
        Aborted \<Rightarrow> Inl (api_failure (route @ '': no answer within '' @ show_nat (timeoutMs div 1000) @ ''s (server busy or restarting)'')
                     (int_json (- 32603)) 0)
      | FetchFailed m \<Rightarrow> Inl (OtherError m)
      | BodyFailed m \<Rightarrow> Inl (OtherError m)
      | Responded st text \<Rightarrow> read_answer String_of route st text)"

text \<open>The timer of a call: it is cleared when \<open>fetch\<close> settles, before the body is read.\<close>

datatype call_phase = Fetching | ReadingBody nat | Ended fetch_outcome

datatype call_event = TimerFires | HeadersArrive nat | ConnectionFails string | BodyEnds string | BodyBreaks string

fun call_step :: "call_event \<Rightarrow> call_phase \<Rightarrow> call_phase" where
  "call_step TimerFires Fetching = Ended Aborted"
| "call_step (HeadersArrive st) Fetching = ReadingBody st"
| "call_step (ConnectionFails m) Fetching = Ended (FetchFailed m)"
| "call_step (BodyEnds t) (ReadingBody st) = Ended (Responded st t)"
| "call_step (BodyBreaks m) (ReadingBody st) = Ended (BodyFailed m)"
| "call_step _ p = p"

section \<open>Requests\<close>

datatype draft_answer = AnswerApprove "string option" | AnswerReject | AnswerRevise string

datatype api_request =
    R_state | R_payWallet | R_upgradeCheck | R_upgradeRun string "string option" | R_createIdentity string | R_parseCard string
  | R_addFriend string "string option" | R_accept string "string option" | R_reject string | R_markRead string "int option"
  | R_conversation string "int option" "int option" | R_send string string | R_typing string bool | R_presence "string list"
  | R_instruct string | R_cancelMemory "string list" | R_memoryList "(string \<times> json) list" | R_memoryAdd string string json
  | R_memoryUpdate string string "json option" | R_memoryRemove string | R_memorySummarize string | R_sessionLatest
  | R_sessionHistory "int option" | R_agentInstruct string string | R_agentHistory string "int option" "string option"
  | R_drafts "string option" | R_decideDraft string draft_answer | R_friendSet string "(string \<times> json) list" | R_friendCard string
  | R_protocolGet | R_protocolSet string | R_groupCreate string "string list" "json option" | R_groupInfo string
  | R_groupSend string string "string option" | R_groupConversation string "int option" "int option"
  | R_groupMarkRead string "int option" | R_groupLeave string | R_groupKick string string | R_groupSetProfile string json
  | R_groupPin string string | R_groupUnpin string string | R_groupLookup string | R_groupApply string "string option" "json option"
  | R_groupPaidJoin string | R_groupApplications string | R_groupApprove string string | R_groupApplicationReject string string
  | R_groupInvite string string | R_groupSettingsGet string | R_groupSettingsSet string "(string \<times> json) list"
  | R_agentsList | R_agentsSet string "(string \<times> json) list" | R_agentsRemove string

abbreviation js :: "string \<Rightarrow> json option" where "js s \<equiv> Some (JStr s)"
abbreviation jso :: "string option \<Rightarrow> json option" where "jso s \<equiv> map_option JStr s"
abbreviation jio :: "int option \<Rightarrow> json option" where "jio i \<equiv> map_option int_json i"
abbreviation jsl :: "string list \<Rightarrow> json option" where "jsl xs \<equiv> Some (JArr (map JStr xs))"
abbreviation given :: "(string \<times> json) list \<Rightarrow> (string \<times> json option) list" where "given kvs \<equiv> map (\<lambda>(k, v). (k, Some v)) kvs"

fun decision_fields :: "draft_answer \<Rightarrow> (string \<times> json option) list" where
  "decision_fields (AnswerApprove b) = [(''action'', js ''approve''), (''body'', jso b)]"
| "decision_fields AnswerReject = [(''action'', js ''reject'')]"
| "decision_fields (AnswerRevise f) = [(''action'', js ''revise''), (''feedback'', js f)]"

text \<open>Route and fields; a field whose value is absent is left out.\<close>

fun api :: "api_request \<Rightarrow> string \<times> (string \<times> json option) list" where
  "api R_state = (''state'', [])"
| "api R_payWallet = (''pay.wallet'', [])"
| "api R_upgradeCheck = (''upgrade.check'', [])"
| "api (R_upgradeRun version registry) = (''upgrade.run'', [(''version'', js version), (''registry'', jso registry)])"
| "api (R_createIdentity name) = (''identity.create'', [(''name'', js name)])"
| "api (R_parseCard uri) = (''card.parse'', [(''uri'', js uri)])"
| "api (R_addFriend cardUri note) = (''friends.add'', [(''card_uri'', js cardUri), (''note'', jso note)])"
| "api (R_accept i note) = (''friends.accept'', [(''id'', js i), (''note'', jso note)])"
| "api (R_reject i) = (''friends.reject'', [(''id'', js i)])"
| "api (R_markRead fp seq) = (''conversation.markRead'', [(''fp'', js fp), (''seq'', jio seq)])"
| "api (R_conversation fp since limit) = (''conversation.get'', [(''fp'', js fp), (''since'', jio since), (''limit'', jio limit)])"
| "api (R_send fp body) = (''message.send'', [(''fp'', js fp), (''body'', js body)])"
| "api (R_typing fp on) = (''message.typing'', [(''fp'', js fp), (''on'', Some (JBool on))])"
| "api (R_presence fps) = (''presence'', [(''fps'', jsl fps)])"
| "api (R_instruct text) = (''alter.instruct'', [(''text'', js text)])"
| "api (R_cancelMemory ids) = (''memory.cancel'', [(''ids'', jsl ids)])"
| "api (R_memoryList allow) = (''memory.list'', given allow)"
| "api (R_memoryAdd kind content scope) = (''memory.add'', [(''kind'', js kind), (''content'', js content), (''scope'', Some scope)])"
| "api (R_memoryUpdate uid content scope) = (''memory.update'', [(''uid'', js uid), (''content'', js content), (''scope'', scope)])"
| "api (R_memoryRemove uid) = (''memory.remove'', [(''uid'', js uid)])"
| "api (R_memorySummarize gid) = (''memory.summarize'', [(''gid'', js gid)])"
| "api R_sessionLatest = (''session.latest'', [])"
| "api (R_sessionHistory limit) = (''session.history'', [(''limit'', jio limit)])"
| "api (R_agentInstruct name text) = (''agent.instruct'', [(''name'', js name), (''text'', js text)])"
| "api (R_agentHistory name limit gid) = (''agent.history'', [(''name'', js name), (''limit'', jio limit), (''gid'', jso gid)])"
| "api (R_drafts fp) = (''drafts.list'', [(''fp'', jso fp)])"
| "api (R_decideDraft i d) = (''drafts.decide'', (''id'', js i) # decision_fields d)"
| "api (R_friendSet fp patch) = (''friends.set'', (''fp'', js fp) # given patch)"
| "api (R_friendCard fp) = (''friends.card'', [(''fp'', js fp)])"
| "api R_protocolGet = (''protocol.get'', [])"
| "api (R_protocolSet text) = (''protocol.set'', [(''text'', js text)])"
| "api (R_groupCreate name members profile) =
     (''group.create'', [(''name'', js name), (''members'', jsl members), (''profile'', profile)])"
| "api (R_groupInfo gid) = (''group.get'', [(''gid'', js gid)])"
| "api (R_groupSend gid body sentBy) = (''group.send'', [(''gid'', js gid), (''body'', js body), (''by'', jso sentBy)])"
| "api (R_groupConversation gid since limit) = (''group.conversation'', [(''gid'', js gid), (''since'', jio since), (''limit'', jio limit)])"
| "api (R_groupMarkRead gid seq) = (''group.markRead'', [(''gid'', js gid), (''seq'', jio seq)])"
| "api (R_groupLeave gid) = (''group.leave'', [(''gid'', js gid)])"
| "api (R_groupKick gid fp) = (''group.kick'', [(''gid'', js gid), (''fp'', js fp)])"
| "api (R_groupSetProfile gid profile) = (''group.setProfile'', [(''gid'', js gid), (''profile'', Some profile)])"
| "api (R_groupPin gid body) = (''group.pin'', [(''gid'', js gid), (''body'', js body)])"
| "api (R_groupUnpin gid i) = (''group.unpin'', [(''gid'', js gid), (''id'', js i)])"
| "api (R_groupLookup uri) = (''group.lookup'', [(''uri'', js uri)])"
| "api (R_groupApply uri note payment) = (''group.apply'', [(''uri'', js uri), (''note'', jso note), (''payment'', payment)])"
| "api (R_groupPaidJoin uri) = (''group.paidJoin'', [(''uri'', js uri)])"
| "api (R_groupApplications gid) = (''group.applications'', [(''gid'', js gid)])"
| "api (R_groupApprove gid fp) = (''group.approve'', [(''gid'', js gid), (''fp'', js fp)])"
| "api (R_groupApplicationReject gid fp) = (''group.applicationReject'', [(''gid'', js gid), (''fp'', js fp)])"
| "api (R_groupInvite gid fp) = (''group.invite'', [(''gid'', js gid), (''fp'', js fp)])"
| "api (R_groupSettingsGet gid) = (''group.settings'', [(''gid'', js gid)])"
| "api (R_groupSettingsSet gid patch) = (''group.settings'', (''gid'', js gid) # given patch)"
| "api R_agentsList = (''agents.list'', [])"
| "api (R_agentsSet name seat) = (''agents.set'', (''name'', js name) # given seat)"
| "api (R_agentsRemove name) = (''agents.remove'', [(''name'', js name)])"

definition call_timeout :: "api_request \<Rightarrow> nat" where
  "call_timeout r = (case r of R_upgradeRun _ _ \<Rightarrow> 10 * 60000 | _ \<Rightarrow> CALL_TIMEOUT_MS)"

text \<open>The request \<open>call\<close> sends: \<open>state\<close> is a GET without a body, everything else a POST.\<close>

definition http_request :: "api_request \<Rightarrow> Request" where
  "http_request r =
     (let (route, fs) = api r in
      if r = R_state then \<lparr>rq_method = ''GET'', rq_path = API_PREFIX @ route, rq_query = [], rq_chunks = []\<rparr>
      else \<lparr>rq_method = ''POST'', rq_path = API_PREFIX @ route, rq_query = [], rq_chunks = [JSON_stringify (JObj (obj_fields fs))]\<rparr>)"

section \<open>Client and host agree\<close>

abbreviation request_object :: "api_request \<Rightarrow> json" where
  "request_object r \<equiv> JObj (obj_fields (snd (api r)))"

definition needed :: "string \<Rightarrow> string list" where
  "needed route = (case map_of required_fields route of None \<Rightarrow> [] | Some fs \<Rightarrow> fs)"

lemma required_distinct: "distinct (map fst required_fields)"
  by (simp add: required_fields_def)

lemma fields_first: "map_of (obj_fields ((k, Some v) # kvs)) a = (if a = k then Some v else map_of (obj_fields kvs) a)"
  by (simp add: obj_fields_def)

lemma needed_given: "list_all (\<lambda>f. jprop (Some (request_object r)) f \<noteq> None) (needed (fst (api r)))"
proof (cases r)
  case (R_decideDraft i d)
  then show ?thesis by (cases d) (simp_all add: needed_def required_fields_def fields_first)
qed (simp_all add: needed_def required_fields_def fields_first)

lemma route_known: "fst (api r) \<in> set (''upgrade.run'' # map fst (page_routes x body @ group_routes x verb body))"
  unfolding route_names by (cases r) simp_all

lemma body_read:
  assumes "json_ok (request_object r)" "length (JSON_stringify (request_object r)) \<le> BODY_LIMIT" "r \<noteq> R_state"
  shows "request_body x (http_request r) = Inr (Some (request_object r))"
  using assms by (simp add: request_body_def http_request_def readJson_def JSON_parse_stringify split_def Let_def del: JSON_stringify.simps)

lemma route_sent: "route_of (rq_path (http_request r)) = fst (api r)"
  by (simp add: route_of_def http_request_def startsWith_def split_def Let_def)

lemma verb_sent: "rq_method (http_request r) = ''POST'' \<or> rq_method (http_request r) = ''GET'' \<and> fst (api r) \<in> set QUERY_ROUTES"
  by (simp add: http_request_def QUERY_ROUTES_def split_def Let_def)

text \<open>
  C29. The page and the host agree on the protocol: every request a method of \<open>api\<close> makes reaches a route of the host by
  a method the host takes, and unless it is \<open>state\<close>, which has no body, the host reads back exactly the object the
  page wrote, as long as it is plain JSON and within the size limit, with every field whose absence the host refuses.
\<close>

theorem requests_understood:
  assumes "json_ok (request_object r)" "length (JSON_stringify (request_object r)) \<le> BODY_LIMIT"
  shows "route_of (rq_path (http_request r)) = fst (api r) \<and>
    fst (api r) \<in> set (''upgrade.run'' # map fst (page_routes x body @ group_routes x verb body)) \<and>
    (rq_method (http_request r) = ''POST'' \<or> rq_method (http_request r) = ''GET'' \<and> fst (api r) \<in> set QUERY_ROUTES) \<and>
    (r \<noteq> R_state \<longrightarrow> request_body x (http_request r) = Inr (Some (request_object r))) \<and>
    (\<forall>fs f. (fst (api r), fs) \<in> set required_fields \<and> f \<in> set fs \<longrightarrow> jprop (Some (request_object r)) f \<noteq> None)"
proof (intro conjI impI allI)
  show "route_of (rq_path (http_request r)) = fst (api r)" by (rule route_sent)
  show "fst (api r) \<in> set (''upgrade.run'' # map fst (page_routes x body @ group_routes x verb body))" by (rule route_known)
  show "rq_method (http_request r) = ''POST'' \<or> rq_method (http_request r) = ''GET'' \<and> fst (api r) \<in> set QUERY_ROUTES" by (rule verb_sent)
next
  assume "r \<noteq> R_state"
  then show "request_body x (http_request r) = Inr (Some (request_object r))" by (rule body_read [OF assms])
next
  fix fs f assume h: "(fst (api r), fs) \<in> set required_fields \<and> f \<in> set fs"
  then have "map_of required_fields (fst (api r)) = Some fs" using map_of_is_SomeI [OF required_distinct] by blast
  then have "needed (fst (api r)) = fs" by (simp add: needed_def)
  then show "jprop (Some (request_object r)) f \<noteq> None" using needed_given [of r] h by (simp add: list_all_iff)
qed

theorem requests_understood_witness:
  "request_body fake_options (http_request (R_reject ''r1'')) = Inr (Some (JObj [(''id'', JStr ''r1'')]))"
proof -
  have "json_ok (request_object (R_reject ''r1''))" by (simp add: obj_fields_def al_wf_def)
  moreover have "length (JSON_stringify (request_object (R_reject ''r1''))) \<le> BODY_LIMIT"
    by (simp add: BODY_LIMIT_def obj_fields_def show_str_def esc_char_def)
  ultimately show ?thesis using requests_understood [of "R_reject ''r1''" fake_options] by (simp add: obj_fields_def)
qed

section \<open>Refusals\<close>

text \<open>The text the host sends with a refusal (\<open>send\<close> of \<open>api/index.ts\<close>).\<close>

definition refusal_text :: "int \<Rightarrow> string \<Rightarrow> string" where
  "refusal_text code m = JSON_stringify (JObj [(''error'', JObj [(''code'', int_json code), (''message'', JStr m)])])"

lemma refusal_parses: "JSON_parse (refusal_text code m) = Some (JObj [(''error'', JObj [(''code'', int_json code), (''message'', JStr m)])])"
  unfolding refusal_text_def by (rule JSON_parse_stringify) (simp add: al_wf_def)

lemma refusal_nonempty: "refusal_text code m \<noteq> []"
  by (simp add: refusal_text_def)

lemma refusal_read: "read_answer S route st (refusal_text code m) = Inl (api_failure m (int_json code) st)"
  by (simp add: read_answer_def refusal_parses refusal_nonempty error_text_def Let_def)

text \<open>
  C30. What the host refuses, the page reports: whenever the host answers a request of the page with an error body, the
  caller gets an \<open>ApiError\<close> with the host's own message and code and the HTTP status. An error the network client
  raised in the handler of a request arrives with the client's own code, as status 400, any other error as status 500.
\<close>

theorem refusals_reported:
  assumes "api_handler x i (http_request r) a = (HSent resp, a1)" "rs_body resp = BErr code m"
  shows "call_result S (fst (api r)) (call_timeout r) (Responded (rs_status resp) (refusal_text code m)) =
      Inl (ApiFailure \<lparr>ce_message = m, ce_code = int_json code, ce_httpStatus = rs_status resp\<rparr>) \<and>
    (\<forall>b e a2. request_body x (http_request r) = Inr b \<and> handle x (fst (api r)) (rq_method (http_request r)) b a = (Inl e, a2) \<longrightarrow>
       m = error_message e \<and> (case e of ENet n \<Rightarrow> code = ne_code n \<and> rs_status resp = 400 | EJs _ _ \<Rightarrow> code = - 32603 \<and> rs_status resp = 500))"
proof -
  have "call_result S (fst (api r)) (call_timeout r) (Responded (rs_status resp) (refusal_text code m)) =
      Inl (ApiFailure \<lparr>ce_message = m, ce_code = int_json code, ce_httpStatus = rs_status resp\<rparr>)"
    by (simp add: call_result_def refusal_read api_failure_def)
  moreover have "m = error_message e \<and> (case e of ENet n \<Rightarrow> code = ne_code n \<and> rs_status resp = 400 | EJs _ _ \<Rightarrow> code = - 32603 \<and> rs_status resp = 500)"
    if h: "request_body x (http_request r) = Inr b \<and> handle x (fst (api r)) (rq_method (http_request r)) b a = (Inl e, a2)" for b e a2
  proof -
    have "fst (api r) \<noteq> ''events''" by (cases r) simp_all
    then have "resp = failed_response e"
      using assms(1) h verb_sent [of r] by (auto simp: api_handler_def route_sent Let_def)
    then show ?thesis
      using assms(2) by (cases e) (auto simp: failed_response_def errorBody_def error_message_def)
  qed
  ultimately show ?thesis by blast
qed

lemma agents_remove_unmounted:
  "api_handler fake_options 1 (http_request (R_agentsRemove ''X'')) fresh_api = (HSent not_mounted, fresh_api)"
proof -
  let ?r = "R_agentsRemove ''X''"
  have "json_ok (request_object ?r)" by (simp add: obj_fields_def al_wf_def)
  moreover have "length (JSON_stringify (request_object ?r)) \<le> BODY_LIMIT"
    by (simp add: BODY_LIMIT_def obj_fields_def show_str_def esc_char_def)
  ultimately have b: "request_body fake_options (http_request ?r) = Inr (Some (request_object ?r))" by (rule body_read) simp
  have "(''agents.remove'', route_agents_remove (Some (request_object ?r))) \<in>
      set (page_routes fake_options (Some (request_object ?r)) @ group_routes fake_options ''POST'' (Some (request_object ?r)))"
    by (simp add: page_routes_def)
  from handle_route [OF this] have "handle fake_options ''agents.remove'' ''POST'' (Some (request_object ?r)) fresh_api = (Inr (Answered not_mounted), fresh_api)"
    by (simp add: now_def route_agents_remove_def with_sessions_def fresh_api_def bind_api_def reply_def)
  moreover have "rq_method (http_request ?r) = ''POST''" by (simp add: http_request_def split_def Let_def)
  ultimately show ?thesis using b by (simp add: api_handler_def route_sent Let_def)
qed

theorem refusals_reported_witness:
  "call_result JSON_stringify ''agents.remove'' CALL_TIMEOUT_MS (Responded 503 (refusal_text (- 32603) ''sessions plugin not mounted'')) =
     Inl (ApiFailure \<lparr>ce_message = ''sessions plugin not mounted'', ce_code = int_json (- 32603), ce_httpStatus = 503\<rparr>)"
  using refusals_reported [OF agents_remove_unmounted, of "- 32603" "''sessions plugin not mounted''" JSON_stringify]
  by (simp add: not_mounted_def refusal_def call_timeout_def)

section \<open>Answers that are misread\<close>

text \<open>
  The host reports trouble inside a successful answer: \<open>state\<close> and \<open>pay.wallet\<close> answer 200 with a text in the field
  \<open>error\<close>. The page takes any \<open>error\<close> field for a failed call, so the whole answer is dropped, and since a
  text has no \<open>message\<close>, the reason is dropped too.
\<close>

lemma soft_errors_dropped:
  assumes "json_ok (JObj kvs)" "map_of kvs ''error'' = Some (JStr e)"
  shows "read_answer S route 200 (JSON_stringify (JObj kvs)) = Inl (api_failure (route @ '' failed (200)'') (int_json (- 32603)) 200)"
proof -
  have "show_nat 200 = ''200''" by code_simp
  then show ?thesis using assms JSON_parse_stringify [OF assms(1)] by (simp add: read_answer_def error_text_def Let_def)
qed

text \<open>Once the headers of an answer have come, nothing but the body ends the call: its timer is cleared.\<close>

lemma call_without_limit:
  "list_all (\<lambda>e. case e of BodyEnds _ \<Rightarrow> False | BodyBreaks _ \<Rightarrow> False | _ \<Rightarrow> True) es \<Longrightarrow> fold call_step (HeadersArrive st # es) Fetching = ReadingBody st"
proof -
  have "list_all (\<lambda>e. case e of BodyEnds _ \<Rightarrow> False | BodyBreaks _ \<Rightarrow> False | _ \<Rightarrow> True) es \<Longrightarrow> fold call_step es (ReadingBody st) = ReadingBody st"
    by (induction es) (auto split: call_event.splits)
  then show "list_all (\<lambda>e. case e of BodyEnds _ \<Rightarrow> False | BodyBreaks _ \<Rightarrow> False | _ \<Rightarrow> True) es \<Longrightarrow> ?thesis" by simp
qed

end
