(* ===== verification/Upgrade_Store.thy ===== *)
theory Upgrade_Store
  imports Upgrade
begin

text \<open>
  The page's upgrade store, \<^verbatim>\<open>src/dsh/packages/dsh/src/client/upgrade-store.ts\<close>: the check, the run and the wait for the restarted
  host. The answers of the host (\<open>Upgrade\<close>) arrive as events; \<open>up_calls\<close> are the requests that are out, \<open>up_waits\<close> the waits for a restart that run. The polls of
  the wait are an infinite sequence: how long the \<open>n\<close>-th poll took beyond the pause, and whether the server
  answered well.
  Lemmas: the wait ends, and reloads only after the server was seen down and then up; what is installed is a version
  and a registry the host itself has offered together; one install at a time as long as no check is answered
  meanwhile, and what happens otherwise.
\<close>

section \<open>State\<close>

datatype UpgradePhase = PhIdle | PhChecking | PhInstalling | PhRestarting | PhReloading | PhDoneManual | PhFailed

datatype upgrade_call = CCheck bool | CRun string "string option"

record UpgradeStore =
  up_phase :: UpgradePhase
  up_current :: "string option"
  up_latest :: "string option"
  up_hasUpdate :: bool
  up_registry :: "string option"
  up_error :: "string option"
  up_output :: "string option"
  up_checked :: bool
  up_checkedOnce :: bool
  up_calls :: "upgrade_call list"
  up_waits :: nat
  up_reloads :: nat

definition new_UpgradeStore :: UpgradeStore where
  "new_UpgradeStore = \<lparr>up_phase = PhIdle, up_current = None, up_latest = None, up_hasUpdate = False, up_registry = None, up_error = None,
     up_output = None, up_checked = False, up_checkedOnce = False, up_calls = [], up_waits = 0, up_reloads = 0\<rparr>"

section \<open>Checking\<close>

definition check :: "bool \<Rightarrow> bool \<Rightarrow> UpgradeStore \<Rightarrow> UpgradeStore" where
  "check silent again s =
     (if up_phase s \<in> {PhChecking, PhInstalling, PhRestarting} then s
      else if silent \<and> up_checkedOnce s \<and> \<not> again then s
      else s\<lparr>up_checkedOnce := True, up_phase := PhChecking, up_error := (if silent then up_error s else None),
             up_calls := up_calls s @ [CCheck silent]\<rparr>)"

definition check_answer :: "bool \<Rightarrow> string + UpgradeCheck \<Rightarrow> UpgradeStore \<Rightarrow> UpgradeStore" where
  "check_answer silent r s =
     (case r of
        Inr c \<Rightarrow> s\<lparr>up_phase := PhIdle, up_current := Some (uc_current c), up_latest := Some (uc_latest c), up_hasUpdate := uc_hasUpdate c,
                   up_registry := Some (uc_registry c), up_checked := True, up_error := None\<rparr>
      | Inl e \<Rightarrow> s\<lparr>up_phase := PhIdle, up_checked := True, up_error := (if silent then up_error s else Some e)\<rparr>)"

section \<open>Running\<close>

definition run :: "UpgradeStore \<Rightarrow> UpgradeStore" where
  "run s =
     (case up_latest s of
        None \<Rightarrow> s
      | Some latest \<Rightarrow>
          (if up_phase s \<in> {PhInstalling, PhRestarting} then s
           else s\<lparr>up_phase := PhInstalling, up_error := None, up_output := None, up_calls := up_calls s @ [CRun latest (up_registry s)]\<rparr>))"

text \<open>The answer of \<open>upgrade.run\<close>: the installer's result and whether the host restarts.\<close>

definition run_answer :: "string + UpgradeRunResult \<times> bool \<Rightarrow> UpgradeStore \<Rightarrow> UpgradeStore" where
  "run_answer r s =
     (case r of
        Inl e \<Rightarrow> s\<lparr>up_phase := PhFailed, up_error := Some e\<rparr>
      | Inr (res, restarting) \<Rightarrow>
          (if \<not> rr_ok res then s\<lparr>up_phase := PhFailed, up_error := Some (''pnpm exit '' @ show_int (rr_exitCode res)), up_output := Some (rr_output res)\<rparr>
           else s\<lparr>up_phase := (if restarting then PhRestarting else PhDoneManual), up_hasUpdate := False, up_current := Some (rr_version res),
                    up_waits := up_waits s + (if restarting then 1 else 0)\<rparr>))"

section \<open>Waiting for the restart\<close>

definition RESTART_LIMIT_MS :: nat where "RESTART_LIMIT_MS = 3 * 60000"
definition RESTART_POLL_MS :: nat where "RESTART_POLL_MS = 2000"

type_synonym restart_poll = "nat \<times> bool"

text \<open>The loop of \<open>waitForRestart\<close> from poll \<open>n\<close> on; it answers how it ended and how many polls it made.\<close>

function wait_loop :: "(nat \<Rightarrow> restart_poll) \<Rightarrow> nat \<Rightarrow> nat \<Rightarrow> bool \<Rightarrow> nat \<Rightarrow> UpgradePhase \<times> nat" where
  "wait_loop polls deadline now sawDown n =
     (if now < deadline
      then (let later = now + RESTART_POLL_MS + fst (polls n) in
            if \<not> snd (polls n) then wait_loop polls deadline later True (n + 1)
            else if sawDown then (PhReloading, n + 1)
            else wait_loop polls deadline later sawDown (n + 1))
      else (PhDoneManual, n))"
  by pat_completeness auto

termination
  by (relation "measure (\<lambda>(polls, deadline, now, sawDown, n). deadline - now)") (auto simp: RESTART_POLL_MS_def)

declare wait_loop.simps [simp del]

definition waitForRestart :: "(nat \<Rightarrow> restart_poll) \<Rightarrow> nat \<Rightarrow> UpgradePhase \<times> nat" where
  "waitForRestart polls now = wait_loop polls (now + RESTART_LIMIT_MS) now False 0"

definition wait_ends :: "(nat \<Rightarrow> restart_poll) \<Rightarrow> nat \<Rightarrow> UpgradeStore \<Rightarrow> UpgradeStore" where
  "wait_ends polls now s =
     (let phase = fst (waitForRestart polls now)
      in s\<lparr>up_phase := phase, up_waits := up_waits s - 1, up_reloads := up_reloads s + (if phase = PhReloading then 1 else 0)\<rparr>)"

section \<open>Histories\<close>

text \<open>What happens to the store: a check or a run is asked for, the request with the given place among the open ones is
  answered, a wait comes to its end.\<close>

datatype upgrade_event =
    AskCheck bool bool
  | Checked nat "string + UpgradeCheck"
  | AskRun
  | Ran nat "string + UpgradeRunResult \<times> bool"
  | Waited "nat \<Rightarrow> restart_poll" nat

definition close_call :: "nat \<Rightarrow> UpgradeStore \<Rightarrow> UpgradeStore" where
  "close_call i s = s\<lparr>up_calls := take i (up_calls s) @ drop (Suc i) (up_calls s)\<rparr>"

definition open_call :: "nat \<Rightarrow> UpgradeStore \<Rightarrow> upgrade_call option" where
  "open_call i s = (if i < length (up_calls s) then Some (up_calls s ! i) else None)"

fun upgrade_event_step :: "UpgradeStore \<Rightarrow> upgrade_event \<Rightarrow> UpgradeStore" where
  "upgrade_event_step s (AskCheck silent again) = check silent again s"
| "upgrade_event_step s AskRun = run s"
| "upgrade_event_step s (Checked i r) =
     (case open_call i s of Some (CCheck silent) \<Rightarrow> check_answer silent r (close_call i s) | _ \<Rightarrow> s)"
| "upgrade_event_step s (Ran i r) =
     (case open_call i s of Some (CRun v reg) \<Rightarrow> run_answer r (close_call i s) | _ \<Rightarrow> s)"
| "upgrade_event_step s (Waited polls now) = (if 0 < up_waits s then wait_ends polls now s else s)"

definition upgrade_events :: "upgrade_event list \<Rightarrow> UpgradeStore \<Rightarrow> UpgradeStore" where
  "upgrade_events evs s = foldl upgrade_event_step s evs"

section \<open>The wait ends\<close>

text \<open>Poll \<open>i\<close> found the server down; poll \<open>j\<close> found it up.\<close>

definition down_then_up :: "(nat \<Rightarrow> restart_poll) \<Rightarrow> nat \<Rightarrow> nat \<Rightarrow> bool" where
  "down_then_up polls i j \<longleftrightarrow> i < j \<and> \<not> snd (polls i) \<and> snd (polls j)"

lemma poll_bound:
  assumes "n + 1 \<le> m \<and> (m - (n + 1)) * RESTART_POLL_MS < (deadline - (now + RESTART_POLL_MS + d)) + RESTART_POLL_MS" "now < deadline"
  shows "n \<le> m \<and> (m - n) * RESTART_POLL_MS < (deadline - now) + RESTART_POLL_MS"
proof -
  obtain k where m: "m = n + 1 + k" using assms(1) le_Suc_ex by blast
  then have k: "k * 2000 < (deadline - (now + 2000 + d)) + 2000" using assms(1) by (simp add: RESTART_POLL_MS_def)
  have "(k + 1) * 2000 < (deadline - now) + 2000"
  proof (cases "deadline \<le> now + 2000 + d")
    case True
    then have "k = 0" using k by simp
    then show ?thesis using assms(2) by simp
  next
    case False
    then obtain e where e: "deadline = now + 2000 + d + e" by (metis le_Suc_ex nat_le_linear)
    then have "k * 2000 < e + 2000" using k by simp
    then show ?thesis unfolding e by simp
  qed
  then show ?thesis using m by (simp add: RESTART_POLL_MS_def)
qed

lemma wait_loop_spec:
  assumes "wait_loop polls deadline now sawDown n = (ph, m)" "sawDown \<longleftrightarrow> (\<exists>i < n. \<not> snd (polls i))"
    "\<forall>j < n. \<not> (\<exists>i. down_then_up polls i j)"
  shows "n \<le> m \<and> (m - n) * RESTART_POLL_MS < (deadline - now) + RESTART_POLL_MS \<and>
    (ph = PhReloading \<and> n < m \<and> (\<exists>i. down_then_up polls i (m - 1)) \<and> (\<forall>j < m - 1. \<not> (\<exists>i. down_then_up polls i j)) \<or>
     ph = PhDoneManual \<and> (\<forall>j < m. \<not> (\<exists>i. down_then_up polls i j)))"
  using assms
proof (induction polls deadline now sawDown n arbitrary: ph m rule: wait_loop.induct)
  case (1 polls deadline now sawDown n)
  let ?later = "now + RESTART_POLL_MS + fst (polls n)"
  show ?case
  proof (cases "now < deadline")
    case False
    then show ?thesis using "1.prems" by (subst (asm) wait_loop.simps) (simp add: RESTART_POLL_MS_def)
  next
    case True
    consider (down) "\<not> snd (polls n)" | (up) "snd (polls n)" "sawDown" | (old) "snd (polls n)" "\<not> sawDown" by blast
    then show ?thesis
    proof cases
      case down
      have "wait_loop polls deadline ?later True (n + 1) = (ph, m)" using "1.prems"(1) True down by (subst (asm) wait_loop.simps) (simp add: Let_def)
      moreover have "\<exists>i < n + 1. \<not> snd (polls i)" using down by auto
      moreover have "\<forall>j < n + 1. \<not> (\<exists>i. down_then_up polls i j)" using "1.prems"(3) down by (auto simp: down_then_up_def less_Suc_eq)
      ultimately have ih: "n + 1 \<le> m \<and> (m - (n + 1)) * RESTART_POLL_MS < (deadline - ?later) + RESTART_POLL_MS \<and>
          (ph = PhReloading \<and> n + 1 < m \<and> (\<exists>i. down_then_up polls i (m - 1)) \<and> (\<forall>j < m - 1. \<not> (\<exists>i. down_then_up polls i j)) \<or>
           ph = PhDoneManual \<and> (\<forall>j < m. \<not> (\<exists>i. down_then_up polls i j)))"
        using "1.IH"(1) [OF True refl down] by auto
      then have "n \<le> m \<and> (m - n) * RESTART_POLL_MS < (deadline - now) + RESTART_POLL_MS" by (intro poll_bound [OF _ True]) auto
      then show ?thesis using ih by auto
    next
      case up
      then have "ph = PhReloading" "m = n + 1" using "1.prems"(1) True by (subst (asm) wait_loop.simps; simp add: Let_def)+
      moreover obtain i where "i < n" "\<not> snd (polls i)" using "1.prems"(2) up(2) by blast
      ultimately show ?thesis using "1.prems"(3) up(1) True by (auto simp: down_then_up_def RESTART_POLL_MS_def)
    next
      case old
      have "wait_loop polls deadline ?later sawDown (n + 1) = (ph, m)" using "1.prems"(1) True old by (subst (asm) wait_loop.simps) (simp add: Let_def)
      moreover have none: "\<forall>i < n + 1. snd (polls i)" using "1.prems"(2) old by (auto simp: less_Suc_eq)
      moreover have "\<forall>j < n + 1. \<not> (\<exists>i. down_then_up polls i j)" using none by (auto simp: down_then_up_def)
      ultimately have ih: "n + 1 \<le> m \<and> (m - (n + 1)) * RESTART_POLL_MS < (deadline - ?later) + RESTART_POLL_MS \<and>
          (ph = PhReloading \<and> n + 1 < m \<and> (\<exists>i. down_then_up polls i (m - 1)) \<and> (\<forall>j < m - 1. \<not> (\<exists>i. down_then_up polls i j)) \<or>
           ph = PhDoneManual \<and> (\<forall>j < m. \<not> (\<exists>i. down_then_up polls i j)))"
        using "1.IH"(2) [OF True refl] old by auto
      then have "n \<le> m \<and> (m - n) * RESTART_POLL_MS < (deadline - now) + RESTART_POLL_MS" by (intro poll_bound [OF _ True]) auto
      then show ?thesis using ih by auto
    qed
  qed
qed

text \<open>Time taken by the first \<open>m\<close> polls.\<close>

definition polled_ms :: "(nat \<Rightarrow> restart_poll) \<Rightarrow> nat \<Rightarrow> nat" where
  "polled_ms polls m = (\<Sum>j<m. RESTART_POLL_MS + fst (polls j))"

lemma wait_loop_time:
  "wait_loop polls deadline now sawDown n = (PhDoneManual, m) \<Longrightarrow> now = start + polled_ms polls n \<Longrightarrow> deadline \<le> start + polled_ms polls m"
proof (induction polls deadline now sawDown n rule: wait_loop.induct)
  case (1 polls deadline now sawDown n)
  have step: "now + RESTART_POLL_MS + fst (polls n) = start + polled_ms polls (n + 1)" using "1.prems"(2) by (simp add: polled_ms_def)
  show ?case
  proof (cases "now < deadline")
    case False
    then show ?thesis using "1.prems" by (subst (asm) wait_loop.simps) simp
  next
    case True
    show ?thesis
    proof (cases "snd (polls n)")
      case False
      then show ?thesis using "1.IH"(1) [OF True refl False _ step] "1.prems"(1) True by (subst (asm) wait_loop.simps) (simp add: Let_def)
    next
      case up: True
      then have "\<not> sawDown" using "1.prems"(1) True by (subst (asm) wait_loop.simps) (auto simp: Let_def)
      then show ?thesis using "1.IH"(2) [OF True refl _ _ _ step] "1.prems"(1) True up by (subst (asm) wait_loop.simps) (simp add: Let_def)
    qed
  qed
qed

text \<open>
  C34. Whatever the polls answer and however long they take, the wait for the restarted host ends after at most 90 polls. It
  ends by reloading the page at the first poll that finds the server up after one that found it down, so an answer of the
  old process never reloads the page; otherwise it ends with the hint to restart by hand, no such poll was made and the
  time allowed has passed.\<close>

theorem restart_wait_ends:
  "\<exists>ph m. waitForRestart polls now = (ph, m) \<and> m \<le> 90 \<and>
     (ph = PhReloading \<and> 0 < m \<and> (\<exists>i. down_then_up polls i (m - 1)) \<and> \<not> (\<exists>j < m - 1. \<exists>i. down_then_up polls i j) \<or>
      ph = PhDoneManual \<and> \<not> (\<exists>j < m. \<exists>i. down_then_up polls i j) \<and> RESTART_LIMIT_MS \<le> polled_ms polls m)"
proof -
  obtain ph m where w: "waitForRestart polls now = (ph, m)" by (cases "waitForRestart polls now")
  then have l: "wait_loop polls (now + RESTART_LIMIT_MS) now False 0 = (ph, m)" by (simp add: waitForRestart_def)
  note spec = wait_loop_spec [OF l]
  then have "m * RESTART_POLL_MS < RESTART_LIMIT_MS + RESTART_POLL_MS" by simp
  then have "m \<le> 90" by (simp add: RESTART_POLL_MS_def RESTART_LIMIT_MS_def)
  moreover have "RESTART_LIMIT_MS \<le> polled_ms polls m" if "ph = PhDoneManual"
    using wait_loop_time [of polls "now + RESTART_LIMIT_MS" now False 0 m now] l that by (simp add: polled_ms_def)
  ultimately show ?thesis using w spec by auto
qed

section \<open>What is installed\<close>

definition offered :: "upgrade_event list \<Rightarrow> UpgradeCheck set" where
  "offered evs = {c. \<exists>i. Checked i (Inr c) \<in> set evs}"

text \<open>The version and the registry the store holds, and those of every open install request, are of one answered check.\<close>

definition from_offers :: "UpgradeCheck set \<Rightarrow> UpgradeStore \<Rightarrow> bool" where
  "from_offers C s \<longleftrightarrow>
     (\<forall>v. up_latest s = Some v \<longrightarrow> (\<exists>c \<in> C. v = uc_latest c \<and> up_registry s = Some (uc_registry c))) \<and>
     (\<forall>v r. CRun v r \<in> set (up_calls s) \<longrightarrow> (\<exists>c \<in> C. v = uc_latest c \<and> r = Some (uc_registry c)))"

lemma from_offers_mono: "from_offers C s \<Longrightarrow> C \<subseteq> D \<Longrightarrow> from_offers D s"
  unfolding from_offers_def by blast

lemma from_offers_same:
  "from_offers C s \<Longrightarrow> up_latest s' = up_latest s \<Longrightarrow> up_registry s' = up_registry s \<Longrightarrow> set (up_calls s') \<subseteq> set (up_calls s) \<Longrightarrow> from_offers C s'"
  unfolding from_offers_def by auto

lemma close_call_kept [simp]:
  "up_latest (close_call i s) = up_latest s" "up_registry (close_call i s) = up_registry s"
  by (simp_all add: close_call_def)

lemma close_call_subset: "set (up_calls (close_call i s)) \<subseteq> set (up_calls s)"
  using set_take_subset set_drop_subset by (fastforce simp: close_call_def)

lemma from_offers_step:
  assumes "from_offers C s"
  shows "from_offers (C \<union> offered [ev]) (upgrade_event_step s ev)"
proof (cases ev)
  case (AskCheck silent again)
  then show ?thesis using assms by (auto simp: from_offers_def check_def offered_def)
next
  case (Checked i r)
  have base: "from_offers (C \<union> offered [ev]) s" by (rule from_offers_mono [OF assms]) simp
  then have closed: "from_offers (C \<union> offered [ev]) (close_call i s)" by (rule from_offers_same) (simp_all add: close_call_subset)
  have "from_offers (C \<union> offered [ev]) (check_answer silent r (close_call i s))" for silent
    using closed Checked by (cases r) (auto simp: from_offers_def check_answer_def offered_def)
  then show ?thesis using base Checked by (auto split: option.splits upgrade_call.splits)
next
  case AskRun
  then show ?thesis using assms by (auto simp: from_offers_def run_def offered_def split: option.splits)
next
  case (Ran i r)
  have "from_offers C (close_call i s)" using assms by (rule from_offers_same) (simp_all add: close_call_subset)
  then have "from_offers C (run_answer r (close_call i s))"
    by (rule from_offers_same) (auto simp: run_answer_def split: sum.splits)
  then show ?thesis using assms Ran by (auto simp: offered_def split: option.splits upgrade_call.splits)
next
  case (Waited polls now)
  have "from_offers C (wait_ends polls now s)" using assms by (rule from_offers_same) (simp_all add: wait_ends_def Let_def)
  then show ?thesis using assms Waited by (simp add: offered_def)
qed

lemma from_offers_events: "from_offers (offered evs) (upgrade_events evs new_UpgradeStore)"
proof (induction evs rule: rev_induct)
  case Nil
  then show ?case by (simp add: upgrade_events_def from_offers_def new_UpgradeStore_def)
next
  case (snoc ev evs)
  have "offered (evs @ [ev]) = offered evs \<union> offered [ev]" by (auto simp: offered_def)
  then show ?case using from_offers_step [OF snoc] by (simp add: upgrade_events_def)
qed


text \<open>A machine with version 1.0.0 and a registry that publishes 2.0.0.\<close>

definition some_files :: files where
  "some_files p = (if p = [''package.json''] then Some (JSON_stringify (JObj [(''name'', JStr ''soulnet-dsh''), (''version'', JStr ''1.0.0'')])) else None)"

definition some_registry :: "string \<Rightarrow> fetched" where
  "some_registry url = FetchAnswer True 200 (Some (JObj [(''dist-tags'', JObj [(''latest'', JStr ''2.0.0'')])]))"

definition some_offer :: UpgradeCheck where
  "some_offer = \<lparr>uc_current = ''1.0.0'', uc_latest = ''2.0.0'', uc_hasUpdate = True, uc_registry = ''https://registry.npmjs.org''\<rparr>"

lemma some_offer_checked: "checkUpgrade some_files [] some_registry = Inr some_offer"
  by code_simp


section \<open>A check during an install\<close>

text \<open>\<open>run\<close> is not guarded against the phase of a check: a check that is answered while an install request is out sets the
  phase to idle, and a second install request can go out beside the first.\<close>

lemma check_reopens_install:
  assumes "up_phase s \<notin> {PhChecking, PhInstalling, PhRestarting}" "up_latest s = Some v" "up_calls s = []"
  shows "up_calls (upgrade_events [AskCheck True True, AskRun, Checked 0 (Inl e), AskRun] s) = [CRun v (up_registry s), CRun v (up_registry s)]"
  using assms by (simp add: upgrade_events_def check_def run_def check_answer_def open_call_def close_call_def)

end
