(* ===== verification/Settings.thy ===== *)
theory Settings
  imports Policy
begin

text \<open>
  The user settings of the plugin, \<^verbatim>\<open>src/dsh/packages/dsh/src/settings.ts\<close>: the resolved record, the defaults the
  settings schema declares and \<open>resolveSettings\<close>, which fills in a partial section. The fields whose type the code
  looks at when it runs (tier, limit, port, switches) are values of any type in a partial section; the others are
  texts or absent, as the schema has checked.
  Lemmas: what a resolved section looks like, that the two sets of defaults agree and that resolving again changes
  nothing, with the one exception of a port below one.
\<close>

section \<open>Data\<close>

datatype BackendKind = BkSoulnet | BkFake

datatype AlterMode = Comms | Full

datatype CdpNetwork = BaseSepolia | Base

record SoulmirrorSettings =
  sm_relay :: string
  sm_displayName :: string
  sm_backend :: BackendKind
  sm_peerBinary :: string
  sm_home :: string
  sm_defaultTier :: ReplyTier
  sm_autoReplyPerHour :: int
  sm_directSend :: bool
  sm_paygateBinary :: string
  sm_paygatePort :: int
  sm_paygateProxy :: string
  sm_cdpKeyId :: string
  sm_cdpKeySecret :: string
  sm_cdpWalletSecret :: string
  sm_cdpNetwork :: CdpNetwork
  sm_alterMode :: AlterMode

record partial_settings =
  pa_relay :: "string option"
  pa_displayName :: "string option"
  pa_backend :: unknown
  pa_peerBinary :: "string option"
  pa_home :: "string option"
  pa_defaultTier :: unknown
  pa_autoReplyPerHour :: unknown
  pa_directSend :: unknown
  pa_paygateBinary :: "string option"
  pa_paygatePort :: unknown
  pa_paygateProxy :: "string option"
  pa_cdpKeyId :: "string option"
  pa_cdpKeySecret :: "string option"
  pa_cdpWalletSecret :: "string option"
  pa_cdpNetwork :: unknown
  pa_alterMode :: unknown

definition DEFAULT_RELAY :: string where "DEFAULT_RELAY = ''https://relay.startupworld.cn''"
definition DEFAULT_PAYGATE_PORT :: int where "DEFAULT_PAYGATE_PORT = 9001"

definition no_settings :: partial_settings where
  "no_settings = \<lparr>pa_relay = None, pa_displayName = None, pa_backend = None, pa_peerBinary = None, pa_home = None, pa_defaultTier = None,
     pa_autoReplyPerHour = None, pa_directSend = None, pa_paygateBinary = None, pa_paygatePort = None, pa_paygateProxy = None,
     pa_cdpKeyId = None, pa_cdpKeySecret = None, pa_cdpWalletSecret = None, pa_cdpNetwork = None, pa_alterMode = None\<rparr>"

text \<open>The defaults of the schema.\<close>

definition SOULMIRROR_SETTINGS_SCHEMA :: partial_settings where
  "SOULMIRROR_SETTINGS_SCHEMA = \<lparr>pa_relay = Some DEFAULT_RELAY, pa_displayName = Some [], pa_backend = Some (JStr ''soulnet''),
     pa_peerBinary = Some [], pa_home = Some [], pa_defaultTier = Some (JStr (tier_str DEFAULT_REPLY_TIER)),
     pa_autoReplyPerHour = Some (JNum (Fin (of_int DEFAULT_AUTO_REPLY_PER_HOUR))), pa_directSend = Some (JBool False),
     pa_paygateBinary = Some [], pa_paygatePort = Some (JNum (Fin (of_int DEFAULT_PAYGATE_PORT))), pa_paygateProxy = Some [],
     pa_cdpKeyId = Some [], pa_cdpKeySecret = Some [], pa_cdpWalletSecret = Some [], pa_cdpNetwork = Some (JStr ''base-sepolia''),
     pa_alterMode = Some (JStr ''comms'')\<rparr>"

section \<open>Resolving\<close>

definition per_hour :: "unknown \<Rightarrow> int" where
  "per_hour v = (case v of Some (JNum (Fin r)) \<Rightarrow> max 0 \<lfloor>r\<rfloor> | _ \<Rightarrow> DEFAULT_AUTO_REPLY_PER_HOUR)"

definition gateway_port :: "unknown \<Rightarrow> int" where
  "gateway_port v = (case v of Some (JNum (Fin r)) \<Rightarrow> (if r > 0 then \<lfloor>r\<rfloor> else DEFAULT_PAYGATE_PORT) | _ \<Rightarrow> DEFAULT_PAYGATE_PORT)"

definition relay_of :: "string option \<Rightarrow> string" where
  "relay_of r = (case r of None \<Rightarrow> DEFAULT_RELAY | Some t \<Rightarrow> (if trim t \<noteq> [] then trim t else DEFAULT_RELAY))"

abbreviation or_empty :: "string option \<Rightarrow> string" where
  "or_empty t \<equiv> (case t of None \<Rightarrow> [] | Some s \<Rightarrow> s)"

definition resolveSettings :: "partial_settings option \<Rightarrow> SoulmirrorSettings" where
  "resolveSettings partial =
     (let p = (case partial of None \<Rightarrow> no_settings | Some q \<Rightarrow> q) in
      \<lparr>sm_relay = relay_of (pa_relay p), sm_displayName = or_empty (pa_displayName p),
       sm_backend = (if pa_backend p = Some (JStr ''fake'') then BkFake else BkSoulnet),
       sm_peerBinary = or_empty (pa_peerBinary p), sm_home = or_empty (pa_home p),
       sm_defaultTier = normalizeTier (pa_defaultTier p) DEFAULT_REPLY_TIER, sm_autoReplyPerHour = per_hour (pa_autoReplyPerHour p),
       sm_directSend = is_true (pa_directSend p), sm_paygateBinary = or_empty (pa_paygateBinary p),
       sm_paygatePort = gateway_port (pa_paygatePort p), sm_paygateProxy = or_empty (pa_paygateProxy p),
       sm_cdpKeyId = or_empty (pa_cdpKeyId p), sm_cdpKeySecret = or_empty (pa_cdpKeySecret p),
       sm_cdpWalletSecret = or_empty (pa_cdpWalletSecret p),
       sm_cdpNetwork = (if pa_cdpNetwork p = Some (JStr ''base'') then Base else BaseSepolia),
       sm_alterMode = (if pa_alterMode p = Some (JStr ''full'') then Full else Comms)\<rparr>)"

section \<open>Resolved settings\<close>

text \<open>A resolved section, read as a partial one.\<close>

definition as_partial :: "SoulmirrorSettings \<Rightarrow> partial_settings" where
  "as_partial s = \<lparr>pa_relay = Some (sm_relay s), pa_displayName = Some (sm_displayName s),
     pa_backend = Some (JStr (case sm_backend s of BkFake \<Rightarrow> ''fake'' | BkSoulnet \<Rightarrow> ''soulnet'')), pa_peerBinary = Some (sm_peerBinary s),
     pa_home = Some (sm_home s), pa_defaultTier = Some (JStr (tier_str (sm_defaultTier s))),
     pa_autoReplyPerHour = Some (JNum (Fin (of_int (sm_autoReplyPerHour s)))), pa_directSend = Some (JBool (sm_directSend s)),
     pa_paygateBinary = Some (sm_paygateBinary s), pa_paygatePort = Some (JNum (Fin (of_int (sm_paygatePort s)))),
     pa_paygateProxy = Some (sm_paygateProxy s), pa_cdpKeyId = Some (sm_cdpKeyId s), pa_cdpKeySecret = Some (sm_cdpKeySecret s),
     pa_cdpWalletSecret = Some (sm_cdpWalletSecret s), pa_cdpNetwork = Some (JStr (case sm_cdpNetwork s of Base \<Rightarrow> ''base'' | BaseSepolia \<Rightarrow> ''base-sepolia'')),
     pa_alterMode = Some (JStr (case sm_alterMode s of Full \<Rightarrow> ''full'' | Comms \<Rightarrow> ''comms''))\<rparr>"

lemma normalizeTier_str [simp]: "normalizeTier (Some (JStr (tier_str t))) d = t"
  by (cases t) (simp_all add: normalizeTier_def tier_str_def)

lemma relay_of_trimmed: "relay_of r \<noteq> [] \<and> relay_of (Some (relay_of r)) = relay_of r"
proof -
  have "trim DEFAULT_RELAY = DEFAULT_RELAY" "DEFAULT_RELAY \<noteq> []" by code_simp+
  then show ?thesis by (auto simp: relay_of_def split: option.splits)
qed

lemma per_hour_again: "0 \<le> per_hour v \<and> per_hour (Some (JNum (Fin (of_int (per_hour v))))) = per_hour v"
  by (auto simp: per_hour_def DEFAULT_AUTO_REPLY_PER_HOUR_def split: option.splits json.splits jsnum.splits)

lemma gateway_port_again:
  "0 \<le> gateway_port v \<and> (gateway_port v \<noteq> 0 \<longrightarrow> gateway_port (Some (JNum (Fin (of_int (gateway_port v))))) = gateway_port v)"
proof -
  have "\<lfloor>r\<rfloor> = 0" if "0 < r" "\<not> 1 \<le> r" for r :: rat using that by (intro floor_unique) auto
  then show ?thesis by (auto simp: gateway_port_def DEFAULT_PAYGATE_PORT_def split: option.splits json.splits jsnum.splits)
qed

text \<open>
  What the rest of the plugin relies on: a relay, a limit that is not negative, and defaults that are those of the
  schema. Writing resolved settings back and reading them again changes nothing, unless the port was below one.
\<close>

theorem settings_resolved:
  "sm_relay (resolveSettings p) \<noteq> [] \<and> 0 \<le> sm_autoReplyPerHour (resolveSettings p) \<and> 0 \<le> sm_paygatePort (resolveSettings p) \<and>
   resolveSettings (Some SOULMIRROR_SETTINGS_SCHEMA) = resolveSettings None \<and>
   (sm_paygatePort (resolveSettings p) \<noteq> 0 \<longrightarrow> resolveSettings (Some (as_partial (resolveSettings p))) = resolveSettings p)"
proof (intro conjI impI)
  show "sm_relay (resolveSettings p) \<noteq> []" "0 \<le> sm_autoReplyPerHour (resolveSettings p)" "0 \<le> sm_paygatePort (resolveSettings p)"
    by (simp_all add: resolveSettings_def Let_def relay_of_trimmed per_hour_again gateway_port_again)
  show "resolveSettings (Some SOULMIRROR_SETTINGS_SCHEMA) = resolveSettings None" by code_simp
  show "resolveSettings (Some (as_partial (resolveSettings p))) = resolveSettings p" if "sm_paygatePort (resolveSettings p) \<noteq> 0"
    using that by (simp add: resolveSettings_def Let_def as_partial_def relay_of_trimmed per_hour_again gateway_port_again)
qed

text \<open>A port between zero and one passes the test for a positive number and is then rounded down to zero.\<close>

lemma fractional_port_zero: "gateway_port (Some (JNum (Fin (1 / 2)))) = 0"
  by code_simp

end
