(* ===== verification/Plugin.thy ===== *)
theory Plugin
  imports Settings Api_Service Paygate
begin

text \<open>
  The host entry of the plugin, \<^verbatim>\<open>src/dsh/packages/dsh/src/index.ts\<close>: the settings in force, the payment gateway that
  follows them and the admission of applicants who have paid. The registration of services with the host is left out.
  The settings document and the gateway process are inputs: a change of the document and the callbacks of the process
  are events. \<open>pl_spawned\<close> notes the settings each gateway process was started with.
  Lemmas: the gateway in use always runs with the settings in force, and nobody is let into a paid group without a
  payment the gateway has confirmed.
\<close>

section \<open>Settings and the gateway\<close>

record plugin =
  pl_effective :: SoulmirrorSettings
  pl_live :: SoulmirrorSettings
  pl_paygate :: "Paygate option"
  pl_paygateApplied :: "SoulmirrorSettings option"
  pl_spawned :: "PaygateSettings list"

definition network_text :: "CdpNetwork \<Rightarrow> string" where
  "network_text n = (case n of Base \<Rightarrow> ''base'' | BaseSepolia \<Rightarrow> ''base-sepolia'')"

text \<open>The slice of the settings that the gateway client reads.\<close>

definition gateway_settings :: "SoulmirrorSettings \<Rightarrow> PaygateSettings" where
  "gateway_settings s =
     \<lparr>ps_paygateBinary = sm_paygateBinary s, ps_paygatePort = nat (sm_paygatePort s), ps_paygateProxy = sm_paygateProxy s,
      ps_cdpKeyId = sm_cdpKeyId s, ps_cdpKeySecret = sm_cdpKeySecret s, ps_cdpWalletSecret = sm_cdpWalletSecret s,
      ps_cdpNetwork = network_text (sm_cdpNetwork s)\<rparr>"

definition paygateFieldsChanged :: "SoulmirrorSettings \<Rightarrow> SoulmirrorSettings \<Rightarrow> bool" where
  "paygateFieldsChanged a b \<longleftrightarrow>
     sm_cdpKeyId a \<noteq> sm_cdpKeyId b \<or> sm_cdpKeySecret a \<noteq> sm_cdpKeySecret b \<or> sm_cdpWalletSecret a \<noteq> sm_cdpWalletSecret b \<or>
     sm_cdpNetwork a \<noteq> sm_cdpNetwork b \<or> sm_paygateProxy a \<noteq> sm_paygateProxy b \<or> sm_paygatePort a \<noteq> sm_paygatePort b \<or>
     sm_paygateBinary a \<noteq> sm_paygateBinary b"

text \<open>A call of the gateway client that may start a process; what it was started with is noted.\<close>

definition on_gateway :: "(PaygateSettings \<Rightarrow> Paygate \<Rightarrow> Paygate) \<Rightarrow> plugin \<Rightarrow> plugin" where
  "on_gateway f p =
     (case pl_paygate p of
        None \<Rightarrow> p
      | Some g \<Rightarrow>
          (let s = gateway_settings (pl_live p); g' = f s g
           in p\<lparr>pl_paygate := Some g', pl_spawned := pl_spawned p @ replicate (length (pg_procs g') - length (pg_procs g)) s\<rparr>))"

definition syncPaygate :: "string option \<Rightarrow> plugin \<Rightarrow> plugin" where
  "syncPaygate fault p =
     (if pl_paygate p = None then p
      else case pl_paygateApplied p of
             None \<Rightarrow> p\<lparr>pl_paygateApplied := Some (pl_live p)\<rparr>
           | Some applied \<Rightarrow>
               (if \<not> paygateFieldsChanged applied (pl_live p) then p
                else on_gateway (\<lambda>s. paygate_restart s fault) (p\<lparr>pl_paygateApplied := Some (pl_live p)\<rparr>)))"

text \<open>The settings document changed, or the settings service arrived after the gateway was started.\<close>

definition settings_changed :: "partial_settings option \<Rightarrow> string option \<Rightarrow> plugin \<Rightarrow> plugin" where
  "settings_changed doc fault p = syncPaygate fault (p\<lparr>pl_live := resolveSettings doc\<rparr>)"

text \<open>
  \<open>apply\<close>: \<open>config\<close> is the composition entry, \<open>doc\<close> what the settings service answers when it is already there.
\<close>

definition apply_plugin :: "partial_settings option \<Rightarrow> partial_settings option option \<Rightarrow> string option \<Rightarrow> plugin" where
  "apply_plugin config doc fault =
     (let effective = (case doc of None \<Rightarrow> resolveSettings config | Some d \<Rightarrow> resolveSettings d);
          p = \<lparr>pl_effective = effective, pl_live = effective, pl_paygate = None, pl_paygateApplied = None, pl_spawned = []\<rparr>
      in if sm_backend effective = BkFake then p
         else (on_gateway (\<lambda>s. paygate_start s fault) (p\<lparr>pl_paygate := Some (createPaygateClient (gateway_settings effective))\<rparr>))
                \<lparr>pl_paygateApplied := Some effective\<rparr>)"

definition plugin_home :: "plugin \<Rightarrow> string \<Rightarrow> string" where
  "plugin_home p default_home = (if sm_home (pl_effective p) \<noteq> [] then sm_home (pl_effective p) else default_home)"

datatype plugin_event =
    SettingsChanged "partial_settings option" "string option"
  | GatewayExit nat string
  | GatewayFailed nat string
  | GatewayAnswers "string option \<times> bool option"
  | Unload

fun plugin_step :: "plugin \<Rightarrow> plugin_event \<Rightarrow> plugin" where
  "plugin_step p (SettingsChanged doc fault) = settings_changed doc fault p"
| "plugin_step p (GatewayExit i code) = on_gateway (\<lambda>_. gateway_exit i code) p"
| "plugin_step p (GatewayFailed i m) = on_gateway (\<lambda>_. gateway_failed i m) p"
| "plugin_step p (GatewayAnswers h) = on_gateway (\<lambda>s. set_status (now_running s h)) p"
| "plugin_step p Unload = on_gateway (\<lambda>_. paygate_dispose) p"

definition plugin_run :: "plugin_event list \<Rightarrow> plugin \<Rightarrow> plugin" where
  "plugin_run evs p = foldl plugin_step p evs"

section \<open>Admission of applicants who have paid\<close>

datatype paid_outcome = NotPaid | NoPrice | NotVerified string | Admitted | Failed api_error

text \<open>Name and amount of the notice are those of the application.\<close>

definition paid_notice :: "'n ApiOptions \<Rightarrow> GroupApplication \<Rightarrow> JoinPayment \<Rightarrow> string" where
  "paid_notice x req pay =
     ax_texts x ''check-mark'' @ '' '' @ joiner_name x (gap_fp req) (Some req) @ '' paid '' @ jp_amount pay @ '' USDC and joined the group''"

definition admit_paid :: "'n ApiOptions \<Rightarrow> string \<Rightarrow> GroupApplication \<Rightarrow> JoinPayment \<Rightarrow> ('n, paid_outcome) api" where
  "admit_paid x gid req pay =
     bind_api (net_do (cl_groups_approve (ax_client x) gid (gap_fp req))) (\<lambda>_.
       bind_api (attempt (net_do (nc_groups_send (ax_net x) (ax_draws x 0) gid (paid_notice x req pay)
           \<lparr>gso_by = Some ''owner'', gso_auto = None, gso_agent = None\<rparr>))) (\<lambda>_. reply Admitted))"

definition verify_and_admit :: "'n ApiOptions \<Rightarrow> 'n gateway \<Rightarrow> string \<Rightarrow> GroupApplication \<Rightarrow> JoinPayment \<Rightarrow> ('n, paid_outcome) api" where
  "verify_and_admit x pg gid req pay =
     bind_api (net_read (nc_groups_info (ax_net x) gid)) (\<lambda>g.
       case paid_config_of g of
         None \<Rightarrow> reply NoPrice
       | Some c \<Rightarrow> bind_api (pay_do pg ''POST'' ''/v2/pay/join.verify'' (verify_body c pay)) (\<lambda>v.
           if is_true (jprop (Some v) ''valid'') then admit_paid x gid req pay
           else reply (NotVerified (str_field v ''reason'' ''invalid''))))"

text \<open>The listener of \<open>group_application\<close> events; it catches what is thrown.\<close>

definition on_application :: "'n ApiOptions \<Rightarrow> string \<Rightarrow> GroupApplication \<Rightarrow> 'n Api \<Rightarrow> paid_outcome \<times> 'n Api" where
  "on_application x gid req a =
     (case (ax_paygate x, gap_payment req) of
        (Some pg, Some pay) \<Rightarrow>
          (case verify_and_admit x pg gid req pay a of (Inr r, a1) \<Rightarrow> (r, a1) | (Inl e, a1) \<Rightarrow> (Failed e, a1))
      | _ \<Rightarrow> (NotPaid, a))"

definition on_network_event :: "'n ApiOptions \<Rightarrow> NetworkEvent \<Rightarrow> 'n Api \<Rightarrow> 'n Api" where
  "on_network_event x ev a = (case ev of NGroupApplication gid req \<Rightarrow> snd (on_application x gid req a) | _ \<Rightarrow> a)"

section \<open>The gateway follows the settings\<close>

text \<open>The gateway in use was started with the settings in force, and calls go to the port of these settings.\<close>

definition gateway_current :: "plugin \<Rightarrow> bool" where
  "gateway_current p \<longleftrightarrow>
     (case pl_paygate p of
        None \<Rightarrow> pl_paygateApplied p = None \<and> pl_spawned p = []
      | Some g \<Rightarrow>
          (\<exists>applied. pl_paygateApplied p = Some applied \<and> gateway_settings applied = gateway_settings (pl_live p)) \<and>
          length (pl_spawned p) = length (pg_procs g) \<and>
          (\<forall>i. pg_child g = Some i \<longrightarrow> i < length (pg_procs g) \<and> pl_spawned p ! i = gateway_settings (pl_live p)) \<and>
          (\<not> pg_disposed g \<longrightarrow> pgs_port (pg_status g) = ps_paygatePort (gateway_settings (pl_live p))) \<and>
          (pg_disposed g \<longrightarrow> pg_child g = None))"

lemma unchanged_slice: "\<not> paygateFieldsChanged a b \<Longrightarrow> gateway_settings a = gateway_settings b"
  by (simp add: paygateFieldsChanged_def gateway_settings_def)

lemma on_proc_fields [simp]:
  "length (pg_procs (on_proc i f g)) = length (pg_procs g)" "pg_child (on_proc i f g) = pg_child g"
  "pg_disposed (on_proc i f g) = pg_disposed g" "pg_status (on_proc i f g) = pg_status g"
  by (simp_all add: on_proc_def)

text \<open>What a call of the gateway client keeps, given the settings it is called with.\<close>

definition sound_call :: "PaygateSettings \<Rightarrow> (Paygate \<Rightarrow> Paygate) \<Rightarrow> Paygate \<Rightarrow> bool" where
  "sound_call s f g \<longleftrightarrow>
     length (pg_procs g) \<le> length (pg_procs (f g)) \<and>
     (\<forall>i. pg_child (f g) = Some i \<longrightarrow> i < length (pg_procs (f g)) \<and> (i < length (pg_procs g) \<longrightarrow> pg_child g = Some i)) \<and>
     (\<not> pg_disposed (f g) \<longrightarrow> pgs_port (pg_status (f g)) = ps_paygatePort s) \<and>
     (pg_disposed (f g) \<longrightarrow> pg_child (f g) = None)"

lemma gateway_current_call:
  assumes "pl_paygate p = Some g" "sound_call (gateway_settings (pl_live p)) (f (gateway_settings (pl_live p))) g"
    "pl_paygateApplied p = Some applied" "gateway_settings applied = gateway_settings (pl_live p)" "length (pl_spawned p) = length (pg_procs g)"
    "\<And>i. pg_child g = Some i \<Longrightarrow> pg_child (f (gateway_settings (pl_live p)) g) = Some i \<Longrightarrow> pl_spawned p ! i = gateway_settings (pl_live p)"
  shows "gateway_current (on_gateway f p)"
proof -
  let ?s = "gateway_settings (pl_live p)"
  let ?g = "f ?s g"
  have "(pl_spawned p @ replicate (length (pg_procs ?g) - length (pg_procs g)) ?s) ! i = ?s"
    if "pg_child ?g = Some i" for i
    using that assms(2,5,6) by (cases "i < length (pg_procs g)") (auto simp: sound_call_def nth_append)
  then show ?thesis
    using assms by (auto simp: gateway_current_def on_gateway_def Let_def sound_call_def)
qed

lemma sound_spawn:
  assumes "pg_child g = None" "\<not> pg_disposed g \<longrightarrow> pgs_port (pg_status g) = ps_paygatePort s"
  shows "sound_call s (spawnGateway s fault) g"
  using assms by (auto simp: sound_call_def spawnGateway_def Let_def set_status_def starting_def split: option.splits)

lemma kill_child_fields [simp]:
  "pg_child (kill_child g) = None" "length (pg_procs (kill_child g)) = length (pg_procs g)" "pg_disposed (kill_child g) = pg_disposed g"
  "pg_status (kill_child g) = pg_status g"
  by (simp_all add: kill_child_def split: option.splits)

lemma sound_restart:
  assumes "pg_disposed g \<longrightarrow> pg_child g = None"
  shows "sound_call s (paygate_restart s fault) g" "pg_child (paygate_restart s fault g) = Some i \<Longrightarrow> length (pg_procs g) \<le> i"
proof -
  let ?k = "(kill_child g)\<lparr>pg_status := starting s\<rparr>"
  have k: "pg_child ?k = None" "pg_disposed ?k = pg_disposed g" "length (pg_procs ?k) = length (pg_procs g)" "pgs_port (pg_status ?k) = ps_paygatePort s"
    by (simp_all add: starting_def)
  let ?g = "spawnGateway s fault ?k"
  have "sound_call s (spawnGateway s fault) ?k" by (rule sound_spawn) (use k in simp_all)
  then have g: "length (pg_procs g) \<le> length (pg_procs ?g)" "\<And>i. pg_child ?g = Some i \<Longrightarrow> i < length (pg_procs ?g) \<and> \<not> i < length (pg_procs g)"
    "\<not> pg_disposed ?g \<longrightarrow> pgs_port (pg_status ?g) = ps_paygatePort s" "pg_disposed ?g \<longrightarrow> pg_child ?g = None"
    unfolding sound_call_def k by auto
  show "sound_call s (paygate_restart s fault) g"
    using g assms by (cases "pg_disposed g") (auto simp: sound_call_def paygate_restart_def)
  show "length (pg_procs g) \<le> i" if "pg_child (paygate_restart s fault g) = Some i"
    using that g(2) [of i] assms by (cases "pg_disposed g") (simp_all add: paygate_restart_def)
qed

lemma sound_others:
  assumes "pg_disposed g \<longrightarrow> pg_child g = None" "\<not> pg_disposed g \<longrightarrow> pgs_port (pg_status g) = ps_paygatePort s"
    "\<And>i. pg_child g = Some i \<Longrightarrow> i < length (pg_procs g)"
  shows "sound_call s (gateway_exit i code) g" "sound_call s (gateway_failed i m) g" "sound_call s (set_status (now_running s h)) g"
    "sound_call s paygate_dispose g"
  using assms by (auto simp: sound_call_def gateway_exit_def gateway_failed_def set_status_def now_running_def paygate_dispose_def Let_def)

lemma gateway_current_others:
  assumes "gateway_current p" "\<And>g s. pg_disposed g \<longrightarrow> pg_child g = None \<Longrightarrow> \<not> pg_disposed g \<longrightarrow> pgs_port (pg_status g) = ps_paygatePort s \<Longrightarrow>
      (\<And>i. pg_child g = Some i \<Longrightarrow> i < length (pg_procs g)) \<Longrightarrow> sound_call s (f s) g"
  shows "gateway_current (on_gateway f p)"
proof (cases "pl_paygate p")
  case None
  then show ?thesis using assms(1) by (simp add: on_gateway_def)
next
  case (Some g)
  then have g: "\<exists>applied. pl_paygateApplied p = Some applied \<and> gateway_settings applied = gateway_settings (pl_live p)"
    "length (pl_spawned p) = length (pg_procs g)" "\<And>i. pg_child g = Some i \<Longrightarrow> i < length (pg_procs g)"
    "\<And>i. pg_child g = Some i \<Longrightarrow> pl_spawned p ! i = gateway_settings (pl_live p)"
    "\<not> pg_disposed g \<longrightarrow> pgs_port (pg_status g) = ps_paygatePort (gateway_settings (pl_live p))" "pg_disposed g \<longrightarrow> pg_child g = None"
    using assms(1) by (simp_all add: gateway_current_def)
  then show ?thesis using assms(2) [of g "gateway_settings (pl_live p)"] Some by (auto intro!: gateway_current_call)
qed

lemma gateway_current_settings:
  assumes "gateway_current p"
  shows "gateway_current (settings_changed doc fault p)"
proof (cases "pl_paygate p")
  case None
  then show ?thesis using assms by (simp add: settings_changed_def syncPaygate_def gateway_current_def)
next
  case (Some g)
  define q where "q = p\<lparr>pl_live := resolveSettings doc\<rparr>"
  obtain applied where a: "pl_paygateApplied p = Some applied" "gateway_settings applied = gateway_settings (pl_live p)"
    using assms Some by (auto simp: gateway_current_def)
  have d: "pg_disposed g \<longrightarrow> pg_child g = None" using assms Some by (simp add: gateway_current_def)
  show ?thesis
  proof (cases "paygateFieldsChanged applied (pl_live q)")
    case False
    then have "gateway_settings (pl_live p) = gateway_settings (resolveSettings doc)" using unchanged_slice [OF False] a(2) by (simp add: q_def)
    then show ?thesis using assms Some a False by (auto simp: settings_changed_def syncPaygate_def gateway_current_def q_def)
  next
    case True
    have "gateway_current (on_gateway (\<lambda>s. paygate_restart s fault) (q\<lparr>pl_paygateApplied := Some (pl_live q)\<rparr>))"
    proof (rule gateway_current_call [where g = g])
      show "sound_call (gateway_settings (pl_live (q\<lparr>pl_paygateApplied := Some (pl_live q)\<rparr>)))
          (paygate_restart (gateway_settings (pl_live (q\<lparr>pl_paygateApplied := Some (pl_live q)\<rparr>))) fault) g"
        by (rule sound_restart(1) [OF d])
      fix i assume i: "pg_child g = Some i" "pg_child (paygate_restart (gateway_settings (pl_live (q\<lparr>pl_paygateApplied := Some (pl_live q)\<rparr>))) fault g) = Some i"
      have "length (pg_procs g) \<le> i" by (rule sound_restart(2) [OF d i(2)])
      moreover have "i < length (pg_procs g)" using assms Some i(1) by (simp add: gateway_current_def)
      ultimately show "pl_spawned (q\<lparr>pl_paygateApplied := Some (pl_live q)\<rparr>) ! i = gateway_settings (pl_live (q\<lparr>pl_paygateApplied := Some (pl_live q)\<rparr>))" by simp
    qed (use assms Some in \<open>simp_all add: q_def gateway_current_def\<close>)
    then show ?thesis using Some a True by (simp add: settings_changed_def syncPaygate_def q_def)
  qed
qed

lemma gateway_current_start: "gateway_current (apply_plugin config doc fault)"
proof -
  have "sound_call s (paygate_start s fault) (createPaygateClient s)" for s
    by (auto simp: sound_call_def paygate_start_def createPaygateClient_def spawnGateway_def Let_def set_status_def starting_def split: option.splits)
  then show ?thesis
    by (auto simp: apply_plugin_def Let_def gateway_current_def on_gateway_def sound_call_def paygate_start_def createPaygateClient_def
        spawnGateway_def set_status_def starting_def split: option.splits)
qed

lemma gateway_current_step: "gateway_current p \<Longrightarrow> gateway_current (plugin_step p ev)"
  by (cases ev) (auto intro!: gateway_current_settings gateway_current_others sound_others)


section \<open>Nobody joins unpaid\<close>

text \<open>The gateway confirms the applicant's transaction for the published address and price.\<close>

definition join_confirmed :: "'n ApiOptions \<Rightarrow> string \<Rightarrow> GroupApplication \<Rightarrow> 'n \<Rightarrow> bool" where
  "join_confirmed x gid req n \<longleftrightarrow>
     (case (ax_paygate x, gap_payment req, nc_groups_info (ax_net x) gid n) of
        (Some pg, Some pay, Inr g) \<Rightarrow>
          (case paid_config_of g of
             None \<Rightarrow> False
           | Some c \<Rightarrow> (case fst (pg ''POST'' ''/v2/pay/join.verify'' (verify_body c pay) n) of
                          Inl _ \<Rightarrow> False | Inr v \<Rightarrow> is_true (jprop (Some v) ''valid'')))
      | _ \<Rightarrow> False)"

lemma on_application_unconfirmed:
  assumes "\<not> join_confirmed x gid req (a_net a)"
  shows "on_application (with_approve f x) gid req a = on_application x gid req a \<and> fst (on_application x gid req a) \<noteq> Admitted"
proof (cases "ax_paygate x = None \<or> gap_payment req = None")
  case True
  then show ?thesis by (auto simp: on_application_def split: option.splits)
next
  case False
  then obtain pg pay where p: "ax_paygate x = Some pg" "gap_payment req = Some pay" by auto
  note steps = on_application_def verify_and_admit_def bind_api_def net_read_def pay_do_def reply_def
  show ?thesis
  proof (cases "nc_groups_info (ax_net x) gid (a_net a)")
    case (Inl e)
    then show ?thesis using p by (simp add: steps)
  next
    case g: (Inr g)
    show ?thesis
    proof (cases "paid_config_of g")
      case None
      then show ?thesis using p g by (simp add: steps)
    next
      case c: (Some c)
      obtain r n where r: "pg ''POST'' ''/v2/pay/join.verify'' (verify_body c pay) (a_net a) = (r, n)" by fastforce
      then have "\<And>v. r = Inr v \<Longrightarrow> \<not> is_true (jprop (Some v) ''valid'')" using assms p g c by (auto simp: join_confirmed_def)
      then show ?thesis using p g c r by (cases r) (simp_all add: steps)
    qed
  qed
qed

lemma on_application_confirmed:
  assumes "join_confirmed x gid req (a_net a)"
  obtains pg pay g c v n where "ax_paygate x = Some pg" "gap_payment req = Some pay" "nc_groups_info (ax_net x) gid (a_net a) = Inr g"
    "paid_config_of g = Some c" "pg ''POST'' ''/v2/pay/join.verify'' (verify_body c pay) (a_net a) = (Inr v, n)" "is_true (jprop (Some v) ''valid'')"
proof -
  obtain pg pay g c where *: "ax_paygate x = Some pg" "gap_payment req = Some pay" "nc_groups_info (ax_net x) gid (a_net a) = Inr g" "paid_config_of g = Some c"
    using assms by (auto simp: join_confirmed_def split: option.splits sum.splits)
  obtain r n where r: "pg ''POST'' ''/v2/pay/join.verify'' (verify_body c pay) (a_net a) = (r, n)" by fastforce
  then obtain v where "r = Inr v" "is_true (jprop (Some v) ''valid'')" using assms * by (auto simp: join_confirmed_def split: sum.splits)
  then show thesis using that * r by blast
qed


text \<open>Dave applies to the group of the price list, with a transaction; the gateway confirms whatever it is asked, or refuses it.\<close>

definition dave_pays :: GroupApplication where
  "dave_pays = \<lparr>gap_fp = ''fp-dave'', gap_name = ''Dave'', gap_note = [], gap_ts = None,
     gap_payment = Some \<lparr>jp_tx_hash = ''0x1'', jp_amount = ''5'', jp_to = ''0xab'', jp_payer = None, jp_proof = None, jp_note = None\<rparr>\<rparr>"

definition verdict :: "bool \<Rightarrow> FakeNet gateway" where
  "verdict b m path body n = (Inr (JObj [(''valid'', JBool b)]), n)"


text \<open>
  What is verified does not depend on the amount the applicant claims, but the notice in the group, posted in the
  owner's name, shows that claim.\<close>

lemma claimed_amount_unverified:
  "verify_body c (pay\<lparr>jp_amount := t\<rparr>) = verify_body c pay"
  "paid_notice x req (pay\<lparr>jp_amount := t\<rparr>) =
     ax_texts x ''check-mark'' @ '' '' @ joiner_name x (gap_fp req) (Some req) @ '' paid '' @ t @ '' USDC and joined the group''"
  by (simp_all add: verify_body_def paid_notice_def)

end
