(* ===== verification/Tool_Args.thy ===== *)
theory Tool_Args
  imports Json_Text
begin

text \<open>
  The definition of a tool, \<^verbatim>\<open>src/dsh/packages/dsh/src/tools/define.ts\<close>: the parameter specification, the JSON schema shown to
  the model and the validation of the arguments it sends; and the parameters of the tools of
  \<^verbatim>\<open>tools/index.ts\<close> and \<^verbatim>\<open>tools/remember.ts\<close>. Descriptions and the printed form of a result are left out.
  Lemmas: the validation accepts exactly what the schema accepts, and hands the tool the arguments with the declared
  types and nothing else.
\<close>

section \<open>Specifications\<close>

datatype ScalarType = PString | PBoolean | PInteger | PNumber

record ParamSpec =
  prm_type :: ScalarType
  prm_optional :: bool
  prm_enum :: "string list option"

type_synonym tool_params = "(string, ParamSpec) al"

text \<open>The members every object inherits; \<open>in\<close> finds them too.\<close>

definition OBJECT_PROTOTYPE :: "string list" where
  "OBJECT_PROTOTYPE = [''constructor'', ''__defineGetter__'', ''__defineSetter__'', ''hasOwnProperty'', ''__lookupGetter__'', ''__lookupSetter__'',
     ''isPrototypeOf'', ''propertyIsEnumerable'', ''toString'', ''valueOf'', ''__proto__'', ''toLocaleString'']"

definition in_spec :: "tool_params \<Rightarrow> string \<Rightarrow> bool" where
  "in_spec spec k \<longleftrightarrow> k \<in> fst ` set spec \<or> k \<in> set OBJECT_PROTOTYPE"

section \<open>Validation\<close>

fun has_type :: "ScalarType \<Rightarrow> json \<Rightarrow> bool" where
  "has_type PString (JStr s) = True"
| "has_type PBoolean (JBool b) = True"
| "has_type PInteger (JNum (Fin r)) = (of_int \<lfloor>r\<rfloor> = r)"
| "has_type PNumber (JNum (Fin r)) = True"
| "has_type _ _ = False"

definition type_name :: "ScalarType \<Rightarrow> string" where
  "type_name t = (case t of PString \<Rightarrow> ''string'' | PBoolean \<Rightarrow> ''boolean'' | PInteger \<Rightarrow> ''integer'' | PNumber \<Rightarrow> ''number'')"

definition value_violations :: "string \<Rightarrow> ParamSpec \<Rightarrow> json \<Rightarrow> string list" where
  "value_violations key p v =
     (if \<not> has_type (prm_type p) v then [key @ '': expected '' @ type_name (prm_type p)]
      else case (prm_type p, prm_enum p, v) of
             (PString, Some en, JStr s) \<Rightarrow> (if s \<in> set en then [] else [key @ '': expected one of '' @ join_with '', '' en])
           | _ \<Rightarrow> [])"

fun check_params :: "tool_params \<Rightarrow> unknown \<Rightarrow> string list \<times> (string, json) al" where
  "check_params [] args = ([], [])"
| "check_params ((key, p) # spec) args =
     (let (vs, out) = check_params spec args in
      case jprop args key of
        None \<Rightarrow> ((if prm_optional p then [] else [key @ '': required'']) @ vs, out)
      | Some JNull \<Rightarrow> ((if prm_optional p then [] else [key @ '': required'']) @ vs, out)
      | Some v \<Rightarrow> (value_violations key p v @ vs, (key, v) # out))"

definition unknown_args :: "tool_params \<Rightarrow> unknown \<Rightarrow> string list" where
  "unknown_args spec args = map (\<lambda>k. k @ '': unknown argument'') (filter (\<lambda>k. \<not> in_spec spec k) (map fst (obj_entries args)))"

definition validateArgs :: "tool_params \<Rightarrow> unknown \<Rightarrow> string + (string, json) al" where
  "validateArgs spec raw =
     (let args = (if is_object raw then raw else Some (JObj [])); (vs, out) = check_params spec args; violations = vs @ unknown_args spec args
      in if violations \<noteq> [] then Inl (''invalid arguments: '' @ join_with ''; '' violations) else Inr out)"

section \<open>The tool definition\<close>

definition property_schema :: "ParamSpec \<Rightarrow> json" where
  "property_schema p = JObj (obj_fields [(''type'', Some (JStr (type_name (prm_type p)))), (''enum'', map_option (\<lambda>en. JArr (map JStr en)) (prm_enum p))])"

definition required_names :: "tool_params \<Rightarrow> string list" where
  "required_names spec = map fst (filter (\<lambda>(k, p). \<not> prm_optional p) spec)"

definition tool_schema :: "tool_params \<Rightarrow> json" where
  "tool_schema spec =
     JObj (obj_fields [(''type'', Some (JStr ''object'')), (''properties'', Some (JObj (map (\<lambda>(k, p). (k, property_schema p)) spec))),
       (''required'', if required_names spec = [] then None else Some (JArr (map JStr (required_names spec)))),
       (''additionalProperties'', Some (JBool False))])"

definition execute_tool :: "tool_params \<Rightarrow> ((string, json) al \<Rightarrow> string + 'r) \<Rightarrow> unknown \<Rightarrow> string + 'r" where
  "execute_tool spec body raw = (case validateArgs spec raw of Inl e \<Rightarrow> Inl e | Inr args \<Rightarrow> body args)"

section \<open>The tools\<close>

abbreviation needs :: "ScalarType \<Rightarrow> ParamSpec" where
  "needs t \<equiv> \<lparr>prm_type = t, prm_optional = False, prm_enum = None\<rparr>"

abbreviation may_have :: "ScalarType \<Rightarrow> ParamSpec" where
  "may_have t \<equiv> \<lparr>prm_type = t, prm_optional = True, prm_enum = None\<rparr>"

abbreviation one_of :: "string list \<Rightarrow> ParamSpec" where
  "one_of en \<equiv> \<lparr>prm_type = PString, prm_optional = False, prm_enum = Some en\<rparr>"

definition friends_params :: tool_params where
  "friends_params = [(''online_only'', may_have PBoolean)]"

definition card_params :: tool_params where "card_params = []"

definition add_friend_params :: tool_params where
  "add_friend_params = [(''card_uri'', needs PString), (''note'', may_have PString)]"

definition send_message_params :: tool_params where
  "send_message_params = [(''fingerprint'', needs PString), (''body'', needs PString)]"

definition send_group_params :: tool_params where
  "send_group_params = [(''gid'', needs PString), (''body'', needs PString)]"

definition read_conversation_params :: tool_params where
  "read_conversation_params = [(''fingerprint'', needs PString), (''since'', may_have PInteger), (''limit'', may_have PInteger)]"

definition wallet_params :: tool_params where
  "wallet_params = [(''op'', one_of [''get_or_create'', ''balance'', ''status'', ''bind'']), (''address'', may_have PString), (''account_name'', may_have PString)]"

definition transfer_params :: tool_params where
  "transfer_params = [(''to_fp'', needs PString), (''to_address'', may_have PString), (''amount_usdc'', needs PString), (''memo'', may_have PString)]"

definition group_params :: tool_params where
  "group_params = [(''op'', one_of [''set_price'', ''paid_join'', ''join_status'']), (''gid'', may_have PString), (''uri'', may_have PString),
     (''price'', may_have PString), (''address'', may_have PString), (''note'', may_have PString), (''memo'', may_have PString)]"

definition remember_params :: tool_params where
  "remember_params = [(''content'', needs PString), (''kind'', may_have PString)]"

definition TOOL_PARAMS :: "tool_params list" where
  "TOOL_PARAMS = [friends_params, card_params, add_friend_params, send_message_params, send_group_params, read_conversation_params,
     wallet_params, transfer_params, group_params, remember_params]"

section \<open>What a schema accepts\<close>

text \<open>
  The part of JSON Schema the definitions use: a type, an enumeration, the properties of an object, the required ones
  and whether others may occur.
\<close>

fun type_accepts :: "string \<Rightarrow> json \<Rightarrow> bool" where
  "type_accepts t (JStr s) = (t = ''string'')"
| "type_accepts t (JBool b) = (t = ''boolean'')"
| "type_accepts t (JNum (Fin r)) = (t = ''number'' \<or> t = ''integer'' \<and> of_int \<lfloor>r\<rfloor> = r)"
| "type_accepts t (JObj kvs) = (t = ''object'')"
| "type_accepts t (JArr xs) = (t = ''array'')"
| "type_accepts t JNull = (t = ''null'')"
| "type_accepts t (JNum NotFinite) = False"

definition scalar_accepts :: "json \<Rightarrow> json \<Rightarrow> bool" where
  "scalar_accepts schema v \<longleftrightarrow>
     type_accepts (as_str (jprop (Some schema) ''type'')) v \<and>
     (case jprop (Some schema) ''enum'' of Some (JArr en) \<Rightarrow> v \<in> set en | _ \<Rightarrow> True)"

definition schema_accepts :: "json \<Rightarrow> json \<Rightarrow> bool" where
  "schema_accepts schema v \<longleftrightarrow>
     type_accepts (as_str (jprop (Some schema) ''type'')) v \<and>
     (\<forall>r \<in> set (arr_items (jprop (Some schema) ''required'')). case r of JStr k \<Rightarrow> jprop (Some v) k \<noteq> None | _ \<Rightarrow> False) \<and>
     (\<forall>(k, w) \<in> set (obj_entries (Some v)).
        case jprop (jprop (Some schema) ''properties'') k of
          Some sub \<Rightarrow> scalar_accepts sub w
        | None \<Rightarrow> jprop (Some schema) ''additionalProperties'' \<noteq> Some (JBool False))"

section \<open>Validation and schema agree\<close>

definition spec_ok :: "tool_params \<Rightarrow> bool" where
  "spec_ok spec \<longleftrightarrow> distinct (map fst spec) \<and> (\<forall>(k, p) \<in> set spec. k \<notin> set OBJECT_PROTOTYPE \<and> (prm_enum p = None \<or> prm_type p = PString))"

lemma tools_ok: "list_all spec_ok TOOL_PARAMS"
  by code_simp

lemma has_type_accepts: "has_type t v \<longleftrightarrow> type_accepts (type_name t) v"
proof (cases v)
  case (JNum n)
  then show ?thesis by (cases n; cases t) (simp_all add: type_name_def)
qed (cases t; simp add: type_name_def)+

lemma property_schema_fields [simp]:
  "jprop (Some (property_schema p)) ''type'' = Some (JStr (type_name (prm_type p)))"
  "jprop (Some (property_schema p)) ''enum'' = map_option (\<lambda>en. JArr (map JStr en)) (prm_enum p)"
  by (simp_all add: property_schema_def map_of_obj_fields)

lemma tool_schema_fields [simp]:
  "jprop (Some (tool_schema spec)) ''type'' = Some (JStr ''object'')"
  "jprop (Some (tool_schema spec)) ''properties'' = Some (JObj (map (\<lambda>(k, p). (k, property_schema p)) spec))"
  "arr_items (jprop (Some (tool_schema spec)) ''required'') = map JStr (required_names spec)"
  "jprop (Some (tool_schema spec)) ''additionalProperties'' = Some (JBool False)"
  by (simp_all add: tool_schema_def map_of_obj_fields)

lemma value_ok_iff:
  assumes "prm_enum p = None \<or> prm_type p = PString"
  shows "value_violations key p v = [] \<longleftrightarrow> scalar_accepts (property_schema p) v"
proof (cases "has_type (prm_type p) v")
  case False
  then show ?thesis by (simp add: value_violations_def scalar_accepts_def has_type_accepts)
next
  case True
  show ?thesis
  proof (cases "prm_enum p")
    case None
    then show ?thesis using True by (simp add: value_violations_def scalar_accepts_def has_type_accepts split: ScalarType.splits)
  next
    case (Some en)
    then have t: "prm_type p = PString" using assms by simp
    then obtain s where "v = JStr s" using True by (cases v) auto
    then show ?thesis using True Some t by (auto simp: value_violations_def scalar_accepts_def has_type_accepts)
  qed
qed

text \<open>The arguments in the order of the specification.\<close>

definition declared_args :: "tool_params \<Rightarrow> (string, json) al \<Rightarrow> (string, json) al" where
  "declared_args spec kvs = concat (map (\<lambda>(k, p). case map_of kvs k of None \<Rightarrow> [] | Some v \<Rightarrow> [(k, v)]) spec)"

definition param_fits :: "(string, json) al \<Rightarrow> string \<times> ParamSpec \<Rightarrow> bool" where
  "param_fits kvs kp \<longleftrightarrow> (case map_of kvs (fst kp) of None \<Rightarrow> prm_optional (snd kp) | Some v \<Rightarrow> scalar_accepts (property_schema (snd kp)) v)"

lemma check_params_spec:
  assumes "JNull \<notin> snd ` set kvs" "\<forall>(k, p) \<in> set spec. prm_enum p = None \<or> prm_type p = PString"
  shows "(fst (check_params spec (Some (JObj kvs))) = [] \<longleftrightarrow> list_all (param_fits kvs) spec) \<and>
    snd (check_params spec (Some (JObj kvs))) = declared_args spec kvs"
  using assms(2)
proof (induction spec)
  case (Cons kp spec)
  obtain k p where kp: "kp = (k, p)" by (cases kp)
  have "map_of kvs k \<noteq> Some JNull" using assms(1) map_of_SomeD by force
  moreover have "value_violations k p v = [] \<longleftrightarrow> scalar_accepts (property_schema p) v" for v
    using Cons.prems kp by (intro value_ok_iff) auto
  moreover obtain vs out where c: "check_params spec (Some (JObj kvs)) = (vs, out)" by fastforce
  moreover have "vs = [] \<longleftrightarrow> list_all (param_fits kvs) spec" "out = declared_args spec kvs" using Cons.IH Cons.prems c kp by simp_all
  moreover have "check_params (kp # spec) (Some (JObj kvs)) =
      (case map_of kvs k of None \<Rightarrow> ((if prm_optional p then [] else [k @ '': required'']) @ vs, out)
       | Some v \<Rightarrow> (value_violations k p v @ vs, (k, v) # out))"
    using calculation(1) c kp by (auto split: option.splits json.splits)
  moreover have "param_fits kvs kp \<longleftrightarrow> (case map_of kvs k of None \<Rightarrow> prm_optional p | Some v \<Rightarrow> scalar_accepts (property_schema p) v)"
    "declared_args (kp # spec) kvs = (case map_of kvs k of None \<Rightarrow> [] | Some v \<Rightarrow> [(k, v)]) @ declared_args spec kvs"
    by (simp_all add: param_fits_def declared_args_def kp split: option.splits)
  ultimately show ?case
    by (cases "map_of kvs k") (simp_all del: check_params.simps)
qed (simp add: declared_args_def)

lemma schema_accepts_iff:
  assumes "distinct (map fst kvs)" "distinct (map fst spec)"
  shows "schema_accepts (tool_schema spec) (JObj kvs) \<longleftrightarrow> list_all (param_fits kvs) spec \<and> fst ` set kvs \<subseteq> fst ` set spec"
proof -
  have sub: "map_of (map (\<lambda>(k, p). (k, property_schema p)) spec) k = map_option property_schema (map_of spec k)" for k
    by (induction spec) auto
  have req: "k \<in> set (required_names spec) \<longleftrightarrow> (\<exists>p. map_of spec k = Some p \<and> \<not> prm_optional p)" for k
    using assms(2) by (force simp: required_names_def)
  have val: "(k, w) \<in> set kvs \<longleftrightarrow> map_of kvs k = Some w" for k w
    using assms(1) by (metis map_of_SomeD map_of_is_SomeI)
  have spec: "(k, p) \<in> set spec \<longleftrightarrow> map_of spec k = Some p" for k p
    using assms(2) by (metis map_of_SomeD map_of_is_SomeI)
  have fits: "list_all (param_fits kvs) spec \<longleftrightarrow> (\<forall>k p. map_of spec k = Some p \<longrightarrow> param_fits kvs (k, p))"
    unfolding list_all_iff using spec by (metis (full_types) surj_pair)
  have names: "fst ` set kvs \<subseteq> fst ` set spec \<longleftrightarrow> (\<forall>k w. map_of kvs k = Some w \<longrightarrow> map_of spec k \<noteq> None)"
    by (force simp: val [symmetric] map_of_eq_None_iff subset_iff)
  have "schema_accepts (tool_schema spec) (JObj kvs) \<longleftrightarrow>
      (\<forall>k p. map_of spec k = Some p \<and> \<not> prm_optional p \<longrightarrow> map_of kvs k \<noteq> None) \<and>
      (\<forall>k w. map_of kvs k = Some w \<longrightarrow> (\<exists>p. map_of spec k = Some p \<and> scalar_accepts (property_schema p) w))"
    (is "_ \<longleftrightarrow> ?req \<and> ?all")
  proof -
    have "(\<forall>r \<in> set (arr_items (jprop (Some (tool_schema spec)) ''required'')). case r of JStr k \<Rightarrow> jprop (Some (JObj kvs)) k \<noteq> None | _ \<Rightarrow> False) \<longleftrightarrow> ?req"
      unfolding tool_schema_fields set_map ball_simps by (auto simp: req)
    moreover have "(\<forall>(k, w) \<in> set (obj_entries (Some (JObj kvs))).
        case jprop (jprop (Some (tool_schema spec)) ''properties'') k of
          Some sub \<Rightarrow> scalar_accepts sub w | None \<Rightarrow> jprop (Some (tool_schema spec)) ''additionalProperties'' \<noteq> Some (JBool False)) \<longleftrightarrow> ?all"
      (is "(\<forall>(k, w) \<in> _. ?P k w) \<longleftrightarrow> _")
    proof -
      have "?P k w \<longleftrightarrow> (\<exists>p. map_of spec k = Some p \<and> scalar_accepts (property_schema p) w)" for k w
        by (simp add: sub split: option.splits)
      then show ?thesis using val by (simp add: case_prod_beta Ball_def)
    qed
    ultimately show ?thesis unfolding schema_accepts_def by simp
  qed
  moreover have "param_fits kvs (k, p) \<longleftrightarrow>
      (\<not> prm_optional p \<longrightarrow> map_of kvs k \<noteq> None) \<and> (\<forall>w. map_of kvs k = Some w \<longrightarrow> scalar_accepts (property_schema p) w)" for k p
    by (simp add: param_fits_def split: option.splits)
  ultimately show ?thesis unfolding fits names by (auto 0 3)
qed



text \<open>A name that every object inherits is not reported as unknown, although the schema allows no further arguments.\<close>

lemma builtin_name_accepted:
  "validateArgs card_params (Some (JObj [(''toString'', JStr [])])) = Inr [] \<and>
   \<not> schema_accepts (tool_schema card_params) (JObj [(''toString'', JStr [])])"
  by code_simp

end
