(* ===== verification/Commands.thy ===== *)
theory Commands
  imports Api_Core
begin

text \<open>
  The slash commands, \<^verbatim>\<open>src/dsh/packages/dsh/src/commands/index.ts\<close>: one function per handler, of the network client, the
  state of the network and the texts outside Latin-1 (dots, ellipsis, dash, arrow). Requests that the code makes at
  the same time are read one after the other; none of them changes the network. Registration with the host is left out.
  Lemmas: what \<open>/add\<close> sends for what is typed, and what the other commands report.
\<close>

datatype CommandResult = CSuccess string | CError string

definition describeError :: "NetworkError \<Rightarrow> string" where
  "describeError e = ne_message e @ '' (code '' @ show_int (ne_code e) @ '')''"

definition command_card :: "(string \<Rightarrow> string) \<Rightarrow> 'n ApiClient \<Rightarrow> 'n \<Rightarrow> CommandResult" where
  "command_card texts cl n =
     (case nc_identity (cl_net cl) n of
        Inl e \<Rightarrow> CError (''Could not read the card: '' @ describeError e)
      | Inr None \<Rightarrow> CError (''No SoulMirror identity yet. Create one in Settings '' @ texts ''arrow'' @ '' SoulMirror network.'')
      | Inr (Some i) \<Rightarrow> CSuccess (''SoulMirror card of '' @ idn_name i @ '' ('' @ idn_fp i @ ''):'' @ [newline] @ idn_cardUri i))"

text \<open>\<open>online[f.fp] ?? f.online\<close>, from a presence answer that is empty when the request failed.\<close>

definition shown_online :: "(string, bool) al \<Rightarrow> Friend \<Rightarrow> bool" where
  "shown_online online f = (case al_get online (fr_fp f) of Some b \<Rightarrow> b | None \<Rightarrow> fr_online f = Some True)"

definition friend_line :: "(string \<Rightarrow> string) \<Rightarrow> (string, bool) al \<Rightarrow> Friend \<Rightarrow> string" where
  "friend_line texts online f =
     texts (if shown_online online f then ''full-dot'' else ''empty-dot'') @ '' '' @ fr_name f @ ''  '' @ fr_fp f @
     (if fr_unread f > 0 then ''  ('' @ show_int (fr_unread f) @ '' unread)'' else []) @
     (if fr_typing f = Some True then ''  typing'' @ texts ''ellipsis'' else [])"

definition pending_line :: "PendingRequest \<Rightarrow> string" where
  "pending_line p = ''  '' @ pq_name p @ ''  '' @ pq_fp p @ (if pq_greeting p = [] then [] else ''  '' @ quote # pq_greeting p @ [quote])"

definition friend_lines :: "(string \<Rightarrow> string) \<Rightarrow> (string, bool) al \<Rightarrow> Friend list \<Rightarrow> PendingRequest list \<Rightarrow> string list" where
  "friend_lines texts online friends pending =
     (if friends = [] then [''(no friends yet '' @ texts ''dash'' @ '' /add <card_uri> to send a request)'']
      else map (friend_line texts online) friends) @
     (if pending = [] then []
      else [[], ''Pending requests ('' @ show_nat (length pending) @ ''; accept/reject on the SoulMirror page):''] @ map pending_line pending)"

definition command_friends :: "(string \<Rightarrow> string) \<Rightarrow> 'n ApiClient \<Rightarrow> 'n \<Rightarrow> CommandResult" where
  "command_friends texts cl n =
     (case (nc_friends_list (cl_net cl) n, cl_friends_pending cl n) of
        (Inl e, _) \<Rightarrow> CError (''Could not list friends: '' @ describeError e)
      | (_, Inl e) \<Rightarrow> CError (''Could not list friends: '' @ describeError e)
      | (Inr friends, Inr pending) \<Rightarrow>
          (let online = (case nc_presence (cl_net cl) (map fr_fp friends) n of Inr o1 \<Rightarrow> o1 | Inl _ \<Rightarrow> [])
           in CSuccess (join_with [newline] (friend_lines texts online friends pending))))"

text \<open>What was typed after \<open>/add\<close>: the card and, after the first white space, the note.\<close>

definition add_input :: "string \<Rightarrow> (string \<times> string option) option" where
  "add_input rawInput =
     (let raw = trim rawInput in
      if raw = [] then None
      else (let uri = takeWhile (\<lambda>c. \<not> is_ws c) raw; rest = dropWhile (\<lambda>c. \<not> is_ws c) raw
            in Some (uri, if rest = [] then None else nonempty_opt (trim rest))))"

definition command_add :: "'n ApiClient \<Rightarrow> string \<Rightarrow> 'n \<Rightarrow> CommandResult \<times> 'n" where
  "command_add cl rawInput n =
     (case add_input rawInput of
        None \<Rightarrow> (CError ''Usage: /add <card_uri> [note]'', n)
      | Some (uri, note) \<Rightarrow>
          (case nc_parseCard (cl_net cl) uri n of
             Inl e \<Rightarrow> (CError (''Could not send the friend request: '' @ describeError e), n)
           | Inr (fp, name) \<Rightarrow>
               (case nc_friends_add (cl_net cl) uri note n of
                  (Inl e, n1) \<Rightarrow> (CError (''Could not send the friend request: '' @ describeError e), n1)
                | (Inr f, n1) \<Rightarrow> (CSuccess (''Friend request sent to '' @ (if name \<noteq> [] then name else fr_name f) @ '' ('' @ fr_fp f @
                    ''). Messages can be exchanged once they accept.''), n1))))"

text \<open>\<open>drafts\<close>: the number of waiting drafts, when the sessions plugin is there.\<close>

definition command_soulmirror :: "'n ApiClient \<Rightarrow> nat option \<Rightarrow> 'n \<Rightarrow> CommandResult" where
  "command_soulmirror cl drafts n =
     (case (nc_friends_list (cl_net cl) n, cl_friends_pending cl n) of
        (Inl e, _) \<Rightarrow> CError (''Could not read the network state: '' @ describeError e)
      | (_, Inl e) \<Rightarrow> CError (''Could not read the network state: '' @ describeError e)
      | (Inr friends, Inr pending) \<Rightarrow>
          (let unread = foldl (\<lambda>sum f. sum + (if fr_unread f > 0 then fr_unread f else 0)) 0 friends
           in CSuccess (''SoulMirror page: '' @ show_nat (length friends) @ '' friend(s), '' @ show_int unread @ '' unread, '' @
                show_nat (length pending) @ '' pending request(s), '' @ show_nat (case drafts of None \<Rightarrow> 0 | Some k \<Rightarrow> k) @
                '' draft(s) of your alter waiting for review. Open it from the '' @ quote # ''SoulMirror'' @ quote #
                '' entry at the sidebar foot (or pick '' @ quote # ''My alter'' @ quote # '' / a friend from the /soulmirror popup).'')))"

section \<open>What is sent\<close>

lemma takeWhile_uri: "\<forall>c \<in> set uri. \<not> is_ws c \<Longrightarrow> rest = [] \<or> is_ws (hd rest) \<Longrightarrow>
    takeWhile (\<lambda>c. \<not> is_ws c) (uri @ rest) = uri \<and> dropWhile (\<lambda>c. \<not> is_ws c) (uri @ rest) = rest"
  by (cases rest) (simp_all add: takeWhile_append2 dropWhile_append2)

text \<open>A card and a note typed with a space between them are what is sent, and so is a card alone.\<close>

lemma add_input_read:
  assumes "uri \<noteq> []" "\<forall>c \<in> set uri. \<not> is_ws c" "note \<noteq> []" "trim note = note"
  shows "add_input uri = Some (uri, None)" "add_input (uri @ '' '' @ note) = Some (uri, Some note)"
proof -
  have hd: "\<not> is_ws (hd uri)" "\<not> is_ws (last uri)" "\<not> is_ws (last note)" using assms by (auto simp: trim_id_iff)
  have "trim uri = uri" using hd by (simp add: trim_id_iff)
  then show "add_input uri = Some (uri, None)" using assms takeWhile_uri [of uri "[]"] by (simp add: add_input_def)
  have t: "trim (uri @ '' '' @ note) = uri @ '' '' @ note" using hd assms by (simp add: trim_id_iff)
  have ws: "is_ws (CHR '' '')" by code_simp
  have n: "trim ('' '' @ note) = note"
  proof -
    have "trimStart ('' '' @ note) = note" using assms(3,4) ws trimStart_id [of "note"] by (auto simp: trimStart_def trim_id_iff)
    then show ?thesis using hd(3) by (simp add: trim_def trimEnd_id)
  qed
  show "add_input (uri @ '' '' @ note) = Some (uri, Some note)"
    unfolding add_input_def t Let_def using takeWhile_uri [OF assms(2), of "'' '' @ note"] ws assms(1,3) n by (simp add: nonempty_opt_def)
qed

text \<open>
  \<open>/add\<close> makes one friend request, with the card and the note that were typed, and only for a card that can be read;
  otherwise the network is as before. An error of the network is reported as one.
\<close>

lemma add_command_effect:
  "case add_input raw of
     None \<Rightarrow> command_add cl raw n = (CError ''Usage: /add <card_uri> [note]'', n)
   | Some (uri, note) \<Rightarrow>
       (case nc_parseCard (cl_net cl) uri n of
          Inl e \<Rightarrow> snd (command_add cl raw n) = n
        | Inr _ \<Rightarrow> snd (command_add cl raw n) = snd (nc_friends_add (cl_net cl) uri note n)) \<and>
       ((\<exists>t. fst (command_add cl raw n) = CSuccess t) \<longleftrightarrow>
        (\<exists>c f. nc_parseCard (cl_net cl) uri n = Inr c \<and> fst (nc_friends_add (cl_net cl) uri note n) = Inr f))"
  by (auto simp: command_add_def split: option.splits sum.splits prod.splits)

text \<open>The unread count that is reported is the sum over the friends.\<close>

lemma unread_sum: "foldl (\<lambda>sum f. sum + (if fr_unread f > 0 then fr_unread f else 0)) k fs = k + sum_list (map (\<lambda>f. max 0 (fr_unread f)) fs)"
  by (induction fs arbitrary: k) (auto simp: max_def)

end
