(* ===== verification/Session_Host.thy ===== *)
theory Session_Host
  imports Persona_Context Settings
begin

text \<open>
  The parts of \<^verbatim>\<open>src/dsh/packages/dsh/src/sessions/index.ts\<close> that face the host: the rosters of the prompt, the choice of a preset and a
  model for a session, the debounced publication of states, and the migration of workspaces that earlier versions
  created. The host's services (presets, workspace registry, session list, files) are inputs; \<open>localeCompare\<close> is the
  parameter \<open>lc\<close>, texts outside Latin-1 are given by \<open>texts\<close>.
  Lemmas: a roster has one line per friend whatever the overrides contain, only the plugin's own workspaces are
  touched and no session is lost, an installed preset is not overwritten, nothing is published after disposal.
\<close>

section \<open>Settings, preset and model\<close>

text \<open>\<open>live\<close>: the settings service's current value, when there is one.\<close>

definition sessions_settings :: "SoulmirrorSettings option \<Rightarrow> ReplyTier \<times> int \<times> AlterMode" where
  "sessions_settings live =
     (case live of
        None \<Rightarrow> (DEFAULT_REPLY_TIER, DEFAULT_AUTO_REPLY_PER_HOUR, Comms)
      | Some s \<Rightarrow> (sm_defaultTier s, sm_autoReplyPerHour s, sm_alterMode s))"

definition PRESET_ID :: string where "PRESET_ID = ''soulmirror-chat''"

text \<open>The preset service: what an id resolves to, and whether that preset is broken; \<open>Inl\<close> when it throws.\<close>

type_synonym preset_service = "string \<Rightarrow> string + (string \<times> string option)"

definition resolve_preset :: "preset_service option \<Rightarrow> string \<Rightarrow> string option" where
  "resolve_preset presets wanted =
     (case presets of
        None \<Rightarrow> None
      | Some resolve \<Rightarrow> (case resolve wanted of Inr (i, None) \<Rightarrow> Some i | _ \<Rightarrow> None))"

definition composeSetup :: "preset_service option \<Rightarrow> string option \<Rightarrow> SoulmirrorSettings option \<Rightarrow> string option" where
  "composeSetup presets config_preset live =
     resolve_preset presets
       (case config_preset of
          Some p \<Rightarrow> p
        | None \<Rightarrow> (if snd (snd (sessions_settings live)) = Full then ''standard'' else PRESET_ID))"

definition composeAgentSetup :: "preset_service option \<Rightarrow> SeatAgent \<Rightarrow> string option" where
  "composeAgentSetup presets seat = resolve_preset presets (case sa_preset seat of Some p \<Rightarrow> p | None \<Rightarrow> ''standard'')"

text \<open>\<open>selection\<close>: the default model's provider and model, \<open>Inl\<close> when the service throws.\<close>

definition defaultAgentOptions :: "(string + (string option \<times> string option) option) option \<Rightarrow> (string \<times> string) option" where
  "defaultAgentOptions selection =
     (case selection of
        Some (Inr (Some (Some p, Some m))) \<Rightarrow> (if p \<noteq> [] \<and> m \<noteq> [] then Some (p, m) else None)
      | _ \<Rightarrow> None)"

section \<open>Rosters\<close>

text \<open>\<open>replace(/\s*\n\s*/g, ' / ')\<close>: a run of white space with a line break in it becomes a slash.\<close>

function one_line :: "string \<Rightarrow> string" where
  "one_line [] = []"
| "one_line (c # s) =
     (if is_ws c
      then (let w = takeWhile is_ws (c # s) in (if newline \<in> set w then '' / '' else w) @ one_line (dropWhile is_ws (c # s)))
      else c # one_line s)"
  by pat_completeness auto

termination
  by (relation "measure length") (auto simp: le_imp_less_Suc length_dropWhile_le)

abbreviation dot_sep :: string where "dot_sep \<equiv> '' '' @ [CHR 0xB7] @ '' ''"

definition friend_name :: "Friend \<Rightarrow> string" where
  "friend_name f = displayNameOf (Some f) (fr_fp f)"

definition roster_line :: "SessionsState \<Rightarrow> Friend \<Rightarrow> string" where
  "roster_line s f =
     (let override = trim (case fr_protocol f of None \<Rightarrow> [] | Some p \<Rightarrow> p)
      in ''- '' @ friend_name f @ dot_sep @ fr_fp f @ dot_sep @ tier_str (sess_tierOf s (fr_fp f)) @ dot_sep @
         (if override = [] then ''(no override)'' else one_line override))"

definition sorted_friends :: "(string \<Rightarrow> string \<Rightarrow> int) \<Rightarrow> SessionsState \<Rightarrow> Friend list" where
  "sorted_friends lc s = js_sort (\<lambda>a b. lc (friend_name a) (friend_name b)) (map snd (ss_friendsByFp s))"

definition roster :: "(string \<Rightarrow> string \<Rightarrow> int) \<Rightarrow> SessionsState \<Rightarrow> string" where
  "roster lc s =
     (let friends = sorted_friends lc s
      in if friends = [] then PERSONA_NONE else join_with [newline] (map (roster_line s) friends))"

definition wake_str :: "GroupAgentWake \<Rightarrow> string" where
  "wake_str w = (case w of WMention \<Rightarrow> ''mention'' | WAlways \<Rightarrow> ''always'' | WNever \<Rightarrow> ''never'')"

definition group_line :: "SessionsState \<Rightarrow> string \<times> group_view \<Rightarrow> string" where
  "group_line s gg =
     (let (gid, g) = gg; p = gv_profile g;
          agents = (if gpv_speakAgents p then ''agents may post (tier '' @ tier_str (gpv_agentTier p) @ '', wake '' @ wake_str (gpv_agentWake p) @ '')''
                    else ''agents muted'');
          mine = (if alterOn (ss_groupSettings s) gid
                  then (if modeOf (ss_groupSettings s) gid = MAlways then ''active (every message may wake me)'' else ''on mention only'')
                  else ''off'')
      in ''- '' @ gv_name g @ dot_sep @ ''gid '' @ gid @ dot_sep @ agents @ dot_sep @ ''my participation: '' @ mine)"

definition groupsRoster :: "(string \<Rightarrow> string \<Rightarrow> int) \<Rightarrow> SessionsState \<Rightarrow> string" where
  "groupsRoster lc s =
     (if ss_groupsByGid s = [] then PERSONA_NONE
      else join_with [newline] (map (group_line s) (js_sort (\<lambda>a b. lc (gv_name (snd a)) (gv_name (snd b))) (ss_groupsByGid s))))"

definition draft_line :: "(string \<Rightarrow> string) \<Rightarrow> PendingDraft \<Rightarrow> string" where
  "draft_line texts d =
     ''- '' @ d_id d @ '' '' @ texts ''arrow'' @ '' '' @ d_name d @ '' ('' @ d_fp d @ ''): '' @ [quote] @
     (if length (d_body d) > 120 then take 120 (d_body d) @ texts ''ellipsis'' else d_body d) @ [quote] @ '' ['' @ d_reason d @ '']''"

definition draftsLine :: "(string \<Rightarrow> string) \<Rightarrow> SessionsState \<Rightarrow> string" where
  "draftsLine texts s =
     (let ds = ds_list (ss_drafts s) None
      in if ds = [] then ''none'' else show_nat (length ds) @ [newline] @ join_with [newline] (map (draft_line texts) ds))"

section \<open>Publication\<close>

text \<open>
  \<open>publishAlter\<close> and \<open>publishAgent\<close> put off what they publish until a timer fires; a further call starts the timer
  again. \<open>pb_sent\<close> are the events handed to the listeners.
\<close>

datatype published =
    PubAlter "string \<times> bool \<times> AlterLatest"
  | PubAgent string "string option" bool nat "string list"

record publisher =
  pb_alterTimer :: bool
  pb_agentTimers :: "string list"
  pb_disposed :: bool
  pb_sent :: "published list"

definition new_publisher :: publisher where
  "new_publisher = \<lparr>pb_alterTimer = False, pb_agentTimers = [], pb_disposed = False, pb_sent = []\<rparr>"

definition publishAlter :: "publisher \<Rightarrow> publisher" where
  "publishAlter p = p\<lparr>pb_alterTimer := True\<rparr>"

definition alter_fires :: "Host \<Rightarrow> SessionsState \<Rightarrow> publisher \<Rightarrow> publisher" where
  "alter_fires host s p =
     (if \<not> pb_alterTimer p then p
      else (let q = p\<lparr>pb_alterTimer := False\<rparr> in
            if pb_disposed q then q
            else case sess_latest host s of None \<Rightarrow> q | Some st \<Rightarrow> q\<lparr>pb_sent := pb_sent q @ [PubAlter st]\<rparr>))"

definition publishAgent :: "string \<Rightarrow> publisher \<Rightarrow> publisher" where
  "publishAgent name p = p\<lparr>pb_agentTimers := List.insert name (pb_agentTimers p)\<rparr>"

definition agent_state :: "Host \<Rightarrow> SessionsState \<Rightarrow> string \<Rightarrow> published" where
  "agent_state host s name =
     (let sessionId = al_get (ss_agentSessionIds s) name;
          gids = map fst (filter (\<lambda>(gid, i). ho_live host i \<and> ho_running host i)
                   (case al_get (ss_agentGroupSessionIds s) name of None \<Rightarrow> [] | Some m \<Rightarrow> m));
          directRunning = (case sessionId of None \<Rightarrow> False | Some i \<Rightarrow> ho_live host i \<and> ho_running host i);
          seq = (case Option.bind sessionId (ho_events host) of None \<Rightarrow> 0 | Some evs \<Rightarrow> length evs)
      in PubAgent name sessionId (directRunning \<or> gids \<noteq> []) seq gids)"

definition agent_fires :: "Host \<Rightarrow> SessionsState \<Rightarrow> string \<Rightarrow> publisher \<Rightarrow> publisher" where
  "agent_fires host s name p =
     (if name \<notin> set (pb_agentTimers p) then p
      else (let q = p\<lparr>pb_agentTimers := filter (\<lambda>k. k \<noteq> name) (pb_agentTimers p)\<rparr>
            in if pb_disposed q then q else q\<lparr>pb_sent := pb_sent q @ [agent_state host s name]\<rparr>))"

definition dispose_publisher :: "publisher \<Rightarrow> publisher" where
  "dispose_publisher p = p\<lparr>pb_disposed := True, pb_alterTimer := False, pb_agentTimers := []\<rparr>"

datatype pub_event = AskAlter | AskAgent string | AlterTimer Host SessionsState | AgentTimer Host SessionsState string | DisposeAll

fun pub_step :: "publisher \<Rightarrow> pub_event \<Rightarrow> publisher" where
  "pub_step p AskAlter = publishAlter p"
| "pub_step p (AskAgent name) = publishAgent name p"
| "pub_step p (AlterTimer host s) = alter_fires host s p"
| "pub_step p (AgentTimer host s name) = agent_fires host s name p"
| "pub_step p DisposeAll = dispose_publisher p"

definition pub_run :: "pub_event list \<Rightarrow> publisher \<Rightarrow> publisher" where
  "pub_run evs p = foldl pub_step p evs"

section \<open>Workspaces of earlier versions\<close>

record workspace =
  ws_id :: string
  ws_title :: string
  ws_path :: string
  ws_sessionIds :: "string list"

text \<open>The workspace registry: its workspaces and the sessions hidden from the sidebar.\<close>

record registry =
  rg_workspaces :: "workspace list"
  rg_archived :: "string list"

text \<open>What the host refuses: to archive a session, to detach one from a workspace, to delete a workspace.\<close>

record refusals =
  rf_archive :: "string \<Rightarrow> bool"
  rf_detach :: "string \<Rightarrow> string \<Rightarrow> bool"
  rf_delete :: "string \<Rightarrow> bool"

definition plain_path :: "string \<Rightarrow> string" where
  "plain_path p = rev (dropWhile (\<lambda>c. c = CHR ''/'') (rev (map (\<lambda>c. if c = backslash then CHR ''/'' else c) p)))"

definition hideAlterFromSidebar :: "refusals \<Rightarrow> string \<Rightarrow> registry \<Rightarrow> registry" where
  "hideAlterFromSidebar rf sid r = (if rf_archive rf sid then r else r\<lparr>rg_archived := List.insert sid (rg_archived r)\<rparr>)"

text \<open>\<open>headers\<close>: the persisted sessions with their directories; \<open>None\<close> when there is no such service, \<open>Some None\<close> when it throws.\<close>

definition archiveAlterSessions :: "refusals \<Rightarrow> string \<Rightarrow> (string \<times> string option) list option option \<Rightarrow> registry \<Rightarrow> registry" where
  "archiveAlterSessions rf mirrorDir headers r =
     (case headers of
        Some (Some hs) \<Rightarrow>
          fold (\<lambda>(sid, cwd) r. if map_option plain_path cwd = Some (plain_path mirrorDir) then hideAlterFromSidebar rf sid r else r) hs r
      | _ \<Rightarrow> r)"

definition on_workspace :: "string \<Rightarrow> (workspace \<Rightarrow> workspace) \<Rightarrow> registry \<Rightarrow> registry" where
  "on_workspace i f r = r\<lparr>rg_workspaces := map (\<lambda>w. if ws_id w = i then f w else w) (rg_workspaces r)\<rparr>"

fun detach_all :: "refusals \<Rightarrow> string \<Rightarrow> string list \<Rightarrow> registry \<Rightarrow> bool \<times> registry" where
  "detach_all rf i [] r = (True, r)"
| "detach_all rf i (sid # sids) r =
     (if rf_detach rf i sid then (False, r)
      else detach_all rf i sids (hideAlterFromSidebar rf sid (on_workspace i (\<lambda>w. w\<lparr>ws_sessionIds := filter (\<lambda>k. k \<noteq> sid) (ws_sessionIds w)\<rparr>) r)))"

definition ends_with :: "string \<Rightarrow> string \<Rightarrow> bool" where
  "ends_with s t \<longleftrightarrow> suffix t s"

definition own_workspace :: "string \<Rightarrow> string \<Rightarrow> workspace \<Rightarrow> bool" where
  "own_workspace title mirrorDir w \<longleftrightarrow>
     ws_title w = title \<and> (ends_with (plain_path (ws_path w)) ''/a2a'' \<or> plain_path (ws_path w) = plain_path mirrorDir)"

definition remove_workspace :: "refusals \<Rightarrow> string \<Rightarrow> string \<Rightarrow> workspace \<Rightarrow> registry \<Rightarrow> registry" where
  "remove_workspace rf title mirrorDir w r =
     (if \<not> own_workspace title mirrorDir w then r
      else (let (ok, r1) = detach_all rf (ws_id w) (ws_sessionIds w) r
            in if ok \<and> \<not> rf_delete rf (ws_id w) then r1\<lparr>rg_workspaces := filter (\<lambda>v. ws_id v \<noteq> ws_id w) (rg_workspaces r1)\<rparr> else r1))"

definition removeLegacyWorkspaces :: "refusals \<Rightarrow> string \<Rightarrow> string \<Rightarrow> registry \<Rightarrow> registry" where
  "removeLegacyWorkspaces rf title mirrorDir r = fold (remove_workspace rf title mirrorDir) (rg_workspaces r) r"

section \<open>The preset's files\<close>

type_synonym file_tree = "string list \<Rightarrow> string option"

definition dshHome :: "string list option \<Rightarrow> string list \<Rightarrow> string list" where
  "dshHome env homedir = (case env of Some h \<Rightarrow> (if h \<noteq> [] then h else homedir @ [''.dsh'']) | None \<Rightarrow> homedir @ [''.dsh''])"

text \<open>The flag is false when \<open>copyFile\<close> throws because a source file is missing.\<close>

fun copy_preset :: "string list list \<Rightarrow> string list \<Rightarrow> file_tree \<Rightarrow> bool \<times> file_tree" where
  "copy_preset [] target fs = (True, fs)"
| "copy_preset (source # rest) target fs =
     (case fs (source @ [''agent.cordis.yml'']) of
        None \<Rightarrow> copy_preset rest target fs
      | Some a \<Rightarrow>
          (let fs1 = fs(target @ [''agent.cordis.yml''] \<mapsto> a)
           in case fs1 (source @ [''preset.yml'']) of None \<Rightarrow> (False, fs1) | Some b \<Rightarrow> (True, fs1(target @ [''preset.yml''] \<mapsto> b))))"

definition installPreset :: "string list \<Rightarrow> string \<Rightarrow> string list \<Rightarrow> file_tree \<Rightarrow> bool \<times> file_tree" where
  "installPreset dsh presetId here fs =
     (let target = dsh @ [''.agent-presets'', presetId] in
      if fs (target @ [''agent.cordis.yml'']) \<noteq> None then (True, fs)
      else copy_preset [butlast here @ [''presets'', PRESET_ID], butlast (butlast here) @ [''presets'', PRESET_ID]] target fs)"

section \<open>One line per friend\<close>

lemma one_line_no_newline: "newline \<notin> set (one_line t)"
proof (induction t rule: one_line.induct)
  case (2 c s)
  then show ?case using newline_ws by (auto simp: Let_def newline_def)
qed simp

lemma tier_no_newline: "newline \<notin> set (tier_str t)"
  by (cases t) (simp_all add: tier_str_def newline_def)

lemma roster_line_no_newline:
  "newline \<notin> set (friend_name f) \<Longrightarrow> newline \<notin> set (fr_fp f) \<Longrightarrow> newline \<notin> set (roster_line s f)"
  using one_line_no_newline tier_no_newline by (simp add: roster_line_def Let_def newline_def)

text \<open>
  The roster of friends in the alter's prompt has exactly one line per friend, in the order of the names, whatever
  the friends' protocol overrides contain: a line break in an override cannot make up a further line. Only a name or a
  fingerprint with a line break could.\<close>

theorem roster_one_line_each:
  assumes "collation lc" "ss_friendsByFp s \<noteq> []"
    and "\<forall>f \<in> snd ` set (ss_friendsByFp s). newline \<notin> set (friend_name f) \<and> newline \<notin> set (fr_fp f)"
  shows "split_on newline (roster lc s) = map (roster_line s) (sorted_friends lc s) \<and>
    mset (sorted_friends lc s) = mset (map snd (ss_friendsByFp s)) \<and>
    sorted_wrt (\<lambda>a b. lc (friend_name a) (friend_name b) \<le> 0) (sorted_friends lc s)"
proof (intro conjI)
  have m: "mset (sorted_friends lc s) = mset (map snd (ss_friendsByFp s))" by (simp add: sorted_friends_def)
  then show "mset (sorted_friends lc s) = mset (map snd (ss_friendsByFp s))" .
  then have st: "set (sorted_friends lc s) = snd ` set (ss_friendsByFp s)" by (metis mset_eq_setD set_map)
  have ne: "sorted_friends lc s \<noteq> []" using m assms(2) by (metis map_is_Nil_conv mset_zero_iff)
  show "split_on newline (roster lc s) = map (roster_line s) (sorted_friends lc s)"
    unfolding roster_def Let_def using ne assms(3) st by (simp add: split_on_join roster_line_no_newline)
  have "comparator lc" using assms(1) by (simp add: collation_def)
  then have "comparator (\<lambda>a b. lc (friend_name a) (friend_name b))" unfolding comparator_def by blast
  then show "sorted_wrt (\<lambda>a b. lc (friend_name a) (friend_name b) \<le> 0) (sorted_friends lc s)"
    unfolding sorted_friends_def by (rule comparator.js_sort_sorted)
qed

definition two_friends :: SessionsState where
  "two_friends = (new_SessionsState Draft True None None None None None)\<lparr>ss_friendsByFp :=
     map (\<lambda>(fp, nm, p). (fp, \<lparr>fr_fp = fp, fr_name = nm, fr_remark = None, fr_cardName = None, fr_protocol = p, fr_online = None, fr_unread = 0,
       fr_count = 0, fr_lastTs = None, fr_lastBody = None, fr_typing = None, fr_addedAt = None\<rparr>))
     [(''f2'', ''Bo'', Some (''be brief'' @ [newline] @ ''- Eve'')), (''f1'', ''Al'', None)]\<rparr>"

theorem roster_one_line_each_witness:
  "split_on newline (roster code_unit_compare two_friends) = map (roster_line two_friends) (sorted_friends code_unit_compare two_friends) \<and>
   mset (sorted_friends code_unit_compare two_friends) = mset (map snd (ss_friendsByFp two_friends)) \<and>
   sorted_wrt (\<lambda>a b. code_unit_compare (friend_name a) (friend_name b) \<le> 0) (sorted_friends code_unit_compare two_friends)"
proof (rule roster_one_line_each [OF code_unit.collation_axioms])
  show "ss_friendsByFp two_friends \<noteq> []"
    "\<forall>f \<in> snd ` set (ss_friendsByFp two_friends). newline \<notin> set (friend_name f) \<and> newline \<notin> set (fr_fp f)"
    by (simp_all add: two_friends_def friend_name_def displayNameOf_def newline_def)
qed

section \<open>Only the plugin's own workspaces\<close>

lemma hide_fields [simp]: "rg_workspaces (hideAlterFromSidebar rf sid r) = rg_workspaces r"
  by (simp add: hideAlterFromSidebar_def)

lemma hide_archived: "set (rg_archived (hideAlterFromSidebar rf sid r)) = set (rg_archived r) \<union> (if rf_archive rf sid then {} else {sid})"
  by (auto simp: hideAlterFromSidebar_def)

lemma on_workspace_fields [simp]: "rg_archived (on_workspace i f r) = rg_archived r"
  by (simp add: on_workspace_def)

lemma on_workspace_other: "w \<in> set (rg_workspaces r) \<Longrightarrow> ws_id w \<noteq> i \<Longrightarrow> w \<in> set (rg_workspaces (on_workspace i f r))"
  by (force simp: on_workspace_def)

lemma detach_all_spec:
  "detach_all rf i sids r = (done, r') \<Longrightarrow>
     (\<forall>w. w \<in> set (rg_workspaces r) \<and> ws_id w \<noteq> i \<longrightarrow> w \<in> set (rg_workspaces r')) \<and>
     map ws_id (rg_workspaces r') = map ws_id (rg_workspaces r) \<and>
     set (rg_archived r) \<subseteq> set (rg_archived r') \<and> set (rg_archived r') \<subseteq> set (rg_archived r) \<union> set sids \<and>
     ((\<forall>sid. \<not> rf_detach rf i sid \<and> \<not> rf_archive rf sid) \<longrightarrow> done \<and> set sids \<subseteq> set (rg_archived r'))"
proof (induction rf i sids r rule: detach_all.induct)
  case (2 rf i sid sids r)
  let ?f = "\<lambda>w. w\<lparr>ws_sessionIds := filter (\<lambda>k. k \<noteq> sid) (ws_sessionIds w)\<rparr>"
  let ?r = "hideAlterFromSidebar rf sid (on_workspace i ?f r)"
  have ids: "map ws_id (rg_workspaces ?r) = map ws_id (rg_workspaces r)" by (simp add: on_workspace_def)
  have other: "\<forall>w. w \<in> set (rg_workspaces r) \<and> ws_id w \<noteq> i \<longrightarrow> w \<in> set (rg_workspaces ?r)" by (simp add: on_workspace_other)
  have arch: "set (rg_archived ?r) = set (rg_archived r) \<union> (if rf_archive rf sid then {} else {sid})" by (simp add: hide_archived)
  show ?case
  proof (cases "rf_detach rf i sid")
    case True
    then show ?thesis using "2.prems" by auto
  next
    case False
    then show ?thesis using "2.IH" [OF False] "2.prems" ids other arch by (auto split: if_splits)
  qed
qed simp

text \<open>What one turn of the loop does to the others' workspaces and to the hidden sessions.\<close>

lemma remove_workspace_spec:
  assumes "r' = remove_workspace rf title mirror w r" "own_workspace title mirror w"
  shows "(\<forall>v. v \<in> set (rg_workspaces r) \<and> ws_id v \<noteq> ws_id w \<longrightarrow> v \<in> set (rg_workspaces r')) \<and>
     set (map ws_id (rg_workspaces r')) \<subseteq> set (map ws_id (rg_workspaces r)) \<and>
     set (rg_archived r) \<subseteq> set (rg_archived r') \<and> set (rg_archived r') \<subseteq> set (rg_archived r) \<union> set (ws_sessionIds w) \<and>
     ((\<forall>sid i. \<not> rf_detach rf i sid \<and> \<not> rf_archive rf sid \<and> \<not> rf_delete rf i) \<longrightarrow>
        ws_id w \<notin> set (map ws_id (rg_workspaces r')) \<and> set (ws_sessionIds w) \<subseteq> set (rg_archived r'))"
proof -
  obtain d r1 where d: "detach_all rf (ws_id w) (ws_sessionIds w) r = (d, r1)" by fastforce
  note spec = detach_all_spec [OF d]
  have r': "r' = (if d \<and> \<not> rf_delete rf (ws_id w) then r1\<lparr>rg_workspaces := filter (\<lambda>v. ws_id v \<noteq> ws_id w) (rg_workspaces r1)\<rparr> else r1)"
    using assms d by (simp add: remove_workspace_def)
  have ids: "set (map ws_id (rg_workspaces r1)) = set (map ws_id (rg_workspaces r))" using spec by metis
  show ?thesis
  proof (intro conjI impI)
    show "\<forall>v. v \<in> set (rg_workspaces r) \<and> ws_id v \<noteq> ws_id w \<longrightarrow> v \<in> set (rg_workspaces r')" using spec r' by auto
    show "set (map ws_id (rg_workspaces r')) \<subseteq> set (map ws_id (rg_workspaces r))" using ids r' by auto
    show "set (rg_archived r) \<subseteq> set (rg_archived r')" "set (rg_archived r') \<subseteq> set (rg_archived r) \<union> set (ws_sessionIds w)"
      using spec r' by simp_all
    assume a: "\<forall>sid i. \<not> rf_detach rf i sid \<and> \<not> rf_archive rf sid \<and> \<not> rf_delete rf i"
    then have "d" "set (ws_sessionIds w) \<subseteq> set (rg_archived r1)" using spec by blast+
    then show "ws_id w \<notin> set (map ws_id (rg_workspaces r'))" "set (ws_sessionIds w) \<subseteq> set (rg_archived r')" using r' a by auto
  qed
qed

lemma remove_all_spec:
  assumes "r' = fold (remove_workspace rf title mirror) ws r"
  shows "(\<forall>v. v \<in> set (rg_workspaces r) \<and> ws_id v \<notin> ws_id ` {w \<in> set ws. own_workspace title mirror w} \<longrightarrow> v \<in> set (rg_workspaces r')) \<and>
     set (map ws_id (rg_workspaces r')) \<subseteq> set (map ws_id (rg_workspaces r)) \<and>
     set (rg_archived r) \<subseteq> set (rg_archived r') \<and>
     set (rg_archived r') \<subseteq> set (rg_archived r) \<union> (\<Union>w \<in> {w \<in> set ws. own_workspace title mirror w}. set (ws_sessionIds w)) \<and>
     ((\<forall>sid i. \<not> rf_detach rf i sid \<and> \<not> rf_archive rf sid \<and> \<not> rf_delete rf i) \<longrightarrow>
        (\<forall>w \<in> set ws. own_workspace title mirror w \<longrightarrow>
           ws_id w \<notin> set (map ws_id (rg_workspaces r')) \<and> set (ws_sessionIds w) \<subseteq> set (rg_archived r')))"
  using assms
proof (induction ws arbitrary: r)
  case (Cons w ws)
  let ?r = "remove_workspace rf title mirror w r"
  have r': "r' = fold (remove_workspace rf title mirror) ws ?r" using Cons.prems by simp
  note ih = Cons.IH [OF r']
  show ?case
  proof (cases "own_workspace title mirror w")
    case False
    then have "?r = r" by (simp add: remove_workspace_def)
    then show ?thesis using ih False by auto
  next
    case True
    note one = remove_workspace_spec [of ?r rf title mirror w r, OF refl True]
    show ?thesis
    proof (intro conjI impI)
      show "\<forall>v. v \<in> set (rg_workspaces r) \<and> ws_id v \<notin> ws_id ` {u \<in> set (w # ws). own_workspace title mirror u} \<longrightarrow> v \<in> set (rg_workspaces r')"
      proof (intro allI impI, elim conjE)
        fix v assume v: "v \<in> set (rg_workspaces r)" "ws_id v \<notin> ws_id ` {u \<in> set (w # ws). own_workspace title mirror u}"
        then have "ws_id v \<noteq> ws_id w" using True by auto
        then have "v \<in> set (rg_workspaces ?r)" using one [THEN conjunct1] v(1) by blast
        moreover have "ws_id v \<notin> ws_id ` {w \<in> set ws. own_workspace title mirror w}" using v(2) by auto
        ultimately show "v \<in> set (rg_workspaces r')" using ih [THEN conjunct1] by blast
      qed
      show "set (map ws_id (rg_workspaces r')) \<subseteq> set (map ws_id (rg_workspaces r))" using ih one by blast
      show "set (rg_archived r) \<subseteq> set (rg_archived r')" using ih one by blast
      show "set (rg_archived r') \<subseteq> set (rg_archived r) \<union> (\<Union>w \<in> {u \<in> set (w # ws). own_workspace title mirror u}. set (ws_sessionIds w))"
      proof
        fix k assume "k \<in> set (rg_archived r')"
        then consider "k \<in> set (rg_archived ?r)" | u where "u \<in> set ws" "own_workspace title mirror u" "k \<in> set (ws_sessionIds u)"
          using ih [THEN conjunct2, THEN conjunct2, THEN conjunct2, THEN conjunct1] by blast
        then show "k \<in> set (rg_archived r) \<union> (\<Union>w \<in> {u \<in> set (w # ws). own_workspace title mirror u}. set (ws_sessionIds w))"
        proof cases
          case 1
          then show ?thesis using one [THEN conjunct2, THEN conjunct2, THEN conjunct2, THEN conjunct1] True by auto
        qed auto
      qed
      assume a: "\<forall>sid i. \<not> rf_detach rf i sid \<and> \<not> rf_archive rf sid \<and> \<not> rf_delete rf i"
      have "ws_id w \<notin> set (map ws_id (rg_workspaces r'))" "set (ws_sessionIds w) \<subseteq> set (rg_archived r')" using ih one a by blast+
      then show "\<forall>u \<in> set (w # ws). own_workspace title mirror u \<longrightarrow>
          ws_id u \<notin> set (map ws_id (rg_workspaces r')) \<and> set (ws_sessionIds u) \<subseteq> set (rg_archived r')"
        using ih a by simp
    qed
  qed
qed simp

text \<open>
  The migration of workspaces touches only those of earlier versions of the plugin. Every other workspace stays with
  its title, path and sessions, and only sessions of the plugin's workspaces are hidden, whatever the host refuses to do
  on the way. When it refuses nothing, none of the plugin's workspaces is left and all their sessions are hidden.\<close>

theorem migration_own_workspaces:
  assumes "distinct (map ws_id (rg_workspaces r))"
  shows "(\<forall>w \<in> set (rg_workspaces r). \<not> own_workspace title mirror w \<longrightarrow> w \<in> set (rg_workspaces (removeLegacyWorkspaces rf title mirror r))) \<and>
    set (rg_archived (removeLegacyWorkspaces rf title mirror r)) \<subseteq>
      set (rg_archived r) \<union> (\<Union>w \<in> {w \<in> set (rg_workspaces r). own_workspace title mirror w}. set (ws_sessionIds w)) \<and>
    ((\<forall>sid i. \<not> rf_detach rf i sid \<and> \<not> rf_archive rf sid \<and> \<not> rf_delete rf i) \<longrightarrow>
       (\<forall>w \<in> set (rg_workspaces r). own_workspace title mirror w \<longrightarrow>
          ws_id w \<notin> set (map ws_id (rg_workspaces (removeLegacyWorkspaces rf title mirror r))) \<and>
          set (ws_sessionIds w) \<subseteq> set (rg_archived (removeLegacyWorkspaces rf title mirror r))))"
proof -
  have "removeLegacyWorkspaces rf title mirror r = fold (remove_workspace rf title mirror) (rg_workspaces r) r"
    by (simp add: removeLegacyWorkspaces_def)
  note spec = remove_all_spec [OF this]
  have "ws_id w \<notin> ws_id ` {v \<in> set (rg_workspaces r). own_workspace title mirror v}"
    if "w \<in> set (rg_workspaces r)" "\<not> own_workspace title mirror w" for w
    using that assms by (auto dest: inj_onD simp: distinct_map)
  then show ?thesis using spec by blast
qed

definition two_workspaces :: registry where
  "two_workspaces = \<lparr>rg_workspaces = [\<lparr>ws_id = ''w1'', ws_title = ''M'', ws_path = ''/home/o/.soulnet/a2a/'', ws_sessionIds = [''s1'', ''s2'']\<rparr>,
     \<lparr>ws_id = ''w2'', ws_title = ''M'', ws_path = ''/home/o/pictures'', ws_sessionIds = [''s3'']\<rparr>], rg_archived = []\<rparr>"

theorem migration_own_workspaces_witness:
  "\<lparr>ws_id = ''w2'', ws_title = ''M'', ws_path = ''/home/o/pictures'', ws_sessionIds = [''s3'']\<rparr> \<in>
     set (rg_workspaces (removeLegacyWorkspaces \<lparr>rf_archive = \<lambda>_. False, rf_detach = \<lambda>_ _. False, rf_delete = \<lambda>_. False\<rparr> ''M'' ''/home/o/m'' two_workspaces)) \<and>
   set [''s1'', ''s2''] \<subseteq>
     set (rg_archived (removeLegacyWorkspaces \<lparr>rf_archive = \<lambda>_. False, rf_detach = \<lambda>_ _. False, rf_delete = \<lambda>_. False\<rparr> ''M'' ''/home/o/m'' two_workspaces))"
proof -
  have d: "distinct (map ws_id (rg_workspaces two_workspaces))" by code_simp
  let ?a = "\<lparr>ws_id = ''w1'', ws_title = ''M'', ws_path = ''/home/o/.soulnet/a2a/'', ws_sessionIds = [''s1'', ''s2'']\<rparr>"
  let ?b = "\<lparr>ws_id = ''w2'', ws_title = ''M'', ws_path = ''/home/o/pictures'', ws_sessionIds = [''s3'']\<rparr>"
  have m: "?a \<in> set (rg_workspaces two_workspaces)" "?b \<in> set (rg_workspaces two_workspaces)" by (simp_all add: two_workspaces_def)
  have o: "own_workspace ''M'' ''/home/o/m'' ?a" "\<not> own_workspace ''M'' ''/home/o/m'' ?b" by code_simp+
  let ?rf = "\<lparr>rf_archive = \<lambda>_. False, rf_detach = \<lambda>_ _. False, rf_delete = \<lambda>_. False\<rparr>"
  note all = migration_own_workspaces [OF d, of "''M''" "''/home/o/m''" ?rf]
  have "?b \<in> set (rg_workspaces (removeLegacyWorkspaces ?rf ''M'' ''/home/o/m'' two_workspaces))"
    using bspec [OF all [THEN conjunct1] m(2)] o(2) by simp
  moreover have "\<forall>sid i. \<not> rf_detach ?rf i sid \<and> \<not> rf_archive ?rf sid \<and> \<not> rf_delete ?rf i" by simp
  then have "set (ws_sessionIds ?a) \<subseteq> set (rg_archived (removeLegacyWorkspaces ?rf ''M'' ''/home/o/m'' two_workspaces))"
    using all [THEN conjunct2, THEN conjunct2] m(1) o(1) by blast
  ultimately show ?thesis by simp
qed

section \<open>Preset files and publication\<close>

text \<open>An installed preset is left alone, and otherwise no file outside its directory changes.\<close>

lemma copy_preset_elsewhere: "p \<noteq> target @ [''agent.cordis.yml''] \<Longrightarrow> p \<noteq> target @ [''preset.yml''] \<Longrightarrow> snd (copy_preset srcs target fs) p = fs p"
  by (induction srcs target fs rule: copy_preset.induct) (auto simp: Let_def split: option.splits)

lemma preset_not_overwritten:
  "fs (dsh @ [''.agent-presets'', i, ''agent.cordis.yml'']) \<noteq> None \<Longrightarrow> installPreset dsh i here fs = (True, fs)"
  "p \<noteq> dsh @ [''.agent-presets'', i, ''agent.cordis.yml''] \<Longrightarrow> p \<noteq> dsh @ [''.agent-presets'', i, ''preset.yml''] \<Longrightarrow>
     snd (installPreset dsh i here fs) p = fs p"
  using copy_preset_elsewhere [of p "dsh @ [''.agent-presets'', i]"] by (simp_all add: installPreset_def Let_def del: copy_preset.simps)

text \<open>Nothing is published after disposal, and a timer that fires publishes the state of that moment.\<close>

lemma disposed_silent: "pb_disposed p \<Longrightarrow> pb_sent (pub_run evs p) = pb_sent p"
proof (induction evs arbitrary: p)
  case (Cons ev evs)
  have "pb_disposed (pub_step p ev)" "pb_sent (pub_step p ev) = pb_sent p"
    using Cons.prems by (cases ev; simp add: publishAlter_def publishAgent_def alter_fires_def agent_fires_def dispose_publisher_def Let_def)+
  then show ?case using Cons.IH [of "pub_step p ev"] by (simp add: pub_run_def)
qed (simp add: pub_run_def)

lemma burst_one_frame:
  assumes "\<not> pb_disposed p" "sess_latest host s = Some st" "0 < n"
  shows "pub_run (replicate n AskAlter @ [AlterTimer host s, AlterTimer host s]) p = p\<lparr>pb_alterTimer := False, pb_sent := pb_sent p @ [PubAlter st]\<rparr>"
proof -
  have "foldl pub_step q (replicate k AskAlter) = (if k = 0 then q else q\<lparr>pb_alterTimer := True\<rparr>)" for q k
    by (induction k arbitrary: q) (simp_all add: publishAlter_def)
  then show ?thesis using assms by (simp add: pub_run_def alter_fires_def Let_def)
qed

end
