(* ===== verification/Chat_Room.thy ===== *)
theory Chat_Room
  imports Rooms Group_Settings Inbox_State "HOL-Library.Word"
begin

text \<open>
  The built-in chat room of a group, \<^verbatim>\<open>src/dsh/packages/dsh/src/client/rooms/ChatRoom.tsx\<close>: the composer with its mention popup, the
  voice switches, the markers of voices at work and the work traces of the owner's agents. The component's state is the
  record \<open>ChatRoom\<close>; event handlers, effects, timers and the answers of requests are operations on it. Requests that
  are out are in \<open>cr_calls\<close>; an effect that is torn down makes its answers void, which is the number \<open>cr_epoch\<close>.
  Rendering and scrolling are left out; texts of the dictionary and the ellipsis are given by \<open>texts\<close>.
  Lemmas: a mention picked from the popup is one that the reply policy sees; a switch shows what the host has stored;
  and what outlives a change of the group.
\<close>

section \<open>Colours\<close>

text \<open>\<open>>>> 0\<close> keeps 32 bits; products of the loop stay below the range where a number is exact.\<close>

definition hueOf :: "string \<Rightarrow> nat" where
  "hueOf fp = unat (foldl (\<lambda>h c. h * 31 + of_nat (of_char c)) (0 :: 32 word) fp) mod 360"

section \<open>State\<close>

record busy_voice =
  bv_label :: string
  bv_at :: int

record work_feed =
  wf_items :: "AlterChatItem list"
  wf_running :: bool

datatype room_undo = UndoVoices "(string, bool) al option" | UndoDuty string | UndoMuted bool | UndoNothing

datatype room_call =
    GetSettings nat string
  | GetAgents nat string
  | SetSettings string GroupSettingsPatch room_undo
  | GetFeed string string

record ChatRoom =
  cr_gid :: string
  cr_epoch :: nat
  cr_showAlterChip :: bool
  cr_text :: string
  cr_voices :: "(string, bool) al option"
  cr_voiceCommanders :: "(string, string list) al"
  cr_duty :: string
  cr_muted :: bool
  cr_agentNames :: "string list"
  cr_agentsSheetOpen :: bool
  cr_mention :: "(nat \<times> string) option"
  cr_mentionIdx :: nat
  cr_busyVoices :: "(string, busy_voice) al"
  cr_workFeeds :: "(string, work_feed) al"
  cr_openWork :: "string list"
  cr_feedTimers :: "string list"
  cr_following :: bool
  cr_calls :: "room_call list"
  cr_sent :: "(string \<times> string) list"

definition room_call_out :: "room_call list \<Rightarrow> ChatRoom \<Rightarrow> ChatRoom" where
  "room_call_out cs r = r\<lparr>cr_calls := cr_calls r @ cs\<rparr>"

section \<open>Effects\<close>

text \<open>The effect that reads the settings and the agents, when agents may speak.\<close>

definition settings_effect :: "bool \<Rightarrow> ChatRoom \<Rightarrow> ChatRoom" where
  "settings_effect show r =
     (let q = r\<lparr>cr_epoch := cr_epoch r + 1, cr_showAlterChip := show\<rparr>
      in if show then room_call_out [GetSettings (cr_epoch q) (cr_gid q), GetAgents (cr_epoch q) (cr_gid q)] q else q)"

definition open_room :: "string \<Rightarrow> bool \<Rightarrow> bool \<Rightarrow> ChatRoom" where
  "open_room gid show muted = settings_effect show
     \<lparr>cr_gid = gid, cr_epoch = 0, cr_showAlterChip = show, cr_text = [], cr_voices = None, cr_voiceCommanders = [], cr_duty = [],
      cr_muted = muted, cr_agentNames = [], cr_agentsSheetOpen = False, cr_mention = None, cr_mentionIdx = 0, cr_busyVoices = [],
      cr_workFeeds = [], cr_openWork = [], cr_feedTimers = [], cr_following = True, cr_calls = [], cr_sent = []\<rparr>"

text \<open>Another group is shown in the same component.\<close>

definition switch_room :: "string \<Rightarrow> bool \<Rightarrow> ChatRoom \<Rightarrow> ChatRoom" where
  "switch_room gid show r = settings_effect show
     (r\<lparr>cr_gid := gid, cr_text := [], cr_voices := None, cr_voiceCommanders := [], cr_duty := [], cr_mention := None,
        cr_agentsSheetOpen := False, cr_busyVoices := [], cr_workFeeds := [], cr_openWork := [], cr_feedTimers := [], cr_following := True\<rparr>)"

section \<open>Voices\<close>

text \<open>An absent \<open>muted\<close> leaves the flag as it is; an absent list of commanders is the empty one.\<close>

definition applySettings :: "GroupSettings \<Rightarrow> ChatRoom \<Rightarrow> ChatRoom" where
  "applySettings e r =
     r\<lparr>cr_voices := Some (map (\<lambda>(n, v). (n, True)) (gs_voices e)),
       cr_voiceCommanders := map (\<lambda>(n, v). (n, gv_commanders v)) (filter (\<lambda>(n, v). gv_commanders v \<noteq> []) (gs_voices e)),
       cr_duty := opt_or (gs_duty e) [], cr_muted := (if gs_muted e then True else cr_muted r)\<rparr>"

definition voice_shown :: "ChatRoom \<Rightarrow> string \<Rightarrow> bool" where
  "voice_shown r name \<longleftrightarrow> (case cr_voices r of None \<Rightarrow> False | Some m \<Rightarrow> al_get m name = Some True)"

definition toggleVoice :: "string \<Rightarrow> ChatRoom \<Rightarrow> ChatRoom" where
  "toggleVoice name r =
     (let nxt = \<not> voice_shown r name
      in room_call_out [SetSettings (cr_gid r) (no_patch\<lparr>gp_voice := Some \<lparr>vp_name = name, vp_on = nxt, vp_commanders = None\<rparr>\<rparr>) (UndoVoices (cr_voices r))]
           (r\<lparr>cr_voices := Some (al_set name nxt (case cr_voices r of None \<Rightarrow> [] | Some m \<Rightarrow> m))\<rparr>))"

definition pickDuty :: "string \<Rightarrow> ChatRoom \<Rightarrow> ChatRoom" where
  "pickDuty v r =
     room_call_out [SetSettings (cr_gid r) (no_patch\<lparr>gp_duty := (if v = [] then DutyNull else DutySet v)\<rparr>) (UndoDuty (cr_duty r))] (r\<lparr>cr_duty := v\<rparr>)"

definition toggleMuted :: "ChatRoom \<Rightarrow> ChatRoom" where
  "toggleMuted r =
     room_call_out [SetSettings (cr_gid r) (no_patch\<lparr>gp_muted := Some (\<not> cr_muted r)\<rparr>) (UndoMuted (cr_muted r))] (r\<lparr>cr_muted := \<not> cr_muted r\<rparr>)"

definition setCommanders :: "string \<Rightarrow> string list \<Rightarrow> ChatRoom \<Rightarrow> ChatRoom" where
  "setCommanders name cs r =
     room_call_out [SetSettings (cr_gid r) (no_patch\<lparr>gp_voice := Some \<lparr>vp_name = name, vp_on = True, vp_commanders = Some cs\<rparr>\<rparr>) UndoNothing] r"

definition undo :: "room_undo \<Rightarrow> ChatRoom \<Rightarrow> ChatRoom" where
  "undo u r = (case u of UndoVoices v \<Rightarrow> r\<lparr>cr_voices := v\<rparr> | UndoDuty d \<Rightarrow> r\<lparr>cr_duty := d\<rparr> | UndoMuted m \<Rightarrow> r\<lparr>cr_muted := m\<rparr> | UndoNothing \<Rightarrow> r)"

definition loadFeed :: "string \<Rightarrow> ChatRoom \<Rightarrow> ChatRoom" where
  "loadFeed name r = room_call_out [GetFeed (cr_gid r) name] r"

definition in_feed :: "AlterChatItem \<Rightarrow> bool" where
  "in_feed i = (case ci_body i of BThinking _ _ \<Rightarrow> True | BTool _ _ \<Rightarrow> True | BAlter _ _ \<Rightarrow> True | BTurnFailed _ _ _ \<Rightarrow> True | _ \<Rightarrow> False)"

datatype room_answer = SettingsAre GroupSettings | AgentsAre "string list" | FeedIs AlterChat | CallFailed

text \<open>The answer of a request that was out.\<close>

fun room_answered :: "room_call \<Rightarrow> room_answer \<Rightarrow> ChatRoom \<Rightarrow> ChatRoom" where
  "room_answered (GetSettings epoch gid) (SettingsAre e) r = (if epoch = cr_epoch r then applySettings e r else r)"
| "room_answered (GetAgents epoch gid) (AgentsAre ns) r = (if epoch = cr_epoch r then fold loadFeed ns (r\<lparr>cr_agentNames := ns\<rparr>) else r)"
| "room_answered (SetSettings gid p u) (SettingsAre e) r = applySettings e r"
| "room_answered (SetSettings gid p u) CallFailed r = undo u r"
| "room_answered (GetFeed gid name) (FeedIs chat) r =
     r\<lparr>cr_workFeeds := al_set name \<lparr>wf_items = filter in_feed (ac_items chat), wf_running = ac_running chat\<rparr> (cr_workFeeds r)\<rparr>"
| "room_answered _ _ r = r"

definition answer_room :: "nat \<Rightarrow> room_answer \<Rightarrow> ChatRoom \<Rightarrow> ChatRoom" where
  "answer_room i a r =
     (if i < length (cr_calls r) then room_answered (cr_calls r ! i) a (r\<lparr>cr_calls := take i (cr_calls r) @ drop (Suc i) (cr_calls r)\<rparr>) else r)"

section \<open>Frames\<close>

record room_member =
  rm_fp :: string
  rm_name :: string
  rm_agents :: "string list"

definition short_fp :: "(string \<Rightarrow> string) \<Rightarrow> string \<Rightarrow> string" where
  "short_fp texts fp = (if length fp > 8 then take 8 fp @ texts ''ellipsis'' else fp)"

definition member_name :: "(string \<Rightarrow> string) \<Rightarrow> room_member list \<Rightarrow> string option \<Rightarrow> string" where
  "member_name texts members fp =
     (case fp of
        None \<Rightarrow> ''?''
      | Some f \<Rightarrow> (case al_get (rev (map (\<lambda>m. (rm_fp m, rm_name m)) members)) f of Some n \<Rightarrow> n | None \<Rightarrow> short_fp texts f))"

definition mark_busy :: "string \<Rightarrow> string option \<Rightarrow> int \<Rightarrow> ChatRoom \<Rightarrow> ChatRoom" where
  "mark_busy key label now r =
     r\<lparr>cr_busyVoices := (case label of Some l \<Rightarrow> al_set key \<lparr>bv_label = l, bv_at = now\<rparr> (cr_busyVoices r) | None \<Rightarrow> al_del key (cr_busyVoices r))\<rparr>"

definition room_frame :: "(string \<Rightarrow> string) \<Rightarrow> room_member list \<Rightarrow> int \<Rightarrow> NetworkEventFrame \<Rightarrow> ChatRoom \<Rightarrow> ChatRoom" where
  "room_frame texts members now frame r =
     (case frame of
        FGroupTyping gid fp agent on \<Rightarrow>
          (if gid \<noteq> cr_gid r then r
           else (let sender = (case List.find (\<lambda>m. rm_fp m = fp) members of Some m \<Rightarrow> rm_name m | None \<Rightarrow> short_fp texts fp);
                     label = (case agent of Some a \<Rightarrow> (if a \<noteq> [] then sender @ '' '' @ [CHR 0xB7] @ '' '' @ a else sender) | None \<Rightarrow> sender)
                 in mark_busy (fp @ ''|'' @ opt_or agent []) (if on then Some label else None) now r))
      | FAgent g \<Rightarrow>
          (let working = (cr_gid r \<in> set (case gf_gids g of None \<Rightarrow> [] | Some gids \<Rightarrow> gids));
               q = mark_busy (''me|'' @ gf_name g) (if working then Some (gf_name g) else None) now r
           in q\<lparr>cr_feedTimers := List.insert (gf_name g) (cr_feedTimers q)\<rparr>)
      | _ \<Rightarrow> r)"

definition feed_fires :: "string \<Rightarrow> ChatRoom \<Rightarrow> ChatRoom" where
  "feed_fires name r =
     (if name \<in> set (cr_feedTimers r) then loadFeed name (r\<lparr>cr_feedTimers := filter (\<lambda>k. k \<noteq> name) (cr_feedTimers r)\<rparr>) else r)"

definition busy_shown :: "int \<Rightarrow> ChatRoom \<Rightarrow> string list" where
  "busy_shown now r = map (\<lambda>(k, v). bv_label v) (filter (\<lambda>(k, v). now - bv_at v < 120000) (cr_busyVoices r))"

definition toggleWork :: "string \<Rightarrow> ChatRoom \<Rightarrow> ChatRoom" where
  "toggleWork key r =
     r\<lparr>cr_openWork := (if key \<in> set (cr_openWork r) then filter (\<lambda>k. k \<noteq> key) (cr_openWork r) else cr_openWork r @ [key])\<rparr>"

section \<open>Mentions\<close>

record mention_entry =
  me_name :: string
  me_owner :: "string option"

definition mention_key :: "mention_entry \<Rightarrow> string" where
  "mention_key m = toLowerCase (me_name m) @ ''|'' @ toLowerCase (opt_or (me_owner m) [])"

definition push_mention :: "mention_entry \<Rightarrow> mention_entry list \<Rightarrow> mention_entry list" where
  "push_mention m pool = (if me_name m = [] \<or> mention_key m \<in> set (map mention_key pool) then pool else pool @ [m])"

definition mention_candidates :: "(string \<Rightarrow> string) \<Rightarrow> room_member list \<Rightarrow> string list \<Rightarrow> mention_entry list" where
  "mention_candidates texts members agentNames =
     concat (map (\<lambda>m. \<lparr>me_name = rm_name m, me_owner = None\<rparr> # map (\<lambda>a. \<lparr>me_name = a, me_owner = Some (rm_name m)\<rparr>) (rm_agents m)) members) @
     map (\<lambda>a. \<lparr>me_name = a, me_owner = Some (texts ''group.mention.agent'')\<rparr>) agentNames @ [\<lparr>me_name = ''all'', me_owner = None\<rparr>]"

definition mentionPool :: "(string \<Rightarrow> string) \<Rightarrow> room_member list \<Rightarrow> string list \<Rightarrow> mention_entry list" where
  "mentionPool texts members agentNames = fold push_mention (mention_candidates texts members agentNames) []"

definition mentionMatches :: "(string \<Rightarrow> string) \<Rightarrow> room_member list \<Rightarrow> ChatRoom \<Rightarrow> mention_entry list" where
  "mentionMatches texts members r =
     (case cr_mention r of
        None \<Rightarrow> []
      | Some (st, query) \<Rightarrow>
          take 8 (filter (\<lambda>p. startsWith (toLowerCase (me_name p)) (toLowerCase query)) (mentionPool texts members (cr_agentNames r))))"

text \<open>\<open>/(^|\s)@([^\s@]*)$/\<close> on the text before the caret.\<close>

definition query_char :: "char \<Rightarrow> bool" where
  "query_char c \<longleftrightarrow> \<not> is_ws c \<and> c \<noteq> CHR ''@''"

definition mention_at :: "string \<Rightarrow> nat \<Rightarrow> (nat \<times> string) option" where
  "mention_at v caret =
     (let upto = take caret v; query = rev (takeWhile query_char (rev upto)) in
      case dropWhile query_char (rev upto) of
        [] \<Rightarrow> None
      | c # rest \<Rightarrow> (if c = CHR ''@'' \<and> (rest = [] \<or> is_ws (hd rest)) then Some (caret - length query - 1, query) else None))"

definition type_text :: "string \<Rightarrow> nat \<Rightarrow> ChatRoom \<Rightarrow> ChatRoom" where
  "type_text v caret r = r\<lparr>cr_text := v, cr_mention := mention_at v caret, cr_mentionIdx := 0\<rparr>"

definition pickMention :: "string \<Rightarrow> ChatRoom \<Rightarrow> ChatRoom" where
  "pickMention name r =
     (case cr_mention r of
        None \<Rightarrow> r
      | Some (st, query) \<Rightarrow>
          r\<lparr>cr_text := take st (cr_text r) @ ''@'' @ name @ '' '' @ drop (st + 1 + length query) (cr_text r), cr_mention := None\<rparr>)"

definition blur_fires :: "ChatRoom \<Rightarrow> ChatRoom" where
  "blur_fires r = r\<lparr>cr_mention := None\<rparr>"

section \<open>Sending\<close>

definition room_send :: "bool \<Rightarrow> ChatRoom \<Rightarrow> ChatRoom" where
  "room_send canSpeakHuman r =
     (let body = trim (cr_text r)
      in if body = [] \<or> \<not> canSpeakHuman then r
         else r\<lparr>cr_text := [], cr_following := True, cr_sent := cr_sent r @ [(cr_gid r, body)]\<rparr>)"

datatype key_press = KEscape | KDown | KUp | KEnter bool bool

text \<open>\<open>KEnter\<close>: with the shift key, and while a character is composed.\<close>

fun press_key :: "(string \<Rightarrow> string) \<Rightarrow> room_member list \<Rightarrow> bool \<Rightarrow> key_press \<Rightarrow> ChatRoom \<Rightarrow> ChatRoom" where
  "press_key texts members speak KEscape r = (if cr_mention r \<noteq> None then r\<lparr>cr_mention := None\<rparr> else r)"
| "press_key texts members speak KDown r =
     (let len = length (mentionMatches texts members r) in
      if len > 0 then r\<lparr>cr_mentionIdx := (min (cr_mentionIdx r) (len - 1) + 1) mod len\<rparr> else r)"
| "press_key texts members speak KUp r =
     (let len = length (mentionMatches texts members r) in
      if len > 0 then r\<lparr>cr_mentionIdx := (min (cr_mentionIdx r) (len - 1) + (len - 1)) mod len\<rparr> else r)"
| "press_key texts members speak (KEnter shift composing) r =
     (if shift \<or> composing then r
      else (let ms = mentionMatches texts members r
            in if ms \<noteq> [] then pickMention (me_name (ms ! min (cr_mentionIdx r) (length ms - 1))) r else room_send speak r))"

section \<open>Colours are stable\<close>

lemma mod_horner: "(a mod m * p + s) mod m = (a * p + s) mod (m :: nat)"
  by (rule mod_add_cong) (simp_all add: mod_mult_left_eq)

text \<open>The loop computes a polynomial in 31 over the code units, modulo \<open>2^32\<close>.\<close>

lemma hueOf_polynomial:
  "hueOf fp < 360"
  "hueOf fp = (\<Sum>i<length fp. of_char (fp ! i) * 31 ^ (length fp - 1 - i)) mod 2 ^ 32 mod 360"
proof -
  have step: "unat (foldl (\<lambda>h c. h * 31 + of_nat (of_char c)) h fp) =
      (unat h * 31 ^ length fp + (\<Sum>i<length fp. of_char (fp ! i) * 31 ^ (length fp - 1 - i))) mod 2 ^ 32" for h :: "32 word"
  proof (induction fp arbitrary: h)
    case Nil
    then show ?case using unsigned_less [of h, where ?'a = nat] by simp
  next
    case (Cons c fp)
    let ?S = "\<Sum>i<length fp. of_char (fp ! i) * 31 ^ (length fp - 1 - i) :: nat"
    have shift: "(\<Sum>i<length (c # fp). of_char ((c # fp) ! i) * 31 ^ (length (c # fp) - 1 - i)) = of_char c * 31 ^ length fp + ?S"
      by (simp add: sum.lessThan_Suc_shift del: sum.lessThan_Suc)
    have u: "unat (h * 31 + of_nat (of_char c)) = (unat h * 31 + of_char c) mod 2 ^ 32"
      by (simp add: unat_word_ariths unat_of_nat mod_simps)
    have "unat (foldl (\<lambda>h c. h * 31 + of_nat (of_char c)) h (c # fp)) = ((unat h * 31 + of_char c) mod 2 ^ 32 * 31 ^ length fp + ?S) mod 2 ^ 32"
      using Cons.IH [of "h * 31 + of_nat (of_char c)"] u by simp
    also have "\<dots> = ((unat h * 31 + of_char c) * 31 ^ length fp + ?S) mod 2 ^ 32"
      by (rule mod_horner)
    also have "\<dots> = (unat h * 31 ^ length (c # fp) + (of_char c * 31 ^ length fp + ?S)) mod 2 ^ 32" by (simp add: algebra_simps)
    finally show ?case unfolding shift .
  qed
  show "hueOf fp < 360" by (simp add: hueOf_def)
  show "hueOf fp = (\<Sum>i<length fp. of_char (fp ! i) * 31 ^ (length fp - 1 - i)) mod 2 ^ 32 mod 360"
    unfolding hueOf_def step by simp
qed

section \<open>A picked mention is seen\<close>

lemma trim_around:
  assumes "mid \<noteq> []" "\<not> is_ws (hd mid)" "\<not> is_ws (last mid)"
  shows "trim (pre @ mid @ post) = dropWhile is_ws pre @ mid @ rev (dropWhile is_ws (rev post))"
proof -
  have front: "dropWhile is_ws (xs @ mid @ ys) = dropWhile is_ws xs @ mid @ ys" for xs ys
    using assms(1,2) by (induction xs) (auto simp: dropWhile_eq_self_iff)
  have "dropWhile is_ws (rev post @ rev (xs @ mid)) = dropWhile is_ws (rev post) @ rev (xs @ mid)" for xs
  proof (cases "\<exists>x \<in> set (rev post). \<not> is_ws x")
    case True
    then show ?thesis by (metis dropWhile_append1)
  next
    case False
    then have "dropWhile is_ws (rev post) = []" by (simp add: dropWhile_eq_Nil_conv)
    moreover have "dropWhile is_ws (rev post @ ys) = dropWhile is_ws ys" for ys using False by (metis dropWhile_append2)
    moreover have "dropWhile is_ws (rev (xs @ mid)) = rev (xs @ mid)"
      using assms(1,3) by (simp add: dropWhile_eq_self_iff hd_append hd_rev)
    ultimately show ?thesis by simp
  qed
  then show ?thesis by (simp add: trim_def trimStart_def trimEnd_def front)
qed

lemma trailing_space: "rev (dropWhile is_ws (rev (CHR '' '' # post))) = [] \<or> hd (rev (dropWhile is_ws (rev (CHR '' '' # post)))) = CHR '' ''"
  by (cases "\<exists>x \<in> set (rev post). \<not> is_ws x") (auto simp: dropWhile_append)

lemma mention_at_split:
  assumes "mention_at v caret = Some (st, query)" "caret \<le> length v"
  shows "take caret v = take st v @ CHR ''@'' # query \<and> st + 1 + length query = caret"
proof -
  let ?u = "take caret v"
  obtain rest where d: "dropWhile query_char (rev ?u) = CHR ''@'' # rest" and q: "query = rev (takeWhile query_char (rev ?u))"
    and st: "st = caret - length query - 1"
    using assms(1) by (auto simp: mention_at_def Let_def split: list.splits if_splits)
  have "rev ?u = rev query @ CHR ''@'' # rest" using d q by (metis rev_rev_ident takeWhile_dropWhile_id)
  then have u: "?u = rev rest @ CHR ''@'' # query" by (metis append.assoc append_Cons append_Nil rev.simps(2) rev_append rev_rev_ident)
  then have len: "length rest + 1 + length query = caret" using assms(2) by (metis add.assoc length_append length_rev length_Cons length_take min.absorb2 plus_1_eq_Suc)
  then have "st = length rest" using st by simp
  moreover have "take (length rest) v = rev rest" using u len by (metis add.assoc append_eq_conv_conj le_add1 length_rev min.absorb1 take_take)
  ultimately show ?thesis using u len by simp
qed

lemma mention_occurs_in_trimmed:
  assumes "name \<noteq> []" "trim name = name"
  shows "mentionsAgent (trim (pre @ ''@'' @ name @ '' '' @ post)) name"
proof -
  let ?t = "rev (dropWhile is_ws (rev (CHR '' '' # post)))"
  have at: "\<not> is_ws (CHR ''@'')" by code_simp
  have "\<not> is_ws (last name)" using assms by (auto simp: trim_id_iff)
  then have "trim (pre @ (''@'' @ name) @ '' '' @ post) = dropWhile is_ws pre @ (''@'' @ name) @ ?t"
    using trim_around [of "''@'' @ name" pre "'' '' @ post"] at assms(1) by simp
  then have "toLowerCase (trim (pre @ ''@'' @ name @ '' '' @ post)) =
      toLowerCase (dropWhile is_ws pre) @ CHR ''@'' # toLowerCase name @ toLowerCase ?t"
    by (simp add: toLowerCase_def lower_char_def)
  moreover have "toLowerCase ?t = [] \<or> \<not> isAsciiWordChar (Some (hd (toLowerCase ?t)))"
  proof (cases "?t = []")
    case True
    then show ?thesis unfolding toLowerCase_def True by simp
  next
    case False
    then have "hd (toLowerCase ?t) = lower_char (CHR '' '')" using trailing_space [of post] unfolding toLowerCase_def by (metis hd_map)
    moreover have "\<not> isAsciiWordChar (Some (lower_char (CHR '' '')))" by code_simp
    ultimately show ?thesis by simp
  qed
  ultimately show ?thesis unfolding mentionsAgent_iff mention_occurs_def assms(2) using assms(1) by blast
qed

text \<open>
  C36. A mention picked in the composer reaches the agent: when the popup is open because \<open>@\<close> and the beginning of a name
  were typed, picking a name replaces exactly what was typed of it, leaves the rest of the text alone, and the message
  that is then sent is one in which the reply policy finds that name.\<close>

theorem picked_mention_seen:
  assumes "caret \<le> length v" "mention_at v caret = Some (st, query)" "name \<noteq> []" "trim name = name"
  shows "let r' = pickMention name (type_text v caret r) in
    cr_text r' = take st v @ ''@'' @ name @ '' '' @ drop caret v \<and> take caret v = take st v @ ''@'' @ query \<and>
    (\<exists>body. cr_sent (room_send True r') = cr_sent r @ [(cr_gid r, body)] \<and> mentionsAgent body name \<and> mentionsMe body name)"
proof -
  note sp = mention_at_split [OF assms(2,1)]
  let ?t = "take st v @ ''@'' @ name @ '' '' @ drop caret v"
  have t: "cr_text (pickMention name (type_text v caret r)) = ?t" using assms(2) sp by (simp add: pickMention_def type_text_def)
  have m: "mentionsAgent (trim ?t) name" by (rule mention_occurs_in_trimmed [OF assms(3,4)])
  then have "trim ?t \<noteq> []" by (auto simp: mentionsAgent_iff mention_occurs_def toLowerCase_def)
  moreover have "cr_sent (pickMention name (type_text v caret r)) = cr_sent r" "cr_gid (pickMention name (type_text v caret r)) = cr_gid r"
    by (simp_all add: pickMention_def type_text_def split: option.splits)
  ultimately have "cr_sent (room_send True (pickMention name (type_text v caret r))) = cr_sent r @ [(cr_gid r, trim ?t)]"
    by (simp add: room_send_def t)
  then show ?thesis using t sp m by (simp add: Let_def mentionsMe_iff)
qed

theorem picked_mention_seen_witness:
  "let r' = pickMention ''DevBot'' (type_text ''ask @de please'' 7 (open_room ''g1'' True False)) in
    cr_text r' = take 4 ''ask @de please'' @ ''@'' @ ''DevBot'' @ '' '' @ drop 7 ''ask @de please'' \<and>
    take 7 ''ask @de please'' = take 4 ''ask @de please'' @ ''@'' @ ''de'' \<and>
    (\<exists>body. cr_sent (room_send True r') = cr_sent (open_room ''g1'' True False) @ [(cr_gid (open_room ''g1'' True False), body)] \<and>
       mentionsAgent body ''DevBot'' \<and> mentionsMe body ''DevBot'')"
  by (rule picked_mention_seen) (code_simp | simp)+

section \<open>Switches show what is stored\<close>

lemma voices_of_settings: "al_get (map (\<lambda>(n, v). (n, True)) vs) n = Some True \<longleftrightarrow> al_get vs n \<noteq> None"
  by (induction vs) auto

lemma applySettings_shows:
  "voice_shown (applySettings (gss_get st gid) r) n \<longleftrightarrow> voiceOn st gid n"
  "cr_duty (applySettings (gss_get st gid) r) = opt_or (dutyOf st gid) []"
  by (simp_all add: voice_shown_def applySettings_def voices_of_settings voiceOn_def dutyOf_def)

lemma last_call_answered: "answer_room (length (cr_calls r)) a (room_call_out [c] r) = room_answered c a r"
  by (simp add: answer_room_def room_call_out_def)

definition toggle_patch :: "string \<Rightarrow> ChatRoom \<Rightarrow> GroupSettingsPatch" where
  "toggle_patch name r = no_patch\<lparr>gp_voice := Some \<lparr>vp_name = name, vp_on = \<not> voice_shown r name, vp_commanders = None\<rparr>\<rparr>"

lemma toggle_stored: "trim name \<noteq> [] \<Longrightarrow> voiceOn (snd (gss_set gid (toggle_patch name r) st)) gid name \<longleftrightarrow> \<not> voice_shown r name"
  unfolding voiceOn_set by (simp add: toggle_patch_def patch_defs split: option.splits)



section \<open>What outlives a change of the group\<close>

text \<open>
  Only the first two requests of a room are void after a change of the group. A trace or settings that were asked for in
  the former group and are answered late are taken for those of the group shown now.
\<close>

lemma late_trace_in_other_group:
  assumes "cr_calls r = []"
  shows "al_get (cr_workFeeds (answer_room 0 (FeedIs chat) (switch_room g2 show (loadFeed name r)))) name =
    Some \<lparr>wf_items = filter in_feed (ac_items chat), wf_running = ac_running chat\<rparr>"
  using assms by (simp add: answer_room_def switch_room_def settings_effect_def loadFeed_def room_call_out_def Let_def)

lemma late_settings_in_other_group:
  assumes "cr_calls r = []"
  shows "voice_shown (answer_room 0 (SettingsAre (gss_get st (cr_gid r))) (switch_room g2 show (toggleVoice name r))) n \<longleftrightarrow> voiceOn st (cr_gid r) n"
  using assms by (simp add: answer_room_def switch_room_def settings_effect_def toggleVoice_def room_call_out_def Let_def applySettings_shows)

text \<open>The mute switch is not reset, and the settings of a group that is not muted do not mention it: the switch goes on
  showing the state of the former group.\<close>

lemma mute_switch_carried_over:
  assumes "\<not> gs_muted e" "cr_calls r = []"
  shows "cr_muted (answer_room 0 (SettingsAre e) (switch_room g2 True r)) = cr_muted r"
  using assms by (simp add: answer_room_def switch_room_def settings_effect_def room_call_out_def Let_def applySettings_def)

section \<open>The mention pool\<close>

text \<open>No entry is offered twice, and every member, every announced agent and every own agent is offered under its name.\<close>

lemma push_mention_keys:
  "distinct (map mention_key pool) \<Longrightarrow> distinct (map mention_key (push_mention m pool))"
  "mention_key ` set pool \<subseteq> mention_key ` set (push_mention m pool)" "me_name m \<noteq> [] \<Longrightarrow> mention_key m \<in> mention_key ` set (push_mention m pool)"
  by (auto simp: push_mention_def)

lemma fold_push_keys:
  "distinct (map mention_key pool) \<Longrightarrow> distinct (map mention_key (fold push_mention ms pool)) \<and>
     mention_key ` set pool \<subseteq> mention_key ` set (fold push_mention ms pool) \<and>
     (\<forall>m \<in> set ms. me_name m \<noteq> [] \<longrightarrow> mention_key m \<in> mention_key ` set (fold push_mention ms pool))"
proof (induction ms arbitrary: pool)
  case (Cons m ms)
  note ih = Cons.IH [OF push_mention_keys(1) [OF Cons.prems]]
  then show ?case using push_mention_keys(2) [of pool m] push_mention_keys(3) [of m pool] by (simp del: image_subset_iff) blast
qed simp

lemma mention_pool_complete:
  "distinct (map mention_key (mentionPool texts members agents))"
  "m \<in> set (mention_candidates texts members agents) \<Longrightarrow> me_name m \<noteq> [] \<Longrightarrow> mention_key m \<in> mention_key ` set (mentionPool texts members agents)"
  using fold_push_keys [of "[]"] by (simp_all add: mentionPool_def)

end
