(* ===== verification/Friend_List.thy ===== *)
theory Friend_List
  imports Page_Store Api_Client
begin

text \<open>
  The list column of the page, \<^verbatim>\<open>src/dsh/packages/dsh/src/client/FriendList.tsx\<close>: the order of the conversations, the
  search with its snippets and highlights, and the dialogs that add a friend, create a group and join one, with the
  payment of a join. The markup is left out. \<open>localeCompare\<close> and the ellipsis are arguments. The handlers read the state
  of the moment they were called at; what they do after an answer is a separate event. \<open>fl_log\<close> notes the requests, the
  questions put to the owner and the edits of the group's address, in order.
  Lemmas: the order and the completeness of the lists, what is highlighted, and when money is moved.
\<close>

section \<open>Rows and search\<close>

datatype ChatRowData = FriendRow ApiFriend | GroupRow ApiGroup

fun rowKey :: "ChatRowData \<Rightarrow> string" where
  "rowKey (FriendRow f) = af_fp f"
| "rowKey (GroupRow g) = groupKey (ag_gid g)"

fun row_name :: "ChatRowData \<Rightarrow> string" where
  "row_name (FriendRow f) = af_name f"
| "row_name (GroupRow g) = ag_name g"

fun row_ts :: "ChatRowData \<Rightarrow> int" where
  "row_ts (FriendRow f) = num0 (af_lastTs f)"
| "row_ts (GroupRow g) = num0 (ag_lastTs g)"

definition row_cmp :: "(string \<Rightarrow> string \<Rightarrow> int) \<Rightarrow> ChatRowData \<Rightarrow> ChatRowData \<Rightarrow> int" where
  "row_cmp localeCompare a b = (if row_ts a \<noteq> row_ts b then row_ts b - row_ts a else localeCompare (row_name a) (row_name b))"

definition chat_rows :: "(string \<Rightarrow> string \<Rightarrow> int) \<Rightarrow> InboxState \<Rightarrow> ChatRowData list" where
  "chat_rows lc inbox = js_sort (row_cmp lc) (map FriendRow (ib_friends inbox) @ map GroupRow (ib_groups inbox))"

definition contactRows :: "(string \<Rightarrow> string \<Rightarrow> int) \<Rightarrow> InboxState \<Rightarrow> string \<Rightarrow> ApiFriend list" where
  "contactRows lc inbox query = js_sort (\<lambda>a b. lc (af_name a) (af_name b)) (filterFriends (ib_friends inbox) query)"

definition groupContactRows :: "(string \<Rightarrow> string \<Rightarrow> int) \<Rightarrow> InboxState \<Rightarrow> string \<Rightarrow> ApiGroup list" where
  "groupContactRows lc inbox query =
     (let q = toLowerCase (trim query)
      in js_sort (\<lambda>a b. lc (ag_name a) (ag_name b)) (filter (\<lambda>g. q = [] \<or> str_includes (toLowerCase (ag_name g)) q) (ib_groups inbox)))"

definition AGENT_COLLAPSE :: nat where "AGENT_COLLAPSE = 3"
definition CONTACT_COLLAPSE :: nat where "CONTACT_COLLAPSE = 10"

definition collapsed :: "nat \<Rightarrow> bool \<Rightarrow> 'a list \<Rightarrow> 'a list" where
  "collapsed n expanded xs = (if expanded \<or> length xs \<le> n then xs else take n xs)"

fun name_hit :: "string \<Rightarrow> ChatRowData \<Rightarrow> bool" where
  "name_hit q (FriendRow f) \<longleftrightarrow> str_includes (toLowerCase (af_name f)) q \<or>
     str_includes (toLowerCase (opt_or (af_remark f) [])) q \<or> startsWith (toLowerCase (af_fp f)) q"
| "name_hit q (GroupRow g) \<longleftrightarrow> str_includes (toLowerCase (ag_name g)) q"

definition nameHits :: "(string \<Rightarrow> string \<Rightarrow> int) \<Rightarrow> InboxState \<Rightarrow> string \<Rightarrow> ChatRowData list" where
  "nameHits lc inbox query =
     (let q = toLowerCase (trim query) in if q = [] then [] else filter (name_hit q) (chat_rows lc inbox))"

record content_hit =
  ch_row :: ChatRowData
  ch_body :: string
  ch_ts :: int
  ch_id :: string

definition hits_in :: "string \<Rightarrow> ThreadState \<Rightarrow> ChatRowData \<Rightarrow> content_hit list" where
  "hits_in q th r =
     map (\<lambda>e. \<lparr>ch_row = r, ch_body = te_body e, ch_ts = te_ts e, ch_id = te_id e\<rparr>)
       (filter (\<lambda>e. str_includes (toLowerCase (te_body e)) q) (ts_entries th))"

definition all_hits :: "InboxState \<Rightarrow> PageStore \<Rightarrow> string \<Rightarrow> content_hit list" where
  "all_hits inbox page q =
     concat (map (\<lambda>f. hits_in q (thread (af_fp f) page) (FriendRow f)) (ib_friends inbox)) @
     concat (map (\<lambda>g. hits_in q (groupThread (ag_gid g) page) (GroupRow g)) (ib_groups inbox))"

definition contentHits :: "InboxState \<Rightarrow> PageStore \<Rightarrow> string \<Rightarrow> content_hit list" where
  "contentHits inbox page query =
     (let q = toLowerCase (trim query)
      in if q = [] then [] else take 30 (js_sort (\<lambda>a b. ch_ts b - ch_ts a) (all_hits inbox page q)))"

datatype text_part = Plain string | Marked string

fun part_text :: "text_part \<Rightarrow> string" where
  "part_text (Plain s) = s"
| "part_text (Marked s) = s"

text \<open>The loop of \<open>Highlight\<close>, on what is left of the text: the place of a match in the rest is that in the whole, less \<open>i\<close>.\<close>

function highlight_loop :: "string \<Rightarrow> string \<Rightarrow> text_part list" where
  "highlight_loop q rest =
     (case indexOf (toLowerCase rest) q 0 of
        None \<Rightarrow> [Plain rest]
      | Some j \<Rightarrow>
          (if q = [] then [Plain rest]
           else (if j > 0 then [Plain (take j rest)] else []) @ Marked (take (length q) (drop j rest)) # highlight_loop q (drop (j + length q) rest)))"
  by pat_completeness auto
termination
proof (relation "measure (\<lambda>(q, rest). length rest)")
  fix q rest :: string and j
  assume "indexOf (toLowerCase rest) q 0 = Some j" "q \<noteq> []"
  then have "prefix q (drop j (toLowerCase rest))" "j \<le> length rest" by (simp_all add: indexOf_Some)
  then have "length q \<le> length rest - j" by (auto dest: prefix_length_le)
  moreover have "0 < length q" using \<open>q \<noteq> []\<close> by simp
  ultimately have "length rest - (j + length q) < length rest" by linarith
  then show "((q, drop (j + length q) rest), (q, rest)) \<in> measure (\<lambda>(q, rest). length rest)" by simp
qed simp

declare highlight_loop.simps [simp del]

definition Highlight :: "string \<Rightarrow> string \<Rightarrow> text_part list" where
  "Highlight text q = (if q = [] then [Plain text] else highlight_loop q text)"

text \<open>\<open>replace(/\s+/g, ' ')\<close>.\<close>

fun flat_space :: "string \<Rightarrow> string" where
  "flat_space [] = []"
| "flat_space [c] = [if is_ws c then CHR '' '' else c]"
| "flat_space (c # d # cs) =
     (if is_ws c then (if is_ws d then flat_space (d # cs) else CHR '' '' # flat_space (d # cs)) else c # flat_space (d # cs))"

definition snippetAround :: "string \<Rightarrow> string \<Rightarrow> string \<Rightarrow> string" where
  "snippetAround dots body q =
     (let radius = 28; flat = trim (flat_space body)
      in case indexOf (toLowerCase flat) q 0 of
           None \<Rightarrow> take (radius * 2) flat
         | Some j \<Rightarrow>
             (let st = j - radius; en = min (length flat) (j + length q + radius)
              in (if st > 0 then dots else []) @ drop st (take en flat) @ (if en < length flat then dots else [])))"

section \<open>The dialogs\<close>

datatype list_dialog = AddDialog | JoinDialog

record join_card =
  jc_name :: string
  jc_join :: string
  jc_price :: "string option"
  jc_addr :: "string option"

datatype list_note = NoteOk string "string list" | NoteError string "string list" | NoteFailed string

text \<open>Where a call of \<open>run\<close> stands. A join carries what its handler read when it was called.\<close>

datatype run_phase =
    Adding
  | Creating
  | LookingUp string "string option" bool string
  | Paying string
  | Applying bool
  | Accepting
  | Rejecting
  | Refreshing

datatype list_log = LRequest api_request | LAsk string string | LEdit | LSelect string | LMessagesTab

record FriendList =
  fl_identity :: bool
  fl_addUri :: string
  fl_addNote :: string
  fl_busy :: "string option"
  fl_run :: "run_phase option"
  fl_note :: "list_note option"
  fl_createOpen :: bool
  fl_walletAddress :: "string option"
  fl_joinUri :: string
  fl_joinCard :: "join_card option"
  fl_joinTx :: string
  fl_payConfirming :: bool
  fl_plusOpen :: bool
  fl_dialog :: "list_dialog option"
  fl_log :: "list_log list"

definition new_FriendList :: FriendList where
  "new_FriendList =
     \<lparr>fl_identity = False, fl_addUri = [], fl_addNote = [], fl_busy = None, fl_run = None, fl_note = None, fl_createOpen = False,
      fl_walletAddress = None, fl_joinUri = [], fl_joinCard = None, fl_joinTx = [], fl_payConfirming = False, fl_plusOpen = False,
      fl_dialog = None, fl_log = []\<rparr>"

definition log_list :: "list_log \<Rightarrow> FriendList \<Rightarrow> FriendList" where
  "log_list l s = s\<lparr>fl_log := fl_log s @ [l]\<rparr>"

definition start_run :: "string \<Rightarrow> run_phase \<Rightarrow> api_request \<Rightarrow> FriendList \<Rightarrow> FriendList" where
  "start_run key p r s = log_list (LRequest r) (s\<lparr>fl_busy := Some key, fl_note := None, fl_run := Some p\<rparr>)"

definition run_ok :: "list_note option \<Rightarrow> FriendList \<Rightarrow> FriendList" where
  "run_ok n s = s\<lparr>fl_note := (case n of None \<Rightarrow> fl_note s | Some _ \<Rightarrow> n), fl_run := Some Refreshing\<rparr>"

definition run_fails :: "list_note \<Rightarrow> FriendList \<Rightarrow> FriendList" where
  "run_fails n s = s\<lparr>fl_note := Some n, fl_busy := None, fl_run := None\<rparr>"

definition run_ends :: "FriendList \<Rightarrow> FriendList" where
  "run_ends s = s\<lparr>fl_busy := None, fl_run := None\<rparr>"

definition submitAdd :: "FriendList \<Rightarrow> FriendList" where
  "submitAdd s =
     (if fl_busy s \<noteq> None \<or> trim (fl_addUri s) = [] \<or> \<not> fl_identity s then s
      else start_run ''add'' Adding (R_addFriend (trim (fl_addUri s)) (nonempty_opt (trim (fl_addNote s)))) s)"

definition createGroup :: "string \<Rightarrow> string list \<Rightarrow> GroupProfile \<Rightarrow> FriendList \<Rightarrow> FriendList" where
  "createGroup name members profile s =
     (if fl_busy s \<noteq> None then s else start_run ''group.create'' Creating (R_groupCreate name members (Some (JObj profile))) s)"

definition submitJoin :: "FriendList \<Rightarrow> FriendList" where
  "submitJoin s =
     (if fl_busy s \<noteq> None \<or> trim (fl_joinUri s) = [] \<or> \<not> fl_identity s then s
      else start_run ''group.apply'' (LookingUp (trim (fl_joinUri s)) (fl_walletAddress s) (fl_payConfirming s) (trim (fl_joinTx s)))
             (R_groupLookup (trim (fl_joinUri s))) s)"

text \<open>What a group asks of those who join: price and address, or \<open>None\<close> for a group without a price.\<close>

definition card_paid :: "GroupCardView \<Rightarrow> (string option \<times> string option) option" where
  "card_paid c =
     (if gc_join c = ''paid'' then Some (gc_joinPrice c, gc_joinAddr c)
      else map_option (\<lambda>p. (Some (pj_price p), Some (pj_addr p))) (paidJoinFromRules (gc_rulesHead c)))"

definition show_card :: "GroupCardView \<Rightarrow> join_card" where
  "show_card c =
     \<lparr>jc_name = gc_name c, jc_join = gc_join c, jc_price = Option.bind (card_paid c) fst, jc_addr = Option.bind (card_paid c) snd\<rparr>"

definition next_call :: "run_phase \<Rightarrow> api_request \<Rightarrow> FriendList \<Rightarrow> FriendList" where
  "next_call p r s = log_list (LRequest r) (s\<lparr>fl_run := Some p\<rparr>)"

definition payment_proof :: "string \<Rightarrow> string \<Rightarrow> string \<Rightarrow> json" where
  "payment_proof tx price addr = JObj [(''tx_hash'', JStr tx), (''amount'', JStr price), (''to'', JStr addr)]"

text \<open>The lookup is answered; a card that could not be fetched counts as none. \<open>pay_note\<close> is the note of an application.\<close>

definition lookup_answer :: "(string \<Rightarrow> string) \<Rightarrow> GroupCardView option \<Rightarrow> FriendList \<Rightarrow> FriendList" where
  "lookup_answer pay_note found s =
     (case fl_run s of
        Some (LookingUp uri wallet confirming tx) \<Rightarrow>
          (let s1 = s\<lparr>fl_joinCard := map_option show_card found\<rparr>
           in case Option.bind found card_paid of
                None \<Rightarrow> next_call (Applying False) (R_groupApply uri None None) s1
              | Some (Some price, Some addr) \<Rightarrow>
                  (case wallet of
                     Some _ \<Rightarrow>
                       (if \<not> confirming then run_ok None (log_list (LAsk uri price) (s1\<lparr>fl_payConfirming := True\<rparr>))
                        else next_call (Paying price) (R_groupPaidJoin uri) (s1\<lparr>fl_payConfirming := False\<rparr>))
                   | None \<Rightarrow>
                       (if tx = [] then run_fails (NoteError ''group.join.paid.needProof'' [price, addr]) s1
                        else next_call (Applying True) (R_groupApply uri (Some (pay_note price)) (Some (payment_proof tx price addr))) s1))
              | Some _ \<Rightarrow> run_fails (NoteError ''group.join.paid.noPrice'' []) s1)
      | _ \<Rightarrow> s)"

definition select_group :: "string \<Rightarrow> FriendList \<Rightarrow> FriendList" where
  "select_group gid s = (if gid \<noteq> [] then log_list (LSelect (groupKey gid)) s else s)"

definition paid_answer :: "string + (string \<times> string option \<times> string option) \<Rightarrow> FriendList \<Rightarrow> FriendList" where
  "paid_answer r s =
     (case fl_run s of
        Some (Paying price) \<Rightarrow>
          (case r of
             Inl m \<Rightarrow> run_fails (NoteFailed m) s
           | Inr (gid, tx, amount) \<Rightarrow>
               run_ok (Some (NoteOk ''group.join.paid.paidViaLocal'' [opt_or amount price, opt_or tx []]))
                 (select_group gid (s\<lparr>fl_joinUri := [], fl_joinTx := [], fl_joinCard := None, fl_dialog := None\<rparr>)))
      | _ \<Rightarrow> s)"

definition apply_answer :: "string + string \<Rightarrow> FriendList \<Rightarrow> FriendList" where
  "apply_answer r s =
     (case fl_run s of
        Some (Applying with_proof) \<Rightarrow>
          (case r of
             Inl m \<Rightarrow> run_fails (NoteFailed m) s
           | Inr gid \<Rightarrow>
               (if with_proof
                then run_ok (Some (NoteOk ''group.join.paid.applied'' []))
                       (select_group gid (s\<lparr>fl_joinUri := [], fl_joinTx := [], fl_joinCard := None, fl_dialog := None\<rparr>))
                else run_ok (Some (NoteOk ''group.join.applied'' []))
                       (select_group gid ((if gid \<noteq> [] then log_list LMessagesTab else id) (s\<lparr>fl_joinUri := [], fl_joinCard := None, fl_dialog := None\<rparr>)))))
      | _ \<Rightarrow> s)"

definition add_answer :: "string + string \<Rightarrow> FriendList \<Rightarrow> FriendList" where
  "add_answer r s =
     (if fl_run s \<noteq> Some Adding then s
      else case r of
             Inl m \<Rightarrow> run_fails (NoteFailed m) s
           | Inr name \<Rightarrow> run_ok (Some (NoteOk ''settings.add.sent'' [name])) (s\<lparr>fl_addUri := [], fl_addNote := [], fl_dialog := None\<rparr>))"

definition create_answer :: "string + (string \<times> string) \<Rightarrow> FriendList \<Rightarrow> FriendList" where
  "create_answer r s =
     (if fl_run s \<noteq> Some Creating then s
      else case r of
             Inl m \<Rightarrow> run_fails (NoteFailed m) s
           | Inr (gid, name) \<Rightarrow>
               run_ok (Some (NoteOk ''group.create.created'' [name])) (log_list (LSelect (groupKey gid)) (s\<lparr>fl_createOpen := False\<rparr>)))"

definition accept_request :: "string \<Rightarrow> FriendList \<Rightarrow> FriendList" where
  "accept_request i s = (if fl_busy s \<noteq> None then s else start_run (''accept:'' @ i) Accepting (R_accept i None) s)"

definition accept_answer :: "string + (string \<times> string) \<Rightarrow> FriendList \<Rightarrow> FriendList" where
  "accept_answer r s =
     (if fl_run s \<noteq> Some Accepting then s
      else case r of
             Inl m \<Rightarrow> run_fails (NoteFailed m) s
           | Inr (fp, name) \<Rightarrow> run_ok (Some (NoteOk ''inbox.pending.accepted'' [name])) (log_list (LSelect fp) s))"

definition reject_request :: "string \<Rightarrow> FriendList \<Rightarrow> FriendList" where
  "reject_request i s = (if fl_busy s \<noteq> None then s else start_run (''reject:'' @ i) Rejecting (R_reject i) s)"

definition reject_answer :: "string + unit \<Rightarrow> FriendList \<Rightarrow> FriendList" where
  "reject_answer r s =
     (if fl_run s \<noteq> Some Rejecting then s else case r of Inl m \<Rightarrow> run_fails (NoteFailed m) s | Inr _ \<Rightarrow> run_ok None s)"

definition type_uri :: "string \<Rightarrow> FriendList \<Rightarrow> FriendList" where
  "type_uri u s = log_list LEdit (s\<lparr>fl_joinUri := u, fl_joinCard := None, fl_joinTx := []\<rparr>)"

definition join_back :: "FriendList \<Rightarrow> FriendList" where
  "join_back s = (if fl_payConfirming s then s\<lparr>fl_payConfirming := False\<rparr> else s\<lparr>fl_dialog := None\<rparr>)"

definition list_escape :: "FriendList \<Rightarrow> FriendList" where
  "list_escape s = (if fl_dialog s = None \<and> \<not> fl_plusOpen s then s else s\<lparr>fl_dialog := None, fl_plusOpen := False\<rparr>)"

definition join_button_enabled :: "FriendList \<Rightarrow> bool" where
  "join_button_enabled s \<longleftrightarrow>
     \<not> (fl_busy s \<noteq> None \<or> trim (fl_joinUri s) = [] \<or>
        (Option.bind (fl_joinCard s) jc_price \<noteq> None \<and> fl_walletAddress s = None \<and> trim (fl_joinTx s) = []))"

section \<open>Histories\<close>

text \<open>
  What happens to the column, in any order: the owner types, clicks and closes dialogs, requests are answered, the wallet
  and the identity become known.
\<close>

datatype list_event =
    Identity bool | Wallet "string option"
  | TypeAdd string | TypeAddNote string | SubmitAdd | AddAnswer "string + string"
  | CreateGroup string "string list" GroupProfile | CreateAnswer "string + (string \<times> string)"
  | TypeUri string | TypeTx string | SubmitJoin | JoinBack | LookupAnswer "GroupCardView option"
  | PaidAnswer "string + (string \<times> string option \<times> string option)" | ApplyAnswer "string + string"
  | AcceptRequest string | AcceptAnswer "string + (string \<times> string)" | RejectRequest string | RejectAnswer "string + unit"
  | PlusMenu | OpenDialog list_dialog | OpenCreate bool | CloseDialog | Escape | Refreshed

fun list_step :: "(string \<Rightarrow> string) \<Rightarrow> list_event \<Rightarrow> FriendList \<Rightarrow> FriendList" where
  "list_step pn (Identity b) s = s\<lparr>fl_identity := b\<rparr>"
| "list_step pn (Wallet w) s = s\<lparr>fl_walletAddress := w\<rparr>"
| "list_step pn (TypeAdd u) s = s\<lparr>fl_addUri := u\<rparr>"
| "list_step pn (TypeAddNote n) s = s\<lparr>fl_addNote := n\<rparr>"
| "list_step pn SubmitAdd s = submitAdd s"
| "list_step pn (AddAnswer r) s = add_answer r s"
| "list_step pn (CreateGroup name members p) s = createGroup name members p s"
| "list_step pn (CreateAnswer r) s = create_answer r s"
| "list_step pn (TypeUri u) s = type_uri u s"
| "list_step pn (TypeTx tx) s = s\<lparr>fl_joinTx := tx\<rparr>"
| "list_step pn SubmitJoin s = submitJoin s"
| "list_step pn JoinBack s = join_back s"
| "list_step pn (LookupAnswer c) s = lookup_answer pn c s"
| "list_step pn (PaidAnswer r) s = paid_answer r s"
| "list_step pn (ApplyAnswer r) s = apply_answer r s"
| "list_step pn (AcceptRequest i) s = accept_request i s"
| "list_step pn (AcceptAnswer r) s = accept_answer r s"
| "list_step pn (RejectRequest i) s = reject_request i s"
| "list_step pn (RejectAnswer r) s = reject_answer r s"
| "list_step pn PlusMenu s = s\<lparr>fl_plusOpen := \<not> fl_plusOpen s\<rparr>"
| "list_step pn (OpenDialog d) s = s\<lparr>fl_plusOpen := False, fl_dialog := Some d\<rparr>"
| "list_step pn (OpenCreate b) s = s\<lparr>fl_plusOpen := False, fl_createOpen := b\<rparr>"
| "list_step pn CloseDialog s = s\<lparr>fl_dialog := None\<rparr>"
| "list_step pn Escape s = list_escape s"
| "list_step pn Refreshed s = (if fl_run s = Some Refreshing then run_ends s else s)"

definition list_run :: "(string \<Rightarrow> string) \<Rightarrow> list_event list \<Rightarrow> FriendList \<Rightarrow> FriendList" where
  "list_run pn evs s = fold (list_step pn) evs s"

section \<open>Order and completeness of the lists\<close>

context collation
begin

lemma row_cmp_swap: "row_cmp localeCompare x y > 0 \<Longrightarrow> row_cmp localeCompare y x < 0"
  using cmp_swap [of "row_name x" "row_name y"] by (auto simp: row_cmp_def split: if_splits)

lemma row_cmp_trans:
  "row_cmp localeCompare x y \<le> 0 \<Longrightarrow> row_cmp localeCompare y z \<le> 0 \<Longrightarrow> row_cmp localeCompare x z \<le> 0"
  using cmp_le_trans [of "row_name x" "row_name y" "row_name z"] by (auto simp: row_cmp_def split: if_splits)

end

sublocale collation < rows: comparator "row_cmp localeCompare"
  by unfold_locales (erule row_cmp_swap, erule (1) row_cmp_trans)

context collation
begin

lemma rows_sorted: "sorted_wrt (\<lambda>a b. row_cmp localeCompare a b \<le> 0) (chat_rows localeCompare inbox)"
  unfolding chat_rows_def by (rule rows.js_sort_sorted)

end

interpretation newest: comparator "\<lambda>a b. ch_ts b - ch_ts a"
  by unfold_locales simp_all

text \<open>Every conversation has one row, the newest first.\<close>

lemma chat_rows_ordered:
  assumes "collation lc"
  shows "mset (chat_rows lc inbox) = mset (map FriendRow (ib_friends inbox)) + mset (map GroupRow (ib_groups inbox))"
    "sorted_wrt (\<lambda>a b. row_ts b \<le> row_ts a) (chat_rows lc inbox)"
proof -
  show "mset (chat_rows lc inbox) = mset (map FriendRow (ib_friends inbox)) + mset (map GroupRow (ib_groups inbox))"
    by (simp add: chat_rows_def)
  from collation.rows_sorted [OF assms, of inbox] show "sorted_wrt (\<lambda>a b. row_ts b \<le> row_ts a) (chat_rows lc inbox)"
    by (rule sorted_wrt_mono_rel [rotated]) (auto simp: row_cmp_def split: if_splits)
qed

text \<open>The message search shows matches only, the newest of them, and at most thirty.\<close>

lemma content_hits_newest:
  assumes "q = toLowerCase (trim query)" "q \<noteq> []"
  shows "length (contentHits inbox page query) = min 30 (length (all_hits inbox page q))"
    "set (contentHits inbox page query) \<subseteq> set (all_hits inbox page q)"
    "h \<in> set (all_hits inbox page q) - set (contentHits inbox page query) \<Longrightarrow> k \<in> set (contentHits inbox page query) \<Longrightarrow> ch_ts h \<le> ch_ts k"
proof -
  let ?all = "js_sort (\<lambda>a b. ch_ts b - ch_ts a) (all_hits inbox page q)"
  have c: "contentHits inbox page query = take 30 ?all" using assms by (simp add: contentHits_def)
  have m: "mset ?all = mset (all_hits inbox page q)" by simp
  have set_all: "set ?all = set (all_hits inbox page q)" using m by (metis set_mset_mset)
  show "length (contentHits inbox page query) = min 30 (length (all_hits inbox page q))"
    unfolding c using mset_eq_length [OF m] by (simp add: min.commute)
  show "set (contentHits inbox page query) \<subseteq> set (all_hits inbox page q)" unfolding c using set_all set_take_subset by fastforce
  assume h: "h \<in> set (all_hits inbox page q) - set (contentHits inbox page query)" and k: "k \<in> set (contentHits inbox page query)"
  have "h \<in> set (drop 30 ?all)"
    using h set_all set_append [of "take 30 ?all" "drop 30 ?all"] unfolding c append_take_drop_id by blast
  moreover have "sorted_wrt (\<lambda>a b. ch_ts b - ch_ts a \<le> 0) (take 30 ?all @ drop 30 ?all)"
    using newest.js_sort_sorted by simp
  ultimately show "ch_ts h \<le> ch_ts k" using k unfolding c sorted_wrt_append by fastforce
qed

section \<open>Highlights\<close>

lemma highlight_text: "concat (map part_text (highlight_loop q rest)) = rest"
proof (induction q rest rule: highlight_loop.induct)
  case (1 q rest)
  show ?case
  proof (cases "indexOf (toLowerCase rest) q 0")
    case (Some j)
    have "take j rest @ take (length q) (drop j rest) @ drop (j + length q) rest = rest"
      by (metis append_take_drop_id drop_drop add.commute)
    moreover have "take 0 rest = []" by simp
    ultimately show ?thesis using 1 [OF Some] Some by (subst highlight_loop.simps) (cases "j = 0"; simp)
  qed (subst highlight_loop.simps, simp)
qed

lemma highlight_marks:
  "Marked m \<in> set (highlight_loop q rest) \<Longrightarrow> toLowerCase m = q"
proof (induction q rest rule: highlight_loop.induct)
  case (1 q rest)
  show ?case
  proof (cases "indexOf (toLowerCase rest) q 0")
    case None
    then show ?thesis using 1(2) by (subst (asm) highlight_loop.simps) simp
  next
    case (Some j)
    show ?thesis
    proof (cases "q = []")
      case True
      then show ?thesis using 1(2) Some by (subst (asm) highlight_loop.simps) simp
    next
      case False
      have "prefix q (drop j (toLowerCase rest))" using Some by (simp add: indexOf_Some)
      then have "take (length q) (drop j (toLowerCase rest)) = q" by (auto simp: prefix_def)
      then have "toLowerCase (take (length q) (drop j rest)) = q" by (simp add: toLowerCase_def take_map drop_map)
      moreover have "m = take (length q) (drop j rest) \<or> Marked m \<in> set (highlight_loop q (drop (j + length q) rest))"
        using 1(2) Some False by (subst (asm) highlight_loop.simps) (auto split: if_splits)
      ultimately show ?thesis using 1(1) [OF Some False] by auto
    qed
  qed
qed

text \<open>What is shown is the text, and what is marked is the query, up to case.\<close>

lemma highlight_shows_text:
  "concat (map part_text (Highlight text q)) = text" "Marked m \<in> set (Highlight text q) \<Longrightarrow> toLowerCase m = q"
  by (auto simp: Highlight_def highlight_text highlight_marks split: if_splits)

section \<open>Payments are asked for\<close>

abbreviation payment_of :: "string \<Rightarrow> list_log" where
  "payment_of u \<equiv> LRequest (R_groupPaidJoin u)"

text \<open>
  A question is open that covers a payment for \<open>u\<close>: a lookup found a price and the owner was asked, nothing has been paid
  since, and the question was about \<open>u\<close>, or the owner has edited the address since that lookup.
\<close>

definition asked :: "list_log list \<Rightarrow> string \<Rightarrow> bool" where
  "asked lg u \<longleftrightarrow> (\<exists>p0 p1 p2 v price. lg = p0 @ LRequest (R_groupLookup v) # p1 @ LAsk v price # p2 \<and>
     (\<forall>r. payment_of r \<notin> set p2) \<and> (v = u \<or> LEdit \<in> set p1 \<union> set p2))"

definition paid_ok :: "list_log list \<Rightarrow> bool" where
  "paid_ok lg \<longleftrightarrow> (\<forall>pre u post. lg = pre @ payment_of u # post \<longrightarrow> asked pre u)"

text \<open>The last lookup was about \<open>uri\<close>, and \<open>current\<close> is still that address, or it was edited since.\<close>

definition looked :: "list_log list \<Rightarrow> string \<Rightarrow> string \<Rightarrow> bool" where
  "looked lg uri current \<longleftrightarrow> (\<exists>p0 p1. lg = p0 @ LRequest (R_groupLookup uri) # p1 \<and> (LEdit \<in> set p1 \<or> current = uri))"

definition list_inv :: "FriendList \<Rightarrow> bool" where
  "list_inv s \<longleftrightarrow>
     paid_ok (fl_log s) \<and> (fl_run s \<noteq> None \<longrightarrow> fl_busy s \<noteq> None) \<and>
     (fl_payConfirming s \<longrightarrow> (\<exists>v. asked (fl_log s) v) \<and> (trim (fl_joinUri s) \<noteq> [] \<longrightarrow> asked (fl_log s) (trim (fl_joinUri s)))) \<and>
     (\<forall>uri w c tx. fl_run s = Some (LookingUp uri w c tx) \<longrightarrow>
        looked (fl_log s) uri (trim (fl_joinUri s)) \<and> (c \<longrightarrow> asked (fl_log s) uri))"

lemma asked_append: "asked lg u \<Longrightarrow> \<forall>r. x \<noteq> payment_of r \<Longrightarrow> asked (lg @ [x]) u"
  unfolding asked_def by (elim exE conjE) (rule exI, rule exI, rule_tac x = "p2 @ [x]" in exI, auto)

lemma asked_edit: "asked lg v \<Longrightarrow> asked (lg @ [LEdit]) u"
  unfolding asked_def by (elim exE conjE) (rule exI, rule exI, rule_tac x = "p2 @ [LEdit]" in exI, auto)

lemma looked_edit: "looked lg uri u \<Longrightarrow> looked (lg @ [LEdit]) uri v"
  unfolding looked_def by (elim exE conjE) (rule exI, rule_tac x = "p1 @ [LEdit]" in exI, auto)

lemma looked_now: "looked (lg @ [LRequest (R_groupLookup u)]) u u"
  unfolding looked_def by auto

lemma asked_question: "looked lg uri u \<Longrightarrow> asked (lg @ [LAsk uri price]) u"
  unfolding asked_def looked_def
  by (elim exE conjE) (rule_tac x = p0 in exI, rule_tac x = p1 in exI, rule_tac x = "[]" in exI, auto)

lemma paid_ok_append: "paid_ok lg \<Longrightarrow> \<forall>u. x = payment_of u \<longrightarrow> asked lg u \<Longrightarrow> paid_ok (lg @ [x])"
  unfolding paid_ok_def
proof (intro allI impI)
  fix pre u post
  assume ok: "\<forall>pre u post. lg = pre @ payment_of u # post \<longrightarrow> asked pre u" and x: "\<forall>u. x = payment_of u \<longrightarrow> asked lg u"
    and l: "lg @ [x] = pre @ payment_of u # post"
  show "asked pre u"
  proof (cases post rule: rev_cases)
    case Nil
    then have "x = payment_of u" "lg = pre" using l by auto
    then show ?thesis using x by simp
  next
    case (snoc post' y)
    then have "lg = pre @ payment_of u # post'" using l by simp
    then show ?thesis using ok by blast
  qed
qed

lemma quiet_append:
  assumes "\<forall>r. payment_of r \<notin> set xs"
  shows "asked lg u \<Longrightarrow> asked (lg @ xs) u" "paid_ok lg \<Longrightarrow> paid_ok (lg @ xs)"
proof -
  have "(asked lg u \<longrightarrow> asked (lg @ xs) u) \<and> (paid_ok lg \<longrightarrow> paid_ok (lg @ xs))" using assms
  proof (induction xs rule: rev_induct)
    case (snoc x xs)
    then show ?case using asked_append [of "lg @ xs" u x] paid_ok_append [of "lg @ xs" x] by auto
  qed simp
  then show "asked lg u \<Longrightarrow> asked (lg @ xs) u" "paid_ok lg \<Longrightarrow> paid_ok (lg @ xs)" by simp_all
qed

lemmas list_ops = log_list_def start_run_def run_ok_def run_fails_def run_ends_def next_call_def

text \<open>Steps that note nothing but requests which are no payments, and leave the address and the question alone.\<close>

lemma list_inv_quiet:
  assumes "list_inv s" "\<exists>xs. fl_log t = fl_log s @ xs \<and> (\<forall>r. payment_of r \<notin> set xs)"
    "fl_payConfirming t \<longrightarrow> fl_payConfirming s" "fl_joinUri t = fl_joinUri s \<or> fl_joinUri t = []"
    "fl_run t \<noteq> None \<longrightarrow> fl_busy t \<noteq> None"
    "\<And>uri w c tx. fl_run t = Some (LookingUp uri w c tx) \<Longrightarrow> fl_run s = fl_run t \<and> fl_joinUri t = fl_joinUri s \<and> fl_log t = fl_log s"
  shows "list_inv t"
  unfolding list_inv_def
proof (intro conjI)
  obtain xs where xs: "fl_log t = fl_log s @ xs" "\<forall>r. payment_of r \<notin> set xs" using assms(2) by blast
  have "paid_ok (fl_log s)" using assms(1) by (simp add: list_inv_def)
  then show "paid_ok (fl_log t)" using quiet_append(2) [OF xs(2)] xs(1) by simp
  show "fl_run t \<noteq> None \<longrightarrow> fl_busy t \<noteq> None" by (rule assms(5))
  have later: "asked (fl_log t) v" if "asked (fl_log s) v" for v using quiet_append(1) [OF xs(2)] xs(1) that by simp
  have "fl_payConfirming s \<longrightarrow> (\<exists>v. asked (fl_log s) v) \<and> (trim (fl_joinUri s) \<noteq> [] \<longrightarrow> asked (fl_log s) (trim (fl_joinUri s)))"
    using assms(1) by (simp add: list_inv_def)
  then show "fl_payConfirming t \<longrightarrow> (\<exists>v. asked (fl_log t) v) \<and> (trim (fl_joinUri t) \<noteq> [] \<longrightarrow> asked (fl_log t) (trim (fl_joinUri t)))"
    using assms(3,4) later by auto
  show "\<forall>uri w c tx. fl_run t = Some (LookingUp uri w c tx) \<longrightarrow>
      looked (fl_log t) uri (trim (fl_joinUri t)) \<and> (c \<longrightarrow> asked (fl_log t) uri)"
  proof (intro allI impI)
    fix uri w c tx assume r: "fl_run t = Some (LookingUp uri w c tx)"
    note assms(6) [OF r]
    then show "looked (fl_log t) uri (trim (fl_joinUri t)) \<and> (c \<longrightarrow> asked (fl_log t) uri)"
      using assms(1) r unfolding list_inv_def by auto
  qed
qed

lemma list_inv_edit: "list_inv s \<Longrightarrow> list_inv (type_uri u s)"
  by (auto simp: list_inv_def type_uri_def log_list_def intro: paid_ok_append asked_edit looked_edit)

lemma list_inv_submit:
  assumes "list_inv s"
  shows "list_inv (submitJoin s)"
proof (cases "fl_busy s \<noteq> None \<or> trim (fl_joinUri s) = [] \<or> \<not> fl_identity s")
  case False
  then show ?thesis using assms
    by (auto simp: list_inv_def submitJoin_def list_ops intro: paid_ok_append asked_append looked_now)
qed (simp add: submitJoin_def assms)

lemma list_inv_lookup:
  assumes "list_inv s"
  shows "list_inv (lookup_answer pn found s)"
proof (cases "fl_run s")
  case (Some p)
  show ?thesis
  proof (cases p)
    case (LookingUp uri wallet confirming tx)
    then have l: "looked (fl_log s) uri (trim (fl_joinUri s))"
      and c: "confirming \<longrightarrow> asked (fl_log s) uri" and b: "fl_busy s \<noteq> None" and ok: "paid_ok (fl_log s)"
      and q: "fl_payConfirming s \<longrightarrow> (\<exists>v. asked (fl_log s) v) \<and> (trim (fl_joinUri s) \<noteq> [] \<longrightarrow> asked (fl_log s) (trim (fl_joinUri s)))"
      using assms Some by (auto simp: list_inv_def)
    have ask: "asked (fl_log s @ [LAsk uri price]) (trim (fl_joinUri s))" "\<exists>v. asked (fl_log s @ [LAsk uri price]) v" for price
      using asked_question [OF l] by blast+
    show ?thesis
      unfolding lookup_answer_def using Some LookingUp b c ok q ask
      by (auto simp: list_inv_def list_ops Let_def split: option.splits intro!: paid_ok_append intro: asked_append)
  qed (simp_all add: lookup_answer_def Some assms)
qed (simp add: lookup_answer_def assms)

lemmas quiet_ops = list_ops submitAdd_def createGroup_def join_back_def paid_answer_def apply_answer_def add_answer_def create_answer_def
  accept_request_def accept_answer_def reject_request_def reject_answer_def list_escape_def select_group_def

lemma list_inv_step:
  assumes "list_inv s"
  shows "list_inv (list_step pn e s)"
proof -
  have b: "fl_run s \<noteq> None \<longrightarrow> fl_busy s \<noteq> None" using assms by (simp add: list_inv_def)
  note quiet = list_inv_quiet [OF assms]
  show ?thesis
  proof (cases e)
    case TypeUri
    then show ?thesis using list_inv_edit [OF assms] by simp
  next
    case SubmitJoin
    then show ?thesis using list_inv_submit [OF assms] by simp
  next
    case LookupAnswer
    then show ?thesis using list_inv_lookup [OF assms] by simp
  qed (rule quiet; use b in \<open>auto simp: quiet_ops split: option.splits sum.splits run_phase.splits if_splits\<close>)+
qed

lemma list_inv_run: "list_inv s \<Longrightarrow> list_inv (list_run pn evs s)"
  unfolding list_run_def by (induction evs arbitrary: s) (simp_all add: list_inv_step)

lemma list_inv_new: "list_inv new_FriendList"
  by (simp add: list_inv_def new_FriendList_def paid_ok_def)

text \<open>
  C2. Money is moved only after a question: in every history of the list column, before each order to pay for joining a
  group there was a lookup that found a price and a question put to the owner with that price, and no other order to pay
  since that question. The question was about the group that is paid, or the owner has edited the address since that
  lookup.
\<close>

theorem payment_asked_first:
  assumes "fl_log (list_run pn evs new_FriendList) = pre @ LRequest (R_groupPaidJoin u) # rest"
  shows "\<exists>p0 p1 p2 v price. pre = p0 @ LRequest (R_groupLookup v) # p1 @ LAsk v price # p2 \<and>
    (\<forall>r. LRequest (R_groupPaidJoin r) \<notin> set p2) \<and> (v = u \<or> LEdit \<in> set p1 \<union> set p2)"
proof -
  have "paid_ok (fl_log (list_run pn evs new_FriendList))" using list_inv_run [OF list_inv_new] by (simp add: list_inv_def)
  then show ?thesis using assms unfolding paid_ok_def asked_def by blast
qed

definition priced :: "string \<Rightarrow> string \<Rightarrow> GroupCardView" where
  "priced gid price = \<lparr>gc_gid = gid, gc_name = gid, gc_join = ''paid'', gc_members = 3, gc_joinPrice = Some price, gc_joinAddr = Some ''0x1'',
     gc_joinNote = None, gc_rulesHead = None\<rparr>"

definition question_for_A :: "list_event list" where
  "question_for_A = [Identity True, Wallet (Some ''0xme''), OpenDialog JoinDialog, TypeUri ''A'', SubmitJoin, LookupAnswer (Some (priced ''A'' ''1.00'')), Refreshed]"

lemmas join_run = list_run_def question_for_A_def list_ops type_uri_def submitJoin_def lookup_answer_def card_paid_def show_card_def priced_def
  new_FriendList_def join_back_def

lemma letters_trimmed [simp]: "trim ''A'' = ''A''" "trim ''B'' = ''B''"
  by code_simp+

theorem payment_asked_first_witness:
  "\<exists>p0 p1 p2 v price. [LEdit, LRequest (R_groupLookup ''A''), LAsk ''A'' ''1.00'', LRequest (R_groupLookup ''A'')] =
     p0 @ LRequest (R_groupLookup v) # p1 @ LAsk v price # p2 \<and>
     (\<forall>r. LRequest (R_groupPaidJoin r) \<notin> set p2) \<and> (v = ''A'' \<or> LEdit \<in> set p1 \<union> set p2)"
proof (rule payment_asked_first)
  show "fl_log (list_run id (question_for_A @ [SubmitJoin, LookupAnswer (Some (priced ''A'' ''1.00''))]) new_FriendList) =
      [LEdit, LRequest (R_groupLookup ''A''), LAsk ''A'' ''1.00'', LRequest (R_groupLookup ''A'')] @ LRequest (R_groupPaidJoin ''A'') # []"
    by (simp add: join_run)
qed

section \<open>Answers to a question that was not asked\<close>

text \<open>
  Neither an edit of the address nor closing the dialog withdraws the question. After a question about one group, the next
  submission pays for whatever address is typed by then, without a word about its price.
\<close>

lemma other_group_paid_unasked:
  "let s = list_run pn (question_for_A @ [CloseDialog, OpenDialog JoinDialog, TypeUri ''B'', SubmitJoin, LookupAnswer (Some (priced ''B'' ''500''))]) new_FriendList
   in LRequest (R_groupPaidJoin ''B'') \<in> set (fl_log s) \<and> (\<forall>price. LAsk ''B'' price \<notin> set (fl_log s))"
  by (simp add: join_run)

text \<open>Cancelling while the lookup of the second submission is out does not stop the payment.\<close>

lemma cancelled_payment_made:
  "let s = list_run pn (question_for_A @ [SubmitJoin, JoinBack]) new_FriendList
   in \<not> fl_payConfirming s \<and> LRequest (R_groupPaidJoin ''A'') \<in> set (fl_log (list_run pn [LookupAnswer (Some (priced ''A'' ''1.00''))] s))"
  by (simp add: join_run)

end
