(* ===== verification/Group_Home.thy ===== *)
theory Group_Home
  imports Friend_List Rooms
begin

text \<open>
  Creating and governing a group on the page: \<^verbatim>\<open>src/dsh/packages/dsh/src/client/group-templates.ts\<close>, the form of
  \<^verbatim>\<open>client/GroupCreateDialog.tsx\<close> and the group home of \<^verbatim>\<open>client/GroupPane.tsx\<close> with its profile editor, members, pins and
  applications, and the two clicks that kicking and leaving take. The markup is left out. A profile is the object that
  travels, as in \<open>Network\<close>. Answers of requests and timers are events; \<open>hp_log\<close> notes the requests.
  Lemmas: the profile that reaches the host enforces what was chosen in the form, removals take two clicks on the same
  button of the same group, and what goes wrong when an answer comes after a switch of groups.
\<close>

section \<open>Templates\<close>

record GroupTemplate =
  gt_id :: string
  gt_profile :: GroupProfile
  gt_nameKey :: string
  gt_descKey :: string

text \<open>\<open>{ ...a, ...b }\<close>.\<close>

definition spread :: "GroupProfile \<Rightarrow> GroupProfile \<Rightarrow> GroupProfile" where
  "spread a b = fold (\<lambda>(k, v). al_set k v) b a"

definition base_template :: "string \<Rightarrow> GroupProfile \<Rightarrow> GroupTemplate" where
  "base_template i patch =
     \<lparr>gt_id = i,
      gt_profile = spread [(''template'', JStr i), (''room'', JStr ''chat''), (''speakHumans'', JBool True), (''speakAgents'', JBool True),
        (''speakWho'', JStr ''all''), (''join'', JStr ''invite''), (''agentWake'', JStr ''mention''), (''agentTier'', JStr ''draft''),
        (''autoPerHour'', int_json 10), (''agentRounds'', int_json 3)] patch,
      gt_nameKey = ''template.'' @ i, gt_descKey = ''template.'' @ i @ ''.desc''\<rparr>"

definition GROUP_TEMPLATES :: "GroupTemplate list" where
  "GROUP_TEMPLATES =
     [base_template ''standard'' [],
      base_template ''announcement'' [(''speakWho'', JStr ''owner''), (''speakAgents'', JBool False), (''agentWake'', JStr ''never'')],
      base_template ''agents'' [(''speakHumans'', JBool False), (''agentWake'', JStr ''always''), (''agentTier'', JStr ''auto'')],
      base_template ''tasks'' [(''agentWake'', JStr ''mention''), (''tags'', JArr [JStr ''tasks''])],
      base_template ''casual'' [(''agentWake'', JStr ''always''), (''agentTier'', JStr ''auto''), (''autoPerHour'', int_json 60), (''agentRounds'', int_json 10)]]"

definition templateById :: "string \<Rightarrow> GroupTemplate" where
  "templateById i = (case List.find (\<lambda>t. gt_id t = i) GROUP_TEMPLATES of Some t \<Rightarrow> t | None \<Rightarrow> hd GROUP_TEMPLATES)"

definition defined_fields :: "(string \<times> json option) list \<Rightarrow> GroupProfile" where
  "defined_fields overrides = List.map_filter (\<lambda>(k, v). case v of None \<Rightarrow> None | Some j \<Rightarrow> (if j = JStr [] then None else Some (k, j))) overrides"

definition templateProfile :: "string \<Rightarrow> (string \<times> json option) list \<Rightarrow> GroupProfile" where
  "templateProfile i overrides =
     al_set ''template'' (JStr (gt_id (templateById i))) (spread (gt_profile (templateById i)) (defined_fields overrides))"

section \<open>The form of a new group\<close>

record group_form =
  gf_speakHumans :: bool
  gf_speakAgents :: bool
  gf_speakWho :: string
  gf_join :: string
  gf_joinPrice :: string
  gf_agentWake :: string
  gf_agentTier :: string
  gf_rules :: string
  gf_isPublic :: bool
  gf_tags :: string

definition tag_list :: "string \<Rightarrow> string list" where
  "tag_list tags = filter (\<lambda>t. t \<noteq> []) (map trim (split_on (CHR '','') tags))"

text \<open>Choosing paid joining makes the group public.\<close>

definition choose_join :: "string \<Rightarrow> group_form \<Rightarrow> group_form" where
  "choose_join v f = f\<lparr>gf_join := v, gf_isPublic := (if v = ''paid'' then True else gf_isPublic f)\<rparr>"

record GroupCreateDialog =
  cd_name :: string
  cd_sel :: "(string, bool) al"
  cd_adv :: group_form

definition new_GroupCreateDialog :: GroupCreateDialog where
  "new_GroupCreateDialog =
     \<lparr>cd_name = [], cd_sel = [],
      cd_adv = \<lparr>gf_speakHumans = True, gf_speakAgents = True, gf_speakWho = ''all'', gf_join = ''invite'', gf_joinPrice = [],
        gf_agentWake = ''mention'', gf_agentTier = ''draft'', gf_rules = [], gf_isPublic = False, gf_tags = []\<rparr>\<rparr>"

definition pick_member :: "string \<Rightarrow> bool \<Rightarrow> GroupCreateDialog \<Rightarrow> GroupCreateDialog" where
  "pick_member fp on d = d\<lparr>cd_sel := al_set fp on (cd_sel d)\<rparr>"

definition chosen_members :: "GroupCreateDialog \<Rightarrow> string list" where
  "chosen_members d = map fst (filter snd (cd_sel d))"

definition paidIncomplete :: "string option \<Rightarrow> group_form \<Rightarrow> bool" where
  "paidIncomplete wallet f \<longleftrightarrow> gf_join f = ''paid'' \<and> (wallet = None \<or> trim (gf_joinPrice f) = [])"

definition create_ready :: "bool \<Rightarrow> string option \<Rightarrow> GroupCreateDialog \<Rightarrow> bool" where
  "create_ready busy wallet d \<longleftrightarrow>
     \<not> busy \<and> trim (cd_name d) \<noteq> [] \<and> chosen_members d \<noteq> [] \<and> \<not> paidIncomplete wallet (cd_adv d)"

definition form_overrides :: "string option \<Rightarrow> group_form \<Rightarrow> (string \<times> json option) list" where
  "form_overrides wallet f =
     (let paid = gf_join f = ''paid'' \<and> wallet \<noteq> None \<and> trim (gf_joinPrice f) \<noteq> []; tags = tag_list (gf_tags f) in
      [(''speakHumans'', Some (JBool (gf_speakHumans f))), (''speakAgents'', Some (JBool (gf_speakAgents f))), (''speakWho'', js (gf_speakWho f)),
       (''join'', js (gf_join f)), (''agentWake'', js (gf_agentWake f)), (''agentTier'', js (gf_agentTier f))] @
      (if trim (gf_rules f) = [] then [] else [(''rules'', js (gf_rules f))]) @
      (if paid then [(''joinPrice'', js (trim (gf_joinPrice f))), (''joinAddr'', jso wallet)] else []) @
      (if gf_isPublic f then [(''public'', Some (JBool True))] else []) @
      (if tags = [] then [] else [(''tags'', jsl tags)]))"

definition submit_group :: "bool \<Rightarrow> string option \<Rightarrow> GroupCreateDialog \<Rightarrow> (string \<times> string list \<times> GroupProfile) option" where
  "submit_group busy wallet d =
     (if \<not> create_ready busy wallet d then None
      else Some (trim (cd_name d), chosen_members d, templateProfile ''standard'' (form_overrides wallet (cd_adv d))))"

section \<open>The group home\<close>

datatype home_action = DoPin | DoUnpin | DoApprove | DoReject | DoAdmins | DoKick | DoInvite | DoLeave | DoSave

datatype home_phase = Acting home_action | RefetchingInfo | RefreshingState

text \<open>
  A request for the roster: that of the effect that shows a group is cancelled when another group is shown, those that
  follow an action or a change to a management tab are not.
\<close>

datatype fetch_kind = FetchLive | FetchCancelled | FetchPlain

datatype home_log = HRequest api_request | HGoAlter | HLoadThread string | HClearApps string

record GroupPane =
  hp_gid :: string
  hp_mine :: bool
  hp_ownerFp :: string
  hp_rowProfile :: "GroupProfile option"
  hp_myFp :: "string option"
  hp_infoCache :: "(string, GroupInfo) al"
  hp_info :: "GroupInfo option"
  hp_busy :: "string option"
  hp_run :: "(string \<times> home_phase) option"
  hp_error :: "string option"
  hp_pinText :: string
  hp_inviteFp :: string
  hp_editOpen :: bool
  hp_edit :: group_form
  hp_walletAddress :: "string option"
  hp_confirming :: "string option"
  hp_timers :: "string list"
  hp_fetches :: "(string \<times> fetch_kind) list"
  hp_log :: "home_log list"

definition log_home :: "home_log \<Rightarrow> GroupPane \<Rightarrow> GroupPane" where
  "log_home l s = s\<lparr>hp_log := hp_log s @ [l]\<rparr>"

definition home_profile :: "GroupPane \<Rightarrow> GroupProfile option" where
  "home_profile s =
     (case hp_info s of
        None \<Rightarrow> hp_rowProfile s
      | Some g \<Rightarrow> (case gi_profile g of None \<Rightarrow> hp_rowProfile s | Some p \<Rightarrow> Some p))"

text \<open>The fields of a profile the page reads, with the defaults of the reader.\<close>

definition field :: "GroupProfile option \<Rightarrow> string \<Rightarrow> unknown" where
  "field p k = Option.bind p (\<lambda>m. al_get m k)"

definition text_field :: "GroupProfile option \<Rightarrow> string \<Rightarrow> string \<Rightarrow> string" where
  "text_field p k d = opt_or (str_opt (field p k)) d"

definition bool_field :: "GroupProfile option \<Rightarrow> string \<Rightarrow> bool \<Rightarrow> bool" where
  "bool_field p k d = (case field p k of Some (JBool b) \<Rightarrow> b | _ \<Rightarrow> d)"

definition list_field :: "GroupProfile option \<Rightarrow> string \<Rightarrow> string list" where
  "list_field p k = List.map_filter (\<lambda>j. str_opt (Some j)) (arr_items (field p k))"

definition read_profile :: "GroupProfile option \<Rightarrow> ApiGroupProfile option" where
  "read_profile p = map_option (\<lambda>m. \<lparr>gp_room = str_opt (al_get m ''room''), gp_speakHumans = bool_field p ''speakHumans'' True,
     gp_speakAgents = bool_field p ''speakAgents'' True, gp_speakWho = str_opt (al_get m ''speakWho''),
     gp_admins = (if al_get m ''admins'' = None then None else Some (list_field p ''admins''))\<rparr>) p"

definition role_named :: "string \<Rightarrow> GroupRole" where
  "role_named r = (if r = ''owner'' then RoleOwner else if r = ''admin'' then RoleAdmin else RoleMember)"

definition home_role :: "GroupPane \<Rightarrow> GroupRole" where
  "home_role s =
     (case hp_info s of Some g \<Rightarrow> role_named (gi_myRole g) | None \<Rightarrow> roleOf (hp_mine s) (read_profile (hp_rowProfile s)) (hp_myFp s))"

definition home_members :: "GroupPane \<Rightarrow> GroupMember list" where
  "home_members s = (case hp_info s of None \<Rightarrow> [] | Some g \<Rightarrow> gi_memberList g)"

definition home_applications :: "GroupPane \<Rightarrow> GroupApplication list" where
  "home_applications s = (case hp_info s of None \<Rightarrow> [] | Some g \<Rightarrow> (case gi_applications g of None \<Rightarrow> [] | Some a \<Rightarrow> a))"

definition inviteCandidates :: "InboxState \<Rightarrow> GroupPane \<Rightarrow> ApiFriend list" where
  "inviteCandidates inbox s = filter (\<lambda>f. af_fp f \<notin> gm_fp ` set (home_members s)) (ib_friends inbox)"

text \<open>Showing a group, or a new version of it.\<close>

definition fetch_info :: "fetch_kind \<Rightarrow> GroupPane \<Rightarrow> GroupPane" where
  "fetch_info k s = log_home (HRequest (R_groupInfo (hp_gid s))) (s\<lparr>hp_fetches := hp_fetches s @ [(hp_gid s, k)]\<rparr>)"

definition cancel_fetch :: "string \<times> fetch_kind \<Rightarrow> string \<times> fetch_kind" where
  "cancel_fetch f = (if snd f = FetchLive then (fst f, FetchCancelled) else f)"

definition show_group :: "string \<Rightarrow> bool \<Rightarrow> string \<Rightarrow> GroupProfile option \<Rightarrow> bool \<Rightarrow> GroupPane \<Rightarrow> GroupPane" where
  "show_group gid mine ownerFp prof loaded s =
     fetch_info FetchLive
       ((if loaded then id else log_home (HLoadThread gid))
         (s\<lparr>hp_gid := gid, hp_mine := mine, hp_ownerFp := ownerFp, hp_rowProfile := prof, hp_error := None, hp_info := al_get (hp_infoCache s) gid,
            hp_pinText := [], hp_inviteFp := [], hp_editOpen := False, hp_confirming := None, hp_fetches := map cancel_fetch (hp_fetches s)\<rparr>))"

definition management_tab :: "GroupPane \<Rightarrow> GroupPane" where
  "management_tab s = fetch_info FetchPlain (log_home (HClearApps (hp_gid s)) s)"

definition info_arrived :: "string \<Rightarrow> GroupInfo \<Rightarrow> bool \<Rightarrow> GroupPane \<Rightarrow> GroupPane" where
  "info_arrived gid g shown s = s\<lparr>hp_infoCache := al_set gid g (hp_infoCache s), hp_info := (if shown then Some g else hp_info s)\<rparr>"

definition info_answer :: "nat \<Rightarrow> string + GroupInfo \<Rightarrow> GroupPane \<Rightarrow> GroupPane" where
  "info_answer i r s =
     (if i < length (hp_fetches s)
      then (let (gid, k) = hp_fetches s ! i; t = s\<lparr>hp_fetches := take i (hp_fetches s) @ drop (Suc i) (hp_fetches s)\<rparr>
            in case r of Inl _ \<Rightarrow> t | Inr g \<Rightarrow> info_arrived gid g (k \<noteq> FetchCancelled) t)
      else s)"

text \<open>\<open>run\<close>: the action, then the roster, then the state; an error of the action alone is shown.\<close>

definition run_action :: "string \<Rightarrow> home_action \<Rightarrow> api_request \<Rightarrow> GroupPane \<Rightarrow> GroupPane" where
  "run_action key a r s = log_home (HRequest r) (s\<lparr>hp_busy := Some key, hp_error := None, hp_run := Some (hp_gid s, Acting a)\<rparr>)"

definition action_done :: "home_action \<Rightarrow> GroupPane \<Rightarrow> GroupPane" where
  "action_done a s =
     (case a of DoPin \<Rightarrow> s\<lparr>hp_pinText := []\<rparr> | DoInvite \<Rightarrow> s\<lparr>hp_inviteFp := []\<rparr> | DoSave \<Rightarrow> s\<lparr>hp_editOpen := False\<rparr> | DoLeave \<Rightarrow> log_home HGoAlter s | _ \<Rightarrow> s)"

definition run_answer_home :: "string + GroupInfo option \<Rightarrow> GroupPane \<Rightarrow> GroupPane" where
  "run_answer_home r s =
     (case hp_run s of
        None \<Rightarrow> s
      | Some (gid, Acting a) \<Rightarrow>
          (case r of
             Inl m \<Rightarrow> s\<lparr>hp_error := Some m, hp_busy := None, hp_run := None\<rparr>
           | Inr _ \<Rightarrow> log_home (HRequest (R_groupInfo gid)) (action_done a (s\<lparr>hp_run := Some (gid, RefetchingInfo)\<rparr>)))
      | Some (gid, RefetchingInfo) \<Rightarrow>
          (case r of Inr (Some g) \<Rightarrow> info_arrived gid g True s | _ \<Rightarrow> s)\<lparr>hp_run := Some (gid, RefreshingState)\<rparr>
      | Some (gid, RefreshingState) \<Rightarrow> s\<lparr>hp_busy := None, hp_run := None\<rparr>)"

definition confirmThen :: "string \<Rightarrow> (GroupPane \<Rightarrow> GroupPane) \<Rightarrow> GroupPane \<Rightarrow> GroupPane" where
  "confirmThen key action s =
     (if hp_confirming s = Some key then action (s\<lparr>hp_confirming := None\<rparr>) else s\<lparr>hp_confirming := Some key, hp_timers := hp_timers s @ [key]\<rparr>)"

definition confirm_fires :: "nat \<Rightarrow> GroupPane \<Rightarrow> GroupPane" where
  "confirm_fires i s =
     (if i < length (hp_timers s)
      then s\<lparr>hp_timers := take i (hp_timers s) @ drop (Suc i) (hp_timers s),
             hp_confirming := (if hp_confirming s = Some (hp_timers s ! i) then None else hp_confirming s)\<rparr>
      else s)"

definition canAdmin :: "GroupPane \<Rightarrow> bool" where
  "canAdmin s \<longleftrightarrow> home_role s \<noteq> RoleMember"

text \<open>A button that is not shown, or shown disabled, does nothing.\<close>

definition click_pin :: "GroupPane \<Rightarrow> GroupPane" where
  "click_pin s =
     (if canAdmin s \<and> hp_busy s = None \<and> trim (hp_pinText s) \<noteq> [] then run_action ''pin'' DoPin (R_groupPin (hp_gid s) (trim (hp_pinText s))) s else s)"

definition click_unpin :: "string \<Rightarrow> GroupPane \<Rightarrow> GroupPane" where
  "click_unpin i s = (if canAdmin s \<and> hp_busy s = None then run_action (''unpin:'' @ i) DoUnpin (R_groupUnpin (hp_gid s) i) s else s)"

definition click_approve :: "string \<Rightarrow> GroupPane \<Rightarrow> GroupPane" where
  "click_approve fp s =
     (if home_role s = RoleOwner \<and> fp \<in> gap_fp ` set (home_applications s) \<and> hp_busy s = None
      then run_action (''approve:'' @ fp) DoApprove (R_groupApprove (hp_gid s) fp) s else s)"

definition click_reject :: "string \<Rightarrow> GroupPane \<Rightarrow> GroupPane" where
  "click_reject fp s =
     (if home_role s = RoleOwner \<and> fp \<in> gap_fp ` set (home_applications s) \<and> hp_busy s = None
      then run_action (''reject:'' @ fp) DoReject (R_groupApplicationReject (hp_gid s) fp) s else s)"

definition manageable :: "string \<Rightarrow> GroupPane \<Rightarrow> bool" where
  "manageable fp s \<longleftrightarrow> home_role s = RoleOwner \<and> fp \<noteq> hp_ownerFp s \<and> fp \<in> gm_fp ` set (home_members s) \<and> hp_busy s = None"

definition admins_profile :: "string list \<Rightarrow> GroupPane \<Rightarrow> GroupProfile" where
  "admins_profile admins s =
     al_set ''admins'' (JArr (map JStr admins)) (case home_profile s of Some p \<Rightarrow> p | None \<Rightarrow> [(''speakHumans'', JBool True), (''speakAgents'', JBool True)])"

definition click_admin :: "string \<Rightarrow> GroupPane \<Rightarrow> GroupPane" where
  "click_admin fp s =
     (let admins = list_field (home_profile s) ''admins''; new = (if fp \<in> set admins then filter (\<lambda>a. a \<noteq> fp) admins else admins @ [fp])
      in if manageable fp s then run_action (''admin:'' @ fp) DoAdmins (R_groupSetProfile (hp_gid s) (JObj (admins_profile new s))) s else s)"

definition click_kick :: "string \<Rightarrow> GroupPane \<Rightarrow> GroupPane" where
  "click_kick fp s =
     (if manageable fp s then confirmThen (''kick:'' @ fp) (\<lambda>t. run_action (''kick:'' @ fp) DoKick (R_groupKick (hp_gid t) fp) t) s else s)"

definition click_leave :: "GroupPane \<Rightarrow> GroupPane" where
  "click_leave s =
     (if home_role s \<noteq> RoleOwner \<and> hp_busy s = None
      then confirmThen ''leave'' (\<lambda>t. run_action ''leave'' DoLeave (R_groupLeave (hp_gid t)) t) s else s)"

definition click_invite :: "GroupPane \<Rightarrow> GroupPane" where
  "click_invite s =
     (if canAdmin s \<and> hp_busy s = None \<and> hp_inviteFp s \<noteq> [] then run_action ''invite'' DoInvite (R_groupInvite (hp_gid s) (hp_inviteFp s)) s else s)"

section \<open>The profile editor\<close>

definition edit_form :: "GroupProfile option \<Rightarrow> group_form" where
  "edit_form p =
     (let marker = paidJoinFromRules (str_opt (field p ''rules'')) in
      \<lparr>gf_speakHumans = bool_field p ''speakHumans'' True, gf_speakAgents = bool_field p ''speakAgents'' True, gf_speakWho = text_field p ''speakWho'' ''all'',
       gf_join = (if str_opt (field p ''join'') = Some ''paid'' then ''paid'' else if marker \<noteq> None then ''paid'' else text_field p ''join'' ''invite''),
       gf_joinPrice = text_field p ''joinPrice'' (case marker of Some m \<Rightarrow> pj_price m | None \<Rightarrow> []),
       gf_agentWake = text_field p ''agentWake'' ''mention'', gf_agentTier = text_field p ''agentTier'' ''draft'', gf_rules = text_field p ''rules'' [],
       gf_isPublic = bool_field p ''public'' False, gf_tags = join_with '', '' (list_field p ''tags'')\<rparr>)"

definition openEditor :: "GroupPane \<Rightarrow> GroupPane" where
  "openEditor s = (if home_role s = RoleOwner \<and> \<not> hp_editOpen s then s\<lparr>hp_edit := edit_form (home_profile s), hp_editOpen := True\<rparr> else s)"

definition edited_profile :: "GroupProfile option \<Rightarrow> string option \<Rightarrow> group_form \<Rightarrow> GroupProfile" where
  "edited_profile p wallet f =
     spread (case p of Some m \<Rightarrow> m | None \<Rightarrow> [])
       ([(''speakHumans'', JBool (gf_speakHumans f)), (''speakAgents'', JBool (gf_speakAgents f)), (''speakWho'', JStr (gf_speakWho f)),
         (''join'', JStr (gf_join f)), (''agentWake'', JStr (gf_agentWake f)), (''agentTier'', JStr (gf_agentTier f)), (''rules'', JStr (gf_rules f))] @
        (case wallet of
           Some w \<Rightarrow> (if gf_join f = ''paid'' \<and> trim (gf_joinPrice f) \<noteq> [] then [(''joinPrice'', JStr (trim (gf_joinPrice f))), (''joinAddr'', JStr w)] else [])
         | None \<Rightarrow> []) @
        [(''public'', JBool (gf_isPublic f)), (''tags'', JArr (map JStr (tag_list (gf_tags f))))])"

definition saveProfile :: "(string \<Rightarrow> string) \<Rightarrow> GroupPane \<Rightarrow> GroupPane" where
  "saveProfile texts s =
     (let f = hp_edit s in
      if \<not> hp_editOpen s \<or> hp_busy s \<noteq> None \<or> (\<not> gf_speakHumans f \<and> \<not> gf_speakAgents f) then s
      else if gf_join f = ''paid'' \<and> trim (gf_joinPrice f) = [] then s\<lparr>hp_error := Some (texts ''group.form.join.paid.priceRequired'')\<rparr>
      else if gf_join f = ''paid'' \<and> trim (gf_joinPrice f) \<noteq> [] \<and> hp_walletAddress s = None then s\<lparr>hp_error := Some (texts ''group.form.join.paid.noWallet'')\<rparr>
      else run_action ''profile.save'' DoSave (R_groupSetProfile (hp_gid s) (JObj (edited_profile (home_profile s) (hp_walletAddress s) f))) s)"

section \<open>Histories\<close>

datatype home_event =
    ShowGroup string bool string "GroupProfile option" bool | ManagementTab | InfoAnswer nat "string + GroupInfo" | RunAnswer "string + GroupInfo option"
  | ConfirmFires nat | TypePin string | PickInvite string | HaveWallet "string option" | EditForm group_form | OpenEditor | CloseEditor
  | ClickPin | ClickUnpin string | ClickApprove string | ClickReject string | ClickAdmin string | ClickKick string | ClickLeave | ClickInvite | ClickSave

fun home_step :: "(string \<Rightarrow> string) \<Rightarrow> home_event \<Rightarrow> GroupPane \<Rightarrow> GroupPane" where
  "home_step tx (ShowGroup gid mine ownerFp p loaded) s = show_group gid mine ownerFp p loaded s"
| "home_step tx ManagementTab s = management_tab s"
| "home_step tx (InfoAnswer i r) s = info_answer i r s"
| "home_step tx (RunAnswer r) s = run_answer_home r s"
| "home_step tx (ConfirmFires i) s = confirm_fires i s"
| "home_step tx (TypePin t) s = s\<lparr>hp_pinText := t\<rparr>"
| "home_step tx (PickInvite fp) s = s\<lparr>hp_inviteFp := fp\<rparr>"
| "home_step tx (HaveWallet w) s = s\<lparr>hp_walletAddress := w\<rparr>"
| "home_step tx (EditForm f) s = s\<lparr>hp_edit := f\<rparr>"
| "home_step tx OpenEditor s = openEditor s"
| "home_step tx CloseEditor s = s\<lparr>hp_editOpen := False\<rparr>"
| "home_step tx ClickPin s = click_pin s"
| "home_step tx (ClickUnpin i) s = click_unpin i s"
| "home_step tx (ClickApprove fp) s = click_approve fp s"
| "home_step tx (ClickReject fp) s = click_reject fp s"
| "home_step tx (ClickAdmin fp) s = click_admin fp s"
| "home_step tx (ClickKick fp) s = click_kick fp s"
| "home_step tx ClickLeave s = click_leave s"
| "home_step tx ClickInvite s = click_invite s"
| "home_step tx ClickSave s = saveProfile tx s"

definition home_run :: "(string \<Rightarrow> string) \<Rightarrow> home_event list \<Rightarrow> GroupPane \<Rightarrow> GroupPane" where
  "home_run tx evs s = fold (home_step tx) evs s"

section \<open>Removals take two clicks\<close>

lemma log_home_fields [simp]:
  "hp_gid (log_home l s) = hp_gid s" "hp_confirming (log_home l s) = hp_confirming s" "hp_busy (log_home l s) = hp_busy s"
  "hp_run (log_home l s) = hp_run s" "hp_log (log_home l s) = hp_log s @ [l]" "hp_info (log_home l s) = hp_info s"
  by (simp_all add: log_home_def)

lemma run_action_fields [simp]:
  "hp_gid (run_action k a r s) = hp_gid s" "hp_confirming (run_action k a r s) = hp_confirming s" "hp_busy (run_action k a r s) = Some k"
  "hp_run (run_action k a r s) = Some (hp_gid s, Acting a)" "hp_log (run_action k a r s) = hp_log s @ [HRequest r]"
  by (simp_all add: run_action_def)

lemma info_arrived_fields [simp]:
  "hp_gid (info_arrived gid g b s) = hp_gid s" "hp_confirming (info_arrived gid g b s) = hp_confirming s" "hp_log (info_arrived gid g b s) = hp_log s"
  "hp_busy (info_arrived gid g b s) = hp_busy s" "hp_run (info_arrived gid g b s) = hp_run s"
  by (simp_all add: info_arrived_def)

lemma action_done_fields [simp]:
  "hp_gid (action_done a s) = hp_gid s" "hp_confirming (action_done a s) = hp_confirming s" "hp_busy (action_done a s) = hp_busy s"
  "hp_run (action_done a s) = hp_run s"
  by (cases a; simp add: action_done_def)+

text \<open>The button of a removal, by the key it is armed under.\<close>

fun removal_key :: "home_event \<Rightarrow> string option" where
  "removal_key (ClickKick fp) = Some (''kick:'' @ fp)"
| "removal_key ClickLeave = Some ''leave''"
| "removal_key _ = None"

fun removal_request :: "string \<Rightarrow> home_event \<Rightarrow> api_request option" where
  "removal_request gid (ClickKick fp) = Some (R_groupKick gid fp)"
| "removal_request gid ClickLeave = Some (R_groupLeave gid)"
| "removal_request _ _ = None"

definition is_removal :: "api_request \<Rightarrow> bool" where
  "is_removal r \<longleftrightarrow> (\<exists>gid fp. r = R_groupKick gid fp) \<or> (\<exists>gid. r = R_groupLeave gid)"

text \<open>What a step adds to the log.\<close>

definition sends :: "(string \<Rightarrow> string) \<Rightarrow> home_event \<Rightarrow> GroupPane \<Rightarrow> home_log list" where
  "sends tx e s = drop (length (hp_log s)) (hp_log (home_step tx e s))"

lemmas home_ops = show_group_def fetch_info_def management_tab_def info_answer_def run_answer_home_def confirm_fires_def openEditor_def click_pin_def
  click_unpin_def click_approve_def click_reject_def click_admin_def click_kick_def click_leave_def click_invite_def saveProfile_def confirmThen_def

lemma removal_when_armed:
  assumes "HRequest r \<in> set (sends tx e s)" "is_removal r"
  shows "removal_request (hp_gid s) e = Some r \<and> hp_confirming s = removal_key e"
  using assms by (cases e)
    (auto simp: sends_def home_ops is_removal_def Let_def action_done_def split: if_splits option.splits prod.splits home_phase.splits sum.splits home_action.splits)

text \<open>A step arms a button by a click on it that sends nothing, or leaves it armed, and then the group is the same.\<close>

lemma armed_by_click:
  assumes "hp_confirming (home_step tx e s) = Some k"
  shows "(removal_key e = Some k \<and> sends tx e s = [] \<or> hp_confirming s = Some k) \<and> hp_gid (home_step tx e s) = hp_gid s"
  using assms by (cases e)
    (auto simp: sends_def home_ops Let_def split: if_splits option.splits prod.splits home_phase.splits sum.splits)

lemma home_run_snoc: "home_run tx (evs @ [e]) s = home_step tx e (home_run tx evs s)"
  by (simp add: home_run_def)

text \<open>An armed button was armed by a click, and has been armed since.\<close>

lemma armed_since:
  assumes "hp_confirming s0 = None" "hp_confirming (home_run tx evs s0) = Some k"
  shows "\<exists>before e after. evs = before @ e # after \<and> removal_key e = Some k \<and> sends tx e (home_run tx before s0) = [] \<and>
    (\<forall>n \<le> length after. hp_confirming (home_run tx (before @ e # take n after) s0) = Some k) \<and>
    hp_gid (home_run tx before s0) = hp_gid (home_run tx evs s0)"
  using assms(2)
proof (induction evs rule: rev_induct)
  case Nil
  then show ?case using assms(1) by (simp add: home_run_def)
next
  case (snoc x evs)
  then have armed: "hp_confirming (home_step tx x (home_run tx evs s0)) = Some k" by (simp add: home_run_snoc)
  note step = armed_by_click [OF armed]
  show ?case
  proof (cases "removal_key x = Some k \<and> sends tx x (home_run tx evs s0) = []")
    case True
    then show ?thesis using snoc.prems step
      by (rule_tac exI [of _ evs], rule_tac exI [of _ x], rule_tac exI [of _ "[]"]) (simp add: home_run_snoc)
  next
    case False
    then have "hp_confirming (home_run tx evs s0) = Some k" using step by blast
    from snoc.IH [OF this] obtain before e after where b: "evs = before @ e # after" "removal_key e = Some k"
        "sends tx e (home_run tx before s0) = []" "\<forall>n \<le> length after. hp_confirming (home_run tx (before @ e # take n after) s0) = Some k"
        "hp_gid (home_run tx before s0) = hp_gid (home_run tx evs s0)" by blast
    have "hp_confirming (home_run tx (before @ e # take n (after @ [x])) s0) = Some k" if "n \<le> length (after @ [x])" for n
      using that b(1,4) snoc.prems by (cases "n \<le> length after") (auto simp: le_Suc_eq)
    moreover have "evs @ [x] = before @ e # (after @ [x])" using b(1) by simp
    moreover have "hp_gid (home_run tx before s0) = hp_gid (home_run tx (evs @ [x]) s0)" using b(5) step by (simp add: home_run_snoc)
    ultimately show ?thesis using b(2,3) by blast
  qed
qed

text \<open>
  C38. Nobody is removed by one click: in every history of the group home, a request to kick a member or to leave the group
  is sent only by a click on the button of that removal, in the group it is about, after an earlier click on the same
  button in the same group which sent nothing, and the button was shown as armed all the time between the two.
\<close>

theorem removal_needs_two_clicks:
  assumes "hp_confirming s0 = None" "is_removal r" "HRequest r \<in> set (sends tx e (home_run tx evs s0))"
  shows "removal_request (hp_gid (home_run tx evs s0)) e = Some r \<and>
    (\<exists>before after. evs = before @ e # after \<and> sends tx e (home_run tx before s0) = [] \<and>
       hp_gid (home_run tx before s0) = hp_gid (home_run tx evs s0) \<and>
       (\<forall>n \<le> length after. hp_confirming (home_run tx (before @ e # take n after) s0) = removal_key e))"
proof -
  note r = removal_when_armed [OF assms(3,2)]
  then obtain k where k: "removal_key e = Some k" using assms(2) by (cases e) auto
  then obtain before e' after where b: "evs = before @ e' # after" "removal_key e' = Some k" "sends tx e' (home_run tx before s0) = []"
      "\<forall>n \<le> length after. hp_confirming (home_run tx (before @ e' # take n after) s0) = Some k"
      "hp_gid (home_run tx before s0) = hp_gid (home_run tx evs s0)"
    using armed_since [OF assms(1), of tx evs k] r by auto
  have "e' = e" using k b(2) by (cases e; cases e') auto
  then show ?thesis using r k b by auto
qed

definition some_group :: "string \<Rightarrow> GroupProfile \<Rightarrow> GroupInfo" where
  "some_group gid p =
     \<lparr>gi_gid = gid, gi_name = gid, gi_ownerFp = ''me'', gi_mine = True, gi_version = 1, gi_members = 2, gi_unread = 0, gi_count = 0, gi_lastTs = None,
      gi_lastBody = None, gi_profile = Some p, gi_memberList = [\<lparr>gm_fp = ''me'', gm_name = ''Me'', gm_agents = None\<rparr>, \<lparr>gm_fp = ''fp2'', gm_name = ''Bob'', gm_agents = None\<rparr>],
      gi_pins = [], gi_myRole = ''owner'', gi_applications = None\<rparr>"

definition home_of :: "string \<Rightarrow> GroupInfo \<Rightarrow> GroupPane" where
  "home_of gid g =
     \<lparr>hp_gid = gid, hp_mine = True, hp_ownerFp = ''me'', hp_rowProfile = None, hp_myFp = Some ''me'', hp_infoCache = [(gid, g)], hp_info = Some g,
      hp_busy = None, hp_run = None, hp_error = None, hp_pinText = [], hp_inviteFp = [], hp_editOpen = False, hp_edit = cd_adv new_GroupCreateDialog,
      hp_walletAddress = None, hp_confirming = None, hp_timers = [], hp_fetches = [], hp_log = []\<rparr>"

theorem removal_needs_two_clicks_witness:
  "let s0 = home_of ''g1'' (some_group ''g1'' []); evs = [ClickKick ''fp2'', TypePin ''x''] in
   removal_request (hp_gid (home_run id evs s0)) (ClickKick ''fp2'') = Some (R_groupKick ''g1'' ''fp2'') \<and>
    (\<exists>before after. evs = before @ ClickKick ''fp2'' # after \<and> sends id (ClickKick ''fp2'') (home_run id before s0) = [] \<and>
       hp_gid (home_run id before s0) = hp_gid (home_run id evs s0) \<and>
       (\<forall>n \<le> length after. hp_confirming (home_run id (before @ ClickKick ''fp2'' # take n after) s0) = removal_key (ClickKick ''fp2'')))"
  unfolding Let_def
proof (rule removal_needs_two_clicks)
  show "HRequest (R_groupKick ''g1'' ''fp2'') \<in>
      set (sends id (ClickKick ''fp2'') (home_run id [ClickKick ''fp2'', TypePin ''x''] (home_of ''g1'' (some_group ''g1'' []))))"
    by (simp add: sends_def home_run_def home_ops manageable_def home_role_def role_named_def home_members_def home_of_def some_group_def)
qed (simp_all add: home_of_def is_removal_def)

text \<open>One action at a time: the buttons are disabled exactly while an action is being carried out.\<close>

lemma busy_while_running:
  assumes "hp_busy s0 \<noteq> None \<longleftrightarrow> hp_run s0 \<noteq> None"
  shows "hp_busy (home_run tx evs s0) \<noteq> None \<longleftrightarrow> hp_run (home_run tx evs s0) \<noteq> None"
proof (induction evs rule: rev_induct)
  case Nil
  then show ?case using assms by (simp add: home_run_def)
next
  case (snoc e evs)
  then show ?case unfolding home_run_snoc
    by (cases e) (auto simp: home_ops Let_def split: if_splits option.splits prod.splits home_phase.splits sum.splits)
qed

section \<open>What is chosen is what is enforced\<close>

lemma spread_get: "al_get (spread a b) = al_get a ++ map_of (rev b)"
proof -
  have "al_get (fold (\<lambda>(k, v). al_set k v) b a) = al_get a ++ map_of (rev b)"
    by (induction b arbitrary: a) (auto simp: map_add_def fun_eq_iff split: option.splits)
  then show ?thesis by (simp add: spread_def)
qed

text \<open>The choices the selects of the form offer.\<close>

definition form_ok :: "group_form \<Rightarrow> bool" where
  "form_ok f \<longleftrightarrow> gf_speakWho f \<in> {''all'', ''owner'', ''admins''} \<and> gf_join f \<in> {''invite'', ''apply'', ''open'', ''paid''} \<and>
     gf_agentWake f \<in> {''mention'', ''always'', ''never''} \<and> gf_agentTier f \<in> {''notify'', ''draft'', ''auto''}"

fun who_text :: "speak_who \<Rightarrow> string" where
  "who_text SpeakAll = ''all''" | "who_text SpeakOwner = ''owner''" | "who_text SpeakAdmins = ''admins''"

fun join_text :: "join_policy \<Rightarrow> string" where
  "join_text JoinInvite = ''invite''" | "join_text JoinApply = ''apply''" | "join_text JoinOpen = ''open''" | "join_text JoinPaid = ''paid''"

fun wake_text :: "GroupAgentWake \<Rightarrow> string" where
  "wake_text WMention = ''mention''" | "wake_text WAlways = ''always''" | "wake_text WNever = ''never''"

fun tier_text :: "ReplyTier \<Rightarrow> string" where
  "tier_text Notify = ''notify''" | "tier_text Draft = ''draft''" | "tier_text Auto = ''auto''"

definition enforces :: "group_form \<Rightarrow> GroupProfileView \<Rightarrow> bool" where
  "enforces f v \<longleftrightarrow> gpv_speakHumans v = gf_speakHumans f \<and> gpv_speakAgents v = gf_speakAgents f \<and> who_text (gpv_speakWho v) = gf_speakWho f \<and>
     wake_text (gpv_agentWake v) = gf_agentWake f \<and> tier_text (gpv_agentTier v) = gf_agentTier f"

text \<open>Price and address that newcomers of a group with this profile are asked for.\<close>

definition asks_for :: "GroupProfile \<Rightarrow> PaidJoinInfo option" where
  "asks_for q = paidJoinConfig (Some \<lparr>pp_joinPrice = str_opt (al_get q ''joinPrice''), pp_joinAddr = str_opt (al_get q ''joinAddr''),
     pp_rules = str_opt (al_get q ''rules''), pp_join = str_opt (al_get q ''join'')\<rparr>)"

lemma asks_for_config: "gi_profile g = Some q \<Longrightarrow> paid_config_of g = asks_for q"
  by (simp add: paid_config_of_def asks_for_def)

text \<open>What the host makes of an object that carries the fields of a form.\<close>

definition carries :: "group_form \<Rightarrow> GroupProfile \<Rightarrow> bool" where
  "carries f q \<longleftrightarrow> al_get q ''speakHumans'' = Some (JBool (gf_speakHumans f)) \<and> al_get q ''speakAgents'' = Some (JBool (gf_speakAgents f)) \<and>
     al_get q ''speakWho'' = js (gf_speakWho f) \<and> al_get q ''agentWake'' = js (gf_agentWake f) \<and> al_get q ''agentTier'' = js (gf_agentTier f) \<and>
     al_get q ''join'' = js (gf_join f)"

lemma host_keeps:
  assumes "carries f q"
  shows "\<exists>q'. profile_of_body (Some (JObj q)) = Some q' \<and> al_get q' = al_get q"
  using assms by (simp add: profile_of_body_def carries_def fun_eq_iff)

lemma carried_enforced:
  assumes "carries f q" "form_ok f"
  shows "enforces f (normalizeGroupProfile (Some (JObj q)))"
    "paidJoinFromRules (Some (as_str (al_get q ''rules''))) = None \<Longrightarrow> gf_join f \<noteq> ''paid'' \<Longrightarrow>
       join_text (gpv_join (normalizeGroupProfile (Some (JObj q)))) = gf_join f"
  using assms by (auto simp: carries_def enforces_def form_ok_def normalizeGroupProfile_def normalizeGroupWake_def normalizeTier_def Let_def)

lemma no_rules_no_price: "paidJoinFromRules (str_opt r) = paidJoinFromRules (Some (as_str r))"
  by (cases r rule: str_opt.cases) (simp_all add: paidJoinFromRules_def)

lemma carried_price:
  assumes "carries f q"
  shows "gf_join f \<noteq> ''paid'' \<Longrightarrow> asks_for q = paidJoinFromRules (Some (as_str (al_get q ''rules'')))"
    "gf_join f = ''paid'' \<Longrightarrow> al_get q ''joinPrice'' = js price \<Longrightarrow> al_get q ''joinAddr'' = js w \<Longrightarrow> startsWith w ''0x'' \<Longrightarrow>
       asks_for q = Some \<lparr>pj_price = price, pj_addr = w\<rparr>"
  using assms by (auto simp: carries_def asks_for_def paidJoinConfig_def no_rules_no_price split: option.splits)

definition form_fields :: "string option \<Rightarrow> group_form \<Rightarrow> GroupProfile" where
  "form_fields wallet f =
     [(''speakHumans'', JBool (gf_speakHumans f)), (''speakAgents'', JBool (gf_speakAgents f)), (''speakWho'', JStr (gf_speakWho f)),
      (''join'', JStr (gf_join f)), (''agentWake'', JStr (gf_agentWake f)), (''agentTier'', JStr (gf_agentTier f)), (''rules'', JStr (gf_rules f))] @
     (case wallet of
        Some w \<Rightarrow> (if gf_join f = ''paid'' \<and> trim (gf_joinPrice f) \<noteq> [] then [(''joinPrice'', JStr (trim (gf_joinPrice f))), (''joinAddr'', JStr w)] else [])
      | None \<Rightarrow> []) @
     [(''public'', JBool (gf_isPublic f)), (''tags'', JArr (map JStr (tag_list (gf_tags f))))]"

lemma form_field_keys:
  "map fst (form_fields w f) = [''speakHumans'', ''speakAgents'', ''speakWho'', ''join'', ''agentWake'', ''agentTier'', ''rules''] @
     (if w \<noteq> None \<and> gf_join f = ''paid'' \<and> trim (gf_joinPrice f) \<noteq> [] then [''joinPrice'', ''joinAddr''] else []) @ [''public'', ''tags'']"
  by (cases w) (simp_all add: form_fields_def)

lemma form_fields_distinct: "distinct (map fst (form_fields w f))"
  unfolding form_field_keys by (cases "w \<noteq> None \<and> gf_join f = ''paid'' \<and> trim (gf_joinPrice f) \<noteq> []") (simp_all only: if_True if_False, code_simp+)

lemma edited_field: "al_get (edited_profile p w f) k = (case map_of (form_fields w f) k of Some v \<Rightarrow> Some v | None \<Rightarrow> field p k)"
proof -
  have "edited_profile p w f = spread (case p of Some m \<Rightarrow> m | None \<Rightarrow> []) (form_fields w f)" by (simp add: edited_profile_def form_fields_def)
  moreover have "map_of (rev (form_fields w f)) = map_of (form_fields w f)" using form_fields_distinct [of w f] by (subst map_of_inject_set) (simp_all add: rev_map [symmetric])
  ultimately show ?thesis by (simp add: spread_get map_add_def field_def split: option.split)
qed

lemma form_field_of: "(k, v) \<in> set (form_fields w f) \<Longrightarrow> al_get (edited_profile p w f) k = Some v"
  using form_fields_distinct [of w f] by (simp add: edited_field)

lemma edited_get:
  "carries f (edited_profile p w f)" "al_get (edited_profile p w f) ''rules'' = js (gf_rules f)"
  "k \<in> {''admins'', ''room'', ''autoPerHour'', ''agentRounds''} \<Longrightarrow> al_get (edited_profile p w f) k = field p k"
  "gf_join f = ''paid'' \<Longrightarrow> w = Some a \<Longrightarrow> trim (gf_joinPrice f) \<noteq> [] \<Longrightarrow>
     al_get (edited_profile p w f) ''joinPrice'' = js (trim (gf_joinPrice f)) \<and> al_get (edited_profile p w f) ''joinAddr'' = js a"
proof -
  show "carries f (edited_profile p w f)"
    unfolding carries_def by (intro conjI form_field_of) (simp_all add: form_fields_def)
  show "al_get (edited_profile p w f) ''rules'' = js (gf_rules f)" by (rule form_field_of) (simp add: form_fields_def)
  have other: "map_of (form_fields w f) k = None" if "k \<in> {''admins'', ''room'', ''autoPerHour'', ''agentRounds''}"
  proof -
    have "set (map fst (form_fields w f)) \<subseteq> {''speakHumans'', ''speakAgents'', ''speakWho'', ''join'', ''agentWake'', ''agentTier'', ''rules'',
        ''joinPrice'', ''joinAddr'', ''public'', ''tags''}"
      unfolding form_field_keys by (simp split: if_split) blast
    moreover have "{''admins'', ''room'', ''autoPerHour'', ''agentRounds''} \<inter> {''speakHumans'', ''speakAgents'', ''speakWho'', ''join'',
        ''agentWake'', ''agentTier'', ''rules'', ''joinPrice'', ''joinAddr'', ''public'', ''tags''} = {}" by code_simp
    ultimately have "k \<notin> set (map fst (form_fields w f))" using that by blast
    then show ?thesis by (simp add: map_of_eq_None_iff)
  qed
  show "al_get (edited_profile p w f) k = field p k" if "k \<in> {''admins'', ''room'', ''autoPerHour'', ''agentRounds''}"
    using other [OF that] by (simp add: edited_field)
  show "al_get (edited_profile p w f) ''joinPrice'' = js (trim (gf_joinPrice f)) \<and> al_get (edited_profile p w f) ''joinAddr'' = js a"
    if "gf_join f = ''paid''" "w = Some a" "trim (gf_joinPrice f) \<noteq> []"
    using that by (intro conjI form_field_of) (simp_all add: form_fields_def)
qed

lemma save_sends:
  assumes "HRequest r \<in> set (sends tx ClickSave s)"
  shows "r = R_groupSetProfile (hp_gid s) (JObj (edited_profile (home_profile s) (hp_walletAddress s) (hp_edit s)))"
    "gf_join (hp_edit s) = ''paid'' \<Longrightarrow> trim (gf_joinPrice (hp_edit s)) \<noteq> [] \<and> (\<exists>w. hp_walletAddress s = Some w)"
  using assms by (auto simp: sends_def saveProfile_def Let_def split: if_splits)

lemma normalize_cong: "al_get q = al_get q' \<Longrightarrow> normalizeGroupProfile (Some (JObj q)) = normalizeGroupProfile (Some (JObj q'))"
  by (simp add: normalizeGroupProfile_def)

lemma asks_for_cong: "al_get q = al_get q' \<Longrightarrow> asks_for q = asks_for q'"
  by (simp add: asks_for_def)

lemma rest_kept:
  assumes "\<And>k. k \<in> {''admins'', ''room'', ''autoPerHour'', ''agentRounds''} \<Longrightarrow> al_get q k = field p k"
  shows "let v = normalizeGroupProfile (Some (JObj q)); old = normalizeGroupProfile (map_option JObj p) in
    gpv_admins v = gpv_admins old \<and> gpv_room v = gpv_room old \<and> gpv_autoPerHour v = gpv_autoPerHour old \<and> gpv_agentRounds v = gpv_agentRounds old"
  using assms by (cases p) (simp_all add: normalizeGroupProfile_def field_def Let_def)


definition editing :: GroupPane where
  "editing = (home_of ''g1'' (some_group ''g1'' [(''admins'', JArr [JStr ''fp2''])]))
     \<lparr>hp_editOpen := True, hp_walletAddress := Some ''0xme'', hp_edit := (cd_adv new_GroupCreateDialog)\<lparr>gf_join := ''paid'', gf_joinPrice := ''1.00''\<rparr>\<rparr>"

lemma editing_saves:
  "form_ok (hp_edit editing)"
  "HRequest (R_groupSetProfile ''g1'' (JObj (edited_profile (home_profile editing) (Some ''0xme'') (hp_edit editing)))) \<in> set (sends id ClickSave editing)"
proof -
  have "trim ''1.00'' = ''1.00''" by code_simp
  then show "HRequest (R_groupSetProfile ''g1'' (JObj (edited_profile (home_profile editing) (Some ''0xme'') (hp_edit editing)))) \<in> set (sends id ClickSave editing)"
    by (simp add: sends_def saveProfile_def Let_def editing_def home_of_def new_GroupCreateDialog_def)
qed (simp add: form_ok_def editing_def new_GroupCreateDialog_def)


section \<open>New groups\<close>

lemma defined_set: "(k, j) \<in> set (defined_fields ovr) \<longleftrightarrow> (k, Some j) \<in> set ovr \<and> j \<noteq> JStr []"
  by (auto simp: defined_fields_def set_map_filter split: option.splits if_splits intro!: bexI [of _ "(k, Some j)"])

lemma defined_distinct: "distinct (map fst ovr) \<Longrightarrow> distinct (map fst (defined_fields ovr))"
proof (induction ovr)
  case (Cons o1 ovr)
  obtain k v where o1: "o1 = (k, v)" by fastforce
  have "k \<notin> fst ` set (defined_fields ovr)" using Cons.prems o1 by (force simp: defined_set)
  then show ?case using Cons o1 by (simp add: defined_fields_def map_filter_simps split: option.split)
qed (simp add: defined_fields_def map_filter_simps)

lemma template_get:
  assumes "distinct (map fst ovr)" "k \<noteq> ''template''"
  shows "(k, Some j) \<in> set ovr \<Longrightarrow> j \<noteq> JStr [] \<Longrightarrow> al_get (templateProfile i ovr) k = Some j"
    "k \<notin> set (map fst ovr) \<Longrightarrow> al_get (templateProfile i ovr) k = al_get (gt_profile (templateById i)) k"
proof -
  note d = defined_distinct [OF assms(1)]
  have rev: "map_of (rev (defined_fields ovr)) = map_of (defined_fields ovr)"
    using d by (subst map_of_inject_set) (simp_all add: rev_map [symmetric])
  have get: "al_get (templateProfile i ovr) k = (al_get (gt_profile (templateById i)) ++ map_of (defined_fields ovr)) k"
    using assms(2) by (simp add: templateProfile_def spread_get rev)
  show "al_get (templateProfile i ovr) k = Some j" if "(k, Some j) \<in> set ovr" "j \<noteq> JStr []"
    using that d unfolding get by (simp add: map_add_Some_iff map_of_is_SomeI defined_set)
  show "al_get (templateProfile i ovr) k = al_get (gt_profile (templateById i)) k" if "k \<notin> set (map fst ovr)"
  proof -
    have "k \<notin> fst ` set (defined_fields ovr)" using that by (force simp: defined_set)
    then have "map_of (defined_fields ovr) k = None" by (simp add: map_of_eq_None_iff)
    then show ?thesis unfolding get by (simp add: map_add_def)
  qed
qed

lemma override_keys:
  "map fst (form_overrides w f) = [''speakHumans'', ''speakAgents'', ''speakWho'', ''join'', ''agentWake'', ''agentTier''] @
     (if trim (gf_rules f) = [] then [] else [''rules'']) @
     (if gf_join f = ''paid'' \<and> w \<noteq> None \<and> trim (gf_joinPrice f) \<noteq> [] then [''joinPrice'', ''joinAddr''] else []) @
     (if gf_isPublic f then [''public''] else []) @ (if tag_list (gf_tags f) = [] then [] else [''tags''])"
  by (simp add: form_overrides_def Let_def)

lemma overrides_distinct: "distinct (map fst (form_overrides w f))"
proof -
  have "distinct ([''speakHumans'', ''speakAgents'', ''speakWho'', ''join'', ''agentWake'', ''agentTier''] @ (if a then [] else [''rules'']) @
      (if b then [''joinPrice'', ''joinAddr''] else []) @ (if c then [''public''] else []) @ (if d then [] else [''tags'']))" for a b c d
    by (cases a; cases b; cases c; cases d; simp only: if_True if_False; code_simp)
  then show ?thesis unfolding override_keys .
qed

lemma created_fields:
  assumes "form_ok f" "q = templateProfile ''standard'' (form_overrides w f)"
  shows "carries f q" "as_str (al_get q ''rules'') = (if trim (gf_rules f) = [] then [] else gf_rules f)"
    "al_get q ''autoPerHour'' = Some (int_json 10)" "al_get q ''agentRounds'' = Some (int_json 3)"
    "gf_join f = ''paid'' \<Longrightarrow> w = Some a \<Longrightarrow> a \<noteq> [] \<Longrightarrow> trim (gf_joinPrice f) \<noteq> [] \<Longrightarrow>
       al_get q ''joinPrice'' = js (trim (gf_joinPrice f)) \<and> al_get q ''joinAddr'' = js a"
proof -
  note given = template_get(1) [OF overrides_distinct [of w f], of _ _ "''standard''", folded assms(2)]
  note kept = template_get(2) [OF overrides_distinct [of w f], of _ "''standard''", folded assms(2)]
  have ne: "gf_speakWho f \<noteq> []" "gf_join f \<noteq> []" "gf_agentWake f \<noteq> []" "gf_agentTier f \<noteq> []" using assms(1) by (auto simp: form_ok_def)
  show "carries f q"
    unfolding carries_def by (intro conjI given) (simp_all add: form_overrides_def Let_def ne)
  show "as_str (al_get q ''rules'') = (if trim (gf_rules f) = [] then [] else gf_rules f)"
  proof (cases "trim (gf_rules f) = []")
    case True
    have "''rules'' \<notin> set (map fst (form_overrides w f))" unfolding override_keys using True by (simp split: if_split)
    moreover have "al_get (gt_profile (templateById ''standard'')) ''rules'' = None" by code_simp
    ultimately show ?thesis using kept [of "''rules''"] True by simp
  next
    case False
    then have "gf_rules f \<noteq> []" by auto
    then have "al_get q ''rules'' = js (gf_rules f)" using False by (intro given) (simp_all add: form_overrides_def Let_def)
    then show ?thesis using False by simp
  qed
  have std: "al_get (gt_profile (templateById ''standard'')) ''autoPerHour'' = Some (int_json 10)"
    "al_get (gt_profile (templateById ''standard'')) ''agentRounds'' = Some (int_json 3)" by code_simp+
  have "''autoPerHour'' \<notin> set (map fst (form_overrides w f))" "''agentRounds'' \<notin> set (map fst (form_overrides w f))"
    unfolding override_keys by (simp_all split: if_split)
  then show "al_get q ''autoPerHour'' = Some (int_json 10)" "al_get q ''agentRounds'' = Some (int_json 3)" using kept std by simp_all
  show "al_get q ''joinPrice'' = js (trim (gf_joinPrice f)) \<and> al_get q ''joinAddr'' = js a"
    if "gf_join f = ''paid''" "w = Some a" "a \<noteq> []" "trim (gf_joinPrice f) \<noteq> []"
    using that by (intro conjI given) (simp_all add: form_overrides_def Let_def)
qed

text \<open>
  A new group is what its form says: the dialog hands over a group only with a name, a member and, when joining is paid,
  a price and a wallet; from the object the host makes of its profile everything is read as chosen, with the standard
  limits for agents, and newcomers are asked for exactly the price typed, at the owner's wallet, or for nothing.
\<close>

theorem created_profile_enforced:
  assumes "form_ok (cd_adv d)" "submit_group busy wallet d = Some (name, members, q0)"
  shows "\<not> busy \<and> name = trim (cd_name d) \<and> name \<noteq> [] \<and> members \<noteq> [] \<and> set members = {fp. (fp, True) \<in> set (cd_sel d)} \<and>
    (\<exists>q. profile_of_body (Some (JObj q0)) = Some q \<and>
      (let f = cd_adv d; v = normalizeGroupProfile (Some (JObj q)) in
       enforces f v \<and> gpv_autoPerHour v = 10 \<and> gpv_agentRounds v = 3 \<and> gpv_rules v = (if trim (gf_rules f) = [] then [] else gf_rules f) \<and>
       (gf_join f \<noteq> ''paid'' \<and> paidJoinFromRules (Some (gpv_rules v)) = None \<longrightarrow> join_text (gpv_join v) = gf_join f \<and> asks_for q = None) \<and>
       (gf_join f = ''paid'' \<longrightarrow> (\<exists>w. wallet = Some w \<and>
          (startsWith w ''0x'' \<longrightarrow> asks_for q = Some \<lparr>pj_price = trim (gf_joinPrice f), pj_addr = w\<rparr>)))))"
proof -
  let ?f = "cd_adv d" and ?v = "normalizeGroupProfile (Some (JObj q0))"
  have s: "create_ready busy wallet d" "name = trim (cd_name d)" "members = chosen_members d" "q0 = templateProfile ''standard'' (form_overrides wallet ?f)"
    using assms(2) by (auto simp: submit_group_def split: if_splits)
  note c = created_fields [OF assms(1) s(4)]
  obtain q where q: "profile_of_body (Some (JObj q0)) = Some q" "al_get q = al_get q0" using host_keeps [OF c(1)] by blast
  note v = normalize_cong [OF q(2)] and a = asks_for_cong [OF q(2)]
  have rules: "gpv_rules ?v = (if trim (gf_rules ?f) = [] then [] else gf_rules ?f)" using c(2) by (simp add: normalizeGroupProfile_def Let_def)
  have raw: "gpv_rules ?v = as_str (al_get q0 ''rules'')" by (simp add: normalizeGroupProfile_def Let_def)
  have limits: "gpv_autoPerHour ?v = 10" "gpv_agentRounds ?v = 3" using c(3,4) by (simp_all add: normalizeGroupProfile_def positive_floor_def Let_def)
  have join: "gf_join ?f \<noteq> ''paid'' \<and> paidJoinFromRules (Some (gpv_rules ?v)) = None \<longrightarrow> join_text (gpv_join ?v) = gf_join ?f \<and> asks_for q0 = None"
    using carried_enforced(2) [OF c(1) assms(1)] carried_price(1) [OF c(1)] unfolding raw by simp
  have paid: "\<exists>w. wallet = Some w \<and> (startsWith w ''0x'' \<longrightarrow> asks_for q0 = Some \<lparr>pj_price = trim (gf_joinPrice ?f), pj_addr = w\<rparr>)"
    if p: "gf_join ?f = ''paid''"
  proof -
    obtain w where w: "wallet = Some w" "trim (gf_joinPrice ?f) \<noteq> []" using s(1) p by (auto simp: create_ready_def paidIncomplete_def)
    have "asks_for q0 = Some \<lparr>pj_price = trim (gf_joinPrice ?f), pj_addr = w\<rparr>" if x: "startsWith w ''0x''"
    proof -
      have "w \<noteq> []" using x by (auto simp: startsWith_def)
      from c(5) [OF p w(1) this w(2)] show ?thesis using carried_price(2) [OF c(1) p _ _ x] by blast
    qed
    then show ?thesis using w(1) by blast
  qed
  have "\<not> busy" "name \<noteq> []" "members \<noteq> []" "set members = {fp. (fp, True) \<in> set (cd_sel d)}"
    using s(1-3) by (force simp: create_ready_def chosen_members_def)+
  then show ?thesis using s(2) q(1) carried_enforced(1) [OF c(1) assms(1)] limits rules join paid unfolding Let_def v [symmetric] a [symmetric] by blast
qed

definition some_dialog :: GroupCreateDialog where
  "some_dialog = pick_member ''fp2'' True (new_GroupCreateDialog\<lparr>cd_name := ''Reading'', cd_adv := choose_join ''apply'' (cd_adv new_GroupCreateDialog)\<rparr>)"

theorem created_profile_enforced_witness:
  "\<exists>q. profile_of_body (Some (JObj (templateProfile ''standard'' (form_overrides None (cd_adv some_dialog))))) = Some q \<and>
     join_text (gpv_join (normalizeGroupProfile (Some (JObj q)))) = ''apply'' \<and> asks_for q = None"
proof -
  have f: "cd_adv some_dialog = (cd_adv new_GroupCreateDialog)\<lparr>gf_join := ''apply''\<rparr>"
    by (simp add: some_dialog_def pick_member_def choose_join_def new_GroupCreateDialog_def)
  have ok: "form_ok (cd_adv some_dialog)" unfolding f by (simp add: form_ok_def new_GroupCreateDialog_def)
  have "trim ''Reading'' = ''Reading''" by code_simp
  then have "submit_group False None some_dialog = Some (''Reading'', [''fp2''], templateProfile ''standard'' (form_overrides None (cd_adv some_dialog)))"
    by (simp add: submit_group_def create_ready_def paidIncomplete_def chosen_members_def some_dialog_def pick_member_def choose_join_def new_GroupCreateDialog_def)
  from created_profile_enforced [OF ok this] obtain q where
      q: "profile_of_body (Some (JObj (templateProfile ''standard'' (form_overrides None (cd_adv some_dialog))))) = Some q"
        "gpv_rules (normalizeGroupProfile (Some (JObj q))) = (if trim (gf_rules (cd_adv some_dialog)) = [] then [] else gf_rules (cd_adv some_dialog))"
        "gf_join (cd_adv some_dialog) \<noteq> ''paid'' \<and> paidJoinFromRules (Some (gpv_rules (normalizeGroupProfile (Some (JObj q))))) = None \<longrightarrow>
           join_text (gpv_join (normalizeGroupProfile (Some (JObj q)))) = gf_join (cd_adv some_dialog) \<and> asks_for q = None"
    unfolding Let_def by blast
  have "gf_rules (cd_adv some_dialog) = []" "gf_join (cd_adv some_dialog) = ''apply''" unfolding f by (simp_all add: new_GroupCreateDialog_def)
  then show ?thesis using q by (intro exI [of _ q]) (simp add: paidJoinFromRules_def)
qed

section \<open>What the group home gets wrong\<close>

text \<open>
  The marker of a price stays in the rules the editor shows and saves. Choosing another way of joining has no effect on
  such a group: it stays paid.
\<close>

lemma marker_keeps_price:
  assumes "paidJoinFromRules (Some rules) = Some i" "al_get p ''rules'' = js rules" "v \<noteq> ''paid''" "f = choose_join v (edit_form (Some p))"
  shows "asks_for (edited_profile (Some p) w f) = Some i"
    "gpv_join (normalizeGroupProfile (Some (JObj (edited_profile (Some p) w f)))) = JoinPaid"
proof -
  have r: "gf_rules f = rules" "gf_join f = v" using assms(2,4) by (simp_all add: choose_join_def edit_form_def Let_def text_field_def field_def opt_or_def)
  note get = edited_get(2) [of "Some p" w f]
  show "asks_for (edited_profile (Some p) w f) = Some i" using carried_price(1) [OF edited_get(1)] r assms(1,3) by (simp add: get)
  show "gpv_join (normalizeGroupProfile (Some (JObj (edited_profile (Some p) w f)))) = JoinPaid"
    using assms(1) r by (simp add: normalizeGroupProfile_def Let_def get)
qed

text \<open>
  The roster that is fetched after an action or on a management tab is shown whenever it comes, also when another group is
  shown by then. The owner of both groups who then saves the editor writes the profile of the first group into the second.
\<close>

lemma other_group_profile_saved:
  assumes "hp_fetches s = []" "hp_busy s = None" "hp_gid s = ''A''" "gi_myRole gA = ''owner''" "gi_profile gA = Some pA"
    "gf_join (edit_form (Some pA)) \<noteq> ''paid''" "gf_speakHumans (edit_form (Some pA))"
  shows "last (hp_log (home_run tx [ManagementTab, ShowGroup ''B'' True me pB True, InfoAnswer 1 (Inr gB), InfoAnswer 0 (Inr gA), OpenEditor, ClickSave] s)) =
    HRequest (R_groupSetProfile ''B'' (JObj (edited_profile (Some pA) (hp_walletAddress s) (edit_form (Some pA)))))"
  using assms by (simp add: home_run_def home_ops cancel_fetch_def info_arrived_def home_role_def role_named_def home_profile_def Let_def log_home_def run_action_def)

end
