(* ===== verification/Page_Notices.thy ===== *)
theory Page_Notices
  imports Session_Messages Inbox_State
begin

text \<open>
  What the page shows beside the threads: the bubbles of relayed messages in the host's own view of the alter's session
  (\<^verbatim>\<open>src/dsh/packages/dsh/src/client/a2a-node.ts\<close>) and the popup of extracted memories
  (\<^verbatim>\<open>client/MemoryNotification.tsx\<close>). The bubbles are composed with the messages the sessions service writes; the popup is a
  state machine over frames, timers and clicks. \<open>String(v)\<close> of a value that is no string is the parameter \<open>String_of\<close>.
  Lemmas: a bubble shows the mail that was delivered, memories are kept unless the owner cancels them, and the popup goes
  away.
\<close>

section \<open>Relayed messages\<close>

record session_event =
  sev_type :: string
  sev_data :: json
  sev_seq :: int
  sev_time :: rat

record A2AChatData =
  cn_id :: string
  cn_fp :: string
  cn_name :: string
  cn_body :: string
  cn_ts :: rat
  cn_auto :: bool
  cn_type :: "string option"
  cn_note :: "string option"
  cn_seq :: int

definition isSoulmirrorRelaySource :: "unknown \<Rightarrow> bool" where
  "isSoulmirrorRelaySource s \<longleftrightarrow>
     jprop s ''kind'' = Some (JStr ''plugin'') \<and> jprop s ''plugin'' = Some (JStr SOULMIRROR_PLUGIN) \<and> jprop s ''form'' = Some (JStr RELAY_FORM)"

text \<open>\<open>indexOf\<close> of the line feed, and the rest after it.\<close>

definition bodyOfRelayText :: "string \<Rightarrow> string" where
  "bodyOfRelayText t = (if lf \<in> set t then tl (dropWhile (\<lambda>c. c \<noteq> lf) t) else t)"

definition js_String :: "(json \<Rightarrow> string) \<Rightarrow> json \<Rightarrow> string" where
  "js_String String_of v = (case v of JStr s \<Rightarrow> s | _ \<Rightarrow> String_of v)"

definition relay_match :: "(json \<Rightarrow> string) \<Rightarrow> session_event \<Rightarrow> string option" where
  "relay_match String_of e =
     (let source = jprop (Some (sev_data e)) ''source'' in
      if sev_type e \<noteq> ''user/message'' \<or> \<not> isSoulmirrorRelaySource source then None
      else Some (''relay:'' @ (case jprop (jprop source ''a2a'') ''id'' of
                               Some (JStr s) \<Rightarrow> s
                             | _ \<Rightarrow> (case jprop (Some (sev_data e)) ''id'' of None \<Rightarrow> ''undefined'' | Some v \<Rightarrow> js_String String_of v))))"

definition block_part :: "json \<Rightarrow> string" where
  "block_part b = (if jprop (Some b) ''type'' = Some (JStr ''text'') then as_str (jprop (Some b) ''text'') else [])"

text \<open>\<open>v ?? d\<close> on a field that may be missing or null.\<close>

definition given_or :: "(json \<Rightarrow> string) \<Rightarrow> unknown \<Rightarrow> string \<Rightarrow> string" where
  "given_or String_of v d = (case v of None \<Rightarrow> d | Some JNull \<Rightarrow> d | Some j \<Rightarrow> js_String String_of j)"

definition note_text :: "string \<Rightarrow> string" where
  "note_text t = (if startsWith t NOTE_PREFIX then trimStart (drop (length NOTE_PREFIX) t) else t)"

definition relay_start :: "(json \<Rightarrow> string) \<Rightarrow> session_event \<Rightarrow> A2AChatData" where
  "relay_start String_of e =
     (let source = jprop (Some (sev_data e)) ''source''; a2a = jprop source ''a2a''; note = str_opt (jprop a2a ''note'');
          t = concat (map block_part (arr_items (jprop (Some (sev_data e)) ''content'')))
      in \<lparr>cn_id = given_or String_of (jprop a2a ''id'') (show_int (sev_seq e)), cn_fp = given_or String_of (jprop a2a ''fp'') [],
          cn_name = (case jprop source ''senderSessionId'' of Some (JStr n) \<Rightarrow> n | _ \<Rightarrow> ''friend''),
          cn_body = (if note = None then bodyOfRelayText t else note_text t),
          cn_ts = num_or (jprop a2a ''ts'') (sev_time e), cn_auto = is_true (jprop a2a ''auto''), cn_type = str_opt (jprop a2a ''type''),
          cn_note = note, cn_seq = sev_seq e\<rparr>)"

section \<open>The memory popup\<close>

datatype notice_phase = Processing | ResultShown | NothingFound | Guide

record memory_task =
  mt_phase :: notice_phase
  mt_memories :: "(string \<times> string) list"
  mt_remaining :: int
  mt_step :: nat
  mt_count :: int
  mt_clue :: string

definition KEEP_SECONDS :: int where "KEEP_SECONDS = 5"
definition EMPTY_SECONDS :: int where "EMPTY_SECONDS = 3"

datatype notice_timer = StepTimer | GuideTimer

text \<open>The running countdown is told by what it does at zero.\<close>

datatype countdown = ThenGuide | ThenClose

record MemoryNotice =
  mp_task :: "memory_task option"
  mp_timers :: "notice_timer list"
  mp_interval :: "countdown option"
  mp_cancelled :: "string list list"

definition no_notice :: MemoryNotice where
  "no_notice = \<lparr>mp_task = None, mp_timers = [], mp_interval = None, mp_cancelled = []\<rparr>"

definition clearAll :: "MemoryNotice \<Rightarrow> MemoryNotice" where
  "clearAll s = s\<lparr>mp_timers := [], mp_interval := None\<rparr>"

definition close_notice :: "MemoryNotice \<Rightarrow> MemoryNotice" where
  "close_notice s = (clearAll s)\<lparr>mp_task := None\<rparr>"

definition onMemory :: "MemoryFrame \<Rightarrow> MemoryNotice \<Rightarrow> MemoryNotice" where
  "onMemory f s0 =
     (let s = clearAll s0; clue = (case mf_clue f of None \<Rightarrow> [] | Some c \<Rightarrow> c); memories = (case mf_memories f of None \<Rightarrow> [] | Some ms \<Rightarrow> ms) in
      if mf_phase f = Extracting
      then s\<lparr>mp_task := Some \<lparr>mt_phase = Processing, mt_memories = [], mt_remaining = KEEP_SECONDS, mt_step = 0, mt_count = 0, mt_clue = clue\<rparr>,
             mp_timers := [StepTimer]\<rparr>
      else if memories \<noteq> []
      then s\<lparr>mp_task := Some \<lparr>mt_phase = ResultShown, mt_memories = memories, mt_remaining = KEEP_SECONDS, mt_step = 2, mt_count = mf_count f, mt_clue = clue\<rparr>,
             mp_interval := Some ThenGuide\<rparr>
      else s\<lparr>mp_task := Some \<lparr>mt_phase = NothingFound, mt_memories = [], mt_remaining = EMPTY_SECONDS, mt_step = 2, mt_count = mf_count f, mt_clue = clue\<rparr>,
             mp_interval := Some ThenClose\<rparr>)"

definition to_guide :: "MemoryNotice \<Rightarrow> MemoryNotice" where
  "to_guide s = s\<lparr>mp_task := map_option (\<lambda>t. t\<lparr>mt_phase := Guide\<rparr>) (mp_task s), mp_timers := mp_timers s @ [GuideTimer]\<rparr>"

text \<open>One second of \<open>startCountdown\<close>.\<close>

definition tick :: "MemoryNotice \<Rightarrow> MemoryNotice" where
  "tick s =
     (case (mp_interval s, mp_task s) of
        (Some c, Some t) \<Rightarrow>
          (if mt_remaining t - 1 > 0 then s\<lparr>mp_task := Some (t\<lparr>mt_remaining := mt_remaining t - 1\<rparr>)\<rparr>
           else (case c of ThenGuide \<Rightarrow> to_guide (s\<lparr>mp_interval := None\<rparr>) | ThenClose \<Rightarrow> s\<lparr>mp_interval := None, mp_task := None\<rparr>))
      | _ \<Rightarrow> s)"

definition step_fires :: "MemoryNotice \<Rightarrow> MemoryNotice" where
  "step_fires s =
     (if StepTimer \<in> set (mp_timers s)
      then s\<lparr>mp_timers := remove1 StepTimer (mp_timers s),
             mp_task := map_option (\<lambda>t. if mt_phase t = Processing then t\<lparr>mt_step := 1\<rparr> else t) (mp_task s)\<rparr>
      else s)"

definition guide_fires :: "MemoryNotice \<Rightarrow> MemoryNotice" where
  "guide_fires s = (if GuideTimer \<in> set (mp_timers s) then s\<lparr>mp_timers := remove1 GuideTimer (mp_timers s), mp_task := None\<rparr> else s)"

definition shown_phase :: "MemoryNotice \<Rightarrow> notice_phase option" where
  "shown_phase s = map_option mt_phase (mp_task s)"

definition onCancel :: "MemoryNotice \<Rightarrow> MemoryNotice" where
  "onCancel s =
     (case mp_task s of
        Some t \<Rightarrow> (if mt_phase t = ResultShown
                    then (close_notice s)\<lparr>mp_cancelled := mp_cancelled s @ [filter (\<lambda>i. i \<noteq> []) (map fst (mt_memories t))]\<rparr> else s)
      | None \<Rightarrow> s)"

definition onKeep :: "MemoryNotice \<Rightarrow> MemoryNotice" where
  "onKeep s = (if shown_phase s = Some ResultShown then to_guide (clearAll s) else s)"

definition onClose :: "MemoryNotice \<Rightarrow> MemoryNotice" where
  "onClose s = (if shown_phase s = Some NothingFound then close_notice s else s)"

datatype notice_event = NFrame MemoryFrame | NTick | NStep | NGuide | NSwitch | NCancel | NKeep | NClose

fun notice_step :: "MemoryNotice \<Rightarrow> notice_event \<Rightarrow> MemoryNotice" where
  "notice_step s (NFrame f) = onMemory f s"
| "notice_step s NTick = tick s"
| "notice_step s NStep = step_fires s"
| "notice_step s NGuide = guide_fires s"
| "notice_step s NSwitch = close_notice s"
| "notice_step s NCancel = onCancel s"
| "notice_step s NKeep = onKeep s"
| "notice_step s NClose = onClose s"

definition notice_run :: "notice_event list \<Rightarrow> MemoryNotice \<Rightarrow> MemoryNotice" where
  "notice_run evs s = foldl notice_step s evs"

section \<open>Bubbles show what was delivered\<close>

lemma body_after_line: "lf \<notin> set line \<Longrightarrow> bodyOfRelayText (line @ lf # body) = body"
proof -
  assume "lf \<notin> set line"
  then have "dropWhile (\<lambda>c. c \<noteq> lf) (line @ lf # body) = lf # body" by (induction line) auto
  then show ?thesis by (simp add: bodyOfRelayText_def)
qed

definition message_event :: "json \<Rightarrow> int \<Rightarrow> rat \<Rightarrow> session_event" where
  "message_event d seq time = \<lparr>sev_type = ''user/message'', sev_data = d, sev_seq = seq, sev_time = time\<rparr>"

lemma relay_text: "concat (map block_part (arr_items (Some (text_content t)))) = t"
  by (simp add: text_content_def block_part_def)

lemma relay_of: "relay_match S (message_event (user_message u t (relay_source n a)) q tm) = Some (''relay:'' @ i)" if "map_of a ''id'' = Some (JStr i)"
  using that by (simp add: relay_match_def message_event_def isSoulmirrorRelaySource_def)

lemma start_of:
  "relay_start S (message_event (user_message u t (relay_source n a)) q tm) =
     \<lparr>cn_id = given_or S (map_of a ''id'') (show_int q), cn_fp = given_or S (map_of a ''fp'') [], cn_name = n,
      cn_body = (if str_opt (map_of a ''note'') = None then bodyOfRelayText t else note_text t), cn_ts = num_or (map_of a ''ts'') tm,
      cn_auto = is_true (map_of a ''auto''), cn_type = str_opt (map_of a ''type''), cn_note = str_opt (map_of a ''note''), cn_seq = q\<rparr>"
  by (simp add: relay_start_def message_event_def relay_text Let_def)

lemma str_opt_map [simp]: "str_opt (map_option JStr v) = v"
  by (cases v) simp_all

lemma mail_node:
  assumes "lf \<notin> set dn" "lf \<notin> set (im_from m)"
  shows "relay_match S (message_event (userMessageFor u m dn) q tm) = Some (''relay:'' @ im_id m)"
    and "relay_start S (message_event (userMessageFor u m dn) q tm) =
      \<lparr>cn_id = im_id m, cn_fp = im_from m, cn_name = dn, cn_body = im_body m @ attachment_text m, cn_ts = of_int (im_ts m),
       cn_auto = im_auto m, cn_type = im_type m, cn_note = None, cn_seq = q\<rparr>"
proof -
  let ?line = "''[SoulMirror A2A inbound] from friend '' @ dq @ dn @ dq @ '' (fingerprint '' @ im_from m @ '')'' @ (if im_auto m then '' (peer auto-reply)'' else []) @ '':''"
  have "lf \<notin> set ?line" using assms by (simp add: lf_def)
  from body_after_line [OF this, of "im_body m @ attachment_text m"]
  show "relay_start S (message_event (userMessageFor u m dn) q tm) =
      \<lparr>cn_id = im_id m, cn_fp = im_from m, cn_name = dn, cn_body = im_body m @ attachment_text m, cn_ts = of_int (im_ts m),
       cn_auto = im_auto m, cn_type = im_type m, cn_note = None, cn_seq = q\<rparr>"
    unfolding userMessageFor_def start_of by (simp add: base_meta_def given_or_def js_String_def del: map_of_append)
  show "relay_match S (message_event (userMessageFor u m dn) q tm) = Some (''relay:'' @ im_id m)"
    unfolding userMessageFor_def by (rule relay_of) (simp add: base_meta_def)
qed

lemma voice_line: "\<forall>a. im_agent m = Some a \<longrightarrow> lf \<notin> set a \<Longrightarrow> lf \<notin> set (voice_text m)"
  by (auto simp: voice_text_def present_def lf_def split: option.splits if_splits)

lemma group_node:
  assumes "lf \<notin> set gn" "lf \<notin> set gid" "lf \<notin> set (im_name m)" "lf \<notin> set (im_from m)" "\<forall>a. im_agent m = Some a \<longrightarrow> lf \<notin> set a"
  shows "relay_match S (message_event (groupMessageFor u m gid gn) q tm) = Some (''relay:'' @ im_id m)"
    and "relay_start S (message_event (groupMessageFor u m gid gn) q tm) =
      \<lparr>cn_id = im_id m, cn_fp = im_from m, cn_name = im_name m @ '' in '' @ gn, cn_body = im_body m, cn_ts = of_int (im_ts m),
       cn_auto = im_auto m, cn_type = im_type m, cn_note = None, cn_seq = q\<rparr>"
proof -
  let ?line = "''[SoulMirror A2A inbound] group '' @ dq @ gn @ dq @ '' (gid '' @ gid @ '') from '' @ dq @ im_name m @ dq @ voice_text m @
        '' (fingerprint '' @ im_from m @ '')'' @ (if im_auto m then '' (automatic post)'' else []) @ '':''"
  have "lf \<notin> set ?line" using assms(1-4) voice_line [OF assms(5)] by (simp add: lf_def)
  from body_after_line [OF this, of "im_body m"]
  show "relay_start S (message_event (groupMessageFor u m gid gn) q tm) =
      \<lparr>cn_id = im_id m, cn_fp = im_from m, cn_name = im_name m @ '' in '' @ gn, cn_body = im_body m, cn_ts = of_int (im_ts m),
       cn_auto = im_auto m, cn_type = im_type m, cn_note = None, cn_seq = q\<rparr>"
    unfolding groupMessageFor_def start_of by (simp add: base_meta_def given_or_def js_String_def del: map_of_append)
  show "relay_match S (message_event (groupMessageFor u m gid gn) q tm) = Some (''relay:'' @ im_id m)"
    unfolding groupMessageFor_def by (rule relay_of) (simp add: base_meta_def)
qed

lemma note_node:
  "relay_match S (message_event (noteMessageFor env k d t) q tm) = Some (''relay:note-'' @ env_uuid env)"
  "cn_note (relay_start S (message_event (noteMessageFor env k d t) q tm)) = Some (note_str k)"
  "cn_body (relay_start S (message_event (noteMessageFor env k d t) q tm)) = trimStart t"
proof -
  have "note_text (''[SoulMirror note] '' @ t) = trimStart t"
    by (simp add: note_text_def NOTE_PREFIX_def startsWith_def trimStart_def is_ws_def)
  then show "cn_body (relay_start S (message_event (noteMessageFor env k d t) q tm)) = trimStart t"
    unfolding noteMessageFor_def start_of by simp
  show "cn_note (relay_start S (message_event (noteMessageFor env k d t) q tm)) = Some (note_str k)"
    unfolding noteMessageFor_def start_of by simp
  show "relay_match S (message_event (noteMessageFor env k d t) q tm) = Some (''relay:note-'' @ env_uuid env)"
    unfolding noteMessageFor_def by (subst relay_of) simp_all
qed

lemma owner_node: "relay_match S (message_event (ownerMessageFor u t) q tm) = None"
  by (simp add: relay_match_def message_event_def isSoulmirrorRelaySource_def ownerMessageFor_def)


definition notice_mail :: InboundMessage where
  "notice_mail = \<lparr>im_id = ''m1'', im_from = ''fp-a'', im_name = ''Ann'', im_body = ''hi'' @ [lf] @ ''there'', im_ts = 5, im_seq = None, im_auto = False,
     im_by = None, im_agent = None, im_type = None, im_artifactPath = Some ''/tmp/x'', im_artifactName = None\<rparr>"


text \<open>A display name with a line break moves the rest of the model's line into the bubble.\<close>

lemma line_break_in_name:
  "cn_body (relay_start S (message_event (userMessageFor u notice_mail (''A'' @ [lf] @ ''B'')) q tm)) =
     ''B'' @ dq @ '' (fingerprint fp-a):'' @ [lf] @ ''hi'' @ [lf] @ ''there'' @ [lf] @ ''[attachment: file at /tmp/x]''"
  unfolding userMessageFor_def start_of
  by (simp add: base_meta_def notice_mail_def attachment_text_def bodyOfRelayText_def lf_def auto_field_def)

section \<open>The popup\<close>

definition notice_ok :: "MemoryNotice \<Rightarrow> bool" where
  "notice_ok s =
     (case mp_task s of
        None \<Rightarrow> mp_interval s = None \<and> mp_timers s = []
      | Some t \<Rightarrow>
          (case mt_phase t of
             Processing \<Rightarrow> mp_interval s = None \<and> (mp_timers s = [] \<or> mp_timers s = [StepTimer])
           | ResultShown \<Rightarrow> mp_interval s = Some ThenGuide \<and> mp_timers s = [] \<and> 0 < mt_remaining t \<and> mt_remaining t \<le> KEEP_SECONDS
           | NothingFound \<Rightarrow> mp_interval s = Some ThenClose \<and> mp_timers s = [] \<and> 0 < mt_remaining t \<and> mt_remaining t \<le> EMPTY_SECONDS
           | Guide \<Rightarrow> mp_interval s = None \<and> mp_timers s = [GuideTimer]))"

lemmas notice_defs = onMemory_def tick_def step_fires_def guide_fires_def close_notice_def clearAll_def onCancel_def onKeep_def onClose_def
  to_guide_def shown_phase_def

lemma notice_run_snoc [simp]: "notice_run (evs @ [e]) s = notice_step (notice_run evs s) e"
  by (simp add: notice_run_def)

lemma notice_run_append: "notice_run (xs @ ys) s = notice_run ys (notice_run xs s)"
  by (simp add: notice_run_def)

lemma notice_step_ok: "notice_ok s \<Longrightarrow> notice_ok (notice_step s e)"
  by (cases e) (auto simp: notice_ok_def notice_defs KEEP_SECONDS_def EMPTY_SECONDS_def Let_def
      split: option.splits notice_phase.splits if_splits countdown.splits)

lemma notice_run_ok: "notice_ok (notice_run evs no_notice)"
proof (induction evs rule: rev_induct)
  case Nil
  show ?case by (simp add: notice_run_def notice_ok_def no_notice_def)
next
  case (snoc e evs)
  then show ?case by (simp add: notice_step_ok)
qed

lemma quiet_ticks: "shown_phase s \<in> {None, Some Guide} \<Longrightarrow> notice_ok s \<Longrightarrow> notice_run (replicate n NTick) s = s"
  by (induction n) (auto simp: notice_run_def tick_def notice_ok_def shown_phase_def)

lemma ticks_in_result:
  assumes "notice_ok s" "shown_phase s = Some ResultShown \<or> shown_phase s = Some NothingFound" "mt_remaining (the (mp_task s)) \<le> int n"
  shows "shown_phase (notice_run (replicate n NTick) s) \<in> {None, Some Guide}"
  using assms
proof (induction n arbitrary: s)
  case 0
  then show ?case by (auto simp: notice_ok_def shown_phase_def)
next
  case (Suc n)
  have ok: "notice_ok (tick s)" using notice_step_ok [OF Suc.prems(1), of NTick] by simp
  have split: "notice_run (replicate (Suc n) NTick) s = notice_run (replicate n NTick) (tick s)" by (simp add: notice_run_def)
  show ?case
  proof (cases "mt_remaining (the (mp_task s)) - 1 > 0")
    case True
    then have "shown_phase (tick s) = shown_phase s" "mt_remaining (the (mp_task (tick s))) = mt_remaining (the (mp_task s)) - 1"
      using Suc.prems(1,2) by (auto simp: tick_def notice_ok_def shown_phase_def split: option.splits)
    then show ?thesis using Suc.IH [OF ok] Suc.prems(2,3) split by simp
  next
    case False
    then have "shown_phase (tick s) \<in> {None, Some Guide}"
      using Suc.prems(1,2) by (auto simp: tick_def notice_ok_def shown_phase_def to_guide_def)
    then show ?thesis using quiet_ticks [OF _ ok] split by simp
  qed
qed

lemma guide_closes: "shown_phase s \<in> {None, Some Guide} \<Longrightarrow> notice_ok s \<Longrightarrow> mp_task (guide_fires s) = None"
  by (auto simp: guide_fires_def notice_ok_def shown_phase_def split: option.splits)

text \<open>
  A popup that shows a result goes away by itself: in whatever history it came up, five seconds of the countdown and the timer
  of the guide bubble close it, and none of that asks the host to forget a memory.\<close>
theorem popup_goes_away:
  assumes "shown_phase (notice_run evs no_notice) \<noteq> Some Processing"
  shows "mp_task (notice_run (replicate 5 NTick @ [NGuide]) (notice_run evs no_notice)) = None
      \<and> mp_cancelled (notice_run (replicate 5 NTick @ [NGuide]) (notice_run evs no_notice)) = mp_cancelled (notice_run evs no_notice)"
proof -
  let ?s = "notice_run evs no_notice" and ?r = "notice_run (replicate 5 NTick) (notice_run evs no_notice)"
  have ok: "notice_ok ?s" by (rule notice_run_ok)
  have ok': "notice_ok ?r" using notice_run_ok [of "evs @ replicate 5 NTick"] by (simp add: notice_run_append)
  have "shown_phase ?r \<in> {None, Some Guide}"
  proof (cases "shown_phase ?s \<in> {None, Some Guide}")
    case True
    then show ?thesis using quiet_ticks [OF _ ok] by simp
  next
    case False
    then have res: "shown_phase ?s = Some ResultShown \<or> shown_phase ?s = Some NothingFound"
      using assms by (auto simp: shown_phase_def) (metis notice_phase.exhaust)
    moreover have "mt_remaining (the (mp_task ?s)) \<le> int 5"
      using ok res by (auto simp: notice_ok_def shown_phase_def KEEP_SECONDS_def EMPTY_SECONDS_def)
    ultimately show ?thesis by (rule ticks_in_result [OF ok])
  qed
  then have "mp_task (guide_fires ?r) = None" using ok' by (rule guide_closes)
  moreover have "mp_cancelled (notice_run (replicate n NTick) s) = mp_cancelled s" for n s
    by (induction n arbitrary: s) (auto simp: notice_run_def tick_def to_guide_def split: option.splits countdown.splits)
  ultimately show ?thesis by (simp only: notice_run_snoc notice_step.simps) (simp add: guide_fires_def)
qed

theorem popup_goes_away_witness:
  "shown_phase (notice_run [NFrame \<lparr>mf_phase = Extracted, mf_count = 1, mf_memories = Some [(''m1'', ''likes tea'')], mf_clue = None\<rparr>] no_notice) = Some ResultShown
   \<and> mp_task (notice_run (replicate 5 NTick @ [NGuide])
       (notice_run [NFrame \<lparr>mf_phase = Extracted, mf_count = 1, mf_memories = Some [(''m1'', ''likes tea'')], mf_clue = None\<rparr>] no_notice)) = None"
proof -
  let ?e = "[NFrame \<lparr>mf_phase = Extracted, mf_count = 1, mf_memories = Some [(''m1'', ''likes tea'')], mf_clue = None\<rparr>]"
  have "shown_phase (notice_run ?e no_notice) = Some ResultShown" by (simp add: notice_run_def notice_defs no_notice_def Let_def)
  then show ?thesis using popup_goes_away [of ?e] by simp
qed

text \<open>The result of a history: the popup shows a result since a frame that brought it, with nothing but timers in between.\<close>

definition since_result :: "notice_event list \<Rightarrow> MemoryFrame \<Rightarrow> notice_event list \<Rightarrow> bool" where
  "since_result evs f bs \<longleftrightarrow> mf_phase f = Extracted \<and> set bs \<subseteq> {NTick, NStep, NGuide, NClose} \<and> int (length (filter (\<lambda>e. e = NTick) bs)) < KEEP_SECONDS
     \<and> (\<exists>as. evs = as @ NFrame f # bs)"

lemma since_result_snoc:
  "since_result evs f bs \<Longrightarrow> e \<in> {NTick, NStep, NGuide, NClose} \<Longrightarrow> int (length (filter (\<lambda>e. e = NTick) (bs @ [e]))) < KEEP_SECONDS
     \<Longrightarrow> since_result (evs @ [e]) f (bs @ [e])"
  by (auto simp: since_result_def)

lemma result_from_frame:
  assumes "mp_task (notice_run evs no_notice) = Some t" "mt_phase t = ResultShown"
  shows "\<exists>f bs. since_result evs f bs \<and> mf_memories f = Some (mt_memories t)
     \<and> mt_remaining t = KEEP_SECONDS - int (length (filter (\<lambda>e. e = NTick) bs))"
  using assms
proof (induction evs arbitrary: t rule: rev_induct)
  case Nil
  then show ?case by (simp add: notice_run_def no_notice_def)
next
  case (snoc e evs)
  let ?s = "notice_run evs no_notice"
  have ok: "notice_ok ?s" and ok': "notice_ok (notice_step ?s e)" using notice_run_ok [of evs] by (simp_all add: notice_step_ok)
  have now: "mp_task (notice_step ?s e) = Some t" "mt_phase t = ResultShown" using snoc.prems by simp_all
  have pos: "0 < mt_remaining t" using ok' now by (simp add: notice_ok_def)
  show ?case
  proof (cases "\<exists>f. e = NFrame f")
    case True
    then obtain f where e: "e = NFrame f" by blast
    with now have "mf_phase f = Extracted" "mf_memories f = Some (mt_memories t)" "mt_remaining t = KEEP_SECONDS"
      by (auto simp: notice_defs Let_def split: if_splits option.splits) (cases "mf_phase f"; simp)+
    then show ?thesis using e by (intro exI [of _ f] exI [of _ "[]"]) (simp add: since_result_def KEEP_SECONDS_def)
  next
    case False
    have old: "e \<in> {NTick, NStep, NGuide, NClose} \<and> (\<exists>t0. mp_task ?s = Some t0 \<and> mt_phase t0 = ResultShown \<and> mt_memories t = mt_memories t0
        \<and> mt_remaining t = mt_remaining t0 - (if e = NTick then 1 else 0))"
      using False now ok by (cases e) (auto simp: notice_defs notice_ok_def split: if_splits option.splits countdown.splits notice_phase.splits)
    then obtain t0 where t0: "mp_task ?s = Some t0" "mt_phase t0 = ResultShown" "mt_memories t = mt_memories t0"
      "mt_remaining t = mt_remaining t0 - (if e = NTick then 1 else 0)" by blast
    from snoc.IH [OF t0(1,2)] obtain f bs where "since_result evs f bs" "mf_memories f = Some (mt_memories t)"
      "mt_remaining t0 = KEEP_SECONDS - int (length (filter (\<lambda>e. e = NTick) bs))" using t0(3) by auto
    with old t0(4) pos since_result_snoc [of evs f bs e] show ?thesis
      by (intro exI [of _ f] exI [of _ "bs @ [e]"]) (auto split: if_splits)
  qed
qed

lemma cancelled_step:
  "mp_cancelled (notice_step s e) = mp_cancelled s @
     (case mp_task s of
        Some t \<Rightarrow> if e = NCancel \<and> mt_phase t = ResultShown then [filter (\<lambda>i. i \<noteq> []) (map fst (mt_memories t))] else []
      | None \<Rightarrow> [])"
  by (cases e) (auto simp: notice_defs Let_def split: option.splits countdown.splits)

text \<open>
  Extracted memories are kept unless the owner cancels them: in every history of frames, timers, clicks and switches, each
  request to forget memories comes from a click on Cancel, within the five seconds after the frame that brought them and with
  no other frame, switch or click on Keep in between, and it names exactly the memories of that frame that have an id; every
  click makes at most one request.\<close>
theorem memories_kept_unless_cancelled:
  "length (mp_cancelled (notice_run evs no_notice)) \<le> length (filter (\<lambda>e. e = NCancel) evs)
   \<and> (\<forall>ids \<in> set (mp_cancelled (notice_run evs no_notice)).
        \<exists>pre f bs cs. evs = pre @ NCancel # cs \<and> since_result pre f bs \<and> ids = filter (\<lambda>i. i \<noteq> []) (map fst (the (mf_memories f))))"
proof (induction evs rule: rev_induct)
  case Nil
  show ?case by (simp add: notice_run_def no_notice_def)
next
  case (snoc e evs)
  let ?s = "notice_run evs no_notice" and ?P = "\<lambda>evs ids. \<exists>pre f bs cs. evs = pre @ NCancel # cs \<and> since_result pre f bs \<and> ids = filter (\<lambda>i. i \<noteq> []) (map fst (the (mf_memories f)))"
  have old: "\<forall>ids \<in> set (mp_cancelled ?s). ?P (evs @ [e]) ids" using snoc.IH by (metis (no_types, lifting) append_Cons append_assoc)
  show ?case
  proof (cases "\<exists>t. e = NCancel \<and> mp_task ?s = Some t \<and> mt_phase t = ResultShown")
    case True
    then obtain t where t: "e = NCancel" "mp_task ?s = Some t" "mt_phase t = ResultShown" by blast
    from result_from_frame [OF t(2,3)] obtain f bs where "since_result evs f bs" "mf_memories f = Some (mt_memories t)" by blast
    then have "?P (evs @ [e]) (filter (\<lambda>i. i \<noteq> []) (map fst (mt_memories t)))" using t(1) by (metis option.sel)
    moreover have "mp_cancelled (notice_step ?s e) = mp_cancelled ?s @ [filter (\<lambda>i. i \<noteq> []) (map fst (mt_memories t))]"
      using t unfolding cancelled_step by simp
    ultimately show ?thesis using old snoc.IH t(1) by (simp del: notice_step.simps)
  next
    case False
    then have "mp_cancelled (notice_step ?s e) = mp_cancelled ?s" unfolding cancelled_step by (auto split: option.splits)
    then show ?thesis using old snoc.IH by simp
  qed
qed

theorem memories_kept_unless_cancelled_witness:
  "mp_cancelled (notice_run [NFrame \<lparr>mf_phase = Extracted, mf_count = 2, mf_memories = Some [(''m1'', ''a''), ([], ''b'')], mf_clue = None\<rparr>, NTick, NCancel, NCancel] no_notice) = [[''m1'']]
   \<and> length [[''m1'']] \<le> length (filter (\<lambda>e. e = NCancel) [NFrame \<lparr>mf_phase = Extracted, mf_count = 2, mf_memories = Some [(''m1'', ''a''), ([], ''b'')], mf_clue = None\<rparr>, NTick, NCancel, NCancel])"
proof -
  let ?e = "[NFrame \<lparr>mf_phase = Extracted, mf_count = 2, mf_memories = Some [(''m1'', ''a''), ([], ''b'')], mf_clue = None\<rparr>, NTick, NCancel, NCancel]"
  have run: "mp_cancelled (notice_run ?e no_notice) = [[''m1'']]" by (simp add: notice_run_def notice_defs no_notice_def Let_def KEEP_SECONDS_def)
  then show ?thesis using memories_kept_unless_cancelled [of ?e] by (simp only: run simp_thms)
qed

text \<open>
  A switch of the session closes the popup, but the result of the turn that was left comes up over the session switched to.\<close>

lemma result_over_other_session:
  assumes "mf_phase f = Extracting" "mf_phase g = Extracted" "mf_memories g = Some ms" "ms \<noteq> []"
  shows "shown_phase (notice_run [NFrame f, NSwitch] no_notice) = None"
    and "shown_phase (notice_run [NFrame f, NSwitch, NFrame g] no_notice) = Some ResultShown"
  using assms by (simp_all add: notice_run_def notice_defs no_notice_def Let_def)

text \<open>No timer closes the notice of an extraction that is never answered.\<close>

lemma processing_stays:
  assumes "shown_phase s = Some Processing" "notice_ok s" "set es \<subseteq> {NTick, NStep, NGuide, NCancel, NKeep, NClose}"
  shows "shown_phase (notice_run es s) = Some Processing \<and> notice_ok (notice_run es s)"
  using assms
proof (induction es rule: rev_induct)
  case Nil
  then show ?case by (simp add: notice_run_def)
next
  case (snoc e es)
  then have "shown_phase (notice_run es s) = Some Processing" "notice_ok (notice_run es s)" by simp_all
  then show ?case using snoc.prems(3) notice_step_ok
    by (auto simp: notice_defs notice_ok_def)
qed

end
