(* ===== verification/Spec2Isabelle.thy ===== *)
theory Spec2Isabelle
  imports Drafts Friend_Settings Group_Settings Agent_Registry Group_Contract Alter_State Inbox_State Rooms Jsonrpc Memory_Store
    Network Session_Messages Sessions Session_Control Session_Map Persona_Context Tools Payments Paygate Api_Service
    Page_Store Api_Client Upgrade_Store Plugin Tool_Args Commands Session_Host Chat_Room Friend_List
    Group_Home Page_Notices
begin

text \<open>
  \<^bold>\<open>A verification library for the SoulMirror plugin of soulnet.\<close>

  The plugin (\<open>src/dsh/packages/dsh/src/\<close>) gives an owner an AI alter and named seat agents that read
  the owner's mail and groups on a peer-to-peer network and answer under the owner's rules. Its parts
  work together as follows. A network client (\<open>network/\<close>) delivers mail and group posts as events. The
  sessions service (\<open>sessions/index.ts\<close>) routes each event into a chat session, waking the alter or a seat
  agent when the reply policy (\<open>policy.ts\<close>) and the stored settings (\<open>friend-settings.ts\<close>,
  \<open>group-settings.ts\<close>, \<open>agent-registry.ts\<close>) say so. In its turn the model calls tools
  (\<open>tools/index.ts\<close>), whose gates look at what started the turn (\<open>alter-state.ts\<close>) and send, hold the
  text back as a draft (\<open>drafts.ts\<close>), ask a human, or refuse. The page (\<open>client/\<close>) shows threads, rooms,
  the inbox and the transcript, and lets the owner decide drafts; it reaches the plugin over an HTTP API
  (\<open>api/index.ts\<close>), which also upgrades the plugin (\<open>api/upgrade.ts\<close>). Two processes run beside the plugin
  under its supervision: the peer that speaks to the network (\<open>network/soulnet.ts\<close>) and the payment
  gateway (\<open>network/paygate.ts\<close>).

  \<^bold>\<open>Foundations.\<close> \<open>Prelude\<close>: strings as the source uses them (\<open>trim\<close>, \<open>toLowerCase\<close>, splitting) and shared
  lemma collections. \<open>Js_Collections\<close>: JavaScript's ordered maps as association lists, stable sorting by
  a comparator, and the interfaces \<open>keyed_map\<close>, \<open>comparator\<close>, \<open>collation\<close> and \<open>json_codec\<close> as locales.
  \<open>Json_Text\<close>: JSON values, printing and parsing. \<open>Js_Date\<close>: \<open>toISOString\<close> and \<open>Date.parse\<close>. \<open>Js_Number\<close>:
  \<open>Number(s)\<close> on strings.

  \<^bold>\<open>Rules and stores.\<close>
  \<open>Policy\<close> is \<open>policy.ts\<close>: \<open>routeInbound\<close>, \<open>sendGate\<close>, \<open>groupSendGate\<close>, the wake rules, the mention
  grammar and the hourly window, the latter behind the locale \<open>rate_window\<close>.
  \<open>Drafts\<close>, \<open>Friend_Settings\<close>, \<open>Group_Settings\<close> and \<open>Agent_Registry\<close> are the write-through stores of the
  files of the same name: a record holds the memory and the file's JSON value, one function is one
  method, an inductive predicate describes the reachable states, and the lemmas show that a reload gives
  back what is in memory, that well-formedness is kept, and (drafts, registry) that the store refines a
  finite map. \<open>Group_Contract\<close> is \<open>group-contract.ts\<close>: the governance view of a wire profile and the
  paid-join marker. \<open>Memory_Store\<close> is \<open>memory/store.ts\<close> and \<open>memory/extract.ts\<close>: rows, the full-text
  table, scopes, ranking and the parser of the extraction answer.

  \<^bold>\<open>Network.\<close> \<open>Network\<close> is \<open>network/types.ts\<close>, \<open>network/send.ts\<close> and the in-memory backend
  \<open>network/fake.ts\<close>. The client interface is the record \<open>NetworkClient\<close>, whose fields take and return the
  backend's state, so a caller is verified for every backend; the locale \<open>archive_client\<close> states what a
  backend's archive promises and is interpreted on the in-memory one. \<open>Jsonrpc\<close> is \<open>network/jsonrpc.ts\<close>:
  the request table under every interleaving of calls, lines, timers and signals. \<open>network/soulnet.ts\<close> is
  three theories: \<open>Soulnet_Wire\<close> translates the peer's JSON values, notifications and errors; \<open>Soulnet_Peer\<close>
  finds the binary and supervises the process, as a state machine whose events are the callbacks of processes,
  timers and calls; \<open>Soulnet_Client\<close> is every operation of the client as a request and the reading of its
  answer. \<open>Paygate\<close> is \<open>network/paygate.ts\<close>: environment, binary, process, readiness loop and signed calls.

  \<^bold>\<open>Sessions.\<close> \<open>Alter_State\<close> is \<open>alter-state.ts\<close> and \<open>events.ts\<close>: who started the running turn, and the
  transcript. \<open>Session_Messages\<close>, \<open>Sessions\<close> and \<open>Session_Control\<close> are \<open>sessions/index.ts\<close>: the record
  \<open>SessionsState\<close> holds what the closure of \<open>createAlterSessions\<close> holds, with a log of the messages put
  into sessions and the events emitted. \<open>Sessions\<close> has the session map, opening sessions, delivery of mail
  and group posts, reply receipts and voices; \<open>Session_Control\<close> has agents, instructions, drafts and their
  decision, notes, settings calls, memory calls, nudges, event handlers and the bootstrap. \<open>Session_Map\<close>
  proves the invariant of the session map over all reachable states. \<open>Persona_Context\<close> has the prompt
  variables that depend on the turn. \<open>Session_Host\<close> has what the service does with the host: the choice of preset and
  model, the rosters of the prompt, the debounced publishing of states, the installation of the preset and the
  migration of the workspaces of earlier versions.

  \<^bold>\<open>Tools.\<close> \<open>Tools\<close> and \<open>Payments\<close> are \<open>tools/index.ts\<close> and \<open>tools/remember.ts\<close>: every tool is a function
  of the network client, the host, the approval service and the state of the sessions service, which may
  be absent, to a result, the new state and the new network. \<open>Tool_Args\<close> is \<open>tools/define.ts\<close> with the parameters of
  every tool: the validation of arguments and the schema the model is shown.

  \<^bold>\<open>Entry.\<close> \<open>Settings\<close> is \<open>settings.ts\<close>. \<open>Plugin\<close> is \<open>index.ts\<close>: the settings in force, the gateway that follows them
  and the admission of applicants who have paid. \<open>Commands\<close> is \<open>commands/index.ts\<close>: one function per command.

  \<^bold>\<open>HTTP API and upgrade.\<close> \<open>Upgrade\<close> is \<open>api/upgrade.ts\<close>: the version grammar and precedence, the registry
  query, the profile directory and the installer run. \<open>Api_Core\<close> and \<open>Http_Api\<close> are \<open>api/index.ts\<close>: reading a
  body, one function per route over the record \<open>Api\<close> (the closure's state with the network, the sessions
  service, the stores, the upgrade module and the SSE clients), the dispatch and the status codes.
  \<open>Api_Service\<close> adds histories: an inductive predicate \<open>api_reach\<close> of requests, network events and installer
  events, and the locale \<open>admission\<close> of a client whose approvals admit.

  \<^bold>\<open>Page.\<close> \<open>Page_State\<close>, \<open>Inbox_State\<close> and \<open>Rooms\<close> are \<open>client/page-state.ts\<close>, \<open>client/inbox-state.ts\<close>,
  \<open>client/group-room.ts\<close> and \<open>client/rooms/timeline.ts\<close>. The stores of the page are state machines whose events are
  clicks, timers, frames and answers in any order: \<open>Network_Store\<close> (the class of \<open>client/api.ts\<close> with the event stream
  and the refetch), \<open>Page_Store\<close> (\<open>client/page-store.ts\<close>: navigation, threads, sends, transcript, drafts, typing
  signals; it contains the network store), \<open>Upgrade_Store\<close> (\<open>client/upgrade-store.ts\<close>). \<open>Api_Client\<close> is the rest of
  \<open>client/api.ts\<close>: every request the page can make, and the reading of its answer; it is composed with \<open>Http_Api\<close>.
  \<open>Chat_Room\<close> is the state and the handlers of \<open>client/rooms/ChatRoom.tsx\<close>, composed with \<open>Group_Settings\<close> and \<open>Policy\<close>.
  \<open>Friend_List\<close> is the list column (\<open>client/FriendList.tsx\<close>: rows, search, the dialogs and the payment of a join),
  \<open>Group_Home\<close> the home of a group with its forms (\<open>client/GroupPane.tsx\<close>, \<open>GroupCreateDialog.tsx\<close>,
  \<open>group-templates.ts\<close>), composed with the profile the host reads; \<open>Page_Notices\<close> has the nodes of relayed messages
  (\<open>client/a2a-node.ts\<close>), composed with \<open>Session_Messages\<close>, and the popup of \<open>client/MemoryNotification.tsx\<close>.

  \<^bold>\<open>Parameters.\<close> What the plugin calls and does not contain is an argument: the host's sessions
  (\<open>Host\<close>: which session ids exist, whether one can be created, its event log), the clock and fresh ids
  (\<open>Env\<close>, one per draw, in the order the code draws them), the approval service, the pay gateway, the
  network client, the peer's answers (\<open>rpc\<close>), the answers of HTTP servers, the file system and the processes
  the plugin starts (as events), the full-text engine's score and row order (\<open>is_plan\<close>: a permutation), and
  \<open>localeCompare\<close> (\<open>collation\<close>). So are the browser's storage, the answers of its requests and the polls of a
  restarting host, the presets, models and workspaces of the host and what it refuses, and the settings document. Model texts that have no bearing on control flow are arguments too.

  \<^bold>\<open>Conventions.\<close> Numbers of the source that count, index or measure time are \<open>int\<close> or \<open>nat\<close>; none comes
  near the range where JavaScript numbers lose integers; numbers read from JSON or from text are exact
  rationals. Characters are code points below 256, so the case mapping and white space are those of that
  range; Chinese characters, which the segmentation distinguishes, are given as a predicate of the code units
  there, and the few literals outside the range (the ellipsis, the check mark) are parameters. Every thrown error is a value of a sum
  type. A handler is one step: code between two \<open>await\<close>s of different handlers is not interleaved, and
  the two places where that matters are recorded as findings (the hourly count and the approval of a
  draft). Log lines are left out. Every function is total. Fuel occurs in one place, the JSON parser, and
  the length of the text is enough of it; the upward walks of the upgrade module stop after the number of
  directories the code itself allows, and the wait for the gateway is as long as the code's own deadline.

  \<^bold>\<open>What is shown.\<close> The send gates: nothing reaches a friend, a group or the payment gateway without a
  licence, the hourly limit holds over every history, and automatic mail is never answered
  (\<open>Tools\<close>, \<open>Payments\<close>). Delivery: each mail and each group post reaches exactly the sessions it should
  (\<open>Sessions\<close>), under the right voice and also after a restart (\<open>Session_Map\<close>); drafts are decided once
  (\<open>Session_Control\<close>). Privacy: memories stay within their scope (\<open>Memory_Store\<close>, \<open>Persona_Context\<close>).
  Authenticity of the owner's turns (\<open>Alter_State\<close>). Durability and refinement of the stores. Exactly one
  settlement of every request (\<open>Jsonrpc\<close>). One supervised peer at a time, callers that are answered, typed
  values whatever the peer sends (\<open>Soulnet_Peer\<close>, \<open>Soulnet_Wire\<close>, \<open>Soulnet_Client\<close>), a wait for the gateway
  that ends (\<open>Paygate\<close>). At the API: requests that read change nothing, bad requests are refused without
  effect, paid approvals need a confirmed payment, the host exits only after an install (\<open>Http_Api\<close>,
  \<open>Api_Service\<close>, \<open>Upgrade\<close>). Nobody enters a paid group without a confirmed payment, and the gateway runs with the
  settings in force (\<open>Plugin\<close>); tool arguments are checked as their schema says (\<open>Tool_Args\<close>); the migration touches
  the plugin's own workspaces only (\<open>Session_Host\<close>). On the page: no lost, duplicated or misplaced message, one stream
  and one request of a kind at a time, no bubble that keeps sending, navigation that survives a reload, requests the
  host understands and refusals that are reported, an upgrade that installs only what was offered and a wait that
  ends (\<open>Network_Store\<close>, \<open>Page_Store\<close>, \<open>Api_Client\<close>, \<open>Upgrade_Store\<close>), mentions that reach the agent and switches
  that show the store (\<open>Chat_Room\<close>), a question before money is moved for a join (\<open>Friend_List\<close>), two clicks before
  anybody is removed and forms whose choices the host enforces (\<open>Group_Home\<close>), bubbles that show what was delivered, and
  memories kept unless the owner cancels them (\<open>Page_Notices\<close>).

  \<^bold>\<open>Not modelled.\<close> The registration of services, routes, tools and commands with the host; the markup that the
  React views of \<open>client/\<close> render, with scroll positions and focus; the tables of texts and styles; the prose of the
  prompts (\<open>persona.ts\<close>); the sidebar package. The Go programs of the repository (relay and sidecar) are outside the
  plugin.
\<close>

end
